(* ===== verification/Prelude.thy ===== *)
theory Prelude
  imports Main "HOL-Library.Word"
begin

text \<open>
  Shared vocabulary of the development: the types the Rust sources use everywhere (strings as
  UTF-8 byte lists, instants, machine integers, results), the trimming functions of the Rust
  standard library, the lemmas on lists and maps that several components need, and the
  interfaces (locales) that the in-memory registries of the daemon have in common.
\<close>

section \<open>Types and collections of facts\<close>

text \<open>
  A Rust \<open>String\<close> is a valid UTF-8 byte sequence: here a \<open>string\<close>, one \<open>char\<close> per byte, so
  \<open>length\<close> is \<open>str::len\<close>. A \<open>DateTime<Utc>\<close> is the number of nanoseconds since the Unix epoch;
  \<open>Utc::now()\<close> and generated identifiers are arguments of the operations that read them.
  An operation on a manager's locked state returns its \<open>Result\<close> and the state it leaves, so that
  what an error leaves behind is a statement and not a modelling choice.
\<close>

type_synonym timestamp = int
type_synonym i32 = "32 word"
type_synonym i64 = "64 word"
type_synonym ('s, 'e, 'a) op = "'s \<Rightarrow> ('e + 'a) \<times> 's"

named_theorems op_defs \<open>operations of the components\<close>
named_theorems inv_defs \<open>well-formedness invariants of the components\<close>
named_theorems str_simps \<open>evaluation of the string functions on literals\<close>

section \<open>Machine integers\<close>

text \<open>The successor of a signed 64-bit integer, as a release build computes it.\<close>

lemma sint_succ:
  "sint (w + 1 :: 64 word) = (if sint w = 2 ^ 63 - 1 then - (2 ^ 63) else sint w + 1)"
proof -
  have range: "- (2 ^ 63) \<le> sint w" "sint w < 2 ^ 63"
    using sint_range_size [of w] by (simp_all add: word_size)
  have "sint (w + 1) = signed_take_bit 63 (sint w + 1)"
    by (simp add: sint_word_add)
  then show ?thesis
    using range by (auto simp: signed_take_bit_int_eq_self)
qed

text \<open>A 64-bit integer computed as an integer: the result of an operation wraps around in a release build.\<close>

definition wrap_i64 :: "int \<Rightarrow> int" where
  "wrap_i64 v = (v + 2 ^ 63) mod 2 ^ 64 - 2 ^ 63"

lemma wrap_i64_same: "- (2 ^ 63) \<le> v \<Longrightarrow> v < 2 ^ 63 \<Longrightarrow> wrap_i64 v = v"
  by (simp add: wrap_i64_def)

section \<open>Trimming\<close>

text \<open>
  \<open>str::trim\<close> removes leading and trailing characters with the Unicode property
  White\_Space. The list holds their UTF-8 encodings; UTF-8 is self-synchronising, so an encoding
  occurs at the end of a valid string exactly when its last character is that character.
\<close>

definition white_space :: "string list" where
  "white_space =
     [[CHR 0x20], [CHR 0x09], [CHR 0x0A], [CHR 0x0B], [CHR 0x0C], [CHR 0x0D],
      [CHR 0xC2, CHR 0x85], [CHR 0xC2, CHR 0xA0], [CHR 0xE1, CHR 0x9A, CHR 0x80],
      [CHR 0xE2, CHR 0x80, CHR 0x80], [CHR 0xE2, CHR 0x80, CHR 0x81],
      [CHR 0xE2, CHR 0x80, CHR 0x82], [CHR 0xE2, CHR 0x80, CHR 0x83],
      [CHR 0xE2, CHR 0x80, CHR 0x84], [CHR 0xE2, CHR 0x80, CHR 0x85],
      [CHR 0xE2, CHR 0x80, CHR 0x86], [CHR 0xE2, CHR 0x80, CHR 0x87],
      [CHR 0xE2, CHR 0x80, CHR 0x88], [CHR 0xE2, CHR 0x80, CHR 0x89],
      [CHR 0xE2, CHR 0x80, CHR 0x8A], [CHR 0xE2, CHR 0x80, CHR 0xA8],
      [CHR 0xE2, CHR 0x80, CHR 0xA9], [CHR 0xE2, CHR 0x80, CHR 0xAF],
      [CHR 0xE2, CHR 0x81, CHR 0x9F], [CHR 0xE3, CHR 0x80, CHR 0x80]]"

definition is_lead :: "string \<Rightarrow> string \<Rightarrow> bool" where
  "is_lead s w \<longleftrightarrow> w \<noteq> [] \<and> take (length w) s = w"

lemma find_is_lead:
  "find (is_lead s) ws = Some w \<Longrightarrow> w \<noteq> [] \<and> take (length w) s = w"
  by (auto simp: is_lead_def find_Some_iff)

function strip :: "string list \<Rightarrow> string \<Rightarrow> string" where
  "strip ws s =
     (case find (is_lead s) ws of None \<Rightarrow> s | Some w \<Rightarrow> strip ws (drop (length w) s))"
  by pat_completeness auto
termination
proof (relation "measure (\<lambda>(ws, s). length s)", goal_cases)
  case (2 ws s w)
  then have "w \<noteq> []" and "take (length w) s = w" by (auto dest: find_is_lead)
  then have "s \<noteq> []" and "0 < length w" by auto
  then show ?case by simp
qed simp

declare strip.simps [simp del]

definition trim_start :: "string \<Rightarrow> string" where
  "trim_start s = strip white_space s"

definition trim_end :: "string \<Rightarrow> string" where
  "trim_end s = rev (strip (map rev white_space) (rev s))"

definition trim :: "string \<Rightarrow> string" where
  "trim s = trim_end (trim_start s)"

lemma strip_clean: "find (is_lead s) ws = None \<Longrightarrow> strip ws s = s"
  by (simp add: strip.simps)

lemma strip_finds_nothing: "find (is_lead (strip ws s)) ws = None"
proof (induction ws s rule: strip.induct)
  case (1 ws s)
  then show ?case
    by (cases "find (is_lead s) ws") (simp_all add: strip.simps [of ws s])
qed

lemma strip_suffix: "\<exists>p. s = p @ strip ws s"
proof (induction ws s rule: strip.induct)
  case (1 ws s)
  show ?case
  proof (cases "find (is_lead s) ws")
    case None
    then show ?thesis by (simp add: strip_clean)
  next
    case (Some w)
    with "1" obtain p where "drop (length w) s = p @ strip ws (drop (length w) s)" by blast
    then have "s = (take (length w) s @ p) @ strip ws (drop (length w) s)"
      by (metis append.assoc append_take_drop_id)
    with Some show ?thesis by (metis option.simps(5) strip.simps)
  qed
qed

lemma is_lead_append: "is_lead s w \<Longrightarrow> is_lead (s @ t) w"
  by (auto simp: is_lead_def) (metis take_all_iff append_take_drop_id length_take min.absorb_iff2
      nat_le_linear take_append append_eq_append_conv diff_is_0_eq' append_Nil2 take0)

lemma find_is_lead_append:
  "find (is_lead (s @ t)) ws = None \<Longrightarrow> find (is_lead s) ws = None"
  by (auto simp: find_None_iff dest: is_lead_append)

lemma trim_idem [simp]: "trim (trim s) = trim s"
proof -
  obtain p where "rev (trim_start s) = p @ strip (map rev white_space) (rev (trim_start s))"
    using strip_suffix by blast
  then have split: "trim_start s = trim s @ rev p"
    by (simp add: trim_def trim_end_def) (metis rev_append rev_rev_ident)
  have "find (is_lead (trim_start s)) white_space = None"
    by (simp add: trim_start_def strip_finds_nothing)
  then have "trim_start (trim s) = trim s"
    using split by (metis find_is_lead_append strip_clean trim_start_def)
  moreover have "trim_end (trim s) = trim s"
    by (simp add: trim_def trim_end_def strip_clean strip_finds_nothing)
  ultimately show ?thesis by (simp add: trim_def)
qed

lemma trim_Nil [simp]: "trim [] = []"
  by code_simp

text \<open>Trimming cuts off both ends only: the result is a contiguous part of the input.\<close>

lemma trim_infix: "\<exists>p q. s = p @ trim s @ q"
proof -
  obtain p where p: "s = p @ trim_start s"
    using strip_suffix by (metis trim_start_def)
  obtain q where "rev (trim_start s) = q @ strip (map rev white_space) (rev (trim_start s))"
    using strip_suffix by blast
  then have "trim_start s = trim s @ rev q"
    by (simp add: trim_def trim_end_def) (metis rev_append rev_rev_ident)
  with p show ?thesis by metis
qed

lemma length_trim: "length (trim s) \<le> length s"
  by (metis trim_infix le_add1 le_add2 length_append le_trans)

text \<open>
  A string whose first and last bytes are printable ASCII has nothing to trim: the rule by which
  trimming evaluates on the literals of the witnesses.
\<close>

definition visible :: "char \<Rightarrow> bool" where
  "visible c \<longleftrightarrow> (32 :: nat) < of_char c \<and> of_char c < (128 :: nat)"

lemma strip_visible:
  assumes "visible c" and "\<forall>w \<in> set ws. w = [] \<or> \<not> visible (hd w)"
  shows "strip ws (c # s) = c # s"
proof (rule strip_clean)
  have "\<not> is_lead (c # s) w" if "w \<in> set ws" for w
  proof -
    from that assms(2) have "w = [] \<or> \<not> visible (hd w)" by blast
    with assms(1) show ?thesis by (auto simp: is_lead_def neq_Nil_conv)
  qed
  then show "find (is_lead (c # s)) ws = None" by (simp add: find_None_iff)
qed

lemma trim_visible [str_simps]:
  assumes "visible (hd s)" and "visible (last s)" and "s \<noteq> []"
  shows "trim s = s"
proof -
  have "\<forall>w \<in> set white_space. w = [] \<or> \<not> visible (hd w)"
    by code_simp
  then have "trim_start s = s"
    using assms strip_visible by (metis list.collapse trim_start_def)
  moreover have "\<forall>w \<in> set (map rev white_space). w = [] \<or> \<not> visible (hd w)"
    by code_simp
  then have "strip (map rev white_space) (rev s) = rev s"
    using assms strip_visible by (metis hd_rev list.collapse rev_is_Nil_conv)
  ultimately show ?thesis by (simp add: trim_def trim_end_def)
qed

section \<open>Decimal digits\<close>

text \<open>Decimal digits of a number, as \<open>format!\<close> prints it.\<close>

fun decimal :: "nat \<Rightarrow> string" where
  "decimal n =
     (if n < 10 then [char_of (48 + n)] else decimal (n div 10) @ [char_of (48 + n mod 10)])"

declare decimal.simps [simp del]

text \<open>The decimal digits determine the number.\<close>

definition decimal_value :: "string \<Rightarrow> nat" where
  "decimal_value ds = foldl (\<lambda>a c. 10 * a + (of_char c - 48)) 0 ds"

lemma decimal_value: "decimal_value (decimal n) = n"
proof (induction n rule: decimal.induct)
  case (1 n)
  have digit: "of_char (char_of (48 + k) :: char) - 48 = k" if "k < 10" for k :: nat
    using that by (simp add: of_char_of)
  show ?case
  proof (cases "n < 10")
    case True
    then show ?thesis using digit [of n] by (simp add: decimal.simps [of n] decimal_value_def)
  next
    case False
    with 1 have "decimal_value (decimal (n div 10)) = n div 10" by blast
    then show ?thesis
      using False digit [of "n mod 10"] by (simp add: decimal.simps [of n] decimal_value_def)
  qed
qed

lemma decimal_inj: "decimal m = decimal n \<longleftrightarrow> m = n"
  by (metis decimal_value)

section \<open>Substrings\<close>

text \<open>\<open>str::contains\<close>; UTF-8 encodings of characters do not overlap, so bytes suffice.\<close>

fun contains_str :: "string \<Rightarrow> string \<Rightarrow> bool" where
  "contains_str pat [] \<longleftrightarrow> pat = []"
| "contains_str pat (c # s) \<longleftrightarrow> take (length pat) (c # s) = pat \<or> contains_str pat s"

text \<open>\<open>to_lowercase\<close> on the ASCII letters; no other character lowers to one of the letters searched for.\<close>

definition lower_char :: "char \<Rightarrow> char" where
  "lower_char c = (if (65 :: nat) \<le> of_char c \<and> of_char c \<le> (90 :: nat) then char_of (of_char c + (32 :: nat)) else c)"

definition lower_ascii :: "string \<Rightarrow> string" where
  "lower_ascii = map lower_char"

text \<open>
  \<open>to_lowercase\<close> for a search of ASCII text: besides the capital letters, the Kelvin sign lowers to k and the
  dotted capital I to i with a combining dot; no other character lowers to one with an ASCII letter.
\<close>

fun lower_text :: "string \<Rightarrow> string" where
  "lower_text [] = []"
| "lower_text (c # s) =
     (if take 2 s = [CHR 0x84, CHR 0xAA] \<and> c = CHR 0xE2 then CHR ''k'' # lower_text (drop 2 s)
      else if take 1 s = [CHR 0xB0] \<and> c = CHR 0xC4 then CHR ''i'' # CHR 0xCC # CHR 0x87 # lower_text (drop 1 s)
      else lower_char c # lower_text s)"

text \<open>\<open>chars().take(n)\<close> on the bytes of a UTF-8 string: a character ends before the next byte that is not
  a continuation byte.\<close>

fun take_chars :: "nat \<Rightarrow> string \<Rightarrow> string" where
  "take_chars n [] = []"
| "take_chars n (c # s) =
     (if (128 :: nat) \<le> of_char c \<and> of_char c < (192 :: nat) then c # take_chars n s
      else if n = 0 then [] else c # take_chars (n - 1) s)"

lemma take_chars_prefix: "\<exists>q. s = take_chars n s @ q"
  by (induction n s rule: take_chars.induct) auto

text \<open>
  \<open>is_char_boundary\<close> on the bytes of a UTF-8 string: the ends, and every byte that is not a
  continuation byte \<open>10xxxxxx\<close>.
\<close>

definition is_char_boundary :: "string \<Rightarrow> nat \<Rightarrow> bool" where
  "is_char_boundary s i \<longleftrightarrow>
     i = 0 \<or> i = length s \<or>
     i < length s \<and> (of_char (s ! i) < (128 :: nat) \<or> (192 :: nat) \<le> of_char (s ! i))"

text \<open>\<open>str::split\<close> at a one-byte separator; the result has at least one piece.\<close>

fun split_on :: "char \<Rightarrow> string \<Rightarrow> string list" where
  "split_on c [] = [[]]"
| "split_on c (x # xs) =
     (if x = c then [] # split_on c xs
      else case split_on c xs of [] \<Rightarrow> [[x]] | p # ps \<Rightarrow> (x # p) # ps)"

text \<open>\<open>join\<close> with a one-byte separator.\<close>

fun join_on :: "char \<Rightarrow> string list \<Rightarrow> string" where
  "join_on c [] = []"
| "join_on c [p] = p"
| "join_on c (p # q # ps) = p @ c # join_on c (q # ps)"

lemma split_on_ne [simp]: "split_on c s \<noteq> []"
  by (induction s) (auto split: list.split)

lemma split_on_plain: "c \<notin> set s \<Longrightarrow> split_on c s = [s]"
  by (induction s) auto

lemma split_on_append: "c \<notin> set p \<Longrightarrow> split_on c (p @ c # s) = p # split_on c s"
  by (induction p) auto

lemma split_join: "ps \<noteq> [] \<Longrightarrow> \<forall>p \<in> set ps. c \<notin> set p \<Longrightarrow> split_on c (join_on c ps) = ps"
  by (induction c ps rule: join_on.induct) (auto simp: split_on_plain split_on_append)

end
