(* ===== verification/Registry.thy ===== *)
theory Registry
  imports Prelude
begin

text \<open>
  The in-memory registries of the daemon keep their entries in a hash map and, beside it, ordered
  vectors of the keys: one vector of all keys (runs, sessions, approvals, decisions, swarm runs),
  or one vector per owner (the steps of a run, the tool calls of a step). This theory states what
  such a registry promises, as two locales, and what its listings then return.
\<close>

section \<open>A map with an ordered key vector\<close>

definition ids_ok :: "string list \<Rightarrow> (string \<rightharpoonup> 'v) \<Rightarrow> ('v \<Rightarrow> string) \<Rightarrow> bool" where
  "ids_ok ids m key \<longleftrightarrow>
     distinct ids \<and> set ids = dom m \<and> (\<forall>k v. m k = Some v \<longrightarrow> key v = k)"

lemma ids_ok_empty [simp]: "ids_ok [] Map.empty key"
  by (simp add: ids_ok_def)

lemma ids_ok_insert:
  "ids_ok ids m key \<Longrightarrow> m k = None \<Longrightarrow> key v = k \<Longrightarrow> ids_ok (ids @ [k]) (m(k \<mapsto> v)) key"
  by (auto simp: ids_ok_def)

lemma ids_ok_rewrite:
  "ids_ok ids m key \<Longrightarrow> m k \<noteq> None \<Longrightarrow> key v = k \<Longrightarrow> ids_ok ids (m(k \<mapsto> v)) key"
  by (auto simp: ids_ok_def)

lemma ids_ok_key: "ids_ok ids m key \<Longrightarrow> m k = Some v \<Longrightarrow> key v = k"
  by (simp add: ids_ok_def)

lemma map_filter_total:
  "set ks \<subseteq> dom m \<Longrightarrow> List.map_filter m ks = map (\<lambda>k. the (m k)) ks"
  by (induction ks) (auto simp: List.map_filter_simps split: option.splits)

lemma map_filter_cong:
  "(\<And>x. x \<in> set xs \<Longrightarrow> f x = g x) \<Longrightarrow> List.map_filter f xs = List.map_filter g xs"
  by (induction xs) (simp_all add: List.map_filter_simps split: option.splits)

locale ordered_registry =
  fixes ids :: "'s \<Rightarrow> string list"
    and entries :: "'s \<Rightarrow> string \<Rightarrow> 'v option"
    and key :: "'v \<Rightarrow> string"
    and invar :: "'s \<Rightarrow> bool"
  assumes registry_ok: "invar s \<Longrightarrow> ids_ok (ids s) (entries s) key"
begin

lemma listing_eq:
  "invar s \<Longrightarrow> List.map_filter (entries s) (ids s) = map (\<lambda>k. the (entries s k)) (ids s)"
  using registry_ok by (auto simp: ids_ok_def intro!: map_filter_total)

text \<open>A listing returns every entry once, in the order of insertion.\<close>

lemma listing_keys: "invar s \<Longrightarrow> map key (List.map_filter (entries s) (ids s)) = ids s"
  using registry_ok [of s] by (auto simp: listing_eq ids_ok_def intro!: map_idI)

lemma listing_distinct: "invar s \<Longrightarrow> distinct (List.map_filter (entries s) (ids s))"
  using listing_keys registry_ok by (metis distinct_map ids_ok_def)

lemma listing_member:
  assumes "invar s"
  shows "v \<in> set (List.map_filter (entries s) (ids s)) \<longleftrightarrow> entries s (key v) = Some v"
  using registry_ok [OF assms] by (force simp: listing_eq [OF assms] ids_ok_def)

lemma listing_length: "invar s \<Longrightarrow> length (List.map_filter (entries s) (ids s)) = length (ids s)"
  by (simp add: listing_eq)

lemma indexed_total: "invar s \<Longrightarrow> k \<in> set (ids s) \<Longrightarrow> entries s k \<noteq> None"
  using registry_ok by (fastforce simp: ids_ok_def)

end

section \<open>A map with a key vector per owner\<close>

text \<open>\<open>entry(k).or_default().push(v)\<close> on a map of vectors.\<close>

definition push_entry :: "'k \<Rightarrow> 'v \<Rightarrow> ('k \<rightharpoonup> 'v list) \<Rightarrow> ('k \<rightharpoonup> 'v list)" where
  "push_entry k v m = m(k \<mapsto> (case m k of None \<Rightarrow> [v] | Some vs \<Rightarrow> vs @ [v]))"

definition listed :: "(string \<rightharpoonup> string list) \<Rightarrow> string \<Rightarrow> string list" where
  "listed idx p = (case idx p of None \<Rightarrow> [] | Some ks \<Rightarrow> ks)"

lemma listed_push [simp]:
  "listed (push_entry p k idx) q = (if q = p then listed idx p @ [k] else listed idx q)"
  by (auto simp: listed_def push_entry_def split: option.splits)

lemma listed_upd_None [simp]: "listed (idx(p := None)) q = (if q = p then [] else listed idx q)"
  by (simp add: listed_def)

lemma listed_empty [simp]: "listed Map.empty p = []"
  by (simp add: listed_def)

definition index_ok ::
  "(string \<rightharpoonup> string list) \<Rightarrow> (string \<rightharpoonup> 'v) \<Rightarrow> ('v \<Rightarrow> string) \<Rightarrow> ('v \<Rightarrow> string) \<Rightarrow> bool" where
  "index_ok idx m key owner \<longleftrightarrow>
     (\<forall>k v. m k = Some v \<longrightarrow> key v = k) \<and>
     (\<forall>p. idx p \<noteq> Some [] \<and> distinct (listed idx p)) \<and>
     (\<forall>p k. k \<in> set (listed idx p) \<longleftrightarrow> (\<exists>v. m k = Some v \<and> owner v = p))"

lemma index_ok_empty [simp]: "index_ok Map.empty Map.empty key owner"
  by (simp add: index_ok_def)

lemma index_okD:
  assumes "index_ok idx m key owner"
  shows index_ok_key: "m k = Some v \<Longrightarrow> key v = k"
    and index_ok_distinct: "distinct (listed idx p)"
    and index_ok_nonempty: "idx p \<noteq> Some []"
    and index_ok_listed: "k \<in> set (listed idx p) \<longleftrightarrow> (\<exists>v. m k = Some v \<and> owner v = p)"
  using assms by (auto simp: index_ok_def)

lemma index_ok_push:
  assumes "index_ok idx m key owner" and "m k = None" and "key v = k" and "owner v = p"
  shows "index_ok (push_entry p k idx) (m(k \<mapsto> v)) key owner"
proof -
  have "k \<notin> set (listed idx q)" for q
    using assms(1,2) by (auto simp: index_ok_listed)
  moreover have "push_entry p k idx q \<noteq> Some []" for q
    using assms(1) by (auto simp: push_entry_def index_ok_nonempty split: option.splits)
  ultimately show ?thesis
    using assms by (auto simp: index_ok_def)
qed

lemma index_ok_rewrite:
  assumes "index_ok idx m key owner" and "m k = Some v"
    and "key v' = k" and "owner v' = owner v"
  shows "index_ok idx (m(k \<mapsto> v')) key owner"
  using assms by (fastforce simp: index_ok_def)

lemma index_ok_map:
  assumes "index_ok idx m key owner"
    and "\<And>k. rel_option (\<lambda>v w. key w = key v \<and> owner w = owner v) (m k) (m' k)"
  shows "index_ok idx m' key owner"
proof -
  have keys: "key w = k" if "m' k = Some w" for k w
    using assms(2) [of k] that index_ok_key [OF assms(1), of k] by (cases "m k") auto
  have owners: "(\<exists>w. m' k = Some w \<and> owner w = p) \<longleftrightarrow> (\<exists>v. m k = Some v \<and> owner v = p)" for k p
    using assms(2) [of k] by (cases "m k"; cases "m' k") auto
  show ?thesis
    using assms(1) by (simp add: index_ok_def owners) (simp add: keys)
qed

text \<open>Removing some owners with all their entries.\<close>

lemma listed_restrict [simp]: "listed (idx |` A) p = (if p \<in> A then listed idx p else [])"
  by (simp add: listed_def restrict_map_def)

lemma index_ok_drop:
  assumes "index_ok idx m key owner"
    and "\<And>k. m' k = (case m k of None \<Rightarrow> None | Some v \<Rightarrow> if owner v \<in> P then None else Some v)"
  shows "index_ok (idx |` (- P)) m' key owner"
proof -
  have "(idx |` (- P)) p \<noteq> Some []" for p
    using assms(1) by (auto simp: restrict_map_def index_ok_nonempty)
  with assms show ?thesis
    by (auto simp: index_ok_def split: option.splits if_splits)
qed

text \<open>Loading a batch of entries.\<close>

definition upd_all :: "('v \<Rightarrow> string) \<Rightarrow> 'v list \<Rightarrow> (string \<rightharpoonup> 'v) \<Rightarrow> (string \<rightharpoonup> 'v)" where
  "upd_all key xs m = fold (\<lambda>x m. m(key x \<mapsto> x)) xs m"

definition push_each ::
  "('v \<Rightarrow> string) \<Rightarrow> ('v \<Rightarrow> string) \<Rightarrow> 'v list \<Rightarrow> (string \<rightharpoonup> string list) \<Rightarrow> (string \<rightharpoonup> string list)"
where
  "push_each owner key xs idx = fold (\<lambda>x. push_entry (owner x) (key x)) xs idx"

lemma upd_all_simps [simp]:
  "upd_all key [] m = m"
  "upd_all key (x # xs) m = upd_all key xs (m(key x \<mapsto> x))"
  "upd_all key (xs @ ys) m = upd_all key ys (upd_all key xs m)"
  by (simp_all add: upd_all_def)

lemma push_each_simps [simp]:
  "push_each owner key [] idx = idx"
  "push_each owner key (x # xs) idx = push_each owner key xs (push_entry (owner x) (key x) idx)"
  "push_each owner key (xs @ ys) idx = push_each owner key ys (push_each owner key xs idx)"
  by (simp_all add: push_each_def)

lemma push_each_cong:
  "(\<And>x. x \<in> set xs \<Longrightarrow> owner x = owner' x) \<Longrightarrow> push_each owner key xs idx = push_each owner' key xs idx"
  by (induction xs arbitrary: idx) simp_all

lemma upd_all_other: "k \<notin> key ` set xs \<Longrightarrow> upd_all key xs m k = m k"
  by (induction xs arbitrary: m) auto

lemma upd_all_member:
  "distinct (map key xs) \<Longrightarrow> x \<in> set xs \<Longrightarrow> upd_all key xs m (key x) = Some x"
  by (induction xs arbitrary: m) (auto simp: upd_all_other)

lemma listed_push_each [simp]:
  "listed (push_each owner key xs idx) p = listed idx p @ map key (filter (\<lambda>x. owner x = p) xs)"
  by (induction xs arbitrary: idx) auto

lemma push_each_nonempty: "\<forall>p. idx p \<noteq> Some [] \<Longrightarrow> \<forall>p. push_each owner key xs idx p \<noteq> Some []"
  by (induction xs arbitrary: idx) (auto simp: push_entry_def split: option.splits)

text \<open>A map of vectors without empty vectors is determined by what it lists.\<close>

lemma index_eqI:
  assumes "\<And>p. idx p \<noteq> Some []" and "\<And>p. idx' p \<noteq> Some []" and "\<And>p. listed idx p = listed idx' p"
  shows "idx = idx'"
proof
  fix p
  show "idx p = idx' p"
    using assms [of p] by (auto simp: listed_def split: option.splits)
qed

lemma index_ok_load:
  assumes "index_ok idx m key owner" and "distinct (map key xs)"
    and "\<And>x. x \<in> set xs \<Longrightarrow> m (key x) = None"
  shows "index_ok (push_each owner key xs idx) (upd_all key xs m) key owner"
  using assms
proof (induction xs arbitrary: idx m)
  case (Cons x xs)
  have ok: "index_ok (push_entry (owner x) (key x) idx) (m(key x \<mapsto> x)) key owner"
    using Cons.prems by (intro index_ok_push) auto
  have fresh: "(m(key x \<mapsto> x)) (key y) = None" if "y \<in> set xs" for y
  proof -
    have "key y \<noteq> key x" using Cons.prems(2) that by (metis distinct.simps(2) image_eqI list.simps(9) set_map)
    then show ?thesis using Cons.prems(3) [of y] that by simp
  qed
  have dist: "distinct (map key xs)" using Cons.prems(2) by simp
  show ?case
    unfolding upd_all_simps push_each_simps by (rule Cons.IH [OF ok dist fresh])
qed simp

text \<open>Loading the entries of a registry back into the part that does not hold them.\<close>

lemma upd_all_back:
  assumes "distinct (map key xs)" and "\<And>k v. m k = Some v \<Longrightarrow> key v = k"
    and "\<And>x. x \<in> set xs \<Longrightarrow> m (key x) = Some x"
    and "\<And>k. m' k = (case m k of None \<Rightarrow> None | Some v \<Rightarrow> if v \<in> set xs then None else Some v)"
  shows "upd_all key xs m' = m"
proof
  fix k
  show "upd_all key xs m' k = m k"
  proof (cases "k \<in> key ` set xs")
    case True
    then obtain x where "x \<in> set xs" and "k = key x" by blast
    with assms(1,3) show ?thesis by (simp add: upd_all_member)
  next
    case False
    with assms(2,4) show ?thesis
      by (auto simp: upd_all_other split: option.splits)
  qed
qed

text \<open>A registry is rebuilt from all its entries, owner by owner.\<close>

lemma registry_rebuilt:
  assumes keys: "\<And>k v. m k = Some v \<Longrightarrow> key v = k" and "distinct (map key xs)"
    and all: "\<And>x. x \<in> set xs \<longleftrightarrow> m (key x) = Some x"
  shows "upd_all key xs Map.empty = m"
proof (rule upd_all_back [OF assms(2)])
  show "m k = Some v \<Longrightarrow> key v = k" for k v by (rule keys)
  then show "None = (case m k of None \<Rightarrow> None | Some v \<Rightarrow> if v \<in> set xs then None else Some v)" for k
    by (auto simp: all split: option.splits)
qed (simp add: all)

lemma index_rebuilt:
  assumes ok: "index_ok idx m key owner"
    and "\<And>p. map key (filter (\<lambda>x. owner x = p) xs) = listed idx p"
  shows "push_each owner key xs Map.empty = idx"
proof (rule index_eqI)
  show "push_each owner key xs Map.empty p \<noteq> Some []" for p
    using push_each_nonempty [of Map.empty] by auto
qed (use assms in \<open>simp_all add: index_ok_nonempty\<close>)

lemma upd_all_empty:
  assumes "distinct (map key xs)"
  shows "upd_all key xs Map.empty k = Some x \<longleftrightarrow> x \<in> set xs \<and> k = key x"
proof (cases "k \<in> key ` set xs")
  case True
  then obtain y where "y \<in> set xs" and "k = key y" by blast
  with assms upd_all_member [OF assms this(1), of Map.empty] show ?thesis
    by (auto simp: distinct_map inj_on_def)
qed (auto simp: upd_all_other)

lemma ids_ok_load:
  "distinct (map key xs) \<Longrightarrow> ids_ok (map key xs) (upd_all key xs Map.empty) key"
  by (force simp: ids_ok_def upd_all_empty dom_def)

locale owned_registry =
  fixes index :: "'s \<Rightarrow> string \<Rightarrow> string list option"
    and entries :: "'s \<Rightarrow> string \<Rightarrow> 'v option"
    and key :: "'v \<Rightarrow> string"
    and owner :: "'v \<Rightarrow> string"
    and invar :: "'s \<Rightarrow> bool"
  assumes owned_ok: "invar s \<Longrightarrow> index_ok (index s) (entries s) key owner"
begin

lemma owned_total: "invar s \<Longrightarrow> set (listed (index s) p) \<subseteq> dom (entries s)"
  using owned_ok [of s] by (auto simp: index_ok_listed)

lemma owned_listing_eq:
  "invar s \<Longrightarrow> List.map_filter (entries s) (listed (index s) p) =
     map (\<lambda>k. the (entries s k)) (listed (index s) p)"
  by (simp add: map_filter_total owned_total)

lemma owned_listing_keys:
  "invar s \<Longrightarrow> map key (List.map_filter (entries s) (listed (index s) p)) = listed (index s) p"
  using owned_ok [of s]
  by (auto simp: owned_listing_eq index_ok_listed index_ok_key intro!: map_idI)

text \<open>The listing of an owner holds exactly the entries that name it, each once.\<close>

lemma owned_listing_member:
  assumes "invar s"
  shows "v \<in> set (List.map_filter (entries s) (listed (index s) p)) \<longleftrightarrow>
         entries s (key v) = Some v \<and> owner v = p"
proof -
  note ok = owned_ok [OF assms]
  have "v \<in> set (map (\<lambda>k. the (entries s k)) (listed (index s) p)) \<longleftrightarrow>
        (\<exists>k \<in> set (listed (index s) p). entries s k = Some v)"
    using owned_total [OF assms, of p] by force
  then show ?thesis
    by (auto simp: owned_listing_eq [OF assms] index_ok_listed [OF ok] Bex_def
        dest: index_ok_key [OF ok])
qed

lemma owned_listing_distinct:
  "invar s \<Longrightarrow> distinct (List.map_filter (entries s) (listed (index s) p))"
  using owned_listing_keys owned_ok by (metis distinct_map index_ok_distinct)

end

section \<open>Status machines\<close>

text \<open>
  A status vocabulary with a transition rule and terminal statuses. What the locale promises: a
  terminal status is never left. Its lemma lifts that to any number of transitions.
\<close>

locale status_machine =
  fixes step :: "'a \<Rightarrow> 'a \<Rightarrow> bool"
    and terminal :: "'a \<Rightarrow> bool"
  assumes terminal_stuck: "terminal a \<Longrightarrow> \<not> step a b"
begin

lemma terminal_absorbing: "step\<^sup>*\<^sup>* a b \<Longrightarrow> terminal a \<Longrightarrow> b = a"
  by (induction rule: converse_rtranclp_induct) (auto dest: terminal_stuck)

end

section \<open>Invariants of step relations\<close>

locale invariant_system =
  fixes start :: "'s \<Rightarrow> bool"
    and step :: "'s \<Rightarrow> 's \<Rightarrow> bool"
    and inv :: "'s \<Rightarrow> bool"
  assumes inv_start: "start s \<Longrightarrow> inv s"
    and inv_step: "step s t \<Longrightarrow> inv s \<Longrightarrow> inv t"
begin

lemma inv_steps: "step\<^sup>*\<^sup>* s t \<Longrightarrow> inv s \<Longrightarrow> inv t"
  by (induction rule: rtranclp_induct) (auto intro: inv_step)

lemma inv_reachable: "start s \<Longrightarrow> step\<^sup>*\<^sup>* s t \<Longrightarrow> inv t"
  by (blast intro: inv_start inv_steps)

end

end
