(* ===== verification/Shared_Types.thy ===== *)
theory Shared_Types
  imports Registry
begin

text \<open>
  Data that several components carry without looking into it: JSON values, the integration
  binding summaries of approvals and tool calls, the calendar and mail operation summaries of
  tool calls, and the runtime profile projection of runs and handoff links.
\<close>

section \<open>JSON values\<close>

text \<open>
  \<open>serde_json::Value\<close>. A number is an unsigned or a negative 64-bit integer or the bits of an
  \<open>f64\<close>; an object lists its members.
\<close>

datatype json_number = PosInt "64 word" | NegInt "64 word" | Float "64 word"

datatype json =
    JNull
  | JBool bool
  | JNumber json_number
  | JString string
  | JArray "json list"
  | JObject "(string \<times> json) list"

type_synonym json_map = "(string \<times> json) list"

section \<open>Integration binding summaries (crates/domains/integrations/src/lib.rs)\<close>

datatype readiness_status =
  ReadinessNotConfigured | ReadinessAuthPending | ReadinessHealthy | ReadinessDegraded
  | ReadinessUnavailable

datatype backend_kind =
  BackendMcp | BackendManagedProvider | BackendNative | BackendFakeLocal | BackendFeishuLark
  | BackendAdapterRpc

record binding_summary =
  bs_tenant_id :: string
  bs_integration_id :: string
  bs_domain_kind :: string
  bs_display_name :: string
  bs_account_key :: string
  bs_canonical_default :: bool
  bs_readiness_at_invocation :: readiness_status
  bs_backend_kind :: backend_kind
  bs_secret_resolution :: string
  bs_environment_scope :: string
  bs_captured_at :: timestamp

section \<open>Calendar and mail operation summaries\<close>

datatype calendar_operation_class =
  ListEvents | GetEvent | BusyFree | CreateEvent | UpdateEvent | CancelEvent | UpdateAttendees

datatype calendar_operation_status =
  CalRequested | CalCompleted | CalFailed | CalBlocked | CalCancelled

record calendar_operation_summary =
  cos_operation_id :: string
  cos_operation_class :: calendar_operation_class
  cos_integration_id :: string
  cos_external_event_id :: string
  cos_status :: calendar_operation_status
  cos_timezone_used :: string
  cos_captured_at :: timestamp

datatype mail_operation_class =
  ListThreads | GetThread | GetMessage | ListDrafts | GetDraft | CreateDraft | UpdateDraft
  | SendMessage | SendDraft | ReplyMessage | ForwardMessage | DownloadAttachment

datatype mail_operation_status =
  MailRequested | MailCompleted | MailFailed | MailBlocked | MailCancelled

datatype mail_result_mode =
  ModeInspection | ModeDraftOnly | ModeSent | ModeBlocked | ModeFailed

record mail_operation_summary =
  mos_operation_id :: string
  mos_operation_class :: mail_operation_class
  mos_integration_id :: string
  mos_thread_id :: string
  mos_message_id :: string
  mos_draft_id :: string
  mos_result_mode :: mail_result_mode
  mos_send_path :: string
  mos_status :: mail_operation_status
  mos_captured_at :: timestamp

section \<open>Runtime profile projection (crates/engine/profiles/src/types.rs)\<close>

text \<open>The kinds, reasons and redaction states of this record are open string vocabularies.\<close>

record runtime_projection =
  rp_runtime_profile_projection_id :: string
  rp_tenant_id :: string
  rp_profile_id :: string
  rp_profile_version_id :: string
  rp_selection_id :: string
  rp_resource_kind :: string
  rp_resource_id :: string
  rp_thread_id :: string
  rp_session_segment_id :: string
  rp_run_id :: string
  rp_workflow_id :: string
  rp_handoff_link_id :: string
  rp_selection_scope :: string
  rp_selection_reason :: string
  rp_safe_display_name :: string
  rp_safe_summary :: string
  rp_configuration_scope :: string
  rp_deferred_binding_classification :: string
  rp_occurred_at :: timestamp
  rp_retention_expires_at :: "timestamp option"
  rp_redaction_status :: string

end
