(* ===== verification/Runtime_Types.thy ===== *)
theory Runtime_Types
  imports Shared_Types
begin

text \<open>
  Data model of the run ledger, crates/engine/runtime/src/lib.rs: the status vocabularies with
  their wire names, the error type, the run, step, tool-call and checkpoint records, the inputs of
  the operations and the state behind the manager's lock (\<open>ManagerInner\<close>).
\<close>

section \<open>Status vocabularies\<close>

datatype run_status =
  RunQueued | RunRunning | RunWaitingInput | RunBlocked | RunCompleted | RunFailed | RunCancelled

fun run_status_as_str :: "run_status \<Rightarrow> string" where
  "run_status_as_str RunQueued = ''queued''"
| "run_status_as_str RunRunning = ''running''"
| "run_status_as_str RunWaitingInput = ''waiting_input''"
| "run_status_as_str RunBlocked = ''blocked''"
| "run_status_as_str RunCompleted = ''completed''"
| "run_status_as_str RunFailed = ''failed''"
| "run_status_as_str RunCancelled = ''cancelled''"

datatype step_status =
  StepQueued | StepPlanning | StepCallingModel | StepExecutingTool | StepWaitingInput
  | StepBlocked | StepCompleted | StepFailed | StepCancelled

fun step_status_as_str :: "step_status \<Rightarrow> string" where
  "step_status_as_str StepQueued = ''queued''"
| "step_status_as_str StepPlanning = ''planning''"
| "step_status_as_str StepCallingModel = ''calling_model''"
| "step_status_as_str StepExecutingTool = ''executing_tool''"
| "step_status_as_str StepWaitingInput = ''waiting_input''"
| "step_status_as_str StepBlocked = ''blocked''"
| "step_status_as_str StepCompleted = ''completed''"
| "step_status_as_str StepFailed = ''failed''"
| "step_status_as_str StepCancelled = ''cancelled''"

datatype tool_call_status =
  ToolRequested | ToolRunning | ToolCompleted | ToolFailed | ToolCancelled | ToolDenied

fun tool_call_status_as_str :: "tool_call_status \<Rightarrow> string" where
  "tool_call_status_as_str ToolRequested = ''requested''"
| "tool_call_status_as_str ToolRunning = ''running''"
| "tool_call_status_as_str ToolCompleted = ''completed''"
| "tool_call_status_as_str ToolFailed = ''failed''"
| "tool_call_status_as_str ToolCancelled = ''cancelled''"
| "tool_call_status_as_str ToolDenied = ''denied''"

datatype tool_call_invocation_kind = LocalTool | SkillTool | McpTool | DomainTool

fun invocation_kind_as_str :: "tool_call_invocation_kind \<Rightarrow> string" where
  "invocation_kind_as_str LocalTool = ''local_tool''"
| "invocation_kind_as_str SkillTool = ''skill''"
| "invocation_kind_as_str McpTool = ''mcp_tool''"
| "invocation_kind_as_str DomainTool = ''domain_tool''"

text \<open>The wire names of a vocabulary determine its values.\<close>

lemma run_status_as_str_inj: "inj run_status_as_str"
  by (rule injI) (case_tac x; case_tac y; simp)

lemma step_status_as_str_inj: "inj step_status_as_str"
  by (rule injI) (case_tac x; case_tac y; simp)

lemma tool_call_status_as_str_inj: "inj tool_call_status_as_str"
  by (rule injI) (case_tac x; case_tac y; simp)

section \<open>Errors\<close>

datatype runtime_error =
    EntrypointRequired
  | RunAlreadyExists
  | RunNotFound
  | TitleRequired
  | StepNotFound
  | InvalidStepTransition
  | RunTerminal
  | StepTerminal
  | ToolNameRequired
  | ToolTargetRequired
  | ToolCallNotFound
  | InvalidToolCallStatus

section \<open>Runs, steps, tool calls\<close>

record run =
  run_id :: string
  run_session_id :: string
  run_schedule_id :: string
  run_schedule_attempt_id :: string
  run_reminder_id :: string
  run_reminder_occurrence_id :: string
  run_entrypoint :: string
  run_status :: run_status
  run_goal :: string
  run_active_workflow_id :: string
  run_workflow_count :: i64
  run_latest_delivery_id :: string
  run_latest_delivery_status :: string
  run_latest_delivery_target_id :: string
  run_active_profile_projection :: "runtime_projection option"
  run_created_at :: timestamp
  run_updated_at :: timestamp

record create_run_input =
  cri_run_id :: string
  cri_session_id :: string
  cri_schedule_id :: string
  cri_schedule_attempt_id :: string
  cri_reminder_id :: string
  cri_reminder_occurrence_id :: string
  cri_entrypoint :: string
  cri_goal :: string

record step =
  step_id :: string
  step_run_id :: string
  step_workflow_id :: string
  step_workflow_step_id :: string
  step_attempt :: i64
  step_title :: string
  step_kind :: string
  step_status :: step_status
  step_created_at :: timestamp
  step_updated_at :: timestamp
  step_input :: "json option"
  step_output :: "json option"

record create_step_input =
  csi_title :: string
  csi_kind :: string
  csi_workflow_id :: string
  csi_workflow_step_id :: string
  csi_attempt :: i64
  csi_input :: "json option"

record update_step_status_input =
  usi_status :: step_status
  usi_output :: "json option"

record tool_call =
  tc_id :: string
  tc_run_id :: string
  tc_step_id :: string
  tc_workflow_id :: string
  tc_workflow_step_id :: string
  tc_attempt :: i64
  tc_computer_use_session_id :: string
  tc_computer_use_action_id :: string
  tc_invocation_kind :: string
  tc_domain_kind :: string
  tc_capability_id :: string
  tc_skill_id :: string
  tc_mcp_server_id :: string
  tc_mcp_server_name :: string
  tc_mcp_tool_name :: string
  tc_mcp_transport_kind :: string
  tc_mcp_session_id :: string
  tc_authorization_result :: string
  tc_tool_name :: string
  tc_status :: tool_call_status
  tc_sandbox_execution_id :: string
  tc_failure_class :: string
  tc_integration_bindings :: "binding_summary list"
  tc_calendar_operation_summaries :: "calendar_operation_summary list"
  tc_mail_operation_summaries :: "mail_operation_summary list"
  tc_created_at :: timestamp
  tc_updated_at :: timestamp
  tc_input :: "json option"
  tc_output :: "json option"
  tc_error :: string
  tc_sandbox :: json_map

record run_checkpoint =
  cp_run :: run
  cp_steps :: "step list"
  cp_tool_calls :: "tool_call list"
  cp_captured_at :: timestamp

record create_tool_call_input =
  cti_tool_call_id :: string
  cti_workflow_id :: string
  cti_workflow_step_id :: string
  cti_attempt :: i64
  cti_computer_use_session_id :: string
  cti_computer_use_action_id :: string
  cti_invocation_kind :: string
  cti_domain_kind :: string
  cti_capability_id :: string
  cti_skill_id :: string
  cti_mcp_server_id :: string
  cti_mcp_server_name :: string
  cti_mcp_tool_name :: string
  cti_mcp_transport_kind :: string
  cti_mcp_session_id :: string
  cti_authorization_result :: string
  cti_tool_name :: string
  cti_input :: "json option"
  cti_sandbox_execution_id :: string
  cti_failure_class :: string
  cti_sandbox :: json_map
  cti_integration_bindings :: "binding_summary list"

record complete_tool_call_input =
  coi_output :: "json option"
  coi_sandbox_execution_id :: string
  coi_sandbox :: json_map
  coi_integration_bindings :: "binding_summary list"

text \<open>\<open>FailToolCallInput\<close>, \<open>DenyToolCallInput\<close> and \<open>CancelToolCallInput\<close> have the same fields.\<close>

record fail_tool_call_input =
  fti_output :: "json option"
  fti_error :: string
  fti_failure_class :: string
  fti_sandbox_execution_id :: string
  fti_sandbox :: json_map
  fti_integration_bindings :: "binding_summary list"

type_synonym deny_tool_call_input = fail_tool_call_input
type_synonym cancel_tool_call_input = fail_tool_call_input

section \<open>The manager's state\<close>

record ledger =
  by_id :: "string \<rightharpoonup> run"
  run_ids :: "string list"
  steps_by_id :: "string \<rightharpoonup> step"
  steps_by_run :: "string \<rightharpoonup> string list"
  tool_calls_by_id :: "string \<rightharpoonup> tool_call"
  tool_calls_by_step :: "string \<rightharpoonup> string list"

definition ledger_new :: ledger where
  "ledger_new =
     \<lparr>by_id = Map.empty, run_ids = [], steps_by_id = Map.empty, steps_by_run = Map.empty,
      tool_calls_by_id = Map.empty, tool_calls_by_step = Map.empty\<rparr>"

end
