(* ===== verification/Runtime_Ledger.thy ===== *)
theory Runtime_Ledger
  imports Runtime_Types
begin

text \<open>
  The operations of the run ledger, \<open>Manager\<close> of crates/engine/runtime/src/lib.rs. Each operation
  takes the state behind the lock and returns its result with the state it leaves; the clock
  readings and the hexadecimal UUIDs it draws are arguments.
\<close>

section \<open>Status rules\<close>

fun is_run_terminal :: "run_status \<Rightarrow> bool" where
  "is_run_terminal RunCompleted = True"
| "is_run_terminal RunFailed = True"
| "is_run_terminal RunCancelled = True"
| "is_run_terminal _ = False"

fun is_step_terminal :: "step_status \<Rightarrow> bool" where
  "is_step_terminal StepCompleted = True"
| "is_step_terminal StepFailed = True"
| "is_step_terminal StepCancelled = True"
| "is_step_terminal _ = False"

fun can_transition :: "step_status \<Rightarrow> step_status \<Rightarrow> bool" where
  "can_transition StepQueued StepPlanning = True"
| "can_transition StepQueued StepCancelled = True"
| "can_transition StepPlanning StepCallingModel = True"
| "can_transition StepPlanning StepExecutingTool = True"
| "can_transition StepPlanning StepWaitingInput = True"
| "can_transition StepPlanning StepBlocked = True"
| "can_transition StepPlanning StepFailed = True"
| "can_transition StepPlanning StepCancelled = True"
| "can_transition StepCallingModel StepPlanning = True"
| "can_transition StepCallingModel StepExecutingTool = True"
| "can_transition StepCallingModel StepWaitingInput = True"
| "can_transition StepCallingModel StepBlocked = True"
| "can_transition StepCallingModel StepCompleted = True"
| "can_transition StepCallingModel StepFailed = True"
| "can_transition StepCallingModel StepCancelled = True"
| "can_transition StepExecutingTool StepPlanning = True"
| "can_transition StepExecutingTool StepWaitingInput = True"
| "can_transition StepExecutingTool StepBlocked = True"
| "can_transition StepExecutingTool StepCompleted = True"
| "can_transition StepExecutingTool StepFailed = True"
| "can_transition StepExecutingTool StepCancelled = True"
| "can_transition StepWaitingInput StepPlanning = True"
| "can_transition StepWaitingInput StepCancelled = True"
| "can_transition StepWaitingInput StepFailed = True"
| "can_transition StepBlocked StepPlanning = True"
| "can_transition StepBlocked StepCancelled = True"
| "can_transition StepBlocked StepFailed = True"
| "can_transition _ _ = False"

section \<open>Identifiers\<close>

definition new_run_id :: "string \<Rightarrow> string" where
  "new_run_id hex = ''run_'' @ take 16 hex"

definition new_tool_call_id :: "string \<Rightarrow> string" where
  "new_tool_call_id hex = ''toolcall_'' @ take 16 hex"

definition new_step_id :: "string \<Rightarrow> string" where
  "new_step_id hex = ''step_'' @ take 16 hex"

section \<open>Deriving a run's status from its steps\<close>

text \<open>The seven flags the loop of \<open>derive_run_status_locked\<close> sets.\<close>

record derive_flags =
  has_planning_or_execution :: bool
  has_waiting_input :: bool
  has_blocked :: bool
  has_failed :: bool
  has_queued :: bool
  all_completed :: bool
  all_cancelled :: bool

definition derive_flags_init :: derive_flags where
  "derive_flags_init =
     \<lparr>has_planning_or_execution = False, has_waiting_input = False, has_blocked = False,
      has_failed = False, has_queued = False, all_completed = True, all_cancelled = True\<rparr>"

definition derive_flags_step :: "step_status \<Rightarrow> derive_flags \<Rightarrow> derive_flags" where
  "derive_flags_step st f =
     (let f1 = (case st of
                  StepPlanning \<Rightarrow> f\<lparr>has_planning_or_execution := True\<rparr>
                | StepCallingModel \<Rightarrow> f\<lparr>has_planning_or_execution := True\<rparr>
                | StepExecutingTool \<Rightarrow> f\<lparr>has_planning_or_execution := True\<rparr>
                | StepWaitingInput \<Rightarrow> f\<lparr>has_waiting_input := True\<rparr>
                | StepBlocked \<Rightarrow> f\<lparr>has_blocked := True\<rparr>
                | StepFailed \<Rightarrow> f\<lparr>has_failed := True\<rparr>
                | StepQueued \<Rightarrow> f\<lparr>has_queued := True\<rparr>
                | _ \<Rightarrow> f);
          f2 = (if st \<noteq> StepCompleted then f1\<lparr>all_completed := False\<rparr> else f1)
      in if st \<noteq> StepCancelled then f2\<lparr>all_cancelled := False\<rparr> else f2)"

fun derive_flags_loop :: "ledger \<Rightarrow> string list \<Rightarrow> derive_flags \<Rightarrow> derive_flags" where
  "derive_flags_loop s [] f = f"
| "derive_flags_loop s (i # is) f =
     (case steps_by_id s i of
        None \<Rightarrow> derive_flags_loop s is f
      | Some st \<Rightarrow> derive_flags_loop s is (derive_flags_step (step_status st) f))"

definition derive_run_status :: "ledger \<Rightarrow> string \<Rightarrow> run_status" where
  "derive_run_status s rid =
     (case steps_by_run s rid of
        None \<Rightarrow> RunQueued
      | Some ids \<Rightarrow>
          if ids = [] then RunQueued
          else let f = derive_flags_loop s ids derive_flags_init in
            if has_failed f then RunFailed
            else if all_completed f then RunCompleted
            else if all_cancelled f then RunCancelled
            else if has_blocked f then RunBlocked
            else if has_waiting_input f then RunWaitingInput
            else if has_planning_or_execution f then RunRunning
            else if has_queued f then RunQueued
            else RunQueued)"

section \<open>Runs\<close>

definition create_run ::
  "timestamp \<Rightarrow> string \<Rightarrow> create_run_input \<Rightarrow> (ledger, runtime_error, run) op" where
  "create_run now hex inp s =
     (if cri_entrypoint inp = [] then (Inl EntrypointRequired, s)
      else
        let given = trim (cri_run_id inp);
            rid = (if given = [] then new_run_id hex else given);
            r = \<lparr>run_id = rid, run_session_id = cri_session_id inp,
                 run_schedule_id = cri_schedule_id inp,
                 run_schedule_attempt_id = cri_schedule_attempt_id inp,
                 run_reminder_id = cri_reminder_id inp,
                 run_reminder_occurrence_id = cri_reminder_occurrence_id inp,
                 run_entrypoint = cri_entrypoint inp, run_status = RunQueued,
                 run_goal = cri_goal inp, run_active_workflow_id = [],
                 run_workflow_count = 0, run_latest_delivery_id = [],
                 run_latest_delivery_status = [], run_latest_delivery_target_id = [],
                 run_active_profile_projection = None,
                 run_created_at = now, run_updated_at = now\<rparr>
        in if by_id s rid \<noteq> None then (Inl RunAlreadyExists, s)
           else (Inr r, s\<lparr>by_id := (by_id s)(rid \<mapsto> r), run_ids := run_ids s @ [rid]\<rparr>))"

definition list_runs :: "ledger \<Rightarrow> run list" where
  "list_runs s = List.map_filter (by_id s) (run_ids s)"

definition get_run :: "string \<Rightarrow> ledger \<Rightarrow> run option" where
  "get_run rid s = by_id s rid"

definition listed_steps :: "ledger \<Rightarrow> string \<Rightarrow> step list" where
  "listed_steps s rid =
     (case steps_by_run s rid of
        None \<Rightarrow> []
      | Some ids \<Rightarrow> List.map_filter (steps_by_id s) ids)"

definition listed_tool_calls :: "ledger \<Rightarrow> string \<Rightarrow> tool_call list" where
  "listed_tool_calls s sid =
     (case tool_calls_by_step s sid of
        None \<Rightarrow> []
      | Some ids \<Rightarrow> List.map_filter (tool_calls_by_id s) ids)"

definition snapshot_run ::
  "timestamp \<Rightarrow> string \<Rightarrow> ledger \<Rightarrow> runtime_error + run_checkpoint" where
  "snapshot_run now rid s =
     (case by_id s rid of
        None \<Rightarrow> Inl RunNotFound
      | Some r \<Rightarrow>
          Inr \<lparr>cp_run = r,
               cp_steps = listed_steps s rid,
               cp_tool_calls =
                 (case steps_by_run s rid of
                    None \<Rightarrow> []
                  | Some ids \<Rightarrow> concat (map (listed_tool_calls s) ids)),
               cp_captured_at = now\<rparr>)"

section \<open>Steps\<close>

definition create_step ::
  "timestamp \<Rightarrow> string \<Rightarrow> string \<Rightarrow> create_step_input \<Rightarrow> (ledger, runtime_error, step) op" where
  "create_step now hex rid inp s =
     (if csi_title inp = [] then (Inl TitleRequired, s)
      else if by_id s rid = None then (Inl RunNotFound, s)
      else
        let sid = new_step_id hex;
            st = \<lparr>step_id = sid, step_run_id = rid,
                  step_workflow_id = trim (csi_workflow_id inp),
                  step_workflow_step_id = trim (csi_workflow_step_id inp),
                  step_attempt = csi_attempt inp, step_title = csi_title inp,
                  step_kind = (if csi_kind inp = [] then ''task'' else csi_kind inp),
                  step_status = StepQueued, step_created_at = now, step_updated_at = now,
                  step_input = csi_input inp, step_output = None\<rparr>
        in (Inr st,
            s\<lparr>steps_by_id := (steps_by_id s)(sid \<mapsto> st),
              steps_by_run := push_entry rid sid (steps_by_run s)\<rparr>))"

definition list_steps :: "string \<Rightarrow> ledger \<Rightarrow> runtime_error + step list" where
  "list_steps rid s =
     (if by_id s rid = None then Inl RunNotFound else Inr (listed_steps s rid))"

definition get_step :: "string \<Rightarrow> string \<Rightarrow> ledger \<Rightarrow> step option" where
  "get_step rid sid s =
     (case steps_by_id s sid of
        Some st \<Rightarrow> if step_run_id st = rid then Some st else None
      | None \<Rightarrow> None)"

text \<open>The new status of a step, its time and, if the caller gave one, its output.\<close>

definition stepped :: "timestamp \<Rightarrow> update_step_status_input \<Rightarrow> step \<Rightarrow> step" where
  "stepped now inp st =
     (let st1 = st\<lparr>step_status := usi_status inp, step_updated_at := now\<rparr>
      in case usi_output inp of None \<Rightarrow> st1 | Some out \<Rightarrow> st1\<lparr>step_output := Some out\<rparr>)"

definition update_step_status ::
  "timestamp \<Rightarrow> string \<Rightarrow> string \<Rightarrow> update_step_status_input \<Rightarrow> (ledger, runtime_error, step) op"
where
  "update_step_status now rid sid inp s =
     (if by_id s rid = None then (Inl RunNotFound, s)
      else case steps_by_id s sid of
        None \<Rightarrow> (Inl StepNotFound, s)
      | Some st \<Rightarrow>
          if step_run_id st \<noteq> rid then (Inl StepNotFound, s)
          else if \<not> can_transition (step_status st) (usi_status inp)
          then (Inl InvalidStepTransition, s)
          else let st' = stepped now inp st
               in (Inr st', s\<lparr>steps_by_id := (steps_by_id s)(sid \<mapsto> st')\<rparr>))"

definition update_step_status_and_reconcile_run ::
  "timestamp \<Rightarrow> timestamp \<Rightarrow> string \<Rightarrow> string \<Rightarrow> update_step_status_input \<Rightarrow>
   (ledger, runtime_error, step \<times> run option) op"
where
  "update_step_status_and_reconcile_run now now2 rid sid inp s =
     (case by_id s rid of
        None \<Rightarrow> (Inl RunNotFound, s)
      | Some r \<Rightarrow>
        (case steps_by_id s sid of
           None \<Rightarrow> (Inl StepNotFound, s)
         | Some st \<Rightarrow>
             if step_run_id st \<noteq> rid then (Inl StepNotFound, s)
             else if \<not> can_transition (step_status st) (usi_status inp) then
               (if step_status st = usi_status inp then (Inr (st, None), s)
                else if is_step_terminal (step_status st) then (Inl StepTerminal, s)
                else if is_run_terminal (run_status r) then (Inl RunTerminal, s)
                else (Inl InvalidStepTransition, s))
             else
               let st' = stepped now inp st;
                   s1 = s\<lparr>steps_by_id := (steps_by_id s)(sid \<mapsto> st')\<rparr>;
                   next_status = derive_run_status s1 rid
               in if next_status = run_status r then (Inr (st', None), s1)
                  else let r' = r\<lparr>run_status := next_status, run_updated_at := now2\<rparr>
                       in (Inr (st', Some r'), s1\<lparr>by_id := (by_id s1)(rid \<mapsto> r')\<rparr>)))"

section \<open>Cancelling and resuming\<close>

text \<open>The loops over a run's step ids, which rewrite the steps that pass the test.\<close>

fun restamp_steps ::
  "(step_status \<Rightarrow> bool) \<Rightarrow> step_status \<Rightarrow> timestamp \<Rightarrow> string list \<Rightarrow> (string \<rightharpoonup> step) \<Rightarrow>
   step list \<times> (string \<rightharpoonup> step)"
where
  "restamp_steps affects to now [] m = ([], m)"
| "restamp_steps affects to now (i # is) m =
     (case m i of
        None \<Rightarrow> restamp_steps affects to now is m
      | Some st \<Rightarrow>
          if \<not> affects (step_status st) then restamp_steps affects to now is m
          else let st' = st\<lparr>step_status := to, step_updated_at := now\<rparr>;
                   (us, m') = restamp_steps affects to now is (m(i \<mapsto> st'))
               in (st' # us, m'))"

definition restamp_run_steps ::
  "(step_status \<Rightarrow> bool) \<Rightarrow> step_status \<Rightarrow> timestamp \<Rightarrow> string \<Rightarrow> ledger \<Rightarrow> step list \<times> ledger" where
  "restamp_run_steps affects to now rid s =
     (case steps_by_run s rid of
        None \<Rightarrow> ([], s)
      | Some ids \<Rightarrow>
          let (us, m) = restamp_steps affects to now ids (steps_by_id s)
          in (us, s\<lparr>steps_by_id := m\<rparr>))"

definition cancel_run ::
  "timestamp \<Rightarrow> string \<Rightarrow> (ledger, runtime_error, run \<times> step list \<times> bool) op" where
  "cancel_run now rid s =
     (case by_id s rid of
        None \<Rightarrow> (Inl RunNotFound, s)
      | Some r \<Rightarrow>
          if run_status r = RunCancelled then (Inr (r, [], True), s)
          else if is_run_terminal (run_status r) then (Inl RunTerminal, s)
          else
            let (us, s1) =
                  restamp_run_steps (\<lambda>st. \<not> is_step_terminal st) StepCancelled now rid s;
                r' = r\<lparr>run_status := RunCancelled, run_updated_at := now\<rparr>
            in (Inr (r', us, False), s1\<lparr>by_id := (by_id s1)(rid \<mapsto> r')\<rparr>))"

definition resume_run ::
  "timestamp \<Rightarrow> string \<Rightarrow> (ledger, runtime_error, run \<times> step list \<times> bool) op" where
  "resume_run now rid s =
     (case by_id s rid of
        None \<Rightarrow> (Inl RunNotFound, s)
      | Some r \<Rightarrow>
          if run_status r \<noteq> RunCancelled then
            (if is_run_terminal (run_status r) then (Inl RunTerminal, s)
             else (Inr (r, [], True), s))
          else
            let (us, s1) = restamp_run_steps (\<lambda>st. st = StepCancelled) StepQueued now rid s;
                r' = r\<lparr>run_status := derive_run_status s1 rid, run_updated_at := now\<rparr>
            in (Inr (r', us, False), s1\<lparr>by_id := (by_id s1)(rid \<mapsto> r')\<rparr>))"

definition cancel_step ::
  "timestamp \<Rightarrow> string \<Rightarrow> string \<Rightarrow> (ledger, runtime_error, step \<times> run option \<times> bool) op" where
  "cancel_step now rid sid s =
     (case by_id s rid of
        None \<Rightarrow> (Inl RunNotFound, s)
      | Some r \<Rightarrow>
        (case steps_by_id s sid of
           None \<Rightarrow> (Inl StepNotFound, s)
         | Some st \<Rightarrow>
             if step_run_id st \<noteq> rid then (Inl StepNotFound, s)
             else if step_status st = StepCancelled then (Inr (st, None, True), s)
             else if is_step_terminal (step_status st) then (Inl StepTerminal, s)
             else if is_run_terminal (run_status r) \<and> run_status r \<noteq> RunCancelled
             then (Inl RunTerminal, s)
             else
               let st' = st\<lparr>step_status := StepCancelled, step_updated_at := now\<rparr>;
                   s1 = s\<lparr>steps_by_id := (steps_by_id s)(sid \<mapsto> st')\<rparr>;
                   next_status = derive_run_status s1 rid
               in if next_status = run_status r then (Inr (st', None, False), s1)
                  else let r' = r\<lparr>run_status := next_status, run_updated_at := now\<rparr>
                       in (Inr (st', Some r', False), s1\<lparr>by_id := (by_id s1)(rid \<mapsto> r')\<rparr>)))"

section \<open>Tool calls\<close>

definition invocation_kind_of :: "create_tool_call_input \<Rightarrow> string" where
  "invocation_kind_of inp =
     (if trim (cti_invocation_kind inp) \<noteq> [] then trim (cti_invocation_kind inp)
      else if trim (cti_skill_id inp) \<noteq> [] then invocation_kind_as_str SkillTool
      else if trim (cti_mcp_server_id inp) \<noteq> [] then invocation_kind_as_str McpTool
      else invocation_kind_as_str LocalTool)"

definition create_tool_call ::
  "timestamp \<Rightarrow> string \<Rightarrow> string \<Rightarrow> string \<Rightarrow> create_tool_call_input \<Rightarrow>
   (ledger, runtime_error, tool_call) op"
where
  "create_tool_call now hex rid sid inp s =
     (if cti_tool_name inp = [] then (Inl ToolNameRequired, s)
      else if trim (cti_capability_id inp) = [] \<and> trim (cti_skill_id inp) = []
              \<and> trim (cti_mcp_server_id inp) = [] \<and> trim (cti_domain_kind inp) = []
      then (Inl ToolTargetRequired, s)
      else if by_id s rid = None then (Inl RunNotFound, s)
      else case steps_by_id s sid of
        None \<Rightarrow> (Inl StepNotFound, s)
      | Some st \<Rightarrow>
          if step_run_id st \<noteq> rid then (Inl StepNotFound, s)
          else
            let given = trim (cti_tool_call_id inp);
                tid = (if given = [] then new_tool_call_id hex else given);
                tc = \<lparr>tc_id = tid, tc_run_id = rid, tc_step_id = sid,
                      tc_workflow_id = trim (cti_workflow_id inp),
                      tc_workflow_step_id = trim (cti_workflow_step_id inp),
                      tc_attempt = cti_attempt inp,
                      tc_computer_use_session_id = trim (cti_computer_use_session_id inp),
                      tc_computer_use_action_id = trim (cti_computer_use_action_id inp),
                      tc_invocation_kind = invocation_kind_of inp,
                      tc_domain_kind = trim (cti_domain_kind inp),
                      tc_capability_id = trim (cti_capability_id inp),
                      tc_skill_id = trim (cti_skill_id inp),
                      tc_mcp_server_id = trim (cti_mcp_server_id inp),
                      tc_mcp_server_name = trim (cti_mcp_server_name inp),
                      tc_mcp_tool_name = trim (cti_mcp_tool_name inp),
                      tc_mcp_transport_kind = trim (cti_mcp_transport_kind inp),
                      tc_mcp_session_id = trim (cti_mcp_session_id inp),
                      tc_authorization_result = trim (cti_authorization_result inp),
                      tc_tool_name = cti_tool_name inp, tc_status = ToolRequested,
                      tc_sandbox_execution_id = trim (cti_sandbox_execution_id inp),
                      tc_failure_class = trim (cti_failure_class inp),
                      tc_integration_bindings = cti_integration_bindings inp,
                      tc_calendar_operation_summaries = [],
                      tc_mail_operation_summaries = [],
                      tc_created_at = now, tc_updated_at = now,
                      tc_input = cti_input inp, tc_output = None, tc_error = [],
                      tc_sandbox = cti_sandbox inp\<rparr>
            in (Inr tc,
                s\<lparr>tool_calls_by_id := (tool_calls_by_id s)(tid \<mapsto> tc),
                  tool_calls_by_step := push_entry sid tid (tool_calls_by_step s)\<rparr>))"

definition list_tool_calls ::
  "string \<Rightarrow> string \<Rightarrow> ledger \<Rightarrow> runtime_error + tool_call list" where
  "list_tool_calls rid sid s =
     (if by_id s rid = None then Inl RunNotFound
      else case steps_by_id s sid of
        None \<Rightarrow> Inl StepNotFound
      | Some st \<Rightarrow>
          if step_run_id st \<noteq> rid then Inl StepNotFound
          else Inr (listed_tool_calls s sid))"

definition get_tool_call :: "string \<Rightarrow> string \<Rightarrow> string \<Rightarrow> ledger \<Rightarrow> tool_call option" where
  "get_tool_call rid sid tid s =
     (case tool_calls_by_id s tid of
        Some tc \<Rightarrow> if tc_run_id tc = rid \<and> tc_step_id tc = sid then Some tc else None
      | None \<Rightarrow> None)"

definition require_mutable_tool_call ::
  "ledger \<Rightarrow> string \<Rightarrow> string \<Rightarrow> string \<Rightarrow> runtime_error + tool_call" where
  "require_mutable_tool_call s rid sid tid =
     (if by_id s rid = None then Inl RunNotFound
      else case steps_by_id s sid of
        None \<Rightarrow> Inl StepNotFound
      | Some st \<Rightarrow>
          if step_run_id st \<noteq> rid then Inl StepNotFound
          else (case tool_calls_by_id s tid of
                  Some tc \<Rightarrow>
                    if tc_run_id tc = rid \<and> tc_step_id tc = sid then Inr tc
                    else Inl ToolCallNotFound
                | None \<Rightarrow> Inl ToolCallNotFound))"

text \<open>
  The part the five operations on an existing call share: the call is fetched, its status must be
  one of those the operation accepts, and the rewritten call is stored under the same id.
\<close>

definition rewrite_tool_call ::
  "tool_call_status set \<Rightarrow> (tool_call \<Rightarrow> tool_call) \<Rightarrow> string \<Rightarrow> string \<Rightarrow> string \<Rightarrow>
   (ledger, runtime_error, tool_call) op"
where
  "rewrite_tool_call from f rid sid tid s =
     (case require_mutable_tool_call s rid sid tid of
        Inl e \<Rightarrow> (Inl e, s)
      | Inr tc \<Rightarrow>
          if tc_status tc \<notin> from then (Inl InvalidToolCallStatus, s)
          else let tc' = f tc
               in (Inr tc', s\<lparr>tool_calls_by_id := (tool_calls_by_id s)(tid \<mapsto> tc')\<rparr>))"

definition overlay_sandbox ::
  "string \<Rightarrow> json_map \<Rightarrow> tool_call \<Rightarrow> tool_call" where
  "overlay_sandbox exec_id box tc =
     (let tc1 = (if trim exec_id \<noteq> [] then tc\<lparr>tc_sandbox_execution_id := trim exec_id\<rparr> else tc)
      in if box \<noteq> [] then tc1\<lparr>tc_sandbox := box\<rparr> else tc1)"

definition overlay_result ::
  "string \<Rightarrow> binding_summary list \<Rightarrow> json_map \<Rightarrow> tool_call \<Rightarrow> tool_call" where
  "overlay_result exec_id bs box tc =
     (let tc1 = overlay_sandbox exec_id box tc
      in if bs \<noteq> [] then tc1\<lparr>tc_integration_bindings := bs\<rparr> else tc1)"

definition complete_tool_call ::
  "timestamp \<Rightarrow> string \<Rightarrow> string \<Rightarrow> string \<Rightarrow> complete_tool_call_input \<Rightarrow>
   (ledger, runtime_error, tool_call) op"
where
  "complete_tool_call now rid sid tid inp =
     rewrite_tool_call {ToolRequested, ToolRunning}
       (\<lambda>tc. overlay_result (coi_sandbox_execution_id inp) (coi_integration_bindings inp)
               (coi_sandbox inp)
               (tc\<lparr>tc_status := ToolCompleted, tc_updated_at := now, tc_output := coi_output inp\<rparr>))
       rid sid tid"

definition ended_with_error ::
  "tool_call_status \<Rightarrow> timestamp \<Rightarrow> fail_tool_call_input \<Rightarrow> tool_call \<Rightarrow> tool_call" where
  "ended_with_error st now inp tc =
     overlay_result (fti_sandbox_execution_id inp) (fti_integration_bindings inp)
       (fti_sandbox inp)
       (tc\<lparr>tc_status := st, tc_updated_at := now, tc_output := fti_output inp,
          tc_error := fti_error inp, tc_failure_class := trim (fti_failure_class inp)\<rparr>)"

definition fail_tool_call ::
  "timestamp \<Rightarrow> string \<Rightarrow> string \<Rightarrow> string \<Rightarrow> fail_tool_call_input \<Rightarrow>
   (ledger, runtime_error, tool_call) op"
where
  "fail_tool_call now rid sid tid inp =
     rewrite_tool_call {ToolRequested, ToolRunning} (ended_with_error ToolFailed now inp)
       rid sid tid"

definition deny_tool_call ::
  "timestamp \<Rightarrow> string \<Rightarrow> string \<Rightarrow> string \<Rightarrow> deny_tool_call_input \<Rightarrow>
   (ledger, runtime_error, tool_call) op"
where
  "deny_tool_call now rid sid tid inp =
     rewrite_tool_call {ToolRequested, ToolRunning} (ended_with_error ToolDenied now inp)
       rid sid tid"

definition cancel_tool_call ::
  "timestamp \<Rightarrow> string \<Rightarrow> string \<Rightarrow> string \<Rightarrow> cancel_tool_call_input \<Rightarrow>
   (ledger, runtime_error, tool_call) op"
where
  "cancel_tool_call now rid sid tid inp =
     rewrite_tool_call {ToolRequested, ToolRunning} (ended_with_error ToolCancelled now inp)
       rid sid tid"

definition mark_tool_call_running ::
  "timestamp \<Rightarrow> string \<Rightarrow> string \<Rightarrow> string \<Rightarrow> string \<Rightarrow> json_map \<Rightarrow>
   (ledger, runtime_error, tool_call) op"
where
  "mark_tool_call_running now rid sid tid exec_id box =
     rewrite_tool_call {ToolRequested}
       (\<lambda>tc. overlay_sandbox exec_id box (tc\<lparr>tc_status := ToolRunning, tc_updated_at := now\<rparr>))
       rid sid tid"

section \<open>Checkpoints\<close>

fun load_steps :: "string \<Rightarrow> step list \<Rightarrow> ledger \<Rightarrow> ledger" where
  "load_steps rid [] s = s"
| "load_steps rid (st # sts) s =
     load_steps rid sts
       (s\<lparr>steps_by_id := (steps_by_id s)(step_id st \<mapsto> st),
          steps_by_run := push_entry rid (step_id st) (steps_by_run s)\<rparr>)"

fun load_tool_calls :: "tool_call list \<Rightarrow> ledger \<Rightarrow> ledger" where
  "load_tool_calls [] s = s"
| "load_tool_calls (tc # tcs) s =
     load_tool_calls tcs
       (s\<lparr>tool_calls_by_id := (tool_calls_by_id s)(tc_id tc \<mapsto> tc),
          tool_calls_by_step := push_entry (tc_step_id tc) (tc_id tc) (tool_calls_by_step s)\<rparr>)"

definition load_checkpoint :: "run_checkpoint \<Rightarrow> ledger \<Rightarrow> ledger" where
  "load_checkpoint cp s =
     (let r = cp_run cp;
          s1 = s\<lparr>by_id := (by_id s)(run_id r \<mapsto> r), run_ids := run_ids s @ [run_id r]\<rparr>
      in load_tool_calls (cp_tool_calls cp) (load_steps (run_id r) (cp_steps cp) s1))"

definition restore_checkpoints :: "run_checkpoint list \<Rightarrow> ledger \<Rightarrow> ledger" where
  "restore_checkpoints cps s = fold load_checkpoint cps ledger_new"

fun drop_steps :: "string list \<Rightarrow> ledger \<Rightarrow> ledger" where
  "drop_steps [] s = s"
| "drop_steps (i # is) s =
     drop_steps is
       (s\<lparr>steps_by_id := (steps_by_id s)(i := None),
          tool_calls_by_step := (tool_calls_by_step s)(i := None)\<rparr>)"

definition drop_run_steps :: "string \<Rightarrow> ledger \<Rightarrow> ledger" where
  "drop_run_steps rid s =
     (case steps_by_run s rid of
        None \<Rightarrow> s
      | Some ids \<Rightarrow> drop_steps ids (s\<lparr>steps_by_run := (steps_by_run s)(rid := None)\<rparr>))"

definition drop_run_tool_calls :: "string \<Rightarrow> ledger \<Rightarrow> ledger" where
  "drop_run_tool_calls rid s =
     s\<lparr>tool_calls_by_id :=
         (\<lambda>tid. case tool_calls_by_id s tid of
                  None \<Rightarrow> None
                | Some tc \<Rightarrow> if tc_run_id tc = rid then None else Some tc)\<rparr>"

definition restore_run_checkpoint :: "run_checkpoint \<Rightarrow> ledger \<Rightarrow> ledger" where
  "restore_run_checkpoint cp s =
     (let r = cp_run cp;
          rid = run_id r;
          s1 = (if by_id s rid = None then s\<lparr>run_ids := run_ids s @ [rid]\<rparr> else s);
          s2 = s1\<lparr>by_id := (by_id s1)(rid \<mapsto> r)\<rparr>;
          s3 = drop_run_tool_calls rid (drop_run_steps rid s2)
      in load_tool_calls (cp_tool_calls cp) (load_steps rid (cp_steps cp) s3))"

end
