(* ===== verification/Runtime_Invariant.thy ===== *)
theory Runtime_Invariant
  imports Runtime_Ledger
begin

text \<open>
  The well-formedness of the run ledger and its preservation. The six maps and vectors of
  \<open>ManagerInner\<close> are three registries: the runs with their vector of ids, the steps owned by
  runs, the tool calls owned by steps; and every reference resolves.
\<close>

section \<open>The invariant\<close>

definition refs_ok :: "ledger \<Rightarrow> bool" where
  "refs_ok s \<longleftrightarrow>
     (\<forall>i st. steps_by_id s i = Some st \<longrightarrow> by_id s (step_run_id st) \<noteq> None) \<and>
     (\<forall>t tc. tool_calls_by_id s t = Some tc \<longrightarrow>
        (\<exists>st. steps_by_id s (tc_step_id tc) = Some st \<and> step_run_id st = tc_run_id tc))"

definition ledger_wf :: "ledger \<Rightarrow> bool" where
  "ledger_wf s \<longleftrightarrow>
     ids_ok (run_ids s) (by_id s) run_id \<and>
     index_ok (steps_by_run s) (steps_by_id s) step_id step_run_id \<and>
     index_ok (tool_calls_by_step s) (tool_calls_by_id s) tc_id tc_step_id \<and>
     refs_ok s"

lemma ledger_wfI [intro?]:
  assumes "ids_ok (run_ids s) (by_id s) run_id"
    and "index_ok (steps_by_run s) (steps_by_id s) step_id step_run_id"
    and "index_ok (tool_calls_by_step s) (tool_calls_by_id s) tc_id tc_step_id"
    and "refs_ok s"
  shows "ledger_wf s"
  using assms by (simp add: ledger_wf_def)

lemma ledger_wfD:
  assumes "ledger_wf s"
  shows ledger_wf_runs: "ids_ok (run_ids s) (by_id s) run_id"
    and ledger_wf_steps: "index_ok (steps_by_run s) (steps_by_id s) step_id step_run_id"
    and ledger_wf_calls: "index_ok (tool_calls_by_step s) (tool_calls_by_id s) tc_id tc_step_id"
    and ledger_wf_refs: "refs_ok s"
  using assms by (simp_all add: ledger_wf_def)

interpretation runs: ordered_registry run_ids by_id run_id ledger_wf
  by unfold_locales (rule ledger_wf_runs)

interpretation steps: owned_registry steps_by_run steps_by_id step_id step_run_id ledger_wf
  by unfold_locales (rule ledger_wf_steps)

interpretation calls:
  owned_registry tool_calls_by_step tool_calls_by_id tc_id tc_step_id ledger_wf
  by unfold_locales (rule ledger_wf_calls)

lemma listed_steps_eq:
  "listed_steps s rid = List.map_filter (steps_by_id s) (listed (steps_by_run s) rid)"
  by (simp add: listed_steps_def listed_def List.map_filter_simps split: option.splits)

lemma listed_tool_calls_eq:
  "listed_tool_calls s sid = List.map_filter (tool_calls_by_id s) (listed (tool_calls_by_step s) sid)"
  by (simp add: listed_tool_calls_def listed_def List.map_filter_simps split: option.splits)

text \<open>An unknown run has no steps, an unknown step has no tool calls.\<close>

lemma no_members_Nil: "(\<And>x. x \<notin> set xs) \<Longrightarrow> xs = []"
  by (cases xs) auto

lemma unknown_step_no_calls:
  assumes "ledger_wf s" and "steps_by_id s sid = None"
  shows "listed (tool_calls_by_step s) sid = []"
proof (rule no_members_Nil)
  show "k \<notin> set (listed (tool_calls_by_step s) sid)" for k
    using ledger_wf_refs [OF assms(1)] assms(2)
    by (fastforce simp: index_ok_listed [OF ledger_wf_calls [OF assms(1)]] refs_ok_def)
qed

lemma unknown_run_no_steps:
  assumes "ledger_wf s" and "by_id s rid = None"
  shows "listed (steps_by_run s) rid = []"
proof (rule no_members_Nil)
  show "k \<notin> set (listed (steps_by_run s) rid)" for k
    using ledger_wf_refs [OF assms(1)] assms(2)
    by (fastforce simp: index_ok_listed [OF ledger_wf_steps [OF assms(1)]] refs_ok_def)
qed

lemma ledger_new_wf: "ledger_wf ledger_new"
  by (simp add: ledger_wf_def ledger_new_def refs_ok_def)

section \<open>Elementary updates\<close>

lemma wf_put_run:
  assumes "ledger_wf s" and "by_id s rid \<noteq> None" and "run_id r = rid"
  shows "ledger_wf (s\<lparr>by_id := (by_id s)(rid \<mapsto> r)\<rparr>)"
  using assms by (auto simp: ledger_wf_def refs_ok_def intro: ids_ok_rewrite)

lemma wf_put_tool_call:
  assumes "ledger_wf s" and "tool_calls_by_id s tid = Some tc"
    and "tc_id tc' = tc_id tc" and "tc_step_id tc' = tc_step_id tc"
    and "tc_run_id tc' = tc_run_id tc"
  shows "ledger_wf (s\<lparr>tool_calls_by_id := (tool_calls_by_id s)(tid \<mapsto> tc')\<rparr>)"
proof -
  have "tc_id tc = tid"
    using assms(1,2) by (metis index_ok_key ledger_wf_calls)
  then show ?thesis
    using assms by (auto simp: ledger_wf_def refs_ok_def intro!: index_ok_rewrite [where v = tc])
qed

text \<open>Rewriting steps without moving them to another run or renaming them.\<close>

definition same_steps :: "(string \<rightharpoonup> step) \<Rightarrow> (string \<rightharpoonup> step) \<Rightarrow> bool" where
  "same_steps m m' \<longleftrightarrow>
     (\<forall>k. rel_option (\<lambda>v w. step_id w = step_id v \<and> step_run_id w = step_run_id v) (m k) (m' k))"

lemma same_stepsD:
  assumes "same_steps m m'"
  shows same_steps_bwd: "m' k = Some w \<Longrightarrow> \<exists>v. m k = Some v \<and> step_run_id v = step_run_id w"
    and same_steps_fwd: "m k = Some v \<Longrightarrow> \<exists>w. m' k = Some w \<and> step_run_id w = step_run_id v"
  using assms by (auto simp: same_steps_def option_rel_Some1 option_rel_Some2 dest!: spec [of _ k])

lemma same_steps_upd:
  "m sid = Some st \<Longrightarrow> step_id st' = step_id st \<Longrightarrow> step_run_id st' = step_run_id st \<Longrightarrow>
   same_steps m (m(sid \<mapsto> st'))"
  by (simp add: same_steps_def option.rel_refl)

lemma wf_map_steps:
  assumes "ledger_wf s" and "same_steps (steps_by_id s) m"
  shows "ledger_wf (s\<lparr>steps_by_id := m\<rparr>)"
proof
  have "index_ok (steps_by_run s) m step_id step_run_id"
    using index_ok_map ledger_wf_steps assms unfolding same_steps_def by blast
  then show "index_ok (steps_by_run (s\<lparr>steps_by_id := m\<rparr>)) (steps_by_id (s\<lparr>steps_by_id := m\<rparr>))
               step_id step_run_id"
    by simp
  show "refs_ok (s\<lparr>steps_by_id := m\<rparr>)"
    using ledger_wf_refs [OF assms(1)] unfolding refs_ok_def
    by simp (metis same_steps_bwd [OF assms(2)] same_steps_fwd [OF assms(2)])
qed (use assms(1) in \<open>simp_all add: ledger_wf_def\<close>)

lemma wf_put_step:
  assumes "ledger_wf s" and "steps_by_id s sid = Some st"
    and "step_id st' = step_id st" and "step_run_id st' = step_run_id st"
  shows "ledger_wf (s\<lparr>steps_by_id := (steps_by_id s)(sid \<mapsto> st')\<rparr>)"
  using assms by (blast intro: wf_map_steps same_steps_upd)

text \<open>What the loops of cancelling and resuming leave in the step map.\<close>

lemma restamp_steps_lookup:
  assumes "\<not> affects to"
  shows "snd (restamp_steps affects to now ids m) k =
     (case m k of
        None \<Rightarrow> None
      | Some st \<Rightarrow> Some (if k \<in> set ids \<and> affects (step_status st)
                        then st\<lparr>step_status := to, step_updated_at := now\<rparr> else st))"
proof (induction ids arbitrary: m)
  case Nil
  show ?case by (simp split: option.splits)
next
  case (Cons i ids)
  show ?case
  proof (cases "m i")
    case None
    with Cons show ?thesis by (auto split: option.splits)
  next
    case (Some st)
    with Cons assms show ?thesis
      by (cases "affects (step_status st)") (auto simp: Let_def split_def split: option.splits)
  qed
qed

lemma restamp_steps_same:
  "\<not> affects to \<Longrightarrow> same_steps m (snd (restamp_steps affects to now ids m))"
  by (simp add: same_steps_def restamp_steps_lookup split: option.splits)

lemma restamp_run_steps_eq:
  "restamp_run_steps affects to now rid s =
     (fst (restamp_steps affects to now (listed (steps_by_run s) rid) (steps_by_id s)),
      s\<lparr>steps_by_id :=
          snd (restamp_steps affects to now (listed (steps_by_run s) rid) (steps_by_id s))\<rparr>)"
  by (simp add: restamp_run_steps_def listed_def split_def Let_def split: option.splits)

lemma wf_restamp_run_steps:
  "ledger_wf s \<Longrightarrow> \<not> affects to \<Longrightarrow> ledger_wf (snd (restamp_run_steps affects to now rid s))"
  by (simp add: restamp_run_steps_eq wf_map_steps restamp_steps_same)

section \<open>Every operation keeps the invariant\<close>

lemma create_run_wf:
  assumes "ledger_wf s" and "create_run now hex inp s = (res, t)"
  shows "ledger_wf t"
  using assms
  by (auto simp: create_run_def Let_def ledger_wf_def refs_ok_def split: if_splits
      intro!: ids_ok_insert)

lemma wf_add_step:
  assumes "ledger_wf s" and "steps_by_id s sid = None" and "step_id st = sid"
    and "step_run_id st = rid" and "by_id s rid \<noteq> None"
  shows "ledger_wf (s\<lparr>steps_by_id := (steps_by_id s)(sid \<mapsto> st),
                      steps_by_run := push_entry rid sid (steps_by_run s)\<rparr>)"
proof
  have "tc_step_id tc \<noteq> sid" if "tool_calls_by_id s k = Some tc" for k tc
    using ledger_wf_refs [OF assms(1)] assms(2) that unfolding refs_ok_def
    by (metis option.distinct(1))
  then show "refs_ok (s\<lparr>steps_by_id := (steps_by_id s)(sid \<mapsto> st),
                      steps_by_run := push_entry rid sid (steps_by_run s)\<rparr>)"
    using ledger_wf_refs [OF assms(1)] assms(4,5) by (auto simp: refs_ok_def)
qed (use assms in \<open>auto simp: ledger_wf_def intro: index_ok_push\<close>)

lemma wf_add_tool_call:
  assumes "ledger_wf s" and "tool_calls_by_id s tid = None" and "tc_id tc = tid"
    and "tc_step_id tc = sid" and "steps_by_id s sid = Some st" and "step_run_id st = tc_run_id tc"
  shows "ledger_wf (s\<lparr>tool_calls_by_id := (tool_calls_by_id s)(tid \<mapsto> tc),
                      tool_calls_by_step := push_entry sid tid (tool_calls_by_step s)\<rparr>)"
  using assms by (auto simp: ledger_wf_def refs_ok_def intro!: index_ok_push)

lemma create_step_wf:
  assumes "ledger_wf s" and "create_step now hex rid inp s = (res, t)"
    and "steps_by_id s (new_step_id hex) = None"
  shows "ledger_wf t"
  using assms by (auto simp: create_step_def Let_def split: if_splits intro!: wf_add_step)

lemma stepped_same [simp]:
  "step_id (stepped now inp st) = step_id st"
  "step_run_id (stepped now inp st) = step_run_id st"
  "step_status (stepped now inp st) = usi_status inp"
  by (simp_all add: stepped_def Let_def split: option.splits)

lemma update_step_status_wf:
  assumes "ledger_wf s" and "update_step_status now rid sid inp s = (res, t)"
  shows "ledger_wf t"
  using assms
  by (auto simp: update_step_status_def Let_def split: if_splits option.splits intro: wf_put_step)

lemma wf_put_step_run:
  assumes "ledger_wf s" and "steps_by_id s sid = Some st" and "by_id s rid = Some r"
    and "step_id st' = step_id st" and "step_run_id st' = step_run_id st"
    and "run_id r' = run_id r"
  shows "ledger_wf (s\<lparr>steps_by_id := (steps_by_id s)(sid \<mapsto> st'), by_id := (by_id s)(rid \<mapsto> r')\<rparr>)"
proof -
  have "run_id r = rid"
    using assms(1,3) by (metis ids_ok_key ledger_wf_runs)
  moreover have "ledger_wf (s\<lparr>steps_by_id := (steps_by_id s)(sid \<mapsto> st')\<rparr>)"
    using assms by (blast intro: wf_put_step)
  ultimately have "ledger_wf ((s\<lparr>steps_by_id := (steps_by_id s)(sid \<mapsto> st')\<rparr>)
      \<lparr>by_id := (by_id (s\<lparr>steps_by_id := (steps_by_id s)(sid \<mapsto> st')\<rparr>))(rid \<mapsto> r')\<rparr>)"
    using assms by (intro wf_put_run) simp_all
  then show ?thesis by simp
qed

lemma update_step_status_and_reconcile_run_wf:
  assumes "ledger_wf s"
    and "update_step_status_and_reconcile_run now now2 rid sid inp s = (res, t)"
  shows "ledger_wf t"
proof (cases "t = s")
  case False
  with assms(2) obtain r st where r: "by_id s rid = Some r" and st: "steps_by_id s sid = Some st"
    by (auto simp: update_step_status_and_reconcile_run_def split: option.splits)
  with assms False show ?thesis
    using wf_put_step [OF assms(1) st, of "stepped now inp st"]
      wf_put_step_run [OF assms(1) st r, of "stepped now inp st"]
    by (simp add: update_step_status_and_reconcile_run_def Let_def split: if_splits) auto
qed (use assms in simp)

lemma cancel_step_wf:
  assumes "ledger_wf s" and "cancel_step now rid sid s = (res, t)"
  shows "ledger_wf t"
proof (cases "t = s")
  case False
  with assms(2) obtain r st where r: "by_id s rid = Some r" and st: "steps_by_id s sid = Some st"
    by (auto simp: cancel_step_def split: option.splits)
  define st' where "st' = st\<lparr>step_status := StepCancelled, step_updated_at := now\<rparr>"
  have same: "step_id st' = step_id st" "step_run_id st' = step_run_id st"
    by (simp_all add: st'_def)
  from assms False r st show ?thesis
    using wf_put_step [OF assms(1) st same] wf_put_step_run [OF assms(1) st r same]
    by (simp add: cancel_step_def Let_def flip: st'_def split: if_splits) auto
qed (use assms in simp)

lemma wf_restamp_put_run:
  assumes "ledger_wf s" and "by_id s rid = Some r" and "run_id r' = run_id r"
    and "\<not> affects to" and "restamp_run_steps affects to now rid s = (us, s1)"
  shows "ledger_wf (s1\<lparr>by_id := (by_id s1)(rid \<mapsto> r')\<rparr>)"
proof (rule wf_put_run)
  show "ledger_wf s1" using assms(1,4,5) by (metis snd_conv wf_restamp_run_steps)
  show "by_id s1 rid \<noteq> None" using assms(2,5) by (auto simp: restamp_run_steps_eq)
  show "run_id r' = rid" using assms(1-3) by (metis ids_ok_key ledger_wf_runs)
qed

lemma cancel_run_wf:
  assumes "ledger_wf s" and "cancel_run now rid s = (res, t)"
  shows "ledger_wf t"
proof (cases "t = s")
  case False
  with assms(2) obtain r us s1 where r: "by_id s rid = Some r"
    and rs: "restamp_run_steps (\<lambda>st. \<not> is_step_terminal st) StepCancelled now rid s = (us, s1)"
    and t: "t = s1\<lparr>by_id := (by_id s1)(rid \<mapsto>
              r\<lparr>run_status := RunCancelled, run_updated_at := now\<rparr>)\<rparr>"
    by (auto simp: cancel_run_def Let_def split: if_splits option.splits prod.splits)
  show ?thesis
    unfolding t by (rule wf_restamp_put_run [OF assms(1) r _ _ rs]) simp_all
qed (use assms in simp)

lemma resume_run_wf:
  assumes "ledger_wf s" and "resume_run now rid s = (res, t)"
  shows "ledger_wf t"
proof (cases "t = s")
  case False
  with assms(2) obtain r us s1 where r: "by_id s rid = Some r"
    and rs: "restamp_run_steps (\<lambda>st. st = StepCancelled) StepQueued now rid s = (us, s1)"
    and t: "t = s1\<lparr>by_id := (by_id s1)(rid \<mapsto>
              r\<lparr>run_status := derive_run_status s1 rid, run_updated_at := now\<rparr>)\<rparr>"
    by (auto simp: resume_run_def Let_def split: if_splits option.splits prod.splits)
  show ?thesis
    unfolding t by (rule wf_restamp_put_run [OF assms(1) r _ _ rs]) simp_all
qed (use assms in simp)

text \<open>The id a tool call gets: the caller's, if it names one, else a generated one.\<close>

definition tool_call_id_of :: "string \<Rightarrow> create_tool_call_input \<Rightarrow> string" where
  "tool_call_id_of hex inp =
     (if trim (cti_tool_call_id inp) = [] then new_tool_call_id hex else trim (cti_tool_call_id inp))"

lemma create_tool_call_wf:
  assumes "ledger_wf s" and "create_tool_call now hex rid sid inp s = (res, t)"
    and "tool_calls_by_id s (tool_call_id_of hex inp) = None"
  shows "ledger_wf t"
  using assms
  by (auto simp: create_tool_call_def tool_call_id_of_def Let_def split: if_splits option.splits
      intro!: wf_add_tool_call)

lemma rewrite_tool_call_wf:
  assumes "ledger_wf s" and "rewrite_tool_call from f rid sid tid s = (res, t)"
    and "\<And>tc. tc_id (f tc) = tc_id tc \<and> tc_step_id (f tc) = tc_step_id tc \<and>
               tc_run_id (f tc) = tc_run_id tc"
  shows "ledger_wf t"
  using assms
  by (auto simp: rewrite_tool_call_def require_mutable_tool_call_def Let_def
      split: if_splits option.splits sum.splits intro!: wf_put_tool_call)

lemma overlay_same [simp]:
  "tc_id (overlay_result e bs box tc) = tc_id tc"
  "tc_step_id (overlay_result e bs box tc) = tc_step_id tc"
  "tc_run_id (overlay_result e bs box tc) = tc_run_id tc"
  "tc_status (overlay_result e bs box tc) = tc_status tc"
  "tc_id (overlay_sandbox e box tc) = tc_id tc"
  "tc_step_id (overlay_sandbox e box tc) = tc_step_id tc"
  "tc_run_id (overlay_sandbox e box tc) = tc_run_id tc"
  "tc_status (overlay_sandbox e box tc) = tc_status tc"
  by (simp_all add: overlay_result_def overlay_sandbox_def Let_def)

lemma ended_with_error_same [simp]:
  "tc_id (ended_with_error st now inp tc) = tc_id tc"
  "tc_step_id (ended_with_error st now inp tc) = tc_step_id tc"
  "tc_run_id (ended_with_error st now inp tc) = tc_run_id tc"
  "tc_status (ended_with_error st now inp tc) = st"
  by (simp_all add: ended_with_error_def)

lemmas tool_call_rewrites =
  complete_tool_call_def fail_tool_call_def deny_tool_call_def cancel_tool_call_def
  mark_tool_call_running_def

end
