(* ===== verification/Runtime_Checkpoint.thy ===== *)
theory Runtime_Checkpoint
  imports Runtime_Invariant
begin

text \<open>
  Checkpoints of the run ledger: what \<open>snapshot_run\<close> captures, what \<open>restore_run_checkpoint\<close> and
  \<open>restore_checkpoints\<close> leave, and that capturing and restoring are inverse to each other.
\<close>

section \<open>Loading and dropping as map operations\<close>

lemma load_steps_eq:
  "load_steps rid sts s =
     s\<lparr>steps_by_id := upd_all step_id sts (steps_by_id s),
       steps_by_run := push_each (\<lambda>_. rid) step_id sts (steps_by_run s)\<rparr>"
  by (induction sts arbitrary: s) simp_all

lemma load_tool_calls_eq:
  "load_tool_calls tcs s =
     s\<lparr>tool_calls_by_id := upd_all tc_id tcs (tool_calls_by_id s),
       tool_calls_by_step := push_each tc_step_id tc_id tcs (tool_calls_by_step s)\<rparr>"
  by (induction tcs arbitrary: s) simp_all

lemma drop_steps_eq:
  "drop_steps ids s =
     s\<lparr>steps_by_id := steps_by_id s |` (- set ids),
       tool_calls_by_step := tool_calls_by_step s |` (- set ids)\<rparr>"
  by (induction ids arbitrary: s) (auto simp: restrict_map_def [of _ UNIV] Compl_insert insert_absorb)

lemma drop_run_steps_eq:
  "drop_run_steps rid s =
     s\<lparr>steps_by_run := (steps_by_run s)(rid := None),
       steps_by_id := steps_by_id s |` (- set (listed (steps_by_run s) rid)),
       tool_calls_by_step := tool_calls_by_step s |` (- set (listed (steps_by_run s) rid))\<rparr>"
proof (cases "steps_by_run s rid")
  case None
  then have "(steps_by_run s)(rid := None) = steps_by_run s" by auto
  with None show ?thesis by (simp add: drop_run_steps_def listed_def restrict_map_def)
next
  case (Some ids)
  then show ?thesis by (simp add: drop_run_steps_def listed_def drop_steps_eq)
qed

section \<open>Well-formed checkpoints\<close>

definition checkpoint_wf :: "run_checkpoint \<Rightarrow> bool" where
  "checkpoint_wf cp \<longleftrightarrow>
     distinct (map step_id (cp_steps cp)) \<and>
     (\<forall>st \<in> set (cp_steps cp). step_run_id st = run_id (cp_run cp)) \<and>
     distinct (map tc_id (cp_tool_calls cp)) \<and>
     (\<forall>tc \<in> set (cp_tool_calls cp).
        tc_run_id tc = run_id (cp_run cp) \<and> tc_step_id tc \<in> set (map step_id (cp_steps cp)))"

text \<open>The tool calls of a captured checkpoint come step by step.\<close>

definition checkpoint_grouped :: "run_checkpoint \<Rightarrow> bool" where
  "checkpoint_grouped cp \<longleftrightarrow>
     cp_tool_calls cp =
       concat (map (\<lambda>st. filter (\<lambda>tc. tc_step_id tc = step_id st) (cp_tool_calls cp)) (cp_steps cp))"

text \<open>No other run of the ledger uses an id of the checkpoint.\<close>

definition checkpoint_fits :: "run_checkpoint \<Rightarrow> ledger \<Rightarrow> bool" where
  "checkpoint_fits cp s \<longleftrightarrow>
     (\<forall>st \<in> set (cp_steps cp). \<forall>st'. steps_by_id s (step_id st) = Some st' \<longrightarrow>
        step_run_id st' = run_id (cp_run cp)) \<and>
     (\<forall>tc \<in> set (cp_tool_calls cp). \<forall>tc'. tool_calls_by_id s (tc_id tc) = Some tc' \<longrightarrow>
        tc_run_id tc' = run_id (cp_run cp))"

section \<open>The ledger without a run's steps and calls\<close>

definition cleared :: "string \<Rightarrow> ledger \<Rightarrow> ledger" where
  "cleared rid s = drop_run_tool_calls rid (drop_run_steps rid s)"

lemma cleared_steps:
  assumes "ledger_wf s"
  shows "steps_by_id (cleared rid s) k =
     (case steps_by_id s k of
        None \<Rightarrow> None | Some st \<Rightarrow> if step_run_id st \<in> {rid} then None else Some st)"
  using ledger_wf_steps [OF assms]
  by (auto simp: cleared_def drop_run_tool_calls_def drop_run_steps_eq restrict_map_def
      index_ok_listed split: option.splits)

lemma cleared_steps_by_run: "steps_by_run (cleared rid s) = steps_by_run s |` (- {rid})"
  by (auto simp: cleared_def drop_run_tool_calls_def drop_run_steps_eq restrict_map_def)

lemma run_call_step:
  assumes "ledger_wf s" and "tool_calls_by_id s k = Some tc"
  shows "tc_run_id tc = rid \<longleftrightarrow> tc_step_id tc \<in> set (listed (steps_by_run s) rid)"
  using assms ledger_wf_refs [OF assms(1)] ledger_wf_steps [OF assms(1)]
  by (fastforce simp: refs_ok_def index_ok_listed)

lemma cleared_calls:
  assumes "ledger_wf s"
  shows "tool_calls_by_id (cleared rid s) k =
     (case tool_calls_by_id s k of
        None \<Rightarrow> None
      | Some tc \<Rightarrow> if tc_step_id tc \<in> set (listed (steps_by_run s) rid) then None else Some tc)"
  using run_call_step [OF assms, of k _ rid]
  by (auto simp: cleared_def drop_run_tool_calls_def drop_run_steps_eq split: option.splits)

lemma cleared_calls_by_step:
  "tool_calls_by_step (cleared rid s) =
     tool_calls_by_step s |` (- set (listed (steps_by_run s) rid))"
  by (simp add: cleared_def drop_run_tool_calls_def drop_run_steps_eq)

lemma cleared_runs [simp]:
  "by_id (cleared rid s) = by_id s" "run_ids (cleared rid s) = run_ids s"
  by (simp_all add: cleared_def drop_run_tool_calls_def drop_run_steps_eq)

lemma cleared_wf:
  assumes "ledger_wf s"
  shows "ledger_wf (cleared rid s)"
proof
  show "index_ok (steps_by_run (cleared rid s)) (steps_by_id (cleared rid s)) step_id step_run_id"
    unfolding cleared_steps_by_run
    by (rule index_ok_drop [OF ledger_wf_steps [OF assms] cleared_steps [OF assms]])
  show "index_ok (tool_calls_by_step (cleared rid s)) (tool_calls_by_id (cleared rid s))
          tc_id tc_step_id"
    unfolding cleared_calls_by_step
    by (rule index_ok_drop [OF ledger_wf_calls [OF assms] cleared_calls [OF assms]])
  show "refs_ok (cleared rid s)"
    using ledger_wf_refs [OF assms] ledger_wf_steps [OF assms]
    by (fastforce simp: refs_ok_def cleared_steps [OF assms] cleared_calls [OF assms]
        index_ok_listed split: option.splits if_splits)
qed (use ledger_wf_runs [OF assms] in simp)

section \<open>Restoring one run\<close>

lemma restore_run_checkpoint_eq:
  "restore_run_checkpoint cp s =
     (let rid = run_id (cp_run cp);
          s2 = s\<lparr>run_ids := (if by_id s rid = None then run_ids s @ [rid] else run_ids s),
                 by_id := (by_id s)(rid \<mapsto> cp_run cp)\<rparr>
      in load_tool_calls (cp_tool_calls cp) (load_steps rid (cp_steps cp) (cleared rid s2)))"
  by (simp add: restore_run_checkpoint_def cleared_def Let_def)

lemma wf_enter_run:
  assumes "ledger_wf s" and "run_id r = rid"
  shows "ledger_wf (s\<lparr>run_ids := (if by_id s rid = None then run_ids s @ [rid] else run_ids s),
                      by_id := (by_id s)(rid \<mapsto> r)\<rparr>)"
  using assms
  by (auto simp: ledger_wf_def refs_ok_def intro: ids_ok_insert ids_ok_rewrite)

lemma load_run_wf:
  assumes "ledger_wf s" and cp: "checkpoint_wf cp" and "by_id s (run_id (cp_run cp)) \<noteq> None"
    and new: "\<And>st. st \<in> set (cp_steps cp) \<Longrightarrow> steps_by_id s (step_id st) = None"
      "\<And>tc. tc \<in> set (cp_tool_calls cp) \<Longrightarrow> tool_calls_by_id s (tc_id tc) = None"
  shows "ledger_wf (load_tool_calls (cp_tool_calls cp)
           (load_steps (run_id (cp_run cp)) (cp_steps cp) s))" (is "ledger_wf ?t")
proof
  have owner: "push_each (\<lambda>_. run_id (cp_run cp)) step_id (cp_steps cp) idx =
               push_each step_run_id step_id (cp_steps cp) idx" for idx
    using cp by (intro push_each_cong) (auto simp: checkpoint_wf_def)
  show "index_ok (steps_by_run ?t) (steps_by_id ?t) step_id step_run_id"
    using cp by (simp add: load_steps_eq load_tool_calls_eq owner checkpoint_wf_def)
      (rule index_ok_load [OF ledger_wf_steps [OF assms(1)] _ new(1)]; simp)
  show "index_ok (tool_calls_by_step ?t) (tool_calls_by_id ?t) tc_id tc_step_id"
    using cp by (simp add: load_steps_eq load_tool_calls_eq checkpoint_wf_def)
      (rule index_ok_load [OF ledger_wf_calls [OF assms(1)] _ new(2)]; simp)
  have steps: "steps_by_id ?t k = Some st \<longleftrightarrow>
      (st \<in> set (cp_steps cp) \<and> k = step_id st) \<or> steps_by_id s k = Some st" for k st
  proof (cases "k \<in> step_id ` set (cp_steps cp)")
    case True
    then obtain st' where "st' \<in> set (cp_steps cp)" and "k = step_id st'" by blast
    with cp show ?thesis
      using new(1) [of st'] upd_all_member [of step_id "cp_steps cp" st']
      by (auto simp: load_steps_eq load_tool_calls_eq checkpoint_wf_def distinct_map inj_on_def)
  qed (auto simp: load_steps_eq load_tool_calls_eq upd_all_other)
  have calls: "tool_calls_by_id ?t k = Some tc \<Longrightarrow>
      tc \<in> set (cp_tool_calls cp) \<or> tool_calls_by_id s k = Some tc" for k tc
  proof (cases "k \<in> tc_id ` set (cp_tool_calls cp)")
    case True
    then obtain tc' where "tc' \<in> set (cp_tool_calls cp)" and "k = tc_id tc'" by blast
    with cp show "tool_calls_by_id ?t k = Some tc \<Longrightarrow> ?thesis"
      using upd_all_member [of tc_id "cp_tool_calls cp" tc']
      by (auto simp: load_steps_eq load_tool_calls_eq checkpoint_wf_def)
  qed (auto simp: load_steps_eq load_tool_calls_eq upd_all_other)
  have runs: "by_id ?t = by_id s" by (simp add: load_steps_eq load_tool_calls_eq)
  show "refs_ok ?t"
    using ledger_wf_refs [OF assms(1)] assms(3) cp unfolding refs_ok_def steps runs
    by (auto simp: checkpoint_wf_def dest!: calls) blast+
  show "ids_ok (run_ids ?t) (by_id ?t) run_id"
    using ledger_wf_runs [OF assms(1)] by (simp add: load_steps_eq load_tool_calls_eq)
qed

lemma restore_run_checkpoint_wf:
  assumes "ledger_wf s" and "checkpoint_wf cp" and "checkpoint_fits cp s"
  shows "ledger_wf (restore_run_checkpoint cp s)"
proof -
  define rid where "rid = run_id (cp_run cp)"
  define s2 where "s2 = s\<lparr>run_ids := (if by_id s rid = None then run_ids s @ [rid] else run_ids s),
                 by_id := (by_id s)(rid \<mapsto> cp_run cp)\<rparr>"
  have s2: "ledger_wf s2" unfolding s2_def rid_def by (intro wf_enter_run assms(1) refl)
  have "steps_by_id (cleared rid s2) (step_id st) = None" if "st \<in> set (cp_steps cp)" for st
    using assms(3) that unfolding cleared_steps [OF s2]
    by (auto simp: checkpoint_fits_def s2_def rid_def split: option.splits)
  moreover have "tool_calls_by_id (cleared rid s2) (tc_id tc) = None"
    if "tc \<in> set (cp_tool_calls cp)" for tc
    using assms(3) that
    by (auto simp: checkpoint_fits_def s2_def rid_def cleared_def drop_run_tool_calls_def
        drop_run_steps_eq split: option.splits)
  moreover have "by_id (cleared rid s2) (run_id (cp_run cp)) \<noteq> None"
    by (simp add: s2_def rid_def)
  moreover have "restore_run_checkpoint cp s =
      load_tool_calls (cp_tool_calls cp) (load_steps (run_id (cp_run cp)) (cp_steps cp) (cleared rid s2))"
    by (simp only: restore_run_checkpoint_eq Let_def s2_def rid_def)
  ultimately show ?thesis
    using load_run_wf [OF cleared_wf [OF s2, of rid] assms(2)] by simp
qed

section \<open>What a snapshot captures\<close>

lemma snapshot_run_eq:
  assumes "snapshot_run now rid s = Inr cp"
  shows snapshot_run_run: "by_id s rid = Some (cp_run cp)"
    and snapshot_run_steps: "cp_steps cp = listed_steps s rid"
    and snapshot_run_calls:
      "cp_tool_calls cp = concat (map (listed_tool_calls s) (listed (steps_by_run s) rid))"
  using assms by (auto simp: snapshot_run_def listed_def split: option.splits)

lemma listed_steps_run: "ledger_wf s \<Longrightarrow> st \<in> set (listed_steps s rid) \<Longrightarrow> step_run_id st = rid"
  by (simp add: listed_steps_eq steps.owned_listing_member)

lemma listed_tool_calls_step:
  "ledger_wf s \<Longrightarrow> tc \<in> set (listed_tool_calls s sid) \<Longrightarrow> tc_step_id tc = sid"
  by (simp add: listed_tool_calls_eq calls.owned_listing_member)

lemma listed_steps_ids:
  "ledger_wf s \<Longrightarrow> map step_id (listed_steps s rid) = listed (steps_by_run s) rid"
  by (simp add: listed_steps_eq steps.owned_listing_keys)

lemma listed_tool_calls_ids:
  "ledger_wf s \<Longrightarrow> map tc_id (listed_tool_calls s sid) = listed (tool_calls_by_step s) sid"
  by (simp add: listed_tool_calls_eq calls.owned_listing_keys)

text \<open>Concatenating the listings of distinct owners keeps them apart.\<close>

lemma filter_owner_concat:
  assumes "distinct ps" and "\<And>p x. x \<in> set (f p) \<Longrightarrow> owner x = p"
  shows "filter (\<lambda>x. owner x = p) (concat (map f ps)) = (if p \<in> set ps then f p else [])"
  using assms(1)
proof (induction ps)
  case (Cons q ps)
  have "filter (\<lambda>x. owner x = p) (f q) = (if p = q then f q else [])"
    using assms(2) [of _ q] by (auto simp: filter_id_conv filter_empty_conv)
  with Cons show ?case by auto
qed simp

lemma distinct_map_concat:
  assumes "distinct ps" and "\<And>p. distinct (map key (f p))"
    and "\<And>p q x y. x \<in> set (f p) \<Longrightarrow> y \<in> set (f q) \<Longrightarrow> key x = key y \<Longrightarrow> p = q"
  shows "distinct (map key (concat (map f ps)))"
  using assms(1)
proof (induction ps)
  case (Cons q ps)
  have "key x \<noteq> key y" if "x \<in> set (f q)" "y \<in> set (concat (map f ps))" for x y
    using that Cons.prems by (fastforce dest: assms(3))
  with Cons assms(2) show ?case by auto
qed simp

lemma listed_steps_apart:
  "ledger_wf s \<Longrightarrow> x \<in> set (listed_steps s p) \<Longrightarrow> y \<in> set (listed_steps s q) \<Longrightarrow>
   step_id x = step_id y \<Longrightarrow> p = q"
  by (simp add: listed_steps_eq steps.owned_listing_member)

lemma listed_tool_calls_apart:
  "ledger_wf s \<Longrightarrow> x \<in> set (listed_tool_calls s p) \<Longrightarrow> y \<in> set (listed_tool_calls s q) \<Longrightarrow>
   tc_id x = tc_id y \<Longrightarrow> p = q"
  by (simp add: listed_tool_calls_eq calls.owned_listing_member)

lemma listed_tool_calls_distinct: "ledger_wf s \<Longrightarrow> distinct (map tc_id (listed_tool_calls s p))"
  by (simp add: listed_tool_calls_ids index_ok_distinct [OF ledger_wf_calls])

lemma listed_steps_distinct: "ledger_wf s \<Longrightarrow> distinct (map step_id (listed_steps s p))"
  by (simp add: listed_steps_ids index_ok_distinct [OF ledger_wf_steps])

lemma calls_of_steps:
  assumes "ledger_wf s" and "distinct ids"
  shows calls_of_steps_distinct: "distinct (map tc_id (concat (map (listed_tool_calls s) ids)))"
    and calls_of_steps_filter:
      "filter (\<lambda>tc. tc_step_id tc = p) (concat (map (listed_tool_calls s) ids)) =
         (if p \<in> set ids then listed_tool_calls s p else [])"
proof -
  show "distinct (map tc_id (concat (map (listed_tool_calls s) ids)))"
    by (rule distinct_map_concat) (fact assms(2) listed_tool_calls_distinct [OF assms(1)]
        listed_tool_calls_apart [OF assms(1)])+
  show "filter (\<lambda>tc. tc_step_id tc = p) (concat (map (listed_tool_calls s) ids)) =
         (if p \<in> set ids then listed_tool_calls s p else [])"
    by (rule filter_owner_concat) (fact assms(2) listed_tool_calls_step [OF assms(1)])+
qed

lemma snapshot_checkpoint_wf:
  assumes "ledger_wf s" and "snapshot_run now rid s = Inr cp"
  shows "checkpoint_wf cp" and "checkpoint_grouped cp" and "run_id (cp_run cp) = rid"
proof -
  note cp = snapshot_run_run [OF assms(2)] snapshot_run_steps [OF assms(2)]
    snapshot_run_calls [OF assms(2)]
  show rid: "run_id (cp_run cp) = rid"
    using cp(1) assms(1) by (metis ids_ok_key ledger_wf_runs)
  have dist: "distinct (listed (steps_by_run s) rid)"
    by (rule index_ok_distinct [OF ledger_wf_steps [OF assms(1)]])
  have calls: "distinct (map tc_id (cp_tool_calls cp))"
    unfolding cp(3) by (rule calls_of_steps_distinct [OF assms(1) dist])
  have owned: "tc_run_id tc = rid \<and> tc_step_id tc \<in> set (listed (steps_by_run s) rid)"
    if "tc \<in> set (cp_tool_calls cp)" for tc
  proof -
    from that obtain sid where "sid \<in> set (listed (steps_by_run s) rid)"
      and "tc \<in> set (listed_tool_calls s sid)" by (auto simp: cp(3))
    then show ?thesis
      using run_call_step [OF assms(1), of "tc_id tc" tc rid] assms(1)
      by (auto simp: listed_tool_calls_eq calls.owned_listing_member)
  qed
  show "checkpoint_wf cp"
    unfolding checkpoint_wf_def
    using calls owned listed_steps_run [OF assms(1), of _ rid] dist
    by (auto simp: cp(2) rid listed_steps_ids [OF assms(1)] simp flip: set_map)
  have "filter (\<lambda>tc. tc_step_id tc = sid) (cp_tool_calls cp) = listed_tool_calls s sid"
    if "sid \<in> set (listed (steps_by_run s) rid)" for sid
    using that by (simp add: cp(3) calls_of_steps_filter [OF assms(1) dist])
  then have "cp_tool_calls cp = concat (map (\<lambda>sid. filter (\<lambda>tc. tc_step_id tc = sid)
               (cp_tool_calls cp)) (map step_id (cp_steps cp)))"
    by (simp add: cp(2) listed_steps_ids [OF assms(1)] flip: cp(3) cong: map_cong)
  then show "checkpoint_grouped cp"
    by (simp add: checkpoint_grouped_def comp_def)
qed

lemma snapshot_fits:
  assumes "ledger_wf s" and "snapshot_run now rid s = Inr cp"
  shows "checkpoint_fits cp s"
proof -
  note wf = snapshot_checkpoint_wf [OF assms]
  have "steps_by_id s (step_id st) = Some st" if "st \<in> set (cp_steps cp)" for st
    using that assms(1)
    by (simp add: snapshot_run_steps [OF assms(2)] listed_steps_eq steps.owned_listing_member)
  moreover have "tool_calls_by_id s (tc_id tc) = Some tc" if "tc \<in> set (cp_tool_calls cp)" for tc
    using that assms(1)
    by (auto simp: snapshot_run_calls [OF assms(2)] listed_tool_calls_eq calls.owned_listing_member)
  ultimately show ?thesis
    using wf(1) by (auto simp: checkpoint_fits_def checkpoint_wf_def)
qed

section \<open>Round trips\<close>

lemma reload_steps:
  assumes wf: "ledger_wf s"
  shows "upd_all step_id (listed_steps s rid) (steps_by_id (cleared rid s)) = steps_by_id s"
proof (rule upd_all_back)
  show "steps_by_id (cleared rid s) k = (case steps_by_id s k of None \<Rightarrow> None
          | Some v \<Rightarrow> if v \<in> set (listed_steps s rid) then None else Some v)" for k
    using index_ok_key [OF ledger_wf_steps [OF wf]]
    by (auto simp: cleared_steps [OF wf] listed_steps_eq steps.owned_listing_member [OF wf]
        split: option.splits)
qed (use wf index_ok_key [OF ledger_wf_steps [OF wf]] listed_steps_distinct in
    \<open>auto simp: listed_steps_eq steps.owned_listing_member\<close>)

lemma reload_calls:
  assumes wf: "ledger_wf s"
  shows "upd_all tc_id (concat (map (listed_tool_calls s) (listed (steps_by_run s) rid)))
           (tool_calls_by_id (cleared rid s)) = tool_calls_by_id s" (is "upd_all _ ?xs _ = _")
proof (rule upd_all_back)
  show "tool_calls_by_id (cleared rid s) k = (case tool_calls_by_id s k of None \<Rightarrow> None
          | Some v \<Rightarrow> if v \<in> set ?xs then None else Some v)" for k
    using index_ok_key [OF ledger_wf_calls [OF wf], of k]
    by (auto simp: cleared_calls [OF wf] listed_tool_calls_eq calls.owned_listing_member [OF wf]
        split: option.splits)
  show "distinct (map tc_id ?xs)"
    by (rule calls_of_steps_distinct [OF wf index_ok_distinct [OF ledger_wf_steps [OF wf]]])
qed (use wf index_ok_key [OF ledger_wf_calls [OF wf]] in
    \<open>auto simp: listed_tool_calls_eq calls.owned_listing_member\<close>)

lemma reload_step_index:
  assumes wf: "ledger_wf s"
  shows "push_each (\<lambda>_. rid) step_id (listed_steps s rid) (steps_by_run (cleared rid s)) =
         steps_by_run s"
proof (rule index_eqI)
  show "push_each (\<lambda>_. rid) step_id (listed_steps s rid) (steps_by_run (cleared rid s)) p \<noteq> Some []"
    for p
    using push_each_nonempty index_ok_nonempty [OF ledger_wf_steps [OF cleared_wf [OF wf]]] by blast
qed (simp_all add: index_ok_nonempty [OF ledger_wf_steps [OF wf]] cleared_steps_by_run
      listed_steps_ids [OF wf])

lemma reload_call_index:
  assumes wf: "ledger_wf s"
  shows "push_each tc_step_id tc_id (concat (map (listed_tool_calls s) (listed (steps_by_run s) rid)))
           (tool_calls_by_step (cleared rid s)) = tool_calls_by_step s" (is "push_each _ _ ?xs ?i = _")
proof (rule index_eqI)
  show "push_each tc_step_id tc_id ?xs ?i p \<noteq> Some []" for p
    using push_each_nonempty index_ok_nonempty [OF ledger_wf_calls [OF cleared_wf [OF wf]]] by blast
  show "listed (push_each tc_step_id tc_id ?xs ?i) p = listed (tool_calls_by_step s) p" for p
    by (simp add: calls_of_steps_filter [OF wf index_ok_distinct [OF ledger_wf_steps [OF wf]]]
        cleared_calls_by_step listed_tool_calls_ids [OF wf])
qed (rule index_ok_nonempty [OF ledger_wf_calls [OF wf]])

text \<open>
  Restoring a run from its own snapshot changes nothing: in a well-formed ledger,
  \<open>restore_run_checkpoint\<close> of what \<open>snapshot_run\<close> returned leaves exactly the same ledger, the
  other runs and the orders of all vectors included.
\<close>

theorem restore_snapshot_same:
  assumes wf: "ledger_wf s" and sn: "snapshot_run now rid s = Inr cp"
  shows "restore_run_checkpoint cp s = s"
proof -
  note cp = snapshot_run_run [OF sn] snapshot_run_steps [OF sn] snapshot_run_calls [OF sn]
  have rid: "run_id (cp_run cp) = rid"
    by (rule snapshot_checkpoint_wf [OF wf sn])
  have s2: "s\<lparr>run_ids := (if by_id s rid = None then run_ids s @ [rid] else run_ids s),
               by_id := (by_id s)(rid \<mapsto> cp_run cp)\<rparr> = s"
    using cp(1) by (simp add: fun_upd_idem)
  have "restore_run_checkpoint cp s =
        load_tool_calls (cp_tool_calls cp) (load_steps rid (cp_steps cp) (cleared rid s))"
    unfolding restore_run_checkpoint_eq Let_def rid s2 ..
  also have "\<dots> = (cleared rid s)\<lparr>steps_by_id := steps_by_id s, steps_by_run := steps_by_run s,
      tool_calls_by_id := tool_calls_by_id s, tool_calls_by_step := tool_calls_by_step s\<rparr>"
    by (simp add: load_steps_eq load_tool_calls_eq cp(2,3) reload_steps [OF wf]
        reload_calls [OF wf] reload_step_index [OF wf] reload_call_index [OF wf])
  also have "\<dots> = s" by simp
  finally show ?thesis .
qed

text \<open>Looking loaded entries up again.\<close>

lemma map_filter_upd_all:
  assumes "distinct (map key xs)" and "set ys \<subseteq> set xs"
  shows "List.map_filter (upd_all key xs m) (map key ys) = ys"
  using assms(2)
proof (induction ys)
  case (Cons y ys)
  then have "upd_all key xs m (key y) = Some y" by (simp add: upd_all_member [OF assms(1)])
  with Cons show ?case by (simp add: List.map_filter_simps)
qed (simp add: List.map_filter_simps)

lemma snapshot_of_loaded:
  assumes wf: "ledger_wf s" and cp: "checkpoint_wf cp" "checkpoint_grouped cp"
    and rid: "run_id (cp_run cp) = rid" "by_id s rid = Some (cp_run cp)"
    and none: "listed (steps_by_run s) rid = []"
    and new: "\<And>st. st \<in> set (cp_steps cp) \<Longrightarrow> steps_by_id s (step_id st) = None"
  shows "snapshot_run now rid (load_tool_calls (cp_tool_calls cp) (load_steps rid (cp_steps cp) s)) =
         Inr (cp\<lparr>cp_captured_at := now\<rparr>)" (is "snapshot_run now rid ?t = _")
proof -
  have ids: "listed (steps_by_run ?t) rid = map step_id (cp_steps cp)"
    by (simp add: load_steps_eq load_tool_calls_eq none)
  have steps: "listed_steps ?t rid = cp_steps cp"
    using cp(1) unfolding listed_steps_eq ids
    by (simp add: load_steps_eq load_tool_calls_eq checkpoint_wf_def map_filter_upd_all)
  have calls: "listed_tool_calls ?t (step_id st) =
      filter (\<lambda>tc. tc_step_id tc = step_id st) (cp_tool_calls cp)" if "st \<in> set (cp_steps cp)" for st
  proof -
    have "listed (tool_calls_by_step s) (step_id st) = []"
      by (rule unknown_step_no_calls [OF wf new [OF that]])
    then show ?thesis
      using cp(1) unfolding listed_tool_calls_eq
      by (simp add: load_steps_eq load_tool_calls_eq checkpoint_wf_def map_filter_upd_all)
  qed
  have "concat (map (listed_tool_calls ?t) (map step_id (cp_steps cp))) = cp_tool_calls cp"
  proof -
    have "map (listed_tool_calls ?t) (map step_id (cp_steps cp)) =
          map (\<lambda>st. filter (\<lambda>tc. tc_step_id tc = step_id st) (cp_tool_calls cp)) (cp_steps cp)"
      by (simp add: calls)
    with cp(2) show ?thesis unfolding checkpoint_grouped_def by metis
  qed
  then have "(case steps_by_run ?t rid of None \<Rightarrow> []
              | Some ids \<Rightarrow> concat (map (listed_tool_calls ?t) ids)) = cp_tool_calls cp"
    using ids by (auto simp: listed_def split: option.splits)
  moreover have "by_id ?t rid = Some (cp_run cp)"
    using rid(2) by (simp add: load_steps_eq load_tool_calls_eq)
  ultimately show ?thesis by (simp add: snapshot_run_def steps)
qed

text \<open>
  A snapshot taken after restoring a checkpoint returns what was restored, whatever the ledger
  held for that run before: same run, same steps, same tool calls in the same order, only the time
  of capture differs.
\<close>

theorem snapshot_after_restore:
  assumes wf: "ledger_wf s" and cp: "checkpoint_wf cp" "checkpoint_grouped cp"
    and fits: "checkpoint_fits cp s" and rid: "run_id (cp_run cp) = rid"
  shows "snapshot_run now rid (restore_run_checkpoint cp s) = Inr (cp\<lparr>cp_captured_at := now\<rparr>)"
proof -
  define s2 where "s2 = s\<lparr>run_ids := (if by_id s rid = None then run_ids s @ [rid] else run_ids s),
                 by_id := (by_id s)(rid \<mapsto> cp_run cp)\<rparr>"
  have s2: "ledger_wf s2" unfolding s2_def by (intro wf_enter_run wf rid)
  have "steps_by_id (cleared rid s2) (step_id st) = None" if "st \<in> set (cp_steps cp)" for st
    using fits that unfolding cleared_steps [OF s2]
    by (auto simp: checkpoint_fits_def s2_def rid split: option.splits)
  moreover have "restore_run_checkpoint cp s =
      load_tool_calls (cp_tool_calls cp) (load_steps rid (cp_steps cp) (cleared rid s2))"
    by (simp only: restore_run_checkpoint_eq Let_def s2_def rid)
  moreover have "by_id (cleared rid s2) rid = Some (cp_run cp)" by (simp add: s2_def)
  moreover have "listed (steps_by_run (cleared rid s2)) rid = []"
    by (simp add: cleared_steps_by_run)
  ultimately show ?thesis
    using snapshot_of_loaded [OF cleared_wf [OF s2] cp rid] by simp
qed

section \<open>Restoring the whole ledger\<close>

lemma load_checkpoint_eq:
  assumes "checkpoint_wf cp"
  shows "load_checkpoint cp s =
     s\<lparr>by_id := upd_all run_id [cp_run cp] (by_id s), run_ids := run_ids s @ [run_id (cp_run cp)],
       steps_by_id := upd_all step_id (cp_steps cp) (steps_by_id s),
       steps_by_run := push_each step_run_id step_id (cp_steps cp) (steps_by_run s),
       tool_calls_by_id := upd_all tc_id (cp_tool_calls cp) (tool_calls_by_id s),
       tool_calls_by_step := push_each tc_step_id tc_id (cp_tool_calls cp) (tool_calls_by_step s)\<rparr>"
proof -
  have "push_each (\<lambda>_. run_id (cp_run cp)) step_id (cp_steps cp) idx =
        push_each step_run_id step_id (cp_steps cp) idx" for idx
    using assms by (intro push_each_cong) (auto simp: checkpoint_wf_def)
  then show ?thesis
    by (simp add: load_checkpoint_def load_steps_eq load_tool_calls_eq Let_def)
qed

lemma fold_load_checkpoint:
  assumes "\<forall>cp \<in> set cps. checkpoint_wf cp"
  shows "fold load_checkpoint cps s =
     s\<lparr>by_id := upd_all run_id (map cp_run cps) (by_id s),
       run_ids := run_ids s @ map (\<lambda>cp. run_id (cp_run cp)) cps,
       steps_by_id := upd_all step_id (concat (map cp_steps cps)) (steps_by_id s),
       steps_by_run := push_each step_run_id step_id (concat (map cp_steps cps)) (steps_by_run s),
       tool_calls_by_id := upd_all tc_id (concat (map cp_tool_calls cps)) (tool_calls_by_id s),
       tool_calls_by_step :=
         push_each tc_step_id tc_id (concat (map cp_tool_calls cps)) (tool_calls_by_step s)\<rparr>"
  using assms by (induction cps arbitrary: s) (simp_all add: load_checkpoint_eq)

definition snapshots :: "timestamp \<Rightarrow> ledger \<Rightarrow> run_checkpoint list" where
  "snapshots now s =
     List.map_filter (\<lambda>rid. case snapshot_run now rid s of Inl _ \<Rightarrow> None | Inr cp \<Rightarrow> Some cp) (run_ids s)"

lemma snapshot_run_total: "ledger_wf s \<Longrightarrow> rid \<in> set (run_ids s) \<Longrightarrow> \<exists>cp. snapshot_run now rid s = Inr cp"
  using runs.indexed_total [of s rid] by (auto simp: snapshot_run_def)

definition snapshot_of :: "timestamp \<Rightarrow> ledger \<Rightarrow> string \<Rightarrow> run_checkpoint" where
  "snapshot_of now s rid = projr (snapshot_run now rid s)"

lemma snapshot_of:
  assumes "ledger_wf s" and "rid \<in> set (run_ids s)"
  shows "snapshot_run now rid s = Inr (snapshot_of now s rid)"
  using snapshot_run_total [OF assms, of now] by (auto simp: snapshot_of_def)

lemma snapshots_eq: "ledger_wf s \<Longrightarrow> snapshots now s = map (snapshot_of now s) (run_ids s)"
proof -
  assume wf: "ledger_wf s"
  have "List.map_filter (\<lambda>rid. case snapshot_run now rid s of Inl _ \<Rightarrow> None | Inr cp \<Rightarrow> Some cp) ids =
        map (snapshot_of now s) ids" if "set ids \<subseteq> set (run_ids s)" for ids
    using that by (induction ids) (simp_all add: List.map_filter_simps snapshot_of [OF wf])
  then show ?thesis by (simp add: snapshots_def)
qed

lemma concat_map_concat:
  "concat (map f (concat (map g xs))) = concat (map (\<lambda>x. concat (map f (g x))) xs)"
  by (induction xs) simp_all

lemma snapshots_parts:
  assumes wf: "ledger_wf s"
  defines "ids \<equiv> concat (map (listed (steps_by_run s)) (run_ids s))"
  shows snapshots_wf: "\<forall>cp \<in> set (snapshots now s). checkpoint_wf cp"
    and snapshots_runs: "map cp_run (snapshots now s) = list_runs s"
    and snapshots_steps: "concat (map cp_steps (snapshots now s)) = concat (map (listed_steps s) (run_ids s))"
    and snapshots_calls: "concat (map cp_tool_calls (snapshots now s)) = concat (map (listed_tool_calls s) ids)"
proof -
  note snap = snapshot_of [OF wf, of _ now]
  show "\<forall>cp \<in> set (snapshots now s). checkpoint_wf cp"
    using snapshot_checkpoint_wf(1) [OF wf snap] by (auto simp: snapshots_eq [OF wf])
  show "map cp_run (snapshots now s) = list_runs s"
    using snapshot_run_run [OF snap] by (simp add: snapshots_eq [OF wf] list_runs_def runs.listing_eq [OF wf])
  show "concat (map cp_steps (snapshots now s)) = concat (map (listed_steps s) (run_ids s))"
    using snapshot_run_steps [OF snap] by (simp add: snapshots_eq [OF wf] comp_def cong: map_cong)
  have "map (\<lambda>r. cp_tool_calls (snapshot_of now s r)) (run_ids s) =
        map (\<lambda>r. concat (map (listed_tool_calls s) (listed (steps_by_run s) r))) (run_ids s)"
    using snapshot_run_calls [OF snap] by simp
  then show "concat (map cp_tool_calls (snapshots now s)) = concat (map (listed_tool_calls s) ids)"
    by (simp only: ids_def concat_map_concat snapshots_eq [OF wf] map_map comp_def)
qed

text \<open>All step ids of a ledger, run by run.\<close>

lemma all_step_ids:
  assumes wf: "ledger_wf s"
  defines "ids \<equiv> concat (map (listed (steps_by_run s)) (run_ids s))"
  shows all_step_ids_distinct: "distinct ids"
    and all_step_ids_set: "set ids = dom (steps_by_id s)"
    and all_steps_distinct: "distinct (map step_id (concat (map (listed_steps s) (run_ids s))))"
    and all_steps_filter: "filter (\<lambda>x. step_run_id x = p) (concat (map (listed_steps s) (run_ids s))) =
      (if p \<in> set (run_ids s) then listed_steps s p else [])"
proof -
  have dist: "distinct (run_ids s)" using ledger_wf_runs [OF wf] by (simp add: ids_ok_def)
  show steps: "distinct (map step_id (concat (map (listed_steps s) (run_ids s))))"
    by (rule distinct_map_concat) (fact dist listed_steps_distinct [OF wf] listed_steps_apart [OF wf])+
  have ids: "ids = map step_id (concat (map (listed_steps s) (run_ids s)))"
    unfolding ids_def by (simp add: map_concat comp_def listed_steps_ids [OF wf])
  then show "distinct ids" using steps by simp
  have "dom (by_id s) = set (run_ids s)" using ledger_wf_runs [OF wf] by (simp add: ids_ok_def)
  then show "set ids = dom (steps_by_id s)"
    using ledger_wf_refs [OF wf]
    by (fastforce simp: ids_def index_ok_listed [OF ledger_wf_steps [OF wf]] refs_ok_def)
  show "filter (\<lambda>x. step_run_id x = p) (concat (map (listed_steps s) (run_ids s))) =
      (if p \<in> set (run_ids s) then listed_steps s p else [])"
    by (rule filter_owner_concat) (fact dist listed_steps_run [OF wf])+
qed

text \<open>
  C22. Restoring the snapshots of all runs, in the order of the ledger, rebuilds the ledger exactly
  and discards whatever the manager held before.
\<close>

theorem restore_snapshots:
  assumes wf: "ledger_wf s"
  shows "restore_checkpoints (snapshots now s) t = s"
proof -
  let ?ids = "concat (map (listed (steps_by_run s)) (run_ids s))"
  note ids = all_step_ids [OF wf]
  have known: "by_id s p = None \<longleftrightarrow> p \<notin> set (run_ids s)" for p
    using ledger_wf_runs [OF wf] by (auto simp: ids_ok_def)
  have runs: "map run_id (list_runs s) = run_ids s"
    by (simp add: list_runs_def runs.listing_keys [OF wf])
  have "upd_all run_id (list_runs s) Map.empty = by_id s"
  proof (rule registry_rebuilt)
    show "by_id s k = Some v \<Longrightarrow> run_id v = k" for k v by (rule ids_ok_key [OF ledger_wf_runs [OF wf]])
    show "distinct (map run_id (list_runs s))" using ledger_wf_runs [OF wf] by (simp add: runs ids_ok_def)
  qed (simp add: list_runs_def runs.listing_member [OF wf])
  moreover have "upd_all step_id (concat (map (listed_steps s) (run_ids s))) Map.empty = steps_by_id s"
  proof (rule registry_rebuilt [OF index_ok_key [OF ledger_wf_steps [OF wf]] ids(3)])
    show "x \<in> set (concat (map (listed_steps s) (run_ids s))) \<longleftrightarrow> steps_by_id s (step_id x) = Some x" for x
      using ledger_wf_refs [OF wf] known
      by (auto simp: listed_steps_eq steps.owned_listing_member [OF wf] refs_ok_def)
  qed
  moreover have "push_each step_run_id step_id (concat (map (listed_steps s) (run_ids s))) Map.empty =
      steps_by_run s"
    by (rule index_rebuilt [OF ledger_wf_steps [OF wf]])
      (simp add: ids(4) listed_steps_ids [OF wf] unknown_run_no_steps [OF wf] known)
  moreover have "upd_all tc_id (concat (map (listed_tool_calls s) ?ids)) Map.empty = tool_calls_by_id s"
  proof (rule registry_rebuilt [OF index_ok_key [OF ledger_wf_calls [OF wf]]
        calls_of_steps_distinct [OF wf ids(1)]])
    have "steps_by_id s (tc_step_id x) \<noteq> None" if "tool_calls_by_id s (tc_id x) = Some x" for x
      using ledger_wf_refs [OF wf] that by (fastforce simp: refs_ok_def)
    then show "x \<in> set (concat (map (listed_tool_calls s) ?ids)) \<longleftrightarrow> tool_calls_by_id s (tc_id x) = Some x" for x
      using ids(2) by (auto simp: listed_tool_calls_eq calls.owned_listing_member [OF wf])
  qed
  moreover have "push_each tc_step_id tc_id (concat (map (listed_tool_calls s) ?ids)) Map.empty =
      tool_calls_by_step s"
    using ids(2) by (intro index_rebuilt [OF ledger_wf_calls [OF wf]])
      (auto simp: calls_of_steps_filter [OF wf ids(1)] listed_tool_calls_ids [OF wf] domIff
        intro: unknown_step_no_calls [OF wf, symmetric])
  moreover have "map (\<lambda>cp. run_id (cp_run cp)) (snapshots now s) = run_ids s"
  proof -
    have "map (\<lambda>cp. run_id (cp_run cp)) (snapshots now s) = map run_id (map cp_run (snapshots now s))"
      by simp
    then show ?thesis by (simp only: snapshots_runs [OF wf] runs)
  qed
  ultimately show ?thesis
    unfolding restore_checkpoints_def fold_load_checkpoint [OF snapshots_wf [OF wf]]
      snapshots_runs [OF wf] snapshots_steps [OF wf] snapshots_calls [OF wf]
    by (simp add: ledger_new_def)
qed

text \<open>Any batch of well-formed checkpoints with separate ids gives a well-formed ledger.\<close>

definition checkpoints_ok :: "run_checkpoint list \<Rightarrow> bool" where
  "checkpoints_ok cps \<longleftrightarrow>
     (\<forall>cp \<in> set cps. checkpoint_wf cp) \<and>
     distinct (map (\<lambda>cp. run_id (cp_run cp)) cps) \<and>
     distinct (map step_id (concat (map cp_steps cps))) \<and>
     distinct (map tc_id (concat (map cp_tool_calls cps)))"

lemma restore_checkpoints_wf:
  assumes "checkpoints_ok cps"
  shows "ledger_wf (restore_checkpoints cps s)"
proof -
  let ?runs = "map cp_run cps" and ?steps = "concat (map cp_steps cps)"
    and ?calls = "concat (map cp_tool_calls cps)"
  have wf: "\<forall>cp \<in> set cps. checkpoint_wf cp" and runs: "distinct (map run_id ?runs)"
    and steps: "distinct (map step_id ?steps)" and calls: "distinct (map tc_id ?calls)"
    using assms by (simp_all add: checkpoints_ok_def comp_def)
  have parts: "restore_checkpoints cps s =
     \<lparr>by_id = upd_all run_id ?runs Map.empty, run_ids = map run_id ?runs,
      steps_by_id = upd_all step_id ?steps Map.empty,
      steps_by_run = push_each step_run_id step_id ?steps Map.empty,
      tool_calls_by_id = upd_all tc_id ?calls Map.empty,
      tool_calls_by_step = push_each tc_step_id tc_id ?calls Map.empty\<rparr>"
    by (simp add: restore_checkpoints_def fold_load_checkpoint [OF wf] ledger_new_def)
  have known: "upd_all run_id ?runs Map.empty (step_run_id st) \<noteq> None" if "st \<in> set ?steps" for st
  proof -
    from that obtain cp where "cp \<in> set cps" and "st \<in> set (cp_steps cp)" by auto
    with wf have "upd_all run_id ?runs Map.empty (step_run_id st) = Some (cp_run cp)"
      by (auto simp: upd_all_empty [OF runs] checkpoint_wf_def)
    then show ?thesis by simp
  qed
  have owned: "\<exists>st. upd_all step_id ?steps Map.empty (tc_step_id tc) = Some st \<and>
      step_run_id st = tc_run_id tc" if tc: "tc \<in> set ?calls" for tc
  proof -
    from tc obtain cp where "cp \<in> set cps" and "tc \<in> set (cp_tool_calls cp)" by auto
    with wf show ?thesis by (fastforce simp: upd_all_empty [OF steps] checkpoint_wf_def)
  qed
  show ?thesis
    using index_ok_load [OF index_ok_empty steps, of step_run_id]
      index_ok_load [OF index_ok_empty calls, of tc_step_id] known owned
    by (auto simp: ledger_wf_def refs_ok_def parts ids_ok_load [OF runs, simplified] upd_all_empty [OF steps]
        upd_all_empty [OF calls])
qed

end
