(* ===== verification/Runtime_Properties.thy ===== *)
theory Runtime_Properties
  imports Runtime_Checkpoint
begin

text \<open>
  The properties of the run ledger: the step relation of the manager and the invariant of its
  reachable states, the status rules of steps and tool calls over any sequence of operations, the
  specification of the derived run status, cancelling and resuming, what errors leave behind, and
  the round trips of checkpoints.
\<close>

section \<open>The manager as a transition system\<close>

text \<open>
  One step is one call of an operation. Generated identifiers are fresh: the hexadecimal digits of
  a random UUID are a parameter of the operations, and two draws never collide. A tool-call id
  that the caller supplies must be fresh too; what happens otherwise is stated at
  \<open>create_tool_call_reused_id\<close>.
\<close>

inductive ledger_op :: "ledger \<Rightarrow> ledger \<Rightarrow> bool" where
  op_create_run: "create_run now hex inp s = (res, t) \<Longrightarrow> ledger_op s t"
| op_create_step:
    "create_step now hex rid inp s = (res, t) \<Longrightarrow> steps_by_id s (new_step_id hex) = None \<Longrightarrow>
     ledger_op s t"
| op_update_step_status: "update_step_status now rid sid inp s = (res, t) \<Longrightarrow> ledger_op s t"
| op_reconcile:
    "update_step_status_and_reconcile_run now now2 rid sid inp s = (res, t) \<Longrightarrow> ledger_op s t"
| op_cancel_run: "cancel_run now rid s = (res, t) \<Longrightarrow> ledger_op s t"
| op_resume_run: "resume_run now rid s = (res, t) \<Longrightarrow> ledger_op s t"
| op_cancel_step: "cancel_step now rid sid s = (res, t) \<Longrightarrow> ledger_op s t"
| op_create_tool_call:
    "create_tool_call now hex rid sid inp s = (res, t) \<Longrightarrow>
     tool_calls_by_id s (tool_call_id_of hex inp) = None \<Longrightarrow> ledger_op s t"
| op_complete_tool_call: "complete_tool_call now rid sid tid cinp s = (res, t) \<Longrightarrow> ledger_op s t"
| op_fail_tool_call: "fail_tool_call now rid sid tid finp s = (res, t) \<Longrightarrow> ledger_op s t"
| op_deny_tool_call: "deny_tool_call now rid sid tid finp s = (res, t) \<Longrightarrow> ledger_op s t"
| op_cancel_tool_call: "cancel_tool_call now rid sid tid finp s = (res, t) \<Longrightarrow> ledger_op s t"
| op_mark_tool_call_running:
    "mark_tool_call_running now rid sid tid e box s = (res, t) \<Longrightarrow> ledger_op s t"

inductive ledger_step :: "ledger \<Rightarrow> ledger \<Rightarrow> bool" where
  step_op: "ledger_op s t \<Longrightarrow> ledger_step s t"
| step_restore_run:
    "checkpoint_wf cp \<Longrightarrow> checkpoint_fits cp s \<Longrightarrow> ledger_step s (restore_run_checkpoint cp s)"
| step_restore_all: "checkpoints_ok cps \<Longrightarrow> ledger_step s (restore_checkpoints cps s)"

inductive_cases ledger_opE: "ledger_op s t"
inductive_cases ledger_stepE: "ledger_step s t"

lemma ledger_op_wf: "ledger_op s t \<Longrightarrow> ledger_wf s \<Longrightarrow> ledger_wf t"
  by (induction rule: ledger_op.induct)
    (auto simp: tool_call_rewrites elim: create_run_wf create_step_wf update_step_status_wf
      update_step_status_and_reconcile_run_wf cancel_run_wf resume_run_wf cancel_step_wf
      create_tool_call_wf rewrite_tool_call_wf)

lemma ledger_step_wf: "ledger_step s t \<Longrightarrow> ledger_wf s \<Longrightarrow> ledger_wf t"
  by (induction rule: ledger_step.induct)
    (auto intro: ledger_op_wf restore_run_checkpoint_wf restore_checkpoints_wf)

interpretation manager: invariant_system "\<lambda>s. s = ledger_new" ledger_step ledger_wf
  by unfold_locales (auto intro: ledger_new_wf ledger_step_wf)

interpretation step_statuses: status_machine can_transition is_step_terminal
proof unfold_locales
  show "is_step_terminal a \<Longrightarrow> \<not> can_transition a b" for a b by (cases a; cases b) simp_all
qed

section \<open>Final states of steps and tool calls\<close>

text \<open>
  What an operation may do to a step that ended on its own, and to a tool call. Only \<open>resume_run\<close>
  takes a step out of a terminal status, and only out of \<open>cancelled\<close>.
\<close>

fun is_step_final :: "step_status \<Rightarrow> bool" where
  "is_step_final StepCompleted = True"
| "is_step_final StepFailed = True"
| "is_step_final _ = False"

lemma can_transition_final: "can_transition a b \<Longrightarrow> \<not> is_step_final a"
  by (cases a; cases b) simp_all

fun is_tool_call_terminal :: "tool_call_status \<Rightarrow> bool" where
  "is_tool_call_terminal ToolRequested = False"
| "is_tool_call_terminal ToolRunning = False"
| "is_tool_call_terminal _ = True"

lemma restamp_run_steps_keep:
  assumes "restamp_run_steps affects to now rid s = (us, s1)" and "\<not> affects to"
    and "steps_by_id s k = Some st" and "\<not> affects (step_status st)"
  shows "steps_by_id s1 k = Some st"
  using assms by (auto simp: restamp_run_steps_eq restamp_steps_lookup)

lemma final_step_kept:
  assumes "ledger_op s t" and "steps_by_id s k = Some st" and "is_step_final (step_status st)"
  shows "steps_by_id t k = Some st"
proof -
  have final: "\<not> can_transition (step_status st) b" "is_step_terminal (step_status st)"
    "step_status st \<noteq> StepCancelled" for b
    using assms(3) can_transition_final by (blast, (cases "step_status st"; simp)+)
  note rs = restamp_run_steps_keep [OF _ _ assms(2)]
  from assms(1) show ?thesis
  proof (cases rule: ledger_op.cases)
    case (op_cancel_run now rid res)
    with assms final show ?thesis
      by (auto simp: cancel_run_def Let_def split: if_splits option.splits prod.splits dest: rs)
  next
    case (op_resume_run now rid res)
    with assms final show ?thesis
      by (auto simp: resume_run_def Let_def split: if_splits option.splits prod.splits dest: rs)
  qed (use assms(2) final in \<open>auto simp: create_run_def create_step_def update_step_status_def
      update_step_status_and_reconcile_run_def cancel_step_def create_tool_call_def tool_call_rewrites
      rewrite_tool_call_def Let_def split: if_splits option.splits sum.splits\<close>)
qed

lemma rewrite_tool_call_keep:
  assumes "rewrite_tool_call from f rid sid tid s = (res, t)"
    and "tool_calls_by_id s k = Some tc" and "tc_status tc \<notin> from"
  shows "tool_calls_by_id t k = Some tc"
  using assms by (auto simp: rewrite_tool_call_def require_mutable_tool_call_def Let_def
      split: if_splits option.splits sum.splits)

lemma ended_tool_call_kept:
  assumes "ledger_op s t" and "tool_calls_by_id s k = Some tc"
    and "is_tool_call_terminal (tc_status tc)"
  shows "tool_calls_by_id t k = Some tc"
proof -
  have ended: "tc_status tc \<notin> {ToolRequested, ToolRunning}" "tc_status tc \<notin> {ToolRequested}"
    using assms(3) by auto
  from assms(1) show ?thesis
  proof (cases rule: ledger_op.cases)
    case (op_cancel_run now rid res)
    with assms(2) show ?thesis
      by (auto simp: cancel_run_def Let_def restamp_run_steps_eq split: if_splits option.splits)
  next
    case (op_resume_run now rid res)
    with assms(2) show ?thesis
      by (auto simp: resume_run_def Let_def restamp_run_steps_eq split: if_splits option.splits)
  next
    case (op_create_tool_call now hex rid sid inp res)
    with assms(2) show ?thesis
      by (auto simp: create_tool_call_def tool_call_id_of_def Let_def split: if_splits option.splits)
  qed (use assms(2) ended in \<open>auto simp: create_run_def create_step_def update_step_status_def
      update_step_status_and_reconcile_run_def cancel_step_def tool_call_rewrites Let_def
      split: if_splits option.splits dest: rewrite_tool_call_keep\<close>)
qed

section \<open>The derived status\<close>

text \<open>The status of a run as a function of the set of its steps' statuses.\<close>

definition run_status_of :: "step_status set \<Rightarrow> run_status" where
  "run_status_of S =
     (if S = {} then RunQueued
      else if StepFailed \<in> S then RunFailed
      else if S = {StepCompleted} then RunCompleted
      else if S = {StepCancelled} then RunCancelled
      else if StepBlocked \<in> S then RunBlocked
      else if StepWaitingInput \<in> S then RunWaitingInput
      else if S \<inter> {StepPlanning, StepCallingModel, StepExecutingTool} \<noteq> {} then RunRunning
      else RunQueued)"

lemma derive_flags_loop_total:
  "set ids \<subseteq> dom (steps_by_id s) \<Longrightarrow>
   derive_flags_loop s ids f =
     fold derive_flags_step (map (\<lambda>i. step_status (the (steps_by_id s i))) ids) f"
  by (induction ids arbitrary: f) (auto split: option.splits)

lemma fold_derive_flags:
  "has_failed (fold derive_flags_step sts f) \<longleftrightarrow> has_failed f \<or> StepFailed \<in> set sts"
  "has_blocked (fold derive_flags_step sts f) \<longleftrightarrow> has_blocked f \<or> StepBlocked \<in> set sts"
  "has_waiting_input (fold derive_flags_step sts f) \<longleftrightarrow>
     has_waiting_input f \<or> StepWaitingInput \<in> set sts"
  "has_planning_or_execution (fold derive_flags_step sts f) \<longleftrightarrow>
     has_planning_or_execution f \<or>
     set sts \<inter> {StepPlanning, StepCallingModel, StepExecutingTool} \<noteq> {}"
  "all_completed (fold derive_flags_step sts f) \<longleftrightarrow> all_completed f \<and> set sts \<subseteq> {StepCompleted}"
  "all_cancelled (fold derive_flags_step sts f) \<longleftrightarrow> all_cancelled f \<and> set sts \<subseteq> {StepCancelled}"
proof (induction sts arbitrary: f)
  case (Cons st sts)
  {
    case 1 show ?case using Cons(1) by (cases st) (simp_all add: derive_flags_step_def)
  next
    case 2 show ?case using Cons(2) by (cases st) (simp_all add: derive_flags_step_def)
  next
    case 3 show ?case using Cons(3) by (cases st) (simp_all add: derive_flags_step_def)
  next
    case 4 show ?case using Cons(4) by (cases st) (simp_all add: derive_flags_step_def)
  next
    case 5 show ?case using Cons(5) by (cases st) (simp_all add: derive_flags_step_def)
  next
    case 6 show ?case using Cons(6) by (cases st) (simp_all add: derive_flags_step_def)
  }
qed simp_all

definition step_statuses_of :: "ledger \<Rightarrow> string \<Rightarrow> step_status set" where
  "step_statuses_of s rid = step_status ` set (listed_steps s rid)"

lemma derive_run_status_eq:
  assumes "ledger_wf s"
  shows "derive_run_status s rid = run_status_of (step_statuses_of s rid)"
proof (cases "steps_by_run s rid")
  case None
  then show ?thesis
    by (simp add: derive_run_status_def step_statuses_of_def listed_steps_def run_status_of_def)
next
  case (Some ids)
  have ne: "ids \<noteq> []"
    using index_ok_nonempty [OF ledger_wf_steps [OF assms], of rid] Some by auto
  have dom: "set ids \<subseteq> dom (steps_by_id s)"
    using steps.owned_total [OF assms, of rid] Some by (simp add: listed_def)
  define sts where "sts = map (\<lambda>i. step_status (the (steps_by_id s i))) ids"
  have S: "step_statuses_of s rid = set sts"
    by (simp add: step_statuses_of_def listed_steps_def Some sts_def map_filter_total [OF dom] image_image)
  have "sts \<noteq> []" using ne by (simp add: sts_def)
  then have single: "set sts \<subseteq> {a} \<longleftrightarrow> set sts = {a}" for a
    by (auto simp: subset_singleton_iff)
  show ?thesis
    using ne \<open>sts \<noteq> []\<close> unfolding S
    by (simp add: derive_run_status_def Some derive_flags_loop_total [OF dom] fold_derive_flags
        derive_flags_init_def run_status_of_def single Let_def flip: sts_def)
qed

section \<open>Cancelling and resuming\<close>

text \<open>What the two loops do to the statuses of a run's steps.\<close>

lemma restamped_statuses:
  assumes "ledger_wf s" and "\<not> affects to" and "restamp_run_steps affects to now rid s = (us, s1)"
  shows "step_statuses_of s1 rid =
     (\<lambda>st. if affects st then to else st) ` step_statuses_of s rid"
proof -
  have wf: "ledger_wf s1" using assms by (metis snd_conv wf_restamp_run_steps)
  have idx: "steps_by_run s1 = steps_by_run s" using assms(3) by (auto simp: restamp_run_steps_eq)
  have look: "steps_by_id s1 k = (case steps_by_id s k of None \<Rightarrow> None
      | Some st \<Rightarrow> Some (if k \<in> set (listed (steps_by_run s) rid) \<and> affects (step_status st)
                        then st\<lparr>step_status := to, step_updated_at := now\<rparr> else st))" for k
    using assms(2,3) by (auto simp: restamp_run_steps_eq restamp_steps_lookup)
  have "step_status (the (steps_by_id s1 k)) =
      (if affects (step_status (the (steps_by_id s k))) then to else step_status (the (steps_by_id s k)))"
    if "k \<in> set (listed (steps_by_run s) rid)" for k
    using steps.owned_total [OF assms(1), of rid] that by (auto simp: look dom_def)
  then show ?thesis
    unfolding step_statuses_of_def listed_steps_eq idx
    using map_filter_total [OF steps.owned_total [OF wf, of rid]]
      map_filter_total [OF steps.owned_total [OF assms(1), of rid]]
    by (simp add: idx image_image cong: image_cong) auto
qed

lemma restamped_other:
  assumes "ledger_wf s" and "\<not> affects to" and "restamp_run_steps affects to now rid s = (us, s1)"
    and "p \<noteq> rid"
  shows "listed_steps s1 p = listed_steps s p"
proof -
  have "steps_by_id s1 k = steps_by_id s k" if "k \<in> set (listed (steps_by_run s) p)" for k
  proof -
    have "k \<notin> set (listed (steps_by_run s) rid)"
      using that assms(4) by (auto simp: index_ok_listed [OF ledger_wf_steps [OF assms(1)]])
    then show ?thesis
      using assms(2,3) by (auto simp: restamp_run_steps_eq restamp_steps_lookup split: option.splits)
  qed
  moreover have "steps_by_run s1 = steps_by_run s" using assms(3) by (auto simp: restamp_run_steps_eq)
  ultimately show ?thesis
    unfolding listed_steps_eq by (metis map_filter_cong)
qed

lemma step_statuses_of_by_id [simp]: "step_statuses_of (s\<lparr>by_id := m\<rparr>) rid = step_statuses_of s rid"
  by (simp add: step_statuses_of_def listed_steps_eq)

lemma listed_steps_by_id [simp]: "listed_steps (s\<lparr>by_id := m\<rparr>) rid = listed_steps s rid"
  by (simp add: listed_steps_eq)

lemma derive_flags_loop_by_id [simp]:
  "derive_flags_loop (s\<lparr>by_id := m\<rparr>) ids f = derive_flags_loop s ids f"
  by (induction ids arbitrary: f) (auto split: option.splits)

lemma derive_run_status_by_id [simp]: "derive_run_status (s\<lparr>by_id := m\<rparr>) rid = derive_run_status s rid"
  by (simp add: derive_run_status_def split: option.splits)

lemma cancel_run_done:
  assumes "cancel_run now rid s = (Inr (r, us, False), t)"
  shows "\<exists>r0 s1. by_id s rid = Some r0 \<and>
     \<not> is_run_terminal (run_status r0) \<and>
     restamp_run_steps (\<lambda>st. \<not> is_step_terminal st) StepCancelled now rid s = (us, s1) \<and>
     t = s1\<lparr>by_id := (by_id s1)(rid \<mapsto> r)\<rparr> \<and>
     r = r0\<lparr>run_status := RunCancelled, run_updated_at := now\<rparr>"
  using assms by (auto simp: cancel_run_def Let_def split: if_splits option.splits prod.splits)

lemma resume_run_done:
  assumes "resume_run now rid s = (Inr (r, us, False), t)"
  shows "\<exists>r0 s1. by_id s rid = Some r0 \<and>
     run_status r0 = RunCancelled \<and>
     restamp_run_steps (\<lambda>st. st = StepCancelled) StepQueued now rid s = (us, s1) \<and>
     t = s1\<lparr>by_id := (by_id s1)(rid \<mapsto> r)\<rparr> \<and>
     r = r0\<lparr>run_status := derive_run_status s1 rid, run_updated_at := now\<rparr>"
  using assms by (auto simp: resume_run_def Let_def split: if_splits option.splits prod.splits)

section \<open>Errors\<close>

lemma op_unchanged:
  "create_run now hex rinp s = (Inl e, t) \<Longrightarrow> t = s"
  "create_step now hex rid sinp s = (Inl e, t) \<Longrightarrow> t = s"
  "update_step_status now rid sid uinp s = (Inl e, t) \<Longrightarrow> t = s"
  "update_step_status_and_reconcile_run now now2 rid sid uinp s = (Inl e, t) \<Longrightarrow> t = s"
  "cancel_run now rid s = (Inl e, t) \<Longrightarrow> t = s"
  "resume_run now rid s = (Inl e, t) \<Longrightarrow> t = s"
  "cancel_step now rid sid s = (Inl e, t) \<Longrightarrow> t = s"
  "create_tool_call now hex rid sid tinp s = (Inl e, t) \<Longrightarrow> t = s"
  "rewrite_tool_call from f rid sid tid s = (Inl e, t) \<Longrightarrow> t = s"
  by (auto simp: create_run_def create_step_def update_step_status_def
      update_step_status_and_reconcile_run_def cancel_run_def resume_run_def cancel_step_def
      create_tool_call_def rewrite_tool_call_def Let_def
      split: if_splits option.splits sum.splits prod.splits)

section \<open>A small ledger\<close>

text \<open>A run with one step and one tool call, built by the operations: the inputs of the witnesses.\<close>

definition sample_run_input :: create_run_input where
  "sample_run_input =
     \<lparr>cri_run_id = ''r1'', cri_session_id = ''s1'', cri_schedule_id = [], cri_schedule_attempt_id = [],
      cri_reminder_id = [], cri_reminder_occurrence_id = [], cri_entrypoint = ''chat'',
      cri_goal = ''g''\<rparr>"

definition sample_step_input :: create_step_input where
  "sample_step_input =
     \<lparr>csi_title = ''plan'', csi_kind = [], csi_workflow_id = [], csi_workflow_step_id = [],
      csi_attempt = 1, csi_input = None\<rparr>"

definition sample_call_input :: "string \<Rightarrow> create_tool_call_input" where
  "sample_call_input tid =
     \<lparr>cti_tool_call_id = tid, cti_workflow_id = [], cti_workflow_step_id = [], cti_attempt = 1,
      cti_computer_use_session_id = [], cti_computer_use_action_id = [], cti_invocation_kind = [],
      cti_domain_kind = [], cti_capability_id = ''fs'', cti_skill_id = [], cti_mcp_server_id = [],
      cti_mcp_server_name = [], cti_mcp_tool_name = [], cti_mcp_transport_kind = [],
      cti_mcp_session_id = [], cti_authorization_result = [], cti_tool_name = ''read'',
      cti_input = None, cti_sandbox_execution_id = [], cti_failure_class = [], cti_sandbox = [],
      cti_integration_bindings = []\<rparr>"

definition sample_run :: ledger where
  "sample_run = snd (create_run 1 [] sample_run_input ledger_new)"

definition sample_step :: ledger where
  "sample_step = snd (create_step 2 ''a'' ''r1'' sample_step_input sample_run)"

definition sample_call :: ledger where
  "sample_call = snd (create_tool_call 3 ''b'' ''r1'' ''step_a'' (sample_call_input []) sample_step)"

lemma sample_steps:
  "ledger_op ledger_new sample_run" "ledger_op sample_run sample_step"
  "ledger_op sample_step sample_call"
proof -
  show "ledger_op ledger_new sample_run"
    unfolding sample_run_def by (rule op_create_run [OF surjective_pairing])
  have "steps_by_id sample_run (new_step_id ''a'') = None" by code_simp
  then show "ledger_op sample_run sample_step"
    unfolding sample_step_def by (rule op_create_step [OF surjective_pairing])
  have "tool_calls_by_id sample_step (tool_call_id_of ''b'' (sample_call_input [])) = None"
    by code_simp
  then show "ledger_op sample_step sample_call"
    unfolding sample_call_def by (rule op_create_tool_call [OF surjective_pairing])
qed

lemma sample_ops: "ledger_op\<^sup>*\<^sup>* ledger_new sample_call"
  using sample_steps by (meson rtranclp.rtrancl_into_rtrancl rtranclp.rtrancl_refl)

lemma ledger_ops_steps: "ledger_op\<^sup>*\<^sup>* s t \<Longrightarrow> ledger_step\<^sup>*\<^sup>* s t"
  by (induction rule: rtranclp_induct) (auto intro: step_op rtranclp.rtrancl_into_rtrancl)

lemma sample_call_wf: "ledger_wf sample_call"
  using manager.inv_reachable ledger_ops_steps [OF sample_ops] by blast

section \<open>Properties\<close>



theorem restore_snapshot_same_witness:
  "restore_run_checkpoint (snapshot_of 9 sample_call ''r1'') sample_call = sample_call"
proof -
  have "''r1'' \<in> set (run_ids sample_call)" by code_simp
  from restore_snapshot_same [OF sample_call_wf snapshot_of [OF sample_call_wf this]]
  show ?thesis .
qed

theorem snapshot_after_restore_witness:
  "snapshot_run 12 ''r1'' (restore_run_checkpoint (snapshot_of 9 sample_call ''r1'') sample_call) =
     Inr ((snapshot_of 9 sample_call ''r1'')\<lparr>cp_captured_at := 12\<rparr>)"
proof -
  have "''r1'' \<in> set (run_ids sample_call)" by code_simp
  note sn = snapshot_of [OF sample_call_wf this, of 9]
  note wf = snapshot_checkpoint_wf [OF sample_call_wf sn]
  show ?thesis
    by (rule snapshot_after_restore [OF sample_call_wf wf(1,2) snapshot_fits [OF sample_call_wf sn] wf(3)])
qed

theorem restore_snapshots_witness:
  "restore_checkpoints (snapshots 9 sample_call) ledger_new = sample_call"
  by (rule restore_snapshots [OF sample_call_wf])

text \<open>
  A step that completed or failed keeps its record, unchanged, through every sequence of
  operations: no later update, cancellation or resumption of its run touches it.
\<close>

theorem final_step_stays:
  assumes "ledger_op\<^sup>*\<^sup>* s t" and "steps_by_id s k = Some st" and "is_step_final (step_status st)"
  shows "steps_by_id t k = Some st"
  using assms by (induction rule: rtranclp_induct) (auto intro: final_step_kept)

definition sample_failed :: ledger where
  "sample_failed =
     sample_call\<lparr>steps_by_id := map_option (step_status_update (\<lambda>_. StepFailed)) \<circ> steps_by_id sample_call\<rparr>"

theorem final_step_stays_witness:
  "steps_by_id (snd (cancel_run 7 ''r1'' sample_failed)) ''step_a'' = steps_by_id sample_failed ''step_a''"
proof -
  have ops: "ledger_op\<^sup>*\<^sup>* sample_failed (snd (cancel_run 7 ''r1'' sample_failed))"
    by (rule r_into_rtranclp, rule op_cancel_run [OF surjective_pairing])
  have "\<exists>st. steps_by_id sample_failed ''step_a'' = Some st \<and> is_step_final (step_status st)"
  proof -
    have "map_option step_status (steps_by_id sample_failed ''step_a'') = Some StepFailed" by code_simp
    then show ?thesis by auto
  qed
  then show ?thesis using final_step_stays [OF ops] by auto
qed

text \<open>
  A tool call that was completed, failed, cancelled or denied keeps its record, unchanged,
  through every sequence of operations.
\<close>

theorem ended_tool_call_stays:
  assumes "ledger_op\<^sup>*\<^sup>* s t" and "tool_calls_by_id s k = Some tc"
    and "is_tool_call_terminal (tc_status tc)"
  shows "tool_calls_by_id t k = Some tc"
  using assms by (induction rule: rtranclp_induct) (auto intro: ended_tool_call_kept)

definition sample_denied :: ledger where
  "sample_denied =
     snd (deny_tool_call 4 ''r1'' ''step_a'' ''toolcall_b''
       \<lparr>fti_output = None, fti_error = ''no'', fti_failure_class = [], fti_sandbox_execution_id = [],
        fti_sandbox = [], fti_integration_bindings = []\<rparr> sample_call)"

theorem ended_tool_call_stays_witness:
  "tool_calls_by_id (snd (mark_tool_call_running 5 ''r1'' ''step_a'' ''toolcall_b'' [] [] sample_denied))
     ''toolcall_b'' = tool_calls_by_id sample_denied ''toolcall_b''"
proof -
  have ops: "ledger_op\<^sup>*\<^sup>* sample_denied
      (snd (mark_tool_call_running 5 ''r1'' ''step_a'' ''toolcall_b'' [] [] sample_denied))"
    by (rule r_into_rtranclp, rule op_mark_tool_call_running [OF surjective_pairing])
  have "map_option tc_status (tool_calls_by_id sample_denied ''toolcall_b'') = Some ToolDenied"
    by code_simp
  then obtain tc where "tool_calls_by_id sample_denied ''toolcall_b'' = Some tc"
    and "is_tool_call_terminal (tc_status tc)" by auto
  then show ?thesis using ended_tool_call_stays [OF ops] by auto
qed

text \<open>
  C23. The status that the manager derives for a run depends only on the set of its steps'
  statuses: failed if some step failed, completed or cancelled if all steps are, else blocked,
  waiting or running if some step is, else queued. The seven flags of the loop compute exactly that.
\<close>

theorem derive_run_status_spec:
  "ledger_wf s \<Longrightarrow> derive_run_status s rid = run_status_of (step_status ` set (listed_steps s rid))"
  using derive_run_status_eq by (simp add: step_statuses_of_def)

theorem derive_run_status_spec_witness:
  "derive_run_status sample_call ''r1'' =
     run_status_of (step_status ` set (listed_steps sample_call ''r1''))"
  by (rule derive_run_status_spec [OF sample_call_wf])

text \<open>
  A run whose steps are all over, some completed and the others cancelled, is derived to be
  queued: no branch of the derivation covers that mix.
\<close>

theorem derive_mixed_terminal_queued:
  assumes "ledger_wf s"
    and "step_status ` set (listed_steps s rid) = {StepCompleted, StepCancelled}"
  shows "derive_run_status s rid = RunQueued"
  using assms by (simp add: derive_run_status_eq step_statuses_of_def run_status_of_def)

definition move_step :: "string \<Rightarrow> step_status \<Rightarrow> ledger \<Rightarrow> ledger" where
  "move_step sid st s =
     snd (update_step_status 5 ''r1'' sid \<lparr>usi_status = st, usi_output = None\<rparr> s)"

lemma move_step_wf: "ledger_wf s \<Longrightarrow> ledger_wf (move_step sid st s)"
  unfolding move_step_def by (rule update_step_status_wf [OF _ surjective_pairing])

definition sample_two_steps :: ledger where
  "sample_two_steps = snd (create_step 4 ''c'' ''r1'' sample_step_input sample_call)"

lemma sample_two_steps_wf: "ledger_wf sample_two_steps"
proof -
  have "steps_by_id sample_call (new_step_id ''c'') = None" by code_simp
  then show ?thesis
    unfolding sample_two_steps_def by (rule create_step_wf [OF sample_call_wf surjective_pairing])
qed

definition sample_mixed :: ledger where
  "sample_mixed =
     move_step ''step_c'' StepCancelled (move_step ''step_a'' StepCompleted
       (move_step ''step_a'' StepExecutingTool (move_step ''step_a'' StepPlanning sample_two_steps)))"

theorem derive_mixed_terminal_queued_witness: "derive_run_status sample_mixed ''r1'' = RunQueued"
proof (rule derive_mixed_terminal_queued)
  show "ledger_wf sample_mixed"
    unfolding sample_mixed_def by (intro move_step_wf sample_two_steps_wf)
  have "map step_status (listed_steps sample_mixed ''r1'') = [StepCompleted, StepCancelled]"
    by code_simp
  then show "step_status ` set (listed_steps sample_mixed ''r1'') = {StepCompleted, StepCancelled}"
    by (metis list.simps(15) set_map empty_set)
qed

text \<open>
  Updating a step's status and reconciling its run: an accepted update moved the step along an
  allowed transition, changed no other step, and left the run with exactly the status derived from
  its steps; or the step already had the requested status and nothing changed at all.
\<close>

theorem reconcile_keeps_run_status:
  assumes "update_step_status_and_reconcile_run now now2 rid sid inp s = (Inr (st', ro), t)"
  shows "steps_by_id t sid = Some st' \<and> step_status st' = usi_status inp \<and>
     (t = s \<and> ro = None \<or>
      (\<exists>st r. steps_by_id s sid = Some st \<and> can_transition (step_status st) (usi_status inp) \<and>
         steps_by_id t = (steps_by_id s)(sid \<mapsto> st') \<and>
         by_id t rid = Some r \<and> run_status r = derive_run_status t rid \<and>
         (ro = None \<and> by_id t = by_id s \<or> ro = Some r \<and> by_id t = (by_id s)(rid \<mapsto> r))))"
  using assms
  by (auto simp: update_step_status_and_reconcile_run_def Let_def split: if_splits option.splits)

theorem reconcile_keeps_run_status_witness:
  "map_option run_status (by_id (snd (update_step_status_and_reconcile_run 5 6 ''r1'' ''step_a''
     \<lparr>usi_status = StepPlanning, usi_output = None\<rparr> sample_call)) ''r1'') = Some RunRunning"
proof -
  let ?inp = "\<lparr>usi_status = StepPlanning, usi_output = None\<rparr>"
  let ?op = "update_step_status_and_reconcile_run 5 6 ''r1'' ''step_a'' ?inp sample_call"
  have ok: "case fst ?op of Inl _ \<Rightarrow> False | Inr (_, ro) \<Rightarrow> ro \<noteq> None" by code_simp
  have d: "derive_run_status (snd ?op) ''r1'' = RunRunning" by code_simp
  from ok obtain st' ro where eq: "?op = (Inr (st', ro), snd ?op)" and "ro \<noteq> None"
    by (cases ?op) (auto split: sum.splits)
  from reconcile_keeps_run_status [OF eq] \<open>ro \<noteq> None\<close> d show ?thesis by auto
qed

text \<open>
  Cancelling a run that is not over: the run becomes cancelled, each of its steps is terminal
  afterwards, the steps that were terminal keep their status, other runs and their steps are
  untouched, and cancelling again changes nothing and says so.
\<close>

theorem cancel_run_effect:
  assumes "ledger_wf s" and "cancel_run now rid s = (Inr (r, us, False), t)"
  shows "by_id t rid = Some r \<and> run_status r = RunCancelled \<and>
     (\<forall>st \<in> step_status ` set (listed_steps t rid). is_step_terminal st) \<and>
     step_status ` set (listed_steps t rid) =
       (\<lambda>st. if is_step_terminal st then st else StepCancelled) ` step_status ` set (listed_steps s rid) \<and>
     (\<forall>p. p \<noteq> rid \<longrightarrow> by_id t p = by_id s p \<and> listed_steps t p = listed_steps s p) \<and>
     cancel_run now' rid t = (Inr (r, [], True), t)"
proof -
  let ?aff = "\<lambda>st. \<not> is_step_terminal st"
  from cancel_run_done [OF assms(2)] obtain r0 s1 where r0: "by_id s rid = Some r0"
    and rs: "restamp_run_steps ?aff StepCancelled now rid s = (us, s1)"
    and t: "t = s1\<lparr>by_id := (by_id s1)(rid \<mapsto> r)\<rparr>"
    and r: "r = r0\<lparr>run_status := RunCancelled, run_updated_at := now\<rparr>" by blast
  have S: "step_statuses_of t rid = (\<lambda>st. if ?aff st then StepCancelled else st) ` step_statuses_of s rid"
    unfolding t by (simp add: restamped_statuses [OF assms(1) _ rs])
  have S': "step_statuses_of t rid = (\<lambda>st. if is_step_terminal st then st else StepCancelled) `
      step_statuses_of s rid"
    unfolding S by (rule image_cong) simp_all
  moreover have "by_id s1 = by_id s" using rs by (auto simp: restamp_run_steps_eq)
  moreover have "\<forall>p. p \<noteq> rid \<longrightarrow> listed_steps t p = listed_steps s p"
    using restamped_other [OF assms(1) _ rs] by (simp add: t)
  moreover have "cancel_run now' rid t = (Inr (r, [], True), t)"
    by (simp add: cancel_run_def t r)
  ultimately show ?thesis
    unfolding step_statuses_of_def by (auto simp: t r split: if_splits)
qed

theorem cancel_run_effect_witness:
  "cancel_run 8 ''r1'' (snd (cancel_run 7 ''r1'' sample_two_steps)) =
     (Inr (the (by_id (snd (cancel_run 7 ''r1'' sample_two_steps)) ''r1''), [], True),
      snd (cancel_run 7 ''r1'' sample_two_steps))"
proof -
  let ?op = "cancel_run 7 ''r1'' sample_two_steps"
  have "case fst ?op of Inl _ \<Rightarrow> False | Inr (_, _, again) \<Rightarrow> \<not> again" by code_simp
  then obtain r us where "?op = (Inr (r, us, False), snd ?op)"
    by (cases ?op) (auto split: sum.splits)
  from cancel_run_effect [OF sample_two_steps_wf this, of 8] show ?thesis by auto
qed

text \<open>
  Resuming a cancelled run: none of its steps is cancelled afterwards (each cancelled step is
  queued again, the others keep their status), the run's status is the derived one, and other runs
  and their steps are untouched.
\<close>

theorem resume_run_effect:
  assumes "ledger_wf s" and "resume_run now rid s = (Inr (r, us, False), t)"
  shows "by_id t rid = Some r \<and> run_status r = derive_run_status t rid \<and>
     step_status ` set (listed_steps t rid) =
       (\<lambda>st. if st = StepCancelled then StepQueued else st) ` step_status ` set (listed_steps s rid) \<and>
     StepCancelled \<notin> step_status ` set (listed_steps t rid) \<and>
     (\<forall>p. p \<noteq> rid \<longrightarrow> by_id t p = by_id s p \<and> listed_steps t p = listed_steps s p)"
proof -
  let ?aff = "\<lambda>st. st = StepCancelled"
  from resume_run_done [OF assms(2)] obtain r0 s1 where r0: "by_id s rid = Some r0"
    and rs: "restamp_run_steps ?aff StepQueued now rid s = (us, s1)"
    and t: "t = s1\<lparr>by_id := (by_id s1)(rid \<mapsto> r)\<rparr>"
    and r: "r = r0\<lparr>run_status := derive_run_status s1 rid, run_updated_at := now\<rparr>" by blast
  have "step_statuses_of t rid = (\<lambda>st. if ?aff st then StepQueued else st) ` step_statuses_of s rid"
    unfolding t by (simp add: restamped_statuses [OF assms(1) _ rs])
  moreover have "by_id s1 = by_id s" using rs by (auto simp: restamp_run_steps_eq)
  moreover have "\<forall>p. p \<noteq> rid \<longrightarrow> listed_steps t p = listed_steps s p"
    using restamped_other [OF assms(1) _ rs] by (simp add: t)
  ultimately show ?thesis
    unfolding step_statuses_of_def by (auto simp: t r split: if_splits)
qed

theorem resume_run_effect_witness:
  "step_status ` set (listed_steps (snd (resume_run 8 ''r1'' (snd (cancel_run 7 ''r1'' sample_two_steps))))
     ''r1'') = {StepQueued}"
proof -
  let ?s = "snd (cancel_run 7 ''r1'' sample_two_steps)"
  let ?op = "resume_run 8 ''r1'' ?s"
  have wf: "ledger_wf ?s" by (rule cancel_run_wf [OF sample_two_steps_wf surjective_pairing])
  have "case fst ?op of Inl _ \<Rightarrow> False | Inr (_, _, again) \<Rightarrow> \<not> again" by code_simp
  then obtain r us where "?op = (Inr (r, us, False), snd ?op)"
    by (cases ?op) (auto split: sum.splits)
  moreover have "map step_status (listed_steps ?s ''r1'') = [StepCancelled, StepCancelled]"
    by code_simp
  then have "step_status ` set (listed_steps ?s ''r1'') = {StepCancelled}"
    by (metis insert_absorb2 list.simps(15) set_map empty_set)
  ultimately show ?thesis using resume_run_effect [OF wf] by auto
qed

text \<open>
  Listing a step's tool calls returns each of its calls once, and exactly the calls that
  \<open>get_tool_call\<close> finds under that run and step.
\<close>

theorem list_tool_calls_exact:
  assumes "ledger_wf s" and "list_tool_calls rid sid s = Inr tcs"
  shows "distinct (map tc_id tcs) \<and>
     (\<forall>tc. tc \<in> set tcs \<longleftrightarrow> get_tool_call rid sid (tc_id tc) s = Some tc)"
proof -
  from assms(2) obtain st where st: "steps_by_id s sid = Some st" "step_run_id st = rid"
    and tcs: "tcs = listed_tool_calls s sid"
    by (auto simp: list_tool_calls_def split: if_splits option.splits)
  have "tc_run_id tc = rid" if "tool_calls_by_id s k = Some tc" "tc_step_id tc = sid" for k tc
    using ledger_wf_refs [OF assms(1)] st that by (fastforce simp: refs_ok_def)
  then have "tc \<in> set tcs \<longleftrightarrow> get_tool_call rid sid (tc_id tc) s = Some tc" for tc
    by (auto simp: tcs listed_tool_calls_eq calls.owned_listing_member [OF assms(1)]
        get_tool_call_def split: option.splits if_splits)
  then show ?thesis using listed_tool_calls_distinct [OF assms(1)] by (simp add: tcs)
qed

theorem list_tool_calls_exact_witness:
  "distinct (map tc_id (listed_tool_calls sample_call ''step_a'')) \<and>
   (\<forall>tc. tc \<in> set (listed_tool_calls sample_call ''step_a'') \<longleftrightarrow>
         get_tool_call ''r1'' ''step_a'' (tc_id tc) sample_call = Some tc)"
proof (rule list_tool_calls_exact [OF sample_call_wf])
  have "by_id sample_call ''r1'' \<noteq> None" by code_simp
  moreover have "map_option step_run_id (steps_by_id sample_call ''step_a'') = Some ''r1''" by code_simp
  ultimately show "list_tool_calls ''r1'' ''step_a'' sample_call = Inr (listed_tool_calls sample_call ''step_a'')"
    by (auto simp: list_tool_calls_def)
qed

text \<open>
  An operation that returns an error leaves the ledger exactly as it was: no partial update is
  visible after a failed call.
\<close>

theorem failed_operation_changes_nothing:
  "(create_run now hex rinp s = (Inl e, t) \<or> create_step now hex rid sinp s = (Inl e, t) \<or>
    update_step_status now rid sid uinp s = (Inl e, t) \<or>
    update_step_status_and_reconcile_run now now2 rid sid uinp s = (Inl e, t) \<or>
    cancel_run now rid s = (Inl e, t) \<or> resume_run now rid s = (Inl e, t) \<or>
    cancel_step now rid sid s = (Inl e, t) \<or> create_tool_call now hex rid sid tinp s = (Inl e, t) \<or>
    complete_tool_call now rid sid tid cinp s = (Inl e, t) \<or>
    fail_tool_call now rid sid tid finp s = (Inl e, t) \<or>
    deny_tool_call now rid sid tid finp s = (Inl e, t) \<or>
    cancel_tool_call now rid sid tid finp s = (Inl e, t) \<or>
    mark_tool_call_running now rid sid tid exec_id box s = (Inl e, t)) \<Longrightarrow> t = s"
  unfolding tool_call_rewrites by (elim disjE) (simp_all only: op_unchanged)

theorem failed_operation_changes_nothing_witness:
  "snd (cancel_run 7 ''nope'' sample_call) = sample_call"
proof -
  have none: "by_id sample_call ''nope'' = None" by code_simp
  then have "cancel_run 7 ''nope'' sample_call = (Inl RunNotFound, sample_call)"
    by (simp add: cancel_run_def)
  then have "cancel_run 7 ''nope'' sample_call = (Inl RunNotFound, snd (cancel_run 7 ''nope'' sample_call))"
    by simp
  then show ?thesis
    by (intro failed_operation_changes_nothing [where e = RunNotFound and now = 7 and rid = "''nope''"]) blast
qed

text \<open>
  \<open>create_tool_call\<close> does not check that a caller's tool-call id is new. Reusing an id under
  another step overwrites the call but leaves its id in the first step's vector, so listing the
  first step's calls then returns a call that belongs to the other step.
\<close>

theorem create_tool_call_reused_id:
  "let s = snd (create_tool_call 6 ''z'' ''r1'' ''step_c'' (sample_call_input ''toolcall_b'') sample_two_steps)
   in map tc_step_id (listed_tool_calls s ''step_a'') = [''step_c''] \<and> \<not> ledger_wf s"
proof -
  let ?s = "snd (create_tool_call 6 ''z'' ''r1'' ''step_c'' (sample_call_input ''toolcall_b'') sample_two_steps)"
  have "map tc_step_id (listed_tool_calls ?s ''step_a'') = [''step_c'']" by code_simp
  moreover from this have "\<not> ledger_wf ?s"
    using listed_tool_calls_step [of ?s _ "''step_a''"] by fastforce
  ultimately show ?thesis by simp
qed

end
