(* ===== verification/Router.thy ===== *)
theory Router
  imports Shared_Types
begin

text \<open>
  The session router, crates/engine/router/src/lib.rs: inbound channel, account, peer and thread
  coordinates are mapped to stable sessions through a routing key. The state behind the lock is a
  registry of sessions with an index from routing keys to session ids.
\<close>

section \<open>Data\<close>

datatype router_error = SessionNotFound | ChannelRequired | PeerRequired | ThreadRequired

datatype session_kind = Direct | Group

fun session_kind_as_str :: "session_kind \<Rightarrow> string" where
  "session_kind_as_str Direct = ''direct''"
| "session_kind_as_str Group = ''group''"

datatype session_status = SessionActive

record session =
  session_id :: string
  session_kind :: session_kind
  session_status :: session_status
  session_channel :: string
  session_account_id :: string
  session_peer_id :: string
  session_thread_id :: string
  session_routing_key :: string
  session_generation :: i64
  session_created_at :: timestamp
  session_updated_at :: timestamp
  session_last_active_at :: timestamp
  session_last_reset_at :: "timestamp option"
  session_active_profile_projection :: "json option"

record route_input =
  route_kind :: session_kind
  route_channel :: string
  route_account_id :: string
  route_peer_id :: string
  route_thread_id :: string

record router_state =
  sessions_by_id :: "string \<rightharpoonup> session"
  session_ids :: "string list"
  by_routing_key :: "string \<rightharpoonup> string"

definition router_new :: router_state where
  "router_new = \<lparr>sessions_by_id = Map.empty, session_ids = [], by_routing_key = Map.empty\<rparr>"

section \<open>Operations\<close>

definition make_routing_key :: "route_input \<Rightarrow> router_error + string" where
  "make_routing_key inp =
     (if route_channel inp = [] then Inl ChannelRequired
      else if route_peer_id inp = [] then Inl PeerRequired
      else case route_kind inp of
        Group \<Rightarrow>
          if route_thread_id inp = [] then Inl ThreadRequired
          else Inr (session_kind_as_str (route_kind inp) @ '':'' @ route_channel inp @ '':'' @
                    route_account_id inp @ '':'' @ route_peer_id inp @ '':'' @ route_thread_id inp)
      | Direct \<Rightarrow>
          Inr (session_kind_as_str Direct @ '':'' @ route_channel inp @ '':'' @
               route_account_id inp @ '':'' @ route_peer_id inp))"

definition new_session_id :: "string \<Rightarrow> string" where
  "new_session_id hex = ''sess_'' @ take 16 hex"

definition touched :: "timestamp \<Rightarrow> session \<Rightarrow> session" where
  "touched now ses = ses\<lparr>session_updated_at := now, session_last_active_at := now\<rparr>"

definition open_session :: "timestamp \<Rightarrow> string \<Rightarrow> string \<Rightarrow> route_input \<Rightarrow> session" where
  "open_session now hex rkey inp =
     \<lparr>session_id = new_session_id hex, session_kind = route_kind inp,
      session_status = SessionActive, session_channel = route_channel inp,
      session_account_id = route_account_id inp, session_peer_id = route_peer_id inp,
      session_thread_id = route_thread_id inp, session_routing_key = rkey,
      session_generation = 1, session_created_at = now, session_updated_at = now,
      session_last_active_at = now, session_last_reset_at = None,
      session_active_profile_projection = None\<rparr>"

definition add_session :: "session \<Rightarrow> router_state \<Rightarrow> router_state" where
  "add_session ses s =
     s\<lparr>sessions_by_id := (sessions_by_id s)(session_id ses \<mapsto> ses),
       session_ids := session_ids s @ [session_id ses],
       by_routing_key := (by_routing_key s)(session_routing_key ses \<mapsto> session_id ses)\<rparr>"

definition route ::
  "timestamp \<Rightarrow> string \<Rightarrow> route_input \<Rightarrow> (router_state, router_error, session \<times> bool) op" where
  "route now hex inp s =
     (case make_routing_key inp of
        Inl e \<Rightarrow> (Inl e, s)
      | Inr rkey \<Rightarrow>
          (case Option.bind (by_routing_key s rkey) (sessions_by_id s) of
             Some ses \<Rightarrow>
               let ses' = touched now ses
               in (Inr (ses', False),
                   s\<lparr>sessions_by_id := (sessions_by_id s)(the (by_routing_key s rkey) \<mapsto> ses')\<rparr>)
           | None \<Rightarrow>
               let ses = open_session now hex rkey inp in (Inr (ses, True), add_session ses s)))"

definition list_sessions :: "router_state \<Rightarrow> session list" where
  "list_sessions s = List.map_filter (sessions_by_id s) (session_ids s)"

definition get_session :: "string \<Rightarrow> router_state \<Rightarrow> session option" where
  "get_session sid s = sessions_by_id s sid"

definition touch_session :: "timestamp \<Rightarrow> string \<Rightarrow> (router_state, router_error, session) op" where
  "touch_session now sid s =
     (case sessions_by_id s sid of
        None \<Rightarrow> (Inl SessionNotFound, s)
      | Some ses \<Rightarrow>
          let ses' = touched now ses
          in (Inr ses', s\<lparr>sessions_by_id := (sessions_by_id s)(sid \<mapsto> ses')\<rparr>))"

definition reset_session :: "timestamp \<Rightarrow> string \<Rightarrow> (router_state, router_error, session) op" where
  "reset_session now sid s =
     (case sessions_by_id s sid of
        None \<Rightarrow> (Inl SessionNotFound, s)
      | Some ses \<Rightarrow>
          let ses' = ses\<lparr>session_generation := session_generation ses + 1,
                         session_updated_at := now, session_last_active_at := now,
                         session_last_reset_at := Some now\<rparr>
          in (Inr ses', s\<lparr>sessions_by_id := (sessions_by_id s)(sid \<mapsto> ses')\<rparr>))"

fun load_sessions :: "session list \<Rightarrow> router_state \<Rightarrow> router_state" where
  "load_sessions [] s = s"
| "load_sessions (ses # sess) s = load_sessions sess (add_session ses s)"

definition restore_sessions :: "session list \<Rightarrow> router_state \<Rightarrow> router_state" where
  "restore_sessions sess s =
     load_sessions sess
       (s\<lparr>sessions_by_id := Map.empty, session_ids := [], by_routing_key := Map.empty\<rparr>)"

section \<open>The invariant\<close>

text \<open>The coordinates of a session give its routing key, and the key index is exact.\<close>

definition coordinates :: "session \<Rightarrow> route_input" where
  "coordinates ses =
     \<lparr>route_kind = session_kind ses, route_channel = session_channel ses,
      route_account_id = session_account_id ses, route_peer_id = session_peer_id ses,
      route_thread_id = session_thread_id ses\<rparr>"

definition keys_ok :: "router_state \<Rightarrow> bool" where
  "keys_ok s \<longleftrightarrow>
     (\<forall>k i. by_routing_key s k = Some i \<longleftrightarrow>
        (\<exists>ses. sessions_by_id s i = Some ses \<and> session_routing_key ses = k))"

definition router_wf :: "router_state \<Rightarrow> bool" where
  "router_wf s \<longleftrightarrow>
     ids_ok (session_ids s) (sessions_by_id s) session_id \<and> keys_ok s \<and>
     (\<forall>i ses. sessions_by_id s i = Some ses \<longrightarrow>
        make_routing_key (coordinates ses) = Inr (session_routing_key ses))"

interpretation sessions: ordered_registry session_ids sessions_by_id session_id router_wf
  by unfold_locales (simp add: router_wf_def)

lemma router_wf_id: "router_wf s \<Longrightarrow> sessions_by_id s i = Some ses \<Longrightarrow> session_id ses = i"
  by (auto simp: router_wf_def ids_ok_def)

lemma router_wf_key:
  "router_wf s \<Longrightarrow> by_routing_key s k = Some i \<longleftrightarrow>
     (\<exists>ses. sessions_by_id s i = Some ses \<and> session_routing_key ses = k)"
  by (auto simp: router_wf_def keys_ok_def)

lemma router_new_wf: "router_wf router_new"
  by (simp add: router_wf_def router_new_def keys_ok_def)

text \<open>Rewriting a session without changing its identity or coordinates.\<close>

lemma wf_put_session:
  assumes "router_wf s" and "sessions_by_id s i = Some ses" and "session_id ses' = session_id ses"
    and "session_routing_key ses' = session_routing_key ses" and "coordinates ses' = coordinates ses"
  shows "router_wf (s\<lparr>sessions_by_id := (sessions_by_id s)(i \<mapsto> ses')\<rparr>)"
  using assms
  by (auto simp: router_wf_def keys_ok_def router_wf_id intro!: ids_ok_rewrite dest: ids_ok_key)

lemma touched_same [simp]:
  "session_id (touched now ses) = session_id ses"
  "session_routing_key (touched now ses) = session_routing_key ses"
  "session_generation (touched now ses) = session_generation ses"
  "coordinates (touched now ses) = coordinates ses"
  by (simp_all add: touched_def coordinates_def)

lemma wf_add_session:
  assumes "router_wf s" and "sessions_by_id s (session_id ses) = None"
    and "by_routing_key s (session_routing_key ses) = None"
    and "make_routing_key (coordinates ses) = Inr (session_routing_key ses)"
  shows "router_wf (add_session ses s)"
  unfolding router_wf_def
proof (intro conjI)
  show "ids_ok (session_ids (add_session ses s)) (sessions_by_id (add_session ses s)) session_id"
    using assms(1,2) by (auto simp: add_session_def router_wf_def intro: ids_ok_insert)
  have "session_routing_key o' \<noteq> session_routing_key ses" if "sessions_by_id s i = Some o'" for i o'
    using assms(1,3) that by (metis option.distinct(1) router_wf_key)
  then show "keys_ok (add_session ses s)"
    using assms(2) router_wf_key [OF assms(1)] by (auto simp: add_session_def keys_ok_def)
qed (use assms in \<open>auto simp: add_session_def router_wf_def\<close>)

lemma bind_key:
  assumes "router_wf s"
  shows "Option.bind (by_routing_key s k) (sessions_by_id s) = None \<longleftrightarrow> by_routing_key s k = None"
proof (cases "by_routing_key s k")
  case (Some i)
  with router_wf_key [OF assms, of k i] show ?thesis by auto
qed simp

lemma coordinates_open [simp]: "coordinates (open_session now hex k inp) = inp"
  by (simp add: coordinates_def open_session_def)

lemma open_session_simps [simp]:
  "session_id (open_session now hex k inp) = new_session_id hex"
  "session_routing_key (open_session now hex k inp) = k"
  "session_generation (open_session now hex k inp) = 1"
  by (simp_all add: open_session_def)

lemma route_wf:
  assumes "router_wf s" and "route now hex inp s = (res, t)"
    and "sessions_by_id s (new_session_id hex) = None"
  shows "router_wf t"
proof (cases "make_routing_key inp")
  case (Inl e)
  with assms show ?thesis by (simp add: route_def)
next
  case (Inr k)
  show ?thesis
  proof (cases "Option.bind (by_routing_key s k) (sessions_by_id s)")
    case None
    moreover from None have "by_routing_key s k = None" by (simp add: bind_key [OF assms(1)])
    ultimately show ?thesis
      using assms Inr by (auto simp: route_def Let_def intro!: wf_add_session)
  next
    case (Some ses)
    with assms Inr show ?thesis
      by (auto simp: route_def Let_def bind_eq_Some_conv intro!: wf_put_session)
  qed
qed

lemma touch_session_wf: "router_wf s \<Longrightarrow> touch_session now sid s = (res, t) \<Longrightarrow> router_wf t"
  by (auto simp: touch_session_def Let_def intro!: wf_put_session split: option.splits)

lemma reset_session_wf: "router_wf s \<Longrightarrow> reset_session now sid s = (res, t) \<Longrightarrow> router_wf t"
  by (auto simp: reset_session_def Let_def coordinates_def intro!: wf_put_session split: option.splits)

section \<open>The router as a transition system\<close>

text \<open>Restored sessions come from an earlier router: distinct ids, distinct keys, their own keys.\<close>

definition sessions_ok :: "session list \<Rightarrow> bool" where
  "sessions_ok sess \<longleftrightarrow>
     distinct (map session_id sess) \<and> distinct (map session_routing_key sess) \<and>
     (\<forall>ses \<in> set sess. make_routing_key (coordinates ses) = Inr (session_routing_key ses))"

lemma load_sessions_wf:
  assumes "router_wf s" and "sessions_ok sess"
    and "\<And>ses. ses \<in> set sess \<Longrightarrow> sessions_by_id s (session_id ses) = None"
    and "\<And>ses. ses \<in> set sess \<Longrightarrow> by_routing_key s (session_routing_key ses) = None"
  shows "router_wf (load_sessions sess s)"
  using assms
proof (induction sess arbitrary: s)
  case (Cons ses sess)
  have "router_wf (add_session ses s)"
    using Cons.prems by (intro wf_add_session) (auto simp: sessions_ok_def)
  moreover have "sessions_by_id (add_session ses s) (session_id x) = None \<and>
      by_routing_key (add_session ses s) (session_routing_key x) = None" if "x \<in> set sess" for x
    using Cons.prems(2-4) that by (auto simp: add_session_def sessions_ok_def rev_image_eqI)
  moreover have "sessions_ok sess" using Cons.prems(2) by (simp add: sessions_ok_def)
  ultimately show ?case unfolding load_sessions.simps by (intro Cons.IH) blast+
qed simp

lemma restore_sessions_wf: "sessions_ok sess \<Longrightarrow> router_wf (restore_sessions sess s)"
  unfolding restore_sessions_def
  by (rule load_sessions_wf) (simp_all add: router_wf_def keys_ok_def)

lemma load_sessions_parts:
  "sessions_by_id (load_sessions sess s) = upd_all session_id sess (sessions_by_id s)"
  "session_ids (load_sessions sess s) = session_ids s @ map session_id sess"
  by (induction sess arbitrary: s) (simp_all add: add_session_def)

lemma listed_sessions_ok:
  assumes "router_wf s"
  shows "sessions_ok (list_sessions s)"
  unfolding sessions_ok_def
proof (intro conjI)
  have mem: "ses \<in> set (list_sessions s) \<longleftrightarrow> sessions_by_id s (session_id ses) = Some ses" for ses
    by (simp add: list_sessions_def sessions.listing_member [OF assms])
  show "distinct (map session_id (list_sessions s))"
    using sessions.registry_ok [OF assms]
    by (simp add: list_sessions_def sessions.listing_keys [OF assms] ids_ok_def)
  have "a = b" if "a \<in> set (list_sessions s)" "b \<in> set (list_sessions s)"
    "session_routing_key a = session_routing_key b" for a b
    using that by (metis assms mem option.inject router_wf_key)
  then show "distinct (map session_routing_key (list_sessions s))"
    using sessions.listing_distinct [OF assms]
    by (auto simp: distinct_map list_sessions_def inj_on_def)
  show "\<forall>ses \<in> set (list_sessions s). make_routing_key (coordinates ses) = Inr (session_routing_key ses)"
    using assms by (auto simp: mem router_wf_def)
qed

inductive router_step :: "router_state \<Rightarrow> router_state \<Rightarrow> bool" where
  step_route:
    "route now hex inp s = (res, t) \<Longrightarrow> sessions_by_id s (new_session_id hex) = None \<Longrightarrow> router_step s t"
| step_touch: "touch_session now sid s = (res, t) \<Longrightarrow> router_step s t"
| step_reset: "reset_session now sid s = (res, t) \<Longrightarrow> router_step s t"
| step_restore: "sessions_ok sess \<Longrightarrow> router_step s (restore_sessions sess s)"

lemma router_step_wf: "router_step s t \<Longrightarrow> router_wf s \<Longrightarrow> router_wf t"
  by (induction rule: router_step.induct)
    (auto intro: route_wf touch_session_wf reset_session_wf restore_sessions_wf)

interpretation router: invariant_system "\<lambda>s. s = router_new" router_step router_wf
  by unfold_locales (auto intro: router_new_wf router_step_wf)

section \<open>The abstract router: a map from routing keys to sessions\<close>

definition session_for :: "router_state \<Rightarrow> string \<Rightarrow> session option" where
  "session_for s k = Option.bind (by_routing_key s k) (sessions_by_id s)"

lemma session_for_iff:
  "router_wf s \<Longrightarrow> session_for s k = Some ses \<longleftrightarrow>
     sessions_by_id s (session_id ses) = Some ses \<and> session_routing_key ses = k"
  by (auto simp: session_for_def bind_eq_Some_conv router_wf_key dest: router_wf_id)

lemma session_for_put:
  assumes "router_wf s" and "session_for s k = Some ses"
    and "session_id ses' = session_id ses" and "session_routing_key ses' = session_routing_key ses"
  shows "session_for (s\<lparr>sessions_by_id := (sessions_by_id s)(session_id ses \<mapsto> ses')\<rparr>) =
         (session_for s)(k \<mapsto> ses')"
proof
  fix q
  have k: "by_routing_key s k = Some (session_id ses)" "session_routing_key ses = k"
    using assms(1,2) by (auto simp: session_for_iff router_wf_key)
  have "q = k" if "by_routing_key s q = Some (session_id ses)"
    using that assms(1,2) by (auto simp: router_wf_key session_for_iff)
  with k show "session_for (s\<lparr>sessions_by_id := (sessions_by_id s)(session_id ses \<mapsto> ses')\<rparr>) q =
      ((session_for s)(k \<mapsto> ses')) q"
    by (cases "by_routing_key s q") (auto simp: session_for_def)
qed

lemma session_for_add:
  assumes "router_wf s" and "sessions_by_id s (session_id ses) = None"
  shows "session_for (add_session ses s) = (session_for s)(session_routing_key ses \<mapsto> ses)"
proof
  fix q
  have "by_routing_key s q \<noteq> Some (session_id ses)"
    using assms by (auto simp: router_wf_key)
  then show "session_for (add_session ses s) q = ((session_for s)(session_routing_key ses \<mapsto> ses)) q"
    by (cases "by_routing_key s q") (auto simp: session_for_def add_session_def)
qed

section \<open>Separated fields\<close>

lemma split_at_separator:
  "c \<notin> set a \<Longrightarrow> c \<notin> set b \<Longrightarrow> a @ c # x = b @ c # y \<longleftrightarrow> a = b \<and> x = y"
proof (induction a arbitrary: b)
  case Nil
  then show ?case by (cases b) auto
next
  case (Cons d a)
  then show ?case by (cases b) auto
qed

definition plain :: "route_input \<Rightarrow> bool" where
  "plain inp \<longleftrightarrow>
     CHR '':'' \<notin> set (route_channel inp) \<and> CHR '':'' \<notin> set (route_account_id inp) \<and>
     CHR '':'' \<notin> set (route_peer_id inp)"

section \<open>Properties\<close>

definition sample_route :: route_input where
  "sample_route =
     \<lparr>route_kind = Direct, route_channel = ''telegram'', route_account_id = ''acct_1'',
      route_peer_id = ''user_1'', route_thread_id = []\<rparr>"

text \<open>
  Every state the router can reach is well-formed: the vector of session ids lists every
  session once, each session carries the routing key of its own coordinates, and the key index
  maps a key to exactly the one session that has it.
\<close>

theorem reachable_router_wf: "router_step\<^sup>*\<^sup>* router_new s \<Longrightarrow> router_wf s"
  by (blast intro: router.inv_reachable)

theorem reachable_router_wf_witness:
  "router_wf (snd (route 1 ''00'' sample_route router_new))"
proof (rule reachable_router_wf, rule r_into_rtranclp, rule step_route [OF surjective_pairing])
  show "sessions_by_id router_new (new_session_id ''00'') = None" by (simp add: router_new_def)
qed

text \<open>
  Routing implements find-or-create on the map from routing keys to sessions: a valid input
  always gets a session; the stored session of its key, with new activity times and the same id and
  generation, when there is one, and otherwise a new session of generation 1 with the input's
  coordinates; and no other key's session changes. An invalid input changes nothing.
\<close>

theorem route_finds_or_creates:
  assumes "router_wf s" and "sessions_by_id s (new_session_id hex) = None"
  shows "case make_routing_key inp of
       Inl e \<Rightarrow> route now hex inp s = (Inl e, s)
     | Inr k \<Rightarrow> \<exists>ses t. route now hex inp s = (Inr (ses, session_for s k = None), t) \<and>
         session_for t = (session_for s)(k \<mapsto> ses) \<and>
         (case session_for s k of
            None \<Rightarrow> session_generation ses = 1 \<and> coordinates ses = inp \<and>
                    session_ids t = session_ids s @ [session_id ses]
          | Some old \<Rightarrow> ses = touched now old \<and> session_ids t = session_ids s)"
proof (cases "make_routing_key inp")
  case (Inr k)
  show ?thesis
  proof (cases "session_for s k")
    case None
    with Inr session_for_add [OF assms(1), of "open_session now hex k inp"] assms(2) show ?thesis
      by (simp add: route_def Let_def flip: session_for_def) (simp add: add_session_def)
  next
    case (Some ses)
    then have "the (by_routing_key s k) = session_id ses"
      using assms(1) by (auto simp: session_for_def bind_eq_Some_conv dest: router_wf_id)
    with Inr Some session_for_put [OF assms(1) Some, of "touched now ses"] show ?thesis
      by (simp add: route_def Let_def flip: session_for_def)
  qed
qed (simp add: route_def)

theorem route_finds_or_creates_witness:
  "case make_routing_key sample_route of
       Inl e \<Rightarrow> route 1 ''00'' sample_route router_new = (Inl e, router_new)
     | Inr k \<Rightarrow> \<exists>ses t. route 1 ''00'' sample_route router_new = (Inr (ses, session_for router_new k = None), t) \<and>
         session_for t = (session_for router_new)(k \<mapsto> ses) \<and>
         (case session_for router_new k of
            None \<Rightarrow> session_generation ses = 1 \<and> coordinates ses = sample_route \<and>
                    session_ids t = session_ids router_new @ [session_id ses]
          | Some old \<Rightarrow> ses = touched 1 old \<and> session_ids t = session_ids router_new)"
  by (rule route_finds_or_creates [OF router_new_wf]) (simp add: router_new_def)

text \<open>
  Inputs whose channel, account and peer contain no colon share a routing key only if they
  agree on kind, channel, account and peer and, for groups, on the thread: such conversations are
  never mixed in one session.
\<close>

theorem routing_key_separates:
  assumes "make_routing_key a = Inr k" and "make_routing_key b = Inr k" and "plain a" and "plain b"
  shows "route_kind a = route_kind b \<and> route_channel a = route_channel b \<and>
     route_account_id a = route_account_id b \<and> route_peer_id a = route_peer_id b \<and>
     (route_kind a = Group \<longrightarrow> route_thread_id a = route_thread_id b)"
  using assms
  by (auto simp: make_routing_key_def plain_def split_at_separator
      split: if_splits session_kind.splits)

theorem routing_key_separates_witness:
  "route_peer_id (sample_route\<lparr>route_thread_id := ''x''\<rparr>) = route_peer_id sample_route"
proof -
  have "make_routing_key (sample_route\<lparr>route_thread_id := ''x''\<rparr>) =
        Inr ''direct:telegram:acct_1:user_1''" by code_simp
  moreover have "make_routing_key sample_route = Inr ''direct:telegram:acct_1:user_1''" by code_simp
  moreover have "plain (sample_route\<lparr>route_thread_id := ''x''\<rparr>)" "plain sample_route" by code_simp+
  ultimately show ?thesis using routing_key_separates by blast
qed

text \<open>
  Colons in the fields are not escaped, so the key does not separate all inputs: a direct
  message from peer \<open>b:c\<close> on account \<open>a\<close> and one from peer \<open>c\<close> on account \<open>a:b\<close> get the same
  session.
\<close>

theorem routing_key_collision:
  "let a = sample_route\<lparr>route_account_id := ''a'', route_peer_id := ''b:c''\<rparr>;
       b = sample_route\<lparr>route_account_id := ''a:b'', route_peer_id := ''c''\<rparr>
   in a \<noteq> b \<and>
      map_sum id (\<lambda>(ses, created). (session_id ses, created))
        (fst (route 2 ''11'' b (snd (route 1 ''00'' a router_new)))) = Inr (''sess_00'', False)"
  by code_simp

text \<open>
  Restoring the listed sessions, in the order listed, rebuilds the router: ids, sessions and
  key index are those of the router that was listed, whatever the router held before.
\<close>

theorem restore_listed_sessions:
  assumes "router_wf s"
  shows "restore_sessions (list_sessions s) t = s"
proof -
  define r where "r = restore_sessions (list_sessions s) t"
  have ids: "map session_id (list_sessions s) = session_ids s"
    by (simp add: list_sessions_def sessions.listing_keys [OF assms])
  have mem: "ses \<in> set (list_sessions s) \<longleftrightarrow> sessions_by_id s (session_id ses) = Some ses" for ses
    by (simp add: list_sessions_def sessions.listing_member [OF assms])
  have r_ids: "session_ids r = session_ids s"
    by (simp add: r_def restore_sessions_def load_sessions_parts ids)
  have r_sessions: "sessions_by_id r = sessions_by_id s"
    unfolding r_def restore_sessions_def load_sessions_parts
    using router_wf_id [OF assms] registry_rebuilt [OF _ _ mem] sessions.registry_ok [OF assms]
    by (simp add: ids ids_ok_def)
  have "router_wf r" unfolding r_def by (rule restore_sessions_wf [OF listed_sessions_ok [OF assms]])
  then have "by_routing_key r k = Some i \<longleftrightarrow> by_routing_key s k = Some i" for k i
    by (simp add: router_wf_key assms r_sessions)
  then have "by_routing_key r = by_routing_key s"
    by (intro ext) (metis not_Some_eq)
  with r_ids r_sessions show ?thesis unfolding r_def by simp
qed

theorem restore_listed_sessions_witness:
  "let s = snd (route 1 ''00'' sample_route router_new)
   in restore_sessions (list_sessions s) router_new = s"
proof -
  have "sessions_by_id router_new (new_session_id ''00'') = None" by (simp add: router_new_def)
  then have "router_wf (snd (route 1 ''00'' sample_route router_new))"
    by (rule route_wf [OF router_new_wf surjective_pairing])
  then show ?thesis by (simp add: restore_listed_sessions)
qed

text \<open>
  Resetting a session raises its 64-bit generation by one, wrapping after the largest value,
  records the reset, and keeps its id, its coordinates and the routing of every key; an unknown id
  is an error that changes nothing.
\<close>

theorem reset_session_effect:
  assumes "router_wf s"
  shows "case sessions_by_id s sid of
       None \<Rightarrow> reset_session now sid s = (Inl SessionNotFound, s)
     | Some ses \<Rightarrow> \<exists>ses' t. reset_session now sid s = (Inr ses', t) \<and>
         session_for t = (session_for s)(session_routing_key ses \<mapsto> ses') \<and>
         session_id ses' = sid \<and> coordinates ses' = coordinates ses \<and>
         session_last_reset_at ses' = Some now \<and> session_ids t = session_ids s \<and>
         sint (session_generation ses') =
           (if sint (session_generation ses) = 2 ^ 63 - 1 then - (2 ^ 63)
            else sint (session_generation ses) + 1)"
proof (cases "sessions_by_id s sid")
  case (Some ses)
  then have id: "session_id ses = sid" and found: "session_for s (session_routing_key ses) = Some ses"
    using assms by (auto simp: session_for_iff router_wf_id)
  let ?ses' = "ses\<lparr>session_generation := session_generation ses + 1, session_updated_at := now,
                session_last_active_at := now, session_last_reset_at := Some now\<rparr>"
  have "session_for (s\<lparr>sessions_by_id := (sessions_by_id s)(sid \<mapsto> ?ses')\<rparr>) =
        (session_for s)(session_routing_key ses \<mapsto> ?ses')"
    using session_for_put [OF assms found, of ?ses'] by (simp add: id)
  with Some id show ?thesis
    by (simp add: reset_session_def Let_def coordinates_def sint_succ)
qed (simp add: reset_session_def)

theorem reset_session_effect_witness:
  "let s = snd (route 1 ''00'' sample_route router_new)
   in sint (session_generation (projr (fst (reset_session 2 ''sess_00'' s)))) = 2"
proof -
  let ?s = "snd (route 1 ''00'' sample_route router_new)"
  have "sessions_by_id router_new (new_session_id ''00'') = None" by (simp add: router_new_def)
  then have wf: "router_wf ?s" by (rule route_wf [OF router_new_wf surjective_pairing])
  have "map_option session_generation (sessions_by_id ?s ''sess_00'') = Some 1" by code_simp
  then obtain ses where ses: "sessions_by_id ?s ''sess_00'' = Some ses" and "session_generation ses = 1"
    by auto
  with reset_session_effect [OF wf, where sid = "''sess_00''" and now = 2] show ?thesis by auto
qed

end
