(* ===== verification/Policy.thy ===== *)
theory Policy
  imports Shared_Types
begin

text \<open>
  The approval engine, crates/domains/policy/src/lib.rs: side-effecting actions wait for a human
  resolution, and every request and every resolution is recorded as a decision. The listings index
  the maps with \<open>[]\<close>, which panics on a missing id; a panic is the value \<open>None\<close> here.
\<close>

section \<open>Data\<close>

datatype approval_status = ApprovalPending | ApprovalApproved | ApprovalRejected

fun approval_status_as_str :: "approval_status \<Rightarrow> string" where
  "approval_status_as_str ApprovalPending = ''pending''"
| "approval_status_as_str ApprovalApproved = ''approved''"
| "approval_status_as_str ApprovalRejected = ''rejected''"

datatype decision_outcome = Allowed | RequiresApproval | OutcomeApproved | OutcomeRejected

fun decision_outcome_as_str :: "decision_outcome \<Rightarrow> string" where
  "decision_outcome_as_str Allowed = ''allowed''"
| "decision_outcome_as_str RequiresApproval = ''requires_approval''"
| "decision_outcome_as_str OutcomeApproved = ''approved''"
| "decision_outcome_as_str OutcomeRejected = ''rejected''"

datatype policy_error =
  ActionRequired | ReasonRequired | ApprovalNotFound | ApprovalNotPending | InvalidResolution

record approval =
  approval_id :: string
  approval_action :: string
  approval_resource_kind :: string
  approval_resource_id :: string
  approval_reason :: string
  approval_requested_by :: string
  approval_status :: approval_status
  approval_created_at :: timestamp
  approval_updated_at :: timestamp
  approval_resolved_at :: "timestamp option"
  approval_resolution :: string
  approval_comment :: string
  approval_sandbox :: "json option"
  approval_integration_bindings :: "binding_summary list"

record decision =
  decision_id :: string
  decision_action :: string
  decision_resource_kind :: string
  decision_resource_id :: string
  decision_outcome :: decision_outcome
  decision_reason :: string
  decision_approval_id :: string
  decision_created_at :: timestamp
  decision_sandbox :: "json option"

record request_approval_input =
  rai_action :: string
  rai_resource_kind :: string
  rai_resource_id :: string
  rai_reason :: string
  rai_requested_by :: string
  rai_integration_bindings :: "binding_summary list"

record resolve_approval_input =
  rsi_resolution :: string
  rsi_comment :: string

record engine =
  approvals_by_id :: "string \<rightharpoonup> approval"
  approval_ids :: "string list"
  decisions_by_id :: "string \<rightharpoonup> decision"
  decision_ids :: "string list"

definition engine_new :: engine where
  "engine_new =
     \<lparr>approvals_by_id = Map.empty, approval_ids = [], decisions_by_id = Map.empty, decision_ids = []\<rparr>"

section \<open>Operations\<close>

definition random_suffix :: "string \<Rightarrow> string" where
  "random_suffix hex = take 16 hex"

definition new_approval_id :: "string \<Rightarrow> string" where
  "new_approval_id hex = ''approval_'' @ random_suffix hex"

definition new_decision_id :: "string \<Rightarrow> string" where
  "new_decision_id hex = ''decision_'' @ random_suffix hex"

definition log_decision :: "decision \<Rightarrow> engine \<Rightarrow> engine" where
  "log_decision d s =
     s\<lparr>decisions_by_id := (decisions_by_id s)(decision_id d \<mapsto> d),
       decision_ids := decision_ids s @ [decision_id d]\<rparr>"

definition request_approval ::
  "timestamp \<Rightarrow> string \<Rightarrow> string \<Rightarrow> request_approval_input \<Rightarrow>
   (engine, policy_error, approval \<times> decision) op"
where
  "request_approval now hexa hexd inp s =
     (if rai_action inp = [] then (Inl ActionRequired, s)
      else if rai_reason inp = [] then (Inl ReasonRequired, s)
      else
        let a = \<lparr>approval_id = new_approval_id hexa, approval_action = rai_action inp,
                 approval_resource_kind = rai_resource_kind inp,
                 approval_resource_id = rai_resource_id inp, approval_reason = rai_reason inp,
                 approval_requested_by = rai_requested_by inp,
                 approval_status = ApprovalPending, approval_created_at = now,
                 approval_updated_at = now, approval_resolved_at = None,
                 approval_resolution = [], approval_comment = [], approval_sandbox = None,
                 approval_integration_bindings = rai_integration_bindings inp\<rparr>;
            d = \<lparr>decision_id = new_decision_id hexd, decision_action = rai_action inp,
                 decision_resource_kind = rai_resource_kind inp,
                 decision_resource_id = rai_resource_id inp,
                 decision_outcome = RequiresApproval, decision_reason = rai_reason inp,
                 decision_approval_id = approval_id a, decision_created_at = now,
                 decision_sandbox = None\<rparr>
        in (Inr (a, d),
            log_decision d
              (s\<lparr>approvals_by_id := (approvals_by_id s)(approval_id a \<mapsto> a),
                 approval_ids := approval_ids s @ [approval_id a]\<rparr>)))"

definition list_approvals :: "approval_status option \<Rightarrow> engine \<Rightarrow> approval list option" where
  "list_approvals status s =
     map_option
       (filter (\<lambda>a. case status of None \<Rightarrow> True | Some st \<Rightarrow> approval_status a = st))
       (those (map (approvals_by_id s) (approval_ids s)))"

definition get_approval :: "string \<Rightarrow> engine \<Rightarrow> approval option" where
  "get_approval aid s = approvals_by_id s aid"

definition list_decisions :: "engine \<Rightarrow> decision list option" where
  "list_decisions s = those (map (decisions_by_id s) (decision_ids s))"

definition resolution_of :: "string \<Rightarrow> (approval_status \<times> decision_outcome) option" where
  "resolution_of r =
     (if r = ''approved'' then Some (ApprovalApproved, OutcomeApproved)
      else if r = ''rejected'' then Some (ApprovalRejected, OutcomeRejected)
      else None)"

definition resolve_approval ::
  "timestamp \<Rightarrow> string \<Rightarrow> string \<Rightarrow> resolve_approval_input \<Rightarrow>
   (engine, policy_error, approval \<times> decision) op"
where
  "resolve_approval now hexd aid inp s =
     (case approvals_by_id s aid of
        None \<Rightarrow> (Inl ApprovalNotFound, s)
      | Some a \<Rightarrow>
          if approval_status a \<noteq> ApprovalPending then (Inl ApprovalNotPending, s)
          else (case resolution_of (rsi_resolution inp) of
                  None \<Rightarrow> (Inl InvalidResolution, s)
                | Some (status, outcome) \<Rightarrow>
                    let a' = a\<lparr>approval_status := status, approval_resolution := rsi_resolution inp,
                               approval_comment := rsi_comment inp, approval_updated_at := now,
                               approval_resolved_at := Some now\<rparr>;
                        d = \<lparr>decision_id = new_decision_id hexd, decision_action = approval_action a',
                             decision_resource_kind = approval_resource_kind a',
                             decision_resource_id = approval_resource_id a',
                             decision_outcome = outcome, decision_reason = approval_reason a',
                             decision_approval_id = approval_id a', decision_created_at = now,
                             decision_sandbox = None\<rparr>
                    in (Inr (a', d),
                        log_decision d
                          (s\<lparr>approvals_by_id := (approvals_by_id s)(approval_id a' \<mapsto> a')\<rparr>))))"

fun load_approvals :: "approval list \<Rightarrow> engine \<Rightarrow> engine" where
  "load_approvals [] s = s"
| "load_approvals (a # as) s =
     load_approvals as
       (s\<lparr>approvals_by_id := (approvals_by_id s)(approval_id a \<mapsto> a),
          approval_ids := approval_ids s @ [approval_id a]\<rparr>)"

fun load_decisions :: "decision list \<Rightarrow> engine \<Rightarrow> engine" where
  "load_decisions [] s = s"
| "load_decisions (d # ds) s = load_decisions ds (log_decision d s)"

definition restore :: "approval list \<Rightarrow> decision list \<Rightarrow> engine \<Rightarrow> engine" where
  "restore as ds s =
     load_decisions ds
       ((load_approvals as (s\<lparr>approvals_by_id := Map.empty, approval_ids := []\<rparr>))
          \<lparr>decisions_by_id := Map.empty, decision_ids := []\<rparr>)"

section \<open>The invariant\<close>

text \<open>
  What the decision log must say about an approval: the request, then at most one resolution, and
  that one agrees with the approval's status.
\<close>

fun expected_log :: "approval_status \<Rightarrow> decision_outcome list" where
  "expected_log ApprovalPending = [RequiresApproval]"
| "expected_log ApprovalApproved = [RequiresApproval, OutcomeApproved]"
| "expected_log ApprovalRejected = [RequiresApproval, OutcomeRejected]"

definition decisions :: "engine \<Rightarrow> decision list" where
  "decisions s = List.map_filter (decisions_by_id s) (decision_ids s)"

definition outcomes_of :: "engine \<Rightarrow> string \<Rightarrow> decision_outcome list" where
  "outcomes_of s aid = map decision_outcome (filter (\<lambda>d. decision_approval_id d = aid) (decisions s))"

definition registries_ok :: "engine \<Rightarrow> bool" where
  "registries_ok s \<longleftrightarrow>
     ids_ok (approval_ids s) (approvals_by_id s) approval_id \<and>
     ids_ok (decision_ids s) (decisions_by_id s) decision_id"

definition engine_wf :: "engine \<Rightarrow> bool" where
  "engine_wf s \<longleftrightarrow>
     registries_ok s \<and>
     (\<forall>aid. outcomes_of s aid =
        (case approvals_by_id s aid of None \<Rightarrow> [] | Some a \<Rightarrow> expected_log (approval_status a)))"

interpretation approvals: ordered_registry approval_ids approvals_by_id approval_id engine_wf
  by unfold_locales (simp add: engine_wf_def registries_ok_def)

interpretation decisions: ordered_registry decision_ids decisions_by_id decision_id engine_wf
  by unfold_locales (simp add: engine_wf_def registries_ok_def)

lemma engine_new_wf: "engine_wf engine_new"
  by (simp add: engine_wf_def registries_ok_def engine_new_def outcomes_of_def decisions_def
      List.map_filter_simps)

lemma decisions_log:
  assumes "ids_ok (decision_ids s) (decisions_by_id s) decision_id"
    and "decisions_by_id s (decision_id d) = None"
  shows "decisions (log_decision d s) = decisions s @ [d]"
proof -
  have "decision_id d \<notin> set (decision_ids s)"
    using assms by (auto simp: ids_ok_def)
  then have "List.map_filter ((decisions_by_id s)(decision_id d \<mapsto> d)) (decision_ids s) =
             List.map_filter (decisions_by_id s) (decision_ids s)"
    by (intro map_filter_cong) auto
  then show ?thesis
    by (simp add: decisions_def log_decision_def List.map_filter_def)
qed

lemma decisions_approvals [simp]:
  "decisions (s\<lparr>approvals_by_id := m\<rparr>) = decisions s"
  "decisions (s\<lparr>approvals_by_id := m, approval_ids := ids\<rparr>) = decisions s"
  by (simp_all add: decisions_def)

lemma those_total: "set ks \<subseteq> dom m \<Longrightarrow> those (map m ks) = Some (map (\<lambda>k. the (m k)) ks)"
  by (induction ks) auto

lemma wf_logged:
  assumes wf: "engine_wf s" and fresh: "decisions_by_id s (decision_id d) = None"
    and ids: "ids_ok ids m approval_id"
    and log: "\<And>aid. (case m aid of None \<Rightarrow> [] | Some a \<Rightarrow> expected_log (approval_status a)) =
           outcomes_of s aid @ (if decision_approval_id d = aid then [decision_outcome d] else [])"
  shows "engine_wf (log_decision d (s\<lparr>approvals_by_id := m, approval_ids := ids\<rparr>))" (is "engine_wf ?t")
proof -
  let ?s = "s\<lparr>approvals_by_id := m, approval_ids := ids\<rparr>"
  have ok: "ids_ok (decision_ids ?s) (decisions_by_id ?s) decision_id"
    using wf by (simp add: engine_wf_def registries_ok_def)
  have "registries_ok ?t"
    using ok ids fresh by (auto simp: registries_ok_def log_decision_def intro: ids_ok_insert)
  moreover have "decisions ?t = decisions s @ [d]"
    using decisions_log [OF ok] fresh by simp
  then have "outcomes_of ?t aid =
      outcomes_of s aid @ (if decision_approval_id d = aid then [decision_outcome d] else [])" for aid
    by (simp add: outcomes_of_def)
  moreover have "approvals_by_id ?t = m" by (simp add: log_decision_def)
  ultimately show ?thesis unfolding engine_wf_def by (simp add: log)
qed

lemma wf_outcomes:
  "engine_wf s \<Longrightarrow> outcomes_of s aid =
     (case approvals_by_id s aid of None \<Rightarrow> [] | Some a \<Rightarrow> expected_log (approval_status a))"
  by (simp add: engine_wf_def)

lemma request_approval_wf:
  assumes "engine_wf s" and "request_approval now hexa hexd inp s = (res, t)"
    and "approvals_by_id s (new_approval_id hexa) = None"
    and "decisions_by_id s (new_decision_id hexd) = None"
  shows "engine_wf t"
proof (cases "t = s")
  case False
  with assms(2) show ?thesis
    by (auto simp: request_approval_def Let_def assms wf_outcomes [OF assms(1)]
        intro!: wf_logged ids_ok_insert approvals.registry_ok split: if_splits)
qed (use assms in simp)

lemma wf_logged_put:
  assumes "engine_wf s" and "decisions_by_id s (decision_id d) = None"
    and "ids_ok (approval_ids s) m approval_id"
    and "\<And>aid. (case m aid of None \<Rightarrow> [] | Some a \<Rightarrow> expected_log (approval_status a)) =
           outcomes_of s aid @ (if decision_approval_id d = aid then [decision_outcome d] else [])"
  shows "engine_wf (log_decision d (s\<lparr>approvals_by_id := m\<rparr>))"
  using wf_logged [OF assms] by simp

lemma resolve_approval_wf:
  assumes "engine_wf s" and "resolve_approval now hexd aid inp s = (res, t)"
    and "decisions_by_id s (new_decision_id hexd) = None"
  shows "engine_wf t"
proof (cases "t = s")
  case False
  with assms(2) obtain a status outcome where a: "approvals_by_id s aid = Some a"
    and pending: "approval_status a = ApprovalPending"
    and r: "resolution_of (rsi_resolution inp) = Some (status, outcome)"
    by (auto simp: resolve_approval_def Let_def split: option.splits if_splits)
  have id: "approval_id a = aid"
    using a approvals.registry_ok [OF assms(1)] by (auto dest: ids_ok_key)
  have log: "expected_log status = [RequiresApproval, outcome]"
    using r by (auto simp: resolution_of_def split: if_splits)
  from assms(2) show ?thesis
    by (auto simp: resolve_approval_def Let_def a pending r id assms log
        wf_outcomes [OF assms(1)]
        intro!: wf_logged_put ids_ok_rewrite approvals.registry_ok)
qed (use assms in simp)

section \<open>The engine as a transition system\<close>

text \<open>One call of an operation that changes the engine; generated ids are fresh.\<close>

inductive policy_op :: "engine \<Rightarrow> engine \<Rightarrow> bool" where
  op_request:
    "request_approval now hexa hexd inp s = (res, t) \<Longrightarrow>
     approvals_by_id s (new_approval_id hexa) = None \<Longrightarrow>
     decisions_by_id s (new_decision_id hexd) = None \<Longrightarrow> policy_op s t"
| op_resolve:
    "resolve_approval now hexd aid rinp s = (res, t) \<Longrightarrow>
     decisions_by_id s (new_decision_id hexd) = None \<Longrightarrow> policy_op s t"

inductive_cases policy_opE: "policy_op s t"

lemma policy_op_wf: "policy_op s t \<Longrightarrow> engine_wf s \<Longrightarrow> engine_wf t"
  by (induction rule: policy_op.induct) (auto intro: request_approval_wf resolve_approval_wf)

interpretation policy: invariant_system "\<lambda>s. s = engine_new" policy_op engine_wf
  by unfold_locales (auto intro: engine_new_wf policy_op_wf)

lemma resolved_kept:
  assumes "policy_op s t" and "engine_wf s" and "approvals_by_id s aid = Some a"
    and "approval_status a \<noteq> ApprovalPending"
  shows "approvals_by_id t aid = Some a"
  using assms(1)
proof cases
  case (op_request now hexa hexd inp res)
  with assms show ?thesis
    by (auto simp: request_approval_def log_decision_def Let_def split: if_splits)
next
  case (op_resolve now hexd bid rinp res)
  have "approval_id b = bid" if "approvals_by_id s bid = Some b" for b
    using that approvals.registry_ok [OF assms(2)] by (auto dest: ids_ok_key)
  with op_resolve assms show ?thesis
    by (auto simp: resolve_approval_def log_decision_def Let_def split: if_splits option.splits)
qed

section \<open>Restoring\<close>

lemma load_approvals_eq:
  "load_approvals as s =
     s\<lparr>approvals_by_id := upd_all approval_id as (approvals_by_id s),
       approval_ids := approval_ids s @ map approval_id as\<rparr>"
  by (induction as arbitrary: s) simp_all

lemma load_decisions_eq:
  "load_decisions ds s =
     s\<lparr>decisions_by_id := upd_all decision_id ds (decisions_by_id s),
       decision_ids := decision_ids s @ map decision_id ds\<rparr>"
  by (induction ds arbitrary: s) (simp_all add: log_decision_def)

lemma list_approvals_all:
  assumes "engine_wf s"
  shows "list_approvals None s = Some (List.map_filter (approvals_by_id s) (approval_ids s))"
proof -
  have "set (approval_ids s) \<subseteq> dom (approvals_by_id s)"
    using approvals.registry_ok [OF assms] by (simp add: ids_ok_def)
  then show ?thesis by (simp add: list_approvals_def those_total map_filter_total)
qed

lemma list_approvals_total:
  assumes "engine_wf s"
  shows "list_approvals (Some st) s =
    Some (filter (\<lambda>a. approval_status a = st) (List.map_filter (approvals_by_id s) (approval_ids s)))"
  using list_approvals_all [OF assms] by (auto simp: list_approvals_def)

lemma list_decisions_total:
  assumes "engine_wf s"
  shows "list_decisions s = Some (decisions s)"
proof -
  have "set (decision_ids s) \<subseteq> dom (decisions_by_id s)"
    using decisions.registry_ok [OF assms] by (simp add: ids_ok_def)
  then show ?thesis by (simp add: list_decisions_def decisions_def those_total map_filter_total)
qed

section \<open>Properties\<close>

definition sample_request :: request_approval_input where
  "sample_request =
     \<lparr>rai_action = ''mail.send'', rai_resource_kind = ''mail'', rai_resource_id = ''m1'',
      rai_reason = ''external'', rai_requested_by = ''agent'', rai_integration_bindings = []\<rparr>"

definition sample_pending :: engine where
  "sample_pending = snd (request_approval 1 ''a'' ''b'' sample_request engine_new)"

definition sample_resolved :: engine where
  "sample_resolved =
     snd (resolve_approval 2 ''c'' ''approval_a'' \<lparr>rsi_resolution = ''rejected'', rsi_comment = ''no''\<rparr>
       sample_pending)"

lemma sample_policy_ops: "policy_op engine_new sample_pending" "policy_op sample_pending sample_resolved"
proof -
  have "approvals_by_id engine_new (new_approval_id ''a'') = None"
    "decisions_by_id engine_new (new_decision_id ''b'') = None" by code_simp+
  then show "policy_op engine_new sample_pending"
    unfolding sample_pending_def by (rule op_request [OF surjective_pairing])
  have "decisions_by_id sample_pending (new_decision_id ''c'') = None" by code_simp
  then show "policy_op sample_pending sample_resolved"
    unfolding sample_resolved_def by (rule op_resolve [OF surjective_pairing])
qed

lemma sample_policy_reachable: "policy_op\<^sup>*\<^sup>* engine_new sample_resolved"
  using sample_policy_ops by (meson rtranclp.rtrancl_into_rtrancl rtranclp.rtrancl_refl)

lemma sample_resolved_wf: "engine_wf sample_resolved"
  using policy.inv_reachable sample_policy_reachable by blast

text \<open>
  C36. The decision log of every reachable engine is exact: for each approval it holds, in this
  order, the one request and, exactly when the approval is resolved, the one resolution that agrees
  with its status; and no decision names an approval that does not exist.
\<close>

theorem approval_log_exact:
  assumes "policy_op\<^sup>*\<^sup>* engine_new s"
  shows "\<exists>ds. list_decisions s = Some ds \<and>
     map decision_outcome (filter (\<lambda>d. decision_approval_id d = aid) ds) =
       (case get_approval aid s of None \<Rightarrow> [] | Some a \<Rightarrow> expected_log (approval_status a))"
proof -
  have "engine_wf s" using assms by (blast intro: policy.inv_reachable)
  then show ?thesis
    using list_decisions_total wf_outcomes by (simp add: outcomes_of_def get_approval_def)
qed

theorem approval_log_exact_witness:
  "\<exists>ds. list_decisions sample_resolved = Some ds \<and>
     map decision_outcome (filter (\<lambda>d. decision_approval_id d = ''approval_a'') ds) =
       [RequiresApproval, OutcomeRejected]"
proof -
  have "map_option approval_status (get_approval ''approval_a'' sample_resolved) = Some ApprovalRejected"
    by code_simp
  with approval_log_exact [OF sample_policy_reachable, of "''approval_a''"] show ?thesis by auto
qed

text \<open>
  A resolution is final: an approval that was approved or rejected keeps its record, unchanged,
  through every later request and resolution.
\<close>

theorem resolution_final:
  assumes "policy_op\<^sup>*\<^sup>* s t" and "engine_wf s" and "get_approval aid s = Some a"
    and "approval_status a \<noteq> ApprovalPending"
  shows "get_approval aid t = Some a"
proof -
  from assms(1) have "engine_wf t \<and> get_approval aid t = Some a"
  proof (induction rule: rtranclp_induct)
    case (step u t)
    then show ?case using resolved_kept assms(4) by (auto simp: get_approval_def intro: policy_op_wf)
  qed (use assms in auto)
  then show ?thesis ..
qed

theorem resolution_final_witness:
  "let t = snd (resolve_approval 3 ''d'' ''approval_a'' \<lparr>rsi_resolution = ''approved'', rsi_comment = []\<rparr>
               sample_resolved)
   in map_option approval_status (get_approval ''approval_a'' t) = Some ApprovalRejected"
proof -
  let ?t = "snd (resolve_approval 3 ''d'' ''approval_a'' \<lparr>rsi_resolution = ''approved'', rsi_comment = []\<rparr>
               sample_resolved)"
  have "decisions_by_id sample_resolved (new_decision_id ''d'') = None" by code_simp
  then have ops: "policy_op\<^sup>*\<^sup>* sample_resolved ?t"
    by (intro r_into_rtranclp op_resolve [OF surjective_pairing])
  have "map_option approval_status (get_approval ''approval_a'' sample_resolved) = Some ApprovalRejected"
    by code_simp
  then obtain a where "get_approval ''approval_a'' sample_resolved = Some a"
    and "approval_status a = ApprovalRejected" by auto
  with resolution_final [OF ops sample_resolved_wf] show ?thesis by simp
qed

text \<open>
  The listings of a reachable engine never panic on a missing id: \<open>list_approvals\<close> returns
  each approval with the requested status once and nothing else, and \<open>list_decisions\<close> every
  decision once.
\<close>

theorem approval_listings_total:
  assumes "policy_op\<^sup>*\<^sup>* engine_new s"
  shows "\<exists>as ds. list_approvals (Some st) s = Some as \<and> list_decisions s = Some ds \<and>
     distinct as \<and> distinct ds \<and>
     (\<forall>a. a \<in> set as \<longleftrightarrow> get_approval (approval_id a) s = Some a \<and> approval_status a = st) \<and>
     map decision_id ds = decision_ids s"
proof -
  have wf: "engine_wf s" using assms by (blast intro: policy.inv_reachable)
  show ?thesis
    using approvals.listing_distinct [OF wf] decisions.listing_distinct [OF wf]
    by (auto simp: list_approvals_total [OF wf] list_decisions_total [OF wf] decisions_def
        get_approval_def approvals.listing_member [OF wf] decisions.listing_keys [OF wf])
qed

theorem approval_listings_total_witness:
  "\<exists>as. list_approvals (Some ApprovalRejected) sample_resolved = Some as \<and>
     (\<forall>a. a \<in> set as \<longleftrightarrow> get_approval (approval_id a) sample_resolved = Some a \<and>
        approval_status a = ApprovalRejected)"
  using approval_listings_total [OF sample_policy_reachable, of ApprovalRejected] by blast

text \<open>
  Restoring the listed approvals and decisions rebuilds the engine exactly.
\<close>

theorem restore_listed_approvals:
  assumes "engine_wf s" and "list_approvals None s = Some as" and "list_decisions s = Some ds"
  shows "restore as ds t = s"
proof -
  have as: "as = List.map_filter (approvals_by_id s) (approval_ids s)" and ds: "ds = decisions s"
    using assms by (simp_all add: list_approvals_all list_decisions_total)
  have "upd_all approval_id as Map.empty = approvals_by_id s"
    by (rule registry_rebuilt) (use approvals.registry_ok [OF assms(1)] in
        \<open>auto simp: as approvals.listing_member [OF assms(1)] approvals.listing_keys [OF assms(1)] ids_ok_def\<close>)
  moreover have "upd_all decision_id ds Map.empty = decisions_by_id s"
    by (rule registry_rebuilt) (use decisions.registry_ok [OF assms(1)] in
        \<open>auto simp: ds decisions_def decisions.listing_member [OF assms(1)]
          decisions.listing_keys [OF assms(1)] ids_ok_def\<close>)
  ultimately show ?thesis
    by (simp add: restore_def load_approvals_eq load_decisions_eq as ds decisions_def
        approvals.listing_keys [OF assms(1)] decisions.listing_keys [OF assms(1)])
qed

theorem restore_listed_approvals_witness:
  "restore (the (list_approvals None sample_resolved)) (the (list_decisions sample_resolved)) engine_new =
     sample_resolved"
  by (rule restore_listed_approvals [OF sample_resolved_wf])
    (simp_all add: list_approvals_all list_decisions_total sample_resolved_wf)

end
