(* ===== verification/Swarm.thy ===== *)
theory Swarm
  imports Shared_Types
begin

text \<open>
  Bounded concurrent sub-agents, crates/domains/swarm/src/lib.rs: the run and child records, the
  bounds, the status computation and the in-memory registry. Counts and indexes are \<open>usize\<close> values
  bounded by vector lengths, hence natural numbers.
\<close>

section \<open>Data\<close>

definition DEFAULT_MAX_CHILDREN_PER_RUN :: nat where
  "DEFAULT_MAX_CHILDREN_PER_RUN = 8"

definition DEFAULT_MAX_CONCURRENT_CHILDREN :: nat where
  "DEFAULT_MAX_CONCURRENT_CHILDREN = 4"

definition OUTPUT_PREVIEW_CHARS :: nat where
  "OUTPUT_PREVIEW_CHARS = 2000"

record swarm_config =
  swarm_enabled :: bool
  swarm_max_children_per_run :: nat
  swarm_max_concurrent_children :: nat

definition max_children :: "swarm_config \<Rightarrow> nat" where
  "max_children cfg =
     (if swarm_max_children_per_run cfg > 0 then swarm_max_children_per_run cfg
      else DEFAULT_MAX_CHILDREN_PER_RUN)"

definition max_concurrent :: "swarm_config \<Rightarrow> nat" where
  "max_concurrent cfg =
     (if swarm_max_concurrent_children cfg > 0 then swarm_max_concurrent_children cfg
      else DEFAULT_MAX_CONCURRENT_CHILDREN)"

datatype child_status =
  ChildQueued | ChildRunning | ChildCompleted | ChildFailed | ChildQuotaDenied | ChildCancelled

datatype swarm_run_status =
  SwarmQueued | SwarmRunning | SwarmCompleted | SwarmPartialFailed | SwarmFailed | SwarmCancelled

record swarm_child =
  child_index :: nat
  child_goal :: string
  child_thread_id :: string
  child_status :: child_status
  child_dispatch_id :: string
  child_output_preview :: string
  child_error :: string
  child_started_at :: "timestamp option"
  child_completed_at :: "timestamp option"

record swarm_run =
  swarm_run_id :: string
  swarm_tenant_id :: string
  swarm_requested_by :: string
  swarm_provider :: string
  swarm_model :: string
  swarm_status :: swarm_run_status
  swarm_children :: "swarm_child list"
  swarm_created_at :: timestamp
  swarm_updated_at :: timestamp
  swarm_completed_at :: "timestamp option"

record run_summary =
  sum_completed :: nat
  sum_failed :: nat
  sum_quota_denied :: nat
  sum_cancelled :: nat
  sum_pending :: nat

record launch_input =
  launch_goals :: "string list"
  launch_provider :: string
  launch_model :: string
  launch_requested_by :: string

datatype swarm_error = SwarmDisabled | GoalsRequired | TooManyChildren nat nat | SwarmNotFound

record swarm_manager =
  swarm_config :: swarm_config
  swarm_runs :: "string \<rightharpoonup> swarm_run"
  swarm_order :: "string list"

definition swarm_new :: "swarm_config \<Rightarrow> swarm_manager" where
  "swarm_new cfg = \<lparr>swarm_config = cfg, swarm_runs = Map.empty, swarm_order = []\<rparr>"

section \<open>Summaries and statuses\<close>

fun child_pending :: "child_status \<Rightarrow> bool" where
  "child_pending ChildQueued = True"
| "child_pending ChildRunning = True"
| "child_pending _ = False"

fun count_child :: "child_status \<Rightarrow> run_summary \<Rightarrow> run_summary" where
  "count_child ChildCompleted s = s\<lparr>sum_completed := sum_completed s + 1\<rparr>"
| "count_child ChildFailed s = s\<lparr>sum_failed := sum_failed s + 1\<rparr>"
| "count_child ChildQuotaDenied s = s\<lparr>sum_quota_denied := sum_quota_denied s + 1\<rparr>"
| "count_child ChildCancelled s = s\<lparr>sum_cancelled := sum_cancelled s + 1\<rparr>"
| "count_child ChildQueued s = s\<lparr>sum_pending := sum_pending s + 1\<rparr>"
| "count_child ChildRunning s = s\<lparr>sum_pending := sum_pending s + 1\<rparr>"

definition summary :: "swarm_run \<Rightarrow> run_summary" where
  "summary r =
     fold (\<lambda>c. count_child (child_status c)) (swarm_children r)
       \<lparr>sum_completed = 0, sum_failed = 0, sum_quota_denied = 0, sum_cancelled = 0, sum_pending = 0\<rparr>"

definition finalize_status :: "swarm_run \<Rightarrow> swarm_run_status" where
  "finalize_status r =
     (let s = summary r in
      if sum_pending s > 0 then SwarmRunning
      else let total = length (swarm_children r) in
        if sum_cancelled s = total then SwarmCancelled
        else if sum_completed s = total then SwarmCompleted
        else if sum_completed s = 0 then SwarmFailed
        else SwarmPartialFailed)"

section \<open>Operations\<close>

definition interrupt_child :: "swarm_child \<Rightarrow> swarm_child" where
  "interrupt_child c =
     (if child_pending (child_status c)
      then c\<lparr>child_status := ChildCancelled, child_error := ''daemon restarted before completion''\<rparr>
      else c)"

definition interrupt_run :: "timestamp \<Rightarrow> swarm_run \<Rightarrow> swarm_run" where
  "interrupt_run now r =
     (if swarm_status r = SwarmQueued \<or> swarm_status r = SwarmRunning
      then let r1 = r\<lparr>swarm_children := map interrupt_child (swarm_children r)\<rparr>
           in r1\<lparr>swarm_status := finalize_status r1, swarm_completed_at := Some now\<rparr>
      else r)"

fun load_runs :: "timestamp \<Rightarrow> swarm_run list \<Rightarrow> swarm_manager \<Rightarrow> swarm_manager" where
  "load_runs now [] s = s"
| "load_runs now (r # rs) s =
     (let r' = interrupt_run now r
      in load_runs now rs
           (s\<lparr>swarm_runs := (swarm_runs s)(swarm_run_id r' \<mapsto> r'),
              swarm_order := swarm_order s @ [swarm_run_id r']\<rparr>))"

definition restore_runs :: "timestamp \<Rightarrow> swarm_run list \<Rightarrow> swarm_manager \<Rightarrow> swarm_manager" where
  "restore_runs now rs s = load_runs now rs (s\<lparr>swarm_runs := Map.empty, swarm_order := []\<rparr>)"

definition new_child :: "string \<Rightarrow> nat \<Rightarrow> string \<Rightarrow> swarm_child" where
  "new_child rid i goal =
     \<lparr>child_index = i, child_goal = goal,
      child_thread_id = ''swarm:'' @ rid @ '':'' @ decimal i,
      child_status = ChildQueued, child_dispatch_id = [], child_output_preview = [],
      child_error = [], child_started_at = None, child_completed_at = None\<rparr>"

definition launch ::
  "timestamp \<Rightarrow> string \<Rightarrow> string \<Rightarrow> launch_input \<Rightarrow> (swarm_manager, swarm_error, swarm_run) op" where
  "launch now hex tenant inp s =
     (if \<not> swarm_enabled (swarm_config s) then (Inl SwarmDisabled, s)
      else
        let goals = filter (\<lambda>g. g \<noteq> []) (map trim (launch_goals inp)) in
        if goals = [] then (Inl GoalsRequired, s)
        else let limit = max_children (swarm_config s) in
          if length goals > limit then (Inl (TooManyChildren (length goals) limit), s)
          else
            let rid = ''swm_'' @ hex;
                r = \<lparr>swarm_run_id = rid, swarm_tenant_id = trim tenant,
                     swarm_requested_by = trim (launch_requested_by inp),
                     swarm_provider = trim (launch_provider inp),
                     swarm_model = trim (launch_model inp), swarm_status = SwarmQueued,
                     swarm_children = map (\<lambda>(i, g). new_child rid i g) (List.enumerate 0 goals),
                     swarm_created_at = now, swarm_updated_at = now,
                     swarm_completed_at = None\<rparr>
            in (Inr r, s\<lparr>swarm_runs := (swarm_runs s)(rid \<mapsto> r), swarm_order := swarm_order s @ [rid]\<rparr>))"

definition get_swarm_run :: "string \<Rightarrow> swarm_manager \<Rightarrow> swarm_run option" where
  "get_swarm_run rid s = swarm_runs s (trim rid)"

definition list_swarm_runs :: "string \<Rightarrow> swarm_manager \<Rightarrow> swarm_run list" where
  "list_swarm_runs tenant s =
     filter (\<lambda>r. swarm_tenant_id r = trim tenant) (List.map_filter (swarm_runs s) (swarm_order s))"

definition update_child ::
  "timestamp \<Rightarrow> string \<Rightarrow> nat \<Rightarrow> (swarm_child \<Rightarrow> swarm_child) \<Rightarrow> swarm_manager \<Rightarrow>
   swarm_run option \<times> swarm_manager"
where
  "update_child now rid i f s =
     (case swarm_runs s rid of
        None \<Rightarrow> (None, s)
      | Some r \<Rightarrow>
          if i < length (swarm_children r) then
            let r1 = r\<lparr>swarm_children := (swarm_children r)[i := f (swarm_children r ! i)],
                       swarm_updated_at := now\<rparr>;
                r2 = (if \<exists>c \<in> set (swarm_children r1). child_pending (child_status c)
                      then r1\<lparr>swarm_status := SwarmRunning\<rparr>
                      else r1\<lparr>swarm_status := finalize_status r1,
                              swarm_completed_at := Some (swarm_updated_at r1)\<rparr>)
            in (Some r2, s\<lparr>swarm_runs := (swarm_runs s)(rid \<mapsto> r2)\<rparr>)
          else (None, s))"

definition mark_running :: "timestamp \<Rightarrow> string \<Rightarrow> swarm_manager \<Rightarrow> swarm_run option \<times> swarm_manager" where
  "mark_running now rid s =
     (case swarm_runs s rid of
        None \<Rightarrow> (None, s)
      | Some r \<Rightarrow>
          let r' = r\<lparr>swarm_status := SwarmRunning, swarm_updated_at := now\<rparr>
          in (Some r', s\<lparr>swarm_runs := (swarm_runs s)(rid \<mapsto> r')\<rparr>))"

fun boundary_below :: "string \<Rightarrow> nat \<Rightarrow> nat" where
  "boundary_below s i =
     (if is_char_boundary s i then i else if i = 0 then 0 else boundary_below s (i - 1))"

declare boundary_below.simps [simp del]

definition preview :: "string \<Rightarrow> string" where
  "preview out =
     (if length out \<le> OUTPUT_PREVIEW_CHARS then out
      else take (boundary_below out OUTPUT_PREVIEW_CHARS) out @ [CHR 0xE2, CHR 0x80, CHR 0xA6])"

section \<open>Lemmas\<close>

text \<open>The counters of a summary are the numbers of children with each status.\<close>

lemma fold_count_child:
  "sum_pending (fold (\<lambda>c. count_child (child_status c)) cs s) =
     sum_pending s + length (filter (\<lambda>c. child_pending (child_status c)) cs)"
  "sum_cancelled (fold (\<lambda>c. count_child (child_status c)) cs s) =
     sum_cancelled s + length (filter (\<lambda>c. child_status c = ChildCancelled) cs)"
  "sum_completed (fold (\<lambda>c. count_child (child_status c)) cs s) =
     sum_completed s + length (filter (\<lambda>c. child_status c = ChildCompleted) cs)"
proof (induction cs arbitrary: s)
  case (Cons c cs)
  {
    case 1 show ?case using Cons(1) by (cases "child_status c") simp_all
  next
    case 2 show ?case using Cons(2) by (cases "child_status c") simp_all
  next
    case 3 show ?case using Cons(3) by (cases "child_status c") simp_all
  }
qed simp_all

lemma summary_counts:
  "sum_pending (summary r) = length (filter (\<lambda>c. child_pending (child_status c)) (swarm_children r))"
  "sum_cancelled (summary r) = length (filter (\<lambda>c. child_status c = ChildCancelled) (swarm_children r))"
  "sum_completed (summary r) = length (filter (\<lambda>c. child_status c = ChildCompleted) (swarm_children r))"
  by (simp_all add: summary_def fold_count_child)

lemma length_filter_all: "length (filter P xs) = length xs \<longleftrightarrow> (\<forall>x \<in> set xs. P x)"
  by (metis filter_id_conv length_filter_less less_irrefl)

text \<open>The status of a swarm run as a function of the statuses of its children.\<close>

definition swarm_status_of :: "child_status set \<Rightarrow> swarm_run_status" where
  "swarm_status_of S =
     (if \<exists>st \<in> S. child_pending st then SwarmRunning
      else if S \<subseteq> {ChildCancelled} then SwarmCancelled
      else if S \<subseteq> {ChildCompleted} then SwarmCompleted
      else if ChildCompleted \<notin> S then SwarmFailed
      else SwarmPartialFailed)"

lemma finalize_status_eq:
  "finalize_status r = swarm_status_of (child_status ` set (swarm_children r))"
  by (auto simp: finalize_status_def Let_def summary_counts length_filter_all swarm_status_of_def
      filter_empty_conv image_iff)

lemma update_child_cases:
  assumes "update_child now rid i f s = (Some r, t)"
  obtains r0 where "swarm_runs s rid = Some r0" and "i < length (swarm_children r0)"
    and "swarm_children r = (swarm_children r0)[i := f (swarm_children r0 ! i)]"
    and "swarm_status r = swarm_status_of (child_status ` set (swarm_children r))"
    and "swarm_status r \<noteq> SwarmRunning \<Longrightarrow> swarm_completed_at r = Some now"
    and "t = s\<lparr>swarm_runs := (swarm_runs s)(rid \<mapsto> r)\<rparr>"
proof -
  from assms obtain r0 where r0: "swarm_runs s rid = Some r0" and i: "i < length (swarm_children r0)"
    by (auto simp: update_child_def split: option.splits if_splits)
  let ?cs = "(swarm_children r0)[i := f (swarm_children r0 ! i)]"
  from assms r0 i have "swarm_children r = ?cs"
    "swarm_status r = swarm_status_of (child_status ` set ?cs)"
    "swarm_status r \<noteq> SwarmRunning \<Longrightarrow> swarm_completed_at r = Some now"
    "t = s\<lparr>swarm_runs := (swarm_runs s)(rid \<mapsto> r)\<rparr>"
    by (auto simp: update_child_def Let_def finalize_status_eq swarm_status_of_def split: if_splits)
  with r0 i that show thesis by simp
qed

lemma boundary_below_spec:
  "is_char_boundary s (boundary_below s i) \<and> boundary_below s i \<le> i \<and>
   (\<forall>j. boundary_below s i < j \<and> j \<le> i \<longrightarrow> \<not> is_char_boundary s j)"
proof (induction s i rule: boundary_below.induct)
  case (1 s i)
  show ?case
  proof (cases "is_char_boundary s i \<or> i = 0")
    case True
    then show ?thesis by (auto simp: boundary_below.simps [of s i] is_char_boundary_def)
  next
    case False
    then have eq: "boundary_below s i = boundary_below s (i - 1)"
      by (simp add: boundary_below.simps [of s i])
    have IH: "is_char_boundary s (boundary_below s (i - 1))" "boundary_below s (i - 1) \<le> i - 1"
      "\<And>j. boundary_below s (i - 1) < j \<Longrightarrow> j \<le> i - 1 \<Longrightarrow> \<not> is_char_boundary s j"
      using 1 False by blast+
    have "\<not> is_char_boundary s j" if "boundary_below s (i - 1) < j" "j \<le> i" for j
    proof (cases "j = i")
      case jneq: False
      with that have "j \<le> i - 1" by linarith
      then show ?thesis using IH(3) that(1) by blast
    qed (use False in blast)
    with IH(1,2) show ?thesis unfolding eq by (meson diff_le_self le_trans)
  qed
qed

text \<open>In UTF-8 at most three continuation bytes follow each other.\<close>

definition utf8_spaced :: "string \<Rightarrow> bool" where
  "utf8_spaced s \<longleftrightarrow>
     (\<forall>i. i + 3 < length s \<longrightarrow> (\<exists>j \<in> {i..i + 3}. is_char_boundary s j))"

lemma interrupted_not_pending: "\<not> child_pending (child_status (interrupt_child c))"
  by (simp add: interrupt_child_def)

lemma interrupt_run_settled: "swarm_status (interrupt_run now r) \<notin> {SwarmQueued, SwarmRunning}"
  by (auto simp: interrupt_run_def Let_def finalize_status_eq swarm_status_of_def
      interrupted_not_pending image_image)

lemma load_runs_runs:
  "swarm_runs (load_runs now rs s) = upd_all swarm_run_id (map (interrupt_run now) rs) (swarm_runs s)"
  by (induction rs arbitrary: s) (simp_all add: Let_def)

lemma upd_all_source: "upd_all key xs m k = Some v \<Longrightarrow> v \<in> set xs \<or> m k = Some v"
proof (induction xs arbitrary: m)
  case (Cons x xs)
  have "upd_all key xs (m(key x \<mapsto> x)) k = Some v" using Cons.prems by simp
  from Cons.IH [OF this] show ?case by (auto split: if_splits)
qed simp

lemma new_children:
  defines "cs \<equiv> \<lambda>rid goals. map (\<lambda>(i, g). new_child rid i g) (List.enumerate 0 goals)"
  shows "map child_goal (cs rid goals) = goals" "map child_index (cs rid goals) = [0..<length goals]"
    "\<forall>c \<in> set (cs rid goals). child_status c = ChildQueued"
    "distinct (map child_thread_id (cs rid goals))" "length (cs rid goals) = length goals"
proof -
  have "map child_thread_id (cs rid goals) =
      map (\<lambda>i. ''swarm:'' @ rid @ '':'' @ decimal i) [0..<length goals]"
    unfolding cs_def by (rule nth_equalityI) (simp_all add: new_child_def nth_enumerate_eq)
  then show "distinct (map child_thread_id (cs rid goals))"
    by (simp add: distinct_map inj_on_def decimal_inj)
qed (auto simp: cs_def new_child_def comp_def split_def)

section \<open>Properties\<close>

definition sample_config :: swarm_config where
  "sample_config = \<lparr>swarm_enabled = True, swarm_max_children_per_run = 3, swarm_max_concurrent_children = 0\<rparr>"

definition sample_launch :: launch_input where
  "sample_launch =
     \<lparr>launch_goals = [''one'', '' '', ''two''], launch_provider = ''p'', launch_model = ''m'',
      launch_requested_by = ''u''\<rparr>"

text \<open>
  A launched run respects its bounds: swarm is enabled, there is at least one child and at most
  the configured number (8 when it is zero), the children are the trimmed non-empty goals in their
  order with their positions as indexes, all queued, each with a thread id of its own; and the run
  is stored and listed last.
\<close>

theorem launch_bounded:
  assumes "launch now hex tenant inp s = (Inr r, t)"
  shows "swarm_enabled (swarm_config s) \<and>
     map child_goal (swarm_children r) = filter (\<lambda>g. g \<noteq> []) (map trim (launch_goals inp)) \<and>
     0 < length (swarm_children r) \<and> length (swarm_children r) \<le> max_children (swarm_config s) \<and>
     map child_index (swarm_children r) = [0..<length (swarm_children r)] \<and>
     (\<forall>c \<in> set (swarm_children r). child_status c = ChildQueued) \<and>
     distinct (map child_thread_id (swarm_children r)) \<and>
     swarm_runs t = (swarm_runs s)(swarm_run_id r \<mapsto> r) \<and>
     swarm_order t = swarm_order s @ [swarm_run_id r]"
proof -
  define goals where "goals = filter (\<lambda>g. g \<noteq> []) (map trim (launch_goals inp))"
  from assms have r: "swarm_children r = map (\<lambda>(i, g). new_child (''swm_'' @ hex) i g) (List.enumerate 0 goals)"
    and rest: "swarm_enabled (swarm_config s)" "goals \<noteq> []" "length goals \<le> max_children (swarm_config s)"
      "swarm_runs t = (swarm_runs s)(swarm_run_id r \<mapsto> r)" "swarm_order t = swarm_order s @ [swarm_run_id r]"
    by (auto simp: launch_def Let_def goals_def split: if_splits)
  show ?thesis
    unfolding r new_children goals_def [symmetric]
    using rest new_children(3,4) [of "''swm_'' @ hex" goals] by blast
qed

theorem launch_bounded_witness:
  "\<exists>r t. launch 1 ''ff'' ''t'' sample_launch (swarm_new sample_config) = (Inr r, t) \<and>
     map child_goal (swarm_children r) = [''one'', ''two''] \<and> distinct (map child_thread_id (swarm_children r))"
proof -
  let ?op = "launch 1 ''ff'' ''t'' sample_launch (swarm_new sample_config)"
  have "case fst ?op of Inl _ \<Rightarrow> False | Inr _ \<Rightarrow> True" by code_simp
  then obtain r where op: "?op = (Inr r, snd ?op)" by (cases ?op) (auto split: sum.splits)
  moreover have "filter (\<lambda>g. g \<noteq> []) (map trim (launch_goals sample_launch)) = [''one'', ''two'']"
    by code_simp
  ultimately show ?thesis using launch_bounded [OF op] by metis
qed

text \<open>
  Updating a child recomputes the run's status from the statuses of all children: running while
  one is queued or running; otherwise cancelled or completed when all are, failed when none
  completed, and partially failed in the remaining cases; a finished run gets its completion time.
  Only that child and that run change.
\<close>

theorem update_child_status:
  assumes "update_child now rid i f s = (Some r, t)"
  shows "swarm_status r = swarm_status_of (child_status ` set (swarm_children r)) \<and>
     (swarm_status r \<noteq> SwarmRunning \<longrightarrow> swarm_completed_at r = Some now) \<and>
     (\<exists>r0. swarm_runs s rid = Some r0 \<and> i < length (swarm_children r0) \<and>
        swarm_children r = (swarm_children r0)[i := f (swarm_children r0 ! i)]) \<and>
     t = s\<lparr>swarm_runs := (swarm_runs s)(rid \<mapsto> r)\<rparr>"
  using assms by (elim update_child_cases) auto

definition sample_swarm :: swarm_manager where
  "sample_swarm = snd (launch 1 ''ff'' ''t'' sample_launch (swarm_new sample_config))"

theorem update_child_status_witness:
  "\<exists>r. fst (update_child 2 ''swm_ff'' 1 (\<lambda>c. c\<lparr>child_status := ChildFailed\<rparr>) sample_swarm) = Some r \<and>
     swarm_status r = SwarmRunning"
proof -
  let ?op = "update_child 2 ''swm_ff'' 1 (\<lambda>c. c\<lparr>child_status := ChildFailed\<rparr>) sample_swarm"
  have st: "map_option (\<lambda>r. map child_status (swarm_children r)) (fst ?op) =
      Some [ChildQueued, ChildFailed]" by code_simp
  then obtain r where op: "?op = (Some r, snd ?op)" and cs: "map child_status (swarm_children r) = [ChildQueued, ChildFailed]"
    by (cases ?op) auto
  from cs have "child_status ` set (swarm_children r) = {ChildQueued, ChildFailed}"
    by (metis empty_set list.simps(15) set_map)
  with update_child_status [OF op] op show ?thesis
    by (metis fst_conv child_pending.simps(1) insertI1 swarm_status_of_def)
qed

text \<open>
  After a restart no run is reported as queued or running: every restored run that was still in
  flight has its unfinished children cancelled and a final status, and a run that had ended is
  restored unchanged.
\<close>

theorem restore_settles_runs:
  assumes "swarm_runs (restore_runs now rs s) rid = Some r"
  shows "swarm_status r \<notin> {SwarmQueued, SwarmRunning} \<and>
     (\<exists>r0 \<in> set rs. r = interrupt_run now r0 \<and>
        (swarm_status r0 \<notin> {SwarmQueued, SwarmRunning} \<longrightarrow> r = r0) \<and>
        (swarm_status r0 \<in> {SwarmQueued, SwarmRunning} \<longrightarrow>
           (\<forall>c \<in> set (swarm_children r). \<not> child_pending (child_status c))))"
proof -
  from assms have "r \<in> set (map (interrupt_run now) rs)"
    by (auto simp: restore_runs_def load_runs_runs dest!: upd_all_source)
  then obtain r0 where "r0 \<in> set rs" and "r = interrupt_run now r0" by auto
  then show ?thesis
    using interrupt_run_settled [of now r0]
    by (auto simp: interrupt_run_def Let_def interrupted_not_pending intro!: bexI [of _ r0])
qed

theorem restore_settles_runs_witness:
  "let t = restore_runs 9 [the (swarm_runs sample_swarm ''swm_ff'')] sample_swarm
   in swarm_status (the (swarm_runs t ''swm_ff'')) \<notin> {SwarmQueued, SwarmRunning}"
proof -
  let ?t = "restore_runs 9 [the (swarm_runs sample_swarm ''swm_ff'')] sample_swarm"
  have "swarm_runs ?t ''swm_ff'' \<noteq> None" by code_simp
  then obtain r where "swarm_runs ?t ''swm_ff'' = Some r" by auto
  with restore_settles_runs [OF this] show ?thesis by (simp only: Let_def option.sel not_False_eq_True)
qed

text \<open>
  A preview is the output itself when it has at most 2000 bytes, and otherwise an ellipsis
  after a prefix that ends on a character boundary and, in UTF-8, keeps at least 1997 of the 2000
  bytes; the search for the boundary always ends.
\<close>

theorem preview_cuts_at_boundary:
  assumes "utf8_spaced out"
  shows "preview out = out \<and> length out \<le> 2000 \<or>
     (\<exists>n. 1997 \<le> n \<and> n \<le> 2000 \<and> n \<le> length out \<and> is_char_boundary out n \<and>
        preview out = take n out @ [CHR 0xE2, CHR 0x80, CHR 0xA6])"
proof (cases "length out \<le> 2000")
  case False
  define n where "n = boundary_below out 2000"
  have n: "is_char_boundary out n" "n \<le> 2000" "\<And>j. n < j \<Longrightarrow> j \<le> 2000 \<Longrightarrow> \<not> is_char_boundary out j"
    using boundary_below_spec [of out 2000] by (auto simp: n_def)
  have "1997 + 3 < length out" using False by simp
  then obtain j where "j \<in> {1997..1997 + 3}" and "is_char_boundary out j"
    using assms unfolding utf8_spaced_def by blast
  then have "1997 \<le> n" using n(3) [of j] by fastforce
  with n False show ?thesis
    by (auto simp: preview_def OUTPUT_PREVIEW_CHARS_def n_def)
qed (simp add: preview_def OUTPUT_PREVIEW_CHARS_def)

theorem preview_cuts_at_boundary_witness:
  "\<exists>n. 1997 \<le> n \<and> n \<le> 2000 \<and>
     preview (replicate 2500 CHR ''a'') = take n (replicate 2500 CHR ''a'') @ [CHR 0xE2, CHR 0x80, CHR 0xA6]"
proof -
  have "utf8_spaced (replicate 2500 CHR ''a'')"
    unfolding utf8_spaced_def by (auto simp: is_char_boundary_def intro!: bexI)
  with preview_cuts_at_boundary [of "replicate 2500 CHR ''a''"] show ?thesis by auto
qed

end
