(* ===== verification/Identity_Types.thy ===== *)
theory Identity_Types
  imports Shared_Types
begin

text \<open>
  The tenant and permission model, crates/iam/identity/src/types.rs and permissions.rs: tenants,
  principals, memberships, invitations, token grants and audit events, the role grants and the
  evaluation of a permission in a resolved tenant context.
\<close>

section \<open>Vocabularies\<close>

datatype tenant_kind = Personal | Organization

datatype lifecycle_status =
  LifeInvited | LifePending | LifeActive | LifeDisabled | LifeRemoved | LifeRejected | LifeRevoked
  | LifeExpired | LifeAccepted | LifeRotated

fun lifecycle_label :: "lifecycle_status \<Rightarrow> string" where
  "lifecycle_label LifeInvited = ''invited''"
| "lifecycle_label LifePending = ''pending''"
| "lifecycle_label LifeActive = ''active''"
| "lifecycle_label LifeDisabled = ''disabled''"
| "lifecycle_label LifeRemoved = ''removed''"
| "lifecycle_label LifeRejected = ''rejected''"
| "lifecycle_label LifeRevoked = ''revoked''"
| "lifecycle_label LifeExpired = ''expired''"
| "lifecycle_label LifeAccepted = ''accepted''"
| "lifecycle_label LifeRotated = ''rotated''"

datatype principal_kind = LocalOperator | User | ServiceClient

datatype role = Owner | Admin | Operator | Viewer

text \<open>The wire name of a role, as serde writes it.\<close>

fun role_as_str :: "role \<Rightarrow> string" where
  "role_as_str Owner = ''owner''"
| "role_as_str Admin = ''admin''"
| "role_as_str Operator = ''operator''"
| "role_as_str Viewer = ''viewer''"

datatype permission =
  TenantManage | SecretsManage | CredentialsInspect | IntegrationsManage
  | IntegrationDiagnosticsRead | IntegrationDiagnosticsRun | IntegrationDiagnosticsSmoke
  | IntegrationDiagnosticsSmokeRisky | ConnectorsManage | McpManage | RunsExecute
  | ApprovalsResolve | LiveValidationExecute | LiveValidationReconcile | EvaluationManage
  | EvaluationDiscoveryRead | EvaluationDiscoveryRun | EvaluationDiscoverySuppress
  | EvaluationFixtureRead | EvaluationFixtureManage | EvaluationFixtureReview
  | EvaluationFixtureSuppress | EvaluationCampaignRead | EvaluationCampaignManage
  | EvaluationDashboardRead | EvaluationInspectionRead | EvaluationRetentionManage
  | BillingView | BillingManage | BillingEvidenceExport | ProfilesInspect | ProfilesManage
  | BindingsInspect | BindingsManage | ReadOnlyInspect

definition ALL_SENSITIVE_PERMISSIONS :: "permission list" where
  "ALL_SENSITIVE_PERMISSIONS =
     [TenantManage, SecretsManage, CredentialsInspect, IntegrationsManage,
      IntegrationDiagnosticsRead, IntegrationDiagnosticsRun, IntegrationDiagnosticsSmoke,
      IntegrationDiagnosticsSmokeRisky, ConnectorsManage, McpManage, RunsExecute,
      ApprovalsResolve, LiveValidationExecute, LiveValidationReconcile, EvaluationManage,
      EvaluationDiscoveryRead, EvaluationDiscoveryRun, EvaluationDiscoverySuppress,
      EvaluationFixtureRead, EvaluationFixtureManage, EvaluationFixtureReview,
      EvaluationFixtureSuppress, EvaluationCampaignRead, EvaluationCampaignManage,
      EvaluationDashboardRead, EvaluationInspectionRead, EvaluationRetentionManage,
      BillingView, BillingManage, BillingEvidenceExport, ProfilesInspect, ProfilesManage,
      BindingsInspect, BindingsManage]"

datatype identity_error =
  TenantAccessDenied | PermissionDenied | AuditWriteFailed | OwnerInvariant | InvitationInvalid
  | PrincipalInvalid | TokenGrantInvalid | TenantInvalid | MembershipInvalid | UnsupportedRole
  | UnsupportedStatus | UnsupportedTenant | TenantContextRequired | ProvisioningSubjectInvalid
  | ProvisioningIdentityInactive | StoreError

section \<open>Records\<close>

record tenant =
  ten_id :: string
  ten_kind :: tenant_kind
  ten_display_name :: string
  ten_status :: lifecycle_status
  ten_created_at :: timestamp
  ten_updated_at :: timestamp
  ten_created_by_principal_id :: string
  ten_default_owner_principal_id :: string
  ten_caller_membership_role :: "role option"
  ten_caller_membership_status :: "lifecycle_status option"
  ten_caller_permissions :: "permission list"
  ten_default_for_current_token :: bool
  ten_default_for_current_principal :: bool

record principal =
  prn_id :: string
  prn_kind :: principal_kind
  prn_display_name :: string
  prn_status :: lifecycle_status
  prn_default_tenant_id :: string
  prn_created_at :: timestamp
  prn_updated_at :: timestamp
  prn_disabled_at :: "timestamp option"
  prn_removed_at :: "timestamp option"

record membership =
  mem_id :: string
  mem_tenant_id :: string
  mem_principal_id :: string
  mem_role :: role
  mem_status :: lifecycle_status
  mem_invitation_id :: string
  mem_created_at :: timestamp
  mem_updated_at :: timestamp
  mem_accepted_at :: "timestamp option"
  mem_removed_at :: "timestamp option"

record tenant_invitation =
  inv_id :: string
  inv_tenant_id :: string
  inv_invited_principal_id :: string
  inv_invited_by_principal_id :: string
  inv_role :: role
  inv_status :: lifecycle_status
  inv_created_at :: timestamp
  inv_updated_at :: timestamp
  inv_expires_at :: "timestamp option"
  inv_decided_at :: "timestamp option"

record token_tenant_grant =
  grant_id :: string
  grant_token_id :: string
  grant_tenant_id :: string
  grant_is_default :: bool
  grant_status :: lifecycle_status
  grant_created_at :: timestamp
  grant_updated_at :: timestamp
  grant_revoked_at :: "timestamp option"
  grant_granted_by_principal_id :: string

record tenant_context =
  ctx_principal_id :: string
  ctx_token_id :: string
  ctx_tenant_id :: string
  ctx_tenant_source :: string
  ctx_membership_id :: string
  ctx_role :: "role option"
  ctx_permissions :: "permission list"
  ctx_resolved_at :: timestamp

record permission_evaluation =
  eval_permission :: permission
  eval_allowed :: bool
  eval_reason_code :: string

record tenant_audit_event =
  aud_id :: string
  aud_event_kind :: string
  aud_tenant_id :: string
  aud_principal_id :: string
  aud_target_principal_id :: string
  aud_token_id :: string
  aud_outcome :: string
  aud_reason_code :: string
  aud_created_at :: timestamp
  aud_document :: "json_map option"

text \<open>\<open>TenantAuditEvent::default()\<close>; the Unix epoch is instant 0.\<close>

definition audit_event_default :: tenant_audit_event where
  "audit_event_default =
     \<lparr>aud_id = [], aud_event_kind = [], aud_tenant_id = [], aud_principal_id = [],
      aud_target_principal_id = [], aud_token_id = [], aud_outcome = [], aud_reason_code = [],
      aud_created_at = 0, aud_document = None\<rparr>"

record membership_filter =
  mf_tenant_id :: string
  mf_status :: "lifecycle_status option"
  mf_role :: "role option"
  mf_limit :: nat

record invitation_filter =
  if_tenant_id :: string
  if_principal_id :: string
  if_status :: "lifecycle_status option"
  if_limit :: nat

record principal_filter =
  pf_tenant_id :: string
  pf_status :: "lifecycle_status option"
  pf_limit :: nat

section \<open>Permissions\<close>

fun permissions_for_role :: "role \<Rightarrow> lifecycle_status \<Rightarrow> permission list" where
  "permissions_for_role r lifecycle =
     (if lifecycle \<noteq> LifeActive then []
      else case r of
        Owner \<Rightarrow> ALL_SENSITIVE_PERMISSIONS
      | Admin \<Rightarrow>
          [TenantManage, SecretsManage, CredentialsInspect, IntegrationsManage,
           IntegrationDiagnosticsRead, IntegrationDiagnosticsRun, IntegrationDiagnosticsSmoke,
           IntegrationDiagnosticsSmokeRisky, ConnectorsManage, McpManage,
           LiveValidationReconcile, EvaluationManage, EvaluationDiscoveryRead,
           EvaluationDiscoveryRun, EvaluationDiscoverySuppress, EvaluationFixtureRead,
           EvaluationFixtureManage, EvaluationFixtureReview, EvaluationFixtureSuppress,
           EvaluationCampaignRead, EvaluationCampaignManage, EvaluationDashboardRead,
           EvaluationInspectionRead, EvaluationRetentionManage, BillingView, BillingManage,
           ProfilesInspect, ProfilesManage, BindingsInspect, BindingsManage]
      | Operator \<Rightarrow>
          [RunsExecute, ApprovalsResolve, LiveValidationExecute, IntegrationDiagnosticsRead,
           IntegrationDiagnosticsRun, IntegrationDiagnosticsSmoke, EvaluationDiscoveryRead,
           EvaluationDiscoveryRun, EvaluationDiscoverySuppress, EvaluationFixtureRead,
           EvaluationFixtureSuppress, EvaluationCampaignRead, EvaluationCampaignManage,
           EvaluationDashboardRead, EvaluationInspectionRead]
      | Viewer \<Rightarrow>
          [ReadOnlyInspect, EvaluationCampaignRead, EvaluationDashboardRead,
           EvaluationInspectionRead])"

definition has_permission :: "permission list \<Rightarrow> permission \<Rightarrow> bool" where
  "has_permission perms p \<longleftrightarrow> p \<in> set perms"

definition can :: "role \<Rightarrow> lifecycle_status \<Rightarrow> permission \<Rightarrow> bool" where
  "can r lifecycle p \<longleftrightarrow> has_permission (permissions_for_role r lifecycle) p"

definition can_inspect_credentials :: "tenant_context \<Rightarrow> permission list \<Rightarrow> bool" where
  "can_inspect_credentials ctx manage \<longleftrightarrow>
     (if ctx_principal_id ctx = [] \<or> ctx_tenant_id ctx = [] then False
      else if has_permission (ctx_permissions ctx) CredentialsInspect then True
      else list_ex (has_permission (ctx_permissions ctx)) manage)"

definition can_resolve_live_validation_reconciliation :: "tenant_context \<Rightarrow> bool" where
  "can_resolve_live_validation_reconciliation ctx \<longleftrightarrow>
     (if ctx_principal_id ctx = [] \<or> ctx_tenant_id ctx = [] then False
      else if ctx_role ctx = Some Owner \<or> ctx_role ctx = Some Admin then True
      else has_permission (ctx_permissions ctx) LiveValidationReconcile)"

definition evaluate_permission :: "tenant_context \<Rightarrow> permission \<Rightarrow> permission_evaluation" where
  "evaluate_permission ctx p =
     (if ctx_principal_id ctx = [] \<or> ctx_tenant_id ctx = []
      then \<lparr>eval_permission = p, eval_allowed = False, eval_reason_code = ''tenant_context_missing''\<rparr>
      else if \<not> has_permission (ctx_permissions ctx) p
      then \<lparr>eval_permission = p, eval_allowed = False, eval_reason_code = ''permission_missing''\<rparr>
      else \<lparr>eval_permission = p, eval_allowed = True, eval_reason_code = []\<rparr>)"

definition require_permission :: "tenant_context \<Rightarrow> permission \<Rightarrow> identity_error + unit" where
  "require_permission ctx p =
     (if \<not> eval_allowed (evaluate_permission ctx p) then Inl PermissionDenied else Inr ())"

lemma require_permission_iff:
  "require_permission ctx p = Inr () \<longleftrightarrow>
     ctx_principal_id ctx \<noteq> [] \<and> ctx_tenant_id ctx \<noteq> [] \<and> p \<in> set (ctx_permissions ctx)"
  by (simp add: require_permission_def evaluate_permission_def has_permission_def)

end
