(* ===== verification/Auth.thy ===== *)
theory Auth
  imports Shared_Types
begin

text \<open>
  Pairing and access tokens, crates/iam/identity/src/auth.rs: the state behind the manager's lock
  and every operation on it. The hash of secrets (SHA-256, hexadecimal) is a parameter, as are the
  clock, the random identifiers and codes, and the addition of seconds to an instant, which panics
  out of chrono's range: \<open>None\<close>.
\<close>

section \<open>Data\<close>

datatype pairing_mode = PairLocal | PairToken

datatype pairing_status = PairPending | PairCompleted | PairExpired

datatype token_status = TokenActive | TokenRevoked | TokenExpired | TokenRotated

datatype auth_error =
  PairingModeInvalid | PairingNotFound | PairingCodeInvalid | PairingNotPending | TokenInvalid
  | AccessTokenNotFound | AuthRequired | ErrTokenRevoked | ErrTokenExpired | ErrTokenRotated

record pairing =
  pair_id :: string
  pair_mode :: pairing_mode
  pair_label :: string
  pair_status :: pairing_status
  pair_code_hash :: string
  pair_code_preview :: string
  pair_created_at :: timestamp
  pair_updated_at :: timestamp
  pair_expires_at :: timestamp
  pair_completed_at :: "timestamp option"

record access_token =
  tok_id :: string
  tok_principal_id :: string
  tok_label :: string
  tok_mode :: pairing_mode
  tok_hash :: string
  tok_preview :: string
  tok_status :: token_status
  tok_default_tenant_id :: string
  tok_created_at :: timestamp
  tok_updated_at :: timestamp
  tok_last_used_at :: "timestamp option"
  tok_expires_at :: "timestamp option"
  tok_revoked_at :: "timestamp option"
  tok_rotated_from_token_id :: string
  tok_rotated_to_token_id :: string

record start_pairing_input =
  spi_mode :: "pairing_mode option"
  spi_label :: string
  spi_ttl_seconds :: i64

record complete_pairing_input =
  cpi_code :: string

record issue_token_input =
  iti_principal_id :: string
  iti_label :: string
  iti_default_tenant_id :: string
  iti_expires_at :: "timestamp option"

record rotate_token_input =
  rti_expires_at :: "timestamp option"
  rti_reason :: string

record authenticated =
  auth_token :: access_token
  auth_touched :: bool

record refused =
  ref_error :: auth_error
  ref_expired :: "access_token option"

record pairing_identity =
  pid_principal_id :: string
  pid_default_tenant_id :: string

record auth_state =
  pairings :: "string \<rightharpoonup> pairing"
  pairing_ids :: "string list"
  tokens :: "string \<rightharpoonup> access_token"
  token_ids :: "string list"
  by_hash :: "string \<rightharpoonup> string"

definition auth_new :: auth_state where
  "auth_new =
     \<lparr>pairings = Map.empty, pairing_ids = [], tokens = Map.empty, token_ids = [], by_hash = Map.empty\<rparr>"

text \<open>Sixty seconds, in nanoseconds.\<close>

definition LAST_USED_RESOLUTION :: int where
  "LAST_USED_RESOLUTION = 60 * 10 ^ 9"

section \<open>The token map and its hash index\<close>

definition put_token :: "access_token \<Rightarrow> auth_state \<Rightarrow> auth_state" where
  "put_token tok s =
     (let s1 = (case tokens s (tok_id tok) of
                  Some prev \<Rightarrow>
                    if tok_hash prev \<noteq> tok_hash tok then
                      (if by_hash s (tok_hash prev) = Some (tok_id tok)
                       then s\<lparr>by_hash := (by_hash s)(tok_hash prev := None)\<rparr> else s)
                    else s
                | None \<Rightarrow> s\<lparr>token_ids := token_ids s @ [tok_id tok]\<rparr>);
          s2 = (if tok_hash tok \<noteq> []
                then s1\<lparr>by_hash := (by_hash s1)(tok_hash tok \<mapsto> tok_id tok)\<rparr> else s1)
      in s2\<lparr>tokens := (tokens s2)(tok_id tok \<mapsto> tok)\<rparr>)"

definition token_by_hash :: "auth_state \<Rightarrow> string \<Rightarrow> access_token option" where
  "token_by_hash s h = Option.bind (by_hash s h) (tokens s)"

section \<open>Operations\<close>

definition start_pairing ::
  "(string \<Rightarrow> string) \<Rightarrow> (timestamp \<Rightarrow> int \<Rightarrow> timestamp option) \<Rightarrow> timestamp \<Rightarrow> string \<Rightarrow> string \<Rightarrow>
   start_pairing_input \<Rightarrow> auth_state \<Rightarrow> (pairing \<times> string) option \<times> auth_state"
where
  "start_pairing hash_secret add_seconds now code hex inp s =
     (let mode = (case spi_mode inp of None \<Rightarrow> PairLocal | Some m \<Rightarrow> m);
          ttl = (if sint (spi_ttl_seconds inp) \<le> 0 then 600 else sint (spi_ttl_seconds inp))
      in case add_seconds now ttl of
           None \<Rightarrow> (None, s)
         | Some expires \<Rightarrow>
             let p = \<lparr>pair_id = ''pair_'' @ hex, pair_mode = mode, pair_label = spi_label inp,
                      pair_status = PairPending, pair_code_hash = hash_secret code,
                      pair_code_preview = code, pair_created_at = now, pair_updated_at = now,
                      pair_expires_at = expires, pair_completed_at = None\<rparr>
             in (Some (p, code),
                 s\<lparr>pairings := (pairings s)(pair_id p \<mapsto> p), pairing_ids := pairing_ids s @ [pair_id p]\<rparr>))"

text \<open>The record of a token that is issued now.\<close>

definition fresh_token ::
  "(string \<Rightarrow> string) \<Rightarrow> timestamp \<Rightarrow> string \<Rightarrow> string \<Rightarrow> string \<Rightarrow> string \<Rightarrow> pairing_mode \<Rightarrow> string \<Rightarrow>
   timestamp option \<Rightarrow> string \<Rightarrow> access_token"
where
  "fresh_token hash_secret now hex secret prn label mode tenant expires rotated_from =
     \<lparr>tok_id = ''tok_'' @ hex, tok_principal_id = prn, tok_label = label, tok_mode = mode,
      tok_hash = hash_secret secret, tok_preview = take 12 secret, tok_status = TokenActive,
      tok_default_tenant_id = tenant, tok_created_at = now, tok_updated_at = now,
      tok_last_used_at = None, tok_expires_at = expires, tok_revoked_at = None,
      tok_rotated_from_token_id = rotated_from, tok_rotated_to_token_id = []\<rparr>"

definition complete_pairing ::
  "(string \<Rightarrow> string) \<Rightarrow> pairing_identity \<Rightarrow> timestamp \<Rightarrow> string \<Rightarrow> string \<Rightarrow> string \<Rightarrow>
   complete_pairing_input \<Rightarrow> (auth_state, auth_error, pairing \<times> access_token \<times> string) op"
where
  "complete_pairing hash_secret ident now hex secret_hex pid inp s =
     (case pairings s pid of
        None \<Rightarrow> (Inl PairingNotFound, s)
      | Some p \<Rightarrow>
          if pair_status p \<noteq> PairPending then (Inl PairingNotPending, s)
          else if now > pair_expires_at p then
            (Inl PairingNotPending,
             s\<lparr>pairings := (pairings s)(pid \<mapsto> p\<lparr>pair_status := PairExpired, pair_updated_at := now\<rparr>)\<rparr>)
          else if hash_secret (cpi_code inp) \<noteq> pair_code_hash p then (Inl PairingCodeInvalid, s)
          else
            let secret = ''kura_'' @ secret_hex;
                tok = fresh_token hash_secret now hex secret (pid_principal_id ident) (pair_label p)
                        (pair_mode p) (pid_default_tenant_id ident) None [];
                p' = p\<lparr>pair_status := PairCompleted, pair_updated_at := now,
                       pair_completed_at := Some now, pair_code_preview := []\<rparr>
            in (Inr (p', tok, secret), put_token tok (s\<lparr>pairings := (pairings s)(pid \<mapsto> p')\<rparr>)))"

definition issue_token ::
  "(string \<Rightarrow> string) \<Rightarrow> timestamp \<Rightarrow> string \<Rightarrow> string \<Rightarrow> issue_token_input \<Rightarrow>
   (auth_state, auth_error, access_token \<times> string) op"
where
  "issue_token hash_secret now hex secret_hex inp s =
     (if iti_principal_id inp = [] \<or> iti_default_tenant_id inp = [] then (Inl TokenInvalid, s)
      else let secret = ''kura_'' @ secret_hex;
               tok = fresh_token hash_secret now hex secret (iti_principal_id inp) (iti_label inp)
                       PairToken (iti_default_tenant_id inp) (iti_expires_at inp) []
           in (Inr (tok, secret), put_token tok s))"

definition revoke_token :: "timestamp \<Rightarrow> string \<Rightarrow> (auth_state, auth_error, access_token) op" where
  "revoke_token now tid s =
     (case tokens s tid of
        None \<Rightarrow> (Inl AccessTokenNotFound, s)
      | Some tok \<Rightarrow>
          (case tok_status tok of
             TokenRotated \<Rightarrow> (Inl ErrTokenRotated, s)
           | TokenExpired \<Rightarrow> (Inl ErrTokenExpired, s)
           | _ \<Rightarrow>
               let tok' = tok\<lparr>tok_status := TokenRevoked, tok_updated_at := now,
                              tok_revoked_at := Some now\<rparr>
               in (Inr tok', put_token tok' s)))"

definition overdue :: "access_token \<Rightarrow> timestamp \<Rightarrow> bool" where
  "overdue tok now \<longleftrightarrow> (case tok_expires_at tok of None \<Rightarrow> False | Some e \<Rightarrow> e \<le> now)"

definition rotate_token ::
  "(string \<Rightarrow> string) \<Rightarrow> timestamp \<Rightarrow> string \<Rightarrow> string \<Rightarrow> string \<Rightarrow> rotate_token_input \<Rightarrow>
   (auth_state, auth_error, access_token \<times> access_token \<times> string) op"
where
  "rotate_token hash_secret now hex secret_hex tid inp s =
     (case tokens s tid of
        None \<Rightarrow> (Inl AccessTokenNotFound, s)
      | Some old \<Rightarrow>
          (case tok_status old of
             TokenRevoked \<Rightarrow> (Inl ErrTokenRevoked, s)
           | TokenExpired \<Rightarrow> (Inl ErrTokenExpired, s)
           | TokenRotated \<Rightarrow> (Inl ErrTokenRotated, s)
           | TokenActive \<Rightarrow>
               if overdue old now then
                 (Inl ErrTokenExpired,
                  put_token (old\<lparr>tok_status := TokenExpired, tok_updated_at := now\<rparr>) s)
               else
                 let secret = ''kura_'' @ secret_hex;
                     repl = fresh_token hash_secret now hex secret (tok_principal_id old)
                              (tok_label old) (tok_mode old) (tok_default_tenant_id old)
                              (rti_expires_at inp) (tok_id old);
                     old' = old\<lparr>tok_status := TokenRotated, tok_updated_at := now,
                                tok_rotated_to_token_id := tok_id repl\<rparr>
                 in (Inr (old', repl, secret), put_token repl (put_token old' s))))"

fun usable :: "token_status \<Rightarrow> auth_error option" where
  "usable TokenActive = None"
| "usable TokenRevoked = Some ErrTokenRevoked"
| "usable TokenExpired = Some ErrTokenExpired"
| "usable TokenRotated = Some ErrTokenRotated"

definition recently_used :: "access_token \<Rightarrow> timestamp \<Rightarrow> bool" where
  "recently_used tok now \<longleftrightarrow>
     (case tok_last_used_at tok of None \<Rightarrow> False | Some t \<Rightarrow> now - t < LAST_USED_RESOLUTION)"

definition refuse :: "auth_error \<Rightarrow> refused" where
  "refuse e = \<lparr>ref_error = e, ref_expired = None\<rparr>"

text \<open>
  \<open>authenticate_outcome\<close> has two critical sections: one under the read lock, which answers unless
  the token is overdue or its use has to be recorded (\<open>None\<close>), and one under the write lock, which
  reads the token again because the state may have changed in between.
\<close>

definition authenticate_read ::
  "timestamp \<Rightarrow> string \<Rightarrow> auth_state \<Rightarrow> (refused + authenticated) option" where
  "authenticate_read now h s =
     (case token_by_hash s h of
        None \<Rightarrow> Some (Inl (refuse TokenInvalid))
      | Some tok \<Rightarrow>
          (case usable (tok_status tok) of
             Some e \<Rightarrow> Some (Inl (refuse e))
           | None \<Rightarrow>
               if \<not> overdue tok now \<and> recently_used tok now
               then Some (Inr \<lparr>auth_token = tok, auth_touched = False\<rparr>)
               else None))"

definition authenticate_write :: "timestamp \<Rightarrow> string \<Rightarrow> (auth_state, refused, authenticated) op" where
  "authenticate_write now h s =
     (case token_by_hash s h of
        None \<Rightarrow> (Inl (refuse TokenInvalid), s)
      | Some tok \<Rightarrow>
          (case usable (tok_status tok) of
             Some e \<Rightarrow> (Inl (refuse e), s)
           | None \<Rightarrow>
               if overdue tok now then
                 let tok' = tok\<lparr>tok_status := TokenExpired, tok_updated_at := now\<rparr>
                 in (Inl \<lparr>ref_error = ErrTokenExpired, ref_expired = Some tok'\<rparr>, put_token tok' s)
               else if recently_used tok now
               then (Inr \<lparr>auth_token = tok, auth_touched = False\<rparr>, s)
               else
                 let tok' = tok\<lparr>tok_last_used_at := Some now, tok_updated_at := now\<rparr>
                 in (Inr \<lparr>auth_token = tok', auth_touched = True\<rparr>, put_token tok' s)))"

definition authenticate_outcome ::
  "(string \<Rightarrow> string) \<Rightarrow> timestamp \<Rightarrow> string \<Rightarrow> (auth_state, refused, authenticated) op" where
  "authenticate_outcome hash_secret now secret s =
     (if secret = [] then (Inl (refuse AuthRequired), s)
      else case authenticate_read now (hash_secret secret) s of
             Some r \<Rightarrow> (r, s)
           | None \<Rightarrow> authenticate_write now (hash_secret secret) s)"

definition authenticate_touch ::
  "(string \<Rightarrow> string) \<Rightarrow> timestamp \<Rightarrow> string \<Rightarrow> (auth_state, auth_error, authenticated) op" where
  "authenticate_touch hash_secret now secret s =
     map_prod (map_sum ref_error id) id (authenticate_outcome hash_secret now secret s)"

definition authenticate ::
  "(string \<Rightarrow> string) \<Rightarrow> timestamp \<Rightarrow> string \<Rightarrow> (auth_state, auth_error, access_token) op" where
  "authenticate hash_secret now secret s =
     map_prod (map_sum id auth_token) id (authenticate_touch hash_secret now secret s)"

definition get_token :: "string \<Rightarrow> auth_state \<Rightarrow> access_token option" where
  "get_token tid s = tokens s tid"

definition update_token :: "access_token \<Rightarrow> auth_state \<Rightarrow> auth_state" where
  "update_token tok s = put_token tok s"

definition list_tokens :: "auth_state \<Rightarrow> access_token list" where
  "list_tokens s = List.map_filter (tokens s) (token_ids s)"

definition get_pairing :: "string \<Rightarrow> auth_state \<Rightarrow> pairing option" where
  "get_pairing pid s = pairings s pid"

definition restore_auth :: "pairing list \<Rightarrow> access_token list \<Rightarrow> auth_state \<Rightarrow> auth_state" where
  "restore_auth ps toks s =
     fold put_token toks
       (s\<lparr>pairings := map_of (rev (map (\<lambda>p. (pair_id p, p)) ps)), pairing_ids := map pair_id ps,
          tokens := Map.empty, token_ids := [], by_hash := Map.empty\<rparr>)"

section \<open>The invariant\<close>

text \<open>The hash index maps a hash to exactly the token that has it.\<close>

definition hashes_ok :: "auth_state \<Rightarrow> bool" where
  "hashes_ok s \<longleftrightarrow>
     (\<forall>h i. by_hash s h = Some i \<longleftrightarrow> h \<noteq> [] \<and> (\<exists>tok. tokens s i = Some tok \<and> tok_hash tok = h))"

definition auth_wf :: "auth_state \<Rightarrow> bool" where
  "auth_wf s \<longleftrightarrow> ids_ok (token_ids s) (tokens s) tok_id \<and> hashes_ok s"

interpretation tokens: ordered_registry token_ids tokens tok_id auth_wf
  by unfold_locales (simp add: auth_wf_def)

lemma auth_new_wf: "auth_wf auth_new"
  by (simp add: auth_wf_def hashes_ok_def auth_new_def)

lemma auth_wf_id: "auth_wf s \<Longrightarrow> tokens s i = Some tok \<Longrightarrow> tok_id tok = i"
  by (auto simp: auth_wf_def ids_ok_def)

lemma auth_wf_hash:
  "auth_wf s \<Longrightarrow> by_hash s h = Some i \<longleftrightarrow> h \<noteq> [] \<and> (\<exists>tok. tokens s i = Some tok \<and> tok_hash tok = h)"
  by (simp add: auth_wf_def hashes_ok_def)

lemma put_token_simps [simp]:
  "tokens (put_token tok s) = (tokens s)(tok_id tok \<mapsto> tok)"
  "pairings (put_token tok s) = pairings s"
  "pairing_ids (put_token tok s) = pairing_ids s"
  by (auto simp: put_token_def Let_def split: option.splits)

lemma token_ids_put_token:
  "token_ids (put_token tok s) =
     (case tokens s (tok_id tok) of None \<Rightarrow> token_ids s @ [tok_id tok] | Some _ \<Rightarrow> token_ids s)"
  by (auto simp: put_token_def Let_def split: option.splits)

lemma by_hash_put_token:
  assumes "auth_wf s"
  shows "by_hash (put_token tok s) h =
     (if h = tok_hash tok \<and> h \<noteq> [] then Some (tok_id tok)
      else if by_hash s h = Some (tok_id tok) \<and> h \<noteq> tok_hash tok then None
      else by_hash s h)"
proof (cases "tokens s (tok_id tok)")
  case None
  then have "by_hash s h \<noteq> Some (tok_id tok)" by (simp add: auth_wf_hash [OF assms])
  with None show ?thesis by (simp add: put_token_def Let_def)
next
  case (Some prev)
  then have "by_hash s k = Some (tok_id tok) \<longleftrightarrow> k \<noteq> [] \<and> k = tok_hash prev" for k
    by (auto simp: auth_wf_hash [OF assms])
  with Some show ?thesis by (auto simp: put_token_def Let_def)
qed

lemma put_token_wf:
  assumes "auth_wf s"
    and "\<And>i t. tokens s i = Some t \<Longrightarrow> tok_hash t = tok_hash tok \<Longrightarrow> tok_hash tok \<noteq> [] \<Longrightarrow> i = tok_id tok"
  shows "auth_wf (put_token tok s)"
proof -
  have "ids_ok (token_ids (put_token tok s)) (tokens (put_token tok s)) tok_id"
    using tokens.registry_ok [OF assms(1)]
    by (auto simp: token_ids_put_token intro: ids_ok_insert ids_ok_rewrite split: option.splits)
  moreover have "by_hash (put_token tok s) h = Some i \<longleftrightarrow>
      h \<noteq> [] \<and> (\<exists>t. tokens (put_token tok s) i = Some t \<and> tok_hash t = h)" for h i
  proof (cases "h = tok_hash tok")
    case True
    then show ?thesis
      using assms(2) [of i] auth_wf_hash [OF assms(1), of h i]
      by (auto simp: by_hash_put_token [OF assms(1)])
  next
    case False
    then show ?thesis
      using auth_wf_hash [OF assms(1), of h i] by (auto simp: by_hash_put_token [OF assms(1)])
  qed
  ultimately show ?thesis by (simp add: auth_wf_def hashes_ok_def)
qed

lemma put_same_hash_wf:
  assumes "auth_wf s" and "tokens s i = Some tok" and "tok_id tok' = tok_id tok"
    and "tok_hash tok' = tok_hash tok"
  shows "auth_wf (put_token tok' s)"
proof (rule put_token_wf [OF assms(1)])
  fix j t
  assume "tokens s j = Some t" "tok_hash t = tok_hash tok'" "tok_hash tok' \<noteq> []"
  then have "by_hash s (tok_hash tok) = Some j" and "by_hash s (tok_hash tok) = Some i"
    using assms by (auto simp: auth_wf_hash)
  then show "j = tok_id tok'" using assms auth_wf_id by auto
qed

lemma auth_wf_pairings [simp]:
  "auth_wf (s\<lparr>pairings := ps\<rparr>) \<longleftrightarrow> auth_wf s"
  "auth_wf (s\<lparr>pairings := ps, pairing_ids := ids\<rparr>) \<longleftrightarrow> auth_wf s"
  by (simp_all add: auth_wf_def hashes_ok_def)

text \<open>A secret that no token of the state has.\<close>

definition unused :: "(string \<Rightarrow> string) \<Rightarrow> string \<Rightarrow> string \<Rightarrow> auth_state \<Rightarrow> bool" where
  "unused hash_secret hex secret_hex s \<longleftrightarrow>
     tokens s (''tok_'' @ hex) = None \<and>
     (\<forall>i t. tokens s i = Some t \<longrightarrow> tok_hash t \<noteq> hash_secret (''kura_'' @ secret_hex))"

lemma fresh_token_simps [simp]:
  "tok_id (fresh_token h now hex secret prn label mode ten e from) = ''tok_'' @ hex"
  "tok_hash (fresh_token h now hex secret prn label mode ten e from) = h secret"
  "tok_status (fresh_token h now hex secret prn label mode ten e from) = TokenActive"
  by (simp_all add: fresh_token_def)

lemma issue_token_wf:
  "auth_wf s \<Longrightarrow> issue_token h now hex sec inp s = (res, t) \<Longrightarrow> unused h hex sec s \<Longrightarrow> auth_wf t"
  by (auto simp: issue_token_def Let_def unused_def split: if_splits intro!: put_token_wf)

lemma complete_pairing_wf:
  "auth_wf s \<Longrightarrow> complete_pairing h ident now hex sec pid inp s = (res, t) \<Longrightarrow> unused h hex sec s \<Longrightarrow>
   auth_wf t"
  by (auto simp: complete_pairing_def Let_def unused_def split: if_splits option.splits
      intro!: put_token_wf)

lemma revoke_token_wf: "auth_wf s \<Longrightarrow> revoke_token now tid s = (res, t) \<Longrightarrow> auth_wf t"
  by (auto simp: revoke_token_def Let_def split: option.splits token_status.splits
      intro!: put_same_hash_wf)

lemma rotate_token_wf:
  assumes "auth_wf s" and "rotate_token h now hex sec tid inp s = (res, t)" and "unused h hex sec s"
  shows "auth_wf t"
proof (cases "t = s")
  case False
  with assms(2) obtain old where old: "tokens s tid = Some old"
    by (auto simp: rotate_token_def split: option.splits)
  have same: "auth_wf (put_token old' s)" if "tok_id old' = tok_id old" "tok_hash old' = tok_hash old" for old'
    using put_same_hash_wf [OF assms(1) old that] .
  have both: "auth_wf (put_token repl (put_token old' s))"
    if "tok_id old' = tok_id old" "tok_hash old' = tok_hash old"
      "tok_hash repl = h (''kura_'' @ sec)" for old' repl
  proof (rule put_token_wf [OF same [OF that(1,2)]])
    fix i t
    assume "tokens (put_token old' s) i = Some t" "tok_hash t = tok_hash repl"
    then show "i = tok_id repl"
      using assms(3) old that by (auto simp: unused_def split: if_splits)
  qed
  from assms(2) old False show ?thesis
    by (auto simp: rotate_token_def Let_def same both split: token_status.splits if_splits)
qed (use assms in simp)

lemma token_by_hash_iff:
  assumes "auth_wf s"
  shows "token_by_hash s h = Some tok \<longleftrightarrow> h \<noteq> [] \<and> tokens s (tok_id tok) = Some tok \<and> tok_hash tok = h"
  using assms by (auto simp: token_by_hash_def bind_eq_Some_conv auth_wf_hash dest: auth_wf_id)

text \<open>The write section changes nothing, or the status or the time of use of one active token.\<close>

lemma authenticate_write_cases:
  assumes "auth_wf s" and "authenticate_write now h s = (res, t)"
  shows "t = s \<or> (\<exists>u u'. tokens s (tok_id u) = Some u \<and> tok_status u = TokenActive \<and>
     tok_id u' = tok_id u \<and> tok_hash u' = tok_hash u \<and> t = put_token u' s)"
proof (cases "token_by_hash s h")
  case (Some u)
  then have u: "tokens s (tok_id u) = Some u" using assms(1) by (simp add: token_by_hash_iff)
  show ?thesis
  proof (cases "tok_status u = TokenActive \<and> t \<noteq> s")
    case True
    define u' where "u' = (if overdue u now then u\<lparr>tok_status := TokenExpired, tok_updated_at := now\<rparr>
        else u\<lparr>tok_last_used_at := Some now, tok_updated_at := now\<rparr>)"
    have "t = put_token u' s"
      using True Some assms(2) by (auto simp: u'_def authenticate_write_def Let_def split: if_splits)
    moreover have "tok_id u' = tok_id u" "tok_hash u' = tok_hash u" by (simp_all add: u'_def)
    ultimately show ?thesis using u True by blast
  next
    case False
    with Some assms(2) show ?thesis
      by (cases "tok_status u") (auto simp: authenticate_write_def)
  qed
qed (use assms in \<open>simp add: authenticate_write_def\<close>)

lemma authenticate_write_wf:
  "auth_wf s \<Longrightarrow> authenticate_write now h s = (res, t) \<Longrightarrow> auth_wf t"
  using authenticate_write_cases put_same_hash_wf by metis

section \<open>The manager as a transition system\<close>

text \<open>
  The operations of the running daemon, the write section of an authentication included: it may run
  on any state that other operations left after the read section. \<open>update_token\<close> and \<open>restore\<close>,
  which load records from the store, are not among them.
\<close>

inductive auth_op :: "(string \<Rightarrow> string) \<Rightarrow> auth_state \<Rightarrow> auth_state \<Rightarrow> bool" for h where
  op_start: "start_pairing h add now code hex inp s = (res, t) \<Longrightarrow> pairings s (''pair_'' @ hex) = None \<Longrightarrow> auth_op h s t"
| op_complete:
    "complete_pairing h ident now hex sec pid cinp s = (res, t) \<Longrightarrow> unused h hex sec s \<Longrightarrow> auth_op h s t"
| op_issue: "issue_token h now hex sec iinp s = (res, t) \<Longrightarrow> unused h hex sec s \<Longrightarrow> auth_op h s t"
| op_revoke: "revoke_token now tid s = (res, t) \<Longrightarrow> auth_op h s t"
| op_rotate: "rotate_token h now hex sec tid rinp s = (res, t) \<Longrightarrow> unused h hex sec s \<Longrightarrow> auth_op h s t"
| op_authenticate: "authenticate_write now hash s = (res, t) \<Longrightarrow> auth_op h s t"

lemma start_pairing_wf: "auth_wf s \<Longrightarrow> start_pairing h add now code hex inp s = (res, t) \<Longrightarrow> auth_wf t"
  by (auto simp: start_pairing_def Let_def split: option.splits)

lemma auth_op_wf: "auth_op h s t \<Longrightarrow> auth_wf s \<Longrightarrow> auth_wf t"
  by (induction rule: auth_op.induct)
    (auto intro: start_pairing_wf complete_pairing_wf issue_token_wf revoke_token_wf rotate_token_wf
      authenticate_write_wf)

interpretation auth: invariant_system "\<lambda>s. s = auth_new" "auth_op h" auth_wf for h
  by unfold_locales (auto intro: auth_new_wf auth_op_wf)

text \<open>The moves of a token's status; interpretation of the status machine.\<close>

definition token_move :: "token_status \<Rightarrow> token_status \<Rightarrow> bool" where
  "token_move a b \<longleftrightarrow> a = TokenActive \<and> b \<noteq> TokenActive"

interpretation token_statuses: status_machine token_move "\<lambda>st. st \<noteq> TokenActive"
  by unfold_locales (simp add: token_move_def)

text \<open>Every operation moves a stored token along these moves only and keeps its id and hash.\<close>

lemma token_moves:
  assumes "auth_op h s t" and "auth_wf s" and "tokens s i = Some tok"
  shows "\<exists>tok'. tokens t i = Some tok' \<and> tok_hash tok' = tok_hash tok \<and>
     (tok_status tok' = tok_status tok \<or> token_move (tok_status tok) (tok_status tok'))"
proof -
  have id: "tok_id u = j" if "tokens s j = Some u" for j u
    using that assms(2) by (simp add: auth_wf_id)
  from assms(1) show ?thesis
  proof cases
    case (op_authenticate now hash res)
    from authenticate_write_cases [OF assms(2) this] show ?thesis
      using assms(3) by (auto simp: token_move_def)
  next
    case (op_rotate now hex sec tid rinp res)
    then show ?thesis
      using assms(3) id
      by (auto simp: rotate_token_def unused_def Let_def token_move_def
          split: option.splits if_splits token_status.splits)
  qed (use assms(3) id in \<open>auto simp: start_pairing_def complete_pairing_def issue_token_def
      revoke_token_def unused_def Let_def token_move_def
      split: option.splits if_splits token_status.splits\<close>)
qed

lemma token_moves_star:
  assumes "(auth_op h)\<^sup>*\<^sup>* s t" and "auth_wf s" and "tokens s i = Some tok"
  shows "auth_wf t \<and> (\<exists>tok'. tokens t i = Some tok' \<and> tok_hash tok' = tok_hash tok \<and>
     token_move\<^sup>*\<^sup>* (tok_status tok) (tok_status tok'))"
  using assms(1)
proof (induction rule: rtranclp_induct)
  case base
  with assms show ?case by auto
next
  case (step u t)
  then obtain tok' where "auth_wf u" "tokens u i = Some tok'" "tok_hash tok' = tok_hash tok"
    and moved: "token_move\<^sup>*\<^sup>* (tok_status tok) (tok_status tok')" by blast
  with token_moves [OF step.hyps(2)] show ?case
    by (metis auth_op_wf rtranclp.rtrancl_into_rtrancl step.hyps(2))
qed

text \<open>A pairing leaves the pending status once and for good.\<close>

lemma pairing_moves:
  assumes "auth_op h s t" and "pairings s i = Some p" and "pair_status p \<noteq> PairPending"
  shows "pairings t i = Some p"
  using assms(1)
proof cases
  case (op_authenticate now hash res)
  then show ?thesis using assms(2)
    by (auto simp: authenticate_write_def Let_def split: option.splits if_splits)
qed (use assms(2,3) in \<open>auto simp: start_pairing_def complete_pairing_def issue_token_def
    revoke_token_def rotate_token_def Let_def split: option.splits if_splits token_status.splits\<close>)

text \<open>The two sections of an authentication as one decision.\<close>

lemma authenticate_outcome_eq:
  assumes "auth_wf s" and "secret \<noteq> []"
  shows "authenticate_outcome h now secret s =
     (case token_by_hash s (h secret) of
        None \<Rightarrow> (Inl (refuse TokenInvalid), s)
      | Some tok \<Rightarrow>
          if tok_status tok \<noteq> TokenActive then (Inl (refuse (the (usable (tok_status tok)))), s)
          else if overdue tok now then
            (let tok' = tok\<lparr>tok_status := TokenExpired, tok_updated_at := now\<rparr>
             in (Inl \<lparr>ref_error = ErrTokenExpired, ref_expired = Some tok'\<rparr>, put_token tok' s))
          else if recently_used tok now then (Inr \<lparr>auth_token = tok, auth_touched = False\<rparr>, s)
          else (let tok' = tok\<lparr>tok_last_used_at := Some now, tok_updated_at := now\<rparr>
                in (Inr \<lparr>auth_token = tok', auth_touched = True\<rparr>, put_token tok' s)))"
proof (cases "token_by_hash s (h secret)")
  case (Some tok)
  then show ?thesis
    using assms(2)
    by (cases "tok_status tok")
      (simp_all add: authenticate_outcome_def authenticate_read_def authenticate_write_def)
qed (use assms(2) in \<open>simp add: authenticate_outcome_def authenticate_read_def\<close>)

section \<open>Properties\<close>

text \<open>A hash function for the witnesses, and a token issued under it.\<close>

definition sample_hash :: "string \<Rightarrow> string" where
  "sample_hash secret = CHR ''h'' # secret"

definition sample_issue :: issue_token_input where
  "sample_issue =
     \<lparr>iti_principal_id = ''prn_1'', iti_label = ''cli'', iti_default_tenant_id = ''ten_1'',
      iti_expires_at = Some 1000\<rparr>"

definition sample_issued :: auth_state where
  "sample_issued = snd (issue_token sample_hash 1 ''a'' ''s'' sample_issue auth_new)"

definition sample_revoked :: auth_state where
  "sample_revoked = snd (revoke_token 2 ''tok_a'' sample_issued)"

lemma sample_auth_ops: "auth_op sample_hash auth_new sample_issued" "auth_op sample_hash sample_issued sample_revoked"
proof -
  have "unused sample_hash ''a'' ''s'' auth_new" by (simp add: unused_def auth_new_def)
  then show "auth_op sample_hash auth_new sample_issued"
    unfolding sample_issued_def by (rule op_issue [OF surjective_pairing])
  show "auth_op sample_hash sample_issued sample_revoked"
    unfolding sample_revoked_def by (rule op_revoke [OF surjective_pairing])
qed

lemma sample_auth_wf: "auth_wf sample_issued" "auth_wf sample_revoked"
  using sample_auth_ops auth_op_wf auth_new_wf by blast+

text \<open>
  In every state the token manager can reach, the hash index is exact: a hash leads to a token
  exactly if that token has this hash, every token is listed once, and no token with an empty hash
  can be found.
\<close>

theorem reachable_auth_wf:
  assumes "(auth_op h)\<^sup>*\<^sup>* auth_new s"
  shows "auth_wf s \<and>
     (token_by_hash s hs = Some tok \<longleftrightarrow> hs \<noteq> [] \<and> get_token (tok_id tok) s = Some tok \<and> tok_hash tok = hs)"
proof -
  have "auth_wf s" using assms by (blast intro: auth.inv_reachable)
  then show ?thesis by (simp add: token_by_hash_iff get_token_def)
qed

theorem reachable_auth_wf_witness:
  "auth_wf sample_revoked \<and> (token_by_hash sample_revoked [] = None)"
proof -
  have "(auth_op sample_hash)\<^sup>*\<^sup>* auth_new sample_revoked"
    using sample_auth_ops by (meson rtranclp.rtrancl_into_rtrancl rtranclp.rtrancl_refl)
  from reachable_auth_wf [OF this, of "[]"] show ?thesis by (cases "token_by_hash sample_revoked []") auto
qed



text \<open>
  A token that was revoked, rotated or found expired is never accepted again: after any
  sequence of later operations, authenticating with its secret is refused.
\<close>

theorem dead_token_refused:
  assumes "(auth_op h)\<^sup>*\<^sup>* s t" and "auth_wf s" and "tokens s i = Some tok"
    and "tok_status tok \<noteq> TokenActive" and "tok_hash tok = h secret" and "secret \<noteq> []"
  shows "\<exists>r. fst (authenticate_outcome h now secret t) = Inl r"
proof -
  from token_moves_star [OF assms(1-3)] obtain tok' where wf: "auth_wf t"
    and tok': "tokens t i = Some tok'" "tok_hash tok' = h secret"
    and moves: "token_move\<^sup>*\<^sup>* (tok_status tok) (tok_status tok')"
    using assms(5) by auto
  have dead: "tok_status tok' \<noteq> TokenActive"
    using token_statuses.terminal_absorbing [OF moves assms(4)] assms(4) by simp
  show ?thesis
  proof (cases "h secret = []")
    case True
    then have "token_by_hash t (h secret) = None"
      using token_by_hash_iff [OF wf] by (metis not_Some_eq)
    then show ?thesis using authenticate_outcome_eq [OF wf assms(6), of h now] by simp
  next
    case False
    then have "token_by_hash t (h secret) = Some tok'"
      using tok' wf by (simp add: token_by_hash_iff auth_wf_id)
    then show ?thesis using authenticate_outcome_eq [OF wf assms(6), of h now] dead by simp
  qed
qed

theorem dead_token_refused_witness:
  "\<exists>r. fst (authenticate_outcome sample_hash 9 ''kura_s'' sample_revoked) = Inl r"
proof -
  have "map_option (\<lambda>t. (tok_status t, tok_hash t)) (tokens sample_revoked ''tok_a'') =
      Some (TokenRevoked, sample_hash ''kura_s'')" by code_simp
  then obtain tok where "tokens sample_revoked ''tok_a'' = Some tok"
    and "tok_status tok \<noteq> TokenActive" and "tok_hash tok = sample_hash ''kura_s''" by auto
  then show ?thesis
    by (intro dead_token_refused [OF rtranclp.rtrancl_refl sample_auth_wf(2)]) simp_all
qed

text \<open>
  A pairing code works once: completing a pairing needs a pending, unexpired pairing and a code
  with the stored hash, and after a success every later attempt on that pairing, whatever happened
  in between, fails without issuing a token.
\<close>

theorem pairing_single_use:
  assumes "complete_pairing h ident now hex sec pid inp s = (Inr (p', tok, secret), s')"
    and "(auth_op h)\<^sup>*\<^sup>* s' t"
  shows "(\<exists>p. pairings s pid = Some p \<and> pair_status p = PairPending \<and> now \<le> pair_expires_at p \<and>
       h (cpi_code inp) = pair_code_hash p) \<and>
     complete_pairing h ident2 now2 hex2 sec2 pid inp2 t = (Inl PairingNotPending, t)"
proof -
  from assms(1) obtain p where p: "pairings s pid = Some p" "pair_status p = PairPending"
    "now \<le> pair_expires_at p" "h (cpi_code inp) = pair_code_hash p"
    and fin: "pairings s' pid = Some p'" "pair_status p' = PairCompleted"
    by (auto simp: complete_pairing_def Let_def split: option.splits if_splits)
  from assms(2) have "pairings t pid = Some p'"
    by (induction rule: rtranclp_induct) (use fin pairing_moves in auto)
  with p fin(2) show ?thesis by (auto simp: complete_pairing_def)
qed

definition sample_pairing_state :: auth_state where
  "sample_pairing_state =
     snd (start_pairing sample_hash (\<lambda>now s. Some (now + s)) 1 ''123456'' ''p''
       \<lparr>spi_mode = None, spi_label = ''phone'', spi_ttl_seconds = 0\<rparr> auth_new)"

theorem pairing_single_use_witness:
  "let op = complete_pairing sample_hash \<lparr>pid_principal_id = ''prn'', pid_default_tenant_id = ''ten''\<rparr> 2
              ''a'' ''s'' ''pair_p'' \<lparr>cpi_code = ''123456''\<rparr> sample_pairing_state
   in complete_pairing sample_hash \<lparr>pid_principal_id = ''prn'', pid_default_tenant_id = ''ten''\<rparr> 3
        ''b'' ''u'' ''pair_p'' \<lparr>cpi_code = ''123456''\<rparr> (snd op) = (Inl PairingNotPending, snd op)"
proof -
  let ?op = "complete_pairing sample_hash \<lparr>pid_principal_id = ''prn'', pid_default_tenant_id = ''ten''\<rparr> 2
              ''a'' ''s'' ''pair_p'' \<lparr>cpi_code = ''123456''\<rparr> sample_pairing_state"
  have "case fst ?op of Inl _ \<Rightarrow> False | Inr _ \<Rightarrow> True" by code_simp
  then obtain p tok sec where op: "?op = (Inr (p, tok, sec), snd ?op)"
    by (cases ?op) (auto split: sum.splits)
  from pairing_single_use [OF op rtranclp.rtrancl_refl] show ?thesis by (simp only: Let_def)
qed

end
