(* ===== verification/Programs.thy ===== *)
theory Programs
  imports Prelude
begin

text \<open>
  Programs that call a store: functions from a state to a result and a state, sequenced with the
  \<open>?\<close> operator of Rust, and a small logic of triples with one postcondition for a value and one for
  an error.
\<close>

section \<open>Programs with errors\<close>

definition return_op :: "'a \<Rightarrow> ('s, 'e, 'a) op" where
  "return_op x s = (Inr x, s)"

definition fail_op :: "'e \<Rightarrow> ('s, 'e, 'a) op" where
  "fail_op e s = (Inl e, s)"

text \<open>The \<open>?\<close> operator: go on with the value, or return the error.\<close>

definition bind_op :: "('s, 'e, 'a) op \<Rightarrow> ('a \<Rightarrow> ('s, 'e, 'b) op) \<Rightarrow> ('s, 'e, 'b) op" where
  "bind_op m f s = (case m s of (Inl e, t) \<Rightarrow> (Inl e, t) | (Inr x, t) \<Rightarrow> f x t)"

definition then_op :: "('s, 'e, 'a) op \<Rightarrow> ('s, 'e, 'b) op \<Rightarrow> ('s, 'e, 'b) op" where
  "then_op m n = bind_op m (\<lambda>_. n)"

definition require_op :: "bool \<Rightarrow> 'e \<Rightarrow> ('s, 'e, unit) op" where
  "require_op b e = (if b then return_op () else fail_op e)"

definition lift_op :: "'e + 'a \<Rightarrow> ('s, 'e, 'a) op" where
  "lift_op r = (case r of Inl e \<Rightarrow> fail_op e | Inr x \<Rightarrow> return_op x)"

fun each_op :: "('a \<Rightarrow> ('s, 'e, 'b) op) \<Rightarrow> 'a list \<Rightarrow> ('s, 'e, 'b list) op" where
  "each_op f [] = return_op []"
| "each_op f (x # xs) = bind_op (f x) (\<lambda>y. bind_op (each_op f xs) (\<lambda>ys. return_op (y # ys)))"

text \<open>\<open>match\<close> on a result, or \<open>let _ =\<close>: the error is a value like any other.\<close>

definition attempt_op :: "('s, 'e, 'a) op \<Rightarrow> ('s, 'e, 'e + 'a) op" where
  "attempt_op m s = (case m s of (r, t) \<Rightarrow> (Inr r, t))"

subsection \<open>Triples\<close>

text \<open>
  Started in a state with \<open>P\<close>, the program ends with \<open>Q\<close> of its value, or with \<open>E\<close> when it
  returns an error.
\<close>

definition triple :: "('s \<Rightarrow> bool) \<Rightarrow> ('s, 'e, 'a) op \<Rightarrow> ('a \<Rightarrow> 's \<Rightarrow> bool) \<Rightarrow> ('s \<Rightarrow> bool) \<Rightarrow> bool" where
  "triple P m Q E \<longleftrightarrow>
     (\<forall>s. P s \<longrightarrow> (case m s of (Inl e, t) \<Rightarrow> E t | (Inr x, t) \<Rightarrow> Q x t))"

lemma tripleI:
  assumes "\<And>s e t. P s \<Longrightarrow> m s = (Inl e, t) \<Longrightarrow> E t" and "\<And>s x t. P s \<Longrightarrow> m s = (Inr x, t) \<Longrightarrow> Q x t"
  shows "triple P m Q E"
  using assms unfolding triple_def by (auto split: prod.split sum.split)

lemma tripleD:
  assumes "triple P m Q E" and "P s"
  shows "m s = (Inl e, t) \<Longrightarrow> E t" and "m s = (Inr x, t) \<Longrightarrow> Q x t"
  using assms unfolding triple_def by force+

lemma triple_return: "triple (Q x) (return_op x) Q E"
  by (simp add: triple_def return_op_def)

lemma triple_fail: "triple E (fail_op e) Q E"
  by (simp add: triple_def fail_op_def)

lemma triple_bind:
  assumes "triple P m R E" and "\<And>x. triple (R x) (f x) Q E"
  shows "triple P (bind_op m f) Q E"
  unfolding triple_def
proof (intro allI impI)
  fix s
  assume "P s"
  obtain r u where m: "m s = (r, u)" by fastforce
  show "case bind_op m f s of (Inl e, t) \<Rightarrow> E t | (Inr x, t) \<Rightarrow> Q x t"
  proof (cases r)
    case (Inl e)
    with m show ?thesis using tripleD(1) [OF assms(1) \<open>P s\<close>] by (simp add: bind_op_def)
  next
    case (Inr x)
    with m have "R x u" using tripleD(2) [OF assms(1) \<open>P s\<close>] by simp
    with assms(2) [of x] m Inr show ?thesis by (simp add: bind_op_def triple_def)
  qed
qed

lemma triple_weaken:
  "triple P m Q E \<Longrightarrow> (\<And>s. P' s \<Longrightarrow> P s) \<Longrightarrow> (\<And>x s. Q x s \<Longrightarrow> Q' x s) \<Longrightarrow> (\<And>s. E s \<Longrightarrow> E' s) \<Longrightarrow>
   triple P' m Q' E'"
  unfolding triple_def by (fastforce split: prod.splits sum.splits)

text \<open>A program keeps an invariant when it holds afterwards in both cases.\<close>

definition keeps :: "('s \<Rightarrow> bool) \<Rightarrow> ('s, 'e, 'a) op \<Rightarrow> bool" where
  "keeps I m \<longleftrightarrow> triple I m (\<lambda>_. I) I"

named_theorems keeps_intros \<open>programs that keep an invariant\<close>

lemma keepsD: "keeps I m \<Longrightarrow> I s \<Longrightarrow> m s = (res, t) \<Longrightarrow> I t"
  unfolding keeps_def triple_def by (cases res) force+

lemma keepsI: "(\<And>s. I s \<Longrightarrow> I (snd (m s))) \<Longrightarrow> keeps I m"
  unfolding keeps_def triple_def by (force split: prod.splits sum.splits)

lemma keeps_return [keeps_intros]: "keeps I (return_op x)"
  by (simp add: keeps_def triple_def return_op_def)

lemma keeps_fail [keeps_intros]: "keeps I (fail_op e)"
  by (simp add: keeps_def triple_def fail_op_def)

lemma keeps_bind [keeps_intros]: "keeps I m \<Longrightarrow> (\<And>x. keeps I (f x)) \<Longrightarrow> keeps I (bind_op m f)"
  unfolding keeps_def by (rule triple_bind)

lemma keeps_then [keeps_intros]: "keeps I m \<Longrightarrow> keeps I n \<Longrightarrow> keeps I (then_op m n)"
  unfolding then_op_def by (rule keeps_bind)

lemma keeps_require [keeps_intros]: "keeps I (require_op b e)"
  by (simp add: require_op_def keeps_intros)

lemma keeps_lift [keeps_intros]: "keeps I (lift_op r)"
  by (simp add: lift_op_def keeps_intros split: sum.split)

lemma keeps_each [keeps_intros]: "(\<And>x. keeps I (f x)) \<Longrightarrow> keeps I (each_op f xs)"
  by (induction xs) (auto intro!: keeps_intros)

lemma keeps_attempt [keeps_intros]: "keeps I m \<Longrightarrow> keeps I (attempt_op m)"
  by (rule keepsI) (auto simp: attempt_op_def split: prod.split dest: keepsD)

subsection \<open>Derived rules\<close>

lemma keeps_of_triple: "triple I m (\<lambda>x s. I s \<and> R x s) I \<Longrightarrow> keeps I m"
  unfolding keeps_def by (erule triple_weaken) auto

lemma triple_then:
  assumes "keeps P a" and "\<And>s. P s \<Longrightarrow> E s" and "triple P b Q E"
  shows "triple P (then_op a b) Q E"
  unfolding then_op_def
  by (rule triple_bind [OF triple_weaken [OF assms(1) [unfolded keeps_def] _ _ assms(2)]])
    (use assms(3) in auto)

lemma triple_after: "triple P a (\<lambda>_. I) I \<Longrightarrow> keeps I b \<Longrightarrow> triple P (then_op a b) (\<lambda>_. I) I"
  unfolding then_op_def keeps_def by (rule triple_bind)

lemma keeps_if [keeps_intros]: "keeps I a \<Longrightarrow> keeps I b \<Longrightarrow> keeps I (if c then a else b)"
  by simp

lemma triple_if: "(c \<Longrightarrow> triple P a Q E) \<Longrightarrow> (\<not> c \<Longrightarrow> triple P b Q E) \<Longrightarrow> triple P (if c then a else b) Q E"
  by simp

lemma triple_fail': "(\<And>s. P s \<Longrightarrow> E s) \<Longrightarrow> triple P (fail_op e) Q E"
  by (simp add: triple_def fail_op_def)

lemma triple_return': "(\<And>s. P s \<Longrightarrow> Q x s) \<Longrightarrow> triple P (return_op x) Q E"
  by (simp add: triple_def return_op_def)

lemma triple_bind_keeps:
  assumes "keeps P a" and "\<And>s. P s \<Longrightarrow> E s" and "\<And>x. triple P (f x) Q E"
  shows "triple P (bind_op a f) Q E"
  by (rule triple_bind [where R = "\<lambda>_. P"])
    (auto intro: assms(3) triple_weaken [OF assms(1) [unfolded keeps_def] _ _ assms(2)])

lemma triple_of_keeps: "keeps P m \<Longrightarrow> (\<And>s. P s \<Longrightarrow> E s) \<Longrightarrow> triple P m (\<lambda>_. E) E"
  unfolding keeps_def by (erule triple_weaken) auto

lemma keeps_case_option [keeps_intros]:
  "keeps I a \<Longrightarrow> (\<And>x. keeps I (f x)) \<Longrightarrow> keeps I (case xo of None \<Rightarrow> a | Some x \<Rightarrow> f x)"
  by (cases xo) auto

lemma triple_case_option:
  "triple P a Q E \<Longrightarrow> (\<And>x. triple P (f x) Q E) \<Longrightarrow> triple P (case xo of None \<Rightarrow> a | Some x \<Rightarrow> f x) Q E"
  by (cases xo) auto

lemma triple_ex: "(\<And>x. triple (P x) m Q E) \<Longrightarrow> triple (\<lambda>s. \<exists>x. P x s) m Q E"
  unfolding triple_def by (intro allI impI) (elim exE, simp)

lemma triple_when: "(b \<Longrightarrow> triple P m Q E) \<Longrightarrow> triple (\<lambda>s. b \<and> P s) m Q E"
  by (auto simp: triple_def)

lemma triple_result: "triple P m (\<lambda>_. I) I \<Longrightarrow> P s \<Longrightarrow> m s = (r, t) \<Longrightarrow> I t"
  unfolding triple_def by (cases r) force+

lemma sure_result:
  assumes "triple P m Q (\<lambda>_. False)" and "P s"
  obtains x t where "m s = (Inr x, t)" and "Q x t"
proof (cases "m s")
  case (Pair r t)
  then show thesis
    using tripleD [OF assms] that by (cases r) auto
qed

lemma guardD:
  assumes "(if c then fail_op e else m) s = (Inr x, t)"
  shows "\<not> c" and "m s = (Inr x, t)"
  using assms by (auto simp: fail_op_def split: if_splits)

lemma bind_succeeds:
  "\<not> isl (fst (m s)) \<Longrightarrow> \<not> isl (fst (f (projr (fst (m s))) (snd (m s)))) \<Longrightarrow> \<not> isl (fst (bind_op m f s))"
  by (cases "m s"; cases "fst (m s)") (auto simp: bind_op_def)

lemma return_succeeds: "\<not> isl (fst (return_op x s))"
  by (simp add: return_op_def)

lemma bind_fails: "m s = (Inl e, t) \<Longrightarrow> bind_op m f s = (Inl e, t)"
  by (simp add: bind_op_def)

lemma each_op_fails:
  assumes "\<And>x. x \<in> set xs \<Longrightarrow> keeps I (f x)" and "y \<in> set xs"
    and "\<And>s. I s \<Longrightarrow> \<exists>e t. f y s = (Inl e, t)" and "I s"
  shows "\<exists>e t. each_op f xs s = (Inl e, t)"
  using assms(1,2,4)
proof (induction xs arbitrary: s)
  case (Cons x xs)
  obtain r u where x: "f x s = (r, u)" by fastforce
  with Cons.prems have u: "I u" using keepsD [of I "f x" s r u] by auto
  show ?case
  proof (cases r)
    case (Inr z)
    with x Cons.prems assms(3) have "y \<in> set xs" by fastforce
    with Cons.IH [OF Cons.prems(1) _ u] obtain e t where "each_op f xs u = (Inl e, t)" by auto
    with x Inr show ?thesis by (simp add: bind_op_def)
  qed (simp add: x bind_op_def)
qed simp

lemma keeps_each_in: "(\<And>x. x \<in> set xs \<Longrightarrow> keeps I (f x)) \<Longrightarrow> keeps I (each_op f xs)"
  by (induction xs) (auto intro!: keeps_bind keeps_return)

lemma failing_triple: "triple P m (\<lambda>_ _. False) (\<lambda>_. True) \<Longrightarrow> P s \<Longrightarrow> \<exists>e t. m s = (Inl e, t)"
  unfolding triple_def by (auto split: prod.splits sum.splits) (metis Inl_Inr_False obj_sumE surj_pair)

text \<open>A program that keeps an invariant and returns only values with a property.\<close>

definition yields :: "('s \<Rightarrow> bool) \<Rightarrow> ('a \<Rightarrow> bool) \<Rightarrow> ('s, 'e, 'a) op \<Rightarrow> bool" where
  "yields I Q m \<longleftrightarrow> triple I m (\<lambda>x s. I s \<and> Q x) I"

lemma yields_return: "Q x \<Longrightarrow> yields I Q (return_op x)"
  by (simp add: yields_def triple_def return_op_def)

lemma yields_fail: "yields I Q (fail_op e)"
  by (simp add: yields_def triple_def fail_op_def)

lemma yields_bind:
  assumes "yields I Q m" and "\<And>x. Q x \<Longrightarrow> yields I R (f x)"
  shows "yields I R (bind_op m f)"
  unfolding yields_def
proof (rule triple_bind [OF assms(1) [unfolded yields_def]])
  fix x
  show "triple (\<lambda>s. I s \<and> Q x) (f x) (\<lambda>x s. I s \<and> R x) I"
    using assms(2) [of x] unfolding yields_def triple_def by auto
qed

lemma yields_of_keeps: "keeps I m \<Longrightarrow> yields I (\<lambda>_. True) m"
  by (simp add: keeps_def yields_def)

lemma keeps_of_yields: "yields I Q m \<Longrightarrow> keeps I m"
  unfolding yields_def by (rule keeps_of_triple)

lemma yields_bind_keeps: "keeps I m \<Longrightarrow> (\<And>x. yields I R (f x)) \<Longrightarrow> yields I R (bind_op m f)"
  by (rule yields_bind [OF yields_of_keeps])

lemma yields_then: "keeps I m \<Longrightarrow> yields I R n \<Longrightarrow> yields I R (then_op m n)"
  unfolding then_op_def by (rule yields_bind_keeps)

lemma keeps_bind_yields: "yields I Q m \<Longrightarrow> (\<And>x. Q x \<Longrightarrow> keeps I (f x)) \<Longrightarrow> keeps I (bind_op m f)"
  by (rule keeps_of_yields [OF yields_bind]) (assumption, blast intro: yields_of_keeps)

lemma yields_each:
  "(\<And>x. x \<in> set xs \<Longrightarrow> yields I Q (f x)) \<Longrightarrow> yields I (\<lambda>ys. \<forall>y \<in> set ys. Q y) (each_op f xs)"
proof (induction xs)
  case Nil
  show ?case by (simp add: yields_return)
next
  case (Cons x xs)
  then show ?case by (auto intro!: yields_bind [where Q = Q] yields_bind [where Q = "\<lambda>ys. \<forall>y \<in> set ys. Q y"] yields_return)
qed

lemma triple_bind_yields:
  assumes "yields I R m" and "\<And>s. I s \<Longrightarrow> E s" and "\<And>x. R x \<Longrightarrow> triple I (f x) Q E"
  shows "triple I (bind_op m f) Q E"
proof (rule triple_bind [where R = "\<lambda>x s. I s \<and> R x"])
  show "triple I m (\<lambda>x s. I s \<and> R x) E"
    by (rule triple_weaken [OF assms(1) [unfolded yields_def]]) (use assms(2) in auto)
  show "triple (\<lambda>s. I s \<and> R x) (f x) Q E" for x using assms(3) [of x] by (auto simp: triple_def)
qed

lemma yields_attempt:
  assumes "yields I Q m"
  shows "yields I (\<lambda>r. \<forall>x. r = Inr x \<longrightarrow> Q x) (attempt_op m)"
  unfolding yields_def
proof (rule tripleI)
  fix s r t
  assume "I s" and "attempt_op m s = (Inr r, t)"
  then have "m s = (r, t)" by (auto simp: attempt_op_def split: prod.splits)
  note run = tripleD [OF assms [unfolded yields_def] \<open>I s\<close>]
  show "I t \<and> (\<forall>x. r = Inr x \<longrightarrow> Q x)"
  proof (cases r)
    case (Inl e)
    with run(1) [of e t] \<open>m s = (r, t)\<close> show ?thesis by simp
  next
    case (Inr x)
    with run(2) [of x t] \<open>m s = (r, t)\<close> show ?thesis by simp
  qed
next
  fix s e t
  assume "attempt_op m s = (Inl e, t)"
  then show "I t" by (simp add: attempt_op_def split: prod.splits)
qed

text \<open>The errors a program can return.\<close>

definition fails_only :: "('s \<Rightarrow> bool) \<Rightarrow> 'e set \<Rightarrow> ('s, 'e, 'a) op \<Rightarrow> bool" where
  "fails_only I E m \<longleftrightarrow> (\<forall>s e t. I s \<longrightarrow> m s = (Inl e, t) \<longrightarrow> e \<in> E)"

lemma fails_only_return: "fails_only I E (return_op x)"
  by (simp add: fails_only_def return_op_def)

lemma fails_only_bind:
  assumes "yields I Q m" and "fails_only I E m" and "\<And>x. Q x \<Longrightarrow> fails_only I E (f x)"
  shows "fails_only I E (bind_op m f)"
  unfolding fails_only_def
proof (intro allI impI)
  fix s e t
  assume s: "I s" and run: "bind_op m f s = (Inl e, t)"
  show "e \<in> E"
  proof (cases "m s")
    case (Pair r u)
    show ?thesis
    proof (cases r)
      case (Inl e')
      with Pair run s assms(2) show ?thesis by (auto simp: bind_op_def fails_only_def)
    next
      case (Inr x)
      with Pair s assms(1) have "I u \<and> Q x" unfolding yields_def by (auto dest: tripleD(2))
      with Pair Inr run assms(3) [of x] show ?thesis by (auto simp: bind_op_def fails_only_def)
    qed
  qed
qed

lemma fails_only_each:
  assumes "\<And>x. x \<in> set xs \<Longrightarrow> keeps I (f x)" and "\<And>x. x \<in> set xs \<Longrightarrow> fails_only I E (f x)"
  shows "fails_only I E (each_op f xs)"
  using assms
proof (induction xs)
  case Nil
  show ?case by (simp add: fails_only_return)
next
  case (Cons x xs)
  then have "keeps I (each_op f xs)" "fails_only I E (each_op f xs)" by (auto intro: keeps_each_in)
  with Cons.prems show ?case
    by (auto intro!: fails_only_bind [OF yields_of_keeps] fails_only_return)
qed

end
