(* ===== verification/Tables.thy ===== *)
theory Tables
  imports Prelude "HOL-Library.List_Lexorder" "HOL-Library.Char_ord" "HOL-Library.Product_Lexorder"
begin

text \<open>
  Tables of the SQLite store as lists of rows: an upsert replaces the row with the same primary key
  or appends, a listing orders by columns and takes the first rows when a limit is set, a unique
  index refuses a row that another one conflicts with.
\<close>

text \<open>No row under another key has the same value in the columns of a unique index.\<close>

definition unique_index :: "('r \<Rightarrow> string) \<Rightarrow> ('r \<Rightarrow> string \<times> string) \<Rightarrow> 'r \<Rightarrow> 'r list \<Rightarrow> bool" where
  "unique_index key cols r rows \<longleftrightarrow> list_all (\<lambda>x. cols x = cols r \<longrightarrow> key x = key r) rows"

definition upsert :: "('r \<Rightarrow> string) \<Rightarrow> 'r \<Rightarrow> 'r list \<Rightarrow> 'r list" where
  "upsert key r rows =
     (if key r \<in> key ` set rows then map (\<lambda>x. if key x = key r then r else x) rows else rows @ [r])"

text \<open>
  \<open>INSERT .. ON CONFLICT(cols) DO UPDATE\<close> on a table with another primary key: the row with these columns
  is updated, otherwise a new key is needed.
\<close>

definition upsert_on :: "('r \<Rightarrow> 'k) \<Rightarrow> ('r \<Rightarrow> string) \<Rightarrow> ('r \<Rightarrow> 'r \<Rightarrow> 'r) \<Rightarrow> 'r \<Rightarrow> 'r list \<Rightarrow> 'r list option" where
  "upsert_on cols key change r rows =
     (if list_ex (\<lambda>x. cols x = cols r) rows then Some (map (\<lambda>x. if cols x = cols r then change x r else x) rows)
      else if list_ex (\<lambda>x. key x = key r) rows then None
      else Some (rows @ [r]))"

text \<open>\<open>INSERT OR IGNORE\<close>.\<close>

definition insert_new :: "('r \<Rightarrow> string) \<Rightarrow> 'r \<Rightarrow> 'r list \<Rightarrow> 'r list" where
  "insert_new key r rows = (if list_ex (\<lambda>x. key x = key r) rows then rows else rows @ [r])"

definition limited :: "nat \<Rightarrow> 'r list \<Rightarrow> 'r list" where
  "limited n rows = (if n > 0 then take n rows else rows)"

definition ordered :: "('r \<Rightarrow> timestamp) \<Rightarrow> ('r \<Rightarrow> string) \<Rightarrow> 'r list \<Rightarrow> 'r list" where
  "ordered created key rows = sort_key (\<lambda>r. (created r, key r)) rows"

text \<open>\<open>ORDER BY .. DESC\<close> on a time and a key, and \<open>LIMIT 1\<close> of it.\<close>

definition newest_first :: "('r \<Rightarrow> timestamp) \<Rightarrow> ('r \<Rightarrow> string) \<Rightarrow> 'r list \<Rightarrow> 'r list" where
  "newest_first created key rows = rev (ordered created key rows)"

definition newest :: "('r \<Rightarrow> timestamp) \<Rightarrow> ('r \<Rightarrow> string) \<Rightarrow> 'r list \<Rightarrow> 'r option" where
  "newest created key rows = (case newest_first created key rows of [] \<Rightarrow> None | r # _ \<Rightarrow> Some r)"

definition matches :: "'a option \<Rightarrow> 'a \<Rightarrow> bool" where
  "matches f x \<longleftrightarrow> (case f of None \<Rightarrow> True | Some y \<Rightarrow> x = y)"

lemma set_upsert: "set (upsert key r rows) = insert r {x \<in> set rows. key x \<noteq> key r}"
  by (auto simp: upsert_def image_iff)

lemma set_limited: "set (limited n rows) \<subseteq> set rows"
  by (auto simp: limited_def dest: in_set_takeD)

lemma set_ordered [simp]: "set (ordered created key rows) = set rows"
  by (simp add: ordered_def)

lemma matches_simps [simp]: "matches None x" "matches (Some y) x \<longleftrightarrow> x = y"
  by (simp_all add: matches_def)

lemma distinct_upsert: "distinct (map key rows) \<Longrightarrow> distinct (map key (upsert key r rows))"
proof -
  assume "distinct (map key rows)"
  moreover have "map key (map (\<lambda>x. if key x = key r then r else x) rows) = map key rows"
    by (induction rows) auto
  ultimately show ?thesis by (auto simp: upsert_def simp del: map_map)
qed

lemma same_key: "distinct (map key rows) \<Longrightarrow> x \<in> set rows \<Longrightarrow> y \<in> set rows \<Longrightarrow> key x = key y \<Longrightarrow> x = y"
  by (auto simp: distinct_map inj_on_def)

lemma find_SomeD: "find P xs = Some x \<Longrightarrow> x \<in> set xs \<and> P x"
  by (auto simp: find_Some_iff)

lemma find_unique:
  assumes "x \<in> set xs" and "P x" and "\<And>y. y \<in> set xs \<Longrightarrow> P y \<Longrightarrow> y = x"
  shows "find P xs = Some x"
proof (cases "find P xs")
  case None
  with assms(1,2) show ?thesis by (auto simp: find_None_iff)
next
  case (Some y)
  with assms(3) [of y] show ?thesis by (auto dest!: find_SomeD)
qed

lemma find_same_key: "distinct (map key xs) \<Longrightarrow> x \<in> set xs \<Longrightarrow> find (\<lambda>y. key y = key x) xs = Some x"
  by (rule find_unique) (auto intro: same_key)

lemma find_upsert: "key r = k \<Longrightarrow> find (\<lambda>x. key x = k) (upsert key r rows) = Some r"
  by (rule find_unique) (auto simp: set_upsert)

lemma upsert_on_new:
  "cols r \<notin> cols ` set rows \<Longrightarrow> key r \<notin> key ` set rows \<Longrightarrow> upsert_on cols key f r rows = Some (rows @ [r])"
  by (auto simp: upsert_on_def list_ex_iff image_iff)

lemma upsert_on_present:
  "cols r \<in> cols ` set rows \<Longrightarrow>
   upsert_on cols key f r rows = Some (map (\<lambda>x. if cols x = cols r then f x r else x) rows)"
  by (force simp: upsert_on_def list_ex_iff)

lemma upsert_on_cases:
  assumes "upsert_on cols key f r rows = Some rows'"
  obtains "cols r \<in> cols ` set rows" "rows' = map (\<lambda>x. if cols x = cols r then f x r else x) rows"
  | "cols r \<notin> cols ` set rows" "key r \<notin> key ` set rows" "rows' = rows @ [r]"
proof (cases "cols r \<in> cols ` set rows")
  case True
  with assms that(1) show ?thesis by (simp add: upsert_on_present)
next
  case False
  then have "\<not> list_ex (\<lambda>x. cols x = cols r) rows" by (auto simp: list_ex_iff image_iff)
  with assms have "key r \<notin> key ` set rows" "rows' = rows @ [r]"
    by (auto simp: upsert_on_def list_ex_iff image_iff split: if_splits)
  with False that(2) show ?thesis by blast
qed

lemma distinct_upsert_on:
  assumes "upsert_on cols key f r rows = Some rows'" and "distinct (map cols rows)" and "\<And>x. cols (f x r) = cols r"
  shows "distinct (map cols rows')"
  using assms(1)
proof (cases rule: upsert_on_cases)
  case 1
  have "map cols rows' = map cols rows" unfolding 1(2) using assms(3) by (induction rows) auto
  with assms(2) show ?thesis by simp
qed (use assms(2) in auto)

lemma upsert_on_cols:
  assumes "upsert_on cols key f r rows = Some rows'" and "\<And>x. cols (f x r) = cols r"
  shows "cols ` set rows' = insert (cols r) (cols ` set rows)"
  using assms(1)
proof (cases rule: upsert_on_cases)
  case 1
  have "map cols rows' = map cols rows" unfolding 1(2) using assms(2) by (induction rows) auto
  then have "cols ` set rows' = cols ` set rows" by (metis set_map)
  with 1(1) show ?thesis by auto
qed auto

lemma upsert_on_member:
  assumes "upsert_on cols key f r rows = Some rows'" and "x \<in> set rows'"
  obtains "x = r" | y where "y \<in> set rows" "cols y = cols r" "x = f y r" | "x \<in> set rows" "cols x \<noteq> cols r"
  using assms(1)
proof (cases rule: upsert_on_cases)
  case 1
  with assms(2) obtain y where "y \<in> set rows" "x = (if cols y = cols r then f y r else y)" by auto
  with that(2,3) show ?thesis by (cases "cols y = cols r") auto
next
  case 2
  then have "cols y \<noteq> cols r" if "y \<in> set rows" for y using that by (metis imageI)
  with 2(3) assms(2) that(1,3) show ?thesis by (metis Un_iff empty_iff empty_set insert_iff list.simps(15) set_append)
qed

text \<open>Replacing one row changes a sum over the rows by the difference.\<close>

lemma sum_replaced:
  fixes h :: "'r \<Rightarrow> int"
  assumes "distinct (map cols rows)" and "r \<in> set rows"
  shows "sum_list (map h (map (\<lambda>x. if cols x = cols r then y else x) rows)) = sum_list (map h rows) - h r + h y"
  using assms
proof (induction rows)
  case (Cons z rows)
  show ?case
  proof (cases "cols z = cols r")
    case True
    with Cons.prems have "z = r" "cols r \<notin> cols ` set rows" by (force simp: image_iff)+
    then have "map (\<lambda>x. if cols x = cols r then y else x) rows = rows"
      by (intro map_idI) (auto simp: image_iff)
    with \<open>z = r\<close> show ?thesis by simp
  next
    case False
    with Cons.prems have "r \<in> set rows" by auto
    with Cons False show ?thesis by simp
  qed
qed simp

end
