(* ===== verification/Identity_Store.thy ===== *)
theory Identity_Store
  imports Identity_Types Auth Programs Tables
begin

text \<open>
  The tables behind the identity manager, crates/persistence/store/src/identity.rs, as the SQL
  statements there use them: an upsert replaces the row with the same primary key, a listing
  selects by the filter, orders by creation time and key, and takes the first rows when a limit is set
  (a time is stored as RFC 3339 text with nine digits of fraction, whose order is that of the
  times). The unique
  indexes of crates/persistence/store/src/migrations.rs on memberships (tenant, principal) and on
  grants (tenant, token) make a write fail that another row conflicts with. Any statement can fail
  for reasons outside the model: the field \<open>db_faults\<close> says for the coming calls which of them do. A
  failed call changes no table. Programs over the store are sequences of such calls, with no
  transaction around them.
\<close>

section \<open>Tables\<close>

record identity_db =
  db_tenants :: "tenant list"
  db_principals :: "principal list"
  db_memberships :: "membership list"
  db_invitations :: "tenant_invitation list"
  db_grants :: "token_tenant_grant list"
  db_auth_tokens :: "access_token list"
  db_audit :: "tenant_audit_event list"
  db_faults :: "bool list"

type_synonym 'a db_op = "(identity_db, identity_error, 'a) op"

text \<open>One call of the store.\<close>

definition store_call :: "(identity_db \<Rightarrow> 'a \<times> identity_db) \<Rightarrow> 'a db_op" where
  "store_call f s =
     (case db_faults s of
        [] \<Rightarrow> (case f s of (x, t) \<Rightarrow> (Inr x, t))
      | failed # rest \<Rightarrow>
          (let s1 = s\<lparr>db_faults := rest\<rparr>
           in if failed then (Inl StoreError, s1) else case f s1 of (x, t) \<Rightarrow> (Inr x, t)))"

text \<open>One statement on a table with a constraint: it fails when the constraint would not hold.\<close>

definition constrained_call :: "(identity_db \<Rightarrow> bool) \<Rightarrow> (identity_db \<Rightarrow> 'a \<times> identity_db) \<Rightarrow> 'a db_op" where
  "constrained_call ok f =
     bind_op (store_call (\<lambda>s.
       if ok s then (case f s of (x, t) \<Rightarrow> (Inr x, t)) else (Inl StoreError, s))) lift_op"

definition get_principal :: "string \<Rightarrow> principal option db_op" where
  "get_principal pid = store_call (\<lambda>s. (find (\<lambda>p. prn_id p = pid) (db_principals s), s))"

definition get_tenant :: "string \<Rightarrow> tenant option db_op" where
  "get_tenant tid = store_call (\<lambda>s. (find (\<lambda>t. ten_id t = tid) (db_tenants s), s))"

definition select_memberships :: "membership_filter \<Rightarrow> membership list \<Rightarrow> membership list" where
  "select_memberships f rows =
     limited (mf_limit f)
       (ordered mem_created_at mem_id
         (filter (\<lambda>m. (mf_tenant_id f \<noteq> [] \<longrightarrow> mem_tenant_id m = mf_tenant_id f) \<and>
                      matches (mf_status f) (mem_status m) \<and> matches (mf_role f) (mem_role m)) rows))"

definition list_memberships :: "membership_filter \<Rightarrow> membership list db_op" where
  "list_memberships f = store_call (\<lambda>s. (select_memberships f (db_memberships s), s))"

definition list_token_tenant_grants :: "string \<Rightarrow> token_tenant_grant list db_op" where
  "list_token_tenant_grants tok =
     store_call (\<lambda>s. (ordered grant_created_at grant_id
       (filter (\<lambda>g. grant_token_id g = tok) (db_grants s)), s))"

definition upsert_tenant :: "tenant \<Rightarrow> unit db_op" where
  "upsert_tenant t = store_call (\<lambda>s. ((), s\<lparr>db_tenants := upsert ten_id t (db_tenants s)\<rparr>))"

definition upsert_principal :: "principal \<Rightarrow> unit db_op" where
  "upsert_principal p = store_call (\<lambda>s. ((), s\<lparr>db_principals := upsert prn_id p (db_principals s)\<rparr>))"

definition upsert_membership :: "membership \<Rightarrow> unit db_op" where
  "upsert_membership m =
     constrained_call
       (\<lambda>s. unique_index mem_id (\<lambda>x. (mem_tenant_id x, mem_principal_id x)) m (db_memberships s))
       (\<lambda>s. ((), s\<lparr>db_memberships := upsert mem_id m (db_memberships s)\<rparr>))"

definition upsert_tenant_invitation :: "tenant_invitation \<Rightarrow> unit db_op" where
  "upsert_tenant_invitation i =
     store_call (\<lambda>s. ((), s\<lparr>db_invitations := upsert inv_id i (db_invitations s)\<rparr>))"

definition upsert_token_tenant_grant :: "token_tenant_grant \<Rightarrow> unit db_op" where
  "upsert_token_tenant_grant g =
     constrained_call
       (\<lambda>s. unique_index grant_id (\<lambda>x. (grant_tenant_id x, grant_token_id x)) g (db_grants s))
       (\<lambda>s. ((), s\<lparr>db_grants := upsert grant_id g (db_grants s)\<rparr>))"

definition list_principals :: "principal_filter \<Rightarrow> principal list db_op" where
  "list_principals f =
     store_call (\<lambda>s.
       (limited (pf_limit f)
         (ordered prn_created_at prn_id
           (concat (map (\<lambda>p.
              if matches (pf_status f) (prn_status p) then
                (if pf_tenant_id f = [] then [p]
                 else map (\<lambda>_. p) (filter (\<lambda>m. mem_principal_id m = prn_id p \<and>
                        mem_tenant_id m = pf_tenant_id f) (db_memberships s)))
              else []) (db_principals s)))), s))"

definition select_invitations :: "invitation_filter \<Rightarrow> tenant_invitation list \<Rightarrow> tenant_invitation list" where
  "select_invitations f rows =
     limited (if_limit f)
       (ordered inv_created_at inv_id
         (filter (\<lambda>i. (if_tenant_id f \<noteq> [] \<longrightarrow> inv_tenant_id i = if_tenant_id f) \<and>
                      (if_principal_id f \<noteq> [] \<longrightarrow> inv_invited_principal_id i = if_principal_id f) \<and>
                      matches (if_status f) (inv_status i)) rows))"

definition list_tenant_invitations :: "invitation_filter \<Rightarrow> tenant_invitation list db_op" where
  "list_tenant_invitations f = store_call (\<lambda>s. (select_invitations f (db_invitations s), s))"

text \<open>\<open>TokenAuthority\<close>: what the resolver needs to know of a token.\<close>

record token_authority =
  ta_token_id :: string
  ta_principal_id :: string
  ta_default_tenant_id :: string
  ta_status :: lifecycle_status
  ta_expires_at :: "timestamp option"

fun lifecycle_of_token :: "token_status \<Rightarrow> lifecycle_status" where
  "lifecycle_of_token TokenActive = LifeActive"
| "lifecycle_of_token TokenRevoked = LifeRevoked"
| "lifecycle_of_token TokenExpired = LifeExpired"
| "lifecycle_of_token TokenRotated = LifeRotated"

definition authority_of :: "access_token \<Rightarrow> token_authority" where
  "authority_of t =
     \<lparr>ta_token_id = tok_id t, ta_principal_id = tok_principal_id t,
      ta_default_tenant_id = tok_default_tenant_id t,
      ta_status = lifecycle_of_token (tok_status t), ta_expires_at = tok_expires_at t\<rparr>"

definition list_token_authorities :: "token_authority list db_op" where
  "list_token_authorities =
     store_call (\<lambda>s. (map authority_of (ordered tok_created_at tok_id (db_auth_tokens s)), s))"

definition append_tenant_audit_event :: "timestamp \<Rightarrow> string \<Rightarrow> tenant_audit_event \<Rightarrow> tenant_audit_event db_op" where
  "append_tenant_audit_event now gen e =
     (let e1 = (if aud_id e = [] then e\<lparr>aud_id := gen\<rparr> else e);
          e2 = (if aud_created_at e1 = 0 then e1\<lparr>aud_created_at := now\<rparr> else e1)
      in constrained_call (\<lambda>s. aud_id e2 \<notin> aud_id ` set (db_audit s))
           (\<lambda>s. (e2, s\<lparr>db_audit := db_audit s @ [e2]\<rparr>)))"

section \<open>Lemmas on tables\<close>

lemma select_memberships_sound:
  assumes "m \<in> set (select_memberships f rows)"
  shows "m \<in> set rows" and "mf_tenant_id f \<noteq> [] \<Longrightarrow> mem_tenant_id m = mf_tenant_id f"
    and "matches (mf_status f) (mem_status m)" and "matches (mf_role f) (mem_role m)"
  using assms set_limited unfolding select_memberships_def by fastforce+

text \<open>A call that does not touch the part an invariant reads keeps it.\<close>

lemma keeps_store_call:
  assumes "\<And>s fs. I (s\<lparr>db_faults := fs\<rparr>) \<longleftrightarrow> I s" and "\<And>s. I s \<Longrightarrow> I (snd (f s))"
  shows "keeps I (store_call f)"
proof (rule keepsI)
  fix s
  assume "I s"
  then have "I (s\<lparr>db_faults := fs\<rparr>)" for fs using assms(1) by simp
  with assms(2) \<open>I s\<close> show "I (snd (store_call f s))"
    by (auto simp: store_call_def Let_def split: list.splits prod.splits) (metis snd_conv)+
qed

lemma keeps_constrained_call:
  assumes "\<And>s fs. I (s\<lparr>db_faults := fs\<rparr>) \<longleftrightarrow> I s" and "\<And>s. I s \<Longrightarrow> ok s \<Longrightarrow> I (snd (f s))"
  shows "keeps I (constrained_call ok f)"
  unfolding constrained_call_def
  by (intro keeps_bind keeps_lift keeps_store_call)
    (use assms in \<open>auto split: prod.splits\<close>, metis snd_conv)

text \<open>How a statement with a constraint ends.\<close>

lemma constrained_call_cases:
  assumes "constrained_call ok f s = (r, t)"
  shows "\<exists>fs. (\<exists>e. r = Inl e) \<and> t = s\<lparr>db_faults := fs\<rparr> \<or>
    (\<exists>x. r = Inr x \<and> ok (s\<lparr>db_faults := fs\<rparr>) \<and> f (s\<lparr>db_faults := fs\<rparr>) = (x, t))"
proof (cases "db_faults s")
  case Nil
  then have same: "s\<lparr>db_faults := []\<rparr> = s" by simp
  from Nil assms show ?thesis
    by (intro exI [of _ "[]"], unfold same)
      (auto simp: constrained_call_def store_call_def bind_op_def lift_op_def fail_op_def return_op_def
        split: prod.splits sum.splits if_splits)
next
  case (Cons b rest)
  with assms show ?thesis
    by (intro exI [of _ rest])
      (auto simp: constrained_call_def store_call_def bind_op_def lift_op_def fail_op_def return_op_def
        Let_def split: prod.splits sum.splits if_splits)
qed

lemma store_call_value:
  assumes "store_call f s = (Inr x, t)"
  obtains fs where "f (s\<lparr>db_faults := fs\<rparr>) = (x, t)"
proof (cases "db_faults s")
  case Nil
  then have "s\<lparr>db_faults := []\<rparr> = s" by simp
  with assms Nil that [of "[]"] show thesis by (auto simp: store_call_def split: prod.splits)
next
  case (Cons b rest)
  with assms that [of rest] show thesis
    by (auto simp: store_call_def Let_def split: prod.splits if_splits)
qed

end
