(* ===== verification/Identity_Manager.thy ===== *)
theory Identity_Manager
  imports Identity_Store
begin

text \<open>
  Tenant resolution and tenant management, crates/iam/identity/src/resolver.rs, audit.rs and
  manager.rs, over the tables of the store. The clock, random identifiers and the hash behind
  provisioned identifiers are parameters; a hash set is a list without repetitions whose order of
  iteration is a parameter.
\<close>

section \<open>The auditor\<close>

definition AUDIT_OUTCOME_SUCCEEDED :: string where
  "AUDIT_OUTCOME_SUCCEEDED = ''succeeded''"

definition audit_record :: "timestamp \<Rightarrow> tenant_audit_event \<Rightarrow> tenant_audit_event db_op" where
  "audit_record now e =
     append_tenant_audit_event now []
       (if aud_created_at e = 0 then e\<lparr>aud_created_at := now\<rparr> else e)"

definition audit_require :: "timestamp \<Rightarrow> tenant_audit_event \<Rightarrow> tenant_audit_event db_op" where
  "audit_require now e s =
     (case audit_record now e s of (Inl _, t) \<Rightarrow> (Inl AuditWriteFailed, t) | r \<Rightarrow> r)"

section \<open>The resolver\<close>

definition TENANT_SOURCE_DEFAULT :: string where
  "TENANT_SOURCE_DEFAULT = ''default''"

definition TENANT_SOURCE_EXPLICIT_HEADER :: string where
  "TENANT_SOURCE_EXPLICIT_HEADER = ''explicit_header''"

definition expired_at :: "timestamp option \<Rightarrow> timestamp \<Rightarrow> bool" where
  "expired_at e now \<longleftrightarrow> (case e of None \<Rightarrow> False | Some t \<Rightarrow> t \<le> now)"

definition active_grant :: "string \<Rightarrow> token_tenant_grant \<Rightarrow> bool" where
  "active_grant tid g \<longleftrightarrow> grant_tenant_id g = tid \<and> grant_status g = LifeActive"

definition token_has_tenant_grant :: "string \<Rightarrow> string \<Rightarrow> bool db_op" where
  "token_has_tenant_grant tok tid s =
     (case list_token_tenant_grants tok s of
        (Inl _, t) \<Rightarrow> (Inr False, t)
      | (Inr gs, t) \<Rightarrow> (Inr (list_ex (active_grant tid) gs), t))"

definition choose_tenant :: "token_authority \<Rightarrow> principal \<Rightarrow> string \<Rightarrow> string \<times> string" where
  "choose_tenant tok p selected =
     (if selected = []
      then (if ta_default_tenant_id tok = [] then prn_default_tenant_id p else ta_default_tenant_id tok,
            TENANT_SOURCE_DEFAULT)
      else (selected, TENANT_SOURCE_EXPLICIT_HEADER))"

definition membership_context ::
  "timestamp \<Rightarrow> token_authority \<Rightarrow> principal \<Rightarrow> string \<Rightarrow> string \<Rightarrow> membership \<Rightarrow> tenant_context" where
  "membership_context now tok p tid source m =
     \<lparr>ctx_principal_id = prn_id p, ctx_token_id = ta_token_id tok, ctx_tenant_id = tid,
      ctx_tenant_source = source, ctx_membership_id = mem_id m, ctx_role = Some (mem_role m),
      ctx_permissions = permissions_for_role (mem_role m) (mem_status m), ctx_resolved_at = now\<rparr>"

definition resolve :: "timestamp \<Rightarrow> token_authority \<Rightarrow> string \<Rightarrow> tenant_context db_op" where
  "resolve now tok selected =
     (if ta_token_id tok = [] \<or> ta_principal_id tok = [] \<or> ta_status tok \<noteq> LifeActive
      then fail_op TenantAccessDenied
      else if expired_at (ta_expires_at tok) now then fail_op TenantAccessDenied
      else
      bind_op (get_principal (ta_principal_id tok)) (\<lambda>po.
      case po of None \<Rightarrow> fail_op TenantAccessDenied | Some p \<Rightarrow>
      if prn_status p \<noteq> LifeActive then fail_op TenantAccessDenied
      else let (tid, source) = choose_tenant tok p selected in
      if tid = [] then fail_op TenantAccessDenied
      else
      bind_op (get_tenant tid) (\<lambda>to.
      case to of None \<Rightarrow> fail_op TenantAccessDenied | Some t \<Rightarrow>
      if ten_status t \<noteq> LifeActive then fail_op TenantAccessDenied
      else
      bind_op (token_has_tenant_grant (ta_token_id tok) tid) (\<lambda>granted.
      if \<not> granted then fail_op TenantAccessDenied
      else
      bind_op (list_memberships \<lparr>mf_tenant_id = tid, mf_status = Some LifeActive, mf_role = None,
                                 mf_limit = 500\<rparr>) (\<lambda>ms.
      case find (\<lambda>m. mem_principal_id m = prn_id p \<and> mem_status m = LifeActive) ms of
        None \<Rightarrow> fail_op TenantAccessDenied
      | Some m \<Rightarrow> return_op (membership_context now tok p tid source m))))))"

section \<open>Lookups of the manager\<close>

definition find_invitation :: "string \<Rightarrow> tenant_invitation db_op" where
  "find_invitation iid =
     bind_op (list_tenant_invitations \<lparr>if_tenant_id = [], if_principal_id = [], if_status = None,
                                       if_limit = 1000\<rparr>) (\<lambda>invs.
     case find (\<lambda>i. inv_id i = iid) invs of
       None \<Rightarrow> fail_op InvitationInvalid
     | Some i \<Rightarrow> return_op i)"

definition find_membership :: "string \<Rightarrow> string \<Rightarrow> membership db_op" where
  "find_membership tid mid =
     bind_op (list_memberships \<lparr>mf_tenant_id = tid, mf_status = None, mf_role = None,
                                mf_limit = 1000\<rparr>) (\<lambda>ms.
     case find (\<lambda>m. mem_id m = mid) ms of
       None \<Rightarrow> fail_op MembershipInvalid
     | Some m \<Rightarrow> return_op m)"

definition other_active_owner :: "string \<Rightarrow> membership \<Rightarrow> bool" where
  "other_active_owner mid m \<longleftrightarrow> mem_id m \<noteq> mid \<and> mem_status m = LifeActive \<and> mem_role m = Owner"

definition ensure_another_active_owner :: "string \<Rightarrow> string \<Rightarrow> unit db_op" where
  "ensure_another_active_owner tid mid =
     bind_op (list_memberships \<lparr>mf_tenant_id = tid, mf_status = Some LifeActive, mf_role = Some Owner,
                                mf_limit = 1000\<rparr>) (\<lambda>ms.
     if list_ex (other_active_owner mid) ms then return_op () else fail_op OwnerInvariant)"

definition token_principal_id :: "tenant_context \<Rightarrow> string \<Rightarrow> string db_op" where
  "token_principal_id actor tok =
     (if tok = [] then fail_op TokenGrantInvalid
      else if tok = ctx_token_id actor then return_op (ctx_principal_id actor)
      else bind_op list_token_authorities (\<lambda>tas.
        case find (\<lambda>ta. ta_token_id ta = tok \<and> ta_principal_id ta \<noteq> []) tas of
          None \<Rightarrow> fail_op TokenGrantInvalid
        | Some ta \<Rightarrow> return_op (ta_principal_id ta)))"

definition validate_token_tenant_grant_set ::
  "string \<Rightarrow> string list \<Rightarrow> string \<Rightarrow> string list db_op" where
  "validate_token_tenant_grant_set prn tids dflt =
     (if prn = [] \<or> tids = [] \<or> dflt = [] then fail_op TokenGrantInvalid
      else bind_op (list_memberships \<lparr>mf_tenant_id = [], mf_status = Some LifeActive, mf_role = None,
                                      mf_limit = 1000\<rparr>) (\<lambda>ms.
        let allowed = map mem_tenant_id (filter (\<lambda>m. mem_principal_id m = prn \<and> mem_status m = LifeActive) ms);
            seen = remdups (map trim tids)
        in if list_ex (\<lambda>t. trim t = [] \<or> trim t \<notin> set allowed) tids then fail_op TokenGrantInvalid
           else if dflt \<notin> set seen then fail_op TokenGrantInvalid
           else return_op seen))"

section \<open>Tenants and invitations\<close>

definition audit_event :: "timestamp \<Rightarrow> string \<Rightarrow> string \<Rightarrow> string \<Rightarrow> string \<Rightarrow> string \<Rightarrow> tenant_audit_event" where
  "audit_event now hex kind tid prn reason =
     audit_event_default\<lparr>aud_id := ''audit_'' @ hex, aud_event_kind := kind, aud_tenant_id := tid,
       aud_principal_id := prn, aud_outcome := AUDIT_OUTCOME_SUCCEEDED, aud_reason_code := reason,
       aud_created_at := now\<rparr>"

definition owner_membership :: "timestamp \<Rightarrow> string \<Rightarrow> string \<Rightarrow> string \<Rightarrow> membership" where
  "owner_membership now mid tid prn =
     \<lparr>mem_id = mid, mem_tenant_id = tid, mem_principal_id = prn, mem_role = Owner,
      mem_status = LifeActive, mem_invitation_id = [], mem_created_at = now, mem_updated_at = now,
      mem_accepted_at = Some now, mem_removed_at = None\<rparr>"

definition new_tenant ::
  "timestamp \<Rightarrow> string \<Rightarrow> tenant_kind \<Rightarrow> string \<Rightarrow> string \<Rightarrow> string \<Rightarrow> tenant" where
  "new_tenant now tid kind name creator owner =
     \<lparr>ten_id = tid, ten_kind = kind, ten_display_name = name, ten_status = LifeActive,
      ten_created_at = now, ten_updated_at = now, ten_created_by_principal_id = creator,
      ten_default_owner_principal_id = owner, ten_caller_membership_role = None,
      ten_caller_membership_status = None, ten_caller_permissions = [],
      ten_default_for_current_token = False, ten_default_for_current_principal = False\<rparr>"

definition new_grant ::
  "timestamp \<Rightarrow> string \<Rightarrow> string \<Rightarrow> string \<Rightarrow> bool \<Rightarrow> string \<Rightarrow> token_tenant_grant" where
  "new_grant now gid tok tid dflt by_prn =
     \<lparr>grant_id = gid, grant_token_id = tok, grant_tenant_id = tid, grant_is_default = dflt,
      grant_status = LifeActive, grant_created_at = now, grant_updated_at = now,
      grant_revoked_at = None, grant_granted_by_principal_id = by_prn\<rparr>"

definition create_organization_tenant ::
  "timestamp \<Rightarrow> string \<Rightarrow> string \<Rightarrow> string \<Rightarrow> string \<Rightarrow> tenant_context \<Rightarrow> string \<Rightarrow> (tenant \<times> membership) db_op"
where
  "create_organization_tenant now thex mhex ahex ghex actor name =
     then_op (lift_op (require_permission actor TenantManage))
     (let t = new_tenant now (''ten_'' @ thex) Organization (trim name) (ctx_principal_id actor)
                (ctx_principal_id actor);
          m = owner_membership now (''mem_'' @ mhex) (ten_id t) (ctx_principal_id actor)
      in if ten_display_name t = [] then fail_op TenantInvalid
         else
         then_op (audit_require now (audit_event now ahex ''tenant.organization_created'' (ten_id t)
                    (ctx_principal_id actor) ''organization_created''))
         (then_op (upsert_tenant t)
         (then_op (upsert_membership m)
         (then_op (if ctx_token_id actor \<noteq> []
                   then upsert_token_tenant_grant
                          (new_grant now (''grant_'' @ ghex) (ctx_token_id actor) (ten_id t) False
                            (ctx_principal_id actor))
                   else return_op ())
         (return_op (t, m))))))"

record create_invitation_input =
  cii_tenant_id :: string
  cii_invited_principal_id :: string
  cii_role :: "role option"
  cii_expires_at :: "timestamp option"

definition create_invitation ::
  "timestamp \<Rightarrow> string \<Rightarrow> string \<Rightarrow> tenant_context \<Rightarrow> create_invitation_input \<Rightarrow> tenant_invitation db_op" where
  "create_invitation now ihex ahex actor inp =
     then_op (lift_op (require_permission actor TenantManage))
     (case cii_role inp of
        None \<Rightarrow> fail_op InvitationInvalid
      | Some r \<Rightarrow>
        if cii_tenant_id inp = [] \<or> cii_invited_principal_id inp = [] then fail_op InvitationInvalid
        else if cii_tenant_id inp \<noteq> ctx_tenant_id actor then fail_op TenantAccessDenied
        else
        bind_op (get_principal (cii_invited_principal_id inp)) (\<lambda>po.
        if po = None then fail_op PrincipalInvalid
        else
        let i = \<lparr>inv_id = ''inv_'' @ ihex, inv_tenant_id = cii_tenant_id inp,
                 inv_invited_principal_id = cii_invited_principal_id inp,
                 inv_invited_by_principal_id = ctx_principal_id actor, inv_role = r,
                 inv_status = LifeInvited, inv_created_at = now, inv_updated_at = now,
                 inv_expires_at = cii_expires_at inp, inv_decided_at = None\<rparr>
        in then_op (audit_require now ((audit_event now ahex ''tenant.invitation_created''
                      (inv_tenant_id i) (ctx_principal_id actor) ''invitation_created'')
                        \<lparr>aud_target_principal_id := inv_invited_principal_id i\<rparr>))
           (then_op (upsert_tenant_invitation i) (return_op i))))"

definition accept_invitation ::
  "timestamp \<Rightarrow> string \<Rightarrow> string \<Rightarrow> string \<Rightarrow> string \<Rightarrow> membership db_op" where
  "accept_invitation now mhex ahex prn iid =
     bind_op (find_invitation iid) (\<lambda>i.
     if inv_invited_principal_id i \<noteq> prn \<or> inv_status i \<noteq> LifeInvited \<or> expired_at (inv_expires_at i) now
     then fail_op InvitationInvalid
     else
     bind_op (get_principal prn) (\<lambda>po.
     case po of None \<Rightarrow> fail_op PrincipalInvalid | Some p \<Rightarrow>
     if prn_status p \<noteq> LifeActive then fail_op PrincipalInvalid
     else
     let i' = i\<lparr>inv_status := LifeAccepted, inv_updated_at := now, inv_decided_at := Some now\<rparr>;
         m = \<lparr>mem_id = ''mem_'' @ mhex, mem_tenant_id = inv_tenant_id i', mem_principal_id = prn,
              mem_role = inv_role i', mem_status = LifeActive, mem_invitation_id = inv_id i',
              mem_created_at = now, mem_updated_at = now, mem_accepted_at = Some now,
              mem_removed_at = None\<rparr>
     in then_op (audit_require now (audit_event now ahex ''tenant.invitation_accepted''
                   (inv_tenant_id i') prn ''invitation_accepted''))
        (then_op (upsert_tenant_invitation i')
        (then_op (upsert_membership m) (return_op m)))))"

definition decide_invitation ::
  "timestamp \<Rightarrow> string \<Rightarrow> string \<Rightarrow> string \<Rightarrow> lifecycle_status \<Rightarrow> tenant_invitation db_op" where
  "decide_invitation now ahex prn iid status =
     (if status \<notin> {LifeRejected, LifeRevoked, LifeExpired} then fail_op InvitationInvalid
      else
      bind_op (find_invitation iid) (\<lambda>i.
      if status = LifeRejected \<and> inv_invited_principal_id i \<noteq> prn then fail_op InvitationInvalid
      else
      let i' = i\<lparr>inv_status := status, inv_updated_at := now, inv_decided_at := Some now\<rparr>
      in then_op (audit_require now ((audit_event now ahex
                    (''tenant.invitation_'' @ lifecycle_label status) (inv_tenant_id i') prn
                    (''invitation_'' @ lifecycle_label status))
                      \<lparr>aud_target_principal_id := inv_invited_principal_id i'\<rparr>))
         (then_op (upsert_tenant_invitation i') (return_op i'))))"

section \<open>Memberships\<close>

definition update_membership_role ::
  "timestamp \<Rightarrow> string \<Rightarrow> tenant_context \<Rightarrow> string \<Rightarrow> string \<Rightarrow> role \<Rightarrow> membership db_op" where
  "update_membership_role now ahex actor tid mid r =
     then_op (lift_op (require_permission actor TenantManage))
     (bind_op (find_membership tid mid) (\<lambda>m.
      then_op (if mem_role m = Owner \<and> r \<noteq> Owner then ensure_another_active_owner tid mid else return_op ())
      (let m' = m\<lparr>mem_role := r, mem_updated_at := now\<rparr>
       in then_op (audit_require now ((audit_event now ahex ''tenant.membership_role_updated'' tid
                     (ctx_principal_id actor) ''membership_role_updated'')
                       \<lparr>aud_target_principal_id := mem_principal_id m',
                        aud_document := Some [(''membershipId'', JString (mem_id m')),
                          (''newRole'', JString (role_as_str r)),
                          (''oldRole'', JString (role_as_str (mem_role m)))]\<rparr>))
          (then_op (upsert_membership m') (return_op m')))))"

definition remove_membership ::
  "timestamp \<Rightarrow> string \<Rightarrow> tenant_context \<Rightarrow> string \<Rightarrow> string \<Rightarrow> membership db_op" where
  "remove_membership now ahex actor tid mid =
     then_op (lift_op (require_permission actor TenantManage))
     (bind_op (find_membership tid mid) (\<lambda>m.
      then_op (if mem_role m = Owner then ensure_another_active_owner tid mid else return_op ())
      (let m' = m\<lparr>mem_status := LifeRemoved, mem_updated_at := now, mem_removed_at := Some now\<rparr>
       in then_op (audit_require now ((audit_event now ahex ''tenant.membership_removed'' tid
                     (ctx_principal_id actor) ''membership_removed'')
                       \<lparr>aud_target_principal_id := mem_principal_id m',
                        aud_document := Some [(''membershipId'', JString (mem_id m')),
                          (''newStatus'', JString (lifecycle_label LifeRemoved)),
                          (''oldRole'', JString (role_as_str (mem_role m')))]\<rparr>))
          (then_op (upsert_membership m') (return_op m')))))"

section \<open>Token grants\<close>

definition revoke_grant :: "timestamp \<Rightarrow> string list \<Rightarrow> token_tenant_grant \<Rightarrow> unit db_op" where
  "revoke_grant now seen g =
     (if grant_tenant_id g \<in> set seen \<and> grant_status g = LifeActive then return_op ()
      else if grant_status g = LifeActive
      then upsert_token_tenant_grant
             (g\<lparr>grant_status := LifeRevoked, grant_updated_at := now, grant_revoked_at := Some now\<rparr>)
      else return_op ())"

definition renew_grant ::
  "timestamp \<Rightarrow> (string \<Rightarrow> string) \<Rightarrow> tenant_context \<Rightarrow> string \<Rightarrow> string \<Rightarrow> token_tenant_grant list \<Rightarrow> string \<Rightarrow>
   token_tenant_grant db_op"
where
  "renew_grant now ghex actor tok dflt existing tid =
     (let g = (case find (\<lambda>g. grant_tenant_id g = tid) existing of
                 Some g \<Rightarrow> if grant_id g \<noteq> [] \<and> grant_status g = LifeActive then g
                           else new_grant now (''grant_'' @ ghex tid) tok tid False []
               | None \<Rightarrow> new_grant now (''grant_'' @ ghex tid) tok tid False []);
          g' = g\<lparr>grant_is_default := (tid = dflt), grant_updated_at := now, grant_revoked_at := None,
                 grant_granted_by_principal_id := ctx_principal_id actor\<rparr>
      in then_op (upsert_token_tenant_grant g') (return_op g'))"

definition replace_token_tenant_grants ::
  "timestamp \<Rightarrow> string \<Rightarrow> (string \<Rightarrow> string) \<Rightarrow> (string list \<Rightarrow> string list) \<Rightarrow> tenant_context \<Rightarrow> string \<Rightarrow>
   string list \<Rightarrow> string \<Rightarrow> token_tenant_grant list db_op"
where
  "replace_token_tenant_grants now ahex ghex iter actor tok tids dflt =
     then_op (lift_op (require_permission actor TenantManage))
     (bind_op (token_principal_id actor tok) (\<lambda>target.
      bind_op (validate_token_tenant_grant_set target tids dflt) (\<lambda>seen.
      if dflt = [] then fail_op TokenGrantInvalid
      else
      then_op (audit_require now ((audit_event now ahex ''tenant.token_grants_changed'' dflt
                 (ctx_principal_id actor) ''token_grants_changed'')
                   \<lparr>aud_target_principal_id := target, aud_token_id := tok\<rparr>))
      (bind_op (list_token_tenant_grants tok) (\<lambda>existing.
       then_op (each_op (revoke_grant now seen) existing)
       (each_op (renew_grant now ghex actor tok dflt existing) (iter seen)))))))"

definition validate_token_tenant_grants ::
  "tenant_context \<Rightarrow> string \<Rightarrow> string list \<Rightarrow> string \<Rightarrow> unit db_op" where
  "validate_token_tenant_grants actor tok tids dflt =
     then_op (lift_op (require_permission actor TenantManage))
     (bind_op (token_principal_id actor tok) (\<lambda>target.
      then_op (validate_token_tenant_grant_set target tids dflt) (return_op ())))"

definition ensure_token_grant :: "timestamp \<Rightarrow> (string \<Rightarrow> string) \<Rightarrow> principal \<Rightarrow> tenant \<Rightarrow> string \<Rightarrow> unit db_op" where
  "ensure_token_grant now ghex p t raw =
     (let tok = trim raw in
      if tok = [] then return_op ()
      else bind_op (list_token_tenant_grants tok) (\<lambda>gs.
        if list_ex (active_grant (ten_id t)) gs then return_op ()
        else upsert_token_tenant_grant
               (new_grant now (''grant_'' @ ghex tok) tok (ten_id t) True (prn_id p))))"

definition ensure_token_grants ::
  "timestamp \<Rightarrow> (string \<Rightarrow> string) \<Rightarrow> principal \<Rightarrow> tenant \<Rightarrow> string list \<Rightarrow> unit db_op" where
  "ensure_token_grants now ghex p t toks =
     then_op (each_op (ensure_token_grant now ghex p t) toks) (return_op ())"

section \<open>Bootstrap and provisioning\<close>

definition bootstrap_create ::
  "timestamp \<Rightarrow> string \<Rightarrow> string \<Rightarrow> string \<Rightarrow> string \<Rightarrow> (string \<Rightarrow> string) \<Rightarrow> string list \<Rightarrow> (principal \<times> tenant) db_op"
where
  "bootstrap_create now phex thex mhex ahex ghex toks =
     (let p = \<lparr>prn_id = ''prn_'' @ phex, prn_kind = LocalOperator, prn_display_name = ''Local operator'',
               prn_status = LifeActive, prn_default_tenant_id = ''ten_'' @ thex, prn_created_at = now,
               prn_updated_at = now, prn_disabled_at = None, prn_removed_at = None\<rparr>;
          t = new_tenant now (prn_default_tenant_id p) Personal ''Personal tenant'' (prn_id p) (prn_id p);
          m = owner_membership now (''mem_'' @ mhex) (ten_id t) (prn_id p)
      in then_op (upsert_principal p)
         (then_op (upsert_tenant t)
         (then_op (upsert_membership m)
         (then_op (audit_require now (audit_event now ahex ''tenant.bootstrap_completed'' (ten_id t)
                     (prn_id p) ''local_bootstrap''))
         (then_op (ensure_token_grants now ghex p t toks)
         (return_op (p, t)))))))"

definition bootstrap_local ::
  "timestamp \<Rightarrow> string \<Rightarrow> string \<Rightarrow> string \<Rightarrow> string \<Rightarrow> (string \<Rightarrow> string) \<Rightarrow> string list \<Rightarrow> (principal \<times> tenant) db_op"
where
  "bootstrap_local now phex thex mhex ahex ghex toks =
     bind_op (list_principals \<lparr>pf_tenant_id = [], pf_status = None, pf_limit = 1\<rparr>) (\<lambda>ps.
     case ps of
       [] \<Rightarrow> bootstrap_create now phex thex mhex ahex ghex toks
     | p # _ \<Rightarrow>
         bind_op (get_tenant (prn_default_tenant_id p)) (\<lambda>to.
         case to of
           None \<Rightarrow> bootstrap_create now phex thex mhex ahex ghex toks
         | Some t \<Rightarrow> then_op (ensure_token_grants now ghex p t toks) (return_op (p, t))))"

definition MAX_EXTERNAL_SUBJECT_LEN :: nat where
  "MAX_EXTERNAL_SUBJECT_LEN = 256"

text \<open>The hexadecimal SHA-256 digest is the parameter \<open>sha256\<close>.\<close>

definition provisioned_id_suffix :: "(string \<Rightarrow> string) \<Rightarrow> string \<Rightarrow> string" where
  "provisioned_id_suffix sha256 subject = take 16 (sha256 (''kura-provisioning:v1:'' @ subject))"

record provision_user_input =
  pui_external_subject :: string
  pui_display_name :: string

record provisioned_user =
  pu_principal :: principal
  pu_tenant :: tenant
  pu_membership :: membership
  pu_created :: bool

text \<open>Write a row only if it is missing.\<close>

definition or_create :: "'r option \<Rightarrow> 'r \<Rightarrow> ('r \<Rightarrow> unit db_op) \<Rightarrow> 'r db_op" where
  "or_create existing r put =
     (case existing of Some x \<Rightarrow> return_op x | None \<Rightarrow> then_op (put r) (return_op r))"

definition inactive :: "('r \<Rightarrow> lifecycle_status) \<Rightarrow> 'r option \<Rightarrow> bool" where
  "inactive status r \<longleftrightarrow> (case r of None \<Rightarrow> False | Some x \<Rightarrow> status x \<noteq> LifeActive)"

definition provision_user ::
  "(string \<Rightarrow> string) \<Rightarrow> timestamp \<Rightarrow> string \<Rightarrow> tenant_context \<Rightarrow> provision_user_input \<Rightarrow> provisioned_user db_op"
where
  "provision_user sha256 now ahex actor inp =
     (let subject = trim (pui_external_subject inp);
          suffix = provisioned_id_suffix sha256 subject;
          pid = ''prn_'' @ suffix; tid = ''ten_'' @ suffix; mid = ''mem_'' @ suffix;
          name = (if trim (pui_display_name inp) = [] then ''User'' else trim (pui_display_name inp))
      in if trim (ctx_principal_id actor) = [] then fail_op TenantContextRequired
         else if subject = [] \<or> length subject > MAX_EXTERNAL_SUBJECT_LEN
         then fail_op ProvisioningSubjectInvalid
         else if tid = ctx_tenant_id actor then fail_op TenantAccessDenied
         else
         bind_op (get_tenant tid) (\<lambda>to.
         bind_op (get_principal pid) (\<lambda>po.
         bind_op (list_memberships \<lparr>mf_tenant_id = tid, mf_status = None, mf_role = None,
                                    mf_limit = 0\<rparr>) (\<lambda>ms.
         let mo = find (\<lambda>m. mem_id m = mid) ms;
             created = (to = None \<or> po = None \<or> mo = None)
         in if inactive ten_status to \<or> inactive prn_status po \<or> inactive mem_status mo
            then fail_op ProvisioningIdentityInactive
            else
            then_op (if created
                     then then_op (audit_require now (audit_event now ahex ''tenant.user_provisioned''
                            tid (ctx_principal_id actor) ''user_provisioned'')) (return_op ())
                     else return_op ())
            (bind_op (or_create to (new_tenant now tid Personal (name @ CHR 0x27 # ''s workspace'')
                        (ctx_principal_id actor) pid) upsert_tenant) (\<lambda>t.
             bind_op (or_create po \<lparr>prn_id = pid, prn_kind = User, prn_display_name = name,
                        prn_status = LifeActive, prn_default_tenant_id = tid, prn_created_at = now,
                        prn_updated_at = now, prn_disabled_at = None, prn_removed_at = None\<rparr>
                        upsert_principal) (\<lambda>p.
             bind_op (or_create mo (owner_membership now mid tid pid) upsert_membership) (\<lambda>m.
             return_op \<lparr>pu_principal = p, pu_tenant = t, pu_membership = m, pu_created = created\<rparr>))))))))"

definition grant_provisioned_token ::
  "timestamp \<Rightarrow> string \<Rightarrow> tenant_context \<Rightarrow> provisioned_user \<Rightarrow> string \<Rightarrow> token_tenant_grant db_op" where
  "grant_provisioned_token now ghex actor u raw =
     (let tok = trim raw in
      if tok = [] then fail_op TokenGrantInvalid
      else let g = new_grant now (''grant_'' @ ghex) tok (ten_id (pu_tenant u)) True
                     (ctx_principal_id actor)
           in then_op (upsert_token_tenant_grant g) (return_op g))"

end
