(* ===== verification/Identity_Properties.thy ===== *)
theory Identity_Properties
  imports Identity_Manager
begin

text \<open>
  The properties of tenant management: what a resolved context guarantees, that a tenant with an
  active owner keeps one, that changes are audited first, that provisioning is idempotent, and what
  the fixed limits of the lookups and the renewal of grants do.
\<close>

section \<open>Calls that leave tables alone\<close>

text \<open>The database without the schedule of failures.\<close>

definition core :: "identity_db \<Rightarrow> identity_db" where
  "core s = s\<lparr>db_faults := []\<rparr>"

lemma core_faults [simp]: "core (s\<lparr>db_faults := fs\<rparr>) = core s"
  by (simp add: core_def)

lemma core_fields [simp]:
  "db_tenants (core s) = db_tenants s" "db_principals (core s) = db_principals s"
  "db_memberships (core s) = db_memberships s" "db_invitations (core s) = db_invitations s"
  "db_grants (core s) = db_grants s" "db_auth_tokens (core s) = db_auth_tokens s"
  "db_audit (core s) = db_audit s"
  by (simp_all add: core_def)

text \<open>A read returns a value of the core and changes nothing of it.\<close>

lemma triple_read:
  assumes "\<And>s fs. f (s\<lparr>db_faults := fs\<rparr>) = (g s, s\<lparr>db_faults := fs\<rparr>)" and "\<And>s. g (core s) = g s"
  shows "triple (\<lambda>s. P (core s)) (store_call f) (\<lambda>x s. P (core s) \<and> x = g s) (\<lambda>s. P (core s))"
proof (rule tripleI)
  fix s e t
  assume "P (core s)" "store_call f s = (Inl e, t)"
  then show "P (core t)"
    by (auto simp: store_call_def Let_def split: list.splits prod.splits if_splits)
next
  fix s x t
  assume P: "P (core s)" and call: "store_call f s = (Inr x, t)"
  from call obtain fs where "f (s\<lparr>db_faults := fs\<rparr>) = (x, t)" by (rule store_call_value)
  with assms(1) have t: "t = s\<lparr>db_faults := fs\<rparr>" "x = g s" by auto
  moreover have "g t = g s" using assms(2) [of t] assms(2) [of s] by (simp add: t)
  ultimately show "P (core t) \<and> x = g t" using P by simp
qed

lemma triple_list_memberships:
  "triple (\<lambda>s. P (core s)) (list_memberships f)
     (\<lambda>ms s. P (core s) \<and> ms = select_memberships f (db_memberships s)) (\<lambda>s. P (core s))"
  unfolding list_memberships_def by (rule triple_read) simp_all

lemma triple_list_tenant_invitations:
  "triple (\<lambda>s. P (core s)) (list_tenant_invitations f)
     (\<lambda>is s. P (core s) \<and> is = select_invitations f (db_invitations s)) (\<lambda>s. P (core s))"
  unfolding list_tenant_invitations_def by (rule triple_read) simp_all

lemma triple_get_principal:
  "triple (\<lambda>s. P (core s)) (get_principal pid)
     (\<lambda>po s. P (core s) \<and> po = find (\<lambda>p. prn_id p = pid) (db_principals s)) (\<lambda>s. P (core s))"
  unfolding get_principal_def by (rule triple_read) simp_all

lemma triple_get_tenant:
  "triple (\<lambda>s. P (core s)) (get_tenant tid)
     (\<lambda>to s. P (core s) \<and> to = find (\<lambda>t. ten_id t = tid) (db_tenants s)) (\<lambda>s. P (core s))"
  unfolding get_tenant_def by (rule triple_read) simp_all

lemma triple_list_grants:
  "triple (\<lambda>s. P (core s)) (list_token_tenant_grants tok)
     (\<lambda>gs s. P (core s) \<and> gs = ordered grant_created_at grant_id
        (filter (\<lambda>g. grant_token_id g = tok) (db_grants s))) (\<lambda>s. P (core s))"
  unfolding list_token_tenant_grants_def by (rule triple_read) simp_all

lemma keeps_reads [keeps_intros]:
  "keeps (\<lambda>s. P (core s)) (list_memberships f)"
  "keeps (\<lambda>s. P (core s)) (list_tenant_invitations i)"
  "keeps (\<lambda>s. P (core s)) (get_principal pid)"
  "keeps (\<lambda>s. P (core s)) (get_tenant tid)"
  "keeps (\<lambda>s. P (core s)) (list_token_tenant_grants tok)"
  by (rule keeps_of_triple, rule triple_list_memberships triple_list_tenant_invitations
      triple_get_principal triple_get_tenant triple_list_grants)+

lemma keeps_list_token_authorities [keeps_intros]: "keeps (\<lambda>s. P (core s)) list_token_authorities"
  unfolding list_token_authorities_def by (rule keeps_store_call) simp_all

lemma keeps_list_principals [keeps_intros]: "keeps (\<lambda>s. P (core s)) (list_principals f)"
  unfolding list_principals_def by (rule keeps_store_call) simp_all

section \<open>The resolver\<close>

text \<open>The conditions under which a token acts in a tenant.\<close>

definition entitled ::
  "identity_db \<Rightarrow> timestamp \<Rightarrow> token_authority \<Rightarrow> string \<Rightarrow> principal \<Rightarrow> membership \<Rightarrow> bool" where
  "entitled s now tok tid p m \<longleftrightarrow>
     ta_status tok = LifeActive \<and> \<not> expired_at (ta_expires_at tok) now \<and>
     p \<in> set (db_principals s) \<and> prn_id p = ta_principal_id tok \<and> prn_status p = LifeActive \<and>
     tid \<noteq> [] \<and> (\<exists>t \<in> set (db_tenants s). ten_id t = tid \<and> ten_status t = LifeActive) \<and>
     (\<exists>g \<in> set (db_grants s). grant_token_id g = ta_token_id tok \<and> active_grant tid g) \<and>
     m \<in> set (db_memberships s) \<and> mem_tenant_id m = tid \<and> mem_principal_id m = prn_id p \<and>
     mem_status m = LifeActive"

lemma triple_has_grant:
  "triple (\<lambda>s. P (core s)) (token_has_tenant_grant tok tid)
     (\<lambda>b s. P (core s) \<and> (b \<longrightarrow> (\<exists>g \<in> set (db_grants s). grant_token_id g = tok \<and> active_grant tid g)))
     (\<lambda>s. P (core s))"
proof -
  have "case token_has_tenant_grant tok tid s of (Inl e, t) \<Rightarrow> P (core t)
      | (Inr b, t) \<Rightarrow> P (core t) \<and> (b \<longrightarrow> (\<exists>g \<in> set (db_grants t). grant_token_id g = tok \<and> active_grant tid g))"
    if "P (core s)" for s
    using tripleD [OF triple_list_grants [of P tok] that]
    by (auto simp: token_has_tenant_grant_def list_ex_iff split: prod.split sum.split)
  then show ?thesis by (simp add: triple_def)
qed

text \<open>Reading from a database whose core is known.\<close>

abbreviation at_core :: "identity_db \<Rightarrow> identity_db \<Rightarrow> bool" where
  "at_core c s \<equiv> core s = c"

lemma triple_bind_read:
  assumes "triple (at_core c) m (\<lambda>x s. core s = c \<and> R x) (at_core c)"
    and "\<And>x. R x \<Longrightarrow> triple (at_core c) (f x) Q (at_core c)"
  shows "triple (at_core c) (bind_op m f) Q (at_core c)"
proof (rule triple_bind [OF assms(1)])
  show "triple (\<lambda>s. core s = c \<and> R x) (f x) Q (at_core c)" for x
    using assms(2) [of x] by (cases "R x") (auto simp: triple_def)
qed

lemma fail_at_core: "triple (at_core c) (fail_op e) Q (at_core c)"
  by (rule triple_fail)

lemma triple_read_at_core:
  assumes "triple (\<lambda>s. core s = c) m (\<lambda>x s. core s = c \<and> x = g s) (\<lambda>s. core s = c)"
    and "\<And>s. g (core s) = g s"
  shows "triple (at_core c) m (\<lambda>x s. core s = c \<and> x = g c) (at_core c)"
  using assms(1) by (rule triple_weaken) (auto simp: assms(2) dest: sym)

lemmas read_principal = triple_read_at_core [OF triple_get_principal [where P = "\<lambda>x. x = c" for c]]
lemmas read_tenant = triple_read_at_core [OF triple_get_tenant [where P = "\<lambda>x. x = c" for c]]
lemmas read_memberships =
  triple_read_at_core [OF triple_list_memberships [where P = "\<lambda>x. x = c" for c]]
lemmas read_invitations =
  triple_read_at_core [OF triple_list_tenant_invitations [where P = "\<lambda>x. x = c" for c]]
lemmas read_grants = triple_read_at_core [OF triple_list_grants [where P = "\<lambda>x. x = c" for c]]

lemma read_has_grant:
  "triple (at_core c) (token_has_tenant_grant tok tid)
     (\<lambda>b s. core s = c \<and> (b \<longrightarrow> (\<exists>g \<in> set (db_grants c). grant_token_id g = tok \<and> active_grant tid g)))
     (at_core c)"
  by (rule triple_weaken [OF triple_has_grant [where P = "\<lambda>x. x = c"]]) auto

lemma resolve_triple:
  "triple (at_core c) (resolve now tok sel)
     (\<lambda>ctx s. core s = c \<and> (\<exists>p m. entitled c now tok (fst (choose_tenant tok p sel)) p m \<and>
        ctx = membership_context now tok p (fst (choose_tenant tok p sel)) (snd (choose_tenant tok p sel)) m))
     (at_core c)" (is "triple _ _ ?Q _")
proof (cases "ta_token_id tok = [] \<or> ta_principal_id tok = [] \<or> ta_status tok \<noteq> LifeActive \<or>
    expired_at (ta_expires_at tok) now")
  case True
  then show ?thesis by (auto simp: resolve_def intro: fail_at_core)
next
  case token: False
  let ?ms = "\<lambda>tid. \<lparr>mf_tenant_id = tid, mf_status = Some LifeActive, mf_role = None, mf_limit = 500\<rparr>"
  have last: "triple (at_core c) (bind_op (list_memberships (?ms tid)) (\<lambda>ms.
      case find (\<lambda>m. mem_principal_id m = prn_id p \<and> mem_status m = LifeActive) ms of
        None \<Rightarrow> fail_op TenantAccessDenied | Some m \<Rightarrow> return_op (membership_context now tok p tid source m)))
      ?Q (at_core c)"
    if "find (\<lambda>p. prn_id p = ta_principal_id tok) (db_principals c) = Some p" "prn_status p = LifeActive"
      "choose_tenant tok p sel = (tid, source)" "tid \<noteq> []"
      "\<exists>t. find (\<lambda>t. ten_id t = tid) (db_tenants c) = Some t \<and> ten_status t = LifeActive"
      "\<exists>g \<in> set (db_grants c). grant_token_id g = ta_token_id tok \<and> active_grant tid g" for p tid source
  proof (rule triple_bind_read [OF read_memberships])
    fix ms
    assume ms: "ms = select_memberships (?ms tid) (db_memberships c)"
    show "triple (at_core c) (case find (\<lambda>m. mem_principal_id m = prn_id p \<and> mem_status m = LifeActive) ms of
        None \<Rightarrow> fail_op TenantAccessDenied | Some m \<Rightarrow> return_op (membership_context now tok p tid source m))
        ?Q (at_core c)"
    proof (cases "find (\<lambda>m. mem_principal_id m = prn_id p \<and> mem_status m = LifeActive) ms")
      case (Some m)
      then have "m \<in> set ms" "mem_principal_id m = prn_id p" "mem_status m = LifeActive"
        by (auto dest: find_SomeD)
      moreover from this(1) that(4) have "m \<in> set (db_memberships c)" "mem_tenant_id m = tid"
        unfolding ms by (auto dest: select_memberships_sound)
      ultimately have "entitled c now tok tid p m"
        using that token unfolding entitled_def by (auto dest!: find_SomeD)
      with Some that(3) show ?thesis
        by (auto simp: triple_def return_op_def intro!: exI [of _ p] exI [of _ m])
    qed (simp add: fail_at_core)
  qed simp
  show ?thesis
    using token unfolding resolve_def
    by (auto split: option.split prod.split simp: Let_def fail_at_core
        intro!: triple_bind_read [OF read_principal] triple_bind_read [OF read_tenant]
          triple_bind_read [OF read_has_grant] last) blast
qed

section \<open>Active owners\<close>

definition owner_of :: "string \<Rightarrow> membership \<Rightarrow> bool" where
  "owner_of tid m \<longleftrightarrow> mem_tenant_id m = tid \<and> mem_status m = LifeActive \<and> mem_role m = Owner"

text \<open>The membership rows have distinct keys and hold an active owner of the tenant.\<close>

definition owned :: "string \<Rightarrow> membership list \<Rightarrow> bool" where
  "owned tid rows \<longleftrightarrow> distinct (map mem_id rows) \<and> (\<exists>m \<in> set rows. owner_of tid m)"

lemma owned_upsert:
  assumes "owned tid rows" and "(\<exists>x \<in> set rows. mem_id x \<noteq> mem_id m \<and> owner_of tid x) \<or> owner_of tid m"
  shows "owned tid (upsert mem_id m rows)"
  using assms by (auto simp: owned_def distinct_upsert set_upsert)

lemma keeps_rows [keeps_intros]:
  "keeps (\<lambda>s. R (db_memberships s)) (list_memberships f)"
  "keeps (\<lambda>s. R (db_memberships s)) (list_tenant_invitations i)"
  "keeps (\<lambda>s. R (db_memberships s)) (get_principal pid)"
  "keeps (\<lambda>s. R (db_memberships s)) (get_tenant tid)"
  "keeps (\<lambda>s. R (db_memberships s)) (list_token_tenant_grants tok)"
  "keeps (\<lambda>s. R (db_memberships s)) list_token_authorities"
  "keeps (\<lambda>s. R (db_memberships s)) (list_principals pf)"
  "keeps (\<lambda>s. R (db_memberships s)) (upsert_tenant t)"
  "keeps (\<lambda>s. R (db_memberships s)) (upsert_principal p)"
  "keeps (\<lambda>s. R (db_memberships s)) (upsert_tenant_invitation iv)"
  "keeps (\<lambda>s. R (db_memberships s)) (upsert_token_tenant_grant g)"
  unfolding list_memberships_def list_tenant_invitations_def get_principal_def get_tenant_def
    list_token_tenant_grants_def list_token_authorities_def list_principals_def upsert_tenant_def
    upsert_principal_def upsert_tenant_invitation_def upsert_token_tenant_grant_def
  by (rule keeps_store_call keeps_constrained_call; simp)+

lemma keeps_rows_audit [keeps_intros]: "keeps (\<lambda>s. R (db_memberships s)) (audit_require now e)"
proof -
  have "keeps (\<lambda>s. R (db_memberships s)) (audit_record now e)"
    unfolding audit_record_def append_tenant_audit_event_def
    by (simp add: Let_def) (intro conjI impI keeps_constrained_call; simp)
  then show ?thesis
    unfolding keeps_def triple_def audit_require_def by (fastforce split: prod.splits sum.splits)
qed

lemma upsert_membership_triple:
  assumes "\<And>rows. R rows \<Longrightarrow> S rows" and "\<And>rows. R rows \<Longrightarrow> S (upsert mem_id m rows)"
  shows "triple (\<lambda>s. R (db_memberships s)) (upsert_membership m) (\<lambda>_ s. S (db_memberships s))
           (\<lambda>s. S (db_memberships s))"
proof -
  have "S (db_memberships t)" if "R (db_memberships s)" "upsert_membership m s = (r, t)" for s r t
    using constrained_call_cases [OF that(2) [unfolded upsert_membership_def]] that(1) assms by auto
  then show ?thesis by (intro tripleI) blast+
qed

text \<open>Adding a membership under a new key.\<close>

abbreviation owned_without :: "string \<Rightarrow> string \<Rightarrow> membership list \<Rightarrow> bool" where
  "owned_without tid mid rows \<equiv> owned tid rows \<and> mid \<notin> mem_id ` set rows"

lemma add_membership_triple:
  assumes "mem_id m = mid"
  shows "triple (\<lambda>s. owned_without T mid (db_memberships s)) (upsert_membership m)
           (\<lambda>_ s. owned T (db_memberships s)) (\<lambda>s. owned T (db_memberships s))"
proof (rule upsert_membership_triple [where R = "owned_without T mid" and S = "owned T"])
  fix rows
  assume "owned_without T mid rows"
  moreover from this assms have "mem_id x \<noteq> mem_id m" if "x \<in> set rows" for x
    using that by (metis image_eqI)
  ultimately show "owned T (upsert mem_id m rows)"
    by (intro owned_upsert) (auto simp: owned_def)
qed simp

lemma keeps_ensure_token_grants [keeps_intros]:
  "keeps (\<lambda>s. R (db_memberships s)) (ensure_token_grants now ghex p t toks)"
  unfolding ensure_token_grants_def ensure_token_grant_def Let_def
  by (intro keeps_intros)

lemma create_organization_tenant_owned:
  "triple (\<lambda>s. owned_without T (''mem_'' @ mhex) (db_memberships s))
     (create_organization_tenant now thex mhex ahex ghex actor name)
     (\<lambda>_ s. owned T (db_memberships s)) (\<lambda>s. owned T (db_memberships s))"
  unfolding create_organization_tenant_def Let_def
  by (intro triple_then triple_if triple_fail' keeps_intros keeps_rows [where R = "owned_without _ _"]
      keeps_rows_audit [where R = "owned_without _ _"] triple_after [OF add_membership_triple]
      keeps_rows [where R = "owned _"])
    (simp_all add: owner_membership_def)

text \<open>Lookups of memberships.\<close>

lemma find_membership_triple:
  "triple (\<lambda>s. R (db_memberships s)) (find_membership tid mid)
     (\<lambda>m s. R (db_memberships s) \<and> m \<in> set (db_memberships s) \<and> mem_id m = mid \<and>
        (tid \<noteq> [] \<longrightarrow> mem_tenant_id m = tid))
     (\<lambda>s. R (db_memberships s))"
  unfolding find_membership_def
proof (rule triple_bind)
  let ?f = "\<lparr>mf_tenant_id = tid, mf_status = None, mf_role = None, mf_limit = 1000\<rparr>"
  show "triple (\<lambda>s. R (db_memberships s)) (list_memberships ?f)
      (\<lambda>ms s. R (db_memberships s) \<and> ms = select_memberships ?f (db_memberships s))
      (\<lambda>s. R (db_memberships s))"
    using triple_list_memberships [where P = "\<lambda>c. R (db_memberships c)"] by simp
  show "triple (\<lambda>s. R (db_memberships s) \<and> ms = select_memberships ?f (db_memberships s))
      (case find (\<lambda>m. mem_id m = mid) ms of None \<Rightarrow> fail_op MembershipInvalid | Some m \<Rightarrow> return_op m)
      (\<lambda>m s. R (db_memberships s) \<and> m \<in> set (db_memberships s) \<and> mem_id m = mid \<and>
        (tid \<noteq> [] \<longrightarrow> mem_tenant_id m = tid)) (\<lambda>s. R (db_memberships s))" for ms
    by (cases "find (\<lambda>m. mem_id m = mid) ms")
      (auto simp: triple_def fail_op_def return_op_def dest!: find_SomeD dest: select_memberships_sound)
qed

lemma ensure_another_active_owner_triple:
  assumes "tid \<noteq> []"
  shows "triple (\<lambda>s. R (db_memberships s)) (ensure_another_active_owner tid mid)
     (\<lambda>_ s. R (db_memberships s) \<and> (\<exists>x \<in> set (db_memberships s). mem_id x \<noteq> mid \<and> owner_of tid x))
     (\<lambda>s. R (db_memberships s))"
  unfolding ensure_another_active_owner_def
proof (rule triple_bind)
  let ?f = "\<lparr>mf_tenant_id = tid, mf_status = Some LifeActive, mf_role = Some Owner, mf_limit = 1000\<rparr>"
  show "triple (\<lambda>s. R (db_memberships s)) (list_memberships ?f)
      (\<lambda>ms s. R (db_memberships s) \<and> ms = select_memberships ?f (db_memberships s))
      (\<lambda>s. R (db_memberships s))"
    using triple_list_memberships [where P = "\<lambda>c. R (db_memberships c)"] by simp
  have "\<exists>x \<in> set rows. mem_id x \<noteq> mid \<and> owner_of tid x"
    if "list_ex (other_active_owner mid) (select_memberships ?f rows)" for rows
  proof -
    from that obtain x where x: "x \<in> set (select_memberships ?f rows)" "other_active_owner mid x"
      by (auto simp: list_ex_iff)
    with select_memberships_sound(1,2) [OF x(1)] assms show ?thesis
      by (auto simp: other_active_owner_def owner_of_def)
  qed
  then show "triple (\<lambda>s. R (db_memberships s) \<and> ms = select_memberships ?f (db_memberships s))
      (if list_ex (other_active_owner mid) ms then return_op () else fail_op OwnerInvariant)
      (\<lambda>_ s. R (db_memberships s) \<and> (\<exists>x \<in> set (db_memberships s). mem_id x \<noteq> mid \<and> owner_of tid x))
      (\<lambda>s. R (db_memberships s))" for ms
    by (auto simp: triple_def fail_op_def return_op_def)
qed

text \<open>What makes it safe to write a changed membership.\<close>

definition safe_put :: "string \<Rightarrow> membership \<Rightarrow> membership list \<Rightarrow> bool" where
  "safe_put T m rows \<longleftrightarrow> owned T rows \<and> owned T (upsert mem_id m rows)"

lemma safe_put_other:
  assumes "owned T rows" and "m \<in> set rows" and "mem_id m' = mem_id m"
    and "owner_of T m \<Longrightarrow> owner_of T m' \<or> (\<exists>x \<in> set rows. mem_id x \<noteq> mem_id m \<and> owner_of T x)"
  shows "safe_put T m' rows"
proof -
  from assms(1) obtain x where x: "x \<in> set rows" "owner_of T x" and d: "distinct (map mem_id rows)"
    by (auto simp: owned_def)
  show ?thesis
  proof (cases "mem_id x = mem_id m")
    case True
    with d x assms(2) have "x = m" by (blast intro: same_key)
    with x assms(1,3,4) show ?thesis by (auto simp: safe_put_def intro!: owned_upsert)
  next
    case False
    with x assms(1,3) show ?thesis by (auto simp: safe_put_def intro!: owned_upsert)
  qed
qed

text \<open>The end of both membership operations: audit, then write.\<close>

lemma audited_put_triple:
  "triple (\<lambda>s. safe_put T m (db_memberships s))
     (then_op (audit_require now e) (then_op (upsert_membership m) (return_op m)))
     (\<lambda>_ s. owned T (db_memberships s)) (\<lambda>s. owned T (db_memberships s))"
  by (intro triple_then triple_after keeps_rows_audit [where R = "safe_put T m"]
      upsert_membership_triple [where R = "safe_put T m" and S = "owned T"]
      keeps_return) (auto simp: safe_put_def)

lemma guarded_put_triple:
  assumes "tid \<noteq> []" and "\<And>m. mem_id (f m) = mem_id m"
    and "\<And>m. owner_of T m \<Longrightarrow> \<not> needs m \<Longrightarrow> owner_of T (f m)" and "\<And>m. needs m \<Longrightarrow> mem_role m = Owner"
  shows "triple (\<lambda>s. owned T (db_memberships s))
     (bind_op (find_membership tid mid) (\<lambda>m.
      then_op (if needs m then ensure_another_active_owner tid mid else return_op ())
      (then_op (audit_require now (e m)) (then_op (upsert_membership (f m)) (return_op (f m))))))
     (\<lambda>_ s. owned T (db_memberships s)) (\<lambda>s. owned T (db_memberships s))"
proof (rule triple_bind [OF find_membership_triple])
  fix m
  let ?found = "\<lambda>rows. owned T rows \<and> m \<in> set rows \<and> mem_id m = mid \<and> (tid \<noteq> [] \<longrightarrow> mem_tenant_id m = tid)"
  have guard: "triple (\<lambda>s. ?found (db_memberships s))
      (if needs m then ensure_another_active_owner tid mid else return_op ())
      (\<lambda>_ s. safe_put T (f m) (db_memberships s)) (\<lambda>s. owned T (db_memberships s))"
  proof (cases "needs m")
    case True
    have "safe_put T (f m) rows" if "?found rows" "\<exists>x \<in> set rows. mem_id x \<noteq> mid \<and> owner_of tid x" for rows
      using that assms(1,2) by (intro safe_put_other [of T rows m]) (auto simp: owner_of_def)
    then show ?thesis
      using True by (simp, intro triple_weaken [OF ensure_another_active_owner_triple
            [OF assms(1), where R = ?found]]) auto
  next
    case False
    have "safe_put T (f m) rows" if "?found rows" for rows
      using that assms(2,3) False by (intro safe_put_other [of T rows m]) auto
    with False show ?thesis by (auto simp: triple_def return_op_def)
  qed
  show "triple (\<lambda>s. ?found (db_memberships s))
      (then_op (if needs m then ensure_another_active_owner tid mid else return_op ())
        (then_op (audit_require now (e m)) (then_op (upsert_membership (f m)) (return_op (f m)))))
      (\<lambda>_ s. owned T (db_memberships s)) (\<lambda>s. owned T (db_memberships s))"
    unfolding then_op_def [of "if needs m then ensure_another_active_owner tid mid else return_op ()"]
    by (rule triple_bind [OF guard audited_put_triple])
qed

lemma remove_membership_owned:
  "tid \<noteq> [] \<Longrightarrow> triple (\<lambda>s. owned T (db_memberships s)) (remove_membership now ahex actor tid mid)
     (\<lambda>_ s. owned T (db_memberships s)) (\<lambda>s. owned T (db_memberships s))"
  unfolding remove_membership_def Let_def
  by (intro triple_then keeps_lift guarded_put_triple) (auto simp: owner_of_def)

lemma update_membership_role_owned:
  "tid \<noteq> [] \<Longrightarrow> triple (\<lambda>s. owned T (db_memberships s)) (update_membership_role now ahex actor tid mid r)
     (\<lambda>_ s. owned T (db_memberships s)) (\<lambda>s. owned T (db_memberships s))"
  unfolding update_membership_role_def Let_def
  by (intro triple_then keeps_lift guarded_put_triple) (auto simp: owner_of_def)

lemma keeps_find_invitation [keeps_intros]: "keeps (\<lambda>s. R (db_memberships s)) (find_invitation iid)"
  unfolding find_invitation_def by (intro keeps_intros)

lemma accept_write_triple:
  "mem_id m = mid \<Longrightarrow> triple (\<lambda>s. owned_without T mid (db_memberships s))
     (then_op (audit_require now e)
       (then_op (upsert_tenant_invitation i) (then_op (upsert_membership m) (return_op m))))
     (\<lambda>_ s. owned T (db_memberships s)) (\<lambda>s. owned T (db_memberships s))"
  by (intro triple_then triple_after [OF add_membership_triple] keeps_return
      keeps_rows [where R = "owned_without _ _"] keeps_rows_audit [where R = "owned_without _ _"]) simp_all

lemma accept_invitation_owned:
  assumes "mid = ''mem_'' @ mhex"
  shows "triple (\<lambda>s. owned_without T mid (db_memberships s)) (accept_invitation now mhex ahex prn iid)
     (\<lambda>_ s. owned T (db_memberships s)) (\<lambda>s. owned T (db_memberships s))"
  unfolding accept_invitation_def Let_def
  by (intro triple_bind_keeps triple_if triple_fail' triple_case_option accept_write_triple
      keeps_find_invitation [where R = "owned_without _ _"] keeps_rows [where R = "owned_without _ _"])
    (simp_all add: assms)

lemma bootstrap_local_owned:
  assumes "mid = ''mem_'' @ mhex"
  shows "triple (\<lambda>s. owned_without T mid (db_memberships s))
     (bootstrap_local now phex thex mhex ahex ghex toks)
     (\<lambda>_ s. owned T (db_memberships s)) (\<lambda>s. owned T (db_memberships s))"
proof -
  let ?pre = "\<lambda>s. owned_without T mid (db_memberships s)"
  let ?post = "\<lambda>s. owned T (db_memberships s)"
  have create: "triple ?pre (bootstrap_create now phex thex mhex ahex ghex toks) (\<lambda>_. ?post) ?post"
    unfolding bootstrap_create_def Let_def
    by (intro triple_then triple_after [OF add_membership_triple] keeps_intros
        keeps_rows [where R = "owned_without _ _"]) (simp_all add: owner_membership_def assms keeps_intros)
  have "keeps ?pre (then_op (ensure_token_grants now ghex p t toks) (return_op (p, t)))" for p t
    by (intro keeps_then keeps_return keeps_ensure_token_grants [where R = "owned_without _ _"])
  then have found: "triple ?pre (then_op (ensure_token_grants now ghex p t toks) (return_op (p, t)))
      (\<lambda>_. ?post) ?post" for p t
    by (rule triple_of_keeps) simp
  show ?thesis
    unfolding bootstrap_local_def
    by (intro triple_bind_keeps keeps_rows [where R = "owned_without _ _"])
      (auto split: list.split option.split intro!: create found triple_bind_keeps
        keeps_rows [where R = "owned_without _ _"])
qed

text \<open>Provisioning writes its membership only when no row of the tenant has the key.\<close>

lemma keeps_or_create [keeps_intros]: "keeps I (put r) \<Longrightarrow> keeps I (or_create x r put)"
  unfolding or_create_def by (auto split: option.split intro!: keeps_intros)

abbreviation owned_unless :: "string \<Rightarrow> string \<Rightarrow> 'a option \<Rightarrow> membership list \<Rightarrow> bool" where
  "owned_unless T mid mo rows \<equiv> owned T rows \<and> (mo = None \<longrightarrow> mid \<notin> mem_id ` set rows)"

lemma or_create_membership_triple:
  assumes "mem_id m = mid"
  shows "triple (\<lambda>s. owned_unless T mid mo (db_memberships s)) (or_create mo m upsert_membership)
     (\<lambda>_ s. owned T (db_memberships s)) (\<lambda>s. owned T (db_memberships s))"
proof (cases mo)
  case None
  have "triple (\<lambda>s. owned_without T mid (db_memberships s)) (then_op (upsert_membership m) (return_op m))
      (\<lambda>_ s. owned T (db_memberships s)) (\<lambda>s. owned T (db_memberships s))"
    by (rule triple_after [OF add_membership_triple [OF assms] keeps_return])
  with None show ?thesis by (simp add: or_create_def)
qed (simp add: or_create_def triple_def return_op_def)

abbreviation key_of_tenant :: "string \<Rightarrow> string \<Rightarrow> membership list \<Rightarrow> bool" where
  "key_of_tenant mid tid rows \<equiv> \<forall>m \<in> set rows. mem_id m = mid \<longrightarrow> mem_tenant_id m = tid"

lemma list_tenant_memberships_triple:
  assumes "tid \<noteq> []"
  shows "triple (\<lambda>s. owned T (db_memberships s) \<and> key_of_tenant mid tid (db_memberships s))
     (list_memberships \<lparr>mf_tenant_id = tid, mf_status = None, mf_role = None, mf_limit = 0\<rparr>)
     (\<lambda>ms s. owned_unless T mid (find (\<lambda>m. mem_id m = mid) ms) (db_memberships s))
     (\<lambda>s. owned T (db_memberships s))"
proof -
  let ?f = "\<lparr>mf_tenant_id = tid, mf_status = None, mf_role = None, mf_limit = 0\<rparr>"
  let ?pre = "\<lambda>s. owned T (db_memberships s) \<and> key_of_tenant mid tid (db_memberships s)"
  have "owned_unless T mid (find (\<lambda>m. mem_id m = mid) (select_memberships ?f rows)) rows"
    if "owned T rows" "key_of_tenant mid tid rows" for rows
    using that assms by (auto simp: select_memberships_def limited_def find_None_iff)
  then show ?thesis
    using triple_list_memberships [where P = ?pre and f = ?f]
    by (elim triple_weaken) simp_all
qed

lemma provision_user_owned:
  assumes "suffix = provisioned_id_suffix sha256 (trim (pui_external_subject inp))"
  shows "triple (\<lambda>s. owned T (db_memberships s) \<and>
       key_of_tenant (''mem_'' @ suffix) (''ten_'' @ suffix) (db_memberships s))
     (provision_user sha256 now ahex actor inp)
     (\<lambda>_ s. owned T (db_memberships s)) (\<lambda>s. owned T (db_memberships s))"
proof -
  define mid where "mid = ''mem_'' @ suffix"
  let ?key = "\<lambda>rows. owned T rows \<and> key_of_tenant mid (''ten_'' @ suffix) rows"
  have tail: "triple (\<lambda>s. owned_unless T mid mo (db_memberships s))
      (then_op (if created then then_op (audit_require now e) (return_op ()) else return_op ())
        (bind_op (or_create to t upsert_tenant) (\<lambda>t'.
         bind_op (or_create po p upsert_principal) (\<lambda>p'.
         bind_op (or_create mo m upsert_membership) (\<lambda>m'. return_op (g t' p' m'))))))
      (\<lambda>_ s. owned T (db_memberships s)) (\<lambda>s. owned T (db_memberships s))"
    if "mem_id m = mid" for mo m created e to t po p and g :: "_ \<Rightarrow> _ \<Rightarrow> _ \<Rightarrow> provisioned_user"
    by (intro triple_then triple_bind_keeps keeps_if keeps_then keeps_return keeps_or_create
        keeps_rows_audit [where R = "owned_unless _ _ _"] keeps_rows [where R = "owned_unless _ _ _"]
        triple_bind [OF or_create_membership_triple [OF that]] triple_of_keeps) simp_all
  show ?thesis
    unfolding provision_user_def Let_def assms [symmetric] mid_def [symmetric]
    by (intro triple_if triple_fail' triple_bind_keeps keeps_rows [where R = ?key]
        triple_bind [OF list_tenant_memberships_triple [where mid = mid]] tail)
      (simp_all add: owner_membership_def)
qed

text \<open>The other operations write no membership.\<close>

lemma keeps_token_principal [keeps_intros]:
  "keeps (\<lambda>s. R (db_memberships s)) (token_principal_id actor tok)"
  unfolding token_principal_id_def by (intro keeps_intros)

lemma keeps_validate_set [keeps_intros]:
  "keeps (\<lambda>s. R (db_memberships s)) (validate_token_tenant_grant_set prn tids dflt)"
  unfolding validate_token_tenant_grant_set_def Let_def by (intro keeps_intros)

lemma keeps_rows_operations:
  "keeps (\<lambda>s. R (db_memberships s)) (create_invitation now ihex ahex actor inp)"
  "keeps (\<lambda>s. R (db_memberships s)) (decide_invitation now ahex prn iid status)"
  "keeps (\<lambda>s. R (db_memberships s)) (replace_token_tenant_grants now ahex ghex iter actor tok tids dflt)"
  "keeps (\<lambda>s. R (db_memberships s)) (grant_provisioned_token now hex actor u raw)"
  unfolding create_invitation_def decide_invitation_def replace_token_tenant_grants_def
    grant_provisioned_token_def revoke_grant_def renew_grant_def Let_def
  by (intro keeps_intros)+

section \<open>Runs in which no statement fails\<close>

lemma audit_record_eq:
  assumes "aud_id e \<noteq> []" and "aud_created_at e = now"
  shows "audit_record now e = constrained_call (\<lambda>s. aud_id e \<notin> aud_id ` set (db_audit s))
    (\<lambda>s. (e, s\<lparr>db_audit := db_audit s @ [e]\<rparr>))"
proof -
  have stamp: "(if aud_created_at e = 0 then e\<lparr>aud_created_at := now\<rparr> else e) = e" using assms(2) by simp
  show ?thesis
    unfolding audit_record_def append_tenant_audit_event_def Let_def stamp if_not_P [OF assms(1)] ..
qed

lemma store_call_ok: "db_faults s = [] \<Longrightarrow> store_call f s = (case f s of (x, t) \<Rightarrow> (Inr x, t))"
  by (simp add: store_call_def)

lemma constrained_call_ok:
  "db_faults s = [] \<Longrightarrow> constrained_call ok f s =
     (if ok s then (case f s of (x, t) \<Rightarrow> (Inr x, t)) else (Inl StoreError, s))"
  by (simp add: constrained_call_def store_call_ok bind_op_def lift_op_def fail_op_def return_op_def
      split: prod.split)

lemma audit_require_ok:
  assumes "db_faults s = []" "aud_id e \<noteq> []" "aud_created_at e = now" "aud_id e \<notin> aud_id ` set (db_audit s)"
  shows "audit_require now e s = (Inr e, s\<lparr>db_audit := db_audit s @ [e]\<rparr>)"
  using assms by (simp add: audit_require_def audit_record_eq constrained_call_ok)

lemmas run_ops = bind_op_def then_op_def fail_op_def return_op_def store_call_ok constrained_call_ok

lemma read_ok:
  assumes "db_faults s = []"
  shows "bind_op (get_tenant tid) f s = f (find (\<lambda>t. ten_id t = tid) (db_tenants s)) s"
    and "bind_op (get_principal pid) g s = g (find (\<lambda>p. prn_id p = pid) (db_principals s)) s"
    and "bind_op (list_memberships mf) h s = h (select_memberships mf (db_memberships s)) s"
  using assms by (simp_all add: bind_op_def store_call_ok get_tenant_def get_principal_def list_memberships_def)

lemma find_selected_membership:
  assumes "mem_id m = mid" and "mem_tenant_id m = tid"
  shows "find (\<lambda>x. mem_id x = mid) (select_memberships
    \<lparr>mf_tenant_id = tid, mf_status = None, mf_role = None, mf_limit = 0\<rparr> (upsert mem_id m rows)) = Some m"
  by (rule find_unique) (use assms in \<open>auto simp: select_memberships_def limited_def set_upsert\<close>)

end
