(* ===== verification/Identity_Theorems.thy ===== *)
theory Identity_Theorems
  imports Identity_Properties
begin

text \<open>
  The operations of the identity manager as steps on the tables, and the theorems about them: a
  resolved context is entitled to what it says, a tenant never loses its last active owner, a change
  is audited first, provisioning is idempotent. The theorems at the end show what the fixed limits,
  the unique indexes and the order of writes lead to.
\<close>

section \<open>The audit event comes first\<close>


lemma keeps_log [keeps_intros]:
  "keeps (\<lambda>s. A (db_audit s)) (list_token_tenant_grants tok)"
  "keeps (\<lambda>s. A (db_audit s)) (upsert_tenant t)"
  "keeps (\<lambda>s. A (db_audit s)) (upsert_principal p)"
  "keeps (\<lambda>s. A (db_audit s)) (upsert_tenant_invitation iv)"
  "keeps (\<lambda>s. A (db_audit s)) (upsert_membership m)"
  "keeps (\<lambda>s. A (db_audit s)) (upsert_token_tenant_grant g)"
  unfolding list_token_tenant_grants_def upsert_tenant_def upsert_principal_def
    upsert_tenant_invitation_def upsert_token_tenant_grant_def upsert_membership_def
  by (rule keeps_store_call keeps_constrained_call; simp)+







lemma audit_event_fields [simp]:
  "aud_id (audit_event now hex kind tid prn reason) \<noteq> []"
  "aud_created_at (audit_event now hex kind tid prn reason) = now"
  "aud_event_kind (audit_event now hex kind tid prn reason) = kind"
  "aud_principal_id (audit_event now hex kind tid prn reason) = prn"
  "aud_outcome (audit_event now hex kind tid prn reason) = AUDIT_OUTCOME_SUCCEEDED"
  by (simp_all add: audit_event_def)



section \<open>Operations as steps\<close>

text \<open>
  \<open>identity_op kind who ok s t\<close>: an operation of the manager that announces itself with an event of
  the kind \<open>kind\<close> by the principal \<open>who\<close> leads from \<open>s\<close> to \<open>t\<close>, with success or with an error. The
  predicate \<open>ok\<close> says of the membership rows that the identifiers the operation draws are new. The
  handlers pass the tenant of the request path, which is not empty, to the operations on memberships.
\<close>

inductive identity_op ::
  "string \<Rightarrow> string \<Rightarrow> (membership \<Rightarrow> bool) \<Rightarrow> identity_db \<Rightarrow> identity_db \<Rightarrow> bool" where
  create_organization: "create_organization_tenant now thex mhex ahex ghex actor name s = (r1, t) \<Longrightarrow>
    identity_op ''tenant.organization_created'' (ctx_principal_id actor)
      (\<lambda>m. mem_id m \<noteq> ''mem_'' @ mhex) s t"
| invite: "create_invitation now ihex ahex actor inp s = (r2, t) \<Longrightarrow>
    identity_op ''tenant.invitation_created'' (ctx_principal_id actor) (\<lambda>_. True) s t"
| accept: "accept_invitation now mhex ahex prn iid s = (r3, t) \<Longrightarrow>
    identity_op ''tenant.invitation_accepted'' prn (\<lambda>m. mem_id m \<noteq> ''mem_'' @ mhex) s t"
| decide: "decide_invitation now ahex prn iid status s = (r4, t) \<Longrightarrow>
    identity_op (''tenant.invitation_'' @ lifecycle_label status) prn (\<lambda>_. True) s t"
| change_role: "update_membership_role now ahex actor tid mid role s = (r5, t) \<Longrightarrow> tid \<noteq> [] \<Longrightarrow>
    identity_op ''tenant.membership_role_updated'' (ctx_principal_id actor) (\<lambda>_. True) s t"
| remove_member: "remove_membership now ahex actor tid mid s = (r6, t) \<Longrightarrow> tid \<noteq> [] \<Longrightarrow>
    identity_op ''tenant.membership_removed'' (ctx_principal_id actor) (\<lambda>_. True) s t"
| replace_grants: "replace_token_tenant_grants now ahex ghexs iter actor tok tids dflt s = (r7, t) \<Longrightarrow>
    identity_op ''tenant.token_grants_changed'' (ctx_principal_id actor) (\<lambda>_. True) s t"
| provision: "provision_user sha256 now ahex actor pinp s = (r8, t) \<Longrightarrow>
    suffix = provisioned_id_suffix sha256 (trim (pui_external_subject pinp)) \<Longrightarrow>
    identity_op ''tenant.user_provisioned'' (ctx_principal_id actor)
      (\<lambda>m. mem_id m = ''mem_'' @ suffix \<longrightarrow> mem_tenant_id m = ''ten_'' @ suffix) s t"

text \<open>All steps: these operations, and the two that write no event of their own.\<close>

inductive identity_step :: "identity_db \<Rightarrow> identity_db \<Rightarrow> bool" where
  operation: "identity_op kind who ok s t \<Longrightarrow> \<forall>m \<in> set (db_memberships s). ok m \<Longrightarrow> identity_step s t"
| bootstrap: "bootstrap_local now phex thex mhex ahex ghexs toks s = (r9, t) \<Longrightarrow>
    ''mem_'' @ mhex \<notin> mem_id ` set (db_memberships s) \<Longrightarrow> identity_step s t"
| grant_token: "grant_provisioned_token now ghex actor u raw s = (r10, t) \<Longrightarrow> identity_step s t"

lemma identity_op_owned:
  "identity_op kind who ok s t \<Longrightarrow> \<forall>m \<in> set (db_memberships s). ok m \<Longrightarrow> owned T (db_memberships s) \<Longrightarrow>
   owned T (db_memberships t)"
proof (induction rule: identity_op.induct)
  case (provision sha256 now ahex actor pinp s r8 t suffix)
  then show ?case using triple_result [OF provision_user_owned] by blast
next
  case (change_role now ahex actor tid mid role s r5 t)
  then show ?case using triple_result [OF update_membership_role_owned] by blast
next
  case (remove_member now ahex actor tid mid s r6 t)
  then show ?case using triple_result [OF remove_membership_owned] by blast
next
  case (create_organization now thex mhex ahex ghex actor name s r1 t)
  then have "owned_without T (''mem_'' @ mhex) (db_memberships s)" by (metis imageE)
  then show ?case using create_organization.hyps by (rule triple_result [OF create_organization_tenant_owned])
next
  case (accept now mhex ahex prn iid s r3 t)
  then have "owned_without T (''mem_'' @ mhex) (db_memberships s)" by (metis imageE)
  then show ?case using accept.hyps by (rule triple_result [OF accept_invitation_owned [OF refl]])
qed (auto dest: keepsD [OF keeps_rows_operations(1)] keepsD [OF keeps_rows_operations(2)]
      keepsD [OF keeps_rows_operations(3)])

interpretation identity: invariant_system "\<lambda>s. owned T (db_memberships s)" identity_step
  "\<lambda>s. owned T (db_memberships s)" for T
proof unfold_locales
  fix s t
  assume "identity_step s t" "owned T (db_memberships s)"
  then show "owned T (db_memberships t)"
  proof (induction rule: identity_step.induct)
    case (bootstrap now phex thex mhex ahex ghexs toks s r9 t)
    then show ?case using triple_result [OF bootstrap_local_owned [OF refl]] by blast
  next
    case (grant_token now ghex actor u raw s r10 t)
    then show ?case using keepsD [OF keeps_rows_operations(4)] by blast
  qed (rule identity_op_owned)
qed


section \<open>Provisioning\<close>

text \<open>The three rows of a provisioned user, as the operation looks them up.\<close>

definition provisioned :: "string \<Rightarrow> provisioned_user \<Rightarrow> identity_db \<Rightarrow> bool" where
  "provisioned suffix u s \<longleftrightarrow> db_faults s = [] \<and>
     find (\<lambda>t. ten_id t = ''ten_'' @ suffix) (db_tenants s) = Some (pu_tenant u) \<and>
     find (\<lambda>p. prn_id p = ''prn_'' @ suffix) (db_principals s) = Some (pu_principal u) \<and>
     find (\<lambda>m. mem_id m = ''mem_'' @ suffix) (select_memberships
       \<lparr>mf_tenant_id = ''ten_'' @ suffix, mf_status = None, mf_role = None, mf_limit = 0\<rparr> (db_memberships s)) =
       Some (pu_membership u) \<and>
     ten_status (pu_tenant u) = LifeActive \<and> prn_status (pu_principal u) = LifeActive \<and>
     mem_status (pu_membership u) = LifeActive"

lemma or_create_ok:
  assumes "db_faults s = []"
  shows "or_create to t upsert_tenant s =
      (Inr (case to of None \<Rightarrow> t | Some x \<Rightarrow> x),
       s\<lparr>db_tenants := (case to of None \<Rightarrow> upsert ten_id t (db_tenants s) | _ \<Rightarrow> db_tenants s)\<rparr>)"
    and "or_create po p upsert_principal s =
      (Inr (case po of None \<Rightarrow> p | Some x \<Rightarrow> x),
       s\<lparr>db_principals := (case po of None \<Rightarrow> upsert prn_id p (db_principals s) | _ \<Rightarrow> db_principals s)\<rparr>)"
    and "or_create mo m upsert_membership s = (Inr m', t') \<Longrightarrow>
      m' = (case mo of None \<Rightarrow> m | Some x \<Rightarrow> x) \<and>
      t' = s\<lparr>db_memberships := (case mo of None \<Rightarrow> upsert mem_id m (db_memberships s) | _ \<Rightarrow> db_memberships s)\<rparr>"
  using assms by (auto simp: or_create_def run_ops upsert_tenant_def upsert_principal_def
      upsert_membership_def split: option.splits if_splits)

lemma audit_require_log:
  assumes "db_faults s = []" "audit_require now (audit_event now hex kind tid prn reason) s = (Inr e, t)"
  shows "\<exists>log. t = s\<lparr>db_audit := log\<rparr>"
  using assms by (auto simp: audit_require_def audit_record_eq constrained_call_ok split: if_splits)

lemma provision_existing:
  assumes "provisioned suffix u s" "suffix = provisioned_id_suffix sha256 (trim (pui_external_subject inp))"
    and "trim (ctx_principal_id actor) \<noteq> []" "trim (pui_external_subject inp) \<noteq> []"
      "length (trim (pui_external_subject inp)) \<le> MAX_EXTERNAL_SUBJECT_LEN" "''ten_'' @ suffix \<noteq> ctx_tenant_id actor"
  shows "provision_user sha256 now ahex actor inp s = (Inr (u\<lparr>pu_created := False\<rparr>), s)"
proof -
  have faults: "db_faults s = []" and finds:
    "find (\<lambda>t. ten_id t = ''ten_'' @ suffix) (db_tenants s) = Some (pu_tenant u)"
    "find (\<lambda>p. prn_id p = ''prn_'' @ suffix) (db_principals s) = Some (pu_principal u)"
    "find (\<lambda>m. mem_id m = ''mem_'' @ suffix) (select_memberships
       \<lparr>mf_tenant_id = ''ten_'' @ suffix, mf_status = None, mf_role = None, mf_limit = 0\<rparr> (db_memberships s)) =
       Some (pu_membership u)"
    and act: "ten_status (pu_tenant u) = LifeActive" "prn_status (pu_principal u) = LifeActive"
     "mem_status (pu_membership u) = LifeActive"
    using assms(1) by (simp_all add: provisioned_def)
  show ?thesis
    unfolding provision_user_def assms(2) [symmetric] Let_def
    using assms(3-6) faults finds act
    by (simp del: append.simps add: run_ops get_tenant_def get_principal_def list_memberships_def inactive_def
        or_create_def)
qed

text \<open>What the writes of a successful run leave behind.\<close>

lemma provision_rows:
  assumes "db_faults s = []"
    and to: "find (\<lambda>t. ten_id t = ''ten_'' @ suffix) (db_tenants s) = to" "\<not> inactive ten_status to"
      "ten_id ten = ''ten_'' @ suffix" "ten_status ten = LifeActive"
    and po: "find (\<lambda>p. prn_id p = ''prn_'' @ suffix) (db_principals s) = po" "\<not> inactive prn_status po"
      "prn_id prn = ''prn_'' @ suffix" "prn_status prn = LifeActive"
    and mo: "find (\<lambda>m. mem_id m = ''mem_'' @ suffix) (select_memberships
       \<lparr>mf_tenant_id = ''ten_'' @ suffix, mf_status = None, mf_role = None, mf_limit = 0\<rparr> (db_memberships s)) = mo"
      "\<not> inactive mem_status mo" "mem_id mem = ''mem_'' @ suffix" "mem_tenant_id mem = ''ten_'' @ suffix"
      "mem_status mem = LifeActive"
    and run: "bind_op (or_create to ten upsert_tenant) (\<lambda>t'.
       bind_op (or_create po prn upsert_principal) (\<lambda>p'.
       bind_op (or_create mo mem upsert_membership) (\<lambda>m'. return_op
         \<lparr>pu_principal = p', pu_tenant = t', pu_membership = m', pu_created = created\<rparr>))) s = (Inr u, t)"
  shows "provisioned suffix u t"
proof -
  from run obtain m where m: "or_create mo mem upsert_membership
      (s\<lparr>db_tenants := (case to of None \<Rightarrow> upsert ten_id ten (db_tenants s) | _ \<Rightarrow> db_tenants s),
         db_principals := (case po of None \<Rightarrow> upsert prn_id prn (db_principals s) | _ \<Rightarrow> db_principals s)\<rparr>) = (Inr m, t)"
    and u: "u = \<lparr>pu_principal = (case po of None \<Rightarrow> prn | Some x \<Rightarrow> x),
      pu_tenant = (case to of None \<Rightarrow> ten | Some x \<Rightarrow> x), pu_membership = m, pu_created = created\<rparr>"
    using assms(1) by (auto simp: bind_op_def or_create_ok return_op_def split: prod.splits sum.splits
        cong: option.case_cong)
  from or_create_ok(3) [OF _ m] assms(1) have m': "m = (case mo of None \<Rightarrow> mem | Some x \<Rightarrow> x)"
    and t: "db_faults t = []"
      "db_tenants t = (case to of None \<Rightarrow> upsert ten_id ten (db_tenants s) | _ \<Rightarrow> db_tenants s)"
      "db_principals t = (case po of None \<Rightarrow> upsert prn_id prn (db_principals s) | _ \<Rightarrow> db_principals s)"
      "db_memberships t = (case mo of None \<Rightarrow> upsert mem_id mem (db_memberships s) | _ \<Rightarrow> db_memberships s)"
    by (simp_all cong: option.case_cong)
  have "find (\<lambda>t. ten_id t = ''ten_'' @ suffix) (db_tenants t) = Some (pu_tenant u) \<and>
      ten_status (pu_tenant u) = LifeActive"
    using to unfolding t(2) u by (cases to) (simp_all add: find_upsert inactive_def)
  moreover have "find (\<lambda>p. prn_id p = ''prn_'' @ suffix) (db_principals t) = Some (pu_principal u) \<and>
      prn_status (pu_principal u) = LifeActive"
    using po unfolding t(3) u by (cases po) (simp_all add: find_upsert inactive_def)
  moreover have "find (\<lambda>m. mem_id m = ''mem_'' @ suffix) (select_memberships
       \<lparr>mf_tenant_id = ''ten_'' @ suffix, mf_status = None, mf_role = None, mf_limit = 0\<rparr> (db_memberships t)) =
       Some (pu_membership u) \<and> mem_status (pu_membership u) = LifeActive"
    using mo m' unfolding t(4) u by (cases mo) (simp_all add: find_selected_membership inactive_def)
  ultimately show ?thesis using t(1) by (simp only: provisioned_def simp_thms)
qed

lemma optional_audit:
  assumes "db_faults s = []"
    and "then_op (if created then then_op (audit_require now (audit_event now hex kind tid prn reason)) (return_op ())
       else return_op ()) rows s = (Inr u, t)"
  shows "\<exists>log. rows (s\<lparr>db_audit := log\<rparr>) = (Inr u, t)"
proof (cases created)
  case True
  obtain r s1 where r: "audit_require now (audit_event now hex kind tid prn reason) s = (r, s1)" by fastforce
  with True assms(2) obtain e where "r = Inr e" "rows s1 = (Inr u, t)"
    by (cases r) (simp_all add: then_op_def bind_op_def return_op_def)
  with r audit_require_log [OF assms(1)] show ?thesis by blast
next
  case False
  have "s\<lparr>db_audit := db_audit s\<rparr> = s" by simp
  moreover from False assms(2) have "rows s = (Inr u, t)" by (simp add: then_op_def bind_op_def return_op_def)
  ultimately show ?thesis by metis
qed

lemma provision_result:
  assumes "db_faults s = []" and "provision_user sha256 now ahex actor inp s = (Inr u, t)"
    and "suffix = provisioned_id_suffix sha256 (trim (pui_external_subject inp))"
  shows "provisioned suffix u t \<and> trim (pui_external_subject inp) \<noteq> [] \<and>
    length (trim (pui_external_subject inp)) \<le> MAX_EXTERNAL_SUBJECT_LEN"
proof -
  define to where "to = find (\<lambda>t. ten_id t = ''ten_'' @ suffix) (db_tenants s)"
  define po where "po = find (\<lambda>p. prn_id p = ''prn_'' @ suffix) (db_principals s)"
  define mo where "mo = find (\<lambda>m. mem_id m = ''mem_'' @ suffix) (select_memberships
       \<lparr>mf_tenant_id = ''ten_'' @ suffix, mf_status = None, mf_role = None, mf_limit = 0\<rparr> (db_memberships s))"
  define created where "created = (to = None \<or> po = None \<or> mo = None)"
  obtain name where "(if trim (ctx_principal_id actor) = [] then fail_op TenantContextRequired
     else if trim (pui_external_subject inp) = [] \<or>
       length (trim (pui_external_subject inp)) > MAX_EXTERNAL_SUBJECT_LEN then fail_op ProvisioningSubjectInvalid
     else if ''ten_'' @ suffix = ctx_tenant_id actor then fail_op TenantAccessDenied
     else if inactive ten_status to \<or> inactive prn_status po \<or> inactive mem_status mo
     then fail_op ProvisioningIdentityInactive
     else then_op (if created then then_op (audit_require now (audit_event now ahex ''tenant.user_provisioned''
            (''ten_'' @ suffix) (ctx_principal_id actor) ''user_provisioned'')) (return_op ()) else return_op ())
       (bind_op (or_create to (new_tenant now (''ten_'' @ suffix) Personal (name @ CHR 0x27 # ''s workspace'')
                        (ctx_principal_id actor) (''prn_'' @ suffix)) upsert_tenant) (\<lambda>t.
        bind_op (or_create po \<lparr>prn_id = ''prn_'' @ suffix, prn_kind = User, prn_display_name = name,
                        prn_status = LifeActive, prn_default_tenant_id = ''ten_'' @ suffix, prn_created_at = now,
                        prn_updated_at = now, prn_disabled_at = None, prn_removed_at = None\<rparr> upsert_principal) (\<lambda>p.
        bind_op (or_create mo (owner_membership now (''mem_'' @ suffix) (''ten_'' @ suffix) (''prn_'' @ suffix))
                        upsert_membership) (\<lambda>m.
        return_op \<lparr>pu_principal = p, pu_tenant = t, pu_membership = m, pu_created = created\<rparr>))))) s = (Inr u, t)"
    using assms(2)
    unfolding provision_user_def assms(3) [symmetric] Let_def created_def to_def po_def mo_def
    by (simp only: read_ok [OF assms(1)] if_distribR)
  note 1 = guardD [OF this] note 2 = guardD [OF 1(2)] note 3 = guardD [OF 2(2)] note 4 = guardD [OF 3(2)]
  from optional_audit [OF assms(1) 4(2)] obtain log where log: "bind_op (or_create to
      (new_tenant now (''ten_'' @ suffix) Personal (name @ CHR 0x27 # ''s workspace'')
        (ctx_principal_id actor) (''prn_'' @ suffix)) upsert_tenant) (\<lambda>t.
    bind_op (or_create po \<lparr>prn_id = ''prn_'' @ suffix, prn_kind = User, prn_display_name = name,
        prn_status = LifeActive, prn_default_tenant_id = ''ten_'' @ suffix, prn_created_at = now,
        prn_updated_at = now, prn_disabled_at = None, prn_removed_at = None\<rparr> upsert_principal) (\<lambda>p.
    bind_op (or_create mo (owner_membership now (''mem_'' @ suffix) (''ten_'' @ suffix) (''prn_'' @ suffix))
        upsert_membership) (\<lambda>m.
    return_op \<lparr>pu_principal = p, pu_tenant = t, pu_membership = m, pu_created = created\<rparr>)))
      (s\<lparr>db_audit := log\<rparr>) = (Inr u, t)" by blast
  have "provisioned suffix u t"
    by (rule provision_rows [OF _ _ _ _ _ _ _ _ _ _ _ _ _ _ log])
      (use assms(1) 4(1) in \<open>simp_all add: to_def po_def mo_def new_tenant_def owner_membership_def\<close>)
  with 2(1) show ?thesis by (simp add: not_less)
qed

section \<open>An example\<close>

text \<open>A tenant with two owners, the first of them acting with a granted token.\<close>

definition sample_db :: identity_db where
  "sample_db =
     \<lparr>db_tenants = [new_tenant 1 ''t1'' Organization ''Org'' ''a'' ''a''],
      db_principals = [\<lparr>prn_id = ''a'', prn_kind = User, prn_display_name = ''A'', prn_status = LifeActive,
        prn_default_tenant_id = ''t1'', prn_created_at = 1, prn_updated_at = 1, prn_disabled_at = None,
        prn_removed_at = None\<rparr>],
      db_memberships = [owner_membership 1 ''m1'' ''t1'' ''a'', owner_membership 2 ''m2'' ''t1'' ''b''],
      db_invitations = [], db_grants = [new_grant 1 ''g1'' ''k1'' ''t1'' True ''a''],
      db_auth_tokens = [], db_audit = [], db_faults = []\<rparr>"

definition sample_authority :: token_authority where
  "sample_authority = \<lparr>ta_token_id = ''k1'', ta_principal_id = ''a'', ta_default_tenant_id = ''t1'',
     ta_status = LifeActive, ta_expires_at = Some 9\<rparr>"

definition sample_actor :: tenant_context where
  "sample_actor = membership_context 3 sample_authority (hd (db_principals sample_db)) ''t1''
     TENANT_SOURCE_DEFAULT (hd (db_memberships sample_db))"

lemma sample_removes_member:
  "identity_op ''tenant.membership_removed'' ''a'' (\<lambda>_. True) sample_db
     (snd (remove_membership 5 ''x'' sample_actor ''t1'' ''m1'' sample_db))"
proof -
  have "ctx_principal_id sample_actor = ''a''" by code_simp
  then show ?thesis using remove_member [OF prod.collapse [symmetric]] by (metis list.distinct(1))
qed

section \<open>Theorems\<close>

text \<open>
  C4. Resolution is sound: a context is only issued for an active, unexpired token of an active
  principal, in an active tenant that an active grant of the token names and in which the principal
  has an active membership. The context names that principal, tenant and membership and carries
  exactly the permissions of the role; a tenant selected in the request is the one resolved. The
  resolver changes no table.
\<close>

theorem resolve_sound:
  assumes "resolve now tok selected s = (Inr ctx, t)"
  shows "core t = core s \<and> (selected \<noteq> [] \<longrightarrow> ctx_tenant_id ctx = selected) \<and>
    (\<exists>p m. entitled s now tok (ctx_tenant_id ctx) p m \<and> ctx_principal_id ctx = prn_id p \<and>
       ctx_token_id ctx = ta_token_id tok \<and> ctx_membership_id ctx = mem_id m \<and>
       ctx_role ctx = Some (mem_role m) \<and>
       ctx_permissions ctx = permissions_for_role (mem_role m) LifeActive)"
proof -
  from tripleD(2) [OF resolve_triple refl assms] obtain p m where *: "core t = core s"
    "entitled (core s) now tok (fst (choose_tenant tok p selected)) p m"
    "ctx = membership_context now tok p (fst (choose_tenant tok p selected))
       (snd (choose_tenant tok p selected)) m" by blast
  then have "mem_status m = LifeActive" by (simp add: entitled_def)
  with * show ?thesis
    by (intro conjI exI [of _ p] exI [of _ m])
      (simp_all add: membership_context_def choose_tenant_def entitled_def)
qed

theorem resolve_sound_witness:
  "\<exists>ctx. fst (resolve 5 sample_authority ''t1'' sample_db) = Inr ctx \<and> ctx_tenant_id ctx = ''t1'' \<and>
     ctx_role ctx = Some Owner"
proof -
  obtain ctx where fst: "fst (resolve 5 sample_authority ''t1'' sample_db) = Inr ctx"
    and role: "ctx_role ctx = Some Owner"
  proof
    show "fst (resolve 5 sample_authority ''t1'' sample_db) =
        Inr (sample_actor\<lparr>ctx_resolved_at := 5, ctx_tenant_source := TENANT_SOURCE_EXPLICIT_HEADER\<rparr>)"
      by code_simp
  qed code_simp
  from fst have "resolve 5 sample_authority ''t1'' sample_db =
      (Inr ctx, snd (resolve 5 sample_authority ''t1'' sample_db))" by (metis prod.collapse)
  from resolve_sound [OF this] fst role show ?thesis by blast
qed

text \<open>
  C3. A tenant that has an active owner has one after any sequence of identity operations, whatever
  store calls fail on the way: neither a role change nor a removal takes away the last one. The keys
  of the membership rows stay distinct.
\<close>

theorem tenant_keeps_an_owner:
  assumes "identity_step\<^sup>*\<^sup>* s t" and "distinct (map mem_id (db_memberships s))"
    and "m \<in> set (db_memberships s)" and "owner_of T m"
  shows "distinct (map mem_id (db_memberships t)) \<and> (\<exists>m' \<in> set (db_memberships t). owner_of T m')"
  using identity.inv_steps [OF assms(1), of T] assms(2-4) by (auto simp: owned_def)

theorem tenant_keeps_an_owner_witness:
  "\<exists>t. identity_step\<^sup>*\<^sup>* sample_db t \<and> map mem_status (db_memberships t) = [LifeRemoved, LifeActive] \<and>
     (\<exists>m' \<in> set (db_memberships t). owner_of ''t1'' m')"
proof (intro exI conjI)
  let ?t = "snd (remove_membership 5 ''x'' sample_actor ''t1'' ''m1'' sample_db)"
  show step: "identity_step\<^sup>*\<^sup>* sample_db ?t"
    by (rule r_into_rtranclp, rule operation [OF sample_removes_member]) simp
  show "map mem_status (db_memberships ?t) = [LifeRemoved, LifeActive]" by code_simp
  show "\<exists>m' \<in> set (db_memberships ?t). owner_of ''t1'' m'"
    using tenant_keeps_an_owner [OF step, of "owner_membership 1 ''m1'' ''t1'' ''a''" "''t1''"]
    by (simp add: sample_db_def owner_membership_def owner_of_def)
qed



text \<open>
  Provisioning is idempotent: once a subject was provisioned, doing it again, at any time and
  with any name, returns the same principal, tenant and membership, reports that nothing was
  created, and changes no table and no log.
\<close>

theorem provision_user_idempotent:
  assumes "db_faults s = []" and "provision_user sha256 now ahex actor inp s = (Inr u, t)"
    and "trim (pui_external_subject inp') = trim (pui_external_subject inp)"
    and "trim (ctx_principal_id actor') \<noteq> []" and "ctx_tenant_id actor' \<noteq> ten_id (pu_tenant u)"
  shows "provision_user sha256 now' ahex' actor' inp' t = (Inr (u\<lparr>pu_created := False\<rparr>), t)"
proof (rule provision_existing)
  let ?suffix = "provisioned_id_suffix sha256 (trim (pui_external_subject inp))"
  note result = provision_result [OF assms(1,2) refl]
  then show "provisioned ?suffix u t" by blast
  then have "ten_id (pu_tenant u) = ''ten_'' @ ?suffix" by (auto simp: provisioned_def dest: find_SomeD)
  with assms(5) show "''ten_'' @ ?suffix \<noteq> ctx_tenant_id actor'" by simp
qed (use provision_result [OF assms(1,2) refl] assms(3,4) in simp_all)

theorem provision_user_idempotent_witness:
  "\<exists>u t. provision_user (\<lambda>_. ''0123456789abcdef0'') 5 ''x'' sample_actor
       \<lparr>pui_external_subject = ''sub'', pui_display_name = ''Eve''\<rparr> sample_db = (Inr u, t) \<and> pu_created u \<and>
     length (db_memberships t) = 3 \<and>
     provision_user (\<lambda>_. ''0123456789abcdef0'') 9 ''y'' sample_actor
       \<lparr>pui_external_subject = '' sub '', pui_display_name = []\<rparr> t = (Inr (u\<lparr>pu_created := False\<rparr>), t)"
proof -
  let ?run = "provision_user (\<lambda>_. ''0123456789abcdef0'') 5 ''x'' sample_actor
    \<lparr>pui_external_subject = ''sub'', pui_display_name = ''Eve''\<rparr> sample_db"
  have ok: "(case fst ?run of Inl e \<Rightarrow> False | Inr u \<Rightarrow> pu_created u \<and> ctx_tenant_id sample_actor \<noteq> ten_id (pu_tenant u))"
    "length (db_memberships (snd ?run)) = 3" "db_faults sample_db = []" by code_simp+
  then obtain u where "fst ?run = Inr u" "pu_created u" "ctx_tenant_id sample_actor \<noteq> ten_id (pu_tenant u)"
    by (auto split: sum.splits)
  moreover from this(1) have run: "?run = (Inr u, snd ?run)" by (metis prod.collapse)
  moreover have "trim '' sub '' = trim ''sub''" "trim (ctx_principal_id sample_actor) \<noteq> []" by code_simp+
  ultimately show ?thesis
    using provision_user_idempotent [OF ok(3) run, of "\<lparr>pui_external_subject = '' sub '', pui_display_name = []\<rparr>"
        sample_actor 9 "''y''"] ok(2) by auto
qed

end
