(* ===== verification/Identity_Limits.thy ===== *)
theory Identity_Limits
  imports Identity_Theorems
begin

text \<open>
  Where the identity manager stops short of what it is for: lookups with a fixed limit, the unique
  indexes of the store against the rows the manager writes, and the order of the writes at bootstrap.
\<close>

section \<open>The first rows of a listing\<close>

lemma take_sorted_key:
  assumes "sorted (map k xs)" and "x \<in> set (take n xs)"
  shows "length (filter (\<lambda>y. k y < k x) xs) < n"
proof -
  from assms(2) obtain i where i: "i < n" "i < length xs" "xs ! i = x" by (auto simp: in_set_conv_nth)
  have "\<not> k y < k x" if "y \<in> set (drop i xs)" for y
  proof -
    from that obtain j where "j < length (drop i xs)" "drop i xs ! j = y" by (auto simp: in_set_conv_nth)
    with i assms(1) show ?thesis
      using sorted_nth_mono [of "map k xs" i "i + j"] by (auto simp: not_less)
  qed
  then have "filter (\<lambda>y. k y < k x) (drop i xs) = []" by (auto simp: filter_empty_conv)
  then have "filter (\<lambda>y. k y < k x) xs = filter (\<lambda>y. k y < k x) (take i xs)"
    by (metis append_Nil2 append_take_drop_id filter_append)
  then have "length (filter (\<lambda>y. k y < k x) xs) \<le> i"
    by (metis length_filter_le length_take min.absorb2 i(2) less_imp_le)
  with i(1) show ?thesis by simp
qed

lemma first_of_ordered:
  assumes "x \<in> set (take n (ordered created key rows))"
  shows "length (filter (\<lambda>y. created y < created x) rows) < n"
proof -
  let ?k = "\<lambda>r. (created r, key r)"
  have "length (filter (\<lambda>y. ?k y < ?k x) (sort_key ?k rows)) < n"
    using assms by (intro take_sorted_key) (simp_all add: ordered_def)
  then have "length (filter (\<lambda>y. ?k y < ?k x) rows) < n" by (simp only: filter_sort length_sort)
  moreover have "length (filter (\<lambda>y. created y < created x) rows) \<le> length (filter (\<lambda>y. ?k y < ?k x) rows)"
    by (induction rows) auto
  ultimately show ?thesis by simp
qed

lemma find_late_invitation:
  assumes "\<And>j. j \<in> set (db_invitations s) \<Longrightarrow> inv_id j = iid \<Longrightarrow>
    1000 \<le> length (filter (\<lambda>y. inv_created_at y < inv_created_at j) (db_invitations s))"
  shows "\<exists>e t. e \<in> {InvitationInvalid, StoreError} \<and> find_invitation iid s = (Inl e, t) \<and> core t = core s"
proof -
  let ?f = "\<lparr>if_tenant_id = [], if_principal_id = [], if_status = None, if_limit = 1000\<rparr>"
  have "inv_id j \<noteq> iid" if "j \<in> set (select_invitations ?f (db_invitations s))" for j
  proof -
    from that have j: "j \<in> set (take 1000 (ordered inv_created_at inv_id (db_invitations s)))"
      by (simp add: select_invitations_def limited_def)
    then have "j \<in> set (db_invitations s)" by (auto dest: in_set_takeD)
    with first_of_ordered [OF j] assms show ?thesis by fastforce
  qed
  then have none: "find (\<lambda>j. inv_id j = iid) (select_invitations ?f (db_invitations s)) = None"
    by (auto simp: find_None_iff)
  show ?thesis
  proof (cases "db_faults s")
    case Nil
    with none show ?thesis
      by (simp add: find_invitation_def list_tenant_invitations_def store_call_def bind_op_def fail_op_def)
  next
    case (Cons b rest)
    with none show ?thesis
      by (cases b) (simp_all add: find_invitation_def list_tenant_invitations_def store_call_def bind_op_def
          fail_op_def)
  qed
qed

definition crowded_db :: identity_db where
  "crowded_db = \<lparr>db_tenants = [], db_principals = [], db_memberships = [],
     db_invitations = map (\<lambda>n. \<lparr>inv_id = replicate n CHR ''i'', inv_tenant_id = ''t1'',
       inv_invited_principal_id = ''b'', inv_invited_by_principal_id = ''a'', inv_role = Viewer,
       inv_status = LifeInvited, inv_created_at = int n, inv_updated_at = int n, inv_expires_at = None,
       inv_decided_at = None\<rparr>) [0..<1001],
     db_grants = [], db_auth_tokens = [], db_audit = [], db_faults = []\<rparr>"

section \<open>Renewing a revoked grant\<close>

text \<open>A grant row survives writes under other keys.\<close>

lemma keeps_grant_row:
  assumes "grant_id g' \<noteq> grant_id g"
  shows "keeps (\<lambda>s. g \<in> set (db_grants s)) (upsert_token_tenant_grant g')"
  unfolding upsert_token_tenant_grant_def
  by (rule keeps_constrained_call) (use assms in \<open>auto simp: set_upsert\<close>)

lemma regrant_fails:
  assumes "g \<in> set (db_grants s)" "grant_token_id g' = grant_token_id g" "grant_tenant_id g' = grant_tenant_id g"
    "grant_id g' \<noteq> grant_id g"
  shows "\<exists>e t. upsert_token_tenant_grant g' s = (Inl e, t)"
proof (cases "upsert_token_tenant_grant g' s")
  case (Pair r t)
  with constrained_call_cases [OF this [unfolded upsert_token_tenant_grant_def]] assms show ?thesis
    by (auto simp: unique_index_def list_all_iff)
qed

text \<open>The two loops, on grants listed before, for a tenant whose grant was revoked.\<close>

lemma renew_fails:
  assumes rows: "distinct (map grant_id existing)" "g \<in> set existing" "grant_token_id g = tok"
      "\<And>x. x \<in> set existing \<Longrightarrow> grant_tenant_id x = grant_tenant_id g \<Longrightarrow> x = g"
    and "grant_status g \<noteq> LifeActive" and new: "\<And>t. ''grant_'' @ ghex t \<noteq> grant_id g"
    and "grant_tenant_id g \<in> set tids" and "g \<in> set (db_grants s)"
  shows "\<exists>e t. then_op (each_op (revoke_grant now seen) existing)
    (each_op (renew_grant now ghex actor tok dflt existing) tids) s = (Inl e, t)"
proof -
  let ?I = "\<lambda>s. g \<in> set (db_grants s)"
  have other: "grant_id x \<noteq> grant_id g" if "x \<in> set existing" "grant_status x = LifeActive" for x
    using that rows(1,2) assms(5) by (metis same_key)
  have revoke: "keeps ?I (each_op (revoke_grant now seen) existing)"
    by (intro keeps_each_in) (auto simp: revoke_grant_def intro!: keeps_intros keeps_grant_row dest: other)
  have renewed: "keeps ?I (renew_grant now ghex actor tok dflt existing t)" for t
    unfolding renew_grant_def Let_def
    by (intro keeps_then keeps_return keeps_grant_row)
      (use new other in \<open>auto simp: new_grant_def split: option.split dest!: find_SomeD\<close>)
  have "find (\<lambda>x. grant_tenant_id x = grant_tenant_id g) existing = Some g"
  proof -
    obtain x where x: "find (\<lambda>x. grant_tenant_id x = grant_tenant_id g) existing = Some x"
      using rows(2) by (cases "find (\<lambda>x. grant_tenant_id x = grant_tenant_id g) existing")
        (auto simp: find_None_iff)
    with rows(4) show ?thesis by (auto dest!: find_SomeD)
  qed
  then have fails: "\<exists>e t. renew_grant now ghex actor tok dflt existing (grant_tenant_id g) u = (Inl e, t)"
    if "?I u" for u
    using regrant_fails [OF that, of "(new_grant now (''grant_'' @ ghex (grant_tenant_id g)) tok (grant_tenant_id g)
        False [])\<lparr>grant_is_default := grant_tenant_id g = dflt, grant_updated_at := now,
        grant_revoked_at := None, grant_granted_by_principal_id := ctx_principal_id actor\<rparr>"] assms(3,5) new
    by (auto simp: renew_grant_def Let_def then_op_def bind_op_def new_grant_def)
  obtain r u where u: "each_op (revoke_grant now seen) existing s = (r, u)" by fastforce
  with keepsD [OF revoke assms(8)] have "?I u" by blast
  with each_op_fails [where I = ?I and f = "renew_grant now ghex actor tok dflt existing", OF renewed assms(7) fails]
  obtain e t where "each_op (renew_grant now ghex actor tok dflt existing) tids u = (Inl e, t)" by blast
  with u show ?thesis by (cases r) (auto simp: then_op_def bind_op_def)
qed

lemma keeps_grants:
  "keeps (\<lambda>s. A (db_grants s)) (token_principal_id actor tok)"
  "keeps (\<lambda>s. A (db_grants s)) (audit_require now e)"
proof -
  show "keeps (\<lambda>s. A (db_grants s)) (token_principal_id actor tok)"
    unfolding token_principal_id_def
    using keeps_list_token_authorities [where P = "\<lambda>c. A (db_grants c)"] by (intro keeps_intros) simp
  have "keeps (\<lambda>s. A (db_grants s)) (audit_record now e)"
    unfolding audit_record_def append_tenant_audit_event_def
    by (simp add: Let_def) (intro conjI impI keeps_constrained_call; simp)
  then show "keeps (\<lambda>s. A (db_grants s)) (audit_require now e)"
    unfolding keeps_def triple_def audit_require_def by (fastforce split: prod.splits sum.splits)
qed

lemma validate_set_triple:
  "triple (\<lambda>s. A (db_grants s)) (validate_token_tenant_grant_set prn tids dflt)
     (\<lambda>seen s. A (db_grants s) \<and> set seen = trim ` set tids) (\<lambda>_. True)"
proof -
  have read: "triple (\<lambda>s. A (db_grants s)) (list_memberships f) (\<lambda>ms s. A (db_grants s)) (\<lambda>_. True)" for f
    using triple_list_memberships [where P = "\<lambda>c. A (db_grants c)"] by (rule triple_weaken) simp_all
  show ?thesis
    unfolding validate_token_tenant_grant_set_def Let_def
    by (intro triple_if triple_bind [OF read] triple_fail' TrueI) (simp add: triple_def return_op_def)
qed

text \<open>The replacement, started on grants of which one, for a tenant asked for, is not active.\<close>

lemma grant_loops_fail:
  assumes "distinct (map grant_id G)" and "distinct (map (\<lambda>g. (grant_tenant_id g, grant_token_id g)) G)"
    and "g \<in> set G" and "grant_token_id g = tok" and "grant_status g \<noteq> LifeActive"
    and "\<And>t. ''grant_'' @ ghex t \<noteq> grant_id g" and "grant_tenant_id g \<in> set tids"
  shows "triple (\<lambda>u. db_grants u = G) (bind_op (list_token_tenant_grants tok) (\<lambda>existing.
       then_op (each_op (revoke_grant now seen) existing)
       (each_op (renew_grant now ghex actor tok dflt existing) tids))) (\<lambda>_ _. False) (\<lambda>_. True)"
proof (rule triple_bind)
  define existing where "existing = ordered grant_created_at grant_id (filter (\<lambda>x. grant_token_id x = tok) G)"
  have "distinct (map grant_id (filter (\<lambda>x. grant_token_id x = tok) G))"
    using assms(1) by (auto simp: distinct_map inj_on_def)
  then have rows: "distinct (map grant_id existing)"
    by (metis (no_types, lifting) existing_def distinct_map distinct_sort ordered_def set_sort)
  show "triple (\<lambda>u. db_grants u = G) (list_token_tenant_grants tok)
      (\<lambda>gs u. db_grants u = G \<and> gs = existing) (\<lambda>_. True)"
    using triple_list_grants [where P = "\<lambda>c. db_grants c = G"]
    by (rule triple_weaken) (auto simp: existing_def)
  have "x = g" if "x \<in> set existing" "grant_tenant_id x = grant_tenant_id g" for x
    using that assms(2-4) by (auto simp: existing_def distinct_map inj_on_def)
  then have "\<exists>e t. then_op (each_op (revoke_grant now seen) existing)
      (each_op (renew_grant now ghex actor tok dflt existing) tids) u = (Inl e, t)" if "db_grants u = G" for u
    using that rows assms(3-7) by (intro renew_fails) (auto simp: existing_def)
  then show "triple (\<lambda>u. db_grants u = G \<and> gs = existing) (then_op (each_op (revoke_grant now seen) gs)
      (each_op (renew_grant now ghex actor tok dflt gs) tids)) (\<lambda>_ _. False) (\<lambda>_. True)" for gs
    by (fastforce simp: triple_def)
qed

definition revoked_db :: identity_db where
  "revoked_db = sample_db\<lparr>db_grants := [(new_grant 1 ''g1'' ''k1'' ''t1'' True ''a'')
     \<lparr>grant_status := LifeRevoked, grant_revoked_at := Some 2\<rparr>]\<rparr>"

text \<open>The first member of the example left and was invited again.\<close>

definition returning_db :: identity_db where
  "returning_db = sample_db\<lparr>
     db_memberships := [(owner_membership 1 ''m1'' ''t1'' ''a'')\<lparr>mem_status := LifeRemoved\<rparr>,
       owner_membership 2 ''m2'' ''t1'' ''b''],
     db_invitations := [\<lparr>inv_id = ''i1'', inv_tenant_id = ''t1'', inv_invited_principal_id = ''a'',
       inv_invited_by_principal_id = ''b'', inv_role = Viewer, inv_status = LifeInvited, inv_created_at = 3,
       inv_updated_at = 3, inv_expires_at = None, inv_decided_at = None\<rparr>]\<rparr>"

section \<open>Theorems\<close>

text \<open>
  Invitations are looked up among the thousand oldest ones: an invitation created after a
  thousand others can be neither accepted nor revoked, whatever its state, and the attempt changes
  nothing.
\<close>

theorem late_invitation_is_lost:
  assumes "distinct (map inv_id (db_invitations s))" and "i \<in> set (db_invitations s)"
    and "1000 \<le> length (filter (\<lambda>j. inv_created_at j < inv_created_at i) (db_invitations s))"
  shows "\<exists>e t. e \<in> {InvitationInvalid, StoreError} \<and> core t = core s \<and>
      accept_invitation now mhex ahex prn (inv_id i) s = (Inl e, t) \<and>
      decide_invitation now ahex prn (inv_id i) LifeRevoked s = (Inl e, t)"
proof -
  have "j = i" if "j \<in> set (db_invitations s)" "inv_id j = inv_id i" for j
    using assms(1,2) that by (blast intro: same_key)
  with assms(3) obtain e t where *: "e \<in> {InvitationInvalid, StoreError}" "core t = core s"
    and find: "find_invitation (inv_id i) s = (Inl e, t)"
    using find_late_invitation [of s "inv_id i"] by metis
  have "decide_invitation now ahex prn (inv_id i) LifeRevoked s = (Inl e, t)"
    using bind_fails [where m = "find_invitation (inv_id i)", OF find] by (simp add: decide_invitation_def)
  with * bind_fails [where m = "find_invitation (inv_id i)", OF find] show ?thesis
    by (auto simp: accept_invitation_def)
qed

theorem late_invitation_is_lost_witness:
  "\<exists>e t. accept_invitation 2000 ''m'' ''x'' ''b'' (replicate 1000 CHR ''i'') crowded_db = (Inl e, t) \<and>
     e \<in> {InvitationInvalid, StoreError} \<and> db_memberships t = []"
proof -
  let ?i = "\<lparr>inv_id = replicate 1000 CHR ''i'', inv_tenant_id = ''t1'',
       inv_invited_principal_id = ''b'', inv_invited_by_principal_id = ''a'', inv_role = Viewer,
       inv_status = LifeInvited, inv_created_at = int 1000, inv_updated_at = int 1000, inv_expires_at = None,
       inv_decided_at = None\<rparr>"
  have rows: "db_memberships t = []" if "core t = core crowded_db" for t
  proof -
    have "db_memberships crowded_db = []" by (simp add: crowded_db_def del: upt_rec_numeral)
    with that show ?thesis using core_fields(3) [of t] core_fields(3) [of crowded_db] by simp
  qed
  have inj: "inj_on (\<lambda>n. replicate n CHR ''i'') A" for A
    by (auto simp: inj_on_def)
  have "length (filter (\<lambda>j. inv_created_at j < inv_created_at ?i) (db_invitations crowded_db)) = 1000"
  proof -
    have "filter (\<lambda>n. n < 1000) [0..<1001] = [0..<1000]"
    proof -
      have "[0..<1001] = [0..<1000] @ [1000::nat]" using upt_Suc_append [of 0 1000] by simp
      then show ?thesis by (simp add: filter_id_conv del: upt_rec_numeral)
    qed
    then show ?thesis by (simp add: crowded_db_def filter_map o_def del: upt_rec_numeral)
  qed
  moreover have "distinct (map inv_id (db_invitations crowded_db))"
    using inj by (simp add: crowded_db_def distinct_map o_def del: upt_rec_numeral)
  moreover have "?i \<in> set (db_invitations crowded_db)"
    by (auto simp: crowded_db_def simp del: upt_rec_numeral intro!: image_eqI [of _ _ 1000])
  ultimately show ?thesis
    using late_invitation_is_lost [of crowded_db ?i 2000 "''m''" "''x''" "''b''"] rows by fastforce
qed

text \<open>
  A principal who was a member of a tenant before, and is no more, cannot accept a new invitation
  to it: the old row blocks the new membership through the unique index. The acceptance is recorded
  in the audit log as succeeded and the invitation is used up, but no membership exists.
\<close>

theorem rejoining_fails_half_way:
  assumes "db_faults s = []" and "find_invitation iid s = (Inr i, s)"
    and "inv_invited_principal_id i = prn" "inv_status i = LifeInvited" "\<not> expired_at (inv_expires_at i) now"
    and "find (\<lambda>p. prn_id p = prn) (db_principals s) = Some p" "prn_status p = LifeActive"
    and "m \<in> set (db_memberships s)" "mem_tenant_id m = inv_tenant_id i" "mem_principal_id m = prn"
      "mem_id m \<noteq> ''mem_'' @ mhex"
    and "''audit_'' @ ahex \<notin> aud_id ` set (db_audit s)"
  shows "\<exists>t e. accept_invitation now mhex ahex prn iid s = (Inl StoreError, t) \<and>
    db_memberships t = db_memberships s \<and>
    db_invitations t = upsert inv_id
      (i\<lparr>inv_status := LifeAccepted, inv_updated_at := now, inv_decided_at := Some now\<rparr>) (db_invitations s) \<and>
    db_audit t = db_audit s @ [e] \<and> aud_event_kind e = ''tenant.invitation_accepted'' \<and>
    aud_outcome e = AUDIT_OUTCOME_SUCCEEDED"
proof -
  let ?e = "audit_event now ahex ''tenant.invitation_accepted'' (inv_tenant_id i) prn ''invitation_accepted''"
  let ?i = "i\<lparr>inv_status := LifeAccepted, inv_updated_at := now, inv_decided_at := Some now\<rparr>"
  let ?t = "s\<lparr>db_audit := db_audit s @ [?e], db_invitations := upsert inv_id ?i (db_invitations s)\<rparr>"
  have audit: "audit_require now ?e s = (Inr ?e, s\<lparr>db_audit := db_audit s @ [?e]\<rparr>)"
    using assms(1,12) by (intro audit_require_ok) (simp_all add: audit_event_def)
  have taken: "\<not> unique_index mem_id (\<lambda>x. (mem_tenant_id x, mem_principal_id x)) m' (db_memberships s)"
    if "mem_id m' = ''mem_'' @ mhex" "mem_tenant_id m' = inv_tenant_id i" "mem_principal_id m' = prn" for m'
    using that assms(8-11) by (auto simp: unique_index_def list_all_iff)
  have "accept_invitation now mhex ahex prn iid s = (Inl StoreError, ?t)"
    using assms(1-7) audit taken
    by (simp add: accept_invitation_def run_ops get_principal_def upsert_tenant_invitation_def
        upsert_membership_def Let_def)
  then show ?thesis by (intro exI [of _ ?t] exI [of _ ?e]) simp
qed

theorem rejoining_fails_half_way_witness:
  "\<exists>t e. accept_invitation 5 ''z'' ''x'' ''a'' ''i1'' returning_db = (Inl StoreError, t) \<and>
     db_memberships t = db_memberships returning_db \<and> db_audit t = [e] \<and>
     aud_event_kind e = ''tenant.invitation_accepted''"
proof -
  let ?i = "hd (db_invitations returning_db)" and ?m = "hd (db_memberships returning_db)"
    and ?p = "hd (db_principals returning_db)"
  have "db_faults returning_db = []" "find_invitation ''i1'' returning_db = (Inr ?i, returning_db)"
    "inv_invited_principal_id ?i = ''a''" "inv_status ?i = LifeInvited" "\<not> expired_at (inv_expires_at ?i) 5"
    "find (\<lambda>p. prn_id p = ''a'') (db_principals returning_db) = Some ?p" "prn_status ?p = LifeActive"
    "?m \<in> set (db_memberships returning_db)" "mem_tenant_id ?m = inv_tenant_id ?i" "mem_principal_id ?m = ''a''"
    "mem_id ?m \<noteq> ''mem_'' @ ''z''" "''audit_'' @ ''x'' \<notin> aud_id ` set (db_audit returning_db)"
    by code_simp+
  from rejoining_fails_half_way [OF this] have "\<exists>t e. accept_invitation 5 ''z'' ''x'' ''a'' ''i1'' returning_db =
      (Inl StoreError, t) \<and> db_memberships t = db_memberships returning_db \<and>
      db_audit t = db_audit returning_db @ [e] \<and> aud_event_kind e = ''tenant.invitation_accepted''"
    by blast
  then show ?thesis by (simp add: returning_db_def sample_db_def)
qed

text \<open>
  A tenant whose grant to a token was revoked can never be granted to that token again: the
  replacement of the token's grants fails, whoever asks for it, because the manager writes a new row
  beside the revoked one and the unique index refuses it.
\<close>

theorem revoked_grant_cannot_return:
  assumes "distinct (map grant_id (db_grants s))"
    and "distinct (map (\<lambda>g. (grant_tenant_id g, grant_token_id g)) (db_grants s))"
    and "g \<in> set (db_grants s)" and "grant_token_id g = tok" and "grant_status g \<noteq> LifeActive"
    and "grant_tenant_id g \<in> trim ` set tids"
    and "\<And>t. ''grant_'' @ ghex t \<noteq> grant_id g" and "\<And>xs. set (iter xs) = set xs"
  shows "\<exists>e t. replace_token_tenant_grants now ahex ghex iter actor tok tids dflt s = (Inl e, t)"
proof (rule failing_triple [where P = "\<lambda>u. db_grants u = db_grants s"])
  define G where "G = db_grants s"
  have after: "triple (\<lambda>u. db_grants u = G \<and> set seen = trim ` set tids)
      (if dflt = [] then fail_op TokenGrantInvalid else then_op (audit_require now e)
        (bind_op (list_token_tenant_grants tok) (\<lambda>existing.
         then_op (each_op (revoke_grant now seen) existing)
         (each_op (renew_grant now ghex actor tok dflt existing) (iter seen))))) (\<lambda>_ _. False) (\<lambda>_. True)"
    for seen e
    using assms(6,8) grant_loops_fail [OF assms(1-5,7), folded G_def, of "iter seen"]
    by (cases "set seen = trim ` set tids")
      (auto intro!: triple_fail' triple_then keeps_grants [where A = "\<lambda>x. x = G"] simp: triple_def [of "\<lambda>_. False"])
  show "triple (\<lambda>u. db_grants u = db_grants s)
      (replace_token_tenant_grants now ahex ghex iter actor tok tids dflt) (\<lambda>_ _. False) (\<lambda>_. True)"
    unfolding replace_token_tenant_grants_def G_def [symmetric]
    by (intro triple_then triple_bind_keeps triple_bind [OF validate_set_triple [where A = "\<lambda>x. x = G"] after]
        keeps_lift keeps_grants [where A = "\<lambda>x. x = G"] TrueI)
qed simp

text \<open>In the example: the grant was revoked, the acting owner wants the default tenant back.\<close>

theorem revoked_grant_cannot_return_witness:
  "\<exists>e t. replace_token_tenant_grants 5 ''x'' (\<lambda>t. t) (\<lambda>ts. ts) sample_actor ''k1'' [''t1''] ''t1'' revoked_db =
     (Inl e, t)"
proof -
  let ?g = "hd (db_grants revoked_db)"
  have "distinct (map grant_id (db_grants revoked_db))"
    "distinct (map (\<lambda>g. (grant_tenant_id g, grant_token_id g)) (db_grants revoked_db))"
    "?g \<in> set (db_grants revoked_db)" "grant_token_id ?g = ''k1''" "grant_status ?g \<noteq> LifeActive"
    "grant_tenant_id ?g \<in> trim ` set [''t1'']"
    by code_simp+
  moreover have "''grant_'' @ t \<noteq> grant_id ?g" for t
    by (simp add: revoked_db_def sample_db_def new_grant_def)
  ultimately show ?thesis by (rule revoked_grant_cannot_return) simp_all
qed

text \<open>
  Bootstrap writes its rows before its audit event: when the event cannot be written it fails with
  the principal, the tenant and the owner membership in place, and the next start finds them and
  succeeds without ever writing the event.
\<close>

theorem bootstrap_retry_is_unaudited:
  assumes "db_principals s = []" and "db_tenants s = []" and "db_memberships s = []"
    and "db_faults s = [False, False, False, False, True]"
  shows "\<exists>t p ten. bootstrap_local now phex thex mhex ahex ghexs [] s = (Inl AuditWriteFailed, t) \<and>
    bootstrap_local now' phex' thex' mhex' ahex' ghexs' [] t = (Inr (p, ten), t) \<and>
    db_tenants t = [ten] \<and> length (db_memberships t) = 1 \<and> db_audit t = db_audit s"
  using assms
  by (simp add: bootstrap_local_def bootstrap_create_def bind_op_def then_op_def fail_op_def
      return_op_def store_call_def constrained_call_def lift_op_def audit_require_def audit_record_def
      append_tenant_audit_event_def list_principals_def get_tenant_def upsert_principal_def upsert_tenant_def
      upsert_membership_def ensure_token_grants_def limited_def ordered_def unique_index_def upsert_def
      new_tenant_def Let_def)

theorem bootstrap_retry_is_unaudited_witness:
  "\<exists>s t p ten. bootstrap_local 1 ''p'' ''t'' ''m'' ''x'' (\<lambda>t. t) [] s = (Inl AuditWriteFailed, t) \<and>
     bootstrap_local 2 ''q'' ''u'' ''n'' ''y'' (\<lambda>t. t) [] t = (Inr (p, ten), t) \<and> db_audit t = []"
proof -
  let ?s = "\<lparr>db_tenants = [], db_principals = [], db_memberships = [], db_invitations = [], db_grants = [],
    db_auth_tokens = [], db_audit = [], db_faults = [False, False, False, False, True]\<rparr>"
  show ?thesis
    using bootstrap_retry_is_unaudited [of ?s 1 "''p''" "''t''" "''m''" "''x''" "\<lambda>t. t" 2 "''q''" "''u''" "''n''"
        "''y''" "\<lambda>t. t"] by - (rule exI [of _ ?s], auto)
qed

end
