(* ===== verification/Cron.thy ===== *)
theory Cron
  imports Tables
begin

text \<open>
  Triggers of schedules, crates/domains/scheduler/src/lib.rs: parsing of cron fields and the search
  for the next due minute. The calendar (crates chrono and chrono-tz) is a parameter: the local
  fields of an instant in a time zone, the truncation of a local time to the minute, and the
  addition of twelve months.
\<close>

section \<open>String functions of the standard library\<close>

text \<open>\<open>str::split_whitespace\<close>: the maximal non-empty pieces without white space.\<close>

function split_words :: "string \<Rightarrow> string \<Rightarrow> string list" where
  "split_words acc s =
     (case s of
        [] \<Rightarrow> (if acc = [] then [] else [acc])
      | c # r \<Rightarrow>
          (case find (is_lead s) white_space of
             Some w \<Rightarrow> (if acc = [] then [] else [acc]) @ split_words [] (drop (length w) s)
           | None \<Rightarrow> split_words (acc @ [c]) r))"
  by pat_completeness auto
termination
  by (relation "measure (\<lambda>(acc, s). length s)") (auto dest: find_is_lead)

declare split_words.simps [simp del]

definition split_whitespace :: "string \<Rightarrow> string list" where
  "split_whitespace s = split_words [] s"

text \<open>\<open>str::parse::<i64>\<close>: an optional sign and at least one digit, in range.\<close>

definition is_digit :: "char \<Rightarrow> bool" where
  "is_digit c \<longleftrightarrow> (48 :: nat) \<le> of_char c \<and> of_char c \<le> (57 :: nat)"

definition parse_i64 :: "string \<Rightarrow> int option" where
  "parse_i64 s =
     (let (neg, ds) = (case s of [] \<Rightarrow> (False, [])
            | c # r \<Rightarrow> if c = CHR ''-'' then (True, r) else if c = CHR ''+'' then (False, r) else (False, s));
          v = (if neg then - int (decimal_value ds) else int (decimal_value ds))
      in if ds = [] \<or> \<not> list_all is_digit ds \<or> v < - (2 ^ 63) \<or> 2 ^ 63 \<le> v then None else Some v)"

section \<open>Cron fields\<close>

datatype cron_error =
    EmptyComponent | InvalidStep string | InvalidRangeStart string | InvalidRangeEnd string
  | RangeOutOfBounds string | InvalidValue string | ValueOutOfBounds int | EmptyField string

text \<open>
  The loop of \<open>*/step\<close> inserts the current value and adds the step while the value is at most the
  maximum. It runs at most once per value of the field and, when the addition wraps around, four
  more times; the first argument bounds the rounds.
\<close>

fun step_values :: "nat \<Rightarrow> int \<Rightarrow> int \<Rightarrow> int \<Rightarrow> int list" where
  "step_values 0 v m d = []"
| "step_values (Suc n) v m d = (if m < v then [] else v # step_values n (wrap_i64 (v + d)) m d)"

definition parse_cron_part :: "string \<Rightarrow> int \<Rightarrow> int \<Rightarrow> cron_error + int list" where
  "parse_cron_part part mn mx =
     (if part = [] then Inl EmptyComponent
      else if part = ''*'' then Inr [mn..mx]
      else if take 2 part = ''*/'' then
        (case parse_i64 (drop 2 part) of
           None \<Rightarrow> Inl (InvalidStep part)
         | Some d \<Rightarrow> if d \<le> 0 then Inl (InvalidStep part)
                     else Inr (step_values (nat (mx - mn) + 5) mn mx d))
      else if CHR ''-'' \<in> set part then
        (case parse_i64 (takeWhile (\<lambda>c. c \<noteq> CHR ''-'') part) of
           None \<Rightarrow> Inl (InvalidRangeStart part)
         | Some a \<Rightarrow>
             (case parse_i64 (tl (dropWhile (\<lambda>c. c \<noteq> CHR ''-'') part)) of
                None \<Rightarrow> Inl (InvalidRangeEnd part)
              | Some b \<Rightarrow> if b < a \<or> a < mn \<or> mx < b then Inl (RangeOutOfBounds part) else Inr [a..b]))
      else
        (case parse_i64 part of
           None \<Rightarrow> Inl (InvalidValue part)
         | Some v \<Rightarrow> if v < mn \<or> mx < v then Inl (ValueOutOfBounds v) else Inr [v]))"

fun parse_cron_parts :: "string list \<Rightarrow> int \<Rightarrow> int \<Rightarrow> int list \<Rightarrow> cron_error + int list" where
  "parse_cron_parts [] mn mx allowed = Inr allowed"
| "parse_cron_parts (p # ps) mn mx allowed =
     (case parse_cron_part (trim p) mn mx of
        Inl e \<Rightarrow> Inl e
      | Inr vs \<Rightarrow> parse_cron_parts ps mn mx (allowed @ vs))"

definition parse_cron_field :: "string \<Rightarrow> int \<Rightarrow> int \<Rightarrow> cron_error + int list" where
  "parse_cron_field field mn mx =
     (case parse_cron_parts (split_on CHR '','' (trim field)) mn mx [] of
        Inl e \<Rightarrow> Inl e
      | Inr allowed \<Rightarrow> if allowed = [] then Inl (EmptyField field) else Inr allowed)"

section \<open>The next due minute\<close>

definition MINUTE :: int where
  "MINUTE = 60 * 10 ^ 9"

record local_fields =
  lf_minute :: int
  lf_hour :: int
  lf_day :: int
  lf_month :: int
  lf_weekday :: int

record calendar =
  cal_zone :: "string \<Rightarrow> bool"
  cal_fields :: "string \<Rightarrow> timestamp \<Rightarrow> local_fields"
  cal_truncate :: "string \<Rightarrow> timestamp \<Rightarrow> timestamp option"
  cal_add_year :: "string \<Rightarrow> timestamp \<Rightarrow> timestamp option"

datatype trigger_error =
    FireAtRequired | CronExpressionRequired | UnknownTimezone string | FiveFieldsRequired
  | FieldError nat cron_error | NoMatchWithinYear

text \<open>The search loop goes on minute by minute until the deadline.\<close>

function cron_search :: "(timestamp \<Rightarrow> bool) \<Rightarrow> timestamp \<Rightarrow> timestamp \<Rightarrow> timestamp option" where
  "cron_search ok cursor deadline =
     (if deadline < cursor then None
      else if ok cursor then Some cursor
      else cron_search ok (cursor + MINUTE) deadline)"
  by pat_completeness auto
termination
  by (relation "measure (\<lambda>(ok, cursor, deadline). nat (deadline - cursor + 1))") (auto simp: MINUTE_def)

declare cron_search.simps [simp del]

type_synonym cron_spec = "int list \<times> int list \<times> int list \<times> int list \<times> int list"

definition parse_cron_expr :: "string \<Rightarrow> trigger_error + cron_spec" where
  "parse_cron_expr expr =
     (case split_whitespace expr of
        [f0, f1, f2, f3, f4] \<Rightarrow>
          (case parse_cron_field f0 0 59 of Inl e \<Rightarrow> Inl (FieldError 0 e) | Inr minutes \<Rightarrow>
          (case parse_cron_field f1 0 23 of Inl e \<Rightarrow> Inl (FieldError 1 e) | Inr hours \<Rightarrow>
          (case parse_cron_field f2 1 31 of Inl e \<Rightarrow> Inl (FieldError 2 e) | Inr days \<Rightarrow>
          (case parse_cron_field f3 1 12 of Inl e \<Rightarrow> Inl (FieldError 3 e) | Inr months \<Rightarrow>
          (case parse_cron_field f4 0 6 of Inl e \<Rightarrow> Inl (FieldError 4 e) | Inr weekdays \<Rightarrow>
             Inr (minutes, hours, days, months, weekdays))))))
      | _ \<Rightarrow> Inl FiveFieldsRequired)"

definition cron_matches :: "cron_spec \<Rightarrow> local_fields \<Rightarrow> bool" where
  "cron_matches spec f =
     (case spec of (minutes, hours, days, months, weekdays) \<Rightarrow>
        lf_minute f \<in> set minutes \<and> lf_hour f \<in> set hours \<and> lf_day f \<in> set days \<and>
        lf_month f \<in> set months \<and> lf_weekday f \<in> set weekdays)"

definition cron_start :: "calendar \<Rightarrow> string \<Rightarrow> timestamp \<Rightarrow> timestamp" where
  "cron_start cal tz after =
     (case cal_truncate cal tz (after + MINUTE) of None \<Rightarrow> after + MINUTE | Some c \<Rightarrow> c)"

definition next_cron_due_after ::
  "calendar \<Rightarrow> string \<Rightarrow> string \<Rightarrow> timestamp \<Rightarrow> trigger_error + timestamp option" where
  "next_cron_due_after cal expr timezone after =
     (let tz = trim timezone in
      if trim expr = [] then Inl CronExpressionRequired
      else if \<not> cal_zone cal tz then Inl (UnknownTimezone timezone)
      else case parse_cron_expr expr of
        Inl e \<Rightarrow> Inl e
      | Inr spec \<Rightarrow>
          (let cursor = cron_start cal tz after in
           case cal_add_year cal tz cursor of
             None \<Rightarrow> Inl NoMatchWithinYear
           | Some deadline \<Rightarrow>
               (case cron_search (\<lambda>t. cron_matches spec (cal_fields cal tz t)) cursor deadline of
                  None \<Rightarrow> Inl NoMatchWithinYear
                | Some t \<Rightarrow> Inr (Some t))))"

section \<open>Parsing lemmas\<close>

lemma decimal_digits: "list_all is_digit (decimal n)"
proof (induction n rule: decimal.induct)
  case (1 n)
  have "is_digit (char_of (48 + k))" if "k < 10" for k :: nat
    using that by (simp add: is_digit_def of_char_of)
  with 1 show ?case by (subst decimal.simps) (simp add: not_less)
qed

lemma decimal_ne [simp]: "decimal n \<noteq> []"
  by (subst decimal.simps) simp

lemma digit_visible: "is_digit c \<Longrightarrow> visible c"
  by (simp add: is_digit_def visible_def)

lemma digit_plain: "is_digit c \<Longrightarrow> c \<noteq> CHR ''-'' \<and> c \<noteq> CHR ''+'' \<and> c \<noteq> CHR ''*'' \<and> c \<noteq> CHR '',''"
  by (auto simp: is_digit_def)

lemma parse_decimal:
  assumes "int n < 2 ^ 63"
  shows "parse_i64 (decimal n) = Some (int n)"
proof -
  obtain c r where d: "decimal n = c # r" using decimal_ne by (cases "decimal n") auto
  with decimal_digits [of n] have "list_all is_digit (c # r)" by simp
  moreover from this have "c \<noteq> CHR ''-''" "c \<noteq> CHR ''+''" using digit_plain by auto
  moreover have "decimal_value (c # r) = n" using decimal_value [of n] d by simp
  ultimately show ?thesis using assms by (simp add: parse_i64_def d)
qed

lemma parse_decimal_part:
  assumes "mn \<le> int n" and "int n \<le> mx" and "mx < 2 ^ 63"
  shows "parse_cron_part (trim (decimal n)) mn mx = Inr [int n]"
proof -
  obtain c r where d: "decimal n = c # r" using decimal_ne by (cases "decimal n") auto
  have digits: "list_all is_digit (decimal n)" by (rule decimal_digits)
  then have "trim (decimal n) = decimal n"
    by (intro trim_visible) (auto intro!: digit_visible simp: d list_all_iff)
  moreover have "CHR ''-'' \<notin> set (decimal n)" "c \<noteq> CHR ''*''"
    using digits digit_plain by (auto simp: list_all_iff d)
  ultimately show ?thesis
    using assms by (simp add: parse_cron_part_def parse_decimal) (simp add: d)
qed

lemma parse_decimal_parts:
  assumes "\<forall>n \<in> set ns. mn \<le> int n \<and> int n \<le> mx" and "mx < 2 ^ 63"
  shows "parse_cron_parts (map decimal ns) mn mx acc = Inr (acc @ map int ns)"
  using assms by (induction ns arbitrary: acc) (auto simp: parse_decimal_part)

lemma trim_join_decimal: "ns \<noteq> [] \<Longrightarrow> trim (join_on CHR '','' (map decimal ns)) = join_on CHR '','' (map decimal ns)"
proof -
  have ends: "s \<noteq> [] \<and> visible (hd s) \<and> visible (last s)"
    if "ps \<noteq> []" "\<forall>p \<in> set ps. p \<noteq> [] \<and> list_all visible p" "s = join_on CHR '','' ps" for ps s
    using that
    by (induction "CHR '',''" ps arbitrary: s rule: join_on.induct) (auto simp: list_all_iff)
  assume "ns \<noteq> []"
  moreover have "\<forall>p \<in> set (map decimal ns). p \<noteq> [] \<and> list_all visible p"
    using decimal_digits by (auto simp: list_all_iff intro: digit_visible)
  ultimately show ?thesis using ends [OF _ _ refl, of "map decimal ns"] by (auto intro: trim_visible)
qed

section \<open>The step loop\<close>

lemma step_values_eq:
  assumes "0 < d" and "d < 2 ^ 62" and "mx < 2 ^ 62" and "- (2 ^ 62) \<le> v" and "mx - v < int n"
  shows "set (step_values n v mx d) = {w. v \<le> w \<and> w \<le> mx \<and> d dvd (w - v)}"
  using assms(4,5)
proof (induction n arbitrary: v)
  case (Suc n)
  show ?case
  proof (cases "mx < v")
    case False
    with Suc.prems assms(1-3) have "wrap_i64 (v + d) = v + d" by (intro wrap_i64_same) simp_all
    moreover have "set (step_values n (v + d) mx d) = {w. v + d \<le> w \<and> w \<le> mx \<and> d dvd (w - (v + d))}"
      using Suc assms(1) by simp
    moreover have "v + d \<le> w \<and> d dvd (w - (v + d)) \<longleftrightarrow> v < w \<and> d dvd (w - v)" for w
    proof -
      have "d dvd (w - v - d) \<longleftrightarrow> d dvd (w - v)" by (rule dvd_diff_left_iff) simp
      then have A: "d dvd (w - (v + d)) \<longleftrightarrow> d dvd (w - v)" unfolding diff_diff_eq .
      have B: "v + d \<le> w" if "d dvd (w - v)" "v < w" using zdvd_imp_le [OF that(1)] that(2) by simp
      show ?thesis
      proof
        assume "v + d \<le> w \<and> d dvd (w - (v + d))"
        with assms(1) show "v < w \<and> d dvd (w - v)" unfolding A by linarith
      next
        assume "v < w \<and> d dvd (w - v)"
        with B show "v + d \<le> w \<and> d dvd (w - (v + d))" unfolding A by blast
      qed
    qed
    moreover have "{w. v \<le> w \<and> w \<le> mx \<and> d dvd (w - v)} = insert v {w. v < w \<and> d dvd (w - v) \<and> w \<le> mx}"
      using False by (auto simp: le_less)
    ultimately show ?thesis using False by (simp add: conj_commute conj_left_commute)
  qed auto
qed simp

section \<open>The search\<close>

definition due_round :: "(timestamp \<Rightarrow> bool) \<Rightarrow> timestamp \<Rightarrow> timestamp \<Rightarrow> nat \<Rightarrow> bool" where
  "due_round ok cursor deadline k \<longleftrightarrow> cursor + int k * MINUTE \<le> deadline \<and> ok (cursor + int k * MINUTE)"

lemma due_round_Suc: "due_round ok cursor deadline (Suc k) \<longleftrightarrow> due_round ok (cursor + MINUTE) deadline k"
  by (simp add: due_round_def algebra_simps)

lemma due_round_past: "deadline < cursor \<Longrightarrow> \<not> due_round ok cursor deadline k"
proof
  assume "deadline < cursor" "due_round ok cursor deadline k"
  moreover have "0 \<le> int k * MINUTE" by (simp add: MINUTE_def)
  ultimately show False by (simp add: due_round_def)
qed

lemma cron_search_eq:
  "cron_search ok cursor deadline =
     (if \<exists>k. due_round ok cursor deadline k
      then Some (cursor + int (LEAST k. due_round ok cursor deadline k) * MINUTE) else None)"
proof (induction ok cursor deadline rule: cron_search.induct)
  case (1 ok cursor deadline)
  let ?P = "due_round ok cursor deadline"
  show ?case
  proof (cases "deadline < cursor \<or> ok cursor")
    case True
    then show ?thesis
    proof (cases "deadline < cursor")
      case True
      then show ?thesis by (simp add: cron_search.simps [of ok cursor] due_round_past)
    next
      case False
      with True have "?P 0" by (simp add: due_round_def)
      moreover from this have "(LEAST k. ?P k) = 0" by (rule Least_eq_0)
      ultimately show ?thesis using False True by (auto simp: cron_search.simps [of ok cursor])
    qed
  next
    case False
    then have "\<not> ?P 0" by (simp add: due_round_def)
    then have ex: "(\<exists>k. ?P k) \<longleftrightarrow> (\<exists>k. due_round ok (cursor + MINUTE) deadline k)"
      by (metis due_round_Suc not0_implies_Suc)
    have "(LEAST k. ?P k) = Suc (LEAST k. due_round ok (cursor + MINUTE) deadline k)" if "?P k" for k
      using Least_Suc [OF that \<open>\<not> ?P 0\<close>] by (simp add: due_round_Suc)
    then show ?thesis
      using False 1 ex by (auto simp: cron_search.simps [of ok cursor] algebra_simps)
  qed
qed

text \<open>What the documentation of chrono promises of truncating a local time to the minute.\<close>

definition calendar_laws :: "calendar \<Rightarrow> bool" where
  "calendar_laws cal \<longleftrightarrow>
     (\<forall>tz t u. cal_truncate cal tz t = Some u \<longrightarrow> t - MINUTE < u \<and> u \<le> t)"

lemma cron_start_after: "calendar_laws cal \<Longrightarrow> after < cron_start cal tz after"
  by (force simp: cron_start_def calendar_laws_def MINUTE_def split: option.split)

lemma next_cron_due_later:
  assumes "calendar_laws cal" and "next_cron_due_after cal expr tz after = Inr (Some t)"
  shows "after < t"
proof -
  from assms(2) obtain spec deadline where
    "cron_search (\<lambda>t. cron_matches spec (cal_fields cal (trim tz) t)) (cron_start cal (trim tz) after) deadline = Some t"
    by (auto simp: next_cron_due_after_def Let_def split: if_splits sum.splits option.splits)
  then obtain k where "t = cron_start cal (trim tz) after + int k * MINUTE"
    by (auto simp: cron_search_eq split: if_splits)
  moreover have "0 \<le> int k * MINUTE" by (simp add: MINUTE_def)
  ultimately show ?thesis using cron_start_after [OF assms(1), of after "trim tz"] by simp
qed

text \<open>An example calendar: every time zone is UTC, a year has 365 days.\<close>

definition utc_calendar :: calendar where
  "utc_calendar =
     \<lparr>cal_zone = (\<lambda>tz. tz = ''UTC''),
      cal_fields = (\<lambda>_ t. \<lparr>lf_minute = t div MINUTE mod 60, lf_hour = t div (60 * MINUTE) mod 24,
        lf_day = 1, lf_month = 1, lf_weekday = (4 + t div (24 * 60 * MINUTE)) mod 7\<rparr>),
      cal_truncate = (\<lambda>_ t. Some (t div MINUTE * MINUTE)),
      cal_add_year = (\<lambda>_ t. Some (t + 365 * 24 * 60 * MINUTE))\<rparr>"

lemma utc_calendar_laws: "calendar_laws utc_calendar"
proof -
  have "t - MINUTE < t div MINUTE * MINUTE \<and> t div MINUTE * MINUTE \<le> t" for t
  proof -
    have "0 \<le> t mod MINUTE" "t mod MINUTE < MINUTE" by (simp_all add: MINUTE_def)
    then show ?thesis using div_mult_mod_eq [of t MINUTE] by linarith
  qed
  then show ?thesis by (simp add: calendar_laws_def utc_calendar_def)
qed

section \<open>Theorems\<close>

text \<open>
  Printing and parsing of cron fields: the decimal numbers of a non-empty list of values in range,
  joined with commas, parse to exactly these values.
\<close>

theorem parse_printed_cron_field:
  assumes "ns \<noteq> []" and "\<forall>n \<in> set ns. mn \<le> int n \<and> int n \<le> mx" and "mx < 2 ^ 63"
  shows "parse_cron_field (join_on CHR '','' (map decimal ns)) mn mx = Inr (map int ns)"
proof -
  have "\<forall>p \<in> set (map decimal ns). CHR '','' \<notin> set p"
    using decimal_digits digit_plain by (auto simp: list_all_iff)
  then have "split_on CHR '','' (trim (join_on CHR '','' (map decimal ns))) = map decimal ns"
    using assms(1) by (simp add: trim_join_decimal split_join)
  then show ?thesis
    using assms parse_decimal_parts [OF assms(2,3), of "[]"] by (simp add: parse_cron_field_def)
qed

theorem parse_printed_cron_field_witness:
  "parse_cron_field ''0,15,30,45'' 0 59 = Inr [0, 15, 30, 45]"
proof -
  have "join_on CHR '','' (map decimal [0, 15, 30, 45]) = ''0,15,30,45''" by code_simp
  then show ?thesis using parse_printed_cron_field [of "[0, 15, 30, 45]" 0 59] by simp
qed

text \<open>
  A step component \<open>*/d\<close> allows exactly the values of the field that are a multiple of the step
  away from its minimum, as long as the step is below $2^{62}$ (beyond that the addition can wrap
  around).
\<close>

theorem parse_cron_step:
  assumes "parse_i64 ds = Some d" and "0 < d" and "d < 2 ^ 62" and "0 \<le> mn" and "mx < 2 ^ 62"
  shows "\<exists>vs. parse_cron_part (''*/'' @ ds) mn mx = Inr vs \<and>
    set vs = {v. mn \<le> v \<and> v \<le> mx \<and> d dvd (v - mn)}"
  using assms step_values_eq [of d mx mn "nat (mx - mn) + 5"]
  by (auto simp: parse_cron_part_def)

theorem parse_cron_step_witness:
  "\<exists>vs. parse_cron_part ''*/20'' 0 59 = Inr vs \<and> set vs = {v. 0 \<le> v \<and> v \<le> 59 \<and> 20 dvd (v - 0)}"
proof -
  have "parse_i64 ''20'' = Some 20" by code_simp
  then show ?thesis using parse_cron_step [of "''20''" 20 0 59] by simp
qed

text \<open>
  C26. The search for the next due time of a cron trigger ends, and with the right answer: the first
  minute after the given instant, within a year, whose local fields match the expression; and an
  error exactly when there is none.
\<close>

theorem next_cron_due_is_first:
  assumes "trim expr \<noteq> []" and "cal_zone cal (trim tz)" and "parse_cron_expr expr = Inr spec"
    and "cal_add_year cal (trim tz) (cron_start cal (trim tz) after) = Some deadline"
    and "ok = (\<lambda>t. cron_matches spec (cal_fields cal (trim tz) t))"
    and "start = cron_start cal (trim tz) after"
  shows "next_cron_due_after cal expr tz after =
    (if \<exists>k. due_round ok start deadline k
     then Inr (Some (start + int (LEAST k. due_round ok start deadline k) * MINUTE))
     else Inl NoMatchWithinYear)"
  using assms by (simp add: next_cron_due_after_def Let_def cron_search_eq)

theorem next_cron_due_is_first_witness:
  "next_cron_due_after utc_calendar ''30 * * * *'' ''UTC'' 0 = Inr (Some (30 * MINUTE))"
proof -
  let ?spec = "([30], [0..23], [1..31], [1..12], [0..6]) :: cron_spec"
  define ok where "ok = (\<lambda>t. cron_matches ?spec (cal_fields utc_calendar (trim ''UTC'') t))"
  have parts: "trim ''30 * * * *'' \<noteq> []" "cal_zone utc_calendar (trim ''UTC'')"
    "parse_cron_expr ''30 * * * *'' = Inr ?spec" "cron_start utc_calendar (trim ''UTC'') 0 = MINUTE"
    by code_simp+
  have year: "cal_add_year utc_calendar (trim ''UTC'') (cron_start utc_calendar (trim ''UTC'') 0) =
      Some (MINUTE + 365 * 24 * 60 * MINUTE)"
    by (simp add: parts(4)) (simp add: utc_calendar_def)
  have field: "lf_minute (cal_fields utc_calendar (trim ''UTC'') (MINUTE + int k * MINUTE)) = (1 + int k) mod 60" for k
  proof -
    have "MINUTE + int k * MINUTE = (1 + int k) * MINUTE" by (simp add: algebra_simps)
    then show ?thesis by (simp add: utc_calendar_def MINUTE_def)
  qed
  have "due_round ok MINUTE (MINUTE + 365 * 24 * 60 * MINUTE) 29"
    unfolding due_round_def ok_def by code_simp
  moreover have "29 \<le> k" if "due_round ok MINUTE (MINUTE + 365 * 24 * 60 * MINUTE) k" for k
  proof (rule ccontr)
    assume "\<not> 29 \<le> k"
    then have "(1 + int k) mod 60 = 1 + int k" by simp
    with that field [of k] \<open>\<not> 29 \<le> k\<close> show False by (simp add: due_round_def ok_def cron_matches_def)
  qed
  ultimately have "(LEAST k. due_round ok MINUTE (MINUTE + 365 * 24 * 60 * MINUTE) k) = 29"
    by (intro Least_equality)
  with next_cron_due_is_first [OF parts(1-3) year ok_def parts(4) [symmetric]]
    \<open>due_round ok MINUTE _ 29\<close> show ?thesis by (auto simp: MINUTE_def)
qed

end
