(* ===== verification/Capabilities.thy ===== *)
theory Capabilities
  imports Registry
begin

text \<open>
  The capability supervisor, crates/domains/capabilities/src/supervisor.rs: a registry of supervised child
  processes with their health, a backoff that doubles with every failure and a circuit breaker after
  repeated failures. The instant an operation reads from the clock is an argument.
\<close>

section \<open>Data\<close>

datatype supervisor_error =
  CapabilityIdRequired | CapabilityKindRequired | CapabilityNotFound | InvalidCapabilityHealth
  | CapabilityFailureRequired

datatype capability_status = CapRegistered | CapHealthy | CapDegraded | CapBackingOff | CapFailed

record capability =
  cap_id :: string
  cap_kind :: string
  cap_display_name :: string
  cap_status :: capability_status
  cap_failure_count :: int
  cap_restart_count :: int
  cap_backoff_seconds :: int
  cap_next_restart_at :: "timestamp option"
  cap_last_restart_at :: "timestamp option"
  cap_last_heartbeat_at :: "timestamp option"
  cap_last_failure_reason :: string
  cap_created_at :: timestamp
  cap_updated_at :: timestamp

record register_input =
  reg_capability_id :: string
  reg_kind :: string
  reg_display_name :: string

definition FAILURE_THRESHOLD :: int where "FAILURE_THRESHOLD = 5"

definition MAX_BACKOFF_SECONDS :: int where "MAX_BACKOFF_SECONDS = 300"

record supervisor =
  sup_by_id :: "string \<rightharpoonup> capability"
  sup_order :: "string list"

type_synonym 'a sup_op = "(supervisor, supervisor_error, 'a) op"

section \<open>Operations\<close>

definition supervisor_new :: supervisor where
  "supervisor_new = \<lparr>sup_by_id = Map.empty, sup_order = []\<rparr>"

definition register :: "timestamp \<Rightarrow> register_input \<Rightarrow> (capability \<times> bool) sup_op" where
  "register now inp s =
     (if reg_capability_id inp = [] then (Inl CapabilityIdRequired, s)
      else if reg_kind inp = [] then (Inl CapabilityKindRequired, s)
      else case sup_by_id s (reg_capability_id inp) of
             Some c \<Rightarrow>
               (let c' = c\<lparr>cap_kind := reg_kind inp, cap_display_name := reg_display_name inp, cap_updated_at := now\<rparr>
                in (Inr (c', False), s\<lparr>sup_by_id := (sup_by_id s)(reg_capability_id inp \<mapsto> c')\<rparr>))
           | None \<Rightarrow>
               (let c = \<lparr>cap_id = reg_capability_id inp, cap_kind = reg_kind inp,
                         cap_display_name = reg_display_name inp, cap_status = CapRegistered,
                         cap_failure_count = 0, cap_restart_count = 0, cap_backoff_seconds = 0,
                         cap_next_restart_at = None, cap_last_restart_at = None, cap_last_heartbeat_at = None,
                         cap_last_failure_reason = [], cap_created_at = now, cap_updated_at = now\<rparr>
                in (Inr (c, True), s\<lparr>sup_by_id := (sup_by_id s)(reg_capability_id inp \<mapsto> c),
                                      sup_order := sup_order s @ [reg_capability_id inp]\<rparr>)))"

definition list_capabilities :: "supervisor \<Rightarrow> capability list" where
  "list_capabilities s = List.map_filter (sup_by_id s) (sup_order s)"

definition get_capability :: "string \<Rightarrow> supervisor \<Rightarrow> capability option" where
  "get_capability cid s = sup_by_id s cid"

definition report_health :: "timestamp \<Rightarrow> string \<Rightarrow> capability_status \<Rightarrow> capability sup_op" where
  "report_health now cid st s =
     (if st \<noteq> CapHealthy \<and> st \<noteq> CapDegraded then (Inl InvalidCapabilityHealth, s)
      else case sup_by_id s cid of
             None \<Rightarrow> (Inl CapabilityNotFound, s)
           | Some c \<Rightarrow>
               (let c' = c\<lparr>cap_status := st, cap_failure_count := 0, cap_backoff_seconds := 0,
                           cap_next_restart_at := None, cap_last_heartbeat_at := Some now, cap_updated_at := now\<rparr>
                in (Inr c', s\<lparr>sup_by_id := (sup_by_id s)(cid \<mapsto> c')\<rparr>)))"

definition failed_capability :: "timestamp \<Rightarrow> string \<Rightarrow> capability \<Rightarrow> capability" where
  "failed_capability now reason c =
     (let n = wrap_i64 (cap_failure_count c + 1);
          c1 = c\<lparr>cap_failure_count := n, cap_last_failure_reason := reason, cap_updated_at := now\<rparr>
      in if n \<ge> FAILURE_THRESHOLD
         then c1\<lparr>cap_status := CapFailed, cap_backoff_seconds := 0, cap_next_restart_at := None\<rparr>
         else let backoff = min (wrap_i64 (5 * wrap_i64 (2 ^ nat ((n - 1) mod 64)))) MAX_BACKOFF_SECONDS
              in c1\<lparr>cap_status := CapBackingOff, cap_backoff_seconds := backoff,
                    cap_next_restart_at := Some (now + backoff * 10 ^ 9)\<rparr>)"

definition report_failure :: "timestamp \<Rightarrow> string \<Rightarrow> string \<Rightarrow> capability sup_op" where
  "report_failure now cid reason s =
     (if reason = [] then (Inl CapabilityFailureRequired, s)
      else case sup_by_id s cid of
             None \<Rightarrow> (Inl CapabilityNotFound, s)
           | Some c \<Rightarrow>
               (let c' = failed_capability now reason c
                in (Inr c', s\<lparr>sup_by_id := (sup_by_id s)(cid \<mapsto> c')\<rparr>)))"

definition restart_capability :: "timestamp \<Rightarrow> string \<Rightarrow> capability sup_op" where
  "restart_capability now cid s =
     (case sup_by_id s cid of
        None \<Rightarrow> (Inl CapabilityNotFound, s)
      | Some c \<Rightarrow>
          (let c' = c\<lparr>cap_status := CapRegistered, cap_restart_count := wrap_i64 (cap_restart_count c + 1),
                      cap_backoff_seconds := 0, cap_next_restart_at := None, cap_last_restart_at := Some now,
                      cap_updated_at := now\<rparr>
           in (Inr c', s\<lparr>sup_by_id := (sup_by_id s)(cid \<mapsto> c')\<rparr>)))"

definition restore_capabilities :: "capability list \<Rightarrow> supervisor \<Rightarrow> supervisor" where
  "restore_capabilities items s =
     \<lparr>sup_by_id = upd_all cap_id items Map.empty, sup_order = map cap_id items\<rparr>"

section \<open>Registry\<close>

definition supervisor_wf :: "supervisor \<Rightarrow> bool" where
  "supervisor_wf s \<longleftrightarrow> ids_ok (sup_order s) (sup_by_id s) cap_id"

interpretation capability_registry: ordered_registry sup_order sup_by_id cap_id supervisor_wf
  by unfold_locales (simp add: supervisor_wf_def)

lemma supervisor_wf_rewrite:
  assumes "supervisor_wf s" and "sup_by_id s cid = Some c" and "cap_id c' = cap_id c"
  shows "supervisor_wf (s\<lparr>sup_by_id := (sup_by_id s)(cid \<mapsto> c')\<rparr>)"
  using assms ids_ok_key [of "sup_order s" "sup_by_id s" cap_id cid c]
  by (auto simp: supervisor_wf_def intro!: ids_ok_rewrite)

lemma failed_capability_id: "cap_id (failed_capability now reason c) = cap_id c"
  by (simp add: failed_capability_def Let_def)

lemma supervisor_ops_wf:
  assumes "supervisor_wf s"
  shows "supervisor_wf (snd (register now inp s))" and "supervisor_wf (snd (report_health now cid st s))"
    and "supervisor_wf (snd (report_failure now cid reason s))" and "supervisor_wf (snd (restart_capability now cid s))"
    and "distinct (map cap_id items) \<Longrightarrow> supervisor_wf (restore_capabilities items s)"
proof -
  show "supervisor_wf (snd (register now inp s))"
    using assms supervisor_wf_rewrite [OF assms]
    by (auto simp: register_def Let_def supervisor_wf_def intro!: ids_ok_insert split: option.split)
  show "supervisor_wf (snd (report_health now cid st s))"
    using assms supervisor_wf_rewrite [OF assms] by (auto simp: report_health_def Let_def split: option.split)
  show "supervisor_wf (snd (report_failure now cid reason s))"
    using assms supervisor_wf_rewrite [OF assms]
    by (auto simp: report_failure_def Let_def failed_capability_id split: option.split)
  show "supervisor_wf (snd (restart_capability now cid s))"
    using assms supervisor_wf_rewrite [OF assms] by (auto simp: restart_capability_def Let_def split: option.split)
  show "supervisor_wf (restore_capabilities items s)" if "distinct (map cap_id items)"
    using that by (simp add: supervisor_wf_def restore_capabilities_def ids_ok_load)
qed

section \<open>The circuit breaker\<close>

text \<open>What is reported about one capability, in order.\<close>

datatype capability_event = Health timestamp capability_status | Failure timestamp string | Restart timestamp

fun apply_event :: "string \<Rightarrow> capability_event \<Rightarrow> supervisor \<Rightarrow> supervisor" where
  "apply_event cid (Health now st) s = snd (report_health now cid st s)"
| "apply_event cid (Failure now reason) s = snd (report_failure now cid reason s)"
| "apply_event cid (Restart now) s = snd (restart_capability now cid s)"

fun valid_event :: "capability_event \<Rightarrow> bool" where
  "valid_event (Health now st) \<longleftrightarrow> st = CapHealthy \<or> st = CapDegraded"
| "valid_event (Failure now reason) \<longleftrightarrow> reason \<noteq> []"
| "valid_event (Restart now) \<longleftrightarrow> True"

text \<open>
  The reference: a latest-first history determines the number of failures since the last sign of health,
  and with it the status.
\<close>

fun failures_since :: "capability_event list \<Rightarrow> nat" where
  "failures_since [] = 0"
| "failures_since (Health _ _ # _) = 0"
| "failures_since (Failure _ _ # h) = Suc (failures_since h)"
| "failures_since (Restart _ # h) = failures_since h"

fun status_after :: "capability_event list \<Rightarrow> capability_status" where
  "status_after [] = CapRegistered"
| "status_after (Health _ st # _) = st"
| "status_after (Failure _ _ # h) = (if 4 \<le> failures_since h then CapFailed else CapBackingOff)"
| "status_after (Restart _ # _) = CapRegistered"

definition fresh_capability :: "capability \<Rightarrow> bool" where
  "fresh_capability c \<longleftrightarrow> cap_status c = CapRegistered \<and> cap_failure_count c = 0 \<and> cap_backoff_seconds c = 0"

definition follows :: "capability_event list \<Rightarrow> capability \<Rightarrow> bool" where
  "follows h c \<longleftrightarrow> cap_failure_count c = int (failures_since h) \<and> cap_status c = status_after h \<and>
     cap_backoff_seconds c = (if status_after h = CapBackingOff then 5 * 2 ^ (failures_since h - 1) else 0)"

lemma failures_bounded: "failures_since h \<le> length h"
  by (induction h rule: failures_since.induct) auto

lemma small_backoff:
  assumes "n < 4"
  shows "min (wrap_i64 (5 * wrap_i64 (2 ^ nat (int n mod 64)))) MAX_BACKOFF_SECONDS = 5 * 2 ^ n"
proof -
  from assms have "n = 0 \<or> n = 1 \<or> n = 2 \<or> n = 3" by auto
  then show ?thesis by (auto simp: wrap_i64_def MAX_BACKOFF_SECONDS_def)
qed

lemma follows_failure:
  assumes "follows h c" and "length h < 2 ^ 62"
  shows "follows (Failure now reason # h) (failed_capability now reason c)"
proof -
  have n: "wrap_i64 (cap_failure_count c + 1) = int (Suc (failures_since h))"
    using assms failures_bounded [of h] by (subst wrap_i64_same) (auto simp: follows_def)
  show ?thesis
  proof (cases "failures_since h < 4")
    case True
    with n small_backoff [OF True] show ?thesis
      by (simp add: failed_capability_def Let_def follows_def FAILURE_THRESHOLD_def)
  next
    case False
    with n show ?thesis by (simp add: failed_capability_def Let_def follows_def FAILURE_THRESHOLD_def)
  qed
qed

lemma follows_event:
  assumes "sup_by_id s cid = Some c" and "follows h c" and "valid_event e" and "length h < 2 ^ 62"
  shows "\<exists>c'. sup_by_id (apply_event cid e s) cid = Some c' \<and> follows (e # h) c'"
proof (cases e)
  case (Health now st)
  with assms show ?thesis by (auto simp: report_health_def Let_def follows_def)
next
  case (Failure now reason)
  with assms follows_failure [OF assms(2,4)] show ?thesis by (simp add: report_failure_def Let_def)
next
  case (Restart now)
  with assms show ?thesis by (auto simp: restart_capability_def Let_def follows_def)
qed

text \<open>
  The circuit breaker, exactly: whatever is reported about a freshly registered capability, its failure
  count is the number of failures since the last sign of health, the fifth of them breaks the circuit
  (and, since a restart does not clear the count, so does every failure after it), and before that the backoff
  doubles from five seconds.
\<close>

theorem circuit_breaker_exact:
  assumes "sup_by_id s cid = Some c" and "fresh_capability c" and "list_all valid_event es" and "length es < 2 ^ 62"
  shows "\<exists>c'. sup_by_id (fold (apply_event cid) es s) cid = Some c' \<and>
    cap_failure_count c' = int (failures_since (rev es)) \<and> cap_status c' = status_after (rev es) \<and>
    cap_backoff_seconds c' = (if status_after (rev es) = CapBackingOff then 5 * 2 ^ (failures_since (rev es) - 1) else 0)"
proof -
  have "\<exists>c'. sup_by_id (fold (apply_event cid) es s) cid = Some c' \<and> follows (rev es) c'"
    using assms(3,4)
  proof (induction es rule: rev_induct)
    case Nil
    with assms(1,2) show ?case by (simp add: follows_def fresh_capability_def)
  next
    case (snoc e es)
    then obtain c' where "sup_by_id (fold (apply_event cid) es s) cid = Some c'" "follows (rev es) c'" by auto
    from follows_event [OF this] snoc.prems show ?case by simp
  qed
  then show ?thesis by (auto simp: follows_def)
qed

definition sample_supervisor :: supervisor where
  "sample_supervisor = snd (register 0 \<lparr>reg_capability_id = ''sh'', reg_kind = ''shell'', reg_display_name = ''Shell''\<rparr> supervisor_new)"

theorem circuit_breaker_exact_witness:
  "\<exists>c'. sup_by_id (fold (apply_event ''sh'') [Health 1 CapHealthy, Failure 2 ''crash'', Restart 3, Failure 4 ''crash''] sample_supervisor) ''sh'' =
      Some c' \<and> cap_failure_count c' = 2 \<and> cap_status c' = CapBackingOff \<and> cap_backoff_seconds c' = 10"
proof -
  obtain c where c: "sup_by_id sample_supervisor ''sh'' = Some c" "fresh_capability c"
    by (simp add: sample_supervisor_def register_def supervisor_new_def Let_def fresh_capability_def)
  from circuit_breaker_exact [OF this, of "[Health 1 CapHealthy, Failure 2 ''crash'', Restart 3, Failure 4 ''crash'']"]
  show ?thesis by simp
qed

end
