(* ===== verification/Orchestration_Types.thy ===== *)
theory Orchestration_Types
  imports Runtime_Types Capabilities
begin

text \<open>
  Data of workflows, crates/domains/orchestration/src/lib.rs: vocabularies, the workflow with its steps,
  dependencies and handoffs, the inputs of the operations, and what the planner is told about the
  consumers that are available. Counters are integers; the wrap-around is written where the code counts.
\<close>

section \<open>Vocabularies\<close>

datatype workflow_status =
  WfPlanning | WfPlanningFailed | WfPlanned | WfRunning | WfBlocked | WfCompleted | WfPartialFailed
  | WfFailed | WfCancelled | WfInterrupted

datatype wf_step_status =
  WsPlanned | WsWaitingDependency | WsReady | WsBlocked | WsRunning | WsCompleted | WsFailed
  | WsCancelled | WsInterrupted | WsSkipped

datatype dependency_type = DepSuccess | DepFailure | DepCompletion

datatype handoff_status = HandoffPending | HandoffAvailable | HandoffConsumed | HandoffInvalid

datatype blocked_reason = ApprovalDenied | PolicyBlocked | ConsumerUnavailable

fun blocked_reason_str :: "blocked_reason \<Rightarrow> string" where
  "blocked_reason_str ApprovalDenied = ''approval_denied''"
| "blocked_reason_str PolicyBlocked = ''policy_blocked''"
| "blocked_reason_str ConsumerUnavailable = ''consumer_unavailable''"

datatype orchestration_error =
  WorkflowNotFound | WfStepNotFound | StepIDRequired | WfTitleRequired | ConsumerKindRequired | ConsumerIDRequired

fun calendar_operation_str :: "calendar_operation_class \<Rightarrow> string" where
  "calendar_operation_str ListEvents = ''list_events''"
| "calendar_operation_str GetEvent = ''get_event''"
| "calendar_operation_str BusyFree = ''busy_free''"
| "calendar_operation_str CreateEvent = ''create_event''"
| "calendar_operation_str UpdateEvent = ''update_event''"
| "calendar_operation_str CancelEvent = ''cancel_event''"
| "calendar_operation_str UpdateAttendees = ''update_attendees''"

fun mail_operation_str :: "mail_operation_class \<Rightarrow> string" where
  "mail_operation_str ListThreads = ''list_threads''"
| "mail_operation_str GetThread = ''get_thread''"
| "mail_operation_str GetMessage = ''get_message''"
| "mail_operation_str ListDrafts = ''list_drafts''"
| "mail_operation_str GetDraft = ''get_draft''"
| "mail_operation_str CreateDraft = ''create_draft''"
| "mail_operation_str UpdateDraft = ''update_draft''"
| "mail_operation_str SendMessage = ''send_message''"
| "mail_operation_str SendDraft = ''send_draft''"
| "mail_operation_str ReplyMessage = ''reply_message''"
| "mail_operation_str ForwardMessage = ''forward_message''"
| "mail_operation_str DownloadAttachment = ''download_attachment''"

section \<open>Artifacts of computer use (crates/domains/computeruse/src/lib.rs)\<close>

datatype artifact_kind = Screenshot | PageSnapshot | Download

datatype artifact_status = Capturing | ArtifactAvailable | CaptureFailed

record artifact =
  art_id :: string
  art_environment_scope :: string
  art_computer_use_session_id :: string
  art_computer_use_action_id :: string
  art_run_id :: string
  art_kind :: artifact_kind
  art_status :: artifact_status
  art_mime_type :: string
  art_file_name :: string
  art_byte_size :: int
  art_storage_key :: string
  art_sha256 :: string
  art_created_at :: timestamp
  art_available_at :: "timestamp option"
  art_capture_failure_reason :: string

section \<open>Workflows\<close>

text \<open>
  A calendar or mail action: the fields the planner reads, and the JSON document of the whole action
  (none when it does not serialize), which it passes on.
\<close>

record calendar_action =
  ca_operation_class :: calendar_operation_class
  ca_integration_id :: string
  ca_document :: "json option"

record mail_action =
  ma_operation_class :: mail_operation_class
  ma_integration_id :: string
  ma_document :: "json option"

record create_workflow_input =
  cwi_goal :: string
  cwi_calendar_action :: "calendar_action option"
  cwi_mail_action :: "mail_action option"

record wf_step =
  ws_id :: string
  ws_workflow_id :: string
  ws_title :: string
  ws_position :: int
  ws_consumer_kind :: string
  ws_consumer_id :: string
  ws_tool_name :: string
  ws_input :: "json option"
  ws_status :: wf_step_status
  ws_selection_rationale :: string
  ws_approval_mode_expected :: string
  ws_dependency_ids :: "string list"
  ws_runtime_step_id :: string
  ws_active_tool_call_id :: string
  ws_attempt_count :: int
  ws_max_attempts :: int
  ws_last_failure_class :: string
  ws_blocked_reason :: string
  ws_side_effects_visible :: bool
  ws_output_summary :: string
  ws_computer_use_session_id :: string
  ws_computer_use_action_ids :: "string list"
  ws_computer_use_artifacts :: "artifact list"
  ws_integration_bindings :: "binding_summary list"
  ws_calendar_operation_summaries :: "calendar_operation_summary list"
  ws_mail_operation_summaries :: "mail_operation_summary list"
  ws_created_at :: timestamp
  ws_updated_at :: timestamp

record dependency =
  dep_id :: string
  dep_workflow_id :: string
  dep_from :: string
  dep_to :: string
  dep_type :: dependency_type
  dep_reason :: string

record handoff =
  ho_id :: string
  ho_workflow_id :: string
  ho_from :: string
  ho_to :: string
  ho_status :: handoff_status
  ho_payload_summary :: string
  ho_source_path :: string
  ho_consumed_at :: "timestamp option"
  ho_invalid_reason :: string

record workflow =
  wf_id :: string
  wf_run_id :: string
  wf_schedule_id :: string
  wf_schedule_attempt_id :: string
  wf_reminder_id :: string
  wf_reminder_occurrence_id :: string
  wf_environment_scope :: string
  wf_goal :: string
  wf_status :: workflow_status
  wf_plan_summary :: string
  wf_failure_summary :: string
  wf_latest_delivery_id :: string
  wf_latest_delivery_status :: string
  wf_latest_delivery_target_id :: string
  wf_active_profile_projection :: "runtime_projection option"
  wf_created_at :: timestamp
  wf_updated_at :: timestamp
  wf_started_at :: "timestamp option"
  wf_completed_at :: "timestamp option"
  wf_interrupted_at :: "timestamp option"
  wf_steps :: "wf_step list"
  wf_dependencies :: "dependency list"
  wf_handoffs :: "handoff list"

definition wf_step_default :: wf_step where
  "wf_step_default =
     \<lparr>ws_id = [], ws_workflow_id = [], ws_title = [], ws_position = 0, ws_consumer_kind = [],
      ws_consumer_id = [], ws_tool_name = [], ws_input = None, ws_status = WsPlanned,
      ws_selection_rationale = [], ws_approval_mode_expected = [], ws_dependency_ids = [],
      ws_runtime_step_id = [], ws_active_tool_call_id = [], ws_attempt_count = 0, ws_max_attempts = 0,
      ws_last_failure_class = [], ws_blocked_reason = [], ws_side_effects_visible = False,
      ws_output_summary = [], ws_computer_use_session_id = [], ws_computer_use_action_ids = [],
      ws_computer_use_artifacts = [], ws_integration_bindings = [], ws_calendar_operation_summaries = [],
      ws_mail_operation_summaries = [], ws_created_at = 0, ws_updated_at = 0\<rparr>"

definition workflow_default :: workflow where
  "workflow_default =
     \<lparr>wf_id = [], wf_run_id = [], wf_schedule_id = [], wf_schedule_attempt_id = [], wf_reminder_id = [],
      wf_reminder_occurrence_id = [], wf_environment_scope = [], wf_goal = [], wf_status = WfPlanning,
      wf_plan_summary = [], wf_failure_summary = [], wf_latest_delivery_id = [],
      wf_latest_delivery_status = [], wf_latest_delivery_target_id = [], wf_active_profile_projection = None,
      wf_created_at = 0, wf_updated_at = 0, wf_started_at = None, wf_completed_at = None,
      wf_interrupted_at = None, wf_steps = [], wf_dependencies = [], wf_handoffs = []\<rparr>"

section \<open>Inputs\<close>

record add_step_input =
  asi_title :: string
  asi_position :: int
  asi_consumer_kind :: string
  asi_consumer_id :: string
  asi_tool_name :: string
  asi_input :: "json option"
  asi_approval_mode_expected :: string
  asi_max_attempts :: int

record add_dependency_input =
  adi_from :: string
  adi_to :: string
  adi_type :: dependency_type
  adi_reason :: string

record add_handoff_input =
  ahi_from :: string
  ahi_to :: string
  ahi_payload_summary :: string
  ahi_source_path :: string

section \<open>What the planner is told\<close>

datatype environment = Prod | Test | Embedded

record mcp_planning_server =
  mps_server_id :: string
  mps_tools :: "string list"

text \<open>The names of the tools a server lists, or an error.\<close>

record mcp_planning_source =
  mcp_servers :: "mcp_planning_server list"
  mcp_list_tools :: "string \<Rightarrow> string + string list"

record skill_planning_candidate =
  spc_skill_id :: string
  spc_approval_mode_expected :: string
  spc_executable :: bool
  spc_available :: bool

end
