(* ===== verification/Scheduler_Types.thy ===== *)
theory Scheduler_Types
  imports Cron Programs Runtime_Ledger Orchestration_Types
begin

text \<open>
  Data of the schedule ledger, crates/domains/scheduler/src/lib.rs, and its rows in the store,
  crates/persistence/store/src/schedule.rs. A 64-bit integer is an integer; where the code computes
  with it the wrap-around is written out. The JSON document of a row is the value it encodes.
\<close>

section \<open>Vocabularies\<close>

datatype schedule_kind = OneTime | Recurring

fun schedule_kind_str :: "schedule_kind \<Rightarrow> string" where
  "schedule_kind_str OneTime = ''one_time''"
| "schedule_kind_str Recurring = ''recurring''"

datatype schedule_status =
  SchedScheduled | SchedActive | SchedPaused | SchedCancelled | SchedCompleted | SchedDispatchFailed

fun schedule_status_str :: "schedule_status \<Rightarrow> string" where
  "schedule_status_str SchedScheduled = ''scheduled''"
| "schedule_status_str SchedActive = ''active''"
| "schedule_status_str SchedPaused = ''paused''"
| "schedule_status_str SchedCancelled = ''cancelled''"
| "schedule_status_str SchedCompleted = ''completed''"
| "schedule_status_str SchedDispatchFailed = ''dispatch_failed''"

datatype trigger_kind = Once | CronTrigger

datatype target_kind = TargetRun | TargetWorkflow

fun target_kind_str :: "target_kind \<Rightarrow> string" where
  "target_kind_str TargetRun = ''run''"
| "target_kind_str TargetWorkflow = ''workflow''"

datatype trigger_source = SourceNormal | SourceCatchUp | SourceRetry

fun trigger_source_str :: "trigger_source \<Rightarrow> string" where
  "trigger_source_str SourceNormal = ''normal''"
| "trigger_source_str SourceCatchUp = ''catch_up''"
| "trigger_source_str SourceRetry = ''retry''"

datatype dispatch_status =
  DispPending | DispDispatching | DispDispatched | DispFailed | DispMissed | DispSkippedPaused
  | DispSkippedOverlap | DispSkippedCancelled | DispExhausted

fun dispatch_status_str :: "dispatch_status \<Rightarrow> string" where
  "dispatch_status_str DispPending = ''pending''"
| "dispatch_status_str DispDispatching = ''dispatching''"
| "dispatch_status_str DispDispatched = ''dispatched''"
| "dispatch_status_str DispFailed = ''failed''"
| "dispatch_status_str DispMissed = ''missed''"
| "dispatch_status_str DispSkippedPaused = ''skipped_paused''"
| "dispatch_status_str DispSkippedOverlap = ''skipped_overlap''"
| "dispatch_status_str DispSkippedCancelled = ''skipped_cancelled''"
| "dispatch_status_str DispExhausted = ''exhausted''"

datatype downstream_status =
  DownNone | DownRunning | DownCompleted | DownFailed | DownCancelled | DownInterrupted

fun downstream_status_str :: "downstream_status \<Rightarrow> string" where
  "downstream_status_str DownNone = ''none''"
| "downstream_status_str DownRunning = ''running''"
| "downstream_status_str DownCompleted = ''completed''"
| "downstream_status_str DownFailed = ''failed''"
| "downstream_status_str DownCancelled = ''cancelled''"
| "downstream_status_str DownInterrupted = ''interrupted''"

datatype backoff_kind = Fixed | Exponential

text \<open>Parsing a stored name: the inverse of writing it, or an error.\<close>

definition parse_enum :: "('a \<Rightarrow> string) \<Rightarrow> 'a list \<Rightarrow> string \<Rightarrow> 'a option" where
  "parse_enum as_str all v = find (\<lambda>x. as_str x = v) all"

definition parse_schedule_kind :: "string \<Rightarrow> schedule_kind option" where
  "parse_schedule_kind = parse_enum schedule_kind_str [OneTime, Recurring]"

definition parse_schedule_status :: "string \<Rightarrow> schedule_status option" where
  "parse_schedule_status = parse_enum schedule_status_str
     [SchedScheduled, SchedActive, SchedPaused, SchedCancelled, SchedCompleted, SchedDispatchFailed]"

definition parse_target_kind :: "string \<Rightarrow> target_kind option" where
  "parse_target_kind = parse_enum target_kind_str [TargetRun, TargetWorkflow]"

definition parse_trigger_source :: "string \<Rightarrow> trigger_source option" where
  "parse_trigger_source = parse_enum trigger_source_str [SourceNormal, SourceCatchUp, SourceRetry]"

definition parse_dispatch_status :: "string \<Rightarrow> dispatch_status option" where
  "parse_dispatch_status = parse_enum dispatch_status_str
     [DispPending, DispDispatching, DispDispatched, DispFailed, DispMissed, DispSkippedPaused,
      DispSkippedOverlap, DispSkippedCancelled, DispExhausted]"

definition parse_downstream_status :: "string \<Rightarrow> downstream_status option" where
  "parse_downstream_status = parse_enum downstream_status_str
     [DownNone, DownRunning, DownCompleted, DownFailed, DownCancelled, DownInterrupted]"

lemma parse_str [simp]:
  "parse_schedule_kind (schedule_kind_str k) = Some k"
  "parse_schedule_status (schedule_status_str st) = Some st"
  "parse_target_kind (target_kind_str tk) = Some tk"
  "parse_trigger_source (trigger_source_str ts) = Some ts"
  "parse_dispatch_status (dispatch_status_str ds) = Some ds"
  "parse_downstream_status (downstream_status_str ws) = Some ws"
  subgoal by (cases k) (simp_all add: parse_schedule_kind_def parse_enum_def)
  subgoal by (cases st) (simp_all add: parse_schedule_status_def parse_enum_def)
  subgoal by (cases tk) (simp_all add: parse_target_kind_def parse_enum_def)
  subgoal by (cases ts) (simp_all add: parse_trigger_source_def parse_enum_def)
  subgoal by (cases ds) (simp_all add: parse_dispatch_status_def parse_enum_def)
  subgoal by (cases ws) (simp_all add: parse_downstream_status_def parse_enum_def)
  done

fun is_terminal_schedule_status :: "schedule_status \<Rightarrow> bool" where
  "is_terminal_schedule_status st \<longleftrightarrow> st \<in> {SchedCancelled, SchedCompleted, SchedDispatchFailed}"

fun is_terminal_dispatch_status :: "dispatch_status \<Rightarrow> bool" where
  "is_terminal_dispatch_status st \<longleftrightarrow>
     st \<in> {DispDispatched, DispMissed, DispSkippedPaused, DispSkippedOverlap, DispSkippedCancelled, DispExhausted}"

definition is_active_downstream_status :: "downstream_status \<Rightarrow> bool" where
  "is_active_downstream_status st \<longleftrightarrow> st = DownRunning"

definition is_terminal_downstream :: "downstream_status \<Rightarrow> bool" where
  "is_terminal_downstream st \<longleftrightarrow> st \<in> {DownCompleted, DownFailed, DownCancelled, DownInterrupted}"

section \<open>Records\<close>

record trigger =
  trig_kind :: trigger_kind
  trig_fire_at :: "timestamp option"
  trig_cron_expr :: string
  trig_timezone :: string
  trig_next_due_at :: "timestamp option"

record run_target =
  rt_session_id :: string
  rt_entrypoint :: string
  rt_goal :: string

text \<open>The calendar and mail actions are passed on to the workflow launcher unread.\<close>

record workflow_target =
  wt_session_id :: string
  wt_entrypoint :: string
  wt_run_goal :: string
  wt_workflow_goal :: string
  wt_calendar_action :: "json option"
  wt_mail_action :: "json option"

record target =
  tgt_kind :: target_kind
  tgt_revision :: int
  tgt_active :: bool
  tgt_run :: "run_target option"
  tgt_workflow :: "workflow_target option"
  tgt_summary :: string
  tgt_updated_at :: timestamp

record retry_policy =
  rty_max_retries :: int
  rty_backoff_kind :: backoff_kind
  rty_base_delay_seconds :: int
  rty_max_delay_seconds :: int

record dispatch_attempt =
  att_id :: string
  att_schedule_id :: string
  att_due_at :: timestamp
  att_trigger_source :: trigger_source
  att_dispatch_status :: dispatch_status
  att_failure_class :: string
  att_failure_reason :: string
  att_retry_count :: int
  att_retry_budget :: int
  att_next_retry_at :: "timestamp option"
  att_resolved_target_revision :: int
  att_run_id :: string
  att_workflow_id :: string
  att_downstream_status :: downstream_status
  att_latest_delivery_id :: string
  att_latest_delivery_status :: string
  att_latest_delivery_target_id :: string
  att_calendar_operation_summaries :: "calendar_operation_summary list"
  att_mail_operation_summaries :: "mail_operation_summary list"
  att_skipped_reason :: string
  att_missed_count :: int
  att_created_at :: timestamp
  att_updated_at :: timestamp

definition attempt_default :: dispatch_attempt where
  "attempt_default =
     \<lparr>att_id = [], att_schedule_id = [], att_due_at = 0, att_trigger_source = SourceNormal,
      att_dispatch_status = DispPending, att_failure_class = [], att_failure_reason = [],
      att_retry_count = 0, att_retry_budget = 0, att_next_retry_at = None,
      att_resolved_target_revision = 0, att_run_id = [], att_workflow_id = [],
      att_downstream_status = DownNone, att_latest_delivery_id = [], att_latest_delivery_status = [],
      att_latest_delivery_target_id = [], att_calendar_operation_summaries = [],
      att_mail_operation_summaries = [], att_skipped_reason = [], att_missed_count = 0,
      att_created_at = 0, att_updated_at = 0\<rparr>"

record schedule =
  sched_id :: string
  sched_environment_scope :: string
  sched_tenant_id :: string
  sched_kind :: schedule_kind
  sched_status :: schedule_status
  sched_target_ref_id :: string
  sched_trigger :: trigger
  sched_target :: target
  sched_retry_policy :: retry_policy
  sched_next_due_at :: "timestamp option"
  sched_last_attempt_at :: "timestamp option"
  sched_last_outcome :: string
  sched_created_at :: timestamp
  sched_updated_at :: timestamp
  sched_paused_at :: "timestamp option"
  sched_cancelled_at :: "timestamp option"
  sched_completed_at :: "timestamp option"
  sched_attempts :: "dispatch_attempt list"

record create_schedule_input =
  csi_trigger :: trigger
  csi_target :: target
  csi_retry_policy :: retry_policy

record workflow_launch_result =
  wlr_run_id :: string
  wlr_workflow_id :: string
  wlr_downstream_status :: downstream_status

datatype scheduler_error =
    SchedStore | DecodeSchedule string | DecodeScheduleTarget string | DecodeScheduleAttempt string
  | SchedTrigger trigger_error | SchedPanic

section \<open>Rows\<close>

record schedule_row =
  srow_id :: string
  srow_environment_scope :: string
  srow_tenant_id :: string
  srow_kind :: string
  srow_status :: string
  srow_target_ref_id :: string
  srow_timezone :: string
  srow_next_due_at :: "timestamp option"
  srow_last_attempt_at :: "timestamp option"
  srow_last_outcome :: string
  srow_created_at :: timestamp
  srow_updated_at :: timestamp
  srow_paused_at :: "timestamp option"
  srow_cancelled_at :: "timestamp option"
  srow_completed_at :: "timestamp option"
  srow_document :: schedule

record target_row =
  trow_target_ref_id :: string
  trow_schedule_id :: string
  trow_target_kind :: string
  trow_revision :: int
  trow_active :: bool
  trow_updated_at :: timestamp
  trow_document :: target

record attempt_row =
  arow_id :: string
  arow_schedule_id :: string
  arow_due_at :: timestamp
  arow_trigger_source :: string
  arow_dispatch_status :: string
  arow_failure_class :: string
  arow_failure_reason :: string
  arow_retry_count :: int
  arow_retry_budget :: int
  arow_next_retry_at :: "timestamp option"
  arow_resolved_target_revision :: int
  arow_run_id :: string
  arow_workflow_id :: string
  arow_downstream_status :: string
  arow_skipped_reason :: string
  arow_missed_count :: int
  arow_created_at :: timestamp
  arow_updated_at :: timestamp
  arow_document :: dispatch_attempt

end
