(* ===== verification/Scheduler.thy ===== *)
theory Scheduler
  imports Scheduler_Types
begin

text \<open>
  The schedule ledger, \<open>Scheduler\<close> of crates/domains/scheduler/src/lib.rs, over the rows of the store
  and the run ledger. The state holds the three tables, the run ledger, the statuses of workflows
  as the store has them, the events published, and where the clock, the wall clock and the random
  identifiers stand: a reading or a draw takes the next one. Any statement of the store can fail.
\<close>

section \<open>State and environment\<close>

record sched_event =
  sev_name :: string
  sev_schedule_id :: string
  sev_status :: string
  sev_attempt :: "(string \<times> string \<times> string \<times> string) option"

record sched_state =
  ss_schedules :: "schedule_row list"
  ss_targets :: "target_row list"
  ss_attempts :: "attempt_row list"
  ss_ledger :: ledger
  ss_workflows :: "string \<Rightarrow> string \<Rightarrow> string \<Rightarrow> workflow_status option"
  ss_events :: "sched_event list"
  ss_clock :: "nat \<Rightarrow> timestamp"
  ss_wall :: "nat \<Rightarrow> timestamp"
  ss_uuid :: "nat \<Rightarrow> string"
  ss_drawn :: nat
  ss_faults :: "bool list"

type_synonym 'a sched_op = "(sched_state, scheduler_error, 'a) op"

text \<open>
  \<open>Dependencies\<close>: the environment scope, whether there is an event bus, the workflow launcher, the
  calendar, the addition of seconds to an instant (none when it panics) and the texts of errors.
\<close>

record sched_env =
  se_scope :: string
  se_bus :: bool
  se_launcher :: "(workflow_target \<Rightarrow> string \<Rightarrow> string \<Rightarrow> string + workflow_launch_result) option"
  se_calendar :: calendar
  se_add_seconds :: "timestamp \<Rightarrow> int \<Rightarrow> timestamp option"
  se_runtime_text :: "runtime_error \<Rightarrow> string"
  se_decode_text :: "scheduler_error \<Rightarrow> string"

definition read_clock :: "timestamp sched_op" where
  "read_clock s = (Inr (ss_clock s (ss_drawn s)), s\<lparr>ss_drawn := Suc (ss_drawn s)\<rparr>)"

definition read_wall :: "timestamp sched_op" where
  "read_wall s = (Inr (ss_wall s (ss_drawn s)), s\<lparr>ss_drawn := Suc (ss_drawn s)\<rparr>)"

definition draw_uuid :: "string sched_op" where
  "draw_uuid s = (Inr (ss_uuid s (ss_drawn s)), s\<lparr>ss_drawn := Suc (ss_drawn s)\<rparr>)"

definition new_attempt_id :: "string \<Rightarrow> string" where
  "new_attempt_id hex = ''sched_attempt_'' @ take 16 hex"

definition new_schedule_id :: "string \<Rightarrow> string" where
  "new_schedule_id hex = ''sched_'' @ take 16 hex"

definition new_target_ref_id :: "string \<Rightarrow> string" where
  "new_target_ref_id hex = ''sched_target_'' @ take 16 hex"

text \<open>One statement of the store.\<close>

definition sched_call :: "(sched_state \<Rightarrow> 'a \<times> sched_state) \<Rightarrow> 'a sched_op" where
  "sched_call f s =
     (case ss_faults s of
        [] \<Rightarrow> (case f s of (x, t) \<Rightarrow> (Inr x, t))
      | failed # rest \<Rightarrow>
          (let s1 = s\<lparr>ss_faults := rest\<rparr>
           in if failed then (Inl SchedStore, s1) else case f s1 of (x, t) \<Rightarrow> (Inr x, t)))"

section \<open>Statements\<close>

text \<open>The tenant column is written as NULL; an existing value stays.\<close>

definition upsert_schedule :: "schedule_row \<Rightarrow> unit sched_op" where
  "upsert_schedule r = sched_call (\<lambda>s.
     let tenant = (case find (\<lambda>x. srow_id x = srow_id r) (ss_schedules s) of
                     None \<Rightarrow> [] | Some x \<Rightarrow> srow_tenant_id x)
     in ((), s\<lparr>ss_schedules := upsert srow_id (r\<lparr>srow_tenant_id := tenant\<rparr>) (ss_schedules s)\<rparr>))"

definition get_schedule_row :: "string \<Rightarrow> string \<Rightarrow> schedule_row option sched_op" where
  "get_schedule_row scope sid = sched_call (\<lambda>s.
     (find (\<lambda>r. srow_environment_scope r = scope \<and> srow_id r = sid) (ss_schedules s), s))"

definition list_schedule_rows :: "string \<Rightarrow> schedule_row list sched_op" where
  "list_schedule_rows scope = sched_call (\<lambda>s.
     (ordered srow_created_at srow_id (filter (\<lambda>r. srow_environment_scope r = scope) (ss_schedules s)), s))"

definition upsert_schedule_target :: "target_row \<Rightarrow> unit sched_op" where
  "upsert_schedule_target r =
     sched_call (\<lambda>s. ((), s\<lparr>ss_targets := upsert trow_target_ref_id r (ss_targets s)\<rparr>))"

definition get_schedule_target :: "string \<Rightarrow> string \<Rightarrow> target_row option sched_op" where
  "get_schedule_target sid ref = sched_call (\<lambda>s.
     (find (\<lambda>r. trow_schedule_id r = sid \<and> trow_target_ref_id r = ref) (ss_targets s), s))"

definition upsert_schedule_dispatch_attempt :: "attempt_row \<Rightarrow> unit sched_op" where
  "upsert_schedule_dispatch_attempt r =
     sched_call (\<lambda>s. ((), s\<lparr>ss_attempts := upsert arow_id r (ss_attempts s)\<rparr>))"

text \<open>Newest first: by due time, creation time and id, all descending.\<close>

definition list_schedule_dispatch_attempts :: "string \<Rightarrow> attempt_row list sched_op" where
  "list_schedule_dispatch_attempts sid = sched_call (\<lambda>s.
     (rev (sort_key (\<lambda>r. (arow_due_at r, arow_created_at r, arow_id r))
        (filter (\<lambda>r. arow_schedule_id r = sid) (ss_attempts s))), s))"

section \<open>Pure helpers\<close>

definition derive_schedule_kind :: "trigger_kind \<Rightarrow> schedule_kind" where
  "derive_schedule_kind k = (if k = CronTrigger then Recurring else OneTime)"

definition initial_schedule_status :: "schedule_kind \<Rightarrow> schedule_status" where
  "initial_schedule_status k = (if k = Recurring then SchedActive else SchedScheduled)"

definition normalize_retry_policy :: "retry_policy \<Rightarrow> retry_policy" where
  "normalize_retry_policy p =
     (let p1 = (if rty_base_delay_seconds p \<le> 0 then p\<lparr>rty_base_delay_seconds := 5\<rparr> else p);
          p2 = (if rty_max_delay_seconds p1 \<le> 0
                then p1\<lparr>rty_max_delay_seconds := rty_base_delay_seconds p1\<rparr> else p1)
      in if rty_max_retries p2 < 0 then p2\<lparr>rty_max_retries := 0\<rparr> else p2)"

text \<open>
  The delay before a retry. A left shift of a 64-bit integer loses the high bits; a release build
  takes the shift amount modulo 64.
\<close>

definition retry_delay :: "retry_policy \<Rightarrow> int \<Rightarrow> int" where
  "retry_delay p n =
     (let d = (if rty_backoff_kind p = Exponential
               then wrap_i64 (rty_base_delay_seconds p * 2 ^ nat (min n 62 mod 64))
               else rty_base_delay_seconds p)
      in if d > rty_max_delay_seconds p then rty_max_delay_seconds p else d)"

definition next_retry_time :: "sched_env \<Rightarrow> retry_policy \<Rightarrow> int \<Rightarrow> timestamp option sched_op" where
  "next_retry_time env p n =
     (if n \<ge> rty_max_retries p then return_op None
      else bind_op read_wall (\<lambda>wall.
        case se_add_seconds env wall (retry_delay p n) of
          None \<Rightarrow> fail_op SchedPanic | Some t \<Rightarrow> return_op (Some t)))"

definition has_active_attempt :: "dispatch_attempt list \<Rightarrow> bool" where
  "has_active_attempt items \<longleftrightarrow>
     list_ex (\<lambda>a. att_dispatch_status a = DispDispatched \<and>
                  is_active_downstream_status (att_downstream_status a)) items"

fun map_run_status :: "run_status \<Rightarrow> downstream_status" where
  "map_run_status RunCompleted = DownCompleted"
| "map_run_status RunFailed = DownFailed"
| "map_run_status RunCancelled = DownCancelled"
| "map_run_status _ = DownRunning"

fun map_workflow_status :: "workflow_status \<Rightarrow> downstream_status" where
  "map_workflow_status WfCompleted = DownCompleted"
| "map_workflow_status WfPlanningFailed = DownFailed"
| "map_workflow_status WfFailed = DownFailed"
| "map_workflow_status WfPartialFailed = DownFailed"
| "map_workflow_status WfBlocked = DownFailed"
| "map_workflow_status WfCancelled = DownCancelled"
| "map_workflow_status WfInterrupted = DownInterrupted"
| "map_workflow_status _ = DownRunning"

fun sched_first_non_empty :: "string list \<Rightarrow> string" where
  "sched_first_non_empty [] = []"
| "sched_first_non_empty (v # vs) = (if v \<noteq> [] then v else sched_first_non_empty vs)"

definition target_summary :: "target \<Rightarrow> string" where
  "target_summary t =
     (case tgt_kind t of
        TargetWorkflow \<Rightarrow>
          (case tgt_workflow t of
             Some w \<Rightarrow> sched_first_non_empty [wt_workflow_goal w, wt_run_goal w, wt_entrypoint w]
           | None \<Rightarrow> target_kind_str (tgt_kind t))
      | TargetRun \<Rightarrow>
          (case tgt_run t of
             Some r \<Rightarrow> sched_first_non_empty [rt_goal r, rt_entrypoint r]
           | None \<Rightarrow> target_kind_str (tgt_kind t)))"

definition next_due_after :: "sched_env \<Rightarrow> trigger \<Rightarrow> timestamp \<Rightarrow> trigger_error + timestamp option" where
  "next_due_after env trig after =
     (case trig_kind trig of
        Once \<Rightarrow>
          (case trig_fire_at trig of
             None \<Rightarrow> Inl FireAtRequired
           | Some f \<Rightarrow> Inr (if f > after then Some f else None))
      | CronTrigger \<Rightarrow>
          next_cron_due_after (se_calendar env) (trig_cron_expr trig) (trig_timezone trig) after)"

definition due_op :: "sched_env \<Rightarrow> trigger \<Rightarrow> timestamp \<Rightarrow> timestamp option sched_op" where
  "due_op env trig after =
     (case next_due_after env trig after of Inl e \<Rightarrow> fail_op (SchedTrigger e) | Inr d \<Rightarrow> return_op d)"

definition set_due :: "timestamp option \<Rightarrow> schedule \<Rightarrow> schedule" where
  "set_due d sc = sc\<lparr>sched_next_due_at := d, sched_trigger := (sched_trigger sc)\<lparr>trig_next_due_at := d\<rparr>\<rparr>"

definition change_attempt :: "nat \<Rightarrow> (dispatch_attempt \<Rightarrow> dispatch_attempt) \<Rightarrow> schedule \<Rightarrow> schedule" where
  "change_attempt i f sc = sc\<lparr>sched_attempts := (sched_attempts sc)[i := f (sched_attempts sc ! i)]\<rparr>"

section \<open>Encoding and decoding rows\<close>

definition schedule_row_of :: "schedule \<Rightarrow> schedule_row" where
  "schedule_row_of sc =
     \<lparr>srow_id = sched_id sc, srow_environment_scope = sched_environment_scope sc,
      srow_tenant_id = sched_tenant_id sc, srow_kind = schedule_kind_str (sched_kind sc),
      srow_status = schedule_status_str (sched_status sc), srow_target_ref_id = sched_target_ref_id sc,
      srow_timezone = trig_timezone (sched_trigger sc), srow_next_due_at = sched_next_due_at sc,
      srow_last_attempt_at = sched_last_attempt_at sc, srow_last_outcome = sched_last_outcome sc,
      srow_created_at = sched_created_at sc, srow_updated_at = sched_updated_at sc,
      srow_paused_at = sched_paused_at sc, srow_cancelled_at = sched_cancelled_at sc,
      srow_completed_at = sched_completed_at sc, srow_document = sc\<rparr>"

definition target_row_of :: "schedule \<Rightarrow> target_row" where
  "target_row_of sc =
     \<lparr>trow_target_ref_id = sched_target_ref_id sc, trow_schedule_id = sched_id sc,
      trow_target_kind = target_kind_str (tgt_kind (sched_target sc)),
      trow_revision = tgt_revision (sched_target sc), trow_active = tgt_active (sched_target sc),
      trow_updated_at = tgt_updated_at (sched_target sc), trow_document = sched_target sc\<rparr>"

definition attempt_row_of :: "string \<Rightarrow> dispatch_attempt \<Rightarrow> attempt_row" where
  "attempt_row_of sid a =
     \<lparr>arow_id = att_id a, arow_schedule_id = sid, arow_due_at = att_due_at a,
      arow_trigger_source = trigger_source_str (att_trigger_source a),
      arow_dispatch_status = dispatch_status_str (att_dispatch_status a),
      arow_failure_class = att_failure_class a, arow_failure_reason = att_failure_reason a,
      arow_retry_count = att_retry_count a, arow_retry_budget = att_retry_budget a,
      arow_next_retry_at = att_next_retry_at a,
      arow_resolved_target_revision = att_resolved_target_revision a, arow_run_id = att_run_id a,
      arow_workflow_id = att_workflow_id a,
      arow_downstream_status = downstream_status_str (att_downstream_status a),
      arow_skipped_reason = att_skipped_reason a, arow_missed_count = att_missed_count a,
      arow_created_at = att_created_at a, arow_updated_at = att_updated_at a, arow_document = a\<rparr>"

definition decode_target_record :: "target_row \<Rightarrow> scheduler_error + target" where
  "decode_target_record r =
     (case parse_target_kind (trow_target_kind r) of
        None \<Rightarrow> Inl (DecodeScheduleTarget (trow_target_ref_id r))
      | Some k \<Rightarrow>
          (let t = (trow_document r)\<lparr>tgt_kind := k, tgt_revision := trow_revision r,
                      tgt_active := trow_active r, tgt_updated_at := trow_updated_at r\<rparr>
           in Inr (t\<lparr>tgt_summary := target_summary t\<rparr>)))"

definition decode_attempt_record :: "attempt_row \<Rightarrow> scheduler_error + dispatch_attempt" where
  "decode_attempt_record r =
     (case (parse_trigger_source (arow_trigger_source r), parse_dispatch_status (arow_dispatch_status r),
            parse_downstream_status (arow_downstream_status r)) of
        (Some src, Some disp, Some down) \<Rightarrow>
          Inr ((arow_document r)\<lparr>att_id := arow_id r, att_schedule_id := arow_schedule_id r,
            att_due_at := arow_due_at r, att_trigger_source := src, att_dispatch_status := disp,
            att_failure_class := arow_failure_class r, att_failure_reason := arow_failure_reason r,
            att_retry_count := arow_retry_count r, att_retry_budget := arow_retry_budget r,
            att_next_retry_at := arow_next_retry_at r,
            att_resolved_target_revision := arow_resolved_target_revision r,
            att_run_id := arow_run_id r, att_workflow_id := arow_workflow_id r,
            att_downstream_status := down, att_skipped_reason := arow_skipped_reason r,
            att_missed_count := arow_missed_count r, att_created_at := arow_created_at r,
            att_updated_at := arow_updated_at r\<rparr>)
      | _ \<Rightarrow> Inl (DecodeScheduleAttempt (arow_id r)))"

definition hydrate_schedule :: "schedule_row \<Rightarrow> schedule sched_op" where
  "hydrate_schedule r =
     (let doc = srow_document r;
          doc1 = (if sched_id doc = [] then doc\<lparr>sched_id := srow_id r\<rparr> else doc)
      in then_op (if sched_id doc = [] \<and> (parse_schedule_kind (srow_kind r) = None \<or>
                                             parse_schedule_status (srow_status r) = None)
                  then fail_op (DecodeSchedule (srow_id r)) else return_op ())
         (bind_op (get_schedule_target (srow_id r) (srow_target_ref_id r)) (\<lambda>tro.
         bind_op (case tro of
                    None \<Rightarrow> return_op (sched_target doc1)
                  | Some tr \<Rightarrow> lift_op (decode_target_record tr)) (\<lambda>tgt.
         bind_op (list_schedule_dispatch_attempts (srow_id r)) (\<lambda>ars.
         bind_op (each_op (\<lambda>ar. lift_op (decode_attempt_record ar)) ars) (\<lambda>atts.
         case (parse_schedule_kind (srow_kind r), parse_schedule_status (srow_status r)) of
           (Some k, Some st) \<Rightarrow> return_op
             (doc1\<lparr>sched_target := tgt, sched_attempts := atts,
               sched_environment_scope := srow_environment_scope r, sched_tenant_id := srow_tenant_id r,
               sched_kind := k, sched_status := st, sched_target_ref_id := srow_target_ref_id r,
               sched_next_due_at := srow_next_due_at r, sched_last_attempt_at := srow_last_attempt_at r,
               sched_last_outcome := srow_last_outcome r, sched_created_at := srow_created_at r,
               sched_updated_at := srow_updated_at r, sched_paused_at := srow_paused_at r,
               sched_cancelled_at := srow_cancelled_at r, sched_completed_at := srow_completed_at r,
               sched_trigger := (sched_trigger doc1)\<lparr>trig_next_due_at := srow_next_due_at r\<rparr>\<rparr>)
         | _ \<Rightarrow> fail_op (DecodeSchedule (srow_id r))))))))"

definition persist_schedule :: "schedule \<Rightarrow> unit sched_op" where
  "persist_schedule sc =
     then_op (upsert_schedule (schedule_row_of sc))
     (then_op (upsert_schedule_target (target_row_of sc))
     (then_op (each_op (\<lambda>a. upsert_schedule_dispatch_attempt (attempt_row_of (sched_id sc) a))
        (sched_attempts sc))
     (return_op ())))"

definition publish_event :: "sched_env \<Rightarrow> string \<Rightarrow> schedule \<Rightarrow> dispatch_attempt option \<Rightarrow> unit sched_op" where
  "publish_event env name sc att s =
     (Inr (), if se_bus env
        then s\<lparr>ss_events := ss_events s @ [\<lparr>sev_name = name, sev_schedule_id = sched_id sc,
               sev_status = schedule_status_str (sched_status sc),
               sev_attempt = map_option (\<lambda>a. (att_id a, dispatch_status_str (att_dispatch_status a),
                 att_run_id a, att_workflow_id a)) att\<rparr>]\<rparr>
        else s)"

section \<open>Operations on one schedule\<close>

definition list_schedules :: "sched_env \<Rightarrow> schedule list sched_op" where
  "list_schedules env = bind_op (list_schedule_rows (se_scope env)) (each_op hydrate_schedule)"

definition get_schedule :: "sched_env \<Rightarrow> string \<Rightarrow> schedule option sched_op" where
  "get_schedule env sid =
     bind_op (get_schedule_row (se_scope env) sid) (\<lambda>ro.
     case ro of
       None \<Rightarrow> return_op None
     | Some r \<Rightarrow> bind_op (hydrate_schedule r) (\<lambda>sc. return_op (Some sc)))"

definition create_schedule :: "sched_env \<Rightarrow> create_schedule_input \<Rightarrow> schedule sched_op" where
  "create_schedule env inp =
     bind_op read_clock (\<lambda>now.
     bind_op (due_op env (csi_trigger inp) (now - 10 ^ 9)) (\<lambda>due.
     bind_op draw_uuid (\<lambda>hex1.
     bind_op draw_uuid (\<lambda>hex2.
     let k = derive_schedule_kind (trig_kind (csi_trigger inp));
         tgt = (csi_target inp)\<lparr>tgt_updated_at := now, tgt_revision := 1, tgt_active := True\<rparr>;
         sc = \<lparr>sched_id = new_schedule_id hex1, sched_environment_scope = se_scope env,
               sched_tenant_id = [], sched_kind = k, sched_status = initial_schedule_status k,
               sched_target_ref_id = new_target_ref_id hex2,
               sched_trigger = (csi_trigger inp)\<lparr>trig_next_due_at := due\<rparr>,
               sched_target = tgt\<lparr>tgt_summary := target_summary tgt\<rparr>,
               sched_retry_policy = normalize_retry_policy (csi_retry_policy inp),
               sched_next_due_at = due, sched_last_attempt_at = None, sched_last_outcome = [],
               sched_created_at = now, sched_updated_at = now, sched_paused_at = None,
               sched_cancelled_at = None, sched_completed_at = None, sched_attempts = []\<rparr>
     in then_op (persist_schedule sc)
        (then_op (publish_event env ''schedule.created'' sc None) (return_op sc))))))"

definition save_status :: "sched_env \<Rightarrow> schedule \<Rightarrow> schedule option sched_op" where
  "save_status env sc =
     then_op (persist_schedule sc)
     (then_op (publish_event env ''schedule.status_changed'' sc None) (return_op (Some sc)))"

definition pause_schedule :: "sched_env \<Rightarrow> string \<Rightarrow> schedule option sched_op" where
  "pause_schedule env sid =
     bind_op (get_schedule env sid) (\<lambda>sco.
     case sco of None \<Rightarrow> return_op None | Some sc \<Rightarrow>
     if is_terminal_schedule_status (sched_status sc) then return_op (Some sc)
     else bind_op read_clock (\<lambda>now.
       save_status env (sc\<lparr>sched_status := SchedPaused, sched_paused_at := Some now,
                           sched_updated_at := now\<rparr>)))"

definition resume_schedule :: "sched_env \<Rightarrow> string \<Rightarrow> schedule option sched_op" where
  "resume_schedule env sid =
     bind_op (get_schedule env sid) (\<lambda>sco.
     case sco of None \<Rightarrow> return_op None | Some sc \<Rightarrow>
     if sched_status sc \<noteq> SchedPaused then return_op (Some sc)
     else bind_op read_clock (\<lambda>now.
       let sc1 = sc\<lparr>sched_paused_at := None, sched_updated_at := now\<rparr>
       in case sched_kind sc1 of
            Recurring \<Rightarrow>
              bind_op (due_op env (sched_trigger sc1) now) (\<lambda>due.
              save_status env (set_due due (sc1\<lparr>sched_status := SchedActive\<rparr>)))
          | OneTime \<Rightarrow>
              save_status env
                (let sc2 = sc1\<lparr>sched_status := SchedScheduled\<rparr>
                 in case trig_fire_at (sched_trigger sc2) of
                      None \<Rightarrow> sc2
                    | Some f \<Rightarrow> if f > now then set_due (Some f) sc2 else set_due None sc2)))"

definition cancel_schedule :: "sched_env \<Rightarrow> string \<Rightarrow> schedule option sched_op" where
  "cancel_schedule env sid =
     bind_op (get_schedule env sid) (\<lambda>sco.
     case sco of None \<Rightarrow> return_op None | Some sc \<Rightarrow>
     if sched_status sc = SchedCancelled then return_op (Some sc)
     else bind_op read_clock (\<lambda>now.
       save_status env (sc\<lparr>sched_status := SchedCancelled, sched_cancelled_at := Some now,
                           sched_updated_at := now\<rparr>)))"

section \<open>Dispatch\<close>

definition advance_schedule_after_due :: "sched_env \<Rightarrow> schedule \<Rightarrow> timestamp \<Rightarrow> schedule sched_op" where
  "advance_schedule_after_due env sc now =
     (case sched_kind sc of
        OneTime \<Rightarrow> return_op (set_due None sc)
      | Recurring \<Rightarrow> bind_op (due_op env (sched_trigger sc) now) (\<lambda>due. return_op (set_due due sc)))"

definition advance_schedule_after_dispatch :: "sched_env \<Rightarrow> schedule \<Rightarrow> timestamp \<Rightarrow> schedule sched_op" where
  "advance_schedule_after_dispatch env sc now =
     (case sched_kind sc of
        OneTime \<Rightarrow> return_op ((set_due None (sc\<lparr>sched_status := SchedCompleted,
                                sched_completed_at := Some now\<rparr>))\<lparr>sched_updated_at := now\<rparr>)
      | Recurring \<Rightarrow>
          bind_op (due_op env (sched_trigger sc) now) (\<lambda>due.
          return_op ((set_due due (sc\<lparr>sched_status := SchedActive\<rparr>))\<lparr>sched_updated_at := now\<rparr>)))"

definition finish_non_dispatch_attempt ::
  "sched_env \<Rightarrow> schedule \<Rightarrow> dispatch_attempt \<Rightarrow> timestamp \<Rightarrow> schedule sched_op" where
  "finish_non_dispatch_attempt env sc att now =
     (let sc1 = sc\<lparr>sched_attempts := att # sched_attempts sc, sched_last_attempt_at := Some now,
                   sched_last_outcome := dispatch_status_str (att_dispatch_status att),
                   sched_updated_at := now\<rparr>
      in bind_op (advance_schedule_after_due env sc1 now) (\<lambda>sc2.
         then_op (persist_schedule sc2)
         (then_op (publish_event env ''schedule.dispatch_recorded'' sc2 (Some att)) (return_op sc2))))"

text \<open>Every caller allows a retry.\<close>

definition record_dispatch_failure ::
  "sched_env \<Rightarrow> schedule \<Rightarrow> nat \<Rightarrow> string \<Rightarrow> string \<Rightarrow> schedule sched_op" where
  "record_dispatch_failure env sc i class reason =
     bind_op read_clock (\<lambda>now.
     bind_op (next_retry_time env (sched_retry_policy sc) (att_retry_count (sched_attempts sc ! i))) (\<lambda>retry_at.
     let att = (sched_attempts sc ! i)\<lparr>att_failure_class := class, att_failure_reason := reason,
                 att_updated_at := now\<rparr>;
         again = (att_retry_count att < rty_max_retries (sched_retry_policy sc) \<and> retry_at \<noteq> None);
         att' = (if again
                 then att\<lparr>att_dispatch_status := DispFailed, att_next_retry_at := retry_at,
                          att_retry_count := wrap_i64 (att_retry_count att + 1)\<rparr>
                 else att\<lparr>att_dispatch_status := DispExhausted, att_next_retry_at := None\<rparr>);
         sc1 = (change_attempt i (\<lambda>_. att') sc)\<lparr>sched_last_outcome := dispatch_status_str (att_dispatch_status att')\<rparr>
     in bind_op (if again then return_op sc1
                 else if sched_kind sc1 = OneTime
                 then return_op (set_due None (sc1\<lparr>sched_status := SchedDispatchFailed,
                                   sched_completed_at := Some now\<rparr>))
                 else advance_schedule_after_dispatch env sc1 now) (\<lambda>sc2.
        let sc3 = sc2\<lparr>sched_last_attempt_at := Some now, sched_updated_at := now\<rparr>
        in then_op (persist_schedule sc3)
           (then_op (if att_next_retry_at att' \<noteq> None
                     then publish_event env ''schedule.retry_scheduled'' sc3 (Some att') else return_op ())
           (then_op (publish_event env ''schedule.dispatch_recorded'' sc3 (Some att')) (return_op sc3))))))"

text \<open>A call of the run ledger: the manager reads the wall clock and draws its own identifier.\<close>

definition ledger_create_run :: "create_run_input \<Rightarrow> (runtime_error + run) sched_op" where
  "ledger_create_run inp =
     bind_op read_wall (\<lambda>now.
     bind_op draw_uuid (\<lambda>hex s.
       case create_run now hex inp (ss_ledger s) of (r, l) \<Rightarrow> (Inr r, s\<lparr>ss_ledger := l\<rparr>)))"

definition run_input_of :: "schedule \<Rightarrow> nat \<Rightarrow> run_target \<Rightarrow> create_run_input" where
  "run_input_of sc i rt =
     \<lparr>cri_run_id = [], cri_session_id = rt_session_id rt, cri_schedule_id = sched_id sc,
      cri_schedule_attempt_id = att_id (sched_attempts sc ! i), cri_reminder_id = [],
      cri_reminder_occurrence_id = [], cri_entrypoint = rt_entrypoint rt, cri_goal = rt_goal rt\<rparr>"

text \<open>What a successful dispatch writes into the attempt, before the schedule advances.\<close>

definition mark_dispatched ::
  "timestamp \<Rightarrow> nat \<Rightarrow> string \<Rightarrow> string option \<Rightarrow> int \<Rightarrow> downstream_status \<Rightarrow> schedule \<Rightarrow> schedule" where
  "mark_dispatched now i rid wid revision down sc =
     (change_attempt i (\<lambda>a. a\<lparr>att_run_id := rid,
        att_workflow_id := (case wid of None \<Rightarrow> att_workflow_id a | Some w \<Rightarrow> w),
        att_resolved_target_revision := revision, att_dispatch_status := DispDispatched,
        att_downstream_status := down, att_updated_at := now\<rparr>) sc)
       \<lparr>sched_last_outcome := dispatch_status_str DispDispatched\<rparr>"

definition finish_dispatch :: "sched_env \<Rightarrow> schedule \<Rightarrow> nat \<Rightarrow> timestamp \<Rightarrow> schedule sched_op" where
  "finish_dispatch env sc i now =
     bind_op (advance_schedule_after_dispatch env sc now) (\<lambda>sc1.
     then_op (persist_schedule sc1)
     (then_op (publish_event env ''schedule.dispatch_recorded'' sc1 (Some (sched_attempts sc1 ! i)))
     (return_op sc1)))"

definition dispatch_run :: "sched_env \<Rightarrow> schedule \<Rightarrow> nat \<Rightarrow> timestamp \<Rightarrow> target \<Rightarrow> schedule sched_op" where
  "dispatch_run env sc i now tgt =
     (case tgt_run tgt of
        None \<Rightarrow> record_dispatch_failure env sc i ''invalid_target_document''
                  ''run target document is missing run details''
      | Some rt \<Rightarrow>
          bind_op (ledger_create_run (run_input_of sc i rt)) (\<lambda>r.
          case r of
            Inl e \<Rightarrow> record_dispatch_failure env sc i ''run_create_failed'' (se_runtime_text env e)
          | Inr run \<Rightarrow>
              finish_dispatch env (mark_dispatched now i (run_id run) None (tgt_revision tgt)
                (map_run_status (run_status run)) sc) i now))"

definition dispatch_workflow :: "sched_env \<Rightarrow> schedule \<Rightarrow> nat \<Rightarrow> timestamp \<Rightarrow> target \<Rightarrow> schedule sched_op" where
  "dispatch_workflow env sc i now tgt =
     (case se_launcher env of
        None \<Rightarrow> record_dispatch_failure env sc i ''workflow_launcher_unavailable''
                  ''scheduler workflow launcher is not configured''
      | Some launch \<Rightarrow>
          (case tgt_workflow tgt of
             None \<Rightarrow> record_dispatch_failure env sc i ''invalid_target_document''
                       ''workflow target document is missing workflow details''
           | Some wt \<Rightarrow>
               (case launch wt (sched_id sc) (att_id (sched_attempts sc ! i)) of
                  Inl e \<Rightarrow> record_dispatch_failure env sc i ''workflow_dispatch_failed'' e
                | Inr res \<Rightarrow>
                    finish_dispatch env (mark_dispatched now i (wlr_run_id res) (Some (wlr_workflow_id res))
                      (tgt_revision tgt) (wlr_downstream_status res) sc) i now)))"

definition dispatch_attempt_at :: "sched_env \<Rightarrow> schedule \<Rightarrow> nat \<Rightarrow> trigger_source \<Rightarrow> schedule sched_op" where
  "dispatch_attempt_at env sc i source =
     bind_op read_clock (\<lambda>now.
     let sc1 = (change_attempt i (\<lambda>a. a\<lparr>att_trigger_source := source, att_dispatch_status := DispDispatching,
                  att_updated_at := now\<rparr>) sc)\<lparr>sched_last_attempt_at := Some now, sched_updated_at := now\<rparr>
     in then_op (persist_schedule sc1)
        (then_op (publish_event env ''schedule.dispatch_attempted'' sc1 (Some (sched_attempts sc1 ! i)))
        (bind_op (get_schedule_target (sched_id sc1) (sched_target_ref_id sc1)) (\<lambda>tro.
         case tro of
           None \<Rightarrow> record_dispatch_failure env sc1 i ''invalid_target''
                     ''schedule target reference is not available''
         | Some tr \<Rightarrow>
             if \<not> trow_active tr
             then record_dispatch_failure env sc1 i ''invalid_target''
                    ''schedule target reference is not available''
             else (case decode_target_record tr of
                     Inl e \<Rightarrow> record_dispatch_failure env sc1 i ''invalid_target_document'' (se_decode_text env e)
                   | Inr tgt \<Rightarrow>
                       (case tgt_kind tgt of
                          TargetRun \<Rightarrow> dispatch_run env sc1 i now tgt
                        | TargetWorkflow \<Rightarrow> dispatch_workflow env sc1 i now tgt))))))"

section \<open>The loop\<close>

fun find_index :: "('a \<Rightarrow> bool) \<Rightarrow> 'a list \<Rightarrow> nat option" where
  "find_index P [] = None"
| "find_index P (x # xs) = (if P x then Some 0 else map_option Suc (find_index P xs))"

definition retry_due :: "timestamp \<Rightarrow> dispatch_attempt \<Rightarrow> bool" where
  "retry_due now a \<longleftrightarrow> att_dispatch_status a = DispFailed \<and>
     (case att_next_retry_at a of None \<Rightarrow> False | Some t \<Rightarrow> t \<le> now)"

definition process_retries :: "sched_env \<Rightarrow> schedule \<Rightarrow> timestamp \<Rightarrow> schedule sched_op" where
  "process_retries env sc now =
     (case find_index (retry_due now) (sched_attempts sc) of
        None \<Rightarrow> return_op sc
      | Some i \<Rightarrow> dispatch_attempt_at env sc i SourceRetry)"

definition new_attempt :: "schedule \<Rightarrow> string \<Rightarrow> timestamp \<Rightarrow> timestamp \<Rightarrow> trigger_source \<Rightarrow> dispatch_attempt" where
  "new_attempt sc hex due now source =
     attempt_default\<lparr>att_id := new_attempt_id hex, att_schedule_id := sched_id sc, att_due_at := due,
       att_trigger_source := source, att_dispatch_status := DispPending,
       att_retry_budget := rty_max_retries (sched_retry_policy sc),
       att_downstream_status := DownNone, att_created_at := now, att_updated_at := now\<rparr>"

definition skipped :: "dispatch_status \<Rightarrow> string \<Rightarrow> dispatch_attempt \<Rightarrow> dispatch_attempt" where
  "skipped st reason a = a\<lparr>att_dispatch_status := st, att_skipped_reason := reason\<rparr>"

definition process_due_schedule ::
  "sched_env \<Rightarrow> schedule \<Rightarrow> timestamp \<Rightarrow> trigger_source \<Rightarrow> schedule sched_op" where
  "process_due_schedule env sc now source =
     (case sched_next_due_at sc of
        None \<Rightarrow> return_op sc
      | Some due \<Rightarrow>
          bind_op draw_uuid (\<lambda>hex.
          let att = new_attempt sc hex due now source in
          if sched_status sc = SchedPaused
          then finish_non_dispatch_attempt env sc (skipped DispSkippedPaused ''schedule_paused'' att) now
          else if sched_status sc = SchedCancelled
          then finish_non_dispatch_attempt env sc (skipped DispSkippedCancelled ''schedule_cancelled'' att) now
          else if is_terminal_schedule_status (sched_status sc) then return_op sc
          else if has_active_attempt (sched_attempts sc)
          then finish_non_dispatch_attempt env sc
                 (skipped DispSkippedOverlap ''schedule_execution_in_progress'' att) now
          else dispatch_attempt_at env (sc\<lparr>sched_attempts := att # sched_attempts sc\<rparr>) 0 source))"

text \<open>The status of what an attempt started, when it can be looked up.\<close>

definition downstream_of :: "schedule \<Rightarrow> dispatch_attempt \<Rightarrow> downstream_status option sched_op" where
  "downstream_of sc a =
     (if att_workflow_id a = []
      then (\<lambda>s. (Inr (map_option (map_run_status \<circ> run_status) (by_id (ss_ledger s) (att_run_id a))), s))
      else sched_call (\<lambda>s. (map_option map_workflow_status
             (ss_workflows s (sched_environment_scope sc) (att_run_id a) (att_workflow_id a)), s)))"

definition reconcile_attempt :: "schedule \<times> bool \<Rightarrow> nat \<Rightarrow> (schedule \<times> bool) sched_op" where
  "reconcile_attempt st i =
     (case st of (sc, changed) \<Rightarrow>
        let a = sched_attempts sc ! i in
        if att_dispatch_status a \<noteq> DispDispatched \<or> att_run_id a = [] then return_op (sc, changed)
        else bind_op (downstream_of sc a) (\<lambda>nexto.
          case nexto of
            None \<Rightarrow> return_op (sc, changed)
          | Some nxt \<Rightarrow>
              if nxt = att_downstream_status a then return_op (sc, changed)
              else bind_op read_clock (\<lambda>now.
                let sc1 = change_attempt i (\<lambda>a. a\<lparr>att_downstream_status := nxt, att_updated_at := now\<rparr>) sc
                in return_op (if is_terminal_downstream nxt
                     then sc1\<lparr>sched_last_outcome := downstream_status_str nxt, sched_updated_at := now\<rparr>
                     else sc1, True))))"

fun fold_op :: "('a \<Rightarrow> 'b \<Rightarrow> ('s, 'e, 'a) op) \<Rightarrow> 'a \<Rightarrow> 'b list \<Rightarrow> ('s, 'e, 'a) op" where
  "fold_op f x [] = return_op x"
| "fold_op f x (y # ys) = bind_op (f x y) (\<lambda>x'. fold_op f x' ys)"

definition reconcile_downstream :: "schedule \<Rightarrow> schedule sched_op" where
  "reconcile_downstream sc =
     bind_op (fold_op reconcile_attempt (sc, False) [0..<length (sched_attempts sc)]) (\<lambda>(sc1, changed).
     if changed then then_op (persist_schedule sc1) (return_op sc1) else return_op sc1)"

text \<open>
  The catch-up loop goes from one due time to the next as long as that lies before now. The next due
  time is later than the last one, so the loop ends; the guard says so.
\<close>

function missed_intervals ::
  "sched_env \<Rightarrow> trigger \<Rightarrow> timestamp \<Rightarrow> timestamp \<Rightarrow> int \<Rightarrow> trigger_error + int \<times> timestamp" where
  "missed_intervals env trig now cursor n =
     (case next_due_after env trig cursor of
        Inl e \<Rightarrow> Inl e
      | Inr None \<Rightarrow> Inr (n, cursor)
      | Inr (Some nxt) \<Rightarrow>
          if nxt < now \<and> cursor < nxt then missed_intervals env trig now nxt (n + 1) else Inr (n, cursor))"
  by pat_completeness auto
termination
  by (relation "measure (\<lambda>(env, trig, now, cursor, n). nat (now - cursor))") auto

declare missed_intervals.simps [simp del]

definition record_missed_intervals :: "sched_env \<Rightarrow> schedule \<Rightarrow> timestamp \<Rightarrow> schedule sched_op" where
  "record_missed_intervals env sc now =
     (case sched_next_due_at sc of
        None \<Rightarrow> return_op sc
      | Some due \<Rightarrow>
          if sched_kind sc \<noteq> Recurring then return_op sc
          else (case missed_intervals env (sched_trigger sc) now due 0 of
                  Inl e \<Rightarrow> fail_op (SchedTrigger e)
                | Inr (missed, cursor) \<Rightarrow>
                    if missed = 0 then return_op sc
                    else bind_op draw_uuid (\<lambda>hex.
                      let att = attempt_default\<lparr>att_id := new_attempt_id hex, att_schedule_id := sched_id sc,
                                  att_due_at := due, att_trigger_source := SourceCatchUp,
                                  att_dispatch_status := DispMissed, att_missed_count := missed,
                                  att_downstream_status := DownNone, att_created_at := now,
                                  att_updated_at := now\<rparr>;
                          sc1 = (set_due (Some cursor) (sc\<lparr>sched_attempts := att # sched_attempts sc,
                                  sched_last_attempt_at := Some now,
                                  sched_last_outcome := dispatch_status_str DispMissed\<rparr>))\<lparr>sched_updated_at := now\<rparr>
                      in then_op (persist_schedule sc1)
                         (then_op (publish_event env ''schedule.dispatch_recorded'' sc1 (Some att))
                         (return_op sc1)))))"

definition is_due :: "timestamp \<Rightarrow> schedule \<Rightarrow> bool" where
  "is_due now sc \<longleftrightarrow> (case sched_next_due_at sc of None \<Rightarrow> False | Some t \<Rightarrow> t \<le> now)"

definition catch_up_schedule :: "sched_env \<Rightarrow> timestamp \<Rightarrow> schedule \<Rightarrow> unit sched_op" where
  "catch_up_schedule env now sc =
     (if \<not> is_due now sc \<or> is_terminal_schedule_status (sched_status sc) then return_op ()
      else bind_op (if sched_kind sc = Recurring \<and> sched_status sc \<noteq> SchedCancelled
                    then record_missed_intervals env sc now else return_op sc) (\<lambda>sc1.
           then_op (process_due_schedule env sc1 now SourceCatchUp) (return_op ())))"

definition catch_up :: "sched_env \<Rightarrow> unit sched_op" where
  "catch_up env =
     bind_op (list_schedules env) (\<lambda>items.
     bind_op read_clock (\<lambda>now.
     then_op (each_op (catch_up_schedule env now) items) (return_op ())))"

definition tick_schedule :: "sched_env \<Rightarrow> timestamp \<Rightarrow> schedule \<Rightarrow> unit sched_op" where
  "tick_schedule env now sc =
     bind_op (reconcile_downstream sc) (\<lambda>sc1.
     bind_op (process_retries env sc1 now) (\<lambda>sc2.
     if \<not> is_due now sc2 then return_op ()
     else then_op (process_due_schedule env sc2 now SourceNormal) (return_op ())))"

definition tick :: "sched_env \<Rightarrow> unit sched_op" where
  "tick env =
     bind_op (list_schedules env) (\<lambda>items.
     bind_op read_clock (\<lambda>now.
     then_op (each_op (tick_schedule env now) items) (return_op ())))"

end
