(* ===== verification/Scheduler_Invariant.thy ===== *)
theory Scheduler_Invariant
  imports Scheduler Runtime_Invariant
begin

text \<open>
  The invariant of the schedule tables and that every operation of the scheduler keeps it, whatever
  statements of the store fail. A schedule in memory is judged by what the tables and the run ledger
  say (the retry policies of the schedules and the runs created for their attempts); both only grow
  while the scheduler works, so a judgement made once stays true.
\<close>

section \<open>Invariant\<close>

definition policies :: "sched_state \<Rightarrow> (string \<times> retry_policy) set" where
  "policies s = (\<lambda>r. (srow_id r, sched_retry_policy (srow_document r))) ` set (ss_schedules s)"

definition started :: "sched_state \<Rightarrow> (string \<times> string \<times> string) set" where
  "started s = {(rid, run_schedule_id r, run_schedule_attempt_id r) | rid r. by_id (ss_ledger s) rid = Some r}"

text \<open>
  An attempt is in order: it belongs to its schedule, its retries stay within the policy, a failed
  one waits for a retry, an exhausted one does not, and a dispatched run exists.
\<close>

definition att_ok :: "(string \<times> string \<times> string) set \<Rightarrow> retry_policy \<Rightarrow> string \<Rightarrow> dispatch_attempt \<Rightarrow> bool" where
  "att_ok Y p sid a \<longleftrightarrow> att_schedule_id a = sid \<and>
     0 \<le> att_retry_count a \<and> att_retry_count a \<le> rty_max_retries p \<and>
     (att_dispatch_status a = DispFailed \<longrightarrow> att_next_retry_at a \<noteq> None) \<and>
     (att_dispatch_status a = DispExhausted \<longrightarrow> att_next_retry_at a = None) \<and>
     (att_dispatch_status a = DispDispatched \<and> att_workflow_id a = [] \<longrightarrow>
        (att_run_id a, sid, att_id a) \<in> Y)"

definition schedule_row_ok :: "schedule_row \<Rightarrow> bool" where
  "schedule_row_ok r \<longleftrightarrow> srow_id r = sched_id (srow_document r) \<and> srow_id r \<noteq> [] \<and>
     parse_schedule_kind (srow_kind r) \<noteq> None \<and> parse_schedule_status (srow_status r) \<noteq> None \<and>
     0 \<le> rty_max_retries (sched_retry_policy (srow_document r)) \<and>
     rty_max_retries (sched_retry_policy (srow_document r)) < 2 ^ 63"

definition attempt_row_ok ::
  "(string \<times> retry_policy) set \<Rightarrow> (string \<times> string \<times> string) set \<Rightarrow> attempt_row \<Rightarrow> bool" where
  "attempt_row_ok X Y r \<longleftrightarrow>
     (\<exists>sid p a. (sid, p) \<in> X \<and> r = attempt_row_of sid a \<and> att_ok Y p sid a)"

definition sched_wf :: "sched_state \<Rightarrow> bool" where
  "sched_wf s \<longleftrightarrow>
     ledger_wf (ss_ledger s) \<and> distinct (map srow_id (ss_schedules s)) \<and>
     (\<forall>r \<in> set (ss_schedules s). schedule_row_ok r) \<and>
     (\<forall>r \<in> set (ss_targets s). parse_target_kind (trow_target_kind r) \<noteq> None) \<and>
     (\<forall>r \<in> set (ss_attempts s). attempt_row_ok (policies s) (started s) r)"

text \<open>The invariant together with a part of what has been stored and started.\<close>

definition sched_inv ::
  "(string \<times> retry_policy) set \<Rightarrow> (string \<times> string \<times> string) set \<Rightarrow> sched_state \<Rightarrow> bool" where
  "sched_inv X Y s \<longleftrightarrow> sched_wf s \<and> X \<subseteq> policies s \<and> Y \<subseteq> started s"

definition sched_ok ::
  "(string \<times> retry_policy) set \<Rightarrow> (string \<times> string \<times> string) set \<Rightarrow> schedule \<Rightarrow> bool" where
  "sched_ok X Y sc \<longleftrightarrow> sched_id sc \<noteq> [] \<and> (sched_id sc, sched_retry_policy sc) \<in> X \<and>
     0 \<le> rty_max_retries (sched_retry_policy sc) \<and> rty_max_retries (sched_retry_policy sc) < 2 ^ 63 \<and>
     (\<forall>a \<in> set (sched_attempts sc). att_ok Y (sched_retry_policy sc) (sched_id sc) a)"

lemma att_ok_mono: "att_ok Y p sid a \<Longrightarrow> Y \<subseteq> Y' \<Longrightarrow> att_ok Y' p sid a"
  by (auto simp: att_ok_def)

lemma attempt_row_ok_mono: "attempt_row_ok X Y r \<Longrightarrow> X \<subseteq> X' \<Longrightarrow> Y \<subseteq> Y' \<Longrightarrow> attempt_row_ok X' Y' r"
  unfolding attempt_row_ok_def by (blast intro: att_ok_mono)

lemma sched_ok_mono: "sched_ok X Y sc \<Longrightarrow> X \<subseteq> X' \<Longrightarrow> Y \<subseteq> Y' \<Longrightarrow> sched_ok X' Y' sc"
  unfolding sched_ok_def by (blast intro: att_ok_mono)

lemma sched_inv_mono: "sched_inv X' Y' s \<Longrightarrow> X \<subseteq> X' \<Longrightarrow> Y \<subseteq> Y' \<Longrightarrow> sched_inv X Y s"
  by (auto simp: sched_inv_def)

text \<open>Events, faults and readings of the clock do not touch the invariant.\<close>

lemma sched_inv_frame [simp]:
  "sched_inv X Y (s\<lparr>ss_faults := f\<rparr>) = sched_inv X Y s"
  "sched_inv X Y (s\<lparr>ss_drawn := n\<rparr>) = sched_inv X Y s"
  "sched_inv X Y (s\<lparr>ss_events := ev\<rparr>) = sched_inv X Y s"
  by (simp_all add: sched_inv_def sched_wf_def policies_def started_def)

section \<open>Statements\<close>

lemma triple_sched_call:
  assumes "\<And>s. P s \<Longrightarrow> Q (fst (f s)) (snd (f s))" and "\<And>s. P s \<Longrightarrow> E s"
    and "\<And>s fs. P (s\<lparr>ss_faults := fs\<rparr>) = P s"
  shows "triple P (sched_call f) Q E"
proof -
  have "case sched_call f s of (Inl e, t) \<Rightarrow> E t | (Inr x, t) \<Rightarrow> Q x t" if "P s" for s
  proof (cases "ss_faults s")
    case Nil
    with assms(1) [OF that] show ?thesis by (auto simp: sched_call_def split: prod.split)
  next
    case (Cons failed rest)
    with that assms(3) have "P (s\<lparr>ss_faults := rest\<rparr>)" by simp
    from assms(1) [OF this] assms(2) [OF this] Cons show ?thesis
      by (auto simp: sched_call_def Let_def split: prod.split)
  qed
  then show ?thesis by (simp add: triple_def)
qed

lemma keeps_sched_call:
  assumes "\<And>s. sched_inv X Y s \<Longrightarrow> sched_inv X Y (snd (f s))"
  shows "keeps (sched_inv X Y) (sched_call f)"
  unfolding keeps_def using assms by (intro triple_sched_call) simp_all

lemma yields_sched_call:
  assumes "\<And>s. snd (f s) = s" and "\<And>s. sched_inv X Y s \<Longrightarrow> Q (fst (f s))"
  shows "yields (sched_inv X Y) Q (sched_call f)"
  unfolding yields_def using assms by (intro triple_sched_call) simp_all

lemma clock_keeps [keeps_intros]:
  "keeps (sched_inv X Y) read_clock" "keeps (sched_inv X Y) read_wall" "keeps (sched_inv X Y) draw_uuid"
  by (auto intro!: keepsI simp: read_clock_def read_wall_def draw_uuid_def)

lemma publish_event_keeps [keeps_intros]: "keeps (sched_inv X Y) (publish_event env name sc att)"
  by (rule keepsI) (simp add: publish_event_def)

lemma due_op_keeps [keeps_intros]: "keeps (sched_inv X Y) (due_op env trig after)"
  by (auto simp: due_op_def intro: keeps_intros split: sum.split)

lemma next_retry_time_keeps [keeps_intros]: "keeps (sched_inv X Y) (next_retry_time env p n)"
  unfolding next_retry_time_def by (auto intro!: keeps_intros split: option.split)

lemma policies_upsert:
  assumes "distinct (map srow_id rows)"
    and "\<forall>x \<in> set rows. srow_id x = srow_id r \<longrightarrow>
           sched_retry_policy (srow_document x) = sched_retry_policy (srow_document r)"
  shows "(\<lambda>x. (srow_id x, sched_retry_policy (srow_document x))) ` set rows \<subseteq>
    (\<lambda>x. (srow_id x, sched_retry_policy (srow_document x))) ` set (upsert srow_id r rows)"
  using assms(2) by (force simp: set_upsert)

text \<open>Writing a row whose policy does not change an existing one.\<close>

lemma sched_inv_upsert_schedule:
  assumes "sched_inv X Y s" and "schedule_row_ok r"
    and "\<forall>x \<in> set (ss_schedules s). srow_id x = srow_id r \<longrightarrow>
           sched_retry_policy (srow_document x) = sched_retry_policy (srow_document r)"
  shows "sched_inv (insert (srow_id r, sched_retry_policy (srow_document r)) X) Y
    (s\<lparr>ss_schedules := upsert srow_id r (ss_schedules s)\<rparr>)"
proof -
  let ?t = "s\<lparr>ss_schedules := upsert srow_id r (ss_schedules s)\<rparr>"
  from assms(1) have wf: "sched_wf s" and X: "X \<subseteq> policies s" and Y: "Y \<subseteq> started s"
    by (simp_all add: sched_inv_def)
  have grow: "policies s \<subseteq> policies ?t"
    using policies_upsert [OF _ assms(3)] wf by (simp add: policies_def sched_wf_def)
  have same: "started ?t = started s" by (simp add: started_def)
  have "\<forall>a \<in> set (ss_attempts s). attempt_row_ok (policies ?t) (started ?t) a"
    using wf grow same by (auto simp: sched_wf_def intro: attempt_row_ok_mono)
  then have "sched_wf ?t"
    using wf assms(2) by (auto simp: sched_wf_def set_upsert intro: distinct_upsert)
  moreover have "(srow_id r, sched_retry_policy (srow_document r)) \<in> policies ?t"
    by (simp add: policies_def set_upsert)
  ultimately show ?thesis using X Y grow same by (auto simp: sched_inv_def)
qed

lemma policy_unique:
  assumes "distinct (map srow_id (ss_schedules s))" and "(sid, p) \<in> policies s"
    and "x \<in> set (ss_schedules s)" and "srow_id x = sid"
  shows "sched_retry_policy (srow_document x) = p"
proof -
  from assms(2) obtain y where y: "y \<in> set (ss_schedules s)" "srow_id y = sid"
    and p: "p = sched_retry_policy (srow_document y)" by (auto simp: policies_def)
  from same_key [OF assms(1,3) y(1)] y(2) assms(4) p show ?thesis by simp
qed

lemma schedule_row_of_ok: "sched_ok X Y sc \<Longrightarrow> schedule_row_ok ((schedule_row_of sc)\<lparr>srow_tenant_id := tid\<rparr>)"
  by (simp add: sched_ok_def schedule_row_ok_def schedule_row_of_def)

lemma upsert_schedule_keeps [keeps_intros]:
  assumes "sched_ok X Y sc"
  shows "keeps (sched_inv X Y) (upsert_schedule (schedule_row_of sc))"
  unfolding upsert_schedule_def
proof (rule keeps_sched_call)
  fix s
  assume inv: "sched_inv X Y s"
  obtain tid where tid: "tid = (case find (\<lambda>x. srow_id x = srow_id (schedule_row_of sc)) (ss_schedules s) of
      None \<Rightarrow> [] | Some x \<Rightarrow> srow_tenant_id x)" by simp
  let ?r = "(schedule_row_of sc)\<lparr>srow_tenant_id := tid\<rparr>"
  from inv assms have "distinct (map srow_id (ss_schedules s))"
    and "(srow_id ?r, sched_retry_policy (srow_document ?r)) \<in> policies s"
    by (auto simp: sched_inv_def sched_wf_def sched_ok_def schedule_row_of_def)
  then have same: "\<forall>x \<in> set (ss_schedules s). srow_id x = srow_id ?r \<longrightarrow>
      sched_retry_policy (srow_document x) = sched_retry_policy (srow_document ?r)"
    by (blast intro: policy_unique)
  have "sched_inv X Y (s\<lparr>ss_schedules := upsert srow_id ?r (ss_schedules s)\<rparr>)"
    by (rule sched_inv_mono [OF sched_inv_upsert_schedule [OF inv schedule_row_of_ok [OF assms] same]]) auto
  with tid show "sched_inv X Y (snd (let tenant = (case find (\<lambda>x. srow_id x = srow_id (schedule_row_of sc)) (ss_schedules s) of
      None \<Rightarrow> [] | Some x \<Rightarrow> srow_tenant_id x)
      in ((), s\<lparr>ss_schedules := upsert srow_id ((schedule_row_of sc)\<lparr>srow_tenant_id := tenant\<rparr>) (ss_schedules s)\<rparr>)))"
    by (simp add: Let_def)
qed

lemma upsert_schedule_target_keeps [keeps_intros]:
  "keeps (sched_inv X Y) (upsert_schedule_target (target_row_of sc))"
  unfolding upsert_schedule_target_def
  by (rule keeps_sched_call)
    (auto simp: sched_inv_def sched_wf_def policies_def started_def set_upsert target_row_of_def)

lemma upsert_attempt_keeps:
  assumes "sched_ok X Y sc" and "a \<in> set (sched_attempts sc)"
  shows "keeps (sched_inv X Y) (upsert_schedule_dispatch_attempt (attempt_row_of (sched_id sc) a))"
  unfolding upsert_schedule_dispatch_attempt_def
proof (rule keeps_sched_call)
  fix s
  assume inv: "sched_inv X Y s"
  have "attempt_row_ok X Y (attempt_row_of (sched_id sc) a)"
    using assms unfolding attempt_row_ok_def sched_ok_def by blast
  then have "attempt_row_ok (policies s) (started s) (attempt_row_of (sched_id sc) a)"
    using inv by (auto simp: sched_inv_def intro: attempt_row_ok_mono)
  with inv show "sched_inv X Y (snd ((), s\<lparr>ss_attempts := upsert arow_id (attempt_row_of (sched_id sc) a) (ss_attempts s)\<rparr>))"
    by (auto simp: sched_inv_def sched_wf_def policies_def started_def set_upsert)
qed

lemma persist_schedule_keeps [keeps_intros]:
  assumes "sched_ok X Y sc"
  shows "keeps (sched_inv X Y) (persist_schedule sc)"
  unfolding persist_schedule_def
  by (intro keeps_then keeps_return keeps_each_in upsert_schedule_keeps upsert_schedule_target_keeps
      upsert_attempt_keeps assms)

section \<open>Programs and what they have seen\<close>

text \<open>The value returned has a property of what is stored and started by then.\<close>

definition sees ::
  "(string \<times> retry_policy) set \<Rightarrow> (string \<times> string \<times> string) set \<Rightarrow>
   ((string \<times> retry_policy) set \<Rightarrow> (string \<times> string \<times> string) set \<Rightarrow> 'a \<Rightarrow> bool) \<Rightarrow> 'a sched_op \<Rightarrow> bool" where
  "sees X Y Q m \<longleftrightarrow>
     triple (sched_inv X Y) m (\<lambda>x s. sched_inv X Y s \<and> Q (policies s) (started s) x) (sched_inv X Y)"

abbreviation keeps_ok ::
  "(string \<times> retry_policy) set \<Rightarrow> (string \<times> string \<times> string) set \<Rightarrow> schedule sched_op \<Rightarrow> bool" where
  "keeps_ok X Y \<equiv> sees X Y sched_ok"

lemma keeps_eq_sees: "keeps (sched_inv X Y) m = sees X Y (\<lambda>_ _ _. True) m"
  by (simp add: keeps_def sees_def)

lemma sees_return: "(\<And>X' Y'. X \<subseteq> X' \<Longrightarrow> Y \<subseteq> Y' \<Longrightarrow> Q X' Y' x) \<Longrightarrow> sees X Y Q (return_op x)"
  by (auto simp: sees_def triple_def return_op_def sched_inv_def)

lemma sees_fail: "sees X Y Q (fail_op e)"
  by (simp add: sees_def triple_def fail_op_def)

lemma sees_bind:
  assumes "sees X Y Q m" and "\<And>X' Y' x. X \<subseteq> X' \<Longrightarrow> Y \<subseteq> Y' \<Longrightarrow> Q X' Y' x \<Longrightarrow> sees X' Y' R (f x)"
  shows "sees X Y R (bind_op m f)"
  unfolding sees_def
proof (rule triple_bind [OF assms(1) [unfolded sees_def]])
  fix x
  have "case f x s of (Inl e, t) \<Rightarrow> sched_inv X Y t
      | (Inr y, t) \<Rightarrow> sched_inv X Y t \<and> R (policies t) (started t) y"
    if s: "sched_inv X Y s" and Q: "Q (policies s) (started s) x" for s
  proof -
    from s have grow: "X \<subseteq> policies s" "Y \<subseteq> started s" and inv: "sched_inv (policies s) (started s) s"
      by (simp_all add: sched_inv_def)
    from assms(2) [OF grow Q] inv
    have "case f x s of (Inl e, t) \<Rightarrow> sched_inv (policies s) (started s) t
      | (Inr y, t) \<Rightarrow> sched_inv (policies s) (started s) t \<and> R (policies t) (started t) y"
      by (simp add: sees_def triple_def)
    with grow show ?thesis by (auto split: prod.splits sum.splits intro: sched_inv_mono)
  qed
  then show "triple (\<lambda>s. sched_inv X Y s \<and> Q (policies s) (started s) x) (f x)
      (\<lambda>x s. sched_inv X Y s \<and> R (policies s) (started s) x) (sched_inv X Y)"
    by (simp add: triple_def)
qed

lemma sees_bind_yields:
  assumes "yields (sched_inv X Y) Q m" and "\<And>x. Q x \<Longrightarrow> sees X Y R (f x)"
  shows "sees X Y R (bind_op m f)"
  unfolding sees_def
proof (rule triple_bind [OF assms(1) [unfolded yields_def]])
  fix x
  show "triple (\<lambda>s. sched_inv X Y s \<and> Q x) (f x)
     (\<lambda>x s. sched_inv X Y s \<and> R (policies s) (started s) x) (sched_inv X Y)"
    using assms(2) [of x] by (auto simp: triple_def sees_def)
qed

lemma sees_after: "keeps (sched_inv X Y) m \<Longrightarrow> (\<And>x. sees X Y R (f x)) \<Longrightarrow> sees X Y R (bind_op m f)"
  by (rule sees_bind_yields [OF yields_of_keeps])

lemma sees_then: "keeps (sched_inv X Y) m \<Longrightarrow> sees X Y R n \<Longrightarrow> sees X Y R (then_op m n)"
  unfolding then_op_def by (rule sees_after)

lemma keeps_of_sees: "sees X Y Q m \<Longrightarrow> keeps (sched_inv X Y) m"
  unfolding sees_def by (rule keeps_of_triple)

lemma keeps_bind_sees:
  assumes "sees X Y Q m" and "\<And>X' Y' x. X \<subseteq> X' \<Longrightarrow> Y \<subseteq> Y' \<Longrightarrow> Q X' Y' x \<Longrightarrow> keeps (sched_inv X' Y') (f x)"
  shows "keeps (sched_inv X Y) (bind_op m f)"
  unfolding keeps_eq_sees by (rule sees_bind [OF assms(1)]) (simp add: assms(2) keeps_eq_sees [symmetric])

lemma sees_each:
  assumes "\<And>X' Y' x. x \<in> set xs \<Longrightarrow> X \<subseteq> X' \<Longrightarrow> Y \<subseteq> Y' \<Longrightarrow> sees X' Y' Q (f x)"
    and "\<And>X Y X' Y' y. Q X Y y \<Longrightarrow> X \<subseteq> X' \<Longrightarrow> Y \<subseteq> Y' \<Longrightarrow> Q X' Y' y"
  shows "sees X Y (\<lambda>X Y ys. \<forall>y \<in> set ys. Q X Y y) (each_op f xs)"
  using assms(1)
proof (induction xs arbitrary: X Y)
  case Nil
  show ?case by (simp add: sees_return)
next
  case (Cons x xs)
  have tail: "sees X' Y' (\<lambda>X Y ys. \<forall>y \<in> set ys. Q X Y y) (each_op f xs)" if "X \<subseteq> X'" "Y \<subseteq> Y'" for X' Y'
    using Cons.IH [of X' Y'] Cons.prems that by (meson list.set_intros(2) subset_trans)
  have head: "sees X Y Q (f x)" using Cons.prems by simp
  show ?case
    unfolding each_op.simps
  proof (rule sees_bind [OF head], rule sees_bind [OF tail])
    fix X1 Y1 y X2 Y2 ys
    assume y: "Q X1 Y1 y" and ys: "\<forall>y \<in> set ys. Q X2 Y2 y" and grow: "X1 \<subseteq> X2" "Y1 \<subseteq> Y2"
    show "sees X2 Y2 (\<lambda>X Y ys. \<forall>y \<in> set ys. Q X Y y) (return_op (y # ys))"
    proof (rule sees_return)
      fix X3 Y3
      assume "X2 \<subseteq> X3" "Y2 \<subseteq> Y3"
      with y ys grow show "\<forall>z \<in> set (y # ys). Q X3 Y3 z"
        using assms(2) by (metis set_ConsD subset_trans)
    qed
  qed
qed

lemma sees_sched_call:
  assumes "\<And>s. snd (f s) = s" and "\<And>s. sched_inv X Y s \<Longrightarrow> Q (policies s) (started s) (fst (f s))"
  shows "sees X Y Q (sched_call f)"
  unfolding sees_def using assms by (intro triple_sched_call) simp_all

lemma keeps_ok_return: "sched_ok X Y sc \<Longrightarrow> keeps_ok X Y (return_op sc)"
  by (blast intro: sees_return sched_ok_mono)

lemmas keeps_ok_intros = keeps_ok_return sees_fail sees_then

section \<open>Changes of a schedule in memory\<close>

lemma sched_ok_set_due [simp]: "sched_ok X Y (set_due d sc) = sched_ok X Y sc"
  by (simp add: sched_ok_def set_due_def)

lemma sched_ok_frame [simp]:
  "sched_ok X Y (sc\<lparr>sched_status := st\<rparr>) = sched_ok X Y sc"
  "sched_ok X Y (sc\<lparr>sched_last_attempt_at := la\<rparr>) = sched_ok X Y sc"
  "sched_ok X Y (sc\<lparr>sched_last_outcome := lo\<rparr>) = sched_ok X Y sc"
  "sched_ok X Y (sc\<lparr>sched_updated_at := ua\<rparr>) = sched_ok X Y sc"
  "sched_ok X Y (sc\<lparr>sched_paused_at := pa\<rparr>) = sched_ok X Y sc"
  "sched_ok X Y (sc\<lparr>sched_cancelled_at := ca\<rparr>) = sched_ok X Y sc"
  "sched_ok X Y (sc\<lparr>sched_completed_at := cm\<rparr>) = sched_ok X Y sc"
  by (simp_all add: sched_ok_def)

lemma sched_ok_change:
  assumes "sched_ok X Y sc" and "\<And>a. a \<in> set (sched_attempts sc) \<Longrightarrow> a = sched_attempts sc ! i \<Longrightarrow>
      att_ok Y (sched_retry_policy sc) (sched_id sc) (f a)"
  shows "sched_ok X Y (change_attempt i f sc)"
proof (cases "i < length (sched_attempts sc)")
  case True
  with assms(2) have "att_ok Y (sched_retry_policy sc) (sched_id sc) (f (sched_attempts sc ! i))" by simp
  with assms(1) show ?thesis
    by (auto simp: sched_ok_def change_attempt_def dest!: set_update_subset_insert [THEN subsetD])
next
  case False
  with assms(1) show ?thesis by (simp add: change_attempt_def list_update_beyond)
qed

lemma sched_ok_push:
  "sched_ok X Y sc \<Longrightarrow> att_ok Y (sched_retry_policy sc) (sched_id sc) a \<Longrightarrow>
   sched_ok X Y (sc\<lparr>sched_attempts := a # sched_attempts sc\<rparr>)"
  by (simp add: sched_ok_def)

lemma new_attempt_ok:
  "sched_ok X Y sc \<Longrightarrow> att_ok Y (sched_retry_policy sc) (sched_id sc) (new_attempt sc hex due now source)"
  by (simp add: att_ok_def new_attempt_def attempt_default_def sched_ok_def)

lemma skipped_ok:
  assumes "att_ok Y p sid a" and "st \<in> {DispSkippedPaused, DispSkippedCancelled, DispSkippedOverlap}"
  shows "att_ok Y p sid (skipped st reason a)"
  using assms by (auto simp: att_ok_def skipped_def)

section \<open>Dispatch\<close>

text \<open>The workflow launcher names the workflow it started.\<close>

definition launcher_ok :: "sched_env \<Rightarrow> bool" where
  "launcher_ok env \<longleftrightarrow> (case se_launcher env of None \<Rightarrow> True | Some launch \<Rightarrow>
     (\<forall>w sid aid res. launch w sid aid = Inr res \<longrightarrow> wlr_workflow_id res \<noteq> []))"

lemma advance_after_due_yields:
  "sched_ok X Y sc \<Longrightarrow> yields (sched_inv X Y) (sched_ok X Y) (advance_schedule_after_due env sc now)"
  unfolding advance_schedule_after_due_def
  by (cases "sched_kind sc") (auto intro!: yields_return yields_bind_keeps due_op_keeps)

lemma advance_after_dispatch_yields:
  "sched_ok X Y sc \<Longrightarrow> yields (sched_inv X Y) (sched_ok X Y) (advance_schedule_after_dispatch env sc now)"
  unfolding advance_schedule_after_dispatch_def
  by (cases "sched_kind sc") (auto intro!: yields_return yields_bind_keeps due_op_keeps)

lemma finish_non_dispatch_attempt_ok:
  assumes "sched_ok X Y sc" and "att_ok Y (sched_retry_policy sc) (sched_id sc) att"
  shows "keeps_ok X Y (finish_non_dispatch_attempt env sc att now)"
  unfolding finish_non_dispatch_attempt_def Let_def
  by (rule sees_bind_yields [OF advance_after_due_yields])
    (auto intro!: keeps_ok_intros keeps_intros sched_ok_push assms)

lemma next_retry_time_some:
  "yields (sched_inv X Y) (\<lambda>r. n < rty_max_retries p \<longrightarrow> r \<noteq> None) (next_retry_time env p n)"
  unfolding next_retry_time_def
  by (auto intro!: yields_return yields_fail yields_bind_keeps clock_keeps split: option.split)

lemma failed_attempt_ok:
  assumes "att_ok Y p sid a" and "att_retry_count a < rty_max_retries p" and "rty_max_retries p < 2 ^ 63"
    and "r \<noteq> None"
  shows "att_ok Y p sid (a\<lparr>att_failure_class := c, att_failure_reason := m, att_updated_at := now,
    att_dispatch_status := DispFailed, att_next_retry_at := r,
    att_retry_count := wrap_i64 (att_retry_count a + 1)\<rparr>)"
proof -
  have "wrap_i64 (att_retry_count a + 1) = att_retry_count a + 1"
    using assms by (intro wrap_i64_same) (auto simp: att_ok_def)
  with assms show ?thesis by (auto simp: att_ok_def)
qed

lemma exhausted_attempt_ok:
  "att_ok Y p sid a \<Longrightarrow> att_ok Y p sid (a\<lparr>att_failure_class := c, att_failure_reason := m, att_updated_at := now,
    att_dispatch_status := DispExhausted, att_next_retry_at := None\<rparr>)"
  by (auto simp: att_ok_def)

lemma record_dispatch_failure_ok:
  assumes "sched_ok X Y sc"
  shows "keeps_ok X Y (record_dispatch_failure env sc i class reason)"
proof -
  let ?a = "sched_attempts sc ! i"
  let ?p = "sched_retry_policy sc"
  have a: "att_ok Y ?p (sched_id sc) a" if "a \<in> set (sched_attempts sc)" for a
    using assms that by (simp add: sched_ok_def)
  have p: "rty_max_retries ?p < 2 ^ 63" using assms by (simp add: sched_ok_def)
  show ?thesis
    unfolding record_dispatch_failure_def Let_def
    apply (rule sees_after [OF clock_keeps(1)])
    apply (rule sees_after [OF next_retry_time_keeps])
    apply (rule sees_bind_yields [where Q = "sched_ok X Y"])
    subgoal for now retry
      by (auto simp: assms intro!: yields_return advance_after_dispatch_yields sched_ok_change
          failed_attempt_ok exhausted_attempt_ok p intro: a)
    by (auto intro!: keeps_ok_intros keeps_intros)
qed

lemma finish_dispatch_ok: "sched_ok X Y sc \<Longrightarrow> keeps_ok X Y (finish_dispatch env sc i now)"
  unfolding finish_dispatch_def
  by (rule sees_bind_yields [OF advance_after_dispatch_yields]) (auto intro!: keeps_ok_intros keeps_intros)

text \<open>A run the ledger created is there, under the schedule and the attempt it was created for.\<close>

lemma sched_inv_ledger:
  assumes "sched_inv X Y s" and "ledger_wf l" and "started s \<subseteq> started (s\<lparr>ss_ledger := l\<rparr>)"
  shows "sched_inv X Y (s\<lparr>ss_ledger := l\<rparr>)"
proof -
  have "policies (s\<lparr>ss_ledger := l\<rparr>) = policies s" by (simp add: policies_def)
  moreover from assms have "\<forall>r \<in> set (ss_attempts s). attempt_row_ok (policies s) (started (s\<lparr>ss_ledger := l\<rparr>)) r"
    by (auto simp: sched_inv_def sched_wf_def intro: attempt_row_ok_mono)
  ultimately show ?thesis using assms by (auto simp: sched_inv_def sched_wf_def)
qed

lemma create_run_started:
  assumes "create_run now hex inp (ss_ledger s) = (r, l)"
  shows "started s \<subseteq> started (s\<lparr>ss_ledger := l\<rparr>)"
    and "r = Inr run \<Longrightarrow> (run_id run, cri_schedule_id inp, cri_schedule_attempt_id inp) \<in> started (s\<lparr>ss_ledger := l\<rparr>)"
  using assms by (force simp: create_run_def Let_def started_def split: if_splits)+

lemma ledger_create_run_triple:
  "triple (sched_inv X Y) (ledger_create_run inp)
     (\<lambda>r s. sched_inv X (case r of Inl _ \<Rightarrow> Y
        | Inr run \<Rightarrow> insert (run_id run, cri_schedule_id inp, cri_schedule_attempt_id inp) Y) s) (sched_inv X Y)"
proof -
  have last: "sched_inv X (case r of Inl _ \<Rightarrow> Y
        | Inr run \<Rightarrow> insert (run_id run, cri_schedule_id inp, cri_schedule_attempt_id inp) Y) (s\<lparr>ss_ledger := l\<rparr>)"
    if s: "sched_inv X Y s" and l: "create_run now hex inp (ss_ledger s) = (r, l)" for now hex r l s
  proof -
    from s have "ledger_wf (ss_ledger s)" by (simp add: sched_inv_def sched_wf_def)
    then have "sched_inv X Y (s\<lparr>ss_ledger := l\<rparr>)"
      by (intro sched_inv_ledger [OF s] create_run_wf [OF _ l] create_run_started(1) [OF l])
    with create_run_started(2) [OF l] show ?thesis by (auto simp: sched_inv_def split: sum.split)
  qed
  show ?thesis
    unfolding ledger_create_run_def
    by (intro triple_bind_keeps clock_keeps) (auto simp: triple_def split: prod.split dest: last)
qed

lemma dispatched_ok:
  assumes "sched_ok X Y sc" and "w = None \<longrightarrow> (rid, sched_id sc, att_id (sched_attempts sc ! i)) \<in> Y"
    and "w \<noteq> Some []"
  shows "sched_ok X Y (mark_dispatched now i rid w revision down sc)"
proof -
  have "att_ok Y (sched_retry_policy sc) (sched_id sc) a" if "a \<in> set (sched_attempts sc)" for a
    using assms(1) that by (simp add: sched_ok_def)
  with assms show ?thesis
    by (cases w) (auto simp: mark_dispatched_def att_ok_def intro!: sched_ok_change)
qed

lemma sees_created:
  assumes "\<And>e. sees X Y Q (f (Inl e))"
    and "\<And>run. sees X (insert (run_id run, cri_schedule_id inp, cri_schedule_attempt_id inp) Y) Q (f (Inr run))"
  shows "sees X Y Q (bind_op (ledger_create_run inp) f)"
  unfolding sees_def
proof (rule triple_bind [OF ledger_create_run_triple])
  fix r
  show "triple (sched_inv X (case r of Inl _ \<Rightarrow> Y
      | Inr run \<Rightarrow> insert (run_id run, cri_schedule_id inp, cri_schedule_attempt_id inp) Y)) (f r)
    (\<lambda>x s. sched_inv X Y s \<and> Q (policies s) (started s) x) (sched_inv X Y)"
  proof (cases r)
    case (Inl e)
    with assms(1) show ?thesis by (simp add: sees_def)
  next
    case (Inr run)
    from assms(2) [of run, unfolded sees_def] show ?thesis
      unfolding Inr sum.case by (rule triple_weaken) (auto intro: sched_inv_mono)
  qed
qed

lemma dispatch_run_ok:
  assumes "sched_ok X Y sc"
  shows "keeps_ok X Y (dispatch_run env sc i now tgt)"
proof (cases "tgt_run tgt")
  case None
  then show ?thesis by (simp add: dispatch_run_def record_dispatch_failure_ok assms)
next
  case (Some rt)
  have "sched_ok X (insert y Y) sc" for y
    using assms by (rule sched_ok_mono) auto
  then show ?thesis
    by (simp add: dispatch_run_def Some)
      (rule sees_created; auto intro!: record_dispatch_failure_ok assms finish_dispatch_ok dispatched_ok
        simp: run_input_of_def)
qed

lemma dispatch_workflow_ok:
  assumes "sched_ok X Y sc" and "launcher_ok env"
  shows "keeps_ok X Y (dispatch_workflow env sc i now tgt)"
  using assms
  by (auto simp: dispatch_workflow_def launcher_ok_def
      intro!: record_dispatch_failure_ok finish_dispatch_ok dispatched_ok split: option.splits sum.splits)

lemma dispatching_ok:
  assumes "sched_ok X Y sc"
  shows "sched_ok X Y (change_attempt i (\<lambda>a. a\<lparr>att_trigger_source := source,
    att_dispatch_status := DispDispatching, att_updated_at := now\<rparr>) sc)"
  using assms by (intro sched_ok_change) (auto simp: sched_ok_def att_ok_def)

lemma get_schedule_target_keeps [keeps_intros]: "keeps (sched_inv X Y) (get_schedule_target sid ref)"
  unfolding get_schedule_target_def by (rule keeps_sched_call) simp

lemma dispatch_attempt_at_ok:
  assumes "sched_ok X Y sc" and "launcher_ok env"
  shows "keeps_ok X Y (dispatch_attempt_at env sc i source)"
  unfolding dispatch_attempt_at_def Let_def
  apply (rule sees_after [OF clock_keeps(1)])
  subgoal for now
    using dispatching_ok [OF assms(1), where i = i and source = source and now = now] assms(2)
    by (auto intro!: sees_then sees_after [OF get_schedule_target_keeps] keeps_intros
        record_dispatch_failure_ok dispatch_run_ok dispatch_workflow_ok
        split: option.split sum.split target_kind.split)
  done

section \<open>The loop\<close>

lemma process_retries_ok:
  "sched_ok X Y sc \<Longrightarrow> launcher_ok env \<Longrightarrow> keeps_ok X Y (process_retries env sc now)"
  by (auto simp: process_retries_def intro: keeps_ok_return dispatch_attempt_at_ok split: option.split)

lemma process_due_schedule_ok:
  assumes "sched_ok X Y sc" and "launcher_ok env"
  shows "keeps_ok X Y (process_due_schedule env sc now source)"
proof (cases "sched_next_due_at sc")
  case None
  with assms show ?thesis by (simp add: process_due_schedule_def keeps_ok_return)
next
  case (Some due)
  note att = new_attempt_ok [OF assms(1)]
  show ?thesis
    unfolding process_due_schedule_def Some option.case Let_def
    by (rule sees_after [OF clock_keeps(3)])
      (auto intro!: assms finish_non_dispatch_attempt_ok skipped_ok att keeps_ok_return
        dispatch_attempt_at_ok sched_ok_push)
qed

lemma reconcile_attempt_yields:
  assumes "sched_ok X Y sc"
  shows "yields (sched_inv X Y) (\<lambda>(sc', _). sched_ok X Y sc') (reconcile_attempt (sc, changed) i)"
proof -
  have down: "keeps (sched_inv X Y) (downstream_of sc a)" for a
    unfolding downstream_of_def by (rule keeps_if) (auto intro: keeps_sched_call keepsI)
  have "sched_ok X Y (change_attempt i (\<lambda>a. a\<lparr>att_downstream_status := nxt, att_updated_at := now\<rparr>) sc)" for nxt now
    using assms by (intro sched_ok_change) (auto simp: sched_ok_def att_ok_def)
  then show ?thesis
    using assms unfolding reconcile_attempt_def Let_def
    by (auto intro!: yields_return yields_bind_keeps down clock_keeps split: option.split)
qed

lemma yields_fold:
  "(\<And>x y. Q x \<Longrightarrow> yields I Q (f x y)) \<Longrightarrow> Q x \<Longrightarrow> yields I Q (fold_op f x ys)"
  by (induction ys arbitrary: x) (auto intro!: yields_return yields_bind [where Q = Q])

lemma reconcile_downstream_ok:
  assumes "sched_ok X Y sc"
  shows "keeps_ok X Y (reconcile_downstream sc)"
  unfolding reconcile_downstream_def
  by (rule sees_bind_yields [OF yields_fold [where Q = "\<lambda>(sc', _). sched_ok X Y sc'"]])
    (auto intro!: reconcile_attempt_yields assms keeps_ok_intros keeps_intros)

lemma record_missed_intervals_ok:
  assumes "sched_ok X Y sc"
  shows "keeps_ok X Y (record_missed_intervals env sc now)"
proof -
  have "att_ok Y (sched_retry_policy sc) (sched_id sc) (attempt_default\<lparr>att_id := aid,
      att_schedule_id := sched_id sc, att_due_at := due, att_trigger_source := SourceCatchUp,
      att_dispatch_status := DispMissed, att_missed_count := n, att_downstream_status := DownNone,
      att_created_at := now, att_updated_at := now\<rparr>)" for aid due n
    using assms by (simp add: att_ok_def sched_ok_def attempt_default_def)
  then show ?thesis
    using assms unfolding record_missed_intervals_def Let_def
    by (auto intro!: keeps_ok_intros sees_after [OF clock_keeps(3)] keeps_intros sched_ok_push
        split: option.split sum.split)
qed

lemma catch_up_schedule_keeps:
  "sched_ok X Y sc \<Longrightarrow> launcher_ok env \<Longrightarrow> keeps (sched_inv X Y) (catch_up_schedule env now sc)"
  unfolding catch_up_schedule_def
  by (auto intro!: keeps_return keeps_bind_sees [where Q = sched_ok] keeps_then record_missed_intervals_ok
      keeps_ok_return keeps_of_sees [OF process_due_schedule_ok])

lemma tick_schedule_keeps:
  assumes "sched_ok X Y sc" and "launcher_ok env"
  shows "keeps (sched_inv X Y) (tick_schedule env now sc)"
  unfolding tick_schedule_def using assms
  by (auto intro!: keeps_bind_sees [OF reconcile_downstream_ok] keeps_bind_sees [OF process_retries_ok]
      keeps_return keeps_then keeps_of_sees [OF process_due_schedule_ok])

section \<open>Reading back\<close>

text \<open>An attempt row of the invariant decodes to the attempt it was made from.\<close>

lemma decode_attempt_row:
  "att_schedule_id a = sid \<Longrightarrow> decode_attempt_record (attempt_row_of sid a) = Inr a"
  by (cases a) (simp add: decode_attempt_record_def attempt_row_of_def)

lemma decode_attempt_ok:
  assumes "attempt_row_ok X Y r"
  obtains p a where "(arow_schedule_id r, p) \<in> X" and "decode_attempt_record r = Inr a"
    and "att_ok Y p (arow_schedule_id r) a"
proof -
  from assms obtain sid p a where "(sid, p) \<in> X" "r = attempt_row_of sid a" "att_ok Y p sid a"
    by (auto simp: attempt_row_ok_def)
  moreover from this have "arow_schedule_id r = sid" by (simp add: attempt_row_of_def)
  moreover have "decode_attempt_record r = Inr a"
    using calculation by (simp add: decode_attempt_row att_ok_def)
  ultimately show thesis by (intro that [of p a]) simp_all
qed

definition decodes_ok ::
  "retry_policy \<Rightarrow> string \<Rightarrow> (string \<times> string \<times> string) set \<Rightarrow> attempt_row \<Rightarrow> bool" where
  "decodes_ok p sid Y r \<longleftrightarrow> (\<exists>a. decode_attempt_record r = Inr a \<and> att_ok Y p sid a)"

lemma list_attempts_sees:
  assumes "(sid, p) \<in> X"
  shows "sees X Y (\<lambda>_ Y' ars. \<forall>r \<in> set ars. decodes_ok p sid Y' r) (list_schedule_dispatch_attempts sid)"
  unfolding list_schedule_dispatch_attempts_def
proof (rule sees_sched_call)
  fix s
  assume inv: "sched_inv X Y s"
  have "decodes_ok p sid (started s) r" if r: "r \<in> set (ss_attempts s)" "arow_schedule_id r = sid" for r
  proof -
    from inv r(1) have "attempt_row_ok (policies s) (started s) r"
      by (simp add: sched_inv_def sched_wf_def)
    then obtain p' a where a: "(sid, p') \<in> policies s" "decode_attempt_record r = Inr a" "att_ok (started s) p' sid a"
      using r(2) by (metis decode_attempt_ok)
    from inv assms have "(sid, p) \<in> policies s" and d: "distinct (map srow_id (ss_schedules s))"
      by (auto simp: sched_inv_def sched_wf_def)
    then obtain x where "x \<in> set (ss_schedules s)" "srow_id x = sid" "sched_retry_policy (srow_document x) = p"
      by (auto simp: policies_def)
    with policy_unique [OF d a(1)] have "p' = p" by simp
    with a show ?thesis by (auto simp: decodes_ok_def)
  qed
  then show "\<forall>r \<in> set (fst (rev (sort_key (\<lambda>r. (arow_due_at r, arow_created_at r, arow_id r))
      (filter (\<lambda>r. arow_schedule_id r = sid) (ss_attempts s))), s)). decodes_ok p sid (started s) r"
    by simp
qed simp

lemma hydrate_schedule_ok:
  assumes row: "schedule_row_ok r" and pol: "(srow_id r, sched_retry_policy (srow_document r)) \<in> X"
  shows "keeps_ok X Y (hydrate_schedule r)"
proof -
  let ?p = "sched_retry_policy (srow_document r)"
  from row have id: "sched_id (srow_document r) = srow_id r" "srow_id r \<noteq> []" by (auto simp: schedule_row_ok_def)
  have att: "yields (sched_inv X' Y') (att_ok Y' ?p (srow_id r)) (lift_op (decode_attempt_record ar))"
    if "decodes_ok ?p (srow_id r) Y' ar" for X' Y' ar
    using that by (auto simp: decodes_ok_def lift_op_def intro: yields_return)
  show ?thesis
    unfolding hydrate_schedule_def Let_def
    apply (rule sees_then)
     apply (simp add: id keeps_return)
    apply (rule sees_after [OF get_schedule_target_keeps])
    apply (rule sees_after)
     apply (auto intro!: keeps_intros split: option.split) []
    apply (rule sees_bind [OF list_attempts_sees [OF pol]])
    apply (rule sees_bind_yields [OF yields_each])
     apply (rule att, blast)
    using row by (auto simp: id schedule_row_ok_def sched_ok_def intro!: sees_fail keeps_ok_return
        dest: subsetD [OF _ pol] split: option.split)
qed

lemma list_rows_sees:
  "sees X Y (\<lambda>X' _ rows. \<forall>r \<in> set rows. schedule_row_ok r \<and>
     (srow_id r, sched_retry_policy (srow_document r)) \<in> X') (list_schedule_rows scope)"
  unfolding list_schedule_rows_def
  by (rule sees_sched_call) (auto simp: sched_inv_def sched_wf_def policies_def)

lemma list_schedules_sees: "sees X Y (\<lambda>X Y items. \<forall>sc \<in> set items. sched_ok X Y sc) (list_schedules env)"
  unfolding list_schedules_def
proof (rule sees_bind [OF list_rows_sees])
  fix X' Y' and rows :: "schedule_row list"
  assume "\<forall>r \<in> set rows. schedule_row_ok r \<and> (srow_id r, sched_retry_policy (srow_document r)) \<in> X'"
  then show "sees X' Y' (\<lambda>X Y items. \<forall>sc \<in> set items. sched_ok X Y sc) (each_op hydrate_schedule rows)"
    by (intro sees_each hydrate_schedule_ok) (auto intro: sched_ok_mono)
qed

lemma get_schedule_sees:
  "sees X Y (\<lambda>X Y sco. case sco of None \<Rightarrow> True | Some sc \<Rightarrow> sched_ok X Y sc) (get_schedule env sid)"
proof -
  have row: "sees X Y (\<lambda>X' _ ro. case ro of None \<Rightarrow> True | Some r \<Rightarrow> schedule_row_ok r \<and>
      (srow_id r, sched_retry_policy (srow_document r)) \<in> X') (get_schedule_row (se_scope env) sid)"
    unfolding get_schedule_row_def
    by (rule sees_sched_call) (auto simp: sched_inv_def sched_wf_def policies_def split: option.split dest: find_SomeD)
  show ?thesis
    unfolding get_schedule_def
    by (rule sees_bind [OF row])
      (auto intro!: sees_return sees_bind [OF hydrate_schedule_ok] intro: sched_ok_mono split: option.splits)
qed

section \<open>Operations\<close>

lemma save_status_keeps: "sched_ok X Y sc \<Longrightarrow> keeps (sched_inv X Y) (save_status env sc)"
  unfolding save_status_def by (intro keeps_intros)

lemma pause_schedule_keeps: "keeps (sched_inv X Y) (pause_schedule env sid)"
  unfolding pause_schedule_def
  by (rule keeps_bind_sees [OF get_schedule_sees])
    (auto intro!: keeps_return keeps_bind clock_keeps save_status_keeps split: option.splits)

lemma cancel_schedule_keeps: "keeps (sched_inv X Y) (cancel_schedule env sid)"
  unfolding cancel_schedule_def
  by (rule keeps_bind_sees [OF get_schedule_sees])
    (auto intro!: keeps_return keeps_bind clock_keeps save_status_keeps split: option.splits)

lemma resume_schedule_keeps: "keeps (sched_inv X Y) (resume_schedule env sid)"
  unfolding resume_schedule_def Let_def
  by (rule keeps_bind_sees [OF get_schedule_sees])
    (auto intro!: keeps_return keeps_bind clock_keeps due_op_keeps save_status_keeps
      split: option.splits schedule_kind.split)

lemma tick_keeps: "launcher_ok env \<Longrightarrow> keeps (sched_inv X Y) (tick env)"
  unfolding tick_def
  by (rule keeps_bind_sees [OF list_schedules_sees])
    (auto intro!: keeps_return keeps_bind clock_keeps keeps_then keeps_each_in tick_schedule_keeps)

lemma catch_up_keeps: "launcher_ok env \<Longrightarrow> keeps (sched_inv X Y) (catch_up env)"
  unfolding catch_up_def
  by (rule keeps_bind_sees [OF list_schedules_sees])
    (auto intro!: keeps_return keeps_bind clock_keeps keeps_then keeps_each_in catch_up_schedule_keeps)

text \<open>A new schedule has an identifier that no other one has.\<close>

definition fresh_ids :: "sched_state \<Rightarrow> bool" where
  "fresh_ids s \<longleftrightarrow> (\<forall>i \<ge> ss_drawn s. new_schedule_id (ss_uuid s i) \<notin> srow_id ` set (ss_schedules s))"

lemma fresh_ids_later: "fresh_ids s \<Longrightarrow> fresh_ids (s\<lparr>ss_drawn := Suc (ss_drawn s)\<rparr>)"
  by (simp add: fresh_ids_def)

lemma normalize_retry_policy_max:
  "rty_max_retries (normalize_retry_policy p) = max 0 (rty_max_retries p)"
  by (simp add: normalize_retry_policy_def Let_def)

definition may_create :: "string \<Rightarrow> sched_state \<Rightarrow> bool" where
  "may_create sid s \<longleftrightarrow> sched_inv {} {} s \<and> sid \<notin> srow_id ` set (ss_schedules s)"

lemma upsert_new_schedule:
  assumes "schedule_row_ok (schedule_row_of sc)" and "sched_id sc = sid"
  shows "triple (may_create sid) (upsert_schedule (schedule_row_of sc))
    (\<lambda>_. sched_inv {(sid, sched_retry_policy sc)} {}) (sched_inv {} {})"
  unfolding upsert_schedule_def
proof (rule triple_sched_call)
  fix s
  assume "may_create sid s"
  then have inv: "sched_inv {} {} s" and new: "sid \<notin> srow_id ` set (ss_schedules s)"
    by (simp_all add: may_create_def)
  from assms have "srow_id (schedule_row_of sc) = sid" "srow_document (schedule_row_of sc) = sc"
    by (simp_all add: schedule_row_of_def)
  moreover have "schedule_row_ok ((schedule_row_of sc)\<lparr>srow_tenant_id := tid\<rparr>)" for tid
    using assms(1) by (auto simp: schedule_row_ok_def)
  moreover have "\<forall>x \<in> set (ss_schedules s). srow_id x \<noteq> sid" using new by auto
  ultimately show "sched_inv {(sid, sched_retry_policy sc)} {} (snd (
      let tenant = (case find (\<lambda>x. srow_id x = srow_id (schedule_row_of sc)) (ss_schedules s) of
                     None \<Rightarrow> [] | Some x \<Rightarrow> srow_tenant_id x)
      in ((), s\<lparr>ss_schedules := upsert srow_id ((schedule_row_of sc)\<lparr>srow_tenant_id := tenant\<rparr>) (ss_schedules s)\<rparr>)))"
    using sched_inv_upsert_schedule [OF inv, of "(schedule_row_of sc)\<lparr>srow_tenant_id := _\<rparr>"]
    by (simp add: Let_def)
qed (simp_all add: may_create_def)

lemma create_first_persist:
  assumes "sched_id sc = sid" and "sid \<noteq> []" and "sched_attempts sc = []"
    and "0 \<le> rty_max_retries (sched_retry_policy sc)" and "rty_max_retries (sched_retry_policy sc) < 2 ^ 63"
  shows "triple (may_create sid) (then_op (persist_schedule sc)
    (then_op (publish_event env name sc None) (return_op sc))) (\<lambda>_. sched_inv {} {}) (sched_inv {} {})"
proof -
  let ?X = "{(sid, sched_retry_policy sc)}"
  have row: "schedule_row_ok (schedule_row_of sc)"
    using assms by (simp add: schedule_row_ok_def schedule_row_of_def)
  have weak: "sched_inv ?X {} s \<Longrightarrow> sched_inv {} {} s" for s by (erule sched_inv_mono) simp_all
  have rest: "triple (sched_inv ?X {}) (then_op (upsert_schedule_target (target_row_of sc))
     (then_op (each_op (\<lambda>a. upsert_schedule_dispatch_attempt (attempt_row_of (sched_id sc) a)) (sched_attempts sc))
     (return_op ()))) (\<lambda>_. sched_inv {} {}) (sched_inv {} {})"
    using assms(3) by (intro triple_of_keeps weak) (auto intro!: keeps_intros)
  have "triple (may_create sid) (persist_schedule sc) (\<lambda>_. sched_inv {} {}) (sched_inv {} {})"
    unfolding persist_schedule_def
    using upsert_new_schedule [OF row assms(1)] rest unfolding then_op_def by (rule triple_bind)
  then show ?thesis by (rule triple_after) (intro keeps_intros)
qed

lemma create_schedule_inv:
  assumes "sched_wf s" and "fresh_ids s" and "rty_max_retries (csi_retry_policy inp) < 2 ^ 63"
    and "create_schedule env inp s = (r, t)"
  shows "sched_wf t"
proof -
  let ?I = "\<lambda>s. sched_inv {} {} s \<and> fresh_ids s"
  have clock: "keeps ?I read_clock" "keeps ?I (due_op env trig after)" for trig after
    by (auto intro!: keepsI fresh_ids_later simp: read_clock_def due_op_def fail_op_def return_op_def
        split: sum.split)
  have uuid1: "triple ?I draw_uuid (\<lambda>hex. may_create (new_schedule_id hex)) (sched_inv {} {})"
    by (auto simp: triple_def draw_uuid_def fresh_ids_def may_create_def)
  have uuid2: "keeps (may_create sid) draw_uuid" for sid
    by (rule keepsI) (simp add: draw_uuid_def may_create_def)
  have "triple ?I (create_schedule env inp) (\<lambda>_. sched_inv {} {}) (sched_inv {} {})"
    unfolding create_schedule_def Let_def
    apply (rule triple_bind_keeps [OF clock(1)], simp)
    apply (rule triple_bind_keeps [OF clock(2)], simp)
    apply (rule triple_bind [OF uuid1])
    apply (rule triple_bind_keeps [OF uuid2], simp add: may_create_def)
    using assms(3) by (intro create_first_persist) (auto simp: new_schedule_id_def normalize_retry_policy_max)
  moreover from assms(1,2) have "?I s" by (simp add: sched_inv_def)
  ultimately have "sched_inv {} {} t" using assms(4) by (rule triple_result)
  then show ?thesis by (simp add: sched_inv_def)
qed

section \<open>Reachable states\<close>

text \<open>
  The scheduler shares the run ledger with the rest of the daemon: between two operations others may
  change it in any way that keeps its invariant and the runs created for schedules.
\<close>

inductive sched_step :: "sched_env \<Rightarrow> sched_state \<Rightarrow> sched_state \<Rightarrow> bool" for env where
  created: "fresh_ids s \<Longrightarrow> rty_max_retries (csi_retry_policy inp) < 2 ^ 63 \<Longrightarrow>
     sched_step env s (snd (create_schedule env inp s))"
| paused: "sched_step env s (snd (pause_schedule env sid s))"
| resumed: "sched_step env s (snd (resume_schedule env sid s))"
| cancelled: "sched_step env s (snd (cancel_schedule env sid s))"
| ticked: "sched_step env s (snd (tick env s))"
| caught_up: "sched_step env s (snd (catch_up env s))"
| others: "ledger_wf l \<Longrightarrow> started s \<subseteq> started (s\<lparr>ss_ledger := l\<rparr>) \<Longrightarrow>
     sched_step env s (s\<lparr>ss_ledger := l, ss_workflows := w, ss_faults := f\<rparr>)"

definition sched_start :: "sched_state \<Rightarrow> bool" where
  "sched_start s \<longleftrightarrow> ss_schedules s = [] \<and> ss_targets s = [] \<and> ss_attempts s = [] \<and> ledger_wf (ss_ledger s)"

lemma sched_start_wf: "sched_start s \<Longrightarrow> sched_wf s"
  by (simp add: sched_start_def sched_wf_def)

lemma sched_step_wf:
  assumes "launcher_ok env" and "sched_step env s t" and "sched_wf s"
  shows "sched_wf t"
proof -
  have op: "sched_wf (snd (m s))" if "keeps (sched_inv {} {}) m" for m :: "'a sched_op"
    using keepsD [OF that, of s "fst (m s)" "snd (m s)"] assms(3) by (simp add: sched_inv_def)
  from assms(2) show ?thesis
  proof cases
    case (created inp)
    with assms(3) show ?thesis
      using create_schedule_inv [of s inp env "fst (create_schedule env inp s)"] by simp
  next
    case (others l w f)
    have "sched_inv {} {} (s\<lparr>ss_ledger := l\<rparr>)"
      using sched_inv_ledger [of "{}" "{}"] others assms(3) by (simp add: sched_inv_def)
    then show ?thesis
      by (simp add: others sched_inv_def sched_wf_def policies_def started_def)
  qed (simp_all add: op assms(1) pause_schedule_keeps resume_schedule_keeps cancel_schedule_keeps tick_keeps catch_up_keeps)
qed

end
