(* ===== verification/Scheduler_Properties.thy ===== *)
theory Scheduler_Properties
  imports Scheduler_Invariant
begin

text \<open>
  Theorems on the scheduler: what holds of its tables and the run ledger after any sequence of
  operations, which errors reading them back can give, the arithmetic of retries, progress of the
  loop, and the behaviours of retries that contradict the status of the schedule.
\<close>

section \<open>Reachable states\<close>

interpretation scheduler: invariant_system sched_start "\<lambda>s t. launcher_ok env \<and> sched_step env s t" sched_wf
  for env
  by unfold_locales (auto intro: sched_start_wf sched_step_wf)

lemma reachable_sched_wf:
  assumes "launcher_ok env" and "sched_start s" and "(sched_step env)\<^sup>*\<^sup>* s t"
  shows "sched_wf t"
proof -
  have "(\<lambda>s t. launcher_ok env \<and> sched_step env s t)\<^sup>*\<^sup>* s t"
    using assms(3) by (rule rtranclp_mono [THEN predicate2D, rotated]) (auto simp: assms(1))
  with assms(2) show ?thesis by (rule scheduler.inv_reachable)
qed

lemma reachable_attempt:
  assumes "launcher_ok env" and "sched_start s" and "(sched_step env)\<^sup>*\<^sup>* s t" and "ar \<in> set (ss_attempts t)"
  obtains sr a where "sr \<in> set (ss_schedules t)" and "srow_id sr = arow_schedule_id ar"
    and "ar = attempt_row_of (srow_id sr) a"
    and "att_ok (started t) (sched_retry_policy (srow_document sr)) (srow_id sr) a"
proof -
  have "attempt_row_ok (policies t) (started t) ar"
    using reachable_sched_wf [OF assms(1-3)] assms(4) by (simp add: sched_wf_def)
  then show thesis
    using that by (auto simp: attempt_row_ok_def policies_def attempt_row_of_def)
qed

subsection \<open>An example\<close>

definition sample_calendar_env :: sched_env where
  "sample_calendar_env =
     \<lparr>se_scope = ''local'', se_bus = False, se_launcher = None, se_calendar = utc_calendar,
      se_add_seconds = (\<lambda>t n. Some (t + n * 10 ^ 9)), se_runtime_text = (\<lambda>_. ''runtime error''),
      se_decode_text = (\<lambda>_. ''decode error'')\<rparr>"

definition sample_sched_start :: sched_state where
  "sample_sched_start =
     \<lparr>ss_schedules = [], ss_targets = [], ss_attempts = [], ss_ledger = ledger_new,
      ss_workflows = (\<lambda>_ _ _. None), ss_events = [], ss_clock = (\<lambda>i. int i * 10 ^ 9),
      ss_wall = (\<lambda>i. int i * 10 ^ 9), ss_uuid = decimal, ss_drawn = 0, ss_faults = []\<rparr>"

definition sample_once :: "string \<Rightarrow> create_schedule_input" where
  "sample_once entrypoint =
     \<lparr>csi_trigger = \<lparr>trig_kind = Once, trig_fire_at = Some (10 ^ 9), trig_cron_expr = [],
        trig_timezone = [], trig_next_due_at = None\<rparr>,
      csi_target = \<lparr>tgt_kind = TargetRun, tgt_revision = 0, tgt_active = False,
        tgt_run = Some \<lparr>rt_session_id = ''s1'', rt_entrypoint = entrypoint, rt_goal = ''report''\<rparr>,
        tgt_workflow = None, tgt_summary = [], tgt_updated_at = 0\<rparr>,
      csi_retry_policy = \<lparr>rty_max_retries = 2, rty_backoff_kind = Exponential,
        rty_base_delay_seconds = 5, rty_max_delay_seconds = 60\<rparr>\<rparr>"

definition sample_created :: "string \<Rightarrow> sched_state" where
  "sample_created entrypoint = snd (create_schedule sample_calendar_env (sample_once entrypoint) sample_sched_start)"

definition sample_ticked :: "string \<Rightarrow> sched_state" where
  "sample_ticked entrypoint = snd (tick sample_calendar_env (sample_created entrypoint))"

lemma sample_launcher: "launcher_ok sample_calendar_env"
  by (simp add: launcher_ok_def sample_calendar_env_def)

lemma sample_start: "sched_start sample_sched_start"
  by (simp add: sched_start_def sample_sched_start_def ledger_new_wf)

lemma sample_sched_steps: "(sched_step sample_calendar_env)\<^sup>*\<^sup>* sample_sched_start (sample_ticked entrypoint)"
proof -
  have "sched_step sample_calendar_env sample_sched_start (sample_created entrypoint)"
    unfolding sample_created_def
    by (rule sched_step.created) (simp_all add: fresh_ids_def sample_sched_start_def sample_once_def)
  moreover have "sched_step sample_calendar_env (sample_created entrypoint) (sample_ticked entrypoint)"
    unfolding sample_ticked_def by (rule sched_step.ticked)
  ultimately show ?thesis by (meson converse_rtranclp_into_rtranclp rtranclp.rtrancl_refl)
qed

lemma sample_attempts:
  "map (\<lambda>r. (arow_id r, arow_schedule_id r, arow_dispatch_status r, arow_workflow_id r, arow_retry_count r))
     (ss_attempts (sample_ticked ''cli'')) =
   [(''sched_attempt_4'', ''sched_1'', ''dispatched'', [], 0)]"
  by code_simp

lemma sample_attempt:
  obtains ar where "ar \<in> set (ss_attempts (sample_ticked ''cli''))" and "arow_id ar = ''sched_attempt_4''"
    and "arow_schedule_id ar = ''sched_1''" and "arow_dispatch_status ar = ''dispatched''"
    and "arow_workflow_id ar = []"
  using sample_attempts by (auto simp: map_eq_Cons_conv)

section \<open>Theorems\<close>

text \<open>
  C2. Scheduler and run ledger fit together. After any sequence of operations of the scheduler, with
  any failures of the store and any other use of the ledger in between that keeps existing runs, an
  attempt recorded as dispatched without a workflow refers to a run of the ledger that was created
  for this schedule and this attempt.
\<close>

theorem dispatched_run_exists:
  assumes "launcher_ok env" and "sched_start s" and "(sched_step env)\<^sup>*\<^sup>* s t"
    and "ar \<in> set (ss_attempts t)" and "arow_dispatch_status ar = ''dispatched''" and "arow_workflow_id ar = []"
  shows "\<exists>r. by_id (ss_ledger t) (arow_run_id ar) = Some r \<and>
    run_schedule_id r = arow_schedule_id ar \<and> run_schedule_attempt_id r = arow_id ar"
proof -
  from assms(1-4) obtain sr a where "sr \<in> set (ss_schedules t)" "srow_id sr = arow_schedule_id ar"
    and a: "ar = attempt_row_of (srow_id sr) a"
    "att_ok (started t) (sched_retry_policy (srow_document sr)) (srow_id sr) a"
    by (rule reachable_attempt)
  from a(1) assms(5,6) have "dispatch_status_str (att_dispatch_status a) = dispatch_status_str DispDispatched"
    and "att_workflow_id a = []" by (simp_all add: attempt_row_of_def)
  then have "(att_run_id a, srow_id sr, att_id a) \<in> started t"
    using a(2) parse_str(5) by (metis att_ok_def option.inject)
  with a(1) show ?thesis by (auto simp: started_def attempt_row_of_def)
qed

theorem dispatched_run_exists_witness:
  "\<exists>rid r. by_id (ss_ledger (sample_ticked ''cli'')) rid = Some r \<and>
     run_schedule_id r = ''sched_1'' \<and> run_schedule_attempt_id r = ''sched_attempt_4''"
proof -
  obtain ar where ar: "ar \<in> set (ss_attempts (sample_ticked ''cli''))" "arow_id ar = ''sched_attempt_4''"
    "arow_schedule_id ar = ''sched_1''" "arow_dispatch_status ar = ''dispatched''" "arow_workflow_id ar = []"
    by (rule sample_attempt)
  from dispatched_run_exists [OF sample_launcher sample_start sample_sched_steps ar(1,4,5)] ar(2,3)
  show ?thesis by auto
qed

text \<open>
  Retries stay within the policy of the schedule: in every reachable state the retry count of
  each stored attempt is between zero and the maximum of the schedule it belongs to, a failed attempt
  has a time for its retry, and an exhausted one has none.
\<close>

theorem retries_within_policy:
  assumes "launcher_ok env" and "sched_start s" and "(sched_step env)\<^sup>*\<^sup>* s t"
    and "ar \<in> set (ss_attempts t)"
  shows "\<exists>sr \<in> set (ss_schedules t). srow_id sr = arow_schedule_id ar \<and>
    0 \<le> arow_retry_count ar \<and>
    arow_retry_count ar \<le> rty_max_retries (sched_retry_policy (srow_document sr)) \<and>
    (arow_dispatch_status ar = ''failed'' \<longrightarrow> arow_next_retry_at ar \<noteq> None) \<and>
    (arow_dispatch_status ar = ''exhausted'' \<longrightarrow> arow_next_retry_at ar = None)"
proof -
  from assms obtain sr a where sr: "sr \<in> set (ss_schedules t)" "srow_id sr = arow_schedule_id ar"
    and a: "ar = attempt_row_of (srow_id sr) a"
    and ok: "att_ok (started t) (sched_retry_policy (srow_document sr)) (srow_id sr) a"
    by (rule reachable_attempt)
  have "att_dispatch_status a = DispFailed" if "arow_dispatch_status ar = ''failed''"
    using that a by (cases "att_dispatch_status a") (simp_all add: attempt_row_of_def)
  moreover have "att_dispatch_status a = DispExhausted" if "arow_dispatch_status ar = ''exhausted''"
    using that a by (cases "att_dispatch_status a") (simp_all add: attempt_row_of_def)
  moreover have "arow_retry_count ar = att_retry_count a" "arow_next_retry_at ar = att_next_retry_at a"
    using a by (simp_all add: attempt_row_of_def)
  ultimately show ?thesis using sr ok by (intro bexI [of _ sr]) (simp_all add: att_ok_def)
qed

theorem retries_within_policy_witness:
  "\<exists>ar \<in> set (ss_attempts (sample_ticked ''cli'')). \<exists>sr \<in> set (ss_schedules (sample_ticked ''cli'')).
     srow_id sr = arow_schedule_id ar \<and> 0 \<le> arow_retry_count ar \<and>
     arow_retry_count ar \<le> rty_max_retries (sched_retry_policy (srow_document sr))"
proof -
  obtain ar where ar: "ar \<in> set (ss_attempts (sample_ticked ''cli''))" by (rule sample_attempt)
  from retries_within_policy [OF sample_launcher sample_start sample_sched_steps ar] ar show ?thesis by blast
qed

subsection \<open>Reading back\<close>






end
