(* ===== verification/Scheduler_Behaviour.thy ===== *)
theory Scheduler_Behaviour
  imports Scheduler_Properties "HOL-Library.Multiset"
begin

text \<open>
  The behaviour of single operations of the scheduler: storing and reading back a schedule, the
  delays between retries, the catch-up over missed intervals, what is and is not dispatched, and
  progress of the loop. The theorems marked as divergences contradict the specification of
  scheduled tasks (specs/010-scheduled-tasks-wakeups/spec.md).
\<close>

section \<open>A store that answers\<close>

lemma sched_call_ok: "ss_faults s = [] \<Longrightarrow> sched_call f s = (Inr (fst (f s)), snd (f s))"
  by (simp add: sched_call_def split: prod.split)

lemma bind_ok: "m s = (Inr x, t) \<Longrightarrow> bind_op m f s = f x t"
  by (simp add: bind_op_def)

lemma then_ok: "m s = (Inr x, t) \<Longrightarrow> then_op m n s = n t"
  by (simp add: then_op_def bind_op_def)

definition stored_tenant :: "schedule \<Rightarrow> sched_state \<Rightarrow> string" where
  "stored_tenant sc s = (case find (\<lambda>x. srow_id x = sched_id sc) (ss_schedules s) of
     None \<Rightarrow> [] | Some x \<Rightarrow> srow_tenant_id x)"

definition persisted :: "schedule \<Rightarrow> sched_state \<Rightarrow> sched_state" where
  "persisted sc s = s\<lparr>
     ss_schedules := upsert srow_id ((schedule_row_of sc)\<lparr>srow_tenant_id := stored_tenant sc s\<rparr>) (ss_schedules s),
     ss_targets := upsert trow_target_ref_id (target_row_of sc) (ss_targets s),
     ss_attempts := fold (upsert arow_id) (map (attempt_row_of (sched_id sc)) (sched_attempts sc)) (ss_attempts s)\<rparr>"

lemma each_upsert_attempt:
  "ss_faults s = [] \<Longrightarrow>
   \<exists>us. each_op (\<lambda>a. upsert_schedule_dispatch_attempt (attempt_row_of sid a)) as s =
     (Inr us, s\<lparr>ss_attempts := fold (upsert arow_id) (map (attempt_row_of sid) as) (ss_attempts s)\<rparr>)"
proof (induction as arbitrary: s)
  case (Cons a as)
  let ?s = "s\<lparr>ss_attempts := upsert arow_id (attempt_row_of sid a) (ss_attempts s)\<rparr>"
  have "upsert_schedule_dispatch_attempt (attempt_row_of sid a) s = (Inr (), ?s)"
    using Cons.prems by (simp add: upsert_schedule_dispatch_attempt_def sched_call_ok)
  moreover obtain us where "each_op (\<lambda>a. upsert_schedule_dispatch_attempt (attempt_row_of sid a)) as ?s =
      (Inr us, ?s\<lparr>ss_attempts := fold (upsert arow_id) (map (attempt_row_of sid) as) (ss_attempts ?s)\<rparr>)"
    using Cons.IH [of ?s] Cons.prems by auto
  ultimately show ?case by (simp add: bind_ok return_op_def)
qed (simp add: return_op_def)

lemma persist_ok: "ss_faults s = [] \<Longrightarrow> persist_schedule sc s = (Inr (), persisted sc s)"
proof -
  assume ok: "ss_faults s = []"
  let ?s1 = "s\<lparr>ss_schedules := upsert srow_id ((schedule_row_of sc)\<lparr>srow_tenant_id := stored_tenant sc s\<rparr>) (ss_schedules s)\<rparr>"
  let ?s2 = "?s1\<lparr>ss_targets := upsert trow_target_ref_id (target_row_of sc) (ss_targets s)\<rparr>"
  have s1: "upsert_schedule (schedule_row_of sc) s = (Inr (), ?s1)"
    using ok by (simp add: upsert_schedule_def sched_call_ok stored_tenant_def schedule_row_of_def Let_def)
  have s2: "upsert_schedule_target (target_row_of sc) ?s1 = (Inr (), ?s2)"
    using ok by (simp add: upsert_schedule_target_def sched_call_ok)
  from ok each_upsert_attempt [of ?s2 "sched_id sc" "sched_attempts sc"] obtain us where s3:
    "each_op (\<lambda>a. upsert_schedule_dispatch_attempt (attempt_row_of (sched_id sc) a)) (sched_attempts sc) ?s2 =
       (Inr us, persisted sc s)" by (auto simp: persisted_def)
  show ?thesis by (simp add: persist_schedule_def then_op_def bind_op_def s1 s2 s3 return_op_def)
qed

lemma persisted_simps [simp]:
  "ss_faults (persisted sc s) = ss_faults s" "ss_ledger (persisted sc s) = ss_ledger s"
  "ss_clock (persisted sc s) = ss_clock s" "ss_wall (persisted sc s) = ss_wall s"
  "ss_uuid (persisted sc s) = ss_uuid s" "ss_drawn (persisted sc s) = ss_drawn s"
  "ss_workflows (persisted sc s) = ss_workflows s"
  by (simp_all add: persisted_def)

lemma publish_ok:
  obtains ev where "publish_event env name sc att s = (Inr (), s\<lparr>ss_events := ev\<rparr>)"
proof (cases "se_bus env")
  case True
  then show thesis using that by (force simp: publish_event_def)
next
  case False
  then have "publish_event env name sc att s = (Inr (), s\<lparr>ss_events := ss_events s\<rparr>)"
    by (simp add: publish_event_def)
  then show thesis by (rule that)
qed

section \<open>Storing and reading back\<close>

lemma set_fold_upsert:
  "distinct (map key rs) \<Longrightarrow>
   set (fold (upsert key) rs rows) = set rs \<union> {x \<in> set rows. key x \<notin> key ` set rs}"
  by (induction rs arbitrary: rows) (auto simp: set_upsert)

lemma distinct_fold_upsert:
  "distinct (map key rows) \<Longrightarrow> distinct (map key (fold (upsert key) rs rows))"
  by (induction rs arbitrary: rows) (auto intro: distinct_upsert)

text \<open>The order in which attempts are listed: newest first.\<close>

definition newest_first :: "dispatch_attempt list \<Rightarrow> dispatch_attempt list" where
  "newest_first as = rev (sort_key (\<lambda>a. (att_due_at a, att_created_at a, att_id a)) as)"

lemma sort_key_same_set:
  assumes "distinct xs" and "distinct ys" and "set xs = set ys" and "inj_on k (set xs)"
  shows "sort_key k xs = sort_key k ys"
proof (rule sort_key_inj_key_eq)
  show "mset xs = mset (sort_key k ys)" using assms by (simp add: set_eq_iff_mset_eq_distinct [symmetric])
qed (use assms in simp_all)

lemma insort_key_of_map: "insort_key k (f x) (map f xs) = map f (insort_key (\<lambda>y. k (f y)) x xs)"
  by (induction xs) simp_all

lemma sort_key_of_map: "sort_key k (map f xs) = map f (sort_key (\<lambda>y. k (f y)) xs)"
  by (induction xs) (simp_all add: insort_key_of_map)

lemma lift_op_Inr: "lift_op (Inr x) = return_op x"
  by (simp add: lift_op_def)

lemma each_lift:
  "(\<And>x. x \<in> set xs \<Longrightarrow> g x = Inr (h x)) \<Longrightarrow> each_op (\<lambda>x. lift_op (g x)) xs s = (Inr (map h xs), s)"
  by (induction xs) (simp_all add: bind_op_def return_op_def lift_op_def)

text \<open>What reading back adds: the tenant of the row, the summary of the target, the order of attempts.\<close>

definition restored :: "sched_state \<Rightarrow> schedule \<Rightarrow> schedule" where
  "restored s sc = sc\<lparr>sched_tenant_id := stored_tenant sc s,
     sched_target := (sched_target sc)\<lparr>tgt_summary := target_summary (sched_target sc)\<rparr>,
     sched_attempts := newest_first (sched_attempts sc)\<rparr>"

definition storable :: "sched_env \<Rightarrow> sched_state \<Rightarrow> schedule \<Rightarrow> bool" where
  "storable env s sc \<longleftrightarrow> sched_id sc \<noteq> [] \<and> sched_environment_scope sc = se_scope env \<and>
     trig_next_due_at (sched_trigger sc) = sched_next_due_at sc \<and>
     distinct (map att_id (sched_attempts sc)) \<and>
     list_all (\<lambda>a. att_schedule_id a = sched_id sc) (sched_attempts sc) \<and>
     distinct (map arow_id (ss_attempts s)) \<and>
     list_all (\<lambda>r. arow_schedule_id r = sched_id sc \<longrightarrow> arow_id r \<in> att_id ` set (sched_attempts sc)) (ss_attempts s)"

lemma listed_attempts:
  assumes "storable env s sc"
  shows "rev (sort_key (\<lambda>r. (arow_due_at r, arow_created_at r, arow_id r))
      (filter (\<lambda>r. arow_schedule_id r = sched_id sc) (ss_attempts (persisted sc s)))) =
    map (attempt_row_of (sched_id sc)) (newest_first (sched_attempts sc))"
proof -
  let ?K = "\<lambda>r. (arow_due_at r, arow_created_at r, arow_id r)"
  let ?rows = "map (attempt_row_of (sched_id sc)) (sched_attempts sc)"
  let ?table = "fold (upsert arow_id) ?rows (ss_attempts s)"
  have ids: "map arow_id ?rows = map att_id (sched_attempts sc)" by (simp add: attempt_row_of_def)
  have d: "distinct (map arow_id ?rows)" using assms unfolding ids by (simp add: storable_def)
  have "distinct (map arow_id ?table)" using assms by (simp add: storable_def distinct_fold_upsert)
  then have "distinct ?table" by (simp add: distinct_map)
  moreover have "set (filter (\<lambda>r. arow_schedule_id r = sched_id sc) ?table) = set ?rows"
  proof -
    have "arow_id ` set ?rows = att_id ` set (sched_attempts sc)" using ids by (metis set_map)
    moreover have "\<forall>r \<in> set ?rows. arow_schedule_id r = sched_id sc" by (simp add: attempt_row_of_def)
    ultimately show ?thesis
      using assms unfolding set_filter set_fold_upsert [OF d] storable_def list_all_iff by blast
  qed
  moreover have "inj_on ?K (set ?rows)" using d by (auto simp: distinct_map inj_on_def)
  moreover have "distinct ?rows" using d by (subst (asm) distinct_map) simp
  ultimately have "sort_key ?K (filter (\<lambda>r. arow_schedule_id r = sched_id sc) ?table) = sort_key ?K ?rows"
    by (intro sort_key_same_set) simp_all
  then show ?thesis
    by (simp add: persisted_def sort_key_of_map newest_first_def rev_map attempt_row_of_def)
qed

lemma row_document: "arow_document (attempt_row_of sid a) = a"
  by (simp add: attempt_row_of_def)

lemma found_schedule:
  assumes "sched_environment_scope sc = scope"
  shows "find (\<lambda>r. srow_environment_scope r = scope \<and> srow_id r = sched_id sc) (ss_schedules (persisted sc s)) =
    Some ((schedule_row_of sc)\<lparr>srow_tenant_id := stored_tenant sc s\<rparr>)"
  using assms by (intro find_unique) (auto simp: persisted_def set_upsert schedule_row_of_def)

lemma found_target:
  "find (\<lambda>r. trow_schedule_id r = sched_id sc \<and> trow_target_ref_id r = sched_target_ref_id sc) (ss_targets (persisted sc s)) =
    Some (target_row_of sc)"
  by (intro find_unique) (auto simp: persisted_def set_upsert target_row_of_def)

lemma decode_target_row:
  "decode_target_record (target_row_of sc) =
     Inr ((sched_target sc)\<lparr>tgt_summary := target_summary (sched_target sc)\<rparr>)"
  by (simp add: decode_target_record_def target_row_of_def Let_def)

lemma hydrate_persisted:
  assumes "ss_faults s = []" and "storable env s sc"
  shows "hydrate_schedule ((schedule_row_of sc)\<lparr>srow_tenant_id := stored_tenant sc s\<rparr>) (persisted sc s) =
    (Inr (restored s sc), persisted sc s)"
proof -
  let ?t = "persisted sc s"
  let ?as = "newest_first (sched_attempts sc)"
  from assms(2) have id: "sched_id sc \<noteq> []" and due: "trig_next_due_at (sched_trigger sc) = sched_next_due_at sc"
    and own: "\<forall>a \<in> set (sched_attempts sc). att_schedule_id a = sched_id sc"
    by (auto simp: storable_def list_all_iff)
  have tgt: "get_schedule_target (sched_id sc) (sched_target_ref_id sc) ?t = (Inr (Some (target_row_of sc)), ?t)"
    using assms(1) by (simp add: get_schedule_target_def sched_call_ok found_target)
  have atts: "list_schedule_dispatch_attempts (sched_id sc) ?t = (Inr (map (attempt_row_of (sched_id sc)) ?as), ?t)"
    using assms by (simp add: list_schedule_dispatch_attempts_def sched_call_ok listed_attempts)
  have "each_op (\<lambda>ar. lift_op (decode_attempt_record ar)) (map (attempt_row_of (sched_id sc)) ?as) ?t =
      (Inr (map arow_document (map (attempt_row_of (sched_id sc)) ?as)), ?t)"
  proof (rule each_lift)
    fix ar
    assume "ar \<in> set (map (attempt_row_of (sched_id sc)) ?as)"
    then show "decode_attempt_record ar = Inr (arow_document ar)"
      using own by (auto simp: newest_first_def decode_attempt_row row_document)
  qed
  moreover have "map (arow_document \<circ> attempt_row_of (sched_id sc)) ?as = ?as"
    by (simp add: row_document comp_def)
  ultimately have dec: "each_op (\<lambda>ar. lift_op (decode_attempt_record ar)) (map (attempt_row_of (sched_id sc)) ?as) ?t = (Inr ?as, ?t)"
    by simp
  have row: "srow_id (schedule_row_of sc) = sched_id sc" "srow_target_ref_id (schedule_row_of sc) = sched_target_ref_id sc"
    by (simp_all add: schedule_row_of_def)
  show ?thesis
    by (simp add: hydrate_schedule_def Let_def then_op_def bind_op_def return_op_def lift_op_Inr row tgt atts dec id decode_target_row)
      (use due id in \<open>simp add: schedule_row_of_def restored_def return_op_def\<close>)
qed

section \<open>Dispatching a run\<close>

text \<open>The target of a schedule is an active run target that can be started.\<close>

definition run_ready :: "target \<Rightarrow> bool" where
  "run_ready t \<longleftrightarrow> tgt_kind t = TargetRun \<and> tgt_active t \<and>
     (case tgt_run t of None \<Rightarrow> False | Some rt \<Rightarrow> rt_entrypoint rt \<noteq> [])"

text \<open>The identifier the run ledger draws for a dispatch that starts now.\<close>

definition drawn_run_id :: "sched_state \<Rightarrow> string" where
  "drawn_run_id s = new_run_id (ss_uuid s (ss_drawn s + 2))"

definition run_of_schedule :: "sched_state \<Rightarrow> string \<Rightarrow> string \<Rightarrow> bool" where
  "run_of_schedule s rid sid \<longleftrightarrow> (\<exists>r. by_id (ss_ledger s) rid = Some r \<and> run_schedule_id r = sid)"

definition started_attempt :: "timestamp \<Rightarrow> nat \<Rightarrow> trigger_source \<Rightarrow> schedule \<Rightarrow> schedule" where
  "started_attempt now i source sc =
     (change_attempt i (\<lambda>a. a\<lparr>att_trigger_source := source, att_dispatch_status := DispDispatching,
        att_updated_at := now\<rparr>) sc)\<lparr>sched_last_attempt_at := Some now, sched_updated_at := now\<rparr>"

lemma started_attempt_simps [simp]:
  "sched_id (started_attempt now i src sc) = sched_id sc"
  "sched_target (started_attempt now i src sc) = sched_target sc"
  "sched_target_ref_id (started_attempt now i src sc) = sched_target_ref_id sc"
  "sched_kind (started_attempt now i src sc) = sched_kind sc"
  "sched_trigger (started_attempt now i src sc) = sched_trigger sc"
  "sched_next_due_at (started_attempt now i src sc) = sched_next_due_at sc"
  "sched_status (started_attempt now i src sc) = sched_status sc"
  by (simp_all add: started_attempt_def change_attempt_def)

lemma mark_dispatched_simps [simp]:
  "sched_id (mark_dispatched now i rid w revn down sc) = sched_id sc"
  "sched_kind (mark_dispatched now i rid w revn down sc) = sched_kind sc"
  "sched_trigger (mark_dispatched now i rid w revn down sc) = sched_trigger sc"
  by (simp_all add: mark_dispatched_def change_attempt_def)

lemma create_run_new:
  assumes "cri_entrypoint inp \<noteq> []" and "cri_run_id inp = []" and "by_id l (new_run_id hex) = None"
  shows "\<exists>run l'. create_run now hex inp l = (Inr run, l') \<and> run_id run = new_run_id hex \<and>
    run_schedule_id run = cri_schedule_id inp \<and> by_id l' (new_run_id hex) = Some run"
  using assms by (simp add: create_run_def Let_def)

lemma dispatch_creates_run:
  assumes ok: "ss_faults s = []" and ready: "run_ready (sched_target sc)"
    and new: "by_id (ss_ledger s) (drawn_run_id s) = None" and now: "now = ss_clock s (ss_drawn s)"
  shows "\<exists>u revn down. dispatch_attempt_at env sc i src s =
      finish_dispatch env (mark_dispatched now i (drawn_run_id s) None revn down (started_attempt now i src sc)) i now u \<and>
    ss_faults u = [] \<and> run_of_schedule u (drawn_run_id s) (sched_id sc) \<and>
    ss_schedules u = ss_schedules (persisted (started_attempt now i src sc) s)"
proof -
  let ?sc = "started_attempt now i src sc"
  let ?s0 = "s\<lparr>ss_drawn := Suc (ss_drawn s)\<rparr>"
  let ?t = "(sched_target sc)\<lparr>tgt_summary := target_summary (sched_target sc)\<rparr>"
  from ready obtain rt where rt: "tgt_run (sched_target sc) = Some rt" "rt_entrypoint rt \<noteq> []"
    by (auto simp: run_ready_def split: option.splits)
  obtain ev where ev: "publish_event env ''schedule.dispatch_attempted'' ?sc (Some (sched_attempts ?sc ! i))
      (persisted ?sc ?s0) = (Inr (), (persisted ?sc ?s0)\<lparr>ss_events := ev\<rparr>)" by (rule publish_ok)
  let ?s1 = "(persisted ?sc ?s0)\<lparr>ss_events := ev\<rparr>"
  let ?s2 = "?s1\<lparr>ss_drawn := Suc (Suc (Suc (ss_drawn s)))\<rparr>"
  have target: "get_schedule_target (sched_id sc) (sched_target_ref_id sc) ?s1 = (Inr (Some (target_row_of ?sc)), ?s1)"
    using ok found_target [of ?sc ?s0] by (simp add: get_schedule_target_def sched_call_ok)
  have decode: "decode_target_record (target_row_of ?sc) = Inr ?t" using decode_target_row [of ?sc] by simp
  have "dispatch_attempt_at env sc i src s = dispatch_run env ?sc i now ?t ?s1"
    using ok ready target decode ev
    by (simp add: dispatch_attempt_at_def read_clock_def bind_op_def then_op_def Let_def persist_ok now
        started_attempt_def [symmetric] run_ready_def)
      (simp add: target_row_of_def)
  moreover obtain run l where run: "create_run (ss_wall s (Suc (ss_drawn s))) (ss_uuid s (Suc (Suc (ss_drawn s))))
      (run_input_of ?sc i rt) (ss_ledger s) = (Inr run, l)" "run_id run = drawn_run_id s"
    "run_schedule_id run = sched_id sc" "by_id l (drawn_run_id s) = Some run"
    using create_run_new [of "run_input_of ?sc i rt" "ss_ledger s" "ss_uuid s (Suc (Suc (ss_drawn s)))"] rt new
    by (fastforce simp: run_input_of_def drawn_run_id_def)
  moreover have "ledger_create_run (run_input_of ?sc i rt) ?s1 = (Inr (Inr run), ?s2\<lparr>ss_ledger := l\<rparr>)"
    using run(1) by (simp add: ledger_create_run_def read_wall_def draw_uuid_def bind_op_def)
  ultimately show ?thesis
    using ok rt by (intro exI [of _ "?s2\<lparr>ss_ledger := l\<rparr>"] exI)
      (auto simp: dispatch_run_def bind_op_def run_of_schedule_def persisted_def stored_tenant_def)
qed

section \<open>Downstream status of attempts that started nothing\<close>

lemma reconcile_idle:
  assumes "\<forall>a \<in> set (sched_attempts sc). att_dispatch_status a \<noteq> DispDispatched"
  shows "reconcile_downstream sc = return_op sc"
proof -
  have "reconcile_attempt (sc, c) i = return_op (sc, c)" if "i < length (sched_attempts sc)" for c i
    using assms that by (simp add: reconcile_attempt_def Let_def)
  then have "fold_op reconcile_attempt (sc, c) is = return_op (sc, c)" if "set is \<subseteq> {..<length (sched_attempts sc)}" for c "is"
    using that by (induction "is") (auto simp: bind_op_def return_op_def)
  then show ?thesis by (simp add: reconcile_downstream_def fun_eq_iff bind_op_def return_op_def lessThan_atLeast0)
qed

lemma finish_dispatch_once:
  assumes "ss_faults u = []" and "sched_kind sc = OneTime"
  shows "\<exists>sc' t. finish_dispatch env sc i now u = (Inr sc', t) \<and> sched_status sc' = SchedCompleted \<and>
    sched_next_due_at sc' = None \<and> ss_ledger t = ss_ledger u \<and>
    find (\<lambda>r. srow_id r = sched_id sc) (ss_schedules t) =
      Some ((schedule_row_of sc')\<lparr>srow_tenant_id := stored_tenant sc' u\<rparr>) \<and> sched_id sc' = sched_id sc"
proof -
  let ?sc = "(set_due None (sc\<lparr>sched_status := SchedCompleted, sched_completed_at := Some now\<rparr>))\<lparr>sched_updated_at := now\<rparr>"
  obtain ev where ev: "publish_event env ''schedule.dispatch_recorded'' ?sc (Some (sched_attempts ?sc ! i)) (persisted ?sc u) =
      (Inr (), (persisted ?sc u)\<lparr>ss_events := ev\<rparr>)" by (rule publish_ok)
  have "finish_dispatch env sc i now u = (Inr ?sc, (persisted ?sc u)\<lparr>ss_events := ev\<rparr>)"
    using assms ev by (simp add: finish_dispatch_def advance_schedule_after_dispatch_def bind_op_def then_op_def
        return_op_def persist_ok)
  moreover have "find (\<lambda>r. srow_id r = sched_id sc) (ss_schedules (persisted ?sc u)) =
      Some ((schedule_row_of ?sc)\<lparr>srow_tenant_id := stored_tenant ?sc u\<rparr>)"
    by (simp add: persisted_def) (rule find_upsert, simp add: schedule_row_of_def set_due_def)
  ultimately show ?thesis by (simp add: set_due_def)
qed

lemma find_index_attempt: "find_index P xs = Some i \<Longrightarrow> i < length xs \<and> P (xs ! i)"
  by (induction xs arbitrary: i) (auto split: if_splits)

section \<open>Theorems\<close>

subsection \<open>Round trip\<close>

text \<open>
  A stored schedule is read back as it was written: after \<open>persist_schedule\<close> the schedule
  found under its identifier is the same, with the tenant of its row, the summary of its target
  recomputed and its attempts newest first.
\<close>

theorem schedule_roundtrip:
  assumes "ss_faults s = []" and "storable env s sc"
  shows "\<exists>t. persist_schedule sc s = (Inr (), t) \<and> get_schedule env (sched_id sc) t = (Inr (Some (restored s sc)), t)"
proof -
  have "get_schedule_row (se_scope env) (sched_id sc) (persisted sc s) =
      (Inr (Some ((schedule_row_of sc)\<lparr>srow_tenant_id := stored_tenant sc s\<rparr>)), persisted sc s)"
    using assms by (simp add: get_schedule_row_def sched_call_ok found_schedule storable_def)
  with hydrate_persisted [OF assms] persist_ok [OF assms(1)] show ?thesis
    by (simp add: get_schedule_def bind_op_def return_op_def)
qed

definition sample_waiting :: "schedule_status \<Rightarrow> schedule" where
  "sample_waiting st =
     \<lparr>sched_id = ''sched_1'', sched_environment_scope = ''local'', sched_tenant_id = [], sched_kind = OneTime,
      sched_status = st, sched_target_ref_id = ''ref_1'',
      sched_trigger = \<lparr>trig_kind = Once, trig_fire_at = Some 5, trig_cron_expr = [], trig_timezone = [],
        trig_next_due_at = Some 5\<rparr>,
      sched_target = \<lparr>tgt_kind = TargetRun, tgt_revision = 1, tgt_active = True,
        tgt_run = Some \<lparr>rt_session_id = ''s1'', rt_entrypoint = ''cli'', rt_goal = ''report''\<rparr>,
        tgt_workflow = None, tgt_summary = ''report'', tgt_updated_at = 0\<rparr>,
      sched_retry_policy = \<lparr>rty_max_retries = 2, rty_backoff_kind = Fixed, rty_base_delay_seconds = 5,
        rty_max_delay_seconds = 60\<rparr>,
      sched_next_due_at = Some 5, sched_last_attempt_at = Some 6, sched_last_outcome = ''failed'',
      sched_created_at = 0, sched_updated_at = 6, sched_paused_at = None,
      sched_cancelled_at = (if st = SchedCancelled then Some 7 else None), sched_completed_at = None,
      sched_attempts = [attempt_default\<lparr>att_id := ''a1'', att_schedule_id := ''sched_1'', att_due_at := 5,
        att_dispatch_status := DispFailed, att_retry_count := 1, att_retry_budget := 2, att_next_retry_at := Some 10,
        att_failure_class := ''run_create_failed''\<rparr>]\<rparr>"

theorem schedule_roundtrip_witness:
  "\<exists>t. persist_schedule (sample_waiting SchedScheduled) sample_sched_start = (Inr (), t) \<and>
     get_schedule sample_calendar_env ''sched_1'' t =
       (Inr (Some (restored sample_sched_start (sample_waiting SchedScheduled))), t)"
proof -
  have "storable sample_calendar_env sample_sched_start (sample_waiting SchedScheduled)" by code_simp
  moreover have "ss_faults sample_sched_start = []" by (simp add: sample_sched_start_def)
  moreover have "sched_id (sample_waiting SchedScheduled) = ''sched_1''" by (simp add: sample_waiting_def)
  ultimately show ?thesis using schedule_roundtrip by metis
qed

subsection \<open>Retries and the status of the schedule\<close>

text \<open>
  A divergence from the specification, which wants no work launched for a cancelled schedule:
  retries do not look at the status. When a one-time schedule has been cancelled while a failed attempt
  waits for its retry, the next round after the retry time starts the run all the same and stores the
  schedule as completed.
\<close>

theorem cancelled_schedule_is_retried:
  assumes "ss_faults s = []" and "sched_status sc = SchedCancelled" and "sched_kind sc = OneTime"
    and "find_index (retry_due now) (sched_attempts sc) = Some i"
    and "list_all (\<lambda>a. att_dispatch_status a \<noteq> DispDispatched) (sched_attempts sc)"
    and "run_ready (sched_target sc)" and "by_id (ss_ledger s) (drawn_run_id s) = None"
  shows "\<exists>t. tick_schedule env now sc s = (Inr (), t) \<and>
    run_of_schedule t (drawn_run_id s) (sched_id sc) \<and>
    map_option srow_status (find (\<lambda>r. srow_id r = sched_id sc) (ss_schedules t)) = Some ''completed''"
proof -
  have "reconcile_downstream sc = return_op sc"
    using assms(5) by (intro reconcile_idle) (simp add: list_all_iff)
  then have "tick_schedule env now sc = bind_op (dispatch_attempt_at env sc i SourceRetry) (\<lambda>sc2.
      if \<not> is_due now sc2 then return_op ()
      else then_op (process_due_schedule env sc2 now SourceNormal) (return_op ()))"
    by (simp add: tick_schedule_def process_retries_def assms(4) fun_eq_iff bind_op_def return_op_def)
  moreover obtain sc1 u where u: "dispatch_attempt_at env sc i SourceRetry s = finish_dispatch env sc1 i (ss_clock s (ss_drawn s)) u"
    "ss_faults u = []" "run_of_schedule u (drawn_run_id s) (sched_id sc)" "sched_kind sc1 = OneTime" "sched_id sc1 = sched_id sc"
    using dispatch_creates_run [OF assms(1,6,7) refl, of env i SourceRetry] assms(3)
    by (metis mark_dispatched_simps(1,2) started_attempt_simps(1,4))
  moreover obtain sc' t where "finish_dispatch env sc1 i (ss_clock s (ss_drawn s)) u = (Inr sc', t)"
    "sched_status sc' = SchedCompleted" "sched_next_due_at sc' = None" "ss_ledger t = ss_ledger u"
    "find (\<lambda>r. srow_id r = sched_id sc) (ss_schedules t) =
      Some ((schedule_row_of sc')\<lparr>srow_tenant_id := stored_tenant sc' u\<rparr>)"
    using finish_dispatch_once [OF u(2,4)] u(5) by metis
  ultimately show ?thesis
    by (simp add: bind_op_def return_op_def is_due_def run_of_schedule_def schedule_row_of_def)
qed

theorem cancelled_schedule_is_retried_witness:
  "\<exists>t. tick_schedule sample_calendar_env 20 (sample_waiting SchedCancelled) sample_sched_start = (Inr (), t) \<and>
     run_of_schedule t (drawn_run_id sample_sched_start) ''sched_1'' \<and>
     map_option srow_status (find (\<lambda>r. srow_id r = ''sched_1'') (ss_schedules t)) = Some ''completed''"
proof -
  have "find_index (retry_due 20) (sched_attempts (sample_waiting SchedCancelled)) = Some 0"
    "list_all (\<lambda>a. att_dispatch_status a \<noteq> DispDispatched) (sched_attempts (sample_waiting SchedCancelled))"
    "run_ready (sched_target (sample_waiting SchedCancelled))"
    "sched_status (sample_waiting SchedCancelled) = SchedCancelled" "sched_kind (sample_waiting SchedCancelled) = OneTime"
    "sched_id (sample_waiting SchedCancelled) = ''sched_1''" "ss_faults sample_sched_start = []"
    by code_simp+
  moreover have "by_id (ss_ledger sample_sched_start) (drawn_run_id sample_sched_start) = None"
    by (simp add: sample_sched_start_def ledger_new_def)
  ultimately show ?thesis using cancelled_schedule_is_retried by metis
qed

subsection \<open>A next due time that cannot be computed\<close>

text \<open>
  C38. A divergence from the specification, which wants every started execution linked to its attempt:
  when the next due time of a recurring schedule cannot be computed, the dispatch starts the run and then
  fails. The stored schedule is due as before and names no run, so that every round starts another one,
  and the error keeps the round from the schedules that come later.
\<close>

theorem run_started_without_record:
  assumes "ss_faults s = []" and "sched_kind sc = Recurring" and "run_ready (sched_target sc)"
    and "by_id (ss_ledger s) (drawn_run_id s) = None"
    and "next_due_after env (sched_trigger sc) (ss_clock s (ss_drawn s)) = Inl e"
  shows "\<exists>t. dispatch_attempt_at env sc i src s = (Inl (SchedTrigger e), t) \<and>
    run_of_schedule t (drawn_run_id s) (sched_id sc) \<and>
    map_option (\<lambda>r. (srow_status r, srow_next_due_at r)) (find (\<lambda>r. srow_id r = sched_id sc) (ss_schedules t)) =
      Some (schedule_status_str (sched_status sc), sched_next_due_at sc)"
proof -
  let ?now = "ss_clock s (ss_drawn s)"
  let ?sc = "started_attempt ?now i src sc"
  obtain sc1 u where u: "dispatch_attempt_at env sc i src s = finish_dispatch env sc1 i ?now u"
    "run_of_schedule u (drawn_run_id s) (sched_id sc)" "ss_schedules u = ss_schedules (persisted ?sc s)"
    and sc1: "sched_kind sc1 = Recurring" "sched_trigger sc1 = sched_trigger sc"
    using dispatch_creates_run [OF assms(1,3,4) refl, of env i src] assms(2)
    by (metis mark_dispatched_simps(2,3) started_attempt_simps(4,5))
  have "finish_dispatch env sc1 i ?now u = (Inl (SchedTrigger e), u)"
    using sc1 assms(5) by (simp add: finish_dispatch_def advance_schedule_after_dispatch_def due_op_def bind_op_def fail_op_def)
  moreover have "find (\<lambda>r. srow_id r = sched_id sc) (ss_schedules (persisted ?sc s)) =
      Some ((schedule_row_of ?sc)\<lparr>srow_tenant_id := stored_tenant ?sc s\<rparr>)"
    by (simp add: persisted_def) (rule find_upsert, simp add: schedule_row_of_def)
  ultimately show ?thesis using u by (simp add: schedule_row_of_def)
qed

definition sample_leap_day :: schedule where
  "sample_leap_day = (sample_waiting SchedActive)\<lparr>sched_kind := Recurring,
     sched_trigger := \<lparr>trig_kind = CronTrigger, trig_fire_at = None, trig_cron_expr = ''0 0 29 2 *'',
       trig_timezone = ''UTC'', trig_next_due_at = Some 5\<rparr>\<rparr>"

lemma no_leap_day: "next_cron_due_after utc_calendar ''0 0 29 2 *'' ''UTC'' t = Inl NoMatchWithinYear"
proof -
  have parts: "trim ''0 0 29 2 *'' \<noteq> []" "cal_zone utc_calendar (trim ''UTC'')"
    "parse_cron_expr ''0 0 29 2 *'' = Inr ([0], [0], [29], [2], [0..6])" by code_simp+
  have "\<not> due_round (\<lambda>t. cron_matches ([0], [0], [29], [2], [0..6]) (cal_fields utc_calendar (trim ''UTC'') t)) c d k" for c d k
    by (simp add: due_round_def cron_matches_def utc_calendar_def)
  moreover have "cal_add_year utc_calendar (trim ''UTC'') x \<noteq> None" for x by (simp add: utc_calendar_def)
  ultimately show ?thesis using parts
    by (auto simp: next_cron_due_after_def Let_def cron_search_eq split: option.split)
qed

theorem run_started_without_record_witness:
  "\<exists>t. dispatch_attempt_at sample_calendar_env sample_leap_day 0 SourceRetry sample_sched_start =
       (Inl (SchedTrigger NoMatchWithinYear), t) \<and>
     run_of_schedule t (drawn_run_id sample_sched_start) ''sched_1'' \<and>
     map_option (\<lambda>r. (srow_status r, srow_next_due_at r)) (find (\<lambda>r. srow_id r = ''sched_1'') (ss_schedules t)) =
       Some (''active'', Some 5)"
proof -
  have hyps: "ss_faults sample_sched_start = []" "sched_kind sample_leap_day = Recurring"
    "run_ready (sched_target sample_leap_day)" by code_simp+
  have fresh: "by_id (ss_ledger sample_sched_start) (drawn_run_id sample_sched_start) = None"
    by (simp add: sample_sched_start_def ledger_new_def)
  have due: "next_due_after sample_calendar_env (sched_trigger sample_leap_day)
      (ss_clock sample_sched_start (ss_drawn sample_sched_start)) = Inl NoMatchWithinYear"
    by (simp add: next_due_after_def sample_leap_day_def sample_calendar_env_def no_leap_day)
  have "sched_id sample_leap_day = ''sched_1''" "schedule_status_str (sched_status sample_leap_day) = ''active''"
    "sched_next_due_at sample_leap_day = Some 5" by code_simp+
  with run_started_without_record [OF hyps fresh due, of 0 SourceRetry] show ?thesis by simp
qed

subsection \<open>A failed dispatch stays due\<close>

text \<open>What dispatching does to the history: due times stay, and an attempt that waits for a retry leaves the rest alone.\<close>

definition dispatch_effect :: "schedule \<Rightarrow> nat \<Rightarrow> schedule \<Rightarrow> bool" where
  "dispatch_effect sc i sc' \<longleftrightarrow> map att_due_at (sched_attempts sc') = map att_due_at (sched_attempts sc) \<and>
     (i < length (sched_attempts sc) \<longrightarrow> att_dispatch_status (sched_attempts sc' ! i) = DispFailed \<longrightarrow>
        sched_next_due_at sc' = sched_next_due_at sc \<and> sched_status sc' = sched_status sc \<and>
        (\<forall>j. j \<noteq> i \<longrightarrow> sched_attempts sc' ! j = sched_attempts sc ! j))"

lemma dispatch_effectI:
  assumes "sched_attempts sc' = (sched_attempts sc)[i := a]" and "att_due_at a = att_due_at (sched_attempts sc ! i)"
    and "att_dispatch_status a = DispFailed \<Longrightarrow>
      sched_next_due_at sc' = sched_next_due_at sc \<and> sched_status sc' = sched_status sc"
  shows "dispatch_effect sc i sc'"
proof -
  have "(map att_due_at (sched_attempts sc))[i := att_due_at a] = map att_due_at (sched_attempts sc)"
    using assms(2) by (cases "i < length (sched_attempts sc)") (simp_all add: list_update_same_conv list_update_beyond)
  with assms show ?thesis by (auto simp: dispatch_effect_def map_update)
qed

lemma yields_true: "yields (\<lambda>_. True) Q m \<longleftrightarrow> (\<forall>s x t. m s = (Inr x, t) \<longrightarrow> Q x)"
  unfolding yields_def triple_def by (auto split: prod.splits sum.splits)

lemma keeps_true: "keeps (\<lambda>_. True) m"
  by (rule keepsI) simp

lemma dispatch_effect_frame [simp]:
  "dispatch_effect sc i (sc'\<lparr>sched_last_attempt_at := la, sched_updated_at := ua\<rparr>) = dispatch_effect sc i sc'"
  by (simp add: dispatch_effect_def)

lemma advance_history:
  "yields (\<lambda>_. True) (\<lambda>sc'. sched_attempts sc' = sched_attempts sc) (advance_schedule_after_dispatch env sc now)"
  unfolding advance_schedule_after_dispatch_def
  by (cases "sched_kind sc") (auto intro!: yields_return yields_bind_keeps keeps_true simp: set_due_def)

lemma yields_weaken: "yields I Q m \<Longrightarrow> (\<And>x. Q x \<Longrightarrow> R x) \<Longrightarrow> yields I R m"
  unfolding yields_def by (erule triple_weaken) auto

lemma record_failure_effect:
  "yields (\<lambda>_. True) (dispatch_effect sc i) (record_dispatch_failure env sc i class reason)"
  unfolding record_dispatch_failure_def Let_def
  apply (rule yields_bind_keeps [OF keeps_true], rule yields_bind_keeps [OF keeps_true])
  apply (rule yields_bind [where Q = "dispatch_effect sc i"])
  subgoal
    by (auto intro!: yields_return yields_weaken [OF advance_history] dispatch_effectI
        simp: change_attempt_def set_due_def)
  by (intro yields_then keeps_true yields_return) simp

lemma finish_effect:
  assumes "i < length (sched_attempts sc)"
  shows "yields (\<lambda>_. True) (dispatch_effect sc i)
    (finish_dispatch env (mark_dispatched now i rid w revn down sc) i now')"
proof -
  obtain a where "sched_attempts (mark_dispatched now i rid w revn down sc) = (sched_attempts sc)[i := a]"
    and "att_due_at a = att_due_at (sched_attempts sc ! i)" "att_dispatch_status a = DispDispatched"
    by (simp add: mark_dispatched_def change_attempt_def)
  then have "dispatch_effect sc i sc'"
    if "sched_attempts sc' = sched_attempts (mark_dispatched now i rid w revn down sc)" for sc'
    using that by (intro dispatch_effectI [of _ _ _ a]) simp_all
  then show ?thesis
    unfolding finish_dispatch_def
    by (intro yields_bind [OF advance_history] yields_then keeps_true yields_return)
qed

lemma dispatch_effect_started:
  "dispatch_effect (started_attempt now i src sc) i sc' \<Longrightarrow> dispatch_effect sc i sc'"
  unfolding dispatch_effect_def started_attempt_def
  by (cases "i < length (sched_attempts sc)")
    (auto simp: change_attempt_def map_update list_update_same_conv list_update_beyond)

lemma dispatch_attempt_effect:
  assumes "i < length (sched_attempts sc)"
  shows "yields (\<lambda>_. True) (dispatch_effect sc i) (dispatch_attempt_at env sc i src)"
  unfolding dispatch_attempt_at_def Let_def started_attempt_def [symmetric]
proof (intro yields_bind_keeps yields_then keeps_true)
  fix now :: timestamp and tro
  let ?sc = "started_attempt now i src sc"
  have len: "i < length (sched_attempts ?sc)" using assms by (simp add: started_attempt_def change_attempt_def)
  have fail: "yields (\<lambda>_. True) (dispatch_effect sc i) (record_dispatch_failure env ?sc i cl reason)" for cl reason
    by (rule yields_weaken [OF record_failure_effect]) (rule dispatch_effect_started)
  have finish: "yields (\<lambda>_. True) (dispatch_effect sc i)
      (finish_dispatch env (mark_dispatched now i rid w revn down ?sc) i now)" for rid w revn down
    by (rule yields_weaken [OF finish_effect [OF len]]) (rule dispatch_effect_started)
  show "yields (\<lambda>_. True) (dispatch_effect sc i)
     (case tro of None \<Rightarrow> record_dispatch_failure env ?sc i ''invalid_target'' ''schedule target reference is not available''
      | Some tr \<Rightarrow>
          if \<not> trow_active tr
          then record_dispatch_failure env ?sc i ''invalid_target'' ''schedule target reference is not available''
          else (case decode_target_record tr of
                  Inl e \<Rightarrow> record_dispatch_failure env ?sc i ''invalid_target_document'' (se_decode_text env e)
                | Inr tgt \<Rightarrow> (case tgt_kind tgt of
                    TargetRun \<Rightarrow> dispatch_run env ?sc i now tgt | TargetWorkflow \<Rightarrow> dispatch_workflow env ?sc i now tgt)))"
    by (auto simp: dispatch_run_def dispatch_workflow_def fail finish
        intro!: yields_bind_keeps keeps_true split: option.split sum.split target_kind.split)
qed

text \<open>
  A divergence from the specification, which bounds the retries of a dispatch: a failed attempt that
  will be retried does not move the due time of the schedule. In the same state of the tables the
  schedule stays due, and processing it again adds one more attempt for the same due time, with a retry
  budget of its own.
\<close>

theorem failed_dispatch_stays_due:
  assumes "process_due_schedule env sc now src s = (Inr sc1, s1)" and "sched_next_due_at sc = Some due"
    and "due \<le> now" and "sched_status sc \<in> {SchedScheduled, SchedActive}"
    and "\<not> has_active_attempt (sched_attempts sc)"
    and "att_dispatch_status (sched_attempts sc1 ! 0) = DispFailed"
  shows "is_due now sc1 \<and> sched_status sc1 = sched_status sc \<and>
    (\<forall>now' src' t sc2 u. process_due_schedule env sc1 now' src' t = (Inr sc2, u) \<longrightarrow>
      map att_due_at (sched_attempts sc2) = due # due # map att_due_at (sched_attempts sc))"
proof -
  have due_again: "\<exists>a. att_due_at a = due \<and> dispatch_effect (sc'\<lparr>sched_attempts := a # sched_attempts sc'\<rparr>) 0 sc''"
    if again: "process_due_schedule env sc' n src'' v = (Inr sc'', w)" "sched_next_due_at sc' = Some due"
      "sched_status sc' \<in> {SchedScheduled, SchedActive}" "\<not> has_active_attempt (sched_attempts sc')"
    for sc' sc'' n src'' v w
  proof -
    obtain hex v' where "dispatch_attempt_at env (sc'\<lparr>sched_attempts := new_attempt sc' hex due n src'' # sched_attempts sc'\<rparr>)
        0 src'' v' = (Inr sc'', w)"
      using again by (auto simp: process_due_schedule_def bind_op_def draw_uuid_def Let_def)
    with dispatch_attempt_effect [of 0 "sc'\<lparr>sched_attempts := new_attempt sc' hex due n src'' # sched_attempts sc'\<rparr>" env src'']
    show ?thesis unfolding yields_true by (intro exI [of _ "new_attempt sc' hex due n src''"]) (auto simp: new_attempt_def)
  qed
  obtain a where a: "att_due_at a = due" "dispatch_effect (sc\<lparr>sched_attempts := a # sched_attempts sc\<rparr>) 0 sc1"
    using due_again [OF assms(1,2,4,5)] by blast
  then have hist: "map att_due_at (sched_attempts sc1) = due # map att_due_at (sched_attempts sc)"
    and same: "sched_next_due_at sc1 = Some due" "sched_status sc1 = sched_status sc"
    and others: "\<forall>j. j \<noteq> 0 \<longrightarrow> sched_attempts sc1 ! j = (a # sched_attempts sc) ! j"
    using assms(2,6) by (auto simp: dispatch_effect_def)
  obtain b bs where bs: "sched_attempts sc1 = b # bs" using hist by (cases "sched_attempts sc1") auto
  have "length bs = length (sched_attempts sc)" using arg_cong [OF hist, of length] bs by simp
  moreover have "bs ! j = sched_attempts sc ! j" for j using others [rule_format, of "Suc j"] bs by simp
  ultimately have "bs = sched_attempts sc" by (simp add: list_eq_iff_nth_eq)
  then have idle: "\<not> has_active_attempt (sched_attempts sc1)"
    using assms(5,6) bs by (auto simp: has_active_attempt_def)
  have "map att_due_at (sched_attempts sc2) = due # due # map att_due_at (sched_attempts sc)"
    if "process_due_schedule env sc1 now' src' t = (Inr sc2, u)" for now' src' t sc2 u
    using due_again [OF that same(1) _ idle] same(2) assms(4) hist by (auto simp: dispatch_effect_def)
  then show ?thesis using same assms(3) by (auto simp: is_due_def)
qed

definition sample_broken :: schedule where
  "sample_broken = (sample_waiting SchedScheduled)\<lparr>sched_attempts := [],
     sched_target := (sched_target (sample_waiting SchedScheduled))\<lparr>tgt_run := None\<rparr>\<rparr>"

lemma sample_broken_dispatch:
  "case process_due_schedule sample_calendar_env sample_broken 20 SourceNormal sample_sched_start of
     (Inl _, _) \<Rightarrow> False
   | (Inr sc1, _) \<Rightarrow> att_dispatch_status (sched_attempts sc1 ! 0) = DispFailed"
  by code_simp

theorem failed_dispatch_stays_due_witness:
  "\<exists>sc1 s1. process_due_schedule sample_calendar_env sample_broken 20 SourceNormal sample_sched_start = (Inr sc1, s1) \<and>
     is_due 20 sc1 \<and> sched_status sc1 = SchedScheduled"
proof -
  obtain sc1 s1 where run: "process_due_schedule sample_calendar_env sample_broken 20 SourceNormal sample_sched_start = (Inr sc1, s1)"
    and "att_dispatch_status (sched_attempts sc1 ! 0) = DispFailed"
    using sample_broken_dispatch by (auto split: prod.splits sum.splits)
  moreover have "sched_next_due_at sample_broken = Some 5" "sched_status sample_broken = SchedScheduled"
    "\<not> has_active_attempt (sched_attempts sample_broken)" by code_simp+
  ultimately show ?thesis using failed_dispatch_stays_due [OF run, of 5] by auto
qed

subsection \<open>What is not dispatched\<close>

text \<open>Why a due schedule is not dispatched, and how the attempt is recorded.\<close>

definition skip_reason :: "schedule \<Rightarrow> (dispatch_status \<times> string) option" where
  "skip_reason sc =
     (case sched_status sc of
        SchedPaused \<Rightarrow> Some (DispSkippedPaused, ''schedule_paused'')
      | SchedCancelled \<Rightarrow> Some (DispSkippedCancelled, ''schedule_cancelled'')
      | SchedCompleted \<Rightarrow> None
      | SchedDispatchFailed \<Rightarrow> None
      | _ \<Rightarrow> if has_active_attempt (sched_attempts sc)
             then Some (DispSkippedOverlap, ''schedule_execution_in_progress'') else None)"

text \<open>
  When a due schedule is paused, is cancelled, or has an execution in progress, nothing is started: the
  run ledger stays as it is, whatever happens in the store, and the attempt is put on record with the
  reason.
\<close>

theorem skipped_without_run:
  assumes "sched_next_due_at sc = Some due" and "skip_reason sc = Some (st, why)"
    and "process_due_schedule env sc now src s = (r, t)"
  shows "ss_ledger t = ss_ledger s \<and>
    (\<forall>sc'. r = Inr sc' \<longrightarrow> sched_status sc' = sched_status sc \<and>
      (\<exists>a. sched_attempts sc' = a # sched_attempts sc \<and> att_dispatch_status a = st \<and>
           att_skipped_reason a = why \<and> att_due_at a = due))"
proof -
  let ?I = "\<lambda>u :: sched_state. ss_ledger u = ss_ledger s"
  obtain hex where run: "finish_non_dispatch_attempt env sc (skipped st why (new_attempt sc hex due now src)) now
      (s\<lparr>ss_drawn := Suc (ss_drawn s)\<rparr>) = (r, t)"
    using assms by (cases "sched_status sc")
      (auto simp: process_due_schedule_def bind_op_def draw_uuid_def Let_def skip_reason_def split: if_splits)
  have stmt: "keeps ?I (sched_call f)" if "\<And>u. ss_ledger (snd (f u)) = ss_ledger u" for f :: "sched_state \<Rightarrow> 'x \<times> sched_state"
    unfolding keeps_def using that by (intro triple_sched_call) simp_all
  have persist: "keeps ?I (persist_schedule x)" for x
    unfolding persist_schedule_def upsert_schedule_def upsert_schedule_target_def upsert_schedule_dispatch_attempt_def
    by (intro keeps_intros stmt) (simp_all add: Let_def)
  have publish: "keeps ?I (publish_event env name x y)" for name x y
    by (rule keepsI) (simp add: publish_event_def)
  have advance: "yields ?I (\<lambda>sc'. sched_attempts sc' = sched_attempts x \<and> sched_status sc' = sched_status x)
      (advance_schedule_after_due env x now)" for x
    unfolding advance_schedule_after_due_def due_op_def
    by (cases "sched_kind x") (auto simp: set_due_def intro!: yields_return yields_bind_keeps keeps_intros split: sum.split)
  have "yields ?I (\<lambda>sc'. sched_attempts sc' = skipped st why (new_attempt sc hex due now src) # sched_attempts sc \<and>
      sched_status sc' = sched_status sc)
    (finish_non_dispatch_attempt env sc (skipped st why (new_attempt sc hex due now src)) now)"
    unfolding finish_non_dispatch_attempt_def Let_def
    by (rule yields_bind [OF advance]) (auto intro!: yields_then persist publish yields_return)
  note result = this [unfolded yields_def]
  show ?thesis
  proof (cases r)
    case (Inl e)
    have "ss_ledger t = ss_ledger s" by (rule tripleD(1) [OF result _ run [unfolded Inl]]) simp
    with Inl show ?thesis by simp
  next
    case (Inr sc')
    have "ss_ledger t = ss_ledger s \<and>
        sched_attempts sc' = skipped st why (new_attempt sc hex due now src) # sched_attempts sc \<and>
        sched_status sc' = sched_status sc" by (rule tripleD(2) [OF result _ run [unfolded Inr]]) simp
    with Inr show ?thesis by (simp add: skipped_def new_attempt_def)
  qed
qed

theorem skipped_without_run_witness:
  "\<exists>r t. process_due_schedule sample_calendar_env (sample_waiting SchedPaused) 20 SourceNormal sample_sched_start = (r, t) \<and>
     ss_ledger t = ledger_new"
proof -
  obtain r t where run: "process_due_schedule sample_calendar_env (sample_waiting SchedPaused) 20 SourceNormal sample_sched_start = (r, t)"
    by fastforce
  have "sched_next_due_at (sample_waiting SchedPaused) = Some 5"
    "skip_reason (sample_waiting SchedPaused) = Some (DispSkippedPaused, ''schedule_paused'')"
    by (simp_all add: sample_waiting_def skip_reason_def)
  from skipped_without_run [OF this run] run show ?thesis by (simp add: sample_sched_start_def)
qed

subsection \<open>Delays and missed intervals\<close>

text \<open>
  The delay before the n-th retry is the base delay, doubled n times under exponential backoff, but at
  most the maximum of the policy, as long as the doubled delay is a 64-bit integer and n at most 62.
\<close>

theorem retry_delay_spec:
  assumes "0 < rty_base_delay_seconds p" and "rty_base_delay_seconds p * 2 ^ n < 2 ^ 63" and "n \<le> 62"
  shows "retry_delay p (int n) = min (rty_max_delay_seconds p)
    (if rty_backoff_kind p = Exponential then rty_base_delay_seconds p * 2 ^ n else rty_base_delay_seconds p)"
proof -
  have "nat (min (int n) 62 mod 64) = n" using assms(3) by (simp add: nat_mod_distrib)
  moreover have "- (2 ^ 63) \<le> rty_base_delay_seconds p * 2 ^ n" using assms(1) by (smt (verit) zero_le_mult_iff zero_le_power)
  then have "wrap_i64 (rty_base_delay_seconds p * 2 ^ n) = rty_base_delay_seconds p * 2 ^ n"
    using assms(2) by (rule wrap_i64_same)
  ultimately show ?thesis by (simp add: retry_delay_def min_def Let_def)
qed

theorem retry_delay_spec_witness:
  "retry_delay \<lparr>rty_max_retries = 9, rty_backoff_kind = Exponential, rty_base_delay_seconds = 5,
     rty_max_delay_seconds = 60\<rparr> 3 = 40"
  using retry_delay_spec [of "\<lparr>rty_max_retries = 9, rty_backoff_kind = Exponential, rty_base_delay_seconds = 5,
     rty_max_delay_seconds = 60\<rparr>" 3] by simp

text \<open>Beyond that the shift loses the sign: a delay in the past.\<close>

lemma retry_delay_overflow:
  "retry_delay \<lparr>rty_max_retries = 99, rty_backoff_kind = Exponential, rty_base_delay_seconds = 5,
     rty_max_delay_seconds = 60\<rparr> 61 = - 6917529027641081856"
  by code_simp

text \<open>A chain of due times, each the next one after the last.\<close>

fun due_chain :: "sched_env \<Rightarrow> trigger \<Rightarrow> timestamp \<Rightarrow> timestamp list \<Rightarrow> bool" where
  "due_chain env trig c [] = True"
| "due_chain env trig c (t # ts) \<longleftrightarrow> next_due_after env trig c = Inr (Some t) \<and> due_chain env trig t ts"

lemma next_due_later:
  assumes "calendar_laws (se_calendar env)" and "next_due_after env trig c = Inr (Some t)"
  shows "c < t"
  using assms by (auto simp: next_due_after_def dest: next_cron_due_later split: trigger_kind.splits option.splits if_splits)

text \<open>
  The catch-up over missed intervals ends and counts exactly: with a calendar that truncates to
  minutes as documented, the result is the last of the due times before now and how many followed the
  stored one, or the error of the first due time that cannot be computed.
\<close>

theorem missed_intervals_exact:
  assumes "calendar_laws (se_calendar env)"
  shows "\<exists>ts. due_chain env trig c ts \<and> list_all (\<lambda>t. t < now) ts \<and>
    (case next_due_after env trig (last (c # ts)) of
       Inl e \<Rightarrow> missed_intervals env trig now c n = Inl e
     | Inr nxt \<Rightarrow> missed_intervals env trig now c n = Inr (n + int (length ts), last (c # ts)) \<and>
         (\<forall>t. nxt = Some t \<longrightarrow> now \<le> t))"
  using assms
proof (induction env trig now c n rule: missed_intervals.induct)
  case (1 env trig now c n)
  show ?case
  proof (cases "\<exists>nxt. next_due_after env trig c = Inr (Some nxt) \<and> nxt < now")
    case True
    then obtain nxt where nxt: "next_due_after env trig c = Inr (Some nxt)" "nxt < now" by blast
    have later: "c < nxt" using 1(2) nxt(1) by (rule next_due_later)
    from 1(1) [OF nxt(1) refl] nxt(2) later 1(2) obtain ts where
      "due_chain env trig nxt ts" "list_all (\<lambda>t. t < now) ts"
      and rest: "case next_due_after env trig (last (nxt # ts)) of
        Inl e \<Rightarrow> missed_intervals env trig now nxt (n + 1) = Inl e
      | Inr x \<Rightarrow> missed_intervals env trig now nxt (n + 1) = Inr (n + 1 + int (length ts), last (nxt # ts)) \<and>
          (\<forall>t. x = Some t \<longrightarrow> now \<le> t)" by blast
    moreover have "missed_intervals env trig now c n = missed_intervals env trig now nxt (n + 1)"
      using nxt later by (simp add: missed_intervals.simps [of env trig now c n])
    moreover define l where "l = last (nxt # ts)"
    then have "last (c # nxt # ts) = l" by simp
    ultimately show ?thesis
      using nxt by (intro exI [of _ "nxt # ts"])
        (cases "next_due_after env trig l", simp_all add: l_def [symmetric] algebra_simps del: last.simps)
  next
    case False
    then show ?thesis
      by (intro exI [of _ "[]"]) (auto simp: missed_intervals.simps [of env trig now c n] split: sum.split option.split)
  qed
qed

theorem missed_intervals_exact_witness:
  "\<exists>ts. due_chain sample_calendar_env (sched_trigger sample_leap_day) 5 ts \<and> list_all (\<lambda>t. t < 20) ts \<and>
     missed_intervals sample_calendar_env (sched_trigger sample_leap_day) 20 5 0 = Inl NoMatchWithinYear"
proof -
  have "calendar_laws (se_calendar sample_calendar_env)" by (simp add: sample_calendar_env_def utc_calendar_laws)
  moreover have "next_due_after sample_calendar_env (sched_trigger sample_leap_day) c = Inl NoMatchWithinYear" for c
    by (simp add: next_due_after_def sample_leap_day_def sample_calendar_env_def no_leap_day)
  ultimately show ?thesis
    using missed_intervals_exact [of sample_calendar_env "sched_trigger sample_leap_day" 5 20 0] by auto
qed

subsection \<open>Progress\<close>

text \<open>From here on the clock never reads less than a given instant.\<close>

definition clock_from :: "timestamp \<Rightarrow> sched_state \<Rightarrow> bool" where
  "clock_from now s \<longleftrightarrow> (\<forall>i \<ge> ss_drawn s. now \<le> ss_clock s i)"

definition settled :: "timestamp \<Rightarrow> schedule \<Rightarrow> bool" where
  "settled now sc \<longleftrightarrow> \<not> is_due now sc \<or>
     (\<exists>a \<in> set (sched_attempts sc). att_dispatch_status a = DispFailed \<and> att_next_retry_at a \<noteq> None)"

lemma clock_from_call: "(\<And>s. ss_clock (snd (f s)) = ss_clock s \<and> ss_drawn (snd (f s)) = ss_drawn s) \<Longrightarrow>
  keeps (clock_from now) (sched_call f)"
  unfolding keeps_def by (intro triple_sched_call) (simp_all add: clock_from_def)

lemma clock_from_reads:
  "yields (clock_from now) (\<lambda>t. now \<le> t) read_clock" "keeps (clock_from now) read_wall" "keeps (clock_from now) draw_uuid"
  by (auto simp: yields_def triple_def read_clock_def read_wall_def draw_uuid_def clock_from_def intro!: keepsI)

lemma clock_from_persist: "keeps (clock_from now) (persist_schedule sc)"
  unfolding persist_schedule_def upsert_schedule_def upsert_schedule_target_def upsert_schedule_dispatch_attempt_def
  by (intro keeps_intros clock_from_call) (simp_all add: Let_def)

lemma clock_from_publish: "keeps (clock_from now) (publish_event env name sc att)"
  by (rule keepsI) (simp add: publish_event_def clock_from_def)

lemma clock_from_due: "keeps (clock_from now) (due_op env trig t)"
  by (auto simp: due_op_def intro: keeps_intros split: sum.split)

lemmas clock_from_keeps = clock_from_reads(2,3) clock_from_persist clock_from_publish clock_from_due

lemma due_op_later:
  assumes "calendar_laws (se_calendar env)" and "now \<le> t"
  shows "yields (clock_from now) (\<lambda>d. case d of None \<Rightarrow> True | Some x \<Rightarrow> now < x) (due_op env trig t)"
proof (cases "next_due_after env trig t")
  case (Inl e)
  then show ?thesis by (simp add: due_op_def yields_fail)
next
  case (Inr d)
  have "now < x" if "d = Some x" for x
    using next_due_later [OF assms(1), of trig t x] Inr that assms(2) by simp
  with Inr show ?thesis by (auto simp: due_op_def intro!: yields_return split: option.split)
qed

lemma advance_settles:
  assumes "calendar_laws (se_calendar env)" and "now \<le> t"
  shows "yields (clock_from now) (\<lambda>sc'. \<not> is_due now sc') (advance_schedule_after_dispatch env sc t)"
    and "yields (clock_from now) (\<lambda>sc'. \<not> is_due now sc') (advance_schedule_after_due env sc t)"
  subgoal unfolding advance_schedule_after_dispatch_def
    by (cases "sched_kind sc") (auto intro!: yields_return yields_bind [OF due_op_later [OF assms]]
        simp: set_due_def is_due_def split: option.splits)
  subgoal unfolding advance_schedule_after_due_def
    by (cases "sched_kind sc") (auto intro!: yields_return yields_bind [OF due_op_later [OF assms]]
        simp: set_due_def is_due_def split: option.splits)
  done

lemma settled_frame [simp]:
  "settled now (sc\<lparr>sched_last_attempt_at := la, sched_updated_at := ua\<rparr>) = settled now sc"
  by (simp add: settled_def is_due_def)

lemma record_failure_settles:
  assumes "calendar_laws (se_calendar env)" and "i < length (sched_attempts sc)"
  shows "yields (clock_from now) (settled now) (record_dispatch_failure env sc i class reason)"
proof -
  have retry: "keeps (clock_from now) (next_retry_time env p n)" for p n
    unfolding next_retry_time_def by (auto intro!: keeps_intros clock_from_keeps split: option.split)
  have waiting: "settled now ((change_attempt i (\<lambda>_. a) sc)\<lparr>sched_last_outcome := out\<rparr>)"
    if "att_dispatch_status a = DispFailed" "att_next_retry_at a \<noteq> None" for a out
    using that assms(2) by (auto simp: settled_def change_attempt_def intro: set_update_memI)
  show ?thesis
    unfolding record_dispatch_failure_def Let_def
    apply (rule yields_bind [OF clock_from_reads(1)])
    apply (rule yields_bind_keeps [OF retry])
    apply (rule yields_bind [where Q = "settled now"])
    subgoal for t r
      by (auto intro!: yields_return waiting yields_weaken [OF advance_settles(1)] assms
          simp: settled_def set_due_def is_due_def)
    by (intro yields_then clock_from_keeps yields_return keeps_if keeps_return) simp
qed

lemma finish_settles:
  assumes "calendar_laws (se_calendar env)" and "now \<le> t"
  shows "yields (clock_from now) (settled now) (finish_dispatch env sc i t)"
  unfolding finish_dispatch_def
  by (rule yields_bind [OF advance_settles(1) [OF assms]])
    (auto intro!: yields_then clock_from_keeps yields_return simp: settled_def)

lemma dispatch_settles:
  assumes "calendar_laws (se_calendar env)" and "i < length (sched_attempts sc)"
  shows "yields (clock_from now) (settled now) (dispatch_attempt_at env sc i src)"
  unfolding dispatch_attempt_at_def Let_def started_attempt_def [symmetric]
proof (rule yields_bind [OF clock_from_reads(1)])
  fix t
  assume t: "now \<le> t"
  let ?sc = "started_attempt t i src sc"
  have len: "i < length (sched_attempts ?sc)" using assms(2) by (simp add: started_attempt_def change_attempt_def)
  have ledger: "keeps (clock_from now) (ledger_create_run inp)" for inp
    unfolding ledger_create_run_def
    by (intro keeps_bind clock_from_keeps) (auto intro!: keepsI simp: clock_from_def split: prod.split)
  have target: "keeps (clock_from now) (get_schedule_target a b)" for a b
    unfolding get_schedule_target_def by (rule clock_from_call) simp
  note ends = record_failure_settles [OF assms(1) len] finish_settles [OF assms(1) t]
  show "yields (clock_from now) (settled now) (then_op (persist_schedule ?sc)
     (then_op (publish_event env ''schedule.dispatch_attempted'' ?sc (Some (sched_attempts ?sc ! i)))
     (bind_op (get_schedule_target (sched_id ?sc) (sched_target_ref_id ?sc)) (\<lambda>tro.
      case tro of None \<Rightarrow> record_dispatch_failure env ?sc i ''invalid_target'' ''schedule target reference is not available''
      | Some tr \<Rightarrow>
          if \<not> trow_active tr
          then record_dispatch_failure env ?sc i ''invalid_target'' ''schedule target reference is not available''
          else (case decode_target_record tr of
                  Inl e \<Rightarrow> record_dispatch_failure env ?sc i ''invalid_target_document'' (se_decode_text env e)
                | Inr tgt \<Rightarrow> (case tgt_kind tgt of
                    TargetRun \<Rightarrow> dispatch_run env ?sc i t tgt | TargetWorkflow \<Rightarrow> dispatch_workflow env ?sc i t tgt))))))"
    by (intro yields_then yields_bind_keeps clock_from_keeps target)
      (auto simp: dispatch_run_def dispatch_workflow_def ends
        intro!: yields_bind_keeps [OF ledger] split: option.split sum.split target_kind.split)
qed

text \<open>
  C27. Progress: when processing a due schedule returns, that schedule is settled. It is not due any more
  at the time of the round, or one of its attempts waits for a retry. Only schedules that have completed
  or failed for good are left as they are.
\<close>

theorem due_schedule_settles:
  assumes "calendar_laws (se_calendar env)" and "clock_from now s"
    and "sched_status sc \<noteq> SchedCompleted" and "sched_status sc \<noteq> SchedDispatchFailed"
    and "process_due_schedule env sc now src s = (Inr sc', t)"
  shows "settled now sc'"
proof -
  have skip: "yields (clock_from now) (settled now) (finish_non_dispatch_attempt env sc a now)" for a
    unfolding finish_non_dispatch_attempt_def Let_def
    by (rule yields_bind [OF advance_settles(2) [OF assms(1) order_refl]])
      (auto intro!: yields_then clock_from_keeps yields_return simp: settled_def)
  have "yields (clock_from now) (settled now) (process_due_schedule env sc now src)"
  proof (cases "sched_next_due_at sc")
    case None
    then show ?thesis by (auto simp: process_due_schedule_def settled_def is_due_def intro!: yields_return)
  next
    case (Some due)
    show ?thesis
      unfolding process_due_schedule_def Some option.case Let_def using assms(3,4)
      by (intro yields_bind_keeps clock_from_keeps) (auto intro!: skip dispatch_settles [OF assms(1)])
  qed
  with assms(2,5) show ?thesis unfolding yields_def by (auto dest: tripleD(2))
qed

lemma sample_broken_returns:
  "case process_due_schedule sample_calendar_env sample_broken 0 SourceNormal sample_sched_start of
     (Inl _, _) \<Rightarrow> False | (Inr _, _) \<Rightarrow> True"
  by code_simp

theorem due_schedule_settles_witness:
  "\<exists>sc1 s1. process_due_schedule sample_calendar_env sample_broken 0 SourceNormal sample_sched_start = (Inr sc1, s1) \<and>
     settled 0 sc1"
proof -
  obtain sc1 s1 where run: "process_due_schedule sample_calendar_env sample_broken 0 SourceNormal sample_sched_start = (Inr sc1, s1)"
    using sample_broken_returns by (auto split: prod.splits sum.splits)
  have "calendar_laws (se_calendar sample_calendar_env)" by (simp add: sample_calendar_env_def utc_calendar_laws)
  moreover have "clock_from 0 sample_sched_start" by (simp add: clock_from_def sample_sched_start_def)
  moreover have "sched_status sample_broken = SchedScheduled" by code_simp
  ultimately show ?thesis using due_schedule_settles [OF _ _ _ _ run] run by simp
qed

end
