(* ===== verification/Orchestration.thy ===== *)
theory Orchestration
  imports Orchestration_Types
begin

text \<open>
  Workflows, crates/domains/orchestration/src/lib.rs: the transformations that drive the steps of a
  workflow, the planner, and the manager that keeps workflows in memory and applies the
  transformations to the stored copy. The instants and random tokens the code draws are arguments;
  \<open>json_text\<close> is the text serde\_json writes for a value.
\<close>

section \<open>Helpers\<close>

definition is_terminal_workflow_status :: "workflow_status \<Rightarrow> bool" where
  "is_terminal_workflow_status st \<longleftrightarrow>
     st \<in> {WfPlanningFailed, WfCompleted, WfPartialFailed, WfFailed, WfCancelled, WfInterrupted}"

definition is_terminal_wf_step_status :: "wf_step_status \<Rightarrow> bool" where
  "is_terminal_wf_step_status st \<longleftrightarrow>
     st \<in> {WsCompleted, WsFailed, WsCancelled, WsInterrupted, WsSkipped, WsBlocked}"

definition wf_first_non_empty :: "string list \<Rightarrow> string" where
  "wf_first_non_empty vs = (case find (\<lambda>v. trim v \<noteq> []) vs of None \<Rightarrow> [] | Some v \<Rightarrow> v)"

definition shell_escape :: "string \<Rightarrow> string" where
  "shell_escape v = concat (map (\<lambda>c. if c = CHR 0x27 then [CHR 0x27, CHR 0x22, CHR 0x27, CHR 0x22, CHR 0x27] else [c]) v)"

definition summarize_output :: "(json \<Rightarrow> string) \<Rightarrow> json option \<Rightarrow> string" where
  "summarize_output json_text v = (case v of None \<Rightarrow> [] | Some x \<Rightarrow> take_chars 160 (json_text x))"

definition workflow_step_by_id :: "workflow \<Rightarrow> string \<Rightarrow> wf_step option" where
  "workflow_step_by_id w sid = find (\<lambda>st. ws_id st = sid) (wf_steps w)"

definition dependency_met :: "workflow \<Rightarrow> dependency \<Rightarrow> bool" where
  "dependency_met w d =
     (case workflow_step_by_id w (dep_from d) of
        None \<Rightarrow> False
      | Some st \<Rightarrow>
          (case dep_type d of
             DepSuccess \<Rightarrow> ws_status st = WsCompleted
           | DepFailure \<Rightarrow> ws_status st = WsFailed
           | DepCompletion \<Rightarrow> is_terminal_wf_step_status (ws_status st)))"

definition dependencies_missing :: "workflow \<Rightarrow> wf_step \<Rightarrow> string list" where
  "dependencies_missing w st =
     map dep_id (filter (\<lambda>d. dep_to d = ws_id st \<and> \<not> dependency_met w d) (wf_dependencies w))"

definition new_workflow_id :: "string \<Rightarrow> string" where
  "new_workflow_id hex = ''wf_'' @ take 12 hex"

definition new_workflow_step_id :: "string \<Rightarrow> string" where
  "new_workflow_step_id hex = ''wfstep_'' @ take 12 hex"

definition new_workflow_dependency_id :: "string \<Rightarrow> string" where
  "new_workflow_dependency_id hex = ''wfdep_'' @ take 12 hex"

definition new_workflow_handoff_id :: "string \<Rightarrow> string" where
  "new_workflow_handoff_id hex = ''wfhandoff_'' @ take 12 hex"

text \<open>\<open>steps.iter_mut().find(..)\<close>: a change of the first step with an id.\<close>

fun change_step :: "string \<Rightarrow> (wf_step \<Rightarrow> wf_step) \<Rightarrow> wf_step list \<Rightarrow> wf_step list" where
  "change_step sid f [] = []"
| "change_step sid f (st # sts) = (if ws_id st = sid then f st # sts else st # change_step sid f sts)"

section \<open>Execution\<close>

definition initialize_execution :: "timestamp \<Rightarrow> workflow \<Rightarrow> workflow" where
  "initialize_execution now w =
     (let w1 = w\<lparr>wf_started_at := (case wf_started_at w of None \<Rightarrow> Some now | Some t \<Rightarrow> Some t),
                   wf_status := WfRunning, wf_updated_at := now\<rparr>
      in w1\<lparr>wf_steps := map (\<lambda>st. st\<lparr>ws_status := (if dependencies_missing w1 st \<noteq> [] then WsWaitingDependency else WsReady),
                                      ws_updated_at := now\<rparr>) (wf_steps w1)\<rparr>)"

definition advance_step :: "timestamp \<Rightarrow> bool \<Rightarrow> wf_step \<Rightarrow> wf_step \<times> bool" where
  "advance_step now missing st =
     (if ws_status st \<noteq> WsPlanned \<and> ws_status st \<noteq> WsWaitingDependency then (st, False)
      else if \<not> missing then (st\<lparr>ws_status := WsReady, ws_updated_at := now\<rparr>, True)
      else if ws_status st \<noteq> WsWaitingDependency
      then (st\<lparr>ws_status := WsWaitingDependency, ws_updated_at := now\<rparr>, True)
      else (st, False))"

definition advance_ready_steps :: "timestamp \<Rightarrow> workflow \<Rightarrow> workflow \<times> bool" where
  "advance_ready_steps now w =
     (let res = map (\<lambda>st. advance_step now (dependencies_missing w st \<noteq> []) st) (wf_steps w);
          changed = list_ex snd res;
          w1 = w\<lparr>wf_steps := map fst res\<rparr>
      in (if changed then w1\<lparr>wf_updated_at := now\<rparr> else w1, changed))"

definition consume_handoff :: "timestamp \<Rightarrow> string \<Rightarrow> handoff \<Rightarrow> handoff" where
  "consume_handoff now sid h =
     (if ho_to h = sid \<and> ho_status h = HandoffAvailable
      then h\<lparr>ho_status := HandoffConsumed, ho_consumed_at := Some now\<rparr> else h)"

definition start_step_attempt :: "timestamp \<Rightarrow> string \<Rightarrow> string \<Rightarrow> workflow \<Rightarrow> workflow" where
  "start_step_attempt now sid runtime_step w =
     w\<lparr>wf_steps := change_step sid (\<lambda>st. st\<lparr>ws_runtime_step_id := runtime_step,
            ws_attempt_count := wrap_i64 (ws_attempt_count st + 1), ws_status := WsRunning,
            ws_updated_at := now\<rparr>) (wf_steps w),
        wf_handoffs := map (consume_handoff now sid) (wf_handoffs w), wf_updated_at := now\<rparr>"

definition bound_step :: "timestamp \<Rightarrow> tool_call \<Rightarrow> wf_step \<Rightarrow> wf_step" where
  "bound_step now tc st =
     st\<lparr>ws_active_tool_call_id := tc_id tc, ws_runtime_step_id := tc_step_id tc,
        ws_integration_bindings := tc_integration_bindings tc,
        ws_mail_operation_summaries := tc_mail_operation_summaries tc, ws_updated_at := now\<rparr>"

definition bind_tool_call :: "timestamp \<Rightarrow> string \<Rightarrow> tool_call \<Rightarrow> workflow \<Rightarrow> workflow" where
  "bind_tool_call now sid tc w =
     w\<lparr>wf_steps := change_step sid (bound_step now tc) (wf_steps w), wf_updated_at := now\<rparr>"

text \<open>What the outcome of a tool call does to its step.\<close>

definition step_result ::
  "(json \<Rightarrow> string) \<Rightarrow> tool_call \<Rightarrow> wf_step_status option \<Rightarrow> string \<Rightarrow> wf_step \<Rightarrow> wf_step" where
  "step_result json_text tc hint reason st =
     (case tc_status tc of
        ToolCompleted \<Rightarrow>
          st\<lparr>ws_status := WsCompleted, ws_side_effects_visible := True,
             ws_output_summary := summarize_output json_text (tc_output tc), ws_blocked_reason := []\<rparr>
      | ToolDenied \<Rightarrow>
          st\<lparr>ws_status := WsBlocked,
             ws_blocked_reason := wf_first_non_empty [reason, blocked_reason_str ApprovalDenied]\<rparr>
      | ToolCancelled \<Rightarrow> st\<lparr>ws_status := WsCancelled\<rparr>
      | ToolFailed \<Rightarrow>
          (let st1 = st\<lparr>ws_last_failure_class := tc_failure_class tc\<rparr>
           in if tc_failure_class tc = ''approval_rejected'' \<or> contains_str ''approval'' (tc_failure_class tc)
              then st1\<lparr>ws_status := WsBlocked,
                       ws_blocked_reason := wf_first_non_empty [reason, blocked_reason_str ApprovalDenied]\<rparr>
              else if tc_failure_class tc = ''consumer_unavailable''
              then st1\<lparr>ws_status := WsBlocked, ws_blocked_reason := blocked_reason_str ConsumerUnavailable\<rparr>
              else if ws_attempt_count st1 < ws_max_attempts st1
              then st1\<lparr>ws_status := WsReady, ws_active_tool_call_id := [], ws_blocked_reason := []\<rparr>
              else st1\<lparr>ws_status := WsFailed\<rparr>)
      | _ \<Rightarrow> (case hint of None \<Rightarrow> st | Some h \<Rightarrow> st\<lparr>ws_status := h\<rparr>))"

definition derive_workflow_status :: "wf_step list \<Rightarrow> workflow_status" where
  "derive_workflow_status sts =
     (let has_running = list_ex (\<lambda>st. ws_status st \<in> {WsReady, WsWaitingDependency, WsRunning}) sts;
          has_blocked = list_ex (\<lambda>st. ws_status st = WsBlocked) sts;
          has_failed = list_ex (\<lambda>st. ws_status st = WsFailed) sts;
          has_cancelled = list_ex (\<lambda>st. ws_status st = WsCancelled) sts;
          side_effects = list_ex ws_side_effects_visible sts;
          all_complete = (sts \<noteq> [] \<and> list_all (\<lambda>st. ws_status st \<in> {WsCompleted, WsSkipped}) sts)
      in if has_running then WfRunning
         else if has_blocked then WfBlocked
         else if has_failed \<and> side_effects then WfPartialFailed
         else if has_failed then WfFailed
         else if has_cancelled then WfCancelled
         else if all_complete then WfCompleted
         else WfRunning)"

definition reconcile_status :: "timestamp \<Rightarrow> workflow \<Rightarrow> workflow" where
  "reconcile_status now w =
     (let w1 = (if wf_status w \<noteq> WfCancelled \<and> wf_status w \<noteq> WfInterrupted
                 then let st = derive_workflow_status (wf_steps w);
                          w2 = w\<lparr>wf_status := st\<rparr>
                      in if st \<in> {WfPartialFailed, WfFailed, WfCancelled, WfCompleted}
                         then w2\<lparr>wf_completed_at := Some now\<rparr> else w2
                 else w)
      in w1\<lparr>wf_updated_at := now\<rparr>)"

definition release_handoffs :: "string \<Rightarrow> handoff list \<Rightarrow> handoff list" where
  "release_handoffs sid = map (\<lambda>h. if ho_from h = sid then h\<lparr>ho_status := HandoffAvailable\<rparr> else h)"

definition apply_tool_call_result ::
  "(json \<Rightarrow> string) \<Rightarrow> timestamp \<Rightarrow> tool_call \<Rightarrow> wf_step_status option \<Rightarrow> string \<Rightarrow> workflow \<Rightarrow> workflow" where
  "apply_tool_call_result json_text now tc hint reason w =
     (let sid = tc_workflow_step_id tc;
          w1 = w\<lparr>wf_steps := change_step sid (\<lambda>st. step_result json_text tc hint reason (bound_step now tc st)) (wf_steps w)\<rparr>;
          w2 = (if workflow_step_by_id w sid \<noteq> None \<and> tc_status tc = ToolCompleted
                 then w1\<lparr>wf_handoffs := release_handoffs sid (wf_handoffs w1)\<rparr> else w1)
      in reconcile_status now w2)"

definition apply_computer_use_projection ::
  "timestamp \<Rightarrow> string \<Rightarrow> string \<Rightarrow> string list \<Rightarrow> artifact list \<Rightarrow> workflow \<Rightarrow> workflow" where
  "apply_computer_use_projection now sid session actions artifacts w =
     w\<lparr>wf_steps := change_step sid (\<lambda>st. st\<lparr>ws_computer_use_session_id := trim session,
            ws_computer_use_action_ids := actions, ws_computer_use_artifacts := artifacts,
            ws_updated_at := now\<rparr>) (wf_steps w),
        wf_updated_at := now\<rparr>"

section \<open>Planning\<close>

fun environment_scope :: "environment \<Rightarrow> string" where
  "environment_scope Prod = ''prod''"
| "environment_scope Test = ''test''"
| "environment_scope Embedded = ''test''"

fun pick_mcp_from :: "string \<Rightarrow> (string \<Rightarrow> string + string list) \<Rightarrow> mcp_planning_server list \<Rightarrow> string \<Rightarrow> timestamp \<Rightarrow> wf_step option" where
  "pick_mcp_from goal list_tools [] hex now = None"
| "pick_mcp_from goal list_tools (server # servers) hex now =
     (let tools = (if mps_tools server = []
                   then (case list_tools (mps_server_id server) of Inl _ \<Rightarrow> [] | Inr ts \<Rightarrow> ts)
                   else mps_tools server)
      in case tools of
           [] \<Rightarrow> pick_mcp_from goal list_tools servers hex now
         | tool # _ \<Rightarrow>
             (let tool_name = (if trim tool = [] then ''lookup'' else trim tool)
              in Some (wf_step_default\<lparr>ws_id := new_workflow_step_id hex, ws_title := ''Use MCP tool '' @ tool_name,
                   ws_consumer_kind := invocation_kind_as_str McpTool, ws_consumer_id := mps_server_id server,
                   ws_tool_name := tool_name, ws_input := Some (JObject [(''query'', JString goal)]),
                   ws_selection_rationale := ''Selected the first available MCP tool to satisfy the goal through the existing MCP runtime plane.'',
                   ws_approval_mode_expected := ''allow'', ws_max_attempts := 1, ws_created_at := now,
                   ws_updated_at := now\<rparr>)))"

definition pick_mcp_workflow_step :: "string \<Rightarrow> mcp_planning_source option \<Rightarrow> string \<Rightarrow> timestamp \<Rightarrow> wf_step option" where
  "pick_mcp_workflow_step goal src hex now =
     (case src of None \<Rightarrow> None | Some m \<Rightarrow> pick_mcp_from goal (mcp_list_tools m) (mcp_servers m) hex now)"

definition pick_skill_workflow_step :: "string \<Rightarrow> skill_planning_candidate list option \<Rightarrow> string \<Rightarrow> timestamp \<Rightarrow> wf_step option" where
  "pick_skill_workflow_step goal src hex now =
     (case src of
        None \<Rightarrow> None
      | Some skills \<Rightarrow>
          map_option (\<lambda>sk. wf_step_default\<lparr>ws_id := new_workflow_step_id hex,
              ws_title := ''Run executable skill '' @ spc_skill_id sk,
              ws_consumer_kind := invocation_kind_as_str SkillTool, ws_consumer_id := spc_skill_id sk,
              ws_tool_name := spc_skill_id sk, ws_input := Some (JObject [(''args'', JArray [JString goal])]),
              ws_selection_rationale := ''Selected the first available executable skill to continue the workflow without a new execution boundary.'',
              ws_approval_mode_expected := (if spc_approval_mode_expected sk = [] then ''allow'' else spc_approval_mode_expected sk),
              ws_max_attempts := 2, ws_created_at := now, ws_updated_at := now\<rparr>)
            (find (\<lambda>sk. spc_executable sk \<and> spc_available sk) skills))"

definition pick_computer_use_workflow_step :: "string \<Rightarrow> string \<Rightarrow> timestamp \<Rightarrow> wf_step option" where
  "pick_computer_use_workflow_step goal hex now =
     (let normalized = lower_ascii (trim goal)
      in if normalized = [] \<or>
            (\<not> contains_str ''browser'' normalized \<and> \<not> contains_str ''computer-use'' normalized \<and>
             \<not> contains_str ''computer use'' normalized) then None
         else Some (wf_step_default\<lparr>ws_id := new_workflow_step_id hex,
            ws_title := ''Inspect deterministic browser fixture'', ws_consumer_kind := ''computer_use'',
            ws_consumer_id := ''browser'', ws_tool_name := ''browser'',
            ws_input := Some (JObject
              [(''actions'', JArray [JObject [(''actionKind'', JString ''navigate''), (''url'', JString ''https://example.test/browser'')],
                                   JObject [(''actionKind'', JString ''snapshot'')]]),
               (''driverKind'', JString ''browser''), (''initialUrl'', JString ''https://example.test/browser'')]),
            ws_selection_rationale := ''Selected the browser-first computer-use plane to keep browser work on the normal runtime and workflow truth surfaces.'',
            ws_approval_mode_expected := ''allow'', ws_max_attempts := 1, ws_created_at := now, ws_updated_at := now\<rparr>))"

fun calendar_title :: "calendar_operation_class \<Rightarrow> string" where
  "calendar_title ListEvents = ''Inspect calendar events''"
| "calendar_title GetEvent = ''Inspect calendar event''"
| "calendar_title BusyFree = ''Inspect calendar availability''"
| "calendar_title CreateEvent = ''Create calendar event''"
| "calendar_title UpdateEvent = ''Update calendar event''"
| "calendar_title CancelEvent = ''Cancel calendar event''"
| "calendar_title UpdateAttendees = ''Run calendar operation''"

definition pick_calendar_workflow_step :: "calendar_action \<Rightarrow> string \<Rightarrow> timestamp \<Rightarrow> wf_step" where
  "pick_calendar_workflow_step act hex now =
     wf_step_default\<lparr>ws_id := new_workflow_step_id hex, ws_title := calendar_title (ca_operation_class act),
       ws_consumer_kind := ''calendar'',
       ws_consumer_id := (if trim (ca_integration_id act) = [] then ''calendar'' else trim (ca_integration_id act)),
       ws_tool_name := calendar_operation_str (ca_operation_class act), ws_input := ca_document act,
       ws_selection_rationale := ''Selected the calendar domain runtime so the workflow can execute calendar work on the normal workflow and delivery truth planes.'',
       ws_approval_mode_expected := ''allow'', ws_max_attempts := 1, ws_created_at := now, ws_updated_at := now\<rparr>"

fun mail_title :: "mail_operation_class \<Rightarrow> string" where
  "mail_title ListThreads = ''Inspect mail threads''"
| "mail_title GetThread = ''Inspect mail thread''"
| "mail_title GetMessage = ''Inspect mail message''"
| "mail_title ListDrafts = ''Inspect mail drafts''"
| "mail_title GetDraft = ''Inspect mail draft''"
| "mail_title CreateDraft = ''Create mail draft''"
| "mail_title UpdateDraft = ''Update mail draft''"
| "mail_title SendMessage = ''Send mail message''"
| "mail_title SendDraft = ''Send mail draft''"
| "mail_title ReplyMessage = ''Reply to mail message''"
| "mail_title ForwardMessage = ''Forward mail message''"
| "mail_title DownloadAttachment = ''Run mail operation''"

definition pick_mail_workflow_step :: "mail_action \<Rightarrow> string \<Rightarrow> timestamp \<Rightarrow> wf_step" where
  "pick_mail_workflow_step act hex now =
     wf_step_default\<lparr>ws_id := new_workflow_step_id hex, ws_title := mail_title (ma_operation_class act),
       ws_consumer_kind := ''mail'',
       ws_consumer_id := (if trim (ma_integration_id act) = [] then ''mail'' else trim (ma_integration_id act)),
       ws_tool_name := mail_operation_str (ma_operation_class act), ws_input := ma_document act,
       ws_selection_rationale := ''Selected the mail domain runtime so the workflow can execute mail work on the normal workflow and delivery truth planes.'',
       ws_approval_mode_expected := ''allow'', ws_max_attempts := 1, ws_created_at := now, ws_updated_at := now\<rparr>"

definition shell_step :: "string \<Rightarrow> string \<Rightarrow> capability \<Rightarrow> string \<Rightarrow> timestamp \<Rightarrow> wf_step" where
  "shell_step data_dir goal cap hex now =
     wf_step_default\<lparr>ws_id := new_workflow_step_id hex, ws_title := ''Run local shell capability'',
       ws_consumer_kind := invocation_kind_as_str LocalTool, ws_consumer_id := cap_id cap, ws_tool_name := ''shell'',
       ws_input := Some (JObject [(''cmd'', JString (''printf %s '' @ shell_escape goal)), (''cwd'', JString data_dir)]),
       ws_selection_rationale := ''Selected a local shell capability because no better allow-mode executable consumer was available.'',
       ws_approval_mode_expected := ''ask'', ws_max_attempts := 1, ws_created_at := now, ws_updated_at := now\<rparr>"

definition exec_step :: "string \<Rightarrow> string \<Rightarrow> capability \<Rightarrow> string \<Rightarrow> timestamp \<Rightarrow> wf_step" where
  "exec_step data_dir goal cap hex now =
     wf_step_default\<lparr>ws_id := new_workflow_step_id hex, ws_title := ''Run local exec capability'',
       ws_consumer_kind := invocation_kind_as_str LocalTool, ws_consumer_id := cap_id cap, ws_tool_name := ''exec'',
       ws_input := Some (JObject [(''args'', JArray [JString goal]), (''command'', JString ''echo''), (''cwd'', JString data_dir)]),
       ws_selection_rationale := ''Selected a local exec capability because no better allow-mode executable consumer was available.'',
       ws_approval_mode_expected := ''ask'', ws_max_attempts := 1, ws_created_at := now, ws_updated_at := now\<rparr>"

fun pick_local_from :: "string \<Rightarrow> string \<Rightarrow> capability list \<Rightarrow> string \<Rightarrow> timestamp \<Rightarrow> wf_step option" where
  "pick_local_from data_dir goal [] hex now = None"
| "pick_local_from data_dir goal (cap # caps) hex now =
     (if cap_status cap = CapFailed then pick_local_from data_dir goal caps hex now
      else if cap_kind cap = ''shell'' then Some (shell_step data_dir goal cap hex now)
      else if cap_kind cap = ''exec'' then Some (exec_step data_dir goal cap hex now)
      else pick_local_from data_dir goal caps hex now)"

definition pick_local_workflow_step :: "string \<Rightarrow> string \<Rightarrow> supervisor option \<Rightarrow> string \<Rightarrow> timestamp \<Rightarrow> wf_step option" where
  "pick_local_workflow_step data_dir goal supv hex now =
     (case supv of None \<Rightarrow> None | Some s \<Rightarrow> pick_local_from data_dir goal (list_capabilities s) hex now)"

definition place_steps :: "timestamp \<Rightarrow> string \<Rightarrow> wf_step list \<Rightarrow> wf_step list" where
  "place_steps now wid sts =
     map (\<lambda>(i, st). st\<lparr>ws_workflow_id := wid, ws_position := int (i + 1), ws_status := WsPlanned, ws_created_at := now,
            ws_updated_at := now, ws_max_attempts := max (ws_max_attempts st) 1\<rparr>) (enumerate 0 sts)"

definition chain_dependency :: "string \<Rightarrow> string \<Rightarrow> wf_step \<Rightarrow> wf_step \<Rightarrow> string \<Rightarrow> dependency" where
  "chain_dependency hex wid a b reason =
     \<lparr>dep_id = new_workflow_dependency_id hex, dep_workflow_id = wid, dep_from = ws_id a, dep_to = ws_id b,
      dep_type = DepSuccess, dep_reason = reason\<rparr>"

definition chain_handoff :: "string \<Rightarrow> string \<Rightarrow> wf_step \<Rightarrow> wf_step \<Rightarrow> string \<Rightarrow> string \<Rightarrow> handoff" where
  "chain_handoff hex wid a b summary path =
     \<lparr>ho_id = new_workflow_handoff_id hex, ho_workflow_id = wid, ho_from = ws_id a, ho_to = ws_id b,
      ho_status = HandoffPending, ho_payload_summary = summary, ho_source_path = path, ho_consumed_at = None,
      ho_invalid_reason = []\<rparr>"

text \<open>The second half of planning: positions, owners and the dependency ids of the steps.\<close>

definition finish_plan :: "timestamp \<Rightarrow> workflow \<Rightarrow> workflow" where
  "finish_plan now w =
     (let deps = map (\<lambda>d. d\<lparr>dep_workflow_id := wf_id w\<rparr>) (wf_dependencies w)
      in w\<lparr>wf_status := WfPlanned, wf_dependencies := deps,
           wf_handoffs := map (\<lambda>h. h\<lparr>ho_workflow_id := wf_id w\<rparr>) (wf_handoffs w),
           wf_steps := map (\<lambda>st. st\<lparr>ws_dependency_ids := map dep_id (filter (\<lambda>d. dep_to d = ws_id st) deps)\<rparr>)
             (place_steps now (wf_id w) (wf_steps w))\<rparr>)"

text \<open>
  What is available: the environment and data directory of the configuration, the capability
  supervisor, the skills and the MCP servers. Each identifier has a random token of its own.
\<close>

record planning =
  pl_environment :: environment
  pl_data_dir :: string
  pl_capabilities :: "supervisor option"
  pl_skills :: "skill_planning_candidate list option"
  pl_mcp :: "mcp_planning_source option"

text \<open>The choice among the consumers found.\<close>

definition choose_plan ::
  "timestamp \<Rightarrow> (nat \<Rightarrow> string) \<Rightarrow> workflow \<Rightarrow> wf_step option \<Rightarrow> wf_step option \<Rightarrow> wf_step option \<Rightarrow> wf_step option \<Rightarrow> workflow" where
  "choose_plan now hex w computer_use mcp_step skill local =
     (case (computer_use, mcp_step, skill, local) of
            (Some cu, _, Some sk, _) \<Rightarrow> finish_plan now
              (w\<lparr>wf_plan_summary := ''Plan one browser-first computer-use step followed by one executable skill handoff.'',
                 wf_steps := [cu, sk],
                 wf_dependencies := [chain_dependency (hex 5) (wf_id w) cu sk
                   ''workflow consumes browser evidence before local continuation''],
                 wf_handoffs := [chain_handoff (hex 6) (wf_id w) cu sk ''Browser evidence summary'' ''step.computerUseArtifacts'']\<rparr>)
          | (None, Some mcp, Some sk, _) \<Rightarrow> finish_plan now
              (w\<lparr>wf_plan_summary := ''Plan one MCP step followed by one executable skill handoff.'',
                 wf_steps := [mcp, sk],
                 wf_dependencies := [chain_dependency (hex 5) (wf_id w) mcp sk
                   ''workflow consumes MCP output before local continuation''],
                 wf_handoffs := [chain_handoff (hex 6) (wf_id w) mcp sk ''MCP lookup result summary'' ''step.output.result'']\<rparr>)
          | (None, None, Some sk, _) \<Rightarrow> finish_plan now
              (w\<lparr>wf_plan_summary := ''Plan one executable skill step.'', wf_steps := [sk]\<rparr>)
          | (Some cu, _, None, _) \<Rightarrow> finish_plan now
              (w\<lparr>wf_plan_summary := ''Plan one browser-first computer-use step.'', wf_steps := [cu]\<rparr>)
          | (None, Some mcp, None, _) \<Rightarrow> finish_plan now
              (w\<lparr>wf_plan_summary := ''Plan one MCP tool step.'', wf_steps := [mcp]\<rparr>)
          | (None, None, None, Some loc) \<Rightarrow> finish_plan now
              (w\<lparr>wf_plan_summary := ''Plan one local tool step.'', wf_steps := [loc]\<rparr>)
          | (None, None, None, None) \<Rightarrow>
              w\<lparr>wf_status := WfPlanningFailed, wf_failure_summary :=
                 ''No executable workflow consumers are available for the current daemon state.''\<rparr>)"

definition plan_workflow :: "timestamp \<Rightarrow> (nat \<Rightarrow> string) \<Rightarrow> planning \<Rightarrow> run \<Rightarrow> create_workflow_input \<Rightarrow> workflow" where
  "plan_workflow now hex pl run inp =
     (let goal = (if trim (cwi_goal inp) = [] then trim (run_goal run) else trim (cwi_goal inp));
          wid = new_workflow_id (hex 0);
          w = workflow_default\<lparr>wf_id := wid, wf_run_id := run_id run,
                wf_environment_scope := environment_scope (pl_environment pl), wf_goal := goal,
                wf_status := WfPlanning, wf_created_at := now, wf_updated_at := now\<rparr>
      in case cwi_calendar_action inp of
           Some act \<Rightarrow>
             w\<lparr>wf_plan_summary := ''Plan one calendar domain step on the normal workflow runtime.'',
               wf_steps := place_steps now wid [pick_calendar_workflow_step act (hex 1) now], wf_status := WfPlanned\<rparr>
         | None \<Rightarrow>
         (case cwi_mail_action inp of
           Some act \<Rightarrow>
             w\<lparr>wf_plan_summary := ''Plan one mail domain step on the normal workflow runtime.'',
               wf_steps := place_steps now wid [pick_mail_workflow_step act (hex 1) now], wf_status := WfPlanned\<rparr>
         | None \<Rightarrow>
           choose_plan now hex w (pick_computer_use_workflow_step goal (hex 3) now)
             (pick_mcp_workflow_step goal (pl_mcp pl) (hex 1) now)
             (pick_skill_workflow_step goal (pl_skills pl) (hex 2) now)
             (pick_local_workflow_step (pl_data_dir pl) goal (pl_capabilities pl) (hex 4) now)))"

section \<open>The manager\<close>

record wf_manager =
  wfm_by_id :: "string \<rightharpoonup> workflow"
  wfm_ids :: "string list"

type_synonym 'a wf_op = "(wf_manager, orchestration_error, 'a) op"

definition wf_manager_new :: wf_manager where
  "wf_manager_new = \<lparr>wfm_by_id = Map.empty, wfm_ids = []\<rparr>"

definition store_workflow :: "workflow \<Rightarrow> wf_manager \<Rightarrow> wf_manager" where
  "store_workflow w m = m\<lparr>wfm_by_id := (wfm_by_id m)(wf_id w \<mapsto> w), wfm_ids := wfm_ids m @ [wf_id w]\<rparr>"

definition create_workflow :: "timestamp \<Rightarrow> string \<Rightarrow> string \<Rightarrow> create_workflow_input \<Rightarrow> workflow wf_op" where
  "create_workflow now hex rid inp m =
     (let w = workflow_default\<lparr>wf_id := new_workflow_id hex, wf_run_id := trim rid, wf_goal := cwi_goal inp,
                wf_status := WfPlanning, wf_created_at := now, wf_updated_at := now\<rparr>
      in (Inr w, store_workflow w m))"

definition plan :: "timestamp \<Rightarrow> (nat \<Rightarrow> string) \<Rightarrow> planning \<Rightarrow> run \<Rightarrow> create_workflow_input \<Rightarrow> wf_manager \<Rightarrow> workflow \<times> wf_manager" where
  "plan now hex pl run inp m = (let w = plan_workflow now hex pl run inp in (w, store_workflow w m))"

definition list_workflows :: "wf_manager \<Rightarrow> workflow list" where
  "list_workflows m = List.map_filter (wfm_by_id m) (wfm_ids m)"

definition get_workflow :: "string \<Rightarrow> wf_manager \<Rightarrow> workflow option" where
  "get_workflow wid m = wfm_by_id m wid"

definition add_step :: "timestamp \<Rightarrow> string \<Rightarrow> string \<Rightarrow> add_step_input \<Rightarrow> wf_step wf_op" where
  "add_step now hex wid inp m =
     (if trim (asi_title inp) = [] then (Inl WfTitleRequired, m)
      else if trim (asi_consumer_kind inp) = [] then (Inl ConsumerKindRequired, m)
      else if trim (asi_consumer_id inp) = [] then (Inl ConsumerIDRequired, m)
      else case wfm_by_id m wid of
             None \<Rightarrow> (Inl WorkflowNotFound, m)
           | Some w \<Rightarrow>
               (let st = wf_step_default\<lparr>ws_id := new_workflow_step_id hex, ws_workflow_id := wid,
                      ws_title := asi_title inp,
                      ws_position := (if asi_position inp > 0 then asi_position inp else int (length (wf_steps w) + 1)),
                      ws_consumer_kind := asi_consumer_kind inp, ws_consumer_id := asi_consumer_id inp,
                      ws_tool_name := asi_tool_name inp, ws_input := asi_input inp, ws_status := WsPlanned,
                      ws_approval_mode_expected := asi_approval_mode_expected inp, ws_attempt_count := 0,
                      ws_max_attempts := (if asi_max_attempts inp > 0 then asi_max_attempts inp else 1),
                      ws_created_at := now, ws_updated_at := now\<rparr>
                in (Inr st, m\<lparr>wfm_by_id := (wfm_by_id m)(wid \<mapsto>
                      w\<lparr>wf_steps := wf_steps w @ [st], wf_updated_at := now\<rparr>)\<rparr>)))"

definition add_dependency :: "timestamp \<Rightarrow> string \<Rightarrow> string \<Rightarrow> add_dependency_input \<Rightarrow> dependency wf_op" where
  "add_dependency now hex wid inp m =
     (case wfm_by_id m wid of
        None \<Rightarrow> (Inl WorkflowNotFound, m)
      | Some w \<Rightarrow>
          if trim (adi_from inp) = [] \<or> trim (adi_to inp) = [] then (Inl StepIDRequired, m)
          else if workflow_step_by_id w (adi_from inp) = None \<or> workflow_step_by_id w (adi_to inp) = None
          then (Inl WfStepNotFound, m)
          else (let d = \<lparr>dep_id = new_workflow_dependency_id hex, dep_workflow_id = wid, dep_from = adi_from inp,
                         dep_to = adi_to inp, dep_type = adi_type inp, dep_reason = adi_reason inp\<rparr>
                in (Inr d, m\<lparr>wfm_by_id := (wfm_by_id m)(wid \<mapsto>
                      w\<lparr>wf_steps := change_step (dep_to d)
                            (\<lambda>st. st\<lparr>ws_dependency_ids := ws_dependency_ids st @ [dep_id d]\<rparr>) (wf_steps w),
                        wf_dependencies := wf_dependencies w @ [d], wf_updated_at := now\<rparr>)\<rparr>)))"

definition add_handoff :: "timestamp \<Rightarrow> string \<Rightarrow> string \<Rightarrow> add_handoff_input \<Rightarrow> handoff wf_op" where
  "add_handoff now hex wid inp m =
     (if trim (ahi_from inp) = [] \<or> trim (ahi_to inp) = [] then (Inl StepIDRequired, m)
      else case wfm_by_id m wid of
             None \<Rightarrow> (Inl WorkflowNotFound, m)
           | Some w \<Rightarrow>
               if workflow_step_by_id w (ahi_from inp) = None \<or> workflow_step_by_id w (ahi_to inp) = None
               then (Inl WfStepNotFound, m)
               else (let h = \<lparr>ho_id = new_workflow_handoff_id hex, ho_workflow_id = wid, ho_from = ahi_from inp,
                              ho_to = ahi_to inp, ho_status = HandoffPending,
                              ho_payload_summary = ahi_payload_summary inp, ho_source_path = ahi_source_path inp,
                              ho_consumed_at = None, ho_invalid_reason = []\<rparr>
                     in (Inr h, m\<lparr>wfm_by_id := (wfm_by_id m)(wid \<mapsto>
                           w\<lparr>wf_handoffs := wf_handoffs w @ [h], wf_updated_at := now\<rparr>)\<rparr>)))"

text \<open>The operations that apply a transformation to the stored copy.\<close>

definition update_workflow :: "(workflow \<Rightarrow> workflow) \<Rightarrow> string \<Rightarrow> workflow wf_op" where
  "update_workflow f wid m =
     (case wfm_by_id m wid of
        None \<Rightarrow> (Inl WorkflowNotFound, m)
      | Some w \<Rightarrow> (Inr (f w), m\<lparr>wfm_by_id := (wfm_by_id m)(wid \<mapsto> f w)\<rparr>))"

definition manager_initialize_execution :: "string \<Rightarrow> timestamp \<Rightarrow> workflow wf_op" where
  "manager_initialize_execution wid now = update_workflow (initialize_execution now) wid"

definition manager_advance_ready_steps :: "string \<Rightarrow> timestamp \<Rightarrow> (workflow \<times> bool) wf_op" where
  "manager_advance_ready_steps wid now m =
     (case wfm_by_id m wid of
        None \<Rightarrow> (Inl WorkflowNotFound, m)
      | Some w \<Rightarrow> (Inr (advance_ready_steps now w),
                   m\<lparr>wfm_by_id := (wfm_by_id m)(wid \<mapsto> fst (advance_ready_steps now w))\<rparr>))"

definition manager_start_step_attempt :: "string \<Rightarrow> string \<Rightarrow> string \<Rightarrow> timestamp \<Rightarrow> workflow wf_op" where
  "manager_start_step_attempt wid sid runtime_step now = update_workflow (start_step_attempt now sid runtime_step) wid"

definition manager_bind_tool_call :: "string \<Rightarrow> string \<Rightarrow> tool_call \<Rightarrow> timestamp \<Rightarrow> workflow wf_op" where
  "manager_bind_tool_call wid sid tc now = update_workflow (bind_tool_call now sid tc) wid"

definition manager_apply_tool_call_result ::
  "(json \<Rightarrow> string) \<Rightarrow> string \<Rightarrow> tool_call \<Rightarrow> wf_step_status option \<Rightarrow> string \<Rightarrow> timestamp \<Rightarrow> workflow wf_op" where
  "manager_apply_tool_call_result json_text wid tc hint reason now =
     update_workflow (apply_tool_call_result json_text now tc hint reason) wid"

definition manager_reconcile_status :: "string \<Rightarrow> timestamp \<Rightarrow> workflow wf_op" where
  "manager_reconcile_status wid now = update_workflow (reconcile_status now) wid"

definition manager_apply_computer_use_projection ::
  "string \<Rightarrow> string \<Rightarrow> string \<Rightarrow> string list \<Rightarrow> artifact list \<Rightarrow> timestamp \<Rightarrow> workflow wf_op" where
  "manager_apply_computer_use_projection wid sid session actions artifacts now =
     update_workflow (apply_computer_use_projection now sid session actions artifacts) wid"

end
