(* ===== verification/Orchestration_Properties.thy ===== *)
theory Orchestration_Properties
  imports Orchestration
begin

text \<open>
  Theorems on workflows: dependencies are respected and attempts bounded over any execution, a graph
  without cycles never gets stuck while its steps succeed, and which steps wait forever; the shape of
  the planner's workflows; the manager as a registry.
\<close>

section \<open>Steps of a workflow\<close>

lemma change_step_ids: "(\<And>st. ws_id (f st) = ws_id st) \<Longrightarrow> map ws_id (change_step sid f sts) = map ws_id sts"
  by (induction sts) auto

lemma change_step_eq_map:
  "distinct (map ws_id sts) \<Longrightarrow> change_step sid f sts = map (\<lambda>st. if ws_id st = sid then f st else st) sts"
  by (induction sts) (auto intro!: map_idI [symmetric] simp: image_iff)

lemma same_step:
  "distinct (map ws_id sts) \<Longrightarrow> a \<in> set sts \<Longrightarrow> b \<in> set sts \<Longrightarrow> ws_id a = ws_id b \<Longrightarrow> a = b"
  by (auto simp: distinct_map inj_on_def)

lemma step_by_id_eq:
  "distinct (map ws_id (wf_steps w)) \<Longrightarrow>
   workflow_step_by_id w sid = Some st \<longleftrightarrow> st \<in> set (wf_steps w) \<and> ws_id st = sid"
proof
  assume "workflow_step_by_id w sid = Some st"
  then show "st \<in> set (wf_steps w) \<and> ws_id st = sid" by (auto simp: workflow_step_by_id_def find_Some_iff)
next
  assume d: "distinct (map ws_id (wf_steps w))" and st: "st \<in> set (wf_steps w) \<and> ws_id st = sid"
  then obtain x where x: "workflow_step_by_id w sid = Some x"
    by (cases "workflow_step_by_id w sid") (auto simp: workflow_step_by_id_def find_None_iff)
  then have "x \<in> set (wf_steps w)" "ws_id x = sid" by (auto simp: workflow_step_by_id_def find_Some_iff)
  with d st have "x = st" by (auto simp: distinct_map inj_on_def)
  with x show "workflow_step_by_id w sid = Some st" by simp
qed

lemma reconcile_keeps [simp]:
  "wf_steps (reconcile_status now w) = wf_steps w" "wf_dependencies (reconcile_status now w) = wf_dependencies w"
  "wf_handoffs (reconcile_status now w) = wf_handoffs w" "wf_id (reconcile_status now w) = wf_id w"
  by (simp_all add: reconcile_status_def Let_def)

lemma step_result_keeps [simp]:
  "ws_id (step_result jt tc hint reason st) = ws_id st"
  "ws_max_attempts (step_result jt tc hint reason st) = ws_max_attempts st"
  "ws_attempt_count (step_result jt tc hint reason st) = ws_attempt_count st"
  by (simp_all add: step_result_def Let_def split: tool_call_status.split option.split)

lemma bound_step_keeps [simp]:
  "ws_id (bound_step now tc st) = ws_id st" "ws_max_attempts (bound_step now tc st) = ws_max_attempts st"
  "ws_attempt_count (bound_step now tc st) = ws_attempt_count st" "ws_status (bound_step now tc st) = ws_status st"
  by (simp_all add: bound_step_def)

lemma advance_step_keeps:
  "ws_id (fst (advance_step now b st)) = ws_id st" "ws_max_attempts (fst (advance_step now b st)) = ws_max_attempts st"
  "ws_attempt_count (fst (advance_step now b st)) = ws_attempt_count st"
  by (simp_all add: advance_step_def)

lemma advance_steps:
  "wf_steps (fst (advance_ready_steps now w)) =
     map (\<lambda>st. fst (advance_step now (dependencies_missing w st \<noteq> []) st)) (wf_steps w)"
  "wf_dependencies (fst (advance_ready_steps now w)) = wf_dependencies w"
  "wf_handoffs (fst (advance_ready_steps now w)) = wf_handoffs w"
  by (simp_all add: advance_ready_steps_def Let_def)

section \<open>Executions\<close>

text \<open>
  One step of an execution, as the daemon drives it: only ready steps are started (the label says which),
  only running and blocked steps get results, and a hint never makes a step wait or ready again.
\<close>

inductive wf_exec :: "(json \<Rightarrow> string) \<Rightarrow> workflow \<Rightarrow> string option \<Rightarrow> workflow \<Rightarrow> bool" for jt where
  advanced: "wf_exec jt w None (fst (advance_ready_steps now w))"
| begun: "workflow_step_by_id w sid = Some st \<Longrightarrow> ws_status st = WsReady \<Longrightarrow>
     wf_exec jt w (Some sid) (start_step_attempt now sid rs w)"
| bound: "wf_exec jt w None (bind_tool_call now sid tc w)"
| resulted: "workflow_step_by_id w (tc_workflow_step_id tc) = Some st \<Longrightarrow> ws_status st \<in> {WsRunning, WsBlocked} \<Longrightarrow>
     hint \<notin> {Some WsPlanned, Some WsWaitingDependency, Some WsReady} \<Longrightarrow>
     wf_exec jt w None (apply_tool_call_result jt now tc hint reason w)"
| reconciled: "wf_exec jt w None (reconcile_status now w)"
| projected: "wf_exec jt w None (apply_computer_use_projection now sid session actions artifacts w)"

inductive wf_run :: "(json \<Rightarrow> string) \<Rightarrow> workflow \<Rightarrow> string list \<Rightarrow> workflow \<Rightarrow> bool" for jt where
  here: "wf_run jt w [] w"
| more: "wf_run jt w ls w' \<Longrightarrow> wf_exec jt w' l w'' \<Longrightarrow> wf_run jt w (ls @ (case l of None \<Rightarrow> [] | Some s \<Rightarrow> [s])) w''"

text \<open>What one step of an execution does to each step of the workflow.\<close>

definition step_change :: "workflow \<Rightarrow> string option \<Rightarrow> wf_step \<Rightarrow> wf_step \<Rightarrow> bool" where
  "step_change w l a b \<longleftrightarrow> ws_id b = ws_id a \<and> ws_max_attempts b = ws_max_attempts a \<and>
     (if l = Some (ws_id a)
      then ws_status a = WsReady \<and> ws_status b = WsRunning \<and> ws_attempt_count b = wrap_i64 (ws_attempt_count a + 1)
      else ws_attempt_count b = ws_attempt_count a \<and>
        (ws_status b = ws_status a \<or>
         ws_status a \<in> {WsPlanned, WsWaitingDependency} \<and>
           ws_status b = (if dependencies_missing w a \<noteq> [] then WsWaitingDependency else WsReady) \<or>
         ws_status a \<in> {WsRunning, WsBlocked} \<and> ws_status b \<notin> {WsPlanned, WsWaitingDependency} \<and>
           (ws_status b = WsReady \<longrightarrow> ws_attempt_count a < ws_max_attempts a)))"

lemma step_result_status:
  assumes "ws_status a \<in> {WsRunning, WsBlocked}" and "hint \<notin> {Some WsPlanned, Some WsWaitingDependency, Some WsReady}"
  shows "ws_status (step_result jt tc hint reason a) \<notin> {WsPlanned, WsWaitingDependency} \<and>
    (ws_status (step_result jt tc hint reason a) = WsReady \<longrightarrow> ws_attempt_count a < ws_max_attempts a)"
  using assms by (cases "tc_status tc"; cases hint) (auto simp: step_result_def Let_def)

lemma change_step_pairs:
  assumes "distinct (map ws_id sts)" and "\<And>a. a \<in> set sts \<Longrightarrow> P a (if ws_id a = sid then f a else a)"
  shows "list_all2 P sts (change_step sid f sts)"
  using assms by (simp add: change_step_eq_map list_all2_conv_all_nth)

lemma exec_changes:
  assumes "wf_exec jt w l w'" and d: "distinct (map ws_id (wf_steps w))"
  shows "list_all2 (step_change w l) (wf_steps w) (wf_steps w') \<and> wf_dependencies w' = wf_dependencies w"
  using assms(1)
proof cases
  case (advanced now)
  then show ?thesis
    by (auto simp: advance_steps list_all2_conv_all_nth step_change_def advance_step_def)
next
  case (begun sid st now rs)
  have "step_change w l a (if ws_id a = sid then a\<lparr>ws_runtime_step_id := rs,
      ws_attempt_count := wrap_i64 (ws_attempt_count a + 1), ws_status := WsRunning, ws_updated_at := now\<rparr> else a)"
    if "a \<in> set (wf_steps w)" for a
  proof (cases "ws_id a = sid")
    case True
    with begun that have "a = st" by (auto simp: step_by_id_eq [OF d] intro: same_step [OF d])
    with True begun show ?thesis by (simp add: step_change_def)
  qed (use begun in \<open>auto simp: step_change_def\<close>)
  then show ?thesis using begun by (auto simp: start_step_attempt_def intro!: change_step_pairs [OF d])
next
  case (bound now sid tc)
  then show ?thesis by (auto simp: bind_tool_call_def step_change_def intro!: change_step_pairs [OF d])
next
  case (resulted tc st hint now reason)
  have "step_change w None a (if ws_id a = tc_workflow_step_id tc then step_result jt tc hint reason (bound_step now tc a) else a)"
    if "a \<in> set (wf_steps w)" for a
  proof (cases "ws_id a = tc_workflow_step_id tc")
    case True
    with resulted that have "a = st" by (auto simp: step_by_id_eq [OF d] intro: same_step [OF d])
    with True resulted step_result_status [of "bound_step now tc a" hint jt tc reason]
    show ?thesis by (auto simp: step_change_def)
  qed (simp add: step_change_def)
  then show ?thesis
    using resulted by (auto simp: apply_tool_call_result_def Let_def intro!: change_step_pairs [OF d])
next
  case (reconciled now)
  then show ?thesis by (simp add: list_all2_conv_all_nth step_change_def)
next
  case (projected now sid session actions artifacts)
  then show ?thesis by (auto simp: apply_computer_use_projection_def step_change_def intro!: change_step_pairs [OF d])
qed

text \<open>The identity of the steps and the graph never change.\<close>

definition same_graph :: "workflow \<Rightarrow> workflow \<Rightarrow> bool" where
  "same_graph w w' \<longleftrightarrow> map ws_id (wf_steps w') = map ws_id (wf_steps w) \<and>
     map ws_max_attempts (wf_steps w') = map ws_max_attempts (wf_steps w) \<and> wf_dependencies w' = wf_dependencies w"

lemma changes_same_graph:
  assumes "list_all2 (step_change w l) sts sts'"
  shows "map ws_id sts' = map ws_id sts" and "map ws_max_attempts sts' = map ws_max_attempts sts"
  using assms by (induction) (simp_all add: step_change_def)

lemma exec_same_graph: "wf_exec jt w l w' \<Longrightarrow> distinct (map ws_id (wf_steps w)) \<Longrightarrow> same_graph w w'"
  using exec_changes changes_same_graph by (fastforce simp: same_graph_def)

lemma changed_step:
  assumes "list_all2 (step_change w l) sts sts'" and "b \<in> set sts'"
  obtains a where "a \<in> set sts" and "step_change w l a b"
  using assms unfolding list_all2_conv_all_nth in_set_conv_nth by metis

lemma changed_to:
  assumes "list_all2 (step_change w l) sts sts'" and "a \<in> set sts"
  obtains b where "b \<in> set sts'" and "step_change w l a b"
  using assms unfolding list_all2_conv_all_nth in_set_conv_nth by metis

section \<open>The invariant of executions\<close>

definition waits :: "wf_step \<Rightarrow> bool" where
  "waits st \<longleftrightarrow> ws_status st \<in> {WsPlanned, WsWaitingDependency}"

definition attempts_ok :: "wf_step \<Rightarrow> bool" where
  "attempts_ok st \<longleftrightarrow> 0 \<le> ws_attempt_count st \<and> ws_attempt_count st \<le> ws_max_attempts st \<and> ws_max_attempts st < 2 ^ 63 \<and>
     ((ws_status st = WsReady \<or> waits st) \<longrightarrow> ws_attempt_count st < ws_max_attempts st)"

definition order_ok :: "workflow \<Rightarrow> bool" where
  "order_ok w \<longleftrightarrow> (\<forall>d \<in> set (wf_dependencies w). \<forall>st \<in> set (wf_steps w).
     dep_type d = DepSuccess \<longrightarrow> dep_to d = ws_id st \<longrightarrow> \<not> waits st \<longrightarrow>
     (\<exists>up \<in> set (wf_steps w). ws_id up = dep_from d \<and> ws_status up = WsCompleted))"

definition exec_inv :: "workflow \<Rightarrow> bool" where
  "exec_inv w \<longleftrightarrow> distinct (map ws_id (wf_steps w)) \<and> (\<forall>st \<in> set (wf_steps w). attempts_ok st) \<and> order_ok w"

lemma completed_stays: "step_change w l a b \<Longrightarrow> ws_status a = WsCompleted \<Longrightarrow> ws_status b = WsCompleted"
  by (auto simp: step_change_def split: if_splits)

lemma attempts_step: "step_change w l a b \<Longrightarrow> attempts_ok a \<Longrightarrow> attempts_ok b"
  by (auto simp: step_change_def attempts_ok_def waits_def wrap_i64_same split: if_splits)

lemma met_success:
  assumes "distinct (map ws_id (wf_steps w))" and "dependencies_missing w st = []"
    and "d \<in> set (wf_dependencies w)" and "dep_type d = DepSuccess" and "dep_to d = ws_id st"
  shows "\<exists>up \<in> set (wf_steps w). ws_id up = dep_from d \<and> ws_status up = WsCompleted"
proof -
  have "dependency_met w d" using assms(2,3,5) by (auto simp: dependencies_missing_def filter_empty_conv)
  then show ?thesis using assms(1,4) by (auto simp: dependency_met_def step_by_id_eq split: option.splits)
qed

lemma exec_order:
  assumes "exec_inv w" and "wf_exec jt w l w'"
  shows "order_ok w'"
proof -
  from assms(1) have d: "distinct (map ws_id (wf_steps w))" and ord: "order_ok w" by (simp_all add: exec_inv_def)
  from exec_changes [OF assms(2) d] have ch: "list_all2 (step_change w l) (wf_steps w) (wf_steps w')"
    and deps: "wf_dependencies w' = wf_dependencies w" by simp_all
  show ?thesis
    unfolding order_ok_def
  proof (intro ballI impI)
    fix dp b
    assume dp: "dp \<in> set (wf_dependencies w')" "dep_type dp = DepSuccess" "dep_to dp = ws_id b"
      and b: "b \<in> set (wf_steps w')" "\<not> waits b"
    from ch b(1) obtain a where a: "a \<in> set (wf_steps w)" "step_change w l a b" by (rule changed_step)
    then have to: "dep_to dp = ws_id a" using dp(3) by (simp add: step_change_def)
    have "\<exists>up \<in> set (wf_steps w). ws_id up = dep_from dp \<and> ws_status up = WsCompleted"
    proof (cases "waits a")
      case True
      with a(2) b(2) have "dependencies_missing w a = []" by (auto simp: step_change_def waits_def split: if_splits)
      with met_success [OF d] dp(1,2) to deps show ?thesis by simp
    next
      case False
      with ord dp(1,2) to deps a(1) show ?thesis by (auto simp: order_ok_def)
    qed
    then obtain up where up: "up \<in> set (wf_steps w)" "ws_id up = dep_from dp" "ws_status up = WsCompleted" by blast
    from ch up(1) obtain up' where "up' \<in> set (wf_steps w')" "step_change w l up up'" by (rule changed_to)
    with up completed_stays show "\<exists>up \<in> set (wf_steps w'). ws_id up = dep_from dp \<and> ws_status up = WsCompleted"
      by (metis step_change_def)
  qed
qed

lemma exec_inv_step:
  assumes "exec_inv w" and "wf_exec jt w l w'"
  shows "exec_inv w'"
proof -
  from assms(1) have d: "distinct (map ws_id (wf_steps w))" by (simp add: exec_inv_def)
  note ch = exec_changes [OF assms(2) d]
  have "attempts_ok b" if "b \<in> set (wf_steps w')" for b
    using changed_step [OF conjunct1 [OF ch] that] attempts_step assms(1) by (metis exec_inv_def)
  then show ?thesis
    using exec_order [OF assms] exec_same_graph [OF assms(2) d] d by (simp add: exec_inv_def same_graph_def)
qed

lemma run_inv: "wf_run jt w ls w' \<Longrightarrow> exec_inv w \<Longrightarrow> exec_inv w'"
  by (induction rule: wf_run.induct) (auto intro: exec_inv_step)

lemma run_same_graph: "wf_run jt w ls w' \<Longrightarrow> exec_inv w \<Longrightarrow> same_graph w w'"
proof (induction rule: wf_run.induct)
  case (more w ls w' l w'')
  then have "same_graph w' w''" using run_inv [OF more.hyps(1)] exec_same_graph by (auto simp: exec_inv_def)
  with more show ?case by (simp add: same_graph_def)
qed (simp add: same_graph_def)

section \<open>Where executions start\<close>

text \<open>A workflow as it is planned: distinct steps that nobody has tried, each with an attempt to use.\<close>

definition planned :: "workflow \<Rightarrow> bool" where
  "planned w \<longleftrightarrow> distinct (map ws_id (wf_steps w)) \<and>
     list_all (\<lambda>st. ws_status st = WsPlanned \<and> ws_attempt_count st = 0 \<and> 1 \<le> ws_max_attempts st \<and>
       ws_max_attempts st < 2 ^ 63) (wf_steps w)"

lemma initialized_steps:
  "wf_steps (initialize_execution now w) = map (\<lambda>st. st\<lparr>ws_status :=
     (if dependencies_missing w st \<noteq> [] then WsWaitingDependency else WsReady), ws_updated_at := now\<rparr>) (wf_steps w)"
  "wf_dependencies (initialize_execution now w) = wf_dependencies w"
  by (simp_all add: initialize_execution_def Let_def dependencies_missing_def dependency_met_def workflow_step_by_id_def)

lemma success_missing:
  assumes "planned w" and "d \<in> set (wf_dependencies w)" and "dep_type d = DepSuccess" and "dep_to d = ws_id st"
  shows "dependencies_missing w st \<noteq> []"
proof
  assume "dependencies_missing w st = []"
  from met_success [OF _ this assms(2-4)] assms(1) show False by (auto simp: planned_def list_all_iff)
qed

lemma initialized_inv: "planned w \<Longrightarrow> exec_inv (initialize_execution now w)"
  unfolding exec_inv_def
proof (intro conjI)
  assume p: "planned w"
  show "distinct (map ws_id (wf_steps (initialize_execution now w)))"
    using p by (simp add: initialized_steps planned_def comp_def)
  show "\<forall>st \<in> set (wf_steps (initialize_execution now w)). attempts_ok st"
    using p by (auto simp: initialized_steps attempts_ok_def planned_def list_all_iff)
  show "order_ok (initialize_execution now w)"
    using success_missing [OF p] by (auto simp: order_ok_def initialized_steps waits_def)
qed

section \<open>Theorems\<close>

subsection \<open>Dependencies and attempts\<close>

definition sample_wf_step :: "string \<Rightarrow> wf_step" where
  "sample_wf_step sid = wf_step_default\<lparr>ws_id := sid, ws_max_attempts := 2\<rparr>"

definition sample_edge :: "string \<Rightarrow> string \<Rightarrow> dependency" where
  "sample_edge a b = \<lparr>dep_id = ''d'', dep_workflow_id = ''w'', dep_from = a, dep_to = b, dep_type = DepSuccess, dep_reason = []\<rparr>"

definition sample_chain :: workflow where
  "sample_chain = workflow_default\<lparr>wf_id := ''w'', wf_steps := [sample_wf_step ''a'', sample_wf_step ''b''],
     wf_dependencies := [sample_edge ''a'' ''b'']\<rparr>"

definition sample_call :: "string \<Rightarrow> tool_call_status \<Rightarrow> tool_call" where
  "sample_call sid st =
     \<lparr>tc_id = ''t'', tc_run_id = ''r'', tc_step_id = ''s'', tc_workflow_id = ''w'', tc_workflow_step_id = sid,
      tc_attempt = 1, tc_computer_use_session_id = [], tc_computer_use_action_id = [], tc_invocation_kind = [],
      tc_domain_kind = [], tc_capability_id = [], tc_skill_id = [], tc_mcp_server_id = [], tc_mcp_server_name = [],
      tc_mcp_tool_name = [], tc_mcp_transport_kind = [], tc_mcp_session_id = [], tc_authorization_result = [],
      tc_tool_name = [], tc_status = st, tc_sandbox_execution_id = [], tc_failure_class = [],
      tc_integration_bindings = [], tc_calendar_operation_summaries = [], tc_mail_operation_summaries = [],
      tc_created_at = 0, tc_updated_at = 0, tc_input = None, tc_output = None, tc_error = [], tc_sandbox = []\<rparr>"

definition sample_json_text :: "json \<Rightarrow> string" where
  "sample_json_text _ = ''null''"

definition sample_w0 :: workflow where "sample_w0 = initialize_execution 1 sample_chain"

definition sample_w1 :: workflow where "sample_w1 = start_step_attempt 2 ''a'' ''s'' sample_w0"

definition sample_w2 :: "tool_call_status \<Rightarrow> workflow" where
  "sample_w2 st = apply_tool_call_result sample_json_text 3 (sample_call ''a'' st) None [] sample_w1"

definition sample_w3 :: workflow where "sample_w3 = fst (advance_ready_steps 4 (sample_w2 ToolCompleted))"

lemma sample_planned: "planned sample_chain"
  by code_simp

lemma sample_begun: "wf_run sample_json_text sample_w0 [''a''] sample_w1"
proof -
  obtain st where "workflow_step_by_id sample_w0 ''a'' = Some st" "ws_status st = WsReady"
  proof -
    have "map_option ws_status (workflow_step_by_id sample_w0 ''a'') = Some WsReady" by code_simp
    then show thesis using that by auto
  qed
  from wf_exec.begun [OF this] have "wf_exec sample_json_text sample_w0 (Some ''a'') sample_w1" by (simp add: sample_w1_def)
  from wf_run.more [OF wf_run.here this] show ?thesis by simp
qed

lemma sample_resulted: "wf_run sample_json_text sample_w0 [''a''] (sample_w2 st)"
proof -
  obtain a where "workflow_step_by_id sample_w1 ''a'' = Some a" "ws_status a = WsRunning"
  proof -
    have "map_option ws_status (workflow_step_by_id sample_w1 ''a'') = Some WsRunning" by code_simp
    then show thesis using that by auto
  qed
  then have "workflow_step_by_id sample_w1 (tc_workflow_step_id (sample_call ''a'' st)) = Some a"
    and "ws_status a \<in> {WsRunning, WsBlocked}" by (simp_all add: sample_call_def)
  then have "wf_exec sample_json_text sample_w1 None (sample_w2 st)"
    unfolding sample_w2_def by (rule wf_exec.resulted) simp
  from wf_run.more [OF sample_begun this] show ?thesis by simp
qed

lemma sample_advanced: "wf_run sample_json_text sample_w0 [''a''] sample_w3"
proof -
  have "wf_exec sample_json_text (sample_w2 ToolCompleted) None sample_w3" unfolding sample_w3_def by (rule wf_exec.advanced)
  from wf_run.more [OF sample_resulted this] show ?thesis by simp
qed

text \<open>
  C21. Dependencies are respected: in every execution of a planned workflow, a step with a success dependency
  leaves its waiting state only after the step it depends on has completed, and from then on that step stays
  completed.
\<close>

theorem steps_follow_dependencies:
  assumes "planned w" and "wf_run jt (initialize_execution now w) ls w'"
    and "d \<in> set (wf_dependencies w)" and "dep_type d = DepSuccess"
    and "st \<in> set (wf_steps w')" and "ws_id st = dep_to d"
    and "ws_status st \<notin> {WsPlanned, WsWaitingDependency}"
  shows "\<exists>up \<in> set (wf_steps w'). ws_id up = dep_from d \<and> ws_status up = WsCompleted"
proof -
  note start = initialized_inv [OF assms(1), of now]
  have "wf_dependencies w' = wf_dependencies w"
    using run_same_graph [OF assms(2) start] by (simp add: same_graph_def initialized_steps)
  moreover have "order_ok w'" using run_inv [OF assms(2) start] by (simp add: exec_inv_def)
  ultimately show ?thesis using assms(3-7) unfolding order_ok_def waits_def by metis
qed

theorem steps_follow_dependencies_witness:
  "\<exists>up \<in> set (wf_steps sample_w3). ws_id up = ''a'' \<and> ws_status up = WsCompleted"
proof -
  have run: "wf_run sample_json_text (initialize_execution 1 sample_chain) [''a''] sample_w3"
    using sample_advanced by (simp add: sample_w0_def)
  have edge: "sample_edge ''a'' ''b'' \<in> set (wf_dependencies sample_chain)" "dep_type (sample_edge ''a'' ''b'') = DepSuccess"
    by (simp_all add: sample_chain_def sample_edge_def)
  obtain st where "st \<in> set (wf_steps sample_w3)" "ws_id st = ''b''" "ws_status st = WsReady"
  proof -
    have "list_ex (\<lambda>st. ws_id st = ''b'' \<and> ws_status st = WsReady) (wf_steps sample_w3)" by code_simp
    then show thesis using that by (auto simp: list_ex_iff)
  qed
  with steps_follow_dependencies [OF sample_planned run edge] show ?thesis by (simp add: sample_edge_def)
qed





subsection \<open>Progress and deadlock\<close>

text \<open>
  C32. No deadlock while steps succeed: if the dependencies are success dependencies between steps of the
  workflow along some rank, and every step is waiting, ready, running or completed, then as long as one is not
  completed, a step is running or the next round of \<open>advance_ready_steps\<close> leaves a step ready.
\<close>

theorem acyclic_makes_progress:
  assumes "distinct (map ws_id (wf_steps w))"
    and "list_all (\<lambda>st. ws_status st \<in> {WsPlanned, WsWaitingDependency, WsReady, WsRunning, WsCompleted}) (wf_steps w)"
    and "list_all (\<lambda>d. dep_type d = DepSuccess \<and> dep_from d \<in> ws_id ` set (wf_steps w) \<and>
      rank (dep_from d) < (rank (dep_to d) :: nat)) (wf_dependencies w)"
    and "list_ex (\<lambda>st. ws_status st \<noteq> WsCompleted) (wf_steps w)"
  shows "list_ex (\<lambda>st. ws_status st = WsRunning) (wf_steps w) \<or>
    list_ex (\<lambda>st. ws_status st = WsReady) (wf_steps (fst (advance_ready_steps now w)))"
proof -
  let ?open = "\<lambda>st. st \<in> set (wf_steps w) \<and> ws_status st \<noteq> WsCompleted"
  obtain st where st: "?open st" and least: "\<And>x. ?open x \<Longrightarrow> rank (ws_id st) \<le> rank (ws_id x)"
    using assms(4) ex_has_least_nat [of ?open _ "rank \<circ> ws_id"] by (auto simp: list_ex_iff)
  show ?thesis
  proof (cases "ws_status st \<in> {WsRunning, WsReady}")
    case True
    then show ?thesis using st by (force simp: list_ex_iff advance_steps advance_step_def)
  next
    case False
    with st assms(2) have waits: "ws_status st \<in> {WsPlanned, WsWaitingDependency}" by (auto simp: list_all_iff)
    have "dependency_met w d" if d: "d \<in> set (wf_dependencies w)" "dep_to d = ws_id st" for d
    proof -
      from d assms(3) obtain up where up: "up \<in> set (wf_steps w)" "ws_id up = dep_from d" "dep_type d = DepSuccess"
        and "rank (ws_id up) < rank (ws_id st)" by (fastforce simp: list_all_iff)
      with least [of up] have "ws_status up = WsCompleted" by auto
      with up show ?thesis using step_by_id_eq [OF assms(1), of "dep_from d" up] by (simp add: dependency_met_def)
    qed
    then have "dependencies_missing w st = []" by (auto simp: dependencies_missing_def filter_empty_conv)
    with waits have "ws_status (fst (advance_step now (dependencies_missing w st \<noteq> []) st)) = WsReady"
      by (auto simp: advance_step_def)
    then show ?thesis using st by (auto simp: list_ex_iff advance_steps)
  qed
qed

theorem acyclic_makes_progress_witness:
  "list_ex (\<lambda>st. ws_status st = WsRunning) (wf_steps (sample_w2 ToolCompleted)) \<or>
   list_ex (\<lambda>st. ws_status st = WsReady) (wf_steps (fst (advance_ready_steps 4 (sample_w2 ToolCompleted))))"
proof -
  have "distinct (map ws_id (wf_steps (sample_w2 ToolCompleted)))"
    "list_all (\<lambda>st. ws_status st \<in> {WsPlanned, WsWaitingDependency, WsReady, WsRunning, WsCompleted}) (wf_steps (sample_w2 ToolCompleted))"
    "list_all (\<lambda>d. dep_type d = DepSuccess \<and> dep_from d \<in> ws_id ` set (wf_steps (sample_w2 ToolCompleted)) \<and>
      (if dep_from d = ''a'' then 0 else 1) < (if dep_to d = ''a'' then 0 else (1 :: nat))) (wf_dependencies (sample_w2 ToolCompleted))"
    "list_ex (\<lambda>st. ws_status st \<noteq> WsCompleted) (wf_steps (sample_w2 ToolCompleted))"
    by code_simp+
  from acyclic_makes_progress [OF this] show ?thesis .
qed

text \<open>
  Steps that can never start: each waits for the success of a step that is one of them or has ended
  without success.
\<close>

definition dead_status :: "wf_step_status \<Rightarrow> bool" where
  "dead_status st \<longleftrightarrow> st \<in> {WsFailed, WsCancelled, WsInterrupted, WsSkipped}"

definition stuck :: "string set \<Rightarrow> workflow \<Rightarrow> bool" where
  "stuck S w \<longleftrightarrow> (\<forall>st \<in> set (wf_steps w). ws_id st \<in> S \<longrightarrow> waits st \<and>
     (\<exists>d \<in> set (wf_dependencies w). dep_type d = DepSuccess \<and> dep_to d = ws_id st \<and>
       (\<forall>up \<in> set (wf_steps w). ws_id up = dep_from d \<longrightarrow> ws_id up \<in> S \<or> dead_status (ws_status up))))"

lemma dead_stays: "step_change w l a b \<Longrightarrow> dead_status (ws_status a) \<Longrightarrow> ws_status b = ws_status a"
  by (auto simp: step_change_def dead_status_def split: if_splits)

lemma stuck_step:
  assumes "wf_exec jt w l w'" and d: "distinct (map ws_id (wf_steps w))" and "stuck S w"
  shows "stuck S w'"
  unfolding stuck_def
proof (intro ballI impI)
  from exec_changes [OF assms(1) d] have ch: "list_all2 (step_change w l) (wf_steps w) (wf_steps w')"
    and deps: "wf_dependencies w' = wf_dependencies w" by simp_all
  fix b
  assume b: "b \<in> set (wf_steps w')" "ws_id b \<in> S"
  from ch b(1) obtain a where a: "a \<in> set (wf_steps w)" "step_change w l a b" by (rule changed_step)
  then have id: "ws_id a = ws_id b" by (simp add: step_change_def)
  with assms(3) a(1) b(2) obtain dp where dp: "dp \<in> set (wf_dependencies w)" "dep_type dp = DepSuccess"
    "dep_to dp = ws_id a" "\<forall>up \<in> set (wf_steps w). ws_id up = dep_from dp \<longrightarrow> ws_id up \<in> S \<or> dead_status (ws_status up)"
    and wa: "waits a" by (auto simp: stuck_def)
  have "dependencies_missing w a \<noteq> []"
  proof
    assume "dependencies_missing w a = []"
    from met_success [OF d this dp(1-3)] dp(4) obtain up where "up \<in> set (wf_steps w)" "ws_status up = WsCompleted"
      "ws_id up \<in> S \<or> dead_status (ws_status up)" by auto
    with assms(3) show False by (auto simp: stuck_def waits_def dead_status_def)
  qed
  with a(2) wa have "waits b" by (auto simp: step_change_def waits_def split: if_splits)
  moreover have "ws_id up' \<in> S \<or> dead_status (ws_status up')"
    if "up' \<in> set (wf_steps w')" "ws_id up' = dep_from dp" for up'
    using changed_step [OF ch that(1)] dp(4) dead_stays that(2) by (metis step_change_def)
  ultimately show "waits b \<and> (\<exists>d \<in> set (wf_dependencies w'). dep_type d = DepSuccess \<and> dep_to d = ws_id b \<and>
      (\<forall>up \<in> set (wf_steps w'). ws_id up = dep_from d \<longrightarrow> ws_id up \<in> S \<or> dead_status (ws_status up)))"
    using dp id deps by auto
qed

lemma run_distinct: "wf_run jt w ls w' \<Longrightarrow> distinct (map ws_id (wf_steps w)) \<Longrightarrow> distinct (map ws_id (wf_steps w'))"
  by (induction rule: wf_run.induct) (auto dest: exec_same_graph simp: same_graph_def)

lemma stuck_run: "wf_run jt w ls w' \<Longrightarrow> distinct (map ws_id (wf_steps w)) \<Longrightarrow> stuck S w \<Longrightarrow> stuck S w'"
  by (induction rule: wf_run.induct) (auto intro: stuck_step run_distinct)

text \<open>
  Waiting forever: a step that needs the success of a step which has failed, was cancelled, skipped or
  interrupted, or of itself around a cycle (which \<open>add_dependency\<close> accepts), never starts. Nothing
  skips it, so whatever else happens in the execution, reconciling finds the workflow running.
\<close>

theorem unmet_dependency_waits_forever:
  assumes "wf_run jt w ls w'" and "distinct (map ws_id (wf_steps w))" and "stuck S w"
    and "st \<in> set (wf_steps w)" and "ws_id st \<in> S" and "wf_status w' \<notin> {WfCancelled, WfInterrupted}"
  shows "(\<forall>x \<in> set (wf_steps w'). ws_id x \<in> S \<longrightarrow> ws_status x \<in> {WsPlanned, WsWaitingDependency}) \<and>
    wf_status (reconcile_status now (fst (advance_ready_steps now w'))) = WfRunning"
proof -
  have d: "distinct (map ws_id (wf_steps w'))" by (rule run_distinct [OF assms(1,2)])
  have s: "stuck S w'" by (rule stuck_run [OF assms(1-3)])
  have "wf_run jt w (ls @ (case None of None \<Rightarrow> [] | Some s \<Rightarrow> [s])) (fst (advance_ready_steps now w'))"
    by (rule wf_run.more [OF assms(1) wf_exec.advanced])
  from stuck_run [OF this assms(2,3)] have s': "stuck S (fst (advance_ready_steps now w'))" .
  have "map ws_id (wf_steps w') = map ws_id (wf_steps w)"
    using assms(1,2) by (induction rule: wf_run.induct) (auto dest: exec_same_graph run_distinct simp: same_graph_def)
  then have "ws_id st \<in> ws_id ` set (wf_steps w')" using assms(4) by (metis image_eqI set_map)
  then obtain x where x: "x \<in> set (wf_steps w')" "ws_id x \<in> S" using assms(5) by auto
  let ?x = "fst (advance_step now (dependencies_missing w' x \<noteq> []) x)"
  have "?x \<in> set (wf_steps (fst (advance_ready_steps now w')))" using x(1) by (simp add: advance_steps)
  moreover from s' this x(2) have "waits ?x" by (auto simp: stuck_def advance_step_keeps)
  then have "ws_status ?x = WsWaitingDependency" by (auto simp: waits_def advance_step_def split: if_splits)
  ultimately have "derive_workflow_status (wf_steps (fst (advance_ready_steps now w'))) = WfRunning"
    by (auto simp: derive_workflow_status_def Let_def list_ex_iff)
  moreover have "wf_status (fst (advance_ready_steps now w')) = wf_status w'"
    by (simp add: advance_ready_steps_def Let_def)
  ultimately show ?thesis using s assms(6) by (auto simp: reconcile_status_def Let_def stuck_def waits_def)
qed

theorem unmet_dependency_waits_forever_witness:
  "wf_status (reconcile_status 9 (fst (advance_ready_steps 9 (sample_w2 ToolCancelled)))) = WfRunning"
proof -
  let ?w = "sample_w2 ToolCancelled"
  have facts: "distinct (map ws_id (wf_steps ?w))" "stuck {''b''} ?w" "wf_status ?w \<notin> {WfCancelled, WfInterrupted}"
    by code_simp+
  have "list_ex (\<lambda>st. ws_id st \<in> {''b''}) (wf_steps ?w)" by code_simp
  then obtain st where st: "st \<in> set (wf_steps ?w)" "ws_id st \<in> {''b''}" by (auto simp: list_ex_iff)
  from unmet_dependency_waits_forever [OF wf_run.here facts(1,2) st facts(3)] show ?thesis by blast
qed

subsection \<open>Planning\<close>

text \<open>The dependency graph of a workflow names its steps, runs forward, and each step lists its dependencies.\<close>

definition graph_ok :: "workflow \<Rightarrow> bool" where
  "graph_ok w \<longleftrightarrow>
     list_all (\<lambda>d. dep_workflow_id d = wf_id w \<and> (\<exists>a \<in> set (wf_steps w). \<exists>b \<in> set (wf_steps w).
       dep_from d = ws_id a \<and> dep_to d = ws_id b \<and> ws_position a < ws_position b)) (wf_dependencies w) \<and>
     list_all (\<lambda>st. ws_dependency_ids st = map dep_id (filter (\<lambda>d. dep_to d = ws_id st) (wf_dependencies w))) (wf_steps w) \<and>
     list_all (\<lambda>h. \<exists>d \<in> set (wf_dependencies w). ho_from h = dep_from d \<and> ho_to h = dep_to d \<and>
       ho_status h = HandoffPending) (wf_handoffs w)"

lemma picked_ids:
  "pick_computer_use_workflow_step goal h1 now = Some a \<Longrightarrow> ws_id a = new_workflow_step_id h1 \<and> ws_max_attempts a = 1 \<and> ws_attempt_count a = 0"
  "pick_mcp_workflow_step goal src h2 now = Some b \<Longrightarrow> ws_id b = new_workflow_step_id h2 \<and> ws_max_attempts b = 1 \<and> ws_attempt_count b = 0"
  "pick_skill_workflow_step goal sks h3 now = Some c \<Longrightarrow> ws_id c = new_workflow_step_id h3 \<and> ws_max_attempts c = 2 \<and> ws_attempt_count c = 0"
  "pick_local_workflow_step dir goal supv h4 now = Some e \<Longrightarrow> ws_id e = new_workflow_step_id h4 \<and> ws_max_attempts e = 1 \<and> ws_attempt_count e = 0"
proof -
  have mcp: "pick_mcp_from goal lt servers h2 now = Some b \<Longrightarrow>
      ws_id b = new_workflow_step_id h2 \<and> ws_max_attempts b = 1 \<and> ws_attempt_count b = 0" for lt servers
    by (induction servers) (auto simp: Let_def wf_step_default_def split: if_splits list.splits sum.splits)
  have loc: "pick_local_from dir goal caps h4 now = Some e \<Longrightarrow>
      ws_id e = new_workflow_step_id h4 \<and> ws_max_attempts e = 1 \<and> ws_attempt_count e = 0" for caps
    by (induction caps) (auto simp: shell_step_def exec_step_def wf_step_default_def split: if_splits)
  show "pick_computer_use_workflow_step goal h1 now = Some a \<Longrightarrow> ws_id a = new_workflow_step_id h1 \<and> ws_max_attempts a = 1 \<and> ws_attempt_count a = 0"
    by (auto simp: pick_computer_use_workflow_step_def Let_def wf_step_default_def split: if_splits)
  show "pick_mcp_workflow_step goal src h2 now = Some b \<Longrightarrow> ws_id b = new_workflow_step_id h2 \<and> ws_max_attempts b = 1 \<and> ws_attempt_count b = 0"
    using mcp by (auto simp: pick_mcp_workflow_step_def split: option.splits)
  show "pick_skill_workflow_step goal sks h3 now = Some c \<Longrightarrow> ws_id c = new_workflow_step_id h3 \<and> ws_max_attempts c = 2 \<and> ws_attempt_count c = 0"
    by (auto simp: pick_skill_workflow_step_def wf_step_default_def split: option.splits)
  show "pick_local_workflow_step dir goal supv h4 now = Some e \<Longrightarrow> ws_id e = new_workflow_step_id h4 \<and> ws_max_attempts e = 1 \<and> ws_attempt_count e = 0"
    using loc by (auto simp: pick_local_workflow_step_def split: option.splits)
qed

definition plan_ok :: "workflow \<Rightarrow> bool" where
  "plan_ok w \<longleftrightarrow> (if wf_steps w = [] then wf_status w = WfPlanningFailed
     else wf_status w = WfPlanned \<and> planned w \<and> graph_ok w \<and>
       map ws_position (wf_steps w) = map int [1..<Suc (length (wf_steps w))])"

lemma placed_one:
  "ws_max_attempts st < 2 ^ 63 \<Longrightarrow> ws_attempt_count st = 0 \<Longrightarrow> ws_dependency_ids st = [] \<Longrightarrow>
   wf_dependencies w = [] \<Longrightarrow> wf_handoffs w = [] \<Longrightarrow>
   plan_ok (w\<lparr>wf_steps := place_steps now wid [st], wf_status := WfPlanned\<rparr>)"
  by (simp add: plan_ok_def planned_def graph_ok_def place_steps_def)

lemma finished_one:
  "ws_max_attempts st < 2 ^ 63 \<Longrightarrow> ws_attempt_count st = 0 \<Longrightarrow> wf_dependencies w = [] \<Longrightarrow> wf_handoffs w = [] \<Longrightarrow>
   plan_ok (finish_plan now (w\<lparr>wf_steps := [st]\<rparr>))"
  by (simp add: plan_ok_def planned_def graph_ok_def place_steps_def finish_plan_def Let_def)

lemma finished_two:
  assumes "ws_max_attempts a < 2 ^ 63" "ws_attempt_count a = 0" "ws_max_attempts b < 2 ^ 63" "ws_attempt_count b = 0"
    and "ws_id a \<noteq> ws_id b"
  shows "plan_ok (finish_plan now (w\<lparr>wf_plan_summary := s, wf_steps := [a, b],
    wf_dependencies := [chain_dependency h wid a b reason], wf_handoffs := [chain_handoff h' wid a b sm path]\<rparr>))"
  using assms by (simp add: plan_ok_def planned_def graph_ok_def place_steps_def finish_plan_def Let_def
      chain_dependency_def chain_handoff_def)

lemma chosen_plan_ok:
  assumes "wf_dependencies w = []" "wf_handoffs w = []" "wf_steps w = []"
    and "\<And>x. x \<in> set_option cu \<union> set_option mcp \<union> set_option sk \<union> set_option loc \<Longrightarrow>
      ws_max_attempts x < 2 ^ 63 \<and> ws_attempt_count x = 0"
    and "\<And>x y. y \<in> set_option sk \<Longrightarrow> x \<in> set_option cu \<union> set_option mcp \<Longrightarrow> ws_id x \<noteq> ws_id y"
  shows "plan_ok (choose_plan now hex w cu mcp sk loc)"
proof -
  have failed: "plan_ok (w\<lparr>wf_status := WfPlanningFailed, wf_failure_summary := s\<rparr>)" for s
    using assms(3) by (simp add: plan_ok_def)
  have one: "plan_ok (finish_plan now (w\<lparr>wf_plan_summary := s, wf_steps := [x]\<rparr>))"
    if "x \<in> set_option cu \<union> set_option mcp \<union> set_option sk \<union> set_option loc" for s x
    using assms(1,2) assms(4) [OF that] by (intro finished_one) simp_all
  have two: "plan_ok (finish_plan now (w\<lparr>wf_plan_summary := s, wf_steps := [x, y],
      wf_dependencies := [chain_dependency h (wf_id w) x y reason], wf_handoffs := [chain_handoff h' (wf_id w) x y sm path]\<rparr>))"
    if "x \<in> set_option cu \<union> set_option mcp" "y \<in> set_option sk" for s x y h h' reason sm path
    using assms(4) [of x] assms(4) [of y] assms(5) [OF that(2,1)] that by (intro finished_two) auto
  show ?thesis
    unfolding choose_plan_def
    by (cases cu; cases mcp; cases sk; cases loc; simp only: option.case prod.case) (auto intro: failed one two)
qed

lemma seven: "[0..<7] = [0, 1, 2, 3, 4, 5, 6 :: nat]"
  by code_simp

text \<open>
  What the planner returns: a workflow without steps whose planning failed, or a planned one with distinct
  unstarted steps in positions one to n, whose dependencies and handoffs lead forward between its own steps and
  are listed at the steps they end in. The random tokens of two steps have to differ.
\<close>

theorem planner_output_ok:
  assumes "distinct (map (\<lambda>i. take 12 (hex i)) [0..<7])"
  shows "plan_ok (plan_workflow now hex pl run inp)"
proof (cases "cwi_calendar_action inp")
  case (Some act)
  show ?thesis
    unfolding plan_workflow_def Let_def Some option.case
    by (rule placed_one) (simp_all add: pick_calendar_workflow_step_def wf_step_default_def workflow_default_def)
next
  case no_calendar: None
  show ?thesis
  proof (cases "cwi_mail_action inp")
    case (Some act)
    show ?thesis
      unfolding plan_workflow_def Let_def no_calendar Some option.case
      by (rule placed_one) (simp_all add: pick_mail_workflow_step_def wf_step_default_def workflow_default_def)
  next
    case None
    have ids: "new_workflow_step_id (hex 3) \<noteq> new_workflow_step_id (hex 2)" "new_workflow_step_id (hex 1) \<noteq> new_workflow_step_id (hex 2)"
      using assms unfolding seven by (auto simp: new_workflow_step_id_def)
    show ?thesis
      unfolding plan_workflow_def Let_def no_calendar None option.case
      by (rule chosen_plan_ok) (auto dest!: picked_ids simp: ids workflow_default_def simp del: One_nat_def)
  qed
qed

definition sample_run :: run where
  "sample_run =
     \<lparr>run_id = ''r'', run_session_id = [], run_schedule_id = [], run_schedule_attempt_id = [], run_reminder_id = [],
      run_reminder_occurrence_id = [], run_entrypoint = ''cli'', run_status = RunQueued, run_goal = ''use the Browser'',
      run_active_workflow_id = [], run_workflow_count = 0, run_latest_delivery_id = [], run_latest_delivery_status = [],
      run_latest_delivery_target_id = [], run_active_profile_projection = None, run_created_at = 0, run_updated_at = 0\<rparr>"

definition sample_planning :: planning where
  "sample_planning = \<lparr>pl_environment = Test, pl_data_dir = ''/d'', pl_capabilities = Some sample_supervisor,
     pl_skills = Some [\<lparr>spc_skill_id = ''notes'', spc_approval_mode_expected = [], spc_executable = True, spc_available = True\<rparr>],
     pl_mcp = None\<rparr>"

definition sample_no_action :: create_workflow_input where
  "sample_no_action = \<lparr>cwi_goal = [], cwi_calendar_action = None, cwi_mail_action = None\<rparr>"

theorem planner_output_ok_witness:
  "length (wf_steps (plan_workflow 0 decimal sample_planning sample_run sample_no_action)) = 2 \<and>
   plan_ok (plan_workflow 0 decimal sample_planning sample_run sample_no_action)"
proof -
  have "distinct (map (\<lambda>i. take 12 (decimal i)) [0..<7])" by code_simp
  moreover have "length (wf_steps (plan_workflow 0 decimal sample_planning sample_run sample_no_action)) = 2" by code_simp
  ultimately show ?thesis using planner_output_ok by blast
qed

text \<open>
  The command of a planned local shell step is not quoted: \<open>shell_escape\<close> prepares a text for
  single quotes, which the planner does not put around it, so a goal without single quotes is taken over as
  it is and what it holds after a semicolon is a command of its own.
\<close>

theorem shell_goal_is_unquoted:
  assumes "pl_mcp pl = None" and "pl_skills pl = None" and "pl_capabilities pl = Some s"
    and "cwi_calendar_action inp = None" and "cwi_mail_action inp = None" and "trim (cwi_goal inp) = goal"
    and "goal \<noteq> []" and "pick_computer_use_workflow_step goal (hex 3) now = None" and "CHR 0x27 \<notin> set goal"
    and "list_capabilities s = cap # caps" and "cap_kind cap = ''shell''" and "cap_status cap \<noteq> CapFailed"
  shows "map ws_input (wf_steps (plan_workflow now hex pl run inp)) =
    [Some (JObject [(''cmd'', JString (''printf %s '' @ goal)), (''cwd'', JString (pl_data_dir pl))])]"
proof -
  have "shell_escape goal = goal" using assms(9) by (induction goal) (auto simp: shell_escape_def)
  with assms show ?thesis
    by (simp add: plan_workflow_def Let_def pick_mcp_workflow_step_def pick_skill_workflow_step_def
        pick_local_workflow_step_def choose_plan_def finish_plan_def place_steps_def shell_step_def)
qed

theorem shell_goal_is_unquoted_witness:
  "map ws_input (wf_steps (plan_workflow 0 decimal (sample_planning\<lparr>pl_skills := None\<rparr>) sample_run
     (sample_no_action\<lparr>cwi_goal := ''x; rm -r .''\<rparr>))) =
   [Some (JObject [(''cmd'', JString ''printf %s x; rm -r .''), (''cwd'', JString ''/d'')])]"
proof -
  have "trim ''x; rm -r .'' = ''x; rm -r .''" "pick_computer_use_workflow_step ''x; rm -r .'' (decimal 3) 0 = None" by code_simp+
  moreover obtain cap where "list_capabilities sample_supervisor = [cap]" "cap_kind cap = ''shell''" "cap_status cap \<noteq> CapFailed"
  proof -
    have "map (\<lambda>c. (cap_kind c, cap_status c)) (list_capabilities sample_supervisor) = [(''shell'', CapRegistered)]" by code_simp
    then show thesis using that by (auto simp: map_eq_Cons_conv)
  qed
  ultimately show ?thesis
    using shell_goal_is_unquoted [of "sample_planning\<lparr>pl_skills := None\<rparr>" sample_supervisor
        "sample_no_action\<lparr>cwi_goal := ''x; rm -r .''\<rparr>" "''x; rm -r .''" decimal 0 cap "[]" sample_run]
    by (simp add: sample_planning_def sample_no_action_def)
qed

subsection \<open>The manager\<close>

definition wf_manager_wf :: "wf_manager \<Rightarrow> bool" where
  "wf_manager_wf m \<longleftrightarrow> ids_ok (wfm_ids m) (wfm_by_id m) wf_id"

interpretation workflow_registry: ordered_registry wfm_ids wfm_by_id wf_id wf_manager_wf
  by unfold_locales (simp add: wf_manager_wf_def)

inductive wf_manager_step :: "wf_manager \<Rightarrow> wf_manager \<Rightarrow> bool" where
  create: "wfm_by_id m (new_workflow_id hex) = None \<Longrightarrow> wf_manager_step m (snd (create_workflow now hex rid inp m))"
| planned: "wfm_by_id m (new_workflow_id (hex 0)) = None \<Longrightarrow> wf_manager_step m (snd (plan now hex pl run inp m))"
| step: "wf_manager_step m (snd (add_step now hex wid si m))"
| depend: "wf_manager_step m (snd (add_dependency now hex wid di m))"
| handoff: "wf_manager_step m (snd (add_handoff now hex wid hi m))"
| init: "wf_manager_step m (snd (manager_initialize_execution wid now m))"
| advance: "wf_manager_step m (snd (manager_advance_ready_steps wid now m))"
| start: "wf_manager_step m (snd (manager_start_step_attempt wid sid rs now m))"
| bind: "wf_manager_step m (snd (manager_bind_tool_call wid sid tc now m))"
| result: "wf_manager_step m (snd (manager_apply_tool_call_result jt wid tc hint reason now m))"
| reconcile: "wf_manager_step m (snd (manager_reconcile_status wid now m))"
| project: "wf_manager_step m (snd (manager_apply_computer_use_projection wid sid session actions artifacts now m))"

text \<open>
  The graph of a stored workflow is closed: dependencies and handoffs join its own steps, and a step lists
  only dependencies that end in it.
\<close>

definition graph_of :: "workflow \<Rightarrow> (string \<times> string list) list \<times> dependency list \<times> (string \<times> string) list" where
  "graph_of w = (map (\<lambda>st. (ws_id st, ws_dependency_ids st)) (wf_steps w), wf_dependencies w,
     map (\<lambda>h. (ho_from h, ho_to h)) (wf_handoffs w))"

definition graph_closed :: "workflow \<Rightarrow> bool" where
  "graph_closed w \<longleftrightarrow> (case graph_of w of (sts, deps, hos) \<Rightarrow>
     (\<forall>d \<in> set deps. dep_from d \<in> fst ` set sts \<and> dep_to d \<in> fst ` set sts) \<and>
     (\<forall>h \<in> set hos. fst h \<in> fst ` set sts \<and> snd h \<in> fst ` set sts) \<and>
     (\<forall>st \<in> set sts. set (snd st) \<subseteq> dep_id ` {d \<in> set deps. dep_to d = fst st}))"

definition wf_manager_ok :: "wf_manager \<Rightarrow> bool" where
  "wf_manager_ok m \<longleftrightarrow> wf_manager_wf m \<and> (\<forall>w \<in> ran (wfm_by_id m). graph_closed w)"

lemma change_step_graph:
  "(\<And>st. ws_id (f st) = ws_id st \<and> ws_dependency_ids (f st) = ws_dependency_ids st) \<Longrightarrow>
   map (\<lambda>st. (ws_id st, ws_dependency_ids st)) (change_step sid f sts) = map (\<lambda>st. (ws_id st, ws_dependency_ids st)) sts"
  by (induction sts) auto

lemma step_result_deps [simp]: "ws_dependency_ids (step_result jt tc hint reason st) = ws_dependency_ids st"
  by (simp add: step_result_def Let_def split: tool_call_status.split option.split)

lemma transformations_keep_graph [simp]:
  "graph_of (initialize_execution now w) = graph_of w"
  "graph_of (fst (advance_ready_steps now w)) = graph_of w"
  "graph_of (start_step_attempt now sid rs w) = graph_of w"
  "graph_of (bind_tool_call now sid tc w) = graph_of w"
  "graph_of (reconcile_status now w) = graph_of w"
  "graph_of (apply_tool_call_result jt now tc hint reason w) = graph_of w"
  "graph_of (apply_computer_use_projection now sid session actions artifacts w) = graph_of w"
  by (simp_all add: graph_of_def initialize_execution_def Let_def advance_ready_steps_def start_step_attempt_def
      bind_tool_call_def apply_tool_call_result_def apply_computer_use_projection_def change_step_graph
      advance_step_def consume_handoff_def release_handoffs_def bound_step_def comp_def)

lemma transformations_keep_id [simp]:
  "wf_id (initialize_execution now w) = wf_id w" "wf_id (fst (advance_ready_steps now w)) = wf_id w"
  "wf_id (start_step_attempt now sid rs w) = wf_id w" "wf_id (bind_tool_call now sid tc w) = wf_id w"
  "wf_id (apply_tool_call_result jt now tc hint reason w) = wf_id w"
  "wf_id (apply_computer_use_projection now sid session actions artifacts w) = wf_id w"
  by (simp_all add: initialize_execution_def Let_def advance_ready_steps_def start_step_attempt_def
      bind_tool_call_def apply_tool_call_result_def apply_computer_use_projection_def)

lemma manager_rewrite:
  assumes "wf_manager_ok m" and "wfm_by_id m wid = Some w" and "wf_id w' = wf_id w" and "graph_closed w'"
  shows "wf_manager_ok (m\<lparr>wfm_by_id := (wfm_by_id m)(wid \<mapsto> w')\<rparr>)"
proof -
  have "wf_id w' = wid"
    using assms(1-3) ids_ok_key by (fastforce simp: wf_manager_ok_def wf_manager_wf_def)
  with assms show ?thesis
    by (auto simp: wf_manager_ok_def wf_manager_wf_def ran_def intro!: ids_ok_rewrite)
qed

lemma manager_closed: "wf_manager_ok m \<Longrightarrow> wfm_by_id m wid = Some w \<Longrightarrow> graph_closed w"
  by (auto simp: wf_manager_ok_def ran_def)

lemma update_workflow_ok:
  assumes "wf_manager_ok m" and "\<And>w. wf_id (f w) = wf_id w" and "\<And>w. graph_of (f w) = graph_of w"
  shows "wf_manager_ok (snd (update_workflow f wid m))"
proof (cases "wfm_by_id m wid")
  case (Some w)
  have "graph_closed (f w)" using manager_closed [OF assms(1) Some] assms(3) by (simp add: graph_closed_def)
  with manager_rewrite [OF assms(1) Some assms(2)] Some show ?thesis by (simp add: update_workflow_def)
qed (simp add: update_workflow_def assms(1))

lemma store_workflow_ok:
  "wf_manager_ok m \<Longrightarrow> wfm_by_id m (wf_id w) = None \<Longrightarrow> graph_closed w \<Longrightarrow> wf_manager_ok (store_workflow w m)"
  by (auto simp: wf_manager_ok_def wf_manager_wf_def store_workflow_def ran_def intro!: ids_ok_insert)

lemma change_step_add_dependency:
  "set (map (\<lambda>st. (ws_id st, ws_dependency_ids st)) (change_step sid (\<lambda>st. st\<lparr>ws_dependency_ids := ws_dependency_ids st @ [x]\<rparr>) sts)) \<subseteq>
   (\<lambda>st. (ws_id st, ws_dependency_ids st)) ` set sts \<union> {(sid, ws_dependency_ids st @ [x]) | st. st \<in> set sts \<and> ws_id st = sid}"
  by (induction sts) auto

lemma map_enumerate_ids:
  "(\<And>i st. ws_id (f (i, st)) = ws_id st) \<Longrightarrow> map ws_id (map f (enumerate n sts)) = map ws_id sts"
  by (induction sts arbitrary: n) simp_all

lemma place_steps_ids: "ws_id ` set (place_steps now wid sts) = ws_id ` set sts"
proof -
  have "map ws_id (place_steps now wid sts) = map ws_id sts"
    unfolding place_steps_def by (rule map_enumerate_ids) simp
  then show ?thesis by (metis set_map)
qed

lemma finish_plan_closed:
  assumes "\<forall>d \<in> set (wf_dependencies w). dep_from d \<in> ws_id ` set (wf_steps w) \<and> dep_to d \<in> ws_id ` set (wf_steps w)"
    and "\<forall>h \<in> set (wf_handoffs w). ho_from h \<in> ws_id ` set (wf_steps w) \<and> ho_to h \<in> ws_id ` set (wf_steps w)"
  shows "graph_closed (finish_plan now w)"
proof -
  have "fst ` set (fst (graph_of (finish_plan now w))) = ws_id ` set (wf_steps w)"
    by (simp add: graph_of_def finish_plan_def Let_def image_image place_steps_ids)
  with assms show ?thesis
    by (auto simp: graph_closed_def graph_of_def finish_plan_def Let_def)
qed

lemma chosen_plan_closed:
  assumes "wf_dependencies w = []" "wf_handoffs w = []" "wf_steps w = []"
  shows "graph_closed (choose_plan now hex w cu mcp sk loc)"
proof -
  have failed: "graph_closed (w\<lparr>wf_status := WfPlanningFailed, wf_failure_summary := s\<rparr>)" for s
    using assms by (simp add: graph_closed_def graph_of_def)
  have one: "graph_closed (finish_plan now (w\<lparr>wf_plan_summary := s, wf_steps := [x]\<rparr>))" for s x
    using assms by (intro finish_plan_closed) simp_all
  have two: "graph_closed (finish_plan now (w\<lparr>wf_plan_summary := s, wf_steps := [x, y],
      wf_dependencies := [chain_dependency h (wf_id w) x y reason], wf_handoffs := [chain_handoff h' (wf_id w) x y sm path]\<rparr>))"
    for s x y h h' reason sm path
    by (intro finish_plan_closed) (simp_all add: chain_dependency_def chain_handoff_def)
  show ?thesis
    unfolding choose_plan_def
    by (cases cu; cases mcp; cases sk; cases loc; simp only: option.case prod.case) (auto intro: failed one two)
qed

lemma chosen_plan_id: "wf_id (choose_plan now hex w cu mcp sk loc) = wf_id w"
  unfolding choose_plan_def
  by (cases cu; cases mcp; cases sk; cases loc; simp only: option.case prod.case) (simp_all add: finish_plan_def Let_def)

lemma plan_workflow_closed:
  "graph_closed (plan_workflow now hex pl run inp)" "wf_id (plan_workflow now hex pl run inp) = new_workflow_id (hex 0)"
proof -
  have single: "graph_closed (w\<lparr>wf_steps := place_steps now wid [st], wf_status := x\<rparr>)"
    if "wf_dependencies w = []" "wf_handoffs w = []" "ws_dependency_ids st = []" for w wid st x
    using that by (simp add: graph_closed_def graph_of_def place_steps_def)
  show "graph_closed (plan_workflow now hex pl run inp)"
  proof (cases "cwi_calendar_action inp")
    case (Some a)
    show ?thesis
      unfolding plan_workflow_def Let_def Some option.case
      by (rule single) (simp_all add: pick_calendar_workflow_step_def wf_step_default_def workflow_default_def)
  next
    case None
    show ?thesis
    proof (cases "cwi_mail_action inp")
      case (Some a)
      show ?thesis
        unfolding plan_workflow_def Let_def None Some option.case
        by (rule single) (simp_all add: pick_mail_workflow_step_def wf_step_default_def workflow_default_def)
    next
      case n2: None
      show ?thesis
        unfolding plan_workflow_def Let_def None n2 option.case
        by (rule chosen_plan_closed) (simp_all add: workflow_default_def)
    qed
  qed
  show "wf_id (plan_workflow now hex pl run inp) = new_workflow_id (hex 0)"
    unfolding plan_workflow_def Let_def
    by (cases "cwi_calendar_action inp"; cases "cwi_mail_action inp"; simp only: option.case) (simp_all add: chosen_plan_id)
qed

lemma add_step_ok: "wf_manager_ok m \<Longrightarrow> wf_manager_ok (snd (add_step now hex wid si m))"
  by (cases "wfm_by_id m wid")
    (auto simp: add_step_def Let_def graph_closed_def graph_of_def wf_step_default_def
      intro!: manager_rewrite dest: manager_closed)

lemma step_id_member: "workflow_step_by_id w sid \<noteq> None \<longleftrightarrow> sid \<in> ws_id ` set (wf_steps w)"
  by (auto simp: workflow_step_by_id_def find_None_iff image_iff)

lemma add_handoff_ok:
  assumes "wf_manager_ok m"
  shows "wf_manager_ok (snd (add_handoff now hex wid hi m))"
proof (cases "wfm_by_id m wid")
  case (Some w)
  have "graph_closed (w\<lparr>wf_handoffs := wf_handoffs w @ [h], wf_updated_at := now\<rparr>)"
    if "workflow_step_by_id w (ho_from h) \<noteq> None" "workflow_step_by_id w (ho_to h) \<noteq> None" for h
    using manager_closed [OF assms Some] that unfolding step_id_member
    by (auto simp: graph_closed_def graph_of_def image_image)
  with assms Some show ?thesis by (auto simp: add_handoff_def Let_def intro!: manager_rewrite [OF assms Some])
qed (simp add: add_handoff_def assms)

lemma graph_of_edges: "fst (snd (graph_of w)) = wf_dependencies w" "snd (snd (graph_of w)) = map (\<lambda>h. (ho_from h, ho_to h)) (wf_handoffs w)"
  by (simp_all add: graph_of_def)

lemma graph_closedI:
  assumes "fst ` set (fst (graph_of w)) = I"
    and "\<forall>d \<in> set (wf_dependencies w). dep_from d \<in> I \<and> dep_to d \<in> I"
    and "\<forall>h \<in> set (wf_handoffs w). ho_from h \<in> I \<and> ho_to h \<in> I"
    and "\<And>st. st \<in> set (fst (graph_of w)) \<Longrightarrow> set (snd st) \<subseteq> dep_id ` {d \<in> set (wf_dependencies w). dep_to d = fst st}"
  shows "graph_closed w"
  unfolding graph_closed_def split_def graph_of_edges using assms by simp

lemma graph_closedD:
  assumes "graph_closed w"
  shows "\<forall>d \<in> set (wf_dependencies w). dep_from d \<in> ws_id ` set (wf_steps w) \<and> dep_to d \<in> ws_id ` set (wf_steps w)"
    and "\<forall>h \<in> set (wf_handoffs w). ho_from h \<in> ws_id ` set (wf_steps w) \<and> ho_to h \<in> ws_id ` set (wf_steps w)"
  using assms by (simp_all add: graph_closed_def graph_of_def image_image)

lemma add_dependency_ok:
  assumes "wf_manager_ok m"
  shows "wf_manager_ok (snd (add_dependency now hex wid di m))"
proof (cases "wfm_by_id m wid")
  case (Some w)
  have "graph_closed (w\<lparr>wf_steps := change_step (dep_to d) (\<lambda>st. st\<lparr>ws_dependency_ids := ws_dependency_ids st @ [dep_id d]\<rparr>) (wf_steps w),
      wf_dependencies := wf_dependencies w @ [d], wf_updated_at := now\<rparr>)" (is "graph_closed ?w")
    if d: "workflow_step_by_id w (dep_from d) \<noteq> None" "workflow_step_by_id w (dep_to d) \<noteq> None" for d
  proof -
    have "map ws_id (wf_steps ?w) = map ws_id (wf_steps w)" by (simp add: change_step_ids)
    then have "set (map ws_id (wf_steps ?w)) = set (map ws_id (wf_steps w))" by (rule arg_cong)
    then have ids: "fst ` set (fst (graph_of ?w)) = ws_id ` set (wf_steps w)"
      by (simp add: graph_of_def image_image)
    from manager_closed [OF assms Some] have c: "graph_closed w" .
    have old: "set (ws_dependency_ids st) \<subseteq> dep_id ` {x \<in> set (wf_dependencies w). dep_to x = ws_id st}" if "st \<in> set (wf_steps w)" for st
      using c that by (fastforce simp: graph_closed_def graph_of_def)
    have "set (snd st) \<subseteq> dep_id ` {x \<in> set (wf_dependencies w @ [d]). dep_to x = fst st}" if "st \<in> set (fst (graph_of ?w))" for st
    proof -
      from that have "st \<in> set (map (\<lambda>st. (ws_id st, ws_dependency_ids st)) (wf_steps ?w))"
        by (simp add: graph_of_def)
      then have "st \<in> (\<lambda>st. (ws_id st, ws_dependency_ids st)) ` set (wf_steps w) \<union>
          {(dep_to d, ws_dependency_ids st @ [dep_id d]) | st. st \<in> set (wf_steps w) \<and> ws_id st = dep_to d}"
        using change_step_add_dependency [of "dep_to d" "dep_id d" "wf_steps w"] by simp blast
      then show ?thesis
      proof
        assume "st \<in> (\<lambda>st. (ws_id st, ws_dependency_ids st)) ` set (wf_steps w)"
        then obtain u where "u \<in> set (wf_steps w)" "st = (ws_id u, ws_dependency_ids u)" by blast
        then show ?thesis using old [of u] by auto
      next
        assume "st \<in> {(dep_to d, ws_dependency_ids st @ [dep_id d]) | st. st \<in> set (wf_steps w) \<and> ws_id st = dep_to d}"
        then obtain u where "u \<in> set (wf_steps w)" "ws_id u = dep_to d" "st = (dep_to d, ws_dependency_ids u @ [dep_id d])" by blast
        then show ?thesis using old [of u] by auto
      qed
    qed
    moreover have "\<forall>x \<in> set (wf_dependencies ?w). dep_from x \<in> ws_id ` set (wf_steps w) \<and> dep_to x \<in> ws_id ` set (wf_steps w)"
      using graph_closedD(1) [OF c] d unfolding step_id_member by simp
    moreover have "\<forall>h \<in> set (wf_handoffs ?w). ho_from h \<in> ws_id ` set (wf_steps w) \<and> ho_to h \<in> ws_id ` set (wf_steps w)"
      using graph_closedD(2) [OF c] by simp
    ultimately show ?thesis using ids by (intro graph_closedI) simp_all
  qed
  from this [of "\<lparr>dep_id = new_workflow_dependency_id hex, dep_workflow_id = wid, dep_from = adi_from di,
      dep_to = adi_to di, dep_type = adi_type di, dep_reason = adi_reason di\<rparr>"] assms Some
  show ?thesis by (auto simp: add_dependency_def Let_def intro!: manager_rewrite [OF assms Some])
qed (simp add: add_dependency_def assms)

lemma wf_manager_step_ok: "wf_manager_step m m' \<Longrightarrow> wf_manager_ok m \<Longrightarrow> wf_manager_ok m'"
proof (induction rule: wf_manager_step.induct)
  case (create m hex now rid inp)
  then show ?case
    by (auto simp: create_workflow_def Let_def graph_closed_def graph_of_def workflow_default_def intro!: store_workflow_ok)
next
  case (planned m hex now pl run inp)
  then show ?case by (simp add: plan_def Let_def store_workflow_ok plan_workflow_closed)
next
  case (advance m wid now)
  then show ?case
    by (cases "wfm_by_id m wid")
      (auto simp: manager_advance_ready_steps_def graph_closed_def intro!: manager_rewrite dest: manager_closed)
qed (auto simp: add_step_ok add_handoff_ok add_dependency_ok manager_initialize_execution_def manager_start_step_attempt_def
    manager_bind_tool_call_def manager_apply_tool_call_result_def manager_reconcile_status_def
    manager_apply_computer_use_projection_def intro!: update_workflow_ok)

interpretation workflow_manager: invariant_system "\<lambda>m. m = wf_manager_new" wf_manager_step wf_manager_ok
proof unfold_locales
  show "wf_manager_ok m" if "m = wf_manager_new" for m
    using that by (simp add: wf_manager_new_def wf_manager_ok_def wf_manager_wf_def)
qed (fact wf_manager_step_ok)

text \<open>
  The manager's registry: after any sequence of its operations (with fresh workflow tokens), the listing holds
  every workflow once in the order of creation, and in each of them the dependencies and handoffs join existing
  steps and the steps name only dependencies that end in them.
\<close>

theorem workflow_manager_ok:
  assumes "wf_manager_step\<^sup>*\<^sup>* wf_manager_new m"
  shows "map wf_id (list_workflows m) = wfm_ids m \<and> distinct (wfm_ids m) \<and>
    list_all (\<lambda>w. get_workflow (wf_id w) m = Some w \<and> graph_closed w) (list_workflows m)"
proof -
  from assms have ok: "wf_manager_ok m" by (blast intro: workflow_manager.inv_reachable)
  then have reg: "wf_manager_wf m" by (simp add: wf_manager_ok_def)
  have "get_workflow (wf_id w) m = Some w \<and> graph_closed w" if "w \<in> set (list_workflows m)" for w
    using workflow_registry.listing_member [OF reg, of w] that ok
    by (auto simp: list_workflows_def get_workflow_def wf_manager_ok_def ran_def)
  then show ?thesis
    using workflow_registry.listing_keys [OF reg] reg
    by (simp add: list_workflows_def list_all_iff wf_manager_wf_def ids_ok_def)
qed

theorem workflow_manager_ok_witness:
  "map wf_id (list_workflows (snd (plan 0 decimal sample_planning sample_run sample_no_action wf_manager_new))) = [''wf_0'']"
proof -
  let ?m = "snd (plan 0 decimal sample_planning sample_run sample_no_action wf_manager_new)"
  have "wf_manager_step wf_manager_new ?m" by (rule wf_manager_step.planned) (simp add: wf_manager_new_def)
  then have "wf_manager_step\<^sup>*\<^sup>* wf_manager_new ?m" by blast
  moreover have "wfm_ids ?m = [''wf_0'']" by code_simp
  ultimately show ?thesis using workflow_manager_ok by metis
qed

end
