(* ===== verification/Billing_Types.thy ===== *)
theory Billing_Types
  imports Shared_Types Tables
begin

text \<open>
  Records of billing and quotas: crates/domains/billing/src/types.rs, catalog.rs, operation_key.rs,
  error.rs, and the pure parts of denial.rs and projection.rs. The enumerations of that crate are open:
  newtypes over strings with named constants, and so they are strings here.
\<close>

section \<open>Vocabularies\<close>

type_synonym category = string

definition RUN_LAUNCHES :: category where "RUN_LAUNCHES = ''run_launches''"
definition WORKFLOW_LAUNCHES :: category where "WORKFLOW_LAUNCHES = ''workflow_launches''"
definition RUNTIME_TOOL_CALLS :: category where "RUNTIME_TOOL_CALLS = ''runtime_tool_calls''"
definition LIVE_VALIDATION_ATTEMPTS :: category where "LIVE_VALIDATION_ATTEMPTS = ''live_validation_attempts''"
definition INTEGRATION_OPERATIONS :: category where "INTEGRATION_OPERATIONS = ''integration_operations''"
definition ARTIFACT_STORAGE_BYTES :: category where "ARTIFACT_STORAGE_BYTES = ''artifact_storage_bytes''"
definition REPLAY_EVALUATION_ATTEMPTS :: category where "REPLAY_EVALUATION_ATTEMPTS = ''replay_evaluation_attempts''"

definition ENFORCED :: string where "ENFORCED = ''enforced''"
definition UNLIMITED :: string where "UNLIMITED = ''unlimited''"

definition PLAN_ACTIVE :: string where "PLAN_ACTIVE = ''active''"
definition PLAN_SUPERSEDED :: string where "PLAN_SUPERSEDED = ''superseded''"

definition DAILY :: string where "DAILY = ''daily''"
definition MONTHLY :: string where "MONTHLY = ''monthly''"

definition RESERVED :: string where "RESERVED = ''reserved''"
definition COMMITTED :: string where "COMMITTED = ''committed''"
definition RELEASED :: string where "RELEASED = ''released''"
definition REFUNDED :: string where "REFUNDED = ''refunded''"
definition DENIED :: string where "DENIED = ''denied''"
definition OPERATOR_ACTION_NEEDED :: string where "OPERATOR_ACTION_NEEDED = ''operator_action_needed''"

lemmas reservation_statuses = RESERVED_def COMMITTED_def RELEASED_def REFUNDED_def DENIED_def OPERATOR_ACTION_NEEDED_def

lemma statuses_differ [simp]: "distinct [RESERVED, COMMITTED, RELEASED, REFUNDED, DENIED, OPERATOR_ACTION_NEEDED]"
  by (simp add: reservation_statuses)

text \<open>The time Go calls zero, the first instant of year one, in nanoseconds since the epoch of Unix.\<close>

definition go_zero_time :: timestamp where
  "go_zero_time = - 62135596800 * 10 ^ 9"

datatype billing_error =
    QuotaDenied
  | QuotaStateUnavailable
  | NegativeEffectiveUsage
  | ReasonRequired
  | OperatorActionRequired
  | ReservationNotFound string
  | ReservationIdNotFound string
  | UnknownCategory string
  | CounterNotFound string
  | UnsupportedResolutionOutcome string
  | NotSupported string
  | BillingRepository

section \<open>Records\<close>

record tenant_plan =
  tp_id :: string
  tp_tenant_id :: string
  tp_plan_key :: string
  tp_status :: string
  tp_enforcement_mode :: string
  tp_effective_at :: timestamp
  tp_superseded_at :: "timestamp option"
  tp_assigned_by_principal_id :: string
  tp_assignment_reason :: string
  tp_document :: "json_map option"

record quota_definition =
  qd_id :: string
  qd_category :: category
  qd_unit :: string
  qd_period_kind :: string
  qd_period_anchor :: string
  qd_default_limit :: int
  qd_carryover_enabled :: bool
  qd_carryover_max :: int
  qd_reservation_rule :: string
  qd_commit_rule :: string
  qd_refund_rule :: string
  qd_denial_reason_code :: string
  qd_active :: bool
  qd_created_at :: timestamp
  qd_updated_at :: timestamp
  qd_document :: "json_map option"

record quota_override =
  qo_id :: string
  qo_tenant_id :: string
  qo_category :: category
  qo_limit :: "int option"
  qo_carryover_enabled :: "bool option"
  qo_carryover_max :: "int option"
  qo_effective_at :: timestamp
  qo_expires_at :: "timestamp option"
  qo_reason :: string
  qo_created_by_principal_id :: string

record quota_period =
  qp_id :: string
  qp_tenant_id :: string
  qp_category :: category
  qp_period_kind :: string
  qp_start :: timestamp
  qp_end :: timestamp
  qp_carryover_from_period_id :: string
  qp_status :: string

record usage_counter =
  uc_id :: string
  uc_tenant_id :: string
  uc_category :: category
  uc_period_id :: string
  uc_committed :: int
  uc_reserved :: int
  uc_adjusted :: int
  uc_carryover :: int
  uc_updated_at :: timestamp

record usage_reservation =
  ur_id :: string
  ur_tenant_id :: string
  ur_category :: category
  ur_period_id :: string
  ur_operation_key :: string
  ur_reserved :: int
  ur_committed :: int
  ur_refunded :: int
  ur_status :: string
  ur_reservation_point :: string
  ur_commit_point :: string
  ur_refund_point :: string
  ur_created_at :: timestamp
  ur_updated_at :: timestamp
  ur_expires_at :: "timestamp option"
  ur_recovery_reason :: string

definition reservation_default :: usage_reservation where
  "reservation_default =
     \<lparr>ur_id = [], ur_tenant_id = [], ur_category = [], ur_period_id = [], ur_operation_key = [],
      ur_reserved = 0, ur_committed = 0, ur_refunded = 0, ur_status = [], ur_reservation_point = [],
      ur_commit_point = [], ur_refund_point = [], ur_created_at = 0, ur_updated_at = 0,
      ur_expires_at = None, ur_recovery_reason = []\<rparr>"

record usage_event =
  ue_id :: string
  ue_tenant_id :: string
  ue_category :: category
  ue_period_id :: string
  ue_operation_key :: string
  ue_kind :: string
  ue_amount :: int
  ue_reason_code :: string
  ue_reason :: string
  ue_actor_principal_id :: string
  ue_outcome :: string
  ue_created_at :: timestamp
  ue_document :: "json_map option"

definition event_default :: usage_event where
  "event_default =
     \<lparr>ue_id = [], ue_tenant_id = [], ue_category = [], ue_period_id = [], ue_operation_key = [], ue_kind = [],
      ue_amount = 0, ue_reason_code = [], ue_reason = [], ue_actor_principal_id = [], ue_outcome = [],
      ue_created_at = 0, ue_document = None\<rparr>"

record quota_denial =
  dn_id :: string
  dn_tenant_id :: string
  dn_category :: category
  dn_period_id :: string
  dn_operation_key :: string
  dn_reason_code :: string
  dn_requested_amount :: int
  dn_remaining_amount :: int
  dn_guarded_entry_point :: string
  dn_created_at :: timestamp

record manual_adjustment =
  ma_id :: string
  ma_tenant_id :: string
  ma_category :: category
  ma_period_id :: string
  ma_amount_delta :: int
  ma_reason :: string
  ma_created_by_principal_id :: string
  ma_created_at :: timestamp

record effective_quota =
  eq_tenant_id :: string
  eq_plan_key :: string
  eq_category :: category
  eq_unit :: string
  eq_period_start :: timestamp
  eq_period_end :: timestamp
  eq_period_anchor :: string
  eq_limit :: int
  eq_consumed_amount :: int
  eq_reserved_amount :: int
  eq_adjusted_amount :: int
  eq_carryover_applied :: int
  eq_remaining_amount :: int
  eq_enforcement_mode :: string
  eq_denial_reason_code :: string
  eq_over_limit :: bool

record denial_payload =
  dp_code :: string
  dp_reason_code :: string
  dp_tenant_id :: string
  dp_category :: category
  dp_operation_key :: string
  dp_period_start :: string
  dp_period_end :: string
  dp_requested_amount :: int
  dp_remaining_amount :: int
  dp_message :: string

record usage_summary =
  us_tenant_id :: string
  us_plan_key :: string
  us_enforcement_mode :: string
  us_quotas :: "effective_quota list"
  us_manual_adjustments :: "manual_adjustment list"
  us_denials :: "quota_denial list"

record reserve_input =
  ri_tenant_id :: string
  ri_category :: category
  ri_amount :: int
  ri_operation_key :: string
  ri_reservation_point :: string
  ri_guarded_entry_point :: string
  ri_actor_principal_id :: string
  ri_hosted :: bool

record reserve_result =
  rr_allowed :: bool
  rr_reservation :: "usage_reservation option"
  rr_denial :: "denial_payload option"
  rr_quota :: "effective_quota option"
  rr_failure :: "billing_error option"

definition result_default :: reserve_result where
  "result_default =
     \<lparr>rr_allowed = False, rr_reservation = None, rr_denial = None, rr_quota = None, rr_failure = None\<rparr>"

record reserve_all_result =
  ra_allowed :: bool
  ra_results :: "reserve_result list"
  ra_denial :: "denial_payload option"
  ra_failure :: "billing_error option"

record resolve_input =
  rv_tenant_id :: string
  rv_category :: category
  rv_operation_key :: string
  rv_amount :: int
  rv_reason_code :: string
  rv_reason :: string
  rv_actor_principal_id :: string

record resolve_reservation_input =
  rri_tenant_id :: string
  rri_reservation_id :: string
  rri_outcome :: string
  rri_amount :: int
  rri_reason :: string
  rri_actor_principal_id :: string

record recovery_decision =
  rd_reservation :: usage_reservation
  rd_outcome :: string
  rd_reason :: string

text \<open>Dashboards, details of denials and evidence.\<close>

record usage_period_summary =
  ps_start :: timestamp
  ps_end :: timestamp
  ps_anchor :: string
  ps_consumed :: int
  ps_reserved :: int
  ps_adjusted :: int
  ps_carryover :: int
  ps_remaining :: int
  ps_over_limit :: bool

record quota_override_summary =
  os_base_limit :: int
  os_effective_limit :: int
  os_reason :: string
  os_effective_at :: timestamp
  os_expires_at :: "timestamp option"

record abuse_restriction_summary =
  rs_id :: string
  rs_status :: string
  rs_category :: category
  rs_recovery_action :: string
  rs_visible_reason_code :: string
  rs_source_audit_ref :: string
  rs_support_contact_allowed :: bool
  rs_started_at :: timestamp
  rs_expires_at :: "timestamp option"

record abuse_restriction =
  ar_id :: string
  ar_tenant_id :: string
  ar_status :: string
  ar_category :: category
  ar_recovery_action :: string
  ar_visible_reason_code :: string
  ar_source_audit_ref :: string
  ar_support_contact_allowed :: bool
  ar_started_at :: timestamp
  ar_expires_at :: "timestamp option"
  ar_document :: "json_map option"

definition restriction_summary :: "abuse_restriction \<Rightarrow> abuse_restriction_summary" where
  "restriction_summary r =
     \<lparr>rs_id = ar_id r, rs_status = ar_status r, rs_category = ar_category r, rs_recovery_action = ar_recovery_action r,
      rs_visible_reason_code = ar_visible_reason_code r, rs_source_audit_ref = ar_source_audit_ref r,
      rs_support_contact_allowed = ar_support_contact_allowed r, rs_started_at = ar_started_at r,
      rs_expires_at = ar_expires_at r\<rparr>"

record quota_status_item =
  qi_category :: category
  qi_unit :: string
  qi_status :: string
  qi_current_period :: usage_period_summary
  qi_previous_period :: "usage_period_summary option"
  qi_limit :: int
  qi_remaining_amount :: int
  qi_near_limit :: bool
  qi_near_limit_reason :: string
  qi_typical_operation_amount :: int
  qi_base_limit :: int
  qi_effective_limit :: int
  qi_override :: "quota_override_summary option"
  qi_restriction :: "abuse_restriction_summary option"
  qi_recovery_actions :: "string list"

record quota_section =
  qs_key :: string
  qs_label :: string
  qs_items :: "quota_status_item list"

record plan_summary =
  pl_plan_key :: string
  pl_enforcement_mode :: string
  pl_status :: string
  pl_effective_at :: timestamp
  pl_base_plan_label :: string
  pl_checkout_available :: bool

record tenant_quota_dashboard =
  qb_tenant_id :: string
  qb_plan :: plan_summary
  qb_sections :: "quota_section list"
  qb_generated_at :: timestamp
  qb_permission :: "json_map option"

record quota_denial_detail =
  dd_id :: string
  dd_tenant_id :: string
  dd_operation_ref :: string
  dd_operation_key :: string
  dd_guarded_entry_point :: string
  dd_category :: category
  dd_reason_code :: string
  dd_classification :: string
  dd_requested_amount :: int
  dd_remaining_amount :: int
  dd_recovery_actions :: "string list"
  dd_restriction :: "abuse_restriction_summary option"
  dd_created_at :: timestamp

record evidence_redaction =
  er_path :: string
  er_reason :: string
  er_replacement :: string

record billing_evidence_export =
  ee_schema_version :: string
  ee_export_id :: string
  ee_tenant_id :: string
  ee_generated_at :: timestamp
  ee_generated_by_principal_id :: string
  ee_denial :: quota_denial_detail
  ee_usage_snapshot :: "quota_status_item list"
  ee_effective_limit_state :: json_map
  ee_audit_refs :: "string list"
  ee_redactions :: "evidence_redaction list"

section \<open>The catalog of quotas\<close>

definition PERIOD_ANCHOR_UTC :: string where "PERIOD_ANCHOR_UTC = ''UTC''"

definition REASON_QUOTA_STATE_UNAVAILABLE :: string where
  "REASON_QUOTA_STATE_UNAVAILABLE = ''quota_denied:quota_state_unavailable''"

text \<open>
  The definition of a catalog entry; the rest of the entry (shape of the operation key, concurrency
  guard, required tests) is documentation that no operation reads.
\<close>

definition catalog_definition ::
  "category \<Rightarrow> string \<Rightarrow> string \<Rightarrow> int \<Rightarrow> string \<Rightarrow> string \<Rightarrow> string \<Rightarrow> string \<Rightarrow> timestamp \<Rightarrow> quota_definition" where
  "catalog_definition cat unit period lim res com ref reason now =
     \<lparr>qd_id = ''quota_def_'' @ cat, qd_category = cat, qd_unit = unit, qd_period_kind = period,
      qd_period_anchor = PERIOD_ANCHOR_UTC, qd_default_limit = lim, qd_carryover_enabled = False,
      qd_carryover_max = 0, qd_reservation_rule = res, qd_commit_rule = com, qd_refund_rule = ref,
      qd_denial_reason_code = reason, qd_active = True, qd_created_at = now, qd_updated_at = now,
      qd_document = None\<rparr>"

text \<open>\<open>wall\<close> is the time the clock of the system shows, used when the given time is the zero time.\<close>

definition initial_definitions :: "timestamp \<Rightarrow> timestamp \<Rightarrow> quota_definition list" where
  "initial_definitions wall t =
     (let now = (if t = go_zero_time then wall else t) in
      [catalog_definition RUN_LAUNCHES ''count'' MONTHLY 1 ''POST /v1/runs before runtime.CreateRun''
         ''run persisted'' ''route denial or failure before run persisted''
         ''quota_denied:run_launches_exhausted'' now,
       catalog_definition WORKFLOW_LAUNCHES ''count'' MONTHLY 1 ''workflow create/start before execution''
         ''workflow planned/running'' ''planning/start denial or cancellation before execution''
         ''quota_denied:workflow_launches_exhausted'' now,
       catalog_definition RUNTIME_TOOL_CALLS ''count'' DAILY 1 ''tool call creation before invocation''
         ''tool call accepted/running/completed'' ''denial, failed creation, cancellation before invocation''
         ''quota_denied:runtime_tool_calls_exhausted'' now,
       catalog_definition LIVE_VALIDATION_ATTEMPTS ''attempts'' DAILY 1 ''Roadmap 38 live-validation preflight gate''
         ''validation starts or no executor is mounted'' ''denial or unsafe preflight failure before live action''
         ''quota_denied:live_validation_attempts_exhausted'' now,
       catalog_definition INTEGRATION_OPERATIONS ''count'' MONTHLY 1
         ''integration operation handlers before backend operation''
         ''operation record persisted after backend attempt'' ''denial or failed preflight before backend attempt''
         ''quota_denied:integration_operations_exhausted'' now,
       (catalog_definition ARTIFACT_STORAGE_BYTES ''bytes'' MONTHLY 0
         ''artifact write service before writing bytes using estimate'' ''actual bytes known after write''
         ''write failure before consumption or smaller actual refund''
         ''quota_denied:artifact_storage_bytes_exhausted'' now)
         \<lparr>qd_document := Some [(''artifactWriteReservationEstimateBytes'', JNumber (PosInt 4096))]\<rparr>,
       catalog_definition REPLAY_EVALUATION_ATTEMPTS ''attempts'' MONTHLY 1
         ''replay/evaluation attempt creation before work starts''
         ''attempt persisted as accepted/started/completed''
         ''denial or preflight unreplayable before attempt consumption''
         ''quota_denied:replay_evaluation_attempts_exhausted'' now])"

definition definition_for :: "timestamp \<Rightarrow> category \<Rightarrow> quota_definition option" where
  "definition_for wall cat = find (\<lambda>d. qd_category d = cat) (initial_definitions wall wall)"

definition required_categories :: "category list" where
  "required_categories =
     [RUN_LAUNCHES, WORKFLOW_LAUNCHES, RUNTIME_TOOL_CALLS, LIVE_VALIDATION_ATTEMPTS, INTEGRATION_OPERATIONS,
      ARTIFACT_STORAGE_BYTES, REPLAY_EVALUATION_ATTEMPTS]"

section \<open>Periods\<close>

text \<open>
  The calendar of the UTC (chrono): the date of an instant as year, month and day, the midnight a date
  begins with (none when there is no such date), the stamp of a date, the text of an instant to the second and
  its text in JSON.
\<close>

record utc_dates =
  ud_date :: "timestamp \<Rightarrow> int \<times> int \<times> int"
  ud_midnight :: "int \<times> int \<times> int \<Rightarrow> timestamp option"
  ud_stamp :: "timestamp \<Rightarrow> string"
  ud_text :: "timestamp \<Rightarrow> string"
  ud_json :: "timestamp \<Rightarrow> string"

definition DAY :: int where "DAY = 86400 * 10 ^ 9"

definition utc_midnight :: "utc_dates \<Rightarrow> int \<times> int \<times> int \<Rightarrow> timestamp" where
  "utc_midnight dates d = (case ud_midnight dates d of None \<Rightarrow> 0 | Some t \<Rightarrow> t)"

definition period_for :: "utc_dates \<Rightarrow> string \<Rightarrow> timestamp \<Rightarrow> timestamp \<times> timestamp" where
  "period_for dates kind now =
     (if kind = DAILY
      then let start = utc_midnight dates (ud_date dates now) in (start, start + DAY)
      else if kind = MONTHLY
      then (case ud_date dates now of (y, m, d) \<Rightarrow>
              let start = utc_midnight dates (if ud_midnight dates (y, m, 1) = None then (y, m, d) else (y, m, 1))
              in case ud_date dates start of (year, month, _) \<Rightarrow>
                   (start, case ud_midnight dates (if month = 12 then (year + 1, 1, 1) else (year, month + 1, 1)) of
                             None \<Rightarrow> start | Some t \<Rightarrow> t))
      else (0, 253402300799 * 10 ^ 9))"

section \<open>Quotas and denials\<close>

definition effective_usage :: "usage_counter \<Rightarrow> int" where
  "effective_usage c =
     wrap_i64 (wrap_i64 (wrap_i64 (uc_committed c + uc_reserved c) + uc_adjusted c) - uc_carryover c)"

definition project_quota ::
  "tenant_plan \<Rightarrow> quota_definition \<Rightarrow> quota_period \<Rightarrow> usage_counter \<Rightarrow> quota_override option \<Rightarrow> effective_quota" where
  "project_quota plan def period c ov =
     (let lim = (case Option.bind ov qo_limit of None \<Rightarrow> qd_default_limit def | Some l \<Rightarrow> l);
          mode = (if tp_enforcement_mode plan = [] then ENFORCED else tp_enforcement_mode plan);
          remaining = (if mode = UNLIMITED then 0 else wrap_i64 (lim - effective_usage c));
          over = (mode = ENFORCED \<and> remaining < 0)
      in \<lparr>eq_tenant_id = tp_tenant_id plan, eq_plan_key = tp_plan_key plan, eq_category = qd_category def,
          eq_unit = qd_unit def, eq_period_start = qp_start period, eq_period_end = qp_end period,
          eq_period_anchor = PERIOD_ANCHOR_UTC, eq_limit = lim, eq_consumed_amount = uc_committed c,
          eq_reserved_amount = uc_reserved c, eq_adjusted_amount = uc_adjusted c,
          eq_carryover_applied = uc_carryover c, eq_remaining_amount = remaining, eq_enforcement_mode = mode,
          eq_denial_reason_code = (if over then qd_denial_reason_code def else []), eq_over_limit = over\<rparr>)"

definition development_plan :: "string \<Rightarrow> timestamp \<Rightarrow> tenant_plan" where
  "development_plan tid now =
     \<lparr>tp_id = ''plan_'' @ tid @ ''_development'', tp_tenant_id = tid, tp_plan_key = ''development'',
      tp_status = PLAN_ACTIVE, tp_enforcement_mode = UNLIMITED, tp_effective_at = now, tp_superseded_at = None,
      tp_assigned_by_principal_id = [], tp_assignment_reason = [], tp_document = None\<rparr>"

definition new_quota_exhausted_denial ::
  "utc_dates \<Rightarrow> timestamp \<Rightarrow> string \<Rightarrow> category \<Rightarrow> string \<Rightarrow> int \<Rightarrow> int \<Rightarrow> quota_period \<Rightarrow> denial_payload" where
  "new_quota_exhausted_denial dates wall tid cat key requested remaining period =
     (let code = (case definition_for wall cat of
                    Some d \<Rightarrow> if qd_denial_reason_code d \<noteq> [] then qd_denial_reason_code d
                              else ''quota_denied:'' @ cat @ ''_exhausted''
                  | None \<Rightarrow> ''quota_denied:'' @ cat @ ''_exhausted'')
      in \<lparr>dp_code = ''quota_denied'', dp_reason_code = code, dp_tenant_id = tid, dp_category = cat,
          dp_operation_key = key, dp_period_start = ud_text dates (qp_start period),
          dp_period_end = ud_text dates (qp_end period), dp_requested_amount = requested,
          dp_remaining_amount = remaining, dp_message = ''Quota exhausted for '' @ cat @ ''.''\<rparr>)"

definition new_quota_state_unavailable_denial :: "string \<Rightarrow> string \<Rightarrow> denial_payload" where
  "new_quota_state_unavailable_denial tid key =
     \<lparr>dp_code = ''quota_denied'', dp_reason_code = REASON_QUOTA_STATE_UNAVAILABLE, dp_tenant_id = tid,
      dp_category = [], dp_operation_key = key, dp_period_start = [], dp_period_end = [],
      dp_requested_amount = 0, dp_remaining_amount = 0,
      dp_message = ''Quota state is unavailable; hosted work cannot start.''\<rparr>"

section \<open>Operation keys\<close>

fun key_first_non_empty :: "string list \<Rightarrow> nat \<Rightarrow> string" where
  "key_first_non_empty [] n = ''missing_'' @ decimal n"
| "key_first_non_empty (v # vs) n = (if trim v \<noteq> [] then trim v else key_first_non_empty vs n)"

definition key_choice :: "string list \<Rightarrow> string" where
  "key_choice vs = key_first_non_empty vs (length vs)"

definition key_part :: "string \<Rightarrow> string" where
  "key_part p =
     map (\<lambda>c. if c = CHR '':'' then CHR ''_'' else c) (if trim p = [] then ''unknown'' else trim p)"

definition join_operation_key :: "string list \<Rightarrow> string" where
  "join_operation_key parts = join_on CHR '':'' (map key_part parts)"

definition run_operation_key :: "string \<Rightarrow> string \<Rightarrow> string \<Rightarrow> string" where
  "run_operation_key tid client rid = join_operation_key [''tenant'', tid, ''run'', key_choice [client, rid]]"

definition workflow_operation_key :: "string \<Rightarrow> string \<Rightarrow> string \<Rightarrow> string \<Rightarrow> string" where
  "workflow_operation_key tid rid wid client =
     join_operation_key [''tenant'', tid, ''workflow'', rid, key_choice [wid, client]]"

definition tool_call_operation_key :: "string \<Rightarrow> string \<Rightarrow> string \<Rightarrow> string \<Rightarrow> string \<Rightarrow> string" where
  "tool_call_operation_key tid rid sid tcid client =
     join_operation_key [''tenant'', tid, ''tool_call'', rid, sid, key_choice [tcid, client]]"

definition live_validation_operation_key :: "string \<Rightarrow> string \<Rightarrow> string \<Rightarrow> string" where
  "live_validation_operation_key tid vid client =
     join_operation_key [''tenant'', tid, ''live_validation'', key_choice [vid, client]]"

definition integration_operation_key :: "string \<Rightarrow> string \<Rightarrow> string \<Rightarrow> string \<Rightarrow> string" where
  "integration_operation_key tid domain oid client =
     join_operation_key [''tenant'', tid, ''integration'', domain, key_choice [oid, client]]"

definition artifact_operation_key :: "string \<Rightarrow> string \<Rightarrow> string \<Rightarrow> string \<Rightarrow> string" where
  "artifact_operation_key tid aid storage client =
     join_operation_key [''tenant'', tid, ''artifact'', key_choice [aid, storage, client]]"

definition evaluation_operation_key :: "string \<Rightarrow> string \<Rightarrow> string \<Rightarrow> string \<Rightarrow> string" where
  "evaluation_operation_key tid cid aid client =
     join_operation_key [''tenant'', tid, ''evaluation'', cid, key_choice [aid, client]]"

end
