(* ===== verification/Billing.thy ===== *)
theory Billing
  imports Billing_Types Programs
begin

text \<open>
  Quota accounting: \<open>Manager\<close> of crates/domains/billing (manager.rs, lifecycle.rs, admin.rs, recovery.rs,
  preflight.rs, projection.rs) over the tables of crates/persistence/store/src/billing.rs. The store leaves
  the transactional hooks of the repository at their defaults, so the manager runs its own sequence of
  statements, any of which can fail. As in the scheduler, the state says where the clock of the manager,
  the clock of the system and the random identifiers stand. Reservations and resolutions hold the manager's lock.
\<close>

section \<open>State\<close>

record bill_state =
  bl_plans :: "tenant_plan list"
  bl_overrides :: "quota_override list"
  bl_periods :: "quota_period list"
  bl_counters :: "usage_counter list"
  bl_reservations :: "usage_reservation list"
  bl_events :: "usage_event list"
  bl_denials :: "quota_denial list"
  bl_adjustments :: "manual_adjustment list"
  bl_restrictions :: "abuse_restriction list"
  bl_clock :: "nat \<Rightarrow> timestamp"
  bl_wall :: "nat \<Rightarrow> timestamp"
  bl_uuid :: "nat \<Rightarrow> string"
  bl_drawn :: nat
  bl_faults :: "bool list"

type_synonym 'a bill_op = "(bill_state, billing_error, 'a) op"

text \<open>Whether the manager has a repository, and the calendar.\<close>

record bill_env =
  be_repo :: bool
  be_dates :: utc_dates

definition clock_now :: "timestamp bill_op" where
  "clock_now s = (Inr (bl_clock s (bl_drawn s)), s\<lparr>bl_drawn := Suc (bl_drawn s)\<rparr>)"

definition wall_now :: "timestamp bill_op" where
  "wall_now s = (Inr (bl_wall s (bl_drawn s)), s\<lparr>bl_drawn := Suc (bl_drawn s)\<rparr>)"

definition new_billing_id :: "string \<Rightarrow> string bill_op" where
  "new_billing_id prefix s =
     (Inr (prefix @ ''_'' @ take 16 (bl_uuid s (bl_drawn s))), s\<lparr>bl_drawn := Suc (bl_drawn s)\<rparr>)"

text \<open>Defaults the store fills in: an identifier for an empty one, the time for the zero time.\<close>

definition or_new_id :: "string \<Rightarrow> string \<Rightarrow> string bill_op" where
  "or_new_id prefix i = (if i = [] then new_billing_id prefix else return_op i)"

definition or_now :: "timestamp \<Rightarrow> timestamp bill_op" where
  "or_now t = (if t = go_zero_time then wall_now else return_op t)"

text \<open>One statement: it fails when the store does or a constraint refuses it.\<close>

definition bill_call :: "(bill_state \<Rightarrow> ('a \<times> bill_state) option) \<Rightarrow> 'a bill_op" where
  "bill_call f s =
     (let failed = (case bl_faults s of [] \<Rightarrow> False | b # _ \<Rightarrow> b); s1 = s\<lparr>bl_faults := tl (bl_faults s)\<rparr>
      in if failed then (Inl BillingRepository, s1)
         else case f s1 of None \<Rightarrow> (Inl BillingRepository, s1) | Some (x, t) \<Rightarrow> (Inr x, t))"

definition bill_read :: "(bill_state \<Rightarrow> 'a) \<Rightarrow> 'a bill_op" where
  "bill_read f = bill_call (\<lambda>s. Some (f s, s))"

section \<open>Statements\<close>

definition repo_active_plan :: "string \<Rightarrow> tenant_plan option bill_op" where
  "repo_active_plan tid =
     bind_op wall_now (\<lambda>at.
     bill_read (\<lambda>s. newest tp_effective_at tp_id
       (filter (\<lambda>p. tp_tenant_id p = trim tid \<and> tp_status p = PLAN_ACTIVE \<and> tp_effective_at p \<le> at) (bl_plans s))))"

definition superseded_by :: "tenant_plan \<Rightarrow> tenant_plan \<Rightarrow> tenant_plan" where
  "superseded_by new p =
     (if tp_status new = PLAN_ACTIVE \<and> tp_tenant_id p = tp_tenant_id new \<and> tp_status p = PLAN_ACTIVE \<and> tp_id p \<noteq> tp_id new
      then p\<lparr>tp_status := PLAN_SUPERSEDED, tp_superseded_at := Some (tp_effective_at new)\<rparr> else p)"

definition save_plan :: "tenant_plan \<Rightarrow> unit bill_op" where
  "save_plan plan =
     bind_op (or_new_id ''plan'' (tp_id plan)) (\<lambda>pid.
     bind_op (or_now (tp_effective_at plan)) (\<lambda>at.
     let p = plan\<lparr>tp_id := pid, tp_effective_at := at,
                  tp_status := (if tp_status plan = [] then PLAN_ACTIVE else tp_status plan),
                  tp_enforcement_mode := (if tp_enforcement_mode plan = [] then ENFORCED else tp_enforcement_mode plan)\<rparr>
     in bill_call (\<lambda>s. Some ((), s\<lparr>bl_plans := upsert tp_id p (map (superseded_by p) (bl_plans s))\<rparr>))))"

definition repo_quota_override :: "string \<Rightarrow> category \<Rightarrow> timestamp \<Rightarrow> quota_override option bill_op" where
  "repo_quota_override tid cat t =
     bind_op (or_now t) (\<lambda>at.
     bill_read (\<lambda>s. newest qo_effective_at qo_id
       (filter (\<lambda>q. qo_tenant_id q = trim tid \<and> qo_category q = cat \<and> qo_effective_at q \<le> at \<and>
                   (case qo_expires_at q of None \<Rightarrow> True | Some e \<Rightarrow> e > at)) (bl_overrides s))))"

definition save_quota_override :: "quota_override \<Rightarrow> unit bill_op" where
  "save_quota_override q =
     bind_op (or_new_id ''quota_override'' (qo_id q)) (\<lambda>qid.
     bind_op (or_now (qo_effective_at q)) (\<lambda>at.
     bill_call (\<lambda>s. Some ((), s\<lparr>bl_overrides := upsert qo_id (q\<lparr>qo_id := qid, qo_effective_at := at\<rparr>) (bl_overrides s)\<rparr>))))"

definition open_period :: "bill_env \<Rightarrow> string \<Rightarrow> quota_definition \<Rightarrow> timestamp \<Rightarrow> quota_period bill_op" where
  "open_period env tid def at =
     (case period_for (be_dates env) (qd_period_kind def) at of (start, end_) \<Rightarrow>
      let p = \<lparr>qp_id = ''quota_period_'' @ trim tid @ ''_'' @ qd_category def @ ''_'' @ ud_stamp (be_dates env) start,
               qp_tenant_id = trim tid, qp_category = qd_category def, qp_period_kind = qd_period_kind def,
               qp_start = start, qp_end = end_, qp_carryover_from_period_id = [], qp_status = ''open''\<rparr>;
          same = (\<lambda>x. qp_tenant_id x = trim tid \<and> qp_category x = qd_category def \<and> qp_start x = start)
      in then_op
           (bill_call (\<lambda>s. map_option (\<lambda>rows. ((), s\<lparr>bl_periods := rows\<rparr>))
              (upsert_on (\<lambda>x. (qp_tenant_id x, qp_category x, qp_start x)) qp_id (\<lambda>x _. x) p (bl_periods s))))
           (bill_call (\<lambda>s. map_option (\<lambda>x. (x, s)) (find same (bl_periods s)))))"

definition repo_usage_counter :: "string \<Rightarrow> category \<Rightarrow> string \<Rightarrow> usage_counter option bill_op" where
  "repo_usage_counter tid cat pid =
     bill_read (\<lambda>s. find (\<lambda>c. uc_tenant_id c = trim tid \<and> uc_category c = cat \<and> uc_period_id c = trim pid) (bl_counters s))"

abbreviation counter_cols :: "usage_counter \<Rightarrow> string \<times> string \<times> string" where
  "counter_cols c \<equiv> (uc_tenant_id c, uc_category c, uc_period_id c)"

definition save_usage_counter :: "usage_counter \<Rightarrow> unit bill_op" where
  "save_usage_counter c =
     bind_op (or_new_id ''usage_counter'' (uc_id c)) (\<lambda>cid.
     bind_op (or_now (uc_updated_at c)) (\<lambda>at.
     bill_call (\<lambda>s. map_option (\<lambda>rows. ((), s\<lparr>bl_counters := rows\<rparr>))
       (upsert_on counter_cols uc_id
          (\<lambda>old new. new\<lparr>uc_id := uc_id old\<rparr>) (c\<lparr>uc_id := cid, uc_updated_at := at\<rparr>) (bl_counters s)))))"

abbreviation reservation_cols :: "usage_reservation \<Rightarrow> string \<times> string \<times> string" where
  "reservation_cols r \<equiv> (ur_tenant_id r, ur_category r, ur_operation_key r)"

definition reservation_by_operation :: "string \<Rightarrow> category \<Rightarrow> string \<Rightarrow> usage_reservation option bill_op" where
  "reservation_by_operation tid cat key =
     bill_read (\<lambda>s. find (\<lambda>r. reservation_cols r = (trim tid, cat, trim key)) (bl_reservations s))"

definition reservation_by_id :: "string \<Rightarrow> string \<Rightarrow> usage_reservation option bill_op" where
  "reservation_by_id tid rid =
     bill_read (\<lambda>s. find (\<lambda>r. ur_tenant_id r = trim tid \<and> ur_id r = trim rid) (bl_reservations s))"

definition save_reservation :: "usage_reservation \<Rightarrow> unit bill_op" where
  "save_reservation r =
     bind_op (or_new_id ''reservation'' (ur_id r)) (\<lambda>rid.
     bind_op wall_now (\<lambda>now.
     let r' = r\<lparr>ur_id := rid, ur_created_at := (if ur_created_at r = go_zero_time then now else ur_created_at r),
                ur_updated_at := (if ur_updated_at r = go_zero_time then now else ur_updated_at r)\<rparr>
     in bill_call (\<lambda>s. map_option (\<lambda>rows. ((), s\<lparr>bl_reservations := rows\<rparr>))
          (upsert_on reservation_cols ur_id
             (\<lambda>old new. new\<lparr>ur_id := ur_id old, ur_created_at := ur_created_at old\<rparr>) r' (bl_reservations s)))))"

definition append_usage_event :: "usage_event \<Rightarrow> unit bill_op" where
  "append_usage_event e =
     bind_op (or_new_id ''usage_event'' (ue_id e)) (\<lambda>eid.
     bind_op (or_now (ue_created_at e)) (\<lambda>at.
     bill_call (\<lambda>s. Some ((), s\<lparr>bl_events := insert_new ue_id (e\<lparr>ue_id := eid, ue_created_at := at\<rparr>) (bl_events s)\<rparr>))))"

definition append_quota_denial :: "quota_denial \<Rightarrow> unit bill_op" where
  "append_quota_denial d =
     bind_op (or_new_id ''denial'' (dn_id d)) (\<lambda>did.
     bind_op (or_now (dn_created_at d)) (\<lambda>at.
     bill_call (\<lambda>s. Some ((), s\<lparr>bl_denials := insert_new dn_id (d\<lparr>dn_id := did, dn_created_at := at\<rparr>) (bl_denials s)\<rparr>))))"

definition save_manual_adjustment :: "manual_adjustment \<Rightarrow> unit bill_op" where
  "save_manual_adjustment a =
     bind_op (or_new_id ''manual_adjustment'' (ma_id a)) (\<lambda>aid.
     bind_op (or_now (ma_created_at a)) (\<lambda>at.
     bill_call (\<lambda>s. Some ((), s\<lparr>bl_adjustments := upsert ma_id (a\<lparr>ma_id := aid, ma_created_at := at\<rparr>) (bl_adjustments s)\<rparr>))))"

definition list_pending_reservations :: "usage_reservation list bill_op" where
  "list_pending_reservations =
     bill_read (\<lambda>s. ordered ur_updated_at ur_id (filter (\<lambda>r. ur_status r = RESERVED) (bl_reservations s)))"

definition list_quota_denials :: "string \<Rightarrow> nat \<Rightarrow> quota_denial list bill_op" where
  "list_quota_denials tid n =
     bill_read (\<lambda>s. take (if n = 0 then 100 else n)
       (newest_first dn_created_at dn_id (filter (\<lambda>d. dn_tenant_id d = trim tid) (bl_denials s))))"

definition list_manual_adjustments :: "string \<Rightarrow> nat \<Rightarrow> manual_adjustment list bill_op" where
  "list_manual_adjustments tid n =
     bill_read (\<lambda>s. take (if n = 0 then 100 else n)
       (newest_first ma_created_at ma_id (filter (\<lambda>a. ma_tenant_id a = trim tid) (bl_adjustments s))))"

section \<open>Reservations\<close>

definition denied_result :: "string \<Rightarrow> string \<Rightarrow> reserve_result" where
  "denied_result tid key =
     result_default\<lparr>rr_denial := Some (new_quota_state_unavailable_denial tid key),
       rr_failure := Some QuotaStateUnavailable\<rparr>"

definition reserve_amount :: "reserve_input \<Rightarrow> int" where
  "reserve_amount inp = (if ri_amount inp \<le> 0 then 1 else ri_amount inp)"

text \<open>What is answered when the operation has a reservation already.\<close>

definition replayed_result :: "bill_env \<Rightarrow> timestamp \<Rightarrow> reserve_input \<Rightarrow> quota_period \<Rightarrow> usage_reservation \<Rightarrow> reserve_result" where
  "replayed_result env wall inp period r =
     (if ur_status r = OPERATOR_ACTION_NEEDED
      then result_default\<lparr>rr_reservation := Some r,
             rr_denial := Some (new_quota_state_unavailable_denial (ri_tenant_id inp) (ri_operation_key inp)),
             rr_failure := Some OperatorActionRequired\<rparr>
      else if ur_status r = DENIED
      then result_default\<lparr>rr_reservation := Some r,
             rr_denial := Some (new_quota_exhausted_denial (be_dates env) wall (ri_tenant_id inp) (ri_category inp)
               (ri_operation_key inp) (reserve_amount inp) 0 period),
             rr_failure := Some QuotaDenied\<rparr>
      else result_default\<lparr>rr_allowed := True, rr_reservation := Some r\<rparr>)"

definition new_counter :: "timestamp \<Rightarrow> reserve_input \<Rightarrow> quota_period \<Rightarrow> usage_counter" where
  "new_counter now inp period =
     \<lparr>uc_id = ''usage_counter_'' @ ri_tenant_id inp @ ''_'' @ ri_category inp @ ''_'' @ qp_id period,
      uc_tenant_id = ri_tenant_id inp, uc_category = ri_category inp, uc_period_id = qp_id period,
      uc_committed = 0, uc_reserved = 0, uc_adjusted = 0, uc_carryover = 0, uc_updated_at = now\<rparr>"

definition new_reservation :: "timestamp \<Rightarrow> reserve_input \<Rightarrow> quota_period \<Rightarrow> string \<Rightarrow> usage_reservation" where
  "new_reservation now inp period status =
     reservation_default\<lparr>ur_id := ''reservation_'' @ ri_operation_key inp, ur_tenant_id := ri_tenant_id inp,
       ur_category := ri_category inp, ur_period_id := qp_id period, ur_operation_key := ri_operation_key inp,
       ur_reserved := reserve_amount inp, ur_status := status, ur_reservation_point := ri_reservation_point inp,
       ur_created_at := now, ur_updated_at := now\<rparr>"

definition reserve_event :: "timestamp \<Rightarrow> reserve_input \<Rightarrow> quota_period \<Rightarrow> string \<Rightarrow> string \<Rightarrow> string \<Rightarrow> string \<Rightarrow> usage_event" where
  "reserve_event now inp period i kind code outcome =
     event_default\<lparr>ue_id := i @ ri_operation_key inp, ue_tenant_id := ri_tenant_id inp, ue_category := ri_category inp,
       ue_period_id := qp_id period, ue_operation_key := ri_operation_key inp, ue_kind := kind,
       ue_amount := reserve_amount inp, ue_reason_code := code, ue_outcome := outcome, ue_created_at := now\<rparr>"

definition deny_reservation ::
  "bill_env \<Rightarrow> timestamp \<Rightarrow> timestamp \<Rightarrow> reserve_input \<Rightarrow> quota_period \<Rightarrow> effective_quota \<Rightarrow> reserve_result bill_op" where
  "deny_reservation env wall now inp period quota =
     (let amount = reserve_amount inp;
          payload = new_quota_exhausted_denial (be_dates env) wall (ri_tenant_id inp) (ri_category inp)
                      (ri_operation_key inp) amount (eq_remaining_amount quota) period;
          r = new_reservation now inp period DENIED;
          denial = \<lparr>dn_id = ''denial_'' @ ri_operation_key inp, dn_tenant_id = ri_tenant_id inp,
                    dn_category = ri_category inp, dn_period_id = qp_id period,
                    dn_operation_key = ri_operation_key inp, dn_reason_code = dp_reason_code payload,
                    dn_requested_amount = amount, dn_remaining_amount = eq_remaining_amount quota,
                    dn_guarded_entry_point = ri_guarded_entry_point inp, dn_created_at = now\<rparr>
      in then_op (save_reservation r)
         (then_op (append_quota_denial denial)
         (then_op (attempt_op (append_usage_event
            (reserve_event now inp period ''usage_event_denial_'' ''denial'' (dp_reason_code payload) ''denied'')))
         (return_op \<lparr>rr_allowed = False, rr_reservation = Some r, rr_denial = Some payload, rr_quota = Some quota,
                     rr_failure = Some QuotaDenied\<rparr>))))"

definition grant_reservation ::
  "timestamp \<Rightarrow> reserve_input \<Rightarrow> quota_period \<Rightarrow> usage_counter \<Rightarrow> effective_quota \<Rightarrow> reserve_result bill_op" where
  "grant_reservation now inp period c quota =
     (let r = new_reservation now inp period RESERVED
      in then_op (save_usage_counter (c\<lparr>uc_reserved := wrap_i64 (uc_reserved c + reserve_amount inp), uc_updated_at := now\<rparr>))
         (then_op (save_reservation r)
         (then_op (append_usage_event
            ((reserve_event now inp period ''usage_event_reserved_'' ''reservation'' ''usage_reserved'' ''reserved'')
               \<lparr>ue_actor_principal_id := ri_actor_principal_id inp\<rparr>))
         (return_op (result_default\<lparr>rr_allowed := True, rr_reservation := Some r, rr_quota := Some quota\<rparr>)))))"

definition reserve_in_period ::
  "bill_env \<Rightarrow> timestamp \<Rightarrow> timestamp \<Rightarrow> reserve_input \<Rightarrow> tenant_plan \<Rightarrow> quota_definition \<Rightarrow> quota_period \<Rightarrow> reserve_result bill_op" where
  "reserve_in_period env wall now inp plan def period =
     bind_op (reservation_by_operation (ri_tenant_id inp) (ri_category inp) (ri_operation_key inp)) (\<lambda>ro.
     case ro of
       Some r \<Rightarrow> return_op (replayed_result env wall inp period r)
     | None \<Rightarrow>
         bind_op (repo_usage_counter (ri_tenant_id inp) (ri_category inp) (qp_id period)) (\<lambda>co.
         bind_op (repo_quota_override (ri_tenant_id inp) (ri_category inp) now) (\<lambda>ov.
         let c = (case co of Some c \<Rightarrow> c | None \<Rightarrow> new_counter now inp period);
             quota = project_quota plan def period c ov
         in if eq_remaining_amount quota < reserve_amount inp
            then deny_reservation env wall now inp period quota
            else grant_reservation now inp period c quota)))"

definition reserve :: "bill_env \<Rightarrow> reserve_input \<Rightarrow> reserve_result bill_op" where
  "reserve env inp =
     (let unavailable = denied_result (ri_tenant_id inp) (ri_operation_key inp) in
      if \<not> be_repo env
      then return_op (if ri_hosted inp then unavailable else result_default\<lparr>rr_allowed := True\<rparr>)
      else bind_op clock_now (\<lambda>now.
        bind_op wall_now (\<lambda>wall.
        case definition_for wall (ri_category inp) of
          None \<Rightarrow> fail_op (UnknownCategory (ri_category inp))
        | Some def \<Rightarrow>
            bind_op (repo_active_plan (ri_tenant_id inp)) (\<lambda>po.
            if po = None \<and> ri_hosted inp then return_op unavailable
            else let plan = (case po of Some p \<Rightarrow> p | None \<Rightarrow> development_plan (ri_tenant_id inp) now)
              in if tp_enforcement_mode plan = UNLIMITED then return_op (result_default\<lparr>rr_allowed := True\<rparr>)
                 else bind_op (attempt_op (open_period env (ri_tenant_id inp) def now)) (\<lambda>pr.
                   case pr of
                     Inl e \<Rightarrow> if ri_hosted inp then return_op unavailable else fail_op e
                   | Inr period \<Rightarrow> reserve_in_period env wall now inp plan def period)))))"

section \<open>Resolution\<close>

definition resolve_amount :: "resolve_input \<Rightarrow> usage_reservation \<Rightarrow> int" where
  "resolve_amount inp r = (if rv_amount inp \<le> 0 then ur_reserved r else rv_amount inp)"

text \<open>What a resolution does to the counter and the reservation, apart from time and status.\<close>

definition resolve_accounts ::
  "resolve_input \<Rightarrow> string \<Rightarrow> usage_counter \<Rightarrow> usage_reservation \<Rightarrow> usage_counter \<times> usage_reservation" where
  "resolve_accounts inp status c r =
     (let amount = resolve_amount inp r;
          open_amount = min (uc_reserved c) (wrap_i64 (ur_reserved r - ur_refunded r))
      in if status = COMMITTED
         then (c\<lparr>uc_reserved := wrap_i64 (uc_reserved c - open_amount),
                 uc_committed := wrap_i64 (uc_committed c + wrap_i64 (amount - ur_committed r))\<rparr>,
               r\<lparr>ur_committed := amount,
                 ur_refunded := (if amount < ur_reserved r then wrap_i64 (ur_refunded r + wrap_i64 (ur_reserved r - amount))
                                 else ur_refunded r)\<rparr>)
         else if status = REFUNDED \<or> status = RELEASED
         then (c\<lparr>uc_reserved := wrap_i64 (uc_reserved c - open_amount)\<rparr>,
               r\<lparr>ur_refunded := wrap_i64 (ur_refunded r + open_amount)\<rparr>)
         else if status = OPERATOR_ACTION_NEEDED
         then (c, r\<lparr>ur_recovery_reason := rv_reason inp\<rparr>)
         else (c, r))"

definition resolve_reservation_to :: "bill_env \<Rightarrow> resolve_input \<Rightarrow> string \<Rightarrow> string \<Rightarrow> usage_reservation bill_op" where
  "resolve_reservation_to env inp status kind =
     (if \<not> be_repo env then return_op reservation_default
      else bind_op clock_now (\<lambda>_.
        bind_op clock_now (\<lambda>now.
        bind_op (reservation_by_operation (rv_tenant_id inp) (rv_category inp) (rv_operation_key inp)) (\<lambda>ro.
        case ro of
          None \<Rightarrow> fail_op (ReservationNotFound (rv_operation_key inp))
        | Some r \<Rightarrow>
            if ur_status r = status then return_op r
            else bind_op (repo_usage_counter (rv_tenant_id inp) (rv_category inp) (ur_period_id r)) (\<lambda>co.
              case co of
                None \<Rightarrow> fail_op (CounterNotFound (ur_id r))
              | Some c \<Rightarrow>
                  let (c1, r1) = resolve_accounts inp status c r;
                      r2 = r1\<lparr>ur_status := status, ur_updated_at := now\<rparr>
                  in then_op (save_usage_counter (c1\<lparr>uc_updated_at := now\<rparr>))
                     (then_op (save_reservation r2)
                     (then_op (append_usage_event (event_default\<lparr>ue_id := ''usage_event_'' @ kind @ ''_'' @ rv_operation_key inp,
                        ue_tenant_id := rv_tenant_id inp, ue_category := rv_category inp, ue_period_id := ur_period_id r,
                        ue_operation_key := rv_operation_key inp, ue_kind := kind, ue_amount := resolve_amount inp r,
                        ue_reason_code := (if rv_reason_code inp = [] then kind else rv_reason_code inp),
                        ue_reason := rv_reason inp, ue_actor_principal_id := rv_actor_principal_id inp,
                        ue_outcome := status, ue_created_at := now\<rparr>))
                     (return_op r2))))))))"

definition commit :: "bill_env \<Rightarrow> resolve_input \<Rightarrow> usage_reservation bill_op" where
  "commit env inp = resolve_reservation_to env inp COMMITTED ''commit''"

definition refund :: "bill_env \<Rightarrow> resolve_input \<Rightarrow> usage_reservation bill_op" where
  "refund env inp = resolve_reservation_to env inp REFUNDED ''refund''"

definition release :: "bill_env \<Rightarrow> resolve_input \<Rightarrow> usage_reservation bill_op" where
  "release env inp = resolve_reservation_to env inp RELEASED ''release''"

definition mark_operator_action_needed :: "bill_env \<Rightarrow> resolve_input \<Rightarrow> usage_reservation bill_op" where
  "mark_operator_action_needed env inp =
     (if rv_reason inp = [] then fail_op ReasonRequired
      else resolve_reservation_to env inp OPERATOR_ACTION_NEEDED ''recovery_decision'')"

section \<open>Several categories\<close>

definition release_input :: "usage_reservation \<Rightarrow> resolve_input" where
  "release_input r =
     \<lparr>rv_tenant_id = ur_tenant_id r, rv_category = ur_category r, rv_operation_key = ur_operation_key r,
      rv_amount = ur_reserved r, rv_reason_code = ''billing.multi_category_reservation_released'',
      rv_reason = ''multi-category reservation denied'', rv_actor_principal_id = []\<rparr>"

definition release_prior_reservations :: "bill_env \<Rightarrow> reserve_result list \<Rightarrow> unit bill_op" where
  "release_prior_reservations env results =
     then_op (each_op (\<lambda>prior.
        case rr_reservation prior of
          None \<Rightarrow> return_op ()
        | Some r \<Rightarrow> then_op (attempt_op (release env (release_input r))) (return_op ())) (butlast results))
     (return_op ())"

fun reserve_each :: "bill_env \<Rightarrow> reserve_input list \<Rightarrow> reserve_result list \<Rightarrow> reserve_all_result bill_op" where
  "reserve_each env [] results =
     return_op \<lparr>ra_allowed = True, ra_results = results, ra_denial = None, ra_failure = None\<rparr>"
| "reserve_each env (inp # inps) results =
     bind_op (attempt_op (reserve env inp)) (\<lambda>res.
     case res of
       Inl e \<Rightarrow>
         (let rs = results @ [result_default]
          in then_op (release_prior_reservations env rs)
             (return_op \<lparr>ra_allowed = False, ra_results = rs, ra_denial = None, ra_failure = Some e\<rparr>))
     | Inr r \<Rightarrow>
         (let rs = results @ [r]
          in if rr_failure r \<noteq> None \<or> \<not> rr_allowed r
             then then_op (release_prior_reservations env rs)
                  (return_op \<lparr>ra_allowed = False, ra_results = rs, ra_denial = rr_denial r, ra_failure = rr_failure r\<rparr>)
             else reserve_each env inps rs))"

definition reserve_all :: "bill_env \<Rightarrow> reserve_input list \<Rightarrow> reserve_all_result bill_op" where
  "reserve_all env inps =
     (if be_repo env then bind_op clock_now (\<lambda>_. reserve_each env inps []) else reserve_each env inps [])"

section \<open>Recovery\<close>

text \<open>\<open>decide\<close> is the optional callback of the caller.\<close>

definition recovery_of :: "(usage_reservation \<Rightarrow> recovery_decision) option \<Rightarrow> usage_reservation \<Rightarrow> recovery_decision" where
  "recovery_of decide r =
     (case decide of
        None \<Rightarrow> \<lparr>rd_reservation = r, rd_outcome = OPERATOR_ACTION_NEEDED,
                 rd_reason = ''restart outcome could not be proven''\<rparr>
      | Some f \<Rightarrow>
          (let d = f r;
               d1 = (if ur_id (rd_reservation d) = [] then d\<lparr>rd_reservation := r\<rparr> else d)
           in if rd_outcome d1 = [] then d1\<lparr>rd_outcome := OPERATOR_ACTION_NEEDED\<rparr> else d1))"

definition recover_reservation ::
  "bill_env \<Rightarrow> (usage_reservation \<Rightarrow> recovery_decision) option \<Rightarrow> usage_reservation \<Rightarrow> recovery_decision bill_op" where
  "recover_reservation env decide r =
     (let d = recovery_of decide r;
          inp = \<lparr>rv_tenant_id = ur_tenant_id r, rv_category = ur_category r, rv_operation_key = ur_operation_key r,
                 rv_amount = ur_reserved r, rv_reason_code = ''billing.reservation_recovery_decided'',
                 rv_reason = rd_reason d, rv_actor_principal_id = []\<rparr>
      in then_op (if rd_outcome d = COMMITTED then commit env inp
                  else if rd_outcome d = RELEASED then release env inp
                  else if rd_outcome d = REFUNDED then refund env inp
                  else mark_operator_action_needed env inp)
         (return_op d))"

definition recover_pending_reservations ::
  "bill_env \<Rightarrow> (usage_reservation \<Rightarrow> recovery_decision) option \<Rightarrow> recovery_decision list bill_op" where
  "recover_pending_reservations env decide =
     (if \<not> be_repo env then return_op []
      else bind_op list_pending_reservations (each_op (recover_reservation env decide)))"

section \<open>Administration\<close>

definition assign_plan :: "bill_env \<Rightarrow> tenant_plan \<Rightarrow> string \<Rightarrow> string \<Rightarrow> unit bill_op" where
  "assign_plan env plan actor reason =
     (if trim reason = [] then fail_op ReasonRequired
      else if \<not> be_repo env then fail_op (NotSupported ''admin plan assignment'')
      else bind_op (if tp_effective_at plan = go_zero_time then clock_now else return_op (tp_effective_at plan)) (\<lambda>at.
        let p = plan\<lparr>tp_assignment_reason := (if tp_assignment_reason plan = [] then reason else tp_assignment_reason plan),
                     tp_assigned_by_principal_id :=
                       (if tp_assigned_by_principal_id plan = [] then actor else tp_assigned_by_principal_id plan),
                     tp_status := (if tp_status plan = [] then PLAN_ACTIVE else tp_status plan),
                     tp_enforcement_mode := (if tp_enforcement_mode plan = [] then ENFORCED else tp_enforcement_mode plan),
                     tp_effective_at := at\<rparr>
        in then_op (save_plan p)
           (bind_op clock_now (\<lambda>now.
            append_usage_event (event_default\<lparr>ue_id := ''usage_event_plan_changed_'' @ tp_tenant_id p @ ''_'' @ tp_id p,
              ue_tenant_id := tp_tenant_id p, ue_kind := ''plan_changed'', ue_reason_code := ''billing.plan_changed'',
              ue_reason := reason, ue_actor_principal_id := actor, ue_outcome := ''succeeded'', ue_created_at := now\<rparr>)))))"

definition apply_quota_override :: "bill_env \<Rightarrow> quota_override \<Rightarrow> unit bill_op" where
  "apply_quota_override env ov =
     (if trim (qo_reason ov) = [] then fail_op ReasonRequired
      else if \<not> be_repo env then fail_op (NotSupported ''quota overrides'')
      else bind_op (if qo_effective_at ov = go_zero_time then clock_now else return_op (qo_effective_at ov)) (\<lambda>at.
        then_op (save_quota_override (ov\<lparr>qo_effective_at := at\<rparr>))
        (bind_op clock_now (\<lambda>now.
         append_usage_event (event_default\<lparr>ue_id := ''usage_event_quota_override_'' @ qo_tenant_id ov @ ''_'' @ qo_category ov,
           ue_tenant_id := qo_tenant_id ov, ue_category := qo_category ov, ue_kind := ''quota_override_changed'',
           ue_reason_code := ''billing.quota_override_changed'', ue_reason := qo_reason ov,
           ue_actor_principal_id := qo_created_by_principal_id ov, ue_outcome := ''succeeded'', ue_created_at := now\<rparr>)))))"

definition adjusted_counter :: "int \<Rightarrow> timestamp \<Rightarrow> usage_counter \<Rightarrow> usage_counter" where
  "adjusted_counter delta now c = c\<lparr>uc_adjusted := wrap_i64 (uc_adjusted c + delta), uc_updated_at := now\<rparr>"

text \<open>An adjustment does not take the lock of the manager: it reads the counter, and writes it later.\<close>

definition adjustment_read :: "bill_env \<Rightarrow> manual_adjustment \<Rightarrow> usage_counter option bill_op" where
  "adjustment_read env adj =
     (if trim (ma_reason adj) = [] then fail_op ReasonRequired
      else if \<not> be_repo env then fail_op (NotSupported ''manual adjustments'')
      else bind_op wall_now (\<lambda>wall.
        if definition_for wall (ma_category adj) = None then fail_op (UnknownCategory (ma_category adj))
        else bind_op (repo_usage_counter (ma_tenant_id adj) (ma_category adj) (ma_period_id adj)) (\<lambda>co.
          if (case co of None \<Rightarrow> False | Some c \<Rightarrow>
                wrap_i64 (wrap_i64 (wrap_i64 (uc_committed c + uc_reserved c) + uc_adjusted c) + ma_amount_delta adj) < 0)
          then fail_op NegativeEffectiveUsage
          else return_op co)))"

definition adjustment_write :: "manual_adjustment \<Rightarrow> usage_counter option \<Rightarrow> unit bill_op" where
  "adjustment_write adj co =
     then_op (save_manual_adjustment adj)
     (then_op (case co of
                 None \<Rightarrow> return_op ()
               | Some c \<Rightarrow> bind_op clock_now (\<lambda>now. save_usage_counter (adjusted_counter (ma_amount_delta adj) now c)))
     (bind_op clock_now (\<lambda>now.
      append_usage_event (event_default\<lparr>ue_id := ''usage_event_adjustment_'' @ ma_tenant_id adj @ ''_'' @ ma_id adj,
        ue_tenant_id := ma_tenant_id adj, ue_category := ma_category adj, ue_period_id := ma_period_id adj,
        ue_kind := ''manual_adjustment'', ue_amount := ma_amount_delta adj,
        ue_reason_code := ''billing.manual_adjustment_created'', ue_reason := ma_reason adj,
        ue_actor_principal_id := ma_created_by_principal_id adj, ue_outcome := ''succeeded'',
        ue_created_at := now\<rparr>))))"

definition apply_manual_adjustment :: "bill_env \<Rightarrow> manual_adjustment \<Rightarrow> unit bill_op" where
  "apply_manual_adjustment env adj = bind_op (adjustment_read env adj) (adjustment_write adj)"

definition resolve_reservation :: "bill_env \<Rightarrow> resolve_reservation_input \<Rightarrow> usage_reservation bill_op" where
  "resolve_reservation env inp =
     (if trim (rri_reason inp) = [] then fail_op ReasonRequired
      else if \<not> be_repo env then fail_op (NotSupported ''reservation resolution'')
      else bind_op (reservation_by_id (rri_tenant_id inp) (rri_reservation_id inp)) (\<lambda>ro.
        case ro of
          None \<Rightarrow> fail_op (ReservationIdNotFound (rri_reservation_id inp))
        | Some r \<Rightarrow>
            let rv = \<lparr>rv_tenant_id = rri_tenant_id inp, rv_category = ur_category r, rv_operation_key = ur_operation_key r,
                      rv_amount = rri_amount inp, rv_reason_code = ''billing.reservation_resolved'',
                      rv_reason = rri_reason inp, rv_actor_principal_id = rri_actor_principal_id inp\<rparr>
            in if rri_outcome inp = COMMITTED then commit env rv
               else if rri_outcome inp = REFUNDED then refund env rv
               else if rri_outcome inp = RELEASED then release env rv
               else if rri_outcome inp = OPERATOR_ACTION_NEEDED then mark_operator_action_needed env rv
               else fail_op (UnsupportedResolutionOutcome (rri_outcome inp))))"

section \<open>Projections and the preflight gate\<close>

definition active_plan :: "bill_env \<Rightarrow> string \<Rightarrow> bool \<Rightarrow> tenant_plan bill_op" where
  "active_plan env tid hosted =
     bind_op clock_now (\<lambda>now.
     if \<not> be_repo env
     then (if hosted then fail_op QuotaStateUnavailable else return_op (development_plan tid now))
     else bind_op (repo_active_plan tid) (\<lambda>po.
       case po of
         Some p \<Rightarrow> return_op p
       | None \<Rightarrow> if hosted then fail_op QuotaStateUnavailable else return_op (development_plan tid now)))"

definition synthetic_period :: "utc_dates \<Rightarrow> string \<Rightarrow> quota_definition \<Rightarrow> timestamp \<Rightarrow> quota_period" where
  "synthetic_period dates tid def now =
     (case period_for dates (qd_period_kind def) now of (start, end_) \<Rightarrow>
        \<lparr>qp_id = ''quota_period_'' @ tid @ ''_'' @ qd_category def @ ''_'' @ ud_stamp dates start, qp_tenant_id = tid,
         qp_category = qd_category def, qp_period_kind = qd_period_kind def, qp_start = start, qp_end = end_,
         qp_carryover_from_period_id = [], qp_status = ''open''\<rparr>)"

definition summary_counter :: "timestamp \<Rightarrow> string \<Rightarrow> quota_definition \<Rightarrow> quota_period \<Rightarrow> usage_counter" where
  "summary_counter now tid def period =
     \<lparr>uc_id = [], uc_tenant_id = tid, uc_category = qd_category def, uc_period_id = qp_id period, uc_committed = 0,
      uc_reserved = 0, uc_adjusted = 0, uc_carryover = 0, uc_updated_at = now\<rparr>"

definition summarize_quota :: "bill_env \<Rightarrow> string \<Rightarrow> timestamp \<Rightarrow> tenant_plan \<Rightarrow> quota_definition \<Rightarrow> effective_quota bill_op" where
  "summarize_quota env tid now plan def =
     (if \<not> be_repo env
      then let period = synthetic_period (be_dates env) tid def now
           in return_op (project_quota plan def period (summary_counter now tid def period) None)
      else bind_op (open_period env tid def now) (\<lambda>period.
        bind_op (repo_usage_counter tid (qd_category def) (qp_id period)) (\<lambda>co.
        bind_op (repo_quota_override tid (qd_category def) now) (\<lambda>ov.
        return_op (project_quota plan def period
          (case co of Some c \<Rightarrow> c | None \<Rightarrow> summary_counter now tid def period) ov)))))"

definition summarize_usage :: "bill_env \<Rightarrow> string \<Rightarrow> bool \<Rightarrow> usage_summary bill_op" where
  "summarize_usage env tid hosted =
     bind_op (active_plan env tid hosted) (\<lambda>plan.
     bind_op clock_now (\<lambda>now.
     bind_op wall_now (\<lambda>wall.
     bind_op (each_op (summarize_quota env tid now plan) (initial_definitions wall now)) (\<lambda>quotas.
     bind_op (if be_repo env then list_quota_denials tid 100 else return_op []) (\<lambda>denials.
     bind_op (if be_repo env then list_manual_adjustments tid 100 else return_op []) (\<lambda>adjustments.
     return_op \<lparr>us_tenant_id = tid, us_plan_key = tp_plan_key plan, us_enforcement_mode = tp_enforcement_mode plan,
                us_quotas = quotas, us_manual_adjustments = adjustments, us_denials = denials\<rparr>))))))"

definition LIVE_VALIDATION_PREFLIGHT_ENTRY_POINT :: string where
  "LIVE_VALIDATION_PREFLIGHT_ENTRY_POINT = ''Roadmap 38 live-validation preflight gate''"

text \<open>\<open>env\<close> is none when there is no manager.\<close>

definition reserve_live_validation_preflight ::
  "bill_env option \<Rightarrow> string \<Rightarrow> string \<Rightarrow> string \<Rightarrow> bool \<Rightarrow> reserve_result bill_op" where
  "reserve_live_validation_preflight eo tid vid client hosted =
     (let key = live_validation_operation_key tid vid client in
      case eo of
        None \<Rightarrow> return_op (if hosted then denied_result tid key else result_default\<lparr>rr_allowed := True\<rparr>)
      | Some env \<Rightarrow>
          reserve env \<lparr>ri_tenant_id = tid, ri_category = LIVE_VALIDATION_ATTEMPTS, ri_amount = 1, ri_operation_key = key,
            ri_reservation_point = LIVE_VALIDATION_PREFLIGHT_ENTRY_POINT,
            ri_guarded_entry_point = LIVE_VALIDATION_PREFLIGHT_ENTRY_POINT, ri_actor_principal_id = [], ri_hosted = hosted\<rparr>)"

end
