(* ===== verification/Billing_Accounts.thy ===== *)
theory Billing_Accounts
  imports Billing Registry
begin

text \<open>
  The accounts: what the counters of the quota periods have to do with the reservations. As long as no
  statement fails and reservations go through the states of the data model (specs/023, section on state
  transitions), the reserved amount of a counter is the sum of the pending reservations of its tenant,
  category and period, and the committed amount the sum of the committed ones.
\<close>

section \<open>Accounts\<close>

abbreviation account :: "usage_reservation \<Rightarrow> string \<times> string \<times> string" where
  "account r \<equiv> (ur_tenant_id r, ur_category r, ur_period_id r)"

definition pending :: "usage_reservation \<Rightarrow> bool" where
  "pending r \<longleftrightarrow> ur_status r = RESERVED \<or> ur_status r = OPERATOR_ACTION_NEEDED"

definition held :: "string \<times> string \<times> string \<Rightarrow> usage_reservation \<Rightarrow> int" where
  "held a r = (if account r = a \<and> pending r then ur_reserved r else 0)"

definition spent :: "string \<times> string \<times> string \<Rightarrow> usage_reservation \<Rightarrow> int" where
  "spent a r = (if account r = a \<and> ur_status r = COMMITTED then ur_committed r else 0)"

definition reservation_ok :: "usage_reservation \<Rightarrow> bool" where
  "reservation_ok r \<longleftrightarrow> ur_id r = ''reservation_'' @ ur_operation_key r \<and>
     trim (ur_tenant_id r) = ur_tenant_id r \<and> trim (ur_operation_key r) = ur_operation_key r \<and>
     trim (ur_period_id r) = ur_period_id r \<and> 0 < ur_reserved r \<and> ur_reserved r < 2 ^ 60 \<and>
     (pending r \<longrightarrow> ur_committed r = 0 \<and> ur_refunded r = 0)"

definition accounts_ok :: "usage_counter list \<Rightarrow> usage_reservation list \<Rightarrow> bool" where
  "accounts_ok C R \<longleftrightarrow> distinct (map counter_cols C) \<and> distinct (map reservation_cols R) \<and>
     (\<forall>c \<in> set C. uc_reserved c = sum_list (map (held (counter_cols c)) R) \<and>
                  uc_committed c = sum_list (map (spent (counter_cols c)) R)) \<and>
     (\<forall>r \<in> set R. reservation_ok r \<and> (ur_status r \<noteq> DENIED \<longrightarrow> account r \<in> counter_cols ` set C))"

definition in_range :: "usage_counter list \<Rightarrow> bool" where
  "in_range C \<longleftrightarrow> (\<forall>c \<in> set C. \<bar>uc_reserved c\<bar> < 2 ^ 60 \<and> \<bar>uc_committed c\<bar> < 2 ^ 60)"

definition books :: "usage_counter list \<Rightarrow> usage_reservation list \<Rightarrow> bill_state \<Rightarrow> bool" where
  "books C R s \<longleftrightarrow> bl_counters s = C \<and> bl_reservations s = R \<and> bl_faults s = [] \<and>
     (\<forall>p \<in> set (bl_periods s). trim (qp_id p) = qp_id p)"

definition bill_ok :: "bill_state \<Rightarrow> bool" where
  "bill_ok s \<longleftrightarrow> books (bl_counters s) (bl_reservations s) s \<and> accounts_ok (bl_counters s) (bl_reservations s)"

lemma bill_okI: "books C R s \<Longrightarrow> accounts_ok C R \<Longrightarrow> bill_ok s"
  by (simp add: bill_ok_def books_def)

lemma status_cases [simp]:
  "RESERVED \<noteq> COMMITTED" "RESERVED \<noteq> RELEASED" "RESERVED \<noteq> REFUNDED" "RESERVED \<noteq> DENIED" "RESERVED \<noteq> OPERATOR_ACTION_NEEDED"
  "COMMITTED \<noteq> RESERVED" "COMMITTED \<noteq> RELEASED" "COMMITTED \<noteq> REFUNDED" "COMMITTED \<noteq> DENIED" "COMMITTED \<noteq> OPERATOR_ACTION_NEEDED"
  "RELEASED \<noteq> RESERVED" "RELEASED \<noteq> COMMITTED" "RELEASED \<noteq> REFUNDED" "RELEASED \<noteq> DENIED" "RELEASED \<noteq> OPERATOR_ACTION_NEEDED"
  "REFUNDED \<noteq> RESERVED" "REFUNDED \<noteq> COMMITTED" "REFUNDED \<noteq> RELEASED" "REFUNDED \<noteq> DENIED" "REFUNDED \<noteq> OPERATOR_ACTION_NEEDED"
  "DENIED \<noteq> RESERVED" "DENIED \<noteq> COMMITTED" "DENIED \<noteq> RELEASED" "DENIED \<noteq> REFUNDED" "DENIED \<noteq> OPERATOR_ACTION_NEEDED"
  "OPERATOR_ACTION_NEEDED \<noteq> RESERVED" "OPERATOR_ACTION_NEEDED \<noteq> COMMITTED" "OPERATOR_ACTION_NEEDED \<noteq> RELEASED"
  "OPERATOR_ACTION_NEEDED \<noteq> REFUNDED" "OPERATOR_ACTION_NEEDED \<noteq> DENIED"
  by (simp_all add: reservation_statuses)

section \<open>Statements keep the books\<close>

lemma bill_call_ok:
  assumes "bl_faults s = []"
  shows "bill_call f s = (case f s of None \<Rightarrow> (Inl BillingRepository, s) | Some (x, t) \<Rightarrow> (Inr x, t))"
proof -
  from assms have same: "s\<lparr>bl_faults := []\<rparr> = s" by (cases s) simp
  show ?thesis unfolding bill_call_def Let_def assms list.sel list.case same by simp
qed

lemma books_reads [keeps_intros]:
  "keeps (books C R) clock_now" "keeps (books C R) wall_now" "keeps (books C R) (new_billing_id p)"
  by (auto intro!: keepsI simp: clock_now_def wall_now_def new_billing_id_def books_def)

lemma books_defaults [keeps_intros]: "keeps (books C R) (or_new_id p i)" "keeps (books C R) (or_now t)"
  by (auto simp: or_new_id_def or_now_def intro!: keeps_intros)

lemma books_call:
  assumes "\<And>s x t. books C R s \<Longrightarrow> f s = Some (x, t) \<Longrightarrow> books C R t"
  shows "keeps (books C R) (bill_call f)"
proof (rule keepsI)
  fix s
  assume s: "books C R s"
  then have "bl_faults s = []" by (simp add: books_def)
  with s assms [OF s] show "books C R (snd (bill_call f s))"
    by (cases "f s") (auto simp: bill_call_ok)
qed

lemma books_read [keeps_intros]: "keeps (books C R) (bill_read f)"
  unfolding bill_read_def by (rule books_call) auto

lemma books_other_tables [keeps_intros]:
  "keeps (books C R) (append_usage_event e)" "keeps (books C R) (append_quota_denial d)"
  "keeps (books C R) (save_plan p)" "keeps (books C R) (save_quota_override q)"
  "keeps (books C R) (save_manual_adjustment a)"
  by (auto simp: append_usage_event_def append_quota_denial_def save_plan_def save_quota_override_def
      save_manual_adjustment_def Let_def books_def intro!: keeps_intros books_call)

lemma books_queries [keeps_intros]:
  "keeps (books C R) (repo_active_plan t)" "keeps (books C R) (repo_quota_override t c at)"
  "keeps (books C R) (reservation_by_id t i)" "keeps (books C R) list_pending_reservations"
  "keeps (books C R) (list_quota_denials t n)" "keeps (books C R) (list_manual_adjustments t n)"
  by (auto simp: repo_active_plan_def repo_quota_override_def reservation_by_id_def list_pending_reservations_def
      list_quota_denials_def list_manual_adjustments_def intro!: keeps_intros)

lemma yields_read:
  assumes "\<And>s. books C R s \<Longrightarrow> Q (f s)"
  shows "yields (books C R) Q (bill_read f)"
  unfolding yields_def triple_def bill_read_def
  using assms by (auto simp: bill_call_ok books_def)

lemma found_reservation:
  "yields (books C R) (\<lambda>ro. ro = find (\<lambda>r. reservation_cols r = (trim t, cat, trim k)) R) (reservation_by_operation t cat k)"
  unfolding reservation_by_operation_def by (rule yields_read) (simp add: books_def)

lemma found_counter:
  "yields (books C R) (\<lambda>co. co = find (\<lambda>c. uc_tenant_id c = trim t \<and> uc_category c = cat \<and> uc_period_id c = trim p) C)
     (repo_usage_counter t cat p)"
  unfolding repo_usage_counter_def by (rule yields_read) (simp add: books_def)

text \<open>The stamp of a date is not empty and printable (chrono prints eight digits).\<close>

definition plain_stamps :: "utc_dates \<Rightarrow> bool" where
  "plain_stamps dates \<longleftrightarrow> (\<forall>t. ud_stamp dates t \<noteq> [] \<and> visible (last (ud_stamp dates t)))"

lemma period_id_plain: "plain_stamps dates \<Longrightarrow> trim (''quota_period_'' @ x @ ''_'' @ y @ ''_'' @ ud_stamp dates t) =
    ''quota_period_'' @ x @ ''_'' @ y @ ''_'' @ ud_stamp dates t"
  by (rule trim_visible) (auto simp: plain_stamps_def visible_def)

lemma open_period_yields:
  assumes "plain_stamps (be_dates env)"
  shows "yields (books C R) (\<lambda>p. trim (qp_id p) = qp_id p) (open_period env t d at)"
proof -
  obtain st en where p: "period_for (be_dates env) (qd_period_kind d) at = (st, en)" by fastforce
  have upd: "keeps (books C R) (bill_call (\<lambda>s. map_option (\<lambda>rows. ((), s\<lparr>bl_periods := rows\<rparr>))
      (upsert_on cols qp_id (\<lambda>x _. x) q (bl_periods s))))" if "trim (qp_id q) = qp_id q" for q and cols :: "quota_period \<Rightarrow> 'k"
  proof (rule books_call)
    fix s x u
    assume s: "books C R s" and "map_option (\<lambda>rows. ((), s\<lparr>bl_periods := rows\<rparr>)) (upsert_on cols qp_id (\<lambda>x _. x) q (bl_periods s)) = Some (x, u)"
    then obtain rows where up: "upsert_on cols qp_id (\<lambda>x _. x) q (bl_periods s) = Some rows" and u: "u = s\<lparr>bl_periods := rows\<rparr>" by auto
    from up have "set rows \<subseteq> insert q (set (bl_periods s))" by (cases rule: upsert_on_cases) auto
    with s that show "books C R u" unfolding u books_def by auto
  qed
  have get: "yields (books C R) (\<lambda>p. trim (qp_id p) = qp_id p) (bill_call (\<lambda>s. map_option (\<lambda>x. (x, s)) (find P (bl_periods s))))" for P
    unfolding yields_def triple_def by (auto simp: bill_call_ok books_def split: option.split dest: find_SomeD)
  show ?thesis
    unfolding open_period_def p prod.case Let_def
    by (rule yields_then [OF upd get]) (simp only: quota_period.select_convs period_id_plain [OF assms])
qed

section \<open>Writing counters and reservations\<close>

definition saved :: "usage_counter list \<Rightarrow> usage_counter \<Rightarrow> usage_counter list \<Rightarrow> bool" where
  "saved C c C' \<longleftrightarrow> (\<exists>i at. upsert_on counter_cols uc_id (\<lambda>old new. new\<lparr>uc_id := uc_id old\<rparr>)
     (c\<lparr>uc_id := i, uc_updated_at := at\<rparr>) C = Some C')"

definition stored :: "usage_reservation list \<Rightarrow> usage_reservation \<Rightarrow> usage_reservation list \<Rightarrow> bool" where
  "stored R r R' \<longleftrightarrow> (\<exists>a b. upsert_on reservation_cols ur_id
     (\<lambda>old new. new\<lparr>ur_id := ur_id old, ur_created_at := ur_created_at old\<rparr>) (r\<lparr>ur_created_at := a, ur_updated_at := b\<rparr>) R = Some R')"

lemma save_counter_triple:
  "triple (books C R) (save_usage_counter c) (\<lambda>_ s. \<exists>C'. saved C c C' \<and> books C' R s) (books C R)"
  unfolding save_usage_counter_def
proof (intro triple_bind_keeps keeps_intros; (assumption)?)
  fix i at
  show "triple (books C R) (bill_call (\<lambda>s. map_option (\<lambda>rows. ((), s\<lparr>bl_counters := rows\<rparr>))
      (upsert_on counter_cols uc_id (\<lambda>old new. new\<lparr>uc_id := uc_id old\<rparr>) (c\<lparr>uc_id := i, uc_updated_at := at\<rparr>) (bl_counters s))))
      (\<lambda>_ s. \<exists>C'. saved C c C' \<and> books C' R s) (books C R)"
    unfolding triple_def saved_def by (auto simp: bill_call_ok books_def split: option.split)
qed

lemma save_reservation_triple:
  assumes "ur_id r \<noteq> []" and "reservation_cols r \<in> reservation_cols ` set R \<or> ur_id r \<notin> ur_id ` set R"
  shows "triple (books C R) (save_reservation r) (\<lambda>_ s. \<exists>R'. stored R r R' \<and> books C R' s) E"
proof -
  have "triple (books C R) (bill_call (\<lambda>s. map_option (\<lambda>rows. ((), s\<lparr>bl_reservations := rows\<rparr>))
      (upsert_on reservation_cols ur_id (\<lambda>old new. new\<lparr>ur_id := ur_id old, ur_created_at := ur_created_at old\<rparr>)
        (r\<lparr>ur_id := ur_id r, ur_created_at := a, ur_updated_at := b\<rparr>) (bl_reservations s))))
      (\<lambda>_ s. \<exists>R'. stored R r R' \<and> books C R' s) E" for a b
  proof -
    have "\<exists>R'. upsert_on reservation_cols ur_id (\<lambda>old new. new\<lparr>ur_id := ur_id old, ur_created_at := ur_created_at old\<rparr>)
        (r\<lparr>ur_created_at := a, ur_updated_at := b\<rparr>) R = Some R'"
      using assms(2) by (auto simp: upsert_on_def list_ex_iff image_iff)
    then show ?thesis
      unfolding triple_def stored_def by (auto simp: bill_call_ok books_def) blast
  qed
  then show ?thesis
    unfolding save_reservation_def or_new_id_def Let_def using assms(1)
    by (auto simp: triple_def bind_op_def return_op_def wall_now_def books_def)
qed

section \<open>Balances\<close>

lemma saved_counters:
  assumes "saved C c C'" and "distinct (map counter_cols C)"
  shows "distinct (map counter_cols C')" and "counter_cols ` set C' = insert (counter_cols c) (counter_cols ` set C)"
    and "\<And>x. x \<in> set C' \<Longrightarrow> counter_cols x = counter_cols c \<and> uc_reserved x = uc_reserved c \<and> uc_committed x = uc_committed c \<and>
      uc_adjusted x = uc_adjusted c \<and> uc_carryover x = uc_carryover c \<or> x \<in> set C \<and> counter_cols x \<noteq> counter_cols c"
proof -
  from assms(1) obtain i at where up: "upsert_on counter_cols uc_id (\<lambda>old new. new\<lparr>uc_id := uc_id old\<rparr>)
      (c\<lparr>uc_id := i, uc_updated_at := at\<rparr>) C = Some C'" by (auto simp: saved_def)
  show "distinct (map counter_cols C')" by (rule distinct_upsert_on [OF up assms(2)]) simp
  show "counter_cols ` set C' = insert (counter_cols c) (counter_cols ` set C)"
    using upsert_on_cols [OF up] by simp
  show "counter_cols x = counter_cols c \<and> uc_reserved x = uc_reserved c \<and> uc_committed x = uc_committed c \<and>
      uc_adjusted x = uc_adjusted c \<and> uc_carryover x = uc_carryover c \<or> x \<in> set C \<and> counter_cols x \<noteq> counter_cols c"
    if "x \<in> set C'" for x
    using up that by (cases rule: upsert_on_member) auto
qed

lemma stored_new:
  assumes "stored R r R'" and "reservation_cols r \<notin> reservation_cols ` set R"
  obtains a b where "R' = R @ [r\<lparr>ur_created_at := a, ur_updated_at := b\<rparr>]"
proof -
  from assms(1) obtain a b where "upsert_on reservation_cols ur_id
     (\<lambda>old new. new\<lparr>ur_id := ur_id old, ur_created_at := ur_created_at old\<rparr>) (r\<lparr>ur_created_at := a, ur_updated_at := b\<rparr>) R = Some R'"
    by (auto simp: stored_def)
  moreover from assms(2) have "reservation_cols (r\<lparr>ur_created_at := a, ur_updated_at := b\<rparr>) \<notin> reservation_cols ` set R" by simp
  ultimately have "R' = R @ [r\<lparr>ur_created_at := a, ur_updated_at := b\<rparr>]"
    by (cases rule: upsert_on_cases) blast+
  then show ?thesis by (rule that)
qed

lemma stored_old:
  assumes "stored R r R'" and "r0 \<in> set R" and "reservation_cols r0 = reservation_cols r" and "distinct (map reservation_cols R)"
  obtains a b where "R' = map (\<lambda>x. if reservation_cols x = reservation_cols r0
    then r\<lparr>ur_id := ur_id r0, ur_created_at := a, ur_updated_at := b\<rparr> else x) R"
proof -
  from assms(1) obtain a b where "upsert_on reservation_cols ur_id
     (\<lambda>old new. new\<lparr>ur_id := ur_id old, ur_created_at := ur_created_at old\<rparr>) (r\<lparr>ur_created_at := a, ur_updated_at := b\<rparr>) R = Some R'"
    by (auto simp: stored_def)
  then show ?thesis
  proof (cases rule: upsert_on_cases)
    case 1
    have "x = r0" if "x \<in> set R" "reservation_cols x = reservation_cols r" for x
      using same_key [OF assms(4) that(1) assms(2)] that(2) assms(3) by simp
    then have "R' = map (\<lambda>x. if reservation_cols x = reservation_cols r0
        then r\<lparr>ur_id := ur_id r0, ur_created_at := ur_created_at r0, ur_updated_at := b\<rparr> else x) R"
      unfolding 1 using assms(3) by (intro map_cong) auto
    then show ?thesis by (rule that)
  next
    case 2
    have "reservation_cols (r\<lparr>ur_created_at := a, ur_updated_at := b\<rparr>) \<in> reservation_cols ` set R"
      by (rule image_eqI [OF _ assms(2)]) (use assms(3) in simp)
    with 2(1) show ?thesis by blast
  qed
qed

lemma held_times [simp]:
  "held a (r\<lparr>ur_created_at := x, ur_updated_at := y\<rparr>) = held a r" "spent a (r\<lparr>ur_created_at := x, ur_updated_at := y\<rparr>) = spent a r"
  "held a (r\<lparr>ur_id := i\<rparr>) = held a r" "spent a (r\<lparr>ur_id := i\<rparr>) = spent a r"
  by (auto simp: held_def spent_def pending_def)

lemma accounts_change:
  assumes "accounts_ok C R" and "saved C c C'" and "distinct (map reservation_cols R')"
    and "uc_reserved c = sum_list (map (held (counter_cols c)) R')" and "uc_committed c = sum_list (map (spent (counter_cols c)) R')"
    and "\<And>a. a \<noteq> counter_cols c \<Longrightarrow> sum_list (map (held a) R') = sum_list (map (held a) R) \<and>
      sum_list (map (spent a) R') = sum_list (map (spent a) R)"
    and "\<And>r. r \<in> set R' \<Longrightarrow> reservation_ok r \<and> (ur_status r \<noteq> DENIED \<longrightarrow> account r \<in> insert (counter_cols c) (counter_cols ` set C))"
  shows "accounts_ok C' R'"
proof -
  from assms(1) have d: "distinct (map counter_cols C)" by (simp add: accounts_ok_def)
  note sc = saved_counters [OF assms(2) d]
  have "uc_reserved x = sum_list (map (held (counter_cols x)) R') \<and> uc_committed x = sum_list (map (spent (counter_cols x)) R')"
    if "x \<in> set C'" for x
    using sc(3) [OF that] assms(1,4,5) assms(6) [of "counter_cols x"] by (auto simp: accounts_ok_def)
  with sc(1,2) assms(3,7) show ?thesis by (auto simp: accounts_ok_def)
qed

lemma account_balance:
  assumes "accounts_ok C R" and "a \<notin> counter_cols ` set C"
  shows "sum_list (map (held a) R) = 0" and "sum_list (map (spent a) R) = 0"
proof -
  have "held a r = 0 \<and> spent a r = 0" if "r \<in> set R" for r
    using assms that by (auto simp: accounts_ok_def held_def spent_def pending_def)
  then show "sum_list (map (held a) R) = 0" "sum_list (map (spent a) R) = 0"
    by (simp_all add: sum_list_0 map_eq_conv cong: map_cong)
qed

lemma held_part:
  assumes "accounts_ok C R" and "r \<in> set R"
  shows "held a r \<le> sum_list (map (held a) R)"
proof (rule member_le_sum_list)
  show "held a r \<in> set (map (held a) R)" using assms(2) by simp
  have "\<forall>x \<in> set R. 0 \<le> held a x" using assms(1) by (auto simp: accounts_ok_def reservation_ok_def held_def)
  then show "0 \<le> x" if "x \<in> set (map (held a) R)" for x using that by auto
qed

section \<open>Reserving\<close>

text \<open>
  The inputs of a reservation the accounts are kept for: identifiers without surrounding white space, an
  amount far from the bounds of 64 bits, and an operation key no other tenant or category uses.
\<close>

definition plain_input :: "usage_reservation list \<Rightarrow> reserve_input \<Rightarrow> bool" where
  "plain_input R inp \<longleftrightarrow> trim (ri_tenant_id inp) = ri_tenant_id inp \<and> trim (ri_operation_key inp) = ri_operation_key inp \<and>
     ri_amount inp < 2 ^ 60 \<and>
     (\<forall>r \<in> set R. ur_operation_key r = ri_operation_key inp \<longrightarrow>
        ur_tenant_id r = ri_tenant_id inp \<and> ur_category r = ri_category inp)"

abbreviation not_reserved :: "usage_reservation list \<Rightarrow> reserve_input \<Rightarrow> bool" where
  "not_reserved R inp \<equiv> find (\<lambda>r. reservation_cols r = (ri_tenant_id inp, ri_category inp, ri_operation_key inp)) R = None"

lemma amount_bounds: "plain_input R inp \<Longrightarrow> 0 < reserve_amount inp \<and> reserve_amount inp < 2 ^ 60"
  by (simp add: plain_input_def reserve_amount_def)

lemma new_reservation_simps [simp]:
  "ur_id (new_reservation now inp p st) = ''reservation_'' @ ri_operation_key inp"
  "ur_operation_key (new_reservation now inp p st) = ri_operation_key inp"
  "ur_tenant_id (new_reservation now inp p st) = ri_tenant_id inp" "ur_category (new_reservation now inp p st) = ri_category inp"
  "ur_period_id (new_reservation now inp p st) = qp_id p" "ur_reserved (new_reservation now inp p st) = reserve_amount inp"
  "ur_committed (new_reservation now inp p st) = 0" "ur_refunded (new_reservation now inp p st) = 0"
  "ur_status (new_reservation now inp p st) = st"
  unfolding new_reservation_def reservation_default_def by simp_all

lemma new_reservation_id: "ur_id (new_reservation now inp p st) \<noteq> []"
  by simp

lemma reservation_ok_times:
  "reservation_ok (r\<lparr>ur_created_at := a, ur_updated_at := b\<rparr>) = reservation_ok r"
  by (simp add: reservation_ok_def pending_def)

lemma new_reservation_ok:
  "plain_input R inp \<Longrightarrow> trim (qp_id p) = qp_id p \<Longrightarrow> reservation_ok (new_reservation now inp p st)"
  using amount_bounds [of R inp] unfolding reservation_ok_def plain_input_def by simp

lemma not_reserved_cols:
  "not_reserved R inp \<Longrightarrow> reservation_cols (new_reservation now inp p st) \<notin> reservation_cols ` set R"
  by (auto simp: find_None_iff image_iff)

lemma new_id_free:
  assumes "accounts_ok C R" and "plain_input R inp" and "not_reserved R inp"
  shows "reservation_cols (new_reservation now inp p st) \<in> reservation_cols ` set R \<or>
    ur_id (new_reservation now inp p st) \<notin> ur_id ` set R"
proof (intro disjI2 notI)
  assume "ur_id (new_reservation now inp p st) \<in> ur_id ` set R"
  then obtain x where x: "ur_id (new_reservation now inp p st) = ur_id x" "x \<in> set R" by (rule imageE)
  from assms(1) x(2) have "ur_id x = ''reservation_'' @ ur_operation_key x" by (auto simp: accounts_ok_def reservation_ok_def)
  with x(1) have "ur_operation_key x = ri_operation_key inp" by simp
  with assms(2) x(2) have "reservation_cols x = reservation_cols (new_reservation now inp p st)" by (auto simp: plain_input_def)
  then have "reservation_cols (new_reservation now inp p st) \<in> reservation_cols ` set R"
    unfolding image_iff using x(2) by (intro bexI [of _ x]) (rule sym)
  then show False by (rule notE [OF not_reserved_cols [OF assms(3)]])
qed

lemma appended_reservation:
  assumes "accounts_ok C R" and "plain_input R inp" and "not_reserved R inp" and "trim (qp_id p) = qp_id p"
    and "stored R (new_reservation now inp p st) R'"
  obtains x where "R' = R @ [x]" and "reservation_ok x" and "account x = (ri_tenant_id inp, ri_category inp, qp_id p)"
    and "ur_status x = st" and "distinct (map reservation_cols R')" and "ur_committed x = 0"
    and "ur_reserved x = reserve_amount inp"
proof -
  obtain a b where R': "R' = R @ [(new_reservation now inp p st)\<lparr>ur_created_at := a, ur_updated_at := b\<rparr>]"
    using stored_new [OF assms(5) not_reserved_cols [OF assms(3)]] by blast
  show ?thesis
  proof (rule that [OF R'])
    show "distinct (map reservation_cols R')"
      using assms(1) not_reserved_cols [OF assms(3)] unfolding R' by (simp add: accounts_ok_def)
  qed (simp_all add: reservation_ok_times new_reservation_ok [OF assms(2,4)])
qed

lemma grant_ok:
  assumes ok: "accounts_ok C R" and plain: "plain_input R inp" and free: "not_reserved R inp" and range: "in_range C"
    and pid: "trim (qp_id p) = qp_id p" and cols: "counter_cols c = (ri_tenant_id inp, ri_category inp, qp_id p)"
    and c: "c \<in> set C \<or> counter_cols c \<notin> counter_cols ` set C \<and> uc_reserved c = 0 \<and> uc_committed c = 0"
  shows "triple (books C R) (grant_reservation now inp p c quota) (\<lambda>_. bill_ok) bill_ok"
proof -
  let ?r = "new_reservation now inp p RESERVED"
  let ?c = "c\<lparr>uc_reserved := wrap_i64 (uc_reserved c + reserve_amount inp), uc_updated_at := now\<rparr>"
  have sums: "uc_reserved c = sum_list (map (held (counter_cols c)) R)" "uc_committed c = sum_list (map (spent (counter_cols c)) R)"
    using c ok account_balance [OF ok, of "counter_cols c"] by (auto simp: accounts_ok_def)
  have "\<bar>uc_reserved c\<bar> < 2 ^ 60" using c range by (auto simp: in_range_def)
  with amount_bounds [OF plain] have wrap: "wrap_i64 (uc_reserved c + reserve_amount inp) = uc_reserved c + reserve_amount inp"
    by (intro wrap_i64_same) auto
  have accounts: "accounts_ok C' R'" if "saved C ?c C'" and R': "stored R ?r R'" for C' R'
  proof -
    obtain x where x: "R' = R @ [x]" "reservation_ok x" "account x = counter_cols c" "ur_status x = RESERVED"
        "distinct (map reservation_cols R')" "ur_committed x = 0" "ur_reserved x = reserve_amount inp"
      using appended_reservation [OF ok plain free pid R'] unfolding cols by blast
    have "held a x = (if a = counter_cols c then reserve_amount inp else 0)" "spent a x = 0" for a
      using x(3,4,7) by (auto simp: held_def spent_def pending_def)
    with x sums wrap ok show ?thesis
      by (intro accounts_change [OF ok that(1) x(5)]) (auto simp: accounts_ok_def)
  qed
  have rest: "triple (books C' R) (then_op (save_reservation ?r) (then_op (append_usage_event e) (return_op v))) (\<lambda>_. bill_ok) bill_ok"
    if "saved C ?c C'" for C' e and v :: reserve_result
    unfolding then_op_def [of "save_reservation ?r"]
  proof (rule triple_bind [OF save_reservation_triple [OF new_reservation_id new_id_free [OF ok plain free]]]; (assumption)?)
    show "triple (\<lambda>s. \<exists>R'. stored R ?r R' \<and> books C' R' s) (then_op (append_usage_event e) (return_op v)) (\<lambda>_. bill_ok) bill_ok"
      by (intro triple_ex triple_when triple_of_keeps keeps_intros) (blast intro: bill_okI accounts [OF that])
  qed
  show ?thesis
    unfolding grant_reservation_def Let_def then_op_def [of "save_usage_counter ?c"]
    by (rule triple_bind [OF triple_weaken [OF save_counter_triple]], assumption, assumption)
      (auto intro: bill_okI [OF _ ok] intro!: triple_ex triple_when rest)
qed

lemma accounts_denied:
  assumes ok: "accounts_ok C R" and "plain_input R inp" and "not_reserved R inp" and "trim (qp_id p) = qp_id p"
    and "stored R (new_reservation now inp p DENIED) R'"
  shows "accounts_ok C R'"
proof -
  obtain x where x: "R' = R @ [x]" "reservation_ok x" "ur_status x = DENIED" "distinct (map reservation_cols R')"
    using appended_reservation [OF assms] by blast
  have "held a x = 0" "spent a x = 0" for a using x(3) by (simp_all add: held_def spent_def pending_def)
  with ok x show ?thesis by (simp add: accounts_ok_def)
qed

lemma deny_ok:
  assumes ok: "accounts_ok C R" and plain: "plain_input R inp" and free: "not_reserved R inp" and pid: "trim (qp_id p) = qp_id p"
  shows "triple (books C R) (deny_reservation env wall now inp p quota) (\<lambda>_. bill_ok) bill_ok"
  unfolding deny_reservation_def Let_def then_op_def [of "save_reservation _"]
  by (rule triple_bind [OF save_reservation_triple [OF new_reservation_id new_id_free [OF ok plain free]]]; (assumption)?)
    (intro triple_ex triple_when triple_of_keeps keeps_intros, blast intro: bill_okI accounts_denied [OF ok plain free pid])

lemma reserve_in_period_ok:
  assumes ok: "accounts_ok C R" and plain: "plain_input R inp" and range: "in_range C" and pid: "trim (qp_id p) = qp_id p"
  shows "triple (books C R) (reserve_in_period env wall now inp plan d p) (\<lambda>_. bill_ok) bill_ok"
proof -
  have trims: "trim (ri_tenant_id inp) = ri_tenant_id inp" "trim (ri_operation_key inp) = ri_operation_key inp"
    using plain by (simp_all add: plain_input_def)
  have decide: "triple (books C R) (if b then deny_reservation env wall now inp p quota else grant_reservation now inp p c quota)
      (\<lambda>_. bill_ok) bill_ok"
    if "not_reserved R inp" and co: "co = find (\<lambda>c. uc_tenant_id c = ri_tenant_id inp \<and> uc_category c = ri_category inp \<and> uc_period_id c = qp_id p) C"
      and "c = (case co of Some c \<Rightarrow> c | None \<Rightarrow> new_counter now inp p)" for co c b quota
  proof (rule triple_if [OF deny_ok [OF ok plain that(1) pid] grant_ok [OF ok plain that(1) range pid]])
    show "counter_cols c = (ri_tenant_id inp, ri_category inp, qp_id p)"
    proof (cases co)
      case (Some x)
      with that(3) find_SomeD [OF co [symmetric, unfolded Some]] show ?thesis by simp
    qed (use that(3) in \<open>simp add: new_counter_def\<close>)
    show "c \<in> set C \<or> counter_cols c \<notin> counter_cols ` set C \<and> uc_reserved c = 0 \<and> uc_committed c = 0"
    proof (cases co)
      case None
      with co [symmetric] have "\<forall>x \<in> set C. counter_cols x \<noteq> (ri_tenant_id inp, ri_category inp, qp_id p)"
        by (auto simp: find_None_iff)
      with that(3) None show ?thesis by (auto simp: new_counter_def)
    next
      case (Some x)
      with that(3) find_SomeD [OF co [symmetric, unfolded Some]] show ?thesis by simp
    qed
  qed
  show ?thesis
    unfolding reserve_in_period_def
    apply (rule triple_bind_yields [OF found_reservation])
     apply (erule bill_okI [OF _ ok])
    subgoal premises prems for ro
    proof (cases ro)
      case None
      with prems trims have "not_reserved R inp" by simp
      then show ?thesis
        unfolding None option.case Let_def
        by (intro triple_bind_yields [OF found_counter] triple_bind_keeps [OF books_queries(2)] decide)
          (auto simp: trims pid intro: bill_okI [OF _ ok])
    next
      case (Some r)
      show ?thesis unfolding Some option.case by (rule triple_of_keeps [OF keeps_return]) (erule bill_okI [OF _ ok])
    qed
    done
qed

text \<open>Whatever the rest of a reservation promises, the whole of it does, when the early answers do.\<close>

lemma reserve_triple:
  assumes early: "\<And>v. rr_quota v = None \<Longrightarrow> rr_reservation v = None \<Longrightarrow> triple (books C R) (return_op v :: reserve_result bill_op) Q E"
    and error: "\<And>s. books C R s \<Longrightarrow> E s" and stamps: "plain_stamps (be_dates env)"
    and period: "\<And>wall now plan d p. trim (qp_id p) = qp_id p \<Longrightarrow> tp_enforcement_mode plan \<noteq> UNLIMITED \<Longrightarrow>
      triple (books C R) (reserve_in_period env wall now inp plan d p) Q E"
  shows "triple (books C R) (reserve env inp) Q E"
proof -
  have none: "triple (books C R) (return_op (denied_result t k) :: reserve_result bill_op) Q E"
    "triple (books C R) (return_op (result_default\<lparr>rr_allowed := b\<rparr>) :: reserve_result bill_op) Q E"
    "triple (books C R) (return_op (if h then denied_result t k else result_default\<lparr>rr_allowed := b\<rparr>) :: reserve_result bill_op) Q E"
    for t k b h
    by (simp_all add: early denied_result_def result_default_def)
  have opened: "yields (books C R) (\<lambda>pr. \<forall>p. pr = Inr p \<longrightarrow> trim (qp_id p) = qp_id p) (attempt_op (open_period env t d at))" for t d at
    by (rule yields_attempt [OF open_period_yields [OF stamps]])
  have open_: "triple (books C R) (bind_op (attempt_op (open_period env (ri_tenant_id inp) d now)) (\<lambda>pr.
      case pr of Inl e \<Rightarrow> if ri_hosted inp then return_op (denied_result t k) else fail_op e
      | Inr p \<Rightarrow> reserve_in_period env wall now inp plan d p)) Q E" if "tp_enforcement_mode plan \<noteq> UNLIMITED" for d now t k wall plan
    apply (rule triple_bind_yields [OF opened error], assumption)
    subgoal for pr
      by (cases pr) (auto intro: none triple_fail' error period [OF _ that])
    done
  show ?thesis
    unfolding reserve_def Let_def
    by (intro triple_if none triple_bind_keeps [OF books_reads(1)] triple_bind_keeps [OF books_reads(2)]
        triple_case_option triple_bind_keeps [OF books_queries(1)] open_ triple_fail' error)
qed

lemma reserve_ok:
  assumes ok: "accounts_ok C R" and plain: "plain_input R inp" and range: "in_range C" and stamps: "plain_stamps (be_dates env)"
  shows "triple (books C R) (reserve env inp) (\<lambda>_. bill_ok) bill_ok"
  by (rule reserve_triple [OF _ _ stamps])
    (auto intro: bill_okI [OF _ ok] triple_return' reserve_in_period_ok [OF ok plain range])

section \<open>Resolving\<close>

text \<open>The transitions of the data model: a pending reservation is committed, released, refunded or marked.\<close>

definition allowed_resolution :: "usage_reservation list \<Rightarrow> resolve_input \<Rightarrow> string \<Rightarrow> bool" where
  "allowed_resolution R inp status \<longleftrightarrow> status \<in> {COMMITTED, RELEASED, REFUNDED, OPERATOR_ACTION_NEEDED} \<and>
     trim (rv_tenant_id inp) = rv_tenant_id inp \<and> rv_amount inp < 2 ^ 60 \<and>
     (\<forall>r \<in> set R. reservation_cols r = (rv_tenant_id inp, rv_category inp, trim (rv_operation_key inp)) \<longrightarrow> pending r \<or> ur_status r = status)"

lemma resolved_accounts:
  assumes ok: "accounts_ok C R" and range: "in_range C" and r: "r \<in> set R" and "pending r"
    and c: "c \<in> set C" "counter_cols c = account r" and res: "resolve_accounts inp status c r = (c1, r1)"
    and status: "status \<in> {COMMITTED, RELEASED, REFUNDED, OPERATOR_ACTION_NEEDED}" and "rv_amount inp < 2 ^ 60"
    and saved: "saved C (c1\<lparr>uc_updated_at := now\<rparr>) C'" and stored: "stored R (r1\<lparr>ur_status := status, ur_updated_at := now'\<rparr>) R'"
  shows "accounts_ok C' R'"
proof -
  have ok_r: "reservation_ok r" "distinct (map reservation_cols R)" using ok r by (auto simp: accounts_ok_def)
  then have amounts: "0 < ur_reserved r" "ur_reserved r < 2 ^ 60" "ur_committed r = 0" "ur_refunded r = 0"
    using \<open>pending r\<close> by (simp_all add: reservation_ok_def)
  have sums: "uc_reserved c = sum_list (map (held (account r)) R)" "uc_committed c = sum_list (map (spent (account r)) R)"
    using ok c by (auto simp: accounts_ok_def)
  have open_: "min (uc_reserved c) (wrap_i64 (ur_reserved r - ur_refunded r)) = ur_reserved r"
    using held_part [OF ok r, of "account r"] sums amounts \<open>pending r\<close> by (simp add: held_def wrap_i64_same)
  have small: "\<bar>uc_reserved c\<bar> < 2 ^ 60" "\<bar>uc_committed c\<bar> < 2 ^ 60" using range c by (auto simp: in_range_def)
  have amount: "0 < resolve_amount inp r" "resolve_amount inp r < 2 ^ 60"
    using assms(9) amounts by (auto simp: resolve_amount_def)
  let ?r = "r1\<lparr>ur_status := status, ur_updated_at := now'\<rparr>"
  have r1: "reservation_cols ?r = reservation_cols r" "account ?r = account r" "ur_reserved ?r = ur_reserved r" "ur_id ?r = ur_id r"
    "status = OPERATOR_ACTION_NEEDED \<Longrightarrow> ur_committed ?r = 0 \<and> ur_refunded ?r = 0"
    "status = COMMITTED \<Longrightarrow> ur_committed ?r = resolve_amount inp r"
    using res amounts status by (auto simp: resolve_accounts_def Let_def split: if_splits)
  have c1: "counter_cols c1 = account r"
    "uc_reserved c1 = uc_reserved c - (if status = OPERATOR_ACTION_NEEDED then 0 else ur_reserved r)"
    "uc_committed c1 = uc_committed c + (if status = COMMITTED then resolve_amount inp r else 0)"
    using res open_ status c(2) small amounts amount
    by (auto simp: resolve_accounts_def Let_def wrap_i64_same split: if_splits)
  obtain a b where R': "R' = map (\<lambda>x. if reservation_cols x = reservation_cols r
      then ?r\<lparr>ur_id := ur_id r, ur_created_at := a, ur_updated_at := b\<rparr> else x) R"
    by (rule stored_old [OF stored r r1(1) [symmetric] ok_r(2)])
  have heldsum: "sum_list (map (held x) R') = sum_list (map (held x) R) - held x r + held x ?r"
    "sum_list (map (spent x) R') = sum_list (map (spent x) R) - spent x r + spent x ?r" for x
    unfolding R' sum_replaced [OF ok_r(2) r] by (simp_all only: held_times)
  have diff: "held x ?r = (if x = account r \<and> status = OPERATOR_ACTION_NEEDED then ur_reserved r else 0)"
    "held x r = (if x = account r then ur_reserved r else 0)"
    "spent x ?r = (if x = account r \<and> status = COMMITTED then resolve_amount inp r else 0)" "spent x r = 0" for x
    using r1 \<open>pending r\<close> status by (auto simp: held_def spent_def pending_def)
  show ?thesis
  proof (rule accounts_change [OF ok saved])
    have "map reservation_cols R' = map reservation_cols R" unfolding R' using r1(1) by (induction R) auto
    with ok_r(2) show "distinct (map reservation_cols R')" by simp
    show "reservation_ok x \<and> (ur_status x \<noteq> DENIED \<longrightarrow> account x \<in> insert (counter_cols (c1\<lparr>uc_updated_at := now\<rparr>)) (counter_cols ` set C))"
      if "x \<in> set R'" for x
    proof -
      from that consider "x \<in> set R" | "x = ?r\<lparr>ur_id := ur_id r, ur_created_at := a, ur_updated_at := b\<rparr>"
        unfolding R' by (auto split: if_splits)
      then show ?thesis
      proof cases
        case 1
        with ok show ?thesis by (auto simp: accounts_ok_def)
      next
        case 2
        have "reservation_ok x" using ok_r(1) r1 status amounts unfolding 2 by (auto simp: reservation_ok_def pending_def)
        moreover have "account x = account r" using r1 unfolding 2 by simp
        ultimately show ?thesis using c1(1) by simp
      qed
    qed
  qed (use c1 sums heldsum diff in \<open>auto simp: c1(1)\<close>)
qed

lemma resolve_ok:
  assumes ok: "accounts_ok C R" and range: "in_range C" and allowed: "allowed_resolution R inp status"
  shows "triple (books C R) (resolve_reservation_to env inp status kind) (\<lambda>_. bill_ok) bill_ok"
proof -
  have stop: "triple (books C R) (return_op v) (\<lambda>_. bill_ok) bill_ok" "triple (books C R) (fail_op e) (\<lambda>_. bill_ok) bill_ok"
    for v :: usage_reservation and e
    by (intro triple_of_keeps keeps_intros; erule bill_okI [OF _ ok])+
  have put: "triple (books C R) (then_op (save_usage_counter (c1\<lparr>uc_updated_at := now\<rparr>))
      (then_op (save_reservation (r1\<lparr>ur_status := status, ur_updated_at := now\<rparr>)) (then_op (append_usage_event e) (return_op v))))
      (\<lambda>_. bill_ok) bill_ok"
    if "r \<in> set R" "pending r" "c \<in> set C" "counter_cols c = account r" "resolve_accounts inp status c r = (c1, r1)"
    for r c c1 r1 now e and v :: usage_reservation
  proof -
    let ?r = "r1\<lparr>ur_status := status, ur_updated_at := now\<rparr>"
    have same: "ur_id ?r = ur_id r" "reservation_cols ?r = reservation_cols r"
      using that(5) by (auto simp: resolve_accounts_def Let_def split: if_splits)
    from ok that(1) have "ur_id r = ''reservation_'' @ ur_operation_key r" by (auto simp: accounts_ok_def reservation_ok_def)
    with same have "ur_id ?r \<noteq> []" by simp
    moreover have "reservation_cols ?r \<in> reservation_cols ` set R" 
      unfolding image_iff using that(1) same(2) by (intro bexI [of _ r])
    ultimately have save: "triple (books C' R) (save_reservation ?r) (\<lambda>_ s. \<exists>R'. stored R ?r R' \<and> books C' R' s) bill_ok" for C'
      by (intro save_reservation_triple) simp_all
    have status: "status \<in> {COMMITTED, RELEASED, REFUNDED, OPERATOR_ACTION_NEEDED}" "rv_amount inp < 2 ^ 60"
      using allowed by (simp_all add: allowed_resolution_def)
    show ?thesis
      unfolding then_op_def [of "save_usage_counter _"] then_op_def [of "save_reservation _"]
      by (rule triple_bind [OF triple_weaken [OF save_counter_triple]], assumption, assumption, erule bill_okI [OF _ ok])
        (intro triple_ex triple_when triple_bind [OF save] triple_of_keeps keeps_intros,
          blast intro: bill_okI resolved_accounts [OF ok range that(1-5) status])
  qed
  show ?thesis
    unfolding resolve_reservation_to_def
    apply (intro triple_if stop triple_bind_keeps [OF books_reads(1)]; (erule bill_okI [OF _ ok])?)
    apply (rule triple_bind_yields [OF found_reservation], erule bill_okI [OF _ ok])
    subgoal premises prems for _ now ro
    proof (cases ro)
      case (Some r)
      with prems allowed find_SomeD [of _ R r] have r: "r \<in> set R"
        "reservation_cols r = (rv_tenant_id inp, rv_category inp, trim (rv_operation_key inp))"
        by (auto simp: allowed_resolution_def)
      have "reservation_ok r" using ok r(1) by (simp add: accounts_ok_def)
      then have trims: "trim (rv_tenant_id inp) = ur_tenant_id r" "rv_category inp = ur_category r" "trim (ur_period_id r) = ur_period_id r"
        using r(2) by (auto simp: reservation_ok_def)
      have pend: "pending r" if "ur_status r \<noteq> status"
        using allowed r that unfolding allowed_resolution_def by blast
      show ?thesis
        unfolding Some option.case
      proof (rule triple_if [OF stop(1)])
        assume "ur_status r \<noteq> status"
        with pend have p: "pending r" by blast
        show "triple (books C R) (bind_op (repo_usage_counter (rv_tenant_id inp) (rv_category inp) (ur_period_id r)) (\<lambda>co.
            case co of None \<Rightarrow> fail_op (CounterNotFound (ur_id r))
            | Some c \<Rightarrow> let (c1, r1) = resolve_accounts inp status c r; r2 = r1\<lparr>ur_status := status, ur_updated_at := now\<rparr> in
                then_op (save_usage_counter (c1\<lparr>uc_updated_at := now\<rparr>)) (then_op (save_reservation r2)
                (then_op (append_usage_event (e c1 r1)) (return_op r2))))) (\<lambda>_. bill_ok) bill_ok" for e
          apply (rule triple_bind_yields [OF found_counter], erule bill_okI [OF _ ok])
          subgoal premises found for co
          proof (cases co)
            case (Some c)
            with found find_SomeD [of _ C c] trims have c: "c \<in> set C" "counter_cols c = account r" by auto
            obtain c1 r1 where "resolve_accounts inp status c r = (c1, r1)" by fastforce
            with put [OF r(1) p c] show ?thesis by (simp add: Some Let_def)
          qed (simp add: stop)
          done
      qed
    qed (simp add: stop)
    done
qed

end
