(* ===== verification/Billing_Properties.thy ===== *)
theory Billing_Properties
  imports Billing_Accounts
begin

text \<open>
  What the accounting promises: counters that agree with the reservations in every reachable state, grants
  within the limit, replays without effect, recovery that leaves nothing pending, operation keys that keep
  their parts apart; and where it falls short: retries of released operations, refunds of committed ones
  and statements that fail half way.
\<close>

section \<open>Programs that do not fail\<close>

lemma sure_clock: "triple (books C R) clock_now (\<lambda>_. books C R) E"
  by (auto simp: triple_def clock_now_def books_def)

lemma sure_read: "triple (books C R) (bill_read f) (\<lambda>x s. books C R s \<and> (\<exists>u. books C R u \<and> x = f u)) E"
  unfolding triple_def bill_read_def by (auto simp: bill_call_ok books_def)

lemma sure_reservation:
  "triple (books C R) (reservation_by_operation t cat k)
     (\<lambda>ro s. ro = find (\<lambda>r. reservation_cols r = (trim t, cat, trim k)) R \<and> books C R s) E"
  unfolding reservation_by_operation_def by (rule triple_weaken [OF sure_read]) (auto simp: books_def)

lemma sure_counter:
  "triple (books C R) (repo_usage_counter t cat p)
     (\<lambda>co s. co = find (\<lambda>c. uc_tenant_id c = trim t \<and> uc_category c = cat \<and> uc_period_id c = trim p) C \<and> books C R s) E"
  unfolding repo_usage_counter_def by (rule triple_weaken [OF sure_read]) (auto simp: books_def)

lemma sure_event: "triple (books C R) (append_usage_event e) (\<lambda>_. books C R) E"
  by (auto simp: triple_def append_usage_event_def or_new_id_def or_now_def new_billing_id_def wall_now_def bind_op_def
      return_op_def bill_call_ok books_def)

lemma sure_save_counter:
  assumes "counter_cols c \<in> counter_cols ` set C"
  shows "triple (books C R) (save_usage_counter c) (\<lambda>_ s. \<exists>C'. saved C c C' \<and> books C' R s) E"
proof -
  have ok: "triple (books C R) (bill_call (\<lambda>s. map_option (\<lambda>rows. ((), s\<lparr>bl_counters := rows\<rparr>))
      (upsert_on counter_cols uc_id (\<lambda>old new. new\<lparr>uc_id := uc_id old\<rparr>) (c\<lparr>uc_id := i, uc_updated_at := at\<rparr>) (bl_counters s))))
      (\<lambda>_ s. \<exists>C'. saved C c C' \<and> books C' R s) E" for i at
  proof -
    have "\<exists>C'. upsert_on counter_cols uc_id (\<lambda>old new. new\<lparr>uc_id := uc_id old\<rparr>) (c\<lparr>uc_id := i, uc_updated_at := at\<rparr>) C = Some C'"
      using assms by (auto simp: upsert_on_def list_ex_iff image_iff)
    then obtain C' where "upsert_on counter_cols uc_id (\<lambda>old new. new\<lparr>uc_id := uc_id old\<rparr>) (c\<lparr>uc_id := i, uc_updated_at := at\<rparr>) C = Some C'" ..
    then show ?thesis unfolding triple_def saved_def by (auto simp: bill_call_ok books_def)
  qed
  have "triple (books C R) (or_new_id p i) (\<lambda>_. books C R) E" "triple (books C R) (or_now at) (\<lambda>_. books C R) E" for p i at
    by (auto simp: triple_def or_new_id_def or_now_def new_billing_id_def wall_now_def return_op_def books_def)
  then show ?thesis unfolding save_usage_counter_def by (intro triple_bind [OF _ triple_bind [OF _ ok]])
qed

lemma resolve_runs:
  assumes r: "find (\<lambda>r. reservation_cols r = (trim (rv_tenant_id inp), rv_category inp, trim (rv_operation_key inp))) R = Some r"
    and c: "find (\<lambda>c. uc_tenant_id c = trim (rv_tenant_id inp) \<and> uc_category c = rv_category inp \<and>
      uc_period_id c = trim (ur_period_id r)) C = Some c"
    and res: "resolve_accounts inp status c r = (c1, r1)" and "be_repo env" and "ur_status r \<noteq> status" and "ur_id r \<noteq> []"
  shows "triple (books C R) (resolve_reservation_to env inp status kind)
    (\<lambda>_ s. \<exists>C' R' now. saved C (c1\<lparr>uc_updated_at := now\<rparr>) C' \<and> stored R (r1\<lparr>ur_status := status, ur_updated_at := now\<rparr>) R' \<and> books C' R' s)
    (\<lambda>_. False)"
    (is "triple _ _ ?Q _")
proof -
  have same: "ur_id r1 = ur_id r" "reservation_cols r1 = reservation_cols r" "counter_cols c1 = counter_cols c"
    using res by (auto simp: resolve_accounts_def Let_def split: if_splits)
  have rin: "reservation_cols (r1\<lparr>ur_status := status, ur_updated_at := now\<rparr>) \<in> reservation_cols ` set R" for now
    unfolding image_iff using find_SomeD [OF r] same(2) by (intro bexI [of _ r]) simp_all
  have cin: "counter_cols (c1\<lparr>uc_updated_at := now\<rparr>) \<in> counter_cols ` set C" for now
    unfolding image_iff using find_SomeD [OF c] same(3) by (intro bexI [of _ c]) simp_all
  have last: "triple (\<lambda>s. \<exists>R'. stored R (r1\<lparr>ur_status := status, ur_updated_at := now\<rparr>) R' \<and> books C' R' s)
      (then_op (append_usage_event e) (return_op v)) ?Q (\<lambda>_. False)"
    if "saved C (c1\<lparr>uc_updated_at := now\<rparr>) C'" for C' now e and v :: usage_reservation
    unfolding then_op_def
    by (intro triple_ex triple_when triple_bind [OF sure_event] triple_return') (use that in blast)
  have save: "triple (\<lambda>s. \<exists>C'. saved C (c1\<lparr>uc_updated_at := now\<rparr>) C' \<and> books C' R s)
      (then_op (save_reservation (r1\<lparr>ur_status := status, ur_updated_at := now\<rparr>)) (then_op (append_usage_event e) (return_op v)))
      ?Q (\<lambda>_. False)" for now e and v :: usage_reservation
    unfolding then_op_def [of "save_reservation _"]
    by (intro triple_ex triple_when triple_bind [OF save_reservation_triple last] disjI1 rin) (simp_all add: same(1) assms(6))
  have put: "triple (books C R) (then_op (save_usage_counter (c1\<lparr>uc_updated_at := now\<rparr>))
      (then_op (save_reservation (r1\<lparr>ur_status := status, ur_updated_at := now\<rparr>)) (then_op (append_usage_event e) (return_op v))))
      ?Q (\<lambda>_. False)" for now e and v :: usage_reservation
    unfolding then_op_def [of "save_usage_counter _"] by (rule triple_bind [OF sure_save_counter [OF cin] save])
  have get: "triple (books C R) (bind_op (repo_usage_counter (rv_tenant_id inp) (rv_category inp) (ur_period_id r)) f) ?Q (\<lambda>_. False)"
    if "triple (books C R) (f (Some c)) ?Q (\<lambda>_. False)" for f :: "usage_counter option \<Rightarrow> usage_reservation bill_op"
    by (rule triple_bind [OF sure_counter triple_when]) (use that c in simp)
  show ?thesis
    unfolding resolve_reservation_to_def using assms(4)
    by (simp only: not_True_eq_False if_False)
      (intro triple_bind [OF sure_clock] triple_bind [OF sure_reservation triple_when],
        simp only: r option.case assms(5) if_False,
        intro get, simp only: option.case res Let_def prod.case, rule put)
qed

section \<open>Reachable states\<close>

lemma accounts_saved:
  assumes "accounts_ok C R" and "c \<in> set C" and "saved C c1 C'"
    and "counter_cols c1 = counter_cols c" "uc_reserved c1 = uc_reserved c" "uc_committed c1 = uc_committed c"
  shows "accounts_ok C' R"
  by (rule accounts_change [OF assms(1,3)]) (use assms in \<open>auto simp: accounts_ok_def\<close>)

lemma adjustment_read_yields: "yields (books C R) (\<lambda>co. \<exists>P. co = find P C) (adjustment_read env adj)"
proof -
  have "yields (books C R) (\<lambda>co. \<exists>P. co = find P C) (bind_op (repo_usage_counter t cat p) (\<lambda>co. if b co then fail_op e else return_op co))"
    for t cat p b e by (rule yields_bind [OF found_counter]) (auto intro: yields_fail yields_return)
  then show ?thesis
    unfolding adjustment_read_def
    by (cases "trim (ma_reason adj) = []"; cases "be_repo env") (auto intro!: yields_fail yields_bind_keeps [OF books_reads(2)])
qed

lemma adjustment_write_ok:
  assumes ok: "accounts_ok C R" and co: "co = find P C"
  shows "triple (books C R) (adjustment_write adj co) (\<lambda>_. bill_ok) bill_ok"
proof -
  note okI = bill_okI [OF _ ok]
  have rest: "triple (books C R) (then_op (case co of None \<Rightarrow> return_op ()
      | Some c \<Rightarrow> bind_op clock_now (\<lambda>now. save_usage_counter (adjusted_counter d now c))) (bind_op clock_now f)) (\<lambda>_. bill_ok) bill_ok"
    if f: "\<And>now C R. keeps (books C R) (f now)" for d and f :: "timestamp \<Rightarrow> unit bill_op"
  proof (cases co)
    case None
    then show ?thesis by (simp, intro triple_of_keeps keeps_intros f) (erule okI)
  next
    case (Some c)
    with co find_SomeD [of P C c] have c: "c \<in> set C" by simp
    have after: "triple (\<lambda>s. \<exists>C'. saved C (adjusted_counter d now c) C' \<and> books C' R s) (bind_op clock_now f) (\<lambda>_. bill_ok) bill_ok" for now
      by (intro triple_ex triple_when triple_of_keeps keeps_intros f)
        (erule bill_okI, erule accounts_saved [OF ok c], simp_all add: adjusted_counter_def)
    show ?thesis
      unfolding Some option.case then_op_def
      by (rule triple_bind [where R = "\<lambda>_ s. \<exists>now C'. saved C (adjusted_counter d now c) C' \<and> books C' R s"],
          rule triple_bind_keeps [OF books_reads(1)], erule okI, rule triple_weaken [OF save_counter_triple])
        (auto intro: okI intro!: triple_ex [where P = "\<lambda>now s. \<exists>C'. saved C (adjusted_counter d now c) C' \<and> books C' R s"] after)
  qed
  show ?thesis
    unfolding adjustment_write_def by (rule triple_then [OF books_other_tables(5) okI rest], assumption) (intro keeps_intros)
qed

lemma adjustment_ok:
  assumes "accounts_ok C R"
  shows "triple (books C R) (apply_manual_adjustment env adj) (\<lambda>_. bill_ok) bill_ok"
  unfolding apply_manual_adjustment_def
  by (rule triple_bind_yields [OF adjustment_read_yields]) (auto intro: adjustment_write_ok [OF assms] bill_okI [OF _ assms])

lemma summary_ok:
  assumes "plain_stamps (be_dates env)"
  shows "keeps (books C R) (summarize_usage env t h)"
proof -
  have "keeps (books C R) (summarize_quota env t at plan d)" for at plan d
    unfolding summarize_quota_def Let_def
    by (intro keeps_intros keeps_of_yields [OF open_period_yields [OF assms]] keeps_of_yields [OF found_counter])
  then show ?thesis unfolding summarize_usage_def active_plan_def by (intro keeps_intros)
qed

text \<open>
  The operations of the manager, with the inputs and the transitions of the data model. Every operation is
  a step whether it succeeds or not.
\<close>

inductive bill_step :: "bill_env \<Rightarrow> bill_state \<Rightarrow> bill_state \<Rightarrow> bool" for env where
  reserves: "plain_input (bl_reservations s) inp \<Longrightarrow> in_range (bl_counters s) \<Longrightarrow> bill_step env s (snd (reserve env inp s))"
| commits: "allowed_resolution (bl_reservations s) rv COMMITTED \<Longrightarrow> in_range (bl_counters s) \<Longrightarrow> bill_step env s (snd (commit env rv s))"
| refunds: "allowed_resolution (bl_reservations s) rv REFUNDED \<Longrightarrow> in_range (bl_counters s) \<Longrightarrow> bill_step env s (snd (refund env rv s))"
| releases: "allowed_resolution (bl_reservations s) rv RELEASED \<Longrightarrow> in_range (bl_counters s) \<Longrightarrow> bill_step env s (snd (release env rv s))"
| marks: "allowed_resolution (bl_reservations s) rv OPERATOR_ACTION_NEEDED \<Longrightarrow> in_range (bl_counters s) \<Longrightarrow>
    bill_step env s (snd (mark_operator_action_needed env rv s))"
| assigns: "bill_step env s (snd (assign_plan env plan actor reason s))"
| overrides: "bill_step env s (snd (apply_quota_override env ov s))"
| adjusts: "bill_step env s (snd (apply_manual_adjustment env adj s))"
| summarizes: "bill_step env s (snd (summarize_usage env tid hosted s))"

definition bill_start :: "bill_state \<Rightarrow> bool" where
  "bill_start s \<longleftrightarrow> bl_counters s = [] \<and> bl_reservations s = [] \<and> bl_periods s = [] \<and> bl_faults s = []"

lemma bill_ok_books: "bill_ok s \<Longrightarrow> books (bl_counters s) (bl_reservations s) s \<and> accounts_ok (bl_counters s) (bl_reservations s)"
  by (simp add: bill_ok_def)

lemma bill_ok_run:
  assumes "bill_ok s" and "accounts_ok (bl_counters s) (bl_reservations s) \<Longrightarrow> triple (books (bl_counters s) (bl_reservations s)) m (\<lambda>_. bill_ok) bill_ok"
  shows "bill_ok (snd (m s))"
  using assms triple_result [of _ m bill_ok s "fst (m s)" "snd (m s)"] by (simp add: bill_ok_books)

lemma bill_step_ok:
  assumes "plain_stamps (be_dates env)" and "bill_step env s t" and "bill_ok s"
  shows "bill_ok t"
  using assms(2,3)
proof (induction rule: bill_step.induct)
  case (reserves s inp)
  then show ?case by (intro bill_ok_run reserve_ok assms(1))
next
  case (commits s rv)
  then show ?case unfolding commit_def by (intro bill_ok_run resolve_ok)
next
  case (refunds s rv)
  then show ?case unfolding refund_def by (intro bill_ok_run resolve_ok)
next
  case (releases s rv)
  then show ?case unfolding release_def by (intro bill_ok_run resolve_ok)
next
  case (marks s rv)
  then show ?case unfolding mark_operator_action_needed_def
    by (intro bill_ok_run triple_if resolve_ok triple_fail') (auto intro: bill_okI)
next
  case (assigns s plan actor reason)
  then show ?case unfolding assign_plan_def Let_def by (intro bill_ok_run triple_of_keeps keeps_intros) (auto intro: bill_okI)
next
  case (overrides s ov)
  then show ?case unfolding apply_quota_override_def Let_def by (intro bill_ok_run triple_of_keeps keeps_intros) (auto intro: bill_okI)
next
  case (adjusts s adj)
  then show ?case by (intro bill_ok_run adjustment_ok)
next
  case (summarizes s tid hosted)
  then show ?case by (intro bill_ok_run triple_of_keeps summary_ok assms(1)) (auto intro: bill_okI)
qed

interpretation billing: invariant_system bill_start "\<lambda>s t. plain_stamps (be_dates env) \<and> bill_step env s t" bill_ok for env
proof
  show "bill_ok s" if "bill_start s" for s
    using that by (simp add: bill_start_def bill_ok_def books_def accounts_ok_def)
qed (use bill_step_ok in blast)

section \<open>Replays and grants\<close>



text \<open>Amounts for which no sum of a counter and a limit leaves 64 bits.\<close>

definition modest :: "usage_counter \<Rightarrow> bool" where
  "modest c \<longleftrightarrow> \<bar>uc_committed c\<bar> < 2 ^ 60 \<and> \<bar>uc_reserved c\<bar> < 2 ^ 60 \<and> \<bar>uc_adjusted c\<bar> < 2 ^ 60 \<and> \<bar>uc_carryover c\<bar> < 2 ^ 60"

lemma effective_usage_sum:
  assumes "\<bar>uc_committed c\<bar> < 2 ^ 61" "\<bar>uc_reserved c\<bar> < 2 ^ 61" "\<bar>uc_adjusted c\<bar> < 2 ^ 61" "\<bar>uc_carryover c\<bar> < 2 ^ 61"
  shows "effective_usage c = uc_committed c + uc_reserved c + uc_adjusted c - uc_carryover c"
proof -
  have "wrap_i64 (uc_committed c + uc_reserved c) = uc_committed c + uc_reserved c"
    "wrap_i64 (uc_committed c + uc_reserved c + uc_adjusted c) = uc_committed c + uc_reserved c + uc_adjusted c"
    "wrap_i64 (uc_committed c + uc_reserved c + uc_adjusted c - uc_carryover c) = uc_committed c + uc_reserved c + uc_adjusted c - uc_carryover c"
    using assms by (auto simp: abs_less_iff intro!: wrap_i64_same)
  then show ?thesis unfolding effective_usage_def by simp
qed

lemma modest_usage:
  assumes "modest c" and "0 \<le> a" "a < 2 ^ 60"
  shows "effective_usage (c\<lparr>uc_reserved := wrap_i64 (uc_reserved c + a), uc_updated_at := at\<rparr>) = effective_usage c + a"
    and "\<bar>effective_usage c\<bar> < 2 ^ 62"
proof -
  have w: "wrap_i64 (uc_reserved c + a) = uc_reserved c + a"
    using assms by (intro wrap_i64_same) (auto simp: modest_def abs_less_iff)
  show "effective_usage (c\<lparr>uc_reserved := wrap_i64 (uc_reserved c + a), uc_updated_at := at\<rparr>) = effective_usage c + a"
    unfolding w using assms by (subst (1 2) effective_usage_sum) (auto simp: modest_def abs_less_iff)
  show "\<bar>effective_usage c\<bar> < 2 ^ 62"
    using assms by (subst effective_usage_sum) (auto simp: modest_def abs_less_iff)
qed

lemma keeps_counters [keeps_intros]:
  "keeps (\<lambda>s. bl_counters s = C) (save_reservation r)" "keeps (\<lambda>s. bl_counters s = C) (append_usage_event e)"
proof -
  have call: "keeps (\<lambda>s. bl_counters s = C) (bill_call f)" if "\<And>s x t. f s = Some (x, t) \<Longrightarrow> bl_counters t = bl_counters s"
    for f :: "bill_state \<Rightarrow> (unit \<times> bill_state) option"
  proof (rule keepsI)
    fix s :: bill_state
    assume "bl_counters s = C"
    with that [of "s\<lparr>bl_faults := tl (bl_faults s)\<rparr>"] show "bl_counters (snd (bill_call f s)) = C"
      by (cases "f (s\<lparr>bl_faults := tl (bl_faults s)\<rparr>)") (auto simp: bill_call_def Let_def)
  qed
  have reads: "keeps (\<lambda>s. bl_counters s = C) (or_new_id p i)" "keeps (\<lambda>s. bl_counters s = C) wall_now" "keeps (\<lambda>s. bl_counters s = C) (or_now t)"
    for p i t by (auto intro!: keepsI simp: or_new_id_def or_now_def new_billing_id_def wall_now_def return_op_def)
  show "keeps (\<lambda>s. bl_counters s = C) (save_reservation r)"
    unfolding save_reservation_def Let_def by (intro keeps_bind reads call) auto
  show "keeps (\<lambda>s. bl_counters s = C) (append_usage_event e)"
    unfolding append_usage_event_def by (intro keeps_bind reads call) auto
qed

definition granted_within :: "reserve_input \<Rightarrow> reserve_result \<Rightarrow> bill_state \<Rightarrow> bool" where
  "granted_within inp res s \<longleftrightarrow> (\<forall>q. rr_allowed res \<longrightarrow> rr_quota res = Some q \<longrightarrow> \<bar>eq_limit q\<bar> < 2 ^ 60 \<longrightarrow>
     (\<exists>c \<in> set (bl_counters s). uc_tenant_id c = ri_tenant_id inp \<and> uc_category c = ri_category inp \<and>
        effective_usage c = eq_limit q - eq_remaining_amount q + reserve_amount inp \<and> effective_usage c \<le> eq_limit q))"

lemma grant_within:
  assumes c: "modest c" "uc_tenant_id c = ri_tenant_id inp" "uc_category c = ri_category inp" and amount: "ri_amount inp < 2 ^ 60"
    and quota: "\<bar>eq_limit quota\<bar> < 2 ^ 60 \<Longrightarrow> eq_remaining_amount quota = eq_limit quota - effective_usage c"
      "reserve_amount inp \<le> eq_remaining_amount quota" and "distinct (map counter_cols C)"
  shows "triple (books C R) (grant_reservation now inp p c quota) (granted_within inp) (\<lambda>_. True)"
proof -
  let ?c = "c\<lparr>uc_reserved := wrap_i64 (uc_reserved c + reserve_amount inp), uc_updated_at := now\<rparr>"
  have usage: "effective_usage ?c = effective_usage c + reserve_amount inp"
    using amount by (intro modest_usage [OF c(1)]) (auto simp: reserve_amount_def)
  have "granted_within inp (result_default\<lparr>rr_allowed := True, rr_reservation := Some r, rr_quota := Some quota\<rparr>) s"
    if saved: "saved C ?c (bl_counters s)" for r s
  proof -
    note sc = saved_counters [OF saved assms(7)]
    from sc(2) obtain x where x: "x \<in> set (bl_counters s)" "counter_cols x = counter_cols ?c" by (metis (no_types, lifting) imageE insertI1)
    with sc(3) [OF x(1)] have "effective_usage x = effective_usage ?c" by (auto simp: effective_usage_def)
    with x c usage quota show ?thesis by (auto simp: granted_within_def intro!: bexI [of _ x])
  qed
  then have rest: "triple (\<lambda>s. bl_counters s = C') (then_op (save_reservation r) (then_op (append_usage_event e)
      (return_op (result_default\<lparr>rr_allowed := True, rr_reservation := Some r, rr_quota := Some quota\<rparr>)))) (granted_within inp) (\<lambda>_. True)"
    if "saved C ?c C'" for C' r e
    using that by (intro triple_then keeps_counters triple_return') auto
  show ?thesis
    unfolding grant_reservation_def Let_def then_op_def [of "save_usage_counter _"]
    by (rule triple_bind [OF triple_weaken [OF save_counter_triple]], assumption, assumption, simp)
      (intro triple_ex triple_when triple_weaken [OF rest], assumption, simp_all add: books_def)
qed

lemma quota_remaining:
  assumes "modest c" and "tp_enforcement_mode plan \<noteq> UNLIMITED" and "\<bar>eq_limit (project_quota plan d p c ov)\<bar> < 2 ^ 60"
  shows "eq_remaining_amount (project_quota plan d p c ov) = eq_limit (project_quota plan d p c ov) - effective_usage c"
proof -
  have "ENFORCED \<noteq> UNLIMITED" by (simp add: ENFORCED_def UNLIMITED_def)
  with assms modest_usage(2) [OF assms(1), of 0] show ?thesis
    by (auto simp: project_quota_def Let_def wrap_i64_same)
qed

lemma deny_within: "triple P (deny_reservation env wall now inp p quota) (granted_within inp) (\<lambda>_. True)"
  unfolding deny_reservation_def Let_def then_op_def
  by (intro triple_bind [where R = "\<lambda>_ _. True"] triple_return')
    (auto simp: granted_within_def triple_def split: prod.split sum.split)

lemma reserve_within:
  assumes "distinct (map counter_cols C)" and modest: "\<And>c. c \<in> set C \<Longrightarrow> modest c" and amount: "ri_amount inp < 2 ^ 60"
    and trims: "trim (ri_tenant_id inp) = ri_tenant_id inp" and stamps: "plain_stamps (be_dates env)"
  shows "triple (books C R) (reserve env inp) (granted_within inp) (\<lambda>_. True)"
proof (rule reserve_triple [OF _ _ stamps])
  fix wall now d and p :: quota_period and plan :: tenant_plan
  assume p: "trim (qp_id p) = qp_id p" and mode: "tp_enforcement_mode plan \<noteq> UNLIMITED"
  have decide: "triple (books C R) (if eq_remaining_amount (project_quota plan d p c ov) < reserve_amount inp
      then deny_reservation env wall now inp p (project_quota plan d p c ov) else grant_reservation now inp p c (project_quota plan d p c ov))
      (granted_within inp) (\<lambda>_. True)"
    if c: "modest c" "uc_tenant_id c = ri_tenant_id inp" "uc_category c = ri_category inp" for c ov
    by (intro triple_if deny_within grant_within [OF c amount quota_remaining [OF c(1) mode] _ assms(1)]) simp_all
  have counter: "modest c \<and> uc_tenant_id c = ri_tenant_id inp \<and> uc_category c = ri_category inp"
    if "co = find (\<lambda>c. uc_tenant_id c = trim (ri_tenant_id inp) \<and> uc_category c = ri_category inp \<and> uc_period_id c = trim (qp_id p)) C"
      and "c = (case co of Some c \<Rightarrow> c | None \<Rightarrow> new_counter now inp p)" for c co
  proof (cases co)
    case (Some x)
    with that(2) find_SomeD [OF that(1) [symmetric, unfolded Some]] modest [of x] show ?thesis by (simp add: trims)
  qed (use that(2) in \<open>simp add: new_counter_def modest_def\<close>)
  show "triple (books C R) (reserve_in_period env wall now inp plan d p) (granted_within inp) (\<lambda>_. True)"
    unfolding reserve_in_period_def Let_def
    apply (rule triple_bind_yields [OF found_reservation], simp)
    apply (rule triple_case_option)
     apply (rule triple_bind_yields [OF found_counter], simp)
     apply (rule triple_bind_keeps [OF books_queries(2)], simp)
    subgoal premises found for ro co ov by (intro decide) (use counter [OF found(2) refl] in blast)+
    apply (rule triple_return')
    apply (simp add: granted_within_def replayed_result_def result_default_def)
    done
qed (auto intro: triple_return' simp: granted_within_def)

section \<open>Recovery\<close>

definition recovered_status :: "recovery_decision \<Rightarrow> string" where
  "recovered_status d = (if rd_outcome d \<in> {COMMITTED, RELEASED, REFUNDED} then rd_outcome d else OPERATOR_ACTION_NEEDED)"

lemma recovered_not_reserved: "recovered_status d \<noteq> RESERVED"
  by (auto simp: recovered_status_def)

text \<open>\<open>R\<close> is \<open>R0\<close> with the pending reservations settled, but for those in \<open>todo\<close>.\<close>

definition settled ::
  "(usage_reservation \<Rightarrow> recovery_decision) option \<Rightarrow> usage_reservation set \<Rightarrow> usage_reservation list \<Rightarrow> usage_reservation list \<Rightarrow> bool" where
  "settled decide todo R0 R \<longleftrightarrow> list_all2 (\<lambda>r0 r.
     if ur_status r0 = RESERVED \<and> r0 \<notin> todo
     then reservation_cols r = reservation_cols r0 \<and> ur_status r = recovered_status (recovery_of decide r0) else r = r0) R0 R"

lemma settled_start: "(\<And>r. r \<in> set R \<Longrightarrow> ur_status r = RESERVED \<Longrightarrow> r \<in> todo) \<Longrightarrow> settled decide todo R R"
  by (auto simp: settled_def list_all2_same)

lemma settled_cols: "settled decide todo R0 R \<Longrightarrow> map reservation_cols R = map reservation_cols R0"
  unfolding settled_def by (induction rule: list_all2_induct) (auto split: if_splits)

lemma settled_member:
  assumes "settled decide todo R0 R" and "r \<in> set R0" and "ur_status r \<noteq> RESERVED \<or> r \<in> todo"
  shows "r \<in> set R"
  using assms unfolding settled_def by (induction rule: list_all2_induct) (auto split: if_splits)

lemma settled_done: "settled decide {} R0 R \<Longrightarrow> r \<in> set R \<Longrightarrow> ur_status r \<noteq> RESERVED"
  unfolding settled_def by (induction rule: list_all2_induct) (auto simp: recovered_not_reserved recovered_not_reserved [symmetric] split: if_splits)

lemma settled_next:
  assumes "settled decide (insert r todo) R0 R" and "r \<in> set R0" and "distinct (map reservation_cols R0)" and "r \<notin> todo"
    and "ur_status r = RESERVED" and "reservation_cols r' = reservation_cols r" and "ur_status r' = recovered_status (recovery_of decide r)"
  shows "settled decide todo R0 (map (\<lambda>x. if reservation_cols x = reservation_cols r then r' else x) R)"
proof -
  have same: "x = r" if "x \<in> set R0" "reservation_cols x = reservation_cols r" for x
    using same_key [OF assms(3) that(1) assms(2) that(2)] .
  from assms(1) have "list_all2 (\<lambda>r0 x. r0 \<in> set R0 \<and> (if ur_status r0 = RESERVED \<and> r0 \<notin> insert r todo
     then reservation_cols x = reservation_cols r0 \<and> ur_status x = recovered_status (recovery_of decide r0) else x = r0)) R0 R"
    unfolding settled_def by (simp add: list_all2_conv_all_nth)
  then show ?thesis
    unfolding settled_def list_all2_map2
  proof (rule list_all2_mono)
    fix r0 x
    assume x: "r0 \<in> set R0 \<and> (if ur_status r0 = RESERVED \<and> r0 \<notin> insert r todo
       then reservation_cols x = reservation_cols r0 \<and> ur_status x = recovered_status (recovery_of decide r0) else x = r0)"
    then have cols: "reservation_cols x = reservation_cols r0" by (auto split: if_splits)
    show "if ur_status r0 = RESERVED \<and> r0 \<notin> todo
       then reservation_cols (if reservation_cols x = reservation_cols r then r' else x) = reservation_cols r0 \<and>
         ur_status (if reservation_cols x = reservation_cols r then r' else x) = recovered_status (recovery_of decide r0)
       else (if reservation_cols x = reservation_cols r then r' else x) = r0"
    proof (cases "r0 = r")
      case True
      with assms cols show ?thesis by simp
    next
      case False
      with same [of r0] x cols have "reservation_cols x \<noteq> reservation_cols r" by metis
      with False x show ?thesis by (simp only: if_False insert_iff simp_thms, elim conjE)
    qed
  qed
qed

definition recovering ::
  "(usage_reservation \<Rightarrow> recovery_decision) option \<Rightarrow> usage_counter list \<Rightarrow> usage_reservation list \<Rightarrow> usage_reservation set \<Rightarrow> bill_state \<Rightarrow> bool" where
  "recovering decide C0 R0 todo s \<longleftrightarrow> (\<exists>C R. (distinct (map counter_cols C) \<and> counter_cols ` set C = counter_cols ` set C0 \<and>
     settled decide todo R0 R) \<and> books C R s)"

lemma recover_as_resolve:
  assumes "rd_reason (recovery_of decide r) \<noteq> []"
  obtains inp kind where "recover_reservation env decide r =
      then_op (resolve_reservation_to env inp (recovered_status (recovery_of decide r)) kind) (return_op (recovery_of decide r))"
    and "rv_tenant_id inp = ur_tenant_id r" "rv_category inp = ur_category r" "rv_operation_key inp = ur_operation_key r"
proof -
  let ?inp = "\<lparr>rv_tenant_id = ur_tenant_id r, rv_category = ur_category r, rv_operation_key = ur_operation_key r,
      rv_amount = ur_reserved r, rv_reason_code = ''billing.reservation_recovery_decided'', rv_reason = rd_reason (recovery_of decide r),
      rv_actor_principal_id = []\<rparr>"
  let ?d = "recovery_of decide r"
  have "\<exists>kind. recover_reservation env decide r =
      then_op (resolve_reservation_to env ?inp (recovered_status ?d) kind) (return_op ?d)"
    using assms unfolding recover_reservation_def Let_def commit_def release_def refund_def mark_operator_action_needed_def
    by (auto simp: recovered_status_def)
  then show ?thesis by (elim exE) (rule that, assumption, simp_all)
qed

lemma recover_one:
  assumes ok: "accounts_ok C0 R0" and r: "r \<in> set R0" "ur_status r = RESERVED" "r \<notin> todo" and "be_repo env"
    and reason: "rd_reason (recovery_of decide r) \<noteq> []"
  shows "triple (recovering decide C0 R0 (insert r todo)) (recover_reservation env decide r) (\<lambda>_. recovering decide C0 R0 todo) (\<lambda>_. False)"
proof -
  from ok r have rok: "reservation_ok r" "account r \<in> counter_cols ` set C0" and d0: "distinct (map reservation_cols R0)"
    by (auto simp: accounts_ok_def)
  then have trims: "trim (ur_tenant_id r) = ur_tenant_id r" "trim (ur_operation_key r) = ur_operation_key r"
    "trim (ur_period_id r) = ur_period_id r" "ur_id r \<noteq> []" by (auto simp: reservation_ok_def)
  obtain inp kind where run: "recover_reservation env decide r =
      then_op (resolve_reservation_to env inp (recovered_status (recovery_of decide r)) kind) (return_op (recovery_of decide r))"
    and inp: "rv_tenant_id inp = ur_tenant_id r" "rv_category inp = ur_category r" "rv_operation_key inp = ur_operation_key r"
    by (rule recover_as_resolve [OF reason])
  let ?st = "recovered_status (recovery_of decide r)"
  have "triple (books C R) (resolve_reservation_to env inp ?st kind) (\<lambda>_. recovering decide C0 R0 todo) (\<lambda>_. False)"
    if C: "distinct (map counter_cols C)" "counter_cols ` set C = counter_cols ` set C0" and R: "settled decide (insert r todo) R0 R" for C R
  proof -
    have rin: "r \<in> set R" and dR: "distinct (map reservation_cols R)"
      using settled_member [OF R r(1)] settled_cols [OF R] d0 by simp_all
    have fr: "find (\<lambda>r. reservation_cols r = (trim (rv_tenant_id inp), rv_category inp, trim (rv_operation_key inp))) R = Some r"
      unfolding inp trims by (rule find_same_key [OF dR rin])
    from rok(2) C(2) obtain c where c: "c \<in> set C" "counter_cols c = account r" by (metis (no_types, lifting) imageE)
    have fc: "find (\<lambda>c. uc_tenant_id c = trim (rv_tenant_id inp) \<and> uc_category c = rv_category inp \<and>
        uc_period_id c = trim (ur_period_id r)) C = Some c"
      unfolding inp trims using find_same_key [OF C(1) c(1)] c(2) by simp
    obtain c1 r1 where res: "resolve_accounts inp ?st c r = (c1, r1)" by fastforce
    then have same: "reservation_cols r1 = reservation_cols r" "counter_cols c1 = counter_cols c"
      by (auto simp: resolve_accounts_def Let_def split: if_splits)
    have post: "recovering decide C0 R0 todo s" if sv: "saved C (c1\<lparr>uc_updated_at := now\<rparr>) C'"
        and st: "stored R (r1\<lparr>ur_status := ?st, ur_updated_at := now\<rparr>) R'" and bk: "books C' R' s" for C' R' s now
    proof -
      obtain a b where R': "R' = map (\<lambda>x. if reservation_cols x = reservation_cols r
          then (r1\<lparr>ur_status := ?st, ur_updated_at := now\<rparr>)\<lparr>ur_id := ur_id r, ur_created_at := a, ur_updated_at := b\<rparr> else x) R"
        by (rule stored_old [OF st rin _ dR]) (use same in simp)
      have "settled decide todo R0 R'" unfolding R' by (rule settled_next [OF R r(1) d0 r(3,2)]) (use same in simp_all)
      moreover have "distinct (map counter_cols C')" by (rule saved_counters(1) [OF sv C(1)])
      moreover have "counter_cols ` set C' = counter_cols ` set C0"
      proof -
        have "counter_cols (c1\<lparr>uc_updated_at := now\<rparr>) = account r" using same c(2) by simp
        with saved_counters(2) [OF sv C(1)] rok(2) C(2) show ?thesis by (simp only: insert_absorb)
      qed
      ultimately show ?thesis using bk unfolding recovering_def by (intro exI conjI)
    qed
    show ?thesis
      by (rule triple_weaken [OF resolve_runs [OF fr fc res \<open>be_repo env\<close> _ trims(4)]])
        (use r(2) recovered_not_reserved [of "recovery_of decide r"] post in auto)
  qed
  then show ?thesis
    unfolding run then_op_def recovering_def [of decide C0 R0 "insert r todo"]
    by (intro triple_bind [where R = "\<lambda>_. recovering decide C0 R0 todo"] triple_ex triple_when triple_return') auto
qed

lemma recover_each:
  assumes ok: "accounts_ok C0 R0" and "be_repo env" and reason: "\<And>r. rd_reason (recovery_of decide r) \<noteq> []"
    and "distinct L" and "\<And>r. r \<in> set L \<Longrightarrow> r \<in> set R0 \<and> ur_status r = RESERVED"
  shows "triple (recovering decide C0 R0 (set L)) (each_op (recover_reservation env decide) L) (\<lambda>_. recovering decide C0 R0 {}) (\<lambda>_. False)"
  using assms(4,5)
proof (induction L)
  case (Cons r L)
  then have one: "triple (recovering decide C0 R0 (insert r (set L))) (recover_reservation env decide r) (\<lambda>_. recovering decide C0 R0 (set L)) (\<lambda>_. False)"
    by (intro recover_one [OF ok _ _ _ assms(2) reason]) auto
  from Cons show ?case
    by (simp, intro triple_bind [OF one] triple_bind [OF Cons.IH] triple_return') auto
qed (simp add: triple_return')

section \<open>Operation keys\<close>

lemma key_part_plain: "CHR '':'' \<notin> set (key_part p)"
  by (auto simp: key_part_def)

lemma key_part_same: "trim p = p \<Longrightarrow> p \<noteq> [] \<Longrightarrow> CHR '':'' \<notin> set p \<Longrightarrow> key_part p = p"
  by (auto simp: key_part_def intro!: map_idI)

lemma joined_keys: "ps \<noteq> [] \<Longrightarrow> split_on CHR '':'' (join_operation_key ps) = map key_part ps"
  unfolding join_operation_key_def by (intro split_join) (auto simp: key_part_plain)

section \<open>A small account\<close>

text \<open>A calendar of one year of one month, a tenant with an enforced plan, and a run of this tenant.\<close>

definition plain_dates :: utc_dates where
  "plain_dates = \<lparr>ud_date = (\<lambda>t. (2026, 1, 1 + t div DAY)), ud_midnight = (\<lambda>(y, m, d). Some ((d - 1) * DAY)),
     ud_stamp = (\<lambda>t. ''20260101''), ud_text = (\<lambda>t. ''2026-01-01''), ud_json = (\<lambda>t. ''2026-01-01'')\<rparr>"

definition plain_env :: bill_env where "plain_env = \<lparr>be_repo = True, be_dates = plain_dates\<rparr>"

definition new_account :: "bool list \<Rightarrow> bill_state" where
  "new_account faults = \<lparr>bl_plans = [(development_plan ''t'' 0)\<lparr>tp_enforcement_mode := ENFORCED\<rparr>], bl_overrides = [], bl_periods = [],
     bl_counters = [], bl_reservations = [], bl_events = [], bl_denials = [], bl_adjustments = [], bl_restrictions = [],
     bl_clock = (\<lambda>n. 5), bl_wall = (\<lambda>n. 5), bl_uuid = decimal, bl_drawn = 0, bl_faults = faults\<rparr>"

definition run_input :: "string \<Rightarrow> reserve_input" where
  "run_input k = \<lparr>ri_tenant_id = ''t'', ri_category = RUN_LAUNCHES, ri_amount = 1, ri_operation_key = k, ri_reservation_point = [],
     ri_guarded_entry_point = [], ri_actor_principal_id = [], ri_hosted = True\<rparr>"

definition run_resolution :: "string \<Rightarrow> resolve_input" where
  "run_resolution k = \<lparr>rv_tenant_id = ''t'', rv_category = RUN_LAUNCHES, rv_operation_key = k, rv_amount = 0, rv_reason_code = [],
     rv_reason = [], rv_actor_principal_id = []\<rparr>"

definition one_run :: bill_state where
  "one_run = snd (reserve plain_env (run_input ''k1'') (new_account []))"

lemma account_trims: "trim ''t'' = ''t''" "trim ''k1'' = ''k1''"
  by code_simp+

lemma plain_stamps_witness: "plain_stamps (be_dates plain_env)"
  by (simp add: plain_stamps_def plain_env_def plain_dates_def visible_def)

lemma new_account_start: "bill_start (new_account [])"
  by (simp add: bill_start_def new_account_def)

lemma one_run_step: "plain_stamps (be_dates plain_env) \<and> bill_step plain_env (new_account []) one_run"
proof -
  have "plain_input (bl_reservations (new_account [])) (run_input ''k1'')" "in_range (bl_counters (new_account []))"
    by (simp_all add: plain_input_def in_range_def new_account_def run_input_def account_trims)
  then show ?thesis unfolding one_run_def using plain_stamps_witness by (intro conjI bill_step.reserves)
qed

lemma one_run_ok: "bill_ok one_run"
  using billing.inv_reachable [OF new_account_start r_into_rtranclp [of "\<lambda>s t. plain_stamps (be_dates plain_env) \<and> bill_step plain_env s t", OF one_run_step]] .

section \<open>Properties\<close>



text \<open>
  C8. A reservation that is granted after a look at the quota leaves the effective usage of its counter within
  the limit the quota states (the override in force, or the default of the catalog), raised by exactly the
  requested amount.
\<close>

theorem grant_within_limit:
  assumes "bill_ok s" and "plain_stamps (be_dates env)" and "reserve env inp s = (Inr res, t)"
    and "rr_allowed res" and "rr_quota res = Some q" and "\<bar>eq_limit q\<bar> < 2 ^ 60"
    and "trim (ri_tenant_id inp) = ri_tenant_id inp" and "ri_amount inp < 2 ^ 60" and "\<forall>c \<in> set (bl_counters s). modest c"
  shows "\<exists>c \<in> set (bl_counters t). uc_tenant_id c = ri_tenant_id inp \<and> uc_category c = ri_category inp \<and>
    effective_usage c = eq_limit q - eq_remaining_amount q + reserve_amount inp \<and> effective_usage c \<le> eq_limit q"
proof -
  from assms(1) have "distinct (map counter_cols (bl_counters s))" "books (bl_counters s) (bl_reservations s) s"
    by (simp_all add: bill_ok_def accounts_ok_def)
  with tripleD(2) [OF reserve_within [OF _ _ assms(8,7,2)] _ assms(3)] assms(9) have "granted_within inp res t" by blast
  with assms(4-6) show ?thesis by (auto simp: granted_within_def)
qed

lemma new_account_ok: "bill_ok (new_account [])"
  by (rule billing.inv_start [OF new_account_start])

lemma grant_within_limit_witness:
  "\<exists>c \<in> set (bl_counters one_run). uc_tenant_id c = ''t'' \<and> effective_usage c \<le> 1"
proof -
  let ?res = "projr (fst (reserve plain_env (run_input ''k1'') (new_account [])))"
  have res: "isl (fst (reserve plain_env (run_input ''k1'') (new_account []))) = False" "rr_allowed ?res"
    "map_option eq_limit (rr_quota ?res) = Some 1" by code_simp+
  then obtain q where q: "rr_quota ?res = Some q" "eq_limit q = 1" by auto
  from res(1) have "reserve plain_env (run_input ''k1'') (new_account []) = (Inr ?res, one_run)"
    unfolding one_run_def by (metis prod.collapse sum.collapse(2))
  from grant_within_limit [OF new_account_ok plain_stamps_witness this res(2) q(1)] q(2)
  show ?thesis by (auto simp: run_input_def new_account_def account_trims)
qed



text \<open>
  C28. Recovery after a restart settles every pending reservation: when no statement fails and every decision
  has a reason, it returns, no reservation is left in status reserved, each of them has the status decided for it
  (operator action needed when the decision names no known outcome) and every other reservation is unchanged.
\<close>

theorem recovery_settles:
  assumes "bill_ok s" and "be_repo env" and "\<And>r. rd_reason (recovery_of decide r) \<noteq> []"
  shows "\<exists>ds t. recover_pending_reservations env decide s = (Inr ds, t) \<and> (\<forall>r \<in> set (bl_reservations t). ur_status r \<noteq> RESERVED) \<and>
    list_all2 (\<lambda>r0 r. if ur_status r0 = RESERVED
      then reservation_cols r = reservation_cols r0 \<and> ur_status r = recovered_status (recovery_of decide r0) else r = r0)
      (bl_reservations s) (bl_reservations t)"
proof -
  let ?C = "bl_counters s" and ?R = "bl_reservations s"
  let ?L = "ordered ur_updated_at ur_id (filter (\<lambda>r. ur_status r = RESERVED) ?R)"
  from assms(1) have bk: "books ?C ?R s" and ok: "accounts_ok ?C ?R" by (simp_all add: bill_ok_def)
  then have dist: "distinct ?R" "distinct (map counter_cols ?C)" by (auto simp: accounts_ok_def distinct_map)
  have each: "triple (recovering decide ?C ?R (set ?L)) (each_op (recover_reservation env decide) ?L) (\<lambda>_. recovering decide ?C ?R {}) (\<lambda>_. False)"
    by (rule recover_each [OF ok assms(2,3)]) (use dist in \<open>auto simp: ordered_def\<close>)
  have start: "recovering decide ?C ?R (set ?L) u" if "books ?C ?R u" for u
    unfolding recovering_def using that dist(2) settled_start [of ?R "set ?L" decide] by auto
  have "triple (books ?C ?R) (bind_op list_pending_reservations (each_op (recover_reservation env decide))) (\<lambda>_. recovering decide ?C ?R {}) (\<lambda>_. False)"
  proof (rule triple_bind [OF _ triple_when])
    show "triple (books ?C ?R) list_pending_reservations (\<lambda>L s. L = ?L \<and> books ?C ?R s) (\<lambda>_. False)"
      unfolding list_pending_reservations_def by (rule triple_weaken [OF sure_read]) (auto simp: books_def)
    show "triple (books ?C ?R) (each_op (recover_reservation env decide) L) (\<lambda>_. recovering decide ?C ?R {}) (\<lambda>_. False)" if "L = ?L" for L
      unfolding that by (rule triple_weaken [OF each start])
  qed
  then obtain ds t where "bind_op list_pending_reservations (each_op (recover_reservation env decide)) s = (Inr ds, t)"
    and rec: "recovering decide ?C ?R {} t" using bk by (rule sure_result)
  then have run: "recover_pending_reservations env decide s = (Inr ds, t)" using assms(2) by (simp add: recover_pending_reservations_def)
  from rec have set: "settled decide {} ?R (bl_reservations t)" by (auto simp: recovering_def books_def)
  with run settled_done [OF set] show ?thesis unfolding settled_def by auto
qed

lemma recovery_settles_witness:
  "(\<forall>r. rd_reason (recovery_of None r) \<noteq> []) \<and>
   (\<exists>ds t. recover_pending_reservations plain_env None one_run = (Inr ds, t) \<and> (\<forall>r \<in> set (bl_reservations t). ur_status r \<noteq> RESERVED))"
proof -
  have reason: "rd_reason (recovery_of None r) \<noteq> []" for r by (simp add: recovery_of_def)
  moreover have "be_repo plain_env" by (simp add: plain_env_def)
  ultimately show ?thesis using recovery_settles [OF one_run_ok _ reason] by blast
qed

text \<open>
  Operation keys keep their parts apart: two keys are equal exactly when their parts are equal once blanks
  are trimmed, an empty part is replaced by \<open>unknown\<close> and colons by underscores; so for trimmed, non-empty
  parts without colons the key determines the tenant and the resource.
\<close>

theorem operation_keys_apart:
  assumes "ps \<noteq> []" and "qs \<noteq> []"
  shows "(join_operation_key ps = join_operation_key qs) = (map key_part ps = map key_part qs) \<and>
    ((\<forall>p \<in> set ps \<union> set qs. trim p = p \<and> p \<noteq> [] \<and> CHR '':'' \<notin> set p) \<longrightarrow>
     (join_operation_key ps = join_operation_key qs) = (ps = qs))"
proof -
  have keys: "(join_operation_key ps = join_operation_key qs) = (map key_part ps = map key_part qs)"
  proof
    assume "join_operation_key ps = join_operation_key qs"
    then have "split_on CHR '':'' (join_operation_key ps) = split_on CHR '':'' (join_operation_key qs)" by (rule arg_cong)
    then show "map key_part ps = map key_part qs" unfolding joined_keys [OF assms(1)] joined_keys [OF assms(2)] .
  qed (simp only: join_operation_key_def)
  moreover have "map key_part ps = ps \<and> map key_part qs = qs"
    if "\<forall>p \<in> set ps \<union> set qs. trim p = p \<and> p \<noteq> [] \<and> CHR '':'' \<notin> set p"
    using that by (auto intro!: map_idI key_part_same)
  ultimately show ?thesis by auto
qed

lemma operation_keys_apart_witness:
  "run_operation_key ''a'' ''c'' [] \<noteq> run_operation_key ''b'' ''c'' [] \<and> run_operation_key ''a:b'' ''c'' [] = run_operation_key ''a_b'' ''c'' []"
proof -
  have parts: "map key_part [''tenant'', ''a'', ''run'', ''c''] \<noteq> map key_part [''tenant'', ''b'', ''run'', ''c'']"
    "map key_part [''tenant'', ''a:b'', ''run'', ''c''] = map key_part [''tenant'', ''a_b'', ''run'', ''c'']"
    "key_choice [''c'', []] = ''c''" by code_simp+
  show ?thesis
    unfolding run_operation_key_def parts(3)
    using operation_keys_apart [of "[''tenant'', ''a'', ''run'', ''c'']" "[''tenant'', ''b'', ''run'', ''c'']"]
      operation_keys_apart [of "[''tenant'', ''a:b'', ''run'', ''c'']" "[''tenant'', ''a_b'', ''run'', ''c'']"] parts(1,2) by blast
qed



text \<open>
  A reservation that fails half way keeps the quota: when the statement that saves the reservation fails,
  the counter has been raised already; no reservation holds the amount, so nothing ever gives it back and the
  next operation is denied.
\<close>

theorem failed_save_leaks:
  "(case reserve plain_env (run_input ''k1'') (new_account (replicate 7 False @ [True])) of (res, t) \<Rightarrow>
      res = Inl BillingRepository \<and> map uc_reserved (bl_counters t) = [1] \<and> bl_reservations t = [] \<and>
      (case reserve plain_env (run_input ''k2'') t of
         (Inl e, u) \<Rightarrow> False
       | (Inr a, u) \<Rightarrow> \<not> rr_allowed a \<and> rr_failure a = Some QuotaDenied))"
  by code_simp

text \<open>
  A refund after the commit takes from others: refunding a reservation that was committed in full leaves the
  committed amount of its counter as it was and lowers the reserved amount by what the reservation had held, down to
  zero, although the pending reservations still add up to the old amount.
\<close>

theorem late_refund_frees_other:
  assumes "bill_ok s" and "in_range (bl_counters s)" and "be_repo env" and "r \<in> set (bl_reservations s)"
    and "ur_status r = COMMITTED" and "ur_refunded r = 0"
    and "(rv_tenant_id inp, rv_category inp, rv_operation_key inp) = reservation_cols r"
    and "c \<in> set (bl_counters s)" and "counter_cols c = account r"
  shows "\<exists>r' t. refund env inp s = (Inr r', t) \<and>
    (\<exists>c' \<in> set (bl_counters t). counter_cols c' = account r \<and> uc_committed c' = uc_committed c \<and>
       uc_reserved c' = max 0 (uc_reserved c - ur_reserved r)) \<and>
    (\<Sum>x \<leftarrow> bl_reservations t. held (account r) x) = uc_reserved c"
proof -
  let ?C = "bl_counters s" and ?R = "bl_reservations s"
  from assms(1) have bk: "books ?C ?R s" and ok: "accounts_ok ?C ?R" by (simp_all add: bill_ok_def)
  then have dist: "distinct (map counter_cols ?C)" "distinct (map reservation_cols ?R)" "reservation_ok r"
    and sum: "uc_reserved c = (\<Sum>x \<leftarrow> ?R. held (account r) x)"
    using assms(4,8,9) by (auto simp: accounts_ok_def)
  then have trims: "trim (ur_tenant_id r) = ur_tenant_id r" "trim (ur_operation_key r) = ur_operation_key r"
    "trim (ur_period_id r) = ur_period_id r" "ur_id r \<noteq> []" and amount: "0 < ur_reserved r" "ur_reserved r < 2 ^ 60"
    by (auto simp: reservation_ok_def)
  have inp: "rv_tenant_id inp = ur_tenant_id r" "rv_category inp = ur_category r" "rv_operation_key inp = ur_operation_key r"
    using assms(7) by simp_all
  have fr: "find (\<lambda>r. reservation_cols r = (trim (rv_tenant_id inp), rv_category inp, trim (rv_operation_key inp))) ?R = Some r"
    unfolding inp trims by (rule find_same_key [OF dist(2) assms(4)])
  have fc: "find (\<lambda>c. uc_tenant_id c = trim (rv_tenant_id inp) \<and> uc_category c = rv_category inp \<and>
      uc_period_id c = trim (ur_period_id r)) ?C = Some c"
    unfolding inp trims using find_same_key [OF dist(1) assms(8)] assms(9) by simp
  obtain c1 r1 where res: "resolve_accounts inp REFUNDED c r = (c1, r1)" by fastforce
  have "\<bar>uc_reserved c\<bar> < 2 ^ 60" using assms(2,8) by (auto simp: in_range_def)
  then have c1: "counter_cols c1 = account r" "uc_committed c1 = uc_committed c" "uc_reserved c1 = max 0 (uc_reserved c - ur_reserved r)"
    and r1: "reservation_cols r1 = reservation_cols r"
    using res assms(6,9) amount by (auto simp: resolve_accounts_def Let_def wrap_i64_same)
  obtain r' t where run: "refund env inp s = (Inr r', t)" and "\<exists>C' R' now. saved ?C (c1\<lparr>uc_updated_at := now\<rparr>) C' \<and>
      stored ?R (r1\<lparr>ur_status := REFUNDED, ur_updated_at := now\<rparr>) R' \<and> books C' R' t"
    unfolding refund_def using bk assms(5)
    by (rule_tac sure_result [OF resolve_runs [OF fr fc res assms(3) _ trims(4)]]) simp_all
  then obtain now where saved: "saved ?C (c1\<lparr>uc_updated_at := now\<rparr>) (bl_counters t)"
    and stored: "stored ?R (r1\<lparr>ur_status := REFUNDED, ur_updated_at := now\<rparr>) (bl_reservations t)" by (auto simp: books_def)
  note sc = saved_counters [OF saved dist(1)]
  from sc(2) obtain c' where c': "c' \<in> set (bl_counters t)" "counter_cols c' = counter_cols (c1\<lparr>uc_updated_at := now\<rparr>)"
    by (metis (no_types, lifting) imageE insertI1)
  with sc(3) [OF c'(1)] c1 have counter: "counter_cols c' = account r \<and> uc_committed c' = uc_committed c \<and>
      uc_reserved c' = max 0 (uc_reserved c - ur_reserved r)" by auto
  obtain a b where R': "bl_reservations t = map (\<lambda>x. if reservation_cols x = reservation_cols r
      then (r1\<lparr>ur_status := REFUNDED, ur_updated_at := now\<rparr>)\<lparr>ur_id := ur_id r, ur_created_at := a, ur_updated_at := b\<rparr> else x) ?R"
    by (rule stored_old [OF stored assms(4) _ dist(2)]) (use r1 in simp)
  have "(\<Sum>x \<leftarrow> bl_reservations t. held (account r) x) = uc_reserved c"
    unfolding R' sum_replaced [OF dist(2) assms(4)] sum using assms(5) by (simp add: held_def pending_def)
  with run counter c'(1) show ?thesis by blast
qed

lemma late_refund_frees_other_witness:
  "\<exists>r' t. refund plain_env (run_resolution ''k1'') (snd (commit plain_env (run_resolution ''k1'') one_run)) = (Inr r', t) \<and>
    (\<exists>c' \<in> set (bl_counters t). uc_committed c' = 1)"
proof -
  let ?s = "snd (commit plain_env (run_resolution ''k1'') one_run)"
  have now: "allowed_resolution (bl_reservations one_run) (run_resolution ''k1'') COMMITTED" "in_range (bl_counters one_run)"
    unfolding allowed_resolution_def in_range_def pending_def by code_simp+
  have ok: "bill_ok ?s" by (rule bill_step_ok [OF plain_stamps_witness bill_step.commits [OF now] one_run_ok])
  have range: "in_range (bl_counters ?s)" unfolding in_range_def by code_simp
  have rows: "map (\<lambda>r. (reservation_cols r, account r, ur_status r, ur_refunded r)) (bl_reservations ?s) =
      [((''t'', RUN_LAUNCHES, ''k1''), (''t'', RUN_LAUNCHES, ''quota_period_t_run_launches_20260101''), COMMITTED, 0)]"
    "map (\<lambda>c. (counter_cols c, uc_committed c)) (bl_counters ?s) = [((''t'', RUN_LAUNCHES, ''quota_period_t_run_launches_20260101''), 1)]"
    by code_simp+
  then obtain r c where r: "r \<in> set (bl_reservations ?s)" "reservation_cols r = (''t'', RUN_LAUNCHES, ''k1'')"
      "account r = (''t'', RUN_LAUNCHES, ''quota_period_t_run_launches_20260101'')" "ur_status r = COMMITTED" "ur_refunded r = 0"
    and c: "c \<in> set (bl_counters ?s)" "counter_cols c = (''t'', RUN_LAUNCHES, ''quota_period_t_run_launches_20260101'')" "uc_committed c = 1"
    by (cases "bl_reservations ?s"; cases "bl_counters ?s") auto
  have "be_repo plain_env" by (simp add: plain_env_def)
  moreover have "(rv_tenant_id (run_resolution ''k1''), rv_category (run_resolution ''k1''), rv_operation_key (run_resolution ''k1'')) = reservation_cols r"
    using r(2) by (simp add: run_resolution_def)
  moreover have "counter_cols c = account r" using r(3) c(2) by (rule trans [OF _ sym, rotated])
  ultimately show ?thesis using late_refund_frees_other [OF ok range _ r(1,4,5) _ c(1)] c(3) by fastforce
qed

text \<open>An adjustment by nothing of the counter of the tenant's runs.\<close>

definition run_adjustment :: manual_adjustment where
  "run_adjustment = \<lparr>ma_id = ''a'', ma_tenant_id = ''t'', ma_category = RUN_LAUNCHES,
     ma_period_id = ''quota_period_t_run_launches_20260101'', ma_amount_delta = 0, ma_reason = ''r'', ma_created_by_principal_id = [],
     ma_created_at = 5\<rparr>"

text \<open>
  An adjustment that overlaps a release or a reservation undoes its accounting: it writes back the whole counter
  it has read. When a reservation of one run is released between the read and the write, no reservation
  is pending but the counter still shows the run as reserved, and the next run is denied.
\<close>

theorem adjustment_overwrites:
  "(case adjustment_read plain_env run_adjustment one_run of
      (Inl e, s) \<Rightarrow> False
    | (Inr co, s) \<Rightarrow>
        (case release plain_env (run_resolution ''k1'') s of
           (Inl e, t) \<Rightarrow> False
         | (Inr r, t) \<Rightarrow>
             map uc_reserved (bl_counters t) = [0] \<and>
             (case adjustment_write run_adjustment co t of (w, u) \<Rightarrow>
                w = Inr () \<and> map uc_reserved (bl_counters u) = [1] \<and> map ur_status (bl_reservations u) = [RELEASED] \<and>
                (case reserve plain_env (run_input ''k2'') u of
                   (Inl e, v) \<Rightarrow> False
                 | (Inr a, v) \<Rightarrow> \<not> rr_allowed a \<and> rr_failure a = Some QuotaDenied))))"
  by code_simp

end
