(* ===== verification/Billing_Evidence.thy ===== *)
theory Billing_Evidence
  imports Billing_Properties
begin

text \<open>
  Dashboards and evidence: the quota dashboard of crates/domains/billing/src/projection.rs, the details of a
  denial and the redacted evidence export of denial.rs, with the statements of the store they use.
\<close>

section \<open>Statements\<close>

definition save_abuse_restriction :: "abuse_restriction \<Rightarrow> unit bill_op" where
  "save_abuse_restriction r =
     bind_op (or_new_id ''abuse_restriction'' (ar_id r)) (\<lambda>rid.
     bind_op (or_now (ar_started_at r)) (\<lambda>at.
     let r' = r\<lparr>ar_id := rid, ar_started_at := at,
                ar_status := (if ar_status r = [] then ''active'' else ar_status r),
                ar_recovery_action := (if ar_recovery_action r = [] then ''contact_support'' else ar_recovery_action r),
                ar_document := (if ar_document r = Some [] then None else ar_document r)\<rparr>
     in bill_call (\<lambda>s. Some ((), s\<lparr>bl_restrictions := upsert ar_id r' (bl_restrictions s)\<rparr>))))"

definition list_abuse_restrictions :: "string \<Rightarrow> timestamp \<Rightarrow> abuse_restriction list bill_op" where
  "list_abuse_restrictions tid t =
     bind_op (or_now t) (\<lambda>at.
     bill_read (\<lambda>s. newest_first ar_started_at ar_id
       (filter (\<lambda>r. ar_tenant_id r = trim tid \<and> ar_status r = ''active'' \<and> ar_started_at r \<le> at \<and>
                   (case ar_expires_at r of None \<Rightarrow> True | Some e \<Rightarrow> e > at)) (bl_restrictions s))))"

definition previous_quota_period :: "string \<Rightarrow> category \<Rightarrow> timestamp \<Rightarrow> (quota_period \<times> usage_counter) option bill_op" where
  "previous_quota_period tid cat before =
     bind_op (bill_read (\<lambda>s. newest qp_end qp_id
       (filter (\<lambda>p. qp_tenant_id p = trim tid \<and> qp_category p = cat \<and> qp_end p = before \<and> qp_status p = ''closed'') (bl_periods s)))) (\<lambda>po.
     case po of
       None \<Rightarrow> return_op None
     | Some p \<Rightarrow>
         bind_op (repo_usage_counter tid cat (qp_id p)) (\<lambda>co.
         return_op (Some (p, case co of
           Some c \<Rightarrow> c
         | None \<Rightarrow> \<lparr>uc_id = [], uc_tenant_id = trim tid, uc_category = cat, uc_period_id = qp_id p, uc_committed = 0,
                    uc_reserved = 0, uc_adjusted = 0, uc_carryover = 0, uc_updated_at = before\<rparr>))))"

definition quota_denial_by_id :: "string \<Rightarrow> string \<Rightarrow> quota_denial option bill_op" where
  "quota_denial_by_id tid did =
     bill_read (\<lambda>s. find (\<lambda>d. dn_tenant_id d = trim tid \<and> dn_id d = trim did) (bl_denials s))"

definition list_usage_evidence_refs :: "string \<Rightarrow> string \<Rightarrow> nat \<Rightarrow> string list bill_op" where
  "list_usage_evidence_refs tid key n =
     bill_read (\<lambda>s. map (\<lambda>e. ''billing_usage_event:'' @ ue_id e) (take (if n = 0 then 100 else n)
       (ordered ue_created_at ue_id (filter (\<lambda>e. ue_tenant_id e = trim tid \<and> ue_operation_key e = trim key) (bl_events s)))))"

section \<open>Dashboards\<close>

text \<open>\<open>f64 as i64\<close> on the bits of the float: truncation that saturates, zero for a NaN.\<close>

definition float_to_i64 :: "64 word \<Rightarrow> int" where
  "float_to_i64 w =
     (let n = uint w; e = n div 2 ^ 52 mod 2 ^ 11; m = n mod 2 ^ 52;
          v = (if e = 2047 then 2 ^ 64 else if e = 0 then 0
               else if e \<ge> 1075 then (2 ^ 52 + m) * 2 ^ nat (e - 1075) else (2 ^ 52 + m) div 2 ^ nat (1075 - e))
      in if e = 2047 \<and> m \<noteq> 0 then 0
         else if n \<ge> 2 ^ 63 then max (- (2 ^ 63)) (- v) else min (2 ^ 63 - 1) v)"

definition int64_from_document :: "json_map option \<Rightarrow> string \<Rightarrow> int" where
  "int64_from_document doc key =
     (case Option.bind doc (\<lambda>m. map_of m key) of
        Some (JNumber (PosInt w)) \<Rightarrow> min (2 ^ 63 - 1) (uint w)
      | Some (JNumber (NegInt w)) \<Rightarrow> sint w
      | Some (JNumber (Float w)) \<Rightarrow> float_to_i64 w
      | _ \<Rightarrow> 0)"

definition category_defined_typical_operation_amount :: "quota_definition \<Rightarrow> int" where
  "category_defined_typical_operation_amount d =
     (if qd_unit d = ''bytes''
      then let estimate = int64_from_document (qd_document d) ''artifactWriteReservationEstimateBytes'';
               typical = int64_from_document (qd_document d) ''typicalOperationAmount''
           in if estimate > 0 then estimate else if typical > 0 then typical else 1
      else 1)"

definition near_limit_reason_for_quota :: "effective_quota \<Rightarrow> int \<Rightarrow> string" where
  "near_limit_reason_for_quota q typical =
     (if eq_enforcement_mode q \<noteq> ENFORCED \<or> eq_limit q \<le> 0 \<or> eq_remaining_amount q \<le> 0 then []
      else let used = wrap_i64 (wrap_i64 (wrap_i64 (eq_consumed_amount q + eq_reserved_amount q) + eq_adjusted_amount q) - eq_carryover_applied q)
           in if wrap_i64 (used * 100) \<ge> wrap_i64 (eq_limit q * 80) then ''percent_threshold''
              else if typical > 0 \<and> eq_remaining_amount q < typical then ''below_one_typical_operation''
              else [])"

definition is_quota_near_limit :: "effective_quota \<Rightarrow> int \<Rightarrow> bool" where
  "is_quota_near_limit q typical \<longleftrightarrow> near_limit_reason_for_quota q typical \<noteq> []"

definition recovery_actions_for_quota_status :: "string \<Rightarrow> string \<Rightarrow> string list" where
  "recovery_actions_for_quota_status status reason =
     (if status = ''restricted'' then [''contact_support'']
      else if status = ''unavailable'' then [''operator_resolution_required'', ''retry_later'']
      else if status = ''exhausted'' then [''wait'', ''reduce_scope'', ''request_override'']
      else if status = ''near_limit''
      then (if reason = ''below_one_typical_operation'' then [''reduce_scope'', ''wait''] else [''wait'', ''reduce_scope''])
      else [])"

definition period_summary :: "effective_quota \<Rightarrow> usage_period_summary" where
  "period_summary q =
     \<lparr>ps_start = eq_period_start q, ps_end = eq_period_end q, ps_anchor = eq_period_anchor q,
      ps_consumed = eq_consumed_amount q, ps_reserved = eq_reserved_amount q, ps_adjusted = eq_adjusted_amount q,
      ps_carryover = eq_carryover_applied q, ps_remaining = eq_remaining_amount q, ps_over_limit = eq_over_limit q\<rparr>"

definition build_quota_status_item ::
  "tenant_plan \<Rightarrow> quota_definition \<Rightarrow> quota_period \<Rightarrow> usage_counter \<Rightarrow> usage_period_summary option \<Rightarrow> quota_override option \<Rightarrow>
   abuse_restriction_summary option \<Rightarrow> quota_status_item" where
  "build_quota_status_item plan d period c previous ov restriction =
     (let quota = project_quota plan d period c ov;
          typical = category_defined_typical_operation_amount d;
          mode = (if tp_enforcement_mode plan = [] then ENFORCED else tp_enforcement_mode plan);
          active = (case restriction of Some r \<Rightarrow> if rs_status r = ''active'' then Some r else None | None \<Rightarrow> None);
          near = (active = None \<and> mode \<noteq> UNLIMITED \<and> mode \<noteq> ''not_measurable'' \<and> \<not> (eq_limit quota \<le> 0 \<and> qd_unit d \<noteq> ''bytes'') \<and>
                  \<not> eq_remaining_amount quota \<le> 0 \<and> is_quota_near_limit quota typical);
          status = (if active \<noteq> None then ''restricted''
                    else if mode = UNLIMITED then ''unlimited''
                    else if mode = ''not_measurable'' then ''not_measurable''
                    else if eq_limit quota \<le> 0 \<and> qd_unit d \<noteq> ''bytes'' then ''exhausted''
                    else if eq_remaining_amount quota \<le> 0 then ''exhausted''
                    else if near then ''near_limit'' else ''available'');
          reason = (if near then near_limit_reason_for_quota quota typical else [])
      in \<lparr>qi_category = qd_category d, qi_unit = qd_unit d, qi_status = status, qi_current_period = period_summary quota,
          qi_previous_period = previous, qi_limit = eq_limit quota, qi_remaining_amount = eq_remaining_amount quota,
          qi_near_limit = near, qi_near_limit_reason = reason, qi_typical_operation_amount = typical,
          qi_base_limit = qd_default_limit d, qi_effective_limit = eq_limit quota,
          qi_override = map_option (\<lambda>sm. \<lparr>os_base_limit = qd_default_limit d, os_effective_limit = eq_limit quota,
             os_reason = qo_reason sm, os_effective_at = qo_effective_at sm, os_expires_at = qo_expires_at sm\<rparr>) ov,
          qi_restriction = active, qi_recovery_actions = recovery_actions_for_quota_status status reason\<rparr>)"

definition quota_section_for_category :: "category \<Rightarrow> string \<times> string" where
  "quota_section_for_category cat =
     (if cat = RUN_LAUNCHES \<or> cat = WORKFLOW_LAUNCHES then (''launches'', ''Launches'')
      else if cat = RUNTIME_TOOL_CALLS \<or> cat = LIVE_VALIDATION_ATTEMPTS then (''runtime'', ''Runtime'')
      else if cat = INTEGRATION_OPERATIONS then (''integrations'', ''Integrations'')
      else if cat = ARTIFACT_STORAGE_BYTES then (''storage'', ''Artifact Storage'')
      else if cat = REPLAY_EVALUATION_ATTEMPTS then (''evaluations'', ''Evaluations'')
      else (''other'', ''Other''))"

text \<open>
  The sections, as an association list instead of a hash map; they are taken out by key, in the fixed order first,
  and the rest in the order of the keys.
\<close>

fun push_section :: "quota_status_item \<Rightarrow> quota_section list \<Rightarrow> quota_section list" where
  "push_section i [] =
     (case quota_section_for_category (qi_category i) of (key, label) \<Rightarrow> [\<lparr>qs_key = key, qs_label = label, qs_items = [i]\<rparr>])"
| "push_section i (s # ss) =
     (if qs_key s = fst (quota_section_for_category (qi_category i)) then s\<lparr>qs_items := qs_items s @ [i]\<rparr> # ss else s # push_section i ss)"

definition section_order :: "string list" where
  "section_order = [''launches'', ''runtime'', ''integrations'', ''storage'', ''evaluations'']"

definition group_quota_status_items :: "quota_status_item list \<Rightarrow> quota_section list" where
  "group_quota_status_items items =
     (let grouped = fold push_section items [];
          section = (\<lambda>key. find (\<lambda>s. qs_key s = key) grouped)
      in List.map_filter section section_order @
         List.map_filter section (sort (filter (\<lambda>k. k \<notin> set section_order) (map qs_key grouped))))"

definition dashboard_item ::
  "bill_env \<Rightarrow> string \<Rightarrow> timestamp \<Rightarrow> tenant_plan \<Rightarrow> (string \<rightharpoonup> abuse_restriction_summary) \<Rightarrow> quota_definition \<Rightarrow> quota_status_item bill_op" where
  "dashboard_item env tid now plan restrictions d =
     (if \<not> be_repo env
      then let period = synthetic_period (be_dates env) tid d now
           in return_op (build_quota_status_item plan d period (summary_counter now tid d period) None None (restrictions (qd_category d)))
      else bind_op (open_period env tid d now) (\<lambda>period.
        bind_op (repo_usage_counter tid (qd_category d) (qp_id period)) (\<lambda>co.
        bind_op (previous_quota_period tid (qd_category d) (qp_start period)) (\<lambda>prev.
        bind_op (repo_quota_override tid (qd_category d) now) (\<lambda>ov.
        return_op (build_quota_status_item plan d period
          (case co of Some c \<Rightarrow> c | None \<Rightarrow> summary_counter now tid d period)
          (map_option (\<lambda>(pp, pc). period_summary (project_quota plan d pp pc None)) prev) ov
          (restrictions (qd_category d))))))))"

definition quota_dashboard :: "bill_env \<Rightarrow> string \<Rightarrow> bool \<Rightarrow> tenant_quota_dashboard bill_op" where
  "quota_dashboard env tid hosted =
     bind_op (active_plan env tid hosted) (\<lambda>plan.
     bind_op clock_now (\<lambda>now.
     bind_op (if be_repo env then list_abuse_restrictions tid now else return_op []) (\<lambda>records.
     let restrictions = fold (\<lambda>r m. m(ar_category r \<mapsto> restriction_summary r)) records Map.empty
     in bind_op wall_now (\<lambda>wall.
        bind_op (each_op (dashboard_item env tid now plan restrictions) (initial_definitions wall now)) (\<lambda>items.
        return_op \<lparr>qb_tenant_id = tid,
          qb_plan = \<lparr>pl_plan_key = tp_plan_key plan, pl_enforcement_mode = tp_enforcement_mode plan, pl_status = tp_status plan,
                     pl_effective_at = tp_effective_at plan,
                     pl_base_plan_label = (if tp_plan_key plan = [] then tp_enforcement_mode plan else tp_plan_key plan),
                     pl_checkout_available = False\<rparr>,
          qb_sections = group_quota_status_items items, qb_generated_at = now,
          qb_permission = Some [(''allowed'', JBool True)]\<rparr>)))))"

section \<open>Denials\<close>

definition classify_denial :: "quota_denial \<Rightarrow> abuse_restriction_summary option \<Rightarrow> string" where
  "classify_denial d restriction =
     (let reason = lower_text (dn_reason_code d)
      in if restriction \<noteq> None \<or> contains_str ''abuse_restriction'' reason then ''abuse_restriction''
         else if reason = REASON_QUOTA_STATE_UNAVAILABLE then ''quota_state_unavailable''
         else if contains_str ''operator_action_needed'' reason then ''operator_action_needed''
         else if contains_str ''unauthorized'' reason then ''unauthorized''
         else ''quota_exhaustion'')"

definition status_for_denial_classification :: "string \<Rightarrow> string" where
  "status_for_denial_classification c =
     (if c = ''abuse_restriction'' then ''restricted''
      else if c = ''quota_state_unavailable'' \<or> c = ''operator_action_needed'' \<or> c = ''unauthorized'' then ''unavailable''
      else ''exhausted'')"

definition safe_operation_ref :: "string \<Rightarrow> string" where
  "safe_operation_ref key =
     (if key = [] then ''operation:unknown''
      else let parts = split_on CHR '':'' key
           in if length parts \<ge> 4 \<and> parts ! 0 = ''tenant'' then join_on CHR '':'' (drop 2 parts)
              else if length parts \<ge> 2 then join_on CHR '':'' (drop (length parts - 2) parts)
              else key)"

definition project_denial_detail :: "quota_denial \<Rightarrow> abuse_restriction_summary option \<Rightarrow> quota_denial_detail" where
  "project_denial_detail d restriction =
     (let classification = classify_denial d restriction
      in \<lparr>dd_id = dn_id d, dd_tenant_id = dn_tenant_id d, dd_operation_ref = safe_operation_ref (dn_operation_key d),
          dd_operation_key = dn_operation_key d, dd_guarded_entry_point = dn_guarded_entry_point d, dd_category = dn_category d,
          dd_reason_code = dn_reason_code d, dd_classification = classification, dd_requested_amount = dn_requested_amount d,
          dd_remaining_amount = dn_remaining_amount d,
          dd_recovery_actions = recovery_actions_for_quota_status (status_for_denial_classification classification) [],
          dd_restriction =
            (if classification = ''abuse_restriction'' \<and> restriction = None
             then Some \<lparr>rs_id = [], rs_status = ''active'', rs_category = dn_category d, rs_recovery_action = ''contact_support'',
                        rs_visible_reason_code = dn_reason_code d, rs_source_audit_ref = [], rs_support_contact_allowed = True,
                        rs_started_at = 0, rs_expires_at = None\<rparr>
             else restriction),
          dd_created_at = dn_created_at d\<rparr>)"

definition restriction_for_denial :: "bill_env \<Rightarrow> quota_denial \<Rightarrow> abuse_restriction_summary option bill_op" where
  "restriction_for_denial env d =
     (if \<not> be_repo env then return_op None
      else if dn_category d = [] \<or> classify_denial d None \<noteq> ''abuse_restriction'' then return_op None
      else bind_op (if dn_created_at d = go_zero_time then clock_now else return_op (dn_created_at d)) (\<lambda>at.
        bind_op (list_abuse_restrictions (dn_tenant_id d) at) (\<lambda>rs.
        return_op (map_option restriction_summary (find (\<lambda>r. ar_category r = dn_category d \<and>
          \<not> (ar_visible_reason_code r \<noteq> [] \<and> dn_reason_code d \<noteq> [] \<and> ar_visible_reason_code r \<noteq> dn_reason_code d)) rs)))))"

definition denial_detail :: "bill_env \<Rightarrow> string \<Rightarrow> string \<Rightarrow> quota_denial_detail option bill_op" where
  "denial_detail env tid did =
     (if \<not> be_repo env then return_op None
      else bind_op (quota_denial_by_id tid did) (\<lambda>dn.
        case dn of
          None \<Rightarrow> return_op None
        | Some d \<Rightarrow> bind_op (restriction_for_denial env d) (\<lambda>r. return_op (Some (project_denial_detail d r)))))"

section \<open>Evidence\<close>

definition should_redact_evidence_key :: "string \<Rightarrow> bool" where
  "should_redact_evidence_key key \<longleftrightarrow>
     (let normalized = lower_text key
      in contains_str ''secret'' normalized \<or> contains_str ''token'' normalized \<or> contains_str ''credential'' normalized \<or>
         contains_str ''connectorpayload'' normalized \<or> contains_str ''payload'' normalized)"

definition redaction_reason_for_key :: "string \<Rightarrow> string" where
  "redaction_reason_for_key key = (if contains_str ''payload'' (lower_text key) then ''connector_payload'' else ''secret'')"

text \<open>
  The members of an object are listed in the order of the keys, in which the map iterates, so that a member
  inserted last stands last.
\<close>

fun redact_evidence_value :: "string \<Rightarrow> json \<Rightarrow> json \<times> evidence_redaction list"
  and redact_members :: "string \<Rightarrow> (string \<times> json) list \<Rightarrow> (string \<times> json) list \<times> evidence_redaction list"
  and redact_items :: "string \<Rightarrow> nat \<Rightarrow> json list \<Rightarrow> json list \<times> evidence_redaction list" where
  "redact_evidence_value path (JObject ms) = (case redact_members path ms of (out, rs) \<Rightarrow> (JObject out, rs))"
| "redact_evidence_value path (JArray vs) = (case redact_items path 0 vs of (out, rs) \<Rightarrow> (JArray out, rs))"
| "redact_evidence_value path v = (v, [])"
| "redact_members path [] = ([], [])"
| "redact_members path ((key, v) # ms) =
     (let child = path @ ''.'' @ key
      in if should_redact_evidence_key key
         then case redact_members path ms of (out, rs) \<Rightarrow>
                (out, \<lparr>er_path = child, er_reason = redaction_reason_for_key key, er_replacement = ''[REDACTED]''\<rparr> # rs)
         else case redact_evidence_value child v of (clean, nested) \<Rightarrow>
                (case redact_members path ms of (out, rs) \<Rightarrow> ((key, clean) # out, nested @ rs)))"
| "redact_items path n [] = ([], [])"
| "redact_items path n (v # vs) =
     (case redact_evidence_value (path @ ''['' @ decimal n @ '']'') v of (clean, nested) \<Rightarrow>
        (case redact_items path (Suc n) vs of (out, rs) \<Rightarrow> (clean # out, nested @ rs)))"

definition standard_redactions :: "evidence_redaction list" where
  "standard_redactions =
     [\<lparr>er_path = ''$.rawAuditPayload'', er_reason = ''raw_audit_payload_excluded'', er_replacement = ''[EXCLUDED]''\<rparr>,
      \<lparr>er_path = ''$.connectorPayload'', er_reason = ''connector_payload'', er_replacement = ''[REDACTED]''\<rparr>,
      \<lparr>er_path = ''$.secrets'', er_reason = ''secret'', er_replacement = ''[REDACTED]''\<rparr>,
      \<lparr>er_path = ''$.unrelatedRunContent'', er_reason = ''unrelated_content_excluded'', er_replacement = ''[EXCLUDED]''\<rparr>]"

definition append_standard_evidence_redactions :: "evidence_redaction list \<Rightarrow> evidence_redaction list" where
  "append_standard_evidence_redactions rs =
     rs @ filter (\<lambda>r. er_path r \<notin> er_path ` set rs) standard_redactions"

text \<open>Insertion into a map that is ordered by its keys.\<close>

fun json_insert :: "string \<Rightarrow> json \<Rightarrow> json_map \<Rightarrow> json_map" where
  "json_insert k v [] = [(k, v)]"
| "json_insert k v ((k', v') # ms) =
     (if k = k' then (k, v) # ms else if k < k' then (k, v) # (k', v') # ms else (k', v') # json_insert k v ms)"

definition json_object :: "(string \<times> json) list \<Rightarrow> json_map" where
  "json_object kvs = fold (\<lambda>(k, v) m. json_insert k v m) kvs []"

definition json_int :: "int \<Rightarrow> json" where
  "json_int i = JNumber (if i < 0 then NegInt (word_of_int i) else PosInt (word_of_int i))"

definition json_time :: "utc_dates \<Rightarrow> timestamp \<Rightarrow> json" where
  "json_time dates t = JString (ud_json dates t)"

definition json_opt_time :: "utc_dates \<Rightarrow> timestamp option \<Rightarrow> json" where
  "json_opt_time dates t = (case t of None \<Rightarrow> JNull | Some t' \<Rightarrow> json_time dates t')"

definition period_evidence_state :: "utc_dates \<Rightarrow> usage_period_summary \<Rightarrow> json" where
  "period_evidence_state dates p =
     JObject (json_object
       [(''periodStart'', json_time dates (ps_start p)), (''periodEnd'', json_time dates (ps_end p)),
        (''periodAnchor'', JString (ps_anchor p)), (''consumedAmount'', json_int (ps_consumed p)),
        (''reservedAmount'', json_int (ps_reserved p)), (''adjustedAmount'', json_int (ps_adjusted p)),
        (''carryoverApplied'', json_int (ps_carryover p)), (''remainingAmount'', json_int (ps_remaining p)),
        (''overLimit'', JBool (ps_over_limit p))])"

definition abuse_restriction_evidence_state :: "utc_dates \<Rightarrow> abuse_restriction_summary \<Rightarrow> json_map" where
  "abuse_restriction_evidence_state dates r =
     json_object
       [(''restrictionId'', JString (rs_id r)), (''status'', JString (rs_status r)),
        (''affectedCategory'', JString (rs_category r)), (''recoveryAction'', JString (rs_recovery_action r)),
        (''visibleReasonCode'', JString (rs_visible_reason_code r)), (''sourceAuditRef'', JString (rs_source_audit_ref r)),
        (''supportContactAllowed'', JBool (rs_support_contact_allowed r)), (''startedAt'', json_time dates (rs_started_at r)),
        (''expiresAt'', json_opt_time dates (rs_expires_at r))]"

definition override_evidence_state :: "utc_dates \<Rightarrow> quota_override_summary \<Rightarrow> json_map" where
  "override_evidence_state dates sm =
     json_object
       [(''baseLimit'', json_int (os_base_limit sm)), (''effectiveLimit'', json_int (os_effective_limit sm)),
        (''reason'', JString (os_reason sm)), (''effectiveAt'', json_time dates (os_effective_at sm)),
        (''expiresAt'', json_opt_time dates (os_expires_at sm))]"

definition quota_evidence_state :: "utc_dates \<Rightarrow> quota_denial_detail \<Rightarrow> quota_status_item \<Rightarrow> json_map" where
  "quota_evidence_state dates d i =
     json_object
       ([(''category'', JString (qi_category i)), (''unit'', JString (qi_unit i)), (''status'', JString (qi_status i)),
         (''baseLimit'', json_int (qi_base_limit i)), (''effectiveLimit'', json_int (qi_effective_limit i)),
         (''limit'', json_int (qi_limit i)), (''remainingAmount'', json_int (qi_remaining_amount i)),
         (''nearLimit'', JBool (qi_near_limit i)), (''nearLimitReason'', JString (qi_near_limit_reason i)),
         (''typicalOperationAmount'', json_int (qi_typical_operation_amount i)),
         (''currentPeriod'', period_evidence_state dates (qi_current_period i))] @
        (case qi_previous_period i of None \<Rightarrow> [] | Some p \<Rightarrow> [(''previousPeriod'', period_evidence_state dates p)]) @
        (case qi_override i of None \<Rightarrow> [] | Some sm \<Rightarrow> [(''override'', JObject (override_evidence_state dates sm))]) @
        (case (case qi_restriction i of Some r \<Rightarrow> Some r | None \<Rightarrow> dd_restriction d) of
           None \<Rightarrow> [] | Some r \<Rightarrow> [(''restriction'', JObject (abuse_restriction_evidence_state dates r))]) @
        [(''recoveryActions'', JArray (map JString (qi_recovery_actions i)))])"

definition effective_limit_state_for_denial :: "utc_dates \<Rightarrow> tenant_quota_dashboard \<Rightarrow> quota_denial_detail \<Rightarrow> json_map" where
  "effective_limit_state_for_denial dates b d =
     (let plan = json_object
            [(''planKey'', JString (pl_plan_key (qb_plan b))), (''enforcementMode'', JString (pl_enforcement_mode (qb_plan b))),
             (''status'', JString (pl_status (qb_plan b))), (''basePlanLabel'', JString (pl_base_plan_label (qb_plan b))),
             (''checkoutAvailable'', JBool (pl_checkout_available (qb_plan b)))];
          state = json_object [(''plan'', JObject plan), (''denialCategory'', JString (dd_category d))]
      in case find (\<lambda>i. qi_category i = dd_category d) (concat (map qs_items (qb_sections b))) of
           Some i \<Rightarrow> json_insert ''quota'' (JObject (quota_evidence_state dates d i)) state
         | None \<Rightarrow>
             (case dd_restriction d of
                None \<Rightarrow> state
              | Some r \<Rightarrow> json_insert ''restriction'' (JObject (abuse_restriction_evidence_state dates r)) state))"

definition build_evidence_export ::
  "timestamp \<Rightarrow> string \<Rightarrow> quota_denial_detail \<Rightarrow> quota_status_item list \<Rightarrow> json_map \<Rightarrow> billing_evidence_export" where
  "build_evidence_export wall author d snapshot state =
     (case redact_evidence_value ''$'' (JObject state) of (clean, rs) \<Rightarrow>
        \<lparr>ee_schema_version = ''2026-05-07'', ee_export_id = ''evidence_'' @ dd_id d, ee_tenant_id = dd_tenant_id d,
         ee_generated_at = wall, ee_generated_by_principal_id = author, ee_denial = d, ee_usage_snapshot = snapshot,
         ee_effective_limit_state = (case clean of JObject m \<Rightarrow> m | _ \<Rightarrow> []),
         ee_audit_refs = (case dd_restriction d of
             None \<Rightarrow> [] | Some r \<Rightarrow> if rs_source_audit_ref r \<noteq> [] then [rs_source_audit_ref r] else []),
         ee_redactions = append_standard_evidence_redactions rs\<rparr>)"

definition evidence_export :: "bill_env \<Rightarrow> string \<Rightarrow> string \<Rightarrow> string \<Rightarrow> bool \<Rightarrow> billing_evidence_export option bill_op" where
  "evidence_export env tid did author hosted =
     bind_op (denial_detail env tid did) (\<lambda>dn.
     case dn of
       None \<Rightarrow> return_op None
     | Some d \<Rightarrow>
         bind_op (quota_dashboard env tid hosted) (\<lambda>board.
         bind_op wall_now (\<lambda>wall.
         let e = build_evidence_export wall author d (concat (map qs_items (qb_sections board)))
                   (effective_limit_state_for_denial (be_dates env) board d);
             e1 = e\<lparr>ee_audit_refs := (''quota_denial:'' @ dd_id (ee_denial e)) # ee_audit_refs e\<rparr>
         in if be_repo env
            then bind_op (list_usage_evidence_refs tid (dd_operation_key (ee_denial e)) 100) (\<lambda>refs.
                 return_op (Some (e1\<lparr>ee_audit_refs := ee_audit_refs e1 @ refs\<rparr>)))
            else return_op (Some e1))))"

section \<open>Redaction\<close>






text \<open>
  The reference of an operation that is shown outside leaves out the tenant: for a key made of at least four
  parts of which the first is the word tenant, it is the key of the parts after the tenant's.
\<close>

theorem operation_ref_hides_tenant:
  "safe_operation_ref (join_operation_key (''tenant'' # tid # kind # part # parts)) = join_operation_key (kind # part # parts)"
proof -
  have tenant: "key_part ''tenant'' = ''tenant''" by code_simp
  let ?parts = "''tenant'' # tid # kind # part # parts"
  have split: "split_on CHR '':'' (join_operation_key ?parts) = map key_part ?parts" by (rule joined_keys) simp
  then have "join_operation_key ?parts \<noteq> []" by (auto simp: tenant)
  with split show ?thesis unfolding safe_operation_ref_def Let_def by (simp add: tenant join_operation_key_def)
qed

section \<open>Sections of the dashboard\<close>

abbreviation section_key :: "quota_status_item \<Rightarrow> string" where
  "section_key i \<equiv> fst (quota_section_for_category (qi_category i))"

lemma find_push_section:
  "find (\<lambda>s. qs_key s = k) (push_section i ss) =
     (if k = section_key i
      then Some (case find (\<lambda>s. qs_key s = k) ss of
                   None \<Rightarrow> \<lparr>qs_key = k, qs_label = snd (quota_section_for_category (qi_category i)), qs_items = [i]\<rparr>
                 | Some s \<Rightarrow> s\<lparr>qs_items := qs_items s @ [i]\<rparr>)
      else find (\<lambda>s. qs_key s = k) ss)"
  by (induction ss) (auto split: prod.split)

lemma keys_push_section: "set (map qs_key (push_section i ss)) = insert (section_key i) (set (map qs_key ss))"
  by (induction ss) (auto simp: case_prod_unfold)

lemma distinct_push_section: "distinct (map qs_key ss) \<Longrightarrow> distinct (map qs_key (push_section i ss))"
  using keys_push_section by (induction ss) (auto split: prod.split)

lemma grouped:
  "distinct (map qs_key (fold push_section items [])) \<and> set (map qs_key (fold push_section items [])) = section_key ` set items \<and>
   (\<forall>k. map_option qs_items (find (\<lambda>s. qs_key s = k) (fold push_section items [])) =
      (if k \<in> section_key ` set items then Some (filter (\<lambda>i. section_key i = k) items) else None))"
proof (induction items rule: rev_induct)
  case (snoc i items)
  let ?g = "fold push_section items []"
  have "map_option qs_items (find (\<lambda>s. qs_key s = k) (push_section i ?g)) =
      (if k \<in> section_key ` set (items @ [i]) then Some (filter (\<lambda>i. section_key i = k) (items @ [i])) else None)" for k
  proof (cases "find (\<lambda>s. qs_key s = k) ?g")
    case None
    with snoc have "k \<notin> section_key ` set items" by (metis option.distinct(1) option.simps(8))
    then have "filter (\<lambda>i. section_key i = k) items = []" by (auto simp: filter_empty_conv)
    with None \<open>k \<notin> section_key ` set items\<close> show ?thesis by (auto simp: find_push_section)
  next
    case (Some s)
    with snoc have "k \<in> section_key ` set items" "qs_items s = filter (\<lambda>i. section_key i = k) items"
      by (metis option.distinct(1) option.simps(9), metis option.distinct(1) option.inject option.simps(9))
    with Some show ?thesis by (auto simp: find_push_section)
  qed
  with snoc show ?case
    using distinct_push_section [of ?g i] keys_push_section [of i ?g] by auto
qed simp

lemma taken_sections:
  "map qs_key (List.map_filter (\<lambda>k. find (\<lambda>s. qs_key s = k) g) ks) = filter (\<lambda>k. k \<in> qs_key ` set g) ks"
  "s \<in> set (List.map_filter (\<lambda>k. find (\<lambda>s. qs_key s = k) g) ks) \<Longrightarrow> find (\<lambda>x. qs_key x = qs_key s) g = Some s"
proof -
  have key: "qs_key s = k \<and> k \<in> qs_key ` set g" if "find (\<lambda>s. qs_key s = k) g = Some s" for s k
    using find_SomeD [OF that] by auto
  show "map qs_key (List.map_filter (\<lambda>k. find (\<lambda>s. qs_key s = k) g) ks) = filter (\<lambda>k. k \<in> qs_key ` set g) ks"
    by (induction ks) (auto simp: List.map_filter_simps find_None_iff dest: key split: option.splits)
  show "find (\<lambda>x. qs_key x = qs_key s) g = Some s" if "s \<in> set (List.map_filter (\<lambda>k. find (\<lambda>s. qs_key s = k) g) ks)"
    using that by (induction ks) (auto simp: List.map_filter_simps dest: key split: option.splits)
qed

text \<open>Every item is in exactly one section, its own, and a section keeps the order of its items.\<close>

lemma dashboard_sections:
  defines "g items \<equiv> group_quota_status_items items"
  shows "distinct (map qs_key (g items))" and "set (map qs_key (g items)) = section_key ` set items"
    and "s \<in> set (g items) \<Longrightarrow> qs_items s = filter (\<lambda>i. section_key i = qs_key s) items"
proof -
  let ?f = "fold push_section items []"
  let ?rest = "sort (filter (\<lambda>k. k \<notin> set section_order) (map qs_key ?f))"
  note all = grouped [of items]
  have keys: "map qs_key (g items) = filter (\<lambda>k. k \<in> qs_key ` set ?f) (section_order @ ?rest)"
    unfolding g_def group_quota_status_items_def Let_def by (simp add: taken_sections(1))
  have "distinct section_order" by code_simp
  with all show "distinct (map qs_key (g items))" unfolding keys by (auto simp: distinct_filter)
  from all show "set (map qs_key (g items)) = section_key ` set items" unfolding keys by auto
  show "qs_items s = filter (\<lambda>i. section_key i = qs_key s) items" if "s \<in> set (g items)"
  proof -
    have "find (\<lambda>x. qs_key x = qs_key s) ?f = Some s"
      using that taken_sections(2) [of s ?f] unfolding g_def group_quota_status_items_def Let_def by auto
    moreover from all have "map_option qs_items (find (\<lambda>x. qs_key x = qs_key s) ?f) =
        (if qs_key s \<in> section_key ` set items then Some (filter (\<lambda>i. section_key i = qs_key s) items) else None)" by blast
    ultimately show ?thesis by (simp split: if_splits)
  qed
qed

section \<open>Closed periods\<close>

text \<open>The store opens periods and nothing closes one.\<close>

definition all_open :: "bill_state \<Rightarrow> bool" where
  "all_open s \<longleftrightarrow> (\<forall>p \<in> set (bl_periods s). qp_status p = ''open'')"

lemma open_call:
  assumes "\<And>s x t. f s = Some (x, t) \<Longrightarrow> bl_periods t = bl_periods s"
  shows "keeps all_open (bill_call f)"
proof (rule keepsI)
  fix s :: bill_state
  assume "all_open s"
  with assms [of "s\<lparr>bl_faults := tl (bl_faults s)\<rparr>"] show "all_open (snd (bill_call f s))"
    by (cases "f (s\<lparr>bl_faults := tl (bl_faults s)\<rparr>)") (auto simp: bill_call_def Let_def all_open_def)
qed

lemma open_reads [keeps_intros]:
  "keeps all_open clock_now" "keeps all_open wall_now" "keeps all_open (or_new_id p i)" "keeps all_open (or_now t)" "keeps all_open (bill_read f)"
proof -
  show "keeps all_open clock_now" "keeps all_open wall_now" "keeps all_open (or_new_id p i)" "keeps all_open (or_now t)"
    by (auto intro!: keepsI simp: clock_now_def wall_now_def new_billing_id_def or_new_id_def or_now_def return_op_def all_open_def)
  show "keeps all_open (bill_read f)" unfolding bill_read_def by (rule open_call) simp
qed

lemma open_statements [keeps_intros]:
  "keeps all_open (save_plan pl)" "keeps all_open (save_quota_override q)" "keeps all_open (save_usage_counter c)"
  "keeps all_open (save_reservation r)" "keeps all_open (append_usage_event e)" "keeps all_open (append_quota_denial d)"
  "keeps all_open (save_manual_adjustment a)" "keeps all_open (save_abuse_restriction ab)"
  unfolding save_plan_def save_quota_override_def save_usage_counter_def save_reservation_def append_usage_event_def
    append_quota_denial_def save_manual_adjustment_def save_abuse_restriction_def Let_def
  by (intro keeps_bind open_reads open_call; auto)+

lemma open_queries [keeps_intros]:
  "keeps all_open (repo_active_plan t)" "keeps all_open (repo_quota_override t c at)" "keeps all_open (repo_usage_counter t c p)"
  "keeps all_open (reservation_by_operation t c k)" "keeps all_open (reservation_by_id t i)" "keeps all_open list_pending_reservations"
  "keeps all_open (list_quota_denials t n)" "keeps all_open (list_manual_adjustments t n)" "keeps all_open (list_abuse_restrictions t at)"
  "keeps all_open (quota_denial_by_id t i)" "keeps all_open (list_usage_evidence_refs t k n)"
  unfolding repo_active_plan_def repo_quota_override_def repo_usage_counter_def reservation_by_operation_def reservation_by_id_def
    list_pending_reservations_def list_quota_denials_def list_manual_adjustments_def list_abuse_restrictions_def quota_denial_by_id_def
    list_usage_evidence_refs_def
  by (intro keeps_intros)+

lemma open_period_open [keeps_intros]: "keeps all_open (open_period env t d at)"
proof -
  have upd: "keeps all_open (bill_call (\<lambda>s. map_option (\<lambda>rows. ((), s\<lparr>bl_periods := rows\<rparr>))
      (upsert_on cols qp_id (\<lambda>x _. x) q (bl_periods s))))" if "qp_status q = ''open''" for q and cols :: "quota_period \<Rightarrow> 'k"
  proof (rule keepsI)
    fix s :: bill_state
    let ?s = "s\<lparr>bl_faults := tl (bl_faults s)\<rparr>"
    assume s: "all_open s"
    show "all_open (snd (bill_call (\<lambda>s. map_option (\<lambda>rows. ((), s\<lparr>bl_periods := rows\<rparr>)) (upsert_on cols qp_id (\<lambda>x _. x) q (bl_periods s))) s))"
    proof (cases "upsert_on cols qp_id (\<lambda>x _. x) q (bl_periods s)")
      case (Some rows)
      then have "set rows \<subseteq> insert q (set (bl_periods s))" by (cases rule: upsert_on_cases) auto
      with s that Some show ?thesis by (auto simp: bill_call_def Let_def all_open_def)
    qed (use s in \<open>simp add: bill_call_def Let_def all_open_def\<close>)
  qed
  obtain st en where p: "period_for (be_dates env) (qd_period_kind d) at = (st, en)" by fastforce
  show ?thesis
    unfolding open_period_def p prod.case Let_def by (intro keeps_then upd open_call) auto
qed

lemma keeps_case_sum [keeps_intros]:
  "(\<And>e. keeps I (f e)) \<Longrightarrow> (\<And>x. keeps I (g x)) \<Longrightarrow> keeps I (case r of Inl e \<Rightarrow> f e | Inr x \<Rightarrow> g x)"
  by (cases r) auto

lemma open_reserve [keeps_intros]: "keeps all_open (reserve env inp)"
  unfolding reserve_def reserve_in_period_def grant_reservation_def deny_reservation_def Let_def by (intro keeps_intros)

lemma open_resolve [keeps_intros]: "keeps all_open (resolve_reservation_to env inp status kind)"
  unfolding resolve_reservation_to_def Let_def case_prod_beta by (intro keeps_intros)

lemma open_resolutions [keeps_intros]:
  "keeps all_open (commit env inp)" "keeps all_open (refund env inp)" "keeps all_open (release env inp)"
  "keeps all_open (mark_operator_action_needed env inp)"
  unfolding commit_def refund_def release_def mark_operator_action_needed_def by (intro keeps_intros)+

lemma open_reserve_each [keeps_intros]: "keeps all_open (reserve_each env inps results)"
  by (induction inps arbitrary: results)
    (auto simp: Let_def release_prior_reservations_def intro!: keeps_intros)

lemma open_administration [keeps_intros]:
  "keeps all_open (reserve_all env inps)" "keeps all_open (recover_pending_reservations env decide)"
  "keeps all_open (assign_plan env plan actor reason)" "keeps all_open (apply_quota_override env ov)"
  "keeps all_open (apply_manual_adjustment env adj)" "keeps all_open (resolve_reservation env rri)"
  unfolding reserve_all_def recover_pending_reservations_def recover_reservation_def assign_plan_def apply_quota_override_def
    apply_manual_adjustment_def adjustment_read_def adjustment_write_def resolve_reservation_def Let_def
  by (intro keeps_intros)+

lemma open_active_plan [keeps_intros]: "keeps all_open (active_plan env tid hosted)"
  unfolding active_plan_def by (intro keeps_intros)

lemma open_summary [keeps_intros]: "keeps all_open (summarize_usage env tid hosted)"
  unfolding summarize_usage_def summarize_quota_def Let_def by (intro keeps_intros)

lemma no_previous_period: "yields all_open (\<lambda>po. po = None) (previous_quota_period tid cat before)"
proof -
  have "yields all_open (\<lambda>po. po = None) (bill_read (\<lambda>s. newest qp_end qp_id
      (filter (\<lambda>p. qp_tenant_id p = trim tid \<and> qp_category p = cat \<and> qp_end p = before \<and> qp_status p = ''closed'') (bl_periods s))))"
    unfolding yields_def
    by (auto simp: triple_def bill_read_def bill_call_def Let_def all_open_def newest_def newest_first_def ordered_def cong: filter_cong)
  then show ?thesis
    unfolding previous_quota_period_def by (rule yields_bind) (simp add: yields_return)
qed

lemma item_without_previous: "yields all_open (\<lambda>i. qi_previous_period i = None) (dashboard_item env tid now plan restrictions d)"
proof -
  have item: "qi_previous_period (build_quota_status_item plan d period c None ov r) = None" for period c ov r
    by (simp add: build_quota_status_item_def Let_def)
  show ?thesis
    unfolding dashboard_item_def Let_def
    by (cases "be_repo env")
      (auto intro!: yields_return item yields_bind_keeps [OF open_period_open] yields_bind_keeps [OF open_queries(3)]
        yields_bind [OF no_previous_period] yields_bind_keeps [OF open_queries(2)])
qed

lemma dashboard_without_previous:
  "yields all_open (\<lambda>b. \<forall>sec \<in> set (qb_sections b). \<forall>i \<in> set (qs_items sec). qi_previous_period i = None) (quota_dashboard env tid hosted)"
proof -
  have groups: "\<forall>sec \<in> set (group_quota_status_items items). \<forall>i \<in> set (qs_items sec). qi_previous_period i = None"
    if "\<forall>i \<in> set items. qi_previous_period i = None" for items
    using that dashboard_sections(3) by fastforce
  have listing: "keeps all_open (if be_repo env then list_abuse_restrictions tid now else return_op [])" for now
    by (intro keeps_intros)
  show ?thesis
    unfolding quota_dashboard_def Let_def
    by (intro yields_bind_keeps [OF open_active_plan] yields_bind_keeps [OF open_reads(1)] yields_bind_keeps [OF listing]
        yields_bind_keeps [OF open_reads(2)] yields_bind [OF yields_each [OF item_without_previous]] yields_return)
      (simp add: groups)
qed

text \<open>
  The operations of the billing manager and of the store, with any input; between them the store may start or stop
  failing and other processes read the clocks.
\<close>

inductive manager_step :: "bill_env \<Rightarrow> bill_state \<Rightarrow> bill_state \<Rightarrow> bool" for env where
  "manager_step env s (snd (reserve env inp s))"
| "manager_step env s (snd (reserve_all env inps s))"
| "manager_step env s (snd (commit env rv s))"
| "manager_step env s (snd (refund env rv s))"
| "manager_step env s (snd (release env rv s))"
| "manager_step env s (snd (mark_operator_action_needed env rv s))"
| "manager_step env s (snd (recover_pending_reservations env decide s))"
| "manager_step env s (snd (resolve_reservation env rri s))"
| "manager_step env s (snd (assign_plan env plan actor reason s))"
| "manager_step env s (snd (apply_quota_override env ov s))"
| "manager_step env s (snd (apply_manual_adjustment env adj s))"
| "manager_step env s (snd (save_abuse_restriction ab s))"
| "manager_step env s (snd (summarize_usage env tid hosted s))"
| "manager_step env s (snd (quota_dashboard env tid hosted s))"
| "manager_step env s (snd (evidence_export env tid did author hosted s))"
| "manager_step env s (s\<lparr>bl_faults := f, bl_drawn := n\<rparr>)"

lemma open_dashboard [keeps_intros]: "keeps all_open (quota_dashboard env tid hosted)"
  by (rule keeps_of_yields [OF dashboard_without_previous])

lemma open_evidence [keeps_intros]: "keeps all_open (evidence_export env tid did author hosted)"
  unfolding evidence_export_def denial_detail_def restriction_for_denial_def Let_def by (intro keeps_intros)

lemma all_open_run: "keeps all_open m \<Longrightarrow> all_open s \<Longrightarrow> all_open (snd (m s))"
  by (rule keepsD [where res = "fst (m s)"]) simp_all

lemma all_open_step: "manager_step env s t \<Longrightarrow> all_open s \<Longrightarrow> all_open t"
  by (induction rule: manager_step.induct) (auto intro!: all_open_run keeps_intros, simp add: all_open_def)

interpretation periods: invariant_system "\<lambda>s. bl_periods s = []" "manager_step env" all_open for env
proof
  show "all_open s" if "bl_periods s = []" for s using that by (simp add: all_open_def)
qed (rule all_open_step)

text \<open>
  The dashboard never shows a previous period: periods are only ever opened, and the previous period is
  looked for among the closed ones, so that in every state the operations of manager and store reach from a
  store without periods, whatever statements fail, each item of a dashboard has none.
\<close>

theorem previous_period_never_shown:
  assumes "bl_periods s = []" and "(manager_step env)\<^sup>*\<^sup>* s t" and "quota_dashboard env tid hosted t = (Inr board, u)"
  shows "\<forall>sec \<in> set (qb_sections board). \<forall>i \<in> set (qs_items sec). qi_previous_period i = None"
  using tripleD(2) [OF dashboard_without_previous [unfolded yields_def] periods.inv_reachable [OF assms(1,2)] assms(3)] by blast

lemma previous_period_never_shown_witness:
  "\<exists>board u. quota_dashboard plain_env ''u'' False one_run = (Inr board, u) \<and>
    (\<forall>sec \<in> set (qb_sections board). \<forall>i \<in> set (qs_items sec). qi_previous_period i = None)"
proof -
  let ?run = "quota_dashboard plain_env ''u'' False one_run"
  have "\<not> isl (fst ?run)"
    unfolding quota_dashboard_def Let_def
    by (rule bind_succeeds, code_simp, rule bind_succeeds, code_simp, rule bind_succeeds, code_simp, rule bind_succeeds, code_simp,
        rule bind_succeeds, code_simp, rule return_succeeds)
  then have board: "?run = (Inr (projr (fst ?run)), snd ?run)" by (metis prod.collapse sum.collapse(2))
  have "(manager_step plain_env)\<^sup>*\<^sup>* (new_account []) one_run" unfolding one_run_def by (intro r_into_rtranclp manager_step.intros(1))
  moreover have "bl_periods (new_account []) = []" by (simp add: new_account_def)
  ultimately show ?thesis using previous_period_never_shown [OF _ _ board] board by blast
qed

end
