(* ===== verification/Net_Address.thy ===== *)
theory Net_Address
  imports Prelude
begin

text \<open>
  Internet addresses of the Rust standard library as far as the egress policy uses them: the two kinds of
  address with their classes, the parser of \<open>IpAddr\<close> and its printer. An address as a number and CIDR
  blocks are the reference the policy is compared with.
\<close>

unbundle bit_operations_syntax

section \<open>Addresses and classes\<close>

text \<open>The four octets of an IPv4 address, the eight segments of an IPv6 address.\<close>

datatype ip_addr =
    V4 "8 word" "8 word" "8 word" "8 word"
  | V6 "16 word" "16 word" "16 word" "16 word" "16 word" "16 word" "16 word" "16 word"

fun ip_is_loopback :: "ip_addr \<Rightarrow> bool" where
  "ip_is_loopback (V4 a b c d) \<longleftrightarrow> a = 127"
| "ip_is_loopback (V6 s0 s1 s2 s3 s4 s5 s6 s7) \<longleftrightarrow>
     s0 = 0 \<and> s1 = 0 \<and> s2 = 0 \<and> s3 = 0 \<and> s4 = 0 \<and> s5 = 0 \<and> s6 = 0 \<and> s7 = 1"

fun ip_is_unspecified :: "ip_addr \<Rightarrow> bool" where
  "ip_is_unspecified (V4 a b c d) \<longleftrightarrow> a = 0 \<and> b = 0 \<and> c = 0 \<and> d = 0"
| "ip_is_unspecified (V6 s0 s1 s2 s3 s4 s5 s6 s7) \<longleftrightarrow>
     s0 = 0 \<and> s1 = 0 \<and> s2 = 0 \<and> s3 = 0 \<and> s4 = 0 \<and> s5 = 0 \<and> s6 = 0 \<and> s7 = 0"

fun ip_is_broadcast :: "ip_addr \<Rightarrow> bool" where
  "ip_is_broadcast (V4 a b c d) \<longleftrightarrow> a = 255 \<and> b = 255 \<and> c = 255 \<and> d = 255"
| "ip_is_broadcast (V6 _ _ _ _ _ _ _ _) \<longleftrightarrow> False"

fun ip_is_multicast :: "ip_addr \<Rightarrow> bool" where
  "ip_is_multicast (V4 a b c d) \<longleftrightarrow> 224 \<le> a \<and> a \<le> 239"
| "ip_is_multicast (V6 s0 _ _ _ _ _ _ _) \<longleftrightarrow> s0 AND 0xff00 = 0xff00"

definition octets_of :: "16 word \<Rightarrow> 8 word \<times> 8 word" where
  "octets_of s = (ucast (drop_bit 8 s), ucast s)"

definition segment_of :: "8 word \<Rightarrow> 8 word \<Rightarrow> 16 word" where
  "segment_of a b = word_of_nat (unat a * 256 + unat b)"

fun to_ipv4_mapped :: "ip_addr \<Rightarrow> ip_addr option" where
  "to_ipv4_mapped (V6 s0 s1 s2 s3 s4 s5 s6 s7) =
     (if s0 = 0 \<and> s1 = 0 \<and> s2 = 0 \<and> s3 = 0 \<and> s4 = 0 \<and> s5 = 0xffff
      then (case (octets_of s6, octets_of s7) of ((a, b), (c, d)) \<Rightarrow> Some (V4 a b c d)) else None)"
| "to_ipv4_mapped (V4 _ _ _ _) = None"

section \<open>Printing\<close>

definition hex_digit :: "nat \<Rightarrow> char" where
  "hex_digit n = char_of (if n < 10 then 48 + n else 87 + n)"

fun hexadecimal :: "nat \<Rightarrow> string" where
  "hexadecimal n = (if n < 16 then [hex_digit n] else hexadecimal (n div 16) @ [hex_digit (n mod 16)])"

declare hexadecimal.simps [simp del]

definition dotted :: "8 word \<Rightarrow> 8 word \<Rightarrow> 8 word \<Rightarrow> 8 word \<Rightarrow> string" where
  "dotted a b c d =
     decimal (unat a) @ ''.'' @ decimal (unat b) @ ''.'' @ decimal (unat c) @ ''.'' @ decimal (unat d)"

text \<open>The first of the longest runs of zero segments: start and length.\<close>

fun zero_run :: "nat \<Rightarrow> nat \<times> nat \<Rightarrow> nat \<times> nat \<Rightarrow> 16 word list \<Rightarrow> nat \<times> nat" where
  "zero_run i cur longest [] = longest"
| "zero_run i cur longest (s # ss) =
     (if s = 0
      then let cur' = (if snd cur = 0 then i else fst cur, Suc (snd cur))
           in zero_run (Suc i) cur' (if snd cur' > snd longest then cur' else longest) ss
      else zero_run (Suc i) (0, 0) longest ss)"

definition segments_text :: "16 word list \<Rightarrow> string" where
  "segments_text ss = join_on CHR '':'' (map (\<lambda>s. hexadecimal (unat s)) ss)"

fun ip_text :: "ip_addr \<Rightarrow> string" where
  "ip_text (V4 a b c d) = dotted a b c d"
| "ip_text (V6 s0 s1 s2 s3 s4 s5 s6 s7) =
     (case to_ipv4_mapped (V6 s0 s1 s2 s3 s4 s5 s6 s7) of
        Some (V4 a b c d) \<Rightarrow> ''::ffff:'' @ dotted a b c d
      | _ \<Rightarrow>
          (let ss = [s0, s1, s2, s3, s4, s5, s6, s7] in
           case zero_run 0 (0, 0) (0, 0) ss of (start, len) \<Rightarrow>
             if len > 1 then segments_text (take start ss) @ ''::'' @ segments_text (drop (start + len) ss)
             else segments_text ss))"

section \<open>Parsing\<close>

text \<open>
  The parser reads from the front and, when a reader fails, goes on where it started; a reader is a function
  to the value and the rest.
\<close>

type_synonym 'a reader = "string \<Rightarrow> ('a \<times> string) option"

definition digit_value :: "nat \<Rightarrow> char \<Rightarrow> nat option" where
  "digit_value radix c =
     (let n = of_char c;
          v = (if 48 \<le> n \<and> n \<le> 57 then n - 48 else if 97 \<le> n \<and> n \<le> 122 then n - 87
               else if 65 \<le> n \<and> n \<le> 90 then n - 55 else radix)
      in if v < radix then Some v else None)"

definition digits_value :: "nat \<Rightarrow> string \<Rightarrow> nat" where
  "digits_value radix ds = foldl (\<lambda>a c. radix * a + the (digit_value radix c)) 0 ds"

definition read_number :: "nat \<Rightarrow> nat \<Rightarrow> bool \<Rightarrow> nat \<Rightarrow> nat reader" where
  "read_number radix max_digits allow_zero_prefix bound s =
     (let ds = takeWhile (\<lambda>c. digit_value radix c \<noteq> None) s
      in if ds = [] \<or> length ds > max_digits \<or> (\<not> allow_zero_prefix \<and> hd ds = CHR ''0'' \<and> length ds > 1) \<or>
            digits_value radix ds \<ge> bound then None
         else Some (digits_value radix ds, drop (length ds) s))"

definition read_separator :: "char \<Rightarrow> nat \<Rightarrow> 'a reader \<Rightarrow> 'a reader" where
  "read_separator sep i p s =
     (if i = 0 then p s else case s of [] \<Rightarrow> None | c # r \<Rightarrow> if c = sep then p r else None)"

definition read_octet :: "nat \<Rightarrow> (8 word) reader" where
  "read_octet i s = map_option (\<lambda>(v, r). (word_of_nat v, r)) (read_separator CHR ''.'' i (read_number 10 3 False 256) s)"

definition read_ipv4 :: "(8 word \<times> 8 word \<times> 8 word \<times> 8 word) reader" where
  "read_ipv4 s =
     Option.bind (read_octet 0 s) (\<lambda>(a, s1).
     Option.bind (read_octet 1 s1) (\<lambda>(b, s2).
     Option.bind (read_octet 2 s2) (\<lambda>(c, s3).
     Option.bind (read_octet 3 s3) (\<lambda>(d, s4). Some ((a, b, c, d), s4)))))"

text \<open>Segments, at most as many as the second argument says; the flag tells an IPv4 address at the end.\<close>

fun read_groups :: "nat \<Rightarrow> nat \<Rightarrow> string \<Rightarrow> 16 word list \<times> bool \<times> string" where
  "read_groups i 0 s = ([], False, s)"
| "read_groups i (Suc n) s =
     (case (if n > 0 then read_separator CHR '':'' i read_ipv4 s else None) of
        Some ((a, b, c, d), r) \<Rightarrow> ([segment_of a b, segment_of c d], True, r)
      | None \<Rightarrow>
          (case read_separator CHR '':'' i (read_number 16 4 True 65536) s of
             None \<Rightarrow> ([], False, s)
           | Some (v, r) \<Rightarrow> (case read_groups (Suc i) n r of (gs, v4, r') \<Rightarrow> (word_of_nat v # gs, v4, r'))))"

definition v6_of_list :: "16 word list \<Rightarrow> ip_addr" where
  "v6_of_list gs = V6 (gs ! 0) (gs ! 1) (gs ! 2) (gs ! 3) (gs ! 4) (gs ! 5) (gs ! 6) (gs ! 7)"

definition read_ipv6 :: "ip_addr reader" where
  "read_ipv6 s =
     (case read_groups 0 8 s of (front, v4, r) \<Rightarrow>
        if length front = 8 then Some (v6_of_list front, r)
        else if v4 then None
        else if take 2 r = ''::''
        then (case read_groups 0 (8 - (length front + 1)) (drop 2 r) of (back, _, r') \<Rightarrow>
                Some (v6_of_list (front @ replicate (8 - length front - length back) 0 @ back), r'))
        else None)"

text \<open>\<open>str::parse::<IpAddr>\<close>: nothing may follow the address.\<close>

definition parse_ip :: "string \<Rightarrow> ip_addr option" where
  "parse_ip s =
     (case (case read_ipv4 s of
              Some ((a, b, c, d), r) \<Rightarrow> Some (V4 a b c d, r)
            | None \<Rightarrow> read_ipv6 s) of
        Some (ip, []) \<Rightarrow> Some ip
      | _ \<Rightarrow> None)"

end
