(* ===== verification/Egress.thy ===== *)
theory Egress
  imports Net_Address
begin

text \<open>
  The policy on outbound requests: \<open>EgressPolicy\<close> of crates/foundation/egress/src/lib.rs. The parser of URLs
  (crate url) and the resolver of names are parameters.
\<close>

unbundle bit_operations_syntax

section \<open>Data\<close>

datatype egress_denial =
    Unparseable string
  | SchemeNotAllowed string
  | HostMissing
  | HostBlocked string
  | AddressBlocked string string string
  | Unresolvable string string

record checked_url =
  cu_url :: string
  cu_host :: string
  cu_scheme :: string

record egress_policy =
  ep_blocked_hostnames :: "string list"
  ep_allow_private_networks :: bool
  ep_allow_loopback :: bool
  ep_allowed_schemes :: "string list"

definition default_policy :: egress_policy where
  "default_policy =
     \<lparr>ep_blocked_hostnames = [], ep_allow_private_networks = False, ep_allow_loopback = False,
      ep_allowed_schemes = [''https'', ''http'']\<rparr>"

record socket_addr =
  sa_ip :: ip_addr
  sa_port :: "16 word"

text \<open>What is read of a parsed URL.\<close>

record url =
  u_text :: string
  u_scheme :: string
  u_host :: "string option"
  u_port :: "16 word option"
  u_path :: string
  u_query :: "string option"

text \<open>\<open>Url::parse\<close> and \<open>to_socket_addrs\<close>: a value, or the text of an error.\<close>

type_synonym url_parser = "string \<Rightarrow> string + url"
type_synonym name_resolver = "string \<Rightarrow> 16 word \<Rightarrow> string + socket_addr list"

section \<open>Addresses\<close>

fun is_link_local :: "ip_addr \<Rightarrow> bool" where
  "is_link_local (V4 a b c d) \<longleftrightarrow> a = 169 \<and> b = 254"
| "is_link_local (V6 s0 _ _ _ _ _ _ _) \<longleftrightarrow> s0 AND 0xffc0 = 0xfe80"

fun is_v4_private :: "ip_addr \<Rightarrow> bool" where
  "is_v4_private (V4 a b c d) \<longleftrightarrow>
     a = 10 \<or> (a = 172 \<and> 16 \<le> b \<and> b \<le> 31) \<or> (a = 192 \<and> b = 168) \<or> (a = 100 \<and> 64 \<le> b \<and> b \<le> 127)"
| "is_v4_private (V6 _ _ _ _ _ _ _ _) \<longleftrightarrow> False"

fun is_v6_unique_local :: "ip_addr \<Rightarrow> bool" where
  "is_v6_unique_local (V6 s0 _ _ _ _ _ _ _) \<longleftrightarrow> s0 AND 0xfe00 = 0xfc00"
| "is_v6_unique_local (V4 _ _ _ _) \<longleftrightarrow> False"

definition check_v4 :: "egress_policy \<Rightarrow> string \<Rightarrow> ip_addr \<Rightarrow> egress_denial + unit" where
  "check_v4 pol host ip =
     (let deny = (\<lambda>reason. Inl (AddressBlocked host (ip_text ip) reason))
      in if is_link_local ip then deny ''link-local / cloud metadata range''
         else if ip_is_loopback ip \<and> \<not> ep_allow_loopback pol then deny ''loopback''
         else if is_v4_private ip \<and> \<not> ep_allow_private_networks pol then deny ''private network''
         else if ip_is_unspecified ip \<or> ip_is_broadcast ip \<or> ip_is_multicast ip
         then deny ''unspecified, broadcast or multicast''
         else Inr ())"

definition check_v6 :: "egress_policy \<Rightarrow> string \<Rightarrow> ip_addr \<Rightarrow> egress_denial + unit" where
  "check_v6 pol host ip =
     (let deny = (\<lambda>reason. Inl (AddressBlocked host (ip_text ip) reason))
      in if is_link_local ip then deny ''link-local''
         else if ip_is_loopback ip \<and> \<not> ep_allow_loopback pol then deny ''loopback''
         else if is_v6_unique_local ip \<and> \<not> ep_allow_private_networks pol then deny ''unique-local''
         else if ip_is_unspecified ip \<or> ip_is_multicast ip then deny ''unspecified or multicast''
         else case to_ipv4_mapped ip of Some v4 \<Rightarrow> check_v4 pol host v4 | None \<Rightarrow> Inr ())"

definition check_addr :: "egress_policy \<Rightarrow> string \<Rightarrow> ip_addr \<Rightarrow> egress_denial + unit" where
  "check_addr pol host ip = (case ip of V4 _ _ _ _ \<Rightarrow> check_v4 pol host ip | V6 _ _ _ _ _ _ _ _ \<Rightarrow> check_v6 pol host ip)"

text \<open>\<open>self.check_addr(..)?\<close> in a loop over addresses: the first refusal.\<close>

fun check_addrs :: "egress_policy \<Rightarrow> string \<Rightarrow> ip_addr list \<Rightarrow> egress_denial + unit" where
  "check_addrs pol host [] = Inr ()"
| "check_addrs pol host (ip # ips) = (case check_addr pol host ip of Inl e \<Rightarrow> Inl e | Inr _ \<Rightarrow> check_addrs pol host ips)"

section \<open>Names\<close>

definition trim_brackets :: "string \<Rightarrow> string" where
  "trim_brackets s =
     (let bracket = (\<lambda>c. c = CHR ''['' \<or> c = CHR '']'')
      in rev (dropWhile bracket (rev (dropWhile bracket s))))"

definition ends_with :: "string \<Rightarrow> string \<Rightarrow> bool" where
  "ends_with s suf \<longleftrightarrow> length suf \<le> length s \<and> drop (length s - length suf) s = suf"

definition is_hostname_blocked :: "egress_policy \<Rightarrow> string \<Rightarrow> bool" where
  "is_hostname_blocked pol host \<longleftrightarrow>
     list_ex (\<lambda>entry.
       let blocked = lower_ascii (dropWhile (\<lambda>c. c = CHR ''.'') (trim entry))
       in blocked \<noteq> [] \<and> (host = blocked \<or> ends_with host (''.'' @ blocked))) (ep_blocked_hostnames pol)"

definition parse_and_screen :: "url_parser \<Rightarrow> egress_policy \<Rightarrow> string \<Rightarrow> egress_denial + (checked_url \<times> string)" where
  "parse_and_screen parse pol raw =
     (case parse (trim raw) of
        Inl e \<Rightarrow> Inl (Unparseable e)
      | Inr u \<Rightarrow>
          (let scheme = lower_ascii (u_scheme u)
           in if \<not> list_ex (\<lambda>s. lower_ascii s = lower_ascii scheme) (ep_allowed_schemes pol) then Inl (SchemeNotAllowed scheme)
              else case u_host u of
                     None \<Rightarrow> Inl HostMissing
                   | Some h \<Rightarrow>
                       (let host = lower_ascii (trim_brackets h)
                        in if host = [] then Inl HostMissing
                           else if is_hostname_blocked pol host then Inl (HostBlocked host)
                           else Inr (\<lparr>cu_url = u_text u, cu_host = host, cu_scheme = scheme\<rparr>, host))))"

section \<open>Checks\<close>

definition check_url :: "url_parser \<Rightarrow> egress_policy \<Rightarrow> string \<Rightarrow> egress_denial + checked_url" where
  "check_url parse pol raw =
     (case parse_and_screen parse pol raw of
        Inl e \<Rightarrow> Inl e
      | Inr (u, host) \<Rightarrow>
          (case parse_ip host of
             None \<Rightarrow> Inr u
           | Some ip \<Rightarrow> (case check_addr pol host ip of Inl e \<Rightarrow> Inl e | Inr _ \<Rightarrow> Inr u)))"

definition check_url_resolved :: "url_parser \<Rightarrow> name_resolver \<Rightarrow> egress_policy \<Rightarrow> string \<Rightarrow> egress_denial + checked_url" where
  "check_url_resolved parse resolve pol raw =
     (case parse_and_screen parse pol raw of
        Inl e \<Rightarrow> Inl e
      | Inr (u, host) \<Rightarrow>
          (case parse_ip host of
             Some ip \<Rightarrow> (case check_addr pol host ip of Inl e \<Rightarrow> Inl e | Inr _ \<Rightarrow> Inr u)
           | None \<Rightarrow>
               (case resolve host 0 of
                  Inl detail \<Rightarrow> Inl (Unresolvable host detail)
                | Inr addrs \<Rightarrow>
                    (case check_addrs pol host (map sa_ip addrs) of
                       Inl e \<Rightarrow> Inl e
                     | Inr _ \<Rightarrow> if addrs = [] then Inl (Unresolvable host ''no addresses'') else Inr u))))"

definition resolve_pinned :: "name_resolver \<Rightarrow> egress_policy \<Rightarrow> string \<Rightarrow> 16 word \<Rightarrow> egress_denial + socket_addr" where
  "resolve_pinned resolve pol name port =
     (let host = lower_ascii (trim_brackets (trim name))
      in if host = [] then Inl HostMissing
         else if is_hostname_blocked pol host then Inl (HostBlocked host)
         else case parse_ip host of
                Some ip \<Rightarrow> (case check_addr pol host ip of Inl e \<Rightarrow> Inl e | Inr _ \<Rightarrow> Inr \<lparr>sa_ip = ip, sa_port = port\<rparr>)
              | None \<Rightarrow>
                  (case resolve host port of
                     Inl detail \<Rightarrow> Inl (Unresolvable host detail)
                   | Inr [] \<Rightarrow> Inl (Unresolvable host ''no addresses'')
                   | Inr (first # others) \<Rightarrow>
                       (case check_addrs pol host (map sa_ip (first # others)) of Inl e \<Rightarrow> Inl e | Inr _ \<Rightarrow> Inr first)))"

section \<open>Addresses as numbers\<close>

fun ip_number :: "ip_addr \<Rightarrow> nat" where
  "ip_number (V4 a b c d) = unat a * 2 ^ 24 + unat b * 2 ^ 16 + unat c * 2 ^ 8 + unat d"
| "ip_number (V6 s0 s1 s2 s3 s4 s5 s6 s7) =
     unat s0 * 2 ^ 112 + unat s1 * 2 ^ 96 + unat s2 * 2 ^ 80 + unat s3 * 2 ^ 64 + unat s4 * 2 ^ 48 + unat s5 * 2 ^ 32 +
     unat s6 * 2 ^ 16 + unat s7"

text \<open>The addresses of a block: \<open>width\<close> is the number of bits of an address, \<open>len\<close> the length of the prefix.\<close>

definition in_block :: "nat \<Rightarrow> nat \<Rightarrow> nat \<Rightarrow> nat \<Rightarrow> bool" where
  "in_block width base len n \<longleftrightarrow> n div 2 ^ (width - len) = base div 2 ^ (width - len)"

abbreviation v4_block :: "nat \<Rightarrow> nat \<Rightarrow> nat \<Rightarrow> nat \<Rightarrow> nat \<Rightarrow> nat \<Rightarrow> bool" where
  "v4_block a b c d len \<equiv> in_block 32 (a * 2 ^ 24 + b * 2 ^ 16 + c * 2 ^ 8 + d) len"

text \<open>The destinations the documentation permits, in terms of blocks.\<close>

definition v4_permitted :: "egress_policy \<Rightarrow> nat \<Rightarrow> bool" where
  "v4_permitted pol n \<longleftrightarrow>
     \<not> v4_block 169 254 0 0 16 n \<and>
     (v4_block 127 0 0 0 8 n \<longrightarrow> ep_allow_loopback pol) \<and>
     (v4_block 10 0 0 0 8 n \<or> v4_block 172 16 0 0 12 n \<or> v4_block 192 168 0 0 16 n \<or> v4_block 100 64 0 0 10 n \<longrightarrow>
        ep_allow_private_networks pol) \<and>
     n \<noteq> 0 \<and> n \<noteq> 2 ^ 32 - 1 \<and> \<not> v4_block 224 0 0 0 4 n"

definition v6_permitted :: "egress_policy \<Rightarrow> nat \<Rightarrow> bool" where
  "v6_permitted pol n \<longleftrightarrow>
     \<not> in_block 128 (0xfe80 * 2 ^ 112) 10 n \<and>
     (n = 1 \<longrightarrow> ep_allow_loopback pol) \<and>
     (in_block 128 (0xfc00 * 2 ^ 112) 7 n \<longrightarrow> ep_allow_private_networks pol) \<and>
     n \<noteq> 0 \<and> \<not> in_block 128 (0xff00 * 2 ^ 112) 8 n \<and>
     (in_block 128 (0xffff * 2 ^ 32) 96 n \<longrightarrow> v4_permitted pol (n mod 2 ^ 32))"

definition permitted :: "egress_policy \<Rightarrow> ip_addr \<Rightarrow> bool" where
  "permitted pol ip = (case ip of V4 _ _ _ _ \<Rightarrow> v4_permitted pol (ip_number ip) | V6 _ _ _ _ _ _ _ _ \<Rightarrow> v6_permitted pol (ip_number ip))"

section \<open>The classes of addresses are blocks\<close>

lemma quotient: "n = q * m + r \<Longrightarrow> r < m \<Longrightarrow> n div m = (q :: nat)"
  by simp

lemma octet_bound: "unat (a :: 8 word) < 256"
  using unsigned_less [of a] by simp

lemma segment_bound: "unat (s :: 16 word) < 65536"
  using unsigned_less [of s] by simp

lemma v4_quotients:
  defines "n a b c d \<equiv> ip_number (V4 a b c d)"
  shows "n a b c d div 16777216 = unat a" and "n a b c d div 65536 = unat a * 256 + unat b"
    and "n a b c d div 1048576 = unat a * 16 + unat b div 16" and "n a b c d div 4194304 = unat a * 4 + unat b div 64"
    and "n a b c d div 268435456 = unat a div 16"
proof -
  note bounds = octet_bound [of a] octet_bound [of b] octet_bound [of c] octet_bound [of d]
  show "n a b c d div 16777216 = unat a"
    by (rule quotient [where r = "unat b * 2 ^ 16 + unat c * 2 ^ 8 + unat d"]) (use bounds in \<open>simp_all add: n_def\<close>)
  show "n a b c d div 65536 = unat a * 256 + unat b"
    by (rule quotient [where r = "unat c * 2 ^ 8 + unat d"]) (use bounds in \<open>simp_all add: n_def\<close>)
  have digits: "\<exists>q r. unat b = m * q + r \<and> r < m \<and> unat b div m = q" if "0 < m" for m
    using that by (intro exI [of _ "unat b div m"] exI [of _ "unat b mod m"]) simp
  show "n a b c d div 1048576 = unat a * 16 + unat b div 16"
  proof -
    obtain q r where b: "unat b = 16 * q + r" "r < 16" "unat b div 16 = q" using digits [of 16] by auto
    show ?thesis
      unfolding b(3) n_def ip_number.simps b(1)
      by (rule quotient [where r = "r * 65536 + unat c * 256 + unat d"]) (use bounds b(2) in simp_all)
  qed
  show "n a b c d div 4194304 = unat a * 4 + unat b div 64"
  proof -
    obtain q r where b: "unat b = 64 * q + r" "r < 64" "unat b div 64 = q" using digits [of 64] by auto
    show ?thesis
      unfolding b(3) n_def ip_number.simps b(1)
      by (rule quotient [where r = "r * 65536 + unat c * 256 + unat d"]) (use bounds b(2) in simp_all)
  qed
  have "n a b c d div 268435456 = n a b c d div 16777216 div 16" by (simp flip: div_mult2_eq)
  with \<open>n a b c d div 16777216 = unat a\<close> show "n a b c d div 268435456 = unat a div 16" by simp
qed

lemma two_digits: "b < k \<Longrightarrow> w < k \<Longrightarrow> u * k + b = v * k + w \<longleftrightarrow> u = v \<and> b = (w :: nat)"
  by (metis div_mult_self3 mod_mult_self3 add.commute div_less gr_implies_not0 mod_less add_0)

lemma v4_link_local: "is_link_local (V4 a b c d) \<longleftrightarrow> v4_block 169 254 0 0 16 (ip_number (V4 a b c d))"
  using two_digits [of "unat b" 256 254 "unat a" 169] octet_bound [of b]
  by (simp add: in_block_def v4_quotients word_unat_eq_iff del: ip_number.simps)

lemma v4_loopback: "ip_is_loopback (V4 a b c d) \<longleftrightarrow> v4_block 127 0 0 0 8 (ip_number (V4 a b c d))"
  by (simp add: in_block_def v4_quotients word_unat_eq_iff del: ip_number.simps)

lemma v4_private:
  "is_v4_private (V4 a b c d) \<longleftrightarrow>
     v4_block 10 0 0 0 8 (ip_number (V4 a b c d)) \<or> v4_block 172 16 0 0 12 (ip_number (V4 a b c d)) \<or>
     v4_block 192 168 0 0 16 (ip_number (V4 a b c d)) \<or> v4_block 100 64 0 0 10 (ip_number (V4 a b c d))"
proof -
  have "unat a * 16 + unat b div 16 = 2753 \<longleftrightarrow> unat a = 172 \<and> 16 \<le> unat b \<and> unat b \<le> 31"
    using two_digits [of "unat b div 16" 16 1 "unat a" 172] octet_bound [of b] by auto
  moreover have "unat a * 4 + unat b div 64 = 401 \<longleftrightarrow> unat a = 100 \<and> 64 \<le> unat b \<and> unat b \<le> 127"
    using two_digits [of "unat b div 64" 4 1 "unat a" 100] octet_bound [of b] by auto
  moreover have "unat a * 256 + unat b = 49320 \<longleftrightarrow> unat a = 192 \<and> unat b = 168"
    using two_digits [of "unat b" 256 168 "unat a" 192] octet_bound [of b] by simp
  ultimately show ?thesis
    by (simp add: in_block_def v4_quotients word_unat_eq_iff word_le_nat_alt del: ip_number.simps)
qed

lemma v4_multicast: "ip_is_multicast (V4 a b c d) \<longleftrightarrow> v4_block 224 0 0 0 4 (ip_number (V4 a b c d))"
  by (simp add: in_block_def v4_quotients word_le_nat_alt del: ip_number.simps) linarith

lemma v4_ends:
  "ip_is_unspecified (V4 a b c d) \<longleftrightarrow> ip_number (V4 a b c d) = 0"
  "ip_is_broadcast (V4 a b c d) \<longleftrightarrow> ip_number (V4 a b c d) = 2 ^ 32 - 1"
proof -
  show "ip_is_unspecified (V4 a b c d) \<longleftrightarrow> ip_number (V4 a b c d) = 0" by (auto simp: word_unat_eq_iff)
  have "unat a = 255 \<and> unat b = 255 \<and> unat c = 255 \<and> unat d = 255 \<longleftrightarrow>
      unat a * 2 ^ 24 + unat b * 2 ^ 16 + unat c * 2 ^ 8 + unat d = 2 ^ 32 - 1"
    using octet_bound [of a] octet_bound [of b] octet_bound [of c] octet_bound [of d] by (simp, linarith)
  then show "ip_is_broadcast (V4 a b c d) \<longleftrightarrow> ip_number (V4 a b c d) = 2 ^ 32 - 1" by (simp add: word_unat_eq_iff)
qed

lemma check_v4_exact: "check_v4 pol host (V4 a b c d) = Inr () \<longleftrightarrow> v4_permitted pol (ip_number (V4 a b c d))"
  unfolding check_v4_def v4_permitted_def Let_def v4_link_local v4_loopback v4_private v4_multicast v4_ends by auto

lemma unat_drop_bit: "unat (drop_bit k w) = unat w div 2 ^ k"
  by (subst unat_drop_bit_eq) (rule drop_bit_eq_div)

lemma remainder: "r < m \<Longrightarrow> (q * m + r) mod m = (r :: nat)"
  by simp

lemma masked_prefix:
  assumes "k \<le> 16" and "v = push_bit k (drop_bit k (v :: 16 word))"
  shows "s AND push_bit k (mask (16 - k)) = v \<longleftrightarrow> unat s div 2 ^ k = unat v div 2 ^ k"
proof -
  have "s AND push_bit k (mask (16 - k)) = push_bit k (drop_bit k s)"
    by (rule bit_word_eqI) (auto simp: bit_simps dest: bit_imp_le_length)
  moreover have "drop_bit k (push_bit k (drop_bit k w)) = drop_bit k w" for w :: "16 word"
    by (rule bit_word_eqI) (auto simp: bit_simps dest: bit_imp_le_length)
  ultimately have "s AND push_bit k (mask (16 - k)) = v \<longleftrightarrow> drop_bit k s = drop_bit k v"
    using assms(2) by metis
  then show ?thesis by (simp only: word_unat_eq_iff unat_drop_bit)
qed

lemma v6_top:
  defines "n \<equiv> \<lambda>s0 s1 s2 s3 s4 s5 s6 s7. ip_number (V6 s0 s1 s2 s3 s4 s5 s6 s7)"
  shows "n s0 s1 s2 s3 s4 s5 s6 s7 div 2 ^ (112 + k) = unat s0 div 2 ^ k"
proof -
  have "n s0 s1 s2 s3 s4 s5 s6 s7 div 2 ^ 112 = unat s0"
    unfolding n_def ip_number.simps
    by (rule quotient [where r = "unat s1 * 2 ^ 96 + unat s2 * 2 ^ 80 + unat s3 * 2 ^ 64 + unat s4 * 2 ^ 48 + unat s5 * 2 ^ 32 +
        unat s6 * 2 ^ 16 + unat s7"])
      (use segment_bound [of s1] segment_bound [of s2] segment_bound [of s3] segment_bound [of s4] segment_bound [of s5]
        segment_bound [of s6] segment_bound [of s7] in simp_all)
  then show ?thesis by (simp only: power_add div_mult2_eq)
qed

lemma v6_prefix: "len \<le> 16 \<Longrightarrow> in_block 128 (x * 2 ^ 112) len (ip_number (V6 s0 s1 s2 s3 s4 s5 s6 s7)) \<longleftrightarrow> unat s0 div 2 ^ (16 - len) = x div 2 ^ (16 - len)"
proof -
  assume "len \<le> 16"
  then have w: "128 - len = 112 + (16 - len)" by simp
  have "x * 2 ^ 112 div 2 ^ (112 + (16 - len)) = x div 2 ^ (16 - len)" by (simp only: power_add div_mult2_eq) simp
  then show ?thesis unfolding in_block_def w v6_top by simp
qed

lemma v6_classes:
  "is_link_local (V6 s0 s1 s2 s3 s4 s5 s6 s7) \<longleftrightarrow> in_block 128 (0xfe80 * 2 ^ 112) 10 (ip_number (V6 s0 s1 s2 s3 s4 s5 s6 s7))"
  "is_v6_unique_local (V6 s0 s1 s2 s3 s4 s5 s6 s7) \<longleftrightarrow> in_block 128 (0xfc00 * 2 ^ 112) 7 (ip_number (V6 s0 s1 s2 s3 s4 s5 s6 s7))"
  "ip_is_multicast (V6 s0 s1 s2 s3 s4 s5 s6 s7) \<longleftrightarrow> in_block 128 (0xff00 * 2 ^ 112) 8 (ip_number (V6 s0 s1 s2 s3 s4 s5 s6 s7))"
proof -
  have "push_bit 6 (mask 10) = (0xffc0 :: 16 word)" "push_bit 9 (mask 7) = (0xfe00 :: 16 word)" "push_bit 8 (mask 8) = (0xff00 :: 16 word)"
    by (simp_all add: mask_numeral push_bit_numeral)
  then show "is_link_local (V6 s0 s1 s2 s3 s4 s5 s6 s7) \<longleftrightarrow> in_block 128 (0xfe80 * 2 ^ 112) 10 (ip_number (V6 s0 s1 s2 s3 s4 s5 s6 s7))"
    "is_v6_unique_local (V6 s0 s1 s2 s3 s4 s5 s6 s7) \<longleftrightarrow> in_block 128 (0xfc00 * 2 ^ 112) 7 (ip_number (V6 s0 s1 s2 s3 s4 s5 s6 s7))"
    "ip_is_multicast (V6 s0 s1 s2 s3 s4 s5 s6 s7) \<longleftrightarrow> in_block 128 (0xff00 * 2 ^ 112) 8 (ip_number (V6 s0 s1 s2 s3 s4 s5 s6 s7))"
    using masked_prefix [of 6 "0xfe80" s0] masked_prefix [of 9 "0xfc00" s0] masked_prefix [of 8 "0xff00" s0]
      v6_prefix [of 10 "0xfe80" s0 s1 s2 s3 s4 s5 s6 s7] v6_prefix [of 7 "0xfc00" s0 s1 s2 s3 s4 s5 s6 s7]
      v6_prefix [of 8 "0xff00" s0 s1 s2 s3 s4 s5 s6 s7]
    by (simp_all del: ip_number.simps)
qed

lemma v6_ends:
  "ip_is_unspecified (V6 s0 s1 s2 s3 s4 s5 s6 s7) \<longleftrightarrow> ip_number (V6 s0 s1 s2 s3 s4 s5 s6 s7) = 0"
  "ip_is_loopback (V6 s0 s1 s2 s3 s4 s5 s6 s7) \<longleftrightarrow> ip_number (V6 s0 s1 s2 s3 s4 s5 s6 s7) = 1"
proof -
  show "ip_is_unspecified (V6 s0 s1 s2 s3 s4 s5 s6 s7) \<longleftrightarrow> ip_number (V6 s0 s1 s2 s3 s4 s5 s6 s7) = 0"
    by (auto simp: word_unat_eq_iff)
  let ?x = "unat s0 * 2 ^ 96 + unat s1 * 2 ^ 80 + unat s2 * 2 ^ 64 + unat s3 * 2 ^ 48 + unat s4 * 2 ^ 32 + unat s5 * 2 ^ 16 + unat s6"
  have "?x * 65536 + unat s7 = 1 \<longleftrightarrow> ?x = 0 \<and> unat s7 = 1"
    using two_digits [of "unat s7" 65536 1 ?x 0] segment_bound [of s7] by simp
  moreover have "ip_number (V6 s0 s1 s2 s3 s4 s5 s6 s7) = ?x * 65536 + unat s7" by (simp add: algebra_simps)
  ultimately show "ip_is_loopback (V6 s0 s1 s2 s3 s4 s5 s6 s7) \<longleftrightarrow> ip_number (V6 s0 s1 s2 s3 s4 s5 s6 s7) = 1"
    by (simp add: word_unat_eq_iff del: ip_number.simps)
qed


lemma mapped_octets:
  assumes "octets_of s6 = (a, b)" and "octets_of s7 = (c, d)"
  shows "ip_number (V4 a b c d) = unat s6 * 65536 + unat s7"
proof -
  have oct: "unat (ucast (drop_bit 8 s) :: 8 word) = unat s div 256" "unat (ucast s :: 8 word) = unat s mod 256" for s :: "16 word"
  proof -
    have "unat s div 256 < 256" using segment_bound [of s] by (simp add: div_less_iff_less_mult)
    then show "unat (ucast (drop_bit 8 s) :: 8 word) = unat s div 256"
      by (simp add: unsigned_ucast_eq take_bit_eq_mod unat_drop_bit [of 8, simplified])
    show "unat (ucast s :: 8 word) = unat s mod 256" by (simp add: unsigned_ucast_eq take_bit_eq_mod)
  qed
  from assms have abcd: "unat a = unat s6 div 256" "unat b = unat s6 mod 256" "unat c = unat s7 div 256" "unat d = unat s7 mod 256"
    using oct(1) [of s6] oct(1) [of s7] oct(2) [of s6] oct(2) [of s7] unfolding octets_of_def prod.inject by simp_all
  have "(q * 256 + r) * 65536 + (q' * 256 + r') = q * 2 ^ 24 + r * 2 ^ 16 + q' * 2 ^ 8 + (r' :: nat)" for q r q' r' by simp
  from this [of "unat s6 div 256" "unat s6 mod 256" "unat s7 div 256" "unat s7 mod 256"]
  show ?thesis unfolding ip_number.simps abcd div_mult_mod_eq by (rule sym)
qed

lemma v6_mapped:
  "in_block 128 (0xffff * 2 ^ 32) 96 (ip_number (V6 s0 s1 s2 s3 s4 s5 s6 s7)) \<longleftrightarrow>
     s0 = 0 \<and> s1 = 0 \<and> s2 = 0 \<and> s3 = 0 \<and> s4 = 0 \<and> s5 = 0xffff"
  "ip_number (V6 s0 s1 s2 s3 s4 s5 s6 s7) mod 2 ^ 32 = unat s6 * 65536 + unat s7"
proof -
  let ?x = "unat s0 * 2 ^ 64 + unat s1 * 2 ^ 48 + unat s2 * 2 ^ 32 + unat s3 * 2 ^ 16 + unat s4"
  have n: "ip_number (V6 s0 s1 s2 s3 s4 s5 s6 s7) = (?x * 65536 + unat s5) * 2 ^ 32 + (unat s6 * 65536 + unat s7)" by simp
  have small: "unat s6 * 65536 + unat s7 < 2 ^ 32" using segment_bound [of s6] segment_bound [of s7] by simp
  have "ip_number (V6 s0 s1 s2 s3 s4 s5 s6 s7) div 2 ^ 32 = ?x * 65536 + unat s5" by (rule quotient [OF n small])
  moreover have "?x * 65536 + unat s5 = 65535 \<longleftrightarrow> ?x = 0 \<and> unat s5 = 65535"
    using two_digits [of "unat s5" 65536 65535 ?x 0] segment_bound [of s5] by simp
  ultimately show "in_block 128 (0xffff * 2 ^ 32) 96 (ip_number (V6 s0 s1 s2 s3 s4 s5 s6 s7)) \<longleftrightarrow>
     s0 = 0 \<and> s1 = 0 \<and> s2 = 0 \<and> s3 = 0 \<and> s4 = 0 \<and> s5 = 0xffff"
    by (simp add: in_block_def word_unat_eq_iff del: ip_number.simps)
  show "ip_number (V6 s0 s1 s2 s3 s4 s5 s6 s7) mod 2 ^ 32 = unat s6 * 65536 + unat s7"
    unfolding n by (rule remainder [OF small])
qed

lemma check_v6_exact:
  "check_v6 pol host (V6 s0 s1 s2 s3 s4 s5 s6 s7) = Inr () \<longleftrightarrow> v6_permitted pol (ip_number (V6 s0 s1 s2 s3 s4 s5 s6 s7))"
proof -
  obtain a b c d where oct: "octets_of s6 = (a, b)" "octets_of s7 = (c, d)" by fastforce
  have "(case to_ipv4_mapped (V6 s0 s1 s2 s3 s4 s5 s6 s7) of Some v4 \<Rightarrow> check_v4 pol host v4 | None \<Rightarrow> Inr ()) = Inr () \<longleftrightarrow>
      (in_block 128 (0xffff * 2 ^ 32) 96 (ip_number (V6 s0 s1 s2 s3 s4 s5 s6 s7)) \<longrightarrow>
        v4_permitted pol (ip_number (V6 s0 s1 s2 s3 s4 s5 s6 s7) mod 2 ^ 32))"
    unfolding v6_mapped by (auto simp: oct check_v4_exact mapped_octets [OF oct] simp del: ip_number.simps)
  then show ?thesis
    unfolding check_v6_def v6_permitted_def Let_def v6_classes v6_ends by (auto simp del: ip_number.simps)
qed

section \<open>Names and literals\<close>

lemma decimal_parts:
  "list_all (\<lambda>c. digit_value 10 c \<noteq> None) (decimal n)" "digits_value 10 (decimal n) = n" "decimal n \<noteq> []"
  "0 < n \<Longrightarrow> hd (decimal n) \<noteq> CHR ''0''"
proof -
  have digit: "digit_value 10 (char_of (48 + k)) = Some k" if "k < 10" for k
    using that by (simp add: digit_value_def of_char_of)
  have all: "list_all (\<lambda>c. digit_value 10 c \<noteq> None) (decimal n) \<and> digits_value 10 (decimal n) = n \<and> decimal n \<noteq> [] \<and>
      (0 < n \<longrightarrow> hd (decimal n) \<noteq> CHR ''0'')"
  proof (induction n rule: decimal.induct)
    case (1 n)
    show ?case
    proof (cases "n < 10")
      case True
      have "char_of (48 + n) \<noteq> CHR ''0''" if "0 < n"
      proof
        assume "char_of (48 + n) = CHR ''0''"
        then have "of_char (char_of (48 + n) :: char) = (48 :: nat)" by simp
        with True that show False by (simp add: of_char_of)
      qed
      with True digit [OF True] show ?thesis by (simp add: decimal.simps [of n] digits_value_def)
    next
      case False
      with 1 digit [of "n mod 10"] show ?thesis by (simp add: decimal.simps [of n] digits_value_def)
    qed
  qed
  show "list_all (\<lambda>c. digit_value 10 c \<noteq> None) (decimal n)" "digits_value 10 (decimal n) = n" "decimal n \<noteq> []"
    "0 < n \<Longrightarrow> hd (decimal n) \<noteq> CHR ''0''" using all by auto
qed

lemma decimal_short: "n < 1000 \<Longrightarrow> length (decimal n) \<le> 3"
  by (simp add: decimal.simps [of n] decimal.simps [of "n div 10"] decimal.simps [of "n div 10 div 10"])

lemma read_decimal:
  assumes "n < 256" and "r = [] \<or> digit_value 10 (hd r) = None"
  shows "read_number 10 3 False 256 (decimal n @ r) = Some (n, r)"
proof -
  have "takeWhile (\<lambda>c. digit_value 10 c \<noteq> None) (decimal n @ r) = decimal n"
    using decimal_parts(1) [of n] assms(2) by (cases r) (auto simp: takeWhile_append2 list_all_iff takeWhile_tail)
  moreover have "hd (decimal n) = CHR ''0'' \<Longrightarrow> length (decimal n) \<le> 1"
    using decimal_parts(4) [of n] by (cases "n = 0") (auto simp: decimal.simps [of 0])
  ultimately show ?thesis
    using decimal_parts(2,3) [of n] decimal_short [of n] assms(1) by (auto simp: read_number_def Let_def)
qed

lemma read_dotted: "read_ipv4 (dotted a b c d) = Some ((a, b, c, d), [])"
proof -
  have dot: "digit_value 10 CHR ''.'' = None" by code_simp
  have first: "read_octet 0 (decimal (unat w) @ r) = Some (w, r)" if "r = [] \<or> hd r = CHR ''.''" for w r
    using read_decimal [of "unat w" r] octet_bound [of w] that dot by (auto simp: read_octet_def read_separator_def)
  have later: "read_octet i (CHR ''.'' # decimal (unat w) @ r) = Some (w, r)" if "0 < i" "r = [] \<or> hd r = CHR ''.''" for i w r
    using read_decimal [of "unat w" r] octet_bound [of w] that dot by (auto simp: read_octet_def read_separator_def)
  show ?thesis
    unfolding dotted_def read_ipv4_def using later [of 3 "[]" d] by (simp add: first later)
qed

lemma parse_dotted: "parse_ip (dotted a b c d) = Some (V4 a b c d)"
  by (simp add: parse_ip_def read_dotted)

section \<open>The policy and its specification\<close>

lemma check_addr_permitted: "check_addr pol host ip = Inr x \<longleftrightarrow> permitted pol ip"
  by (cases ip) (simp_all add: check_addr_def permitted_def check_v4_exact check_v6_exact del: ip_number.simps)

lemma check_addr_cases: "(case check_addr pol host ip of Inl e \<Rightarrow> Inl e | Inr _ \<Rightarrow> r) = Inr y \<longleftrightarrow> permitted pol ip \<and> r = Inr y"
  using check_addr_permitted [of pol host ip] by (cases "check_addr pol host ip") auto

lemma check_addrs_permitted: "check_addrs pol host ips = Inr x \<longleftrightarrow> (\<forall>ip \<in> set ips. permitted pol ip)"
  by (induction ips) (simp_all add: check_addr_cases)

lemma check_addrs_cases:
  "(case check_addrs pol host ips of Inl e \<Rightarrow> Inl e | Inr _ \<Rightarrow> r) = Inr y \<longleftrightarrow> (\<forall>ip \<in> set ips. permitted pol ip) \<and> r = Inr y"
  using check_addrs_permitted [of pol host ips] by (cases "check_addrs pol host ips") auto

text \<open>
  C6. The address rules as blocks. The octet comparisons and segment masks of \<open>check_addr\<close> accept exactly
  the addresses outside the blocks the documentation names: 169.254.0.0/16, 127.0.0.0/8, 10.0.0.0/8,
  172.16.0.0/12, 192.168.0.0/16, 100.64.0.0/10, 224.0.0.0/4, the unspecified and the broadcast address,
  fe80::/10, ::1, fc00::/7, ff00::/8, and inside ::ffff:0:0/96 those whose last 32 bits the IPv4 rules refuse; the
  two flags of the policy open loopback and private networks and nothing else.
\<close>

theorem egress_blocks_exact: "check_addr pol host ip = Inr () \<longleftrightarrow> permitted pol ip"
  by (rule check_addr_permitted)

lemma resolve_pinned_cases:
  assumes "resolve_pinned resolve pol name port = Inr sa"
  defines "host \<equiv> lower_ascii (trim_brackets (trim name))"
  shows "host \<noteq> [] \<and> \<not> is_hostname_blocked pol host"
    and "parse_ip host = Some (sa_ip sa) \<and> permitted pol (sa_ip sa) \<and> sa_port sa = port \<or>
      parse_ip host = None \<and> (\<exists>others. resolve host port = Inr (sa # others) \<and> (\<forall>a \<in> set (sa # others). permitted pol (sa_ip a)))"
proof -
  from assms(1) show *: "host \<noteq> [] \<and> \<not> is_hostname_blocked pol host"
    unfolding host_def resolve_pinned_def Let_def by (auto split: if_splits)
  from assms(1) show "parse_ip host = Some (sa_ip sa) \<and> permitted pol (sa_ip sa) \<and> sa_port sa = port \<or>
      parse_ip host = None \<and> (\<exists>others. resolve host port = Inr (sa # others) \<and> (\<forall>a \<in> set (sa # others). permitted pol (sa_ip a)))"
    unfolding resolve_pinned_def host_def [symmetric] Let_def if_not_P [OF conjunct1 [OF *]] if_not_P [OF conjunct2 [OF *]]
    by (auto simp: check_addr_cases check_addrs_cases check_addrs_permitted split: option.splits sum.splits list.splits)
qed

text \<open>
  The pinned address. When \<open>resolve_pinned\<close> returns an address, whatever the resolver does, the policy permits
  it and does not block the name; it is the literal the name spells with the port asked for, or one of the
  resolver's answer to this one question, all of whose addresses the policy permits.
\<close>

theorem pinned_address_permitted:
  assumes "resolve_pinned resolve pol name port = Inr sa"
  defines "host \<equiv> lower_ascii (trim_brackets (trim name))"
  shows "permitted pol (sa_ip sa) \<and> \<not> is_hostname_blocked pol host \<and>
    (parse_ip host = Some (sa_ip sa) \<and> sa_port sa = port \<or>
      parse_ip host = None \<and>
        (\<exists>addrs. resolve host port = Inr addrs \<and> sa \<in> set addrs \<and> list_all (\<lambda>a. permitted pol (sa_ip a)) addrs))"
  using resolve_pinned_cases [OF assms(1)] unfolding host_def by (auto simp: list_all_iff)

definition example_resolver :: name_resolver where
  "example_resolver name port =
     (if name = ''www.example'' then Inr [\<lparr>sa_ip = V4 93 184 216 34, sa_port = port\<rparr>]
      else if name = ''inner.example'' then Inr [\<lparr>sa_ip = V4 93 184 216 34, sa_port = port\<rparr>, \<lparr>sa_ip = V4 10 0 0 1, sa_port = port\<rparr>]
      else Inl ''no such name'')"


text \<open>A name that starts with neither a hexadecimal digit nor a colon is no literal.\<close>

lemma parse_ip_name: "digit_value 16 c = None \<and> c \<noteq> CHR '':'' \<Longrightarrow> parse_ip (c # s) = None"
proof -
  assume c: "digit_value 16 c = None \<and> c \<noteq> CHR '':''"
  then have "digit_value 10 c = None" by (auto simp: digit_value_def Let_def split: if_splits)
  with c have "read_ipv4 (c # s) = None" "read_groups 0 8 (c # s) = ([], False, c # s)"
    using read_groups.simps(2) [of 0 7 "c # s"]
    by (simp_all add: read_ipv4_def read_octet_def read_separator_def read_number_def)
  with c show ?thesis by (simp add: parse_ip_def read_ipv6_def)
qed

lemma trim_www: "trim ''WWW.example'' = ''WWW.example''"
  by (rule trim_visible) (simp_all add: visible_def)

theorem pinned_address_permitted_witness:
  "resolve_pinned example_resolver default_policy ''WWW.example'' 443 = Inr \<lparr>sa_ip = V4 93 184 216 34, sa_port = 443\<rparr> \<and>
   permitted default_policy (V4 93 184 216 34)"
proof -
  have "lower_ascii (trim_brackets ''WWW.example'') = ''www.example''" by code_simp
  moreover have "parse_ip ''www.example'' = None" by (rule parse_ip_name) code_simp
  moreover have "check_addr default_policy ''www.example'' (V4 93 184 216 34) = Inr ()"
    by (simp add: check_addr_def check_v4_def default_policy_def)
  ultimately have r: "resolve_pinned example_resolver default_policy ''WWW.example'' 443 = Inr \<lparr>sa_ip = V4 93 184 216 34, sa_port = 443\<rparr>"
    by (simp add: resolve_pinned_def trim_www example_resolver_def is_hostname_blocked_def default_policy_def)
  from pinned_address_permitted [OF r] r show ?thesis by simp
qed

lemma dotted_chars:
  assumes "x \<in> set (dotted a b c d)"
  shows "x = CHR ''.'' \<or> digit_value 10 x \<noteq> None"
  using assms decimal_parts(1) unfolding dotted_def list_all_iff by auto

lemma digit_char: "digit_value 10 x \<noteq> None \<Longrightarrow> 48 \<le> (of_char x :: nat) \<and> of_char x \<le> (57 :: nat)"
  by (auto simp: digit_value_def Let_def split: if_splits)

lemma dotted_host: "lower_ascii (trim_brackets (dotted a b c d)) = dotted a b c d"
proof -
  have plain: "lower_char x = x \<and> x \<noteq> CHR ''['' \<and> x \<noteq> CHR '']''" if "x \<in> set (dotted a b c d)" for x
    using dotted_chars [OF that] digit_char [of x] by (auto simp: lower_char_def)
  have "dropWhile (\<lambda>x. x = CHR ''['' \<or> x = CHR '']'') s = s" if "set s \<subseteq> set (dotted a b c d)" for s
    using that plain by (cases s) auto
  then have "trim_brackets (dotted a b c d) = dotted a b c d" unfolding trim_brackets_def Let_def by simp
  with plain show ?thesis by (simp add: lower_ascii_def map_idI)
qed

text \<open>
  Literal addresses. A URL whose host is the dotted decimal form of an address the policy does not permit is refused by
  the check at configuration time and by the check at call time, whatever the resolver would say.
\<close>

theorem literal_v4_refused:
  assumes "parse (trim raw) = Inr u" and "u_host u = Some (dotted a b c d)" and "\<not> permitted pol (V4 a b c d)"
  shows "\<exists>e. check_url parse pol raw = Inl e \<and> check_url_resolved parse resolve pol raw = Inl e"
proof (cases "parse_and_screen parse pol raw")
  case (Inl e)
  then show ?thesis by (simp add: check_url_def check_url_resolved_def)
next
  case (Inr r)
  moreover from this have "snd r = dotted a b c d"
    using assms(1,2) by (auto simp: parse_and_screen_def Let_def dotted_host split: if_splits)
  moreover obtain e where "check_addr pol (dotted a b c d) (V4 a b c d) = Inl e"
    using assms(3) check_addr_permitted by (metis sum.exhaust)
  ultimately show ?thesis
    by (cases r) (simp add: check_url_def check_url_resolved_def parse_dotted)
qed

text \<open>
  A name with a trailing dot. When no entry of the blocklist ends in a dot, no name that ends in one is blocked: with
  example.com on the list, example.com. (the same name for a resolver) and its subdomains pass.
\<close>

theorem trailing_dot_passes:
  assumes "list_all (\<lambda>e. trim e = [] \<or> last (trim e) \<noteq> CHR ''.'') (ep_blocked_hostnames pol)"
  shows "\<not> is_hostname_blocked pol (name @ ''.'')"
proof
  assume "is_hostname_blocked pol (name @ ''.'')"
  then obtain e b where e: "e \<in> set (ep_blocked_hostnames pol)"
    and b: "b = lower_ascii (dropWhile (\<lambda>c. c = CHR ''.'') (trim e))" "b \<noteq> []"
    and m: "name @ ''.'' = b \<or> ends_with (name @ ''.'') (''.'' @ b)"
    unfolding is_hostname_blocked_def Let_def list_ex_iff by blast
  from m have "last b = CHR ''.''"
  proof
    assume "ends_with (name @ ''.'') (''.'' @ b)"
    then obtain p where "name @ ''.'' = p @ ''.'' @ b" unfolding ends_with_def by (metis append_take_drop_id)
    then have "last (name @ ''.'') = last (p @ ''.'' @ b)" by (rule arg_cong)
    then show ?thesis using b(2) by simp
  qed auto
  moreover have "last b = lower_char (last (trim e))"
  proof -
    let ?d = "dropWhile (\<lambda>c. c = CHR ''.'') (trim e)"
    from b have "?d \<noteq> []" by (simp add: lower_ascii_def)
    then have "last (takeWhile (\<lambda>c. c = CHR ''.'') (trim e) @ ?d) = last ?d" by (rule last_appendR)
    with \<open>?d \<noteq> []\<close> show ?thesis unfolding b(1) lower_ascii_def by (simp add: last_map)
  qed
  moreover have "lower_char x = CHR ''.'' \<Longrightarrow> x = CHR ''.''" for x
  proof (rule ccontr)
    assume x: "lower_char x = CHR ''.''" "x \<noteq> CHR ''.''"
    then have n: "of_char (lower_char x) = (46 :: nat)" by simp
    show False
    proof (cases "65 \<le> (of_char x :: nat) \<and> of_char x \<le> (90 :: nat)")
      case True
      with n show False by (simp add: lower_char_def of_char_of)
    next
      case False
      with x show False by (auto simp: lower_char_def)
    qed
  qed
  ultimately show False using assms e b by (auto simp: list_all_iff lower_ascii_def)
qed

theorem trailing_dot_passes_witness:
  "let pol = default_policy\<lparr>ep_blocked_hostnames := [''example.com'']\<rparr> in
     is_hostname_blocked pol ''example.com'' \<and> is_hostname_blocked pol ''api.example.com'' \<and> \<not> is_hostname_blocked pol ''example.com.''"
proof -
  have t: "trim ''example.com'' = ''example.com''" by (rule trim_visible) (simp_all add: visible_def)
  show ?thesis
    using trailing_dot_passes [of "default_policy\<lparr>ep_blocked_hostnames := [''example.com'']\<rparr>" "''example.com''"] t
    by (simp add: Let_def is_hostname_blocked_def ends_with_def lower_ascii_def lower_char_def)
qed

text \<open>
  Embedded addresses other than mapped ones are judged as IPv6 addresses: the metadata address behind the NAT64
  prefix 64:ff9b::/96 and as an IPv4-compatible address passes the default policy, its mapped form does not.
\<close>

theorem embedded_metadata_passes:
  "check_addr default_policy host (V6 0 0 0 0 0 0xffff 0xa9fe 0xa9fe) \<noteq> Inr () \<and>
   check_addr default_policy host (V6 0x64 0xff9b 0 0 0 0 0xa9fe 0xa9fe) = Inr () \<and>
   check_addr default_policy host (V6 0 0 0 0 0 0 0xa9fe 0xa9fe) = Inr ()"
  by (simp add: check_addr_def check_v6_def check_v4_def octets_of_def default_policy_def Let_def)

end
