(* ===== verification/Egress_Key.thy ===== *)
theory Egress_Key
  imports Net_Address
begin

text \<open>
  The key the daemon and the egress proxy share, and the credential of a tenant derived from it: \<open>EgressKey\<close> of
  crates/foundation/egress/src/tenant\_key.rs. The message authentication code (crate hmac) is a parameter.
  A slice of a string that cuts a character panics; an operation that may panic returns \<open>None\<close> when it does.
\<close>

section \<open>Bytes\<close>

text \<open>\<open>String::from_utf8\<close>: the well-formed byte sequences of the Unicode standard (its table 3-7).\<close>

definition byte_in :: "nat \<Rightarrow> nat \<Rightarrow> char \<Rightarrow> bool" where
  "byte_in lo hi c \<longleftrightarrow> lo \<le> of_char c \<and> of_char c \<le> hi"

definition utf8_tail :: "char \<Rightarrow> (char \<Rightarrow> bool) list option" where
  "utf8_tail c =
     (let more = byte_in 0x80 0xBF
      in if byte_in 0 0x7F c then Some []
         else if byte_in 0xC2 0xDF c then Some [more]
         else if byte_in 0xE0 0xE0 c then Some [byte_in 0xA0 0xBF, more]
         else if byte_in 0xED 0xED c then Some [byte_in 0x80 0x9F, more]
         else if byte_in 0xE1 0xEF c then Some [more, more]
         else if byte_in 0xF0 0xF0 c then Some [byte_in 0x90 0xBF, more, more]
         else if byte_in 0xF1 0xF3 c then Some [more, more, more]
         else if byte_in 0xF4 0xF4 c then Some [byte_in 0x80 0x8F, more, more]
         else None)"

fun utf8_from :: "(char \<Rightarrow> bool) list \<Rightarrow> string \<Rightarrow> bool" where
  "utf8_from [] [] \<longleftrightarrow> True"
| "utf8_from (p # ps) [] \<longleftrightarrow> False"
| "utf8_from [] (c # s) \<longleftrightarrow> (case utf8_tail c of None \<Rightarrow> False | Some ps \<Rightarrow> utf8_from ps s)"
| "utf8_from (p # ps) (c # s) \<longleftrightarrow> p c \<and> utf8_from ps s"

definition from_utf8 :: "string \<Rightarrow> string option" where
  "from_utf8 bytes = (if utf8_from [] bytes then Some bytes else None)"

text \<open>\<open>from_str_radix\<close> and \<open>parse\<close> of an unsigned integer below a bound: one plus sign may come first.\<close>

definition parse_unsigned :: "nat \<Rightarrow> nat \<Rightarrow> string \<Rightarrow> nat option" where
  "parse_unsigned radix bound s =
     (let ds = (if take 1 s = ''+'' \<and> length s > 1 then tl s else s)
      in if ds \<noteq> [] \<and> list_all (\<lambda>c. digit_value radix c \<noteq> None) ds \<and> digits_value radix ds < bound
         then Some (digits_value radix ds) else None)"

definition hex_byte :: "char \<Rightarrow> string" where
  "hex_byte c = [hex_digit (of_char c div 16), hex_digit (of_char c mod 16)]"

text \<open>
  The loop over the pairs of characters of a text: the outer \<open>None\<close> is the panic of a slice, the inner one a
  pair that is no number.
\<close>

fun hex_pairs :: "string \<Rightarrow> nat list \<Rightarrow> string option option" where
  "hex_pairs text [] = Some (Some [])"
| "hex_pairs text (i # is) =
     (if \<not> is_char_boundary text (i * 2) \<or> \<not> is_char_boundary text (i * 2 + 2) then None
      else case parse_unsigned 16 256 (take 2 (drop (i * 2) text)) of
             None \<Rightarrow> Some None
           | Some v \<Rightarrow> map_option (map_option (\<lambda>bytes. char_of v # bytes)) (hex_pairs text is))"

section \<open>Keys and credentials\<close>

text \<open>The 32 bytes of a key; the code of a message under a key.\<close>

type_synonym egress_key = string
type_synonym mac = "string \<Rightarrow> string \<Rightarrow> string"

definition context_text :: string where
  "context_text = ''kura-egress-tenant:v1:''"

definition from_bytes :: "string \<Rightarrow> (string + egress_key) option" where
  "from_bytes raw =
     (if length raw = 32 then Some (Inr raw)
      else case from_utf8 raw of
             None \<Rightarrow> Some (Inl ''egress tenant key is neither 32 bytes nor hex'')
           | Some decoded \<Rightarrow>
               (let text = trim decoded
                in if length text \<noteq> 64
                   then Some (Inl (''egress tenant key must be 32 bytes or 64 hex characters (got '' @ decimal (length text) @
                     '' characters)''))
                   else case hex_pairs text [0..<32] of
                          None \<Rightarrow> None
                        | Some None \<Rightarrow> Some (Inl ''egress tenant key is not valid hex'')
                        | Some (Some key) \<Rightarrow> Some (Inr key)))"

definition tenant_mac :: "mac \<Rightarrow> egress_key \<Rightarrow> string \<Rightarrow> string" where
  "tenant_mac hmac key tenant = hmac key (context_text @ tenant)"

definition credential :: "mac \<Rightarrow> egress_key \<Rightarrow> string \<Rightarrow> string" where
  "credential hmac key tenant = concat (map hex_byte (tenant_mac hmac key tenant))"

definition verify_credential :: "mac \<Rightarrow> egress_key \<Rightarrow> string \<Rightarrow> string \<Rightarrow> bool option" where
  "verify_credential hmac key tenant presented =
     (if length presented \<noteq> 64 then Some False
      else case hex_pairs presented [0..<32] of
             None \<Rightarrow> None
           | Some None \<Rightarrow> Some False
           | Some (Some bytes) \<Rightarrow> Some (tenant_mac hmac key tenant = bytes))"

section \<open>Reading back what was printed\<close>

lemma hex_digit_value: "n < 16 \<Longrightarrow> digit_value 16 (hex_digit n) = Some n"
  by (auto simp: digit_value_def hex_digit_def of_char_of Let_def)

lemma hex_digit_ascii: "n < 16 \<Longrightarrow> of_char (hex_digit n) < (128 :: nat) \<and> hex_digit n \<noteq> CHR ''+''"
proof -
  assume n: "n < 16"
  have "digit_value 16 CHR ''+'' = None" by code_simp
  with hex_digit_value [OF n] have "hex_digit n \<noteq> CHR ''+''" by auto
  with n show ?thesis by (auto simp: hex_digit_def of_char_of)
qed

lemma byte_digits: "(of_char c :: nat) div 16 < 16 \<and> (of_char c :: nat) mod 16 < 16"
proof -
  have "(of_char c :: nat) < 256" by simp
  then show ?thesis by (simp add: div_less_iff_less_mult)
qed

lemma parse_hex_byte: "parse_unsigned 16 256 (hex_byte c) = Some (of_char c)"
  using byte_digits [of c] hex_digit_ascii [of "of_char c div 16"]
  by (simp add: parse_unsigned_def hex_byte_def hex_digit_value digits_value_def)

lemma hex_text_length: "length (concat (map hex_byte bs)) = 2 * length bs"
  by (induction bs) (simp_all add: hex_byte_def)

lemma hex_text_ascii: "c \<in> set (concat (map hex_byte bs)) \<Longrightarrow> of_char c < (128 :: nat)"
  using byte_digits hex_digit_ascii by (auto simp: hex_byte_def)

lemma ascii_boundary: "\<forall>c \<in> set s. of_char c < (128 :: nat) \<Longrightarrow> i \<le> length s \<Longrightarrow> is_char_boundary s i"
  by (auto simp: is_char_boundary_def)

lemma drop_hex_text: "drop (2 * i) (concat (map hex_byte bs)) = concat (map hex_byte (drop i bs))"
proof (induction i arbitrary: bs)
  case (Suc i)
  then show ?case by (cases bs) (simp_all add: hex_byte_def)
qed simp

lemma hex_pairs_printed:
  "i \<le> length bs \<Longrightarrow> hex_pairs (concat (map hex_byte bs)) [i..<length bs] = Some (Some (drop i bs))"
proof (induction "length bs - i" arbitrary: i)
  case 0
  then show ?case by simp
next
  case (Suc n)
  then have i: "i < length bs" and rec: "hex_pairs (concat (map hex_byte bs)) [Suc i..<length bs] = Some (Some (drop (Suc i) bs))"
    by auto
  have "drop (i * 2) (concat (map hex_byte bs)) = hex_byte (bs ! i) @ concat (map hex_byte (drop (Suc i) bs))"
    using i drop_hex_text [of i bs] by (simp add: mult.commute flip: Cons_nth_drop_Suc)
  then have "take 2 (drop (i * 2) (concat (map hex_byte bs))) = hex_byte (bs ! i)" by (simp add: hex_byte_def)
  moreover have "is_char_boundary (concat (map hex_byte bs)) (i * 2)" "is_char_boundary (concat (map hex_byte bs)) (i * 2 + 2)"
    using i hex_text_ascii by (auto intro!: ascii_boundary simp: hex_text_length simp del: set_concat)
  ultimately show ?case
    using i rec by (simp add: upt_conv_Cons parse_hex_byte Cons_nth_drop_Suc)
qed

text \<open>
  C35. Credentials. With a code of 32 bytes, the credential of a tenant has 64 characters, checking it never panics, and it
  passes for a tenant exactly when the code of that tenant is the code it was made from: always for its own
  tenant, for another one only when the two codes collide.
\<close>

theorem credential_verifies:
  assumes "\<And>m. length (hmac key m) = 32"
  shows "length (credential hmac key tenant) = 64 \<and>
    verify_credential hmac key other (credential hmac key tenant) =
      Some (hmac key (context_text @ other) = hmac key (context_text @ tenant))"
proof -
  let ?code = "hmac key (context_text @ tenant)"
  have "hex_pairs (concat (map hex_byte ?code)) [0..<32] = Some (Some ?code)"
    using hex_pairs_printed [of 0 ?code] assms by simp
  then show ?thesis
    using assms by (simp add: credential_def verify_credential_def tenant_mac_def hex_text_length)
qed

text \<open>A stand-in for a code: the last 32 bytes of key and message.\<close>

definition example_mac :: mac where
  "example_mac key m = drop (length (key @ m)) (replicate 32 CHR 0x00 @ key @ m)"

theorem credential_verifies_witness:
  "verify_credential example_mac (replicate 32 CHR 0x07) ''ten_a'' (credential example_mac (replicate 32 CHR 0x07) ''ten_a'') = Some True \<and>
   verify_credential example_mac (replicate 32 CHR 0x07) ''ten_b'' (credential example_mac (replicate 32 CHR 0x07) ''ten_a'') = Some False"
proof -
  have l: "length (example_mac key m) = 32" for key m by (simp add: example_mac_def)
  have "example_mac (replicate 32 CHR 0x07) (context_text @ ''ten_a'') \<noteq> example_mac (replicate 32 CHR 0x07) (context_text @ ''ten_b'')"
    by code_simp
  with credential_verifies [of example_mac "replicate 32 CHR 0x07" "''ten_a''" "''ten_a''", OF l]
    credential_verifies [of example_mac "replicate 32 CHR 0x07" "''ten_a''" "''ten_b''", OF l]
  show ?thesis by auto
qed

lemma inside_character: "\<not> is_char_boundary (CHR ''a'' # CHR 0xC3 # CHR 0xA9 # s) (Suc (Suc 0))"
  by (simp add: is_char_boundary_def)

text \<open>
  A credential that stops the handler. A presented credential of 64 bytes whose second character takes two bytes
  makes the check panic, under every key and code and for every tenant: it is neither accepted nor refused.
\<close>

theorem split_character_panics:
  "length rest = 61 \<Longrightarrow> verify_credential hmac key tenant (CHR ''a'' # CHR 0xC3 # CHR 0xA9 # rest) = None"
proof -
  have "[0..<32] = 0 # [1..<32::nat]" by (simp add: upt_conv_Cons del: upt_rec_numeral)
  moreover assume "length rest = 61"
  ultimately show ?thesis by (simp add: verify_credential_def inside_character del: upt_rec_numeral)
qed

theorem split_character_panics_witness:
  "from_utf8 (CHR ''a'' # CHR 0xC3 # CHR 0xA9 # replicate 61 CHR ''0'') = Some (CHR ''a'' # CHR 0xC3 # CHR 0xA9 # replicate 61 CHR ''0'') \<and>
   verify_credential example_mac [] ''ten_a'' (CHR ''a'' # CHR 0xC3 # CHR 0xA9 # replicate 61 CHR ''0'') = None"
proof -
  have "utf8_from [] (replicate n CHR ''0'')" for n
    by (induction n) (simp_all add: utf8_tail_def byte_in_def)
  then have "from_utf8 (CHR ''a'' # CHR 0xC3 # CHR 0xA9 # replicate 61 CHR ''0'') = Some (CHR ''a'' # CHR 0xC3 # CHR 0xA9 # replicate 61 CHR ''0'')"
    by (simp add: from_utf8_def utf8_tail_def byte_in_def)
  with split_character_panics [of "replicate 61 CHR ''0''" example_mac "[]" "''ten_a''"] show ?thesis by simp
qed

end
