(* ===== verification/Egress_Proxy.thy ===== *)
theory Egress_Proxy
  imports Egress Egress_Key
begin

text \<open>
  The forward proxy that is the only way out of a tenant container: crates/foundation/egress-proxy/src/lib.rs.
  The decoder of base64, the URL parser, the code of the credentials and the text of a refusal (a derived
  implementation) are parameters. A connection is the sequence of its reads; what the handler does to the
  outside is a list of actions, and the connections of a proxy interleave as steps of a relation.
\<close>

section \<open>Lines and parts\<close>

abbreviation CR :: char where "CR \<equiv> CHR 0x0D"
abbreviation LF :: char where "LF \<equiv> CHR 0x0A"
abbreviation crlf :: string where "crlf \<equiv> [CR, LF]"

text \<open>\<open>split("\\r\\n")\<close>, \<open>split_once\<close> and \<open>rsplit_once\<close> at a one-byte separator.\<close>

fun split_crlf :: "string \<Rightarrow> string list" where
  "split_crlf [] = [[]]"
| "split_crlf (c # s) =
     (if c = CR \<and> take 1 s = [LF] then [] # split_crlf (drop 1 s)
      else case split_crlf s of [] \<Rightarrow> [[c]] | p # ps \<Rightarrow> (c # p) # ps)"

definition split_once :: "char \<Rightarrow> string \<Rightarrow> (string \<times> string) option" where
  "split_once sep s =
     (case dropWhile (\<lambda>c. c \<noteq> sep) s of [] \<Rightarrow> None | _ # after \<Rightarrow> Some (takeWhile (\<lambda>c. c \<noteq> sep) s, after))"

definition rsplit_once :: "char \<Rightarrow> string \<Rightarrow> (string \<times> string) option" where
  "rsplit_once sep s = map_option (\<lambda>(after, before). (rev before, rev after)) (split_once sep (rev s))"

definition eq_ignore_case :: "string \<Rightarrow> string \<Rightarrow> bool" where
  "eq_ignore_case a b \<longleftrightarrow> lower_ascii a = lower_ascii b"

definition starts_with :: "string \<Rightarrow> string \<Rightarrow> bool" where
  "starts_with s p \<longleftrightarrow> take (length p) s = p"

section \<open>Configuration and connections\<close>

definition max_head_bytes :: nat where
  "max_head_bytes = 16 * 1024"

record proxy_config =
  pc_allowed_ports :: "16 word list"
  pc_max_connections :: nat
  pc_resolver :: "string \<Rightarrow> 16 word \<Rightarrow> egress_denial + socket_addr"
  pc_tenant_key :: "egress_key option"
  pc_per_tenant_connections :: nat

definition new_config :: "name_resolver \<Rightarrow> egress_policy \<Rightarrow> proxy_config" where
  "new_config resolve pol =
     \<lparr>pc_allowed_ports = [80, 443], pc_max_connections = 256, pc_resolver = resolve_pinned resolve pol,
      pc_tenant_key = None, pc_per_tenant_connections = 64\<rparr>"

text \<open>A read gives bytes, none at the end of the stream, or fails.\<close>

datatype read_result = Got string | ReadFailed

datatype connect_result = Connected | ConnectFailed string | ConnectTimedOut

datatype proxy_act =
    Record string string
  | Respond nat string string string
  | Dial socket_addr
  | ToClient string
  | ToUpstream string

text \<open>
  What the surroundings answer to one connection: whether the task of the resolver ends, the connection to an
  address, whether the first two writes succeed, what the upstream sends, and how many of the reads of either side the
  copying gets through before the connection ends.
\<close>

record proxy_env =
  en_resolver_ends :: bool
  en_connect :: "socket_addr \<Rightarrow> connect_result"
  en_started :: bool
  en_rest_written :: bool
  en_upstream :: "read_result list"
  en_copied_up :: nat
  en_copied_down :: nat

text \<open>The code outside the repository the proxy calls.\<close>

record proxy_libs =
  pl_base64 :: "string \<Rightarrow> string option"
  pl_url :: url_parser
  pl_hmac :: mac
  pl_denial_text :: "egress_denial \<Rightarrow> string"

section \<open>Tenant slots\<close>

type_synonym tenant_slots = "string \<rightharpoonup> nat"

definition acquire :: "tenant_slots \<Rightarrow> string \<Rightarrow> nat \<Rightarrow> bool \<times> tenant_slots" where
  "acquire open_slots tenant limit =
     (let entry = (case open_slots tenant of None \<Rightarrow> open_slots(tenant \<mapsto> 0) | Some _ \<Rightarrow> open_slots);
          count = the (entry tenant)
      in if max limit 1 \<le> count then (False, entry) else (True, entry(tenant \<mapsto> count + 1)))"

definition drop_slot :: "tenant_slots \<Rightarrow> string \<Rightarrow> tenant_slots" where
  "drop_slot open_slots tenant =
     (case open_slots tenant of
        None \<Rightarrow> open_slots
      | Some count \<Rightarrow> if count - 1 = 0 then open_slots(tenant := None) else open_slots(tenant \<mapsto> count - 1))"

section \<open>Who a request is for\<close>

fun find_authorization :: "string list \<Rightarrow> string option" where
  "find_authorization [] = None"
| "find_authorization (line # ls) =
     (case split_once CHR '':'' line of
        None \<Rightarrow> find_authorization ls
      | Some (name, value) \<Rightarrow>
          if eq_ignore_case (trim name) ''proxy-authorization'' then Some (trim value) else find_authorization ls)"

definition proxy_credentials :: "proxy_libs \<Rightarrow> string \<Rightarrow> (string \<times> string) option" where
  "proxy_credentials libs head =
     Option.bind (find_authorization (tl (split_crlf head))) (\<lambda>value.
     Option.bind (split_once CHR '' '' value) (\<lambda>(scheme, encoded).
       if \<not> eq_ignore_case scheme ''basic'' then None
       else Option.bind (pl_base64 libs (trim encoded)) (\<lambda>decoded.
            Option.bind (from_utf8 decoded) (split_once CHR '':''))))"

definition authenticate_request :: "proxy_libs \<Rightarrow> string \<Rightarrow> egress_key option \<Rightarrow> (string + string option) option" where
  "authenticate_request libs head key =
     (case key of
        None \<Rightarrow> Some (Inr None)
      | Some k \<Rightarrow>
          (case proxy_credentials libs head of
             None \<Rightarrow> Some (Inl ''tenant credential missing'')
           | Some (tenant, password) \<Rightarrow>
               if tenant = [] then Some (Inl ''tenant credential invalid'')
               else map_option (\<lambda>ok. if ok then Inr (Some tenant) else Inl ''tenant credential invalid'')
                      (verify_credential (pl_hmac libs) k tenant password)))"

section \<open>The request head\<close>

fun head_end :: "string \<Rightarrow> nat option" where
  "head_end [] = None"
| "head_end (c # s) = (if take 4 (c # s) = crlf @ crlf then Some 0 else map_option Suc (head_end s))"

datatype head_read = HeadOk string string "read_result list" | HeadErr string | HeadPending

text \<open>The reads end when the client sends nothing more; a head that is not complete by then is pending.\<close>

fun read_head :: "string \<Rightarrow> read_result list \<Rightarrow> head_read" where
  "read_head buffer reads =
     (case head_end buffer of
        Some i \<Rightarrow>
          (case from_utf8 (take (i + 4) buffer) of
             None \<Rightarrow> HeadErr ''request head is not UTF-8''
           | Some head \<Rightarrow> HeadOk head (drop (i + 4) buffer) reads)
      | None \<Rightarrow>
          if length buffer > max_head_bytes then HeadErr ''request head too large''
          else case reads of
                 [] \<Rightarrow> HeadPending
               | ReadFailed # _ \<Rightarrow> HeadErr ''read failed''
               | Got [] # _ \<Rightarrow> HeadErr ''connection closed before a request''
               | Got chunk # others \<Rightarrow> read_head (buffer @ chunk) others)"

declare read_head.simps [simp del]

definition denial_code :: "egress_denial \<Rightarrow> string" where
  "denial_code d =
     (case d of
        Unparseable _ \<Rightarrow> ''unparseable''
      | SchemeNotAllowed _ \<Rightarrow> ''scheme_not_allowed''
      | HostMissing \<Rightarrow> ''host_missing''
      | HostBlocked _ \<Rightarrow> ''host_blocked''
      | AddressBlocked _ _ _ \<Rightarrow> ''address_blocked''
      | Unresolvable _ _ \<Rightarrow> ''unresolvable'')"

definition split_authority :: "string \<Rightarrow> (string \<times> 16 word) option" where
  "split_authority authority =
     Option.bind (rsplit_once CHR '':'' authority) (\<lambda>(host, port).
     Option.bind (parse_unsigned 10 65536 port) (\<lambda>p.
       let h = trim_brackets host in if h = [] then None else Some (h, word_of_nat p)))"

record proxy_target =
  t_method :: string
  t_host :: string
  t_port :: "16 word"
  t_upstream_head :: "string option"

definition hop_by_hop :: "string \<Rightarrow> bool" where
  "hop_by_hop line \<longleftrightarrow>
     (let name = trim (hd (split_on CHR '':'' line))
      in eq_ignore_case name ''proxy-connection'' \<or> eq_ignore_case name ''proxy-authorization'')"

definition origin_form :: "url \<Rightarrow> string" where
  "origin_form u = u_path u @ (case u_query u of None \<Rightarrow> [] | Some q \<Rightarrow> ''?'' @ q)"

definition rewritten_head :: "string \<Rightarrow> string \<Rightarrow> string \<Rightarrow> string list \<Rightarrow> string" where
  "rewritten_head verb origin version ls =
     (verb @ '' '' @ origin @ '' '' @ version @ crlf) @
     concat (map (\<lambda>line. line @ crlf) (filter (\<lambda>line. \<not> hop_by_hop line) ls))"

definition parse_target :: "url_parser \<Rightarrow> string \<Rightarrow> string + proxy_target" where
  "parse_target parse head =
     (let ls = split_crlf head in
      case split_on CHR '' '' (hd ls) of
        [verb, tgt, version] \<Rightarrow>
          if \<not> starts_with version ''HTTP/1.'' then Inl ''only HTTP/1.x is proxied''
          else if eq_ignore_case verb ''CONNECT''
          then (case split_authority tgt of
                  None \<Rightarrow> Inl ''CONNECT needs host:port''
                | Some (host, port) \<Rightarrow> Inr \<lparr>t_method = ''connect'', t_host = host, t_port = port, t_upstream_head = None\<rparr>)
          else (case parse tgt of
                  Inl _ \<Rightarrow> Inl ''a proxied request needs an absolute http:// URL''
                | Inr u \<Rightarrow>
                    if u_scheme u \<noteq> ''http'' then Inl (''scheme '' @ u_scheme u @ '' is not proxied this way'')
                    else (case u_host u of
                            None \<Rightarrow> Inl ''the URL has no host''
                          | Some h \<Rightarrow>
                              if trim_brackets h = [] then Inl ''the URL has no host''
                              else Inr \<lparr>t_method = ''http'', t_host = trim_brackets h,
                                        t_port = (case u_port u of None \<Rightarrow> 80 | Some p \<Rightarrow> p),
                                        t_upstream_head = Some (rewritten_head verb (origin_form u) version (tl ls))\<rparr>))
      | _ \<Rightarrow> Inl ''malformed request line'')"

section \<open>The handler\<close>

definition socket_text :: "socket_addr \<Rightarrow> string" where
  "socket_text sa =
     (case sa_ip sa of
        V4 _ _ _ _ \<Rightarrow> ip_text (sa_ip sa)
      | V6 _ _ _ _ _ _ _ _ \<Rightarrow> ''['' @ ip_text (sa_ip sa) @ '']'') @ '':'' @ decimal (unat (sa_port sa))"

text \<open>The bytes of an answer of the proxy itself.\<close>

definition response_text :: "nat \<Rightarrow> string \<Rightarrow> string \<Rightarrow> string \<Rightarrow> string" where
  "response_text status reason denial body =
     ''HTTP/1.1 '' @ decimal status @ '' '' @ reason @ crlf @ ''Content-Type: text/plain'' @ crlf @
     ''Content-Length: '' @ decimal (length body) @ crlf @ ''Connection: close'' @ crlf @
     (if denial = [] then [] else ''X-Kura-Egress-Denial: '' @ denial @ crlf) @
     (if status = 407 then ''Proxy-Authenticate: Basic realm='' @ [CHR 0x22] @ ''kura-egress'' @ [CHR 0x22] @ crlf else []) @
     crlf @ body"

text \<open>From the first read to the tenant slot: refused with its actions, or admitted with the head and what follows it.\<close>

type_synonym admitted = "string option \<times> string \<times> string \<times> read_result list"

definition handle_admit :: "proxy_libs \<Rightarrow> proxy_config \<Rightarrow> tenant_slots \<Rightarrow> read_result list \<Rightarrow> (proxy_act list + admitted) \<times> tenant_slots" where
  "handle_admit libs cfg slots reads =
     (case read_head [] reads of
        HeadErr reason \<Rightarrow> (Inl [Record ''any'' ''bad_request'', Respond 400 ''Bad Request'' [] reason], slots)
      | HeadPending \<Rightarrow>
          (Inl [Record ''any'' ''head_timeout'', Respond 408 ''Request Timeout'' [] ''request head timed out''], slots)
      | HeadOk head rest later \<Rightarrow>
          (case authenticate_request libs head (pc_tenant_key cfg) of
             None \<Rightarrow> (Inl [], slots)
           | Some (Inl reason) \<Rightarrow>
               (Inl [Record ''any'' ''unauthenticated'',
                     Respond 407 ''Proxy Authentication Required'' ''tenant_credential'' reason], slots)
           | Some (Inr None) \<Rightarrow> (Inr (None, head, rest, later), slots)
           | Some (Inr (Some tenant)) \<Rightarrow>
               (case acquire slots tenant (pc_per_tenant_connections cfg) of
                  (True, slots') \<Rightarrow> (Inr (Some tenant, head, rest, later), slots')
                | (False, slots') \<Rightarrow>
                    (Inl [Record ''any'' ''tenant_over_capacity'',
                          Respond 429 ''Too Many Requests'' ''tenant_over_capacity''
                            ''this tenant has too many connections open''], slots'))))"

text \<open>\<open>copy_bidirectional\<close>, one direction: bytes until the end of the stream or a failure.\<close>

fun received :: "read_result list \<Rightarrow> string list" where
  "received (Got (c # s) # others) = (c # s) # received others"
| "received _ = []"

definition copied :: "proxy_env \<Rightarrow> read_result list \<Rightarrow> proxy_act list" where
  "copied env later =
     map ToUpstream (take (en_copied_up env) (received later)) @
     map ToClient (take (en_copied_down env) (received (en_upstream env)))"

text \<open>The connection is open: the first bytes to either side, then the copying.\<close>

definition handle_open :: "proxy_env \<Rightarrow> proxy_target \<Rightarrow> string \<Rightarrow> read_result list \<Rightarrow> proxy_act list" where
  "handle_open env t rest later =
     (let started = (case t_upstream_head t of
                       None \<Rightarrow> ToClient (''HTTP/1.1 200 Connection Established'' @ crlf @ crlf)
                     | Some head \<Rightarrow> ToUpstream head);
          remainder = (if rest = [] then [] else [ToUpstream rest])
      in if \<not> en_started env then [started, Record (t_method t) ''upstream_failed'']
         else if rest \<noteq> [] \<and> \<not> en_rest_written env then started # remainder @ [Record (t_method t) ''upstream_failed'']
         else started # remainder @ [Record (t_method t) ''allowed''] @ copied env later)"

definition handle_forward :: "proxy_libs \<Rightarrow> proxy_config \<Rightarrow> proxy_env \<Rightarrow> string \<Rightarrow> string \<Rightarrow> read_result list \<Rightarrow> proxy_act list" where
  "handle_forward libs cfg env head rest later =
     (case parse_target (pl_url libs) head of
        Inl reason \<Rightarrow> [Record ''any'' ''bad_request'', Respond 400 ''Bad Request'' [] reason]
      | Inr t \<Rightarrow>
          if t_port t \<notin> set (pc_allowed_ports cfg)
          then [Record (t_method t) ''denied'',
                Respond 403 ''Forbidden'' ''port_not_allowed''
                  (''port '' @ decimal (unat (t_port t)) @ '' is not an allowed egress port'')]
          else if \<not> en_resolver_ends env
          then [Record (t_method t) ''upstream_failed'', Respond 502 ''Bad Gateway'' [] ''resolver failed'']
          else case pc_resolver cfg (t_host t) (t_port t) of
                 Inl denial \<Rightarrow>
                   [Record (t_method t) ''denied'', Respond 403 ''Forbidden'' (denial_code denial) (pl_denial_text libs denial)]
               | Inr address \<Rightarrow>
                   Dial address #
                   (case en_connect env address of
                      ConnectFailed err \<Rightarrow>
                        [Record (t_method t) ''upstream_failed'',
                         Respond 502 ''Bad Gateway'' [] (''connecting to '' @ socket_text address @ '' failed: '' @ err)]
                    | ConnectTimedOut \<Rightarrow>
                        [Record (t_method t) ''upstream_failed'',
                         Respond 504 ''Gateway Timeout'' [] (''connecting to '' @ socket_text address @ '' timed out'')]
                    | Connected \<Rightarrow> handle_open env t rest later))"

section \<open>The proxy\<close>

datatype conn =
    Reading
  | Forwarding "string option" string string "read_result list"
  | Closing "string option"

record proxy_state =
  px_permits :: nat
  px_slots :: tenant_slots
  px_conns :: "nat \<rightharpoonup> conn"
  px_log :: "(nat \<times> proxy_act) list"

definition proxy_start :: "proxy_config \<Rightarrow> proxy_state" where
  "proxy_start cfg =
     \<lparr>px_permits = max (pc_max_connections cfg) 1, px_slots = Map.empty, px_conns = Map.empty, px_log = []\<rparr>"

definition over_capacity :: "proxy_act list" where
  "over_capacity = [Record ''any'' ''over_capacity'', Respond 503 ''Service Unavailable'' [] ''proxy at capacity'']"

fun drop_slot_of :: "string option \<Rightarrow> tenant_slots \<Rightarrow> tenant_slots" where
  "drop_slot_of None slots = slots"
| "drop_slot_of (Some tenant) slots = drop_slot slots tenant"

text \<open>
  One step: a connection is accepted or turned away, its head is read and it is refused or admitted, the
  admitted one is forwarded, and at its end slot and permit are dropped.
\<close>

inductive proxy_step :: "proxy_libs \<Rightarrow> proxy_config \<Rightarrow> proxy_state \<Rightarrow> proxy_state \<Rightarrow> bool"
  for libs cfg where
  accept: "px_conns s i = None \<Longrightarrow> px_permits s = Suc n \<Longrightarrow>
    proxy_step libs cfg s (s\<lparr>px_permits := n, px_conns := (px_conns s)(i \<mapsto> Reading)\<rparr>)"
| turn_away: "px_conns s i = None \<Longrightarrow> px_permits s = 0 \<Longrightarrow>
    proxy_step libs cfg s (s\<lparr>px_log := px_log s @ map (Pair i) over_capacity\<rparr>)"
| refuse: "px_conns s i = Some Reading \<Longrightarrow> handle_admit libs cfg (px_slots s) reads = (Inl acts, slots) \<Longrightarrow>
    proxy_step libs cfg s
      (s\<lparr>px_permits := Suc (px_permits s), px_slots := slots, px_conns := (px_conns s)(i := None),
         px_log := px_log s @ map (Pair i) acts\<rparr>)"
| admit: "px_conns s i = Some Reading \<Longrightarrow> handle_admit libs cfg (px_slots s) reads = (Inr (who, head, rest, later), slots) \<Longrightarrow>
    proxy_step libs cfg s (s\<lparr>px_slots := slots, px_conns := (px_conns s)(i \<mapsto> Forwarding who head rest later)\<rparr>)"
| forward: "px_conns s i = Some (Forwarding who head rest later) \<Longrightarrow>
    proxy_step libs cfg s
      (s\<lparr>px_conns := (px_conns s)(i \<mapsto> Closing who),
         px_log := px_log s @ map (Pair i) (handle_forward libs cfg env head rest later)\<rparr>)"
| finish: "px_conns s i = Some (Closing who) \<Longrightarrow>
    proxy_step libs cfg s
      (s\<lparr>px_permits := Suc (px_permits s), px_slots := drop_slot_of who (px_slots s), px_conns := (px_conns s)(i := None)\<rparr>)"

definition proxy_reachable :: "proxy_libs \<Rightarrow> proxy_config \<Rightarrow> proxy_state \<Rightarrow> bool" where
  "proxy_reachable libs cfg s \<longleftrightarrow> (proxy_step libs cfg)\<^sup>*\<^sup>* (proxy_start cfg) s"



section \<open>Lines\<close>

lemma split_crlf_ne [simp]: "split_crlf s \<noteq> []"
  by (induction s rule: split_crlf.induct) (auto split: list.splits)

lemma split_crlf_append: "split_crlf (a @ crlf @ b) = split_crlf a @ split_crlf b"
proof (induction a rule: split_crlf.induct)
  case (2 c s)
  show ?case
  proof (cases "c = CR \<and> take 1 s = [LF]")
    case True
    then obtain r where "s = LF # r" by (cases s) auto
    with 2(1) True show ?thesis by simp
  next
    case False
    then have "\<not> (c = CR \<and> take 1 (s @ crlf @ b) = [LF])" by (cases s) auto
    then have "split_crlf ((c # s) @ crlf @ b) = (case split_crlf (s @ crlf @ b) of [] \<Rightarrow> [[c]] | p # ps \<Rightarrow> (c # p) # ps)"
      unfolding append_Cons split_crlf.simps(2) by (rule if_not_P)
    also have "\<dots> = split_crlf (c # s) @ split_crlf b"
      using False 2(2) split_crlf_ne [of s] by (cases "split_crlf s") auto
    finally show ?thesis .
  qed
qed simp

lemma split_crlf_head: "take 1 (hd (split_crlf s)) = [LF] \<Longrightarrow> take 1 s = [LF]"
  by (cases s) (auto split: if_splits list.splits)

lemma split_crlf_pieces: "p \<in> set (split_crlf s) \<Longrightarrow> split_crlf p = [p]"
proof (induction s arbitrary: p rule: split_crlf.induct)
  case (2 c s)
  show ?case
  proof (cases "c = CR \<and> take 1 s = [LF]")
    case True
    with 2 show ?thesis by (auto simp del: One_nat_def)
  next
    case False
    obtain q qs where q: "split_crlf s = q # qs" using split_crlf_ne [of s] by (cases "split_crlf s") auto
    with 2(3) False have p: "p = c # q \<or> p \<in> set qs" by auto
    have "split_crlf (c # q) = [c # q]"
      using False 2(2) [of q] q split_crlf_head [of s] by (auto simp del: One_nat_def)
    with p 2(2) [of p] False q show ?thesis by auto
  qed
qed auto

lemma split_crlf_plain: "CR \<notin> set s \<Longrightarrow> split_crlf s = [s]"
  by (induction s rule: split_crlf.induct) auto

lemma split_crlf_lines: "\<forall>l \<in> set ls. split_crlf l = [l] \<Longrightarrow> split_crlf (concat (map (\<lambda>l. l @ crlf) ls)) = ls @ [[]]"
proof (induction ls)
  case (Cons l ls)
  then show ?case using split_crlf_append [of l "concat (map (\<lambda>l. l @ crlf) ls)"] by simp
qed simp

lemma split_on_pieces: "p \<in> set (split_on c s) \<Longrightarrow> set p \<subseteq> set s"
  by (induction s arbitrary: p) (force split: if_splits list.splits)+

section \<open>The head that is read\<close>

lemma head_end_at: "head_end s = Some i \<Longrightarrow> take (i + 4) s = take i s @ crlf @ crlf"
proof (induction s arbitrary: i)
  case (Cons c s)
  show ?case
  proof (cases "take 4 (c # s) = crlf @ crlf")
    case True
    with Cons.prems show ?thesis by simp
  next
    case False
    with Cons.prems obtain j where j: "head_end s = Some j" "i = Suc j" by auto
    have "Suc j + 4 = Suc (j + 4)" by simp
    with Cons.IH [OF j(1)] j(2) show ?thesis by (simp only: take_Suc_Cons append_Cons)
  qed
qed simp

lemma read_head_ok:
  "read_head buffer reads = HeadOk head rest later \<Longrightarrow> \<exists>h. head = h @ crlf @ crlf"
proof (induction buffer reads rule: read_head.induct)
  case (1 buffer reads)
  show ?case
  proof (cases "head_end buffer")
    case (Some i)
    with 1(2) have "head = take (i + 4) buffer"
      by (subst (asm) read_head.simps) (auto simp: from_utf8_def split: if_splits)
    with head_end_at [OF Some] show ?thesis by auto
  next
    case None
    with 1 show ?thesis by (subst (asm) (2) read_head.simps) (auto split: if_splits list.splits read_result.splits)
  qed
qed

lemma read_head_bounded:
  assumes "\<And>c. Got c \<in> set reads \<Longrightarrow> length c \<le> 2048"
    and "length buffer \<le> max_head_bytes + 2048" and "read_head buffer reads = HeadOk head rest later"
  shows "length (head @ rest) \<le> max_head_bytes + 2048"
  using assms
proof (induction buffer reads rule: read_head.induct)
  case (1 buffer reads)
  show ?case
  proof (cases "head_end buffer")
    case (Some i)
    with 1(4) have "head @ rest = buffer"
      by (subst (asm) read_head.simps) (auto simp: from_utf8_def split: if_splits)
    with 1(3) show ?thesis by simp
  next
    case None
    then show ?thesis
      using 1(4) unfolding read_head.simps [of buffer reads]
      apply (auto split: if_splits list.splits read_result.splits)
      subgoal premises prems for rs c cs
        using prems 1(1) [OF None _ _ _ , of "Got (c # cs)" rs "c # cs" c cs] 1(2) by fastforce
      done
  qed
qed

section \<open>What the upstream receives\<close>

definition upstream_bytes :: "proxy_act list \<Rightarrow> string" where
  "upstream_bytes acts = concat (map (\<lambda>a. case a of ToUpstream s \<Rightarrow> s | _ \<Rightarrow> []) acts)"

lemma upstream_bytes_simps [simp]:
  "upstream_bytes [] = []"
  "upstream_bytes (a # acts) = (case a of ToUpstream s \<Rightarrow> s | _ \<Rightarrow> []) @ upstream_bytes acts"
  "upstream_bytes (xs @ acts) = upstream_bytes xs @ upstream_bytes acts"
  by (simp_all add: upstream_bytes_def)

lemma upstream_bytes_maps [simp]: "upstream_bytes (map ToUpstream ss) = concat ss" "upstream_bytes (map ToClient ss) = []"
  by (induction ss) simp_all

lemma parse_target_head:
  assumes "parse_target parse head = Inr t" and "t_upstream_head t = Some up"
  obtains verb tgt version u where "split_on CHR '' '' (hd (split_crlf head)) = [verb, tgt, version]" and "parse tgt = Inr u"
    and "up = rewritten_head verb (origin_form u) version (tl (split_crlf head))"
  using assms unfolding parse_target_def Let_def
  by (auto split: list.splits if_splits sum.splits option.splits)


lemma one_line: "split_crlf s = [s] \<longleftrightarrow> (\<forall>a b. s \<noteq> a @ crlf @ b)"
proof
  assume s: "split_crlf s = [s]"
  show "\<forall>a b. s \<noteq> a @ crlf @ b"
  proof (intro allI notI)
    fix a b assume "s = a @ crlf @ b"
    with s have "split_crlf a @ split_crlf b = [s]" by (metis split_crlf_append)
    then show False using split_crlf_ne [of a] split_crlf_ne [of b] by (cases "split_crlf a"; cases "split_crlf b") auto
  qed
next
  assume "\<forall>a b. s \<noteq> a @ crlf @ b"
  then show "split_crlf s = [s]"
  proof (induction s rule: split_crlf.induct)
    case (2 c s)
    have "\<not> (c = CR \<and> take 1 s = [LF])"
      using 2(3) [THEN spec, THEN spec, of "[]" "drop 1 s"] by (cases s) auto
    moreover have "\<forall>a b. s \<noteq> a @ crlf @ b"
      using 2(3) by (metis append_Cons)
    ultimately show ?case using 2(2) by simp
  qed simp
qed

lemma one_line_space:
  assumes "split_crlf a = [a]" and "split_crlf b = [b]"
  shows "split_crlf (a @ '' '' @ b) = [a @ '' '' @ b]"
  unfolding one_line
proof (intro allI notI)
  fix x y assume "a @ '' '' @ b = x @ crlf @ y"
  then consider us where "a = x @ us" "us @ '' '' @ b = crlf @ y" | us where "x = a @ us" "'' '' @ b = us @ crlf @ y"
    by (auto simp: append_eq_append_conv2)
  then show False
  proof cases
    case 1
    then obtain us' where "a = x @ crlf @ us'" by (cases us; cases "tl us") auto
    with assms(1) show False unfolding one_line by blast
  next
    case 2
    then obtain us' where "b = us' @ crlf @ y" by (cases us) auto
    with assms(2) show False unfolding one_line by blast
  qed
qed

lemma join_split: "join_on c (split_on c s) = s"
proof (induction s)
  case (Cons x s)
  obtain p ps where "split_on c s = p # ps" using split_on_ne [of c s] by (cases "split_on c s") auto
  with Cons show ?case by (cases ps) auto
qed simp

lemma rewritten_line:
  assumes "CR \<notin> set origin" and "split_crlf line = [line]" and "split_on CHR '' '' line = [verb, tgt, version]"
  shows "split_crlf (verb @ '' '' @ origin @ '' '' @ version) = [verb @ '' '' @ origin @ '' '' @ version]"
proof -
  have line: "line = verb @ '' '' @ tgt @ '' '' @ version"
    using join_split [of "CHR '' ''" line] assms(3) by simp
  have "split_crlf verb = [verb]" "split_crlf version = [version]"
    using assms(2) unfolding line one_line by (metis append.assoc)+
  moreover have "split_crlf origin = [origin]" using assms(1) by (rule split_crlf_plain)
  ultimately show ?thesis by (simp add: one_line_space del: split_crlf.simps append_Cons)
qed

lemma no_name_kept: "\<not> hop_by_hop []"
  by (simp add: hop_by_hop_def eq_ignore_case_def lower_ascii_def)

text \<open>
  The head that is forwarded. When the URL parser leaves no carriage return in a path or query, the header lines the
  upstream receives in the rewritten head are those of the request in their order without the ones named
  proxy-connection or proxy-authorization, and one empty line more; no line of it names the proxy's credential.
\<close>

theorem forwarded_head_exact:
  assumes "\<And>s u. parse s = Inr u \<Longrightarrow> CR \<notin> set (origin_form u)"
    and "parse_target parse head = Inr t" and "t_upstream_head t = Some up"
  shows "tl (split_crlf up) = filter (\<lambda>line. \<not> hop_by_hop line) (tl (split_crlf head)) @ [[]] \<and>
    list_all (\<lambda>line. \<not> hop_by_hop line) (tl (split_crlf up))"
proof -
  let ?kept = "filter (\<lambda>line. \<not> hop_by_hop line) (tl (split_crlf head))"
  obtain verb tgt version u where parts: "split_on CHR '' '' (hd (split_crlf head)) = [verb, tgt, version]" "parse tgt = Inr u"
    and up: "up = rewritten_head verb (origin_form u) version (tl (split_crlf head))"
    using parse_target_head [OF assms(2,3)] .
  let ?first = "verb @ '' '' @ origin_form u @ '' '' @ version"
  have "split_crlf (hd (split_crlf head)) = [hd (split_crlf head)]" by (rule split_crlf_pieces [of _ head]) simp
  from rewritten_line [OF assms(1) [OF parts(2)] this parts(1)] have "split_crlf ?first = [?first]" .
  moreover have "split_crlf (concat (map (\<lambda>line. line @ crlf) ?kept)) = ?kept @ [[]]"
  proof (rule split_crlf_lines, rule ballI)
    fix l assume "l \<in> set ?kept"
    then have "l \<in> set (split_crlf head)" by (cases "split_crlf head") auto
    then show "split_crlf l = [l]" by (rule split_crlf_pieces)
  qed
  moreover have "up = ?first @ crlf @ concat (map (\<lambda>line. line @ crlf) ?kept)"
    unfolding up rewritten_head_def by simp
  then have "split_crlf up = split_crlf ?first @ split_crlf (concat (map (\<lambda>line. line @ crlf) ?kept))"
    by (simp only: split_crlf_append)
  ultimately have "split_crlf up = ?first # ?kept @ [[]]" by simp
  then show ?thesis by (simp add: list_all_iff no_name_kept)
qed

text \<open>
  The bytes that are forwarded. The rewritten head of a plain request ends in three line ends where a request has
  two, and every byte after the first head follows unchanged: the upstream reads a body that starts two bytes
  early, and a second request on the connection reaches it with the proxy credential it carries.
\<close>

theorem upstream_bytes_exact:
  assumes "read_head [] reads = HeadOk head rest later" and "parse_target parse head = Inr t" and "t_upstream_head t = Some up"
    and "en_started env" and "rest = [] \<or> en_rest_written env"
  shows "\<exists>p. up = p @ crlf @ crlf @ crlf \<and>
    upstream_bytes (handle_open env t rest later) = p @ crlf @ crlf @ crlf @ rest @ concat (take (en_copied_up env) (received later))"
proof -
  obtain h where "head = h @ crlf @ crlf @ []" using read_head_ok [OF assms(1)] by auto
  then have "split_crlf head = split_crlf h @ [[], []]" by (simp only: split_crlf_append) simp
  then have tail: "tl (split_crlf head) = tl (split_crlf h) @ [[], []]" by simp
  obtain verb tgt version u where up: "up = rewritten_head verb (origin_form u) version (tl (split_crlf head))"
    using parse_target_head [OF assms(2,3)] .
  let ?p = "(verb @ '' '' @ origin_form u @ '' '' @ version) @
    concat (map (\<lambda>line. crlf @ line) (filter (\<lambda>line. \<not> hop_by_hop line) (tl (split_crlf h))))"
  have "crlf @ concat (map (\<lambda>line. line @ crlf) ls) = concat (map (\<lambda>line. crlf @ line) ls) @ crlf" for ls :: "string list"
    by (induction ls) auto
  then have "up = ?p @ crlf @ crlf @ crlf"
    unfolding up tail rewritten_head_def by (simp add: no_name_kept)
  moreover have "upstream_bytes (handle_open env t rest later) = up @ rest @ concat (take (en_copied_up env) (received later))"
    using assms(3-5) by (auto simp: handle_open_def copied_def)
  ultimately show ?thesis by (intro exI [of _ ?p]) simp
qed




section \<open>What the proxy dials\<close>

text \<open>
  The contract between the proxy and the resolver it is configured with: an address comes back only when it is
  acceptable for the name.
\<close>

locale pinning =
  fixes resolver :: "string \<Rightarrow> 16 word \<Rightarrow> egress_denial + socket_addr"
    and ok :: "string \<Rightarrow> ip_addr \<Rightarrow> bool"
  assumes pinned_ok: "resolver name port = Inr sa \<Longrightarrow> ok name (sa_ip sa)"
begin

lemma forward_dials:
  assumes "pc_resolver cfg = resolver" and "Dial sa \<in> set (handle_forward libs cfg env head rest later)"
  shows "\<exists>t. parse_target (pl_url libs) head = Inr t \<and> t_port t \<in> set (pc_allowed_ports cfg) \<and>
    resolver (t_host t) (t_port t) = Inr sa \<and> ok (t_host t) (sa_ip sa)"
proof -
  have quiet: "Dial sa \<notin> set (handle_open env t rest later)" for t
    by (auto simp: handle_open_def copied_def Let_def split: option.splits)
  from assms obtain t where "parse_target (pl_url libs) head = Inr t" "t_port t \<in> set (pc_allowed_ports cfg)"
    "resolver (t_host t) (t_port t) = Inr sa"
    unfolding handle_forward_def by (auto simp: quiet split: sum.splits if_splits connect_result.splits)
  with pinned_ok show ?thesis by blast
qed

end

interpretation policy_resolver: pinning "resolve_pinned resolve pol"
  "\<lambda>name ip. permitted pol ip \<and> \<not> is_hostname_blocked pol (lower_ascii (trim_brackets (trim name)))" for resolve pol
proof
  fix name port sa
  assume "resolve_pinned resolve pol name port = Inr sa"
  from resolve_pinned_cases [OF this]
  show "permitted pol (sa_ip sa) \<and> \<not> is_hostname_blocked pol (lower_ascii (trim_brackets (trim name)))" by auto
qed

lemma admit_refused: "handle_admit libs cfg slots reads = (Inl acts, slots') \<Longrightarrow> Dial sa \<notin> set acts"
  by (auto simp: handle_admit_def split: head_read.splits option.splits sum.splits prod.splits bool.splits)

lemma admit_authentic:
  "handle_admit libs cfg slots reads = (Inr (who, head, rest, later), slots') \<Longrightarrow>
     authenticate_request libs head (pc_tenant_key cfg) = Some (Inr who)"
  by (auto simp: handle_admit_def split: head_read.splits option.splits sum.splits prod.splits bool.splits)

definition dial_accounted :: "proxy_libs \<Rightarrow> proxy_config \<Rightarrow> name_resolver \<Rightarrow> egress_policy \<Rightarrow> socket_addr \<Rightarrow> bool" where
  "dial_accounted libs cfg resolve pol sa \<longleftrightarrow>
     (\<exists>head who t. authenticate_request libs head (pc_tenant_key cfg) = Some (Inr who) \<and> parse_target (pl_url libs) head = Inr t \<and>
        t_port t \<in> set (pc_allowed_ports cfg) \<and> resolve_pinned resolve pol (t_host t) (t_port t) = Inr sa \<and>
        permitted pol (sa_ip sa) \<and> \<not> is_hostname_blocked pol (lower_ascii (trim_brackets (trim (t_host t)))))"

definition dials_inv :: "proxy_libs \<Rightarrow> proxy_config \<Rightarrow> name_resolver \<Rightarrow> egress_policy \<Rightarrow> proxy_state \<Rightarrow> bool" where
  "dials_inv libs cfg resolve pol s \<longleftrightarrow>
     (\<forall>i who head rest later. px_conns s i = Some (Forwarding who head rest later) \<longrightarrow>
        authenticate_request libs head (pc_tenant_key cfg) = Some (Inr who)) \<and>
     (\<forall>i sa. (i, Dial sa) \<in> set (px_log s) \<longrightarrow> dial_accounted libs cfg resolve pol sa)"

lemma dials_step:
  assumes "proxy_step libs cfg s s'" and "pc_resolver cfg = resolve_pinned resolve pol" and inv: "dials_inv libs cfg resolve pol s"
  shows "dials_inv libs cfg resolve pol s'"
  using assms(1)
proof cases
  case (forward i who head rest later env)
  have "dial_accounted libs cfg resolve pol sa" if "Dial sa \<in> set (handle_forward libs cfg env head rest later)" for sa
    using policy_resolver.forward_dials [OF assms(2) that] inv forward(2) unfolding dials_inv_def dial_accounted_def by blast
  with forward inv show ?thesis by (auto simp: dials_inv_def)
qed (use inv in \<open>auto simp: dials_inv_def over_capacity_def dest: admit_refused admit_authentic\<close>)

lemma dials_reachable:
  assumes "(proxy_step libs cfg)\<^sup>*\<^sup>* (proxy_start cfg) s" and "pc_resolver cfg = resolve_pinned resolve pol"
  shows "dials_inv libs cfg resolve pol s"
  using assms(1)
proof (induction rule: rtranclp_induct)
  case base
  then show ?case by (simp add: proxy_start_def dials_inv_def)
next
  case (step s s')
  from dials_step [OF step.hyps(2) assms(2) step.IH] show ?case .
qed

lemma authentic_credential:
  assumes "authenticate_request libs head (Some k) = Some (Inr who)"
  shows "\<exists>tenant password. who = Some tenant \<and> tenant \<noteq> [] \<and> proxy_credentials libs head = Some (tenant, password) \<and>
    verify_credential (pl_hmac libs) k tenant password = Some True"
  using assms by (auto simp: authenticate_request_def split: option.splits if_splits prod.splits)

text \<open>
  C5. Where the proxy connects. With the resolver of a policy, every address any connection of the proxy dials, in
  every interleaving of connections, is one the policy permits: it is the pinned answer for the host and port of
  a parsed request, the port is on the allow list and the host is not on the blocklist; with a tenant key the
  request carried the verified credential of a named tenant.
\<close>

theorem proxy_only_dials_permitted:
  assumes "proxy_reachable libs cfg s" and "pc_resolver cfg = resolve_pinned resolve pol" and "(i, Dial sa) \<in> set (px_log s)"
  shows "permitted pol (sa_ip sa) \<and>
    (\<exists>head t. parse_target (pl_url libs) head = Inr t \<and> t_port t \<in> set (pc_allowed_ports cfg) \<and>
       resolve_pinned resolve pol (t_host t) (t_port t) = Inr sa \<and>
       \<not> is_hostname_blocked pol (lower_ascii (trim_brackets (trim (t_host t)))) \<and>
       (pc_tenant_key cfg = None \<or>
        (\<exists>k tenant password. pc_tenant_key cfg = Some k \<and> tenant \<noteq> [] \<and> proxy_credentials libs head = Some (tenant, password) \<and>
           verify_credential (pl_hmac libs) k tenant password = Some True)))"
proof -
  have "dial_accounted libs cfg resolve pol sa"
    using dials_reachable [of libs cfg s resolve pol] assms unfolding proxy_reachable_def dials_inv_def by blast
  then obtain head who t where d: "authenticate_request libs head (pc_tenant_key cfg) = Some (Inr who)"
    "parse_target (pl_url libs) head = Inr t" "t_port t \<in> set (pc_allowed_ports cfg)"
    "resolve_pinned resolve pol (t_host t) (t_port t) = Inr sa" "permitted pol (sa_ip sa)"
    "\<not> is_hostname_blocked pol (lower_ascii (trim_brackets (trim (t_host t))))"
    unfolding dial_accounted_def by blast
  moreover have "pc_tenant_key cfg = None \<or>
      (\<exists>k tenant password. pc_tenant_key cfg = Some k \<and> tenant \<noteq> [] \<and> proxy_credentials libs head = Some (tenant, password) \<and>
         verify_credential (pl_hmac libs) k tenant password = Some True)"
    using authentic_credential [of libs head _ who] d(1) by (cases "pc_tenant_key cfg") (simp, metis)
  ultimately show ?thesis by blast
qed

section \<open>Slots\<close>

fun holder :: "conn \<Rightarrow> string option" where
  "holder Reading = None"
| "holder (Forwarding who _ _ _) = who"
| "holder (Closing who) = who"

definition held_by :: "(nat \<rightharpoonup> conn) \<Rightarrow> string \<Rightarrow> nat set" where
  "held_by conns tenant = {i. Option.bind (conns i) holder = Some tenant}"

definition slot_count :: "tenant_slots \<Rightarrow> string \<Rightarrow> nat" where
  "slot_count slots tenant = (case slots tenant of None \<Rightarrow> 0 | Some n \<Rightarrow> n)"

definition slots_match :: "nat \<Rightarrow> (nat \<rightharpoonup> conn) \<Rightarrow> tenant_slots \<Rightarrow> bool" where
  "slots_match limit conns slots \<longleftrightarrow>
     (\<forall>tenant. slots tenant \<noteq> Some 0 \<and> slot_count slots tenant = card (held_by conns tenant) \<and> card (held_by conns tenant) \<le> max limit 1)"

definition slots_inv :: "proxy_config \<Rightarrow> proxy_state \<Rightarrow> bool" where
  "slots_inv cfg s \<longleftrightarrow>
     finite (dom (px_conns s)) \<and> px_permits s + card (dom (px_conns s)) = max (pc_max_connections cfg) 1 \<and>
     slots_match (pc_per_tenant_connections cfg) (px_conns s) (px_slots s)"

lemma held_dom: "held_by conns tenant \<subseteq> dom conns"
  by (auto simp: held_by_def bind_eq_Some_conv)

lemma held_same: "Option.bind (conns i) holder = Option.bind c holder \<Longrightarrow> held_by (conns(i := c)) = held_by conns"
  by (auto simp: held_by_def fun_eq_iff)

lemma held_more:
  assumes "Option.bind (conns i) holder = None" and "Option.bind c holder = Some w"
  shows "i \<notin> held_by conns w" and "held_by (conns(i := c)) = (held_by conns)(w := insert i (held_by conns w))"
  using assms by (auto simp: held_by_def fun_eq_iff)

lemma held_less:
  assumes "Option.bind (conns i) holder = Some w"
  shows "i \<in> held_by conns w" and "held_by (conns(i := None)) = (held_by conns)(w := held_by conns w - {i})"
  using assms by (auto simp: held_by_def fun_eq_iff)

lemma match_same:
  "Option.bind (conns i) holder = Option.bind c holder \<Longrightarrow> slots_match limit (conns(i := c)) slots = slots_match limit conns slots"
  by (simp add: slots_match_def held_same)

lemma acquire_slots:
  assumes "acquire slots tenant limit = (ok, slots')" and "slots tenant \<noteq> Some 0"
  shows "if ok then slot_count slots tenant < max limit 1 \<and> slots' = slots(tenant \<mapsto> Suc (slot_count slots tenant)) else slots' = slots"
  using assms by (auto simp: acquire_def slot_count_def Let_def split: option.splits if_splits)

lemma match_acquire:
  assumes "slots_match limit conns slots" and "acquire slots w limit = (True, slots')"
    and "Option.bind (conns i) holder = None" and "Option.bind c holder = Some w" and "finite (dom conns)"
  shows "slots_match limit (conns(i := c)) slots'"
proof -
  have a: "slot_count slots w < max limit 1" "slots' = slots(w \<mapsto> Suc (slot_count slots w))"
    using acquire_slots [OF assms(2)] assms(1) by (auto simp: slots_match_def)
  have "finite (held_by conns w)" using assms(5) held_dom finite_subset by blast
  with a held_more [of conns i c w] assms show ?thesis by (auto simp: slots_match_def slot_count_def)
qed

lemma match_drop:
  assumes "slots_match limit conns slots" and "Option.bind (conns i) holder = who" and "finite (dom conns)"
  shows "slots_match limit (conns(i := None)) (drop_slot_of who slots)"
proof (cases who)
  case None
  with assms show ?thesis by (simp add: match_same)
next
  case (Some w)
  note less = held_less [of conns i w]
  have fin: "finite (held_by conns w)" using assms(3) held_dom finite_subset by blast
  with less Some assms(2) have "0 < card (held_by conns w)" by (auto simp: card_gt_0_iff)
  then obtain n where n: "slots w = Some (Suc n)" "card (held_by conns w) = Suc n"
    using assms(1) unfolding slots_match_def slot_count_def by (metis gr0_conv_Suc less_nat_zero_code option.case(1) option.case(2) option.exhaust)
  with assms(1) have bound: "Suc n \<le> max limit 1" unfolding slots_match_def by metis
  from n have "card (held_by conns w - {i}) = n" using less Some assms(2) fin by simp
  then have "slot_count (drop_slot slots w) = (slot_count slots)(w := n) \<and> (\<forall>t. drop_slot slots w t \<noteq> Some 0)"
    using n(1) assms(1) by (auto simp: drop_slot_def slot_count_def fun_eq_iff slots_match_def)
  with \<open>card (held_by conns w - {i}) = n\<close> n less Some assms Suc_leD [OF bound] show ?thesis
    by (auto simp: slots_match_def slot_count_def)
qed

lemma admit_slots:
  assumes "handle_admit libs cfg slots reads = (r, slots')" and "\<forall>w. slots w \<noteq> Some 0"
  shows "(\<exists>w x. r = Inr (Some w, x) \<and> acquire slots w (pc_per_tenant_connections cfg) = (True, slots')) \<or>
    (\<nexists>w x. r = Inr (Some w, x)) \<and> slots' = slots"
proof -
  have "slots' = slots" if "acquire slots w (pc_per_tenant_connections cfg) = (False, slots')" for w
    using acquire_slots [OF that] assms(2) by simp
  with assms(1) show ?thesis
    by (auto simp: handle_admit_def split: head_read.splits option.splits sum.splits prod.splits bool.splits)
qed

lemma slots_step:
  assumes "proxy_step libs cfg s s'" and inv: "slots_inv cfg s"
  shows "slots_inv cfg s'"
  using assms(1)
proof cases
  case (accept i n)
  with inv show ?thesis by (auto simp: slots_inv_def match_same domIff card_insert_if)
next
  case (turn_away i)
  with inv show ?thesis by (simp add: slots_inv_def)
next
  case (refuse i reads acts slots)
  with inv have "slots = px_slots s" using admit_slots [OF refuse(3)] by (auto simp: slots_inv_def slots_match_def)
  moreover have "i \<in> dom (px_conns s)" using refuse by auto
  moreover from this inv have "0 < card (dom (px_conns s))" by (auto simp: slots_inv_def card_gt_0_iff)
  ultimately show ?thesis
    using refuse inv by (auto simp: slots_inv_def match_same)
next
  case (admit i reads who head rest later slots)
  then have "slots_match (pc_per_tenant_connections cfg) ((px_conns s)(i \<mapsto> Forwarding who head rest later)) slots"
  proof (cases who)
    case None
    with admit inv show ?thesis using admit_slots [OF admit(3)] by (auto simp: slots_inv_def slots_match_def held_same)
  next
    case (Some w)
    with admit inv show ?thesis
      using admit_slots [OF admit(3)] by (auto simp: slots_inv_def slots_match_def [of _ _ "px_slots s"] intro!: match_acquire)
  qed
  with admit inv show ?thesis by (auto simp: slots_inv_def insert_absorb domI)
next
  case (forward i who head rest later env)
  with inv show ?thesis by (auto simp: slots_inv_def match_same insert_absorb domI)
next
  case (finish i who)
  then have "i \<in> dom (px_conns s)" by auto
  moreover from this inv have "0 < card (dom (px_conns s))" by (auto simp: slots_inv_def card_gt_0_iff)
  ultimately show ?thesis
    using finish inv match_drop [of "pc_per_tenant_connections cfg" "px_conns s" "px_slots s" i who]
    by (auto simp: slots_inv_def)
qed

text \<open>
  C14. Slots of the proxy. In every reachable state at most \<open>max_connections\<close> connections are served and at most
  \<open>per_tenant_connections\<close> of one tenant (one where the configuration says zero), and when no connection is
  left every permit and every slot has been given back.
\<close>

theorem proxy_slots_bounded:
  assumes "proxy_reachable libs cfg s"
  shows "card (dom (px_conns s)) \<le> max (pc_max_connections cfg) 1 \<and>
    card (held_by (px_conns s) tenant) \<le> max (pc_per_tenant_connections cfg) 1 \<and>
    (px_conns s \<noteq> Map.empty \<or> px_permits s = max (pc_max_connections cfg) 1 \<and> px_slots s = Map.empty)"
proof -
  from assms have inv: "slots_inv cfg s"
    unfolding proxy_reachable_def
  proof (induction rule: rtranclp_induct)
    case base
    then show ?case by (simp add: slots_inv_def slots_match_def proxy_start_def held_by_def slot_count_def)
  qed (rule slots_step)
  moreover have "px_slots s = Map.empty" if "px_conns s = Map.empty"
  proof
    fix w
    have "card (held_by (px_conns s) w) = 0" using that by (simp add: held_by_def)
    with inv have "slot_count (px_slots s) w = 0 \<and> px_slots s w \<noteq> Some 0" by (simp add: slots_inv_def slots_match_def)
    then show "px_slots s w = None" by (auto simp: slot_count_def split: option.splits)
  qed
  ultimately show ?thesis by (auto simp: slots_inv_def slots_match_def)
qed

section \<open>One connection\<close>

definition example_url :: url_parser where
  "example_url s =
     (if s = ''http://www.example/''
      then Inr \<lparr>u_text = s, u_scheme = ''http'', u_host = Some ''www.example'', u_port = None, u_path = ''/'', u_query = None\<rparr>
      else Inl ''relative URL without a base'')"

definition example_head :: string where
  "example_head = ''POST http://www.example/ HTTP/1.1'' @ crlf @ ''Host: www.example'' @ crlf @ ''Proxy-Authorization: Basic x'' @ crlf @
     ''Content-Length: 4'' @ crlf @ crlf"

definition example_upstream :: string where
  "example_upstream = ''POST / HTTP/1.1'' @ crlf @ ''Host: www.example'' @ crlf @ ''Content-Length: 4'' @ crlf @ crlf @ crlf"

definition example_target :: proxy_target where
  "example_target = \<lparr>t_method = ''http'', t_host = ''www.example'', t_port = 80, t_upstream_head = Some example_upstream\<rparr>"

lemma example_lines:
  "split_crlf example_head =
     [''POST http://www.example/ HTTP/1.1'', ''Host: www.example'', ''Proxy-Authorization: Basic x'', ''Content-Length: 4'', [], []]"
  by (simp add: example_head_def)

lemma trim_header_names:
  "trim ''Host'' = ''Host''" "trim ''Proxy-Authorization'' = ''Proxy-Authorization''" "trim ''Content-Length'' = ''Content-Length''"
  by (rule trim_visible; simp add: visible_def)+

lemma example_hops:
  "\<not> hop_by_hop ''Host: www.example''" "hop_by_hop ''Proxy-Authorization: Basic x''" "\<not> hop_by_hop ''Content-Length: 4''"
proof -
  have "lower_ascii ''Host'' = ''host''" "lower_ascii ''Proxy-Authorization'' = ''proxy-authorization''"
    "lower_ascii ''Content-Length'' = ''content-length''" "lower_ascii ''proxy-authorization'' = ''proxy-authorization''"
    "lower_ascii ''proxy-connection'' = ''proxy-connection''" by code_simp+
  then show "\<not> hop_by_hop ''Host: www.example''" "hop_by_hop ''Proxy-Authorization: Basic x''" "\<not> hop_by_hop ''Content-Length: 4''"
    by (simp_all add: hop_by_hop_def trim_header_names eq_ignore_case_def)
qed

lemma example_parse: "parse_target example_url example_head = Inr example_target"
proof -
  have "lower_ascii ''POST'' \<noteq> lower_ascii ''CONNECT''" by (simp add: lower_ascii_def)
  then show ?thesis
    by (simp add: parse_target_def example_lines starts_with_def eq_ignore_case_def example_url_def trim_brackets_def
        rewritten_head_def example_hops no_name_kept origin_form_def example_target_def example_upstream_def)
qed

definition example_env :: proxy_env where
  "example_env = \<lparr>en_resolver_ends = True, en_connect = (\<lambda>_. Connected), en_started = True, en_rest_written = True,
     en_upstream = [], en_copied_up = 1, en_copied_down = 0\<rparr>"

definition example_libs :: proxy_libs where
  "example_libs = \<lparr>pl_base64 = (\<lambda>_. None), pl_url = example_url, pl_hmac = example_mac, pl_denial_text = (\<lambda>_. [])\<rparr>"

definition example_config :: proxy_config where
  "example_config = new_config example_resolver default_policy"

lemma example_read:
  "read_head [] [Got (example_head @ ''data''), Got example_head, Got []] = HeadOk example_head ''data'' [Got example_head, Got []]"
  by (simp add: read_head.simps example_head_def max_head_bytes_def from_utf8_def utf8_tail_def byte_in_def)

lemma example_pinned:
  "resolve_pinned example_resolver default_policy ''www.example'' 80 = Inr \<lparr>sa_ip = V4 93 184 216 34, sa_port = 80\<rparr>"
proof -
  have "lower_ascii (trim_brackets ''www.example'') = ''www.example''" by code_simp
  moreover have "parse_ip ''www.example'' = None" by (rule parse_ip_name) code_simp
  moreover have "trim ''www.example'' = ''www.example''" by (rule trim_visible) (simp_all add: visible_def)
  moreover have "check_addr default_policy ''www.example'' (V4 93 184 216 34) = Inr ()"
    by (simp add: check_addr_def check_v4_def default_policy_def)
  ultimately show ?thesis
    by (simp add: resolve_pinned_def example_resolver_def is_hostname_blocked_def default_policy_def)
qed

lemma example_accepted:
  "proxy_reachable example_libs example_config
     ((proxy_start example_config)\<lparr>px_permits := 255, px_conns := [0 \<mapsto> Reading]\<rparr>)"
  using proxy_step.accept [of "proxy_start example_config" 0 255 example_libs example_config]
  by (auto simp: proxy_reachable_def proxy_start_def example_config_def new_config_def)

lemma example_dialled:
  "\<exists>s. proxy_reachable example_libs example_config s \<and> (0, Dial \<lparr>sa_ip = V4 93 184 216 34, sa_port = 80\<rparr>) \<in> set (px_log s)"
proof -
  let ?s = "(proxy_start example_config)\<lparr>px_permits := 255, px_conns := [0 \<mapsto> Reading]\<rparr>"
  let ?reads = "[Got (example_head @ ''data''), Got example_head, Got []]"
  have "handle_admit example_libs example_config (px_slots ?s) ?reads =
      (Inr (None, example_head, ''data'', [Got example_head, Got []]), px_slots ?s)"
    by (simp add: handle_admit_def example_read authenticate_request_def example_config_def new_config_def)
  note admitted = proxy_step.admit [OF _ this, of 0]
  let ?t = "?s\<lparr>px_slots := px_slots ?s, px_conns := (px_conns ?s)(0 \<mapsto> Forwarding None example_head ''data'' [Got example_head, Got []])\<rparr>"
  have "proxy_step example_libs example_config ?s ?t" by (rule admitted) simp
  then have reach: "proxy_reachable example_libs example_config ?t"
    using example_accepted unfolding proxy_reachable_def by (rule rtranclp.rtrancl_into_rtrancl [rotated])
  let ?acts = "handle_forward example_libs example_config example_env example_head ''data'' [Got example_head, Got []]"
  let ?u = "?t\<lparr>px_conns := (px_conns ?t)(0 \<mapsto> Closing None), px_log := px_log ?t @ map (Pair 0) ?acts\<rparr>"
  have "proxy_step example_libs example_config ?t ?u" by (rule proxy_step.forward) simp
  with reach have "proxy_reachable example_libs example_config ?u"
    unfolding proxy_reachable_def by (rule rtranclp.rtrancl_into_rtrancl)
  moreover have "Dial \<lparr>sa_ip = V4 93 184 216 34, sa_port = 80\<rparr> \<in> set ?acts"
    by (simp add: handle_forward_def example_libs_def example_parse example_config_def new_config_def example_target_def
        example_env_def example_pinned)
  then have "(0, Dial \<lparr>sa_ip = V4 93 184 216 34, sa_port = 80\<rparr>) \<in> set (px_log ?u)" by simp
  ultimately show ?thesis by blast
qed

theorem forwarded_head_exact_witness:
  "tl (split_crlf example_upstream) = [''Host: www.example'', ''Content-Length: 4'', [], [], []] \<and>
   list_all (\<lambda>line. \<not> hop_by_hop line) (tl (split_crlf example_upstream))"
proof -
  have plain: "CR \<notin> set (origin_form u)" if "example_url s = Inr u" for s u
    using that by (auto simp: example_url_def origin_form_def split: if_splits)
  have "t_upstream_head example_target = Some example_upstream" by (simp add: example_target_def)
  from forwarded_head_exact [OF plain example_parse this] show ?thesis
    by (simp add: example_target_def example_lines example_hops no_name_kept)
qed

theorem upstream_bytes_exact_witness:
  "upstream_bytes (handle_open example_env example_target ''data'' [Got example_head, Got []]) =
     ''POST / HTTP/1.1'' @ crlf @ ''Host: www.example'' @ crlf @ ''Content-Length: 4'' @ crlf @ crlf @ crlf @ ''data'' @ example_head"
proof -
  from upstream_bytes_exact [OF example_read example_parse, of example_upstream example_env]
  show ?thesis by (auto simp: example_target_def example_env_def example_upstream_def example_head_def)
qed

theorem proxy_only_dials_permitted_witness:
  "\<exists>s. proxy_reachable example_libs example_config s \<and> (0, Dial \<lparr>sa_ip = V4 93 184 216 34, sa_port = 80\<rparr>) \<in> set (px_log s) \<and>
     permitted default_policy (V4 93 184 216 34)"
proof -
  obtain s where s: "proxy_reachable example_libs example_config s"
    "(0, Dial \<lparr>sa_ip = V4 93 184 216 34, sa_port = 80\<rparr>) \<in> set (px_log s)" using example_dialled by blast
  have "pc_resolver example_config = resolve_pinned example_resolver default_policy" by (simp add: example_config_def new_config_def)
  from proxy_only_dials_permitted [OF s(1) this s(2)] s show ?thesis by auto
qed

theorem proxy_slots_bounded_witness:
  "card (dom (px_conns ((proxy_start example_config)\<lparr>px_permits := 255, px_conns := [0 \<mapsto> Reading]\<rparr>))) \<le> 256 \<and>
   card (held_by [0 \<mapsto> Reading] ''ten_a'') \<le> 64"
  using proxy_slots_bounded [OF example_accepted, of "''ten_a''"] by (simp add: example_config_def new_config_def)

end
