(* ===== verification/Admission.thy ===== *)
theory Admission
  imports Prelude Complex_Main
begin

text \<open>
  Admission of turns: crates/domains/chat/src/admission.rs. Every turn takes a permit before it does anything; over
  the caps it waits in a queue that hands free slots to tenants in turn. The state behind the lock is a record,
  and each stretch of \<open>admit\<close> between two waits on the condition variable is an operation on it. Instants are
  nanoseconds; the \<open>f64\<close> levels of the buckets are rational numbers (their rounding is not modelled), and
  tickets natural numbers (the \<open>u64\<close> counter does not wrap within 2 to the 64 turns).
\<close>

section \<open>Data\<close>

record turn_limits =
  tl_global_concurrency :: nat
  tl_tenant_concurrency :: nat
  tl_turns_per_minute :: nat
  tl_tokens_per_minute :: nat
  tl_tenant_queue_depth :: nat
  tl_global_queue_depth :: nat
  tl_exempt_tenants :: "string list"

datatype throttle_reason = TurnRateLimited | TokenBudgetExhausted | QueueFull | QueueTimeout

definition throttle_code :: "throttle_reason \<Rightarrow> string" where
  "throttle_code r =
     (case r of
        TurnRateLimited \<Rightarrow> ''turn_rate_limited''
      | TokenBudgetExhausted \<Rightarrow> ''token_budget_exhausted''
      | QueueFull \<Rightarrow> ''turn_queue_full''
      | QueueTimeout \<Rightarrow> ''turn_queue_timeout'')"

text \<open>A refusal with the seconds after which trying again can succeed.\<close>

record throttled =
  th_reason :: throttle_reason
  th_retry_after :: rat

definition QUEUE_RETRY_AFTER :: rat where "QUEUE_RETRY_AFTER = 5"
definition SWEEP_ABOVE :: nat where "SWEEP_ABOVE = 1024"

record bucket =
  bk_capacity :: rat
  bk_per_second :: rat
  bk_level :: rat
  bk_at :: nat

record tenant_entry =
  te_running :: nat
  te_queue :: "nat list"
  te_turns :: "bucket option"
  te_tokens :: "bucket option"

definition default_entry :: tenant_entry where
  "default_entry = \<lparr>te_running = 0, te_queue = [], te_turns = None, te_tokens = None\<rparr>"

record adm_state =
  ad_running :: nat
  ad_waiting :: nat
  ad_next_ticket :: nat
  ad_granted :: "nat set"
  ad_turn_order :: "string list"
  ad_tenants :: "string \<rightharpoonup> tenant_entry"

definition adm_default :: adm_state where
  "adm_default =
     \<lparr>ad_running = 0, ad_waiting = 0, ad_next_ticket = 0, ad_granted = {}, ad_turn_order = [], ad_tenants = Map.empty\<rparr>"

text \<open>\<open>tenants.entry(..).or_default()\<close>, and its update.\<close>

definition entry_of :: "adm_state \<Rightarrow> string \<Rightarrow> tenant_entry" where
  "entry_of s t = (case ad_tenants s t of None \<Rightarrow> default_entry | Some e \<Rightarrow> e)"

definition put_entry :: "string \<Rightarrow> tenant_entry \<Rightarrow> adm_state \<Rightarrow> adm_state" where
  "put_entry t e s = s\<lparr>ad_tenants := (ad_tenants s)(t \<mapsto> e)\<rparr>"

section \<open>Buckets\<close>

definition seconds :: "nat \<Rightarrow> rat" where
  "seconds ns = of_nat ns / 10 ^ 9"

definition bucket_full :: "nat \<Rightarrow> nat \<Rightarrow> bucket" where
  "bucket_full per_minute now =
     \<lparr>bk_capacity = of_nat per_minute, bk_per_second = of_nat per_minute / 60, bk_level = of_nat per_minute, bk_at = now\<rparr>"

definition refill :: "nat \<Rightarrow> bucket \<Rightarrow> bucket" where
  "refill now b =
     b\<lparr>bk_level := min (bk_level b + seconds (now - bk_at b) * bk_per_second b) (bk_capacity b), bk_at := now\<rparr>"

definition time_to :: "bucket \<Rightarrow> rat \<Rightarrow> rat" where
  "time_to b needed = max (max (needed - bk_level b) 0 / bk_per_second b) 1"

definition is_full :: "bucket \<Rightarrow> bool" where
  "is_full b \<longleftrightarrow> bk_capacity b \<le> bk_level b"

definition or_full :: "bucket option \<Rightarrow> nat \<Rightarrow> nat \<Rightarrow> bucket" where
  "or_full b per_minute now = (case b of None \<Rightarrow> bucket_full per_minute now | Some b \<Rightarrow> b)"

section \<open>The gate\<close>

definition is_exempt :: "turn_limits \<Rightarrow> string \<Rightarrow> bool" where
  "is_exempt lims t \<longleftrightarrow> t = [] \<or> t \<in> set (tl_exempt_tenants lims)"

definition check_turns :: "turn_limits \<Rightarrow> nat \<Rightarrow> tenant_entry \<Rightarrow> throttled option \<times> tenant_entry" where
  "check_turns lims now e =
     (if tl_turns_per_minute lims > 0
      then let b = refill now (or_full (te_turns e) (tl_turns_per_minute lims) now)
           in (if bk_level b < 1 then Some \<lparr>th_reason = TurnRateLimited, th_retry_after = time_to b 1\<rparr> else None,
               e\<lparr>te_turns := Some b\<rparr>)
      else (None, e))"

definition check_buckets :: "turn_limits \<Rightarrow> nat \<Rightarrow> tenant_entry \<Rightarrow> throttled option \<times> tenant_entry" where
  "check_buckets lims now e =
     (case te_tokens e of
        Some b \<Rightarrow>
          if tl_tokens_per_minute lims > 0
          then let b' = refill now b; e' = e\<lparr>te_tokens := Some b'\<rparr>
               in if bk_level b' \<le> 0 then (Some \<lparr>th_reason = TokenBudgetExhausted, th_retry_after = time_to b' 1\<rparr>, e')
                  else check_turns lims now e'
          else check_turns lims now e
      | None \<Rightarrow> check_turns lims now e)"

definition take_turn_token :: "turn_limits \<Rightarrow> string \<Rightarrow> adm_state \<Rightarrow> adm_state" where
  "take_turn_token lims t s =
     (if is_exempt lims t \<or> tl_turns_per_minute lims = 0 then s
      else case ad_tenants s t of
             None \<Rightarrow> s
           | Some e \<Rightarrow>
               (case te_turns e of
                  None \<Rightarrow> s
                | Some b \<Rightarrow> put_entry t (e\<lparr>te_turns := Some (b\<lparr>bk_level := bk_level b - 1\<rparr>)\<rparr>) s))"

definition has_global_room :: "turn_limits \<Rightarrow> adm_state \<Rightarrow> bool" where
  "has_global_room lims s \<longleftrightarrow> tl_global_concurrency lims = 0 \<or> ad_running s < tl_global_concurrency lims"

definition at_cap :: "turn_limits \<Rightarrow> string \<Rightarrow> tenant_entry \<Rightarrow> bool" where
  "at_cap lims t e \<longleftrightarrow> \<not> is_exempt lims t \<and> tl_tenant_concurrency lims > 0 \<and> tl_tenant_concurrency lims \<le> te_running e"

text \<open>One turn of the loop of \<open>schedule\<close>: the first tenant of the order is dropped, passed over or granted a slot.\<close>

datatype sched_result = Dropped | Passed | Granted

definition sched_turn :: "turn_limits \<Rightarrow> string \<Rightarrow> string list \<Rightarrow> adm_state \<Rightarrow> sched_result \<times> adm_state" where
  "sched_turn lims t order s =
     (case ad_tenants s t of
        None \<Rightarrow> (Dropped, s\<lparr>ad_turn_order := order\<rparr>)
      | Some e \<Rightarrow>
          (case te_queue e of
             [] \<Rightarrow> (Dropped, s\<lparr>ad_turn_order := order\<rparr>)
           | ticket # queue \<Rightarrow>
               if at_cap lims t e then (Passed, s\<lparr>ad_turn_order := order @ [t]\<rparr>)
               else (Granted,
                 s\<lparr>ad_running := ad_running s + 1, ad_waiting := ad_waiting s - 1, ad_granted := insert ticket (ad_granted s),
                   ad_turn_order := order @ (if queue = [] then [] else [t]),
                   ad_tenants := (ad_tenants s)(t \<mapsto> e\<lparr>te_running := te_running e + 1, te_queue := queue\<rparr>)\<rparr>)))"

definition queued_in :: "adm_state \<Rightarrow> string set \<Rightarrow> nat" where
  "queued_in s ts = (\<Sum>t \<in> ts. length (te_queue (entry_of s t)))"

lemma entry_of_order [simp]: "entry_of (s\<lparr>ad_turn_order := order\<rparr>) = entry_of s"
  by (simp add: entry_of_def fun_eq_iff)

lemma sched_dropped: "sched_turn lims t order s = (Dropped, s') \<Longrightarrow> te_queue (entry_of s t) = [] \<and> s' = s\<lparr>ad_turn_order := order\<rparr>"
  by (auto simp: sched_turn_def entry_of_def default_entry_def split: option.splits list.splits if_splits)

lemma sched_passed:
  "sched_turn lims t order s = (Passed, s') \<Longrightarrow>
     te_queue (entry_of s t) \<noteq> [] \<and> at_cap lims t (entry_of s t) \<and> s' = s\<lparr>ad_turn_order := order @ [t]\<rparr>"
  by (auto simp: sched_turn_def entry_of_def split: option.splits list.splits if_splits)

lemma sched_granted:
  "sched_turn lims t order s = (Granted, s') \<Longrightarrow> \<exists>ticket queue.
     te_queue (entry_of s t) = ticket # queue \<and> \<not> at_cap lims t (entry_of s t) \<and>
     s' = s\<lparr>ad_running := ad_running s + 1, ad_waiting := ad_waiting s - 1, ad_granted := insert ticket (ad_granted s),
            ad_turn_order := order @ (if queue = [] then [] else [t]),
            ad_tenants := (ad_tenants s)(t \<mapsto> (entry_of s t)\<lparr>te_running := te_running (entry_of s t) + 1, te_queue := queue\<rparr>)\<rparr>"
  by (auto simp: sched_turn_def entry_of_def split: option.splits list.splits if_splits)

lemma entry_of_upd:
  "entry_of (s\<lparr>ad_tenants := (ad_tenants s)(t \<mapsto> e)\<rparr>) = (entry_of s)(t := e)"
  "ad_tenants s' = (ad_tenants s)(t \<mapsto> e) \<Longrightarrow> entry_of s' = (entry_of s)(t := e)"
  by (simp_all add: entry_of_def fun_eq_iff)

lemma queued_in_mono: "finite B \<Longrightarrow> A \<subseteq> B \<Longrightarrow> queued_in s A \<le> queued_in s B"
  unfolding queued_in_def by (rule sum_mono2) auto

lemma queued_in_less:
  assumes "finite B" and "t \<in> B" and "A \<subseteq> B" and "entry_of s' = (entry_of s)(t := e')"
    and "length (te_queue e') < length (te_queue (entry_of s t))"
  shows "queued_in s' A < queued_in s B"
proof -
  have "queued_in s' A \<le> queued_in s' B" using assms(1,3) by (rule queued_in_mono)
  also have "\<dots> < queued_in s B"
    unfolding queued_in_def by (rule sum_strict_mono_ex1) (use assms in auto)
  finally show ?thesis .
qed

lemma sched_turn_measure:
  assumes "sched_turn lims t order s = (r, s')" and "ad_turn_order s = t # order"
  shows "r = Dropped \<Longrightarrow> queued_in s' (set (ad_turn_order s')) \<le> queued_in s (set (ad_turn_order s)) \<and> ad_turn_order s' = order"
    and "r = Passed \<Longrightarrow> queued_in s' (set (ad_turn_order s')) = queued_in s (set (ad_turn_order s)) \<and>
      length (ad_turn_order s') = Suc (length order)"
    and "r = Granted \<Longrightarrow> queued_in s' (set (ad_turn_order s')) < queued_in s (set (ad_turn_order s))"
proof -
  have same: "queued_in (s\<lparr>ad_turn_order := order'\<rparr>) A = queued_in s A" for order' A by (simp add: queued_in_def)
  show "queued_in s' (set (ad_turn_order s')) \<le> queued_in s (set (ad_turn_order s)) \<and> ad_turn_order s' = order" if "r = Dropped"
    using assms that queued_in_mono [of "insert t (set order)" "set order" s, OF _ subset_insertI]
    by (auto dest!: sched_dropped simp: same)
  show "queued_in s' (set (ad_turn_order s')) = queued_in s (set (ad_turn_order s)) \<and> length (ad_turn_order s') = Suc (length order)"
    if "r = Passed"
    using assms that by (auto dest!: sched_passed simp: same)
  assume "r = Granted"
  with assms(1) obtain ticket queue where q: "te_queue (entry_of s t) = ticket # queue"
    and e: "entry_of s' = (entry_of s)(t := (entry_of s t)\<lparr>te_running := te_running (entry_of s t) + 1, te_queue := queue\<rparr>)"
    and order: "ad_turn_order s' = order @ (if queue = [] then [] else [t])"
    using sched_granted [of lims t order s s'] by (auto simp: entry_of_upd(2))
  show "queued_in s' (set (ad_turn_order s')) < queued_in s (set (ad_turn_order s))"
    by (rule queued_in_less [OF _ _ _ e]) (auto simp: q order assms(2))
qed

function schedule_loop :: "turn_limits \<Rightarrow> nat \<Rightarrow> adm_state \<Rightarrow> adm_state" where
  "schedule_loop lims passes s =
     (if has_global_room lims s \<and> passes < length (ad_turn_order s)
      then case ad_turn_order s of
             [] \<Rightarrow> s
           | t # order \<Rightarrow>
               (case sched_turn lims t order s of
                  (Dropped, s') \<Rightarrow> schedule_loop lims passes s'
                | (Passed, s') \<Rightarrow> schedule_loop lims (Suc passes) s'
                | (Granted, s') \<Rightarrow> schedule_loop lims 0 s')
      else s)"
  by pat_completeness auto
termination
proof (relation "inv_image (less_than <*lex*> less_than <*lex*> less_than)
    (\<lambda>(lims, passes, s). (queued_in s (set (ad_turn_order s)), length (ad_turn_order s), length (ad_turn_order s) - passes))", goal_cases)
  case (2 lims passes s t order r s')
  then show ?case using sched_turn_measure(1) [of lims t order s r s'] by auto
next
  case (3 lims passes s t order r s')
  then show ?case using sched_turn_measure(2) [of lims t order s r s'] by auto
next
  case (4 lims passes s t order r s')
  then show ?case using sched_turn_measure(3) [of lims t order s r s'] by auto
qed (intro wf_inv_image wf_lex_prod wf_less_than)

declare schedule_loop.simps [simp del]

lemma loop_stop: "\<not> (has_global_room lims s \<and> passes < length (ad_turn_order s)) \<Longrightarrow> schedule_loop lims passes s = s"
  by (subst schedule_loop.simps) (rule if_not_P)

lemma loop_turn:
  assumes "has_global_room lims s \<and> passes < length (ad_turn_order s)" and "ad_turn_order s = t # order"
    and "sched_turn lims t order s = (r, s')"
  shows "schedule_loop lims passes s = schedule_loop lims (case r of Dropped \<Rightarrow> passes | Passed \<Rightarrow> Suc passes | Granted \<Rightarrow> 0) s'"
  using assms by (subst schedule_loop.simps) (cases r; simp)

text \<open>\<open>schedule\<close>: hands free slots to waiting turns.\<close>

definition hand_out :: "turn_limits \<Rightarrow> adm_state \<Rightarrow> adm_state" where
  "hand_out lims s = schedule_loop lims 0 s"

definition withdraw :: "string \<Rightarrow> nat \<Rightarrow> adm_state \<Rightarrow> adm_state" where
  "withdraw t ticket s =
     (case ad_tenants s t of
        None \<Rightarrow> s
      | Some e \<Rightarrow>
          if ticket \<in> set (te_queue e)
          then let queue = remove1 ticket (te_queue e)
               in s\<lparr>ad_waiting := ad_waiting s - 1, ad_tenants := (ad_tenants s)(t \<mapsto> e\<lparr>te_queue := queue\<rparr>),
                    ad_turn_order := (if queue = [] then filter (\<lambda>u. u \<noteq> t) (ad_turn_order s) else ad_turn_order s)\<rparr>
          else s)"

definition freed :: "string \<Rightarrow> adm_state \<Rightarrow> adm_state" where
  "freed t s =
     s\<lparr>ad_running := ad_running s - 1,
       ad_tenants := (case ad_tenants s t of None \<Rightarrow> ad_tenants s
                      | Some e \<Rightarrow> (ad_tenants s)(t \<mapsto> e\<lparr>te_running := te_running e - 1\<rparr>))\<rparr>"

definition release_turn :: "turn_limits \<Rightarrow> string \<Rightarrow> adm_state \<Rightarrow> adm_state" where
  "release_turn lims t s = hand_out lims (freed t s)"

text \<open>
  \<open>retain\<close> with its closure, which refills the buckets it looks at: the buckets of an idle entry, the second one only
  when the first is full.
\<close>

definition refilled :: "nat \<Rightarrow> bucket option \<Rightarrow> bool \<times> bucket option" where
  "refilled now b = (case b of None \<Rightarrow> (True, None) | Some b \<Rightarrow> (is_full (refill now b), Some (refill now b)))"

definition sweep_entry :: "nat \<Rightarrow> tenant_entry \<Rightarrow> tenant_entry option" where
  "sweep_entry now e =
     (if te_running e > 0 \<or> te_queue e \<noteq> [] then Some e
      else case refilled now (te_turns e) of
             (False, turns) \<Rightarrow> Some (e\<lparr>te_turns := turns\<rparr>)
           | (True, turns) \<Rightarrow>
               (case refilled now (te_tokens e) of
                  (False, tokens) \<Rightarrow> Some (e\<lparr>te_turns := turns, te_tokens := tokens\<rparr>)
                | (True, _) \<Rightarrow> None))"

definition sweep :: "nat \<Rightarrow> adm_state \<Rightarrow> adm_state" where
  "sweep now s = s\<lparr>ad_tenants := (\<lambda>t. Option.bind (ad_tenants s t) (sweep_entry now))\<rparr>"

section \<open>Admitting a turn\<close>

datatype admit_result = Admitted | Refused throttled | Queued nat

text \<open>Joining the queue under a new ticket.\<close>

definition enqueue :: "string \<Rightarrow> adm_state \<Rightarrow> adm_state" where
  "enqueue t s =
     (let ticket = ad_next_ticket s; e = entry_of s t; queue = te_queue e @ [ticket]
      in s\<lparr>ad_next_ticket := ticket + 1, ad_waiting := ad_waiting s + 1, ad_tenants := (ad_tenants s)(t \<mapsto> e\<lparr>te_queue := queue\<rparr>),
           ad_turn_order := (if length queue = 1 then ad_turn_order s @ [t] else ad_turn_order s)\<rparr>)"

definition queue_is_full :: "turn_limits \<Rightarrow> string \<Rightarrow> adm_state \<Rightarrow> bool" where
  "queue_is_full lims t s \<longleftrightarrow>
     (\<not> is_exempt lims t \<and> tl_tenant_queue_depth lims > 0 \<and> tl_tenant_queue_depth lims < length (te_queue (entry_of s t))) \<or>
     (tl_global_queue_depth lims > 0 \<and> tl_global_queue_depth lims < ad_waiting s)"

definition admit_join :: "turn_limits \<Rightarrow> string \<Rightarrow> adm_state \<Rightarrow> admit_result \<times> adm_state" where
  "admit_join lims t s =
     (let ticket = ad_next_ticket s; s1 = hand_out lims (enqueue t s)
      in if ticket \<in> ad_granted s1
         then (Admitted, take_turn_token lims t (s1\<lparr>ad_granted := ad_granted s1 - {ticket}\<rparr>))
         else if queue_is_full lims t s1
         then (Refused \<lparr>th_reason = QueueFull, th_retry_after = QUEUE_RETRY_AFTER\<rparr>, withdraw t ticket s1)
         else (Queued ticket, take_turn_token lims t s1))"

text \<open>\<open>admit\<close> up to its return or its first wait.\<close>

definition admit_enter :: "turn_limits \<Rightarrow> nat \<Rightarrow> string \<Rightarrow> adm_state \<Rightarrow> admit_result \<times> adm_state" where
  "admit_enter lims now tenant_id s =
     (let t = trim tenant_id; s0 = (if card (dom (ad_tenants s)) > SWEEP_ABOVE then sweep now s else s)
      in if is_exempt lims t then admit_join lims t s0
         else case check_buckets lims now (entry_of s0 t) of
                (Some denied, e) \<Rightarrow> (Refused denied, put_entry t e s0)
              | (None, e) \<Rightarrow> admit_join lims t (put_entry t e s0))"

text \<open>The waiter is woken, and the wait runs out.\<close>

definition admit_wake :: "nat \<Rightarrow> adm_state \<Rightarrow> admit_result \<times> adm_state" where
  "admit_wake ticket s =
     (if ticket \<in> ad_granted s then (Admitted, s\<lparr>ad_granted := ad_granted s - {ticket}\<rparr>) else (Queued ticket, s))"

definition admit_timeout :: "string \<Rightarrow> nat \<Rightarrow> adm_state \<Rightarrow> admit_result \<times> adm_state" where
  "admit_timeout t ticket s =
     (if ticket \<in> ad_granted s then (Admitted, s\<lparr>ad_granted := ad_granted s - {ticket}\<rparr>)
      else (Refused \<lparr>th_reason = QueueTimeout, th_retry_after = QUEUE_RETRY_AFTER\<rparr>, withdraw t ticket s))"

definition charge_tokens :: "turn_limits \<Rightarrow> nat \<Rightarrow> string \<Rightarrow> int \<Rightarrow> adm_state \<Rightarrow> adm_state" where
  "charge_tokens lims now tenant_id tokens s =
     (let t = trim tenant_id
      in if tl_tokens_per_minute lims = 0 \<or> tokens \<le> 0 \<or> is_exempt lims t then s
         else let e = entry_of s t; b = refill now (or_full (te_tokens e) (tl_tokens_per_minute lims) now)
              in put_entry t (e\<lparr>te_tokens := Some (b\<lparr>bk_level := bk_level b - of_int tokens\<rparr>)\<rparr>) s)"

section \<open>Turns\<close>

text \<open>
  The gate with its turns: the permits held and the turns waiting, by ticket, and how many turn tokens each
  tenant has taken. A step happens at the instant the operation has read before it took the lock.
\<close>

record adm_world =
  aw_state :: adm_state
  aw_permits :: "nat \<rightharpoonup> string"
  aw_waiters :: "nat \<rightharpoonup> string"
  aw_taken :: "string \<Rightarrow> nat"

definition adm_start :: adm_world where
  "adm_start = \<lparr>aw_state = adm_default, aw_permits = Map.empty, aw_waiters = Map.empty, aw_taken = (\<lambda>_. 0)\<rparr>"

inductive adm_step :: "turn_limits \<Rightarrow> nat \<Rightarrow> adm_world \<Rightarrow> adm_world \<Rightarrow> bool" for lims now where
  enter_admitted: "admit_enter lims now tenant_id (aw_state w) = (Admitted, s) \<Longrightarrow>
    adm_step lims now w
      (w\<lparr>aw_state := s, aw_permits := (aw_permits w)(ad_next_ticket (aw_state w) \<mapsto> trim tenant_id),
         aw_taken := (aw_taken w)(trim tenant_id := Suc (aw_taken w (trim tenant_id)))\<rparr>)"
| enter_queued: "admit_enter lims now tenant_id (aw_state w) = (Queued ticket, s) \<Longrightarrow>
    adm_step lims now w
      (w\<lparr>aw_state := s, aw_waiters := (aw_waiters w)(ticket \<mapsto> trim tenant_id),
         aw_taken := (aw_taken w)(trim tenant_id := Suc (aw_taken w (trim tenant_id)))\<rparr>)"
| enter_refused: "admit_enter lims now tenant_id (aw_state w) = (Refused d, s) \<Longrightarrow> adm_step lims now w (w\<lparr>aw_state := s\<rparr>)"
| wake: "aw_waiters w ticket = Some t \<Longrightarrow> admit_wake ticket (aw_state w) = (Admitted, s) \<Longrightarrow>
    adm_step lims now w
      (w\<lparr>aw_state := s, aw_permits := (aw_permits w)(ticket \<mapsto> t), aw_waiters := (aw_waiters w)(ticket := None)\<rparr>)"
| late_grant: "aw_waiters w ticket = Some t \<Longrightarrow> admit_timeout t ticket (aw_state w) = (Admitted, s) \<Longrightarrow>
    adm_step lims now w
      (w\<lparr>aw_state := s, aw_permits := (aw_permits w)(ticket \<mapsto> t), aw_waiters := (aw_waiters w)(ticket := None)\<rparr>)"
| give_up: "aw_waiters w ticket = Some t \<Longrightarrow> admit_timeout t ticket (aw_state w) = (Refused d, s) \<Longrightarrow>
    adm_step lims now w (w\<lparr>aw_state := s, aw_waiters := (aw_waiters w)(ticket := None)\<rparr>)"
| finish_turn: "aw_permits w ticket = Some t \<Longrightarrow>
    adm_step lims now w (w\<lparr>aw_state := release_turn lims t (aw_state w), aw_permits := (aw_permits w)(ticket := None)\<rparr>)"
| charge: "adm_step lims now w (w\<lparr>aw_state := charge_tokens lims now tenant_id tokens (aw_state w)\<rparr>)"

definition adm_reachable :: "turn_limits \<Rightarrow> adm_world \<Rightarrow> bool" where
  "adm_reachable lims w \<longleftrightarrow> (\<lambda>v v'. \<exists>now. adm_step lims now v v')\<^sup>*\<^sup>* adm_start w"

end
