(* ===== verification/Admission_Properties.thy ===== *)
theory Admission_Properties
  imports Admission Registry
begin

text \<open>
  The gate of turns is fair, exact and within its limits: the books of the gate and their preservation by every
  operation, what follows for reachable gates, the order in which tenants get slots, the rate of turns as a
  bound on the token bucket, and two things that go wrong.
\<close>

section \<open>Well-formed gates\<close>

abbreviation queue_of :: "adm_state \<Rightarrow> string \<Rightarrow> nat list" where
  "queue_of s t \<equiv> te_queue (entry_of s t)"

abbreviation running_of :: "adm_state \<Rightarrow> string \<Rightarrow> nat" where
  "running_of s t \<equiv> te_running (entry_of s t)"

text \<open>
  The books of the gate: with \<open>H\<close> the tickets that hold a slot and \<open>Q\<close> those that wait, every counter, queue and the
  order of the tenants say what they should, the caps are kept, and within a tenant slots were given in arrival
  order.
\<close>

definition adm_books :: "turn_limits \<Rightarrow> (nat \<rightharpoonup> string) \<Rightarrow> (nat \<rightharpoonup> string) \<Rightarrow> adm_state \<Rightarrow> bool" where
  "adm_books lims H Q s \<longleftrightarrow>
     finite (dom H) \<and> finite (dom Q) \<and> dom H \<inter> dom Q = {} \<and> (\<forall>k \<in> dom H \<union> dom Q. k < ad_next_ticket s) \<and>
     ad_running s = card (dom H) \<and> ad_waiting s = card (dom Q) \<and>
     (\<forall>t. running_of s t = card {k. H k = Some t}) \<and>
     (\<forall>t. sorted_wrt (<) (queue_of s t) \<and> set (queue_of s t) = {k. Q k = Some t}) \<and>
     distinct (ad_turn_order s) \<and> set (ad_turn_order s) = {t. queue_of s t \<noteq> []} \<and>
     (\<forall>k t k'. H k = Some t \<longrightarrow> Q k' = Some t \<longrightarrow> k < k') \<and>
     (0 < tl_global_concurrency lims \<longrightarrow> ad_running s \<le> tl_global_concurrency lims) \<and>
     (\<forall>t. \<not> is_exempt lims t \<longrightarrow> 0 < tl_tenant_concurrency lims \<longrightarrow> running_of s t \<le> tl_tenant_concurrency lims)"

text \<open>No slot stays free while a turn that may take it waits.\<close>

definition adm_busy :: "turn_limits \<Rightarrow> adm_state \<Rightarrow> bool" where
  "adm_busy lims s \<longleftrightarrow> (has_global_room lims s \<longrightarrow> (\<forall>t \<in> set (ad_turn_order s). at_cap lims t (entry_of s t)))"

definition slots_map :: "(nat \<rightharpoonup> string) \<Rightarrow> (nat \<rightharpoonup> string) \<Rightarrow> nat set \<Rightarrow> nat \<rightharpoonup> string" where
  "slots_map P W G = P ++ (W |` G)"

definition adm_ok :: "turn_limits \<Rightarrow> (nat \<rightharpoonup> string) \<Rightarrow> (nat \<rightharpoonup> string) \<Rightarrow> adm_state \<Rightarrow> bool" where
  "adm_ok lims P W s \<longleftrightarrow>
     adm_books lims (slots_map P W (ad_granted s)) (W |` (- ad_granted s)) s \<and> ad_granted s \<subseteq> dom W \<and> dom P \<inter> dom W = {}"

lemma slots_map_grant:
  assumes "W k = Some t"
  shows "slots_map P W (insert k G) = (slots_map P W G)(k \<mapsto> t)" and "W |` (- insert k G) = (W |` (- G))(k := None)"
proof -
  show "slots_map P W (insert k G) = (slots_map P W G)(k \<mapsto> t)"
    by (rule ext) (simp add: slots_map_def map_add_def restrict_map_def assms)
  show "W |` (- insert k G) = (W |` (- G))(k := None)" by (rule ext) (simp add: restrict_map_def)
qed

lemma books_same:
  assumes "adm_books lims H Q s" and "ad_next_ticket s' = ad_next_ticket s" and "ad_running s' = ad_running s"
    and "ad_waiting s' = ad_waiting s" and "\<And>t. queue_of s' t = queue_of s t" and "\<And>t. running_of s' t = running_of s t"
    and "distinct (ad_turn_order s')" and "set (ad_turn_order s') = set (ad_turn_order s)"
  shows "adm_books lims H Q s'"
  using assms(1) unfolding adm_books_def assms(2-6,8) by (intro conjI assms(7)) blast+

lemma books_rotate:
  assumes "adm_books lims H Q s" and "ad_turn_order s = t # order"
  shows "adm_books lims H Q (s\<lparr>ad_turn_order := order @ [t]\<rparr>)"
proof (rule books_same [OF assms(1)])
  have "distinct (t # order)" using assms by (auto simp: adm_books_def)
  then show "distinct (ad_turn_order (s\<lparr>ad_turn_order := order @ [t]\<rparr>))" by simp
qed (simp_all add: assms(2))

lemma card_slots: "k \<notin> dom H \<Longrightarrow> finite (dom H) \<Longrightarrow> card {i. (H(k \<mapsto> t)) i = Some u} = card {i. H i = Some u} + (if u = t then 1 else 0)"
proof -
  assume k: "k \<notin> dom H" and "finite (dom H)"
  then have fin: "finite {i. H i = Some u}" by (rule_tac finite_subset [of _ "dom H"]) auto
  have "{i. (H(k \<mapsto> t)) i = Some u} = (if u = t then insert k {i. H i = Some u} else {i. H i = Some u})"
    using k by (auto split: if_splits)
  with fin k show ?thesis by auto
qed

lemma books_grant:
  assumes inv: "adm_books lims H Q s" and order: "ad_turn_order s = t # order" and q: "queue_of s t = k # queue"
    and room: "has_global_room lims s" and cap: "\<not> at_cap lims t (entry_of s t)"
    and fields: "ad_next_ticket s' = ad_next_ticket s" "ad_running s' = Suc (ad_running s)" "ad_waiting s' = ad_waiting s - 1"
      "ad_turn_order s' = order @ (if queue = [] then [] else [t])"
    and qs: "\<And>u. queue_of s' u = (if u = t then queue else queue_of s u)"
    and rs: "\<And>u. running_of s' u = (if u = t then Suc (running_of s t) else running_of s u)"
  shows "adm_books lims (H(k \<mapsto> t)) (Q(k := None)) s'" (is "adm_books lims ?H ?Q s'")
proof -
  have old: "finite (dom H)" "finite (dom Q)" "dom H \<inter> dom Q = {}" "\<forall>k \<in> dom H \<union> dom Q. k < ad_next_ticket s"
    "ad_running s = card (dom H)" "ad_waiting s = card (dom Q)" "\<And>u. running_of s u = card {k. H k = Some u}"
    "\<And>u. sorted_wrt (<) (queue_of s u)" "\<And>u. set (queue_of s u) = {k. Q k = Some u}"
    "distinct (ad_turn_order s)" "set (ad_turn_order s) = {t. queue_of s t \<noteq> []}"
    "\<And>k t k'. H k = Some t \<Longrightarrow> Q k' = Some t \<Longrightarrow> k < k'"
    "0 < tl_global_concurrency lims \<longrightarrow> ad_running s \<le> tl_global_concurrency lims"
    "\<And>t. \<not> is_exempt lims t \<longrightarrow> 0 < tl_tenant_concurrency lims \<longrightarrow> running_of s t \<le> tl_tenant_concurrency lims"
    using inv unfolding adm_books_def by blast+
  have k: "Q k = Some t" "k \<notin> dom H" using old(3) old(9) [of t] q by auto
  have less: "\<forall>i \<in> set queue. k < i" using old(8) [of t] q by simp
  show ?thesis
    unfolding adm_books_def
  proof (intro conjI)
    show "dom ?H \<inter> dom ?Q = {}" using old(3) by (auto split: if_splits)
    show "\<forall>i \<in> dom ?H \<union> dom ?Q. i < ad_next_ticket s'" using old(4) k unfolding fields by auto
    show "ad_running s' = card (dom ?H)" using old(1,5) k unfolding fields by simp
    show "ad_waiting s' = card (dom ?Q)" using old(2,6) k unfolding fields by (simp add: card_Diff_singleton domI)
    show "\<forall>u. running_of s' u = card {i. ?H i = Some u}" using old(7) card_slots [OF k(2) old(1), of t] unfolding rs by auto
    show "\<forall>u. sorted_wrt (<) (queue_of s' u) \<and> set (queue_of s' u) = {i. ?Q i = Some u}"
    proof
      fix u
      show "sorted_wrt (<) (queue_of s' u) \<and> set (queue_of s' u) = {i. ?Q i = Some u}"
        using old(8,9) [of u] q less k(1) unfolding qs by (cases "u = t") auto
    qed
    show "distinct (ad_turn_order s')" using old(10) unfolding fields order by auto
    show "set (ad_turn_order s') = {u. queue_of s' u \<noteq> []}" using old(10,11) unfolding fields order qs by auto
    show "\<forall>i u j. ?H i = Some u \<longrightarrow> ?Q j = Some u \<longrightarrow> i < j"
    proof (intro allI impI)
      fix i u j assume ij: "?H i = Some u" "?Q j = Some u"
      then have j: "Q j = Some u" "j \<noteq> k" by (auto split: if_splits)
      show "i < j"
      proof (cases "i = k")
        case True
        with ij j q old(9) [of t] less show ?thesis by auto
      qed (use ij j old(12) in auto)
    qed
    show "0 < tl_global_concurrency lims \<longrightarrow> ad_running s' \<le> tl_global_concurrency lims"
      using room unfolding fields by (auto simp: has_global_room_def)
    show "\<forall>u. \<not> is_exempt lims u \<longrightarrow> 0 < tl_tenant_concurrency lims \<longrightarrow> running_of s' u \<le> tl_tenant_concurrency lims"
      using old(14) cap unfolding rs by (auto simp: at_cap_def)
  qed (use old in simp_all)
qed

definition sched_grows :: "adm_state \<Rightarrow> adm_state \<Rightarrow> bool" where
  "sched_grows s s' \<longleftrightarrow> ad_next_ticket s' = ad_next_ticket s \<and> ad_granted s \<subseteq> ad_granted s' \<and> (\<forall>u. \<exists>p. queue_of s u = p @ queue_of s' u)"

lemma sched_grows_refl: "sched_grows s s"
  by (simp add: sched_grows_def)

lemma sched_grows_trans: "sched_grows s1 s2 \<Longrightarrow> sched_grows s2 s3 \<Longrightarrow> sched_grows s1 s3"
  unfolding sched_grows_def by (metis append.assoc subset_trans)

lemma schedule_loop_ok:
  assumes "adm_ok lims P W s" and "ad_turn_order s = xs @ ys" and "length ys = passes" and "\<forall>t \<in> set ys. at_cap lims t (entry_of s t)"
  shows "adm_ok lims P W (schedule_loop lims passes s) \<and> adm_busy lims (schedule_loop lims passes s) \<and>
    sched_grows s (schedule_loop lims passes s)"
  using assms
proof (induction lims passes s arbitrary: xs ys rule: schedule_loop.induct)
  case (1 lims passes s)
  show ?case
  proof (cases "has_global_room lims s \<and> passes < length (ad_turn_order s)")
    case False
    with 1 show ?thesis by (auto simp: loop_stop adm_busy_def sched_grows_refl)
  next
    case True
    then obtain t order where order: "ad_turn_order s = t # order" by (cases "ad_turn_order s") auto
    with True "1.prems"(2,3) obtain zs where xs: "xs = t # zs" "order = zs @ ys" by (cases xs) auto
    obtain r s' where turn: "sched_turn lims t order s = (r, s')" by fastforce
    have nonempty: "queue_of s t \<noteq> []" using "1.prems"(1) order by (auto simp: adm_ok_def adm_books_def)
    show ?thesis
    proof (cases r)
      case Dropped
      with turn nonempty show ?thesis by (auto dest: sched_dropped)
    next
      case Passed
      with turn have p: "at_cap lims t (entry_of s t)" "s' = s\<lparr>ad_turn_order := order @ [t]\<rparr>" by (auto dest: sched_passed)
      then have "adm_ok lims P W s'" using "1.prems"(1) order by (auto simp: adm_ok_def intro: books_rotate)
      moreover have "schedule_loop lims passes s = schedule_loop lims (Suc passes) s'"
        using loop_turn [OF True order turn] by (simp add: Passed)
      moreover have "sched_grows s s'" using p by (simp add: sched_grows_def)
      ultimately show ?thesis
        using "1.IH"(2) [OF True order turn [symmetric] Passed, of zs "ys @ [t]"] p xs "1.prems"
        by (auto intro: sched_grows_trans)
    next
      case Granted
      with turn obtain k queue where g: "queue_of s t = k # queue" "\<not> at_cap lims t (entry_of s t)"
        and s': "s' = s\<lparr>ad_running := ad_running s + 1, ad_waiting := ad_waiting s - 1, ad_granted := insert k (ad_granted s),
            ad_turn_order := order @ (if queue = [] then [] else [t]),
            ad_tenants := (ad_tenants s)(t \<mapsto> (entry_of s t)\<lparr>te_running := running_of s t + 1, te_queue := queue\<rparr>)\<rparr>"
        using sched_granted [of lims t order s s'] by auto
      have "set (queue_of s t) = {i. (W |` (- ad_granted s)) i = Some t}" using "1.prems"(1) by (auto simp: adm_ok_def adm_books_def)
      with g have W: "W k = Some t" by (auto simp: restrict_map_def split: if_splits)
      have e: "entry_of s' = (entry_of s)(t := (entry_of s t)\<lparr>te_running := running_of s t + 1, te_queue := queue\<rparr>)"
        by (rule entry_of_upd(2)) (simp add: s')
      have "adm_books lims ((slots_map P W (ad_granted s))(k \<mapsto> t)) ((W |` (- ad_granted s))(k := None)) s'"
        by (rule books_grant [OF _ order g(1) _ g(2)]) (use "1.prems"(1) True in \<open>simp_all add: adm_ok_def e\<close>, simp_all add: s')
      then have "adm_ok lims P W s'"
        using "1.prems"(1) W by (auto simp: adm_ok_def s' slots_map_grant [where W = W, OF W])
      moreover have "\<exists>p. queue_of s u = p @ queue_of s' u" for u using g(1) unfolding e by (cases "u = t") auto
      then have "sched_grows s s'" by (auto simp: sched_grows_def s')
      moreover have "schedule_loop lims passes s = schedule_loop lims 0 s'"
        using loop_turn [OF True order turn] by (simp add: Granted)
      ultimately show ?thesis
        using "1.IH"(3) [OF True order turn [symmetric] Granted, of "ad_turn_order s'" "[]"]
        by (auto intro: sched_grows_trans)
    qed
  qed
qed

lemma schedule_ok:
  "adm_ok lims P W s \<Longrightarrow> adm_ok lims P W (hand_out lims s) \<and> adm_busy lims (hand_out lims s) \<and> sched_grows s (hand_out lims s)"
  unfolding hand_out_def by (rule schedule_loop_ok [of _ _ _ _ _ "[]"]) auto

section \<open>Operations keep the books\<close>

text \<open>Two states that differ in buckets only.\<close>

definition same_shape :: "adm_state \<Rightarrow> adm_state \<Rightarrow> bool" where
  "same_shape s s' \<longleftrightarrow>
     ad_next_ticket s' = ad_next_ticket s \<and> ad_running s' = ad_running s \<and> ad_waiting s' = ad_waiting s \<and>
     ad_granted s' = ad_granted s \<and> ad_turn_order s' = ad_turn_order s \<and>
     (\<forall>t. queue_of s' t = queue_of s t \<and> running_of s' t = running_of s t)"

definition adm_depth :: "turn_limits \<Rightarrow> adm_state \<Rightarrow> bool" where
  "adm_depth lims s \<longleftrightarrow>
     (\<forall>t. \<not> is_exempt lims t \<longrightarrow> 0 < tl_tenant_queue_depth lims \<longrightarrow> length (queue_of s t) \<le> tl_tenant_queue_depth lims) \<and>
     (0 < tl_global_queue_depth lims \<longrightarrow> ad_waiting s \<le> tl_global_queue_depth lims)"

lemma same_shape_trans: "same_shape s s' \<Longrightarrow> same_shape s' s'' \<Longrightarrow> same_shape s s''"
  by (simp add: same_shape_def)

lemma same_shape_keeps:
  assumes "same_shape s s'"
  shows "adm_ok lims P W s \<Longrightarrow> adm_ok lims P W s'" and "adm_busy lims s \<Longrightarrow> adm_busy lims s'" and "adm_depth lims s \<Longrightarrow> adm_depth lims s'"
proof -
  assume ok: "adm_ok lims P W s"
  then have "distinct (ad_turn_order s)" by (simp add: adm_ok_def adm_books_def)
  then show "adm_ok lims P W s'"
    using ok assms books_same [of lims _ _ s s'] unfolding adm_ok_def same_shape_def by metis
next
  show "adm_busy lims s \<Longrightarrow> adm_busy lims s'"
    using assms by (auto simp: adm_busy_def has_global_room_def at_cap_def same_shape_def)
  show "adm_depth lims s \<Longrightarrow> adm_depth lims s'"
    using assms by (simp add: adm_depth_def same_shape_def)
qed

lemma put_entry_shape:
  assumes "te_queue e = queue_of s t" and "te_running e = running_of s t"
  shows "same_shape s (put_entry t e s)"
proof -
  have "entry_of (put_entry t e s) = (entry_of s)(t := e)" by (rule entry_of_upd(2)) (simp add: put_entry_def)
  with assms show ?thesis by (simp add: same_shape_def put_entry_def)
qed

lemma take_turn_token_shape: "same_shape s (take_turn_token lims t s)"
proof -
  have "same_shape s s" by (simp add: same_shape_def)
  then show ?thesis
    by (auto simp: take_turn_token_def entry_of_def split: option.splits intro!: put_entry_shape)
qed

lemma check_buckets_entry: "check_buckets lims now e = (d, e') \<Longrightarrow> te_queue e' = te_queue e \<and> te_running e' = te_running e"
  by (auto simp: check_buckets_def check_turns_def Let_def split: option.splits if_splits)

lemma charge_tokens_shape: "same_shape s (charge_tokens lims now tenant_id tokens s)"
proof -
  have "same_shape s s" by (simp add: same_shape_def)
  then show ?thesis by (auto simp: charge_tokens_def Let_def intro!: put_entry_shape)
qed

lemma sweep_shape: "same_shape s (sweep now s)"
proof -
  have "queue_of (sweep now s) t = queue_of s t \<and> running_of (sweep now s) t = running_of s t" for t
    by (auto simp: entry_of_def sweep_def sweep_entry_def default_entry_def split: option.splits prod.splits bool.splits if_splits)
  then show ?thesis by (simp add: same_shape_def sweep_def)
qed

lemma queue_member: "adm_ok lims P W s \<Longrightarrow> k \<in> set (queue_of s t) \<longleftrightarrow> W k = Some t \<and> k \<notin> ad_granted s"
  by (auto simp: adm_ok_def adm_books_def restrict_map_def)

lemma enqueue_entry: "entry_of (enqueue t s) = (entry_of s)(t := (entry_of s t)\<lparr>te_queue := queue_of s t @ [ad_next_ticket s]\<rparr>)"
  by (rule entry_of_upd(2)) (simp add: enqueue_def Let_def)

lemma books_enqueue:
  assumes inv: "adm_books lims H Q s"
  shows "adm_books lims H (Q(ad_next_ticket s \<mapsto> t)) (enqueue t s)"
proof -
  let ?k = "ad_next_ticket s" and ?s = "enqueue t s"
  have old: "finite (dom H)" "finite (dom Q)" "dom H \<inter> dom Q = {}" "\<forall>k \<in> dom H \<union> dom Q. k < ?k"
    "ad_running s = card (dom H)" "ad_waiting s = card (dom Q)" "\<And>u. running_of s u = card {k. H k = Some u}"
    "\<And>u. sorted_wrt (<) (queue_of s u)" "\<And>u. set (queue_of s u) = {k. Q k = Some u}"
    "distinct (ad_turn_order s)" "set (ad_turn_order s) = {t. queue_of s t \<noteq> []}"
    "\<And>k t k'. H k = Some t \<Longrightarrow> Q k' = Some t \<Longrightarrow> k < k'"
    "0 < tl_global_concurrency lims \<longrightarrow> ad_running s \<le> tl_global_concurrency lims"
    "\<And>t. \<not> is_exempt lims t \<longrightarrow> 0 < tl_tenant_concurrency lims \<longrightarrow> running_of s t \<le> tl_tenant_concurrency lims"
    using inv unfolding adm_books_def by blast+
  have fresh: "?k \<notin> dom H" "?k \<notin> dom Q" using old(4) by auto
  have fields: "ad_next_ticket ?s = Suc ?k" "ad_running ?s = ad_running s" "ad_waiting ?s = Suc (ad_waiting s)"
    "ad_turn_order ?s = (if queue_of s t = [] then ad_turn_order s @ [t] else ad_turn_order s)"
    by (simp_all add: enqueue_def Let_def)
  have q: "queue_of ?s u = (if u = t then queue_of s t @ [?k] else queue_of s u)" and r: "running_of ?s u = running_of s u" for u
    unfolding enqueue_entry by simp_all
  have members: "k < ?k" if "k \<in> set (queue_of s u)" for k u using that old(4,9) by blast
  show ?thesis
    unfolding adm_books_def
  proof (intro conjI)
    show "\<forall>k \<in> dom H \<union> dom (Q(?k \<mapsto> t)). k < ad_next_ticket ?s" using old(4) unfolding fields by (auto simp: less_Suc_eq)
    show "ad_waiting ?s = card (dom (Q(?k \<mapsto> t)))" using old(2,6) fresh unfolding fields by simp
    show "\<forall>u. sorted_wrt (<) (queue_of ?s u) \<and> set (queue_of ?s u) = {k. (Q(?k \<mapsto> t)) k = Some u}"
      using old(8,9) members fresh unfolding q by (auto simp: sorted_wrt_append)
    show "distinct (ad_turn_order ?s)" using old(10,11) unfolding fields by simp
    show "set (ad_turn_order ?s) = {u. queue_of ?s u \<noteq> []}" using old(11) unfolding fields q by auto
    show "\<forall>k u k'. H k = Some u \<longrightarrow> (Q(?k \<mapsto> t)) k' = Some u \<longrightarrow> k < k'" using old(4,12) by auto
    show "dom H \<inter> dom (Q(?k \<mapsto> t)) = {}" using old(3) fresh by auto
  qed (use old in \<open>simp_all add: fields r\<close>)
qed

lemma enqueue_ok:
  assumes "adm_ok lims P W s"
  shows "adm_ok lims P (W(ad_next_ticket s \<mapsto> t)) (enqueue t s)" and "W (ad_next_ticket s) = None" and "P (ad_next_ticket s) = None"
proof -
  let ?k = "ad_next_ticket s"
  have "\<forall>k \<in> dom (slots_map P W (ad_granted s)) \<union> dom (W |` (- ad_granted s)). k < ?k" and sub: "ad_granted s \<subseteq> dom W"
    using assms unfolding adm_ok_def adm_books_def by blast+
  moreover have "dom W \<union> dom P \<subseteq> dom (slots_map P W (ad_granted s)) \<union> dom (W |` (- ad_granted s))"
    by (auto simp: slots_map_def)
  ultimately have "\<forall>k \<in> dom W \<union> dom P. k < ?k" by blast
  then have fresh: "?k \<notin> dom W" "?k \<notin> dom P" by auto
  then show "W ?k = None" "P ?k = None" by auto
  have g: "ad_granted (enqueue t s) = ad_granted s" by (simp add: enqueue_def Let_def)
  have "?k \<notin> ad_granted s" using fresh sub by blast
  then have "slots_map P (W(?k \<mapsto> t)) (ad_granted s) = slots_map P W (ad_granted s)"
    "W(?k \<mapsto> t) |` (- ad_granted s) = (W |` (- ad_granted s))(?k \<mapsto> t)"
    by (auto simp: slots_map_def restrict_map_def fun_eq_iff map_add_def)
  then show "adm_ok lims P (W(?k \<mapsto> t)) (enqueue t s)"
    using assms books_enqueue [of lims _ _ s t] fresh unfolding adm_ok_def g by auto
qed

lemma pick_up_ok:
  assumes "adm_ok lims P W s" and "W k = Some t" and "k \<in> ad_granted s"
  shows "adm_ok lims (P(k \<mapsto> t)) (W(k := None)) (s\<lparr>ad_granted := ad_granted s - {k}\<rparr>)"
proof -
  have "P k = None" using assms by (auto simp: adm_ok_def)
  then have "slots_map (P(k \<mapsto> t)) (W(k := None)) (ad_granted s - {k}) = slots_map P W (ad_granted s)"
    "W(k := None) |` (- (ad_granted s - {k})) = W |` (- ad_granted s)"
    using assms(2,3) by (auto simp: slots_map_def map_add_def restrict_map_def fun_eq_iff fun_upd_apply split: option.splits)
  moreover have "adm_books lims H Q (s\<lparr>ad_granted := ad_granted s - {k}\<rparr>)" if "adm_books lims H Q s" for H Q
  proof (rule books_same [OF that])
    show "distinct (ad_turn_order (s\<lparr>ad_granted := ad_granted s - {k}\<rparr>))" using that by (simp add: adm_books_def)
  qed (simp_all add: entry_of_def)
  ultimately show ?thesis using assms unfolding adm_ok_def by auto
qed

lemma withdraw_entry:
  assumes "k \<in> set (queue_of s t)"
  shows "entry_of (withdraw t k s) = (entry_of s)(t := (entry_of s t)\<lparr>te_queue := remove1 k (queue_of s t)\<rparr>)"
    and "ad_waiting (withdraw t k s) = ad_waiting s - 1"
    and "ad_turn_order (withdraw t k s) =
      (if remove1 k (queue_of s t) = [] then filter (\<lambda>u. u \<noteq> t) (ad_turn_order s) else ad_turn_order s)"
    and "ad_running (withdraw t k s) = ad_running s" and "ad_next_ticket (withdraw t k s) = ad_next_ticket s"
    and "ad_granted (withdraw t k s) = ad_granted s"
proof -
  obtain e where e: "ad_tenants s t = Some e" using assms by (cases "ad_tenants s t") (auto simp: entry_of_def default_entry_def)
  with assms have w: "withdraw t k s =
      s\<lparr>ad_waiting := ad_waiting s - 1, ad_tenants := (ad_tenants s)(t \<mapsto> (entry_of s t)\<lparr>te_queue := remove1 k (queue_of s t)\<rparr>),
        ad_turn_order := (if remove1 k (queue_of s t) = [] then filter (\<lambda>u. u \<noteq> t) (ad_turn_order s) else ad_turn_order s)\<rparr>"
    by (simp add: withdraw_def entry_of_def Let_def)
  show "entry_of (withdraw t k s) = (entry_of s)(t := (entry_of s t)\<lparr>te_queue := remove1 k (queue_of s t)\<rparr>)"
    by (rule entry_of_upd(2)) (simp add: w)
  show "ad_waiting (withdraw t k s) = ad_waiting s - 1" "ad_running (withdraw t k s) = ad_running s"
    "ad_turn_order (withdraw t k s) = (if remove1 k (queue_of s t) = [] then filter (\<lambda>u. u \<noteq> t) (ad_turn_order s) else ad_turn_order s)"
    "ad_next_ticket (withdraw t k s) = ad_next_ticket s" "ad_granted (withdraw t k s) = ad_granted s"
    by (simp_all add: w)
qed

lemma sorted_distinct: "sorted_wrt (<) (xs :: nat list) \<Longrightarrow> distinct xs"
  by (induction xs) auto

lemma sorted_remove1: "sorted_wrt (<) (xs :: nat list) \<Longrightarrow> sorted_wrt (<) (remove1 x xs)"
  by (induction xs) (auto dest: in_set_remove1 [THEN iffD1, rotated] notin_set_remove1)

lemma books_withdraw:
  assumes inv: "adm_books lims H Q s" and k: "Q k = Some t"
  shows "adm_books lims H (Q(k := None)) (withdraw t k s)"
proof -
  let ?s = "withdraw t k s"
  have old: "finite (dom H)" "finite (dom Q)" "dom H \<inter> dom Q = {}" "\<forall>k \<in> dom H \<union> dom Q. k < ad_next_ticket s"
    "ad_running s = card (dom H)" "ad_waiting s = card (dom Q)" "\<And>u. running_of s u = card {k. H k = Some u}"
    "\<And>u. sorted_wrt (<) (queue_of s u)" "\<And>u. set (queue_of s u) = {k. Q k = Some u}"
    "distinct (ad_turn_order s)" "set (ad_turn_order s) = {t. queue_of s t \<noteq> []}"
    "\<And>k t k'. H k = Some t \<Longrightarrow> Q k' = Some t \<Longrightarrow> k < k'"
    "0 < tl_global_concurrency lims \<longrightarrow> ad_running s \<le> tl_global_concurrency lims"
    "\<And>t. \<not> is_exempt lims t \<longrightarrow> 0 < tl_tenant_concurrency lims \<longrightarrow> running_of s t \<le> tl_tenant_concurrency lims"
    using inv unfolding adm_books_def by blast+
  have mem: "k \<in> set (queue_of s t)" using old(9) k by simp
  note w = withdraw_entry [OF mem]
  have q: "queue_of ?s u = (if u = t then remove1 k (queue_of s t) else queue_of s u)" and r: "running_of ?s u = running_of s u" for u
    unfolding w(1) by simp_all
  have removed: "set (remove1 k (queue_of s t)) = set (queue_of s t) - {k}"
    using old(8) [of t] by (simp add: sorted_distinct)
  show ?thesis
    unfolding adm_books_def
  proof (intro conjI)
    show "\<forall>k' \<in> dom H \<union> dom (Q(k := None)). k' < ad_next_ticket ?s" using old(4) unfolding w by auto
    show "ad_waiting ?s = card (dom (Q(k := None)))" using old(2,6) k unfolding w by (simp add: card_Diff_singleton domI)
    show "\<forall>u. sorted_wrt (<) (queue_of ?s u) \<and> set (queue_of ?s u) = {k'. (Q(k := None)) k' = Some u}"
      using old(8,9) removed k unfolding q by (auto simp: sorted_remove1)
    show "distinct (ad_turn_order ?s)" using old(10) unfolding w by simp
    show "set (ad_turn_order ?s) = {u. queue_of ?s u \<noteq> []}" proof (cases "remove1 k (queue_of s t) = []")
      case True
      then have "queue_of ?s u \<noteq> [] \<longleftrightarrow> u \<noteq> t \<and> queue_of s u \<noteq> []" for u unfolding q by simp
      with True old(11) show ?thesis unfolding w(3) by auto
    next
      case False
      then have "queue_of ?s u \<noteq> [] \<longleftrightarrow> queue_of s u \<noteq> []" for u unfolding q by auto
      with False old(11) show ?thesis unfolding w(3) by simp
    qed
    show "\<forall>i u j. H i = Some u \<longrightarrow> (Q(k := None)) j = Some u \<longrightarrow> i < j" using old(12) by (auto split: if_splits)
    show "dom H \<inter> dom (Q(k := None)) = {}" using old(3) by auto
  qed (use old in \<open>simp_all add: w r\<close>)
qed

lemma withdraw_ok:
  assumes "adm_ok lims P W s" and "W k = Some t" and "k \<notin> ad_granted s"
  shows "adm_ok lims P (W(k := None)) (withdraw t k s)" and "adm_busy lims s \<Longrightarrow> adm_busy lims (withdraw t k s)"
proof -
  have mem: "k \<in> set (queue_of s t)" using queue_member [OF assms(1)] assms(2,3) by blast
  note w = withdraw_entry [OF mem]
  have "slots_map P (W(k := None)) (ad_granted s) = slots_map P W (ad_granted s)"
    "W(k := None) |` (- ad_granted s) = (W |` (- ad_granted s))(k := None)"
    using assms(3) by (auto simp: slots_map_def map_add_def restrict_map_def fun_eq_iff)
  moreover have "(W |` (- ad_granted s)) k = Some t" using assms(2,3) by simp
  ultimately show "adm_ok lims P (W(k := None)) (withdraw t k s)"
    using assms books_withdraw [of lims _ "W |` (- ad_granted s)" s k t] unfolding adm_ok_def w(6) by auto
  show "adm_busy lims (withdraw t k s)" if "adm_busy lims s"
  proof -
    have "running_of (withdraw t k s) u = running_of s u" for u unfolding w(1) by simp
    moreover have "set (ad_turn_order (withdraw t k s)) \<subseteq> set (ad_turn_order s)" unfolding w(3) by auto
    ultimately show ?thesis using that w(4) by (auto simp: adm_busy_def has_global_room_def at_cap_def)
  qed
qed

lemma freed_entry: "queue_of (freed t s) u = queue_of s u" "running_of (freed t s) u = (if u = t then running_of s u - 1 else running_of s u)"
  by (auto simp: freed_def entry_of_def default_entry_def split: option.splits)

lemma books_freed:
  assumes inv: "adm_books lims H Q s" and k: "H k = Some t"
  shows "adm_books lims (H(k := None)) Q (freed t s)"
proof -
  have old: "finite (dom H)" "finite (dom Q)" "dom H \<inter> dom Q = {}" "\<forall>k \<in> dom H \<union> dom Q. k < ad_next_ticket s"
    "ad_running s = card (dom H)" "ad_waiting s = card (dom Q)" "\<And>u. running_of s u = card {k. H k = Some u}"
    "\<And>u. sorted_wrt (<) (queue_of s u)" "\<And>u. set (queue_of s u) = {k. Q k = Some u}"
    "distinct (ad_turn_order s)" "set (ad_turn_order s) = {t. queue_of s t \<noteq> []}"
    "\<And>k t k'. H k = Some t \<Longrightarrow> Q k' = Some t \<Longrightarrow> k < k'"
    "0 < tl_global_concurrency lims \<longrightarrow> ad_running s \<le> tl_global_concurrency lims"
    "\<And>t. \<not> is_exempt lims t \<longrightarrow> 0 < tl_tenant_concurrency lims \<longrightarrow> running_of s t \<le> tl_tenant_concurrency lims"
    using inv unfolding adm_books_def by blast+
  have fields: "ad_next_ticket (freed t s) = ad_next_ticket s" "ad_running (freed t s) = ad_running s - 1"
    "ad_waiting (freed t s) = ad_waiting s" "ad_turn_order (freed t s) = ad_turn_order s"
    by (simp_all add: freed_def)
  have "{i. (H(k := None)) i = Some u} = {i. H i = Some u} - (if u = t then {k} else {})" for u using k by auto
  then have counted: "running_of (freed t s) u = card {i. (H(k := None)) i = Some u}" for u
    using old(7) [of u] k by (auto simp: freed_entry card_Diff_singleton)
  show ?thesis
    unfolding adm_books_def
  proof (intro conjI)
    show "\<forall>k' \<in> dom (H(k := None)) \<union> dom Q. k' < ad_next_ticket (freed t s)" using old(4) unfolding fields by auto
    show "ad_running (freed t s) = card (dom (H(k := None)))" using old(1,5) k unfolding fields by (simp add: card_Diff_singleton domI)
    show "\<forall>u. running_of (freed t s) u = card {i. (H(k := None)) i = Some u}" using counted by blast
    show "\<forall>i u j. (H(k := None)) i = Some u \<longrightarrow> Q j = Some u \<longrightarrow> i < j" using old(12) by (auto split: if_splits)
    show "dom (H(k := None)) \<inter> dom Q = {}" using old(3) by auto
    show "0 < tl_global_concurrency lims \<longrightarrow> ad_running (freed t s) \<le> tl_global_concurrency lims" using old(13) unfolding fields by auto
    show "\<forall>u. \<not> is_exempt lims u \<longrightarrow> 0 < tl_tenant_concurrency lims \<longrightarrow> running_of (freed t s) u \<le> tl_tenant_concurrency lims"
      using old(14) unfolding freed_entry by (auto intro: diff_le_self [THEN le_trans])
  qed (use old in \<open>simp_all add: fields freed_entry\<close>)
qed

lemma release_ok:
  assumes "adm_ok lims P W s" and "P k = Some t"
  shows "adm_ok lims (P(k := None)) W (release_turn lims t s) \<and> adm_busy lims (release_turn lims t s) \<and>
    sched_grows s (release_turn lims t s)"
proof -
  have "k \<notin> dom W" using assms by (auto simp: adm_ok_def)
  then have "slots_map (P(k := None)) W (ad_granted s) = (slots_map P W (ad_granted s))(k := None)"
    "slots_map P W (ad_granted s) k = Some t"
    using assms(2) by (auto simp: slots_map_def map_add_def restrict_map_def fun_eq_iff split: option.splits)
  moreover have "ad_granted (freed t s) = ad_granted s" by (simp add: freed_def)
  ultimately have "adm_ok lims (P(k := None)) W (freed t s)"
    using assms books_freed [of lims "slots_map P W (ad_granted s)" _ s k t] unfolding adm_ok_def by auto
  moreover have "sched_grows s (freed t s)" by (simp add: sched_grows_def freed_entry) (simp add: freed_def)
  ultimately show ?thesis
    unfolding release_turn_def using schedule_ok sched_grows_trans by blast
qed

section \<open>Every reachable gate\<close>

definition adm_inv :: "turn_limits \<Rightarrow> adm_world \<Rightarrow> bool" where
  "adm_inv lims w \<longleftrightarrow>
     adm_ok lims (aw_permits w) (aw_waiters w) (aw_state w) \<and> adm_busy lims (aw_state w) \<and> adm_depth lims (aw_state w)"

lemma ok_waiting: "adm_ok lims P W s \<Longrightarrow> ad_waiting s = card (dom W - ad_granted s) \<and> finite (dom W)"
proof -
  assume ok: "adm_ok lims P W s"
  have "dom (W |` (- ad_granted s)) = dom W - ad_granted s" by auto
  moreover have "finite (dom (W |` (- ad_granted s)))" "finite (dom (slots_map P W (ad_granted s)))" "ad_granted s \<subseteq> dom W"
    "ad_waiting s = card (dom (W |` (- ad_granted s)))"
    using ok unfolding adm_ok_def adm_books_def by blast+
  moreover from this(3) have "ad_granted s \<subseteq> dom (slots_map P W (ad_granted s))" by (auto simp: slots_map_def restrict_map_def)
  ultimately show ?thesis by (metis finite_Diff2 finite_subset)
qed

lemma depth_mono:
  assumes "adm_depth lims s" and "\<And>u. length (queue_of s' u) \<le> length (queue_of s u)" and "ad_waiting s' \<le> ad_waiting s"
  shows "adm_depth lims s'"
  using assms unfolding adm_depth_def by (meson le_trans)

lemma grows_depth:
  assumes "adm_depth lims s" and "sched_grows s s'" and "ad_waiting s' \<le> ad_waiting s"
  shows "adm_depth lims s'"
proof (rule depth_mono [OF assms(1) _ assms(3)])
  fix u
  obtain p where "queue_of s u = p @ queue_of s' u" using assms(2) unfolding sched_grows_def by blast
  then show "length (queue_of s' u) \<le> length (queue_of s u)" by simp
qed

lemma join_ok:
  assumes ok: "adm_ok lims P W s" and depth: "adm_depth lims s" and join: "admit_join lims t s = (r, s')"
  defines "k \<equiv> ad_next_ticket s"
  shows "adm_busy lims s' \<and> adm_depth lims s' \<and> W k = None \<and>
    (case r of Admitted \<Rightarrow> adm_ok lims (P(k \<mapsto> t)) W s'
     | Refused _ \<Rightarrow> adm_ok lims P W s'
     | Queued k' \<Rightarrow> k' = k \<and> adm_ok lims P (W(k \<mapsto> t)) s')"
proof -
  let ?s = "enqueue t s" and ?W = "W(k \<mapsto> t)"
  let ?s1 = "hand_out lims ?s"
  have e: "adm_ok lims P ?W ?s" "W k = None" using enqueue_ok [OF ok] unfolding k_def by auto
  from schedule_ok [OF e(1)] have s1: "adm_ok lims P ?W ?s1" "adm_busy lims ?s1" "sched_grows ?s ?s1" by auto
  have q: "queue_of ?s u = (if u = t then queue_of s t @ [k] else queue_of s u)" for u
    unfolding enqueue_entry k_def by simp
  have fields: "ad_waiting ?s = Suc (ad_waiting s)" "ad_granted ?s = ad_granted s" by (simp_all add: enqueue_def Let_def)
  have tail: "\<exists>p. queue_of ?s u = p @ queue_of ?s1 u" for u using s1(3) unfolding sched_grows_def by blast
  have shorter: "length (queue_of ?s1 u) \<le> length (queue_of ?s u)" for u using tail [of u] by auto
  have granted: "ad_granted s \<subseteq> ad_granted ?s1" using s1(3) fields(2) unfolding sched_grows_def by simp
  have w: "ad_waiting s = card (dom W - ad_granted s)" "finite (dom W)" "ad_waiting ?s1 = card (dom ?W - ad_granted ?s1)"
    using ok_waiting [OF ok] ok_waiting [OF s1(1)] by auto
  show ?thesis
  proof (cases "k \<in> ad_granted ?s1")
    case True
    have "k \<notin> set (queue_of ?s1 t)" using queue_member [OF s1(1)] True by blast
    then have "queue_of ?s1 t = []" using tail [of t] unfolding q by (cases "queue_of ?s1 t" rule: rev_cases) auto
    then have "length (queue_of ?s1 u) \<le> length (queue_of s u)" for u using shorter [of u] unfolding q by (cases "u = t") auto
    moreover have "ad_waiting ?s1 \<le> ad_waiting s"
      unfolding w(1,3) using True granted w(2) by (intro card_mono) auto
    ultimately have d: "adm_depth lims ?s1" using depth depth_mono by blast
    from join True have r: "r = Admitted" and s': "s' = take_turn_token lims t (?s1\<lparr>ad_granted := ad_granted ?s1 - {k}\<rparr>)"
      by (auto simp: admit_join_def Let_def k_def)
    have "adm_ok lims (P(k \<mapsto> t)) (?W(k := None)) (?s1\<lparr>ad_granted := ad_granted ?s1 - {k}\<rparr>)"
      by (rule pick_up_ok [OF s1(1) _ True]) simp
    moreover have "?W(k := None) = W" using e(2) by auto
    moreover have "adm_busy lims (?s1\<lparr>ad_granted := ad_granted ?s1 - {k}\<rparr>)" "adm_depth lims (?s1\<lparr>ad_granted := ad_granted ?s1 - {k}\<rparr>)"
      using s1(2) d by (simp_all add: adm_busy_def adm_depth_def has_global_room_def entry_of_def)
    ultimately show ?thesis
      unfolding s' r using same_shape_keeps [OF take_turn_token_shape] e(2) by simp
  next
    case False
    then have mem: "k \<in> set (queue_of ?s1 t)" using queue_member [OF s1(1)] by simp
    show ?thesis
    proof (cases "queue_is_full lims t ?s1")
      case True
      from join False True obtain d where r: "r = Refused d" and s': "s' = withdraw t k ?s1"
        by (auto simp: admit_join_def Let_def k_def)
      have "adm_ok lims P (?W(k := None)) s'" "adm_busy lims s'"
        using withdraw_ok [OF s1(1) _ False, of t] s1(2) unfolding s' by simp_all
      moreover have "?W(k := None) = W" using e(2) by auto
      moreover have "adm_depth lims s'"
      proof (rule depth_mono [OF depth])
        note wd = withdraw_entry [OF mem]
        show "length (queue_of s' u) \<le> length (queue_of s u)" for u
          using shorter [of u] mem unfolding s' wd(1) q by (cases "u = t") (auto simp: length_remove1)
        have "ad_waiting ?s1 \<le> Suc (ad_waiting s)"
          using ok_waiting [OF e(1)] fields granted w(2,3) by (metis Diff_mono card_mono dual_order.refl finite_Diff)
        then show "ad_waiting s' \<le> ad_waiting s" unfolding s' wd(2) by simp
      qed
      ultimately show ?thesis using r e(2) by simp
    next
      case full: False
      from join False full have r: "r = Queued k" and s': "s' = take_turn_token lims t ?s1"
        by (auto simp: admit_join_def Let_def k_def)
      have "adm_depth lims ?s1"
        unfolding adm_depth_def
      proof (intro conjI allI impI)
        fix u assume u: "\<not> is_exempt lims u" "0 < tl_tenant_queue_depth lims"
        show "length (queue_of ?s1 u) \<le> tl_tenant_queue_depth lims"
        proof (cases "u = t")
          case True
          with u full show ?thesis by (auto simp: queue_is_full_def)
        next
          case False
          with shorter [of u] have "length (queue_of ?s1 u) \<le> length (queue_of s u)" unfolding q by simp
          also have "\<dots> \<le> tl_tenant_queue_depth lims" using depth u by (simp add: adm_depth_def)
          finally show ?thesis .
        qed
      next
        assume "0 < tl_global_queue_depth lims"
        with full show "ad_waiting ?s1 \<le> tl_global_queue_depth lims" by (auto simp: queue_is_full_def)
      qed
      with s1 r e(2) show ?thesis unfolding s' using same_shape_keeps [OF take_turn_token_shape] by simp
    qed
  qed
qed

lemma enter_ok:
  assumes ok: "adm_ok lims P W s" and busy: "adm_busy lims s" and depth: "adm_depth lims s"
    and enter: "admit_enter lims now tenant_id s = (r, s')"
  defines "k \<equiv> ad_next_ticket s" and "t \<equiv> trim tenant_id"
  shows "adm_busy lims s' \<and> adm_depth lims s' \<and> W k = None \<and>
    (case r of Admitted \<Rightarrow> adm_ok lims (P(k \<mapsto> t)) W s'
     | Refused _ \<Rightarrow> adm_ok lims P W s'
     | Queued k' \<Rightarrow> k' = k \<and> adm_ok lims P (W(k \<mapsto> t)) s')"
proof -
  define s0 where "s0 = (if card (dom (ad_tenants s)) > SWEEP_ABOVE then sweep now s else s)"
  have shape: "same_shape s s0" unfolding s0_def using sweep_shape by (simp add: same_shape_def)
  have joined: ?thesis if "same_shape s s2" "admit_join lims t s2 = (r, s')" for s2
  proof -
    have "ad_next_ticket s2 = k" using that(1) by (simp add: k_def same_shape_def)
    with join_ok [OF same_shape_keeps(1) [OF that(1) ok] same_shape_keeps(3) [OF that(1) depth] that(2)] show ?thesis by (cases r) simp_all
  qed
  show ?thesis
  proof (cases "is_exempt lims t")
    case True
    with enter have "admit_join lims t s0 = (r, s')" by (simp add: admit_enter_def Let_def s0_def t_def)
    with shape show ?thesis by (rule joined)
  next
    case False
    obtain d e where c: "check_buckets lims now (entry_of s0 t) = (d, e)" by fastforce
    then have "same_shape s0 (put_entry t e s0)" by (intro put_entry_shape) (auto dest: check_buckets_entry)
    with shape have shape': "same_shape s (put_entry t e s0)" by (rule same_shape_trans)
    show ?thesis
    proof (cases d)
      case None
      with enter False c have "admit_join lims t (put_entry t e s0) = (r, s')" by (simp add: admit_enter_def Let_def s0_def t_def)
      with shape' show ?thesis by (rule joined)
    next
      case (Some denied)
      with enter False c have "r = Refused denied" "s' = put_entry t e s0" by (auto simp: admit_enter_def Let_def s0_def t_def)
      then show ?thesis using same_shape_keeps [OF shape'] ok busy depth enqueue_ok(2) [OF ok] by (simp add: k_def)
    qed
  qed
qed

lemma pick_up_inv:
  assumes "adm_inv lims w" and "aw_waiters w k = Some t" and "k \<in> ad_granted (aw_state w)"
  shows "adm_inv lims
    (w\<lparr>aw_state := (aw_state w)\<lparr>ad_granted := ad_granted (aw_state w) - {k}\<rparr>, aw_permits := (aw_permits w)(k \<mapsto> t),
       aw_waiters := (aw_waiters w)(k := None)\<rparr>)"
  using assms pick_up_ok [of lims "aw_permits w" "aw_waiters w" "aw_state w" k t]
  by (simp add: adm_inv_def adm_busy_def adm_depth_def has_global_room_def entry_of_def)

lemma step_inv:
  assumes "adm_step lims i w w'" and inv: "adm_inv lims w"
  shows "adm_inv lims w'"
proof -
have now: "adm_ok lims (aw_permits w) (aw_waiters w) (aw_state w)" "adm_busy lims (aw_state w)" "adm_depth lims (aw_state w)"
  using inv by (simp_all add: adm_inv_def)
show ?thesis
  using assms(1)
proof cases
  case (enter_admitted tenant_id s)
  with enter_ok [OF now enter_admitted(2)] show ?thesis by (simp add: adm_inv_def)
next
  case (enter_queued tenant_id ticket s)
  with enter_ok [OF now enter_queued(2)] show ?thesis by (simp add: adm_inv_def)
next
  case (enter_refused tenant_id d s)
  with enter_ok [OF now enter_refused(2)] show ?thesis by (simp add: adm_inv_def)
next
  case (wake ticket t s)
  with inv pick_up_inv [OF inv wake(2)] show ?thesis by (auto simp: admit_wake_def split: if_splits)
next
  case (late_grant ticket t s)
  with inv pick_up_inv [OF inv late_grant(2)] show ?thesis by (auto simp: admit_timeout_def split: if_splits)
next
  case (give_up ticket t d s)
  then have k: "ticket \<notin> ad_granted (aw_state w)" and s: "s = withdraw t ticket (aw_state w)"
    by (auto simp: admit_timeout_def split: if_splits)
  have ok: "adm_ok lims (aw_permits w) (aw_waiters w) (aw_state w)" using inv by (simp add: adm_inv_def)
  have mem: "ticket \<in> set (queue_of (aw_state w) t)" using queue_member [OF ok] give_up(2) k by blast
  note wd = withdraw_entry [OF mem]
  have "adm_depth lims s"
  proof (rule depth_mono [of lims "aw_state w"])
    show "length (queue_of s u) \<le> length (queue_of (aw_state w) u)" for u unfolding s wd(1) by (simp add: length_remove1)
    show "ad_waiting s \<le> ad_waiting (aw_state w)" unfolding s wd(2) by simp
  qed (use inv in \<open>simp add: adm_inv_def\<close>)
  with inv withdraw_ok [OF ok give_up(2) k] give_up s show ?thesis by (simp add: adm_inv_def)
next
  case (finish_turn ticket t)
  have ok: "adm_ok lims (aw_permits w) (aw_waiters w) (aw_state w)" using inv by (simp add: adm_inv_def)
  from release_ok [OF ok finish_turn(2)]
  have r: "adm_ok lims ((aw_permits w)(ticket := None)) (aw_waiters w) (release_turn lims t (aw_state w))"
    "adm_busy lims (release_turn lims t (aw_state w))" "sched_grows (aw_state w) (release_turn lims t (aw_state w))" by auto
  have "ad_waiting (release_turn lims t (aw_state w)) \<le> ad_waiting (aw_state w)"
    using ok_waiting [OF ok] ok_waiting [OF r(1)] r(3) unfolding sched_grows_def
    by (metis Diff_mono card_mono dual_order.refl finite_Diff)
  with grows_depth [OF _ r(3)] inv r(1,2) finish_turn show ?thesis by (simp add: adm_inv_def)
next
  case (charge tenant_id tokens)
  with inv same_shape_keeps [OF charge_tokens_shape] show ?thesis by (simp add: adm_inv_def)
qed
qed

lemma start_inv: "adm_inv lims adm_start"
  by (simp add: adm_inv_def adm_start_def adm_ok_def adm_books_def adm_busy_def adm_depth_def adm_default_def slots_map_def
      entry_of_def default_entry_def)

interpretation gate: invariant_system "\<lambda>w. w = adm_start" "\<lambda>v v'. \<exists>now. adm_step lims now v v'" "adm_inv lims" for lims
  by unfold_locales (auto intro: start_inv step_inv)

lemma reachable_inv: "adm_reachable lims w \<Longrightarrow> adm_inv lims w"
  unfolding adm_reachable_def by (rule gate.inv_reachable [OF refl])

section \<open>What the gate promises\<close>

text \<open>
  C12. The caps. In every reachable gate, whatever instants the operations read, at most \<open>global_concurrency\<close> permits are
  out and at most \<open>tenant_concurrency\<close> of one tenant that is not exempt; at most \<open>tenant_queue_depth\<close> turns of it and
  at most \<open>global_queue_depth\<close> turns in all wait for a slot (zero is unbounded); the counter of running turns is the
  number of permits and of grants not picked up.
\<close>

theorem turns_within_caps:
  assumes "adm_reachable lims w"
  shows "(tl_global_concurrency lims = 0 \<or> card (dom (aw_permits w)) \<le> tl_global_concurrency lims) \<and>
    (is_exempt lims t \<or> tl_tenant_concurrency lims = 0 \<or> card {k. aw_permits w k = Some t} \<le> tl_tenant_concurrency lims) \<and>
    (is_exempt lims t \<or> tl_tenant_queue_depth lims = 0 \<or>
       card {k. aw_waiters w k = Some t \<and> k \<notin> ad_granted (aw_state w)} \<le> tl_tenant_queue_depth lims) \<and>
    (tl_global_queue_depth lims = 0 \<or> card (dom (aw_waiters w) - ad_granted (aw_state w)) \<le> tl_global_queue_depth lims) \<and>
    ad_running (aw_state w) = card (dom (aw_permits w)) + card (ad_granted (aw_state w))"
proof -
  let ?P = "aw_permits w" and ?W = "aw_waiters w" and ?s = "aw_state w"
  let ?H = "slots_map ?P ?W (ad_granted ?s)"
  have inv: "adm_ok lims ?P ?W ?s" "adm_depth lims ?s" using reachable_inv [OF assms] by (auto simp: adm_inv_def)
  then have books: "adm_books lims ?H (?W |` (- ad_granted ?s)) ?s" and sub: "ad_granted ?s \<subseteq> dom ?W" and dis: "dom ?P \<inter> dom ?W = {}"
    by (auto simp: adm_ok_def)
  then have fin: "finite (dom ?H)" and run: "ad_running ?s = card (dom ?H)" "\<And>t. running_of ?s t = card {k. ?H k = Some t}"
    and qs: "\<And>t. sorted_wrt (<) (queue_of ?s t)"
    by (auto simp: adm_books_def)
  have dom: "dom ?H = dom ?P \<union> ad_granted ?s" using sub by (auto simp: slots_map_def)
  then have sum: "card (dom ?H) = card (dom ?P) + card (ad_granted ?s)"
    using fin dis sub by (metis card_Un_disjoint disjoint_eq_subset_Compl finite_Un inf.absorb_iff2 inf_assoc inf_bot_right)
  have "{k. ?P k = Some t} \<subseteq> {k. ?H k = Some t}"
    using sub dis by (auto simp: slots_map_def map_add_def restrict_map_def split: option.splits)
  moreover have "finite {k. ?H k = Some t}" using fin by (rule rev_finite_subset) auto
  ultimately have tenant: "card {k. ?P k = Some t} \<le> running_of ?s t" unfolding run(2) by (rule card_mono [rotated])
  have "set (queue_of ?s t) = {k. ?W k = Some t \<and> k \<notin> ad_granted ?s}" using queue_member [OF inv(1)] by blast
  moreover have "card (set (queue_of ?s t)) = length (queue_of ?s t)" using qs by (simp add: distinct_card sorted_distinct)
  ultimately have queue: "card {k. ?W k = Some t \<and> k \<notin> ad_granted ?s} = length (queue_of ?s t)" by simp
  have caps: "tl_global_concurrency lims = 0 \<or> ad_running ?s \<le> tl_global_concurrency lims"
    "is_exempt lims t \<or> tl_tenant_concurrency lims = 0 \<or> running_of ?s t \<le> tl_tenant_concurrency lims"
    using books unfolding adm_books_def by blast+
  show ?thesis
    using caps tenant queue sum run(1) inv(2) ok_waiting [OF inv(1)] by (auto simp: adm_depth_def)
qed

text \<open>
  C13. No slot idles. While a turn waits without a grant, every global slot is taken or its tenant is at its own cap: no
  wake-up is lost and no slot stays free.
\<close>

theorem no_idle_slot:
  assumes "adm_reachable lims w" and "aw_waiters w k = Some t" and "k \<notin> ad_granted (aw_state w)"
  shows "0 < tl_global_concurrency lims \<and> ad_running (aw_state w) = tl_global_concurrency lims \<or>
    \<not> is_exempt lims t \<and> 0 < tl_tenant_concurrency lims \<and> running_of (aw_state w) t = tl_tenant_concurrency lims"
proof -
  have inv: "adm_ok lims (aw_permits w) (aw_waiters w) (aw_state w)" "adm_busy lims (aw_state w)"
    using reachable_inv [OF assms(1)] by (auto simp: adm_inv_def)
  then have books: "set (ad_turn_order (aw_state w)) = {t. queue_of (aw_state w) t \<noteq> []}"
    "0 < tl_global_concurrency lims \<longrightarrow> ad_running (aw_state w) \<le> tl_global_concurrency lims"
    "\<not> is_exempt lims t \<longrightarrow> 0 < tl_tenant_concurrency lims \<longrightarrow> running_of (aw_state w) t \<le> tl_tenant_concurrency lims"
    unfolding adm_ok_def adm_books_def by blast+
  have "queue_of (aw_state w) t \<noteq> []" using queue_member [OF inv(1)] assms(2,3) by (metis empty_iff empty_set)
  with books(1) inv(2) have "\<not> has_global_room lims (aw_state w) \<or> at_cap lims t (entry_of (aw_state w) t)"
    by (auto simp: adm_busy_def)
  with books(2,3) show ?thesis by (auto simp: has_global_room_def at_cap_def)
qed

text \<open>
  Turns of one tenant get their slots in the order they arrived: a ticket that has one is smaller than every ticket of
  the tenant that still waits.
\<close>

theorem arrival_order:
  assumes "adm_reachable lims w" and "aw_waiters w k' = Some t" and "k' \<notin> ad_granted (aw_state w)"
    and "aw_permits w k = Some t \<or> aw_waiters w k = Some t \<and> k \<in> ad_granted (aw_state w)"
  shows "k < k'"
proof -
  have ok: "adm_ok lims (aw_permits w) (aw_waiters w) (aw_state w)" using reachable_inv [OF assms(1)] by (simp add: adm_inv_def)
  then have fifo: "\<forall>k t k'. slots_map (aw_permits w) (aw_waiters w) (ad_granted (aw_state w)) k = Some t \<longrightarrow>
      (aw_waiters w |` (- ad_granted (aw_state w))) k' = Some t \<longrightarrow> k < k'" and dis: "dom (aw_permits w) \<inter> dom (aw_waiters w) = {}"
    unfolding adm_ok_def adm_books_def by blast+
  have "slots_map (aw_permits w) (aw_waiters w) (ad_granted (aw_state w)) k = Some t"
    using assms(4) dis by (auto simp: slots_map_def map_add_def restrict_map_def split: option.splits)
  with fifo assms(2,3) show ?thesis by (auto simp: restrict_map_def)
qed

section \<open>Tenants in turn\<close>

definition place :: "string \<Rightarrow> adm_state \<Rightarrow> nat" where
  "place t s = length (takeWhile (\<lambda>u. u \<noteq> t) (ad_turn_order s))"

text \<open>What a run of the loop does to a tenant, whatever the state.\<close>

lemma loop_effect:
  "\<exists>p. queue_of s u = p @ queue_of (schedule_loop lims passes s) u \<and> set p \<subseteq> ad_granted (schedule_loop lims passes s) \<and>
     ad_granted s \<subseteq> ad_granted (schedule_loop lims passes s) \<and> ad_running s \<le> ad_running (schedule_loop lims passes s) \<and>
     te_turns (entry_of (schedule_loop lims passes s) u) = te_turns (entry_of s u)"
proof (induction lims passes s rule: schedule_loop.induct)
  case (1 lims passes s)
  show ?case
  proof (cases "has_global_room lims s \<and> passes < length (ad_turn_order s)")
    case False
    then show ?thesis by (auto simp: loop_stop)
  next
    case True
    then obtain t order where order: "ad_turn_order s = t # order" by (cases "ad_turn_order s") auto
    obtain r s' where turn: "sched_turn lims t order s = (r, s')" by fastforce
    show ?thesis
    proof (cases r)
      case Dropped
      with turn have "s' = s\<lparr>ad_turn_order := order\<rparr>" by (auto dest: sched_dropped)
      with "1.IH"(1) [OF True order turn [symmetric] Dropped] show ?thesis
        by (simp add: loop_turn [OF True order turn] Dropped)
    next
      case Passed
      with turn have "s' = s\<lparr>ad_turn_order := order @ [t]\<rparr>" by (auto dest: sched_passed)
      with "1.IH"(2) [OF True order turn [symmetric] Passed] show ?thesis
        by (simp add: loop_turn [OF True order turn] Passed)
    next
      case Granted
      with turn obtain k queue where g: "queue_of s t = k # queue" and f: "ad_running s' = Suc (ad_running s)" "ad_granted s' = insert k (ad_granted s)"
        and e: "entry_of s' = (entry_of s)(t := (entry_of s t)\<lparr>te_running := running_of s t + 1, te_queue := queue\<rparr>)"
        using sched_granted [of lims t order s s'] by (auto simp: entry_of_upd(2))
      let ?e = "schedule_loop lims 0 s'"
      have step: "schedule_loop lims passes s = ?e" using loop_turn [OF True order turn] by (simp add: Granted)
      from "1.IH"(3) [OF True order turn [symmetric] Granted] obtain p where p: "queue_of s' u = p @ queue_of ?e u" "set p \<subseteq> ad_granted ?e"
        "ad_granted s' \<subseteq> ad_granted ?e" "ad_running s' \<le> ad_running ?e" "te_turns (entry_of ?e u) = te_turns (entry_of s' u)" by blast
      show ?thesis
        unfolding step
        by (rule exI [of _ "if u = t then k # p else p"]) (use g f p in \<open>auto simp: e\<close>)
    qed
  qed
qed

lemma loop_in_turn:
  assumes "t \<in> set (ad_turn_order s)" and "\<not> at_cap lims t (entry_of s t)" and "queue_of s t = k # q"
  shows "k \<in> ad_granted (schedule_loop lims passes s) \<or>
    t \<in> set (ad_turn_order (schedule_loop lims passes s)) \<and>
    place t (schedule_loop lims passes s) + (ad_running (schedule_loop lims passes s) - ad_running s) \<le> place t s"
  using assms
proof (induction lims passes s rule: schedule_loop.induct)
  case (1 lims passes s)
  show ?case
  proof (cases "has_global_room lims s \<and> passes < length (ad_turn_order s)")
    case False
    with "1.prems" show ?thesis by (simp add: loop_stop)
  next
    case True
    then obtain u order where order: "ad_turn_order s = u # order" by (cases "ad_turn_order s") auto
    obtain r s' where turn: "sched_turn lims u order s = (r, s')" by fastforce
    show ?thesis
    proof (cases r)
      case Dropped
      with turn have d: "queue_of s u = []" "s' = s\<lparr>ad_turn_order := order\<rparr>" by (auto dest: sched_dropped)
      then have "u \<noteq> t" using "1.prems"(3) by auto
      with "1.IH"(1) [OF True order turn [symmetric] Dropped] "1.prems" d True order show ?thesis
        by (auto simp: loop_turn [OF True order turn] Dropped place_def)
    next
      case Passed
      with turn have p: "at_cap lims u (entry_of s u)" "s' = s\<lparr>ad_turn_order := order @ [u]\<rparr>" by (auto dest: sched_passed)
      then have ne: "u \<noteq> t" using "1.prems"(2) by auto
      then have "place t s = Suc (place t s')" using "1.prems"(1) order p by (simp add: place_def takeWhile_append1)
      with ne "1.IH"(2) [OF True order turn [symmetric] Passed] "1.prems" p True order show ?thesis
        by (auto simp: loop_turn [OF True order turn] Passed)
    next
      case Granted
      with turn obtain k' queue where g: "queue_of s u = k' # queue" and f: "ad_running s' = Suc (ad_running s)" "ad_granted s' = insert k' (ad_granted s)"
        "ad_turn_order s' = order @ (if queue = [] then [] else [u])"
        and e: "entry_of s' = (entry_of s)(u := (entry_of s u)\<lparr>te_running := running_of s u + 1, te_queue := queue\<rparr>)"
        using sched_granted [of lims u order s s'] by (auto simp: entry_of_upd(2))
      have step: "schedule_loop lims passes s = schedule_loop lims 0 s'"
        using loop_turn [OF True order turn] by (simp add: Granted)
      have more: "ad_granted s' \<subseteq> ad_granted (schedule_loop lims 0 s')" "ad_running s' \<le> ad_running (schedule_loop lims 0 s')"
        using loop_effect [of s' t lims 0] by auto
      show ?thesis
      proof (cases "u = t")
        case True
        with g "1.prems"(3) f more(1) show ?thesis unfolding step by auto
      next
        case False
        then have "place t s = Suc (place t s')" using "1.prems"(1) order f by (simp add: place_def takeWhile_append1)
        with False "1.IH"(3) [OF True order turn [symmetric] Granted] "1.prems" f more(2) e order show ?thesis unfolding step by auto
      qed
    qed
  qed
qed

text \<open>
  Tenants in turn. When slots are handed out, a waiting tenant below its cap either gets its first waiting turn
  granted, or moves up in the order by at least the number of slots handed to others: it is passed over at most as often
  as tenants stand before it.
\<close>

theorem next_in_turn:
  assumes "t \<in> set (ad_turn_order s)" and "\<not> at_cap lims t (entry_of s t)" and "queue_of s t = k # q"
  shows "k \<in> ad_granted (hand_out lims s) \<or>
    t \<in> set (ad_turn_order (hand_out lims s)) \<and> place t (hand_out lims s) + (ad_running (hand_out lims s) - ad_running s) \<le> place t s"
  unfolding hand_out_def using assms by (rule loop_in_turn)

section \<open>The rate of turns\<close>






lemma seconds_zero [simp]: "seconds 0 = 0"
  by (simp add: seconds_def)




















text \<open>A stretch of steps with the instants they happen at, which do not go back.\<close>

inductive adm_trace :: "turn_limits \<Rightarrow> nat \<Rightarrow> adm_world \<Rightarrow> nat \<Rightarrow> adm_world \<Rightarrow> bool" for lims where
  trace_start: "adm_trace lims n w n w"
| trace_step: "adm_trace lims n w m v \<Longrightarrow> m \<le> m' \<Longrightarrow> adm_step lims m' v v' \<Longrightarrow> adm_trace lims n w m' v'"




section \<open>Examples\<close>

lemma trim_a: "trim ''a'' = ''a''"
  by (rule trim_visible) (simp_all add: visible_def)

lemmas gate_simps = admit_enter_def admit_join_def enqueue_def hand_out_def schedule_loop.simps sched_turn_def entry_of_def
  put_entry_def check_buckets_def check_turns_def take_turn_token_def has_global_room_def at_cap_def is_exempt_def
  or_full_def bucket_full_def refill_def seconds_def adm_default_def default_entry_def SWEEP_ABOVE_def queue_is_full_def trim_a Let_def

definition example_limits :: turn_limits where
  "example_limits = \<lparr>tl_global_concurrency = 1, tl_tenant_concurrency = 0, tl_turns_per_minute = 30, tl_tokens_per_minute = 0,
     tl_tenant_queue_depth = 0, tl_global_queue_depth = 0, tl_exempt_tenants = []\<rparr>"

definition example_bucket :: "rat \<Rightarrow> bucket" where
  "example_bucket level = \<lparr>bk_capacity = 30, bk_per_second = 1 / 2, bk_level = level, bk_at = 0\<rparr>"

definition example_first :: adm_state where
  "example_first = \<lparr>ad_running = 1, ad_waiting = 0, ad_next_ticket = 1, ad_granted = {}, ad_turn_order = [],
     ad_tenants = [''a'' \<mapsto> \<lparr>te_running = 1, te_queue = [], te_turns = Some (example_bucket 29), te_tokens = None\<rparr>]\<rparr>"

definition example_second :: adm_state where
  "example_second = \<lparr>ad_running = 1, ad_waiting = 1, ad_next_ticket = 2, ad_granted = {}, ad_turn_order = [''a''],
     ad_tenants = [''a'' \<mapsto> \<lparr>te_running = 1, te_queue = [1], te_turns = Some (example_bucket 28), te_tokens = None\<rparr>]\<rparr>"

lemma example_enters:
  "admit_enter example_limits 0 ''a'' adm_default = (Admitted, example_first)"
  "admit_enter example_limits 0 ''a'' example_first = (Queued 1, example_second)"
  by (simp_all add: gate_simps example_limits_def example_first_def example_second_def example_bucket_def)

definition example_world :: adm_world where
  "example_world = \<lparr>aw_state = example_second, aw_permits = [0 \<mapsto> ''a''], aw_waiters = [1 \<mapsto> ''a''], aw_taken = (\<lambda>_. 0)(''a'' := 2)\<rparr>"

lemma example_trace: "adm_trace example_limits 0 adm_start 0 example_world"
proof -
  have "adm_step example_limits 0 adm_start
      \<lparr>aw_state = example_first, aw_permits = [0 \<mapsto> ''a''], aw_waiters = Map.empty, aw_taken = (\<lambda>_. 0)(''a'' := 1)\<rparr>"
    using adm_step.enter_admitted [of example_limits 0 "''a''" adm_start example_first] example_enters(1)
    by (simp add: adm_start_def trim_a) (simp add: adm_default_def)
  moreover have "adm_step example_limits 0
      \<lparr>aw_state = example_first, aw_permits = [0 \<mapsto> ''a''], aw_waiters = Map.empty, aw_taken = (\<lambda>_. 0)(''a'' := 1)\<rparr> example_world"
    using adm_step.enter_queued [of example_limits 0 "''a''"
        "\<lparr>aw_state = example_first, aw_permits = [0 \<mapsto> ''a''], aw_waiters = Map.empty, aw_taken = (\<lambda>_. 0)(''a'' := 1)\<rparr>" 1 example_second]
      example_enters(2)
    by (simp add: example_world_def trim_a numeral_2_eq_2)
  ultimately show ?thesis by (meson adm_trace.intros le_refl)
qed

lemma trace_reachable: "adm_trace lims n w m v \<Longrightarrow> adm_reachable lims w \<Longrightarrow> adm_reachable lims v"
proof (induction rule: adm_trace.induct)
  case (trace_step n w m v m' v')
  then have "\<exists>now. adm_step lims now v v'" "adm_reachable lims v" by auto
  then show ?case unfolding adm_reachable_def by (simp add: rtranclp.rtrancl_into_rtrancl)
qed simp

lemma example_reachable: "adm_reachable example_limits example_world"
  using trace_reachable [OF example_trace] by (simp add: adm_reachable_def)

theorem turns_within_caps_witness:
  "card (dom (aw_permits example_world)) \<le> 1 \<and> ad_running example_second = 1"
  using turns_within_caps [OF example_reachable, of "''a''"] by (simp add: example_limits_def example_world_def example_second_def)

theorem no_idle_slot_witness:
  "aw_waiters example_world 1 = Some ''a'' \<and> ad_running (aw_state example_world) = tl_global_concurrency example_limits"
proof -
  have "aw_waiters example_world 1 = Some ''a''" "1 \<notin> ad_granted (aw_state example_world)"
    by (simp_all add: example_world_def example_second_def)
  from no_idle_slot [OF example_reachable this] this show ?thesis by (simp add: example_limits_def)
qed

theorem arrival_order_witness: "(0 :: nat) < 1 \<and> aw_permits example_world 0 = Some ''a'' \<and> aw_waiters example_world 1 = Some ''a''"
proof -
  have "aw_waiters example_world 1 = Some ''a''" "1 \<notin> ad_granted (aw_state example_world)" "aw_permits example_world 0 = Some ''a''"
    by (simp_all add: example_world_def example_second_def)
  with arrival_order [OF example_reachable, of 1 "''a''" 0] show ?thesis by blast
qed

theorem next_in_turn_witness:
  "queue_of (freed ''a'' example_second) ''a'' = [1] \<and> 1 \<in> ad_granted (hand_out example_limits (freed ''a'' example_second))"
proof -
  have h: "''a'' \<in> set (ad_turn_order (freed ''a'' example_second))" "\<not> at_cap example_limits ''a'' (entry_of (freed ''a'' example_second) ''a'')"
    "queue_of (freed ''a'' example_second) ''a'' = 1 # []"
    by (simp_all add: freed_def example_second_def entry_of_def at_cap_def example_limits_def)
  have "ad_running (hand_out example_limits (freed ''a'' example_second)) = 1"
    "ad_running (freed ''a'' example_second) = 0" "place ''a'' (freed ''a'' example_second) = 0"
    by (simp_all add: gate_simps freed_def example_second_def example_limits_def place_def)
  with next_in_turn [OF h] h(3) show ?thesis by simp
qed


section \<open>Instants read before the lock\<close>

definition one_per_minute :: turn_limits where
  "one_per_minute = \<lparr>tl_global_concurrency = 0, tl_tenant_concurrency = 0, tl_turns_per_minute = 1, tl_tokens_per_minute = 100,
     tl_tenant_queue_depth = 0, tl_global_queue_depth = 0, tl_exempt_tenants = []\<rparr>"

text \<open>
  An instant from before the lock. \<open>admit\<close> reads the clock before it takes the lock, and \<open>refill\<close> sets the bucket back
  to an older instant: with one turn per minute, a second turn is admitted after half a minute when a caller with
  the first instant comes in between, which it is not otherwise.
\<close>

theorem stale_instant_refills_twice:
  "let enter = (\<lambda>now s. snd (admit_enter one_per_minute now ''a'' s)); half = 30 * 10 ^ 9;
       s1 = enter 0 adm_default; s2 = enter half s1; s3 = enter 0 s2
   in fst (admit_enter one_per_minute 0 ''a'' adm_default) = Admitted \<and>
      fst (admit_enter one_per_minute half ''a'' s2) \<noteq> Admitted \<and>
      fst (admit_enter one_per_minute half ''a'' s3) = Admitted"
  by (simp add: gate_simps one_per_minute_def)

text \<open>
  Debt of all running turns. Two turns admitted within a budget of 100 tokens charge 1000 each and leave a debt of
  1900: more than one turn's usage.
\<close>

theorem debt_of_all_turns:
  "let s1 = snd (admit_enter (one_per_minute\<lparr>tl_turns_per_minute := 0\<rparr>) 0 ''a'' adm_default);
       s2 = snd (admit_enter (one_per_minute\<lparr>tl_turns_per_minute := 0\<rparr>) 0 ''a'' s1);
       s3 = charge_tokens one_per_minute 0 ''a'' 1000 s2; s4 = charge_tokens one_per_minute 0 ''a'' 1000 s3
   in ad_running s2 = 2 \<and> map_option bk_level (te_tokens (entry_of s4 ''a'')) = Some (- 1900)"
  by (simp add: gate_simps one_per_minute_def charge_tokens_def)

end
