(* ===== verification/Work_Item_Types.thy ===== *)
theory Work_Item_Types
  imports Tables Shared_Types
begin

text \<open>
  Work items: the vocabulary of crates/domains/workitems/src/types.rs, the stage of an item (stage.rs), and the
  report a round ends with and the question it is asked (report.rs). Documents stored as JSON text are the values
  they encode.
\<close>

section \<open>Vocabulary\<close>

datatype item_state = ItemOpen | ItemEnded

fun item_state_str :: "item_state \<Rightarrow> string" where
  "item_state_str ItemOpen = ''open''"
| "item_state_str ItemEnded = ''ended''"

definition parse_item_state :: "string \<Rightarrow> item_state option" where
  "parse_item_state v = (if v = ''open'' then Some ItemOpen else if v = ''ended'' then Some ItemEnded else None)"

datatype end_reason = EndCompleted | EndDropped | EndRevoked | EndStopped

fun end_reason_str :: "end_reason \<Rightarrow> string" where
  "end_reason_str EndCompleted = ''completed''"
| "end_reason_str EndDropped = ''dropped''"
| "end_reason_str EndRevoked = ''revoked''"
| "end_reason_str EndStopped = ''stopped''"

definition parse_end_reason :: "string \<Rightarrow> end_reason option" where
  "parse_end_reason v =
     (if v = ''completed'' then Some EndCompleted else if v = ''dropped'' then Some EndDropped
      else if v = ''revoked'' then Some EndRevoked else if v = ''stopped'' then Some EndStopped else None)"

datatype item_stage =
    PersonDelivery | PersonApproval | PersonAnswer | PersonBlocked | PersonFailed | StageQueued | StageWorking | StageIdle

fun item_stage_str :: "item_stage \<Rightarrow> string" where
  "item_stage_str PersonDelivery = ''person/delivery''"
| "item_stage_str PersonApproval = ''person/approval''"
| "item_stage_str PersonAnswer = ''person/answer''"
| "item_stage_str PersonBlocked = ''person/blocked''"
| "item_stage_str PersonFailed = ''person/failed''"
| "item_stage_str StageQueued = ''queued''"
| "item_stage_str StageWorking = ''working''"
| "item_stage_str StageIdle = ''idle''"

datatype report_status = Progress | Waiting | Ready | Blocked | RepFailed | RepDropped

fun report_status_str :: "report_status \<Rightarrow> string" where
  "report_status_str Progress = ''progress''"
| "report_status_str Waiting = ''waiting''"
| "report_status_str Ready = ''ready''"
| "report_status_str Blocked = ''blocked''"
| "report_status_str RepFailed = ''failed''"
| "report_status_str RepDropped = ''dropped''"

fun ends_with :: "report_status \<Rightarrow> end_reason option" where
  "ends_with Ready = Some EndCompleted"
| "ends_with RepDropped = Some EndDropped"
| "ends_with _ = None"

datatype report_reason = ReportUnreadable

record attention =
  an_question :: string
  an_options :: "string list"

record report =
  rp_status :: report_status
  rp_summary :: string
  rp_attention :: "attention option"
  rp_reason :: "report_reason option"

datatype basis = BasisApi | BasisImMention | BasisImDirect | BasisRule

fun basis_str :: "basis \<Rightarrow> string" where
  "basis_str BasisApi = ''api''"
| "basis_str BasisImMention = ''im_mention''"
| "basis_str BasisImDirect = ''im_direct''"
| "basis_str BasisRule = ''rule''"

datatype strength = Explicit | Inferred

fun strength_str :: "strength \<Rightarrow> string" where
  "strength_str Explicit = ''explicit''"
| "strength_str Inferred = ''inferred''"

record matched_rule =
  mr_rule_id :: string
  mr_version :: nat

record wi_sender =
  sn_connector_id :: string
  sn_author_id :: string
  sn_principal_id :: string

datatype mandate_source_kind = SourceApi | SourceIm | SourceWebhook

record mandate_source =
  ms_kind :: mandate_source_kind
  ms_reference :: string
  ms_conversation :: string

record mandate =
  md_basis :: basis
  md_strength :: strength
  md_policy_hash :: string
  md_matched_rules :: "matched_rule list"
  md_sender :: wi_sender
  md_source :: mandate_source
  md_receiving_policy_id :: string
  md_scope_text :: string
  md_created_at :: timestamp

datatype round_state = RoundRunning | RoundSettled | RoundFailed

fun round_state_str :: "round_state \<Rightarrow> string" where
  "round_state_str RoundRunning = ''running''"
| "round_state_str RoundSettled = ''settled''"
| "round_state_str RoundFailed = ''failed''"

definition parse_round_state :: "string \<Rightarrow> round_state option" where
  "parse_round_state v =
     (if v = ''running'' then Some RoundRunning else if v = ''settled'' then Some RoundSettled
      else if v = ''failed'' then Some RoundFailed else None)"

datatype input_kind = InMessage | InEvent | InApproval | InPolicyNotice | InRecovery | InText

fun input_kind_str :: "input_kind \<Rightarrow> string" where
  "input_kind_str InMessage = ''message''"
| "input_kind_str InEvent = ''event''"
| "input_kind_str InApproval = ''approval''"
| "input_kind_str InPolicyNotice = ''policy_notice''"
| "input_kind_str InRecovery = ''recovery''"
| "input_kind_str InText = ''text''"

definition parse_input_kind :: "string \<Rightarrow> input_kind option" where
  "parse_input_kind v =
     (if v = ''message'' then Some InMessage else if v = ''event'' then Some InEvent
      else if v = ''approval'' then Some InApproval else if v = ''policy_notice'' then Some InPolicyNotice
      else if v = ''recovery'' then Some InRecovery else if v = ''text'' then Some InText else None)"

datatype input_state = InPending | InSteered | InConsumed

fun input_state_str :: "input_state \<Rightarrow> string" where
  "input_state_str InPending = ''pending''"
| "input_state_str InSteered = ''steered''"
| "input_state_str InConsumed = ''consumed''"

definition parse_input_state :: "string \<Rightarrow> input_state option" where
  "parse_input_state v =
     (if v = ''pending'' then Some InPending else if v = ''steered'' then Some InSteered
      else if v = ''consumed'' then Some InConsumed else None)"

datatype subscription_role = RoleOwner | RoleContext

fun subscription_role_str :: "subscription_role \<Rightarrow> string" where
  "subscription_role_str RoleOwner = ''owner''"
| "subscription_role_str RoleContext = ''context''"

definition parse_subscription_role :: "string \<Rightarrow> subscription_role option" where
  "parse_subscription_role v =
     (if v = ''owner'' then Some RoleOwner else if v = ''context'' then Some RoleContext else None)"

datatype revoke_reason = ConnectorDisabled | ConversationNotAllowed | SenderNotAllowed | PrincipalNotMember | BasisUnsupported

fun revoke_reason_str :: "revoke_reason \<Rightarrow> string" where
  "revoke_reason_str ConnectorDisabled = ''connector_disabled''"
| "revoke_reason_str ConversationNotAllowed = ''conversation_not_allowed''"
| "revoke_reason_str SenderNotAllowed = ''sender_not_allowed''"
| "revoke_reason_str PrincipalNotMember = ''principal_not_member''"
| "revoke_reason_str BasisUnsupported = ''basis_unsupported''"

text \<open>\<open>WorkItemsConfig\<close> without the switch that installs the feature.\<close>

record wi_config =
  wc_max_open_items :: nat
  wc_subscription_idle_days :: nat
  wc_max_rounds_per_hour :: nat

definition wi_config_default :: wi_config where
  "wi_config_default = \<lparr>wc_max_open_items = 50, wc_subscription_idle_days = 14, wc_max_rounds_per_hour = 20\<rparr>"

text \<open>What is written as a word is read back.\<close>

lemma parse_written_item_state [simp]: "parse_item_state (item_state_str st) = Some st"
  by (cases st) (simp_all add: parse_item_state_def)

lemma parse_written_end_reason [simp]: "parse_end_reason (end_reason_str er) = Some er"
  by (cases er) (simp_all add: parse_end_reason_def)

lemma parse_written_round_state [simp]: "parse_round_state (round_state_str rs) = Some rs"
  by (cases rs) (simp_all add: parse_round_state_def)

lemma parse_written_input_kind [simp]: "parse_input_kind (input_kind_str ik) = Some ik"
  by (cases ik) (simp_all add: parse_input_kind_def)

lemma parse_written_input_state [simp]: "parse_input_state (input_state_str ist) = Some ist"
  by (cases ist) (simp_all add: parse_input_state_def)

lemma parse_written_subscription_role [simp]: "parse_subscription_role (subscription_role_str ro) = Some ro"
  by (cases ro) (simp_all add: parse_subscription_role_def)

section \<open>Stages\<close>

record stage_facts =
  sf_ended :: bool
  sf_delivery_problem :: bool
  sf_approval_pending :: bool
  sf_attention :: bool
  sf_last_report :: "report_status option"
  sf_person_input_since_report :: bool
  sf_pending_inputs :: bool
  sf_round_running :: bool

definition derive_stage :: "stage_facts \<Rightarrow> item_stage option" where
  "derive_stage f =
     (if sf_ended f then None
      else let held_by_report = (\<not> sf_person_input_since_report f)
      in Some (if sf_delivery_problem f then PersonDelivery
               else if sf_approval_pending f then PersonApproval
               else if sf_attention f then PersonAnswer
               else if sf_last_report f = Some Blocked \<and> held_by_report then PersonBlocked
               else if sf_last_report f = Some RepFailed \<and> held_by_report then PersonFailed
               else if sf_pending_inputs f \<and> \<not> sf_round_running f then StageQueued
               else if sf_round_running f then StageWorking
               else StageIdle))"

end
