(* ===== verification/Work_Item_Store.thy ===== *)
theory Work_Item_Store
  imports Work_Item_Report
begin

text \<open>
  The tables of work items and their statements (crates/persistence/store/src/work_items.rs), with the keys, the
  foreign keys and the partial unique index of migrations 10 and 11. A statement or transaction is a function on
  the tables; \<open>None\<close> means that a constraint refused it and nothing was written. Times are stored as text of a
  fixed width, so comparing the text is comparing the times. Thread rows, route policies and memberships belong to
  other parts of the store; here are the columns this component writes or reads.
\<close>

section \<open>Rows\<close>

record work_item_row =
  wi_id :: string
  wi_tenant :: string
  wi_title :: string
  wi_state :: string
  wi_end_reason :: "string option"
  wi_thread_id :: string
  wi_provider :: string
  wi_model :: string
  wi_seq :: nat
  wi_mandate :: mandate
  wi_last_report :: "report option"
  wi_attention :: "attention option"
  wi_policy_hash_seen :: string
  wi_created_at :: timestamp
  wi_updated_at :: timestamp

record item_activity =
  ia_last_round_state :: "string option"
  ia_pending_inputs :: nat
  ia_pending_person_inputs :: nat

record round_row =
  rd_item_id :: string
  rd_seq :: nat
  rd_tenant :: string
  rd_request_id :: string
  rd_query_text :: string
  rd_state :: string
  rd_outcome :: "string option"
  rd_report :: "report option"
  rd_error_code :: "string option"
  rd_turn_id :: "string option"
  rd_started_at :: timestamp
  rd_finished_at :: "timestamp option"

record input_row =
  in_item_id :: string
  in_seq :: nat
  in_tenant :: string
  in_kind :: string
  in_author_is_person :: bool
  in_body :: string
  in_source_ref :: string
  in_state :: string
  in_round_seq :: "nat option"
  in_created_at :: timestamp

record subscription_row =
  ss_id :: string
  ss_item_id :: string
  ss_tenant :: string
  ss_source_kind :: string
  ss_source_key :: string
  ss_connector_id :: string
  ss_conversation_id :: string
  ss_role :: string
  ss_created_at :: timestamp
  ss_last_event_at :: timestamp
  ss_dropped_at :: "timestamp option"
  ss_drop_reason :: "string option"

record round_settlement =
  st_round_state :: string
  st_outcome :: string
  st_report :: "report option"
  st_error_code :: "string option"
  st_turn_id :: "string option"
  st_finished_at :: timestamp
  st_item_state :: string
  st_end_reason :: "string option"
  st_last_report :: "report option"
  st_attention :: "attention option"

text \<open>The thread of an item with its first segment.\<close>

record thread_row =
  th_id :: string
  th_tenant :: string
  th_segment_id :: string
  th_at :: timestamp
  th_retention_expires_at :: timestamp

record segment_row =
  sg_id :: string
  sg_thread_id :: string
  sg_tenant :: string
  sg_at :: timestamp

text \<open>\<open>RoutePolicy\<close> of crates/channels/connectors, the columns that the checks read.\<close>

record route_policy =
  po_tenant :: string
  po_connector_id :: string
  po_validation_state :: string
  po_eligible_conversations :: "string list"
  po_eligible_rooms :: "string list"
  po_eligible_channels :: "string list"
  po_eligible_senders :: "string list"

record member_row =
  mb_principal :: string
  mb_tenant :: string
  mb_active :: bool

record wi_tables =
  wt_items :: "work_item_row list"
  wt_rounds :: "round_row list"
  wt_inputs :: "input_row list"
  wt_subs :: "subscription_row list"
  wt_threads :: "thread_row list"
  wt_segments :: "segment_row list"
  wt_policies :: "route_policy list"
  wt_members :: "member_row list"

section \<open>Reading\<close>

definition rounds_of :: "wi_tables \<Rightarrow> string \<Rightarrow> round_row list" where
  "rounds_of t i = filter (\<lambda>r. rd_item_id r = i) (wt_rounds t)"

definition inputs_of :: "wi_tables \<Rightarrow> string \<Rightarrow> input_row list" where
  "inputs_of t i = filter (\<lambda>n. in_item_id n = i) (wt_inputs t)"

definition item_activity_of :: "wi_tables \<Rightarrow> string \<Rightarrow> item_activity" where
  "item_activity_of t i =
     \<lparr>ia_last_round_state =
        (case rev (sort_key rd_seq (rounds_of t i)) of [] \<Rightarrow> None | r # _ \<Rightarrow> Some (rd_state r)),
      ia_pending_inputs = length (filter (\<lambda>n. in_state n = ''pending'') (inputs_of t i)),
      ia_pending_person_inputs = length (filter (\<lambda>n. in_state n = ''pending'' \<and> in_author_is_person n) (inputs_of t i))\<rparr>"

definition get_work_item :: "string \<Rightarrow> string \<Rightarrow> wi_tables \<Rightarrow> (work_item_row \<times> item_activity) option" where
  "get_work_item ten i t =
     map_option (\<lambda>r. (r, item_activity_of t (wi_id r))) (find (\<lambda>r. wi_tenant r = ten \<and> wi_id r = i) (wt_items t))"

definition list_work_items :: "string \<Rightarrow> string option \<Rightarrow> nat \<Rightarrow> wi_tables \<Rightarrow> (work_item_row \<times> item_activity) list" where
  "list_work_items ten state n t =
     map (\<lambda>r. (r, item_activity_of t (wi_id r)))
       (take n (newest_first wi_updated_at wi_id (filter (\<lambda>r. wi_tenant r = ten \<and> matches state (wi_state r)) (wt_items t))))"

definition count_open_work_items :: "string \<Rightarrow> wi_tables \<Rightarrow> nat" where
  "count_open_work_items ten t = length (filter (\<lambda>r. wi_tenant r = ten \<and> wi_state r = ''open'') (wt_items t))"

definition list_work_item_rounds :: "string \<Rightarrow> string \<Rightarrow> wi_tables \<Rightarrow> round_row list" where
  "list_work_item_rounds ten i t = sort_key rd_seq (filter (\<lambda>r. rd_tenant r = ten) (rounds_of t i))"

definition list_work_item_inputs :: "string \<Rightarrow> string \<Rightarrow> wi_tables \<Rightarrow> input_row list" where
  "list_work_item_inputs ten i t = sort_key in_seq (filter (\<lambda>n. in_tenant n = ten) (inputs_of t i))"

definition list_work_item_subscriptions :: "string \<Rightarrow> string \<Rightarrow> wi_tables \<Rightarrow> subscription_row list" where
  "list_work_item_subscriptions ten i t =
     ordered ss_created_at ss_id (filter (\<lambda>s. ss_tenant s = ten \<and> ss_item_id s = i) (wt_subs t))"

definition count_work_item_rounds_since :: "string \<Rightarrow> string \<Rightarrow> timestamp \<Rightarrow> wi_tables \<Rightarrow> nat" where
  "count_work_item_rounds_since ten i since t =
     length (filter (\<lambda>r. rd_tenant r = ten \<and> since \<le> rd_started_at r) (rounds_of t i))"

section \<open>Writing\<close>

definition insert_item :: "work_item_row \<Rightarrow> wi_tables \<Rightarrow> wi_tables option" where
  "insert_item it t =
     (if list_ex (\<lambda>r. wi_id r = wi_id it) (wt_items t) then None else Some (t\<lparr>wt_items := wt_items t @ [it]\<rparr>))"

definition has_item :: "wi_tables \<Rightarrow> string \<Rightarrow> bool" where
  "has_item t i \<longleftrightarrow> list_ex (\<lambda>r. wi_id r = i) (wt_items t)"

definition insert_round :: "round_row \<Rightarrow> wi_tables \<Rightarrow> wi_tables option" where
  "insert_round rd t =
     (if list_ex (\<lambda>r. rd_item_id r = rd_item_id rd \<and> rd_seq r = rd_seq rd) (wt_rounds t) \<or> \<not> has_item t (rd_item_id rd)
      then None else Some (t\<lparr>wt_rounds := wt_rounds t @ [rd]\<rparr>))"

text \<open>The partial unique index: a live owner of the source.\<close>

definition live_owner :: "string \<Rightarrow> string \<Rightarrow> subscription_row \<Rightarrow> bool" where
  "live_owner ten src s \<longleftrightarrow> ss_tenant s = ten \<and> ss_source_key s = src \<and> ss_role s = ''owner'' \<and> ss_dropped_at s = None"

definition insert_subscription :: "subscription_row \<Rightarrow> wi_tables \<Rightarrow> wi_tables option" where
  "insert_subscription sub t =
     (if list_ex (\<lambda>s. ss_id s = ss_id sub) (wt_subs t) \<or> \<not> has_item t (ss_item_id sub) \<or>
         ss_role sub = ''owner'' \<and> ss_dropped_at sub = None \<and> list_ex (live_owner (ss_tenant sub) (ss_source_key sub)) (wt_subs t)
      then None else Some (t\<lparr>wt_subs := wt_subs t @ [sub]\<rparr>))"

definition create_work_item :: "work_item_row \<Rightarrow> round_row \<Rightarrow> wi_tables \<Rightarrow> wi_tables option" where
  "create_work_item it rd t = Option.bind (insert_item it t) (insert_round rd)"

definition superseded :: "string \<Rightarrow> string \<Rightarrow> timestamp \<Rightarrow> wi_tables \<Rightarrow> wi_tables" where
  "superseded ten src at t =
     t\<lparr>wt_subs := map (\<lambda>s. if live_owner ten src s then s\<lparr>ss_dropped_at := Some at, ss_drop_reason := Some ''superseded''\<rparr> else s)
        (wt_subs t)\<rparr>"

text \<open>The open item that owns a source: \<open>Inl\<close> of it when the source is taken.\<close>

definition open_owner :: "string \<Rightarrow> string \<Rightarrow> wi_tables \<Rightarrow> string option" where
  "open_owner ten src t =
     map_option ss_item_id
       (find (\<lambda>s. live_owner ten src s \<and> list_ex (\<lambda>r. wi_id r = ss_item_id s \<and> wi_state r = ''open'') (wt_items t)) (wt_subs t))"

definition create_work_item_with_owner ::
    "work_item_row \<Rightarrow> round_row \<Rightarrow> subscription_row \<Rightarrow> wi_tables \<Rightarrow> ((string + unit) \<times> wi_tables) option" where
  "create_work_item_with_owner it rd owner t =
     (case open_owner (ss_tenant owner) (ss_source_key owner) t of
        Some i \<Rightarrow> Some (Inl i, t)
      | None \<Rightarrow>
          map_option (Pair (Inr ()))
            (Option.bind (create_work_item it rd (superseded (ss_tenant owner) (ss_source_key owner) (ss_created_at owner) t))
               (insert_subscription owner)))"

text \<open>The update of the item when a round is settled.\<close>

definition is_final :: "work_item_row \<Rightarrow> bool" where
  "is_final r \<longleftrightarrow> wi_end_reason r = Some ''stopped'' \<or> wi_end_reason r = Some ''revoked''"

definition settled_item :: "round_settlement \<Rightarrow> work_item_row \<Rightarrow> work_item_row" where
  "settled_item st r =
     r\<lparr>wi_state := (if is_final r then wi_state r else st_item_state st),
       wi_end_reason := (if is_final r then wi_end_reason r else st_end_reason st),
       wi_last_report := (case st_last_report st of None \<Rightarrow> wi_last_report r | Some x \<Rightarrow> Some x),
       wi_attention := (case st_attention st of None \<Rightarrow> wi_attention r | Some x \<Rightarrow> Some x),
       wi_updated_at := st_finished_at st\<rparr>"

definition settled_round :: "round_settlement \<Rightarrow> round_row \<Rightarrow> round_row" where
  "settled_round st r =
     r\<lparr>rd_state := st_round_state st, rd_outcome := Some (st_outcome st), rd_report := st_report st,
       rd_error_code := st_error_code st, rd_turn_id := st_turn_id st, rd_finished_at := Some (st_finished_at st)\<rparr>"

definition settle_work_item_round :: "string \<Rightarrow> string \<Rightarrow> nat \<Rightarrow> round_settlement \<Rightarrow> wi_tables \<Rightarrow> bool \<times> wi_tables" where
  "settle_work_item_round ten i sq st t =
     (let hit = (\<lambda>r. rd_tenant r = ten \<and> rd_item_id r = i \<and> rd_seq r = sq \<and> rd_state r = ''running'')
      in if \<not> list_ex hit (wt_rounds t) then (False, t)
         else (True, t\<lparr>wt_rounds := map (\<lambda>r. if hit r then settled_round st r else r) (wt_rounds t),
                       wt_items := map (\<lambda>r. if wi_tenant r = ten \<and> wi_id r = i then settled_item st r else r) (wt_items t)\<rparr>))"

text \<open>Dropping the subscriptions of a source that saw no event since the cutoff, and the live ones of it.\<close>

definition expire_idle :: "string \<Rightarrow> string \<Rightarrow> timestamp \<Rightarrow> timestamp \<Rightarrow> wi_tables \<Rightarrow> wi_tables" where
  "expire_idle ten src cutoff now t =
     t\<lparr>wt_subs := map (\<lambda>s. if ss_tenant s = ten \<and> ss_source_key s = src \<and> ss_dropped_at s = None \<and> ss_last_event_at s < cutoff
                         then s\<lparr>ss_dropped_at := Some now, ss_drop_reason := Some ''idle''\<rparr> else s) (wt_subs t)\<rparr>"

definition live_subscriptions :: "string \<Rightarrow> string \<Rightarrow> wi_tables \<Rightarrow> subscription_row list" where
  "live_subscriptions ten src t =
     sort_key (\<lambda>s. (if ss_role s = ''owner'' then 0 else 1 :: nat, ss_created_at s))
       (filter (\<lambda>s. ss_tenant s = ten \<and> ss_source_key s = src \<and> ss_dropped_at s = None) (wt_subs t))"

definition touch_work_item_subscription :: "string \<Rightarrow> string \<Rightarrow> timestamp \<Rightarrow> wi_tables \<Rightarrow> wi_tables" where
  "touch_work_item_subscription ten sid at t =
     t\<lparr>wt_subs := map (\<lambda>s. if ss_tenant s = ten \<and> ss_id s = sid \<and> ss_dropped_at s = None then s\<lparr>ss_last_event_at := at\<rparr> else s) (wt_subs t)\<rparr>"

definition next_input_seq :: "wi_tables \<Rightarrow> string \<Rightarrow> nat" where
  "next_input_seq t i = foldr max (map in_seq (inputs_of t i)) 0 + 1"

definition append_work_item_input :: "input_row \<Rightarrow> wi_tables \<Rightarrow> (nat \<times> wi_tables) option" where
  "append_work_item_input n t =
     (let sq = next_input_seq t (in_item_id n)
      in if list_ex (\<lambda>r. wi_id r = in_item_id n \<and> wi_tenant r = in_tenant n) (wt_items t)
         then Some (sq, t\<lparr>wt_inputs := wt_inputs t @ [n\<lparr>in_seq := sq\<rparr>]\<rparr>) else None)"

definition insert_work_item_input :: "input_row \<Rightarrow> wi_tables \<Rightarrow> wi_tables option" where
  "insert_work_item_input n t =
     (if list_ex (\<lambda>r. wi_id r = in_item_id n \<and> wi_tenant r = in_tenant n) (wt_items t) \<and>
         \<not> list_ex (\<lambda>x. in_item_id x = in_item_id n \<and> in_seq x = in_seq n) (wt_inputs t)
      then Some (t\<lparr>wt_inputs := wt_inputs t @ [n]\<rparr>) else None)"

definition started_item :: "round_row \<Rightarrow> bool \<Rightarrow> work_item_row \<Rightarrow> work_item_row" where
  "started_item rd clear r =
     r\<lparr>wi_seq := rd_seq rd, wi_updated_at := rd_started_at rd, wi_attention := (if clear then None else wi_attention r)\<rparr>"

definition consumed_input :: "round_row \<Rightarrow> nat \<Rightarrow> input_row \<Rightarrow> input_row" where
  "consumed_input rd last_seq n =
     (if in_tenant n = rd_tenant rd \<and> in_item_id n = rd_item_id rd \<and> in_state n = ''pending'' \<and> in_seq n \<le> last_seq
      then n\<lparr>in_state := ''consumed'', in_round_seq := Some (rd_seq rd)\<rparr> else n)"

definition start_work_item_round :: "round_row \<Rightarrow> nat \<Rightarrow> bool \<Rightarrow> wi_tables \<Rightarrow> (bool \<times> wi_tables) option" where
  "start_work_item_round rd last_seq clear t =
     (let hit = (\<lambda>r. wi_tenant r = rd_tenant rd \<and> wi_id r = rd_item_id rd \<and> wi_state r = ''open'' \<and> wi_seq r + 1 = rd_seq rd \<and>
                     \<not> list_ex (\<lambda>x. rd_state x = ''running'') (rounds_of t (rd_item_id rd)))
      in if \<not> list_ex hit (wt_items t) then Some (False, t)
         else map_option (Pair True)
           (insert_round rd
              (t\<lparr>wt_items := map (\<lambda>r. if hit r then started_item rd clear r else r) (wt_items t),
                 wt_inputs := map (consumed_input rd last_seq) (wt_inputs t)\<rparr>)))"

definition reopen_work_item :: "string \<Rightarrow> string \<Rightarrow> timestamp \<Rightarrow> wi_tables \<Rightarrow> bool \<times> wi_tables" where
  "reopen_work_item ten i at t =
     (let hit = (\<lambda>r. wi_tenant r = ten \<and> wi_id r = i \<and> wi_state r = ''ended'' \<and>
                     (wi_end_reason r = Some ''completed'' \<or> wi_end_reason r = Some ''dropped''))
      in (list_ex hit (wt_items t),
          t\<lparr>wt_items := map (\<lambda>r. if hit r then r\<lparr>wi_state := ''open'', wi_end_reason := None, wi_updated_at := at\<rparr> else r) (wt_items t)\<rparr>))"

text \<open>\<open>None\<close> for a reason that is not final.\<close>

definition end_work_item_finally :: "string \<Rightarrow> string \<Rightarrow> string \<Rightarrow> timestamp \<Rightarrow> wi_tables \<Rightarrow> (bool \<times> wi_tables) option" where
  "end_work_item_finally ten i reason at t =
     (if reason \<noteq> ''stopped'' \<and> reason \<noteq> ''revoked'' then None
      else let hit = (\<lambda>r. wi_tenant r = ten \<and> wi_id r = i \<and>
                     (if reason = ''stopped'' then wi_end_reason r \<noteq> Some ''stopped''
                      else wi_state r = ''ended'' \<and> (wi_end_reason r = Some ''completed'' \<or> wi_end_reason r = Some ''dropped'')))
      in if \<not> list_ex hit (wt_items t) then Some (False, t)
         else Some (True,
           t\<lparr>wt_items := map (\<lambda>r. if hit r then r\<lparr>wi_state := ''ended'', wi_end_reason := Some reason, wi_updated_at := at\<rparr> else r) (wt_items t),
             wt_subs := map (\<lambda>s. if ss_tenant s = ten \<and> ss_item_id s = i \<and> ss_dropped_at s = None
                                 then s\<lparr>ss_dropped_at := Some at, ss_drop_reason := Some reason\<rparr> else s) (wt_subs t)\<rparr>))"

end
