(* ===== verification/Work_Items.thy ===== *)
theory Work_Items
  imports Work_Item_Store Programs
begin

text \<open>
  The manager of work items (crates/domains/workitems/src/manager.rs, wake.rs), the driver of rounds (driver.rs),
  the check of a mandate (mandate.rs) and the hook for messages (im.rs). The state holds the tables, the origins
  registered for running turns, the events published, and where the clock and the random identifiers stand; every
  call of the store can fail, as the list of faults says. A method under the writer lock is one operation. The
  chat service is a parameter: whether it accepts a steered text or a cancellation, and how a turn ended. Metrics
  and log lines are left out.
\<close>

section \<open>State and requests\<close>

datatype wi_error =
    WiInvalid string
  | WiNotFound
  | WiOpenLimit nat
  | WiRoundNotRunning string
  | WiConversationOwned string
  | WiStore

fun wi_error_code :: "wi_error \<Rightarrow> string" where
  "wi_error_code (WiInvalid _) = ''invalid_work_item''"
| "wi_error_code WiNotFound = ''work_item_not_found''"
| "wi_error_code (WiOpenLimit _) = ''work_item_open_limit''"
| "wi_error_code (WiRoundNotRunning _) = ''work_item_round_not_running''"
| "wi_error_code (WiConversationOwned _) = ''work_item_conversation_owned''"
| "wi_error_code WiStore = ''store''"

datatype conversation_shape = ShapeDirectMessage | ShapeGroup | ShapeRoom | ShapeWeb | ShapeUnknown | ShapeUnsupported

record im_turn_origin =
  io_tenant_id :: string
  io_run_id :: string
  io_connector_id :: string
  io_source_conversation_id :: string
  io_source_key :: string
  io_author_id :: string
  io_shape :: conversation_shape
  io_delivery_id :: string
  io_route_policy_id :: string

record open_request =
  or_tenant_id :: string
  or_principal_id :: string
  or_request_ref :: string
  or_title :: string
  or_scope :: string
  or_provider :: string
  or_model :: string
  or_origin :: "im_turn_origin option"
  or_subscribe_origin :: bool

record round_turn =
  rt_tenant_id :: string
  rt_item_id :: string
  rt_seq :: nat
  rt_request_id :: string
  rt_thread_id :: string
  rt_query_text :: string
  rt_instructions :: string
  rt_provider :: string
  rt_model :: string

text \<open>\<open>Answered\<close> with the structured reply, \<open>Unreadable\<close> with the detail, \<open>Failed\<close> with the error code; each with the turn.\<close>

datatype round_outcome =
    Answered "json option" "string option"
  | Unreadable string "string option"
  | Failed string "string option"

record wi_event =
  we_name :: string
  we_tenant :: string
  we_item_id :: string
  we_basis :: string
  we_extra :: "(string \<times> json) list"

record wi_state =
  wm_db :: wi_tables
  wm_origins :: "string \<times> string \<rightharpoonup> im_turn_origin"
  wm_events :: "wi_event list"
  wm_clock :: "nat \<Rightarrow> timestamp"
  wm_uuid :: "nat \<Rightarrow> string"
  wm_drawn :: nat
  wm_faults :: "bool list"

type_synonym 'a wi_op = "(wi_state, wi_error, 'a) op"

record wi_chat =
  ch_steer :: "string \<Rightarrow> string \<Rightarrow> string \<Rightarrow> bool"
  ch_cancel :: "string \<Rightarrow> string \<Rightarrow> bool"

text \<open>The configuration, the chat service if there is one, the retention of threads and the decoder's messages.\<close>

record wi_env =
  en_config :: wi_config
  en_chat :: "wi_chat option"
  en_retention :: "string \<Rightarrow> timestamp \<Rightarrow> timestamp"
  en_serde_message :: "json \<Rightarrow> string"

definition wi_now :: "timestamp wi_op" where
  "wi_now s = (Inr (wm_clock s (wm_drawn s)), s\<lparr>wm_drawn := Suc (wm_drawn s)\<rparr>)"

definition wi_new_uuid :: "string wi_op" where
  "wi_new_uuid s = (Inr (wm_uuid s (wm_drawn s)), s\<lparr>wm_drawn := Suc (wm_drawn s)\<rparr>)"

text \<open>One call of the store: it fails when the store does or a constraint refuses it.\<close>

definition wi_call :: "(wi_tables \<Rightarrow> ('a \<times> wi_tables) option) \<Rightarrow> 'a wi_op" where
  "wi_call f s =
     (let failed = (case wm_faults s of [] \<Rightarrow> False | b # _ \<Rightarrow> b); s1 = s\<lparr>wm_faults := tl (wm_faults s)\<rparr>
      in if failed then (Inl WiStore, s1)
         else case f (wm_db s1) of None \<Rightarrow> (Inl WiStore, s1) | Some (x, t) \<Rightarrow> (Inr x, s1\<lparr>wm_db := t\<rparr>))"

definition wi_read :: "(wi_tables \<Rightarrow> 'a) \<Rightarrow> 'a wi_op" where
  "wi_read f = wi_call (\<lambda>t. Some (f t, t))"

definition wi_write :: "(wi_tables \<Rightarrow> wi_tables option) \<Rightarrow> unit wi_op" where
  "wi_write f = wi_call (\<lambda>t. map_option (Pair ()) (f t))"

section \<open>Views\<close>

record round_view =
  rv_seq :: nat
  rv_request_id :: string
  rv_state :: round_state
  rv_query_text :: string
  rv_outcome :: "string option"
  rv_report :: "report option"
  rv_error_code :: "string option"
  rv_turn_id :: "string option"
  rv_started_at :: timestamp
  rv_finished_at :: "timestamp option"

record input_view =
  iv_seq :: nat
  iv_kind :: input_kind
  iv_author_is_person :: bool
  iv_body :: string
  iv_source_ref :: string
  iv_state :: input_state
  iv_round_seq :: "nat option"
  iv_created_at :: timestamp

record subscription_view =
  sv_id :: string
  sv_source_kind :: string
  sv_source_key :: string
  sv_connector_id :: string
  sv_conversation_id :: string
  sv_role :: subscription_role
  sv_created_at :: timestamp
  sv_last_event_at :: timestamp
  sv_dropped_at :: "timestamp option"
  sv_drop_reason :: "string option"

record work_item =
  wk_id :: string
  wk_tenant :: string
  wk_title :: string
  wk_state :: item_state
  wk_end_reason :: "end_reason option"
  wk_stage :: "item_stage option"
  wk_thread_id :: string
  wk_provider :: string
  wk_model :: string
  wk_seq :: nat
  wk_mandate :: mandate
  wk_last_report :: "report option"
  wk_attention :: "attention option"
  wk_created_at :: timestamp
  wk_updated_at :: timestamp
  wk_rounds :: "round_view list option"
  wk_inputs :: "input_view list option"
  wk_subscriptions :: "subscription_view list option"

text \<open>\<open>map(..).transpose()\<close>: an absent word is absent, a present one is read or fails.\<close>

definition parse_present :: "(string \<Rightarrow> 'a option) \<Rightarrow> string option \<Rightarrow> 'a option option" where
  "parse_present f v = (case v of None \<Rightarrow> Some None | Some w \<Rightarrow> map_option Some (f w))"

definition view_facts :: "work_item_row \<Rightarrow> item_activity \<Rightarrow> item_state \<Rightarrow> round_state option \<Rightarrow> stage_facts" where
  "view_facts r act st last_round =
     \<lparr>sf_ended = (st = ItemEnded), sf_delivery_problem = (last_round = Some RoundFailed), sf_approval_pending = False,
      sf_attention = (wi_attention r \<noteq> None), sf_last_report = map_option rp_status (wi_last_report r),
      sf_person_input_since_report = (ia_pending_person_inputs act > 0 \<or> last_round = Some RoundRunning),
      sf_pending_inputs = (ia_pending_inputs act > 0), sf_round_running = (last_round = Some RoundRunning)\<rparr>"

definition to_view :: "work_item_row \<Rightarrow> item_activity \<Rightarrow> wi_error + work_item" where
  "to_view r act =
     (case (parse_item_state (wi_state r), parse_present parse_end_reason (wi_end_reason r),
            parse_present parse_round_state (ia_last_round_state act)) of
        (Some st, Some er, Some last_round) \<Rightarrow>
          Inr \<lparr>wk_id = wi_id r, wk_tenant = wi_tenant r, wk_title = wi_title r, wk_state = st, wk_end_reason = er,
               wk_stage = derive_stage (view_facts r act st last_round), wk_thread_id = wi_thread_id r,
               wk_provider = wi_provider r, wk_model = wi_model r, wk_seq = wi_seq r, wk_mandate = wi_mandate r,
               wk_last_report = wi_last_report r, wk_attention = wi_attention r, wk_created_at = wi_created_at r,
               wk_updated_at = wi_updated_at r, wk_rounds = None, wk_inputs = None, wk_subscriptions = None\<rparr>
      | _ \<Rightarrow> Inl WiStore)"

definition subscription_view_of :: "subscription_row \<Rightarrow> wi_error + subscription_view" where
  "subscription_view_of s =
     (case parse_subscription_role (ss_role s) of None \<Rightarrow> Inl WiStore
      | Some ro \<Rightarrow> Inr \<lparr>sv_id = ss_id s, sv_source_kind = ss_source_kind s, sv_source_key = ss_source_key s,
          sv_connector_id = ss_connector_id s, sv_conversation_id = ss_conversation_id s, sv_role = ro,
          sv_created_at = ss_created_at s, sv_last_event_at = ss_last_event_at s, sv_dropped_at = ss_dropped_at s,
          sv_drop_reason = ss_drop_reason s\<rparr>)"

definition round_view_of :: "round_row \<Rightarrow> wi_error + round_view" where
  "round_view_of r =
     (case parse_round_state (rd_state r) of None \<Rightarrow> Inl WiStore
      | Some st \<Rightarrow> Inr \<lparr>rv_seq = rd_seq r, rv_request_id = rd_request_id r, rv_state = st, rv_query_text = rd_query_text r,
          rv_outcome = rd_outcome r, rv_report = rd_report r, rv_error_code = rd_error_code r, rv_turn_id = rd_turn_id r,
          rv_started_at = rd_started_at r, rv_finished_at = rd_finished_at r\<rparr>)"

definition input_view_of :: "input_row \<Rightarrow> wi_error + input_view" where
  "input_view_of n =
     (case (parse_input_kind (in_kind n), parse_input_state (in_state n)) of
        (Some k, Some st) \<Rightarrow> Inr \<lparr>iv_seq = in_seq n, iv_kind = k, iv_author_is_person = in_author_is_person n, iv_body = in_body n,
          iv_source_ref = in_source_ref n, iv_state = st, iv_round_seq = in_round_seq n, iv_created_at = in_created_at n\<rparr>
      | _ \<Rightarrow> Inl WiStore)"

text \<open>\<open>collect::<Result<_, _>>()\<close>.\<close>

fun collect_results :: "('e + 'a) list \<Rightarrow> 'e + 'a list" where
  "collect_results [] = Inr []"
| "collect_results (r # rs) =
     (case r of Inl e \<Rightarrow> Inl e | Inr x \<Rightarrow> (case collect_results rs of Inl e \<Rightarrow> Inl e | Inr xs \<Rightarrow> Inr (x # xs)))"

definition or_not_found :: "'a option \<Rightarrow> 'a wi_op" where
  "or_not_found v = (case v of None \<Rightarrow> fail_op WiNotFound | Some x \<Rightarrow> return_op x)"

definition get_summary :: "string \<Rightarrow> string \<Rightarrow> work_item wi_op" where
  "get_summary ten i =
     bind_op (wi_read (get_work_item ten i)) (\<lambda>found.
     bind_op (or_not_found found) (\<lambda>(r, act). lift_op (to_view r act)))"

definition get_item :: "string \<Rightarrow> string \<Rightarrow> work_item wi_op" where
  "get_item ten i =
     bind_op (wi_read (get_work_item (trim ten) (trim i))) (\<lambda>found.
     bind_op (or_not_found found) (\<lambda>(r, act).
     bind_op (wi_read (list_work_item_rounds (wi_tenant r) (wi_id r))) (\<lambda>rounds.
     bind_op (wi_read (list_work_item_inputs (wi_tenant r) (wi_id r))) (\<lambda>inputs.
     bind_op (wi_read (list_work_item_subscriptions (wi_tenant r) (wi_id r))) (\<lambda>subs.
     bind_op (lift_op (to_view r act)) (\<lambda>item.
     bind_op (lift_op (collect_results (map round_view_of rounds))) (\<lambda>rvs.
     bind_op (lift_op (collect_results (map input_view_of inputs))) (\<lambda>ivs.
     bind_op (lift_op (collect_results (map subscription_view_of subs))) (\<lambda>svs.
     return_op (item\<lparr>wk_rounds := Some rvs, wk_inputs := Some ivs, wk_subscriptions := Some svs\<rparr>))))))))))"

definition MAX_LIST_LIMIT :: nat where
  "MAX_LIST_LIMIT = 200"

definition list_items :: "string \<Rightarrow> item_state option \<Rightarrow> nat \<Rightarrow> work_item list wi_op" where
  "list_items ten state n =
     bind_op (wi_read (list_work_items (trim ten) (map_option item_state_str state) (min (max n 1) MAX_LIST_LIMIT))) (\<lambda>rows.
     lift_op (collect_results (map (\<lambda>(r, act). to_view r act) rows)))"

text \<open>The record of an event can fail; it is announced all the same.\<close>

definition publish_item :: "work_item \<Rightarrow> string \<Rightarrow> (string \<times> json) list \<Rightarrow> unit wi_op" where
  "publish_item it name extra =
     bind_op (attempt_op (wi_read (\<lambda>_. ()))) (\<lambda>_.
     (\<lambda>s. (Inr (), s\<lparr>wm_events := wm_events s @
        [\<lparr>we_name = ''work_item.'' @ name, we_tenant = wk_tenant it, we_item_id = wk_id it,
          we_basis = basis_str (md_basis (wk_mandate it)), we_extra = extra\<rparr>]\<rparr>)))"

section \<open>Opening an item\<close>

definition MAX_TITLE_CHARS :: nat where
  "MAX_TITLE_CHARS = 200"

definition MAX_SCOPE_CHARS :: nat where
  "MAX_SCOPE_CHARS = 16 * 1024"

definition register_turn_origin :: "im_turn_origin \<Rightarrow> wi_state \<Rightarrow> wi_state" where
  "register_turn_origin og s =
     (if trim (io_tenant_id og) = [] \<or> trim (io_run_id og) = [] then s
      else s\<lparr>wm_origins := (wm_origins s)((io_tenant_id og, io_run_id og) \<mapsto> og)\<rparr>)"

definition unregister_turn_origin :: "string \<Rightarrow> string \<Rightarrow> wi_state \<Rightarrow> wi_state" where
  "unregister_turn_origin ten run s = s\<lparr>wm_origins := (wm_origins s)((ten, run) := None)\<rparr>"

definition turn_origin :: "string \<Rightarrow> string \<Rightarrow> wi_state \<Rightarrow> im_turn_origin option" where
  "turn_origin ten run s = (if trim run = [] then None else wm_origins s (ten, run))"

definition check_text :: "string \<Rightarrow> string \<Rightarrow> nat \<Rightarrow> wi_error + unit" where
  "check_text field v max_chars =
     (if v = [] then Inl (WiInvalid (field @ '' is required''))
      else if char_count v > max_chars then Inl (WiInvalid (field @ '' is longer than '' @ decimal max_chars @ '' characters''))
      else Inr ())"

definition check_open :: "open_request \<Rightarrow> wi_error + unit" where
  "check_open req =
     (if trim (or_tenant_id req) = [] then Inl (WiInvalid ''a work item needs a tenant'')
      else case check_text ''title'' (trim (or_title req)) MAX_TITLE_CHARS of
             Inl e \<Rightarrow> Inl e
           | Inr _ \<Rightarrow> check_text ''scope'' (trim (or_scope req)) MAX_SCOPE_CHARS)"

definition round_request_id :: "string \<Rightarrow> nat \<Rightarrow> string" where
  "round_request_id i sq = i @ ''_r'' @ decimal sq"

definition open_mandate :: "open_request \<Rightarrow> timestamp \<Rightarrow> mandate" where
  "open_mandate req now =
     (case or_origin req of
        None \<Rightarrow>
          \<lparr>md_basis = BasisApi, md_strength = Explicit, md_policy_hash = [], md_matched_rules = [],
           md_sender = \<lparr>sn_connector_id = [], sn_author_id = [], sn_principal_id = trim (or_principal_id req)\<rparr>,
           md_source = \<lparr>ms_kind = SourceApi, ms_reference = trim (or_request_ref req), ms_conversation = []\<rparr>,
           md_receiving_policy_id = [], md_scope_text = trim (or_scope req), md_created_at = now\<rparr>
      | Some og \<Rightarrow>
          \<lparr>md_basis = (if io_shape og = ShapeDirectMessage then BasisImDirect else BasisImMention),
           md_strength = Explicit, md_policy_hash = [], md_matched_rules = [],
           md_sender = \<lparr>sn_connector_id = io_connector_id og, sn_author_id = io_author_id og, sn_principal_id = []\<rparr>,
           md_source = \<lparr>ms_kind = SourceIm, ms_reference = io_delivery_id og, ms_conversation = io_source_conversation_id og\<rparr>,
           md_receiving_policy_id = io_route_policy_id og, md_scope_text = trim (or_scope req), md_created_at = now\<rparr>)"

text \<open>The origin whose conversation the item is to own.\<close>

definition owning_origin :: "open_request \<Rightarrow> im_turn_origin option" where
  "owning_origin req =
     (case or_origin req of None \<Rightarrow> None
      | Some og \<Rightarrow> if or_subscribe_origin req \<and> io_source_key og \<noteq> [] \<and> io_author_id og \<noteq> [] then Some og else None)"

definition owner_row :: "im_turn_origin \<Rightarrow> string \<Rightarrow> string \<Rightarrow> string \<Rightarrow> timestamp \<Rightarrow> subscription_row" where
  "owner_row og sid i ten now =
     \<lparr>ss_id = ''wis_'' @ sid, ss_item_id = i, ss_tenant = ten, ss_source_kind = ''im'', ss_source_key = io_source_key og,
      ss_connector_id = io_connector_id og, ss_conversation_id = io_source_conversation_id og,
      ss_role = subscription_role_str RoleOwner, ss_created_at = now, ss_last_event_at = now,
      ss_dropped_at = None, ss_drop_reason = None\<rparr>"

definition first_turn :: "open_request \<Rightarrow> string \<Rightarrow> round_turn" where
  "first_turn req hex =
     \<lparr>rt_tenant_id = trim (or_tenant_id req), rt_item_id = ''wi_'' @ hex, rt_seq = 1,
      rt_request_id = round_request_id (''wi_'' @ hex) 1, rt_thread_id = ''thr_wi_'' @ hex,
      rt_query_text = round_query 1 [], rt_instructions = round_instructions (trim (or_title req)) (trim (or_scope req)),
      rt_provider = trim (or_provider req), rt_model = trim (or_model req)\<rparr>"

definition new_item :: "open_request \<Rightarrow> round_turn \<Rightarrow> timestamp \<Rightarrow> work_item_row" where
  "new_item req turn now =
     \<lparr>wi_id = rt_item_id turn, wi_tenant = rt_tenant_id turn, wi_title = trim (or_title req), wi_state = item_state_str ItemOpen,
      wi_end_reason = None, wi_thread_id = rt_thread_id turn, wi_provider = rt_provider turn, wi_model = rt_model turn,
      wi_seq = 1, wi_mandate = open_mandate req now, wi_last_report = None, wi_attention = None, wi_policy_hash_seen = [],
      wi_created_at = now, wi_updated_at = now\<rparr>"

definition running_round :: "round_turn \<Rightarrow> timestamp \<Rightarrow> round_row" where
  "running_round turn now =
     \<lparr>rd_item_id = rt_item_id turn, rd_seq = rt_seq turn, rd_tenant = rt_tenant_id turn, rd_request_id = rt_request_id turn,
      rd_query_text = rt_query_text turn, rd_state = round_state_str RoundRunning, rd_outcome = None, rd_report = None,
      rd_error_code = None, rd_turn_id = None, rd_started_at = now, rd_finished_at = None\<rparr>"

definition create_thread :: "wi_env \<Rightarrow> string \<Rightarrow> string \<Rightarrow> timestamp \<Rightarrow> unit wi_op" where
  "create_thread env ten thread now =
     bind_op (wi_read (\<lambda>_. en_retention env ten now)) (\<lambda>expires.
     let seg = ''seg_'' @ thread
     in then_op
       (wi_write (\<lambda>t. Some (t\<lparr>wt_threads := upsert th_id
          \<lparr>th_id = thread, th_tenant = ten, th_segment_id = seg, th_at = now, th_retention_expires_at = expires\<rparr> (wt_threads t)\<rparr>)))
       (wi_write (\<lambda>t. Some (t\<lparr>wt_segments := upsert sg_id
          \<lparr>sg_id = seg, sg_thread_id = thread, sg_tenant = ten, sg_at = now\<rparr> (wt_segments t)\<rparr>))))"

text \<open>The part under the writer lock: the cap, then the rows.\<close>

definition check_open_cap :: "wi_env \<Rightarrow> string \<Rightarrow> unit wi_op" where
  "check_open_cap env ten =
     (let cap = wc_max_open_items (en_config env)
      in if cap > 0
         then bind_op (wi_read (count_open_work_items ten)) (\<lambda>n. if n \<ge> cap then fail_op (WiOpenLimit cap) else return_op ())
         else return_op ())"

definition store_item :: "wi_env \<Rightarrow> work_item_row \<Rightarrow> round_row \<Rightarrow> subscription_row option \<Rightarrow> timestamp \<Rightarrow> unit wi_op" where
  "store_item env it rd owner now =
     then_op (check_open_cap env (wi_tenant it))
       (case owner of
          None \<Rightarrow>
            then_op (create_thread env (wi_tenant it) (wi_thread_id it) now) (wi_write (create_work_item it rd))
        | Some og \<Rightarrow>
            bind_op (wi_call (create_work_item_with_owner it rd og)) (\<lambda>taken.
            case taken of
              Inl i \<Rightarrow> fail_op (WiConversationOwned i)
            | Inr _ \<Rightarrow> create_thread env (wi_tenant it) (wi_thread_id it) now))"

definition open_owner_row :: "open_request \<Rightarrow> string \<Rightarrow> timestamp \<Rightarrow> subscription_row option wi_op" where
  "open_owner_row req i now =
     (case owning_origin req of
        None \<Rightarrow> return_op None
      | Some og \<Rightarrow> bind_op wi_new_uuid (\<lambda>sid. return_op (Some (owner_row og sid i (trim (or_tenant_id req)) now))))"

definition open_item :: "wi_env \<Rightarrow> open_request \<Rightarrow> (work_item \<times> round_turn) wi_op" where
  "open_item env req =
     then_op (lift_op (check_open req))
     (bind_op wi_now (\<lambda>now.
      bind_op wi_new_uuid (\<lambda>hex.
      let turn = first_turn req hex
      in bind_op (open_owner_row req (rt_item_id turn) now) (\<lambda>owner.
         then_op (store_item env (new_item req turn now) (running_round turn now) owner now)
         (bind_op (get_summary (rt_tenant_id turn) (rt_item_id turn)) (\<lambda>view.
          then_op (publish_item view ''opened''
             [(''strength'', JString (strength_str (md_strength (open_mandate req now)))), (''threadId'', JString (rt_thread_id turn)),
              (''roundSeq'', JNumber (PosInt 1)), (''requestId'', JString (rt_request_id turn))])
          (return_op (view, turn))))))))"

section \<open>Settling a round\<close>

type_synonym settled = "round_state \<times> string \<times> report option \<times> string option \<times> string option"

definition unreadable_settled :: "string \<Rightarrow> string option \<Rightarrow> settled" where
  "unreadable_settled detail turn_id = (RoundSettled, ''report_unreadable'', Some (unreadable_report detail), None, turn_id)"

definition outcome_settled :: "(json \<Rightarrow> string) \<Rightarrow> round_outcome \<Rightarrow> settled" where
  "outcome_settled serde_message out =
     (case out of
        Answered structured turn_id \<Rightarrow>
          (case (case structured of None \<Rightarrow> Inl ''the turn answered without a structured reply''
                 | Some v \<Rightarrow> read_report serde_message v) of
             Inr rep \<Rightarrow> (RoundSettled, report_status_str (rp_status rep), Some rep, None, turn_id)
           | Inl detail \<Rightarrow> unreadable_settled detail turn_id)
      | Unreadable detail turn_id \<Rightarrow> unreadable_settled detail turn_id
      | Failed code turn_id \<Rightarrow> (RoundFailed, code, None, Some code, turn_id))"

definition settlement_of :: "settled \<Rightarrow> timestamp \<Rightarrow> round_settlement" where
  "settlement_of st now =
     (case st of (rs, label, rep, code, turn_id) \<Rightarrow>
      let ends = Option.bind rep (\<lambda>x. ends_with (rp_status x))
      in \<lparr>st_round_state = round_state_str rs, st_outcome = label, st_report = rep, st_error_code = code, st_turn_id = turn_id,
          st_finished_at = now, st_item_state = item_state_str (if ends \<noteq> None then ItemEnded else ItemOpen),
          st_end_reason = map_option end_reason_str ends, st_last_report = rep,
          st_attention = Option.bind rep rp_attention\<rparr>)"

definition settle_events :: "work_item \<Rightarrow> round_turn \<Rightarrow> settled \<Rightarrow> unit wi_op" where
  "settle_events after turn st =
     (case st of (rs, label, rep, code, turn_id) \<Rightarrow>
      let ends = Option.bind rep (\<lambda>x. ends_with (rp_status x)); sq = JNumber (PosInt (of_nat (rt_seq turn)))
      in then_op (publish_item after ''round_settled''
           ([(''roundSeq'', sq), (''requestId'', JString (rt_request_id turn)),
             (''state'', JString (round_state_str rs)), (''outcome'', JString label)] @
            (case wk_stage after of None \<Rightarrow> [] | Some g \<Rightarrow> [(''stage'', JString (item_stage_str g))]) @
            (case turn_id of None \<Rightarrow> [] | Some x \<Rightarrow> [(''turnId'', JString x)])))
         (then_op
           (case Option.bind rep rp_attention of None \<Rightarrow> return_op ()
            | Some a \<Rightarrow> publish_item after ''attention_raised''
                [(''roundSeq'', sq), (''optionCount'', JNumber (PosInt (of_nat (length (an_options a)))))])
           (case ends of None \<Rightarrow> return_op ()
            | Some er \<Rightarrow> publish_item after ''ended'' [(''endReason'', JString (end_reason_str er)), (''roundSeq'', sq)])))"

definition settle_round :: "wi_env \<Rightarrow> round_turn \<Rightarrow> round_outcome \<Rightarrow> work_item wi_op" where
  "settle_round env turn out =
     bind_op (get_summary (rt_tenant_id turn) (rt_item_id turn)) (\<lambda>before.
     let st = outcome_settled (en_serde_message env) out
     in bind_op wi_now (\<lambda>now.
        bind_op (wi_call (\<lambda>t. Some (settle_work_item_round (rt_tenant_id turn) (rt_item_id turn) (rt_seq turn) (settlement_of st now) t))) (\<lambda>applied.
        if \<not> applied then fail_op (WiRoundNotRunning (rt_request_id turn))
        else bind_op (get_summary (rt_tenant_id turn) (rt_item_id turn)) (\<lambda>after.
             then_op (settle_events after turn st) (return_op after)))))"

section \<open>Inputs and rounds\<close>

datatype input_path = SteeredTo nat | QueuedInput

fun input_path_str :: "input_path \<Rightarrow> string" where
  "input_path_str (SteeredTo _) = ''steered''"
| "input_path_str QueuedInput = ''queued''"

datatype no_round = NoEnded | NoRunning | NothingPending | Held | HourlyCap nat

text \<open>Whether the running round of the item takes the text.\<close>

definition steer_path :: "wi_env \<Rightarrow> string \<Rightarrow> string \<Rightarrow> quoted_input \<Rightarrow> work_item_row \<Rightarrow> item_activity \<Rightarrow> input_path" where
  "steer_path env ten i q r act =
     (if ia_last_round_state act = Some (round_state_str RoundRunning)
      then case en_chat env of
             None \<Rightarrow> QueuedInput
           | Some ch \<Rightarrow> if ch_steer ch ten (round_request_id i (wi_seq r)) (frame_input q) then SteeredTo (wi_seq r) else QueuedInput
      else QueuedInput)"

definition input_row_for :: "work_item_row \<Rightarrow> input_kind \<Rightarrow> bool \<Rightarrow> string \<Rightarrow> string \<Rightarrow> input_path \<Rightarrow> timestamp \<Rightarrow> input_row" where
  "input_row_for r kind person body ref path now =
     \<lparr>in_item_id = wi_id r, in_seq = 0, in_tenant = wi_tenant r, in_kind = input_kind_str kind, in_author_is_person = person,
      in_body = body, in_source_ref = ref,
      in_state = (case path of SteeredTo _ \<Rightarrow> ''steered'' | QueuedInput \<Rightarrow> ''pending''),
      in_round_seq = (case path of SteeredTo sq \<Rightarrow> Some sq | QueuedInput \<Rightarrow> None), in_created_at = now\<rparr>"

definition add_input :: "wi_env \<Rightarrow> string \<Rightarrow> string \<Rightarrow> input_kind \<Rightarrow> bool \<Rightarrow> string \<Rightarrow> string \<Rightarrow> (nat \<times> input_path) wi_op" where
  "add_input env ten i kind person body ref =
     (let text = trim body
      in if text = [] then fail_op (WiInvalid ''an input needs a body'')
         else bind_op (wi_read (get_work_item ten i)) (\<lambda>found.
              bind_op (or_not_found found) (\<lambda>(r, act).
              if wi_state r \<noteq> item_state_str ItemOpen then fail_op (WiInvalid ''the work item has ended'')
              else let q = \<lparr>qi_kind = input_kind_str kind, qi_from_requester = person, qi_body = text\<rparr>;
                       path = steer_path env ten i q r act
                   in bind_op wi_now (\<lambda>now.
                      bind_op (wi_call (append_work_item_input (input_row_for r kind person text (trim ref) path now))) (\<lambda>sq.
                      return_op (sq, path))))))"

record planned =
  pl_turn :: round_turn
  pl_item :: work_item
  pl_last_input_seq :: nat
  pl_clear_attention :: bool

definition is_held :: "string option \<Rightarrow> work_item \<Rightarrow> bool" where
  "is_held last_round item \<longleftrightarrow>
     last_round = Some (round_state_str RoundFailed) \<or> wk_attention item \<noteq> None \<or>
     (case wk_last_report item of None \<Rightarrow> False | Some rep \<Rightarrow> rp_status rep = Blocked \<or> rp_status rep = RepFailed)"

definition quote_input :: "input_row \<Rightarrow> quoted_input" where
  "quote_input n = \<lparr>qi_kind = in_kind n, qi_from_requester = in_author_is_person n, qi_body = in_body n\<rparr>"

definition next_turn :: "work_item \<Rightarrow> input_row list \<Rightarrow> round_turn" where
  "next_turn item pending =
     \<lparr>rt_tenant_id = wk_tenant item, rt_item_id = wk_id item, rt_seq = wk_seq item + 1,
      rt_request_id = round_request_id (wk_id item) (wk_seq item + 1), rt_thread_id = wk_thread_id item,
      rt_query_text = round_query (wk_seq item + 1) (map quote_input pending),
      rt_instructions = round_instructions (wk_title item) (md_scope_text (wk_mandate item)),
      rt_provider = wk_provider item, rt_model = wk_model item\<rparr>"

definition HOUR :: int where
  "HOUR = 3600 * 1000000000"

definition check_hourly_cap :: "wi_env \<Rightarrow> string \<Rightarrow> string \<Rightarrow> bool wi_op" where
  "check_hourly_cap env ten i =
     (let cap = wc_max_rounds_per_hour (en_config env)
      in if cap > 0
         then bind_op wi_now (\<lambda>now.
              bind_op (wi_read (count_work_item_rounds_since ten i (now - HOUR))) (\<lambda>n. return_op (n < cap)))
         else return_op True)"

definition plan_round :: "wi_env \<Rightarrow> string \<Rightarrow> string \<Rightarrow> (no_round + planned) wi_op" where
  "plan_round env ten i =
     bind_op (wi_read (get_work_item ten i)) (\<lambda>found.
     bind_op (or_not_found found) (\<lambda>(r, act).
     bind_op (lift_op (to_view r act)) (\<lambda>item.
     if wk_state item \<noteq> ItemOpen then return_op (Inl NoEnded)
     else if ia_last_round_state act = Some (round_state_str RoundRunning) then return_op (Inl NoRunning)
     else bind_op (wi_read (list_work_item_inputs ten i)) (\<lambda>inputs.
       let pending = filter (\<lambda>n. in_state n = ''pending'') inputs
       in if pending = [] then return_op (Inl NothingPending)
          else let person = list_ex in_author_is_person pending
          in if is_held (ia_last_round_state act) item \<and> \<not> person then return_op (Inl Held)
             else bind_op (check_hourly_cap env ten i) (\<lambda>room.
               return_op (if \<not> room then Inl (HourlyCap (wc_max_rounds_per_hour (en_config env)))
                 else Inr \<lparr>pl_turn = next_turn item pending, pl_item = item, pl_last_input_seq = in_seq (last pending),
                          pl_clear_attention = (person \<and> wk_attention item \<noteq> None)\<rparr>))))))"

definition round_due :: "wi_env \<Rightarrow> string \<Rightarrow> string \<Rightarrow> (no_round + unit) wi_op" where
  "round_due env ten i =
     bind_op (plan_round env ten i) (\<lambda>p. return_op (case p of Inl no \<Rightarrow> Inl no | Inr _ \<Rightarrow> Inr ()))"

definition start_round :: "wi_env \<Rightarrow> string \<Rightarrow> string \<Rightarrow> (no_round + round_turn) wi_op" where
  "start_round env ten i =
     bind_op (plan_round env ten i) (\<lambda>plan.
     case plan of
       Inl no \<Rightarrow> return_op (Inl no)
     | Inr p \<Rightarrow>
         bind_op wi_now (\<lambda>now.
         bind_op (wi_call (start_work_item_round (running_round (pl_turn p) now) (pl_last_input_seq p) (pl_clear_attention p))) (\<lambda>started.
         if \<not> started then return_op (Inl NoRunning)
         else then_op
           (if pl_clear_attention p
            then publish_item (pl_item p) ''attention_cleared'' [(''roundSeq'', JNumber (PosInt (of_nat (rt_seq (pl_turn p)))))]
            else return_op ())
           (return_op (Inr (pl_turn p))))))"

section \<open>Ends and reopening\<close>

definition stop_item :: "wi_env \<Rightarrow> string \<Rightarrow> string \<Rightarrow> work_item wi_op" where
  "stop_item env ten_id item_id =
     (let ten = trim ten_id; i = trim item_id
      in bind_op (wi_read (get_work_item ten i)) (\<lambda>found.
         bind_op (or_not_found found) (\<lambda>(r, act).
         bind_op (lift_op (to_view r act)) (\<lambda>before.
         if wk_end_reason before = Some EndStopped then return_op before
         else bind_op wi_now (\<lambda>now.
              bind_op (wi_call (end_work_item_finally ten i (end_reason_str EndStopped) now)) (\<lambda>applied.
              if \<not> applied then get_summary ten i
              else let cancelled = (ia_last_round_state act = Some (round_state_str RoundRunning) \<and>
                         (case en_chat env of None \<Rightarrow> False | Some ch \<Rightarrow> ch_cancel ch ten (round_request_id i (wi_seq r))))
                   in bind_op (get_summary ten i) (\<lambda>after.
                      then_op (publish_item after ''stopped'' [(''roundCancelled'', JBool cancelled)]) (return_op after))))))))"

definition revoke_item :: "work_item \<Rightarrow> revoke_reason \<Rightarrow> unit wi_op" where
  "revoke_item item reason =
     bind_op wi_now (\<lambda>now.
     bind_op (wi_call (end_work_item_finally (wk_tenant item) (wk_id item) (end_reason_str EndRevoked) now)) (\<lambda>applied.
     if applied
     then bind_op (get_summary (wk_tenant item) (wk_id item)) (\<lambda>after.
          publish_item after ''mandate_revoked'' [(''reason'', JString (revoke_reason_str reason))])
     else return_op ()))"

text \<open>\<open>false\<close> at the cap, or when the item cannot reopen.\<close>

definition reopen_item :: "wi_env \<Rightarrow> work_item \<Rightarrow> bool wi_op" where
  "reopen_item env item =
     (let cap = wc_max_open_items (en_config env);
          go = bind_op wi_now (\<lambda>now. wi_call (\<lambda>t. Some (reopen_work_item (wk_tenant item) (wk_id item) now t)))
      in if cap > 0
         then bind_op (wi_read (count_open_work_items (wk_tenant item))) (\<lambda>n. if n \<ge> cap then return_op False else go)
         else go)"

section \<open>The driver of rounds\<close>

record driven_round =
  dr_seq :: nat
  dr_report :: "report option"
  dr_error_code :: "string option"

datatype drive_stop = Throttled string | StoppedByCap nat

text \<open>How the chat service ran a turn: executed (with the turn, the error and its codes), or not.\<close>

datatype chat_run =
    Executed string "json option" "string option" string
  | StructuredOutputInvalid string
  | ChatFailed string
  | ChatPanicked

definition nonempty_str :: "string \<Rightarrow> string option" where
  "nonempty_str x = (if x = [] then None else Some x)"

text \<open>\<open>Executed turn_id structured exec_error dispatch_code\<close>.\<close>

fun run_turn :: "chat_run \<Rightarrow> round_outcome" where
  "run_turn (Executed turn_id structured exec_error dispatch_code) =
     (case exec_error of
        None \<Rightarrow> Answered structured (nonempty_str turn_id)
      | Some code \<Rightarrow> Failed (if dispatch_code = [] then code else dispatch_code) (nonempty_str turn_id))"
| "run_turn (StructuredOutputInvalid detail) = Unreadable detail None"
| "run_turn (ChatFailed code) = Failed code None"
| "run_turn ChatPanicked = Failed ''panic'' None"

definition failed_code :: "round_outcome \<Rightarrow> string option" where
  "failed_code out = (case out of Failed code _ \<Rightarrow> Some code | _ \<Rightarrow> None)"

definition run_round :: "wi_env \<Rightarrow> chat_run \<Rightarrow> round_turn \<Rightarrow> wi_state \<Rightarrow> driven_round \<times> wi_state" where
  "run_round env run turn s =
     (let out = (case en_chat env of None \<Rightarrow> Failed ''chat_unavailable'' None | Some _ \<Rightarrow> run_turn run);
          failed = failed_code out
      in case settle_round env turn out s of
           (Inr item, s') \<Rightarrow>
             (\<lparr>dr_seq = rt_seq turn, dr_report = (if failed \<noteq> None then None else wk_last_report item), dr_error_code = failed\<rparr>, s')
         | (Inl err, s') \<Rightarrow>
             (\<lparr>dr_seq = rt_seq turn, dr_report = None,
               dr_error_code = Some (case failed of Some code \<Rightarrow> code | None \<Rightarrow> wi_error_code err)\<rparr>, s'))"

text \<open>
  The loop of \<open>drive\<close> as the points where it can be interleaved with other threads: before it asks whether a
  round is due, before it waits for a slot, before it starts the round, and while the turn runs.
\<close>

datatype driver = Looking | Admitting | Starting | InRound round_turn | DriverDone "drive_stop option"

definition drive_look :: "wi_env \<Rightarrow> string \<Rightarrow> string \<Rightarrow> wi_state \<Rightarrow> driver \<times> wi_state" where
  "drive_look env ten i s =
     (case round_due env ten i s of
        (Inr (Inr _), s') \<Rightarrow> (Admitting, s')
      | (Inr (Inl no), s') \<Rightarrow> (DriverDone (case no of HourlyCap n \<Rightarrow> Some (StoppedByCap n) | _ \<Rightarrow> None), s')
      | (Inl _, s') \<Rightarrow> (DriverDone None, s'))"

definition drive_admit :: "string + unit \<Rightarrow> driver" where
  "drive_admit admitted = (case admitted of Inl code \<Rightarrow> DriverDone (Some (Throttled code)) | Inr _ \<Rightarrow> Starting)"

definition drive_start :: "wi_env \<Rightarrow> string \<Rightarrow> string \<Rightarrow> wi_state \<Rightarrow> driver \<times> wi_state" where
  "drive_start env ten i s =
     (case start_round env ten i s of
        (Inr (Inr turn), s') \<Rightarrow> (InRound turn, s')
      | (Inr (Inl no), s') \<Rightarrow> (DriverDone (case no of HourlyCap n \<Rightarrow> Some (StoppedByCap n) | _ \<Rightarrow> None), s')
      | (Inl _, s') \<Rightarrow> (DriverDone None, s'))"

section \<open>Authority\<close>

datatype connector_status = CsRegistered | CsHealthy | CsDegraded | CsBackingOff | CsFailed | CsDisabled

record connector =
  cn_id :: string
  cn_status :: connector_status
  cn_capability_profile :: "(string \<times> json) list"

record im_context =
  ic_connector :: connector
  ic_tenant_id :: string
  ic_conversation_id :: string
  ic_author_id :: string
  ic_shape :: conversation_shape

definition connector_surface_supported :: "(string \<times> json) list \<Rightarrow> string \<Rightarrow> bool" where
  "connector_surface_supported profile key =
     (case map_of profile key of
        Some (JString v) \<Rightarrow> lower_ascii (trim v) = ''supported''
      | Some (JBool b) \<Rightarrow> b
      | _ \<Rightarrow> False)"

definition enforces_participation :: "connector \<Rightarrow> bool" where
  "enforces_participation c \<longleftrightarrow>
     cn_capability_profile c \<noteq> [] \<and>
     connector_surface_supported (cn_capability_profile c) ''group_room_mention_evidence'' \<and>
     connector_surface_supported (cn_capability_profile c) ''group_room_allowlist_evidence''"

definition route_policy_is_valid :: "route_policy \<Rightarrow> bool" where
  "route_policy_is_valid p \<longleftrightarrow> trim (po_validation_state p) = ''valid''"

definition contains_route_policy_value :: "string list \<Rightarrow> string \<Rightarrow> bool" where
  "contains_route_policy_value vs target \<longleftrightarrow> trim target \<noteq> [] \<and> list_ex (\<lambda>v. trim v = trim target) vs"

definition route_policy_allows_conversation :: "route_policy \<Rightarrow> string \<Rightarrow> bool" where
  "route_policy_allows_conversation p conv \<longleftrightarrow>
     route_policy_is_valid p \<and> trim conv \<noteq> [] \<and>
     \<not> (po_eligible_conversations p = [] \<and> po_eligible_rooms p = [] \<and> po_eligible_channels p = []) \<and>
     (contains_route_policy_value (po_eligible_conversations p) (trim conv) \<or>
      contains_route_policy_value (po_eligible_rooms p) (trim conv) \<or>
      contains_route_policy_value (po_eligible_channels p) (trim conv))"

definition route_policy_allows_sender :: "route_policy \<Rightarrow> string \<Rightarrow> bool" where
  "route_policy_allows_sender p sender \<longleftrightarrow>
     route_policy_is_valid p \<and>
     (po_eligible_senders p = [] \<or> contains_route_policy_value (po_eligible_senders p) (trim sender))"

definition get_channel_route_policy :: "string \<Rightarrow> string \<Rightarrow> wi_tables \<Rightarrow> route_policy option" where
  "get_channel_route_policy ten cid t = find (\<lambda>p. po_tenant p = ten \<and> po_connector_id p = cid) (wt_policies t)"

definition im_authority :: "im_context \<Rightarrow> (revoke_reason + unit) wi_op" where
  "im_authority im =
     (let c = ic_connector im
      in if cn_status c = CsDisabled \<or> cn_status c = CsFailed \<or> cn_status c = CsBackingOff then return_op (Inl ConnectorDisabled)
         else if \<not> ((ic_shape im = ShapeGroup \<or> ic_shape im = ShapeRoom) \<and> enforces_participation c) then return_op (Inr ())
         else bind_op (wi_read (get_channel_route_policy (ic_tenant_id im) (cn_id c))) (\<lambda>found.
           return_op (case found of
               None \<Rightarrow> Inl ConversationNotAllowed
             | Some p \<Rightarrow>
                 if \<not> route_policy_is_valid p then Inl ConversationNotAllowed
                 else if \<not> route_policy_allows_conversation p (ic_conversation_id im) then Inl ConversationNotAllowed
                 else if \<not> route_policy_allows_sender p (ic_author_id im) then Inl SenderNotAllowed
                 else Inr ())))"

definition principal_is_member :: "string \<Rightarrow> string \<Rightarrow> bool wi_op" where
  "principal_is_member ten pr =
     (let pid = trim pr
      in if pid = [] then return_op False
         else wi_read (\<lambda>t. list_ex (\<lambda>m. mb_principal m = pid \<and> mb_tenant m = ten \<and> mb_active m) (wt_members t)))"

definition revalidate :: "work_item \<Rightarrow> im_context option \<Rightarrow> (revoke_reason + unit) wi_op" where
  "revalidate item im =
     (case md_basis (wk_mandate item) of
        BasisApi \<Rightarrow>
          bind_op (principal_is_member (wk_tenant item) (sn_principal_id (md_sender (wk_mandate item)))) (\<lambda>b.
          return_op (if b then Inr () else Inl PrincipalNotMember))
      | BasisRule \<Rightarrow> return_op (Inl BasisUnsupported)
      | _ \<Rightarrow>
          (case im of
             None \<Rightarrow> return_op (Inl ConnectorDisabled)
           | Some ctx \<Rightarrow>
               if cn_id (ic_connector ctx) = sn_connector_id (md_sender (wk_mandate item)) then im_authority ctx
               else return_op (Inl ConnectorDisabled)))"

section \<open>Messages\<close>

record wi_inbound =
  wb_tenant_id :: string
  wb_source_key :: string
  wb_connector :: connector
  wb_author_id :: string
  wb_channel_or_conversation_id :: string
  wb_channel_id :: string
  wb_peer_id :: string
  wb_content :: string
  wb_delivery_id :: string
  wb_shape :: conversation_shape

fun first_trimmed :: "string list \<Rightarrow> string" where
  "first_trimmed [] = []"
| "first_trimmed (v # vs) = (if trim v = [] then first_trimmed vs else trim v)"

definition inbound_context :: "wi_inbound \<Rightarrow> im_context" where
  "inbound_context b =
     \<lparr>ic_connector = wb_connector b, ic_tenant_id = trim (wb_tenant_id b),
      ic_conversation_id = first_trimmed [wb_channel_or_conversation_id b, wb_channel_id b, wb_peer_id b],
      ic_author_id = trim (wb_author_id b), ic_shape = wb_shape b\<rparr>"

definition DAY :: int where
  "DAY = 24 * HOUR"

text \<open>The owner's subscription of the conversation, after those that idled are dropped.\<close>

definition find_owner :: "wi_env \<Rightarrow> string \<Rightarrow> string \<Rightarrow> subscription_row option wi_op" where
  "find_owner env ten src =
     bind_op (wi_read (live_subscriptions ten src)) (\<lambda>followed.
     if followed = [] then return_op None
     else bind_op
       (if wc_subscription_idle_days (en_config env) > 0
        then bind_op wi_now (\<lambda>a. bind_op wi_now (\<lambda>b.
             then_op (wi_write (\<lambda>t. Some (expire_idle ten src (a - int (wc_subscription_idle_days (en_config env)) * DAY) b t)))
               (wi_read (live_subscriptions ten src))))
        else wi_read (live_subscriptions ten src)) (\<lambda>subs.
       return_op (find (\<lambda>s. ss_role s = subscription_role_str RoleOwner) subs)))"

text \<open>Whether the message may wake the item: \<open>None\<close> when it falls through, otherwise whether the item was reopened.\<close>

definition wake_gate :: "wi_env \<Rightarrow> work_item \<Rightarrow> im_context \<Rightarrow> bool option wi_op" where
  "wake_gate env item im =
     (case (wk_state item, wk_end_reason item) of
        (ItemOpen, _) \<Rightarrow>
          bind_op (im_authority im) (\<lambda>v. return_op (case v of Inl _ \<Rightarrow> None | Inr _ \<Rightarrow> Some False))
      | (ItemEnded, er) \<Rightarrow>
          if er = Some EndCompleted \<or> er = Some EndDropped
          then bind_op (revalidate item (Some im)) (\<lambda>v.
               case v of
                 Inl reason \<Rightarrow> then_op (revoke_item item reason) (return_op None)
               | Inr _ \<Rightarrow> bind_op (reopen_item env item) (\<lambda>done. return_op (if done then Some True else None)))
          else return_op None)"

datatype im_wake = WakeFallThrough | WakeSteered | WakeDrive work_item

definition record_wake :: "wi_env \<Rightarrow> wi_inbound \<Rightarrow> subscription_row \<Rightarrow> work_item \<Rightarrow> bool \<Rightarrow> im_wake wi_op" where
  "record_wake env b owner item resumed =
     bind_op (add_input env (wk_tenant item) (wk_id item) InMessage True (wb_content b) (wb_delivery_id b)) (\<lambda>(sq, path).
     bind_op wi_now (\<lambda>now.
     bind_op (attempt_op (wi_write (\<lambda>t. Some (touch_work_item_subscription (wk_tenant item) (ss_id owner) now t)))) (\<lambda>_.
     bind_op (get_summary (wk_tenant item) (wk_id item)) (\<lambda>woken.
     then_op (publish_item woken ''woken''
        ([(''inputSeq'', JNumber (PosInt (of_nat sq))), (''kind'', JString (input_kind_str InMessage)),
          (''path'', JString (input_path_str path)), (''resumed'', JBool resumed)] @
         (case path of SteeredTo r \<Rightarrow> [(''roundSeq'', JNumber (PosInt (of_nat r)))] | QueuedInput \<Rightarrow> [])))
     (return_op (case path of SteeredTo _ \<Rightarrow> WakeSteered | QueuedInput \<Rightarrow> WakeDrive item))))))"

text \<open>\<open>route_im\<close> up to the drive it ends in.\<close>

definition route_im :: "wi_env \<Rightarrow> wi_inbound \<Rightarrow> im_wake wi_op" where
  "route_im env b =
     (let ten = trim (wb_tenant_id b); author = trim (wb_author_id b)
      in if ten = [] then return_op WakeFallThrough
         else bind_op (find_owner env ten (wb_source_key b)) (\<lambda>found.
           case found of
             None \<Rightarrow> return_op WakeFallThrough
           | Some owner \<Rightarrow>
               bind_op (get_summary ten (ss_item_id owner)) (\<lambda>item.
               let sender = md_sender (wk_mandate item)
               in if author = [] \<or> author \<noteq> sn_author_id sender \<or> cn_id (wb_connector b) \<noteq> sn_connector_id sender
                  then return_op WakeFallThrough
                  else bind_op (wake_gate env item (inbound_context b)) (\<lambda>gate.
                    case gate of
                      None \<Rightarrow> return_op WakeFallThrough
                    | Some resumed \<Rightarrow> record_wake env b owner item resumed))))"

text \<open>The hook: a failure of its own lets the message fall through.\<close>

definition route_inbound :: "wi_env \<Rightarrow> wi_inbound \<Rightarrow> wi_state \<Rightarrow> im_wake \<times> wi_state" where
  "route_inbound env b s = (case route_im env b s of (Inr w, s') \<Rightarrow> (w, s') | (Inl _, s') \<Rightarrow> (WakeFallThrough, s'))"

definition round_reply :: "driven_round \<Rightarrow> string" where
  "round_reply d =
     (case (dr_report d, dr_error_code d) of
        (Some rep, _) \<Rightarrow>
          trim (rp_summary rep) @
          (case rp_attention rep of None \<Rightarrow> []
           | Some a \<Rightarrow> newline @ newline @ trim (an_question a) @
               (if an_options a = [] then []
                else newline @ ''Options: '' @ concat (map (\<lambda>(k, opt). (if k = 0 then [] else '', '') @ opt) (enumerate 0 (an_options a)))))
      | (None, Some code) \<Rightarrow>
          ''The work item's round could not finish ('' @ code @ ''). It will try again on your next message.''
      | (None, None) \<Rightarrow> [])"

text \<open>The answer after the drive: the rounds it ran and why it stopped.\<close>

definition drive_replies :: "string \<Rightarrow> driven_round list \<Rightarrow> drive_stop option \<Rightarrow> string list \<times> string" where
  "drive_replies title rounds stop =
     (filter (\<lambda>r. r \<noteq> []) (map round_reply rounds) @
      (if rounds \<noteq> [] then []
       else case stop of
          Some (Throttled code) \<Rightarrow>
            [''Your message reached the work item \"'' @ title @ ''\", but its next round could not start now ('' @ code @
             ''). It runs when the item is woken again.'']
        | Some (StoppedByCap n) \<Rightarrow>
            [''Your message reached the work item \"'' @ title @ ''\". It has run its '' @ decimal n @
             '' rounds for this hour; your message waits until the item is woken again.'']
        | None \<Rightarrow> []),
      if rounds = [] then ''work_item_queued'' else ''work_item_round'')"

end
