(* ===== verification/Work_Item_Invariant.thy ===== *)
theory Work_Item_Invariant
  imports Work_Items Registry
begin

text \<open>
  Well-formedness of the tables of work items, and that every operation keeps it: rounds are numbered without
  gaps and only the last one may run, a round runs only on an item that is open or was stopped, inputs are numbered
  without gaps and name the round that read them, sources have one live owner, and a tenant holds no more open items
  than the configuration allows.
\<close>

section \<open>One item\<close>

text \<open>Rows numbered from one without gaps, in the order of the table.\<close>

definition numbered :: "('a \<Rightarrow> nat) \<Rightarrow> 'a list \<Rightarrow> bool" where
  "numbered f xs \<longleftrightarrow> map f xs = [1..<Suc (length xs)]"

lemma numbered_Nil [simp]: "numbered f []"
  by (simp add: numbered_def)

lemma numbered_append: "numbered f xs \<Longrightarrow> f x = Suc (length xs) \<Longrightarrow> numbered f (xs @ [x])"
  by (simp add: numbered_def)

lemma numbered_map: "(\<And>x. f (g x) = f x) \<Longrightarrow> numbered f (map g xs) \<longleftrightarrow> numbered f xs"
  by (simp add: numbered_def comp_def)

lemma numbered_last: "numbered f xs \<Longrightarrow> xs \<noteq> [] \<Longrightarrow> f (last xs) = length xs"
proof -
  assume "numbered f xs" "xs \<noteq> []"
  moreover from this have "f (last xs) = last (map f xs)" by (simp add: last_map)
  ultimately show ?thesis by (simp add: numbered_def Suc_le_eq)
qed

lemma numbered_sorted: "numbered f xs \<Longrightarrow> sort_key f xs = xs"
  by (rule sort_key_id_if_sorted) (simp add: numbered_def del: upt_Suc)

lemma numbered_max: "numbered f xs \<Longrightarrow> foldr max (map f xs) 0 = length xs"
proof -
  have max: "foldr max ks (0 :: nat) = Max (insert 0 (set ks))" for ks
    by (induction ks) (auto simp: insert_commute)
  assume "numbered f xs"
  then have "foldr max (map f xs) 0 = Max (insert 0 {1..<Suc (length xs)})"
    by (simp add: numbered_def max del: upt_Suc)
  also have "\<dots> = length xs" by (rule Max_eqI) (auto simp: Suc_le_eq)
  finally show ?thesis .
qed

lemma numbered_inj: "numbered f xs \<Longrightarrow> x \<in> set xs \<Longrightarrow> y \<in> set xs \<Longrightarrow> f x = f y \<Longrightarrow> x = y"
  by (rule same_key [of f xs]) (simp_all add: numbered_def del: upt_Suc)

lemma numbered_bound: "numbered f xs \<Longrightarrow> x \<in> set xs \<Longrightarrow> 1 \<le> f x \<and> f x \<le> length xs"
proof -
  assume "numbered f xs" "x \<in> set xs"
  then have "f x \<in> set [1..<Suc (length xs)]" unfolding numbered_def by (metis image_eqI list.set_map)
  then show ?thesis by (simp del: upt_Suc)
qed

definition state_ok :: "work_item_row \<Rightarrow> bool" where
  "state_ok r \<longleftrightarrow>
     wi_state r = ''open'' \<and> wi_end_reason r = None \<or>
     wi_state r = ''ended'' \<and> (\<exists>er. wi_end_reason r = Some (end_reason_str er))"

definition has_running :: "round_row list \<Rightarrow> bool" where
  "has_running rs \<longleftrightarrow> list_ex (\<lambda>x. rd_state x = ''running'') rs"

definition round_ok :: "work_item_row \<Rightarrow> round_row \<Rightarrow> bool" where
  "round_ok r x \<longleftrightarrow>
     rd_tenant x = wi_tenant r \<and> rd_request_id x = round_request_id (wi_id r) (rd_seq x) \<and>
     (\<exists>rs. rd_state x = round_state_str rs)"

definition rounds_ok :: "work_item_row \<Rightarrow> round_row list \<Rightarrow> bool" where
  "rounds_ok r rs \<longleftrightarrow>
     1 \<le> wi_seq r \<and> numbered rd_seq rs \<and> length rs = wi_seq r \<and> list_all (round_ok r) rs \<and> \<not> has_running (butlast rs) \<and>
     (has_running rs \<longrightarrow> wi_attention r = None \<and> (wi_state r = ''open'' \<or> wi_end_reason r = Some ''stopped''))"

definition input_ok :: "work_item_row \<Rightarrow> input_row \<Rightarrow> bool" where
  "input_ok r n \<longleftrightarrow>
     in_tenant n = wi_tenant r \<and> (\<exists>k. in_kind n = input_kind_str k) \<and>
     (in_state n = ''pending'' \<and> in_round_seq n = None \<or>
      (in_state n = ''steered'' \<or> in_state n = ''consumed'') \<and> (\<exists>q. in_round_seq n = Some q \<and> 1 \<le> q \<and> q \<le> wi_seq r))"

definition row_ok :: "work_item_row \<Rightarrow> round_row list \<Rightarrow> input_row list \<Rightarrow> bool" where
  "row_ok r rs ns \<longleftrightarrow>
     state_ok r \<and> rounds_ok r rs \<and> numbered in_seq ns \<and> list_all (input_ok r) ns"

lemma state_ok_open: "state_ok r \<Longrightarrow> wi_state r = ''open'' \<longleftrightarrow> wi_end_reason r = None"
  by (auto simp: state_ok_def)

lemma running_not_final: "rounds_ok r rs \<Longrightarrow> has_running rs \<Longrightarrow> state_ok r \<Longrightarrow> wi_state r = ''open'' \<or> is_final r"
  by (auto simp: rounds_ok_def is_final_def)

lemma rounds_nonempty: "rounds_ok r rs \<Longrightarrow> rs \<noteq> []"
  by (auto simp: rounds_ok_def)

lemma has_running_append [simp]: "has_running (xs @ ys) \<longleftrightarrow> has_running xs \<or> has_running ys"
  by (simp add: has_running_def)

lemma has_running_single [simp]: "has_running [] \<longleftrightarrow> False" "has_running [x] \<longleftrightarrow> rd_state x = ''running''"
  by (simp_all add: has_running_def)

lemma running_last: "rounds_ok r rs \<Longrightarrow> has_running rs \<longleftrightarrow> rd_state (last rs) = ''running''"
  by (cases rs rule: rev_cases) (auto simp: rounds_ok_def)

lemma last_seq: "rounds_ok r rs \<Longrightarrow> rd_seq (last rs) = wi_seq r"
  using rounds_nonempty [of r rs] numbered_last [of rd_seq rs] by (simp add: rounds_ok_def)

text \<open>Ending, reopening and stopping change the state and the time only.\<close>

lemma row_ok_state:
  assumes "row_ok r rs ns" and "state_ok (r\<lparr>wi_state := st, wi_end_reason := er, wi_updated_at := at\<rparr>)"
    and "has_running rs \<Longrightarrow> st = ''open'' \<or> er = Some ''stopped''"
  shows "row_ok (r\<lparr>wi_state := st, wi_end_reason := er, wi_updated_at := at\<rparr>) rs ns"
proof -
  have "round_ok (r\<lparr>wi_state := st, wi_end_reason := er, wi_updated_at := at\<rparr>) = round_ok r"
    "input_ok (r\<lparr>wi_state := st, wi_end_reason := er, wi_updated_at := at\<rparr>) = input_ok r"
    by (simp_all add: fun_eq_iff round_ok_def input_ok_def)
  with assms show ?thesis by (auto simp: row_ok_def rounds_ok_def)
qed

text \<open>Settling the running round.\<close>

lemma ends_settlement:
  "st_item_state (settlement_of sd now) = ''open'' \<and> st_end_reason (settlement_of sd now) = None \<or>
   st_item_state (settlement_of sd now) = ''ended'' \<and>
   (st_end_reason (settlement_of sd now) = Some ''completed'' \<or> st_end_reason (settlement_of sd now) = Some ''dropped'')"
proof -
  obtain rs label rep code tid where sd: "sd = (rs, label, rep, code, tid)" by (metis prod_cases5)
  have ends: "ends_with st = None \<or> ends_with st = Some EndCompleted \<or> ends_with st = Some EndDropped" for st
    by (cases st) auto
  show ?thesis
  proof (cases rep)
    case (Some x)
    then show ?thesis using ends [of "rp_status x"] by (auto simp: sd settlement_of_def)
  qed (simp add: sd settlement_of_def)
qed

lemma settled_not_running: "fst sd \<noteq> RoundRunning \<Longrightarrow> st_round_state (settlement_of sd now) \<noteq> ''running''"
  by (cases sd; cases "fst sd") (auto simp: settlement_of_def Let_def)

lemma settled_state_known: "\<exists>rs. st_round_state (settlement_of sd now) = round_state_str rs"
  by (cases sd) (auto simp: settlement_of_def Let_def)

lemma outcome_not_running: "fst (outcome_settled msg out) \<noteq> RoundRunning"
  by (cases out) (auto simp: outcome_settled_def unreadable_settled_def split: sum.split)

lemma settled_state_ok: "state_ok r \<Longrightarrow> state_ok (settled_item (settlement_of sd now) r)"
proof -
  assume ok: "state_ok r"
  consider "st_item_state (settlement_of sd now) = ''open''" "st_end_reason (settlement_of sd now) = None"
    | "st_item_state (settlement_of sd now) = ''ended''" "st_end_reason (settlement_of sd now) = Some (end_reason_str EndCompleted)"
    | "st_item_state (settlement_of sd now) = ''ended''" "st_end_reason (settlement_of sd now) = Some (end_reason_str EndDropped)"
    using ends_settlement [of sd now] by auto
  with ok show ?thesis by cases (auto simp: state_ok_def settled_item_def simp del: end_reason_str.simps)
qed

lemma row_ok_settled:
  assumes ok: "row_ok r rs ns" and sd: "fst sd \<noteq> RoundRunning" and sq: "sq = wi_seq r"
    and st_def: "st = settlement_of sd now"
  shows "row_ok (settled_item st r) (map (\<lambda>x. if rd_seq x = sq \<and> rd_state x = ''running'' then settled_round st x else x) rs) ns"
    (is "row_ok ?r (map ?f rs) ns")
proof -
  have rounds: "rounds_ok r rs" using ok by (simp add: row_ok_def)
  have f: "rd_seq (?f x) = rd_seq x" "round_ok r x \<Longrightarrow> round_ok ?r (?f x)" for x
    using settled_state_known [of sd now]
    by (auto simp: settled_round_def round_ok_def settled_item_def st_def)
  have butlast: "rd_state x \<noteq> ''running''" if "x \<in> set (butlast rs)" for x
    using rounds that by (auto simp: rounds_ok_def has_running_def list_ex_iff)
  have last: "rd_state (?f (last rs)) \<noteq> ''running''"
    using last_seq [OF rounds] sq settled_not_running [OF sd] by (auto simp: settled_round_def st_def)
  obtain ys y where rs: "rs = ys @ [y]" using rounds_nonempty [OF rounds] by (cases rs rule: rev_cases) auto
  have none: "\<not> has_running (map ?f rs)"
    using butlast last unfolding rs by (auto simp: has_running_def list_ex_iff)
  have "\<not> has_running (butlast (map ?f rs))"
    using none by (simp add: rs)
  moreover have "numbered rd_seq (map ?f rs) \<longleftrightarrow> numbered rd_seq rs" using f(1) by (rule numbered_map)
  moreover have "list_all (round_ok ?r) (map ?f rs)"
    using rounds f(2) by (fastforce simp only: rounds_ok_def list_all_iff set_map)
  moreover have "wi_seq ?r = wi_seq r" by (simp add: settled_item_def)
  ultimately have "rounds_ok ?r (map ?f rs)"
    using rounds none by (simp only: rounds_ok_def length_map) blast
  moreover have "input_ok ?r = input_ok r" by (simp add: fun_eq_iff input_ok_def settled_item_def)
  ultimately show ?thesis
    using ok settled_state_ok [of r sd now] by (simp add: row_ok_def st_def)
qed

text \<open>Starting the next round.\<close>

lemma consumed_input_fields [simp]:
  "in_seq (consumed_input rd k n) = in_seq n" "in_tenant (consumed_input rd k n) = in_tenant n"
  "in_kind (consumed_input rd k n) = in_kind n" "in_item_id (consumed_input rd k n) = in_item_id n"
  "in_author_is_person (consumed_input rd k n) = in_author_is_person n" "in_body (consumed_input rd k n) = in_body n"
  by (simp_all add: consumed_input_def)

lemma started_item_fields [simp]:
  "wi_id (started_item rd clear r) = wi_id r" "wi_tenant (started_item rd clear r) = wi_tenant r"
  "wi_state (started_item rd clear r) = wi_state r" "wi_end_reason (started_item rd clear r) = wi_end_reason r"
  "wi_seq (started_item rd clear r) = rd_seq rd"
  by (simp_all add: started_item_def)

lemma row_ok_started:
  assumes ok: "row_ok r rs ns" and "wi_state r = ''open''" and quiet: "\<not> has_running rs"
    and rd: "rd_seq rd = wi_seq r + 1" "rd_tenant rd = wi_tenant r" "rd_request_id rd = round_request_id (wi_id r) (rd_seq rd)"
      "rd_state rd = ''running''"
    and att: "clear \<or> wi_attention r = None"
  shows "row_ok (started_item rd clear r) (rs @ [rd]) (map (consumed_input rd k) ns)" (is "row_ok ?r _ _")
proof -
  have rounds: "rounds_ok r rs" using ok by (simp add: row_ok_def)
  have "wi_attention ?r = None" using att by (auto simp: started_item_def)
  moreover have "round_ok ?r rd"
    unfolding round_ok_def using rd by (auto intro: exI [of _ RoundRunning])
  moreover have "round_ok ?r x" if "round_ok r x" for x using that by (simp add: round_ok_def)
  ultimately have "rounds_ok ?r (rs @ [rd])"
    using rounds quiet rd \<open>wi_state r = ''open''\<close> numbered_append [of rd_seq rs rd] by (auto simp: rounds_ok_def list_all_iff)
  moreover have "input_ok ?r (consumed_input rd k n)" if n: "input_ok r n" for n
    using n rd(1) by (auto simp: input_ok_def consumed_input_def)
  moreover have "numbered in_seq (map (consumed_input rd k) ns) \<longleftrightarrow> numbered in_seq ns" by (rule numbered_map) simp
  ultimately show ?thesis using ok by (simp add: row_ok_def state_ok_def list_all_iff)
qed

text \<open>Recording an input.\<close>

lemma row_ok_input:
  assumes ok: "row_ok r rs ns" and "in_seq n = Suc (length ns)" and "input_ok r n"
  shows "row_ok r rs (ns @ [n])"
  using assms numbered_append [of in_seq ns n] by (simp add: row_ok_def)

text \<open>A new item.\<close>

lemma row_ok_new:
  "wi_seq r = 1 \<Longrightarrow> wi_state r = ''open'' \<Longrightarrow> wi_end_reason r = None \<Longrightarrow> wi_attention r = None \<Longrightarrow>
   round_ok r x \<Longrightarrow> rd_seq x = 1 \<Longrightarrow> row_ok r [x] []"
  by (simp add: row_ok_def state_ok_def rounds_ok_def has_running_def numbered_def)

section \<open>The tables\<close>

definition items_ok :: "wi_tables \<Rightarrow> bool" where
  "items_ok t \<longleftrightarrow>
     distinct (map wi_id (wt_items t)) \<and>
     (\<forall>r \<in> set (wt_items t). row_ok r (rounds_of t (wi_id r)) (inputs_of t (wi_id r))) \<and>
     rd_item_id ` set (wt_rounds t) \<subseteq> wi_id ` set (wt_items t) \<and> in_item_id ` set (wt_inputs t) \<subseteq> wi_id ` set (wt_items t)"

definition subs_ok :: "wi_tables \<Rightarrow> bool" where
  "subs_ok t \<longleftrightarrow>
     distinct (map ss_id (wt_subs t)) \<and>
     (\<forall>s \<in> set (wt_subs t). ss_role s = ''owner'' \<and>
        (\<exists>r \<in> set (wt_items t). wi_id r = ss_item_id s \<and> wi_tenant r = ss_tenant s \<and> (ss_dropped_at s = None \<longrightarrow> \<not> is_final r))) \<and>
     (\<forall>ten src. \<forall>a \<in> set (wt_subs t). \<forall>b \<in> set (wt_subs t). live_owner ten src a \<longrightarrow> live_owner ten src b \<longrightarrow> a = b)"

definition tables_ok :: "wi_tables \<Rightarrow> bool" where
  "tables_ok t \<longleftrightarrow> items_ok t \<and> subs_ok t"

definition within_cap :: "nat \<Rightarrow> wi_tables \<Rightarrow> bool" where
  "within_cap cap t \<longleftrightarrow> cap > 0 \<longrightarrow> (\<forall>ten. count_open_work_items ten t \<le> cap)"

lemma one_owner:
  "subs_ok t \<Longrightarrow> a \<in> set (wt_subs t) \<Longrightarrow> b \<in> set (wt_subs t) \<Longrightarrow> live_owner ten src a \<Longrightarrow> live_owner ten src b \<Longrightarrow> a = b"
  unfolding subs_ok_def by blast

lemma filter_map_same: "(\<And>x. P (g x) = P x) \<Longrightarrow> filter P (map g xs) = map g (filter P xs)"
  by (simp add: filter_map comp_def)

lemma keys_map: "(\<And>x. k (g x) = k x) \<Longrightarrow> k ` set (map g xs) = k ` set xs"
  by (simp add: image_image)

lemma items_okD:
  assumes "items_ok t" and "r \<in> set (wt_items t)"
  shows "row_ok r (rounds_of t (wi_id r)) (inputs_of t (wi_id r))"
  using assms by (simp add: items_ok_def)

lemma same_item: "items_ok t \<Longrightarrow> r \<in> set (wt_items t) \<Longrightarrow> q \<in> set (wt_items t) \<Longrightarrow> wi_id r = wi_id q \<Longrightarrow> r = q"
  by (rule same_key [of wi_id "wt_items t"]) (simp_all add: items_ok_def)

lemma items_updated:
  assumes ok: "items_ok t" and items: "wt_items t' = map f (wt_items t)"
    and f: "\<And>r. r \<in> set (wt_items t) \<Longrightarrow> wi_id (f r) = wi_id r"
      "\<And>r. r \<in> set (wt_items t) \<Longrightarrow> row_ok (f r) (rounds_of t' (wi_id r)) (inputs_of t' (wi_id r))"
    and "rd_item_id ` set (wt_rounds t') \<subseteq> wi_id ` set (wt_items t)"
    and "in_item_id ` set (wt_inputs t') \<subseteq> wi_id ` set (wt_items t)"
  shows "items_ok t'"
proof -
  have ids: "map wi_id (wt_items t') = map wi_id (wt_items t)" using f(1) by (simp add: items)
  then have "wi_id ` set (wt_items t') = wi_id ` set (wt_items t)" by (metis list.set_map)
  moreover have "row_ok r (rounds_of t' (wi_id r)) (inputs_of t' (wi_id r))" if "r \<in> set (wt_items t')" for r
    using that f by (auto simp: items)
  ultimately show ?thesis using assms(5,6) ok ids by (simp add: items_ok_def)
qed

lemma subs_updated:
  assumes ok: "subs_ok t" and items: "wt_items t' = map f (wt_items t)" and subs: "wt_subs t' = map h (wt_subs t)"
    and h: "\<And>s. ss_id (h s) = ss_id s" "\<And>s. ss_item_id (h s) = ss_item_id s" "\<And>s. ss_tenant (h s) = ss_tenant s"
      "\<And>s. ss_source_key (h s) = ss_source_key s" "\<And>s. ss_role (h s) = ss_role s"
      "\<And>s. ss_dropped_at (h s) = None \<Longrightarrow> ss_dropped_at s = None"
    and f: "\<And>r. wi_id (f r) = wi_id r" "\<And>r. wi_tenant (f r) = wi_tenant r"
      "\<And>r s. wi_id r = ss_item_id s \<Longrightarrow> wi_tenant r = ss_tenant s \<Longrightarrow> ss_dropped_at (h s) = None \<Longrightarrow> \<not> is_final r \<Longrightarrow> \<not> is_final (f r)"
  shows "subs_ok t'"
proof -
  have ids: "map ss_id (wt_subs t') = map ss_id (wt_subs t)" by (simp add: subs h)
  have items': "ss_role (h s) = ''owner'' \<and> (\<exists>r \<in> set (wt_items t'). wi_id r = ss_item_id (h s) \<and> wi_tenant r = ss_tenant (h s) \<and>
      (ss_dropped_at (h s) = None \<longrightarrow> \<not> is_final r))" if "s \<in> set (wt_subs t)" for s
  proof -
    from ok that obtain r where r: "ss_role s = ''owner''" "r \<in> set (wt_items t)" "wi_id r = ss_item_id s" "wi_tenant r = ss_tenant s"
      "ss_dropped_at s = None \<longrightarrow> \<not> is_final r" by (auto simp: subs_ok_def)
    with f(3) [of r s] h(6) [of s] have "ss_dropped_at (h s) = None \<longrightarrow> \<not> is_final (f r)" by blast
    with r h f items show ?thesis by (intro conjI bexI [of _ "f r"]) auto
  qed
  have live: "live_owner ten src s" if "live_owner ten src (h s)" for ten src s
    using that h by (auto simp: live_owner_def)
  have "a = b" if a: "a \<in> set (wt_subs t')" "live_owner ten src a" and b: "b \<in> set (wt_subs t')" "live_owner ten src b" for ten src a b
  proof -
    from a b obtain a' b' where "a = h a'" "a' \<in> set (wt_subs t)" "b = h b'" "b' \<in> set (wt_subs t)" by (auto simp: subs)
    moreover from this a(2) b(2) have "live_owner ten src a'" "live_owner ten src b'" by (simp_all add: live)
    ultimately show ?thesis using one_owner [OF ok] by blast
  qed
  moreover have "distinct (map ss_id (wt_subs t'))" unfolding ids using ok by (simp add: subs_ok_def)
  moreover have "\<forall>s \<in> set (wt_subs t'). ss_role s = ''owner'' \<and> (\<exists>r \<in> set (wt_items t'). wi_id r = ss_item_id s \<and>
      wi_tenant r = ss_tenant s \<and> (ss_dropped_at s = None \<longrightarrow> \<not> is_final r))"
    using items' by (simp add: subs)
  ultimately show ?thesis unfolding subs_ok_def by blast
qed

lemma count_not_more:
  assumes "wt_items t' = map f (wt_items t)" and "\<And>r. r \<in> set (wt_items t) \<Longrightarrow> wi_tenant (f r) = wi_tenant r"
    and "\<And>r. r \<in> set (wt_items t) \<Longrightarrow> wi_state (f r) = ''open'' \<Longrightarrow> wi_state r = ''open''"
  shows "count_open_work_items ten t' \<le> count_open_work_items ten t"
proof -
  have "length (filter (\<lambda>r. wi_tenant r = ten \<and> wi_state r = ''open'') (map f rows)) \<le>
        length (filter (\<lambda>r. wi_tenant r = ten \<and> wi_state r = ''open'') rows)" if "set rows \<subseteq> set (wt_items t)" for rows
    using that assms(2,3) by (induction rows) auto
  with assms(1) show ?thesis by (simp add: count_open_work_items_def)
qed

lemma cap_kept:
  "within_cap cap t \<Longrightarrow> (\<And>ten. count_open_work_items ten t' \<le> count_open_work_items ten t) \<Longrightarrow> within_cap cap t'"
  unfolding within_cap_def by (meson le_trans)

subsection \<open>Settling\<close>

lemma running_round_facts:
  assumes ok: "items_ok t" and x: "x \<in> set (wt_rounds t)" "rd_state x = ''running''"
  obtains r where "r \<in> set (wt_items t)" "wi_id r = rd_item_id x" "wi_tenant r = rd_tenant x" "wi_seq r = rd_seq x"
    "has_running (rounds_of t (wi_id r))"
proof -
  obtain r where r: "r \<in> set (wt_items t)" "wi_id r = rd_item_id x" using ok x(1) by (force simp: items_ok_def)
  have row: "row_ok r (rounds_of t (wi_id r)) (inputs_of t (wi_id r))" using items_okD [OF ok r(1)] .
  have mem: "x \<in> set (rounds_of t (wi_id r))" using x(1) r(2) by (simp add: rounds_of_def)
  then have run: "has_running (rounds_of t (wi_id r))" using x(2) by (auto simp: has_running_def list_ex_iff)
  have rounds: "rounds_ok r (rounds_of t (wi_id r))" using row by (simp add: row_ok_def)
  obtain ys y where ys: "rounds_of t (wi_id r) = ys @ [y]"
    using rounds_nonempty [OF rounds] by (cases "rounds_of t (wi_id r)" rule: rev_cases) auto
  have "x = last (rounds_of t (wi_id r))"
    using mem x(2) rounds by (auto simp: ys rounds_ok_def has_running_def list_ex_iff)
  with last_seq [OF rounds] have "wi_seq r = rd_seq x" by simp
  moreover have "wi_tenant r = rd_tenant x" using rounds mem by (auto simp: rounds_ok_def list_all_iff round_ok_def)
  ultimately show ?thesis using that r run by blast
qed

lemma rounds_of_map:
  assumes "wt_rounds t' = map g (wt_rounds t)" and "\<And>x. rd_item_id (g x) = rd_item_id x"
  shows "rounds_of t' i = map g (rounds_of t i)"
  using assms by (simp add: rounds_of_def filter_map_same)

lemma inputs_of_map:
  assumes "wt_inputs t' = map g (wt_inputs t)" and "\<And>n. in_item_id (g n) = in_item_id n"
  shows "inputs_of t' i = map g (inputs_of t i)"
  using assms by (simp add: inputs_of_def filter_map_same)

lemma settled_item_fields:
  "wi_id (settled_item st r) = wi_id r" "wi_tenant (settled_item st r) = wi_tenant r" "wi_seq (settled_item st r) = wi_seq r"
  by (simp_all add: settled_item_def)

lemma settle_changes:
  assumes ok: "items_ok t" and run: "settle_work_item_round ten i sq st t = (True, t')"
  obtains r where "r \<in> set (wt_items t)" "wi_id r = i" "wi_tenant r = ten" "wi_seq r = sq" "has_running (rounds_of t i)"
    "wt_items t' = map (\<lambda>q. if q = r then settled_item st q else q) (wt_items t)"
    "rounds_of t' = (rounds_of t)(i := map (\<lambda>x. if rd_seq x = sq \<and> rd_state x = ''running'' then settled_round st x else x) (rounds_of t i))"
    "rd_item_id ` set (wt_rounds t') = rd_item_id ` set (wt_rounds t)"
    "wt_inputs t' = wt_inputs t" "wt_subs t' = wt_subs t"
proof -
  let ?hit = "\<lambda>x. rd_tenant x = ten \<and> rd_item_id x = i \<and> rd_seq x = sq \<and> rd_state x = ''running''"
  let ?g = "\<lambda>x. if ?hit x then settled_round st x else x"
  have hit: "list_ex ?hit (wt_rounds t)"
    using run by (rule contrapos_pp) (simp add: settle_work_item_round_def Let_def)
  then have t': "t' = t\<lparr>wt_rounds := map ?g (wt_rounds t),
       wt_items := map (\<lambda>r. if wi_tenant r = ten \<and> wi_id r = i then settled_item st r else r) (wt_items t)\<rparr>"
    using run by (simp add: settle_work_item_round_def Let_def)
  from hit obtain x where x: "x \<in> set (wt_rounds t)" "?hit x" by (auto simp: list_ex_iff)
  obtain r where r: "r \<in> set (wt_items t)" "wi_id r = rd_item_id x" "wi_tenant r = rd_tenant x" "wi_seq r = rd_seq x"
    "has_running (rounds_of t (wi_id r))"
    by (rule running_round_facts [OF ok x(1)]) (use x(2) in auto)
  have items: "wt_items t' = map (\<lambda>q. if q = r then settled_item st q else q) (wt_items t)"
  proof -
    have "wi_tenant q = ten \<and> wi_id q = i \<longleftrightarrow> q = r" if "q \<in> set (wt_items t)" for q
      using x(2) r same_item [OF ok that r(1)] by metis
    then show ?thesis by (simp add: t' cong: map_cong)
  qed
  have tenants: "rd_tenant y = ten" if "y \<in> set (rounds_of t i)" for y
    using items_okD [OF ok r(1)] r x(2) that by (auto simp: row_ok_def rounds_ok_def list_all_iff round_ok_def)
  have "rounds_of t' j = map ?g (rounds_of t j)" for j
    by (rule rounds_of_map) (simp_all add: t' settled_round_def)
  moreover have "map ?g (rounds_of t j) = rounds_of t j" if "j \<noteq> i" for j
    using that by (intro map_idI) (auto simp: rounds_of_def)
  moreover have "map ?g (rounds_of t i) = map (\<lambda>x. if rd_seq x = sq \<and> rd_state x = ''running'' then settled_round st x else x) (rounds_of t i)"
    using tenants by (intro map_cong) (auto simp: rounds_of_def)
  ultimately have rounds: "rounds_of t' = (rounds_of t)(i := map (\<lambda>x. if rd_seq x = sq \<and> rd_state x = ''running'' then settled_round st x else x) (rounds_of t i))"
    by (simp add: fun_eq_iff)
  have "rd_item_id ` set (wt_rounds t') = rd_item_id ` set (wt_rounds t)"
    using keys_map [of rd_item_id ?g "wt_rounds t"] by (simp add: t' settled_round_def)
  with that [OF r(1) _ _ _ _ items rounds] r x(2) show ?thesis by (simp add: t')
qed

lemma settle_tables:
  assumes ok: "tables_ok t" and cap: "within_cap cap t" and sd: "fst sd \<noteq> RoundRunning"
    and run: "settle_work_item_round ten i sq (settlement_of sd now) t = (b, t')"
  shows "tables_ok t' \<and> within_cap cap t'"
proof (cases b)
  case False
  with run ok cap show ?thesis by (auto simp: settle_work_item_round_def Let_def split: if_splits)
next
  case True
  have items: "items_ok t" and subs: "subs_ok t" using ok by (simp_all add: tables_ok_def)
  let ?st = "settlement_of sd now"
  have run': "settle_work_item_round ten i sq ?st t = (True, t')" using run True by simp
  obtain r where r: "r \<in> set (wt_items t)" "wi_id r = i" "wi_tenant r = ten" "wi_seq r = sq" "has_running (rounds_of t i)"
    and t': "wt_items t' = map (\<lambda>q. if q = r then settled_item ?st q else q) (wt_items t)"
    "rounds_of t' = (rounds_of t)(i := map (\<lambda>x. if rd_seq x = sq \<and> rd_state x = ''running'' then settled_round ?st x else x) (rounds_of t i))"
    "rd_item_id ` set (wt_rounds t') = rd_item_id ` set (wt_rounds t)"
    "wt_inputs t' = wt_inputs t" "wt_subs t' = wt_subs t"
    by (rule settle_changes [OF items run'])
  note row = items_okD [OF items r(1)]
  have ins: "inputs_of t' = inputs_of t" by (simp add: fun_eq_iff inputs_of_def t'(4))
  have "items_ok t'"
  proof (rule items_updated [OF items t'(1)])
    fix q
    assume q: "q \<in> set (wt_items t)"
    show "row_ok (if q = r then settled_item ?st q else q) (rounds_of t' (wi_id q)) (inputs_of t' (wi_id q))"
    proof (cases "q = r")
      case True
      with row_ok_settled [OF row sd r(4) [symmetric] refl] r show ?thesis by (simp add: t'(2) ins)
    next
      case False
      with same_item [OF items q r(1)] r have "wi_id q \<noteq> i" by auto
      with items_okD [OF items q] False show ?thesis by (simp add: t'(2) ins)
    qed
  qed (use items t' in \<open>auto simp: items_ok_def settled_item_fields\<close>)
  moreover have final: "is_final (settled_item ?st q) \<longleftrightarrow> is_final q" for q
    using ends_settlement [of sd now] by (auto simp: settled_item_def is_final_def)
  have "subs_ok t'"
    by (rule subs_updated [OF subs t'(1), of id]) (auto simp: t'(5) settled_item_fields final)
  moreover have "wi_state q = ''open''" if "q = r" "wi_state (settled_item ?st q) = ''open''" for q
    using that running_not_final [of r "rounds_of t i"] row r by (auto simp: row_ok_def settled_item_def)
  then have "within_cap cap t'"
    by (intro cap_kept [OF cap] count_not_more [OF t'(1)]) (auto simp: settled_item_fields split: if_splits)
  ultimately show ?thesis by (simp add: tables_ok_def)
qed

end
