(* ===== verification/Work_Item_Keeps.thy ===== *)
theory Work_Item_Keeps
  imports Work_Item_Invariant
begin

text \<open>
  The statements on the tables of work items keep their well-formedness and the cap on open items.
\<close>

section \<open>Statements\<close>

abbreviation wi_good :: "nat \<Rightarrow> wi_tables \<Rightarrow> bool" where
  "wi_good cap t \<equiv> tables_ok t \<and> within_cap cap t"

subsection \<open>Starting a round\<close>

lemma start_changes:
  assumes ok: "items_ok t" and run: "start_work_item_round rd n clear t = Some (True, t')"
  obtains r where "r \<in> set (wt_items t)" "wi_id r = rd_item_id rd" "wi_tenant r = rd_tenant rd" "wi_state r = ''open''"
    "rd_seq rd = wi_seq r + 1" "\<not> has_running (rounds_of t (rd_item_id rd))"
    "wt_items t' = map (\<lambda>q. if q = r then started_item rd clear q else q) (wt_items t)"
    "wt_rounds t' = wt_rounds t @ [rd]"
    "wt_inputs t' = map (consumed_input rd n) (wt_inputs t)"
    "wt_subs t' = wt_subs t"
proof -
  let ?hit = "\<lambda>r. wi_tenant r = rd_tenant rd \<and> wi_id r = rd_item_id rd \<and> wi_state r = ''open'' \<and> wi_seq r + 1 = rd_seq rd \<and>
     \<not> list_ex (\<lambda>x. rd_state x = ''running'') (rounds_of t (rd_item_id rd))"
  have hit: "list_ex ?hit (wt_items t)"
    using run by (rule contrapos_pp) (simp add: start_work_item_round_def Let_def)
  then have "insert_round rd (t\<lparr>wt_items := map (\<lambda>q. if ?hit q then started_item rd clear q else q) (wt_items t), wt_inputs := map (consumed_input rd n) (wt_inputs t)\<rparr>) = Some t'"
    using run by (simp add: start_work_item_round_def Let_def)
  then have t': "wt_items t' = map (\<lambda>q. if ?hit q then started_item rd clear q else q) (wt_items t)" "wt_inputs t' = map (consumed_input rd n) (wt_inputs t)"
    "wt_rounds t' = wt_rounds t @ [rd]" "wt_subs t' = wt_subs t"
    by (auto simp: insert_round_def split: if_splits)
  from hit obtain r where r: "r \<in> set (wt_items t)" "?hit r" by (auto simp: list_ex_iff)
  have "wt_items t' = map (\<lambda>q. if q = r then started_item rd clear q else q) (wt_items t)"
  proof -
    have "?hit q \<longleftrightarrow> q = r" if "q \<in> set (wt_items t)" for q
      using r same_item [OF ok that r(1)] by metis
    then show ?thesis by (simp add: t' cong: map_cong)
  qed
  with that [OF r(1)] r(2) t' show ?thesis by (simp add: has_running_def)
qed

lemma start_tables:
  assumes good: "wi_good cap t" and run: "start_work_item_round rd n clear t = Some (b, t')"
    and rd: "rd_request_id rd = round_request_id (rd_item_id rd) (rd_seq rd)" "rd_state rd = ''running''"
    and att: "\<And>r. r \<in> set (wt_items t) \<Longrightarrow> wi_id r = rd_item_id rd \<Longrightarrow> clear \<or> wi_attention r = None"
  shows "wi_good cap t'"
proof (cases b)
  case False
  with run good show ?thesis by (auto simp: start_work_item_round_def Let_def split: if_splits)
next
  case True
  have items: "items_ok t" and subs: "subs_ok t" using good by (simp_all add: tables_ok_def)
  have run': "start_work_item_round rd n clear t = Some (True, t')" using run True by simp
  obtain r where r: "r \<in> set (wt_items t)" "wi_id r = rd_item_id rd" "wi_tenant r = rd_tenant rd" "wi_state r = ''open''"
    "rd_seq rd = wi_seq r + 1" "\<not> has_running (rounds_of t (rd_item_id rd))"
    and t': "wt_items t' = map (\<lambda>q. if q = r then started_item rd clear q else q) (wt_items t)"
    "wt_rounds t' = wt_rounds t @ [rd]"
    "wt_inputs t' = map (consumed_input rd n) (wt_inputs t)"
    "wt_subs t' = wt_subs t"
    by (rule start_changes [OF items run'])
  have rounds: "rounds_of t' j = (if j = rd_item_id rd then rounds_of t j @ [rd] else rounds_of t j)" for j
    by (simp add: rounds_of_def t'(2))
  have ins: "inputs_of t' j = map (consumed_input rd n) (inputs_of t j)" for j
    by (rule inputs_of_map [OF t'(3)]) simp
  have keys: "in_item_id ` set (wt_inputs t') = in_item_id ` set (wt_inputs t)"
    unfolding t'(3) by (rule keys_map) simp
  have "items_ok t'"
  proof (rule items_updated [OF items t'(1)])
    fix q
    assume q: "q \<in> set (wt_items t)"
    note row = items_okD [OF items q]
    show "row_ok (if q = r then started_item rd clear q else q) (rounds_of t' (wi_id q)) (inputs_of t' (wi_id q))"
    proof (cases "q = r")
      case True
      have "row_ok (started_item rd clear r) (rounds_of t (wi_id r) @ [rd]) (map (consumed_input rd n) (inputs_of t (wi_id r)))"
        by (rule row_ok_started) (use row True r rd att [OF r(1,2)] in auto)
      with True r(2) show ?thesis by (simp add: rounds ins)
    next
      case False
      with same_item [OF items q r(1)] r(2) have other: "wi_id q \<noteq> rd_item_id rd" by auto
      then have "map (consumed_input rd n) (inputs_of t (wi_id q)) = inputs_of t (wi_id q)"
        by (intro map_idI) (auto simp: inputs_of_def consumed_input_def)
      with row False other show ?thesis by (simp add: rounds ins)
    qed
  qed (use items r t'(2) keys in \<open>auto simp: items_ok_def simp flip: r(2)\<close>)
  moreover have final: "is_final (started_item rd clear q) \<longleftrightarrow> is_final q" for q by (simp add: is_final_def)
  have "subs_ok t'"
    by (rule subs_updated [OF subs t'(1), of id]) (auto simp: t'(4) final)
  moreover have "within_cap cap t'"
    by (rule cap_kept [OF conjunct2 [OF good]], rule count_not_more [OF t'(1)]) (auto split: if_splits)
  ultimately show ?thesis by (simp add: tables_ok_def)
qed

subsection \<open>Inputs\<close>

lemma append_changes:
  assumes "append_work_item_input n t = Some (sq, t')"
  shows "sq = next_input_seq t (in_item_id n)" "t' = t\<lparr>wt_inputs := wt_inputs t @ [n\<lparr>in_seq := sq\<rparr>]\<rparr>"
    "\<exists>r \<in> set (wt_items t). wi_id r = in_item_id n \<and> wi_tenant r = in_tenant n"
  using assms by (auto simp: append_work_item_input_def Let_def list_ex_iff split: if_splits)

lemma append_tables:
  assumes good: "wi_good cap t" and run: "append_work_item_input n t = Some (sq, t')"
    and n: "\<And>r. r \<in> set (wt_items t) \<Longrightarrow> wi_id r = in_item_id n \<Longrightarrow> input_ok r n"
  shows "wi_good cap t'"
proof -
  have items: "items_ok t" and subs: "subs_ok t" and cap: "within_cap cap t" using good by (simp_all add: tables_ok_def)
  note t' = append_changes [OF run]
  obtain r where r: "r \<in> set (wt_items t)" "wi_id r = in_item_id n" using t'(3) by auto
  have ins: "inputs_of t' j = (if j = in_item_id n then inputs_of t j @ [n\<lparr>in_seq := sq\<rparr>] else inputs_of t j)" for j
    by (simp add: inputs_of_def t'(2))
  have rounds: "rounds_of t' = rounds_of t" by (simp add: fun_eq_iff rounds_of_def t'(2))
  have "items_ok t'"
  proof (rule items_updated [OF items, of t' id])
    fix q
    assume q: "q \<in> set (wt_items t)"
    note row = items_okD [OF items q]
    show "row_ok (id q) (rounds_of t' (wi_id q)) (inputs_of t' (wi_id q))"
    proof (cases "wi_id q = in_item_id n")
      case True
      from row have "numbered in_seq (inputs_of t (wi_id q))" by (simp add: row_ok_def)
      then have "sq = Suc (length (inputs_of t (wi_id q)))"
        using True by (simp add: t'(1) next_input_seq_def numbered_max)
      moreover have "input_ok q (n\<lparr>in_seq := sq\<rparr>)" using n [OF q True] by (simp add: input_ok_def)
      ultimately show ?thesis using row_ok_input [OF row, of "n\<lparr>in_seq := sq\<rparr>"] True by (simp add: ins rounds)
    qed (simp add: ins rounds row)
  qed (use items r in \<open>auto simp: t'(2) items_ok_def simp flip: r(2)\<close>)
  moreover have "subs_ok t'" using subs by (simp add: subs_ok_def t'(2))
  moreover have "within_cap cap t'" using cap by (simp add: within_cap_def count_open_work_items_def t'(2))
  ultimately show ?thesis by (simp add: tables_ok_def)
qed

subsection \<open>Ends\<close>

text \<open>A change of the state of some items and the drop of some subscriptions.\<close>

lemma states_changed:
  assumes items: "items_ok t" and subs: "subs_ok t"
    and t': "wt_items t' = map (\<lambda>r. if hit r then r\<lparr>wi_state := st, wi_end_reason := er, wi_updated_at := at\<rparr> else r) (wt_items t)"
      "wt_rounds t' = wt_rounds t" "wt_inputs t' = wt_inputs t"
      "wt_subs t' = map (\<lambda>s. if gone s then s\<lparr>ss_dropped_at := Some at, ss_drop_reason := why\<rparr> else s) (wt_subs t)"
    and st: "st = ''open'' \<and> er = None \<or> st = ''ended'' \<and> (\<exists>x. er = Some (end_reason_str x))"
    and run: "\<And>r. r \<in> set (wt_items t) \<Longrightarrow> hit r \<Longrightarrow> has_running (rounds_of t (wi_id r)) \<Longrightarrow> er = Some ''stopped''"
    and dropped: "\<And>r s. hit r \<Longrightarrow> wi_id r = ss_item_id s \<Longrightarrow> wi_tenant r = ss_tenant s \<Longrightarrow> ss_dropped_at s = None \<Longrightarrow> \<not> gone s \<Longrightarrow>
       er \<noteq> Some ''stopped'' \<and> er \<noteq> Some ''revoked''"
  shows "tables_ok t'"
proof -
  have same: "rounds_of t' = rounds_of t" "inputs_of t' = inputs_of t"
    by (simp_all add: fun_eq_iff rounds_of_def inputs_of_def t')
  have "items_ok t'"
  proof (rule items_updated [OF items t'(1)])
    fix q
    assume q: "q \<in> set (wt_items t)"
    note row = items_okD [OF items q]
    show "row_ok (if hit q then q\<lparr>wi_state := st, wi_end_reason := er, wi_updated_at := at\<rparr> else q)
      (rounds_of t' (wi_id q)) (inputs_of t' (wi_id q))"
    proof (cases "hit q")
      case True
      have "state_ok (q\<lparr>wi_state := st, wi_end_reason := er, wi_updated_at := at\<rparr>)" using st by (auto simp: state_ok_def)
      from row_ok_state [OF row this] run [OF q True] True show ?thesis by (simp add: same)
    qed (simp add: row same)
  qed (use items in \<open>auto simp: items_ok_def t'\<close>)
  moreover have "subs_ok t'"
  proof (rule subs_updated [OF subs t'(1) t'(4)])
    fix r and s :: subscription_row
    assume a: "wi_id r = ss_item_id s" "wi_tenant r = ss_tenant s"
      and live: "ss_dropped_at (if gone s then s\<lparr>ss_dropped_at := Some at, ss_drop_reason := why\<rparr> else s) = None"
      and "\<not> is_final r"
    from live have "ss_dropped_at s = None" "\<not> gone s" by (auto split: if_splits)
    with dropped [of r s] a \<open>\<not> is_final r\<close>
    show "\<not> is_final (if hit r then r\<lparr>wi_state := st, wi_end_reason := er, wi_updated_at := at\<rparr> else r)"
      by (auto simp: is_final_def)
  qed (auto split: if_splits)
  ultimately show ?thesis by (simp add: tables_ok_def)
qed

lemma reported_end_not_running:
  assumes "items_ok t" and r: "r \<in> set (wt_items t)" and "wi_state r = ''ended''"
    and "wi_end_reason r = Some ''completed'' \<or> wi_end_reason r = Some ''dropped''"
  shows "\<not> has_running (rounds_of t (wi_id r))"
  using items_okD [OF assms(1) r] assms(3,4) by (auto simp: row_ok_def rounds_ok_def)

lemma end_changes:
  assumes "end_work_item_finally ten i reason at t = Some (True, t')"
  shows "reason = ''stopped'' \<or> reason = ''revoked''"
    "wt_items t' = map (\<lambda>r. if wi_tenant r = ten \<and> wi_id r = i \<and>
       (if reason = ''stopped'' then wi_end_reason r \<noteq> Some ''stopped''
        else wi_state r = ''ended'' \<and> (wi_end_reason r = Some ''completed'' \<or> wi_end_reason r = Some ''dropped''))
       then r\<lparr>wi_state := ''ended'', wi_end_reason := Some reason, wi_updated_at := at\<rparr> else r) (wt_items t)"
    "wt_rounds t' = wt_rounds t" "wt_inputs t' = wt_inputs t"
    "wt_subs t' = map (\<lambda>s. if ss_tenant s = ten \<and> ss_item_id s = i \<and> ss_dropped_at s = None
       then s\<lparr>ss_dropped_at := Some at, ss_drop_reason := Some reason\<rparr> else s) (wt_subs t)"
  using assms by (auto simp: end_work_item_finally_def Let_def split: if_splits)

lemma end_tables:
  assumes good: "wi_good cap t" and run: "end_work_item_finally ten i reason at t = Some (b, t')"
  shows "wi_good cap t'"
proof (cases b)
  case False
  with run good show ?thesis by (auto simp: end_work_item_finally_def Let_def split: if_splits)
next
  case True
  have items: "items_ok t" and subs: "subs_ok t" using good by (simp_all add: tables_ok_def)
  let ?hit = "\<lambda>r. wi_tenant r = ten \<and> wi_id r = i \<and>
     (if reason = ''stopped'' then wi_end_reason r \<noteq> Some ''stopped''
      else wi_state r = ''ended'' \<and> (wi_end_reason r = Some ''completed'' \<or> wi_end_reason r = Some ''dropped''))"
  let ?drop = "\<lambda>s. ss_tenant s = ten \<and> ss_item_id s = i \<and> ss_dropped_at s = None"
  have run': "end_work_item_finally ten i reason at t = Some (True, t')" using run True by simp
  note reason = end_changes(1) [OF run'] and t' = end_changes(2-) [OF run']
  have "tables_ok t'"
  proof (rule states_changed [OF items subs t'])
    show "''ended'' = ''open'' \<and> Some reason = None \<or> ''ended'' = ''ended'' \<and> (\<exists>x. Some reason = Some (end_reason_str x))"
      using reason by (auto intro: exI [of _ EndStopped] exI [of _ EndRevoked])
    show "Some reason = Some ''stopped''" if "r \<in> set (wt_items t)" "?hit r" "has_running (rounds_of t (wi_id r))" for r
      using that reported_end_not_running [OF items that(1)] by (auto split: if_splits)
  qed auto
  moreover have "within_cap cap t'"
    by (rule cap_kept [OF conjunct2 [OF good]], rule count_not_more [OF t'(1)]) (auto split: if_splits)
  ultimately show ?thesis by simp
qed

lemma count_one_more:
  assumes "items_ok t" and "wt_items t' = map f (wt_items t)" and "\<And>r. wi_tenant (f r) = wi_tenant r"
    and "\<And>r. wi_state (f r) = ''open'' \<Longrightarrow> wi_state r = ''open'' \<or> wi_tenant r = ten \<and> wi_id r = i"
  shows "count_open_work_items x t' \<le> (if x = ten then Suc (count_open_work_items x t) else count_open_work_items x t)"
proof -
  have "length (filter (\<lambda>r. wi_tenant r = x \<and> wi_state r = ''open'') (map f rows)) \<le>
        length (filter (\<lambda>r. wi_tenant r = x \<and> wi_state r = ''open'') rows) + (if x = ten \<and> i \<in> wi_id ` set rows then 1 else 0)"
    if "distinct (map wi_id rows)" for rows
    using that
  proof (induction rows)
    case (Cons r rows)
    then have IH: "length (filter (\<lambda>r. wi_tenant r = x \<and> wi_state r = ''open'') (map f rows)) \<le>
        length (filter (\<lambda>r. wi_tenant r = x \<and> wi_state r = ''open'') rows) + (if x = ten \<and> i \<in> wi_id ` set rows then 1 else 0)"
      by simp
    show ?case
      using IH assms(3) [of r] assms(4) [of r] Cons.prems by (cases "wi_id r = i") (auto split: if_splits)
  qed simp
  with assms(1,2) show ?thesis
    unfolding count_open_work_items_def items_ok_def by (force simp: split: if_splits)
qed

lemma reopen_tables:
  assumes good: "wi_good cap t" and room: "cap > 0 \<Longrightarrow> count_open_work_items ten t < cap"
    and run: "reopen_work_item ten i at t = (b, t')"
  shows "wi_good cap t'"
proof -
  have items: "items_ok t" and subs: "subs_ok t" using good by (simp_all add: tables_ok_def)
  let ?hit = "\<lambda>r. wi_tenant r = ten \<and> wi_id r = i \<and> wi_state r = ''ended'' \<and>
     (wi_end_reason r = Some ''completed'' \<or> wi_end_reason r = Some ''dropped'')"
  from run have t': "wt_items t' = map (\<lambda>r. if ?hit r then r\<lparr>wi_state := ''open'', wi_end_reason := None, wi_updated_at := at\<rparr> else r) (wt_items t)"
    "wt_rounds t' = wt_rounds t" "wt_inputs t' = wt_inputs t"
    "wt_subs t' = map (\<lambda>s. if False then s\<lparr>ss_dropped_at := Some at, ss_drop_reason := None\<rparr> else s) (wt_subs t)"
    by (auto simp: reopen_work_item_def Let_def)
  have "tables_ok t'"
    by (rule states_changed [OF items subs t']) (use reported_end_not_running [OF items] in auto)
  moreover have "within_cap cap t'"
    unfolding within_cap_def
  proof (intro impI allI)
    fix x
    assume "cap > 0"
    have "count_open_work_items x t' \<le> (if x = ten then Suc (count_open_work_items x t) else count_open_work_items x t)"
      by (rule count_one_more [OF items t'(1), of ten i]) (auto split: if_splits)
    with room [OF \<open>cap > 0\<close>] good \<open>cap > 0\<close> show "count_open_work_items x t' \<le> cap"
      by (auto simp: within_cap_def split: if_splits intro: le_trans)
  qed
  ultimately show ?thesis by simp
qed

subsection \<open>Subscriptions\<close>

lemma subs_changed:
  assumes good: "wi_good cap t" and t': "wt_items t' = wt_items t" "wt_rounds t' = wt_rounds t" "wt_inputs t' = wt_inputs t"
      "wt_subs t' = map h (wt_subs t)"
    and h: "\<And>s. ss_id (h s) = ss_id s" "\<And>s. ss_item_id (h s) = ss_item_id s" "\<And>s. ss_tenant (h s) = ss_tenant s"
      "\<And>s. ss_source_key (h s) = ss_source_key s" "\<And>s. ss_role (h s) = ss_role s"
      "\<And>s. ss_dropped_at (h s) = None \<Longrightarrow> ss_dropped_at s = None"
  shows "wi_good cap t'"
proof -
  have "items_ok t'" using good by (simp add: tables_ok_def items_ok_def rounds_of_def inputs_of_def t')
  moreover have "subs_ok t'"
    by (rule subs_updated [of t t' id h]) (use good h in \<open>auto simp: tables_ok_def t'\<close>)
  moreover have "within_cap cap t'" using good by (simp add: within_cap_def count_open_work_items_def t')
  ultimately show ?thesis by (simp add: tables_ok_def)
qed

lemma expire_tables: "wi_good cap t \<Longrightarrow> wi_good cap (expire_idle ten src cutoff now t)"
  by (rule subs_changed [where h = "\<lambda>s. if ss_tenant s = ten \<and> ss_source_key s = src \<and> ss_dropped_at s = None \<and>
      ss_last_event_at s < cutoff then s\<lparr>ss_dropped_at := Some now, ss_drop_reason := Some ''idle''\<rparr> else s"])
    (auto simp: expire_idle_def split: if_splits)

lemma touch_tables: "wi_good cap t \<Longrightarrow> wi_good cap (touch_work_item_subscription ten sid at t)"
  by (rule subs_changed [where h = "\<lambda>s. if ss_tenant s = ten \<and> ss_id s = sid \<and> ss_dropped_at s = None
      then s\<lparr>ss_last_event_at := at\<rparr> else s"])
    (auto simp: touch_work_item_subscription_def split: if_splits)

lemma superseded_tables: "wi_good cap t \<Longrightarrow> wi_good cap (superseded ten src at t)"
  by (rule subs_changed [where h = "\<lambda>s. if live_owner ten src s
      then s\<lparr>ss_dropped_at := Some at, ss_drop_reason := Some ''superseded''\<rparr> else s"])
    (auto simp: superseded_def split: if_splits)

lemma superseded_same: "wt_items (superseded ten src at t) = wt_items t" "count_open_work_items x (superseded ten src at t) = count_open_work_items x t"
  by (simp_all add: superseded_def count_open_work_items_def)

subsection \<open>New items\<close>

lemma create_changes:
  assumes "create_work_item it rd t = Some t'"
  shows "t' = t\<lparr>wt_items := wt_items t @ [it], wt_rounds := wt_rounds t @ [rd]\<rparr>" "wi_id it \<notin> wi_id ` set (wt_items t)"
    "has_item t' (rd_item_id rd)"
  using assms by (auto simp: create_work_item_def insert_item_def insert_round_def list_ex_iff has_item_def split: if_splits)

text \<open>An item and its first round as \<open>open\<close> writes them.\<close>

definition fresh_item :: "work_item_row \<Rightarrow> round_row \<Rightarrow> bool" where
  "fresh_item it rd \<longleftrightarrow>
     wi_seq it = 1 \<and> wi_state it = ''open'' \<and> wi_end_reason it = None \<and> wi_attention it = None \<and>
     rd_item_id rd = wi_id it \<and> rd_seq rd = 1 \<and> round_ok it rd"

lemma create_tables:
  assumes good: "wi_good cap t" and room: "cap > 0 \<Longrightarrow> count_open_work_items (wi_tenant it) t < cap"
    and fresh: "fresh_item it rd" and run: "create_work_item it rd t = Some t'"
  shows "wi_good cap t'"
proof -
  have items: "items_ok t" and subs: "subs_ok t" using good by (simp_all add: tables_ok_def)
  note t' = create_changes [OF run]
  have no_rows: "rounds_of t (wi_id it) = []" "inputs_of t (wi_id it) = []"
    using items t'(2) unfolding items_ok_def rounds_of_def inputs_of_def filter_empty_conv by (metis image_subset_iff)+
  have rounds: "rounds_of t' j = (if j = wi_id it then [rd] else rounds_of t j)" for j
    using fresh no_rows(1) by (auto simp: t'(1) rounds_of_def fresh_item_def)
  have ins: "inputs_of t' = inputs_of t" by (simp add: fun_eq_iff inputs_of_def t'(1))
  have "row_ok it [rd] []" using fresh row_ok_new [of it rd] by (simp add: fresh_item_def)
  with no_rows(2) have new: "row_ok it (rounds_of t' (wi_id it)) (inputs_of t' (wi_id it))" by (simp add: rounds ins)
  have old: "row_ok q (rounds_of t' (wi_id q)) (inputs_of t' (wi_id q))" if q: "q \<in> set (wt_items t)" for q
  proof -
    have "wi_id q \<noteq> wi_id it" using q t'(2) by (metis imageI)
    with items_okD [OF items q] show ?thesis by (simp add: rounds ins)
  qed
  have "items_ok t'"
    using items new old fresh t'(2) unfolding items_ok_def by (auto simp: t'(1) fresh_item_def)
  moreover have "subs_ok t'"
    using subs by (auto simp: subs_ok_def t'(1))
  moreover have "count_open_work_items x t' = count_open_work_items x t + (if x = wi_tenant it then 1 else 0)" for x
    using fresh by (simp add: count_open_work_items_def t'(1) fresh_item_def)
  with room good have "within_cap cap t'" by (auto simp: within_cap_def Suc_le_eq)
  ultimately show ?thesis by (simp add: tables_ok_def)
qed

lemma insert_subscription_changes:
  assumes "insert_subscription sub t = Some t'"
  shows "t' = t\<lparr>wt_subs := wt_subs t @ [sub]\<rparr>" "ss_id sub \<notin> ss_id ` set (wt_subs t)"
    "\<And>s. s \<in> set (wt_subs t) \<Longrightarrow> ss_role sub = ''owner'' \<Longrightarrow> ss_dropped_at sub = None \<Longrightarrow> \<not> live_owner (ss_tenant sub) (ss_source_key sub) s"
  using assms by (auto simp: insert_subscription_def list_ex_iff split: if_splits)

lemma subscribe_tables:
  assumes good: "wi_good cap t" and run: "insert_subscription sub t = Some t'"
    and sub: "ss_role sub = ''owner''" "ss_dropped_at sub = None"
    and item: "r \<in> set (wt_items t)" "wi_id r = ss_item_id sub" "wi_tenant r = ss_tenant sub" "\<not> is_final r"
  shows "wi_good cap t'"
proof -
  note t' = insert_subscription_changes [OF run]
  have subs: "subs_ok t" using good by (simp add: tables_ok_def)
  have one: "a = b" if "a \<in> set (wt_subs t')" "b \<in> set (wt_subs t')" "live_owner ten src a" "live_owner ten src b" for ten src a b
  proof -
    have "live_owner ten src sub \<Longrightarrow> ten = ss_tenant sub \<and> src = ss_source_key sub" by (auto simp: live_owner_def)
    with that t'(3) [OF _ sub] one_owner [OF subs, of a b ten src] show ?thesis by (auto simp: t'(1))
  qed
  have "distinct (map ss_id (wt_subs t'))" using subs t'(2) by (auto simp: subs_ok_def t'(1))
  moreover have "\<forall>s \<in> set (wt_subs t'). ss_role s = ''owner'' \<and> (\<exists>r \<in> set (wt_items t'). wi_id r = ss_item_id s \<and>
      wi_tenant r = ss_tenant s \<and> (ss_dropped_at s = None \<longrightarrow> \<not> is_final r))"
    using subs item sub by (auto simp: subs_ok_def t'(1))
  ultimately have "subs_ok t'" using one unfolding subs_ok_def by blast
  moreover have "items_ok t'" "within_cap cap t'"
    using good by (simp_all add: tables_ok_def items_ok_def rounds_of_def inputs_of_def within_cap_def count_open_work_items_def t'(1))
  ultimately show ?thesis by (simp add: tables_ok_def)
qed

lemma create_owned_tables:
  assumes good: "wi_good cap t" and room: "cap > 0 \<Longrightarrow> count_open_work_items (wi_tenant it) t < cap"
    and fresh: "fresh_item it rd"
    and owner: "ss_role ow = ''owner''" "ss_dropped_at ow = None" "ss_item_id ow = wi_id it" "ss_tenant ow = wi_tenant it"
    and run: "create_work_item_with_owner it rd ow t = Some (x, t')"
  shows "wi_good cap t'"
proof (cases "open_owner (ss_tenant ow) (ss_source_key ow) t")
  case (Some i)
  with run good show ?thesis by (simp add: create_work_item_with_owner_def)
next
  case None
  let ?t = "superseded (ss_tenant ow) (ss_source_key ow) (ss_created_at ow) t"
  from None run obtain t1 where t1: "create_work_item it rd ?t = Some t1" "insert_subscription ow t1 = Some t'"
    by (auto simp: create_work_item_with_owner_def bind_eq_Some_conv)
  have good1: "wi_good cap t1"
    by (rule create_tables [OF superseded_tables [OF good] _ fresh t1(1)]) (simp add: superseded_same room)
  show ?thesis
  proof (rule subscribe_tables [OF good1 t1(2) owner(1,2)])
    show "it \<in> set (wt_items t1)" by (simp add: create_changes(1) [OF t1(1)])
  qed (use owner fresh in \<open>simp_all add: is_final_def fresh_item_def\<close>)
qed

subsection \<open>Rows of other parts\<close>

lemma thread_rows_aside [simp]:
  "tables_ok (t\<lparr>wt_threads := x\<rparr>) = tables_ok t" "tables_ok (t\<lparr>wt_segments := y\<rparr>) = tables_ok t"
  "within_cap cap (t\<lparr>wt_threads := x\<rparr>) = within_cap cap t" "within_cap cap (t\<lparr>wt_segments := y\<rparr>) = within_cap cap t"
  "count_open_work_items ten (t\<lparr>wt_threads := x\<rparr>) = count_open_work_items ten t"
  "count_open_work_items ten (t\<lparr>wt_segments := y\<rparr>) = count_open_work_items ten t"
  by (simp_all add: tables_ok_def items_ok_def subs_ok_def rounds_of_def inputs_of_def within_cap_def count_open_work_items_def)

lemma other_rows_aside [simp]:
  "tables_ok (t\<lparr>wt_policies := ps\<rparr>) = tables_ok t" "within_cap cap (t\<lparr>wt_policies := ps\<rparr>) = within_cap cap t"
  "tables_ok (t\<lparr>wt_members := ms\<rparr>) = tables_ok t" "within_cap cap (t\<lparr>wt_members := ms\<rparr>) = within_cap cap t"
  by (simp_all add: tables_ok_def items_ok_def subs_ok_def rounds_of_def inputs_of_def within_cap_def count_open_work_items_def)

end
