(* ===== verification/Work_Item_Rounds.thy ===== *)
theory Work_Item_Rounds
  imports Work_Item_Keeps
begin

text \<open>
  Runs of the operations that succeed, and what planning and starting a round do, exactly.
\<close>

section \<open>Runs that succeed\<close>

lemma bind_InrE:
  assumes "bind_op m f s = (Inr y, t)"
  obtains x u where "m s = (Inr x, u)" "f x u = (Inr y, t)"
  using assms by (auto simp: bind_op_def split: prod.splits sum.splits)

lemma then_InrE:
  assumes "then_op m n s = (Inr y, t)"
  obtains x u where "m s = (Inr x, u)" "n u = (Inr y, t)"
  using assms unfolding then_op_def by (rule bind_InrE)

lemma call_InrE:
  assumes "wi_call f s = (Inr x, s')"
  obtains t where "f (wm_db s) = Some (x, t)" "s' = s\<lparr>wm_faults := tl (wm_faults s), wm_db := t\<rparr>"
  using assms by (auto simp: wi_call_def Let_def split: if_splits option.splits)

text \<open>What a run leaves alone, besides the faults it used up.\<close>

definition same_db :: "wi_state \<Rightarrow> wi_state \<Rightarrow> bool" where
  "same_db s s' \<longleftrightarrow> wm_db s' = wm_db s \<and> wm_clock s' = wm_clock s \<and> wm_uuid s' = wm_uuid s \<and> wm_drawn s \<le> wm_drawn s'"

lemma same_db_trans: "same_db a b \<Longrightarrow> same_db b c \<Longrightarrow> same_db a c"
  by (auto simp: same_db_def)

lemma read_InrE:
  assumes "wi_read f s = (Inr x, s')"
  obtains "x = f (wm_db s)" "same_db s s'" "wm_drawn s' = wm_drawn s"
  using assms unfolding wi_read_def by (auto elim!: call_InrE simp: same_db_def)

lemma now_InrE:
  assumes "wi_now s = (Inr x, s')"
  obtains "x = wm_clock s (wm_drawn s)" "same_db s s'" "wm_drawn s' = Suc (wm_drawn s)"
  using assms by (auto simp: wi_now_def same_db_def)

lemma return_InrE: "return_op x s = (Inr y, s') \<Longrightarrow> (x = y \<Longrightarrow> s' = s \<Longrightarrow> P) \<Longrightarrow> P"
  by (auto simp: return_op_def)

lemma found_InrE: "or_not_found v s = (Inr x, s') \<Longrightarrow> (v = Some x \<Longrightarrow> s' = s \<Longrightarrow> P) \<Longrightarrow> P"
  by (cases v) (auto simp: or_not_found_def return_op_def fail_op_def)

lemma lift_InrE: "lift_op r s = (Inr x, s') \<Longrightarrow> (r = Inr x \<Longrightarrow> s' = s \<Longrightarrow> P) \<Longrightarrow> P"
  by (cases r) (auto simp: lift_op_def return_op_def fail_op_def)

section \<open>Reading an item\<close>

lemma get_work_itemD:
  assumes "get_work_item ten i t = Some (r, act)"
  shows "r \<in> set (wt_items t)" "wi_tenant r = ten" "wi_id r = i" "act = item_activity_of t i"
  using assms by (auto simp: get_work_item_def dest: find_SomeD)

lemma last_round_state:
  assumes "items_ok t" and "r \<in> set (wt_items t)"
  shows "ia_last_round_state (item_activity_of t (wi_id r)) = Some (rd_state (last (rounds_of t (wi_id r))))"
proof -
  have rounds: "rounds_ok r (rounds_of t (wi_id r))" using items_okD [OF assms] by (simp add: row_ok_def)
  then have "sort_key rd_seq (rounds_of t (wi_id r)) = rounds_of t (wi_id r)"
    by (intro numbered_sorted) (simp add: rounds_ok_def)
  moreover obtain ys y where "rounds_of t (wi_id r) = ys @ [y]"
    using rounds_nonempty [OF rounds] by (cases "rounds_of t (wi_id r)" rule: rev_cases) auto
  ultimately show ?thesis by (simp add: item_activity_of_def)
qed

lemma running_activity:
  assumes "items_ok t" and "get_work_item ten i t = Some (r, act)"
  shows "ia_last_round_state act = Some ''running'' \<longleftrightarrow> has_running (rounds_of t i)"
  using last_round_state [OF assms(1), of r] get_work_itemD [OF assms(2)] running_last [of r "rounds_of t i"]
    items_okD [OF assms(1), of r] by (auto simp: row_ok_def)

lemma listed_inputs:
  assumes ok: "items_ok t" and "r \<in> set (wt_items t)" and "wi_id r = i" "wi_tenant r = ten"
  shows "list_work_item_inputs ten i t = inputs_of t i"
proof -
  have row: "numbered in_seq (inputs_of t i)" "list_all (input_ok r) (inputs_of t i)"
    using items_okD [OF ok assms(2)] assms(3) by (simp_all add: row_ok_def)
  then have "filter (\<lambda>n. in_tenant n = ten) (inputs_of t i) = inputs_of t i"
    using assms(4) by (auto simp: list_all_iff input_ok_def filter_id_conv)
  with row(1) show ?thesis by (simp add: list_work_item_inputs_def numbered_sorted)
qed

text \<open>Well-formed rows are always read: the words of their columns are known.\<close>

lemma view_exists:
  assumes ok: "items_ok t" and "get_work_item ten i t = Some (r, act)"
  obtains item where "to_view r act = Inr item" "wk_id item = i" "wk_tenant item = ten" "wk_seq item = wi_seq r"
    "wk_attention item = wi_attention r" "wk_last_report item = wi_last_report r" "wk_mandate item = wi_mandate r"
    "wk_state item = (if wi_state r = ''open'' then ItemOpen else ItemEnded)"
    "wk_stage item = derive_stage (view_facts r act (wk_state item) (Option.bind (ia_last_round_state act) parse_round_state))"
proof -
  note r = get_work_itemD [OF assms(2)]
  have row: "state_ok r" "rounds_ok r (rounds_of t i)" using items_okD [OF ok r(1)] r(3) by (simp_all add: row_ok_def)
  have "round_ok r (last (rounds_of t i))"
    using row(2) rounds_nonempty [OF row(2)] by (simp add: rounds_ok_def list_all_iff)
  then obtain rs where rs: "ia_last_round_state act = Some (round_state_str rs)"
    using last_round_state [OF ok r(1)] r(3,4) by (auto simp: round_ok_def)
  have st: "parse_item_state (wi_state r) = Some (if wi_state r = ''open'' then ItemOpen else ItemEnded)"
    using row(1) by (auto simp: state_ok_def parse_item_state_def)
  obtain er where er: "parse_present parse_end_reason (wi_end_reason r) = Some er"
    using row(1) by (auto simp: state_ok_def parse_present_def)
  have lr: "parse_present parse_round_state (Some (round_state_str rs)) = Some (Some rs)" by (simp add: parse_present_def)
  obtain item where v: "to_view r act = Inr item" by (simp add: to_view_def st er lr rs)
  show ?thesis
    by (rule that [OF v]) (use v r rs in \<open>auto simp: to_view_def st er lr\<close>)
qed

section \<open>When a round is due\<close>

definition pending_inputs :: "wi_tables \<Rightarrow> string \<Rightarrow> input_row list" where
  "pending_inputs t i = filter (\<lambda>n. in_state n = ''pending'') (inputs_of t i)"

definition waits_for_person :: "wi_tables \<Rightarrow> work_item_row \<Rightarrow> bool" where
  "waits_for_person t r \<longleftrightarrow>
     rd_state (last (rounds_of t (wi_id r))) = ''failed'' \<or> wi_attention r \<noteq> None \<or>
     map_option rp_status (wi_last_report r) \<in> {Some Blocked, Some RepFailed}"

definition round_ready :: "wi_tables \<Rightarrow> work_item_row \<Rightarrow> bool" where
  "round_ready t r \<longleftrightarrow>
     wi_state r = ''open'' \<and> \<not> has_running (rounds_of t (wi_id r)) \<and> pending_inputs t (wi_id r) \<noteq> [] \<and>
     (waits_for_person t r \<longrightarrow> list_ex in_author_is_person (pending_inputs t (wi_id r)))"

lemma held_waits:
  assumes "items_ok t" and "get_work_item ten i t = Some (r, act)" and "to_view r act = Inr item"
  shows "is_held (ia_last_round_state act) item \<longleftrightarrow> waits_for_person t r"
proof -
  obtain it where it: "to_view r act = Inr it" "wk_attention it = wi_attention r" "wk_last_report it = wi_last_report r"
    by (rule view_exists [OF assms(1,2)])
  with assms(3) last_round_state [OF assms(1), of r] get_work_itemD [OF assms(2)] show ?thesis
    by (auto simp: is_held_def waits_for_person_def split: option.splits)
qed

lemma hourly_cap_InrE:
  assumes "check_hourly_cap env ten i s = (Inr room, s')"
  obtains "same_db s s'" and "0 < wc_max_rounds_per_hour (en_config env) \<Longrightarrow> wm_drawn s < wm_drawn s'" and "room \<longleftrightarrow> wc_max_rounds_per_hour (en_config env) = 0 \<or>
     count_work_item_rounds_since ten i (wm_clock s (wm_drawn s) - HOUR) (wm_db s) < wc_max_rounds_per_hour (en_config env)"
  using assms
  by (auto simp: check_hourly_cap_def Let_def same_db_def split: if_splits
      elim!: bind_InrE now_InrE read_InrE return_InrE)

text \<open>The decision of \<open>plan_round\<close>, read off the tables.\<close>

definition plan_spec :: "wi_env \<Rightarrow> wi_state \<Rightarrow> wi_state \<Rightarrow> work_item_row \<Rightarrow> no_round + planned \<Rightarrow> bool" where
  "plan_spec env s s' r plan \<longleftrightarrow>
     (let t = wm_db s; i = wi_id r; pending = pending_inputs t i; cap = wc_max_rounds_per_hour (en_config env)
      in case plan of
           Inl no \<Rightarrow>
             (case no of HourlyCap n \<Rightarrow> round_ready t r \<and> n = cap \<and> 0 < cap \<and>
                (\<exists>k \<ge> wm_drawn s. k < wm_drawn s' \<and> cap \<le> count_work_item_rounds_since (wi_tenant r) i (wm_clock s k - HOUR) t)
              | _ \<Rightarrow> \<not> round_ready t r)
         | Inr p \<Rightarrow>
             round_ready t r \<and> to_view r (item_activity_of t i) = Inr (pl_item p) \<and> pl_turn p = next_turn (pl_item p) pending \<and>
             pl_last_input_seq p = in_seq (last pending) \<and>
             (pl_clear_attention p \<longleftrightarrow> wi_attention r \<noteq> None) \<and>
             (0 < cap \<longrightarrow> (\<exists>k \<ge> wm_drawn s. k < wm_drawn s' \<and> count_work_item_rounds_since (wi_tenant r) i (wm_clock s k - HOUR) t < cap)))"

lemma plan_round_exact:
  assumes ok: "items_ok (wm_db s)" and run: "plan_round env ten i s = (Inr plan, s')"
  obtains r act where "get_work_item ten i (wm_db s) = Some (r, act)" "same_db s s'" "plan_spec env s s' r plan"
proof -
  from run obtain r act item s1 where found: "get_work_item ten i (wm_db s) = Some (r, act)"
    and view: "to_view r act = Inr item" and s1: "same_db s s1"
    and go: "(if wk_state item \<noteq> ItemOpen then return_op (Inl NoEnded)
     else if ia_last_round_state act = Some (round_state_str RoundRunning) then return_op (Inl NoRunning)
     else bind_op (wi_read (list_work_item_inputs ten i)) (\<lambda>inputs.
       let pending = filter (\<lambda>n. in_state n = ''pending'') inputs
       in if pending = [] then return_op (Inl NothingPending)
          else let person = list_ex in_author_is_person pending
          in if is_held (ia_last_round_state act) item \<and> \<not> person then return_op (Inl Held)
             else bind_op (check_hourly_cap env ten i) (\<lambda>room.
               return_op (if \<not> room then Inl (HourlyCap (wc_max_rounds_per_hour (en_config env)))
                 else Inr \<lparr>pl_turn = next_turn item pending, pl_item = item, pl_last_input_seq = in_seq (last pending),
                          pl_clear_attention = (person \<and> wk_attention item \<noteq> None)\<rparr>)))) s1 = (Inr plan, s')"
    unfolding plan_round_def by (auto elim!: bind_InrE read_InrE found_InrE lift_InrE)
  note r = get_work_itemD [OF found]
  obtain it where "to_view r act = Inr it" "wk_attention it = wi_attention r"
    "wk_state it = (if wi_state r = ''open'' then ItemOpen else ItemEnded)"
    by (rule view_exists [OF ok found])
  with view have item: "wk_attention item = wi_attention r" "wk_state item = ItemOpen \<longleftrightarrow> wi_state r = ''open''" by auto
  have running: "ia_last_round_state act = Some (round_state_str RoundRunning) \<longleftrightarrow> has_running (rounds_of (wm_db s) (wi_id r))"
    using running_activity [OF ok found] r(3) by simp
  have held: "is_held (ia_last_round_state act) item \<longleftrightarrow> waits_for_person (wm_db s) r" by (rule held_waits [OF ok found view])
  have inputs: "list_work_item_inputs ten i (wm_db s1) = inputs_of (wm_db s) i"
    using listed_inputs [OF ok r(1,3,2)] s1 by (simp add: same_db_def)
  have "plan_spec env s s' r plan \<and> same_db s s'"
  proof (cases "wi_state r = ''open'' \<and> \<not> has_running (rounds_of (wm_db s) (wi_id r))")
    case False
    with go item running s1 show ?thesis
      by (auto simp: plan_spec_def round_ready_def elim!: return_InrE split: if_splits)
  next
    case True
    let ?P = "pending_inputs (wm_db s) (wi_id r)"
    from True go item running have "bind_op (wi_read (list_work_item_inputs ten i)) (\<lambda>inputs.
       let pending = filter (\<lambda>n. in_state n = ''pending'') inputs
       in if pending = [] then return_op (Inl NothingPending)
          else let person = list_ex in_author_is_person pending
          in if is_held (ia_last_round_state act) item \<and> \<not> person then return_op (Inl Held)
             else bind_op (check_hourly_cap env ten i) (\<lambda>room.
               return_op (if \<not> room then Inl (HourlyCap (wc_max_rounds_per_hour (en_config env)))
                 else Inr \<lparr>pl_turn = next_turn item pending, pl_item = item, pl_last_input_seq = in_seq (last pending),
                          pl_clear_attention = (person \<and> wk_attention item \<noteq> None)\<rparr>))) s1 = (Inr plan, s')" by simp
    then obtain inputs s2 where read: "wi_read (list_work_item_inputs ten i) s1 = (Inr inputs, s2)" and after: "(
       let pending = filter (\<lambda>n. in_state n = ''pending'') inputs
       in if pending = [] then return_op (Inl NothingPending)
          else let person = list_ex in_author_is_person pending
          in if is_held (ia_last_round_state act) item \<and> \<not> person then return_op (Inl Held)
             else bind_op (check_hourly_cap env ten i) (\<lambda>room.
               return_op (if \<not> room then Inl (HourlyCap (wc_max_rounds_per_hour (en_config env)))
                 else Inr \<lparr>pl_turn = next_turn item pending, pl_item = item, pl_last_input_seq = in_seq (last pending),
                          pl_clear_attention = (person \<and> wk_attention item \<noteq> None)\<rparr>))) s2 = (Inr plan, s')"
      by (rule bind_InrE)
    from read have s2: "same_db s s2" and P: "filter (\<lambda>n. in_state n = ''pending'') inputs = ?P"
      by (auto elim!: read_InrE simp: inputs r(3) pending_inputs_def dest: same_db_trans [OF s1])
    from after have rest: "(if ?P = [] then return_op (Inl NothingPending)
          else if waits_for_person (wm_db s) r \<and> \<not> list_ex in_author_is_person ?P then return_op (Inl Held)
             else bind_op (check_hourly_cap env ten i) (\<lambda>room.
               return_op (if \<not> room then Inl (HourlyCap (wc_max_rounds_per_hour (en_config env)))
                 else Inr \<lparr>pl_turn = next_turn item ?P, pl_item = item, pl_last_input_seq = in_seq (last ?P),
                          pl_clear_attention = (list_ex in_author_is_person ?P \<and> wi_attention r \<noteq> None)\<rparr>))) s2 = (Inr plan, s')"
      by (simp only: Let_def held item P)
    show ?thesis
    proof (cases "?P = [] \<or> waits_for_person (wm_db s) r \<and> \<not> list_ex in_author_is_person ?P")
      case stop: True
      with rest s2 show ?thesis
        by (auto simp: plan_spec_def round_ready_def elim!: return_InrE split: if_splits)
    next
      case False
      with True have ready: "round_ready (wm_db s) r" by (simp add: round_ready_def)
      from False rest obtain room s3 where cap: "check_hourly_cap env ten i s2 = (Inr room, s3)"
        and out: "plan = (if \<not> room then Inl (HourlyCap (wc_max_rounds_per_hour (en_config env)))
                 else Inr \<lparr>pl_turn = next_turn item ?P, pl_item = item, pl_last_input_seq = in_seq (last ?P),
                          pl_clear_attention = (list_ex in_author_is_person ?P \<and> wi_attention r \<noteq> None)\<rparr>)" "s' = s3"
        by (auto elim!: bind_InrE return_InrE split: if_splits)
      have clear: "list_ex in_author_is_person ?P \<and> wi_attention r \<noteq> None \<longleftrightarrow> wi_attention r \<noteq> None"
        using False by (auto simp: waits_for_person_def)
      from cap s2 have s3: "same_db s s3" and drew: "0 < wc_max_rounds_per_hour (en_config env) \<Longrightarrow> wm_drawn s2 < wm_drawn s3" and room: "room \<longleftrightarrow> wc_max_rounds_per_hour (en_config env) = 0 \<or>
          count_work_item_rounds_since ten i (wm_clock s (wm_drawn s2) - HOUR) (wm_db s) < wc_max_rounds_per_hour (en_config env)"
        by (auto elim!: hourly_cap_InrE simp: same_db_def)
      have later: "wm_drawn s \<le> wm_drawn s2" using s2 by (simp add: same_db_def)
      show ?thesis
        using s3 ready view later unfolding out plan_spec_def Let_def clear
        by (cases room) (use room r drew in \<open>auto intro!: exI [of _ "wm_drawn s2"]\<close>)
    qed
  qed
  with that found show ?thesis by blast
qed

lemma start_hits:
  assumes "r \<in> set (wt_items t)" and "round_ready t r" and "rd_item_id rd = wi_id r" "rd_tenant rd = wi_tenant r" "rd_seq rd = wi_seq r + 1"
    and "start_work_item_round rd n clear t = Some (b, t')"
  shows b
proof -
  let ?hit = "\<lambda>q. wi_tenant q = rd_tenant rd \<and> wi_id q = rd_item_id rd \<and> wi_state q = ''open'' \<and> wi_seq q + 1 = rd_seq rd \<and>
     \<not> list_ex (\<lambda>x. rd_state x = ''running'') (rounds_of t (rd_item_id rd))"
  have "list_ex ?hit (wt_items t)"
    unfolding list_ex_iff [of ?hit] using assms(1-5) by (intro bexI [of _ r]) (auto simp: round_ready_def has_running_def)
  with assms(6) show ?thesis by (auto simp: start_work_item_round_def Let_def split: if_splits)
qed

lemma next_turn_of_row:
  assumes "items_ok t" and "get_work_item ten i t = Some (r, act)" and "to_view r act = Inr item"
  shows "rt_item_id (next_turn item ps) = wi_id r" "rt_tenant_id (next_turn item ps) = wi_tenant r" "rt_seq (next_turn item ps) = wi_seq r + 1"
    "rt_request_id (next_turn item ps) = round_request_id (wi_id r) (wi_seq r + 1)"
    "rt_query_text (next_turn item ps) = round_query (wi_seq r + 1) (map quote_input ps)"
proof -
  obtain it where "to_view r act = Inr it" "wk_id it = i" "wk_tenant it = ten" "wk_seq it = wi_seq r"
    by (rule view_exists [OF assms(1,2)])
  with assms(3) get_work_itemD [OF assms(2)] show "rt_item_id (next_turn item ps) = wi_id r"
    "rt_tenant_id (next_turn item ps) = wi_tenant r" "rt_seq (next_turn item ps) = wi_seq r + 1"
    "rt_request_id (next_turn item ps) = round_request_id (wi_id r) (wi_seq r + 1)"
    "rt_query_text (next_turn item ps) = round_query (wi_seq r + 1) (map quote_input ps)"
    by (auto simp: next_turn_def)
qed

lemma read_same: "wi_read f s = (x, s') \<Longrightarrow> same_db s s'"
  by (auto simp: wi_read_def wi_call_def Let_def same_db_def split: if_splits)

lemma publish_same:
  assumes "publish_item it name extra s = (x, s')"
  shows "same_db s s'"
proof -
  obtain v u where u: "wi_read (\<lambda>_. ()) s = (v, u)" by fastforce
  with assms have "\<exists>ev. s' = u\<lparr>wm_events := ev\<rparr>" by (auto simp: publish_item_def bind_op_def attempt_op_def)
  with read_same [OF u] show ?thesis by (auto simp: same_db_def)
qed

lemma start_round_exact:
  assumes ok: "items_ok (wm_db s)" and run: "start_round env ten i s = (Inr res, s')"
  obtains (no) r act no s1 where "get_work_item ten i (wm_db s) = Some (r, act)" "res = Inl no" "same_db s s'" "plan_spec env s s' r (Inl no)"
  | (started) r act p k s1 where "get_work_item ten i (wm_db s) = Some (r, act)" "res = Inr (pl_turn p)" "plan_spec env s s1 r (Inr p)"
      "start_work_item_round (running_round (pl_turn p) (wm_clock s k)) (pl_last_input_seq p) (pl_clear_attention p) (wm_db s) =
         Some (True, wm_db s')"
      "wm_clock s' = wm_clock s" "wm_uuid s' = wm_uuid s" "same_db s s1" "wm_drawn s1 \<le> k" "k < wm_drawn s'"
proof -
  from run obtain plan s1 where plan: "plan_round env ten i s = (Inr plan, s1)"
    and rest: "(case plan of Inl no \<Rightarrow> return_op (Inl no)
     | Inr p \<Rightarrow>
         bind_op wi_now (\<lambda>now.
         bind_op (wi_call (start_work_item_round (running_round (pl_turn p) now) (pl_last_input_seq p) (pl_clear_attention p))) (\<lambda>started.
         if \<not> started then return_op (Inl NoRunning)
         else then_op
           (if pl_clear_attention p
            then publish_item (pl_item p) ''attention_cleared'' [(''roundSeq'', JNumber (PosInt (of_nat (rt_seq (pl_turn p)))))]
            else return_op ())
           (return_op (Inr (pl_turn p)))))) s1 = (Inr res, s')"
    unfolding start_round_def by (rule bind_InrE)
  obtain r act where found: "get_work_item ten i (wm_db s) = Some (r, act)" and same: "same_db s s1" and spec: "plan_spec env s s1 r plan"
    by (rule plan_round_exact [OF ok plan])
  note r = get_work_itemD [OF found]
  show ?thesis
  proof (cases plan)
    case (Inl n)
    with rest have "res = Inl n" "s' = s1" by (auto elim: return_InrE)
    with no [OF found] same spec Inl show ?thesis by simp
  next
    case (Inr p)
    from spec Inr have p: "round_ready (wm_db s) r" "to_view r act = Inr (pl_item p)" "pl_turn p = next_turn (pl_item p) (pending_inputs (wm_db s) (wi_id r))"
      using r by (simp_all add: plan_spec_def Let_def)
    let ?rd = "running_round (pl_turn p) (wm_clock s (wm_drawn s1))"
    from rest Inr obtain b s2 where call: "wi_call (start_work_item_round ?rd (pl_last_input_seq p) (pl_clear_attention p)) (s1\<lparr>wm_drawn := Suc (wm_drawn s1)\<rparr>) = (Inr b, s2)"
      and out: "(if \<not> b then return_op (Inl NoRunning)
         else then_op
           (if pl_clear_attention p
            then publish_item (pl_item p) ''attention_cleared'' [(''roundSeq'', JNumber (PosInt (of_nat (rt_seq (pl_turn p)))))]
            else return_op ())
           (return_op (Inr (pl_turn p)))) s2 = (Inr res, s')"
      using same by (auto simp: wi_now_def same_db_def elim!: bind_InrE)
    from call same have start: "start_work_item_round ?rd (pl_last_input_seq p) (pl_clear_attention p) (wm_db s) = Some (b, wm_db s2)"
      and s2: "wm_clock s2 = wm_clock s" "wm_uuid s2 = wm_uuid s" "wm_drawn s2 = Suc (wm_drawn s1)"
      by (auto elim!: call_InrE simp: same_db_def)
    have b: b
      by (rule start_hits [OF r(1) p(1) _ _ _ start]) (use next_turn_of_row [OF ok found p(2)] p(3) in \<open>simp_all add: running_round_def\<close>)
    with out have "res = Inr (pl_turn p)" "same_db s2 s'"
      by (auto elim!: then_InrE return_InrE publish_same simp: same_db_def split: if_splits dest!: publish_same)
    then show ?thesis
      using started [OF found _ spec [unfolded Inr]] start b s2 same by (simp add: same_db_def)
  qed
qed

end
