(* ===== verification/Work_Item_Steps.thy ===== *)
theory Work_Item_Steps
  imports Work_Item_Rounds
begin

text \<open>
  Every operation of the manager is a sequence of statements with the arguments the code gives them: the relation
  \<open>leaf\<close> lists the statements with what holds of their arguments, and \<open>grown\<close> the states they lead to. Invariants of
  the tables are then proved once per statement. The steps of the manager are a relation whose reachable states
  are well-formed.
\<close>

section \<open>Statements as the manager runs them\<close>

definition only_db :: "wi_state \<Rightarrow> wi_state \<Rightarrow> bool" where
  "only_db s s' \<longleftrightarrow> wm_clock s' = wm_clock s \<and> wm_uuid s' = wm_uuid s \<and> wm_drawn s' = wm_drawn s"

definition room_for :: "wi_env \<Rightarrow> string \<Rightarrow> wi_tables \<Rightarrow> bool" where
  "room_for env ten t \<longleftrightarrow> (wc_max_open_items (en_config env) > 0 \<longrightarrow> count_open_work_items ten t < wc_max_open_items (en_config env))"

text \<open>A reading of the clock before now, and a reading before it at which the item had started fewer rounds than the cap.\<close>

definition read_before :: "wi_state \<Rightarrow> timestamp \<Rightarrow> bool" where
  "read_before s at \<longleftrightarrow> (\<exists>k < wm_drawn s. at = wm_clock s k)"

definition hour_free :: "wi_env \<Rightarrow> wi_state \<Rightarrow> work_item_row \<Rightarrow> timestamp \<Rightarrow> bool" where
  "hour_free env s r at \<longleftrightarrow>
     (\<exists>k < wm_drawn s. at = wm_clock s k \<and>
        (0 < wc_max_rounds_per_hour (en_config env) \<longrightarrow>
           (\<exists>j < k. count_work_item_rounds_since (wi_tenant r) (wi_id r) (wm_clock s j - HOUR) (wm_db s)
                       < wc_max_rounds_per_hour (en_config env))))"

text \<open>The round that starts is the next one of its item, which is due; it quotes the pending inputs and consumes them.\<close>

definition starts_next :: "wi_tables \<Rightarrow> work_item_row \<Rightarrow> round_row \<Rightarrow> nat \<Rightarrow> bool \<Rightarrow> bool" where
  "starts_next t r rd n clear \<longleftrightarrow>
     r \<in> set (wt_items t) \<and> round_ready t r \<and> rd_item_id rd = wi_id r \<and> rd_tenant rd = wi_tenant r \<and> rd_seq rd = wi_seq r + 1 \<and>
     rd_request_id rd = round_request_id (wi_id r) (rd_seq rd) \<and> rd_state rd = ''running'' \<and>
     rd_query_text rd = round_query (rd_seq rd) (map quote_input (pending_inputs t (wi_id r))) \<and>
     n = in_seq (last (pending_inputs t (wi_id r))) \<and> (clear \<longleftrightarrow> wi_attention r \<noteq> None)"

inductive leaf :: "wi_env \<Rightarrow> wi_state \<Rightarrow> wi_state \<Rightarrow> bool" for env where
  aside: "same_db s s' \<Longrightarrow> leaf env s s'"
| settled: "only_db s s' \<Longrightarrow> fst sd \<noteq> RoundRunning \<Longrightarrow>
    settle_work_item_round ten i sq (settlement_of sd now) (wm_db s) = (b, wm_db s') \<Longrightarrow> leaf env s s'"
| started: "only_db s s' \<Longrightarrow> starts_next (wm_db s) r rd n clear \<Longrightarrow> hour_free env s r (rd_started_at rd) \<Longrightarrow>
    start_work_item_round rd n clear (wm_db s) = Some (True, wm_db s') \<Longrightarrow> leaf env s s'"
| input: "only_db s s' \<Longrightarrow> append_work_item_input n (wm_db s) = Some (sq, wm_db s') \<Longrightarrow>
    r \<in> set (wt_items (wm_db s)) \<Longrightarrow> wi_id r = in_item_id n \<Longrightarrow> wi_state r = ''open'' \<Longrightarrow> input_ok r n \<Longrightarrow> leaf env s s'"
| finished: "only_db s s' \<Longrightarrow> end_work_item_finally ten i reason at (wm_db s) = Some (b, wm_db s') \<Longrightarrow> leaf env s s'"
| reopened: "only_db s s' \<Longrightarrow> room_for env ten (wm_db s) \<Longrightarrow> reopen_work_item ten i at (wm_db s) = (b, wm_db s') \<Longrightarrow> leaf env s s'"
| idle: "only_db s s' \<Longrightarrow> wm_db s' = expire_idle ten src cutoff now (wm_db s) \<Longrightarrow> leaf env s s'"
| touched: "only_db s s' \<Longrightarrow> wm_db s' = touch_work_item_subscription ten sid at (wm_db s) \<Longrightarrow> leaf env s s'"
| created: "only_db s s' \<Longrightarrow> fresh_item it rd \<Longrightarrow> room_for env (wi_tenant it) (wm_db s) \<Longrightarrow> read_before s (rd_started_at rd) \<Longrightarrow>
    create_work_item it rd (wm_db s) = Some (wm_db s') \<Longrightarrow> leaf env s s'"
| owned: "only_db s s' \<Longrightarrow> fresh_item it rd \<Longrightarrow> room_for env (wi_tenant it) (wm_db s) \<Longrightarrow> read_before s (rd_started_at rd) \<Longrightarrow>
    ss_role ow = ''owner'' \<Longrightarrow> ss_dropped_at ow = None \<Longrightarrow> ss_item_id ow = wi_id it \<Longrightarrow> ss_tenant ow = wi_tenant it \<Longrightarrow>
    create_work_item_with_owner it rd ow (wm_db s) = Some (taken, wm_db s') \<Longrightarrow> leaf env s s'"
| elsewhere: "only_db s s' \<Longrightarrow>
    wm_db s' = (wm_db s)\<lparr>wt_threads := ths, wt_segments := sgs, wt_policies := ps, wt_members := ms\<rparr> \<Longrightarrow> leaf env s s'"

abbreviation item_cap :: "wi_env \<Rightarrow> nat" where
  "item_cap env \<equiv> wc_max_open_items (en_config env)"

lemma leaf_good: "leaf env s s' \<Longrightarrow> wi_good (item_cap env) (wm_db s) \<Longrightarrow> wi_good (item_cap env) (wm_db s')"
proof (induction rule: leaf.induct)
  case (aside s s')
  then show ?case by (simp add: same_db_def)
next
  case (settled s s' sd ten i sq now b)
  then show ?case using settle_tables [of "wm_db s" "item_cap env" sd] by blast
next
  case (started s s' r rd n clear)
  then have ok: "items_ok (wm_db s)" by (simp add: tables_ok_def)
  note nx = started(2) [unfolded starts_next_def]
  have "clear \<or> wi_attention q = None" if "q \<in> set (wt_items (wm_db s))" "wi_id q = rd_item_id rd" for q
    using same_item [OF ok that(1), of r] that(2) nx by auto
  with started nx show ?case by (intro start_tables [OF started(5,4)]) auto
next
  case (input s s' n sq r)
  then have ok: "items_ok (wm_db s)" by (simp add: tables_ok_def)
  show ?case
    by (rule append_tables [OF input(7,2)]) (use input same_item [OF ok _ input(3)] in auto)
next
  case (finished s s' ten i reason at b)
  then show ?case using end_tables by blast
next
  case (reopened s s' ten i at b)
  show ?case by (rule reopen_tables [OF reopened(4) _ reopened(3)]) (use reopened(2) in \<open>simp add: room_for_def\<close>)
next
  case (idle s s' ten src cutoff now)
  then show ?case using expire_tables by metis
next
  case (touched s s' ten sid at)
  then show ?case using touch_tables by metis
next
  case (created s s' it rd)
  show ?case by (rule create_tables [OF created(6) _ created(2,5)]) (use created(3) in \<open>simp add: room_for_def\<close>)
next
  case (owned s s' it rd ow taken)
  show ?case by (rule create_owned_tables [OF owned(10) _ owned(2,5-8,9)]) (use owned(3) in \<open>simp add: room_for_def\<close>)
next
  case (elsewhere s s' ths sgs ps ms)
  then show ?case by simp
qed

definition grown :: "wi_env \<Rightarrow> wi_state \<Rightarrow> wi_state \<Rightarrow> bool" where
  "grown env s0 s \<longleftrightarrow> wi_good (item_cap env) (wm_db s) \<and> (leaf env)\<^sup>*\<^sup>* s0 s"

lemma grown_leaf: "grown env s0 s \<Longrightarrow> leaf env s s' \<Longrightarrow> grown env s0 s'"
  unfolding grown_def using leaf_good by (metis rtranclp.rtrancl_into_rtrancl)

lemma grown_aside: "grown env s0 s \<Longrightarrow> same_db s s' \<Longrightarrow> grown env s0 s'"
  by (blast intro: grown_leaf leaf.aside)

lemma grown_items: "grown env s0 s \<Longrightarrow> items_ok (wm_db s)"
  by (simp add: grown_def tables_ok_def)

section \<open>Operations\<close>

text \<open>A property that operations without writes keep.\<close>

definition stable :: "(wi_state \<Rightarrow> bool) \<Rightarrow> bool" where
  "stable I \<longleftrightarrow> (\<forall>s s'. I s \<longrightarrow> same_db s s' \<longrightarrow> I s')"

lemma stable_grown: "stable (grown env s0)"
  by (auto simp: stable_def intro: grown_aside)

lemma stable_grown_and: "(\<And>s s'. F s \<Longrightarrow> same_db s s' \<Longrightarrow> F s') \<Longrightarrow> stable (\<lambda>s. grown env s0 s \<and> F s)"
  by (auto simp: stable_def intro: grown_aside)

lemma call_same_or_db: "wi_call f s = (Inl e, s') \<Longrightarrow> same_db s s'"
  by (auto simp: wi_call_def Let_def same_db_def split: if_splits option.splits)

lemma now_same: "wi_now s = (r, s') \<Longrightarrow> same_db s s'" "wi_new_uuid s = (q, s') \<Longrightarrow> same_db s s'"
  by (auto simp: wi_now_def wi_new_uuid_def same_db_def)

lemma keeps_aside: "stable I \<Longrightarrow> (\<And>s r s'. m s = (r, s') \<Longrightarrow> same_db s s') \<Longrightarrow> keeps I m"
  by (rule keepsI) (auto simp: stable_def, metis prod.collapse)

lemma keeps_read [keeps_intros]: "stable I \<Longrightarrow> keeps I (wi_read f)"
  by (rule keeps_aside) (auto dest: read_same)

lemma keeps_now [keeps_intros]: "stable I \<Longrightarrow> keeps I wi_now" "stable I \<Longrightarrow> keeps I wi_new_uuid"
  by (rule keeps_aside; auto dest: now_same)+

lemma keeps_publish [keeps_intros]: "stable I \<Longrightarrow> keeps I (publish_item it name extra)"
  by (rule keeps_aside) (auto dest: publish_same)

lemma keeps_case_prod [keeps_intros]: "(\<And>a b. keeps I (f a b)) \<Longrightarrow> keeps I (case p of (a, b) \<Rightarrow> f a b)"
  by (cases p) simp

lemma keeps_not_found [keeps_intros]: "keeps I (or_not_found v)"
  by (cases v) (simp_all add: or_not_found_def keeps_intros)

lemma keeps_summary [keeps_intros]: "stable I \<Longrightarrow> keeps I (get_summary ten i)"
  unfolding get_summary_def by (intro keeps_intros)

lemma keeps_settle_events [keeps_intros]: "stable I \<Longrightarrow> keeps I (settle_events after turn st)"
  by (cases st) (auto simp: settle_events_def Let_def intro!: keeps_intros)

text \<open>A statement with a fact about the state it runs in.\<close>

lemma call_leaf:
  assumes "\<And>s x t. grown env s0 s \<Longrightarrow> F s \<Longrightarrow> f (wm_db s) = Some (x, t) \<Longrightarrow>
      leaf env s (s\<lparr>wm_faults := tl (wm_faults s), wm_db := t\<rparr>)"
  shows "triple (\<lambda>s. grown env s0 s \<and> F s) (wi_call f) (\<lambda>_. grown env s0) (grown env s0)"
proof (rule tripleI)
  fix s e t
  assume "grown env s0 s \<and> F s" "wi_call f s = (Inl e, t)"
  then show "grown env s0 t" by (blast intro: grown_aside call_same_or_db)
next
  fix s x t
  assume s: "grown env s0 s \<and> F s" and "wi_call f s = (Inr x, t)"
  then obtain u where "f (wm_db s) = Some (x, u)" "t = s\<lparr>wm_faults := tl (wm_faults s), wm_db := u\<rparr>" by (auto elim: call_InrE)
  with s assms [of s x u] show "grown env s0 t" by (blast intro: grown_leaf)
qed

lemma keeps_call_leaf:
  assumes "\<And>s x t. grown env s0 s \<Longrightarrow> f (wm_db s) = Some (x, t) \<Longrightarrow> leaf env s (s\<lparr>wm_faults := tl (wm_faults s), wm_db := t\<rparr>)"
  shows "keeps (grown env s0) (wi_call f)"
  unfolding keeps_def by (rule triple_weaken [OF call_leaf [where F = "\<lambda>_. True"]]) (use assms in auto)

lemma only_db_call [simp]: "only_db s (s\<lparr>wm_faults := fs, wm_db := t\<rparr>)"
  by (simp add: only_db_def)

lemma keeps_settle: "keeps (grown env s0) (settle_round env turn out)"
proof -
  have "keeps (grown env s0)
     (wi_call (\<lambda>t. Some (settle_work_item_round (rt_tenant_id turn) (rt_item_id turn) (rt_seq turn)
       (settlement_of (outcome_settled (en_serde_message env) out) now) t)))" for now
    by (rule keeps_call_leaf) (rule leaf.settled [OF only_db_call outcome_not_running], auto)
  then show ?thesis unfolding settle_round_def Let_def by (intro keeps_intros stable_grown)
qed

lemma keeps_end_call: "keeps (grown env s0) (wi_call (end_work_item_finally ten i reason now))"
  by (rule keeps_call_leaf) (rule leaf.finished [OF only_db_call], auto)

lemma keeps_stop: "keeps (grown env s0) (stop_item env ten i)"
  unfolding stop_item_def Let_def by (intro keeps_intros keeps_end_call stable_grown)

lemma keeps_revoke: "keeps (grown env s0) (revoke_item item reason)"
  unfolding revoke_item_def by (intro keeps_intros keeps_end_call stable_grown)

subsection \<open>Caps\<close>

text \<open>A read whose value is a fact about the tables until the next write.\<close>

lemma read_fact:
  "triple (grown env s0) (wi_read f) (\<lambda>x s. grown env s0 s \<and> x = f (wm_db s)) (grown env s0)"
proof (rule tripleI)
  fix s e t
  assume "grown env s0 s" "wi_read f s = (Inl e, t)"
  then show "grown env s0 t" by (blast intro: grown_aside read_same)
next
  fix s x t
  assume "grown env s0 s" "wi_read f s = (Inr x, t)"
  then show "grown env s0 t \<and> x = f (wm_db t)" by (auto elim!: read_InrE intro: grown_aside simp: same_db_def)
qed

lemma stable_db: "stable (\<lambda>s. grown env s0 s \<and> P (wm_db s))"
  by (rule stable_grown_and) (simp add: same_db_def)

lemma keeps_reopen: "keeps (grown env s0) (reopen_item env item)"
proof -
  let ?go = "bind_op wi_now (\<lambda>now. wi_call (\<lambda>t. Some (reopen_work_item (wk_tenant item) (wk_id item) now t)))"
  have go: "triple (\<lambda>s. grown env s0 s \<and> room_for env (wk_tenant item) (wm_db s)) ?go (\<lambda>_. grown env s0) (grown env s0)"
    by (rule triple_bind_keeps [OF keeps_now(1) [OF stable_db]], blast, rule call_leaf)
      (rule leaf.reopened [OF only_db_call], auto)
  show ?thesis
  proof (cases "item_cap env > 0")
    case True
    have step: "triple (\<lambda>s. grown env s0 s \<and> n = count_open_work_items (wk_tenant item) (wm_db s))
      (if item_cap env \<le> n then return_op False else ?go) (\<lambda>_. grown env s0) (grown env s0)" for n
      by (rule triple_if) (auto intro!: triple_return' triple_weaken [OF go] simp: room_for_def)
    show ?thesis
      unfolding keeps_def reopen_item_def Let_def if_P [OF True] by (rule triple_bind [OF read_fact]) (rule step)
  next
    case False
    then show ?thesis
      unfolding keeps_def reopen_item_def Let_def by (auto intro!: triple_weaken [OF go] simp: room_for_def)
  qed
qed

text \<open>Writes to the rows of threads keep what is said of items and of the clock.\<close>

definition aside_fact :: "(wi_state \<Rightarrow> bool) \<Rightarrow> bool" where
  "aside_fact F \<longleftrightarrow> (\<forall>s s'. F s \<longrightarrow> same_db s s' \<longrightarrow> F s') \<and>
     (\<forall>s fs ths sgs. F s \<longrightarrow> F (s\<lparr>wm_faults := fs, wm_db := (wm_db s)\<lparr>wt_threads := ths, wt_segments := sgs\<rparr>\<rparr>))"

lemma keeps_elsewhere:
  assumes "\<And>t. \<exists>ths sgs. f t = Some (t\<lparr>wt_threads := ths, wt_segments := sgs\<rparr>)" and F: "aside_fact F"
  shows "keeps (\<lambda>s. grown env s0 s \<and> F s) (wi_write f)"
proof (rule keepsI)
  fix s
  assume s: "grown env s0 s \<and> F s"
  obtain r s' where run: "wi_write f s = (r, s')" by fastforce
  show "grown env s0 (snd (wi_write f s)) \<and> F (snd (wi_write f s))"
  proof (cases r)
    case (Inl e)
    with run have "same_db s s'" unfolding wi_write_def by (auto intro: call_same_or_db)
    with s run F show ?thesis by (auto intro: grown_aside simp: aside_fact_def)
  next
    case (Inr x)
    obtain ths sgs where f: "f (wm_db s) = Some ((wm_db s)\<lparr>wt_threads := ths, wt_segments := sgs\<rparr>)" using assms(1) by blast
    from run Inr f have s': "s' = s\<lparr>wm_faults := tl (wm_faults s), wm_db := (wm_db s)\<lparr>wt_threads := ths, wt_segments := sgs\<rparr>\<rparr>"
      unfolding wi_write_def by (auto elim: call_InrE)
    have "leaf env s s'"
      by (rule leaf.elsewhere [where ths = ths and sgs = sgs and ps = "wt_policies (wm_db s)" and ms = "wt_members (wm_db s)"])
        (simp_all add: s')
    moreover have "F s'" unfolding s' using F s unfolding aside_fact_def by blast
    ultimately show ?thesis using s run by (auto intro: grown_leaf)
  qed
qed

lemma keeps_create_thread:
  assumes F: "aside_fact F"
  shows "keeps (\<lambda>s. grown env s0 s \<and> F s) (create_thread env' ten thread now)"
proof -
  have ths: "\<exists>ths sgs. Some (t\<lparr>wt_threads := g t\<rparr>) = Some (t\<lparr>wt_threads := ths, wt_segments := sgs\<rparr>)" for t :: wi_tables and g
    by (intro exI [of _ "g t"] exI [of _ "wt_segments t"]) simp
  have sgs: "\<exists>ths sgs. Some (t\<lparr>wt_segments := g t\<rparr>) = Some (t\<lparr>wt_threads := ths, wt_segments := sgs\<rparr>)" for t :: wi_tables and g
    by (intro exI [of _ "g t"] exI [of _ "wt_threads t"]) simp
  have "stable (\<lambda>s. grown env s0 s \<and> F s)"
    using F by (intro stable_grown_and) (auto simp: aside_fact_def)
  moreover have "keeps (\<lambda>s. grown env s0 s \<and> F s) (wi_write (\<lambda>t. Some (t\<lparr>wt_threads := g t\<rparr>)))" for g
    by (rule keeps_elsewhere [OF ths F])
  moreover have "keeps (\<lambda>s. grown env s0 s \<and> F s) (wi_write (\<lambda>t. Some (t\<lparr>wt_segments := g t\<rparr>)))" for g
    by (rule keeps_elsewhere [OF sgs F])
  ultimately show ?thesis
    unfolding create_thread_def Let_def by (intro keeps_bind keeps_then keeps_read)
qed

lemma check_cap_triple:
  "triple (grown env s0) (check_open_cap env ten) (\<lambda>_ s. grown env s0 s \<and> room_for env ten (wm_db s)) (grown env s0)"
proof (cases "item_cap env > 0")
  case True
  have step: "triple (\<lambda>s. grown env s0 s \<and> n = count_open_work_items ten (wm_db s))
      (if item_cap env \<le> n then fail_op (WiOpenLimit (item_cap env)) else return_op ())
      (\<lambda>_ s. grown env s0 s \<and> room_for env ten (wm_db s)) (grown env s0)" for n
    by (rule triple_if) (auto intro!: triple_return' triple_fail' simp: room_for_def)
  show ?thesis
    unfolding check_open_cap_def Let_def if_P [OF True] by (rule triple_bind [OF read_fact]) (rule step)
next
  case False
  then show ?thesis by (auto simp: check_open_cap_def room_for_def intro!: triple_return')
qed

lemma same_db_refl [simp]: "same_db s s"
  by (simp add: same_db_def)

lemma check_cap_same:
  assumes "check_open_cap env ten s = (r, s')"
  shows "same_db s s'"
proof -
  obtain v u where u: "wi_read (count_open_work_items ten) s = (v, u)" by fastforce
  with assms have "s' = u \<or> s' = s"
    by (cases v) (auto simp: check_open_cap_def Let_def bind_op_def return_op_def fail_op_def split: if_splits)
  with read_same [OF u] show ?thesis by auto
qed

text \<open>What \<open>open\<close> knows when it writes the rows.\<close>

definition may_create :: "wi_env \<Rightarrow> string \<Rightarrow> timestamp \<Rightarrow> wi_state \<Rightarrow> bool" where
  "may_create env ten at s \<longleftrightarrow> room_for env ten (wm_db s) \<and> read_before s at"

lemma read_before_later: "read_before s at \<Longrightarrow> same_db s s' \<Longrightarrow> read_before s' at"
proof -
  assume "read_before s at" "same_db s s'"
  then obtain k where "k < wm_drawn s'" "at = wm_clock s' k" by (auto simp: read_before_def same_db_def dest: less_le_trans)
  then show ?thesis by (auto simp: read_before_def)
qed

lemma aside_may_create: "aside_fact (may_create env ten at)"
  unfolding aside_fact_def
proof (intro conjI allI impI)
  show "may_create env ten at s'" if "may_create env ten at s" "same_db s s'" for s s'
    using that read_before_later [of s at s'] by (simp add: may_create_def same_db_def)
  show "may_create env ten at (s\<lparr>wm_faults := fs, wm_db := (wm_db s)\<lparr>wt_threads := ths, wt_segments := sgs\<rparr>\<rparr>)"
    if "may_create env ten at s" for s fs ths sgs
    using that by (simp add: may_create_def room_for_def read_before_def)
qed

lemma aside_true: "aside_fact (\<lambda>_. True)"
  by (simp add: aside_fact_def)

lemma store_item_triple:
  assumes fresh: "fresh_item it rd" and at: "rd_started_at rd = at"
    and owner: "\<And>ow. owner = Some ow \<Longrightarrow> ss_role ow = ''owner'' \<and> ss_dropped_at ow = None \<and> ss_item_id ow = wi_id it \<and> ss_tenant ow = wi_tenant it"
  shows "triple (\<lambda>s. grown env s0 s \<and> read_before s at) (store_item env it rd owner now) (\<lambda>_. grown env s0) (grown env s0)"
proof -
  let ?R = "\<lambda>s. grown env s0 s \<and> may_create env (wi_tenant it) at s"
  have rows: "triple ?R
       (case owner of
          None \<Rightarrow> then_op (create_thread env (wi_tenant it) (wi_thread_id it) now) (wi_write (create_work_item it rd))
        | Some ow \<Rightarrow>
            bind_op (wi_call (create_work_item_with_owner it rd ow)) (\<lambda>taken.
            case taken of Inl i \<Rightarrow> fail_op (WiConversationOwned i)
            | Inr _ \<Rightarrow> create_thread env (wi_tenant it) (wi_thread_id it) now)) (\<lambda>_. grown env s0) (grown env s0)"
  proof (cases owner)
    case None
    have stored: "triple ?R (wi_write (create_work_item it rd)) (\<lambda>_. grown env s0) (grown env s0)"
      unfolding wi_write_def
      by (rule call_leaf) (rule leaf.created [OF only_db_call fresh], auto simp: may_create_def at)
    show ?thesis
      unfolding None option.case by (rule triple_then [OF keeps_create_thread [OF aside_may_create] _ stored]) blast
  next
    case (Some ow)
    have call: "triple ?R (wi_call (create_work_item_with_owner it rd ow)) (\<lambda>_. grown env s0) (grown env s0)"
      by (rule call_leaf) (rule leaf.owned [OF only_db_call fresh, where ow = ow], use owner [OF Some] in \<open>auto simp: may_create_def at\<close>)
    have rest: "keeps (grown env s0) (case taken of Inl i \<Rightarrow> fail_op (WiConversationOwned i)
        | Inr _ \<Rightarrow> create_thread env (wi_tenant it) (wi_thread_id it) now)" for taken :: "string + unit"
      using keeps_create_thread [OF aside_true] by (cases taken) (auto intro!: keeps_fail)
    show ?thesis
      unfolding Some option.case by (rule triple_bind [OF call]) (use rest in \<open>simp add: keeps_def\<close>)
  qed
  have cap: "triple (\<lambda>s. grown env s0 s \<and> read_before s at) (check_open_cap env (wi_tenant it)) (\<lambda>_. ?R) (grown env s0)"
  proof (rule tripleI)
    fix s x t
    assume s: "grown env s0 s \<and> read_before s at" and run: "check_open_cap env (wi_tenant it) s = (Inr x, t)"
    have "same_db s t" by (rule check_cap_same [OF run])
    with s read_before_later tripleD(2) [OF check_cap_triple conjunct1 [OF s] run] show "?R t" by (auto simp: may_create_def)
  qed (use tripleD(1) [OF check_cap_triple] in blast)
  show ?thesis
    unfolding store_item_def then_op_def [of "check_open_cap env (wi_tenant it)"] by (rule triple_bind [OF cap]) (rule rows)
qed

lemma fresh_first: "fresh_item (new_item req (first_turn req hex) now) (running_round (first_turn req hex) now)"
  by (auto simp: fresh_item_def new_item_def running_round_def first_turn_def round_ok_def intro: exI [of _ RoundRunning])

lemma keeps_open: "keeps (grown env s0) (open_item env req)"
proof -
  let ?R = "\<lambda>now s. grown env s0 s \<and> read_before s now"
  have st: "stable (?R now)" for now by (rule stable_grown_and) (rule read_before_later)
  have now: "triple (grown env s0) wi_now (\<lambda>now. ?R now) (grown env s0)"
  proof (rule tripleI)
    fix s x t
    assume s: "grown env s0 s" and run: "wi_now s = (Inr x, t)"
    then have "read_before t x" by (auto simp: wi_now_def read_before_def)
    with grown_aside [OF s now_same(1) [OF run]] show "?R x t" by blast
  qed (simp add: wi_now_def)
  have owner: "yields (?R now)
      (\<lambda>ow. \<forall>w. ow = Some w \<longrightarrow> ss_role w = ''owner'' \<and> ss_dropped_at w = None \<and> ss_item_id w = i \<and> ss_tenant w = trim (or_tenant_id req))
      (open_owner_row req i now)" for i now
    unfolding open_owner_row_def
    by (cases "owning_origin req") (auto intro!: yields_return yields_bind_keeps keeps_now(2) [OF st] simp: owner_row_def)
  have rest: "triple (?R now)
     (bind_op (open_owner_row req (rt_item_id (first_turn req hex)) now) (\<lambda>ow.
         then_op (store_item env (new_item req (first_turn req hex) now) (running_round (first_turn req hex) now) ow now) (m ow)))
     (\<lambda>_. grown env s0) (grown env s0)"
    if m: "\<And>ow. keeps (grown env s0) (m ow)" for hex now and m :: "subscription_row option \<Rightarrow> (work_item \<times> round_turn) wi_op"
  proof (rule triple_bind_yields [OF owner])
    fix ow :: "subscription_row option"
    assume ow: "\<forall>w. ow = Some w \<longrightarrow> ss_role w = ''owner'' \<and> ss_dropped_at w = None \<and> ss_item_id w = rt_item_id (first_turn req hex) \<and>
      ss_tenant w = trim (or_tenant_id req)"
    show "triple (?R now) (then_op (store_item env (new_item req (first_turn req hex) now) (running_round (first_turn req hex) now) ow now) (m ow))
      (\<lambda>_. grown env s0) (grown env s0)"
      by (rule triple_after [OF store_item_triple [OF fresh_first] m]) (use ow in \<open>auto simp: new_item_def first_turn_def running_round_def\<close>)
  qed blast
  have body: "triple (grown env s0) (bind_op wi_now (\<lambda>now. bind_op wi_new_uuid (\<lambda>hex.
      bind_op (open_owner_row req (rt_item_id (first_turn req hex)) now) (\<lambda>ow.
         then_op (store_item env (new_item req (first_turn req hex) now) (running_round (first_turn req hex) now) ow now) (m now hex))))) 
      (\<lambda>_. grown env s0) (grown env s0)"
    if m: "\<And>now hex. keeps (grown env s0) (m now hex)" for m :: "timestamp \<Rightarrow> string \<Rightarrow> (work_item \<times> round_turn) wi_op"
    by (rule triple_bind [OF now], rule triple_bind_keeps [OF keeps_now(2) [OF st]]) (blast, rule rest [OF m])
  show ?thesis
    unfolding open_item_def Let_def
    by (rule keeps_then [OF keeps_lift], unfold keeps_def, rule body)
      (intro keeps_bind keeps_then keeps_summary keeps_publish keeps_return stable_grown)
qed

subsection \<open>Rounds and inputs\<close>

lemma stable_same: "stable (same_db s)"
  by (auto simp: stable_def intro: same_db_trans)

lemma keeps_cap_check: "stable I \<Longrightarrow> keeps I (check_hourly_cap env ten i)"
  unfolding check_hourly_cap_def Let_def by (intro keeps_intros)

lemma keeps_plan: "stable I \<Longrightarrow> keeps I (plan_round env ten i)"
  unfolding plan_round_def Let_def by (intro keeps_intros keeps_cap_check)

lemma keeps_due: "stable I \<Longrightarrow> keeps I (round_due env ten i)"
  unfolding round_due_def by (intro keeps_intros keeps_plan)

lemma call_error_triple: "triple (same_db s) (wi_call f) (\<lambda>_ _. True) (same_db s)"
  by (rule tripleI) (auto dest!: call_same_or_db intro: same_db_trans)

lemma publish_never_fails: "\<exists>u. publish_item it name extra s = (Inr (), u)"
  by (auto simp: publish_item_def bind_op_def attempt_op_def split: prod.split)

lemma start_round_error: "start_round env ten i s = (Inl e, s') \<Longrightarrow> same_db s s'"
proof -
  have publish: "triple (\<lambda>_. True) (publish_item it name extra) (\<lambda>_ _. True) E" for it name extra E
  proof (rule tripleI)
    fix u e t
    assume "publish_item it name extra u = (Inl e, t)"
    with publish_never_fails [of it name extra u] show "E t" by auto
  qed simp
  have rest: "triple (\<lambda>_. True) (if \<not> b then return_op (Inl NoRunning)
       else then_op (if c then publish_item it name extra else return_op ()) (return_op x)) (\<lambda>_ _. True) E" for b c it name extra x E
    unfolding then_op_def
    by (intro triple_if triple_return' triple_bind [where R = "\<lambda>_ _. True"] publish) simp_all
  have "triple (same_db s) (start_round env ten i) (\<lambda>_ _. True) (same_db s)"
    unfolding start_round_def
  proof (rule triple_bind_keeps [OF keeps_plan [OF stable_same]])
    fix plan :: "no_round + planned"
    show "triple (same_db s)
     (case plan of Inl no \<Rightarrow> return_op (Inl no)
     | Inr p \<Rightarrow>
         bind_op wi_now (\<lambda>now.
         bind_op (wi_call (start_work_item_round (running_round (pl_turn p) now) (pl_last_input_seq p) (pl_clear_attention p))) (\<lambda>started.
         if \<not> started then return_op (Inl NoRunning)
         else then_op
           (if pl_clear_attention p
            then publish_item (pl_item p) ''attention_cleared'' [(''roundSeq'', JNumber (PosInt (of_nat (rt_seq (pl_turn p)))))]
            else return_op ())
           (return_op (Inr (pl_turn p)))))) (\<lambda>_ _. True) (same_db s)"
    proof (cases plan)
      case (Inr p)
      show ?thesis
        unfolding Inr sum.case
        by (rule triple_bind_keeps [OF keeps_now(1) [OF stable_same]], assumption, rule triple_bind [OF call_error_triple], rule rest)
    qed (auto intro: triple_return')
  qed
  from tripleD(1) [OF this same_db_refl] show "start_round env ten i s = (Inl e, s') \<Longrightarrow> same_db s s'" .
qed

lemma start_leaves:
  assumes good: "grown env s0 s" and run: "start_round env ten i s = (Inr (Inr turn), s')"
  obtains m r rd n clear where "same_db s m" "only_db m s'" "get_work_item ten i (wm_db s) = Some (r, item_activity_of (wm_db s) i)"
    "starts_next (wm_db m) r rd n clear" "hour_free env m r (rd_started_at rd)"
    "start_work_item_round rd n clear (wm_db m) = Some (True, wm_db s')" "rt_item_id turn = wi_id r" "rt_tenant_id turn = wi_tenant r" "rt_seq turn = rd_seq rd"
  using grown_items [OF good] run
proof (cases rule: start_round_exact)
  case (started r act p k s1)
  note r = get_work_itemD [OF started(1)]
  let ?m = "s'\<lparr>wm_db := wm_db s\<rparr>"
  let ?rd = "running_round (pl_turn p) (wm_clock s k)"
  from started(3) r have p: "to_view r act = Inr (pl_item p)" "round_ready (wm_db s) r"
    "pl_turn p = next_turn (pl_item p) (pending_inputs (wm_db s) (wi_id r))" "pl_last_input_seq p = in_seq (last (pending_inputs (wm_db s) (wi_id r)))"
    "pl_clear_attention p \<longleftrightarrow> wi_attention r \<noteq> None"
    and cap: "0 < wc_max_rounds_per_hour (en_config env) \<longrightarrow> (\<exists>k \<ge> wm_drawn s. k < wm_drawn s1 \<and>
      count_work_item_rounds_since (wi_tenant r) (wi_id r) (wm_clock s k - HOUR) (wm_db s) < wc_max_rounds_per_hour (en_config env))"
    by (simp_all add: plan_spec_def Let_def)
  note turn = next_turn_of_row [OF grown_items [OF good] started(1) p(1)]
  have "starts_next (wm_db ?m) r ?rd (pl_last_input_seq p) (pl_clear_attention p)"
    using r p turn by (simp add: starts_next_def running_round_def)
  moreover have "hour_free env ?m r (rd_started_at ?rd)"
    unfolding hour_free_def using started(5,8,9) cap
    by (intro exI [of _ k]) (auto simp: running_round_def intro: less_le_trans)
  moreover have "same_db s ?m" using started by (auto simp: same_db_def)
  ultimately show ?thesis
    using that [of ?m r ?rd] started r p turn by (simp add: only_db_def running_round_def)
qed auto

lemma keeps_start: "keeps (grown env s0) (start_round env ten i)"
proof (rule keepsI)
  fix s
  assume s: "grown env s0 s"
  obtain res s' where run: "start_round env ten i s = (res, s')" by fastforce
  have "grown env s0 s'"
  proof (cases res)
    case (Inl e)
    with run start_round_error s show ?thesis by (blast intro: grown_aside)
  next
    case (Inr x)
    show ?thesis
    proof (cases x)
      case no: (Inl no)
      from grown_items [OF s] run have "same_db s s'" unfolding Inr no by (cases rule: start_round_exact) auto
      with s show ?thesis by (rule grown_aside)
    next
      case yes: (Inr turn)
      from s run obtain m r rd n clear where "same_db s m" "only_db m s'" "starts_next (wm_db m) r rd n clear"
        "hour_free env m r (rd_started_at rd)" "start_work_item_round rd n clear (wm_db m) = Some (True, wm_db s')"
        unfolding Inr yes by (rule start_leaves)
      then show ?thesis using grown_leaf [OF grown_aside [OF s] leaf.started] by blast
    qed
  qed
  with run show "grown env s0 (snd (start_round env ten i s))" by simp
qed

lemma steered_input_ok:
  assumes "items_ok t" and "r \<in> set (wt_items t)" and "path = QueuedInput \<or> path = SteeredTo (wi_seq r)"
  shows "input_ok r (input_row_for r kind person body ref path now)"
  using items_okD [OF assms(1,2)] assms(3)
  by (auto simp: input_ok_def input_row_for_def row_ok_def rounds_ok_def)

lemma steer_path_cases: "steer_path env ten i q r act = QueuedInput \<or> steer_path env ten i q r act = SteeredTo (wi_seq r)"
  by (simp add: steer_path_def split: option.split)

text \<open>An input that is recorded, and the path it takes.\<close>

lemma add_input_exact:
  assumes run: "add_input env ten i kind person body ref s = (Inr (sq, path), s')"
  obtains r act m now where "get_work_item ten i (wm_db s) = Some (r, act)" "wi_state r = ''open''" "same_db s m" "only_db m s'" "trim body \<noteq> []"
    "path = steer_path env ten i \<lparr>qi_kind = input_kind_str kind, qi_from_requester = person, qi_body = trim body\<rparr> r act"
    "append_work_item_input (input_row_for r kind person (trim body) (trim ref) path now) (wm_db m) = Some (sq, wm_db s')"
proof -
  let ?q = "\<lparr>qi_kind = input_kind_str kind, qi_from_requester = person, qi_body = trim body\<rparr>"
  let ?put = "\<lambda>r act now. bind_op (wi_call (append_work_item_input
     (input_row_for r kind person (trim body) (trim ref) (steer_path env ten i ?q r act) now))) (\<lambda>sq. return_op (sq, steer_path env ten i ?q r act))"
  let ?rest = "\<lambda>(r, act). if wi_state r \<noteq> item_state_str ItemOpen then fail_op (WiInvalid ''the work item has ended'')
     else bind_op wi_now (?put r act)"
  have body: "trim body \<noteq> []" using run by (auto simp: add_input_def Let_def fail_op_def)
  from run have "bind_op (wi_read (get_work_item ten i)) (\<lambda>found. bind_op (or_not_found found) ?rest) s = (Inr (sq, path), s')"
    unfolding add_input_def Let_def if_not_P [OF body] .
  then obtain found s1 where read: "wi_read (get_work_item ten i) s = (Inr found, s1)"
    and "bind_op (or_not_found found) ?rest s1 = (Inr (sq, path), s')" by (rule bind_InrE)
  from this(2) obtain ra s2 where nf': "or_not_found found s1 = (Inr ra, s2)" and rest: "?rest ra s2 = (Inr (sq, path), s')" by (rule bind_InrE)
  obtain r act where ra: "ra = (r, act)" by (cases ra)
  note nf = nf' [unfolded ra]
  have open_row: "wi_state r = ''open''" using rest by (auto simp: ra fail_op_def split: if_splits)
  with rest have "bind_op wi_now (?put r act) s2 = (Inr (sq, path), s')" by (simp add: ra)
  then obtain now s3 where now: "wi_now s2 = (Inr now, s3)" and "?put r act now s3 = (Inr (sq, path), s')" by (rule bind_InrE)
  from this(2) obtain sq' s4 where
    call: "wi_call (append_work_item_input (input_row_for r kind person (trim body) (trim ref) (steer_path env ten i ?q r act) now)) s3 = (Inr sq', s4)"
    and ret: "(return_op (sq', steer_path env ten i ?q r act) :: (nat \<times> input_path) wi_op) s4 = (Inr (sq, path), s')" by (rule bind_InrE)
  from read nf have s2: "same_db s s2" "get_work_item ten i (wm_db s) = Some (r, act)" by (auto elim!: read_InrE found_InrE)
  from ret have path: "path = steer_path env ten i ?q r act" "sq' = sq" "s4 = s'" by (auto elim: return_InrE)
  from call path obtain t where app: "append_work_item_input (input_row_for r kind person (trim body) (trim ref) path now) (wm_db s3) = Some (sq, t)"
    and s': "s' = s3\<lparr>wm_faults := tl (wm_faults s3), wm_db := t\<rparr>" by (auto elim: call_InrE)
  have "same_db s s3" using s2(1) now_same(1) [OF now] by (rule same_db_trans)
  moreover have "only_db s3 s'" "wm_db s' = t" by (simp_all add: s')
  ultimately show ?thesis using that [OF s2(2) open_row _ _ body path(1)] app by blast
qed

lemma add_input_error: "add_input env ten i kind person body ref s = (Inl e, s') \<Longrightarrow> same_db s s'"
proof -
  have ret: "triple (\<lambda>_. True) (return_op x) (\<lambda>_ _. True) E" for x E by (rule triple_return') simp
  have "triple (same_db s) (add_input env ten i kind person body ref) (\<lambda>_ _. True) (same_db s)"
    unfolding add_input_def Let_def
  proof (intro triple_if triple_fail' triple_bind_keeps [OF keeps_read [OF stable_same]] triple_bind_keeps [OF keeps_not_found])
    fix v
    show "triple (same_db s) (case v of (r, act) \<Rightarrow>
        if wi_state r \<noteq> item_state_str ItemOpen then fail_op (WiInvalid ''the work item has ended'')
        else bind_op wi_now (\<lambda>now. bind_op (wi_call (f r act now)) (\<lambda>sq. return_op (g r act sq)))) (\<lambda>_ _. True) (same_db s)" for f g
      by (cases v) (auto intro!: triple_if triple_fail' triple_bind_keeps [OF keeps_now(1) [OF stable_same]] triple_bind [OF call_error_triple] ret)
  qed
  from tripleD(1) [OF this same_db_refl] show "add_input env ten i kind person body ref s = (Inl e, s') \<Longrightarrow> same_db s s'" .
qed

lemma keeps_add_input: "keeps (grown env s0) (add_input env' ten i kind person body ref)"
proof (rule keepsI)
  fix s
  assume s: "grown env s0 s"
  obtain res s' where run: "add_input env' ten i kind person body ref s = (res, s')" by fastforce
  have "grown env s0 s'"
  proof (cases res)
    case (Inl e)
    with run add_input_error s show ?thesis by (blast intro: grown_aside)
  next
    case (Inr x)
    obtain sq path where x: "x = (sq, path)" by (cases x)
    from run Inr x have run': "add_input env' ten i kind person body ref s = (Inr (sq, path), s')" by simp
    then obtain r act m now where a: "get_work_item ten i (wm_db s) = Some (r, act)" "wi_state r = ''open''" "same_db s m" "only_db m s'"
      "path = steer_path env' ten i \<lparr>qi_kind = input_kind_str kind, qi_from_requester = person, qi_body = trim body\<rparr> r act"
      "append_work_item_input (input_row_for r kind person (trim body) (trim ref) path now) (wm_db m) = Some (sq, wm_db s')"
      by (rule add_input_exact)
    have m: "wm_db m = wm_db s" using a(3) by (simp add: same_db_def)
    have r: "r \<in> set (wt_items (wm_db s))" using get_work_itemD [OF a(1)] by simp
    have "input_ok r (input_row_for r kind person (trim body) (trim ref) path now)"
      by (rule steered_input_ok [OF grown_items [OF s] r]) (use a(5) steer_path_cases in metis)
    then have "leaf env m s'" by (intro leaf.input [OF a(4,6)]) (use r m a(2) in \<open>auto simp: input_row_for_def\<close>)
    with grown_aside [OF s a(3)] show ?thesis by (rule grown_leaf)
  qed
  with run show "grown env s0 (snd (add_input env' ten i kind person body ref s))" by simp
qed

lemma keeps_find_owner: "keeps (grown env s0) (find_owner env' ten src)"
proof -
  have "keeps (grown env s0) (wi_write (\<lambda>t. Some (expire_idle ten src cutoff now t)))" for cutoff now
    unfolding wi_write_def by (rule keeps_call_leaf) (rule leaf.idle [OF only_db_call], auto)
  then show ?thesis unfolding find_owner_def by (intro keeps_intros stable_grown)
qed

lemma keeps_touch: "keeps (grown env s0) (wi_write (\<lambda>t. Some (touch_work_item_subscription ten sid at t)))"
  unfolding wi_write_def by (rule keeps_call_leaf) (rule leaf.touched [OF only_db_call], auto)

section \<open>The steps of the manager\<close>

text \<open>
  Any thread may run any of these at any time, with whatever arguments and whatever faults of the store. What a
  step writes it decides under one hold of the writer lock; the reads before and after, for the view it returns
  or the event it announces, change nothing. Other parts of the store may change their own rows.
\<close>

inductive wi_step :: "wi_env \<Rightarrow> wi_state \<Rightarrow> wi_state \<Rightarrow> bool" for env where
  ws_open: "open_item env req s = (r1, s') \<Longrightarrow> wi_step env s s'"
| ws_settle: "settle_round env turn out s = (r2, s') \<Longrightarrow> wi_step env s s'"
| ws_input: "add_input env ten i kind person body ref s = (r3, s') \<Longrightarrow> wi_step env s s'"
| ws_start: "start_round env ten i s = (r4, s') \<Longrightarrow> wi_step env s s'"
| ws_due: "round_due env ten i s = (r5, s') \<Longrightarrow> wi_step env s s'"
| ws_stop: "stop_item env ten i s = (r6, s') \<Longrightarrow> wi_step env s s'"
| ws_revoke: "revoke_item item reason s = (r7, s') \<Longrightarrow> wi_step env s s'"
| ws_reopen: "reopen_item env item s = (r8, s') \<Longrightarrow> wi_step env s s'"
| ws_owner: "find_owner env ten src s = (r9, s') \<Longrightarrow> wi_step env s s'"
| ws_touch: "wi_write (\<lambda>t. Some (touch_work_item_subscription ten sid at t)) s = (r10, s') \<Longrightarrow> wi_step env s s'"
| ws_register: "wi_step env s (register_turn_origin og s)"
| ws_unregister: "wi_step env s (unregister_turn_origin ten run s)"
| ws_elsewhere: "wi_step env s (s\<lparr>wm_db := (wm_db s)\<lparr>wt_threads := ths, wt_segments := sgs, wt_policies := ps, wt_members := ms\<rparr>\<rparr>)"
| ws_faults: "wi_step env s (s\<lparr>wm_faults := fs\<rparr>)"

definition wi_start :: "wi_state \<Rightarrow> bool" where
  "wi_start s \<longleftrightarrow> wt_items (wm_db s) = [] \<and> wt_rounds (wm_db s) = [] \<and> wt_inputs (wm_db s) = [] \<and> wt_subs (wm_db s) = []"

definition wi_inv :: "wi_env \<Rightarrow> wi_state \<Rightarrow> bool" where
  "wi_inv env s \<longleftrightarrow> wi_good (item_cap env) (wm_db s)"

lemma wi_step_grown:
  assumes "wi_step env s s'" and "wi_inv env s"
  shows "grown env s s'"
proof -
  have s: "grown env s s" using assms(2) by (simp add: wi_inv_def grown_def)
  have keep: "keeps (grown env s) m \<Longrightarrow> m s = (r, s') \<Longrightarrow> grown env s s'" for m :: "'a wi_op" and r using s by (blast dest: keepsD)
  from assms(1) show ?thesis
  proof cases
    case (ws_elsewhere ths sgs ps ms)
    have "leaf env s s'" unfolding ws_elsewhere by (rule leaf.elsewhere) (simp_all add: only_db_def)
    with s show ?thesis by (rule grown_leaf)
  next
    case (ws_register og)
    then show ?thesis by (intro grown_aside [OF s]) (simp add: register_turn_origin_def same_db_def)
  next
    case (ws_unregister ten run)
    then show ?thesis by (intro grown_aside [OF s]) (simp add: unregister_turn_origin_def same_db_def)
  next
    case (ws_faults fs)
    then show ?thesis by (intro grown_aside [OF s]) (simp add: same_db_def)
  qed (auto intro: keep [OF keeps_open] keep [OF keeps_settle] keep [OF keeps_add_input] keep [OF keeps_start]
      keep [OF keeps_due [OF stable_grown]] keep [OF keeps_stop] keep [OF keeps_revoke] keep [OF keeps_reopen]
      keep [OF keeps_find_owner] keep [OF keeps_touch])
qed

interpretation work_items: invariant_system wi_start "wi_step env" "wi_inv env" for env
proof
  show "wi_inv env s" if "wi_start s" for s
    using that by (auto simp: wi_start_def wi_inv_def tables_ok_def items_ok_def subs_ok_def within_cap_def count_open_work_items_def)
  show "wi_inv env t" if "wi_step env s t" "wi_inv env s" for s t
    using wi_step_grown [OF that] by (simp add: wi_inv_def grown_def)
qed

lemma wi_steps_leaves:
  assumes "(wi_step env)\<^sup>*\<^sup>* s s'" and "wi_inv env s"
  shows "(leaf env)\<^sup>*\<^sup>* s s'"
  using assms
proof (induction rule: rtranclp_induct)
  case (step t u)
  then have "wi_inv env t" by (blast intro: work_items.inv_steps)
  from wi_step_grown [OF step(2) this] step show ?case by (auto simp: grown_def)
qed simp

end
