(* ===== verification/Work_Item_Properties.thy ===== *)
theory Work_Item_Properties
  imports Work_Item_Steps
begin

text \<open>
  What work items promise: rounds one at a time and inputs none lost, the caps on open items and on rounds per hour,
  one owner per conversation, ends that stay, and when a round is due.
\<close>

section \<open>Examples\<close>

definition example_chat :: wi_chat where
  "example_chat = \<lparr>ch_steer = (\<lambda>_ _ _. False), ch_cancel = (\<lambda>_ _. True)\<rparr>"

definition example_env :: wi_env where
  "example_env =
     \<lparr>en_config = \<lparr>wc_max_open_items = 1, wc_subscription_idle_days = 14, wc_max_rounds_per_hour = 2\<rparr>,
      en_chat = Some example_chat, en_retention = (\<lambda>_ t. t + DAY), en_serde_message = (\<lambda>_. ''x'')\<rparr>"

definition example_tables :: wi_tables where
  "example_tables =
     \<lparr>wt_items = [], wt_rounds = [], wt_inputs = [], wt_subs = [], wt_threads = [], wt_segments = [], wt_policies = [], wt_members = []\<rparr>"

definition example_state :: wi_state where
  "example_state =
     \<lparr>wm_db = example_tables, wm_origins = Map.empty, wm_events = [], wm_clock = int, wm_uuid = decimal, wm_drawn = 0, wm_faults = []\<rparr>"

definition example_origin :: im_turn_origin where
  "example_origin =
     \<lparr>io_tenant_id = ''ten'', io_run_id = ''run'', io_connector_id = ''con'', io_source_conversation_id = ''dm'',
      io_source_key = ''src'', io_author_id = ''ann'', io_shape = ShapeDirectMessage, io_delivery_id = ''d1'', io_route_policy_id = []\<rparr>"

definition example_request :: open_request where
  "example_request =
     \<lparr>or_tenant_id = ''ten'', or_principal_id = [], or_request_ref = ''d1'', or_title = ''Fix'', or_scope = ''CI'',
      or_provider = [], or_model = [], or_origin = Some example_origin, or_subscribe_origin = True\<rparr>"

definition example_opened :: wi_state where
  "example_opened = snd (open_item example_env example_request example_state)"

lemma example_start: "wi_start example_state"
  by (simp add: wi_start_def example_state_def example_tables_def)

lemma opened_reachable: "(wi_step example_env)\<^sup>*\<^sup>* example_state example_opened"
proof (rule r_into_rtranclp)
  show "wi_step example_env example_state example_opened"
    by (rule wi_step.ws_open [of _ example_request _ "fst (open_item example_env example_request example_state)"])
      (simp add: example_opened_def)
qed

lemma example_item: "map (\<lambda>r. (wi_id r, wi_tenant r, wi_state r, wi_seq r)) (wt_items (wm_db example_opened)) = [(''wi_1'', ''ten'', ''open'', 1)]"
  by code_simp

definition example_row :: work_item_row where
  "example_row = hd (wt_items (wm_db example_opened))"

lemma example_row: "example_row \<in> set (wt_items (wm_db example_opened))" "wi_id example_row = ''wi_1''"
proof -
  obtain r where "wt_items (wm_db example_opened) = [r]" "wi_id r = ''wi_1''" using example_item by auto
  then show "example_row \<in> set (wt_items (wm_db example_opened))" "wi_id example_row = ''wi_1''"
    by (simp_all add: example_row_def)
qed

section \<open>Consistency\<close>

text \<open>
  C9. In every reachable state the rounds of an item are numbered from one to its counter, only the last one can be
  running, and then the item is open or was stopped and asks no question; its inputs are numbered without gaps, and each is
  pending or names the round that read it.
\<close>

theorem work_items_consistent:
  assumes "wi_start s0" and "(wi_step env)\<^sup>*\<^sup>* s0 s" and "r \<in> set (wt_items (wm_db s))"
    and "rs = rounds_of (wm_db s) (wi_id r)" and "ns = inputs_of (wm_db s) (wi_id r)"
  shows "map rd_seq rs = [1..<Suc (wi_seq r)] \<and> (\<forall>x \<in> set (butlast rs). rd_state x \<noteq> ''running'') \<and>
    (rd_state (last rs) = ''running'' \<longrightarrow> wi_attention r = None \<and> (wi_state r = ''open'' \<or> wi_end_reason r = Some ''stopped'')) \<and>
    map in_seq ns = [1..<Suc (length ns)] \<and>
    (\<forall>n \<in> set ns. in_state n = ''pending'' \<and> in_round_seq n = None \<or>
      (in_state n = ''steered'' \<or> in_state n = ''consumed'') \<and> (\<exists>q. in_round_seq n = Some q \<and> 1 \<le> q \<and> q \<le> wi_seq r))"
proof -
  have "wi_inv env s" using assms(1,2) by (rule work_items.inv_reachable)
  then have row: "row_ok r rs ns"
    using assms(3-5) by (auto simp: wi_inv_def tables_ok_def intro: items_okD)
  then have rounds: "rounds_ok r rs" by (simp add: row_ok_def)
  with running_last [OF rounds] row show ?thesis
    by (auto simp: row_ok_def rounds_ok_def numbered_def has_running_def list_ex_iff list_all_iff input_ok_def)
qed

lemma work_items_consistent_witness:
  "map rd_seq (rounds_of (wm_db example_opened) (wi_id example_row)) = [1..<Suc (wi_seq example_row)]"
  using work_items_consistent [OF example_start opened_reachable example_row(1) refl refl] by blast

text \<open>
  With a cap configured, no tenant ever holds more open work items than it, whatever opens, reopens and stops run in
  whatever order.
\<close>

theorem open_items_bounded:
  assumes "wi_start s0" and "(wi_step env)\<^sup>*\<^sup>* s0 s" and "0 < wc_max_open_items (en_config env)"
  shows "count_open_work_items ten (wm_db s) \<le> wc_max_open_items (en_config env)"
proof -
  have "wi_inv env s" using assms(1,2) by (rule work_items.inv_reachable)
  with assms(3) show ?thesis by (simp add: wi_inv_def within_cap_def)
qed

lemma open_items_bounded_witness: "count_open_work_items ''ten'' (wm_db example_opened) \<le> wc_max_open_items (en_config example_env)"
  by (rule open_items_bounded [OF example_start opened_reachable]) (simp add: example_env_def)

text \<open>
  C16. In every reachable state a conversation has at most one live owner subscription, and the item it belongs to is in
  the same tenant and was neither stopped nor revoked.
\<close>

theorem one_owner_per_conversation:
  assumes "wi_start s0" and "(wi_step env)\<^sup>*\<^sup>* s0 s" and "a \<in> set (wt_subs (wm_db s))" and "live_owner ten src a"
  shows "(\<forall>b \<in> set (wt_subs (wm_db s)). live_owner ten src b \<longrightarrow> b = a) \<and>
    (\<exists>r \<in> set (wt_items (wm_db s)). wi_id r = ss_item_id a \<and> wi_tenant r = ten \<and> \<not> is_final r)"
proof -
  have "wi_inv env s" using assms(1,2) by (rule work_items.inv_reachable)
  then have subs: "subs_ok (wm_db s)" by (simp add: wi_inv_def tables_ok_def)
  moreover have "ss_tenant a = ten" "ss_dropped_at a = None" using assms(4) by (simp_all add: live_owner_def)
  ultimately show ?thesis using assms(3,4) one_owner [OF subs] unfolding subs_ok_def by blast
qed

lemma example_sub: "map (live_owner ''ten'' ''src'') (wt_subs (wm_db example_opened)) = [True]"
  by code_simp

lemma one_owner_per_conversation_witness:
  "\<exists>a \<in> set (wt_subs (wm_db example_opened)). live_owner ''ten'' ''src'' a \<and>
     (\<exists>r \<in> set (wt_items (wm_db example_opened)). wi_id r = ss_item_id a \<and> wi_tenant r = ''ten'' \<and> \<not> is_final r)"
proof -
  obtain a where "wt_subs (wm_db example_opened) = [a]" "live_owner ''ten'' ''src'' a" using example_sub by auto
  with one_owner_per_conversation [OF example_start opened_reachable, of a "''ten''" "''src''"] show ?thesis by auto
qed

section \<open>Ends that stay\<close>

text \<open>An item that was stopped or revoked, with the rounds it had.\<close>

definition ended_after :: "string \<Rightarrow> nat \<Rightarrow> wi_tables \<Rightarrow> bool" where
  "ended_after i k t \<longleftrightarrow> (\<exists>q \<in> set (wt_items t). wi_id q = i \<and> is_final q \<and> wi_seq q = k)"

lemma ended_after_map:
  assumes "ended_after i k t" and "wt_items t' = map f (wt_items t)"
    and "\<And>q. q \<in> set (wt_items t) \<Longrightarrow> is_final q \<Longrightarrow> wi_id (f q) = wi_id q \<and> is_final (f q) \<and> wi_seq (f q) = wi_seq q"
  shows "ended_after i k t'"
proof -
  from assms(1) obtain q where "q \<in> set (wt_items t)" "wi_id q = i" "is_final q" "wi_seq q = k" by (auto simp: ended_after_def)
  with assms(2) assms(3) [of q] show ?thesis unfolding ended_after_def by (intro bexI [of _ "f q"]) auto
qed

lemma ended_after_items: "ended_after i k t \<Longrightarrow> set (wt_items t) \<subseteq> set (wt_items t') \<Longrightarrow> ended_after i k t'"
  by (auto simp: ended_after_def)

lemma leaf_ended_after:
  assumes "leaf env s s'" and "items_ok (wm_db s)" and "ended_after i k (wm_db s)"
  shows "ended_after i k (wm_db s')"
  using assms
proof (induction rule: leaf.induct)
  case (settled s s' sd ten j sq now b)
  show ?case
  proof (cases b)
    case False
    with settled show ?thesis by (auto simp: settle_work_item_round_def Let_def split: if_splits)
  next
    case True
    with settled(3) have run: "settle_work_item_round ten j sq (settlement_of sd now) (wm_db s) = (True, wm_db s')" by simp
    obtain r where "wt_items (wm_db s') = map (\<lambda>q. if q = r then settled_item (settlement_of sd now) q else q) (wt_items (wm_db s))"
      by (rule settle_changes [OF settled(4) run])
    then show ?thesis by (rule ended_after_map [OF settled(5)]) (auto simp: settled_item_def is_final_def)
  qed
next
  case (started s s' r rd n clear)
  obtain q where q: "q \<in> set (wt_items (wm_db s))" "wi_state q = ''open''"
    "wt_items (wm_db s') = map (\<lambda>x. if x = q then started_item rd clear x else x) (wt_items (wm_db s))"
    by (rule start_changes [OF started(5,4)])
  from items_okD [OF started(5) q(1)] q(2) have "\<not> is_final q" by (auto simp: row_ok_def state_ok_def is_final_def)
  with started(6) show ?case by (intro ended_after_map [OF _ q(3)]) auto
next
  case (finished s s' ten j reason at b)
  show ?case
  proof (cases b)
    case False
    with finished show ?thesis by (auto simp: end_work_item_finally_def Let_def split: if_splits)
  next
    case True
    with finished(2) have run: "end_work_item_finally ten j reason at (wm_db s) = Some (True, wm_db s')" by simp
    show ?thesis by (rule ended_after_map [OF finished(4) end_changes(2) [OF run]]) (use end_changes(1) [OF run] in \<open>auto simp: is_final_def\<close>)
  qed
next
  case (reopened s s' ten j at b)
  have "wt_items (wm_db s') = map (\<lambda>r. if wi_tenant r = ten \<and> wi_id r = j \<and> wi_state r = ''ended'' \<and>
      (wi_end_reason r = Some ''completed'' \<or> wi_end_reason r = Some ''dropped'')
      then r\<lparr>wi_state := ''open'', wi_end_reason := None, wi_updated_at := at\<rparr> else r) (wt_items (wm_db s))"
    using arg_cong [OF reopened(3), of "\<lambda>p. wt_items (snd p)"] by (simp add: reopen_work_item_def Let_def)
  then show ?case by (rule ended_after_map [OF reopened(5)]) (auto simp: is_final_def)
next
  case (created s s' it rd)
  then show ?case by (intro ended_after_items [OF created(7)]) (use create_changes(1) in fastforce)
next
  case (owned s s' it rd ow taken)
  show ?case
  proof (rule ended_after_items [OF owned(11)])
    show "set (wt_items (wm_db s)) \<subseteq> set (wt_items (wm_db s'))"
      using owned(9) by (auto simp: create_work_item_with_owner_def bind_eq_Some_conv superseded_same
          dest!: create_changes(1) insert_subscription_changes(1) split: option.splits)
  qed
next
  case (input s s' n sq r)
  then show ?case by (intro ended_after_items [OF input(8)]) (use append_changes(2) [OF input(2)] in simp)
qed (auto simp: same_db_def ended_after_def expire_idle_def touch_work_item_subscription_def)

lemma leaves_ended_after:
  assumes "(leaf env)\<^sup>*\<^sup>* s s'" and "wi_good (item_cap env) (wm_db s)" and "ended_after i k (wm_db s)"
  shows "ended_after i k (wm_db s') \<and> wi_good (item_cap env) (wm_db s')"
  using assms
proof (induction rule: rtranclp_induct)
  case (step t u)
  then have "items_ok (wm_db t)" by (simp add: tables_ok_def)
  with step leaf_ended_after leaf_good show ?case by blast
qed simp

text \<open>
  C10. A work item that a person stopped or that lost its authority never comes back: at every later time it is ended, by a
  stop or a revocation, has started no further round, and no live subscription wakes it, whatever reports, messages,
  reopens and retries come after.
\<close>

theorem ended_for_good:
  assumes "wi_start s0" and "(wi_step env)\<^sup>*\<^sup>* s0 s" and "(wi_step env)\<^sup>*\<^sup>* s s'"
    and "r \<in> set (wt_items (wm_db s))" and "is_final r"
  shows "\<exists>q \<in> set (wt_items (wm_db s')). wi_id q = wi_id r \<and> wi_state q = ''ended'' \<and> is_final q \<and> wi_seq q = wi_seq r \<and>
    length (rounds_of (wm_db s') (wi_id r)) = wi_seq r \<and>
    (\<forall>a \<in> set (wt_subs (wm_db s')). ss_item_id a = wi_id r \<longrightarrow> ss_dropped_at a \<noteq> None)"
proof -
  have "wi_inv env s" using assms(1,2) by (rule work_items.inv_reachable)
  moreover have "ended_after (wi_id r) (wi_seq r) (wm_db s)" using assms(4,5) by (auto simp: ended_after_def)
  ultimately have later: "ended_after (wi_id r) (wi_seq r) (wm_db s')" "tables_ok (wm_db s')"
    using leaves_ended_after [OF wi_steps_leaves [OF assms(3)]] by (auto simp: wi_inv_def)
  from later(1) obtain q where q: "q \<in> set (wt_items (wm_db s'))" "wi_id q = wi_id r" "is_final q" "wi_seq q = wi_seq r"
    by (auto simp: ended_after_def)
  have items: "items_ok (wm_db s')" and subs: "subs_ok (wm_db s')" using later(2) by (simp_all add: tables_ok_def)
  from items_okD [OF items q(1)] q have "wi_state q = ''ended''" "length (rounds_of (wm_db s') (wi_id r)) = wi_seq r"
    by (auto simp: row_ok_def state_ok_def is_final_def rounds_ok_def)
  moreover have "ss_dropped_at a \<noteq> None" if "a \<in> set (wt_subs (wm_db s'))" "ss_item_id a = wi_id r" for a
  proof -
    from subs that(1) obtain x where "x \<in> set (wt_items (wm_db s'))" "wi_id x = ss_item_id a" "ss_dropped_at a = None \<longrightarrow> \<not> is_final x"
      unfolding subs_ok_def by blast
    with same_item [OF items, of x q] q that(2) show ?thesis by metis
  qed
  ultimately show ?thesis using q by blast
qed

definition example_stopped :: wi_state where
  "example_stopped = snd (stop_item example_env ''ten'' ''wi_1'' example_opened)"

definition example_settled :: wi_state where
  "example_settled = snd (settle_round example_env (first_turn example_request ''1'') (Failed ''x'' None) example_stopped)"

lemma example_stop_step: "(wi_step example_env)\<^sup>*\<^sup>* example_state example_stopped"
proof (rule rtranclp.rtrancl_into_rtrancl [OF opened_reachable])
  show "wi_step example_env example_opened example_stopped"
    by (rule wi_step.ws_stop [of _ "''ten''" "''wi_1''" _ "fst (stop_item example_env ''ten'' ''wi_1'' example_opened)"])
      (simp add: example_stopped_def)
qed

lemma example_settle_step: "(wi_step example_env)\<^sup>*\<^sup>* example_stopped example_settled"
proof (rule r_into_rtranclp)
  show "wi_step example_env example_stopped example_settled"
    by (rule wi_step.ws_settle [of _ "first_turn example_request ''1''" "Failed ''x'' None" _
        "fst (settle_round example_env (first_turn example_request ''1'') (Failed ''x'' None) example_stopped)"])
      (simp add: example_settled_def)
qed

lemma example_stopped_item: "map (\<lambda>r. (wi_id r, is_final r)) (wt_items (wm_db example_stopped)) = [(''wi_1'', True)]"
  by code_simp

lemma ended_for_good_witness:
  "\<exists>q \<in> set (wt_items (wm_db example_settled)). wi_id q = ''wi_1'' \<and> wi_state q = ''ended'' \<and> is_final q"
proof -
  obtain r where "r \<in> set (wt_items (wm_db example_stopped))" "wi_id r = ''wi_1''" "is_final r"
    using example_stopped_item by auto
  with ended_for_good [OF example_start example_stop_step example_settle_step] show ?thesis by force
qed

section \<open>Rounds\<close>

lemma numbered_mono: "numbered f xs \<Longrightarrow> x \<in> set (filter P xs) \<Longrightarrow> f x \<le> f (last (filter P xs))"
proof (induction xs rule: rev_induct)
  case (snoc y ys)
  then have "numbered f ys" "f y = Suc (length ys)" by (simp_all add: numbered_def)
  with snoc numbered_bound [of f ys x] show ?case by (auto split: if_splits)
qed simp

lemma started_inputs:
  assumes "items_ok t" and "starts_next t r rd n clear" and "start_work_item_round rd n clear t = Some (True, t')"
  shows "inputs_of t' (wi_id r) =
    map (\<lambda>x. if in_state x = ''pending'' then x\<lparr>in_state := ''consumed'', in_round_seq := Some (rd_seq rd)\<rparr> else x) (inputs_of t (wi_id r))"
    "rounds_of t' (wi_id r) = rounds_of t (wi_id r) @ [rd]"
proof -
  note nx = assms(2) [unfolded starts_next_def]
  have row: "row_ok r (rounds_of t (wi_id r)) (inputs_of t (wi_id r))" using items_okD [OF assms(1)] nx by blast
  obtain q where q: "wt_rounds t' = wt_rounds t @ [rd]" "wt_inputs t' = map (consumed_input rd n) (wt_inputs t)"
    by (rule start_changes [OF assms(1,3)])
  have hit: "consumed_input rd n x =
      (if in_state x = ''pending'' then x\<lparr>in_state := ''consumed'', in_round_seq := Some (rd_seq rd)\<rparr> else x)"
    if x: "x \<in> set (inputs_of t (wi_id r))" for x
  proof -
    have "in_tenant x = wi_tenant r" "in_item_id x = wi_id r" using row x by (auto simp: row_ok_def list_all_iff input_ok_def inputs_of_def)
    moreover have "in_seq x \<le> n" if "in_state x = ''pending''"
      using numbered_mono [of in_seq "inputs_of t (wi_id r)" x] row x nx that by (simp add: row_ok_def pending_inputs_def)
    ultimately show ?thesis using nx by (auto simp: consumed_input_def)
  qed
  have "inputs_of t' (wi_id r) = map (consumed_input rd n) (inputs_of t (wi_id r))" by (rule inputs_of_map [OF q(2)]) simp
  with hit show "inputs_of t' (wi_id r) =
    map (\<lambda>x. if in_state x = ''pending'' then x\<lparr>in_state := ''consumed'', in_round_seq := Some (rd_seq rd)\<rparr> else x) (inputs_of t (wi_id r))"
    by simp
  show "rounds_of t' (wi_id r) = rounds_of t (wi_id r) @ [rd]" using nx by (simp add: rounds_of_def q(1))
qed

text \<open>
  C15. The round that starts is the next one of an item that is due; its query quotes the pending inputs, all of them and
  in order, each of them is recorded as read by that round, and no other input changes.
\<close>

theorem round_reads_pending:
  assumes "wi_start s0" and "(wi_step env)\<^sup>*\<^sup>* s0 s" and "start_round env ten i s = (Inr (Inr turn), s')"
  shows "\<exists>r \<in> set (wt_items (wm_db s)). wi_id r = i \<and> wi_tenant r = ten \<and> round_ready (wm_db s) r \<and> rt_seq turn = wi_seq r + 1 \<and>
    rt_query_text turn = round_query (rt_seq turn) (map quote_input (pending_inputs (wm_db s) i)) \<and>
    (\<exists>at. rounds_of (wm_db s') i = rounds_of (wm_db s) i @ [running_round turn at]) \<and>
    inputs_of (wm_db s') i =
      map (\<lambda>x. if in_state x = ''pending'' then x\<lparr>in_state := ''consumed'', in_round_seq := Some (rt_seq turn)\<rparr> else x)
        (inputs_of (wm_db s) i)"
proof -
  have inv: "wi_inv env s" using assms(1,2) by (rule work_items.inv_reachable)
  then have ok: "items_ok (wm_db s)" by (simp add: wi_inv_def tables_ok_def)
  from ok assms(3) show ?thesis
  proof (cases rule: start_round_exact)
    case (started r act p k s1)
    note r = get_work_itemD [OF started(1)]
    let ?rd = "running_round turn (wm_clock s k)"
    from started(2) have turn: "turn = pl_turn p" by simp
    from started(3) r have p: "to_view r act = Inr (pl_item p)" "round_ready (wm_db s) r"
      "pl_turn p = next_turn (pl_item p) (pending_inputs (wm_db s) i)" "pl_last_input_seq p = in_seq (last (pending_inputs (wm_db s) i))"
      "pl_clear_attention p \<longleftrightarrow> wi_attention r \<noteq> None"
      by (simp_all add: plan_spec_def Let_def)
    note nt = next_turn_of_row [OF ok started(1) p(1), of "pending_inputs (wm_db s) i", folded p(3), folded turn]
    have nx: "starts_next (wm_db s) r ?rd (pl_last_input_seq p) (pl_clear_attention p)"
      using r p nt by (simp add: starts_next_def running_round_def)
    note res = started_inputs [OF ok nx started(4) [folded turn]]
    have "rd_seq ?rd = rt_seq turn" by (simp add: running_round_def)
    with res r p nt show ?thesis by auto
  qed simp
qed

definition example_failed :: wi_state where
  "example_failed = snd (settle_round example_env (first_turn example_request ''1'') (Failed ''x'' None) example_opened)"

definition example_told :: wi_state where
  "example_told = snd (add_input example_env ''ten'' ''wi_1'' InMessage True ''go'' ''d2'' example_failed)"

lemma example_told_step: "(wi_step example_env)\<^sup>*\<^sup>* example_state example_told"
proof (rule rtranclp.rtrancl_into_rtrancl [OF rtranclp.rtrancl_into_rtrancl [OF opened_reachable]])
  show "wi_step example_env example_opened example_failed"
    by (rule wi_step.ws_settle [of _ "first_turn example_request ''1''" "Failed ''x'' None" _
        "fst (settle_round example_env (first_turn example_request ''1'') (Failed ''x'' None) example_opened)"])
      (simp add: example_failed_def)
  show "wi_step example_env example_failed example_told"
    by (rule wi_step.ws_input [of _ "''ten''" "''wi_1''" InMessage True "''go''" "''d2''" _
        "fst (add_input example_env ''ten'' ''wi_1'' InMessage True ''go'' ''d2'' example_failed)"])
      (simp add: example_told_def)
qed

lemma example_starts: "map_sum (\<lambda>_. ()) (map_sum id rt_seq) (fst (start_round example_env ''ten'' ''wi_1'' example_told)) = Inr (Inr 2)"
  by code_simp

lemma round_reads_pending_witness:
  "\<exists>turn. fst (start_round example_env ''ten'' ''wi_1'' example_told) = Inr (Inr turn) \<and>
     rt_query_text turn = round_query (rt_seq turn) (map quote_input (pending_inputs (wm_db example_told) ''wi_1''))"
proof -
  obtain turn where turn: "fst (start_round example_env ''ten'' ''wi_1'' example_told) = Inr (Inr turn)"
    using example_starts by (auto simp: map_sum_def split: sum.splits)
  then have "start_round example_env ''ten'' ''wi_1'' example_told =
      (Inr (Inr turn), snd (start_round example_env ''ten'' ''wi_1'' example_told))" by (metis prod.collapse)
  with round_reads_pending [OF example_start example_told_step] turn show ?thesis by blast
qed

lemma round_state_words:
  "round_state_str rs = ''running'' \<longleftrightarrow> rs = RoundRunning" "round_state_str rs = ''failed'' \<longleftrightarrow> rs = RoundFailed"
  by (cases rs; simp)+

text \<open>
  C19. What people see agrees with what the driver does: an item is shown as queued exactly when a round of it would start
  now or only the hourly cap holds it back, its last round did not fail and it asks no question.
\<close>

theorem queued_is_due:
  assumes "wi_start s0" and "(wi_step env)\<^sup>*\<^sup>* s0 s" and "get_work_item ten i (wm_db s) = Some (r, act)" and "to_view r act = Inr item"
    and "round_due env ten i s = (Inr ans, s')"
  shows "wk_stage item = Some StageQueued \<longleftrightarrow>
    (ans = Inr () \<or> ans = Inl (HourlyCap (wc_max_rounds_per_hour (en_config env)))) \<and>
    ia_last_round_state act \<noteq> Some ''failed'' \<and> wk_attention item = None"
proof -
  have "wi_inv env s" using assms(1,2) by (rule work_items.inv_reachable)
  then have ok: "items_ok (wm_db s)" by (simp add: wi_inv_def tables_ok_def)
  note r = get_work_itemD [OF assms(3)]
  from assms(5) obtain plan where plan: "plan_round env ten i s = (Inr plan, s')"
    and ans: "ans = (case plan of Inl no \<Rightarrow> Inl no | Inr _ \<Rightarrow> Inr ())"
    unfolding round_due_def by (auto elim!: bind_InrE return_InrE)
  obtain r' act' where "get_work_item ten i (wm_db s) = Some (r', act')" "plan_spec env s s' r' plan"
    by (rule plan_round_exact [OF ok plan])
  with assms(3) have spec: "plan_spec env s s' r plan" by simp
  have due: "ans = Inr () \<or> ans = Inl (HourlyCap (wc_max_rounds_per_hour (en_config env))) \<longleftrightarrow> round_ready (wm_db s) r"
    using spec unfolding ans by (auto simp: plan_spec_def Let_def split: sum.splits no_round.splits)
  obtain it where "to_view r act = Inr it" and it: "wk_attention it = wi_attention r"
    "wk_state it = (if wi_state r = ''open'' then ItemOpen else ItemEnded)"
    "wk_stage it = derive_stage (view_facts r act (wk_state it) (Option.bind (ia_last_round_state act) parse_round_state))"
    by (rule view_exists [OF ok assms(3)])
  with assms(4) have "it = item" by simp
  note it = it [unfolded this]
  note last = last_round_state [OF ok r(1), unfolded r(3), folded r(4)]
  have running: "has_running (rounds_of (wm_db s) i) \<longleftrightarrow> ia_last_round_state act = Some ''running''"
    using running_activity [OF ok assms(3)] by simp
  have failed: "rd_state (last (rounds_of (wm_db s) i)) = ''failed'' \<longleftrightarrow> ia_last_round_state act = Some ''failed''" using last by simp
  have counts: "0 < ia_pending_inputs act \<longleftrightarrow> pending_inputs (wm_db s) i \<noteq> []"
    "0 < ia_pending_person_inputs act \<longleftrightarrow> list_ex in_author_is_person (pending_inputs (wm_db s) i)"
    unfolding r(4) by (auto simp: item_activity_of_def pending_inputs_def list_ex_iff filter_empty_conv)
  have rounds: "rounds_ok r (rounds_of (wm_db s) i)" using items_okD [OF ok r(1)] r(3) by (simp add: row_ok_def)
  have "round_ok r (last (rounds_of (wm_db s) i))" using rounds rounds_nonempty [OF rounds] by (simp add: rounds_ok_def list_all_iff)
  then obtain rs where rs: "ia_last_round_state act = Some (round_state_str rs)" using last by (auto simp: round_ok_def)
  have known: "Option.bind (ia_last_round_state act) parse_round_state = Some rs" unfolding rs by simp
  have parse: "Option.bind (ia_last_round_state act) parse_round_state = Some RoundRunning \<longleftrightarrow> ia_last_round_state act = Some ''running''"
    "Option.bind (ia_last_round_state act) parse_round_state = Some RoundFailed \<longleftrightarrow> ia_last_round_state act = Some ''failed''"
    unfolding known rs using round_state_words [of rs] by auto
  show ?thesis
    unfolding due round_ready_def waits_for_person_def r(3) running failed it(1)
    by (auto simp: it(2,3) derive_stage_def view_facts_def Let_def parse counts)
qed

lemma queued_is_due_witness:
  "\<exists>r act item ans. get_work_item ''ten'' ''wi_1'' (wm_db example_told) = Some (r, act) \<and> to_view r act = Inr item \<and>
     fst (round_due example_env ''ten'' ''wi_1'' example_told) = Inr ans \<and> wk_stage item \<noteq> Some StageQueued"
proof -
  have "case fst (round_due example_env ''ten'' ''wi_1'' example_told) of Inr (Inr _) \<Rightarrow> True | _ \<Rightarrow> False"
    by code_simp
  then have d: "fst (round_due example_env ''ten'' ''wi_1'' example_told) = Inr (Inr ())" by (auto split: sum.splits)
  have "case get_work_item ''ten'' ''wi_1'' (wm_db example_told) of None \<Rightarrow> False | Some (r, act) \<Rightarrow>
      (case to_view r act of Inl _ \<Rightarrow> False | Inr item \<Rightarrow> ia_last_round_state act = Some ''failed'')"
    by code_simp
  then obtain r act item where
    g: "get_work_item ''ten'' ''wi_1'' (wm_db example_told) = Some (r, act)" "to_view r act = Inr item" "ia_last_round_state act = Some ''failed''"
    by (cases "get_work_item ''ten'' ''wi_1'' (wm_db example_told)"; cases "to_view (fst (the (get_work_item ''ten'' ''wi_1'' (wm_db example_told))))
        (snd (the (get_work_item ''ten'' ''wi_1'' (wm_db example_told))))") auto
  from d have "round_due example_env ''ten'' ''wi_1'' example_told = (Inr (Inr ()), snd (round_due example_env ''ten'' ''wi_1'' example_told))"
    by (metis prod.collapse)
  from queued_is_due [OF example_start example_told_step g(1,2) this] d g show ?thesis by auto
qed

section \<open>A failure between two writes\<close>

text \<open>
  C39. When a conversation opens an item, the item is written before the thread of its rounds. If the write of the
  thread fails, the caller is told that the store failed, but the item stays: it is open, its first round is marked as
  running and nothing runs it, and it owns the conversation, so that opening again is refused because of it.
\<close>

theorem failed_thread_strands_item:
  assumes "wi_start s0" and "(wi_step env)\<^sup>*\<^sup>* s0 s" and "check_open req = Inr ()" and "owning_origin req = Some og"
    and "wc_max_open_items (en_config env) = 0" and "wm_faults s = [False, True]"
    and "open_owner (trim (or_tenant_id req)) (io_source_key og) (wm_db s) = None"
    and "i = ''wi_'' @ wm_uuid s (wm_drawn s + 1)" and "\<not> has_item (wm_db s) i"
    and "''wis_'' @ wm_uuid s (wm_drawn s + 2) \<notin> ss_id ` set (wt_subs (wm_db s))"
    and "open_item env req s = (res, s')" and "open_item env req s' = (res', s'')"
  shows "res = Inl WiStore \<and> res' = Inl (WiConversationOwned i) \<and>
    (\<exists>r \<in> set (wt_items (wm_db s')). wi_id r = i \<and> wi_state r = ''open'' \<and> has_running (rounds_of (wm_db s') i))"
proof -
  let ?ten = "trim (or_tenant_id req)" and ?now = "wm_clock s (wm_drawn s)"
  let ?turn = "first_turn req (wm_uuid s (wm_drawn s + 1))"
  let ?it = "new_item req ?turn ?now" and ?rd = "running_round ?turn ?now"
  let ?ow = "owner_row og (wm_uuid s (wm_drawn s + 2)) i ?ten ?now"
  have inv: "wi_inv env s" using assms(1,2) by (rule work_items.inv_reachable)
  then have items: "items_ok (wm_db s)" by (simp add: wi_inv_def tables_ok_def)
  have ids: "rt_item_id ?turn = i" "wi_id ?it = i" "rd_item_id ?rd = i" "wi_state ?it = ''open''" "rd_state ?rd = ''running''"
    by (simp_all add: first_turn_def new_item_def running_round_def assms(8))
  define t' where "t' = (superseded ?ten (io_source_key og) ?now (wm_db s))
    \<lparr>wt_items := wt_items (wm_db s) @ [?it], wt_rounds := wt_rounds (wm_db s) @ [?rd],
     wt_subs := wt_subs (superseded ?ten (io_source_key og) ?now (wm_db s)) @ [?ow]\<rparr>"
  have create: "create_work_item_with_owner ?it ?rd ?ow (wm_db s) = Some (Inr (), t')"
  proof -
    have new: "i \<notin> wi_id ` set (wt_items (wm_db s))" using assms(9) by (auto simp: has_item_def list_ex_iff)
    then have none: "rounds_of (wm_db s) i = []"
      using items unfolding items_ok_def rounds_of_def filter_empty_conv by (metis image_subset_iff)
    have free: "\<not> list_ex (live_owner ?ten (io_source_key og)) (wt_subs (superseded ?ten (io_source_key og) ?now (wm_db s)))"
      by (auto simp: superseded_def list_ex_iff live_owner_def)
    have fresh: "\<not> list_ex (\<lambda>x. ss_id x = ss_id ?ow) (wt_subs (superseded ?ten (io_source_key og) ?now (wm_db s)))"
      using assms(10) unfolding image_iff by (auto simp: superseded_def list_ex_iff owner_row_def)
    have "create_work_item ?it ?rd (superseded ?ten (io_source_key og) ?now (wm_db s)) =
        Some ((superseded ?ten (io_source_key og) ?now (wm_db s))
          \<lparr>wt_items := wt_items (wm_db s) @ [?it], wt_rounds := wt_rounds (wm_db s) @ [?rd]\<rparr>)"
      using assms(9) none ids
      by (auto simp: create_work_item_def insert_item_def insert_round_def superseded_def has_item_def list_ex_iff rounds_of_def filter_empty_conv)
    with free fresh assms(7) ids show ?thesis
      by (simp add: create_work_item_with_owner_def insert_subscription_def has_item_def t'_def owner_row_def)
  qed
  have run: "open_item env req s = (Inl WiStore, s\<lparr>wm_drawn := wm_drawn s + 3, wm_faults := [], wm_db := t'\<rparr>)"
    using create assms(3-6) ids(1)
    by (simp add: open_item_def then_op_def bind_op_def lift_op_def return_op_def wi_now_def wi_new_uuid_def open_owner_row_def
        store_item_def check_open_cap_def Let_def wi_call_def create_thread_def wi_read_def first_turn_def)
  have owned: "open_owner ?ten (io_source_key og) t' = Some i"
  proof -
    have "find P (xs @ [y]) = Some y" if "\<And>x. x \<in> set xs \<Longrightarrow> \<not> P x" "P y" for P and xs :: "subscription_row list" and y
      using that by (induction xs) auto
    moreover have "\<not> live_owner ?ten (io_source_key og) x" if "x \<in> set (wt_subs (superseded ?ten (io_source_key og) ?now (wm_db s)))" for x
      using that by (auto simp: superseded_def live_owner_def)
    moreover have "live_owner ?ten (io_source_key og) ?ow" "ss_item_id ?ow = i" by (simp_all add: owner_row_def live_owner_def)
    moreover have "wt_subs t' = wt_subs (superseded ?ten (io_source_key og) ?now (wm_db s)) @ [?ow]"
      "wt_items t' = wt_items (wm_db s) @ [?it]" by (simp_all add: t'_def)
    ultimately show ?thesis unfolding open_owner_def using ids by simp
  qed
  have "fst (open_item env req (s\<lparr>wm_drawn := wm_drawn s + 3, wm_faults := [], wm_db := t'\<rparr>)) = Inl (WiConversationOwned i)"
    using owned assms(3-5)
    by (simp add: open_item_def then_op_def bind_op_def lift_op_def return_op_def wi_now_def wi_new_uuid_def open_owner_row_def
        store_item_def check_open_cap_def Let_def wi_call_def fail_op_def first_turn_def create_work_item_with_owner_def owner_row_def)
  with run assms(11,12) have "res = Inl WiStore" "res' = Inl (WiConversationOwned i)" "wm_db s' = t'" by auto
  moreover have "?it \<in> set (wt_items t')" "has_running (rounds_of t' i)"
    using ids by (simp_all add: t'_def rounds_of_def has_running_def)
  ultimately show ?thesis using ids by blast
qed

definition faulty_env :: wi_env where
  "faulty_env = example_env\<lparr>en_config := \<lparr>wc_max_open_items = 0, wc_subscription_idle_days = 14, wc_max_rounds_per_hour = 2\<rparr>\<rparr>"

definition faulty_state :: wi_state where
  "faulty_state = example_state\<lparr>wm_faults := [False, True]\<rparr>"

lemma failed_thread_strands_item_witness:
  "fst (open_item faulty_env example_request faulty_state) = Inl WiStore \<and>
   fst (open_item faulty_env example_request (snd (open_item faulty_env example_request faulty_state))) = Inl (WiConversationOwned ''wi_1'')"
proof -
  let ?s' = "snd (open_item faulty_env example_request faulty_state)"
  have "check_open example_request = Inr ()"
  proof -
    have "case check_open example_request of Inr _ \<Rightarrow> True | Inl _ \<Rightarrow> False" by code_simp
    then show ?thesis by (simp split: sum.splits)
  qed
  moreover have "owning_origin example_request = Some example_origin"
    by (simp add: owning_origin_def example_request_def example_origin_def)
  moreover have "''wi_1'' = ''wi_'' @ wm_uuid faulty_state (wm_drawn faulty_state + 1)"
    by code_simp
  ultimately show ?thesis
    using failed_thread_strands_item [of faulty_state faulty_env faulty_state example_request example_origin "''wi_1''"
        "fst (open_item faulty_env example_request faulty_state)" ?s'
        "fst (open_item faulty_env example_request ?s')" "snd (open_item faulty_env example_request ?s')"]
    by (simp add: decimal.simps wi_start_def faulty_state_def faulty_env_def example_state_def example_tables_def has_item_def open_owner_def)
qed

section \<open>Rounds per hour\<close>

definition start_times :: "wi_tables \<Rightarrow> string \<Rightarrow> timestamp list" where
  "start_times t i = map rd_started_at (rounds_of t i)"

definition started_within :: "timestamp \<Rightarrow> timestamp list \<Rightarrow> nat" where
  "started_within u ts = length (filter (\<lambda>x. u \<le> x \<and> x < u + HOUR) ts)"

definition hourly_bound :: "nat \<Rightarrow> wi_tables \<Rightarrow> bool" where
  "hourly_bound cap t \<longleftrightarrow> (\<forall>i u. started_within u (start_times t i) \<le> cap)"

lemma started_within_simps [simp]:
  "started_within u [] = 0" "started_within u (ts @ [x]) = started_within u ts + (if u \<le> x \<and> x < u + HOUR then 1 else 0)"
  by (simp_all add: started_within_def)

lemma same_rounds_bound: "hourly_bound cap t \<Longrightarrow> wt_rounds t' = wt_rounds t \<Longrightarrow> hourly_bound cap t'"
  by (simp add: hourly_bound_def start_times_def rounds_of_def)

text \<open>A round that starts when fewer than the cap started in the hour before an earlier reading of the clock.\<close>

lemma window_has_room:
  assumes "j \<le> at" and "length (filter (\<lambda>x. j - HOUR \<le> x) ts) < cap" and "started_within u ts \<le> cap"
  shows "started_within u (ts @ [at]) \<le> cap"
proof (cases "u \<le> at \<and> at < u + HOUR")
  case True
  have "length (filter (\<lambda>x. u \<le> x \<and> x < u + HOUR) xs) \<le> length (filter (\<lambda>x. j - HOUR \<le> x) xs)" for xs
    using True assms(1) by (induction xs) auto
  from le_less_trans [OF this assms(2)] have "started_within u ts < cap" unfolding started_within_def .
  with True show ?thesis by simp
qed (use assms in auto)

lemma bound_appended:
  assumes "hourly_bound cap t" and "wt_rounds t' = wt_rounds t @ [rd]"
    and "\<And>u. started_within u (start_times t (rd_item_id rd) @ [rd_started_at rd]) \<le> cap"
  shows "hourly_bound cap t'"
  unfolding hourly_bound_def
proof (intro allI)
  fix i u
  have "start_times t' i = (if i = rd_item_id rd then start_times t i @ [rd_started_at rd] else start_times t i)"
    using assms(2) by (simp add: start_times_def rounds_of_def)
  with assms(1,3) show "started_within u (start_times t' i) \<le> cap" by (auto simp: hourly_bound_def)
qed

lemma created_bound:
  assumes "hourly_bound cap t" and "0 < cap" and "items_ok t" and "create_work_item it rd t = Some t'" and "rd_item_id rd = wi_id it"
  shows "hourly_bound cap t'"
proof (rule bound_appended [OF assms(1)])
  note c = create_changes [OF assms(4)]
  show "wt_rounds t' = wt_rounds t @ [rd]" by (simp add: c(1))
  have "rounds_of t (wi_id it) = []"
    using assms(3) c(2) unfolding items_ok_def rounds_of_def filter_empty_conv by (metis image_subset_iff)
  with assms(2,5) show "started_within u (start_times t (rd_item_id rd) @ [rd_started_at rd]) \<le> cap" for u
    using started_within_simps(2) [of u "[]"] by (simp add: start_times_def)
qed

lemma started_bound:
  assumes "hourly_bound cap (wm_db s)" and "items_ok (wm_db s)" and "mono (wm_clock s)" and "starts_next (wm_db s) r rd n clear"
    and "hour_free env s r (rd_started_at rd)" and "cap = wc_max_rounds_per_hour (en_config env)" and "0 < cap"
    and "start_work_item_round rd n clear (wm_db s) = Some (True, t')"
  shows "hourly_bound cap t'"
proof (rule bound_appended [OF assms(1)])
  note nx = assms(4) [unfolded starts_next_def]
  obtain q where "wt_rounds t' = wt_rounds (wm_db s) @ [rd]" by (rule start_changes [OF assms(2,8)])
  then show "wt_rounds t' = wt_rounds (wm_db s) @ [rd]" .
  from assms(5-7) obtain k j where k: "rd_started_at rd = wm_clock s k" "j < k"
    and count: "count_work_item_rounds_since (wi_tenant r) (wi_id r) (wm_clock s j - HOUR) (wm_db s) < cap"
    by (auto simp: hour_free_def)
  have "list_all (round_ok r) (rounds_of (wm_db s) (wi_id r))"
    using items_okD [OF assms(2)] nx by (auto simp: row_ok_def rounds_ok_def)
  then have "count_work_item_rounds_since (wi_tenant r) (wi_id r) since (wm_db s) =
      length (filter (\<lambda>x. since \<le> x) (start_times (wm_db s) (wi_id r)))" for since
    by (auto simp: count_work_item_rounds_since_def start_times_def filter_map comp_def list_all_iff round_ok_def intro!: arg_cong [of _ _ length] filter_cong)
  with count have "length (filter (\<lambda>x. wm_clock s j - HOUR \<le> x) (start_times (wm_db s) (wi_id r))) < cap" by simp
  moreover have "wm_clock s j \<le> rd_started_at rd" using assms(3) k by (simp add: monoD)
  ultimately show "started_within u (start_times (wm_db s) (rd_item_id rd) @ [rd_started_at rd]) \<le> cap" for u
    using window_has_room assms(1) nx by (simp add: hourly_bound_def del: started_within_simps)
qed

lemma leaf_bound:
  assumes "leaf env s s'" and "items_ok (wm_db s)" and "mono (wm_clock s)" and "hourly_bound cap (wm_db s)"
    and "cap = wc_max_rounds_per_hour (en_config env)" and "0 < cap"
  shows "hourly_bound cap (wm_db s') \<and> wm_clock s' = wm_clock s"
  using assms
proof (induction rule: leaf.induct)
  case (settled s s' sd ten i sq now b)
  let ?hit = "\<lambda>x. rd_tenant x = ten \<and> rd_item_id x = i \<and> rd_seq x = sq \<and> rd_state x = ''running''"
  have "wt_rounds (wm_db s') = map (\<lambda>x. if ?hit x then settled_round (settlement_of sd now) x else x) (wt_rounds (wm_db s)) \<or> wm_db s' = wm_db s"
    using arg_cong [OF settled(3), of "\<lambda>p. wt_rounds (snd p)"] settled(3)
    by (cases "list_ex ?hit (wt_rounds (wm_db s))") (simp_all add: settle_work_item_round_def Let_def)
  then have "start_times (wm_db s') j = start_times (wm_db s) j" for j
    using rounds_of_map [of "wm_db s'" "\<lambda>x. if ?hit x then settled_round (settlement_of sd now) x else x" "wm_db s"]
    by (auto simp: start_times_def settled_round_def)
  with settled show ?case by (simp add: hourly_bound_def only_db_def)
next
  case (started s s' r rd n clear)
  then show ?case using started_bound [of cap s r rd n clear env "wm_db s'"] by (simp add: only_db_def)
next
  case (input s s' n sq r)
  then show ?case using append_changes(2) [OF input(2)] by (auto simp: only_db_def intro: same_rounds_bound)
next
  case (finished s s' ten i reason at b)
  then have "wt_rounds (wm_db s') = wt_rounds (wm_db s)"
    by (cases b) (auto dest: end_changes(3), auto simp: end_work_item_finally_def Let_def split: if_splits)
  with finished show ?case by (auto simp: only_db_def intro: same_rounds_bound)
next
  case (reopened s s' ten i at b)
  have "wt_rounds (wm_db s') = wt_rounds (wm_db s)"
    using arg_cong [OF reopened(3), of "\<lambda>p. wt_rounds (snd p)"] by (simp add: reopen_work_item_def Let_def)
  with reopened show ?case by (auto simp: only_db_def intro: same_rounds_bound)
next
  case (created s s' it rd)
  then show ?case using created_bound [of cap "wm_db s" it rd] by (simp add: only_db_def fresh_item_def)
next
  case (owned s s' it rd ow taken)
  show ?case
  proof (cases "open_owner (ss_tenant ow) (ss_source_key ow) (wm_db s)")
    case (Some i)
    with owned show ?thesis by (simp add: create_work_item_with_owner_def only_db_def)
  next
    case None
    let ?t = "superseded (ss_tenant ow) (ss_source_key ow) (ss_created_at ow) (wm_db s)"
    from None owned(9) obtain t1 where t1: "create_work_item it rd ?t = Some t1" "insert_subscription ow t1 = Some (wm_db s')"
      by (auto simp: create_work_item_with_owner_def bind_eq_Some_conv)
    have rows: "wt_rounds ?t = wt_rounds (wm_db s)" "items_ok ?t"
      using owned(10) by (simp_all add: superseded_def items_ok_def rounds_of_def inputs_of_def)
    have "hourly_bound cap t1"
      by (rule created_bound [OF same_rounds_bound [OF owned(12) rows(1)] owned(14) rows(2) t1(1)])
        (use owned(2) in \<open>simp add: fresh_item_def\<close>)
    with insert_subscription_changes(1) [OF t1(2)] owned(1) show ?thesis by (auto simp: only_db_def intro: same_rounds_bound)
  qed
qed (auto simp: same_db_def only_db_def expire_idle_def touch_work_item_subscription_def intro: same_rounds_bound)

lemma leaves_bound:
  assumes "(leaf env)\<^sup>*\<^sup>* s s'" and "wi_good (item_cap env) (wm_db s)" and "mono (wm_clock s)" and "hourly_bound cap (wm_db s)"
    and "cap = wc_max_rounds_per_hour (en_config env)" and "0 < cap"
  shows "hourly_bound cap (wm_db s') \<and> wm_clock s' = wm_clock s \<and> wi_good (item_cap env) (wm_db s')"
  using assms
proof (induction rule: rtranclp_induct)
  case (step t u)
  then have "hourly_bound cap (wm_db t) \<and> wm_clock t = wm_clock s \<and> wi_good (item_cap env) (wm_db t)" by blast
  with step(2,5-) leaf_bound [OF step(2)] leaf_good [OF step(2)] step.prems show ?case by (auto simp: tables_ok_def)
qed simp

text \<open>
  C18. With an hourly cap configured and a clock that does not run backwards, no item ever starts more rounds than the cap
  within any hour, wherever the hour begins: the check under the writer lock counts the rounds that matter.
\<close>

theorem rounds_per_hour_bounded:
  assumes "wi_start s0" and "(wi_step env)\<^sup>*\<^sup>* s0 s" and "mono (wm_clock s0)" and "0 < wc_max_rounds_per_hour (en_config env)"
  shows "length (filter (\<lambda>x. u \<le> rd_started_at x \<and> rd_started_at x < u + HOUR) (rounds_of (wm_db s) i)) \<le> wc_max_rounds_per_hour (en_config env)"
proof -
  have inv: "wi_inv env s0" using assms(1) by (rule work_items.inv_start)
  have "hourly_bound (wc_max_rounds_per_hour (en_config env)) (wm_db s0)"
    using assms(1) by (simp add: wi_start_def hourly_bound_def start_times_def rounds_of_def)
  with leaves_bound [OF wi_steps_leaves [OF assms(2) inv] _ assms(3) _ refl assms(4)] inv
  have "hourly_bound (wc_max_rounds_per_hour (en_config env)) (wm_db s)" by (simp add: wi_inv_def)
  then have "started_within u (start_times (wm_db s) i) \<le> wc_max_rounds_per_hour (en_config env)" by (simp add: hourly_bound_def)
  then show ?thesis by (simp add: started_within_def start_times_def filter_map comp_def)
qed

lemma rounds_per_hour_bounded_witness:
  "length (filter (\<lambda>x. 0 \<le> rd_started_at x \<and> rd_started_at x < 0 + HOUR) (rounds_of (wm_db example_told) ''wi_1'')) \<le> 2"
proof -
  have "mono (wm_clock example_state)" "wc_max_rounds_per_hour (en_config example_env) = 2"
    by (simp_all add: example_state_def example_env_def mono_def)
  with rounds_per_hour_bounded [OF example_start example_told_step, of 0 "''wi_1''"] show ?thesis by simp
qed

section \<open>A message that a finished round leaves behind\<close>

lemma settle_round_exact:
  assumes "settle_round env turn out s = (Inr item, s')"
  obtains now where "settle_work_item_round (rt_tenant_id turn) (rt_item_id turn) (rt_seq turn)
    (settlement_of (outcome_settled (en_serde_message env) out) now) (wm_db s) = (True, wm_db s')"
proof -
  let ?st = "outcome_settled (en_serde_message env) out" and ?ten = "rt_tenant_id turn" and ?i = "rt_item_id turn"
  let ?call = "\<lambda>now. wi_call (\<lambda>t. Some (settle_work_item_round ?ten ?i (rt_seq turn) (settlement_of ?st now) t))"
  let ?fin = "bind_op (get_summary ?ten ?i) (\<lambda>after. then_op (settle_events after turn ?st) (return_op after))"
  have aside: "same_db u u'" if "?fin u = (Inr item, u')" for u u'
  proof -
    have "keeps (same_db u) ?fin" by (intro keeps_intros stable_same)
    from keepsD [OF this same_db_refl that] show ?thesis .
  qed
  have view: "same_db s s1" if "get_summary ?ten ?i s = (Inr before, s1)" for before s1
    using keepsD [OF keeps_summary [OF stable_same] same_db_refl that] .
  from assms obtain before s1 now s2 applied s3 where run: "get_summary ?ten ?i s = (Inr before, s1)" "wi_now s1 = (Inr now, s2)"
    "?call now s2 = (Inr applied, s3)" "(if \<not> applied then fail_op (WiRoundNotRunning (rt_request_id turn)) else ?fin) s3 = (Inr item, s')"
    unfolding settle_round_def Let_def by (elim bind_InrE) blast
  from run(4) have applied: applied "?fin s3 = (Inr item, s')" by (auto simp: fail_op_def split: if_splits)
  from run(3) obtain t where "settle_work_item_round ?ten ?i (rt_seq turn) (settlement_of ?st now) (wm_db s2) = (applied, t)" "wm_db s3 = t"
    by (auto elim: call_InrE)
  moreover have "wm_db s2 = wm_db s" using view [OF run(1)] now_same(1) [OF run(2)] by (simp add: same_db_def)
  moreover have "wm_db s' = wm_db s3" using aside [OF applied(2)] by (simp add: same_db_def)
  ultimately show ?thesis using that [of now] applied(1) by simp
qed

text \<open>
  C40. A message that waits because a round is running is not read when that round reports the work as ready or
  dropped: the item ends with the message still pending, and no round of it is due any more.
\<close>

theorem finished_round_leaves_message:
  assumes "wi_start s0" and "(wi_step env)\<^sup>*\<^sup>* s0 s" and "read_report (en_serde_message env) v = Inr rep"
    and "ends_with (rp_status rep) = Some er" and "settle_round env turn (Answered (Some v) tid) s = (Inr item, s')"
  shows "pending_inputs (wm_db s') (rt_item_id turn) = pending_inputs (wm_db s) (rt_item_id turn) \<and>
    (\<forall>r \<in> set (wt_items (wm_db s')). wi_id r = rt_item_id turn \<longrightarrow> wi_state r = ''ended'') \<and>
    (\<forall>ten ans s''. round_due env ten (rt_item_id turn) s' = (Inr ans, s'') \<longrightarrow> ans \<noteq> Inr ())"
proof -
  let ?i = "rt_item_id turn"
  have inv: "wi_inv env s" using assms(1,2) by (rule work_items.inv_reachable)
  then have ok: "items_ok (wm_db s)" by (simp add: wi_inv_def tables_ok_def)
  have inv': "wi_inv env s'" by (rule work_items.inv_step [OF wi_step.ws_settle [OF assms(5)] inv])
  then have ok': "items_ok (wm_db s')" by (simp add: wi_inv_def tables_ok_def)
  obtain now where set: "settle_work_item_round (rt_tenant_id turn) ?i (rt_seq turn)
    (settlement_of (outcome_settled (en_serde_message env) (Answered (Some v) tid)) now) (wm_db s) = (True, wm_db s')"
    by (rule settle_round_exact [OF assms(5)])
  have st: "st_item_state (settlement_of (outcome_settled (en_serde_message env) (Answered (Some v) tid)) now) = ''ended''"
    using assms(3,4) by (simp add: outcome_settled_def settlement_of_def)
  obtain r where r: "r \<in> set (wt_items (wm_db s))" "wi_id r = ?i"
    "wt_items (wm_db s') = map (\<lambda>q. if q = r then settled_item (settlement_of (outcome_settled (en_serde_message env) (Answered (Some v) tid)) now) q else q) (wt_items (wm_db s))"
    "wt_inputs (wm_db s') = wt_inputs (wm_db s)"
    by (rule settle_changes [OF ok set])
  have ended: "wi_state q = ''ended''" if q: "q \<in> set (wt_items (wm_db s'))" "wi_id q = ?i" for q
  proof -
    let ?q = "settled_item (settlement_of (outcome_settled (en_serde_message env) (Answered (Some v) tid)) now) r"
    have mem: "?q \<in> set (wt_items (wm_db s'))" using r(1) by (auto simp: r(3))
    have "q = ?q" using same_item [OF ok' q(1) mem] q(2) r(2) by (simp add: settled_item_fields)
    moreover have "state_ok r" using items_okD [OF ok r(1)] by (simp add: row_ok_def)
    ultimately show ?thesis using st by (auto simp: settled_item_def is_final_def state_ok_def)
  qed
  have "ans \<noteq> Inr ()" if due: "round_due env ten ?i s' = (Inr ans, s'')" for ten ans s''
  proof
    assume "ans = Inr ()"
    with due obtain p where "plan_round env ten ?i s' = (Inr (Inr p), s'')"
      unfolding round_due_def by (auto elim!: bind_InrE return_InrE split: sum.splits)
    from ok' this obtain q act where "get_work_item ten ?i (wm_db s') = Some (q, act)" "plan_spec env s' s'' q (Inr p)"
      by (rule plan_round_exact)
    then show False using ended get_work_itemD by (fastforce simp: plan_spec_def round_ready_def Let_def)
  qed
  with ended show ?thesis by (simp add: pending_inputs_def inputs_of_def r(4))
qed

definition example_waiting :: wi_state where
  "example_waiting = snd (add_input example_env ''ten'' ''wi_1'' InMessage True ''go'' ''d2'' example_opened)"

definition example_done :: json where
  "example_done = JObject [(''status'', JString ''ready''), (''summary'', JString ''ok'')]"

lemma example_waiting_step: "(wi_step example_env)\<^sup>*\<^sup>* example_state example_waiting"
proof (rule rtranclp.rtrancl_into_rtrancl [OF opened_reachable])
  show "wi_step example_env example_opened example_waiting"
    by (rule wi_step.ws_input [of _ "''ten''" "''wi_1''" InMessage True "''go''" "''d2''" _
        "fst (add_input example_env ''ten'' ''wi_1'' InMessage True ''go'' ''d2'' example_opened)"])
      (simp add: example_waiting_def)
qed

lemma finished_round_leaves_message_witness:
  "\<exists>item s'. settle_round example_env (first_turn example_request ''1'') (Answered (Some example_done) None) example_waiting = (Inr item, s') \<and>
     map in_body (pending_inputs (wm_db s') ''wi_1'') = [''go''] \<and> (\<forall>r \<in> set (wt_items (wm_db s')). wi_id r = ''wi_1'' \<longrightarrow> wi_state r = ''ended'')"
proof -
  let ?run = "settle_round example_env (first_turn example_request ''1'') (Answered (Some example_done) None) example_waiting"
  have "case read_report (en_serde_message example_env) example_done of Inl _ \<Rightarrow> False | Inr rep \<Rightarrow> rp_status rep = Ready" by code_simp
  then obtain rep where rep: "read_report (en_serde_message example_env) example_done = Inr rep" "ends_with (rp_status rep) = Some EndCompleted"
    by (cases "read_report (en_serde_message example_env) example_done") auto
  have "case fst ?run of Inl _ \<Rightarrow> False | Inr _ \<Rightarrow> True" by code_simp
  then obtain item s' where run: "?run = (Inr item, s')" by (cases ?run; cases "fst ?run") auto
  have "map in_body (pending_inputs (wm_db example_waiting) ''wi_1'') = [''go'']" by code_simp
  moreover have "rt_item_id (first_turn example_request ''1'') = ''wi_1''" by (simp add: first_turn_def)
  ultimately show ?thesis
    using finished_round_leaves_message [OF example_start example_waiting_step rep run] run by auto
qed

end
