(* ===== verification/Work_Item_Wakes.thy ===== *)
theory Work_Item_Wakes
  imports Work_Item_Properties
begin

text \<open>
  The threads that run rounds (crates/domains/workitems/src/driver.rs and im.rs) beside the tables they work on. Rounds are
  driven by whoever woke the item, and a wake that finds a round running leaves its input to the driver of that round.
  The theorem is that this loses no wake.
\<close>

section \<open>What a statement can make due\<close>

text \<open>Between two states of the tables no item became due but those in the set.\<close>

definition wakes :: "string set \<Rightarrow> wi_tables \<Rightarrow> wi_tables \<Rightarrow> bool" where
  "wakes K t t' \<longleftrightarrow>
     (\<forall>r' \<in> set (wt_items t'). round_ready t' r' \<longrightarrow> wi_id r' \<in> K \<or> (\<exists>r \<in> set (wt_items t). wi_id r = wi_id r' \<and> round_ready t r))"

lemma wakes_refl [simp]: "wakes K t t"
  by (auto simp: wakes_def)

lemma wakes_trans: "wakes K a b \<Longrightarrow> wakes K b c \<Longrightarrow> wakes K a c"
  unfolding wakes_def by (metis (no_types, lifting))

lemma ready_same:
  "wt_rounds t' = wt_rounds t \<Longrightarrow> wt_inputs t' = wt_inputs t \<Longrightarrow> round_ready t' r = round_ready t r"
  by (simp add: round_ready_def waits_for_person_def pending_inputs_def rounds_of_def inputs_of_def)

lemma wakes_aside:
  "wt_items t' = wt_items t \<Longrightarrow> wt_rounds t' = wt_rounds t \<Longrightarrow> wt_inputs t' = wt_inputs t \<Longrightarrow> wakes K t t'"
  by (auto simp: wakes_def ready_same [of t' t])

text \<open>Rows of one item change: every other item is due as before.\<close>

lemma ready_other:
  assumes "rounds_of t' (wi_id r) = rounds_of t (wi_id r)" and "inputs_of t' (wi_id r) = inputs_of t (wi_id r)"
  shows "round_ready t' r = round_ready t r"
  using assms by (simp add: round_ready_def waits_for_person_def pending_inputs_def)

lemma wakes_one:
  assumes "\<And>j. j \<noteq> i \<Longrightarrow> rounds_of t' j = rounds_of t j" and "\<And>j. j \<noteq> i \<Longrightarrow> inputs_of t' j = inputs_of t j"
    and "\<And>r. r \<in> set (wt_items t') \<Longrightarrow> wi_id r \<noteq> i \<Longrightarrow> r \<in> set (wt_items t)"
  shows "wakes {i} t t'"
  unfolding wakes_def using assms ready_other [of t' _ t] by fastforce

lemma wakes_quiet:
  assumes "wakes {i} t t'" and "has_running (rounds_of t' i)"
  shows "wakes {} t t'"
  using assms unfolding wakes_def round_ready_def by blast

lemma settle_wakes:
  assumes "settle_work_item_round ten i sq st t = (b, t')"
  shows "wakes {i} t t'"
proof (cases "t' = t")
  case False
  let ?hit = "\<lambda>r. rd_tenant r = ten \<and> rd_item_id r = i \<and> rd_seq r = sq \<and> rd_state r = ''running''"
  have t': "t' = t\<lparr>wt_rounds := map (\<lambda>r. if ?hit r then settled_round st r else r) (wt_rounds t),
       wt_items := map (\<lambda>r. if wi_tenant r = ten \<and> wi_id r = i then settled_item st r else r) (wt_items t)\<rparr>"
    using assms False by (auto simp: settle_work_item_round_def Let_def split: if_splits)
  show ?thesis
  proof (rule wakes_one)
    fix j
    assume "j \<noteq> i"
    have "rounds_of t' j = map (\<lambda>r. if ?hit r then settled_round st r else r) (rounds_of t j)"
      by (rule rounds_of_map) (simp_all add: t' settled_round_def)
    also have "\<dots> = rounds_of t j" using \<open>j \<noteq> i\<close> by (intro map_idI) (auto simp: rounds_of_def)
    finally show "rounds_of t' j = rounds_of t j" .
  qed (auto simp: t' inputs_of_def settled_item_fields split: if_splits)
qed simp

lemma end_wakes: "end_work_item_finally ten i reason at t = Some (b, t') \<Longrightarrow> wakes {} t t'"
proof (cases b)
  case False
  moreover assume "end_work_item_finally ten i reason at t = Some (b, t')"
  ultimately show ?thesis by (auto simp: end_work_item_finally_def Let_def split: if_splits)
next
  case True
  moreover assume "end_work_item_finally ten i reason at t = Some (b, t')"
  ultimately have "end_work_item_finally ten i reason at t = Some (True, t')" by simp
  note t' = end_changes [OF this]
  have "r \<in> set (wt_items t)" if "r \<in> set (wt_items t')" "round_ready t' r" for r
    using that by (auto simp: t'(2) round_ready_def split: if_splits)
  then show ?thesis using ready_same [OF t'(3,4)] unfolding wakes_def by blast
qed

lemma reopen_wakes:
  assumes "reopen_work_item ten i at t = (b, t')"
  shows "wakes {i} t t'" and "\<not> b \<Longrightarrow> wakes {} t t'"
proof -
  let ?hit = "\<lambda>r. wi_tenant r = ten \<and> wi_id r = i \<and> wi_state r = ''ended'' \<and> (wi_end_reason r = Some ''completed'' \<or> wi_end_reason r = Some ''dropped'')"
  have t': "t' = t\<lparr>wt_items := map (\<lambda>r. if ?hit r then r\<lparr>wi_state := ''open'', wi_end_reason := None, wi_updated_at := at\<rparr> else r) (wt_items t)\<rparr>"
    and b: "b = list_ex ?hit (wt_items t)"
    using assms by (simp_all add: reopen_work_item_def Let_def)
  show "wakes {i} t t'" by (rule wakes_one) (auto simp: t' rounds_of_def inputs_of_def split: if_splits)
  show "wakes {} t t'" if "\<not> b"
  proof -
    have "wt_items t' = wt_items t" using that unfolding t' b by (auto simp: list_ex_iff intro!: map_idI)
    then show ?thesis by (rule wakes_aside) (simp_all add: t')
  qed
qed

lemma append_wakes: "append_work_item_input n t = Some (sq, t') \<Longrightarrow> wakes {in_item_id n} t t'"
  by (drule append_changes(2)) (auto intro!: wakes_one simp: rounds_of_def inputs_of_def)

lemma start_wakes:
  assumes "start_work_item_round rd n clear t = Some (b, t')" and "rd_state rd = ''running''"
  shows "wakes {} t t'"
proof (cases b)
  case False
  with assms show ?thesis by (auto simp: start_work_item_round_def Let_def split: if_splits)
next
  case True
  let ?hit = "\<lambda>r. wi_tenant r = rd_tenant rd \<and> wi_id r = rd_item_id rd \<and> wi_state r = ''open'' \<and> wi_seq r + 1 = rd_seq rd \<and>
     \<not> list_ex (\<lambda>x. rd_state x = ''running'') (rounds_of t (rd_item_id rd))"
  have t': "t' = t\<lparr>wt_items := map (\<lambda>r. if ?hit r then started_item rd clear r else r) (wt_items t),
      wt_inputs := map (consumed_input rd n) (wt_inputs t), wt_rounds := wt_rounds t @ [rd]\<rparr>"
    using assms(1) True by (auto simp: start_work_item_round_def Let_def insert_round_def split: if_splits)
  show ?thesis
  proof (rule wakes_quiet [OF wakes_one])
    show "inputs_of t' j = inputs_of t j" if "j \<noteq> rd_item_id rd" for j
    proof -
      have "inputs_of t' j = map (consumed_input rd n) (inputs_of t j)" by (rule inputs_of_map) (simp_all add: t')
      also have "\<dots> = inputs_of t j" using that by (intro map_idI) (auto simp: inputs_of_def consumed_input_def)
      finally show ?thesis .
    qed
  qed (use assms(2) in \<open>auto simp: t' rounds_of_def has_running_def split: if_splits\<close>)
qed

lemma create_wakes:
  assumes "create_work_item it rd t = Some t'" and "rd_item_id rd = wi_id it" "rd_state rd = ''running''"
  shows "wakes {} t t'"
  by (rule wakes_quiet [OF wakes_one [of "wi_id it"]])
    (use assms in \<open>auto dest!: create_changes(1) simp: rounds_of_def inputs_of_def has_running_def\<close>)

lemma create_owned_wakes:
  assumes "create_work_item_with_owner it rd ow t = Some (x, t')" and "rd_item_id rd = wi_id it" "rd_state rd = ''running''"
  shows "wakes {} t t'"
proof (cases "open_owner (ss_tenant ow) (ss_source_key ow) t")
  case (Some i)
  with assms(1) show ?thesis by (simp add: create_work_item_with_owner_def)
next
  case None
  let ?t = "superseded (ss_tenant ow) (ss_source_key ow) (ss_created_at ow) t"
  from None assms(1) obtain t1 where t1: "create_work_item it rd ?t = Some t1" "insert_subscription ow t1 = Some t'"
    by (auto simp: create_work_item_with_owner_def bind_eq_Some_conv)
  have "wakes {} t ?t" by (rule wakes_aside) (simp_all add: superseded_def)
  from wakes_trans [OF this create_wakes [OF t1(1) assms(2,3)]] have "wakes {} t t1" .
  moreover have "wakes {} t1 t'" by (rule wakes_aside) (simp_all add: insert_subscription_changes(1) [OF t1(2)])
  ultimately show ?thesis by (rule wakes_trans)
qed

section \<open>What an operation can make due\<close>

definition woke :: "string set \<Rightarrow> wi_tables \<Rightarrow> wi_state \<Rightarrow> bool" where
  "woke K t s \<longleftrightarrow> wakes K t (wm_db s)"

lemma stable_woke: "stable (woke K t)"
  by (simp add: stable_def woke_def same_db_def)

lemma keeps_call_woke:
  assumes "\<And>t x t'. f t = Some (x, t') \<Longrightarrow> wakes K t t'"
  shows "keeps (woke K t0) (wi_call f)"
proof (rule keepsI)
  fix s
  assume s: "woke K t0 s"
  obtain r s' where run: "wi_call f s = (r, s')" by fastforce
  have "woke K t0 s'"
  proof (cases r)
    case (Inl e)
    with run call_same_or_db [of f s e s'] s show ?thesis by (simp add: woke_def same_db_def)
  next
    case (Inr x)
    with run obtain t where "f (wm_db s) = Some (x, t)" "s' = s\<lparr>wm_faults := tl (wm_faults s), wm_db := t\<rparr>" by (auto elim: call_InrE)
    with assms s show ?thesis by (auto simp: woke_def intro: wakes_trans)
  qed
  with run show "woke K t0 (snd (wi_call f s))" by simp
qed

lemma keeps_write_woke:
  "(\<And>t t'. f t = Some t' \<Longrightarrow> wakes K t t') \<Longrightarrow> keeps (woke K t0) (wi_write f)"
  unfolding wi_write_def by (rule keeps_call_woke) auto

lemma runs_wake:
  assumes "keeps (woke K (wm_db s)) m" and "m s = (r, s')"
  shows "wakes K (wm_db s) (wm_db s')"
  using keepsD [OF assms(1) _ assms(2)] by (simp add: woke_def)

lemma settle_woke: "keeps (woke {rt_item_id turn} t0) (settle_round env turn out)"
  unfolding settle_round_def Let_def
  by (intro keeps_intros stable_woke keeps_call_woke) (use settle_wakes in auto)

lemma stop_woke: "keeps (woke {} t0) (stop_item env ten i)"
  unfolding stop_item_def Let_def by (intro keeps_intros stable_woke keeps_call_woke) (use end_wakes in auto)

lemma revoke_woke: "keeps (woke {} t0) (revoke_item item reason)"
  unfolding revoke_item_def by (intro keeps_intros stable_woke keeps_call_woke) (use end_wakes in auto)

lemma reopen_woke: "keeps (woke {wk_id item} t0) (reopen_item env item)"
  unfolding reopen_item_def Let_def by (intro keeps_intros stable_woke keeps_call_woke) (use reopen_wakes(1) in auto)

lemma find_owner_woke: "keeps (woke {} t0) (find_owner env ten src)"
  unfolding find_owner_def
  by (intro keeps_intros stable_woke keeps_write_woke wakes_aside) (auto simp: expire_idle_def)

lemma touch_woke: "keeps (woke {} t0) (wi_write (\<lambda>t. Some (touch_work_item_subscription ten sid at t)))"
  by (intro keeps_write_woke wakes_aside) (auto simp: touch_work_item_subscription_def)

lemma create_thread_woke: "keeps (woke {} t0) (create_thread env ten thread now)"
  unfolding create_thread_def Let_def by (intro keeps_intros stable_woke keeps_write_woke wakes_aside) auto

lemma store_item_woke:
  assumes "rd_item_id rd = wi_id it" "rd_state rd = ''running''"
  shows "keeps (woke {} t0) (store_item env it rd owner now)"
proof -
  have "keeps (woke {} t0) (wi_write (create_work_item it rd))" by (rule keeps_write_woke) (rule create_wakes [OF _ assms])
  moreover have "keeps (woke {} t0) (wi_call (create_work_item_with_owner it rd ow))" for ow
    by (rule keeps_call_woke) (rule create_owned_wakes [OF _ assms])
  moreover have "keeps (woke {} t0) (check_open_cap env (wi_tenant it))"
    unfolding check_open_cap_def Let_def by (intro keeps_intros stable_woke)
  ultimately show ?thesis
    unfolding store_item_def
    by (cases owner) (auto intro!: keeps_bind keeps_then keeps_fail create_thread_woke split: sum.split)
qed

lemma open_woke: "keeps (woke {} t0) (open_item env req)"
proof -
  have "keeps (woke {} t0) (open_owner_row req i now)" for i now
    unfolding open_owner_row_def by (intro keeps_intros stable_woke)
  then show ?thesis
    unfolding open_item_def Let_def
    by (intro keeps_intros stable_woke store_item_woke) (simp_all add: running_round_def new_item_def)
qed

lemma summary_woke: "keeps (woke {} t0) (get_summary ten i)"
  by (rule keeps_summary [OF stable_woke])

section \<open>Threads\<close>

text \<open>
  A thread that handles a message has passed the gate and is about to record the input, has recorded it, or drives
  rounds of the item. A first round that is refused admission is recorded as failed by its thread.
\<close>

datatype worker = Waking | Recorded | Driving driver

type_synonym wake_world = "wi_state \<times> (string \<times> string \<times> worker) list \<times> string set"

definition refuse_first :: "wi_env \<Rightarrow> round_turn \<Rightarrow> string \<Rightarrow> wi_state \<Rightarrow> wi_state" where
  "refuse_first env turn code s = snd (settle_round env turn (Failed code None) s)"

text \<open>Where a driver stands next, unless it is done, and whether it stopped although a round might have been due.\<close>

definition go_on :: "string \<Rightarrow> string \<Rightarrow> driver \<Rightarrow> (string \<times> string \<times> worker) list" where
  "go_on ten i d = (case d of DriverDone _ \<Rightarrow> [] | _ \<Rightarrow> [(ten, i, Driving d)])"

definition gave_up :: "bool \<Rightarrow> driver \<Rightarrow> bool" where
  "gave_up store_failed d = (case d of DriverDone (Some _) \<Rightarrow> True | DriverDone None \<Rightarrow> store_failed | _ \<Rightarrow> False)"

definition store_failed :: "'e + 'a \<Rightarrow> bool" where
  "store_failed r = (case r of Inl _ \<Rightarrow> True | Inr _ \<Rightarrow> False)"

text \<open>
  The tables, the threads with the item each works on, and the items on which a thread gave up: admission refused it,
  the hourly cap stopped it, or the store failed.
\<close>

inductive wake_step :: "wi_env \<Rightarrow> wake_world \<Rightarrow> wake_world \<Rightarrow> bool" for env where
  wk_opened: "open_item env req s = (Inr (view, turn), s') \<Longrightarrow>
    wake_step env (s, ts, g) (s', (rt_tenant_id turn, rt_item_id turn, Driving (InRound turn)) # ts, g)"
| wk_not_opened: "open_item env req s = (Inl e, s') \<Longrightarrow> wake_step env (s, ts, g) (s', ts, g)"
| wk_refused: "rt_seq turn = 1 \<Longrightarrow> refuse_first env turn code s = s' \<Longrightarrow>
    wake_step env (s, xs @ (ten, i, Driving (InRound turn)) # ys, g) (s', xs @ ys, insert i g)"
| wk_gate: "wake_step env (s, ts, g) (s, (ten, i, Waking) # ts, g)"
| wk_reopened: "reopen_item env item s = (Inr True, s') \<Longrightarrow>
    wake_step env (s, ts, g) (s', (wk_tenant item, wk_id item, Waking) # ts, g)"
| wk_not_reopened: "reopen_item env item s = (r, s') \<Longrightarrow> r \<noteq> Inr True \<Longrightarrow> wake_step env (s, ts, g) (s', ts, g)"
| wk_queued: "add_input env ten i kind person body ref s = (Inr (sq, QueuedInput), s') \<Longrightarrow>
    wake_step env (s, xs @ (ten, i, Waking) # ys, g) (s', xs @ (ten, i, Recorded) # ys, g)"
| wk_steered: "add_input env ten i kind person body ref s = (Inr (sq, SteeredTo k), s') \<Longrightarrow>
    wake_step env (s, xs @ (ten, i, Waking) # ys, g) (s', xs @ ys, g)"
| wk_not_recorded: "add_input env ten i kind person body ref s = (Inl e, s') \<Longrightarrow>
    wake_step env (s, xs @ (ten, i, Waking) # ys, g) (s', xs @ ys, insert i g)"
| wk_woken: "get_summary ten i s = (Inr v, s') \<Longrightarrow>
    wake_step env (s, xs @ (ten, i, Recorded) # ys, g) (s', xs @ (ten, i, Driving Looking) # ys, g)"
| wk_not_woken: "get_summary ten i s = (Inl e, s') \<Longrightarrow> wake_step env (s, xs @ (ten, i, Recorded) # ys, g) (s', xs @ ys, insert i g)"
| wk_look: "drive_look env ten i s = (d, s') \<Longrightarrow>
    wake_step env (s, xs @ (ten, i, Driving Looking) # ys, g)
      (s', xs @ go_on ten i d @ ys, if gave_up (store_failed (fst (round_due env ten i s))) d then insert i g else g)"
| wk_admit: "drive_admit admitted = d \<Longrightarrow>
    wake_step env (s, xs @ (ten, i, Driving Admitting) # ys, g) (s, xs @ go_on ten i d @ ys, if gave_up False d then insert i g else g)"
| wk_start: "drive_start env ten i s = (d, s') \<Longrightarrow>
    wake_step env (s, xs @ (ten, i, Driving Starting) # ys, g)
      (s', xs @ go_on ten i d @ ys, if gave_up (store_failed (fst (start_round env ten i s))) d then insert i g else g)"
| wk_round: "run_round env run turn s = (dr, s') \<Longrightarrow>
    wake_step env (s, xs @ (ten, i, Driving (InRound turn)) # ys, g) (s', xs @ (ten, i, Driving Looking) # ys, g)"
| wk_stop: "stop_item env ten i s = (r1, s') \<Longrightarrow> wake_step env (s, ts, g) (s', ts, g)"
| wk_revoke: "revoke_item item reason s = (r2, s') \<Longrightarrow> wake_step env (s, ts, g) (s', ts, g)"
| wk_owner: "find_owner env ten src s = (r3, s') \<Longrightarrow> wake_step env (s, ts, g) (s', ts, g)"
| wk_touch: "wi_write (\<lambda>t. Some (touch_work_item_subscription ten sid at t)) s = (r4, s') \<Longrightarrow> wake_step env (s, ts, g) (s', ts, g)"
| wk_register: "wake_step env (s, ts, g) (register_turn_origin og s, ts, g)"
| wk_unregister: "wake_step env (s, ts, g) (unregister_turn_origin ten run s, ts, g)"
| wk_elsewhere: "wake_step env (s, ts, g) (s\<lparr>wm_db := (wm_db s)\<lparr>wt_threads := ths, wt_segments := sgs, wt_policies := ps, wt_members := ms\<rparr>\<rparr>, ts, g)"
| wk_faults: "wake_step env (s, ts, g) (s\<lparr>wm_faults := fs\<rparr>, ts, g)"

definition tended :: "(string \<times> string \<times> worker) list \<Rightarrow> string set \<Rightarrow> string \<Rightarrow> bool" where
  "tended ts g i \<longleftrightarrow> i \<in> g \<or> (\<exists>ten w. (ten, i, w) \<in> set ts)"

definition thread_ok :: "string \<times> string \<times> worker \<Rightarrow> bool" where
  "thread_ok th \<longleftrightarrow> (\<forall>ten i w. th = (ten, i, w) \<longrightarrow>
     (\<forall>turn. w = Driving (InRound turn) \<longrightarrow> rt_item_id turn = i) \<and> (\<forall>st. w \<noteq> Driving (DriverDone st)))"

definition wake_inv :: "wi_env \<Rightarrow> wake_world \<Rightarrow> bool" where
  "wake_inv env w \<longleftrightarrow> (case w of (s, ts, g) \<Rightarrow>
     wi_inv env s \<and> list_all thread_ok ts \<and> (\<forall>r \<in> set (wt_items (wm_db s)). round_ready (wm_db s) r \<longrightarrow> tended ts g (wi_id r)))"

lemma wake_invI:
  assumes "wake_inv env (s, ts, g)" and "wi_inv env s'" and "wakes K (wm_db s) (wm_db s')" and "list_all thread_ok ts'"
    and "\<And>i. i \<in> K \<Longrightarrow> tended ts' g' i" and "\<And>i. tended ts g i \<Longrightarrow> tended ts' g' i"
  shows "wake_inv env (s', ts', g')"
  using assms unfolding wake_inv_def wakes_def by fastforce

lemma tended_simps [simp]:
  "tended (xs @ ys) g i \<longleftrightarrow> tended xs g i \<or> tended ys g i" "tended (th # ts) g i \<longleftrightarrow> fst (snd th) = i \<or> tended ts g i"
  "tended [] g i \<longleftrightarrow> i \<in> g"
  by (auto simp: tended_def) (metis prod.collapse)+

lemma tended_more: "tended ts g i \<Longrightarrow> g \<subseteq> g' \<Longrightarrow> tended ts g' i"
  by (auto simp: tended_def)

text \<open>A thread leaves without giving up only when no round of its item is due.\<close>

lemma wake_inv_done:
  assumes inv: "wake_inv env (s, xs @ (ten, i, w) # ys, g)" and same: "wm_db s' = wm_db s"
    and idle: "\<And>r. r \<in> set (wt_items (wm_db s)) \<Longrightarrow> wi_id r = i \<Longrightarrow> \<not> round_ready (wm_db s) r"
  shows "wake_inv env (s', xs @ ys, g)"
proof -
  have "tended (xs @ ys) g (wi_id r)" if "r \<in> set (wt_items (wm_db s))" "round_ready (wm_db s) r" for r
    using inv that idle [of r] by (auto simp: wake_inv_def)
  with inv same show ?thesis by (simp add: wake_inv_def wi_inv_def)
qed

lemma not_due:
  assumes "items_ok (wm_db s)" and "get_work_item ten i (wm_db s) = Some (r, act)" and "plan_spec env s s' r (Inl no)"
    and "\<And>n. no \<noteq> HourlyCap n"
  shows "\<And>q. q \<in> set (wt_items (wm_db s)) \<Longrightarrow> wi_id q = i \<Longrightarrow> \<not> round_ready (wm_db s) q"
proof -
  fix q
  assume q: "q \<in> set (wt_items (wm_db s))" "wi_id q = i"
  note r = get_work_itemD [OF assms(2)]
  have "q = r" using same_item [OF assms(1) q(1) r(1)] q(2) r(3) by simp
  moreover have "\<not> round_ready (wm_db s) r"
    using assms(3,4) by (cases no) (auto simp: plan_spec_def Let_def)
  ultimately show "\<not> round_ready (wm_db s) q" by simp
qed

lemma look_cases:
  assumes ok: "items_ok (wm_db s)" and run: "drive_look env ten i s = (d, s')"
  obtains (due) "same_db s s'" "d = Admitting"
  | (up) "same_db s s'" "gave_up (store_failed (fst (round_due env ten i s))) d" "go_on ten i d = []"
  | (idle) "same_db s s'" "go_on ten i d = []" "\<not> gave_up (store_failed (fst (round_due env ten i s))) d"
      "\<forall>q \<in> set (wt_items (wm_db s)). wi_id q = i \<longrightarrow> \<not> round_ready (wm_db s) q"
proof -
  obtain res u where due: "round_due env ten i s = (res, u)" by fastforce
  with run have s': "s' = u" by (auto simp: drive_look_def split: sum.splits)
  have same: "same_db s s'" using keepsD [OF keeps_due [OF stable_same] same_db_refl due] s' by simp
  show ?thesis
  proof (cases res)
    case (Inl e)
    with due run same up show ?thesis by (auto simp: drive_look_def gave_up_def store_failed_def go_on_def)
  next
    case (Inr ans)
    show ?thesis
    proof (cases ans)
      case no: (Inl no)
      from due Inr no obtain plan where "plan_round env ten i s = (Inr plan, s')" "(case plan of Inl no \<Rightarrow> Inl no | Inr _ \<Rightarrow> Inr ()) = Inl no"
        unfolding round_due_def s' by (auto elim!: bind_InrE return_InrE)
      then have plan: "plan_round env ten i s = (Inr (Inl no), s')" by (cases plan) auto
      obtain r act where found: "get_work_item ten i (wm_db s) = Some (r, act)" "plan_spec env s s' r (Inl no)"
        by (rule plan_round_exact [OF ok plan])
      show ?thesis
      proof (cases "\<exists>n. no = HourlyCap n")
        case True
        with due Inr no run same up show ?thesis by (auto simp: drive_look_def gave_up_def store_failed_def go_on_def)
      next
        case False
        with due Inr no run have "d = DriverDone None" by (auto simp: drive_look_def split: no_round.splits)
        with due Inr same idle not_due [OF ok found] False show ?thesis by (auto simp: gave_up_def store_failed_def go_on_def)
      qed
    next
      case (Inr x)
      with due \<open>res = Inr ans\<close> run same show ?thesis using that(1) by (auto simp: drive_look_def)
    qed
  qed
qed

lemma start_cases:
  assumes inv: "wi_inv env s" and run: "drive_start env ten i s = (d, s')"
  obtains (started) turn where "d = InRound turn" "rt_item_id turn = i" "wakes {} (wm_db s) (wm_db s')"
  | (up) "same_db s s'" "gave_up (store_failed (fst (start_round env ten i s))) d" "go_on ten i d = []"
  | (idle) "same_db s s'" "go_on ten i d = []" "\<not> gave_up (store_failed (fst (start_round env ten i s))) d"
      "\<forall>q \<in> set (wt_items (wm_db s)). wi_id q = i \<longrightarrow> \<not> round_ready (wm_db s) q"
proof -
  have ok: "items_ok (wm_db s)" and grown: "grown env s s" using inv by (simp_all add: wi_inv_def tables_ok_def grown_def)
  obtain res u where start: "start_round env ten i s = (res, u)" by fastforce
  with run have s': "s' = u" by (auto simp: drive_start_def split: sum.splits)
  note start = start [folded s']
  show ?thesis
  proof (cases res)
    case (Inl e)
    with start start_round_error have "same_db s s'" by blast
    with Inl start run up show ?thesis by (auto simp: drive_start_def gave_up_def store_failed_def go_on_def)
  next
    case (Inr ans)
    show ?thesis
    proof (cases ans)
      case no: (Inl no)
      from start Inr no have start': "start_round env ten i s = (Inr (Inl no), s')" by simp
      then obtain r act where found: "get_work_item ten i (wm_db s) = Some (r, act)" "plan_spec env s s' r (Inl no)" and same: "same_db s s'"
        by (cases rule: start_round_exact [OF ok]) auto
      show ?thesis
      proof (cases "\<exists>n. no = HourlyCap n")
        case True
        with start' run same up show ?thesis by (auto simp: drive_start_def gave_up_def store_failed_def go_on_def)
      next
        case False
        with start' run have "d = DriverDone None" by (auto simp: drive_start_def split: no_round.splits)
        with start' same idle not_due [OF ok found] False show ?thesis by (auto simp: gave_up_def store_failed_def go_on_def)
      qed
    next
      case yes: (Inr turn)
      from start Inr yes have start': "start_round env ten i s = (Inr (Inr turn), s')" by simp
      from grown start' obtain m r rd n clear where m: "same_db s m" "get_work_item ten i (wm_db s) = Some (r, item_activity_of (wm_db s) i)"
        "starts_next (wm_db m) r rd n clear" "start_work_item_round rd n clear (wm_db m) = Some (True, wm_db s')" "rt_item_id turn = wi_id r"
        by (rule start_leaves)
      have "wakes {} (wm_db m) (wm_db s')" by (rule start_wakes [OF m(4)]) (use m(3) in \<open>simp add: starts_next_def\<close>)
      with m get_work_itemD [OF m(2)] have "wakes {} (wm_db s) (wm_db s')" "rt_item_id turn = i" by (simp_all add: same_db_def)
      with start' run that(1) show ?thesis by (auto simp: drive_start_def)
    qed
  qed
qed

lemma steered_not_due:
  assumes "items_ok (wm_db s)" and "add_input env ten i kind person body ref s = (Inr (sq, SteeredTo k), s')"
  shows "\<And>q. wi_id q = i \<Longrightarrow> \<not> round_ready (wm_db s') q" and "wakes {i} (wm_db s) (wm_db s')"
proof -
  from assms(2) obtain r act m now where a: "get_work_item ten i (wm_db s) = Some (r, act)" "same_db s m"
      "SteeredTo k = steer_path env ten i \<lparr>qi_kind = input_kind_str kind, qi_from_requester = person, qi_body = trim body\<rparr> r act"
      "append_work_item_input (input_row_for r kind person (trim body) (trim ref) (SteeredTo k) now) (wm_db m) = Some (sq, wm_db s')"
    by (rule add_input_exact)
  from a(3) have "ia_last_round_state act = Some ''running''" by (auto simp: steer_path_def split: if_splits)
  with running_activity [OF assms(1) a(1)] have "has_running (rounds_of (wm_db s) i)" by simp
  with append_changes(2) [OF a(4)] a(2) have "has_running (rounds_of (wm_db s') i)" by (simp add: same_db_def rounds_of_def)
  then show "\<And>q. wi_id q = i \<Longrightarrow> \<not> round_ready (wm_db s') q" by (auto simp: round_ready_def)
  show "wakes {i} (wm_db s) (wm_db s')"
    using append_wakes [OF a(4)] get_work_itemD [OF a(1)] a(2) by (simp add: same_db_def input_row_for_def)
qed

lemma queued_wakes:
  assumes "add_input env ten i kind person body ref s = (Inr (sq, path), s')"
  shows "wakes {i} (wm_db s) (wm_db s')"
proof -
  from assms obtain r act m now where a: "get_work_item ten i (wm_db s) = Some (r, act)" "same_db s m"
      "append_work_item_input (input_row_for r kind person (trim body) (trim ref) path now) (wm_db m) = Some (sq, wm_db s')"
    by (rule add_input_exact)
  show ?thesis using append_wakes [OF a(3)] get_work_itemD [OF a(1)] a(2) by (simp add: same_db_def input_row_for_def)
qed

lemma not_reopened_wakes:
  assumes "reopen_item env item s = (r, s')" and "r \<noteq> Inr True"
  shows "wakes {} (wm_db s) (wm_db s')"
proof -
  let ?go = "bind_op wi_now (\<lambda>now. wi_call (\<lambda>t. Some (reopen_work_item (wk_tenant item) (wk_id item) now t)))"
  have go: "wakes {} (wm_db u) (wm_db s')" if "?go u = (r, s')" for u
    using that assms(2)
    by (cases "wm_faults u"; cases "reopen_work_item (wk_tenant item) (wk_id item) (wm_clock u (wm_drawn u)) (wm_db u)")
      (auto simp: bind_op_def wi_now_def wi_call_def Let_def split: if_splits intro: reopen_wakes(2))
  show ?thesis
  proof (cases "item_cap env > 0")
    case True
    obtain res u where read: "wi_read (count_open_work_items (wk_tenant item)) s = (res, u)" by fastforce
    have db: "wm_db u = wm_db s" using read_same [OF read] by (simp add: same_db_def)
    from assms(1) True read have "s' = u \<or> ?go u = (r, s')"
      by (auto simp: reopen_item_def Let_def bind_op_def return_op_def split: sum.splits if_splits)
    with go [of u] db show ?thesis by auto
  next
    case False
    with assms(1) go show ?thesis by (simp add: reopen_item_def Let_def)
  qed
qed

section \<open>No wake is lost\<close>

text \<open>A step that changes the tables and leaves the threads, or moves one of them on.\<close>

lemma wake_inv_moved:
  assumes inv: "wake_inv env (s, xs @ (ten, i, w) # ys, g)" and step: "wi_step env s s'" and "wakes K (wm_db s) (wm_db s')" and "K \<subseteq> {i}"
    and "thread_ok (ten, i, w')"
  shows "wake_inv env (s', xs @ (ten, i, w') # ys, g)"
proof (rule wake_invI [OF inv])
  show "wi_inv env s'" using inv work_items.inv_step [OF step] by (simp add: wake_inv_def)
qed (use assms in \<open>auto simp: wake_inv_def\<close>)

lemma wake_inv_aside:
  assumes inv: "wake_inv env (s, ts, g)" and step: "wi_step env s s'" and "wakes {} (wm_db s) (wm_db s')"
  shows "wake_inv env (s', ts, g)"
proof (rule wake_invI [OF inv])
  show "wi_inv env s'" using inv work_items.inv_step [OF step] by (simp add: wake_inv_def)
qed (use assms in \<open>auto simp: wake_inv_def\<close>)

lemma wake_inv_same: "wake_inv env (s, ts, g) \<Longrightarrow> wm_db s' = wm_db s \<Longrightarrow> wake_inv env (s', ts, g)"
  by (simp add: wake_inv_def wi_inv_def)

text \<open>A thread that gives up, whatever it did to its own item.\<close>

lemma wake_inv_given_up:
  assumes inv: "wake_inv env (s, xs @ (ten, i, w) # ys, g)" and "wi_inv env s'" and "wakes {i} (wm_db s) (wm_db s')"
  shows "wake_inv env (s', xs @ ys, insert i g)"
  by (rule wake_invI [OF inv assms(2,3)]) (use inv in \<open>auto simp: wake_inv_def tended_def\<close>)

lemma thread_ok_simps [simp]:
  "thread_ok (ten, i, Waking)" "thread_ok (ten, i, Recorded)" "thread_ok (ten, i, Driving Looking)" "thread_ok (ten, i, Driving Admitting)"
  "thread_ok (ten, i, Driving Starting)" "thread_ok (ten, i, Driving (InRound turn)) \<longleftrightarrow> rt_item_id turn = i"
  by (auto simp: thread_ok_def)

lemma wake_step_inv: "wake_step env w w' \<Longrightarrow> wake_inv env w \<Longrightarrow> wake_inv env w'"
proof (induction rule: wake_step.induct)
  case (wk_opened req s view turn s' ts g)
  have "wake_inv env (s', ts, g)"
    by (rule wake_inv_aside [OF wk_opened(2) wi_step.ws_open [OF wk_opened(1)] runs_wake [OF open_woke wk_opened(1)]])
  then show ?case by (simp add: wake_inv_def)
next
  case (wk_not_opened req s e s' ts g)
  show ?case by (rule wake_inv_aside [OF wk_not_opened(2) wi_step.ws_open [OF wk_not_opened(1)] runs_wake [OF open_woke wk_not_opened(1)]])
next
  case (wk_refused turn code s s' xs ten i ys g)
  have run: "settle_round env turn (Failed code None) s = (fst (settle_round env turn (Failed code None) s), s')"
    using wk_refused(2) by (simp add: refuse_first_def prod_eq_iff)
  have i: "rt_item_id turn = i" and inv: "wi_inv env s" using wk_refused(3) by (simp_all add: wake_inv_def)
  from wake_inv_given_up [OF wk_refused(3) work_items.inv_step [OF wi_step.ws_settle [OF run] inv]] runs_wake [OF settle_woke run] i
  show ?case by simp
next
  case (wk_gate s ts g ten i)
  then show ?case by (simp add: wake_inv_def)
next
  case (wk_reopened item s s' ts g)
  have inv: "wi_inv env s'" using wk_reopened work_items.inv_step [OF wi_step.ws_reopen] by (auto simp: wake_inv_def)
  show ?case
    by (rule wake_invI [OF wk_reopened(2) inv runs_wake [OF reopen_woke wk_reopened(1)]]) (use wk_reopened(2) in \<open>auto simp: wake_inv_def\<close>)
next
  case (wk_not_reopened item s r s' ts g)
  show ?case by (rule wake_inv_aside [OF wk_not_reopened(3) wi_step.ws_reopen [OF wk_not_reopened(1)] not_reopened_wakes [OF wk_not_reopened(1,2)]])
next
  case (wk_queued ten i kind person body ref s sq s' xs ys g)
  show ?case by (rule wake_inv_moved [OF wk_queued(2) wi_step.ws_input [OF wk_queued(1)] queued_wakes [OF wk_queued(1)]]) simp_all
next
  case (wk_steered ten i kind person body ref s sq k s' xs ys g)
  have "items_ok (wm_db s)" using wk_steered(2) by (simp add: wake_inv_def wi_inv_def tables_ok_def)
  note quiet = steered_not_due [OF this wk_steered(1)]
  have "wake_inv env (s', xs @ (ten, i, Waking) # ys, g)"
    by (rule wake_inv_moved [OF wk_steered(2) wi_step.ws_input [OF wk_steered(1)] quiet(2)]) simp_all
  then show ?case by (rule wake_inv_done) (use quiet(1) in auto)
next
  case (wk_not_recorded ten i kind person body ref s e s' xs ys g)
  then have db: "wm_db s' = wm_db s" using add_input_error by (fastforce simp: same_db_def)
  show ?case by (rule wake_inv_given_up [OF wk_not_recorded(2)]) (use wk_not_recorded(2) db in \<open>simp_all add: wake_inv_def wi_inv_def\<close>)
next
  case (wk_woken ten i s v s' xs ys g)
  have db: "wm_db s' = wm_db s" using keepsD [OF keeps_summary [OF stable_same] same_db_refl wk_woken(1)] by (simp add: same_db_def)
  then show ?case using wk_woken(2) by (auto simp: wake_inv_def wi_inv_def)
next
  case (wk_not_woken ten i s e s' xs ys g)
  have db: "wm_db s' = wm_db s" using keepsD [OF keeps_summary [OF stable_same] same_db_refl wk_not_woken(1)] by (simp add: same_db_def)
  show ?case by (rule wake_inv_given_up [OF wk_not_woken(2)]) (use wk_not_woken(2) db in \<open>simp_all add: wake_inv_def wi_inv_def\<close>)
next
  case (wk_look ten i s d s' xs ys g)
  have "items_ok (wm_db s)" using wk_look(2) by (simp add: wake_inv_def wi_inv_def tables_ok_def)
  from this wk_look(1) show ?case
  proof (cases rule: look_cases)
    case due
    then show ?thesis using wk_look(2) by (auto simp: go_on_def gave_up_def wake_inv_def wi_inv_def same_db_def)
  next
    case up
    have "wake_inv env (s', xs @ ys, insert i g)"
      by (rule wake_inv_given_up [OF wk_look(2)]) (use wk_look(2) up in \<open>simp_all add: wake_inv_def wi_inv_def same_db_def\<close>)
    with up show ?thesis by simp
  next
    case idle
    have "wake_inv env (s', xs @ ys, g)" by (rule wake_inv_done [OF wk_look(2)]) (use idle in \<open>auto simp: same_db_def\<close>)
    with idle show ?thesis by simp
  qed
next
  case (wk_admit admitted d s xs ten i ys g)
  then show ?case
    by (cases admitted) (auto simp: drive_admit_def go_on_def gave_up_def wake_inv_def tended_def)
next
  case (wk_start ten i s d s' xs ys g)
  have inv: "wi_inv env s" using wk_start(2) by (simp add: wake_inv_def)
  from inv wk_start(1) show ?case
  proof (cases rule: start_cases)
    case (started turn)
    obtain res where "start_round env ten i s = (res, s')"
      using wk_start(1) by (auto simp: drive_start_def split: prod.splits sum.splits)
    from wake_inv_moved [OF wk_start(2) wi_step.ws_start [OF this] started(3)] started show ?thesis by (simp add: go_on_def gave_up_def)
  next
    case up
    have "wake_inv env (s', xs @ ys, insert i g)"
      by (rule wake_inv_given_up [OF wk_start(2)]) (use wk_start(2) up in \<open>simp_all add: wake_inv_def wi_inv_def same_db_def\<close>)
    with up show ?thesis by simp
  next
    case idle
    have "wake_inv env (s', xs @ ys, g)" by (rule wake_inv_done [OF wk_start(2)]) (use idle in \<open>auto simp: same_db_def\<close>)
    with idle show ?thesis by simp
  qed
next
  case (wk_round run turn s dr s' xs ten i ys g)
  obtain out res where run: "settle_round env turn out s = (res, s')"
    using wk_round(1) unfolding run_round_def Let_def by (auto split: prod.splits sum.splits)
  have "rt_item_id turn = i" using wk_round(2) by (simp add: wake_inv_def)
  with runs_wake [OF settle_woke run] have "wakes {i} (wm_db s) (wm_db s')" by simp
  then show ?case by (rule wake_inv_moved [OF wk_round(2) wi_step.ws_settle [OF run]]) simp_all
next
  case (wk_stop ten i s r1 s' ts g)
  show ?case by (rule wake_inv_aside [OF wk_stop(2) wi_step.ws_stop [OF wk_stop(1)] runs_wake [OF stop_woke wk_stop(1)]])
next
  case (wk_revoke item reason s r2 s' ts g)
  show ?case by (rule wake_inv_aside [OF wk_revoke(2) wi_step.ws_revoke [OF wk_revoke(1)] runs_wake [OF revoke_woke wk_revoke(1)]])
next
  case (wk_owner ten src s r3 s' ts g)
  show ?case by (rule wake_inv_aside [OF wk_owner(2) wi_step.ws_owner [OF wk_owner(1)] runs_wake [OF find_owner_woke wk_owner(1)]])
next
  case (wk_touch ten sid at s r4 s' ts g)
  show ?case by (rule wake_inv_aside [OF wk_touch(2) wi_step.ws_touch [OF wk_touch(1)] runs_wake [OF touch_woke wk_touch(1)]])
next
  case (wk_elsewhere s ts g ths sgs ps ms)
  show ?case by (rule wake_inv_aside [OF wk_elsewhere wi_step.ws_elsewhere]) (simp add: wakes_aside)
qed (auto intro: wake_inv_same simp: register_turn_origin_def unregister_turn_origin_def)

interpretation waking: invariant_system "\<lambda>w. wi_start (fst w) \<and> snd w = ([], {})" "wake_step env" "wake_inv env" for env
proof
  show "wake_inv env w" if "wi_start (fst w) \<and> snd w = ([], {})" for w
    using that work_items.inv_start [of "fst w"] by (cases w) (auto simp: wake_inv_def wi_start_def)
  show "wake_inv env w'" if "wake_step env w w'" "wake_inv env w" for w w'
    using that by (rule wake_step_inv)
qed

text \<open>
  C11. However messages, rounds, stops and reopenings interleave, an item for which a round is due is never forgotten: a
  thread that has not finished is at work on it, or a thread of it was refused admission, stopped at the hourly cap or
  failed at the store.
\<close>

theorem no_wake_is_lost:
  assumes "wi_start s0" and "(wake_step env)\<^sup>*\<^sup>* (s0, [], {}) (s, ts, given_up)" and "r \<in> set (wt_items (wm_db s))" and "round_ready (wm_db s) r"
  shows "wi_id r \<in> given_up \<or> (\<exists>ten w. (ten, wi_id r, w) \<in> set ts \<and> (\<forall>st. w \<noteq> Driving (DriverDone st)))"
proof -
  have "wake_inv env (s, ts, given_up)" by (rule waking.inv_reachable [OF _ assms(2)]) (simp add: assms(1))
  with assms(3,4) have "tended ts given_up (wi_id r)" "\<And>th. th \<in> set ts \<Longrightarrow> thread_ok th" by (auto simp: wake_inv_def list_all_iff)
  then show ?thesis by (fastforce simp: tended_def thread_ok_def)
qed

text \<open>A round that failed, and a message recorded while its driver is about to look again.\<close>

definition example_threads :: "(string \<times> string \<times> worker) list" where
  "example_threads = [(''ten'', ''wi_1'', Recorded), (''ten'', ''wi_1'', Driving Looking)]"

lemma example_turn: "\<exists>view. open_item example_env example_request example_state = (Inr (view, first_turn example_request ''1''), example_opened)"
proof -
  have "case fst (open_item example_env example_request example_state) of Inl _ \<Rightarrow> False | Inr (view, turn) \<Rightarrow> turn = first_turn example_request ''1''"
    by code_simp
  then obtain view where "fst (open_item example_env example_request example_state) = Inr (view, first_turn example_request ''1'')"
    by (cases "fst (open_item example_env example_request example_state)") auto
  then show ?thesis unfolding example_opened_def by (metis prod.collapse)
qed

lemma example_world: "(wake_step example_env)\<^sup>*\<^sup>* (example_state, [], {}) (example_told, example_threads, {})"
proof -
  let ?turn = "first_turn example_request ''1''"
  have turn: "rt_tenant_id ?turn = ''ten''" "rt_item_id ?turn = ''wi_1''" by code_simp+
  obtain view where "open_item example_env example_request example_state = (Inr (view, ?turn), example_opened)" using example_turn by blast
  from wake_step.wk_opened [OF this, of "[]" "{}"] turn
  have a: "wake_step example_env (example_state, [], {}) (example_opened, [(''ten'', ''wi_1'', Driving (InRound ?turn))], {})" by simp
  obtain res where res: "settle_round example_env ?turn (Failed ''x'' None) example_opened = (res, example_failed)"
    by (metis example_failed_def prod.collapse)
  have "en_chat example_env = Some example_chat" by (simp add: example_env_def)
  with res have "\<exists>dr. run_round example_env (ChatFailed ''x'') ?turn example_opened = (dr, example_failed)"
    by (cases res) (simp_all add: run_round_def Let_def)
  then obtain dr where dr: "run_round example_env (ChatFailed ''x'') ?turn example_opened = (dr, example_failed)" ..
  from wake_step.wk_round [OF dr, of "[]" "''ten''" "''wi_1''" "[]" "{}"]
  have b: "wake_step example_env (example_opened, [(''ten'', ''wi_1'', Driving (InRound ?turn))], {}) (example_failed, [(''ten'', ''wi_1'', Driving Looking)], {})" by simp
  have c: "wake_step example_env (example_failed, [(''ten'', ''wi_1'', Driving Looking)], {}) (example_failed, [(''ten'', ''wi_1'', Waking), (''ten'', ''wi_1'', Driving Looking)], {})"
    by (rule wake_step.wk_gate)
  have "case fst (add_input example_env ''ten'' ''wi_1'' InMessage True ''go'' ''d2'' example_failed) of Inr (_, QueuedInput) \<Rightarrow> True | _ \<Rightarrow> False" by code_simp
  then obtain sq where "fst (add_input example_env ''ten'' ''wi_1'' InMessage True ''go'' ''d2'' example_failed) = Inr (sq, QueuedInput)"
    by (auto split: sum.splits prod.splits input_path.splits)
  then have "add_input example_env ''ten'' ''wi_1'' InMessage True ''go'' ''d2'' example_failed = (Inr (sq, QueuedInput), example_told)"
    unfolding example_told_def by (metis prod.collapse)
  from wake_step.wk_queued [OF this, of "[]" "[(''ten'', ''wi_1'', Driving Looking)]" "{}"]
  have d: "wake_step example_env (example_failed, [(''ten'', ''wi_1'', Waking), (''ten'', ''wi_1'', Driving Looking)], {}) (example_told, example_threads, {})"
    by (simp add: example_threads_def)
  from a b c d show ?thesis by (meson converse_rtranclp_into_rtranclp rtranclp.rtrancl_refl)
qed

lemma no_wake_is_lost_witness:
  "\<exists>r \<in> set (wt_items (wm_db example_told)). round_ready (wm_db example_told) r \<and> (\<exists>ten w. (ten, wi_id r, w) \<in> set example_threads \<and> (\<forall>st. w \<noteq> Driving (DriverDone st)))"
proof -
  have "list_ex (round_ready (wm_db example_told)) (wt_items (wm_db example_told))" by code_simp
  then obtain r where r: "r \<in> set (wt_items (wm_db example_told))" "round_ready (wm_db example_told) r" by (auto simp: list_ex_iff)
  from no_wake_is_lost [OF example_start example_world r] r show ?thesis by blast
qed

section \<open>A round that is due starts\<close>

text \<open>A store that answers every call.\<close>

lemma clean_read: "wm_faults s = [] \<Longrightarrow> wi_read f s = (Inr (f (wm_db s)), s)"
  by (simp add: wi_read_def wi_call_def)

lemma clean_cap: "wm_faults s = [] \<Longrightarrow> \<exists>room s'. check_hourly_cap env ten i s = (Inr room, s') \<and> wm_faults s' = []"
  by (auto simp: check_hourly_cap_def Let_def bind_op_def wi_now_def return_op_def clean_read)

lemma clean_plan:
  assumes "wm_faults s = []" and "get_work_item ten i (wm_db s) = Some (r, act)" and "to_view r act = Inr item"
  shows "\<exists>plan s'. plan_round env ten i s = (Inr plan, s') \<and> wm_faults s' = []"
proof -
  obtain room s' where "check_hourly_cap env ten i s = (Inr room, s')" "wm_faults s' = []" using clean_cap [OF assms(1)] by blast
  then show ?thesis
    using assms by (auto simp: plan_round_def bind_op_def clean_read or_not_found_def lift_op_def return_op_def Let_def)
qed

definition cap_free :: "wi_env \<Rightarrow> wi_state \<Rightarrow> work_item_row \<Rightarrow> bool" where
  "cap_free env s r \<longleftrightarrow> (\<forall>k \<ge> wm_drawn s. 0 < wc_max_rounds_per_hour (en_config env) \<longrightarrow>
     count_work_item_rounds_since (wi_tenant r) (wi_id r) (wm_clock s k - HOUR) (wm_db s) < wc_max_rounds_per_hour (en_config env))"

lemma due_plan:
  assumes ok: "items_ok (wm_db s)" and "wm_faults s = []" and found: "get_work_item ten i (wm_db s) = Some (r, act)"
    and "round_ready (wm_db s) r" and "cap_free env s r"
  obtains p s' where "plan_round env ten i s = (Inr (Inr p), s')" "wm_faults s' = []" "same_db s s'" "plan_spec env s s' r (Inr p)"
proof -
  obtain item where "to_view r act = Inr item" by (rule view_exists [OF ok found])
  with clean_plan [OF assms(2) found] obtain plan s' where plan: "plan_round env ten i s = (Inr plan, s')" "wm_faults s' = []" by blast
  obtain r' act' where "get_work_item ten i (wm_db s) = Some (r', act')" "same_db s s'" "plan_spec env s s' r' plan"
    by (rule plan_round_exact [OF ok plan(1)])
  with found have spec: "plan_spec env s s' r plan" and same: "same_db s s'" by simp_all
  show ?thesis
  proof (cases plan)
    case (Inl no)
    with spec assms(4,5) show ?thesis by (cases no) (auto simp: plan_spec_def Let_def cap_free_def)
  next
    case (Inr p)
    with plan spec same that show ?thesis by blast
  qed
qed

lemma start_answers:
  assumes "\<And>u. wt_rounds u = wt_rounds t \<Longrightarrow> wi_id ` set (wt_items u) = wi_id ` set (wt_items t) \<Longrightarrow> insert_round rd u \<noteq> None"
  obtains b t' where "start_work_item_round rd n clear t = Some (b, t')"
proof -
  let ?hit = "\<lambda>r. wi_tenant r = rd_tenant rd \<and> wi_id r = rd_item_id rd \<and> wi_state r = ''open'' \<and> wi_seq r + 1 = rd_seq rd \<and>
     \<not> list_ex (\<lambda>x. rd_state x = ''running'') (rounds_of t (rd_item_id rd))"
  let ?f = "\<lambda>r. if ?hit r then started_item rd clear r else r"
  let ?u = "t\<lparr>wt_items := map ?f (wt_items t), wt_inputs := map (consumed_input rd n) (wt_inputs t)\<rparr>"
  have "wi_id ` set (wt_items ?u) = wi_id ` set (wt_items t)" using keys_map [of wi_id ?f "wt_items t"] by simp
  then obtain t2 where "insert_round rd ?u = Some t2" using assms [of ?u] by auto
  then show ?thesis using that by (cases "list_ex ?hit (wt_items t)") (simp_all add: start_work_item_round_def Let_def)
qed

lemma due_start:
  assumes inv: "wi_inv env s" and "wm_faults s = []" and found: "get_work_item ten i (wm_db s) = Some (r, act)"
    and "round_ready (wm_db s) r" and "cap_free env s r"
  shows "\<exists>turn s'. start_round env ten i s = (Inr (Inr turn), s') \<and> rt_seq turn = wi_seq r + 1"
proof -
  have ok: "items_ok (wm_db s)" using inv by (simp add: wi_inv_def tables_ok_def)
  obtain p s1 where plan: "plan_round env ten i s = (Inr (Inr p), s1)" "wm_faults s1 = []" "same_db s s1" "plan_spec env s s1 r (Inr p)"
    by (rule due_plan [OF ok assms(2-5)])
  note r = get_work_itemD [OF found]
  from plan(4) r have p: "to_view r act = Inr (pl_item p)" "pl_turn p = next_turn (pl_item p) (pending_inputs (wm_db s) i)"
    by (simp_all add: plan_spec_def Let_def)
  note turn = next_turn_of_row [OF ok found p(1), of "pending_inputs (wm_db s) i", folded p(2)]
  let ?now = "wm_clock s1 (wm_drawn s1)"
  let ?rd = "running_round (pl_turn p) ?now"
  have rd: "rd_item_id ?rd = wi_id r" "rd_tenant ?rd = wi_tenant r" "rd_seq ?rd = wi_seq r + 1" using turn by (simp_all add: running_round_def)
  have "rd_seq x \<le> wi_seq r" if "x \<in> set (wt_rounds (wm_db s))" "rd_item_id x = wi_id r" for x
    using items_okD [OF ok r(1)] numbered_bound [of rd_seq "rounds_of (wm_db s) (wi_id r)" x] that
    by (simp add: row_ok_def rounds_ok_def rounds_of_def)
  then have fresh: "\<not> list_ex (\<lambda>x. rd_item_id x = rd_item_id ?rd \<and> rd_seq x = rd_seq ?rd) (wt_rounds (wm_db s))"
    using rd by (fastforce simp: list_ex_iff)
  have "insert_round ?rd t \<noteq> None" if "wt_rounds t = wt_rounds (wm_db s)" "wi_id ` set (wt_items t) = wi_id ` set (wt_items (wm_db s))" for t
  proof -
    have "wi_id r \<in> wi_id ` set (wt_items t)" using r(1) by (simp add: that(2))
    then have "has_item t (rd_item_id ?rd)" unfolding rd(1) has_item_def list_ex_iff by force
    with fresh that(1) show ?thesis by (simp add: insert_round_def)
  qed
  then obtain b t' where start: "start_work_item_round ?rd (pl_last_input_seq p) (pl_clear_attention p) (wm_db s) = Some (b, t')" by (rule start_answers)
  have b by (rule start_hits [OF r(1) assms(4) rd start])
  obtain x u where pub: "(if pl_clear_attention p
      then publish_item (pl_item p) ''attention_cleared'' [(''roundSeq'', JNumber (PosInt (of_nat (rt_seq (pl_turn p)))))]
      else return_op ()) (s1\<lparr>wm_drawn := Suc (wm_drawn s1), wm_faults := [], wm_db := t'\<rparr>) = (Inr x, u)"
    by (cases "pl_clear_attention p") (auto simp: publish_item_def bind_op_def attempt_op_def return_op_def clean_read)
  have "start_round env ten i s = (Inr (Inr (pl_turn p)), u)"
    unfolding start_round_def
    using plan start \<open>b\<close> pub by (simp add: bind_op_def wi_now_def wi_call_def then_op_def return_op_def same_db_def)
  with turn show ?thesis by blast
qed

text \<open>
  C20. A driver that looks at an item for which a round is due starts that round, when the store answers, a slot is
  granted and the hourly cap is not reached.
\<close>

theorem due_round_starts:
  assumes "wi_start s0" and "(wake_step env)\<^sup>*\<^sup>* (s0, [], {}) (s, xs @ (ten, i, Driving Looking) # ys, g)"
    and "get_work_item ten i (wm_db s) = Some (r, act)" and "round_ready (wm_db s) r" and "wm_faults s = []" and "cap_free env s r"
  shows "\<exists>turn s'. (wake_step env)\<^sup>*\<^sup>* (s, xs @ (ten, i, Driving Looking) # ys, g) (s', xs @ (ten, i, Driving (InRound turn)) # ys, g) \<and>
    rt_seq turn = wi_seq r + 1"
proof -
  have "wake_inv env (s, xs @ (ten, i, Driving Looking) # ys, g)" by (rule waking.inv_reachable [OF _ assms(2)]) (simp add: assms(1))
  then have inv: "wi_inv env s" and ok: "items_ok (wm_db s)" by (simp_all add: wake_inv_def wi_inv_def tables_ok_def)
  obtain p s1 where plan: "plan_round env ten i s = (Inr (Inr p), s1)" "wm_faults s1 = []" "same_db s s1"
    by (rule due_plan [OF ok assms(5,3,4,6)])
  have "drive_look env ten i s = (Admitting, s1)"
    using plan(1) by (simp add: drive_look_def round_due_def bind_op_def return_op_def)
  from wake_step.wk_look [OF this, of xs ys g]
  have a: "wake_step env (s, xs @ (ten, i, Driving Looking) # ys, g) (s1, xs @ (ten, i, Driving Admitting) # ys, g)"
    by (simp add: go_on_def gave_up_def)
  have b: "wake_step env (s1, xs @ (ten, i, Driving Admitting) # ys, g) (s1, xs @ (ten, i, Driving Starting) # ys, g)"
    using wake_step.wk_admit [of "Inr ()" Starting env s1 xs ten i ys g] by (simp add: drive_admit_def go_on_def gave_up_def)
  have "wi_inv env s1" "get_work_item ten i (wm_db s1) = Some (r, act)" "round_ready (wm_db s1) r" "cap_free env s1 r"
    using inv assms(3,4,6) plan(3) by (auto simp: wi_inv_def same_db_def cap_free_def)
  from due_start [OF this(1) plan(2) this(2-4)] obtain turn s'
    where start: "start_round env ten i s1 = (Inr (Inr turn), s')" and sq: "rt_seq turn = wi_seq r + 1" by blast
  have "drive_start env ten i s1 = (InRound turn, s')" using start by (simp add: drive_start_def)
  from wake_step.wk_start [OF this, of xs ys g]
  have c: "wake_step env (s1, xs @ (ten, i, Driving Starting) # ys, g) (s', xs @ (ten, i, Driving (InRound turn)) # ys, g)"
    by (simp add: go_on_def gave_up_def)
  from a b c sq show ?thesis by (meson converse_rtranclp_into_rtranclp rtranclp.rtrancl_refl)
qed

lemma due_round_starts_witness:
  "\<exists>turn s'. (wake_step example_env)\<^sup>*\<^sup>* (example_told, example_threads, {})
     (s', [(''ten'', ''wi_1'', Recorded), (''ten'', ''wi_1'', Driving (InRound turn))], {})"
proof -
  have "case get_work_item ''ten'' ''wi_1'' (wm_db example_told) of None \<Rightarrow> False | Some (r, act) \<Rightarrow>
      round_ready (wm_db example_told) r \<and> wi_tenant r = ''ten'' \<and> wi_id r = ''wi_1''" by code_simp
  then obtain r act where r: "get_work_item ''ten'' ''wi_1'' (wm_db example_told) = Some (r, act)" "round_ready (wm_db example_told) r"
    "wi_tenant r = ''ten''" "wi_id r = ''wi_1''"
    by (auto split: option.split_asm)
  have clean: "wm_faults example_told = []" "length (wt_rounds (wm_db example_told)) = 1" by code_simp+
  have "count_work_item_rounds_since ten i since (wm_db example_told) < 2" for ten i since
  proof -
    have "count_work_item_rounds_since ten i since (wm_db example_told) \<le> length (wt_rounds (wm_db example_told))"
      unfolding count_work_item_rounds_since_def rounds_of_def by (meson le_trans length_filter_le)
    with clean(2) show ?thesis by simp
  qed
  then have "cap_free example_env example_told r" by (simp add: cap_free_def example_env_def)
  with due_round_starts [OF example_start, of example_env example_told "[(''ten'', ''wi_1'', Recorded)]" "''ten''" "''wi_1''" "[]" "{}" r act]
    example_world r clean show ?thesis by (fastforce simp: example_threads_def)
qed

end
