(* ===== verification/Spec2Isabelle.thy ===== *)
theory Spec2Isabelle
  imports Runtime_Properties Router Policy Swarm Identity_Limits Scheduler_Behaviour Orchestration_Properties
    Billing_Evidence Egress_Proxy Admission_Properties Work_Item_Wakes
begin

text \<open>
  Verification of the core of the kura daemon, the Rust workspace under src/crates.

  \<^bold>\<open>The program.\<close> The daemon runs agent work for the tenants of an installation. An inbound message is
  routed to a session (crates/engine/router); work on it is a run of steps and tool calls kept in
  the run ledger (crates/engine/runtime), from which checkpoints are taken and to which they are
  restored after a restart; side effects wait for an approval (crates/domains/policy); a run can
  start bounded sub-agents (crates/domains/swarm). Schedules (crates/domains/scheduler) start runs and
  workflows at cron times and retry failed dispatches; a workflow (crates/domains/orchestration) is planned
  from a goal over the capabilities that the supervisor (crates/domains/capabilities) reports healthy, and its
  steps follow their dependencies. Callers hold access tokens obtained by pairing
  (crates/iam/identity/src/auth.rs), which the resolver turns into a tenant context with the
  permissions of a membership; tenants, memberships, invitations and token grants are managed by
  the identity manager over SQLite tables (crates/iam/identity, crates/persistence/store). Work of hosted
  tenants is metered: before it starts, billing (crates/domains/billing) reserves from a quota, and commits or
  returns the reservation afterwards. Requests out of the daemon and of tenant containers pass the egress policy
  (crates/foundation/egress), the latter through a forward proxy (crates/foundation/egress-proxy). Turns of a
  chat pass an admission gate that shares a bounded number of slots among the tenants
  (crates/domains/chat/src/admission.rs). A work item (crates/domains/workitems) is a piece of work that runs in
  rounds, each of them a turn, and that later messages of a conversation wake. HTTP
  handlers, channel clients, model providers and process start-up surround these parts.

  \<^bold>\<open>How the code is modelled.\<close> A struct is a record, an enum a datatype, a \<open>Result\<close> a sum with the
  error on the left. The state behind a manager's lock is a record, and a method is a function from
  that record to the result and the record it leaves: the critical section of the method. A method
  with two critical sections is two functions (\<open>authenticate_read\<close>, \<open>authenticate_write\<close>). Hash maps
  are partial functions, vectors of keys are lists, strings are UTF-8 byte lists, instants are
  integers (nanoseconds), 64-bit counters are words that wrap. A panic is the value \<open>None\<close>. Recursion
  is structural over the lists the code iterates over, except for four loops with a measure: the split into
  words, the search for a cron time (bounded by its deadline), the catch-up over missed due times (bounded
  by the present) and the pass over the queues of the admission gate; so no fuel is needed. Parameters
  of the model are what the code calls and does not contain: the clock readings and random
  identifiers an operation draws, SHA-256, addition of seconds to an instant (which panics out of
  range), the iteration order of a hash set. Where a theorem needs identifiers to be new, it or the
  step relation says so.

  \<^bold>\<open>Library.\<close>
  \<^item> Prelude: the types above, \<open>str::trim\<close>, decimal numerals, general lemmas.
  \<^item> Registry: the pattern all managers share, a map with an ordered vector of keys, or one vector
    per owner; the locales \<open>ordered_registry\<close>, \<open>owned_registry\<close> (what listings return),
    \<open>status_machine\<close> (final statuses stay) and \<open>invariant_system\<close> (invariants of reachable states).
    Every manager interprets them on its own state.
  \<^item> Programs: the sequencing of fallible calls on a state (the \<open>?\<close> operator), with a logic of triples
    for it: what holds after success and after failure, what is kept by every call.
  \<^item> Tables: rows under a primary key and unique indexes, ordered and limited selections.
  \<^item> Shared_Types: JSON values and the summaries that records of several crates carry.

  \<^bold>\<open>Run ledger\<close> (crates/engine/runtime/src/lib.rs). Runtime_Types has the records and status
  vocabularies, Runtime_Ledger every operation of \<open>Manager\<close>, Runtime_Invariant the well-formedness
  \<open>ledger_wf\<close> and its preservation, Runtime_Checkpoint snapshots and restores, Runtime_Properties the
  theorems: reachable ledgers are well-formed, statuses of runs are derived as a function of the set
  of step statuses, finished steps and tool calls never change, what cancelling and resuming do,
  errors change nothing, and a ledger is rebuilt exactly from the snapshots of its runs. Two
  theorems show surprising behaviour: a run whose steps are all over can be derived as queued, and
  a reused tool-call id makes a step list a call of another step.

  \<^bold>\<open>Session router\<close> (crates/engine/router/src/lib.rs), theory Router: routing implements find-or-create
  on routing keys; keys separate coordinates without colons and can collide otherwise; the
  generation of a session wraps; sessions are restored exactly.

  \<^bold>\<open>Approvals\<close> (crates/domains/policy/src/lib.rs), theory Policy: the decision log holds for every
  approval exactly its request and, once resolved, its one resolution; listings never panic on
  reachable states; restore is exact.

  \<^bold>\<open>Sub-agents\<close> (crates/domains/swarm/src/lib.rs), theory Swarm: bounds on children, the status of a run
  as a function of its children, the effect of a restart, and the cut of previews on character
  boundaries.

  \<^bold>\<open>Tokens\<close> (crates/iam/identity/src/auth.rs), theory Auth: the hash index is exact, the two critical
  sections of an authentication decide as one look at the stored token, a revoked, rotated or
  expired token is refused for ever, a pairing is completed once.

  \<^bold>\<open>Identity\<close> (crates/iam/identity/src/types.rs, permissions.rs, resolver.rs, audit.rs, manager.rs,
  crates/persistence/store/src/identity.rs). Identity_Types has the records and the role grants;
  Identity_Store the tables, with primary keys, unique indexes and statements that may fail;
  Identity_Manager every operation; Identity_Properties the triples; Identity_Theorems and Identity_Limits the theorems:
  a resolved context is entitled to what it says, a tenant keeps an active owner whatever calls
  fail, changes are audited first, provisioning is idempotent; and what goes wrong: invitations
  after the thousandth cannot be used, a former member cannot rejoin, a revoked grant cannot be
  given again, a failed bootstrap loses its audit event.

  \<^bold>\<open>Capability supervisor\<close> (crates/domains/capabilities/src/supervisor.rs), theory Capabilities: the failure
  count, the backoff and the status after any sequence of reports, exactly.

  \<^bold>\<open>Scheduler\<close> (crates/domains/scheduler/src/lib.rs, crates/persistence/store/src/schedule.rs). Cron has the
  parser of cron fields and the search for the next due time, over a calendar whose documented laws are the
  predicate \<open>calendar_laws\<close> (satisfied by a UTC calendar); Scheduler_Types the records, Scheduler every
  operation over the tables, the run ledger, two clocks and the event log; Scheduler_Invariant the
  well-formedness of tables and documents and its preservation by every operation, whatever calls of the store
  fail; Scheduler_Properties and Scheduler_Behaviour the theorems: dispatched attempts name runs of the ledger,
  retries stay within the policy, stored schedules decode and round-trip, due schedules settle, missed
  intervals are counted exactly, skipped ones start nothing; and what goes wrong: a cancelled schedule is
  retried, a run is started without a record when the next due time cannot be computed, a failed dispatch
  stays due and multiplies.

  \<^bold>\<open>Workflows\<close> (crates/domains/orchestration/src/lib.rs). Orchestration_Types has the records, Orchestration
  execution, planner and manager, Orchestration_Properties the theorems over the step relation \<open>wf_run\<close>: steps
  follow their dependencies, attempts are bounded, acyclic workflows progress while steps succeed, the planner
  returns well-formed plans, the manager's registry stays consistent; and what goes wrong: a step behind a
  failed one waits for ever, the goal of a local shell step is not quoted.

  \<^bold>\<open>Billing\<close> (crates/domains/billing/src, crates/persistence/store/src/billing.rs). Billing_Types has the records,
  the catalog of quotas, periods and operation keys; Billing every operation of the manager over the tables, with
  statements that may fail; Billing_Accounts the accounts: what the counters have to do with the reservations,
  and that each operation keeps it; Billing_Properties the theorems: counters agree with the reservations in every
  reachable state, grants stay within the limit, replays change nothing, recovery settles what was pending,
  operation keys are unambiguous; Billing_Evidence the dashboards, denials and the redacted evidence, with the
  redaction proved exact. What goes wrong: a retried operation passes the quota, a refund after the commit frees the
  quota of others, a failed statement or an overlapping adjustment leaves counters wrong, the previous period is
  never shown. The calendar (chrono) is a parameter; the accounts need of it that the stamp of a date ends in a
  visible character (\<open>plain_stamps\<close>), which the calendar of the witnesses satisfies.

  \<^bold>\<open>Egress\<close> (crates/foundation/egress/src/lib.rs, tenant\_key.rs, crates/foundation/egress-proxy/src/lib.rs).
  Net_Address has the addresses of the standard library with their parser and printer; Egress the policy, proved
  equal to a specification in CIDR blocks, and the pinned resolution; Egress_Key the credentials of tenants;
  Egress_Proxy the proxy: tenant slots, the request head, the handler with every answer, and the connections as an
  interleaved step relation. The proxy relies on its resolver through the locale \<open>pinning\<close>, interpreted on
  the policy's resolution: whatever is dialled is permitted. Slots are bounded and returned, the forwarded head is
  the request's without the proxy's own headers. What goes wrong: a name with a trailing dot passes the
  blocklist, embedded IPv4 addresses other than mapped ones pass the address rules, a credential with a
  two-byte character stops the handler, a forwarded head ends in one line end too many, and later requests of a
  connection are copied with the credential. The URL parser, the resolver, base64 and HMAC are parameters.

  \<^bold>\<open>Turn admission\<close> (crates/domains/chat/src/admission.rs). Admission has the limits, the two buckets of a tenant,
  the queues, the scheduling pass, admission with its waits, release, withdrawal, sweep and token charges;
  Admission_Properties the interleaving of turns as an inductive relation and the theorems: permits stay within the
  global and the tenant caps and the queues within their depths, no slot idles while an eligible turn waits, a tenant
  is served after at most one turn of every other one, turns of a tenant are served in the order of arrival, the
  number of turns is bounded by burst and rate. What goes wrong: a caller with an older instant makes a bucket fill
  twice for the same time, and the token budget goes into debt by every turn that is running. Levels of buckets are
  rational numbers: the rounding of floating point is not modelled.

  \<^bold>\<open>Bounds.\<close> The limits of the code (1000 rows of a lookup, 500 memberships of a resolution, 8 children
  of a swarm run, 256 bytes of an external subject, 2000 bytes of a preview) are definitions or
  literals as in the source.

  \<^bold>\<open>Work items\<close> (crates/domains/workitems, crates/persistence/store/src/work_items.rs). Work_Item_Types has the
  vocabulary and the stage of an item, Work_Item_Report the report a round ends with and the question it is asked,
  Work_Item_Store the tables and every statement on them with its keys and the index of one live owner, Work_Items the
  manager: opening, settling, inputs, planning and starting rounds, stop, revocation, reopening, the loop of the driver,
  the authority of a message and its route. Work_Item_Invariant and Work_Item_Keeps show that each statement keeps the
  tables well-formed, Work_Item_Rounds what planning and starting a round do exactly, and Work_Item_Steps that every
  operation is a sequence of these statements (\<open>leaf\<close>), so that invariants are proved once per statement and hold for
  every interleaving (\<open>wi_step\<close>, an \<open>invariant_system\<close>). Work_Item_Properties has the theorems: rounds are numbered and
  run one at a time, inputs are pending or name the round that read them, a started round quotes exactly the pending
  inputs, the caps on open items and on rounds per hour hold, a conversation has one owner, a stop is final, an item is
  shown as queued exactly when a round is due; and that no input can leave the frame it is quoted in.
  Work_Item_Wakes adds the threads that drive rounds: however they interleave, an item with a due round has a thread
  at work or one that gave up (\<open>waking\<close>), and a driver that looks at it starts the round. Two theorems show flaws:
  a failed write of the thread leaves an item that nobody runs and that owns its conversation, and a message that
  waits for a round is left unread when that round ends the item. The chat service (steering, cancelling, the outcome
  of a turn) is a parameter.

  \<^bold>\<open>Not modelled.\<close> HTTP handlers, command line and terminal clients, channel clients, model providers,
  sandboxes and MCP servers (input and output around the managers); SQL beyond the statements of
  the identity, schedule, billing and work item tables; serialisation, except wire names used as data; the interleaving of threads
  inside one critical section, which the lock excludes; the driver of the HTTP layer that executes the tool calls of a
  workflow. The managers of bindings, threads, profiles, reminders, deliveries and evaluations are the next parts to
  add.
\<close>

end
